(* ===== verification/NF_Prelude.thy ===== *)
theory NF_Prelude
  imports Main "HOL-Library.Sublist"
begin

text \<open>
  The ground the component theories stand on: identifiers, Go's string helpers, tables of
  rows, and the operations of a store.

  An operation of a store is a function from a world to a result and a world. A world is the
  database and a script of statement outcomes: each SQL statement consumes one entry, and an
  entry \<^term>\<open>True\<close> makes that statement fail as a lost connection would, with no
  effect. A script that has run out lets every later statement succeed. So every
  \<open>if err != nil\<close> after a statement is a branch of the model, and a theorem about
  an operation speaks of every pattern of failures.
\<close>

section \<open>Identifiers and instants\<close>

text \<open>
  \<open>uuid.UUID\<close>; \<open>uuid.Nil\<close> is 0. Instants and durations are integers of nanoseconds, as Go's
  \<open>time.Duration\<close>; the epoch is 0.
\<close>

type_synonym uuid = nat

abbreviation uuid_Nil :: uuid where
  "uuid_Nil \<equiv> 0"

type_synonym time = int

abbreviation epoch :: time where
  "epoch \<equiv> 0"

abbreviation second :: time where
  "second \<equiv> 1000000000"

section \<open>Errors of the database\<close>

datatype sqlerr = ConnFailure | CheckViolation | UniqueViolation | ForeignKeyViolation

section \<open>Store operations\<close>

type_synonym 'd world = "'d \<times> bool list"

type_synonym ('d, 'e, 'a) op = "'d world \<Rightarrow> ('e + 'a) \<times> 'd world"

definition ret :: "'a \<Rightarrow> ('d, 'e, 'a) op" where
  "ret a = (\<lambda>w. (Inr a, w))"

definition fail :: "'e \<Rightarrow> ('d, 'e, 'a) op" where
  "fail e = (\<lambda>w. (Inl e, w))"

definition lift :: "'e + 'a \<Rightarrow> ('d, 'e, 'a) op" where
  "lift r = (\<lambda>w. (r, w))"

definition bnd :: "('d, 'e, 'a) op \<Rightarrow> ('a \<Rightarrow> ('d, 'e, 'b) op) \<Rightarrow> ('d, 'e, 'b) op" where
  "bnd m k = (\<lambda>w. case m w of (Inl e, w') \<Rightarrow> (Inl e, w') | (Inr a, w') \<Rightarrow> k a w')"

text \<open>The caller keeps the error as a value and goes on, as code that collects errors does.\<close>

definition attempt :: "('d, 'e, 'a) op \<Rightarrow> ('d, 'f, 'e + 'a) op" where
  "attempt m = (\<lambda>w. case m w of (r, w') \<Rightarrow> (Inr r, w'))"

text \<open>Wrapping of an error, as \<open>fmt.Errorf\<close> with \<open>%w\<close> does.\<close>

definition wrap :: "('e \<Rightarrow> 'f) \<Rightarrow> ('d, 'e, 'a) op \<Rightarrow> ('d, 'f, 'a) op" where
  "wrap h m = (\<lambda>w. case m w of (Inl e, w') \<Rightarrow> (Inl (h e), w') | (Inr a, w') \<Rightarrow> (Inr a, w'))"

definition faulty :: "'d world \<Rightarrow> bool" where
  "faulty w = (case snd w of [] \<Rightarrow> False | b # _ \<Rightarrow> b)"

text \<open>One SQL statement: it may lose its connection, or break a constraint of the schema.\<close>

definition stmt :: "(sqlerr \<Rightarrow> 'e) \<Rightarrow> ('d \<Rightarrow> sqlerr + ('a \<times> 'd)) \<Rightarrow> ('d, 'e, 'a) op" where
  "stmt h f = (\<lambda>w. if faulty w then (Inl (h ConnFailure), (fst w, tl (snd w)))
     else (case f (fst w) of
             Inl x \<Rightarrow> (Inl (h x), (fst w, tl (snd w)))
           | Inr (a, d) \<Rightarrow> (Inr a, (d, tl (snd w)))))"

definition query :: "(sqlerr \<Rightarrow> 'e) \<Rightarrow> ('d \<Rightarrow> 'a) \<Rightarrow> ('d, 'e, 'a) op" where
  "query h f = stmt h (\<lambda>d. Inr (f d, d))"

definition update :: "(sqlerr \<Rightarrow> 'e) \<Rightarrow> ('d \<Rightarrow> 'a \<times> 'd) \<Rightarrow> ('d, 'e, 'a) op" where
  "update h f = stmt h (\<lambda>d. Inr (f d))"

text \<open>
  A transaction: begin, the body, commit. An error of the body, or of the commit, rolls the
  database back. A body that returns without committing (\<open>Abort\<close>) is rolled back by the deferred
  \<open>tx.Rollback\<close>; its value is returned all the same.
\<close>

datatype 'a txres = Commit 'a | Abort 'a

definition tx :: "(sqlerr \<Rightarrow> 'e) \<Rightarrow> ('d, 'e, 'a txres) op \<Rightarrow> ('d, 'e, 'a) op" where
  "tx h m = (\<lambda>w. if faulty w then (Inl (h ConnFailure), (fst w, tl (snd w)))
     else (case m (fst w, tl (snd w)) of
             (Inl e, w1) \<Rightarrow> (Inl e, (fst w, snd w1))
           | (Inr (Abort a), w1) \<Rightarrow> (Inr a, (fst w, snd w1))
           | (Inr (Commit a), w1) \<Rightarrow>
               (if faulty w1 then (Inl (h ConnFailure), (fst w, tl (snd w1)))
                else (Inr a, (fst w1, tl (snd w1))))))"

subsection \<open>Runs that succeed\<close>

named_theorems run_simps

lemma ret_run [run_simps]: "ret a w = (r, w') \<longleftrightarrow> r = Inr a \<and> w' = w"
  by (auto simp: ret_def)

lemma fail_run [run_simps]: "fail e w = (r, w') \<longleftrightarrow> r = Inl e \<and> w' = w"
  by (auto simp: fail_def)

lemma lift_run [run_simps]: "lift x w = (r, w') \<longleftrightarrow> x = r \<and> w' = w"
  by (auto simp: lift_def)

lemma bnd_Inr [run_simps]:
  "bnd m k w = (Inr b, w') \<longleftrightarrow> (\<exists>a w1. m w = (Inr a, w1) \<and> k a w1 = (Inr b, w'))"
  by (auto simp: bnd_def split: prod.splits sum.splits)

lemma bnd_Inl [run_simps]:
  "bnd m k w = (Inl e, w') \<longleftrightarrow>
     m w = (Inl e, w') \<or> (\<exists>a w1. m w = (Inr a, w1) \<and> k a w1 = (Inl e, w'))"
  by (auto simp: bnd_def split: prod.splits sum.splits)

lemma attempt_run [run_simps]:
  "attempt m w = (Inr r, w') \<longleftrightarrow> m w = (r, w')"
  "attempt m w \<noteq> (Inl e, w')"
  by (auto simp: attempt_def split: prod.splits)

lemma wrap_Inr [run_simps]: "wrap h m w = (Inr a, w') \<longleftrightarrow> m w = (Inr a, w')"
  by (auto simp: wrap_def split: prod.splits sum.splits)

lemma wrap_Inl [run_simps]: "wrap h m w = (Inl e, w') \<longleftrightarrow> (\<exists>x. m w = (Inl x, w') \<and> e = h x)"
  by (auto simp: wrap_def split: prod.splits sum.splits)

lemma stmt_Inr [run_simps]:
  "stmt h f w = (Inr a, w') \<longleftrightarrow>
     \<not> faulty w \<and> f (fst w) = Inr (a, fst w') \<and> snd w' = tl (snd w)"
  by (cases w') (auto simp: stmt_def split: prod.splits sum.splits)

lemma stmt_Inl [run_simps]:
  "stmt h f w = (Inl e, w') \<longleftrightarrow>
     w' = (fst w, tl (snd w)) \<and>
     (faulty w \<and> e = h ConnFailure \<or> \<not> faulty w \<and> (\<exists>x. f (fst w) = Inl x \<and> e = h x))"
  by (auto simp: stmt_def split: prod.splits sum.splits)

lemma query_Inr [run_simps]:
  "query h f w = (Inr a, w') \<longleftrightarrow> \<not> faulty w \<and> a = f (fst w) \<and> w' = (fst w, tl (snd w))"
  by (cases w') (auto simp: query_def stmt_Inr)

lemma query_Inl [run_simps]:
  "query h f w = (Inl e, w') \<longleftrightarrow> faulty w \<and> e = h ConnFailure \<and> w' = (fst w, tl (snd w))"
  by (auto simp: query_def stmt_Inl)

lemma update_Inr [run_simps]:
  "update h f w = (Inr a, w') \<longleftrightarrow>
     \<not> faulty w \<and> f (fst w) = (a, fst w') \<and> snd w' = tl (snd w)"
  by (auto simp: update_def stmt_Inr)

lemma update_Inl [run_simps]:
  "update h f w = (Inl e, w') \<longleftrightarrow> faulty w \<and> e = h ConnFailure \<and> w' = (fst w, tl (snd w))"
  by (auto simp: update_def stmt_Inl)

lemma tx_Inr [run_simps]:
  "tx h m w = (Inr a, w') \<longleftrightarrow> \<not> faulty w \<and>
     (\<exists>w1. m (fst w, tl (snd w)) = (Inr (Commit a), w1) \<and> \<not> faulty w1 \<and> w' = (fst w1, tl (snd w1))
         \<or> m (fst w, tl (snd w)) = (Inr (Abort a), w1) \<and> w' = (fst w, snd w1))"
  by (auto simp: tx_def split: prod.splits sum.splits txres.splits)

lemma tx_cases:
  assumes "tx h m w = (Inr a, w')"
  obtains w1 where "m (fst w, tl (snd w)) = (Inr (Commit a), w1)" and "fst w' = fst w1"
  | w1 where "m (fst w, tl (snd w)) = (Inr (Abort a), w1)" and "fst w' = fst w"
  using assms by (auto simp: tx_Inr)

lemma tx_Inl_db: "tx h m w = (Inl e, w') \<Longrightarrow> fst w' = fst w"
  by (auto simp: tx_def split: prod.splits sum.splits txres.splits if_splits)

lemma bnd_lift_simps [simp]:
  "bnd (lift (Inr a)) k = k a"
  "bnd (lift (Inl e)) k = fail e"
  "bnd (ret a) k = k a"
  "bnd (fail e) k = fail e"
  by (simp_all add: bnd_def lift_def ret_def fail_def)

lemma faulty_nil [simp]: "faulty (d, []) = False"
  by (simp add: faulty_def)

lemma faulty_cons [simp]: "faulty (d, b # fs) = b"
  by (simp add: faulty_def)

lemmas op_defs = ret_def fail_def lift_def bnd_def attempt_def wrap_def stmt_def query_def
  update_def tx_def

subsection \<open>What an operation may do to the database\<close>

text \<open>\<open>within R m\<close>: whatever statements fail, \<open>m\<close> takes a database to one related to it by \<open>R\<close>.\<close>

definition within :: "('d \<Rightarrow> 'd \<Rightarrow> bool) \<Rightarrow> ('d, 'e, 'a) op \<Rightarrow> bool" where
  "within R m \<longleftrightarrow> (\<forall>w. R (fst w) (fst (snd (m w))))"

lemma withinI: "(\<And>w. R (fst w) (fst (snd (m w)))) \<Longrightarrow> within R m"
  by (simp add: within_def)

lemma withinD: "within R m \<Longrightarrow> R (fst w) (fst (snd (m w)))"
  unfolding within_def by blast

lemma within_run: "within R m \<Longrightarrow> m w = (r, w') \<Longrightarrow> R (fst w) (fst w')"
  using withinD[of R m w] by simp

lemma within_mono: "within R m \<Longrightarrow> (\<And>d d'. R d d' \<Longrightarrow> S d d') \<Longrightarrow> within S m"
  by (simp add: within_def)

text \<open>
  The contract the operations of one store share: a way the database may change, closed
  under doing nothing and under doing one thing after another. What every statement of a
  component respects, every operation built from them respects, however it ends.
\<close>

locale db_frame =
  fixes R :: "'d \<Rightarrow> 'd \<Rightarrow> bool"
  assumes frame_refl: "R d d"
    and frame_trans: "R a b \<Longrightarrow> R b c \<Longrightarrow> R a c"
begin

lemma frame_ret: "within R (ret x)"
  by (simp add: within_def ret_def frame_refl)

lemma frame_fail: "within R (fail e)"
  by (simp add: within_def fail_def frame_refl)

lemma frame_lift: "within R (lift r)"
  by (simp add: within_def lift_def frame_refl)

lemma frame_query: "within R (query h f)"
  by (simp add: within_def query_def stmt_def frame_refl)

lemma frame_stmt: "(\<And>d a d'. f d = Inr (a, d') \<Longrightarrow> R d d') \<Longrightarrow> within R (stmt h f)"
  by (auto simp: within_def stmt_def frame_refl split: sum.splits)

lemma frame_update: "(\<And>d. R d (snd (f d))) \<Longrightarrow> within R (update h f)"
  unfolding update_def by (rule frame_stmt) (metis snd_conv Inr_inject)

lemma frame_bnd:
  assumes "within R m" and "\<And>a. within R (k a)"
  shows "within R (bnd m k)"
proof (rule withinI)
  fix w
  show "R (fst w) (fst (snd (bnd m k w)))"
  proof -
    obtain r w1 where Pair: "m w = (r, w1)" by (cases "m w")
    have step: "R (fst w) (fst w1)"
      using within_run[OF assms(1) Pair] .
    show ?thesis
    proof (cases r)
      case (Inl e)
      with Pair step show ?thesis by (simp add: bnd_def)
    next
      case (Inr a)
      have "R (fst w1) (fst (snd (k a w1)))"
        using assms(2) by (rule withinD)
      with Pair Inr step show ?thesis
        by (simp add: bnd_def) (rule frame_trans)
    qed
  qed
qed

lemma frame_attempt: "within R m \<Longrightarrow> within R (attempt m)"
  by (auto simp: within_def attempt_def split: prod.splits) (metis fst_conv snd_conv)

lemma frame_wrap: "within R m \<Longrightarrow> within R (wrap h m)"
  by (auto simp: within_def wrap_def split: prod.splits sum.splits) (metis fst_conv snd_conv)+

lemma frame_tx:
  assumes "within R m"
  shows "within R (tx h m)"
proof (rule withinI)
  fix w
  obtain r w1 where m: "m (fst w, tl (snd w)) = (r, w1)"
    by (cases "m (fst w, tl (snd w))")
  have "R (fst w) (fst w1)"
    using within_run[OF assms m] by simp
  then show "R (fst w) (fst (snd (tx h m w)))"
    using m by (auto simp: tx_def frame_refl split: sum.splits txres.splits)
qed

lemma frame_tx_commit:
  assumes "\<And>w a w1. m w = (Inr (Commit a), w1) \<Longrightarrow> R (fst w) (fst w1)"
  shows "within R (tx h m)"
proof (rule withinI)
  fix w
  obtain r w1 where m: "m (fst w, tl (snd w)) = (r, w1)"
    by (cases "m (fst w, tl (snd w))")
  show "R (fst w) (fst (snd (tx h m w)))"
    using m assms[of "(fst w, tl (snd w))"]
    by (auto simp: tx_def frame_refl split: sum.splits txres.splits)
qed

lemma frame_if: "within R m \<Longrightarrow> within R n \<Longrightarrow> within R (if b then m else n)"
  by simp

lemma frame_case_option:
  "within R m \<Longrightarrow> (\<And>a. within R (k a)) \<Longrightarrow> within R (case x of None \<Rightarrow> m | Some a \<Rightarrow> k a)"
  by (cases x) simp_all

text \<open>Where what follows rests on what was read.\<close>

lemma frame_bnd_read:
  assumes "within R m" and "\<And>w a w1. m w = (Inr a, w1) \<Longrightarrow> R (fst w1) (fst (snd (k a w1)))"
  shows "within R (bnd m k)"
proof (rule withinI)
  fix w
  obtain r w1 where m: "m w = (r, w1)" by (cases "m w")
  have "R (fst w) (fst w1)" using within_run[OF assms(1) m] .
  then show "R (fst w) (fst (snd (bnd m k w)))"
    using m assms(2)[of w _ w1] by (cases r) (auto simp: bnd_def intro: frame_trans)
qed

lemma frame_stmt_at: "(\<And>a d'. f (fst w) = Inr (a, d') \<Longrightarrow> R (fst w) d') \<Longrightarrow> R (fst w) (fst (snd (stmt h f w)))"
  by (auto simp: stmt_def frame_refl split: sum.splits)

lemma frame_update_at: "R (fst w) (snd (f (fst w))) \<Longrightarrow> R (fst w) (fst (snd (update h f w)))"
  unfolding update_def by (rule frame_stmt_at) (metis snd_conv Inr_inject)

lemma frame_bnd_at:
  assumes "R (fst w) (fst (snd (m w)))" and "\<And>a. within R (k a)"
  shows "R (fst w) (fst (snd (bnd m k w)))"
proof -
  obtain r w1 where m: "m w = (r, w1)" by (cases "m w")
  with assms(1) have step: "R (fst w) (fst w1)" by simp
  then show ?thesis using m withinD[OF assms(2), of w1] by (cases r) (auto simp: bnd_def intro: frame_trans)
qed

lemmas frame_rules = frame_ret frame_fail frame_lift frame_query frame_stmt frame_update
  frame_bnd frame_attempt frame_wrap frame_tx frame_if frame_case_option

end

text \<open>An invariant is such a contract, and so is an equality of a part of the database.\<close>

definition keeps :: "('d \<Rightarrow> bool) \<Rightarrow> 'd \<Rightarrow> 'd \<Rightarrow> bool" where
  "keeps I d d' \<longleftrightarrow> (I d \<longrightarrow> I d')"

definition same :: "('d \<Rightarrow> 'x) \<Rightarrow> 'd \<Rightarrow> 'd \<Rightarrow> bool" where
  "same f d d' \<longleftrightarrow> f d' = f d"

interpretation inv_frame: db_frame "keeps I" for I
  by unfold_locales (auto simp: keeps_def)

interpretation same_frame: db_frame "same f" for f
  by unfold_locales (auto simp: same_def)

lemma keepsI: "(I d \<Longrightarrow> I d') \<Longrightarrow> keeps I d d'"
  by (simp add: keeps_def)

lemma keepsD: "within (keeps I) m \<Longrightarrow> I (fst w) \<Longrightarrow> I (fst (snd (m w)))"
  using withinD[of "keeps I" m w] by (simp add: keeps_def)

lemma sameD: "within (same f) m \<Longrightarrow> f (fst (snd (m w))) = f (fst w)"
  using withinD[of "same f" m w] by (simp add: same_def)

section \<open>Values written once\<close>

text \<open>
  Several tables hold a value that is written once and never rewritten: a decision, a
  tombstone, an outcome. A provider shows that one command keeps a written value; then no
  sequence of commands changes it.
\<close>

locale write_once =
  fixes exec :: "'c \<Rightarrow> 'd \<Rightarrow> 'd"
    and written :: "'d \<Rightarrow> 'k \<Rightarrow> 'v option"
  assumes keep_written: "written d k = Some v \<Longrightarrow> written (exec c d) k = Some v"
begin

lemma history_keeps: "written d k = Some v \<Longrightarrow> written (fold exec cs d) k = Some v"
  by (induction cs arbitrary: d) (simp_all add: keep_written)

lemma history_agrees:
  "written d k = Some v \<Longrightarrow> written (fold exec cs d) k = Some u \<Longrightarrow> u = v"
  using history_keeps[of d k v cs] by simp

end

section \<open>Tables of rows\<close>

definition update_rows :: "('r \<Rightarrow> bool) \<Rightarrow> ('r \<Rightarrow> 'r) \<Rightarrow> 'r list \<Rightarrow> 'r list" where
  "update_rows P f rs = map (\<lambda>r. if P r then f r else r) rs"

definition affected :: "('r \<Rightarrow> bool) \<Rightarrow> 'r list \<Rightarrow> nat" where
  "affected P rs = length (filter P rs)"

lemma update_rows_simps [simp]:
  "update_rows P f [] = []"
  "update_rows P f (r # rs) = (if P r then f r else r) # update_rows P f rs"
  by (simp_all add: update_rows_def)

lemma set_update_rows: "set (update_rows P f rs) = (\<lambda>r. if P r then f r else r) ` set rs"
  by (simp add: update_rows_def)

lemma update_rows_none: "(\<And>r. r \<in> set rs \<Longrightarrow> \<not> P r) \<Longrightarrow> update_rows P f rs = rs"
  by (induction rs) auto

lemma map_update_rows: "(\<And>r. P r \<Longrightarrow> g (f r) = g r) \<Longrightarrow> map g (update_rows P f rs) = map g rs"
  by (simp add: update_rows_def)

lemma filter_update_rows_other:
  "(\<And>r. P r \<Longrightarrow> \<not> Q r \<and> \<not> Q (f r)) \<Longrightarrow> filter Q (update_rows P f rs) = filter Q rs"
  by (induction rs) auto

lemma affected_simps [simp]:
  "affected P [] = 0"
  "affected P (r # rs) = (if P r then Suc (affected P rs) else affected P rs)"
  by (simp_all add: affected_def)

lemma affected_0: "affected P rs = 0 \<longleftrightarrow> (\<forall>r \<in> set rs. \<not> P r)"
  by (induction rs) auto

lemma affected_pos: "0 < affected P rs \<longleftrightarrow> (\<exists>r \<in> set rs. P r)"
  using affected_0[of P rs] by auto

lemma affected_key:
  assumes "distinct (map k rs)" and "\<And>r. P r \<Longrightarrow> k r = x"
  shows "affected P rs \<le> 1"
  using assms
proof (induction rs)
  case (Cons r rs)
  show ?case
  proof (cases "P r")
    case True
    then have "x \<notin> k ` set rs" using Cons.prems by auto
    then have "affected P rs = 0" unfolding affected_0 using Cons.prems(2) by auto
    with True show ?thesis by simp
  next
    case False
    with Cons show ?thesis by simp
  qed
qed simp

lemma find_Some_in: "List.find P rs = Some r \<Longrightarrow> r \<in> set rs \<and> P r"
  by (auto simp: find_Some_iff in_set_conv_nth)

lemma find_None_iff': "List.find P rs = None \<longleftrightarrow> (\<forall>r \<in> set rs. \<not> P r)"
  by (auto simp: find_None_iff)

lemma find_key_unique:
  assumes "distinct (map k rs)" and "r \<in> set rs" and "P r" and "\<And>q. P q \<Longrightarrow> k q = k r"
  shows "List.find P rs = Some r"
proof -
  obtain q where q: "List.find P rs = Some q"
    using assms(2,3) find_None_iff'[of P rs] by (cases "List.find P rs") auto
  then have "q \<in> set rs" "P q" using find_Some_in by fastforce+
  with assms have "q = r" by (meson distinct_map inj_on_def)
  with q show ?thesis by simp
qed

lemma filter_key_unique:
  assumes "distinct (map k rs)" and "r \<in> set rs"
  shows "filter (\<lambda>q. k q = k r) rs = [r]"
  using assms
proof (induction rs)
  case (Cons q rs)
  show ?case
  proof (cases "k q = k r")
    case True
    with Cons.prems(1) have "k r \<notin> k ` set rs" by simp
    then have "filter (\<lambda>q. k q = k r) rs = []" by (simp add: filter_empty_conv image_iff) metis
    moreover have "q = r" using Cons.prems True by auto
    ultimately show ?thesis by simp
  next
    case False
    with Cons show ?thesis by auto
  qed
qed simp

lemma find_conv_filter: "List.find P rs = (case filter P rs of [] \<Rightarrow> None | r # _ \<Rightarrow> Some r)"
  by (induction rs) auto

lemma find_update_rows_other:
  "(\<And>r. P r \<Longrightarrow> \<not> Q r \<and> \<not> Q (f r)) \<Longrightarrow> List.find Q (update_rows P f rs) = List.find Q rs"
  by (induction rs) auto

lemma find_update_rows_same:
  "(\<And>r. P r \<Longrightarrow> Q (f r) = Q r) \<Longrightarrow>
     List.find Q (update_rows P f rs) = map_option (\<lambda>r. if P r then f r else r) (List.find Q rs)"
  by (induction rs) auto

lemma find_append: "List.find Q (xs @ ys) = (case List.find Q xs of None \<Rightarrow> List.find Q ys | Some x \<Rightarrow> Some x)"
  by (induction xs) auto

section \<open>Go's string helpers\<close>

text \<open>\<open>strings.HasPrefix\<close>, \<open>HasSuffix\<close> and \<open>Contains\<close> are \<^const>\<open>prefix\<close>, \<^const>\<open>suffix\<close> and \<^const>\<open>sublist\<close>.\<close>

definition TrimPrefix :: "string \<Rightarrow> string \<Rightarrow> string" where
  "TrimPrefix s p = (if prefix p s then drop (length p) s else s)"

definition TrimSuffix :: "string \<Rightarrow> string \<Rightarrow> string" where
  "TrimSuffix s p = (if suffix p s then take (length s - length p) s else s)"

lemma TrimPrefix_append [simp]: "TrimPrefix (p @ s) p = s"
  by (simp add: TrimPrefix_def)

lemma TrimSuffix_append [simp]: "TrimSuffix (s @ p) p = s"
  by (simp add: TrimSuffix_def suffix_def)

text \<open>Decimal digits, as \<open>||\<close> renders a \<open>bigint\<close>.\<close>

fun dec :: "nat \<Rightarrow> string" where
  "dec n = (if n < 10 then [char_of (48 + n)] else dec (n div 10) @ [char_of (48 + n mod 10)])"

declare dec.simps [simp del]

definition Itoa :: "int \<Rightarrow> string" where
  "Itoa n = (if n < 0 then CHR ''-'' # dec (nat (- n)) else dec (nat n))"

definition hex_digit :: "nat \<Rightarrow> char" where
  "hex_digit n = ''0123456789abcdef'' ! (n mod 16)"

definition undec :: "string \<Rightarrow> nat" where
  "undec s = foldl (\<lambda>n c. 10 * n + (of_char c - 48)) 0 s"

lemma undec_snoc: "undec (s @ [c]) = 10 * undec s + (of_char c - 48)"
  by (simp add: undec_def)

lemma of_char_digit: "d < 10 \<Longrightarrow> of_char (char_of (48 + d) :: char) = 48 + (d :: nat)"
  by simp

lemma undec_dec: "undec (dec n) = n"
proof (induction n rule: dec.induct)
  case (1 n)
  show ?case
  proof (cases "n < 10")
    case True
    then show ?thesis
      by (simp add: dec.simps[of n] undec_def of_char_digit)
  next
    case False
    with 1 have "undec (dec (n div 10)) = n div 10" by simp
    moreover have "of_char (char_of (48 + n mod 10) :: char) - 48 = (n mod 10 :: nat)"
      using of_char_digit[of "n mod 10"] by simp
    ultimately show ?thesis
      using False by (simp add: dec.simps[of n] undec_snoc)
  qed
qed

lemma dec_inject [simp]: "dec m = dec n \<longleftrightarrow> m = n"
  by (metis undec_dec)

end
