(* ===== verification/NF_Authz.thy ===== *)
theory NF_Authz
  imports NF_Prelude
begin

text \<open>
  The organization scope a request carries (\<open>internal/authz/scope.go\<close>). Every store of
  the platform derives its organization predicate from it. A request's context either
  carries a scope or none, and the scope is the only thing the model reads from a context.
\<close>

section \<open>The scope\<close>

record scope =
  s_OrgID :: uuid
  s_ActorID :: uuid
  s_ActorKind :: string
  s_ServiceName :: string
  s_Role :: string
  s_PlatformWorker :: string
  s_RepoLimited :: bool
  s_Repos :: "uuid \<rightharpoonup> string"

type_synonym ctx = "scope option"

datatype autherr =
    ErrNoScope
  | CrossOrg uuid uuid
  | RepoLimitedRefused
  | RepoNotGranted uuid

text \<open>What an operation of a store can fail with: the scope, the database, its own refusals.\<close>

datatype 'e fault = NoAuth autherr | Sql sqlerr | App 'e

definition IsPlatformWorker :: "scope \<Rightarrow> bool" where
  "IsPlatformWorker s \<longleftrightarrow>
     s_PlatformWorker s \<noteq> '''' \<and> s_ActorKind s = ''service'' \<and> s_OrgID s = uuid_Nil"

definition IsOrgAdmin :: "scope \<Rightarrow> bool" where
  "IsOrgAdmin s \<longleftrightarrow> s_ActorKind s = ''user'' \<and> (s_Role s = ''owner'' \<or> s_Role s = ''admin'')"

definition WithScope :: "ctx \<Rightarrow> scope \<Rightarrow> ctx" where
  "WithScope ctx s = Some s"

definition FromContext :: "ctx \<Rightarrow> autherr + scope" where
  "FromContext ctx = (case ctx of None \<Rightarrow> Inl ErrNoScope | Some s \<Rightarrow> Inr s)"

definition RequireOrg :: "ctx \<Rightarrow> uuid \<Rightarrow> autherr + unit" where
  "RequireOrg ctx orgID =
     (case FromContext ctx of
        Inl e \<Rightarrow> Inl e
      | Inr s \<Rightarrow>
          if s_OrgID s \<noteq> orgID then Inl (CrossOrg (s_OrgID s) orgID)
          else if s_RepoLimited s then Inl RepoLimitedRefused
          else Inr ())"

definition RequireRepo :: "ctx \<Rightarrow> uuid \<Rightarrow> uuid \<Rightarrow> autherr + unit" where
  "RequireRepo ctx orgID repoID =
     (case FromContext ctx of
        Inl e \<Rightarrow> Inl e
      | Inr s \<Rightarrow>
          if s_OrgID s \<noteq> orgID then Inl (CrossOrg (s_OrgID s) orgID)
          else if \<not> s_RepoLimited s then Inr ()
          else (case s_Repos s repoID of
                  Some _ \<Rightarrow> Inr ()
                | None \<Rightarrow> Inl (RepoNotGranted repoID)))"

text \<open>A Go map read of a missing key gives the empty string.\<close>

definition RepoRole :: "scope \<Rightarrow> uuid \<Rightarrow> string" where
  "RepoRole s repoID =
     (if \<not> s_RepoLimited s then ''''
      else (case s_Repos s repoID of None \<Rightarrow> '''' | Some r \<Rightarrow> r))"

section \<open>Use by the stores\<close>

definition from_context :: "ctx \<Rightarrow> ('d, 'e fault, scope) op" where
  "from_context ctx = lift (map_sum NoAuth id (FromContext ctx))"

definition require_org :: "ctx \<Rightarrow> uuid \<Rightarrow> ('d, 'e fault, unit) op" where
  "require_org ctx orgID = lift (map_sum NoAuth id (RequireOrg ctx orgID))"

named_theorems scope_simps

lemma FromContext_simps [simp]:
  "FromContext None = Inl ErrNoScope"
  "FromContext (Some s) = Inr s"
  by (simp_all add: FromContext_def)

lemma FromContext_Inr: "FromContext ctx = Inr s \<longleftrightarrow> ctx = Some s"
  by (cases ctx) auto

lemma RequireOrg_Inr:
  "RequireOrg ctx orgID = Inr u \<longleftrightarrow> (\<exists>s. ctx = Some s \<and> s_OrgID s = orgID \<and> \<not> s_RepoLimited s)"
  by (cases ctx) (auto simp: RequireOrg_def)

lemma RequireRepo_Inr:
  "RequireRepo ctx orgID repoID = Inr u \<longleftrightarrow>
     (\<exists>s. ctx = Some s \<and> s_OrgID s = orgID \<and> (s_RepoLimited s \<longrightarrow> repoID \<in> dom (s_Repos s)))"
  by (cases ctx) (auto simp: RequireRepo_def split: option.splits)

lemma map_sum_Inr [simp]: "map_sum f g x = Inr b \<longleftrightarrow> (\<exists>a. x = Inr a \<and> b = g a)"
  by (cases x) auto

lemma map_sum_Inl [simp]: "map_sum f g x = Inl b \<longleftrightarrow> (\<exists>a. x = Inl a \<and> b = f a)"
  by (cases x) auto

lemma from_context_Some [simp]: "from_context (Some s) = lift (Inr s)"
  by (simp add: from_context_def)

lemma from_context_None [simp]: "from_context None = lift (Inl (NoAuth ErrNoScope))"
  by (simp add: from_context_def)

lemma from_context_run [run_simps]:
  "from_context ctx w = (Inr s, w') \<longleftrightarrow> ctx = Some s \<and> w' = w"
  by (cases ctx) (auto simp: run_simps)

lemma require_org_run [run_simps]:
  "require_org ctx orgID w = (Inr u, w') \<longleftrightarrow>
     (\<exists>s. ctx = Some s \<and> s_OrgID s = orgID \<and> \<not> s_RepoLimited s) \<and> w' = w"
  by (auto simp: require_org_def RequireOrg_Inr run_simps)

lemma require_org_member:
  "s_OrgID s = orgID \<Longrightarrow> \<not> s_RepoLimited s \<Longrightarrow> require_org (Some s) orgID = lift (Inr ())"
  by (auto simp: require_org_def RequireOrg_def)

context db_frame
begin

lemma frame_from_context: "within R (from_context ctx)"
  by (simp add: from_context_def frame_lift)

lemma frame_require_org: "within R (require_org ctx orgID)"
  by (simp add: require_org_def frame_lift)

end

section \<open>Who passes\<close>

text \<open>
  A credential limited to granted repositories never acts as a member: the organization
  check refuses it whatever organization it names, while the repository check admits it
  exactly for a granted repository of its own organization; and a repository that passes the
  organization check also passes the repository check.
\<close>

theorem collaborator_fails_closed:
  assumes "s_RepoLimited s"
  shows "(\<forall>o'. \<exists>e. RequireOrg (Some s) o' = Inl e)
    \<and> (\<forall>o' r. (RequireRepo (Some s) o' r = Inr ()) = (o' = s_OrgID s \<and> s_Repos s r \<noteq> None))
    \<and> (\<forall>ctx o' r. RequireOrg ctx o' = Inr () \<longrightarrow> RequireRepo ctx o' r = Inr ())"
proof (intro conjI allI)
  fix o' show "\<exists>e. RequireOrg (Some s) o' = Inl e"
    using assms by (auto simp: RequireOrg_def)
next
  fix o' r show "(RequireRepo (Some s) o' r = Inr ()) = (o' = s_OrgID s \<and> s_Repos s r \<noteq> None)"
    using assms by (auto simp: RequireRepo_Inr)
next
  fix ctx o' r show "RequireOrg ctx o' = Inr () \<longrightarrow> RequireRepo ctx o' r = Inr ()"
    by (auto simp: RequireOrg_Inr RequireRepo_Inr)
qed

definition sample_collaborator :: scope where
  "sample_collaborator = \<lparr>s_OrgID = 7, s_ActorID = 3, s_ActorKind = ''user'', s_ServiceName = '''',
     s_Role = '''', s_PlatformWorker = '''', s_RepoLimited = True,
     s_Repos = Map.empty(5 \<mapsto> ''read'')\<rparr>"

theorem collaborator_fails_closed_witness:
  "s_RepoLimited sample_collaborator \<and> RequireRepo (Some sample_collaborator) 7 5 = Inr ()
    \<and> RequireRepo (Some sample_collaborator) 7 6 \<noteq> Inr ()
    \<and> (\<exists>e. RequireOrg (Some sample_collaborator) 7 = Inl e)"
proof -
  have h: "s_RepoLimited sample_collaborator" by (simp add: sample_collaborator_def)
  show ?thesis using h collaborator_fails_closed[OF h] by (simp add: sample_collaborator_def)
qed

end
