(* ===== verification/NF_Capability.thy ===== *)
theory NF_Capability
  imports NF_Authz
begin

text \<open>
  Capability grants and their issuance (\<open>internal/capability\<close>): the branch-write rule of
  \<open>CanWriteRef\<close>, the grant store, and the issuance receipts that bind one run's grant to its
  issuer and can be cancelled for good. \<open>uuid.New()\<close> and the clocks are arguments; the
  \<open>jsonb\<close> receipt of an intent is the intent itself.
\<close>

section \<open>State\<close>

record grant =
  g_ID :: uuid
  g_OrgID :: uuid
  g_SubjectID :: uuid
  g_SubjectKind :: string
  g_RepoRead :: bool
  g_WriteBranch :: string
  g_SecretsProd :: bool
  g_DeployStaging :: bool
  g_DeployProd :: bool
  g_ExpiresAt :: time

record issuance_intent =
  i_IssuerID :: uuid
  i_IssuerKind :: string
  i_RunID :: uuid
  i_Grant :: grant

text \<open>A row of \<open>capability_issuances\<close>.\<close>

record issuance =
  n_id :: uuid
  n_org_id :: uuid
  n_issuer_id :: uuid
  n_issuer_kind :: string
  n_run_id :: uuid
  n_intent :: issuance_intent
  n_cancelled :: bool

text \<open>\<open>LegacyBinding\<close>, also a row of \<open>legacy_grant_cancellations\<close>.\<close>

record legacy_binding =
  l_GrantID :: uuid
  l_OrgID :: uuid
  l_RunID :: uuid
  l_AgentID :: uuid
  l_Branch :: string

record capdb =
  grants :: "grant list"
  issuances :: "issuance list"
  legacies :: "legacy_binding list"

datatype caperr =
    WriteNotPermitted string string
  | ErrGrantExpired
  | ErrIssuanceDenied
  | GrantNotFound uuid
  | NoRows

type_synonym 'a cap_op = "(capdb, caperr fault, 'a) op"

section \<open>The branch-write rule\<close>

definition refHeadsPrefix :: string where
  "refHeadsPrefix = ''refs/heads/''"

definition CanWriteRef :: "grant \<Rightarrow> string \<Rightarrow> caperr + unit" where
  "CanWriteRef g ref =
     (if sublist ''..'' ref then Inl (WriteNotPermitted ref (g_WriteBranch g))
      else if g_WriteBranch g = '''' then Inl (WriteNotPermitted ref (g_WriteBranch g))
      else let branch = TrimPrefix ref refHeadsPrefix in
        if \<not> prefix (g_WriteBranch g) branch then Inl (WriteNotPermitted ref (g_WriteBranch g))
        else Inr ())"

section \<open>The grant store\<close>

definition insert_grant :: "grant \<Rightarrow> capdb \<Rightarrow> sqlerr + (unit \<times> capdb)" where
  "insert_grant g d =
     (if g_ID g \<in> g_ID ` set (grants d) then Inl UniqueViolation
      else if g_SubjectKind g \<noteq> ''user'' \<and> g_SubjectKind g \<noteq> ''agent'' then Inl CheckViolation
      else Inr ((), d\<lparr>grants := grants d @ [g]\<rparr>))"

definition Issue :: "uuid \<Rightarrow> grant \<Rightarrow> grant cap_op" where
  "Issue new_id g0 =
     (let g = g0\<lparr>g_ID := new_id\<rparr> in
      bnd (stmt Sql (insert_grant g)) (\<lambda>_. ret g))"

definition Resolve :: "time \<Rightarrow> uuid \<Rightarrow> grant cap_op" where
  "Resolve now gid =
     bnd (query Sql (\<lambda>d. List.find (\<lambda>g. g_ID g = gid) (grants d))) (\<lambda>row.
     case row of
       None \<Rightarrow> fail (App (GrantNotFound gid))
     | Some g \<Rightarrow> if g_ExpiresAt g < now then fail (App ErrGrantExpired) else ret g)"

definition ListActive :: "time \<Rightarrow> uuid \<Rightarrow> uuid \<Rightarrow> grant list cap_op" where
  "ListActive now orgID subjectID =
     query Sql (\<lambda>d. filter (\<lambda>g. g_OrgID g = orgID \<and> g_SubjectID g = subjectID \<and> now < g_ExpiresAt g)
       (grants d))"

text \<open>\<open>SET expires_at = LEAST(expires_at, 'epoch')\<close> for one grant of one organization.\<close>

definition expire :: "uuid \<Rightarrow> uuid \<Rightarrow> capdb \<Rightarrow> capdb" where
  "expire gid org d = d\<lparr>grants := update_rows (\<lambda>g. g_ID g = gid \<and> g_OrgID g = org)
     (\<lambda>g. g\<lparr>g_ExpiresAt := min (g_ExpiresAt g) epoch\<rparr>) (grants d)\<rparr>"

definition Revoke :: "ctx \<Rightarrow> uuid \<Rightarrow> unit cap_op" where
  "Revoke ctx gid =
     bnd (from_context ctx) (\<lambda>scope.
     bnd (require_org ctx (s_OrgID scope)) (\<lambda>_.
     update Sql (\<lambda>d. ((), expire gid (s_OrgID scope) d))))"

definition ResolveScoped :: "ctx \<Rightarrow> time \<Rightarrow> uuid \<Rightarrow> grant cap_op" where
  "ResolveScoped ctx now gid =
     bnd (from_context ctx) (\<lambda>scope.
     bnd (require_org ctx (s_OrgID scope)) (\<lambda>_.
     bnd (query Sql (\<lambda>d. List.find (\<lambda>g. g_ID g = gid \<and> g_OrgID g = s_OrgID scope) (grants d))) (\<lambda>row.
     case row of
       None \<Rightarrow> fail (App NoRows)
     | Some g \<Rightarrow> if \<not> now < g_ExpiresAt g then fail (App ErrGrantExpired) else ret g)))"

section \<open>Issuance\<close>

text \<open>The admission test of \<open>issuanceTransaction\<close>, before any statement.\<close>

definition issuance_admitted :: "ctx \<Rightarrow> issuance_intent \<Rightarrow> bool \<Rightarrow> bool" where
  "issuance_admitted ctx i delegated =
     (case FromContext ctx of
        Inl _ \<Rightarrow> False
      | Inr scope \<Rightarrow>
          (let g = i_Grant i;
               issuer = (if delegated
                 then s_ActorKind scope = ''service'' \<and> s_ServiceName scope = ''agent-runtime''
                   \<and> i_IssuerID i \<noteq> uuid_Nil \<and> i_IssuerKind i = ''user''
                 else s_ActorID scope \<noteq> uuid_Nil \<and> s_ActorID scope = i_IssuerID i
                   \<and> s_ActorKind scope = i_IssuerKind i)
           in \<not> (s_OrgID scope = uuid_Nil \<or> s_OrgID scope \<noteq> g_OrgID g \<or> \<not> issuer
                \<or> i_RunID i = uuid_Nil \<or> g_ID g = uuid_Nil \<or> g_SubjectID g = uuid_Nil
                \<or> g_SubjectKind g \<noteq> ''agent'' \<or> \<not> g_RepoRead g \<or> g_SecretsProd g
                \<or> g_DeployProd g \<or> g_DeployStaging g
                \<or> \<not> prefix ''agents/'' (g_WriteBranch g) \<or> \<not> suffix ''/'' (g_WriteBranch g)
                \<or> sublist ''..'' (g_WriteBranch g))))"

definition insert_issuance :: "issuance_intent \<Rightarrow> capdb \<Rightarrow> sqlerr + (unit \<times> capdb)" where
  "insert_issuance i d =
     (let g = i_Grant i in
      if g_ID g \<in> n_id ` set (issuances d) then Inl UniqueViolation
      else Inr ((), d\<lparr>issuances := issuances d @
        [\<lparr>n_id = g_ID g, n_org_id = g_OrgID g, n_issuer_id = i_IssuerID i,
          n_issuer_kind = i_IssuerKind i, n_run_id = i_RunID i, n_intent = i,
          n_cancelled = False\<rparr>]\<rparr>))"

text \<open>The statements of \<open>issuanceTransaction\<close>, inside the transaction it opens.\<close>

definition issuance_statements :: "issuance_intent \<Rightarrow> unit cap_op" where
  "issuance_statements i =
     (let g = i_Grant i in
      bnd (query Sql (\<lambda>_. ())) (\<lambda>_. \<comment> \<open>the advisory lock\<close>
      bnd (query Sql (\<lambda>d. \<exists>l \<in> set (legacies d). l_GrantID l = g_ID g)) (\<lambda>legacyCancelled.
      if legacyCancelled then fail (App ErrIssuanceDenied) else
      bnd (query Sql (\<lambda>d. map_option (\<lambda>n. n_intent n = i)
             (List.find (\<lambda>n. n_id n = g_ID g) (issuances d)))) (\<lambda>row.
      case row of
        Some identical \<Rightarrow> if \<not> identical then fail (App ErrIssuanceDenied) else ret ()
      | None \<Rightarrow>
          bnd (query (\<lambda>_. App ErrIssuanceDenied) (\<lambda>d. \<exists>x \<in> set (grants d). g_ID x = g_ID g)) (\<lambda>exists.
          if exists then fail (App ErrIssuanceDenied)
          else stmt Sql (insert_issuance i))))))"

definition issuanceTransaction :: "ctx \<Rightarrow> issuance_intent \<Rightarrow> bool \<Rightarrow> 'a txres cap_op \<Rightarrow> 'a cap_op" where
  "issuanceTransaction ctx i delegated body =
     (if \<not> issuance_admitted ctx i delegated then fail (App ErrIssuanceDenied)
      else tx Sql (bnd (issuance_statements i) (\<lambda>_. body)))"

text \<open>24 hours.\<close>

definition day :: int where
  "day = 24 * 60 * 60 * second"

definition issue_body :: "time \<Rightarrow> grant \<Rightarrow> grant txres cap_op" where
  "issue_body now g =
     bnd (query Sql (\<lambda>d. map_option n_cancelled (List.find (\<lambda>n. n_id n = g_ID g) (issuances d)))) (\<lambda>row.
     case row of
       None \<Rightarrow> fail (App NoRows)
     | Some cancelled \<Rightarrow>
         if cancelled then fail (App ErrIssuanceDenied) else
         bnd (query (\<lambda>_. App ErrIssuanceDenied) (\<lambda>_. now < g_ExpiresAt g \<and> g_ExpiresAt g \<le> now + day)) (\<lambda>valid.
         if \<not> valid then fail (App ErrIssuanceDenied) else
         bnd (query Sql (\<lambda>d. map_option (\<lambda>x. now < g_ExpiresAt x)
                (List.find (\<lambda>x. g_ID x = g_ID g) (grants d)))) (\<lambda>live.
         case live of
           Some l \<Rightarrow> if \<not> l then fail (App ErrIssuanceDenied) else ret (Commit g)
         | None \<Rightarrow> bnd (stmt Sql (insert_grant g)) (\<lambda>_. ret (Commit g)))))"

definition issueIntent :: "ctx \<Rightarrow> time \<Rightarrow> issuance_intent \<Rightarrow> bool \<Rightarrow> grant cap_op" where
  "issueIntent ctx now i delegated =
     issuanceTransaction ctx i delegated (issue_body now (i_Grant i))"

definition IssueIntent :: "ctx \<Rightarrow> time \<Rightarrow> issuance_intent \<Rightarrow> grant cap_op" where
  "IssueIntent ctx now i = issueIntent ctx now i False"

definition IssueVerifiedRunIntent :: "ctx \<Rightarrow> time \<Rightarrow> issuance_intent \<Rightarrow> grant cap_op" where
  "IssueVerifiedRunIntent ctx now i = issueIntent ctx now i True"

definition set_cancelled :: "uuid \<Rightarrow> capdb \<Rightarrow> capdb" where
  "set_cancelled gid d = d\<lparr>issuances := update_rows (\<lambda>n. n_id n = gid)
     (\<lambda>n. n\<lparr>n_cancelled := True\<rparr>) (issuances d)\<rparr>"

definition cancel_body :: "grant \<Rightarrow> unit txres cap_op" where
  "cancel_body g =
     bnd (update Sql (\<lambda>d. ((), set_cancelled (g_ID g) d))) (\<lambda>_.
     bnd (update Sql (\<lambda>d. ((), expire (g_ID g) (g_OrgID g) d))) (\<lambda>_.
     ret (Commit ())))"

definition cancelIssuance :: "ctx \<Rightarrow> issuance_intent \<Rightarrow> bool \<Rightarrow> unit cap_op" where
  "cancelIssuance ctx i delegated = issuanceTransaction ctx i delegated (cancel_body (i_Grant i))"

definition CancelIssuance :: "ctx \<Rightarrow> issuance_intent \<Rightarrow> unit cap_op" where
  "CancelIssuance ctx i = cancelIssuance ctx i False"

definition CancelVerifiedRunIntent :: "ctx \<Rightarrow> issuance_intent \<Rightarrow> unit cap_op" where
  "CancelVerifiedRunIntent ctx i = cancelIssuance ctx i True"

definition StoredIntent :: "ctx \<Rightarrow> uuid \<Rightarrow> issuance_intent cap_op" where
  "StoredIntent ctx gid =
     bnd (from_context ctx) (\<lambda>scope.
     bnd (require_org ctx (s_OrgID scope)) (\<lambda>_.
     bnd (query Sql (\<lambda>d. List.find (\<lambda>n. n_id n = gid \<and> n_org_id n = s_OrgID scope) (issuances d))) (\<lambda>row.
     case row of None \<Rightarrow> fail (App NoRows) | Some n \<Rightarrow> ret (n_intent n))))"

section \<open>Cancellation of grants older than the receipts\<close>

definition LegacyCancellation :: "ctx \<Rightarrow> uuid \<Rightarrow> legacy_binding cap_op" where
  "LegacyCancellation ctx gid =
     bnd (from_context ctx) (\<lambda>scope.
     bnd (require_org ctx (s_OrgID scope)) (\<lambda>_.
     bnd (query Sql (\<lambda>d. List.find (\<lambda>l. l_GrantID l = gid \<and> l_OrgID l = s_OrgID scope) (legacies d))) (\<lambda>row.
     case row of None \<Rightarrow> fail (App NoRows) | Some l \<Rightarrow> ret l)))"

definition legacy_admitted :: "ctx \<Rightarrow> legacy_binding \<Rightarrow> bool" where
  "legacy_admitted ctx b =
     (case FromContext ctx of
        Inl _ \<Rightarrow> False
      | Inr scope \<Rightarrow> \<not> (s_OrgID scope = uuid_Nil \<or> s_OrgID scope \<noteq> l_OrgID b
          \<or> s_ActorKind scope \<noteq> ''service'' \<or> s_ServiceName scope \<noteq> ''agent-runtime''
          \<or> l_GrantID b = uuid_Nil \<or> l_RunID b = uuid_Nil \<or> l_AgentID b = uuid_Nil
          \<or> l_Branch b = ''''))"

definition insert_legacy :: "legacy_binding \<Rightarrow> capdb \<Rightarrow> sqlerr + (unit \<times> capdb)" where
  "insert_legacy b d =
     (if l_GrantID b \<in> l_GrantID ` set (legacies d) then Inl UniqueViolation
      else Inr ((), d\<lparr>legacies := legacies d @ [b]\<rparr>))"

text \<open>The branch a grant's prefix stands for: a prefix ending in a slash is completed by \<open>work\<close>.\<close>

definition legacy_branch :: "string \<Rightarrow> string" where
  "legacy_branch branch = (if suffix ''/'' branch then branch @ ''work'' else branch)"

definition CancelVerifiedLegacyGrant :: "ctx \<Rightarrow> legacy_binding \<Rightarrow> unit cap_op" where
  "CancelVerifiedLegacyGrant ctx b =
     (if \<not> legacy_admitted ctx b then fail (App ErrIssuanceDenied)
      else tx Sql (
        bnd (query Sql (\<lambda>_. ())) (\<lambda>_. \<comment> \<open>the advisory lock\<close>
        bnd (query Sql (\<lambda>d. map_option (\<lambda>l. l = b)
               (List.find (\<lambda>l. l_GrantID l = l_GrantID b) (legacies d)))) (\<lambda>row.
        case row of
          Some identical \<Rightarrow> if \<not> identical then fail (App ErrIssuanceDenied) else ret (Commit ())
        | None \<Rightarrow>
            bnd (query Sql (\<lambda>d. List.find (\<lambda>g. g_ID g = l_GrantID b \<and> g_OrgID g = l_OrgID b) (grants d))) (\<lambda>found.
            case found of
              None \<Rightarrow> fail (App NoRows)
            | Some g \<Rightarrow>
                if g_SubjectID g \<noteq> l_AgentID b \<or> g_SubjectKind g \<noteq> ''agent'' \<or> g_WriteBranch g = ''''
                   \<or> legacy_branch (g_WriteBranch g) \<noteq> l_Branch b
                then fail (App ErrIssuanceDenied) else
                bnd (query Sql (\<lambda>d. \<exists>n \<in> set (issuances d). n_id n = l_GrantID b)) (\<lambda>issued.
                if issued then fail (App ErrIssuanceDenied) else
                bnd (stmt Sql (insert_legacy b)) (\<lambda>_.
                bnd (update Sql (\<lambda>d. ((), expire (l_GrantID b) (l_OrgID b) d))) (\<lambda>_.
                ret (Commit ()))))))))) "

section \<open>What every operation of the store respects\<close>

text \<open>
  Five statements write the capability tables. A way of changing them that each of the five
  respects is respected by every operation, whatever statements fail.
\<close>

datatype cap_cmd =
    DoIssue uuid grant
  | DoRevoke ctx uuid
  | DoIssueIntent ctx time issuance_intent bool
  | DoCancel ctx issuance_intent bool
  | DoCancelLegacy ctx legacy_binding

fun cap_run :: "cap_cmd \<Rightarrow> unit cap_op" where
  "cap_run (DoIssue new_id g) = bnd (Issue new_id g) (\<lambda>_. ret ())"
| "cap_run (DoRevoke ctx gid) = Revoke ctx gid"
| "cap_run (DoIssueIntent ctx now i delegated) = bnd (issueIntent ctx now i delegated) (\<lambda>_. ret ())"
| "cap_run (DoCancel ctx i delegated) = cancelIssuance ctx i delegated"
| "cap_run (DoCancelLegacy ctx b) = CancelVerifiedLegacyGrant ctx b"

definition cap_exec :: "cap_cmd \<times> bool list \<Rightarrow> capdb \<Rightarrow> capdb" where
  "cap_exec c d = fst (snd (cap_run (fst c) (d, snd c)))"

locale cap_frame = db_frame R for R :: "capdb \<Rightarrow> capdb \<Rightarrow> bool" +
  assumes law_insert_grant: "insert_grant g d = Inr (u, d') \<Longrightarrow> R d d'"
    and law_expire: "R d (expire gid org d)"
    and law_insert_issuance: "insert_issuance i d = Inr (u, d') \<Longrightarrow> R d d'"
    and law_set_cancelled: "R d (set_cancelled gid d)"
    and law_insert_legacy: "insert_legacy b d = Inr (u, d') \<Longrightarrow> R d d'"
begin

lemmas laws = law_insert_grant law_expire law_insert_issuance law_set_cancelled law_insert_legacy

lemma within_Issue: "within R (Issue new_id g)"
  unfolding Issue_def Let_def by (intro frame_rules) (auto intro: laws)

lemma within_Revoke: "within R (Revoke ctx gid)"
  unfolding Revoke_def
  by (intro frame_rules frame_from_context frame_require_org) (auto intro: laws)

lemma within_issuance_statements: "within R (issuance_statements i)"
  unfolding issuance_statements_def Let_def by (intro frame_rules) (auto intro: laws)

lemma within_issuanceTransaction: "within R body \<Longrightarrow> within R (issuanceTransaction ctx i delegated body)"
  unfolding issuanceTransaction_def by (intro frame_rules within_issuance_statements)

lemma within_issueIntent: "within R (issueIntent ctx now i delegated)"
  unfolding issueIntent_def issue_body_def
  by (intro frame_rules within_issuanceTransaction) (auto intro: laws)

lemma within_cancelIssuance: "within R (cancelIssuance ctx i delegated)"
  unfolding cancelIssuance_def cancel_body_def
  by (intro frame_rules within_issuanceTransaction) (auto intro: laws)

lemma within_CancelVerifiedLegacyGrant: "within R (CancelVerifiedLegacyGrant ctx b)"
  unfolding CancelVerifiedLegacyGrant_def by (intro frame_rules) (auto intro: laws)

lemma within_cap_run: "within R (cap_run c)"
proof (cases c)
  case (DoIssue new_id g)
  then show ?thesis by (auto intro!: frame_rules within_Issue)
next
  case (DoIssueIntent ctx now i delegated)
  then show ?thesis by (auto intro!: frame_rules within_issueIntent)
qed (auto intro: within_Revoke within_cancelIssuance within_CancelVerifiedLegacyGrant)

lemma exec_R: "R d (cap_exec c d)"
  using withinD[OF within_cap_run, of "(d, snd c)" "fst c"]
  by (simp add: cap_exec_def)

lemma history_R: "R d (fold cap_exec cs d)"
  by (induction cs arbitrary: d) (auto intro: frame_refl frame_trans exec_R)

end

subsection \<open>Authority is never renewed\<close>

definition lowered :: "capdb \<Rightarrow> capdb \<Rightarrow> bool" where
  "lowered d d' \<longleftrightarrow> (\<forall>g \<in> set (grants d). \<exists>e \<le> g_ExpiresAt g. g\<lparr>g_ExpiresAt := e\<rparr> \<in> set (grants d'))"

lemma lowered_trans:
  assumes "lowered a b" and "lowered b c"
  shows "lowered a c"
  unfolding lowered_def
proof
  fix g assume "g \<in> set (grants a)"
  with assms(1) obtain e where e: "e \<le> g_ExpiresAt g" "g\<lparr>g_ExpiresAt := e\<rparr> \<in> set (grants b)"
    unfolding lowered_def by blast
  with assms(2) obtain e' where "e' \<le> e" "g\<lparr>g_ExpiresAt := e\<rparr>\<lparr>g_ExpiresAt := e'\<rparr> \<in> set (grants c)"
    unfolding lowered_def by fastforce
  with e show "\<exists>e \<le> g_ExpiresAt g. g\<lparr>g_ExpiresAt := e\<rparr> \<in> set (grants c)"
    by (intro exI[of _ e']) auto
qed

lemma lowered_same_grants: "grants d' = grants d \<Longrightarrow> lowered d d'"
  unfolding lowered_def by (intro ballI exI[of _ "g_ExpiresAt g" for g]) auto

lemma lowered_expire: "lowered d (expire gid org d)"
  unfolding lowered_def
proof
  fix g assume g: "g \<in> set (grants d)"
  let ?e = "if g_ID g = gid \<and> g_OrgID g = org then min (g_ExpiresAt g) epoch else g_ExpiresAt g"
  have "g\<lparr>g_ExpiresAt := ?e\<rparr> \<in> set (grants (expire gid org d))"
    using g by (force simp: expire_def set_update_rows)
  then show "\<exists>e \<le> g_ExpiresAt g. g\<lparr>g_ExpiresAt := e\<rparr> \<in> set (grants (expire gid org d))"
    by (intro exI[of _ ?e]) auto
qed

interpretation lowered_frame: cap_frame lowered
proof
  fix g d u d' assume "insert_grant g d = Inr (u, d')"
  then have "set (grants d) \<subseteq> set (grants d')"
    by (auto simp: insert_grant_def split: if_splits)
  then show "lowered d d'"
    unfolding lowered_def by (intro ballI exI[of _ "g_ExpiresAt g" for g]) auto
qed (auto simp: insert_issuance_def set_cancelled_def insert_legacy_def Let_def
       intro: lowered_trans lowered_same_grants lowered_expire split: if_splits)

subsection \<open>A cancelled issuance stays cancelled\<close>

definition tombstone :: "capdb \<Rightarrow> uuid \<Rightarrow> unit option" where
  "tombstone d gid = (if \<exists>n \<in> set (issuances d). n_id n = gid \<and> n_cancelled n then Some () else None)"

definition tombstones_kept :: "capdb \<Rightarrow> capdb \<Rightarrow> bool" where
  "tombstones_kept d d' \<longleftrightarrow> (\<forall>gid. tombstone d gid = Some () \<longrightarrow> tombstone d' gid = Some ())"

interpretation tombstone_frame: cap_frame tombstones_kept
proof
  fix gid d show "tombstones_kept d (set_cancelled gid d)"
    by (force simp: tombstones_kept_def tombstone_def set_cancelled_def set_update_rows)
qed (auto simp: tombstones_kept_def tombstone_def insert_grant_def insert_issuance_def expire_def
       insert_legacy_def Let_def split: if_splits)

interpretation tombstones: write_once cap_exec tombstone
  using tombstone_frame.exec_R
  by unfold_locales (auto simp: tombstones_kept_def)

subsection \<open>Identifiers are keys\<close>

definition capdb_ok :: "capdb \<Rightarrow> bool" where
  "capdb_ok d \<longleftrightarrow> distinct (map g_ID (grants d)) \<and> distinct (map n_id (issuances d))
     \<and> distinct (map l_GrantID (legacies d))
     \<and> (\<forall>n \<in> set (issuances d). n_org_id n = g_OrgID (i_Grant (n_intent n)) \<and> n_id n = g_ID (i_Grant (n_intent n)))"

interpretation capdb_frame: cap_frame "keeps capdb_ok"
proof
  fix gid org d show "keeps capdb_ok d (expire gid org d)"
    by (auto simp: keeps_def capdb_ok_def expire_def map_update_rows)
next
  fix gid d show "keeps capdb_ok d (set_cancelled gid d)"
    by (auto simp: keeps_def capdb_ok_def set_cancelled_def map_update_rows set_update_rows)
qed (auto simp: keeps_def capdb_ok_def insert_grant_def insert_issuance_def insert_legacy_def Let_def
       split: if_splits)

subsection \<open>What a successful insert writes\<close>

lemma insert_grant_Inr:
  "insert_grant g d = Inr (u, d') \<longleftrightarrow> g_ID g \<notin> g_ID ` set (grants d)
     \<and> (g_SubjectKind g = ''user'' \<or> g_SubjectKind g = ''agent'') \<and> d' = d\<lparr>grants := grants d @ [g]\<rparr>"
  by (auto simp: insert_grant_def)

lemma insert_issuance_Inr:
  "insert_issuance i d = Inr (u, d') \<longleftrightarrow> g_ID (i_Grant i) \<notin> n_id ` set (issuances d)
     \<and> d' = d\<lparr>issuances := issuances d @
        [\<lparr>n_id = g_ID (i_Grant i), n_org_id = g_OrgID (i_Grant i), n_issuer_id = i_IssuerID i,
          n_issuer_kind = i_IssuerKind i, n_run_id = i_RunID i, n_intent = i, n_cancelled = False\<rparr>]\<rparr>"
  by (auto simp: insert_issuance_def Let_def)

section \<open>Lemmas on the branch-write rule\<close>

lemma CanWriteRef_Inr:
  "CanWriteRef g ref = Inr u \<longleftrightarrow>
     \<not> sublist ''..'' ref \<and> g_WriteBranch g \<noteq> '''' \<and> prefix (g_WriteBranch g) (TrimPrefix ref refHeadsPrefix)"
  by (auto simp: CanWriteRef_def Let_def)

text \<open>
  A ref update a grant permits names a branch under the grant's prefix, with no path
  traversal, and an empty prefix permits nothing; so two grants neither of whose prefixes
  extends the other can never both write one ref.
\<close>

theorem write_prefixes_separate:
  assumes "CanWriteRef g ref = Inr ()"
  shows "prefix (g_WriteBranch g) (TrimPrefix ref refHeadsPrefix) \<and> g_WriteBranch g \<noteq> ''''
    \<and> \<not> sublist ''..'' ref
    \<and> (\<forall>h. CanWriteRef h ref = Inr () \<longrightarrow>
          prefix (g_WriteBranch g) (g_WriteBranch h) \<or> prefix (g_WriteBranch h) (g_WriteBranch g))"
  using assms prefix_same_cases by (fastforce simp: CanWriteRef_Inr)

definition sample_grant :: grant where
  "sample_grant = \<lparr>g_ID = 11, g_OrgID = 7, g_SubjectID = 4, g_SubjectKind = ''agent'', g_RepoRead = True,
     g_WriteBranch = ''agents/NF-1/'', g_SecretsProd = False, g_DeployStaging = False,
     g_DeployProd = False, g_ExpiresAt = 5000\<rparr>"

theorem write_prefixes_separate_witness:
  "CanWriteRef sample_grant ''refs/heads/agents/NF-1/work'' = Inr ()
    \<and> prefix ''agents/NF-1/'' ''agents/NF-1/work''
    \<and> CanWriteRef (sample_grant\<lparr>g_WriteBranch := ''agents/NF-2/''\<rparr>) ''refs/heads/agents/NF-1/work'' \<noteq> Inr ()"
proof -
  have h: "CanWriteRef sample_grant ''refs/heads/agents/NF-1/work'' = Inr ()"
    by (simp add: CanWriteRef_def sample_grant_def TrimPrefix_def refHeadsPrefix_def sublist_code)
  show ?thesis
    using h write_prefixes_separate[OF h]
    by (auto simp: sample_grant_def TrimPrefix_def refHeadsPrefix_def sublist_code)
qed

section \<open>Issuance and cancellation\<close>

definition intent_confined :: "issuance_intent \<Rightarrow> bool" where
  "intent_confined i \<longleftrightarrow>
     (let g = i_Grant i in
      g_SubjectKind g = ''agent'' \<and> g_RepoRead g \<and> \<not> g_SecretsProd g \<and> \<not> g_DeployProd g
      \<and> \<not> g_DeployStaging g \<and> prefix ''agents/'' (g_WriteBranch g) \<and> suffix ''/'' (g_WriteBranch g)
      \<and> \<not> sublist ''..'' (g_WriteBranch g) \<and> i_RunID i \<noteq> uuid_Nil \<and> g_OrgID g \<noteq> uuid_Nil)"

lemma admitted_confined:
  "issuance_admitted ctx i delegated \<Longrightarrow>
     intent_confined i \<and> (\<exists>s. ctx = Some s \<and> s_OrgID s = g_OrgID (i_Grant i))"
  by (cases ctx) (auto simp: issuance_admitted_def intent_confined_def Let_def)

lemma issuanceTransaction_Inr:
  assumes "issuanceTransaction ctx i delegated body w = (Inr a, w')"
  obtains w1 w2 r where "issuance_admitted ctx i delegated"
    and "issuance_statements i (fst w, tl (snd w)) = (Inr (), w1)"
    and "body w1 = (Inr r, w2)"
    and "r = Commit a \<and> w' = (fst w2, tl (snd w2)) \<or> r = Abort a \<and> w' = (fst w, snd w2)"
  using assms by (auto simp: issuanceTransaction_def run_simps split: if_splits)

lemma issuance_statements_Inr:
  assumes "issuance_statements i w = (Inr u, w')"
  shows "\<exists>n \<in> set (issuances (fst w')). n_id n = g_ID (i_Grant i) \<and> n_intent n = i"
    and "grants (fst w') = grants (fst w)" and "legacies (fst w') = legacies (fst w)"
    and "\<forall>l \<in> set (legacies (fst w)). l_GrantID l \<noteq> g_ID (i_Grant i)"
    and "\<exists>ns. issuances (fst w') = issuances (fst w) @ ns \<and> (\<forall>n \<in> set ns. \<not> n_cancelled n)"
  using assms
  by (auto simp: issuance_statements_def Let_def run_simps insert_issuance_Inr
      split: option.splits if_splits dest!: find_Some_in)

lemma issue_body_Inr:
  assumes "issue_body now g w = (Inr r, w')"
  shows "r = Commit g \<and> now < g_ExpiresAt g \<and> g_ExpiresAt g \<le> now + day
    \<and> (\<exists>n. List.find (\<lambda>n. n_id n = g_ID g) (issuances (fst w)) = Some n \<and> \<not> n_cancelled n)
    \<and> (case List.find (\<lambda>x. g_ID x = g_ID g) (grants (fst w)) of
         Some x \<Rightarrow> now < g_ExpiresAt x \<and> fst w' = fst w
       | None \<Rightarrow> fst w' = (fst w)\<lparr>grants := grants (fst w) @ [g]\<rparr>)"
  using assms
  by (auto simp: issue_body_def run_simps insert_grant_Inr split: option.splits if_splits)

lemma issueIntent_Inr:
  assumes "issueIntent ctx now i delegated w = (Inr g, w')"
  obtains w1 n where "issuance_admitted ctx i delegated" and "g = i_Grant i"
    and "issuance_statements i (fst w, tl (snd w)) = (Inr (), w1)"
    and "now < g_ExpiresAt g" and "g_ExpiresAt g \<le> now + day"
    and "List.find (\<lambda>n. n_id n = g_ID g) (issuances (fst w1)) = Some n" and "\<not> n_cancelled n"
    and "case List.find (\<lambda>x. g_ID x = g_ID g) (grants (fst w)) of
         Some x \<Rightarrow> now < g_ExpiresAt x \<and> fst w' = fst w1
       | None \<Rightarrow> fst w' = (fst w1)\<lparr>grants := grants (fst w) @ [g]\<rparr>"
proof -
  obtain w1 w2 r where a: "issuance_admitted ctx i delegated"
    and s: "issuance_statements i (fst w, tl (snd w)) = (Inr (), w1)"
    and b: "issue_body now (i_Grant i) w1 = (Inr r, w2)"
    and e: "r = Commit g \<and> w' = (fst w2, tl (snd w2)) \<or> r = Abort g \<and> w' = (fst w, snd w2)"
    using assms unfolding issueIntent_def by (rule issuanceTransaction_Inr)
  note f = issue_body_Inr[OF b]
  have gr: "grants (fst w1) = grants (fst w)" using issuance_statements_Inr(2)[OF s] by simp
  have g: "g = i_Grant i" and d': "fst w' = fst w2" using f e by auto
  obtain n where n: "List.find (\<lambda>n. n_id n = g_ID g) (issuances (fst w1)) = Some n" "\<not> n_cancelled n"
    using f g by blast
  show thesis
    by (rule that[OF a g s _ _ n]) (use f g d' gr in \<open>auto split: option.splits\<close>)
qed

lemma issueIntent_row:
  assumes "issueIntent ctx now i delegated w = (Inr g, w')"
  shows "\<exists>x \<in> set (grants (fst w')). g_ID x = g_ID g \<and> now < g_ExpiresAt x"
  using assms
  by (rule issueIntent_Inr)
     (auto simp: issuance_statements_Inr(2) split: option.splits dest!: find_Some_in)

text \<open>
  A run's grant, once issued, is confined: it is the grant of the intent, in the caller's
  organization, for an agent, reading and writing only below a prefix of the agents namespace,
  with no production or deployment power, live now and for at most 24 hours; and its row is in
  the grant table.
\<close>

theorem issued_grant_confined:
  assumes "issueIntent ctx now i delegated w = (Inr g, w')"
  shows "g = i_Grant i \<and> intent_confined i
    \<and> (\<exists>s. ctx = Some s \<and> s_OrgID s = g_OrgID g)
    \<and> now < g_ExpiresAt g \<and> g_ExpiresAt g \<le> now + 24 * 60 * 60 * second
    \<and> (\<exists>x \<in> set (grants (fst w')). g_ID x = g_ID g \<and> now < g_ExpiresAt x)
    \<and> (\<forall>ref. CanWriteRef g ref = Inr () \<longrightarrow> prefix ''agents/'' (TrimPrefix ref refHeadsPrefix))"
proof -
  have f: "issuance_admitted ctx i delegated" "g = i_Grant i" "now < g_ExpiresAt g" "g_ExpiresAt g \<le> now + day"
    using assms by (auto elim: issueIntent_Inr)
  have c: "intent_confined i" "\<exists>s. ctx = Some s \<and> s_OrgID s = g_OrgID g"
    using admitted_confined[OF f(1)] f(2) by auto
  have "prefix ''agents/'' (g_WriteBranch g)"
    using c(1) f(2) by (simp add: intent_confined_def Let_def)
  then have "\<forall>ref. CanWriteRef g ref = Inr () \<longrightarrow> prefix ''agents/'' (TrimPrefix ref refHeadsPrefix)"
    by (auto simp only: CanWriteRef_Inr intro: prefix_order.order_trans)
  with f c issueIntent_row[OF assms] show ?thesis by (simp add: day_def)
qed

definition sample_member :: scope where
  "sample_member = \<lparr>s_OrgID = 7, s_ActorID = 3, s_ActorKind = ''user'', s_ServiceName = '''',
     s_Role = ''owner'', s_PlatformWorker = '''', s_RepoLimited = False, s_Repos = Map.empty\<rparr>"

definition sample_intent :: issuance_intent where
  "sample_intent = \<lparr>i_IssuerID = 3, i_IssuerKind = ''user'', i_RunID = 21, i_Grant = sample_grant\<rparr>"

definition empty_capdb :: capdb where
  "empty_capdb = \<lparr>grants = [], issuances = [], legacies = []\<rparr>"

definition issued_capdb :: capdb where
  "issued_capdb = \<lparr>grants = [sample_grant],
     issuances = [\<lparr>n_id = 11, n_org_id = 7, n_issuer_id = 3, n_issuer_kind = ''user'', n_run_id = 21,
       n_intent = sample_intent, n_cancelled = False\<rparr>], legacies = []\<rparr>"

lemma sample_admitted: "issuance_admitted (Some sample_member) sample_intent False"
  by (simp add: issuance_admitted_def sample_member_def sample_intent_def sample_grant_def Let_def suffix_to_prefix sublist_code)

lemma sample_issue:
  "issueIntent (Some sample_member) 1000 sample_intent False (empty_capdb, []) = (Inr sample_grant, (issued_capdb, []))"
  using sample_admitted
  by (simp add: issueIntent_def issue_body_def issuanceTransaction_def issuance_statements_def Let_def op_defs
      empty_capdb_def issued_capdb_def insert_issuance_def insert_grant_def sample_intent_def
      sample_grant_def day_def)

theorem issued_grant_confined_witness:
  "issueIntent (Some sample_member) 1000 sample_intent False (empty_capdb, []) = (Inr sample_grant, (issued_capdb, []))
    \<and> intent_confined sample_intent"
  using sample_issue issued_grant_confined[OF sample_issue] by blast

text \<open>
  A retry after a lost reply issues nothing new: once a run's grant has been issued for the
  first time, issuing the same intent again at any instant before its expiry returns the same
  grant, with its first expiry, and leaves the tables as they are.
\<close>

theorem issue_retry_identical:
  assumes "issueIntent ctx now i delegated w = (Inr g, w')"
    and "capdb_ok (fst w)" and "\<forall>x \<in> set (grants (fst w)). g_ID x \<noteq> g_ID (i_Grant i)"
    and "now \<le> later" and "later < g_ExpiresAt g"
  shows "issueIntent ctx later i delegated (fst w', []) = (Inr g, (fst w', []))"
proof -
  obtain w1 n where f: "issuance_admitted ctx i delegated" "g = i_Grant i"
    "now < g_ExpiresAt g" "g_ExpiresAt g \<le> now + day"
    and s: "issuance_statements i (fst w, tl (snd w)) = (Inr (), w1)"
    and n: "List.find (\<lambda>n. n_id n = g_ID g) (issuances (fst w1)) = Some n" "\<not> n_cancelled n"
    and c: "case List.find (\<lambda>x. g_ID x = g_ID g) (grants (fst w)) of
         Some x \<Rightarrow> now < g_ExpiresAt x \<and> fst w' = fst w1
       | None \<Rightarrow> fst w' = (fst w1)\<lparr>grants := grants (fst w) @ [g]\<rparr>"
    using assms(1) by (rule issueIntent_Inr)
  have "List.find (\<lambda>x. g_ID x = g_ID g) (grants (fst w)) = None"
    using assms(3) f(2) by (simp add: find_None_iff')
  with c have d': "fst w' = (fst w1)\<lparr>grants := grants (fst w) @ [g]\<rparr>" by simp
  have ok: "capdb_ok (fst w')"
    using within_run[OF capdb_frame.within_issueIntent assms(1)] assms(2) by (simp add: keeps_def)
  note st = issuance_statements_Inr[OF s, unfolded fst_conv]
  obtain m where m: "m \<in> set (issuances (fst w1))" "n_id m = g_ID g" "n_intent m = i"
    using st(1) f(2) by auto
  have "n = m"
    using n(1) m ok find_Some_in[OF n(1)] by (auto simp: d' capdb_ok_def distinct_map inj_on_def)
  moreover have "List.find (\<lambda>x. g_ID x = g_ID g) (grants (fst w')) = Some g"
    using ok by (intro find_key_unique[where k = g_ID]) (auto simp: capdb_ok_def d')
  moreover have "\<forall>l \<in> set (legacies (fst w')). l_GrantID l \<noteq> g_ID g"
    using st(3,4) f(2) by (simp add: d')
  ultimately show ?thesis
    using f assms(4,5) n m
    by (simp add: issueIntent_def issue_body_def issuanceTransaction_def issuance_statements_def Let_def op_defs d')
qed

theorem issue_retry_identical_witness:
  "issueIntent (Some sample_member) 4999 sample_intent False (issued_capdb, []) = (Inr sample_grant, (issued_capdb, []))"
proof -
  have ok: "capdb_ok (fst (empty_capdb, []))" by (simp add: capdb_ok_def empty_capdb_def)
  have no: "\<forall>x \<in> set (grants (fst (empty_capdb, []))). g_ID x \<noteq> g_ID (i_Grant sample_intent)"
    by (simp add: empty_capdb_def)
  have t: "(1000::int) \<le> 4999" "(4999::int) < g_ExpiresAt sample_grant" by (simp_all add: sample_grant_def)
  show ?thesis using issue_retry_identical[OF sample_issue ok no t] by simp
qed

lemma tombstone_refuses:
  assumes "capdb_ok (fst w)" and "tombstone (fst w) (g_ID (i_Grant i)) = Some ()"
  shows "issueIntent ctx now i delegated w \<noteq> (Inr g, w')"
proof
  assume run: "issueIntent ctx now i delegated w = (Inr g, w')"
  obtain w1 n where f: "g = i_Grant i"
    and s: "issuance_statements i (fst w, tl (snd w)) = (Inr (), w1)"
    and n: "List.find (\<lambda>n. n_id n = g_ID g) (issuances (fst w1)) = Some n" "\<not> n_cancelled n"
    using run by (rule issueIntent_Inr) (rule that)
  obtain m where m: "m \<in> set (issuances (fst w))" "n_id m = g_ID (i_Grant i)" "n_cancelled m"
    using assms(2) by (auto simp: tombstone_def split: if_splits)
  have "capdb_ok (fst w1)"
    using within_run[OF capdb_frame.within_issuance_statements s] assms(1) by (simp add: keeps_def)
  moreover have "m \<in> set (issuances (fst w1))"
    using issuance_statements_Inr(5)[OF s] m(1) by auto
  ultimately have "m = n"
    using find_Some_in[OF n(1)] m(2) f by (auto simp: capdb_ok_def distinct_map inj_on_def)
  with m(3) n(2) show False by simp
qed

lemma cancel_writes_tombstone:
  assumes "cancelIssuance ctx i delegated w = (Inr (), w')"
  shows "tombstone (fst w') (g_ID (i_Grant i)) = Some ()"
proof -
  obtain w1 w2 r where s: "issuance_statements i (fst w, tl (snd w)) = (Inr (), w1)"
    and b: "cancel_body (i_Grant i) w1 = (Inr r, w2)"
    and e: "r = Commit () \<and> w' = (fst w2, tl (snd w2)) \<or> r = Abort () \<and> w' = (fst w, snd w2)"
    using assms unfolding cancelIssuance_def by (rule issuanceTransaction_Inr) (rule that)
  have d': "fst w' = expire (g_ID (i_Grant i)) (g_OrgID (i_Grant i)) (set_cancelled (g_ID (i_Grant i)) (fst w1))"
    using b e by (auto simp: cancel_body_def run_simps)
  obtain n where "n \<in> set (issuances (fst w1))" "n_id n = g_ID (i_Grant i)"
    using issuance_statements_Inr(1)[OF s] by blast
  then have "n\<lparr>n_cancelled := True\<rparr> \<in> set (issuances (fst w'))"
    by (force simp: d' expire_def set_cancelled_def set_update_rows)
  then show ?thesis
    using \<open>n_id n = g_ID (i_Grant i)\<close> by (auto simp: tombstone_def intro!: bexI[of _ "n\<lparr>n_cancelled := True\<rparr>"])
qed

text \<open>
  C34. Cancelling an issuance fences its identifier for good: after a cancellation has
  succeeded, whatever operations follow, from any caller and with any statements failing, no
  issuance of that grant identifier succeeds again.
\<close>

theorem cancellation_is_final:
  assumes "capdb_ok (fst w)" and "cancelIssuance ctx i delegated w = (Inr (), w')"
    and "g_ID (i_Grant j) = g_ID (i_Grant i)"
  shows "\<exists>e. fst (issueIntent ctx' now j delegated' (fold cap_exec history (fst w'), faults)) = Inl e"
proof -
  have ok: "capdb_ok (fst w')"
    using within_run[OF capdb_frame.within_cancelIssuance assms(2)] assms(1) by (simp add: keeps_def)
  then have "capdb_ok (fold cap_exec history (fst w'))"
    using capdb_frame.history_R by (simp add: keeps_def)
  moreover have "tombstone (fold cap_exec history (fst w')) (g_ID (i_Grant j)) = Some ()"
    using tombstones.history_keeps[OF cancel_writes_tombstone[OF assms(2)]] assms(3) by simp
  ultimately have "issueIntent ctx' now j delegated' (fold cap_exec history (fst w'), faults) \<noteq> (Inr g, w'')" for g w''
    by (intro tombstone_refuses) simp_all
  then show ?thesis
    by (metis sum.exhaust_sel prod.collapse)
qed

lemma sample_cancel:
  "\<exists>w'. cancelIssuance (Some sample_member) sample_intent False (empty_capdb, []) = (Inr (), w')"
  using sample_admitted
  by (simp add: cancelIssuance_def cancel_body_def issuanceTransaction_def issuance_statements_def Let_def op_defs
      empty_capdb_def insert_issuance_def)

theorem cancellation_is_final_witness:
  "\<exists>d. fst (issueIntent (Some sample_member) 1000 sample_intent False (empty_capdb, [])) = Inr sample_grant
    \<and> (\<exists>e. fst (issueIntent (Some sample_member) 1000 sample_intent False (d, [])) = Inl e)"
proof -
  obtain w' where c: "cancelIssuance (Some sample_member) sample_intent False (empty_capdb, []) = (Inr (), w')"
    using sample_cancel by blast
  have ok: "capdb_ok (fst (empty_capdb, []))" by (simp add: capdb_ok_def empty_capdb_def)
  show ?thesis
    using cancellation_is_final[OF ok c, of sample_intent "Some sample_member" 1000 False "[]" "[]"] sample_issue
    by auto
qed

section \<open>Revocation\<close>

lemma grant_row_history:
  assumes "capdb_ok d" and "g \<in> set (grants d)"
  shows "\<exists>e \<le> g_ExpiresAt g.
    filter (\<lambda>x. g_ID x = g_ID g) (grants (fold cap_exec history d)) = [g\<lparr>g_ExpiresAt := e\<rparr>]"
proof -
  let ?d' = "fold cap_exec history d"
  have ok: "distinct (map g_ID (grants ?d'))"
    using capdb_frame.history_R[of d history] assms(1) by (auto simp: keeps_def capdb_ok_def)
  obtain e where e: "e \<le> g_ExpiresAt g" "g\<lparr>g_ExpiresAt := e\<rparr> \<in> set (grants ?d')"
    using lowered_frame.history_R[of d history] assms(2) unfolding lowered_def by blast
  then have "filter (\<lambda>x. g_ID x = g_ID g) (grants ?d') = [g\<lparr>g_ExpiresAt := e\<rparr>]"
    using filter_key_unique[OF ok e(2)] by simp
  with e(1) show ?thesis by blast
qed

text \<open>
  The store never renews authority: whatever operations run, a grant that is in the table
  under an identifier afterwards is the grant that was there before, every field the same but
  the expiry, and that no later than it was; and no row disappears.
\<close>

theorem authority_never_renewed:
  assumes "capdb_ok d" and "g \<in> set (grants d)"
  shows "\<exists>e \<le> g_ExpiresAt g.
    filter (\<lambda>x. g_ID x = g_ID g) (grants (fold cap_exec history d)) = [g\<lparr>g_ExpiresAt := e\<rparr>]"
  using assms by (rule grant_row_history)

theorem authority_never_renewed_witness:
  "\<exists>e \<le> 5000. filter (\<lambda>x. g_ID x = 11)
     (grants (cap_exec (DoRevoke (Some sample_member) 11, []) issued_capdb)) = [sample_grant\<lparr>g_ExpiresAt := e\<rparr>]"
  using authority_never_renewed[of issued_capdb sample_grant "[(DoRevoke (Some sample_member) 11, [])]"]
  by (simp add: capdb_ok_def issued_capdb_def sample_intent_def) (simp add: sample_grant_def)

text \<open>
  Revocation is immediate and final: once a grant of the caller's organization has been
  revoked, then after any operations whatever, at any instant past the epoch, no listing of
  active grants contains it and neither read path resolves it.
\<close>

theorem revocation_is_final:
  assumes "capdb_ok (fst w)" and "Revoke (Some s) (g_ID g) w = (Inr (), w')"
    and "g \<in> set (grants (fst w))" and "g_OrgID g = s_OrgID s" and "0 < now"
  shows "let d = fold cap_exec history (fst w') in
      g_ID g \<notin> g_ID ` set (projr (fst (ListActive now (g_OrgID g) subject (d, []))))
    \<and> fst (Resolve now (g_ID g) (d, [])) = Inl (App ErrGrantExpired)
    \<and> fst (ResolveScoped (Some s) now (g_ID g) (d, [])) = Inl (App ErrGrantExpired)"
proof -
  let ?d = "fold cap_exec history (fst w')"
  let ?g = "g\<lparr>g_ExpiresAt := min (g_ExpiresAt g) epoch\<rparr>"
  have member: "\<not> s_RepoLimited s" and d': "fst w' = expire (g_ID g) (s_OrgID s) (fst w)"
    using assms(2) by (auto simp: Revoke_def run_simps)
  have ok: "capdb_ok (fst w')"
    using within_run[OF capdb_frame.within_Revoke assms(2)] assms(1) by (simp add: keeps_def)
  have "?g \<in> set (grants (fst w'))"
    using assms(3,4) by (force simp: d' expire_def set_update_rows)
  from grant_row_history[OF ok this, of history]
  obtain e where e: "e \<le> epoch" "filter (\<lambda>x. g_ID x = g_ID g) (grants ?d) = [g\<lparr>g_ExpiresAt := e\<rparr>]"
    by auto
  have "filter (\<lambda>x. g_ID x = g_ID g \<and> g_OrgID x = s_OrgID s) (grants ?d)
      = filter (\<lambda>x. g_OrgID x = s_OrgID s) (filter (\<lambda>x. g_ID x = g_ID g) (grants ?d))"
    by (simp add: conj_commute)
  then have scoped: "filter (\<lambda>x. g_ID x = g_ID g \<and> g_OrgID x = s_OrgID s) (grants ?d) = [g\<lparr>g_ExpiresAt := e\<rparr>]"
    using e(2) assms(4) by simp
  have "x = g\<lparr>g_ExpiresAt := e\<rparr>" if "x \<in> set (grants ?d)" "g_ID x = g_ID g" for x
  proof -
    from that have "x \<in> set (filter (\<lambda>x. g_ID x = g_ID g) (grants ?d))" by simp
    then show ?thesis using e(2) by simp
  qed
  then have "g_ID g \<notin> g_ID ` set (projr (fst (ListActive now (g_OrgID g) subject (?d, []))))"
    using e(1) assms(5) by (fastforce simp: ListActive_def op_defs)
  moreover have "fst (Resolve now (g_ID g) (?d, [])) = Inl (App ErrGrantExpired)"
    using e assms(5) by (simp add: Resolve_def op_defs find_conv_filter)
  moreover have "fst (ResolveScoped (Some s) now (g_ID g) (?d, [])) = Inl (App ErrGrantExpired)"
    using e(1) scoped assms(5) member
    by (simp add: ResolveScoped_def op_defs find_conv_filter require_org_member)
  ultimately show ?thesis by (simp add: Let_def)
qed

lemma sample_revoke:
  "Revoke (Some sample_member) (g_ID sample_grant) (issued_capdb, [])
     = (Inr (), (expire (g_ID sample_grant) 7 issued_capdb, []))"
  by (simp add: Revoke_def op_defs require_org_member sample_member_def)

theorem revocation_is_final_witness:
  "fst (Resolve 1500 11 (issued_capdb, [])) = Inr sample_grant
    \<and> fst (Resolve 1500 11 (expire 11 7 issued_capdb, [])) = Inl (App ErrGrantExpired)"
proof -
  have ok: "capdb_ok (fst (issued_capdb, []))"
    by (simp add: capdb_ok_def issued_capdb_def sample_intent_def sample_grant_def)
  have g: "sample_grant \<in> set (grants (fst (issued_capdb, [])))" by (simp add: issued_capdb_def)
  have o: "g_OrgID sample_grant = s_OrgID sample_member" by (simp add: sample_grant_def sample_member_def)
  have "fst (Resolve 1500 11 (issued_capdb, [])) = Inr sample_grant"
    by (simp add: Resolve_def op_defs issued_capdb_def) (simp add: sample_grant_def)
  then show ?thesis
    using revocation_is_final[OF ok sample_revoke g o, of 1500 "[]" 0]
    by (simp add: Let_def sample_grant_def)
qed

end
