(* ===== verification/NF_Approvals.thy ===== *)
theory NF_Approvals
  imports NF_Capability
begin

text \<open>
  The approval policy and the store of approval requests (\<open>internal/approvals\<close>). A NULL
  identifier of a row is \<open>uuid.Nil\<close>, as \<open>nullableUUID\<close> and \<open>scanRequest\<close> make
  them; a nil slice is the empty list. The order of rows with the same creation time is not
  fixed by SQL; the model keeps the table's order.
\<close>

section \<open>The policy\<close>

text \<open>\<open>type Action string\<close>: any string, of which eight are named.\<close>

abbreviation ActionReadSource :: string where "ActionReadSource \<equiv> ''read_source''"
abbreviation ActionModifyWorkspace :: string where "ActionModifyWorkspace \<equiv> ''modify_workspace''"
abbreviation ActionAddDependency :: string where "ActionAddDependency \<equiv> ''add_dependency''"
abbreviation ActionChangeDBSchema :: string where "ActionChangeDBSchema \<equiv> ''change_db_schema''"
abbreviation ActionAccessSecret :: string where "ActionAccessSecret \<equiv> ''access_secret''"
abbreviation ActionDeployStaging :: string where "ActionDeployStaging \<equiv> ''deploy_staging''"
abbreviation ActionDeployProduction :: string where "ActionDeployProduction \<equiv> ''deploy_production''"
abbreviation ActionChangeGateConfig :: string where "ActionChangeGateConfig \<equiv> ''change_gate_config''"

datatype decision = DecisionAutomatic | DecisionPolicy | DecisionHuman | DecisionForbidden

definition Decide :: "string \<Rightarrow> grant \<Rightarrow> decision" where
  "Decide a g =
     (if a = ActionReadSource \<or> a = ActionModifyWorkspace then DecisionAutomatic
      else if a = ActionAddDependency then DecisionPolicy
      else if a = ActionChangeDBSchema then DecisionHuman
      else if a = ActionAccessSecret then DecisionPolicy
      else if a = ActionChangeGateConfig then DecisionHuman
      else if a = ActionDeployStaging then
        (if \<not> g_DeployStaging g then DecisionForbidden else DecisionHuman)
      else if a = ActionDeployProduction then
        (if \<not> g_DeployProd g then DecisionForbidden else DecisionHuman)
      else DecisionForbidden)"

record rule =
  r_Action :: string
  r_Decision :: decision
  r_GrantDependent :: bool

definition Rules :: "rule list" where
  "Rules =
     [\<lparr>r_Action = ActionReadSource, r_Decision = DecisionAutomatic, r_GrantDependent = False\<rparr>,
      \<lparr>r_Action = ActionModifyWorkspace, r_Decision = DecisionAutomatic, r_GrantDependent = False\<rparr>,
      \<lparr>r_Action = ActionAddDependency, r_Decision = DecisionPolicy, r_GrantDependent = False\<rparr>,
      \<lparr>r_Action = ActionChangeDBSchema, r_Decision = DecisionHuman, r_GrantDependent = False\<rparr>,
      \<lparr>r_Action = ActionAccessSecret, r_Decision = DecisionPolicy, r_GrantDependent = False\<rparr>,
      \<lparr>r_Action = ActionChangeGateConfig, r_Decision = DecisionHuman, r_GrantDependent = False\<rparr>,
      \<lparr>r_Action = ActionDeployStaging, r_Decision = DecisionHuman, r_GrantDependent = True\<rparr>,
      \<lparr>r_Action = ActionDeployProduction, r_Decision = DecisionHuman, r_GrantDependent = True\<rparr>]"

section \<open>The requests\<close>

record approval =
  a_ID :: uuid
  a_OrgID :: uuid
  a_RunID :: uuid
  a_Action :: string
  a_Detail :: "(string \<times> string) list"
  a_Decision :: string
  a_DecidedBy :: uuid
  a_DecidedAt :: time
  a_CreatedAt :: time
  a_HeadSHA :: string
  a_Reason :: string
  a_Paths :: "string list"
  a_Comment :: string
  a_AuthorID :: uuid
  a_AuthorKind :: string

abbreviation StatePending :: string where "StatePending \<equiv> ''pending''"
abbreviation StateApproved :: string where "StateApproved \<equiv> ''approved''"
abbreviation StateDenied :: string where "StateDenied \<equiv> ''denied''"
abbreviation StateSuperseded :: string where "StateSuperseded \<equiv> ''superseded''"

datatype approvalerr =
    ErrNotPending
  | InvalidDecision string
  | HeadShaRequired
  | ApprovalNoRows
  | InvalidBinding
  | BindingConflict
  | PurgeNeedsOrganization
  | PurgeUnresolved

type_synonym 'a appr_op = "(approval list, approvalerr fault, 'a) op"

text \<open>The unique index on (run, action, head), for requests with a head.\<close>

definition same_change :: "approval \<Rightarrow> approval \<Rightarrow> bool" where
  "same_change r q \<longleftrightarrow> a_RunID r = a_RunID q \<and> a_Action r = a_Action q \<and> a_HeadSHA r = a_HeadSHA q
     \<and> a_HeadSHA r \<noteq> ''''"

definition insert_approval :: "approval \<Rightarrow> approval list \<Rightarrow> sqlerr + (unit \<times> approval list)" where
  "insert_approval r d =
     (if a_ID r \<in> a_ID ` set d \<or> (\<exists>q \<in> set d. same_change r q) then Inl UniqueViolation
      else Inr ((), d @ [r]))"

definition Request :: "ctx \<Rightarrow> uuid \<Rightarrow> time \<Rightarrow> approval \<Rightarrow> approval appr_op" where
  "Request ctx new_id now req0 =
     bnd (require_org ctx (a_OrgID req0)) (\<lambda>_.
     let req1 = (if a_ID req0 = uuid_Nil then req0\<lparr>a_ID := new_id\<rparr> else req0);
         req = (if a_Decision req1 = '''' then req1\<lparr>a_Decision := StatePending\<rparr> else req1) in
     bnd (stmt Sql (insert_approval
            (req\<lparr>a_DecidedBy := uuid_Nil, a_DecidedAt := epoch, a_CreatedAt := now, a_Comment := ''''\<rparr>))) (\<lambda>_.
     ret (req\<lparr>a_CreatedAt := now\<rparr>)))"

definition raised_row :: "uuid \<Rightarrow> time \<Rightarrow> approval \<Rightarrow> approval" where
  "raised_row new_id now req = req\<lparr>a_ID := new_id, a_Decision := StatePending, a_DecidedBy := uuid_Nil,
     a_DecidedAt := epoch, a_CreatedAt := now, a_Comment := ''''\<rparr>"

text \<open>\<open>ON CONFLICT (run_id, action, head_sha) DO NOTHING\<close>.\<close>

definition insert_raised :: "approval \<Rightarrow> approval list \<Rightarrow> sqlerr + (unit \<times> approval list)" where
  "insert_raised r d =
     (if \<exists>q \<in> set d. same_change r q then Inr ((), d) else insert_approval r d)"

definition supersede :: "approval \<Rightarrow> approval list \<Rightarrow> approval list" where
  "supersede req d = update_rows (\<lambda>r. a_OrgID r = a_OrgID req \<and> a_RunID r = a_RunID req
       \<and> a_Action r = a_Action req \<and> a_HeadSHA r \<noteq> a_HeadSHA req \<and> a_Decision r = StatePending)
     (\<lambda>r. r\<lparr>a_Decision := StateSuperseded\<rparr>) d"

definition find_raised :: "approval \<Rightarrow> approval list \<Rightarrow> approval option" where
  "find_raised req d = List.find (\<lambda>r. a_OrgID r = a_OrgID req \<and> a_RunID r = a_RunID req
     \<and> a_Action r = a_Action req \<and> a_HeadSHA r = a_HeadSHA req) d"

definition Raise :: "ctx \<Rightarrow> uuid \<Rightarrow> time \<Rightarrow> approval \<Rightarrow> approval appr_op" where
  "Raise ctx new_id now req =
     bnd (require_org ctx (a_OrgID req)) (\<lambda>_.
     if a_HeadSHA req = '''' then fail (App HeadShaRequired)
     else tx Sql (
       bnd (stmt Sql (insert_raised (raised_row new_id now req))) (\<lambda>_.
       bnd (update Sql (\<lambda>d. ((), supersede req d))) (\<lambda>_.
       bnd (query Sql (find_raised req)) (\<lambda>row.
       case row of None \<Rightarrow> fail (App ApprovalNoRows) | Some got \<Rightarrow> ret (Commit got))))))"

text \<open>The predicate of the UPDATE of \<open>Resolve\<close>.\<close>

definition resolvable :: "scope \<Rightarrow> uuid \<Rightarrow> uuid \<Rightarrow> approval \<Rightarrow> bool" where
  "resolvable scope rid decidedBy r \<longleftrightarrow>
     a_ID r = rid \<and> a_OrgID r = s_OrgID scope \<and> a_Decision r = StatePending
     \<and> (\<not> (a_Action r = ActionDeployStaging \<or> a_Action r = ActionDeployProduction)
        \<or> (IsOrgAdmin scope \<and> s_ActorID scope \<noteq> uuid_Nil \<and> s_ActorID scope = decidedBy
           \<and> a_AuthorID r \<noteq> decidedBy))"

definition Resolve_request :: "ctx \<Rightarrow> time \<Rightarrow> uuid \<Rightarrow> uuid \<Rightarrow> string \<Rightarrow> string \<Rightarrow> approval appr_op" where
  "Resolve_request ctx now rid decidedBy decision comment =
     bnd (from_context ctx) (\<lambda>scope.
     if decision \<noteq> StateApproved \<and> decision \<noteq> StateDenied then fail (App (InvalidDecision decision))
     else
       (let P = resolvable scope rid decidedBy;
            f = (\<lambda>r. r\<lparr>a_Decision := decision, a_DecidedBy := decidedBy, a_DecidedAt := now,
                       a_Comment := comment\<rparr>) in
        bnd (update Sql (\<lambda>d. (map_option f (List.find P d), update_rows P f d))) (\<lambda>row.
        case row of None \<Rightarrow> fail (App ErrNotPending) | Some got \<Rightarrow> ret got)))"

definition Get_request :: "ctx \<Rightarrow> uuid \<Rightarrow> approval appr_op" where
  "Get_request ctx rid =
     bnd (from_context ctx) (\<lambda>scope.
     bnd (query Sql (List.find (\<lambda>r. a_ID r = rid \<and> a_OrgID r = s_OrgID scope))) (\<lambda>row.
     case row of None \<Rightarrow> fail (App ApprovalNoRows) | Some got \<Rightarrow> ret got))"

definition Pending :: "ctx \<Rightarrow> approval list appr_op" where
  "Pending ctx =
     bnd (from_context ctx) (\<lambda>scope.
     query Sql (\<lambda>d. sort_key a_CreatedAt
       (filter (\<lambda>r. a_OrgID r = s_OrgID scope \<and> a_Decision r = StatePending) d)))"

definition ForRun :: "ctx \<Rightarrow> uuid \<Rightarrow> approval list appr_op" where
  "ForRun ctx runID =
     bnd (from_context ctx) (\<lambda>scope.
     query Sql (\<lambda>d. sort_key (\<lambda>r. - a_CreatedAt r)
       (filter (\<lambda>r. a_OrgID r = s_OrgID scope \<and> a_RunID r = runID) d)))"

definition deployment_row :: "scope \<Rightarrow> time \<Rightarrow> uuid \<Rightarrow> uuid \<Rightarrow> string \<Rightarrow> string \<Rightarrow> approval" where
  "deployment_row scope now rid runID action detail =
     \<lparr>a_ID = rid, a_OrgID = s_OrgID scope, a_RunID = runID, a_Action = action,
      a_Detail = [(''raw'', detail)], a_Decision = StatePending, a_DecidedBy = uuid_Nil,
      a_DecidedAt = epoch, a_CreatedAt = now, a_HeadSHA = '''',
      a_Reason = ''Deploy the exact target and artifact in detail'', a_Paths = [], a_Comment = '''',
      a_AuthorID = s_ActorID scope, a_AuthorKind = s_ActorKind scope\<rparr>"

text \<open>\<open>ON CONFLICT (id) DO NOTHING\<close>; a request with no head is outside the other index.\<close>

definition insert_deployment :: "approval \<Rightarrow> approval list \<Rightarrow> approval list" where
  "insert_deployment r d = (if a_ID r \<in> a_ID ` set d then d else d @ [r])"

definition EnsureDeployment :: "ctx \<Rightarrow> time \<Rightarrow> uuid \<Rightarrow> uuid \<Rightarrow> string \<Rightarrow> string \<Rightarrow> approval appr_op" where
  "EnsureDeployment ctx now rid runID action detail =
     bnd (from_context ctx) (\<lambda>scope.
     if s_OrgID scope = uuid_Nil \<or> s_ActorID scope = uuid_Nil \<or> rid = uuid_Nil \<or> runID = uuid_Nil
        \<or> detail = '''' \<or> (action \<noteq> ActionDeployStaging \<and> action \<noteq> ActionDeployProduction)
     then fail (App InvalidBinding) else
     bnd (update Sql (\<lambda>d. ((), insert_deployment (deployment_row scope now rid runID action detail) d))) (\<lambda>_.
     bnd (Get_request ctx rid) (\<lambda>req.
     if a_RunID req \<noteq> runID \<or> a_Action req \<noteq> action \<or> a_AuthorID req \<noteq> s_ActorID scope
        \<or> a_AuthorKind req \<noteq> s_ActorKind scope
        \<or> (case map_of (a_Detail req) ''raw'' of None \<Rightarrow> True | Some v \<Rightarrow> v \<noteq> detail)
        \<or> a_HeadSHA req \<noteq> ''''
     then fail (App BindingConflict) else ret req)))"

section \<open>What every operation of the store respects\<close>

datatype appr_cmd =
    DoRequest ctx uuid time approval
  | DoRaise ctx uuid time approval
  | DoResolve ctx time uuid uuid string string
  | DoEnsure ctx time uuid uuid string string

fun appr_run :: "appr_cmd \<Rightarrow> approval appr_op" where
  "appr_run (DoRequest ctx new_id now req) = Request ctx new_id now req"
| "appr_run (DoRaise ctx new_id now req) = Raise ctx new_id now req"
| "appr_run (DoResolve ctx now rid by verdict c) = Resolve_request ctx now rid by verdict c"
| "appr_run (DoEnsure ctx now rid run act det) = EnsureDeployment ctx now rid run act det"

text \<open>
  The requests of deleted runs and organizations are removed by the purger of the gates service
  (\<open>gates/purge.go\<close>), once the sandboxes and the credentials, which it fences first, are cleaned up:
  \<open>cleaned\<close> says whether both were. Its other tables are not part of this state; deleting their rows may fail.
\<close>

definition gates_purgeOrg :: "ctx \<Rightarrow> uuid appr_op" where
  "gates_purgeOrg ctx = (case ctx of None \<Rightarrow> fail (App PurgeNeedsOrganization)
     | Some s \<Rightarrow> if s_OrgID s = uuid_Nil then fail (App PurgeNeedsOrganization) else ret (s_OrgID s))"

definition delete_requests :: "(approval \<Rightarrow> bool) \<Rightarrow> approval list \<Rightarrow> approval list" where
  "delete_requests P d = filter (\<lambda>r. \<not> P r) d"

definition of_runs :: "uuid \<Rightarrow> uuid list \<Rightarrow> approval \<Rightarrow> bool" where
  "of_runs org runIDs r \<longleftrightarrow> a_OrgID r = org \<and> a_RunID r \<in> set runIDs"

definition of_organization :: "uuid \<Rightarrow> approval \<Rightarrow> bool" where
  "of_organization org r \<longleftrightarrow> a_OrgID r = org"

definition gates_PurgeRuns :: "ctx \<Rightarrow> bool \<Rightarrow> uuid list \<Rightarrow> unit appr_op" where
  "gates_PurgeRuns ctx cleaned runIDs =
     bnd (gates_purgeOrg ctx) (\<lambda>org.
     if runIDs = [] then ret ()
     else if \<not> cleaned then fail (App PurgeUnresolved)
     else bnd (query Sql (\<lambda>_. ())) (\<lambda>_.
     update Sql (\<lambda>d. ((), delete_requests (of_runs org runIDs) d))))"

definition gates_PurgeOrganization :: "ctx \<Rightarrow> bool \<Rightarrow> unit appr_op" where
  "gates_PurgeOrganization ctx cleaned =
     bnd (gates_purgeOrg ctx) (\<lambda>org.
     if \<not> cleaned then fail (App PurgeUnresolved)
     else bnd (query Sql (\<lambda>_. ())) (\<lambda>_.
     bnd (update Sql (\<lambda>d. ((), delete_requests (of_organization org) d))) (\<lambda>_.
     query Sql (\<lambda>_. ()))))"

text \<open>What happens to the table: the operations of the store and the purges.\<close>

datatype appr_event =
    Operate appr_cmd
  | PurgedRuns ctx bool "uuid list"
  | PurgedOrganization ctx bool

fun appr_event_run :: "appr_event \<Rightarrow> unit appr_op" where
  "appr_event_run (Operate c) = bnd (appr_run c) (\<lambda>_. ret ())"
| "appr_event_run (PurgedRuns ctx cleaned runIDs) = gates_PurgeRuns ctx cleaned runIDs"
| "appr_event_run (PurgedOrganization ctx cleaned) = gates_PurgeOrganization ctx cleaned"

definition appr_exec :: "appr_event \<times> bool list \<Rightarrow> approval list \<Rightarrow> approval list" where
  "appr_exec c d = fst (snd (appr_event_run (fst c) (d, snd c)))"

text \<open>The requests an event deletes, when it gets so far.\<close>

fun purges :: "appr_event \<Rightarrow> approval \<Rightarrow> bool" where
  "purges (Operate c) r = False"
| "purges (PurgedRuns ctx cleaned runIDs) r = (case ctx of None \<Rightarrow> False | Some s \<Rightarrow> of_runs (s_OrgID s) runIDs r)"
| "purges (PurgedOrganization ctx cleaned) r = (case ctx of None \<Rightarrow> False | Some s \<Rightarrow> of_organization (s_OrgID s) r)"

lemma purges_runs: "purges (PurgedRuns (Some s) cleaned runIDs) = of_runs (s_OrgID s) runIDs"
  by (simp add: fun_eq_iff)

lemma purges_organization: "purges (PurgedOrganization (Some s) cleaned) = of_organization (s_OrgID s)"
  by (simp add: fun_eq_iff)

text \<open>
  The requests change by a new row, by a pending row taking a decision, or by a deletion, as far as
  \<open>spared\<close> admits it.
\<close>

definition decides :: "(approval \<Rightarrow> bool) \<Rightarrow> (approval \<Rightarrow> approval) \<Rightarrow> bool" where
  "decides P f \<longleftrightarrow> (\<forall>r. P r \<longrightarrow> a_Decision r = StatePending \<and> a_ID (f r) = a_ID r \<and> a_OrgID (f r) = a_OrgID r
     \<and> same_change (f r) = same_change r)"

locale appr_frame = db_frame R for R :: "approval list \<Rightarrow> approval list \<Rightarrow> bool" +
  fixes spared :: "(approval \<Rightarrow> bool) \<Rightarrow> bool"
  assumes law_insert: "insert_approval r d = Inr (u, d') \<Longrightarrow> R d d'"
    and law_decide: "decides P f \<Longrightarrow> R d (update_rows P f d)"
    and law_deploy: "a_HeadSHA r = '''' \<Longrightarrow> R d (insert_deployment r d)"
    and law_delete: "spared P \<Longrightarrow> R d (delete_requests P d)"
begin

lemma law_raised: "insert_raised r d = Inr (u, d') \<Longrightarrow> R d d'"
  by (auto simp: insert_raised_def intro: law_insert frame_refl split: if_splits)

lemma law_supersede: "R d (supersede req d)"
  unfolding supersede_def by (rule law_decide) (auto simp: decides_def same_change_def fun_eq_iff)

lemma law_resolve:
  "R d (update_rows (resolvable s rid by) (\<lambda>r. r\<lparr>a_Decision := x, a_DecidedBy := by, a_DecidedAt := t, a_Comment := c\<rparr>) d)"
  by (rule law_decide) (auto simp: decides_def resolvable_def same_change_def fun_eq_iff)

lemma within_Get_request: "within R (Get_request ctx rid)"
  unfolding Get_request_def by (intro frame_rules frame_from_context)

lemma within_appr_run: "within R (appr_run c)"
proof (cases c)
  case (DoRequest ctx new_id now req)
  show ?thesis unfolding DoRequest appr_run.simps Request_def Let_def
    by (intro frame_rules frame_require_org) (rule law_insert)
next
  case (DoRaise ctx new_id now req)
  show ?thesis unfolding DoRaise appr_run.simps Raise_def
    by (intro frame_rules frame_require_org) (auto intro: law_raised law_supersede)
next
  case (DoResolve ctx now rid who verdict cm)
  show ?thesis unfolding DoResolve appr_run.simps Resolve_request_def Let_def
    by (intro frame_rules frame_from_context) (simp add: law_resolve)
next
  case (DoEnsure ctx now rid run act det)
  show ?thesis unfolding DoEnsure appr_run.simps EnsureDeployment_def
    by (intro frame_rules frame_from_context within_Get_request) (simp add: law_deploy deployment_row_def)
qed

lemma within_delete: "spared P \<Longrightarrow> within R (update Sql (\<lambda>d. ((), delete_requests P d)))"
  by (rule frame_update) (simp add: law_delete)

lemma within_event:
  assumes "spared (purges c)"
  shows "within R (appr_event_run c)"
proof (cases c)
  case (Operate c)
  then show ?thesis by (auto intro!: frame_bnd frame_ret within_appr_run)
next
  case (PurgedRuns ctx cleaned runIDs)
  have "within R (gates_PurgeRuns (Some s) cleaned runIDs)" if "ctx = Some s" for s
  proof -
    have "within R (update Sql (\<lambda>d. ((), delete_requests (of_runs (s_OrgID s) runIDs) d)))"
      using assms that PurgedRuns by (intro within_delete) (simp add: purges_runs)
    then show ?thesis
      by (auto simp: gates_PurgeRuns_def gates_purgeOrg_def intro!: frame_bnd frame_ret frame_fail frame_query)
  qed
  then show ?thesis
    by (cases ctx) (auto simp: PurgedRuns gates_PurgeRuns_def gates_purgeOrg_def intro: frame_fail)
next
  case (PurgedOrganization ctx cleaned)
  have "within R (gates_PurgeOrganization (Some s) cleaned)" if "ctx = Some s" for s
  proof -
    have "within R (update Sql (\<lambda>d. ((), delete_requests (of_organization (s_OrgID s)) d)))"
      using assms that PurgedOrganization by (intro within_delete) (simp add: purges_organization)
    then show ?thesis
      by (auto simp: gates_PurgeOrganization_def gates_purgeOrg_def intro!: frame_bnd frame_ret frame_fail frame_query)
  qed
  then show ?thesis
    by (cases ctx) (auto simp: PurgedOrganization gates_PurgeOrganization_def gates_purgeOrg_def intro: frame_fail)
qed

lemma exec_R: "spared (purges (fst c)) \<Longrightarrow> R d (appr_exec c d)"
  using withinD[OF within_event, of "fst c" "(d, snd c)"] by (simp add: appr_exec_def)

lemma history_R: "\<forall>c \<in> set cs. spared (purges (fst c)) \<Longrightarrow> R d (fold appr_exec cs d)"
  by (induction cs arbitrary: d) (auto intro: frame_refl frame_trans exec_R)

end

definition decided_row :: "approval \<Rightarrow> approval list \<Rightarrow> approval list \<Rightarrow> bool" where
  "decided_row r d d' \<longleftrightarrow> (a_Decision r \<noteq> StatePending \<and> r \<in> set d \<longrightarrow> r \<in> set d')"

interpretation decided_frame: appr_frame "decided_row r" "\<lambda>P. \<not> P r" for r
proof
  fix P f d assume "decides P f"
  then show "decided_row r d (update_rows P f d)"
    by (force simp: decided_row_def decides_def set_update_rows)
qed (auto simp: decided_row_def insert_approval_def insert_deployment_def delete_requests_def split: if_splits)

text \<open>No operation of the store itself touches a decided row.\<close>

definition decided_kept :: "approval list \<Rightarrow> approval list \<Rightarrow> bool" where
  "decided_kept d d' \<longleftrightarrow> (\<forall>r \<in> set d. a_Decision r \<noteq> StatePending \<longrightarrow> r \<in> set d')"

lemma decided_kept_run: "within decided_kept (appr_run c)"
proof (rule withinI)
  fix w :: "approval list world"
  have "decided_row r (fst w) (fst (snd (appr_run c w)))" for r using decided_frame.within_appr_run by (rule withinD)
  then show "decided_kept (fst w) (fst (snd (appr_run c w)))" by (auto simp: decided_kept_def decided_row_def)
qed

text \<open>Identifiers are unique, and so is the request for one action at one head of one run.\<close>

definition requests_ok :: "approval list \<Rightarrow> bool" where
  "requests_ok d \<longleftrightarrow> distinct (map a_ID d) \<and> (\<forall>r \<in> set d. \<forall>q \<in> set d. same_change r q \<longrightarrow> a_ID r = a_ID q)"

lemma same_change_sym: "same_change r q \<longleftrightarrow> same_change q r"
  by (auto simp: same_change_def)

interpretation requests_frame: appr_frame "keeps requests_ok" "\<lambda>_. True"
proof
  fix r d u d' assume "insert_approval r d = Inr (u, d')"
  then show "keeps requests_ok d d'"
    using same_change_sym by (fastforce simp: keeps_def requests_ok_def insert_approval_def split: if_splits)
next
  fix P f d assume p: "decides P f"
  then have "map a_ID (update_rows P f d) = map a_ID d"
    by (intro map_update_rows) (auto simp: decides_def)
  moreover have "\<exists>q' \<in> set d. a_ID q' = a_ID q \<and> (\<forall>r. same_change q r = same_change q' r)"
    if "q \<in> set (update_rows P f d)" for q
    using that p by (auto simp: set_update_rows decides_def)
  ultimately show "keeps requests_ok d (update_rows P f d)"
    unfolding keeps_def requests_ok_def by (metis same_change_sym)
next
  fix r :: approval and d assume "a_HeadSHA r = ''''"
  then show "keeps requests_ok d (insert_deployment r d)"
    by (auto simp: keeps_def requests_ok_def insert_deployment_def same_change_def)
next
  fix P :: "approval \<Rightarrow> bool" and d
  show "keeps requests_ok d (delete_requests P d)"
    by (auto simp: keeps_def requests_ok_def delete_requests_def distinct_map_filter)
qed

section \<open>Properties\<close>

text \<open>
  C36. The table shown to people is the policy that is enforced: for every listed action the
  decision is the listed one for a grant with the deployment powers, it varies with the grant
  exactly for the rules marked so, where a grant without the power is refused outright; no
  action is listed twice, and every action not listed is forbidden whatever the grant.
\<close>

theorem rules_agree_with_decide:
  "(\<forall>r \<in> set Rules. \<forall>g. g_DeployStaging g \<and> g_DeployProd g \<longrightarrow> Decide (r_Action r) g = r_Decision r)
   \<and> (\<forall>r \<in> set Rules. r_GrantDependent r = (\<exists>g. Decide (r_Action r) g \<noteq> r_Decision r))
   \<and> (\<forall>r \<in> set Rules. \<forall>g. Decide (r_Action r) g \<noteq> r_Decision r \<longrightarrow> Decide (r_Action r) g = DecisionForbidden)
   \<and> distinct (map r_Action Rules)
   \<and> (\<forall>a g. a \<notin> r_Action ` set Rules \<longrightarrow> Decide a g = DecisionForbidden)"
proof (intro conjI)
  show "\<forall>r \<in> set Rules. r_GrantDependent r = (\<exists>g. Decide (r_Action r) g \<noteq> r_Decision r)"
    by (auto simp: Rules_def Decide_def intro: exI[of _ "sample_grant"] simp: sample_grant_def)
qed (simp_all add: Rules_def Decide_def)

theorem rules_agree_with_decide_witness:
  "Decide ActionDeployProduction (sample_grant\<lparr>g_DeployStaging := True, g_DeployProd := True\<rparr>) = DecisionHuman
   \<and> Decide ''rewrite_history'' sample_grant = DecisionForbidden"
proof -
  note t = rules_agree_with_decide
  have "\<lparr>r_Action = ActionDeployProduction, r_Decision = DecisionHuman, r_GrantDependent = True\<rparr> \<in> set Rules"
    by (simp add: Rules_def)
  with conjunct1[OF t]
  have "Decide ActionDeployProduction (sample_grant\<lparr>g_DeployStaging := True, g_DeployProd := True\<rparr>) = DecisionHuman"
    by fastforce
  moreover have "''rewrite_history'' \<notin> r_Action ` set Rules" by (simp add: Rules_def)
  ultimately show ?thesis using t by blast
qed

text \<open>
  C35. A decision is made once: a request that is no longer pending stays, whatever operations of the store
  and whatever purges of other runs and organizations follow, the only row of its identifier, with the same decision,
  decider, time and comment. Only the purge of its own run or organization removes it; what is asked for
  after that is a new request (\<open>purged_request_is_asked_anew\<close>).
\<close>

theorem decision_is_final:
  assumes "requests_ok d" and "r \<in> set d" and "a_Decision r \<noteq> StatePending"
    and "\<forall>c \<in> set history. \<not> purges (fst c) r"
  shows "filter (\<lambda>q. a_ID q = a_ID r) (fold appr_exec history d) = [r]"
proof -
  have "distinct (map a_ID (fold appr_exec history d))"
    using requests_frame.history_R[of history d] assms(1) by (simp add: keeps_def requests_ok_def)
  moreover have "r \<in> set (fold appr_exec history d)"
    using decided_frame.history_R[of history r d] assms(2-4) by (simp add: decided_row_def)
  ultimately show ?thesis by (rule filter_key_unique)
qed

definition sample_request :: approval where
  "sample_request = \<lparr>a_ID = 1, a_OrgID = 7, a_RunID = 30, a_Action = ActionDeployStaging, a_Detail = [],
     a_Decision = StatePending, a_DecidedBy = 0, a_DecidedAt = 0, a_CreatedAt = 10,
     a_HeadSHA = ''aa'', a_Reason = ''r'', a_Paths = [], a_Comment = '''', a_AuthorID = 9, a_AuthorKind = ''user''\<rparr>"

definition sample_approved :: approval where
  "sample_approved = sample_request\<lparr>a_Decision := StateApproved, a_DecidedBy := 3, a_DecidedAt := 20, a_Comment := ''ok''\<rparr>"

theorem decision_is_final_witness:
  "filter (\<lambda>q. a_ID q = 1)
     (fold appr_exec [(Operate (DoResolve (Some sample_member) 25 1 3 StateDenied ''no''), []), (PurgedRuns (Some sample_member) True [31], [])] [sample_approved])
   = [sample_approved]"
  using decision_is_final[of "[sample_approved]" sample_approved
      "[(Operate (DoResolve (Some sample_member) 25 1 3 StateDenied ''no''), []), (PurgedRuns (Some sample_member) True [31], [])]"]
  by (simp add: requests_ok_def sample_approved_def sample_request_def of_runs_def)

definition sample_deployment :: approval where
  "sample_deployment = deployment_row sample_member 5 1 30 ActionDeployStaging ''x''"

lemma purged_request_is_asked_anew:
  "fold appr_exec [(PurgedRuns (Some sample_member) True [30], []), (Operate (DoEnsure (Some sample_member) 50 1 30 ActionDeployStaging ''x''), [])]
     [sample_deployment\<lparr>a_Decision := StateApproved\<rparr>]
   = [sample_deployment\<lparr>a_CreatedAt := 50\<rparr>]"
  by code_simp

text \<open>
  Recording a decision decides exactly one request, which was pending in the caller's own
  organization, as approved or denied; every other row is untouched; and a deployment is only
  ever decided by an owner or admin acting in person, as themselves, and never by the person
  who asked for it.
\<close>

theorem resolve_is_independent:
  assumes "requests_ok (fst w)"
    and "Resolve_request ctx now rid decidedBy decision comment w = (Inr got, w')"
  shows "\<exists>s old. ctx = Some s \<and> old \<in> set (fst w) \<and> a_ID old = rid \<and> a_OrgID old = s_OrgID s
    \<and> a_Decision old = StatePending \<and> decision \<in> {StateApproved, StateDenied}
    \<and> got = old\<lparr>a_Decision := decision, a_DecidedBy := decidedBy, a_DecidedAt := now, a_Comment := comment\<rparr>
    \<and> fst w' = map (\<lambda>r. if a_ID r = rid then got else r) (fst w)
    \<and> (a_Action old \<in> {ActionDeployStaging, ActionDeployProduction} \<longrightarrow>
         s_ActorKind s = ''user'' \<and> s_Role s \<in> {''owner'', ''admin''}
         \<and> decidedBy = s_ActorID s \<and> decidedBy \<noteq> uuid_Nil \<and> decidedBy \<noteq> a_AuthorID old)"
proof -
  let ?f = "\<lambda>r. r\<lparr>a_Decision := decision, a_DecidedBy := decidedBy, a_DecidedAt := now, a_Comment := comment\<rparr>"
  obtain s old where s: "ctx = Some s" and verdict: "decision \<in> {StateApproved, StateDenied}"
    and old: "List.find (resolvable s rid decidedBy) (fst w) = Some old" and got: "got = ?f old"
    and d': "fst w' = update_rows (resolvable s rid decidedBy) ?f (fst w)"
    using assms(2) by (auto simp: Resolve_request_def Let_def run_simps split: if_splits option.splits)
  have o: "old \<in> set (fst w)" "resolvable s rid decidedBy old" using find_Some_in[OF old] by auto
  then have "r = old" if "r \<in> set (fst w)" "a_ID r = rid" for r
    using that assms(1) by (auto simp: requests_ok_def distinct_map inj_on_def resolvable_def)
  then have "fst w' = map (\<lambda>r. if a_ID r = rid then got else r) (fst w)"
    using o by (auto simp: d' update_rows_def got resolvable_def)
  with s verdict o got show ?thesis
    by (auto simp: resolvable_def IsOrgAdmin_def intro!: exI[of _ s] exI[of _ old])
qed

theorem resolve_is_independent_witness:
  "fst (Resolve_request (Some sample_member) 20 1 3 StateApproved ''ok'' ([sample_request], [])) = Inr sample_approved
    \<and> s_Role sample_member \<in> {''owner'', ''admin''}
    \<and> fst (Resolve_request (Some sample_member) 20 1 3 StateApproved ''ok'' ([sample_request\<lparr>a_AuthorID := 3\<rparr>], []))
        = Inl (App ErrNotPending)"
proof -
  have ok: "requests_ok (fst ([sample_request], []))" by (simp add: requests_ok_def)
  have r: "Resolve_request (Some sample_member) 20 1 3 StateApproved ''ok'' ([sample_request], [])
      = (Inr sample_approved, ([sample_approved], []))"
    by (simp add: Resolve_request_def Let_def op_defs resolvable_def sample_request_def sample_approved_def
        sample_member_def IsOrgAdmin_def)
  have "fst (Resolve_request (Some sample_member) 20 1 3 StateApproved ''ok'' ([sample_request\<lparr>a_AuthorID := 3\<rparr>], []))
        = Inl (App ErrNotPending)"
    by (simp add: Resolve_request_def Let_def op_defs resolvable_def sample_request_def)
  with r show ?thesis
    using resolve_is_independent[OF ok r] by (auto simp: sample_request_def)
qed

lemma Raise_Inr:
  assumes "Raise ctx new_id now req w = (Inr got, w')"
  obtains s d1 where "ctx = Some s" and "s_OrgID s = a_OrgID req" and "\<not> s_RepoLimited s"
    and "a_HeadSHA req \<noteq> ''''" and "insert_raised (raised_row new_id now req) (fst w) = Inr ((), d1)"
    and "fst w' = supersede req d1" and "find_raised req (supersede req d1) = Some got"
  using assms by (auto simp: Raise_def run_simps split: if_splits option.splits)

lemma find_raised_Some:
  "find_raised req d = Some got \<Longrightarrow> got \<in> set d \<and> a_OrgID got = a_OrgID req \<and> a_RunID got = a_RunID req
     \<and> a_Action got = a_Action req \<and> a_HeadSHA got = a_HeadSHA req"
  by (auto simp: find_raised_def dest!: find_Some_in)

lemma supersede_settled:
  "r \<in> set (supersede req d) \<Longrightarrow> a_OrgID r = a_OrgID req \<Longrightarrow> a_RunID r = a_RunID req \<Longrightarrow>
     a_Action r = a_Action req \<Longrightarrow> a_HeadSHA r \<noteq> a_HeadSHA req \<Longrightarrow> a_Decision r \<noteq> StatePending"
  by (auto simp: supersede_def set_update_rows split: if_splits)

lemma supersede_again: "supersede req (supersede req d) = supersede req d"
  unfolding supersede_def by (induction d) auto

lemma Raise_settled:
  assumes "find_raised req d = Some got" and "supersede req d = d"
    and "s_OrgID s = a_OrgID req" and "\<not> s_RepoLimited s" and "a_HeadSHA req \<noteq> ''''"
  shows "Raise (Some s) new_id now req (d, []) = (Inr got, (d, []))"
proof -
  have "same_change (raised_row new_id now req) got \<and> got \<in> set d"
    using find_raised_Some[OF assms(1)] assms(5) by (auto simp: same_change_def raised_row_def)
  then have "insert_raised (raised_row new_id now req) d = Inr ((), d)"
    by (auto simp: insert_raised_def)
  with assms show ?thesis
    by (simp add: Raise_def op_defs require_org_member)
qed

text \<open>
  Asking twice, or after a lost reply, converges: after a request has been raised it is in
  the table for its organization, run, action and head; no request for another head of the same
  run and action is pending any more; and raising it again, with any fresh identifier and at
  any time, returns the same row and leaves the table as it is.
\<close>

theorem raise_converges:
  assumes "Raise ctx new_id now req w = (Inr got, w')"
  shows "got \<in> set (fst w') \<and> a_OrgID got = a_OrgID req \<and> a_RunID got = a_RunID req
    \<and> a_Action got = a_Action req \<and> a_HeadSHA got = a_HeadSHA req
    \<and> (\<forall>r \<in> set (fst w'). a_OrgID r = a_OrgID req \<and> a_RunID r = a_RunID req
          \<and> a_Action r = a_Action req \<and> a_HeadSHA r \<noteq> a_HeadSHA req \<longrightarrow> a_Decision r \<noteq> StatePending)
    \<and> Raise ctx new_id' now' req (fst w', []) = (Inr got, (fst w', []))"
proof -
  obtain s d1 where s: "ctx = Some s" "s_OrgID s = a_OrgID req" "\<not> s_RepoLimited s" "a_HeadSHA req \<noteq> ''''"
    and d': "fst w' = supersede req d1" and got: "find_raised req (supersede req d1) = Some got"
    using assms by (rule Raise_Inr) (rule that)
  have "Raise ctx new_id' now' req (fst w', []) = (Inr got, (fst w', []))"
    unfolding s(1) using Raise_settled[OF got supersede_again s(2-4)] by (simp add: d')
  with find_raised_Some[OF got] supersede_settled show ?thesis by (auto simp: d')
qed

lemma sample_raise:
  "Raise (Some sample_member) 2 15 (sample_request\<lparr>a_HeadSHA := ''bb''\<rparr>) ([sample_request], [])
    = (Inr (raised_row 2 15 (sample_request\<lparr>a_HeadSHA := ''bb''\<rparr>)),
       ([sample_request\<lparr>a_Decision := StateSuperseded\<rparr>, raised_row 2 15 (sample_request\<lparr>a_HeadSHA := ''bb''\<rparr>)], []))"
  by (simp add: Raise_def op_defs require_org_member insert_raised_def insert_approval_def same_change_def
      raised_row_def supersede_def find_raised_def sample_request_def sample_member_def)

theorem raise_converges_witness:
  "fst (Raise (Some sample_member) 99 50 (sample_request\<lparr>a_HeadSHA := ''bb''\<rparr>)
     (fst (snd (Raise (Some sample_member) 2 15 (sample_request\<lparr>a_HeadSHA := ''bb''\<rparr>) ([sample_request], []))), []))
   = Inr (raised_row 2 15 (sample_request\<lparr>a_HeadSHA := ''bb''\<rparr>))"
  using raise_converges[OF sample_raise, of 99 50] by (simp add: sample_raise)

text \<open>
  A change that goes back to an earlier head cannot be approved any more: once a request
  for one head has been superseded by raising another, raising the first head again returns
  the superseded row, however often and whenever it is asked, and deciding it is refused.
\<close>

theorem revisited_head_stays_superseded:
  assumes "requests_ok (fst w)" and "old \<in> set (fst w)" and "a_Decision old = StatePending"
    and "s_OrgID s = a_OrgID old" and "a_HeadSHA old \<noteq> ''''"
    and "Raise (Some s) new_id now (req\<lparr>a_OrgID := a_OrgID old, a_RunID := a_RunID old, a_Action := a_Action old\<rparr>) w
           = (Inr got, w')"
    and "a_HeadSHA req \<noteq> a_HeadSHA old"
    and "Raise (Some s) new_id' now' old (fst w', []) = (Inr again, w'')"
  shows "again = old\<lparr>a_Decision := StateSuperseded\<rparr>
    \<and> fst (Resolve_request ctx later (a_ID old) decidedBy StateApproved comment (fst w'', [])) \<noteq> Inr any"
proof -
  let ?req = "req\<lparr>a_OrgID := a_OrgID old, a_RunID := a_RunID old, a_Action := a_Action old\<rparr>"
  let ?old = "old\<lparr>a_Decision := StateSuperseded\<rparr>"
  obtain d1 where ins: "insert_raised (raised_row new_id now ?req) (fst w) = Inr ((), d1)"
    and d': "fst w' = supersede ?req d1"
    using assms(6) by (rule Raise_Inr) (rule that)
  have "old \<in> set d1"
    using ins assms(2) by (auto simp: insert_raised_def insert_approval_def split: if_splits)
  then have in': "?old \<in> set (fst w')"
    using assms(3,7) by (force simp: d' supersede_def set_update_rows)
  have ok': "requests_ok (fst w')" and ok'': "requests_ok (fst w'')"
    using within_run[OF requests_frame.within_appr_run[of "DoRaise (Some s) new_id now ?req"], of w]
      within_run[OF requests_frame.within_appr_run[of "DoRaise (Some s) new_id' now' old"], of "(fst w', [])"]
      assms(1,6,8) by (simp_all add: keeps_def)
  have in'': "?old \<in> set (fst w'')"
    using within_run[OF decided_kept_run[of "DoRaise (Some s) new_id' now' old"], of "(fst w', [])"]
      assms(8) in' by (simp add: decided_kept_def)
  obtain d2 where "find_raised old (supersede old d2) = Some again" "fst w'' = supersede old d2"
    using assms(8) by (rule Raise_Inr) (rule that)
  then have again: "again \<in> set (fst w'')" "same_change again ?old"
    using find_raised_Some[of old] assms(5) by (auto simp: same_change_def)
  have "again = ?old"
    using again in'' ok'' by (auto simp: requests_ok_def distinct_map inj_on_def)
  moreover have "\<not> resolvable t (a_ID old) decidedBy r" if "r \<in> set (fst w'')" for r t
  proof
    assume "resolvable t (a_ID old) decidedBy r"
    then have "a_ID r = a_ID ?old" "a_Decision r = StatePending" by (auto simp: resolvable_def)
    with that in'' ok'' have "r = ?old" by (auto simp: requests_ok_def distinct_map inj_on_def)
    with \<open>a_Decision r = StatePending\<close> show False by simp
  qed
  then have "List.find (resolvable t (a_ID old) decidedBy) (fst w'') = None" for t
    by (simp add: find_None_iff')
  then have "fst (Resolve_request ctx later (a_ID old) decidedBy StateApproved comment (fst w'', [])) \<noteq> Inr any"
    by (cases ctx) (auto simp: Resolve_request_def Let_def op_defs)
  ultimately show ?thesis by blast
qed

theorem revisited_head_stays_superseded_witness:
  "fst (Raise (Some sample_member) 3 40 sample_request
     ([sample_request\<lparr>a_Decision := StateSuperseded\<rparr>, raised_row 2 15 (sample_request\<lparr>a_HeadSHA := ''bb''\<rparr>)], []))
   = Inr (sample_request\<lparr>a_Decision := StateSuperseded\<rparr>)"
proof -
  let ?r2 = "raised_row 2 15 (sample_request\<lparr>a_HeadSHA := ''bb''\<rparr>)"
  let ?d = "[sample_request\<lparr>a_Decision := StateSuperseded\<rparr>, ?r2]"
  have again: "Raise (Some sample_member) 3 40 sample_request (?d, [])
      = (Inr (sample_request\<lparr>a_Decision := StateSuperseded\<rparr>),
         ([sample_request\<lparr>a_Decision := StateSuperseded\<rparr>, ?r2\<lparr>a_Decision := StateSuperseded\<rparr>], []))"
    by (simp add: Raise_def op_defs require_org_member insert_raised_def insert_approval_def same_change_def
        raised_row_def supersede_def find_raised_def sample_request_def sample_member_def)
  have r: "sample_request\<lparr>a_HeadSHA := ''bb''\<rparr>\<lparr>a_OrgID := a_OrgID sample_request, a_RunID := a_RunID sample_request,
      a_Action := a_Action sample_request\<rparr> = sample_request\<lparr>a_HeadSHA := ''bb''\<rparr>"
    by (simp add: sample_request_def)
  show ?thesis
    using revisited_head_stays_superseded[of "([sample_request], [])" sample_request sample_member 2 15
        "sample_request\<lparr>a_HeadSHA := ''bb''\<rparr>", unfolded r, OF _ _ _ _ _ sample_raise, unfolded fst_conv, OF _ _ _ _ _ _ again]
      again
    by (simp add: requests_ok_def)
qed

end
