(* ===== verification/NF_Inbox.thy ===== *)
theory NF_Inbox
  imports NF_Authz
begin

text \<open>
  The inbox (\<open>internal/work/inbox.go\<close>): notifications, one row per recipient, published by a
  member or a platform worker and moved between inbox, saved and done by their recipient only.
  The clock and the identifiers the database draws are arguments; a NULL instant is
  \<^const>\<open>None\<close>.
\<close>

section \<open>State\<close>

record notification =
  b_ID :: uuid
  b_OrgID :: uuid
  b_RecipientID :: uuid
  b_RepoID :: uuid
  b_Reason :: string
  b_Ref :: string
  b_Title :: string
  b_Body :: string
  b_ActorID :: uuid
  b_ActorKind :: string
  b_ActorName :: string
  b_DedupeKey :: string
  b_State :: string
  b_SnoozedUntil :: "time option"
  b_CreatedAt :: time

record inbox_filter =
  f_State :: string
  f_Reason :: string
  f_RepoID :: uuid
  f_Limit :: int

definition validReasons :: "string list" where
  "validReasons = [''review_requested'', ''approval'', ''gate_failure'', ''maintenance'', ''mention'', ''agent_question'']"

abbreviation InboxStateInbox :: string where "InboxStateInbox \<equiv> ''inbox''"
abbreviation InboxStateSaved :: string where "InboxStateSaved \<equiv> ''saved''"
abbreviation InboxStateDone :: string where "InboxStateDone \<equiv> ''done''"

datatype inboxerr =
    ErrInboxNotFound
  | InvalidReason string
  | NeedsRefAndTitle
  | NotOneUsersMail

type_synonym 'a inbox_op = "(notification list, inboxerr fault, 'a) op"

section \<open>Operations\<close>

definition authorizePublish :: "ctx \<Rightarrow> uuid \<Rightarrow> unit inbox_op" where
  "authorizePublish ctx orgID =
     bnd (from_context ctx) (\<lambda>scope. if IsPlatformWorker scope then ret () else require_org ctx orgID)"

text \<open>The constraints of the table, and its index over the non-empty dedupe keys.\<close>

definition inbox_checks :: "notification \<Rightarrow> bool" where
  "inbox_checks n \<longleftrightarrow> b_Reason n \<in> set validReasons \<and> b_Ref n \<noteq> '''' \<and> b_Title n \<noteq> ''''
     \<and> b_State n \<in> {InboxStateInbox, InboxStateSaved, InboxStateDone}"

definition same_event :: "notification \<Rightarrow> notification \<Rightarrow> bool" where
  "same_event n q \<longleftrightarrow> b_OrgID q = b_OrgID n \<and> b_RecipientID q = b_RecipientID n \<and> b_DedupeKey q = b_DedupeKey n
     \<and> b_DedupeKey n \<noteq> ''''"

text \<open>\<open>INSERT ... ON CONFLICT DO NOTHING RETURNING\<close>: no row is returned for a conflict.\<close>

definition insert_notification :: "notification \<Rightarrow> notification list \<Rightarrow> sqlerr + (notification option \<times> notification list)" where
  "insert_notification n d =
     (if \<not> inbox_checks n then Inl CheckViolation
      else if b_ID n \<in> b_ID ` set d \<or> (\<exists>q \<in> set d. same_event n q) then Inr (None, d)
      else Inr (Some n, d @ [n]))"

definition inbox_row :: "uuid \<Rightarrow> time \<Rightarrow> uuid \<Rightarrow> notification \<Rightarrow> uuid \<Rightarrow> notification" where
  "inbox_row new_id now orgID n r =
     n\<lparr>b_ID := new_id, b_OrgID := orgID, b_RecipientID := r, b_SnoozedUntil := None, b_CreatedAt := now\<rparr>"

text \<open>The loop over the recipients; \<open>gen i\<close> is the identifier drawn in round \<open>i\<close>.\<close>

fun publish_loop :: "(nat \<Rightarrow> uuid) \<Rightarrow> time \<Rightarrow> uuid \<Rightarrow> notification \<Rightarrow> nat \<Rightarrow> uuid list \<Rightarrow> notification list \<Rightarrow> notification list inbox_op" where
  "publish_loop gen now orgID n i [] created = ret created"
| "publish_loop gen now orgID n i (r # rs) created =
     (if r = uuid_Nil then publish_loop gen now orgID n (Suc i) rs created
      else
        bnd (stmt Sql (insert_notification (inbox_row (gen i) now orgID n r))) (\<lambda>row.
        case row of
          None \<Rightarrow> publish_loop gen now orgID n (Suc i) rs created
        | Some got \<Rightarrow> publish_loop gen now orgID n (Suc i) rs (created @ [got])))"

definition PublishInbox :: "ctx \<Rightarrow> (nat \<Rightarrow> uuid) \<Rightarrow> time \<Rightarrow> uuid \<Rightarrow> notification \<Rightarrow> uuid list \<Rightarrow> notification list inbox_op" where
  "PublishInbox ctx gen now orgID n0 recipients =
     bnd (authorizePublish ctx orgID) (\<lambda>_.
     if b_Reason n0 \<notin> set validReasons then fail (App (InvalidReason (b_Reason n0)))
     else if b_Ref n0 = '''' \<or> b_Title n0 = '''' then fail (App NeedsRefAndTitle)
     else
       let n = (if b_State n0 = '''' then n0\<lparr>b_State := InboxStateInbox\<rparr> else n0) in
       publish_loop gen now orgID n 0 recipients [])"

definition ones_mail :: "scope \<Rightarrow> bool" where
  "ones_mail scope \<longleftrightarrow> \<not> (s_OrgID scope = uuid_Nil \<or> s_ActorID scope = uuid_Nil \<or> s_ActorKind scope = ''service'')"

definition visible :: "scope \<Rightarrow> time \<Rightarrow> inbox_filter \<Rightarrow> notification \<Rightarrow> bool" where
  "visible scope now f q \<longleftrightarrow>
     b_OrgID q = s_OrgID scope \<and> b_RecipientID q = s_ActorID scope
     \<and> b_State q = (if f_State f = '''' then InboxStateInbox else f_State f)
     \<and> (f_Reason f = '''' \<or> b_Reason q = f_Reason f)
     \<and> (f_RepoID f = uuid_Nil \<or> b_RepoID q = f_RepoID f)
     \<and> (b_State q \<noteq> InboxStateInbox \<or> (case b_SnoozedUntil q of None \<Rightarrow> True | Some t \<Rightarrow> t \<le> now))"

text \<open>The database refuses a negative limit.\<close>

definition ListInbox :: "ctx \<Rightarrow> time \<Rightarrow> inbox_filter \<Rightarrow> notification list inbox_op" where
  "ListInbox ctx now f =
     bnd (from_context ctx) (\<lambda>scope.
     if \<not> ones_mail scope then fail (App NotOneUsersMail)
     else
       let limit = (if f_Limit f = 0 then 200 else f_Limit f) in
       stmt Sql (\<lambda>d. if limit < 0 then Inl CheckViolation
         else Inr (take (nat limit) (sort_key (\<lambda>q. - b_CreatedAt q) (filter (visible scope now f) d)), d)))"

definition InboxUnread :: "ctx \<Rightarrow> time \<Rightarrow> nat inbox_op" where
  "InboxUnread ctx now =
     bnd (from_context ctx) (\<lambda>scope.
     if s_ActorID scope = uuid_Nil \<or> s_ActorKind scope = ''service'' then fail (App NotOneUsersMail)
     else query Sql (affected (\<lambda>q. b_RecipientID q = s_ActorID scope \<and> b_State q = InboxStateInbox
       \<and> (case b_SnoozedUntil q of None \<Rightarrow> True | Some t \<Rightarrow> t \<le> now))))"

definition own_row :: "scope \<Rightarrow> uuid \<Rightarrow> notification \<Rightarrow> bool" where
  "own_row scope nid q \<longleftrightarrow> b_ID q = nid \<and> b_OrgID q = s_OrgID scope \<and> b_RecipientID q = s_ActorID scope"

definition inboxTransition :: "ctx \<Rightarrow> uuid \<Rightarrow> (notification \<Rightarrow> notification) \<Rightarrow> unit inbox_op" where
  "inboxTransition ctx nid f =
     bnd (from_context ctx) (\<lambda>scope.
     if \<not> ones_mail scope then fail (App NotOneUsersMail)
     else
       bnd (update Sql (\<lambda>d. (affected (own_row scope nid) d, update_rows (own_row scope nid) f d))) (\<lambda>n.
       if n = 0 then fail (App ErrInboxNotFound) else ret ()))"

definition InboxDone :: "ctx \<Rightarrow> uuid \<Rightarrow> unit inbox_op" where
  "InboxDone ctx nid = inboxTransition ctx nid (\<lambda>q. q\<lparr>b_State := InboxStateDone, b_SnoozedUntil := None\<rparr>)"

definition InboxSnooze :: "ctx \<Rightarrow> uuid \<Rightarrow> time \<Rightarrow> unit inbox_op" where
  "InboxSnooze ctx nid until = inboxTransition ctx nid (\<lambda>q. q\<lparr>b_SnoozedUntil := Some until\<rparr>)"

definition InboxSave :: "ctx \<Rightarrow> uuid \<Rightarrow> bool \<Rightarrow> unit inbox_op" where
  "InboxSave ctx nid saved =
     (if saved then inboxTransition ctx nid (\<lambda>q. q\<lparr>b_State := InboxStateSaved, b_SnoozedUntil := None\<rparr>)
      else inboxTransition ctx nid (\<lambda>q. q\<lparr>b_State := InboxStateInbox, b_SnoozedUntil := None\<rparr>))"

section \<open>What an operation may touch\<close>

datatype inbox_cmd =
    DoPublish ctx "nat \<Rightarrow> uuid" time uuid notification "uuid list"
  | DoDone ctx uuid
  | DoSnooze ctx uuid time
  | DoSave ctx uuid bool

fun inbox_run :: "inbox_cmd \<Rightarrow> unit inbox_op" where
  "inbox_run (DoPublish ctx gen now org n rs) = bnd (PublishInbox ctx gen now org n rs) (\<lambda>_. ret ())"
| "inbox_run (DoDone ctx nid) = InboxDone ctx nid"
| "inbox_run (DoSnooze ctx nid t) = InboxSnooze ctx nid t"
| "inbox_run (DoSave ctx nid b) = InboxSave ctx nid b"

fun inbox_ctx :: "inbox_cmd \<Rightarrow> ctx" where
  "inbox_ctx (DoPublish ctx gen now org n rs) = ctx"
| "inbox_ctx (DoDone ctx nid) = ctx"
| "inbox_ctx (DoSnooze ctx nid t) = ctx"
| "inbox_ctx (DoSave ctx nid b) = ctx"

text \<open>A person's existing mail is left as it is; rows may be added.\<close>

definition mail_kept :: "uuid \<Rightarrow> uuid \<Rightarrow> notification list \<Rightarrow> notification list \<Rightarrow> bool" where
  "mail_kept org who d d' \<longleftrightarrow>
     prefix (filter (\<lambda>q. b_OrgID q = org \<and> b_RecipientID q = who) d) (filter (\<lambda>q. b_OrgID q = org \<and> b_RecipientID q = who) d')"

interpretation mail_frame: db_frame "mail_kept org who" for org who
  by unfold_locales (auto simp: mail_kept_def)

lemma mail_kept_insert: "insert_notification n d = Inr (x, d') \<Longrightarrow> mail_kept org who d d'"
  by (auto simp: insert_notification_def mail_kept_def split: if_splits)

lemma within_publish_loop: "within (mail_kept org who) (publish_loop gen now orgID n i rs created)"
proof (induction rs arbitrary: i created)
  case (Cons r rs)
  then show ?case by (auto intro!: mail_frame.frame_rules elim!: mail_kept_insert)
qed (simp add: mail_frame.frame_ret)

lemma within_PublishInbox: "within (mail_kept org who) (PublishInbox ctx gen now orgID n rs)"
  unfolding PublishInbox_def authorizePublish_def Let_def
  by (intro mail_frame.frame_rules mail_frame.frame_from_context mail_frame.frame_require_org within_publish_loop)

lemma mail_kept_transition:
  assumes "\<And>s. ctx = Some s \<Longrightarrow> (s_OrgID s, s_ActorID s) \<noteq> (org, who)"
    and "\<And>q. b_OrgID (f q) = b_OrgID q \<and> b_RecipientID (f q) = b_RecipientID q"
  shows "within (mail_kept org who) (inboxTransition ctx nid f)"
proof (cases ctx)
  case None
  then show ?thesis by (simp add: inboxTransition_def mail_frame.frame_fail)
next
  case (Some s)
  have "filter (\<lambda>q. b_OrgID q = org \<and> b_RecipientID q = who) (update_rows (own_row s nid) f d)
      = filter (\<lambda>q. b_OrgID q = org \<and> b_RecipientID q = who) d" for d
    using assms(1)[OF Some] assms(2) by (intro filter_update_rows_other) (auto simp: own_row_def)
  then show ?thesis
    by (auto simp: inboxTransition_def Some mail_kept_def intro!: mail_frame.frame_rules)
qed

text \<open>
  An inbox is its recipient's own: whatever commands other people, services and workers
  run, in whatever order and with whatever failures, the notifications one person has in one
  organization stay exactly as they are, and new ones may only come after them.
\<close>

theorem inbox_is_the_recipients_own:
  assumes "\<forall>c \<in> set history. \<forall>s. inbox_ctx (fst c) = Some s \<longrightarrow> (s_OrgID s, s_ActorID s) \<noteq> (org, who)"
  shows "prefix (filter (\<lambda>q. b_OrgID q = org \<and> b_RecipientID q = who) d)
    (filter (\<lambda>q. b_OrgID q = org \<and> b_RecipientID q = who) (fold (\<lambda>c d. fst (snd (inbox_run (fst c) (d, snd c)))) history d))"
  using assms
proof (induction history arbitrary: d)
  case (Cons c history)
  let ?m = "filter (\<lambda>q. b_OrgID q = org \<and> b_RecipientID q = who)"
  have "within (mail_kept org who) (inbox_run (fst c))"
    using Cons.prems by (cases "fst c")
      (auto simp: InboxDone_def InboxSnooze_def InboxSave_def
        intro!: within_PublishInbox mail_frame.frame_bnd mail_frame.frame_ret mail_kept_transition)
  from withinD[OF this, of "(d, snd c)"] have "prefix (?m d) (?m (fst (snd (inbox_run (fst c) (d, snd c)))))"
    by (simp add: mail_kept_def)
  also have "prefix \<dots> (?m (fold (\<lambda>c d. fst (snd (inbox_run (fst c) (d, snd c)))) (c # history) d))"
    using Cons.IH[of "fst (snd (inbox_run (fst c) (d, snd c)))"] Cons.prems by simp
  finally show ?case .
qed simp

definition sample_person :: "uuid \<Rightarrow> scope" where
  "sample_person u = \<lparr>s_OrgID = 7, s_ActorID = u, s_ActorKind = ''user'', s_ServiceName = '''', s_Role = ''member'',
     s_PlatformWorker = '''', s_RepoLimited = False, s_Repos = Map.empty\<rparr>"

definition sample_event :: notification where
  "sample_event = \<lparr>b_ID = 0, b_OrgID = 7, b_RecipientID = 0, b_RepoID = 40, b_Reason = ''gate_failure'', b_Ref = ''run 1'',
     b_Title = ''t'', b_Body = '''', b_ActorID = 0, b_ActorKind = '''', b_ActorName = '''', b_DedupeKey = ''k'', b_State = '''',
     b_SnoozedUntil = None, b_CreatedAt = 0\<rparr>"

definition sample_mail :: "notification list" where
  "sample_mail = [inbox_row 100 9 7 (sample_event\<lparr>b_State := ''inbox''\<rparr>) 3, inbox_row 101 9 7 (sample_event\<lparr>b_State := ''inbox''\<rparr>) 4]"

theorem inbox_is_the_recipients_own_witness:
  "prefix [hd sample_mail] (filter (\<lambda>q. b_OrgID q = 7 \<and> b_RecipientID q = 3)
     (fst (snd (inbox_run (DoDone (Some (sample_person 4)) 100) (sample_mail, [])))))"
  using inbox_is_the_recipients_own[of "[(DoDone (Some (sample_person 4)) 100, [])]" 7 3 sample_mail]
  by (simp add: sample_person_def sample_mail_def inbox_row_def sample_event_def)

section \<open>Publishing twice\<close>

text \<open>The recipient has the event already.\<close>

definition notified :: "uuid \<Rightarrow> notification \<Rightarrow> uuid \<Rightarrow> notification list \<Rightarrow> bool" where
  "notified org n r d \<longleftrightarrow> (\<exists>q \<in> set d. b_OrgID q = org \<and> b_RecipientID q = r \<and> b_DedupeKey q = b_DedupeKey n)"

lemma inbox_row_checks [simp]: "inbox_checks (inbox_row i now org n r) = inbox_checks n"
  by (simp add: inbox_checks_def inbox_row_def)

lemma inbox_row_event: "b_DedupeKey n \<noteq> '''' \<Longrightarrow> (\<exists>q \<in> set d. same_event (inbox_row i now org n r) q) = notified org n r d"
  by (auto simp: same_event_def inbox_row_def notified_def)

lemma notified_kept: "notified org n r d \<Longrightarrow> mail_kept org r d d' \<Longrightarrow> notified org n r d'"
  unfolding notified_def mail_kept_def by (drule set_mono_prefix) auto

lemma notified_update:
  assumes "notified org n r d" and "\<And>q. b_OrgID (f q) = b_OrgID q \<and> b_RecipientID (f q) = b_RecipientID q \<and> b_DedupeKey (f q) = b_DedupeKey q"
  shows "notified org n r (update_rows P f d)"
proof -
  obtain q where q: "q \<in> set d" "b_OrgID q = org" "b_RecipientID q = r" "b_DedupeKey q = b_DedupeKey n"
    using assms(1) by (auto simp: notified_def)
  have "(if P q then f q else q) \<in> set (update_rows P f d)" using q(1) by (auto simp: set_update_rows)
  with q assms(2)[of q] show ?thesis unfolding notified_def by (intro bexI[of _ "if P q then f q else q"]) auto
qed

lemma insert_notification_notifies:
  assumes "insert_notification (inbox_row i now org n r) d = Inr (x, d')" and "b_DedupeKey n \<noteq> ''''" and "i \<notin> b_ID ` set d"
  shows "inbox_checks n \<and> notified org n r d' \<and> b_ID ` set d' \<subseteq> insert i (b_ID ` set d)"
proof (cases "notified org n r d")
  case True
  with assms show ?thesis by (auto simp: insert_notification_def inbox_row_event split: if_splits)
next
  case False
  have i: "b_ID (inbox_row i now org n r) = i" by (simp add: inbox_row_def)
  have "inbox_checks n \<and> d' = d @ [inbox_row i now org n r]"
    using assms(1,3) False i unfolding insert_notification_def inbox_row_event[OF assms(2)] by (auto split: if_splits)
  then show ?thesis by (auto simp: notified_def i) (auto simp: inbox_row_def)
qed

lemma publish_loop_notifies:
  assumes "publish_loop gen now org n i rs created w = (Inr got, w')" and "b_DedupeKey n \<noteq> ''''"
    and "\<And>j. i \<le> j \<Longrightarrow> gen j \<notin> b_ID ` set (fst w)" and "inj gen"
  shows "\<forall>r \<in> set rs. r \<noteq> uuid_Nil \<longrightarrow> inbox_checks n \<and> notified org n r (fst w')"
  using assms
proof (induction rs arbitrary: i created w)
  case (Cons r rs)
  show ?case
  proof (cases "r = uuid_Nil")
    case True
    with Cons.prems(1) have run: "publish_loop gen now org n (Suc i) rs created w = (Inr got, w')" by simp
    have "gen j \<notin> b_ID ` set (fst w)" if "Suc i \<le> j" for j using Cons.prems(3)[of j] that by simp
    from Cons.IH[OF run Cons.prems(2) this Cons.prems(4)] True show ?thesis by simp
  next
    case False
    let ?row = "inbox_row (gen i) now org n r"
    obtain x w1 where st: "\<not> faulty w" "insert_notification ?row (fst w) = Inr (x, fst w1)" "snd w1 = tl (snd w)"
      and rest: "\<exists>cr. publish_loop gen now org n (Suc i) rs cr w1 = (Inr got, w')"
      using Cons.prems(1) False by (auto simp: run_simps split: option.splits) blast+
    note ins = insert_notification_notifies[OF st(2) Cons.prems(2) Cons.prems(3)[OF order.refl]]
    have now': "notified org n r (fst w1)" using ins by blast
    have ids: "gen j \<notin> b_ID ` set (fst w1)" if "Suc i \<le> j" for j
      using ins Cons.prems(3)[of j] that injD[OF Cons.prems(4), of i j] by auto
    obtain cr where run: "publish_loop gen now org n (Suc i) rs cr w1 = (Inr got, w')" using rest by blast
    have "notified org n r (fst w')"
      using notified_kept[OF now' within_run[OF within_publish_loop run]] .
    with Cons.IH[OF run Cons.prems(2) ids Cons.prems(4)] ins show ?thesis by simp
  qed
qed simp

lemma publish_loop_nothing_left:
  assumes "\<forall>r \<in> set rs. r \<noteq> uuid_Nil \<longrightarrow> inbox_checks n \<and> notified org n r d" and "b_DedupeKey n \<noteq> ''''"
  shows "publish_loop gen now org n i rs created (d, []) = (Inr created, (d, []))"
  using assms
  by (induction rs arbitrary: i) (auto simp: op_defs insert_notification_def inbox_row_event)

text \<open>
  Publishing converges: once an event with a dedupe key has been published to a list of
  recipients, every recipient has it, and publishing it again, at any time and with any fresh
  identifiers, succeeds, creates nothing and changes nothing; in between a recipient may read,
  snooze, save or finish it without being notified a second time.
\<close>

theorem publish_converges:
  assumes "PublishInbox ctx gen now org n rs w = (Inr got, w')" and "b_DedupeKey n \<noteq> ''''"
    and "\<And>j. gen j \<notin> b_ID ` set (fst w)" and "inj gen"
  shows "(\<forall>r \<in> set rs. r \<noteq> uuid_Nil \<longrightarrow> notified org n r (fst w'))
    \<and> PublishInbox ctx gen' now' org n rs (fst w', []) = (Inr [], (fst w', []))
    \<and> (\<forall>ctx' nid t saved. \<forall>c \<in> {DoDone ctx' nid, DoSnooze ctx' nid t, DoSave ctx' nid saved}.
          PublishInbox ctx gen' now' org n rs (fst (snd (inbox_run c (fst w', []))), [])
            = (Inr [], (fst (snd (inbox_run c (fst w', []))), [])))"
proof -
  let ?n = "if b_State n = '''' then n\<lparr>b_State := InboxStateInbox\<rparr> else n"
  have k: "b_DedupeKey ?n = b_DedupeKey n" "b_Reason ?n = b_Reason n" by auto
  obtain w1 where auth: "authorizePublish ctx org w = (Inr (), w1)" "fst w1 = fst w"
    and ok: "b_Reason n \<in> set validReasons" "b_Ref n \<noteq> ''''" "b_Title n \<noteq> ''''"
    and loop: "publish_loop gen now org ?n 0 rs [] w1 = (Inr got, w')"
    using assms(1) by (auto simp: PublishInbox_def authorizePublish_def Let_def run_simps split: if_split_asm)
  have all: "\<forall>r \<in> set rs. r \<noteq> uuid_Nil \<longrightarrow> inbox_checks ?n \<and> notified org ?n r (fst w')"
    by (rule publish_loop_notifies[OF loop]) (use assms(2-4) auth(2) k in simp_all)
  have again: "PublishInbox ctx gen' now' org n rs (d, []) = (Inr [], (d, []))"
    if "\<forall>r \<in> set rs. r \<noteq> uuid_Nil \<longrightarrow> inbox_checks ?n \<and> notified org ?n r d" for d
  proof -
    have "authorizePublish ctx org (d, []) = (Inr (), (d, []))"
      using auth(1) by (auto simp: authorizePublish_def run_simps split: if_split_asm)
    then show ?thesis
      using ok publish_loop_nothing_left[OF that] assms(2) k by (simp add: PublishInbox_def bnd_def Let_def)
  qed
  have moved: "notified org ?n r (fst (snd (inboxTransition ctx' nid f (d, []))))"
    if "notified org ?n r d" and "\<And>q. b_OrgID (f q) = b_OrgID q \<and> b_RecipientID (f q) = b_RecipientID q \<and> b_DedupeKey (f q) = b_DedupeKey q"
    for ctx' nid f r d
    using that by (cases ctx') (auto simp: inboxTransition_def op_defs intro!: notified_update)
  have "PublishInbox ctx gen' now' org n rs (fst (snd (inboxTransition ctx' nid f (fst w', []))), [])
      = (Inr [], (fst (snd (inboxTransition ctx' nid f (fst w', []))), []))"
    if "\<And>q. b_OrgID (f q) = b_OrgID q \<and> b_RecipientID (f q) = b_RecipientID q \<and> b_DedupeKey (f q) = b_DedupeKey q" for ctx' nid f
    using all moved that by (intro again) blast
  then have "PublishInbox ctx gen' now' org n rs (fst (snd (inbox_run c (fst w', []))), [])
            = (Inr [], (fst (snd (inbox_run c (fst w', []))), []))"
    if "c \<in> {DoDone ctx' nid, DoSnooze ctx' nid t, DoSave ctx' nid saved}" for ctx' nid t saved c
    using that by (cases saved) (auto simp: InboxDone_def InboxSnooze_def InboxSave_def)
  moreover have "\<forall>r \<in> set rs. r \<noteq> uuid_Nil \<longrightarrow> notified org n r (fst w')" using all k(1) by (simp only: notified_def) blast
  ultimately show ?thesis using again[OF all] by blast
qed

lemma sample_publish:
  "PublishInbox (Some (sample_person 9)) (\<lambda>i. 100 + i) 9 7 sample_event [3, 4] ([], []) = (Inr sample_mail, (sample_mail, []))"
  by (simp add: PublishInbox_def authorizePublish_def op_defs require_org_member IsPlatformWorker_def sample_person_def
      sample_event_def sample_mail_def insert_notification_def inbox_row_def inbox_checks_def validReasons_def same_event_def Let_def)

theorem publish_converges_witness:
  "fst (PublishInbox (Some (sample_person 9)) (\<lambda>i. 200 + i) 30 7 sample_event [3, 4] (sample_mail, [])) = Inr []"
  using publish_converges[OF sample_publish, of "\<lambda>i. 200 + i" 30] by (simp add: sample_event_def inj_def)

lemma inboxTransition_run:
  assumes "inboxTransition ctx nid f w = (Inr (), w')"
  obtains s where "ctx = Some s" and "ones_mail s" and "fst w' = update_rows (own_row s nid) f (fst w)"
    and "\<exists>q \<in> set (fst w). own_row s nid q"
  using assms by (auto simp: inboxTransition_def run_simps affected_0 split: if_split_asm)

text \<open>
  A snoozed notification returns by itself: after a snooze of a row in the inbox, a listing
  of the inbox with room for every row shows the row exactly from the given instant on, and so
  it is hidden before it, without any operation having to bring it back.
\<close>

theorem snoozed_returns_by_itself:
  assumes "distinct (map b_ID (fst w))" and "q \<in> set (fst w)" and "b_State q = InboxStateInbox"
    and "InboxSnooze (Some s) (b_ID q) until w = (Inr (), w')" and "int (length (fst w)) \<le> lim" and "0 < lim"
  shows "\<exists>shown. ListInbox (Some s) now \<lparr>f_State = '''', f_Reason = '''', f_RepoID = uuid_Nil, f_Limit = lim\<rparr> (fst w', [])
      = (Inr shown, (fst w', []))
    \<and> (q\<lparr>b_SnoozedUntil := Some until\<rparr> \<in> set shown \<longleftrightarrow> until \<le> now) \<and> (\<forall>p \<in> set shown. b_ID p = b_ID q \<longrightarrow> until \<le> now)"
proof -
  let ?F = "\<lparr>f_State = '''', f_Reason = '''', f_RepoID = uuid_Nil, f_Limit = lim\<rparr>"
  let ?q = "q\<lparr>b_SnoozedUntil := Some until\<rparr>"
  have one: "ones_mail s" and d': "fst w' = update_rows (own_row s (b_ID q)) (\<lambda>q. q\<lparr>b_SnoozedUntil := Some until\<rparr>) (fst w)"
    and ex: "\<exists>p \<in> set (fst w). own_row s (b_ID q) p"
    using assms(4) unfolding InboxSnooze_def by (auto elim!: inboxTransition_run)
  let ?shown = "sort_key (\<lambda>q. - b_CreatedAt q) (filter (visible s now ?F) (fst w'))"
  have same: "p = q" if "p \<in> set (fst w)" "b_ID p = b_ID q" for p
    using that assms(1,2) by (auto simp: distinct_map inj_on_def)
  with ex have own: "own_row s (b_ID q) q" by (auto simp: own_row_def)
  have "length ?shown \<le> nat lim"
  proof -
    have "length ?shown \<le> length (fst w')" by simp
    also have "\<dots> = length (fst w)" by (simp add: d' update_rows_def)
    finally show ?thesis using assms(5) by simp
  qed
  then have run: "ListInbox (Some s) now ?F (fst w', []) = (Inr ?shown, (fst w', []))"
    using one assms(6) by (simp add: ListInbox_def op_defs)
  have rows: "p \<in> set (fst w') \<and> b_ID p = b_ID q \<longleftrightarrow> p = ?q" for p
    using same own assms(2) by (auto simp: d' set_update_rows own_row_def image_iff)
  have vis: "visible s now ?F ?q \<longleftrightarrow> until \<le> now"
    using own assms(3) by (simp add: visible_def own_row_def)
  have only: "p = ?q" if "p \<in> set ?shown" "b_ID p = b_ID q" for p
    using that rows[of p] by simp
  have "?q \<in> set (fst w')" using rows[of ?q] by simp
  with vis have shown: "?q \<in> set ?shown \<longleftrightarrow> until \<le> now" by simp
  with only have "\<forall>p \<in> set ?shown. b_ID p = b_ID q \<longrightarrow> until \<le> now" by metis
  note shown this
  with run show ?thesis by blast
qed

theorem snoozed_returns_by_itself_witness:
  "fst (ListInbox (Some (sample_person 3)) 19 \<lparr>f_State = '''', f_Reason = '''', f_RepoID = 0, f_Limit = 5\<rparr>
      (fst (snd (InboxSnooze (Some (sample_person 3)) 100 20 (sample_mail, []))), [])) = Inr []"
proof -
  have s: "InboxSnooze (Some (sample_person 3)) (b_ID (hd sample_mail)) 20 (sample_mail, [])
      = (Inr (), ([(hd sample_mail)\<lparr>b_SnoozedUntil := Some 20\<rparr>, last sample_mail], []))"
    by (simp add: InboxSnooze_def inboxTransition_def op_defs ones_mail_def sample_person_def sample_mail_def own_row_def
        inbox_row_def sample_event_def)
  have "\<exists>shown. fst (ListInbox (Some (sample_person 3)) 19 \<lparr>f_State = '''', f_Reason = '''', f_RepoID = 0, f_Limit = 5\<rparr>
      ([(hd sample_mail)\<lparr>b_SnoozedUntil := Some 20\<rparr>, last sample_mail], [])) = Inr shown
      \<and> (\<forall>p \<in> set shown. b_ID p \<noteq> 100)"
    using snoozed_returns_by_itself[OF _ _ _ s, of 5 19]
    by (fastforce simp: sample_mail_def inbox_row_def sample_event_def)
  then show ?thesis
    using s by (auto simp: ListInbox_def op_defs ones_mail_def sample_person_def sample_mail_def visible_def
        inbox_row_def sample_event_def split: if_splits)
qed

end
