(* ===== verification/NF_WorkStore.thy ===== *)
theory NF_WorkStore
  imports NF_Authz "HOL-Library.List_Lexorder" "HOL-Library.Char_ord"
begin

text \<open>
  The work service's tables and its store (\<open>internal/work/store.go\<close>, \<open>deps.go\<close>,
  \<open>subtasks.go\<close>, \<open>completed.go\<close>). A row of \<open>work_items\<close> is the Go struct \<open>Item\<close> extended
  by the columns the struct does not carry; scanning a row truncates it to the struct. A NULL
  assignee is \<open>uuid.Nil\<close> and the empty kind, as the scans make them, and a nil slice is the
  empty list. The constraints, the defaults and the \<open>done_at\<close> trigger are those of
  \<open>internal/work/migrations\<close>.
\<close>

section \<open>The tables\<close>

record item =
  w_ID :: uuid
  w_OrgID :: uuid
  w_RepoID :: uuid
  w_Key :: string
  w_Type :: string
  w_Goal :: string
  w_Acceptance :: "string list"
  w_Constraints :: "string list"
  w_RequiredGates :: "string list"
  w_AssigneeID :: uuid
  w_AssigneeKind :: string
  w_State :: string
  w_CreatedAt :: time
  w_ExecutionClaimed :: bool

record item_row = item +
  w_Seq :: nat
  w_Parent :: "uuid option"
  w_Active :: "uuid option"
  w_DoneAt :: "time option"

record comment =
  c_ID :: uuid
  c_OrgID :: uuid
  c_WorkItemID :: uuid
  c_AuthorID :: uuid
  c_AuthorKind :: string
  c_Body :: string
  c_CreatedAt :: time

text \<open>A row of \<open>epic_subtasks\<close>.\<close>

record subtask_row =
  e_Parent :: uuid
  e_Key :: string
  e_Item :: uuid
  e_Role :: string

text \<open>A row of \<open>maintenance_proposals\<close>.\<close>

record proposal_row =
  m_OrgID :: uuid
  m_RepoID :: uuid
  m_Fingerprint :: string
  m_Item :: uuid
  m_ResolvedAt :: "time option"
  m_Decision :: "string option"
  m_DecidedBy :: uuid
  m_DecidedAt :: "time option"
  m_Reason :: string

text \<open>A row of \<open>execution_claims\<close>; the frozen intent is the serialized message.\<close>

record claim_row =
  x_OrgID :: uuid
  x_RunID :: uuid
  x_Item :: uuid
  x_RepoID :: uuid
  x_AgentID :: uuid
  x_SponsorID :: "uuid option"
  x_Intent :: "string option"
  x_Outcome :: "string option"
  x_ReleasedAt :: "time option"

record workdb =
  items :: "item_row list"
  comments :: "comment list"
  deps :: "(uuid \<times> uuid) list"
  subtasks :: "subtask_row list"
  proposals :: "proposal_row list"
  claims :: "claim_row list"

datatype grpc_code = PermissionDenied | InvalidArgument | NotFound | FailedPrecondition | Aborted | Internal | Unavailable
  | Unauthenticated | Unimplemented | AlreadyExists | ResourceExhausted | Canceled | UnknownCode

datatype workerr =
    InvalidType string
  | ItemNotFound uuid
  | KeyNotFound string
  | InvalidKind string
  | CommentNeedsBody
  | NotFoundOrActive uuid
  | SelfDependency uuid
  | DependencyCycle uuid uuid
  | NotASubtask uuid
  | WorkHasActiveExecution
  | ErrProposalNotFound
  | ErrProposalDecided
  | ErrNotAPerson
  | DismissalNeedsReason
  | ProposalRowGone
  | NoPurgeScope
  | Status grpc_code

type_synonym 'a work_op = "(workdb, workerr fault, 'a) op"

section \<open>Types and states\<close>

definition validTypes :: "string list" where
  "validTypes = [''feature'', ''bug'', ''refactor'', ''security'', ''tech_debt'', ''research'',
     ''architecture'', ''upgrade'', ''incident'', ''documentation'']"

definition IsValidType :: "string \<Rightarrow> bool" where
  "IsValidType t \<longleftrightarrow> t \<in> set validTypes"

definition SortedTypes :: "string list" where
  "SortedTypes = sort validTypes"

definition item_states :: "string list" where
  "item_states = [''open'', ''planning'', ''in_progress'', ''review'', ''done'', ''blocked'']"

section \<open>Statements\<close>

text \<open>The CHECK constraints of a row, and the trigger that keeps \<open>done_at\<close>.\<close>

definition row_checks :: "item_row \<Rightarrow> bool" where
  "row_checks r \<longleftrightarrow> IsValidType (w_Type r) \<and> w_State r \<in> set item_states
     \<and> w_AssigneeKind r \<in> {'''', ''user'', ''agent''}"

definition done_at :: "time \<Rightarrow> item_row option \<Rightarrow> item_row \<Rightarrow> item_row" where
  "done_at now old r =
     (if w_State r = ''done'' then
        (if old = None \<or> w_State (the old) \<noteq> ''done'' then r\<lparr>w_DoneAt := Some now\<rparr> else r)
      else r\<lparr>w_DoneAt := None\<rparr>)"

definition next_seq :: "uuid \<Rightarrow> workdb \<Rightarrow> nat" where
  "next_seq org d = Max (insert 0 (set (map w_Seq (filter (\<lambda>r. w_OrgID r = org) (items d))))) + 1"

definition item_key :: "nat \<Rightarrow> string" where
  "item_key n = ''NF-'' @ dec n"

definition new_row :: "time \<Rightarrow> item \<Rightarrow> uuid option \<Rightarrow> workdb \<Rightarrow> item_row" where
  "new_row now it parent d =
     (let n = next_seq (w_OrgID it) d in
      done_at now None
        (item.extend (it\<lparr>w_Key := item_key n, w_CreatedAt := now, w_ExecutionClaimed := False\<rparr>)
           (item_row.fields n parent None None)))"

definition insert_item :: "time \<Rightarrow> item \<Rightarrow> uuid option \<Rightarrow> workdb \<Rightarrow> sqlerr + (item_row \<times> workdb)" where
  "insert_item now it parent d =
     (let r = new_row now it parent d in
      if \<not> row_checks r then Inl CheckViolation
      else if \<exists>q \<in> set (items d). w_ID q = w_ID r
          \<or> w_OrgID q = w_OrgID r \<and> (w_Key q = w_Key r \<or> w_Seq q = w_Seq r) then Inl UniqueViolation
      else if (case parent of None \<Rightarrow> False | Some p \<Rightarrow> p \<notin> insert (w_ID r) (w_ID ` set (items d)))
        then Inl ForeignKeyViolation
      else Inr (r, d\<lparr>items := items d @ [r]\<rparr>))"

text \<open>\<open>UPDATE work.work_items SET f WHERE P\<close>; the result is the number of rows affected.\<close>

definition update_items ::
  "time \<Rightarrow> (item_row \<Rightarrow> bool) \<Rightarrow> (item_row \<Rightarrow> item_row) \<Rightarrow> workdb \<Rightarrow> sqlerr + (nat \<times> workdb)" where
  "update_items now P f d =
     (if \<exists>r \<in> set (items d). P r \<and> \<not> row_checks (f r) then Inl CheckViolation
      else if \<exists>r \<in> set (items d). P r \<and> (case w_Parent (f r) of None \<Rightarrow> False | Some p \<Rightarrow> p \<notin> w_ID ` set (items d))
        then Inl ForeignKeyViolation
      else Inr (affected P (items d),
        d\<lparr>items := update_rows P (\<lambda>r. done_at now (Some r) (f r)) (items d)\<rparr>))"

definition scan_item :: "item_row \<Rightarrow> item" where
  "scan_item r = item.truncate r"

definition select_items :: "(item_row \<Rightarrow> bool) \<Rightarrow> workdb \<Rightarrow> item list" where
  "select_items P d = map scan_item (sort_key w_Seq (filter P (items d)))"

section \<open>Items\<close>

definition Create :: "uuid \<Rightarrow> time \<Rightarrow> item \<Rightarrow> item work_op" where
  "Create new_id now item0 =
     (if \<not> IsValidType (w_Type item0) then fail (App (InvalidType (w_Type item0)))
      else
        let it1 = item0\<lparr>w_ID := new_id\<rparr>;
            it = (if w_State it1 = '''' then it1\<lparr>w_State := ''open''\<rparr> else it1) in
        bnd (stmt (\<lambda>e. if e = CheckViolation then App (InvalidType (w_Type it)) else Sql e)
              (insert_item now it None)) (\<lambda>r.
        ret (it\<lparr>w_Key := w_Key r, w_CreatedAt := w_CreatedAt r\<rparr>)))"

definition get_item :: "uuid \<Rightarrow> uuid \<Rightarrow> item work_op" where
  "get_item orgID iid =
     bnd (query Sql (\<lambda>d. List.find (\<lambda>r. w_OrgID r = orgID \<and> w_ID r = iid) (items d))) (\<lambda>row.
     case row of None \<Rightarrow> fail (App (ItemNotFound iid)) | Some r \<Rightarrow> ret (scan_item r))"

definition Get :: "ctx \<Rightarrow> uuid \<Rightarrow> item work_op" where
  "Get ctx iid = bnd (from_context ctx) (\<lambda>scope. get_item (s_OrgID scope) iid)"

definition GetByKey :: "ctx \<Rightarrow> uuid \<Rightarrow> string \<Rightarrow> item work_op" where
  "GetByKey ctx orgID key =
     bnd (require_org ctx orgID) (\<lambda>_.
     bnd (query Sql (\<lambda>d. List.find (\<lambda>r. w_OrgID r = orgID \<and> w_Key r = key) (items d))) (\<lambda>row.
     case row of None \<Rightarrow> fail (App (KeyNotFound key)) | Some r \<Rightarrow> ret (scan_item r)))"

definition ListItems :: "ctx \<Rightarrow> uuid \<Rightarrow> uuid \<Rightarrow> string \<Rightarrow> item list work_op" where
  "ListItems ctx orgID repoID state =
     bnd (require_org ctx orgID) (\<lambda>_.
     query Sql (select_items (\<lambda>r. w_OrgID r = orgID \<and> w_RepoID r = repoID
       \<and> (state = '''' \<or> w_State r = state))))"

definition Assign :: "ctx \<Rightarrow> time \<Rightarrow> uuid \<Rightarrow> uuid \<Rightarrow> string \<Rightarrow> unit work_op" where
  "Assign ctx now iid assigneeID kind =
     bnd (from_context ctx) (\<lambda>scope.
     if kind \<noteq> ''user'' \<and> kind \<noteq> ''agent'' then fail (App (InvalidKind kind))
     else
       bnd (stmt Sql (update_items now (\<lambda>r. w_OrgID r = s_OrgID scope \<and> w_ID r = iid)
              (\<lambda>r. r\<lparr>w_AssigneeID := assigneeID, w_AssigneeKind := kind\<rparr>))) (\<lambda>n.
       if n = 0 then fail (App (ItemNotFound iid)) else ret ()))"

definition insert_comment :: "comment \<Rightarrow> workdb \<Rightarrow> sqlerr + (unit \<times> workdb)" where
  "insert_comment c d =
     (if c_AuthorKind c \<noteq> ''user'' \<and> c_AuthorKind c \<noteq> ''agent'' \<or> c_Body c = '''' then Inl CheckViolation
      else if c_ID c \<in> c_ID ` set (comments d) then Inl UniqueViolation
      else if c_WorkItemID c \<notin> w_ID ` set (items d) then Inl ForeignKeyViolation
      else Inr ((), d\<lparr>comments := comments d @ [c]\<rparr>))"

definition AddComment :: "ctx \<Rightarrow> uuid \<Rightarrow> time \<Rightarrow> uuid \<Rightarrow> string \<Rightarrow> comment work_op" where
  "AddComment ctx new_id now workItemID body =
     bnd (from_context ctx) (\<lambda>scope.
     if body = '''' then fail (App CommentNeedsBody)
     else
       bnd (get_item (s_OrgID scope) workItemID) (\<lambda>_.
       let kind = (if s_ActorKind scope \<noteq> ''agent'' then ''user'' else s_ActorKind scope);
           c = \<lparr>c_ID = new_id, c_OrgID = s_OrgID scope, c_WorkItemID = workItemID,
                c_AuthorID = s_ActorID scope, c_AuthorKind = kind, c_Body = body, c_CreatedAt = now\<rparr> in
       bnd (stmt Sql (insert_comment c)) (\<lambda>_. ret c)))"

definition ListComments :: "ctx \<Rightarrow> uuid \<Rightarrow> comment list work_op" where
  "ListComments ctx workItemID =
     bnd (from_context ctx) (\<lambda>scope.
     query Sql (\<lambda>d. sort_key c_CreatedAt
       (filter (\<lambda>c. c_OrgID c = s_OrgID scope \<and> c_WorkItemID c = workItemID) (comments d))))"

section \<open>Parents, states and dependencies\<close>

definition SetParent :: "ctx \<Rightarrow> time \<Rightarrow> uuid \<Rightarrow> uuid \<Rightarrow> unit work_op" where
  "SetParent ctx now iid parentID =
     bnd (from_context ctx) (\<lambda>scope.
     bnd (stmt Sql (update_items now (\<lambda>r. w_OrgID r = s_OrgID scope \<and> w_ID r = iid)
            (\<lambda>r. r\<lparr>w_Parent := Some parentID\<rparr>))) (\<lambda>n.
     if n = 0 then fail (App (ItemNotFound iid)) else ret ()))"

definition SetState :: "ctx \<Rightarrow> time \<Rightarrow> uuid \<Rightarrow> string \<Rightarrow> unit work_op" where
  "SetState ctx now iid newState =
     bnd (from_context ctx) (\<lambda>scope.
     bnd (stmt Sql (update_items now (\<lambda>r. w_OrgID r = s_OrgID scope \<and> w_ID r = iid \<and> w_Active r = None)
            (\<lambda>r. r\<lparr>w_State := newState\<rparr>))) (\<lambda>n.
     if n = 0 then fail (App (NotFoundOrActive iid)) else ret ()))"

definition TransitionState :: "ctx \<Rightarrow> time \<Rightarrow> uuid \<Rightarrow> string \<Rightarrow> string \<Rightarrow> bool work_op" where
  "TransitionState ctx now iid from_state to_state =
     bnd (from_context ctx) (\<lambda>scope.
     bnd (stmt Sql (update_items now
            (\<lambda>r. w_ID r = iid \<and> w_OrgID r = s_OrgID scope \<and> w_State r = from_state \<and> w_Active r = None)
            (\<lambda>r. r\<lparr>w_State := to_state\<rparr>))) (\<lambda>n.
     ret (n = 1)))"

text \<open>\<open>RETURNING id\<close> yields a row exactly when one was affected.\<close>

definition ClaimOpen :: "ctx \<Rightarrow> time \<Rightarrow> uuid \<Rightarrow> bool work_op" where
  "ClaimOpen ctx now iid =
     bnd (from_context ctx) (\<lambda>scope.
     bnd (stmt Sql (update_items now
            (\<lambda>r. w_ID r = iid \<and> w_OrgID r = s_OrgID scope \<and> w_State r = ''open'' \<and> w_Active r = None)
            (\<lambda>r. r\<lparr>w_State := ''in_progress''\<rparr>))) (\<lambda>n.
     ret (n \<noteq> 0)))"

text \<open>
  The recursive query of \<open>AddDependency\<close>: \<open>UNION\<close> keeps a row once, the working table of a
  round holds the rows that are new in it, and the query ends when a round adds none.
\<close>

definition step_ids :: "(uuid \<times> uuid) list \<Rightarrow> uuid list \<Rightarrow> uuid list \<Rightarrow> uuid list" where
  "step_ids E seen working = remdups (map snd (filter (\<lambda>e. fst e \<in> set working \<and> snd e \<notin> set seen) E))"

function recursive_union :: "(uuid \<times> uuid) list \<Rightarrow> uuid list \<Rightarrow> uuid list \<Rightarrow> uuid list" where
  "recursive_union E seen working =
     (case step_ids E seen working of
        [] \<Rightarrow> seen
      | y # ys \<Rightarrow> recursive_union E (seen @ y # ys) (y # ys))"
  by pat_completeness auto

termination
proof (relation "measure (\<lambda>(E, seen, working). card (snd ` set E - set seen))")
  fix E seen working y ys
  assume s: "step_ids E seen working = y # ys"
  have "y \<in> set (step_ids E seen working)" by (simp add: s)
  then have y: "y \<in> snd ` set E" "y \<notin> set seen" by (auto simp: step_ids_def)
  have "card (snd ` set E - set (seen @ y # ys)) < card (snd ` set E - set seen)"
    by (rule psubset_card_mono) (use y in auto)
  then show "((E, seen @ y # ys, y # ys), (E, seen, working)) \<in> measure (\<lambda>(E, seen, working). card (snd ` set E - set seen))"
    by simp
qed simp

declare recursive_union.simps [simp del]

definition ancestors :: "(uuid \<times> uuid) list \<Rightarrow> uuid \<Rightarrow> uuid list" where
  "ancestors E x = (let base = step_ids E [] [x] in recursive_union E base base)"

definition insert_dep :: "uuid \<Rightarrow> uuid \<Rightarrow> workdb \<Rightarrow> sqlerr + (unit \<times> workdb)" where
  "insert_dep blockedID blockerID d =
     (if blockedID = blockerID then Inl CheckViolation
      else if (blockedID, blockerID) \<in> set (deps d) then Inr ((), d)
      else if blockedID \<notin> w_ID ` set (items d) \<or> blockerID \<notin> w_ID ` set (items d) then Inl ForeignKeyViolation
      else Inr ((), d\<lparr>deps := deps d @ [(blockedID, blockerID)]\<rparr>))"

text \<open>The statements of \<open>AddDependency\<close> are not in a transaction: its checks, then its insert.\<close>

definition check_dependency :: "ctx \<Rightarrow> uuid \<Rightarrow> uuid \<Rightarrow> unit work_op" where
  "check_dependency ctx blockedID blockerID =
     bnd (from_context ctx) (\<lambda>scope.
     if blockedID = blockerID then fail (App (SelfDependency blockedID))
     else
       bnd (get_item (s_OrgID scope) blockedID) (\<lambda>_.
       bnd (get_item (s_OrgID scope) blockerID) (\<lambda>_.
       bnd (query Sql (\<lambda>d. blockedID \<in> set (ancestors (deps d) blockerID))) (\<lambda>cyclic.
       if cyclic then fail (App (DependencyCycle blockedID blockerID)) else ret ()))))"

definition add_edge :: "uuid \<Rightarrow> uuid \<Rightarrow> unit work_op" where
  "add_edge blockedID blockerID = stmt Sql (insert_dep blockedID blockerID)"

definition AddDependency :: "ctx \<Rightarrow> uuid \<Rightarrow> uuid \<Rightarrow> unit work_op" where
  "AddDependency ctx blockedID blockerID =
     bnd (check_dependency ctx blockedID blockerID) (\<lambda>_. add_edge blockedID blockerID)"

definition Dependencies :: "ctx \<Rightarrow> uuid \<Rightarrow> item list work_op" where
  "Dependencies ctx iid =
     bnd (from_context ctx) (\<lambda>scope.
     query Sql (\<lambda>d. select_items (\<lambda>r. (iid, w_ID r) \<in> set (deps d) \<and> w_OrgID r = s_OrgID scope) d))"

definition Dependents :: "ctx \<Rightarrow> uuid \<Rightarrow> item list work_op" where
  "Dependents ctx iid =
     bnd (from_context ctx) (\<lambda>scope.
     query Sql (\<lambda>d. select_items (\<lambda>r. (w_ID r, iid) \<in> set (deps d) \<and> w_OrgID r = s_OrgID scope) d))"

text \<open>An item has an unfinished blocker.\<close>

definition waiting :: "workdb \<Rightarrow> uuid \<Rightarrow> bool" where
  "waiting d iid \<longleftrightarrow> (\<exists>e \<in> set (deps d). fst e = iid \<and> (\<exists>b \<in> set (items d). w_ID b = snd e \<and> w_State b \<noteq> ''done''))"

definition Ready :: "ctx \<Rightarrow> uuid \<Rightarrow> uuid \<Rightarrow> item list work_op" where
  "Ready ctx orgID epicID =
     bnd (require_org ctx orgID) (\<lambda>_.
     query Sql (\<lambda>d. select_items (\<lambda>r. w_OrgID r = orgID \<and> w_Parent r = Some epicID \<and> w_State r = ''open''
       \<and> \<not> waiting d (w_ID r)) d))"

definition OpenEpics :: "(uuid \<times> uuid) list work_op" where
  "OpenEpics =
     query Sql (\<lambda>d. remdups (map (\<lambda>p. (w_OrgID p, w_ID p))
       (filter (\<lambda>p. w_State p \<noteq> ''done'' \<and> (\<exists>c \<in> set (items d). w_Parent c = Some (w_ID p))) (items d))))"

text \<open>What a proposal's reader sees: the row joined with its item.\<close>

record proposal =
  p_Fingerprint :: string
  p_WorkItemID :: uuid
  p_WorkItemKey :: string
  p_WorkItemGoal :: string
  p_WorkItemType :: string
  p_State :: string
  p_Resolved :: bool
  p_Decision :: string
  p_DecidedBy :: uuid
  p_DecidedAt :: "time option"
  p_DismissReason :: string
  p_AssigneeID :: uuid
  p_AssigneeKind :: string

definition scanProposal :: "proposal_row \<Rightarrow> item_row \<Rightarrow> proposal" where
  "scanProposal m w =
     \<lparr>p_Fingerprint = m_Fingerprint m, p_WorkItemID = w_ID w, p_WorkItemKey = w_Key w,
      p_WorkItemGoal = w_Goal w, p_WorkItemType = w_Type w, p_State = w_State w,
      p_Resolved = (m_ResolvedAt m \<noteq> None),
      p_Decision = (case m_Decision m of None \<Rightarrow> '''' | Some x \<Rightarrow> x), p_DecidedBy = m_DecidedBy m,
      p_DecidedAt = m_DecidedAt m, p_DismissReason = m_Reason m,
      p_AssigneeID = w_AssigneeID w, p_AssigneeKind = w_AssigneeKind w\<rparr>"

text \<open>The join of the proposals with their items.\<close>

definition proposal_join :: "(proposal_row \<Rightarrow> bool) \<Rightarrow> workdb \<Rightarrow> (proposal_row \<times> item_row) list" where
  "proposal_join P d = concat (map (\<lambda>m. map (\<lambda>w. (m, w)) (filter (\<lambda>w. w_ID w = m_Item m) (items d)))
     (filter P (proposals d)))"

definition ListProposals :: "ctx \<Rightarrow> uuid \<Rightarrow> proposal list work_op" where
  "ListProposals ctx repoID =
     bnd (from_context ctx) (\<lambda>scope.
     query Sql (\<lambda>d. map (\<lambda>mw. scanProposal (fst mw) (snd mw))
       (sort_key (\<lambda>mw. - w_CreatedAt (snd mw))
         (proposal_join (\<lambda>m. m_OrgID m = s_OrgID scope \<and> m_RepoID m = repoID) d))))"

section \<open>Subtasks\<close>

definition insert_subtask :: "subtask_row \<Rightarrow> workdb \<Rightarrow> sqlerr + (unit \<times> workdb)" where
  "insert_subtask e d =
     (if \<exists>q \<in> set (subtasks d). e_Parent q = e_Parent e \<and> e_Key q = e_Key e then Inl UniqueViolation
      else if e_Parent e \<notin> w_ID ` set (items d) \<or> e_Item e \<notin> w_ID ` set (items d) then Inl ForeignKeyViolation
      else Inr ((), d\<lparr>subtasks := subtasks d @ [e]\<rparr>))"

text \<open>
  \<open>CreateChild\<close> reads the ledger inside its transaction; for a key it finds, it reads the item
  (over the pool, outside the transaction) and returns, so the deferred rollback runs.
\<close>

definition CreateChild :: "ctx \<Rightarrow> uuid \<Rightarrow> time \<Rightarrow> uuid \<Rightarrow> string \<Rightarrow> string \<Rightarrow> item \<Rightarrow> item work_op" where
  "CreateChild ctx new_id now epicID key role item0 =
     bnd (from_context ctx) (\<lambda>scope.
     if \<not> IsValidType (w_Type item0) then fail (App (InvalidType (w_Type item0)))
     else tx Sql (
       bnd (query Sql (\<lambda>d. List.find (\<lambda>e. e_Parent e = epicID \<and> e_Key e = key) (subtasks d))) (\<lambda>row.
       case row of
         Some e \<Rightarrow> bnd (get_item (s_OrgID scope) (e_Item e)) (\<lambda>it. ret (Abort it))
       | None \<Rightarrow>
           let it1 = item0\<lparr>w_ID := new_id, w_OrgID := s_OrgID scope\<rparr>;
               it = (if w_State it1 = '''' then it1\<lparr>w_State := ''open''\<rparr> else it1) in
           bnd (stmt Sql (insert_item now it (Some epicID))) (\<lambda>r.
           bnd (stmt Sql (insert_subtask \<lparr>e_Parent = epicID, e_Key = key, e_Item = w_ID it, e_Role = role\<rparr>)) (\<lambda>_.
           ret (Commit (it\<lparr>w_Key := w_Key r, w_CreatedAt := w_CreatedAt r\<rparr>)))))))"

definition SubtaskRole :: "ctx \<Rightarrow> uuid \<Rightarrow> string work_op" where
  "SubtaskRole ctx workItemID =
     bnd (from_context ctx) (\<lambda>scope.
     bnd (query Sql (\<lambda>d. List.find (\<lambda>e. e_Item e = workItemID
            \<and> (\<exists>w \<in> set (items d). w_ID w = e_Item e \<and> w_OrgID w = s_OrgID scope)) (subtasks d))) (\<lambda>row.
     case row of None \<Rightarrow> fail (App (NotASubtask workItemID)) | Some e \<Rightarrow> ret (e_Role e)))"

definition Children :: "ctx \<Rightarrow> uuid \<Rightarrow> uuid \<Rightarrow> item list work_op" where
  "Children ctx orgID epicID =
     bnd (require_org ctx orgID) (\<lambda>_.
     query Sql (select_items (\<lambda>r. w_OrgID r = orgID \<and> w_Parent r = Some epicID)))"

definition CompletedSince :: "ctx \<Rightarrow> uuid \<Rightarrow> time \<Rightarrow> nat work_op" where
  "CompletedSince ctx orgID since =
     bnd (require_org ctx orgID) (\<lambda>_.
     query Sql (\<lambda>d. affected (\<lambda>r. w_OrgID r = orgID \<and> w_State r = ''done''
       \<and> (case w_DoneAt r of None \<Rightarrow> False | Some t \<Rightarrow> since \<le> t)) (items d)))"

lemma item_key_inject [simp]: "item_key m = item_key n \<longleftrightarrow> m = n"
  by (simp add: item_key_def)

end
