(* ===== verification/NF_WorkExec.thy ===== *)
theory NF_WorkExec
  imports NF_WorkStore
begin

text \<open>
  The rest of the work service: execution claims (\<open>internal/work/execution.go\<close>), maintenance
  proposals and their decision (\<open>proposals.go\<close>), the edits people may make (\<open>edit.go\<close>), the
  deletion of a repository's or an organization's items (\<open>purge.go\<close>), the gate names
  (\<open>internal/gatenames\<close>). An identifier on the wire is what \<open>uuid.Parse\<close> makes of it:
  \<^const>\<open>None\<close> when it is refused. The wire form of a message, \<open>proto.Marshal\<close> and
  \<open>proto.Unmarshal\<close>, are arguments. A status error keeps its code.
\<close>

section \<open>Messages\<close>

record proto_item =
  t_Id :: uuid
  t_OrgId :: uuid
  t_RepoId :: uuid
  t_Key :: string
  t_Type :: string
  t_Goal :: string
  t_Acceptance :: "string list"
  t_Constraints :: "string list"
  t_RequiredGates :: "string list"
  t_AssigneeId :: uuid
  t_AssigneeKind :: string
  t_State :: string
  t_CreatedAt :: time
  t_ExecutionClaimed :: bool
  t_AwaitingApproval :: bool
  t_MaintenanceProposal :: bool

definition toProtoItem :: "item \<Rightarrow> proto_item" where
  "toProtoItem it =
     \<lparr>t_Id = w_ID it, t_OrgId = w_OrgID it, t_RepoId = w_RepoID it, t_Key = w_Key it,
      t_Type = w_Type it, t_Goal = w_Goal it, t_Acceptance = w_Acceptance it,
      t_Constraints = w_Constraints it, t_RequiredGates = w_RequiredGates it,
      t_AssigneeId = w_AssigneeID it, t_AssigneeKind = w_AssigneeKind it, t_State = w_State it,
      t_CreatedAt = w_CreatedAt it, t_ExecutionClaimed = w_ExecutionClaimed it,
      t_AwaitingApproval = False, t_MaintenanceProposal = False\<rparr>"

definition callerOrg :: "ctx \<Rightarrow> uuid work_op" where
  "callerOrg ctx = (case FromContext ctx of Inl _ \<Rightarrow> fail (App (Status PermissionDenied))
     | Inr scope \<Rightarrow> ret (s_OrgID scope))"

definition parseUUID :: "uuid option \<Rightarrow> uuid work_op" where
  "parseUUID raw = (case raw of None \<Rightarrow> fail (App (Status InvalidArgument)) | Some u \<Rightarrow> ret u)"

section \<open>Gate names\<close>

definition known_gates :: "string list" where
  "known_gates = [''tests'', ''architecture'', ''security'', ''api-compatibility'', ''dependencies'',
     ''quality'', ''documentation'']"

definition Known :: "string \<Rightarrow> bool" where
  "Known name \<longleftrightarrow> name \<in> set known_gates"

section \<open>Execution claims\<close>

definition executionOwner :: "ctx \<Rightarrow> scope work_op" where
  "executionOwner ctx =
     (case FromContext ctx of
        Inl _ \<Rightarrow> fail (App (Status PermissionDenied))
      | Inr scope \<Rightarrow>
          if s_OrgID scope = uuid_Nil \<or> s_ActorKind scope \<noteq> ''service''
             \<or> s_ServiceName scope \<noteq> ''agent-runtime'' \<or> s_PlatformWorker scope \<noteq> ''''
          then fail (App (Status PermissionDenied)) else ret scope)"

definition executionID :: "uuid option \<Rightarrow> uuid work_op" where
  "executionID raw =
     bnd (parseUUID raw) (\<lambda>u. if u = uuid_Nil then fail (App (Status InvalidArgument)) else ret u)"

record claim_request =
  q_WorkItemId :: "uuid option"
  q_RepoId :: "uuid option"
  q_RunId :: "uuid option"
  q_AgentId :: "uuid option"
  q_SponsorId :: "uuid option"

abbreviation internal :: "sqlerr \<Rightarrow> workerr fault" where
  "internal e \<equiv> App (Status Internal)"

text \<open>The lock: \<open>SELECT ... FOR UPDATE\<close>.\<close>

definition lock_item :: "uuid \<Rightarrow> uuid \<Rightarrow> uuid \<Rightarrow> item_row work_op" where
  "lock_item orgID repoID itemID =
     bnd (query internal (\<lambda>d. List.find (\<lambda>r. w_OrgID r = orgID \<and> w_RepoID r = repoID \<and> w_ID r = itemID) (items d))) (\<lambda>row.
     case row of None \<Rightarrow> fail (App (Status NotFound)) | Some r \<Rightarrow> ret r)"

definition find_claim :: "uuid \<Rightarrow> uuid \<Rightarrow> workdb \<Rightarrow> claim_row option" where
  "find_claim orgID runID d = List.find (\<lambda>x. x_OrgID x = orgID \<and> x_RunID x = runID) (claims d)"

definition outcomes :: "string list" where
  "outcomes = [''succeeded'', ''failed'', ''cancelled'', ''over_budget'', ''admission_failed'']"

text \<open>The constraints of \<open>execution_claims\<close>, with the unique index over unfinished claims of an item.\<close>

definition claim_checks :: "claim_row \<Rightarrow> bool" where
  "claim_checks x \<longleftrightarrow>
     (case x_Outcome x of None \<Rightarrow> True | Some oc \<Rightarrow> oc \<in> set outcomes)
     \<and> (x_Outcome x = None) = (x_ReleasedAt x = None)
     \<and> (x_Intent x \<noteq> None \<and> x_SponsorID x \<noteq> None
        \<or> x_Outcome x = Some ''admission_failed'' \<and> x_Intent x = None \<and> x_SponsorID x = None)"

definition insert_claim :: "claim_row \<Rightarrow> workdb \<Rightarrow> sqlerr + (unit \<times> workdb)" where
  "insert_claim x d =
     (if \<not> claim_checks x then Inl CheckViolation
      else if (\<exists>y \<in> set (claims d). x_OrgID y = x_OrgID x
          \<and> (x_RunID y = x_RunID x \<or> x_Item y = x_Item x \<and> x_Outcome y = None \<and> x_Outcome x = None))
        then Inl UniqueViolation
      else if x_Item x \<notin> w_ID ` set (items d) then Inl ForeignKeyViolation
      else Inr ((), d\<lparr>claims := claims d @ [x]\<rparr>))"

definition update_claims ::
  "(claim_row \<Rightarrow> bool) \<Rightarrow> (claim_row \<Rightarrow> claim_row) \<Rightarrow> workdb \<Rightarrow> sqlerr + (unit \<times> workdb)" where
  "update_claims P f d =
     (if \<exists>x \<in> set (claims d). P x \<and> \<not> claim_checks (f x) then Inl CheckViolation
      else Inr ((), d\<lparr>claims := update_rows P f (claims d)\<rparr>))"

text \<open>The admission policy: is it a proposal, is a proposal of it not approved, is a blocker unfinished.\<close>

definition is_proposal :: "uuid \<Rightarrow> uuid \<Rightarrow> workdb \<Rightarrow> bool" where
  "is_proposal orgID itemID d \<longleftrightarrow> (\<exists>m \<in> set (proposals d). m_OrgID m = orgID \<and> m_Item m = itemID)"

definition unapproved :: "uuid \<Rightarrow> uuid \<Rightarrow> workdb \<Rightarrow> bool" where
  "unapproved orgID itemID d \<longleftrightarrow> (\<exists>m \<in> set (proposals d). m_OrgID m = orgID \<and> m_Item m = itemID
     \<and> (m_Decision m \<noteq> Some ''approved'' \<or> m_ResolvedAt m \<noteq> None))"

definition blocked :: "uuid \<Rightarrow> uuid \<Rightarrow> workdb \<Rightarrow> bool" where
  "blocked orgID itemID d \<longleftrightarrow> (\<exists>e \<in> set (deps d). fst e = itemID
     \<and> (\<exists>b \<in> set (items d). w_ID b = snd e \<and> w_OrgID b = orgID \<and> w_State b \<noteq> ''done''))"

text \<open>The message that freezes an item's intent, and the part of \<open>ClaimExecution\<close> inside its transaction.\<close>

definition frozen_intent :: "bool \<Rightarrow> item_row \<Rightarrow> proto_item" where
  "frozen_intent maintenance row =
     (toProtoItem ((scan_item row)\<lparr>w_State := ''in_progress'', w_ExecutionClaimed := True\<rparr>))
       \<lparr>t_MaintenanceProposal := maintenance\<rparr>"

definition claim_body :: "(proto_item \<Rightarrow> string option) \<Rightarrow> (string \<Rightarrow> proto_item option) \<Rightarrow> time \<Rightarrow>
    uuid \<Rightarrow> uuid \<Rightarrow> uuid \<Rightarrow> uuid \<Rightarrow> uuid \<Rightarrow> uuid \<Rightarrow> proto_item txres work_op" where
  "claim_body marshal unmarshal now orgID itemID repoID runID agentID sponsorID =
     bnd (lock_item orgID repoID itemID) (\<lambda>row.
     bnd (query internal (find_claim orgID runID)) (\<lambda>claim.
     case claim of
       Some x \<Rightarrow>
         if x_Item x \<noteq> itemID \<or> x_RepoID x \<noteq> repoID \<or> x_AgentID x \<noteq> agentID
            \<or> x_SponsorID x \<noteq> Some sponsorID \<or> x_Outcome x \<noteq> None \<or> w_Active row \<noteq> Some runID
         then fail (App (Status FailedPrecondition))
         else (case unmarshal (case x_Intent x of None \<Rightarrow> '''' | Some b \<Rightarrow> b) of
                 None \<Rightarrow> fail (App (Status Internal))
               | Some frozen \<Rightarrow> ret (Abort frozen))
     | None \<Rightarrow>
         if w_State row \<noteq> ''open'' \<or> w_Active row \<noteq> None then fail (App (Status FailedPrecondition))
         else
           bnd (query internal (\<lambda>d. (is_proposal orgID itemID d, unapproved orgID itemID d, blocked orgID itemID d))) (\<lambda>(maintenance, unappr, blkd).
           if unappr \<or> blkd then fail (App (Status FailedPrecondition))
           else
             let frozen = frozen_intent maintenance row in
             case marshal frozen of
               None \<Rightarrow> fail (App (Status Internal))
             | Some intent \<Rightarrow>
                 bnd (stmt (\<lambda>_. App (Status Aborted)) (insert_claim
                        \<lparr>x_OrgID = orgID, x_RunID = runID, x_Item = itemID, x_RepoID = repoID, x_AgentID = agentID,
                         x_SponsorID = Some sponsorID, x_Intent = Some intent, x_Outcome = None, x_ReleasedAt = None\<rparr>)) (\<lambda>_.
                 bnd (stmt internal (update_items now (\<lambda>r. w_OrgID r = orgID \<and> w_ID r = itemID)
                        (\<lambda>r. r\<lparr>w_State := ''in_progress'', w_ExecutionClaimed := True, w_Active := Some runID\<rparr>))) (\<lambda>_.
                 ret (Commit frozen))))))"

definition ClaimExecution :: "(proto_item \<Rightarrow> string option) \<Rightarrow> (string \<Rightarrow> proto_item option) \<Rightarrow>
    ctx \<Rightarrow> time \<Rightarrow> claim_request \<Rightarrow> proto_item work_op" where
  "ClaimExecution marshal unmarshal ctx now req =
     bnd (executionOwner ctx) (\<lambda>scope.
     bnd (executionID (q_WorkItemId req)) (\<lambda>itemID.
     bnd (executionID (q_RepoId req)) (\<lambda>repoID.
     bnd (executionID (q_RunId req)) (\<lambda>runID.
     bnd (executionID (q_AgentId req)) (\<lambda>agentID.
     bnd (executionID (q_SponsorId req)) (\<lambda>sponsorID.
     tx internal (claim_body marshal unmarshal now (s_OrgID scope) itemID repoID runID agentID sponsorID)))))))"

record release_request =
  z_WorkItemId :: "uuid option"
  z_RepoId :: "uuid option"
  z_RunId :: "uuid option"
  z_AgentId :: "uuid option"
  z_Outcome :: string
  z_NoExecutionStarted :: bool

text \<open>The state an outcome releases the item to, after the request's own checks.\<close>

definition release_state :: "release_request \<Rightarrow> string work_op" where
  "release_state req =
     bnd (if z_Outcome req = ''succeeded'' then ret ''review''
          else if z_Outcome req \<in> {''failed'', ''cancelled'', ''over_budget''} then ret ''blocked''
          else if z_Outcome req = ''admission_failed'' then
            (if \<not> z_NoExecutionStarted req then fail (App (Status FailedPrecondition)) else ret ''open'')
          else fail (App (Status InvalidArgument))) (\<lambda>state.
     if z_NoExecutionStarted req \<and> z_Outcome req \<noteq> ''admission_failed'' then fail (App (Status InvalidArgument))
     else ret state)"

definition release_body :: "time \<Rightarrow> uuid \<Rightarrow> uuid \<Rightarrow> uuid \<Rightarrow> uuid \<Rightarrow> uuid \<Rightarrow> string \<Rightarrow> string \<Rightarrow> unit txres work_op" where
  "release_body now orgID itemID repoID runID agentID result state =
     bnd (lock_item orgID repoID itemID) (\<lambda>row.
     bnd (query internal (find_claim orgID runID)) (\<lambda>claim.
     case claim of
       None \<Rightarrow>
         if result \<noteq> ''admission_failed'' then fail (App (Status NotFound))
         else
           bnd (stmt (\<lambda>_. App (Status Aborted)) (insert_claim
                  \<lparr>x_OrgID = orgID, x_RunID = runID, x_Item = itemID, x_RepoID = repoID, x_AgentID = agentID,
                   x_SponsorID = None, x_Intent = None, x_Outcome = Some ''admission_failed'', x_ReleasedAt = Some now\<rparr>)) (\<lambda>_.
           ret (Commit ()))
     | Some x \<Rightarrow>
         if x_Item x \<noteq> itemID \<or> x_RepoID x \<noteq> repoID \<or> x_AgentID x \<noteq> agentID
         then fail (App (Status FailedPrecondition))
         else if x_Outcome x \<noteq> None then
           (if x_Outcome x \<noteq> Some result then fail (App (Status FailedPrecondition)) else ret (Abort ()))
         else if w_Active row \<noteq> Some runID then fail (App (Status FailedPrecondition))
         else
           bnd (stmt internal (update_claims (\<lambda>y. x_OrgID y = orgID \<and> x_RunID y = runID)
                  (\<lambda>y. y\<lparr>x_Outcome := Some result, x_ReleasedAt := Some now\<rparr>))) (\<lambda>_.
           bnd (stmt internal (update_items now (\<lambda>r. w_OrgID r = orgID \<and> w_ID r = itemID)
                  (\<lambda>r. r\<lparr>w_State := state, w_Active := None\<rparr>))) (\<lambda>_.
           ret (Commit ())))))"

definition ReleaseExecution :: "ctx \<Rightarrow> time \<Rightarrow> release_request \<Rightarrow> unit work_op" where
  "ReleaseExecution ctx now req =
     bnd (executionOwner ctx) (\<lambda>scope.
     bnd (executionID (z_WorkItemId req)) (\<lambda>itemID.
     bnd (executionID (z_RepoId req)) (\<lambda>repoID.
     bnd (executionID (z_RunId req)) (\<lambda>runID.
     bnd (executionID (z_AgentId req)) (\<lambda>agentID.
     bnd (release_state req) (\<lambda>state.
     tx internal (release_body now (s_OrgID scope) itemID repoID runID agentID (z_Outcome req) state)))))))"

section \<open>Maintenance proposals\<close>

definition same_finding :: "uuid \<Rightarrow> uuid \<Rightarrow> string \<Rightarrow> proposal_row \<Rightarrow> bool" where
  "same_finding orgID repoID fingerprint m \<longleftrightarrow>
     m_OrgID m = orgID \<and> m_RepoID m = repoID \<and> m_Fingerprint m = fingerprint"

definition insert_proposal :: "proposal_row \<Rightarrow> workdb \<Rightarrow> sqlerr + (unit \<times> workdb)" where
  "insert_proposal m d =
     (if \<exists>q \<in> set (proposals d). same_finding (m_OrgID m) (m_RepoID m) (m_Fingerprint m) q then Inl UniqueViolation
      else if m_Item m \<notin> w_ID ` set (items d) then Inl ForeignKeyViolation
      else Inr ((), d\<lparr>proposals := proposals d @ [m]\<rparr>))"

definition update_proposals :: "(proposal_row \<Rightarrow> bool) \<Rightarrow> (proposal_row \<Rightarrow> proposal_row) \<Rightarrow> workdb \<Rightarrow> workdb" where
  "update_proposals P f d = d\<lparr>proposals := update_rows P f (proposals d)\<rparr>"

definition ProposeFinding :: "ctx \<Rightarrow> uuid \<Rightarrow> time \<Rightarrow> uuid \<Rightarrow> uuid \<Rightarrow> string \<Rightarrow> item \<Rightarrow> item work_op" where
  "ProposeFinding ctx new_id now orgID repoID fingerprint item0 =
     bnd (require_org ctx orgID) (\<lambda>_.
     if \<not> IsValidType (w_Type item0) then fail (App (InvalidType (w_Type item0)))
     else tx Sql (
       bnd (query Sql (\<lambda>d. List.find (same_finding orgID repoID fingerprint) (proposals d))) (\<lambda>row.
       case row of
         Some m \<Rightarrow> bnd (get_item orgID (m_Item m)) (\<lambda>it. ret (Abort it))
       | None \<Rightarrow>
           let it = item0\<lparr>w_ID := new_id, w_OrgID := orgID, w_RepoID := repoID\<rparr> in
           bnd (stmt Sql (insert_item now (it\<lparr>w_AssigneeID := uuid_Nil, w_AssigneeKind := '''', w_State := ''open''\<rparr>) None)) (\<lambda>r.
           bnd (stmt Sql (insert_proposal \<lparr>m_OrgID = orgID, m_RepoID = repoID, m_Fingerprint = fingerprint,
                  m_Item = w_ID it, m_ResolvedAt = None, m_Decision = None, m_DecidedBy = uuid_Nil,
                  m_DecidedAt = None, m_Reason = ''''\<rparr>)) (\<lambda>_.
           ret (Commit (it\<lparr>w_Key := w_Key r, w_State := w_State r, w_CreatedAt := w_CreatedAt r\<rparr>)))))))"

definition open_proposal :: "proposal_row \<Rightarrow> bool" where
  "open_proposal m \<longleftrightarrow> m_ResolvedAt m = None \<and> m_Decision m \<noteq> Some ''dismissed''"

definition OpenProposalFingerprints :: "ctx \<Rightarrow> uuid \<Rightarrow> uuid \<Rightarrow> (string \<rightharpoonup> uuid) work_op" where
  "OpenProposalFingerprints ctx orgID repoID =
     bnd (require_org ctx orgID) (\<lambda>_.
     query Sql (\<lambda>d. fold (\<lambda>m out. out(m_Fingerprint m \<mapsto> m_Item m))
       (filter (\<lambda>m. m_OrgID m = orgID \<and> m_RepoID m = repoID \<and> open_proposal m) (proposals d)) Map.empty))"

definition resolution_note :: "string \<Rightarrow> string" where
  "resolution_note note = [CHR 0x0A, CHR 0x0A] @ ''[resolved automatically] '' @ note"

definition ResolveProposal :: "ctx \<Rightarrow> time \<Rightarrow> uuid \<Rightarrow> uuid \<Rightarrow> string \<Rightarrow> string \<Rightarrow> unit work_op" where
  "ResolveProposal ctx now orgID repoID fingerprint note =
     bnd (require_org ctx orgID) (\<lambda>_.
     tx Sql (
       bnd (query Sql (\<lambda>d. List.find (\<lambda>m. same_finding orgID repoID fingerprint m \<and> open_proposal m) (proposals d))) (\<lambda>row.
       case row of
         None \<Rightarrow> ret (Abort ())
       | Some m \<Rightarrow>
           bnd (update Sql (\<lambda>d. ((), update_proposals (same_finding orgID repoID fingerprint)
                  (\<lambda>p. p\<lparr>m_ResolvedAt := Some now\<rparr>) d))) (\<lambda>_.
           bnd (stmt Sql (update_items now (\<lambda>r. w_ID r = m_Item m \<and> w_OrgID r = orgID \<and> w_Active r = None)
                  (\<lambda>r. r\<lparr>w_State := ''done'', w_Goal := w_Goal r @ resolution_note note\<rparr>))) (\<lambda>n.
           if n \<noteq> 1 then fail (App WorkHasActiveExecution) else ret (Commit ()))))))"

definition AwaitingApproval :: "ctx \<Rightarrow> uuid \<Rightarrow> bool work_op" where
  "AwaitingApproval ctx workItemID =
     bnd (from_context ctx) (\<lambda>scope.
     query Sql (\<lambda>d. \<exists>m \<in> set (proposals d). m_OrgID m = s_OrgID scope \<and> m_Item m = workItemID
       \<and> m_Decision m = None \<and> m_ResolvedAt m = None))"

definition decider :: "ctx \<Rightarrow> scope work_op" where
  "decider ctx =
     bnd (from_context ctx) (\<lambda>scope.
     if s_ActorKind scope \<noteq> ''user'' \<or> s_ActorID scope = uuid_Nil then fail (App ErrNotAPerson) else ret scope)"

definition decide :: "scope \<Rightarrow> uuid \<Rightarrow> string \<Rightarrow> (uuid \<Rightarrow> unit work_op) \<Rightarrow> proposal work_op" where
  "decide scope repoID fingerprint apply_fn =
     tx Sql (
       bnd (query Sql (\<lambda>d. List.find (same_finding (s_OrgID scope) repoID fingerprint) (proposals d))) (\<lambda>row.
       case row of
         None \<Rightarrow> fail (App ErrProposalNotFound)
       | Some m \<Rightarrow>
           if m_Decision m \<noteq> None \<or> m_ResolvedAt m \<noteq> None then fail (App ErrProposalDecided)
           else
             bnd (apply_fn (m_Item m)) (\<lambda>_.
             bnd (query Sql (proposal_join (same_finding (s_OrgID scope) repoID fingerprint))) (\<lambda>rows.
             case rows of
               [] \<Rightarrow> fail (App ProposalRowGone)
             | mw # _ \<Rightarrow> ret (Commit (scanProposal (fst mw) (snd mw)))))))"

definition ApproveProposal :: "ctx \<Rightarrow> time \<Rightarrow> uuid \<Rightarrow> string \<Rightarrow> uuid \<Rightarrow> string \<Rightarrow> proposal work_op" where
  "ApproveProposal ctx now repoID fingerprint assigneeID0 assigneeKind0 =
     bnd (decider ctx) (\<lambda>scope.
     let assigneeID = (if assigneeID0 = uuid_Nil then s_ActorID scope else assigneeID0);
         assigneeKind = (if assigneeID0 = uuid_Nil then ''user'' else assigneeKind0) in
     if assigneeKind \<noteq> ''user'' \<and> assigneeKind \<noteq> ''agent'' then fail (App (InvalidKind assigneeKind))
     else decide scope repoID fingerprint (\<lambda>workItemID.
       bnd (update Sql (\<lambda>d. ((), update_proposals (same_finding (s_OrgID scope) repoID fingerprint)
              (\<lambda>p. p\<lparr>m_Decision := Some ''approved'', m_DecidedBy := s_ActorID scope, m_DecidedAt := Some now\<rparr>) d))) (\<lambda>_.
       bnd (stmt Sql (update_items now (\<lambda>r. w_OrgID r = s_OrgID scope \<and> w_ID r = workItemID)
              (\<lambda>r. r\<lparr>w_AssigneeID := assigneeID, w_AssigneeKind := assigneeKind\<rparr>))) (\<lambda>_.
       ret ()))))"

text \<open>\<open>strings.TrimSpace\<close>, for the ASCII white space.\<close>

definition is_space :: "char \<Rightarrow> bool" where
  "is_space c \<longleftrightarrow> c \<in> {CHR 0x09, CHR 0x0A, CHR 0x0B, CHR 0x0C, CHR 0x0D, CHR 0x20}"

definition TrimSpace :: "string \<Rightarrow> string" where
  "TrimSpace s = rev (dropWhile is_space (rev (dropWhile is_space s)))"

definition DismissProposal :: "ctx \<Rightarrow> uuid \<Rightarrow> time \<Rightarrow> uuid \<Rightarrow> string \<Rightarrow> string \<Rightarrow> proposal work_op" where
  "DismissProposal ctx new_id now repoID fingerprint reason0 =
     bnd (decider ctx) (\<lambda>scope.
     let reason = TrimSpace reason0 in
     if reason = '''' then fail (App DismissalNeedsReason)
     else decide scope repoID fingerprint (\<lambda>workItemID.
       bnd (update Sql (\<lambda>d. ((), update_proposals (same_finding (s_OrgID scope) repoID fingerprint)
              (\<lambda>p. p\<lparr>m_Decision := Some ''dismissed'', m_DecidedBy := s_ActorID scope, m_DecidedAt := Some now,
                       m_Reason := reason\<rparr>) d))) (\<lambda>_.
       bnd (stmt Sql (update_items now (\<lambda>r. w_OrgID r = s_OrgID scope \<and> w_ID r = workItemID)
              (\<lambda>r. r\<lparr>w_State := ''done''\<rparr>))) (\<lambda>_.
       stmt Sql (insert_comment
         \<lparr>c_ID = new_id, c_OrgID = s_OrgID scope, c_WorkItemID = workItemID, c_AuthorID = s_ActorID scope,
          c_AuthorKind = ''user'', c_Body = ''Maintenance proposal dismissed: '' @ reason, c_CreatedAt = now\<rparr>)))))"

definition isMaintenanceProposal :: "ctx \<Rightarrow> uuid \<Rightarrow> bool work_op" where
  "isMaintenanceProposal ctx iid =
     bnd (from_context ctx) (\<lambda>scope. query Sql (is_proposal (s_OrgID scope) iid))"

section \<open>Reading and editing items over the wire\<close>

text \<open>A request of \<open>GetItem\<close>: the identifier when one is given, else the key.\<close>

record get_request =
  y_Id :: "uuid option option"
  y_Key :: string

definition to_status :: "grpc_code \<Rightarrow> (workdb, workerr fault, 'a) op \<Rightarrow> 'a work_op" where
  "to_status c m = wrap (\<lambda>_. App (Status c)) m"

definition GetItem :: "ctx \<Rightarrow> get_request \<Rightarrow> proto_item work_op" where
  "GetItem ctx req =
     bnd (callerOrg ctx) (\<lambda>orgID.
     bnd (case y_Id req of
            Some raw \<Rightarrow> bnd (parseUUID raw) (\<lambda>iid. to_status NotFound (get_item orgID iid))
          | None \<Rightarrow>
              if y_Key req \<noteq> '''' then to_status NotFound (GetByKey ctx orgID (y_Key req))
              else fail (App (Status InvalidArgument))) (\<lambda>it.
     if w_OrgID it \<noteq> orgID then fail (App (Status PermissionDenied))
     else
       bnd (to_status Internal (AwaitingApproval ctx (w_ID it))) (\<lambda>awaiting.
       bnd (to_status Internal (isMaintenanceProposal ctx (w_ID it))) (\<lambda>maintenance.
       ret ((toProtoItem it)\<lparr>t_AwaitingApproval := awaiting, t_MaintenanceProposal := maintenance\<rparr>)))))"

definition humanEditor :: "ctx \<Rightarrow> scope work_op" where
  "humanEditor ctx =
     (case FromContext ctx of
        Inl _ \<Rightarrow> fail (App (Status PermissionDenied))
      | Inr scope \<Rightarrow>
          if s_OrgID scope = uuid_Nil \<or> s_ActorID scope = uuid_Nil \<or> s_ActorKind scope \<noteq> ''user''
          then fail (App (Status PermissionDenied)) else ret scope)"

text \<open>The editable values of an item.\<close>

record item_values =
  v_Type :: string
  v_Goal :: string
  v_Acceptance :: "string list"
  v_Constraints :: "string list"
  v_RequiredGates :: "string list"

record patch_request =
  k_Id :: "uuid option"
  k_RepoId :: "uuid option"
  k_Values :: "item_values option"
  k_Expected :: "item_values option"
  k_UpdateMask :: "string list"

definition editable_fields :: "string list" where
  "editable_fields = [''type'', ''goal'', ''acceptance'', ''constraints'', ''required_gates'']"

definition apply_patch :: "string list \<Rightarrow> item_values \<Rightarrow> item_row \<Rightarrow> item_row" where
  "apply_patch paths v r =
     r\<lparr>w_Type := (if ''type'' \<in> set paths then v_Type v else w_Type r),
       w_Goal := (if ''goal'' \<in> set paths then v_Goal v else w_Goal r),
       w_Acceptance := (if ''acceptance'' \<in> set paths then v_Acceptance v else w_Acceptance r),
       w_Constraints := (if ''constraints'' \<in> set paths then v_Constraints v else w_Constraints r),
       w_RequiredGates := (if ''required_gates'' \<in> set paths then v_RequiredGates v else w_RequiredGates r)\<rparr>"

definition values_of :: "item_row \<Rightarrow> item_values" where
  "values_of r = \<lparr>v_Type = w_Type r, v_Goal = w_Goal r, v_Acceptance = w_Acceptance r,
     v_Constraints = w_Constraints r, v_RequiredGates = w_RequiredGates r\<rparr>"

definition PatchItem :: "ctx \<Rightarrow> time \<Rightarrow> patch_request \<Rightarrow> proto_item work_op" where
  "PatchItem ctx now req =
     bnd (humanEditor ctx) (\<lambda>scope.
     bnd (parseUUID (k_Id req)) (\<lambda>iid.
     bnd (parseUUID (k_RepoId req)) (\<lambda>repo.
     case (k_Values req, k_Expected req) of
       (Some v, Some old) \<Rightarrow>
         if k_UpdateMask req = [] then fail (App (Status InvalidArgument))
         else if \<not> set (k_UpdateMask req) \<subseteq> set editable_fields then fail (App (Status InvalidArgument))
         else if ''type'' \<in> set (k_UpdateMask req) \<and> \<not> IsValidType (v_Type v) then fail (App (Status InvalidArgument))
         else if ''goal'' \<in> set (k_UpdateMask req) \<and> TrimSpace (v_Goal v) = '''' then fail (App (Status InvalidArgument))
         else if \<not> list_all Known (v_RequiredGates v) then fail (App (Status InvalidArgument))
         else
           bnd (stmt internal (\<lambda>d. update_items now (\<lambda>r. w_OrgID r = s_OrgID scope \<and> w_RepoID r = repo \<and> w_ID r = iid
                  \<and> w_State r = ''open'' \<and> \<not> w_ExecutionClaimed r \<and> \<not> is_proposal (w_OrgID r) (w_ID r) d
                  \<and> values_of r = old) (apply_patch (k_UpdateMask req) v) d)) (\<lambda>n.
           if n \<noteq> 1 then fail (App (Status Aborted))
           else GetItem ctx \<lparr>y_Id = Some (Some iid), y_Key = ''''\<rparr>)
     | _ \<Rightarrow> fail (App (Status InvalidArgument)))))"

record transition_request =
  j_Id :: "uuid option"
  j_RepoId :: "uuid option"
  j_ExpectedState :: string
  j_ToState :: string

definition TransitionItem :: "ctx \<Rightarrow> time \<Rightarrow> transition_request \<Rightarrow> proto_item work_op" where
  "TransitionItem ctx now req =
     bnd (humanEditor ctx) (\<lambda>scope.
     bnd (parseUUID (j_Id req)) (\<lambda>iid.
     bnd (parseUUID (j_RepoId req)) (\<lambda>repo.
     if \<not> (j_ExpectedState req = ''open'' \<and> j_ToState req = ''blocked''
           \<or> j_ExpectedState req = ''blocked'' \<and> j_ToState req = ''open'')
     then fail (App (Status InvalidArgument))
     else
       bnd (stmt internal (\<lambda>d. update_items now (\<lambda>r. w_OrgID r = s_OrgID scope \<and> w_RepoID r = repo \<and> w_ID r = iid
              \<and> w_State r = j_ExpectedState req \<and> \<not> w_ExecutionClaimed r \<and> w_AssigneeKind r \<noteq> ''agent''
              \<and> \<not> is_proposal (w_OrgID r) (w_ID r) d) (\<lambda>r. r\<lparr>w_State := j_ToState req\<rparr>) d)) (\<lambda>n.
       if n \<noteq> 1 then fail (App (Status Aborted))
       else GetItem ctx \<lparr>y_Id = Some (Some iid), y_Key = ''''\<rparr>))))"

section \<open>Deletion\<close>

definition purgeOrg :: "ctx \<Rightarrow> uuid work_op" where
  "purgeOrg ctx =
     (case FromContext ctx of
        Inl _ \<Rightarrow> fail (App NoPurgeScope)
      | Inr scope \<Rightarrow> if s_OrgID scope = uuid_Nil then fail (App NoPurgeScope) else ret (s_OrgID scope))"

definition doomed :: "uuid \<Rightarrow> uuid option \<Rightarrow> item_row \<Rightarrow> bool" where
  "doomed orgID repoID r \<longleftrightarrow> w_OrgID r = orgID \<and> (case repoID of None \<Rightarrow> True | Some u \<Rightarrow> w_RepoID r = u)"

text \<open>
  \<open>DELETE FROM work.work_items\<close>: a parent link of a row that stays refuses it, every other
  reference to a deleted row is deleted with it (\<open>ON DELETE CASCADE\<close>).
\<close>

definition delete_items :: "(item_row \<Rightarrow> bool) \<Rightarrow> workdb \<Rightarrow> sqlerr + (nat \<times> workdb)" where
  "delete_items P d =
     (let gone = w_ID ` set (filter P (items d)) in
      if \<exists>r \<in> set (items d). \<not> P r \<and> (case w_Parent r of None \<Rightarrow> False | Some p \<Rightarrow> p \<in> gone) then Inl ForeignKeyViolation
      else Inr (affected P (items d),
        d\<lparr>items := filter (\<lambda>r. \<not> P r) (items d),
          comments := filter (\<lambda>c. c_WorkItemID c \<notin> gone) (comments d),
          deps := filter (\<lambda>e. fst e \<notin> gone \<and> snd e \<notin> gone) (deps d),
          subtasks := filter (\<lambda>e. e_Parent e \<notin> gone \<and> e_Item e \<notin> gone) (subtasks d),
          proposals := filter (\<lambda>m. m_Item m \<notin> gone) (proposals d),
          claims := filter (\<lambda>x. x_Item x \<notin> gone) (claims d)\<rparr>))"

definition purge :: "time \<Rightarrow> uuid \<Rightarrow> uuid option \<Rightarrow> nat work_op" where
  "purge now orgID repoID =
     tx Sql (
       bnd (stmt Sql (\<lambda>d. update_items now (\<lambda>r. w_OrgID r = orgID \<and>
              (case w_Parent r of None \<Rightarrow> False | Some p \<Rightarrow> p \<in> w_ID ` set (filter (doomed orgID repoID) (items d))))
              (\<lambda>r. r\<lparr>w_Parent := None\<rparr>) d)) (\<lambda>_.
       bnd (update Sql (\<lambda>d. ((), d\<lparr>proposals := filter (\<lambda>m. \<not> (m_OrgID m = orgID
              \<and> (case repoID of None \<Rightarrow> True | Some u \<Rightarrow> m_RepoID m = u))) (proposals d)\<rparr>))) (\<lambda>_.
       bnd (stmt Sql (delete_items (doomed orgID repoID))) (\<lambda>n.
       ret (Commit n)))))"

definition PurgeRepository :: "ctx \<Rightarrow> time \<Rightarrow> uuid \<Rightarrow> nat work_op" where
  "PurgeRepository ctx now repoID = bnd (purgeOrg ctx) (\<lambda>orgID. purge now orgID (Some repoID))"

definition PurgeOrganization :: "ctx \<Rightarrow> time \<Rightarrow> nat work_op" where
  "PurgeOrganization ctx now = bnd (purgeOrg ctx) (\<lambda>orgID. purge now orgID None)"

end
