(* ===== verification/NF_WorkSteps.thy ===== *)
theory NF_WorkSteps
  imports NF_WorkExec
begin

text \<open>
  The contract of the work service as a step relation: \<open>work_step\<close> lists the ways a
  committed operation may change the tables, with the guard each change is under. Every
  operation, whatever statements of it fail, takes the tables along such steps only
  (\<open>work_run_steps\<close>, \<open>purge_run_steps\<close>), so an invariant is proved on the steps.
\<close>

section \<open>The recursive query\<close>

lemma set_step_ids: "set (step_ids E seen working) = {y. \<exists>x \<in> set working. (x, y) \<in> set E} - set seen"
  by (force simp: step_ids_def)

lemma recursive_union_props:
  assumes "set working \<subseteq> set seen" and "\<And>x y. x \<in> set seen - set working \<Longrightarrow> (x, y) \<in> set E \<Longrightarrow> y \<in> set seen"
  shows "set seen \<subseteq> set (recursive_union E seen working)
    \<and> (\<forall>x y. x \<in> set (recursive_union E seen working) \<and> (x, y) \<in> set E \<longrightarrow> y \<in> set (recursive_union E seen working))
    \<and> (\<forall>y \<in> set (recursive_union E seen working). y \<in> set seen \<or> (\<exists>x \<in> set working. (x, y) \<in> (set E)\<^sup>+))"
  using assms
proof (induction E seen working rule: recursive_union.induct)
  case (1 E seen working)
  note step = set_step_ids[of E seen working]
  show ?case
  proof (cases "step_ids E seen working")
    case Nil
    with step have "{y. \<exists>x \<in> set working. (x, y) \<in> set E} \<subseteq> set seen" by auto
    with 1(3) have "y \<in> set seen" if "x \<in> set seen" "(x, y) \<in> set E" for x y
      using that by (cases "x \<in> set working") auto
    then show ?thesis by (simp add: recursive_union.simps[of E seen working] Nil) blast
  next
    case (Cons y ys)
    let ?new = "y # ys"
    have new: "set ?new = {y. \<exists>x \<in> set working. (x, y) \<in> set E} - set seen" using step Cons by simp
    have eq: "recursive_union E seen working = recursive_union E (seen @ ?new) ?new"
      by (simp add: recursive_union.simps[of E seen working] Cons)
    have ih: "set (seen @ ?new) \<subseteq> set (recursive_union E (seen @ ?new) ?new)
      \<and> (\<forall>x y. x \<in> set (recursive_union E (seen @ ?new) ?new) \<and> (x, y) \<in> set E \<longrightarrow> y \<in> set (recursive_union E (seen @ ?new) ?new))
      \<and> (\<forall>z \<in> set (recursive_union E (seen @ ?new) ?new). z \<in> set (seen @ ?new) \<or> (\<exists>x \<in> set ?new. (x, z) \<in> (set E)\<^sup>+))"
    proof (rule 1(1)[OF Cons])
      fix a b assume "a \<in> set (seen @ ?new) - set ?new" "(a, b) \<in> set E"
      then show "b \<in> set (seen @ ?new)" using 1(3)[of a b] new by (cases "a \<in> set working") auto
    qed auto
    have "\<exists>x \<in> set working. (x, z) \<in> (set E)\<^sup>+" if v: "v \<in> set ?new" and vz: "v = z \<or> (v, z) \<in> (set E)\<^sup>+" for v z
    proof -
      obtain x where "x \<in> set working" "(x, v) \<in> set E" using v unfolding new by blast
      with vz show ?thesis by (meson trancl.r_into_trancl trancl_into_trancl2)
    qed
    with ih show ?thesis unfolding eq by (metis Un_iff le_sup_iff set_append)
  qed
qed

lemma set_ancestors: "set (ancestors E x) = {y. (x, y) \<in> (set E)\<^sup>+}"
proof -
  let ?base = "step_ids E [] [x]"
  have base: "set ?base = {y. (x, y) \<in> set E}" using set_step_ids[of E "[]" "[x]"] by simp
  have p: "set ?base \<subseteq> set (ancestors E x)
    \<and> (\<forall>a b. a \<in> set (ancestors E x) \<and> (a, b) \<in> set E \<longrightarrow> b \<in> set (ancestors E x))
    \<and> (\<forall>b \<in> set (ancestors E x). b \<in> set ?base \<or> (\<exists>a \<in> set ?base. (a, b) \<in> (set E)\<^sup>+))"
    unfolding ancestors_def Let_def by (rule recursive_union_props) auto
  have "y \<in> set (ancestors E x)" if "(x, y) \<in> (set E)\<^sup>+" for y
    using that by (induction rule: trancl_induct) (use p base in auto)
  moreover have "(x, y) \<in> (set E)\<^sup>+" if "y \<in> set (ancestors E x)" for y
    using that p base by (metis mem_Collect_eq trancl.r_into_trancl trancl_into_trancl2)
  ultimately show ?thesis by auto
qed

lemma acyclic_insert_dep:
  "acyclic (set E) \<Longrightarrow> a \<noteq> b \<Longrightarrow> a \<notin> set (ancestors E b) \<Longrightarrow> acyclic (insert (a, b) (set E))"
  by (auto simp: set_ancestors acyclic_insert rtrancl_eq_or_trancl)

section \<open>Steps\<close>

text \<open>
  What a committed change of the work tables can be. An edit keeps an item's identity and its
  claim, and changes the state only of an item nobody executes.
\<close>

definition edits :: "(item_row \<Rightarrow> bool) \<Rightarrow> (item_row \<Rightarrow> item_row) \<Rightarrow> bool" where
  "edits P f \<longleftrightarrow> (\<forall>r. P r \<longrightarrow> w_ID (f r) = w_ID r \<and> w_OrgID (f r) = w_OrgID r \<and> w_Key (f r) = w_Key r
     \<and> w_Seq (f r) = w_Seq r \<and> w_Active (f r) = w_Active r \<and> w_ExecutionClaimed (f r) = w_ExecutionClaimed r
     \<and> w_DoneAt (f r) = w_DoneAt r \<and> (w_State (f r) = w_State r \<or> w_Active r = None \<or> \<not> w_ExecutionClaimed r))"

definition same_item :: "uuid \<Rightarrow> uuid \<Rightarrow> item_row \<Rightarrow> bool" where
  "same_item orgID iid r \<longleftrightarrow> w_OrgID r = orgID \<and> w_ID r = iid"

definition same_claim :: "uuid \<Rightarrow> uuid \<Rightarrow> claim_row \<Rightarrow> bool" where
  "same_claim orgID runID x \<longleftrightarrow> x_OrgID x = orgID \<and> x_RunID x = runID"

definition decision_of :: "(proposal_row \<Rightarrow> proposal_row) \<Rightarrow> bool" where
  "decision_of f \<longleftrightarrow> (\<forall>m. m_OrgID (f m) = m_OrgID m \<and> m_RepoID (f m) = m_RepoID m
     \<and> m_Fingerprint (f m) = m_Fingerprint m \<and> m_Item (f m) = m_Item m \<and> m_ResolvedAt (f m) = m_ResolvedAt m
     \<and> m_Decision (f m) \<noteq> None)"

inductive work_step :: "workdb \<Rightarrow> workdb \<Rightarrow> bool" where
  Insert: "insert_item now it parent d = Inr (r, d') \<Longrightarrow> work_step d d'"
| Edit: "update_items now P f d = Inr (n, d') \<Longrightarrow> edits P f \<Longrightarrow> work_step d d'"
| Comment: "insert_comment c d = Inr (u, d') \<Longrightarrow> work_step d d'"
| Subtask: "insert_subtask e d = Inr (u, d') \<Longrightarrow> work_step d d'"
| Depend: "insert_dep a b d = Inr (u, d') \<Longrightarrow> a \<notin> set (ancestors (deps d) b) \<Longrightarrow> work_step d d'"
| Propose: "insert_proposal m d = Inr (u, d') \<Longrightarrow> m_Decision m = None \<Longrightarrow>
    (\<And>r. r \<in> set (items d) \<Longrightarrow> w_ID r = m_Item m \<Longrightarrow> w_Active r = None) \<Longrightarrow> work_step d d'"
| Decide: "List.find (same_finding orgID repoID fp) (proposals d) = Some m \<Longrightarrow>
    m_Decision m = None \<Longrightarrow> m_ResolvedAt m = None \<Longrightarrow> decision_of g \<Longrightarrow>
    update_items now (same_item orgID (m_Item m)) f (update_proposals (same_finding orgID repoID fp) g d) = Inr (n, d') \<Longrightarrow>
    f = (\<lambda>r. r\<lparr>w_AssigneeID := who, w_AssigneeKind := kind\<rparr>) \<or> f = (\<lambda>r. r\<lparr>w_State := ''done''\<rparr>) \<Longrightarrow>
    work_step d d'"
| Resolve: "List.find (\<lambda>m. same_finding orgID repoID fp m \<and> open_proposal m) (proposals d) = Some m \<Longrightarrow>
    update_items now (\<lambda>r. w_ID r = m_Item m \<and> w_OrgID r = orgID \<and> w_Active r = None)
      (\<lambda>r. r\<lparr>w_State := ''done'', w_Goal := w_Goal r @ resolution_note note\<rparr>)
      (update_proposals (same_finding orgID repoID fp) (\<lambda>p. p\<lparr>m_ResolvedAt := Some now\<rparr>) d) = Inr (1, d') \<Longrightarrow>
    work_step d d'"
| Claim: "r \<in> set (items d) \<Longrightarrow> same_item (x_OrgID x) (x_Item x) r \<Longrightarrow> w_State r = ''open'' \<Longrightarrow> w_Active r = None \<Longrightarrow>
    \<not> unapproved (x_OrgID x) (x_Item x) d \<Longrightarrow> \<not> blocked (x_OrgID x) (x_Item x) d \<Longrightarrow> x_Outcome x = None \<Longrightarrow>
    insert_claim x d = Inr (u, d1) \<Longrightarrow>
    update_items now (same_item (x_OrgID x) (x_Item x))
      (\<lambda>r. r\<lparr>w_State := ''in_progress'', w_ExecutionClaimed := True, w_Active := Some (x_RunID x)\<rparr>) d1 = Inr (n, d') \<Longrightarrow>
    work_step d d'"
| Fence: "insert_claim x d = Inr (u, d') \<Longrightarrow> x_Outcome x \<noteq> None \<Longrightarrow> work_step d d'"
| Release: "r \<in> set (items d) \<Longrightarrow> same_item (x_OrgID x) (x_Item x) r \<Longrightarrow> w_Active r = Some (x_RunID x) \<Longrightarrow>
    find_claim (x_OrgID x) (x_RunID x) d = Some x \<Longrightarrow> x_Outcome x = None \<Longrightarrow>
    update_claims (same_claim (x_OrgID x) (x_RunID x)) (\<lambda>y. y\<lparr>x_Outcome := Some result, x_ReleasedAt := Some now\<rparr>) d
      = Inr (u, d1) \<Longrightarrow>
    update_items now (same_item (x_OrgID x) (x_Item x)) (\<lambda>r. r\<lparr>w_State := state, w_Active := None\<rparr>) d1 = Inr (n, d') \<Longrightarrow>
    work_step d d'"

text \<open>Deleting a repository or an organization takes two more kinds of step.\<close>

inductive purge_step :: "workdb \<Rightarrow> workdb \<Rightarrow> bool" where
  Work: "work_step d d' \<Longrightarrow> purge_step d d'"
| Forget: "d' = d\<lparr>proposals := filter Q (proposals d)\<rparr> \<Longrightarrow> purge_step d d'"
| Delete: "delete_items P d = Inr (n, d') \<Longrightarrow> purge_step d d'"

section \<open>The commands\<close>

datatype work_cmd =
    DoCreate uuid time item
  | DoAssign ctx time uuid uuid string
  | DoComment ctx uuid time uuid string
  | DoSetParent ctx time uuid uuid
  | DoSetState ctx time uuid string
  | DoTransition ctx time uuid string string
  | DoClaimOpen ctx time uuid
  | DoDepend ctx uuid uuid
  | DoChild ctx uuid time uuid string string item
  | DoClaim "proto_item \<Rightarrow> string option" "string \<Rightarrow> proto_item option" ctx time claim_request
  | DoRelease ctx time release_request
  | DoPropose ctx uuid time uuid uuid string item
  | DoResolveProposal ctx time uuid uuid string string
  | DoApprove ctx time uuid string uuid string
  | DoDismiss ctx uuid time uuid string string
  | DoPatch ctx time patch_request
  | DoMove ctx time transition_request

datatype purge_cmd =
    Do work_cmd
  | DoPurgeRepository ctx time uuid
  | DoPurgeOrganization ctx time

definition discard :: "'a work_op \<Rightarrow> unit work_op" where
  "discard m = bnd m (\<lambda>_. ret ())"

fun work_run :: "work_cmd \<Rightarrow> unit work_op" where
  "work_run (DoCreate new_id now it) = discard (Create new_id now it)"
| "work_run (DoAssign ctx now iid who kind) = Assign ctx now iid who kind"
| "work_run (DoComment ctx new_id now iid body) = discard (AddComment ctx new_id now iid body)"
| "work_run (DoSetParent ctx now iid p) = SetParent ctx now iid p"
| "work_run (DoSetState ctx now iid s) = SetState ctx now iid s"
| "work_run (DoTransition ctx now iid s t) = discard (TransitionState ctx now iid s t)"
| "work_run (DoClaimOpen ctx now iid) = discard (ClaimOpen ctx now iid)"
| "work_run (DoDepend ctx a b) = AddDependency ctx a b"
| "work_run (DoChild ctx new_id now epic key role it) = discard (CreateChild ctx new_id now epic key role it)"
| "work_run (DoClaim mar unm ctx now req) = discard (ClaimExecution mar unm ctx now req)"
| "work_run (DoRelease ctx now req) = ReleaseExecution ctx now req"
| "work_run (DoPropose ctx new_id now org repo fp it) = discard (ProposeFinding ctx new_id now org repo fp it)"
| "work_run (DoResolveProposal ctx now org repo fp note) = ResolveProposal ctx now org repo fp note"
| "work_run (DoApprove ctx now repo fp who kind) = discard (ApproveProposal ctx now repo fp who kind)"
| "work_run (DoDismiss ctx new_id now repo fp reason) = discard (DismissProposal ctx new_id now repo fp reason)"
| "work_run (DoPatch ctx now req) = discard (PatchItem ctx now req)"
| "work_run (DoMove ctx now req) = discard (TransitionItem ctx now req)"

fun purge_run :: "purge_cmd \<Rightarrow> unit work_op" where
  "purge_run (Do c) = work_run c"
| "purge_run (DoPurgeRepository ctx now repo) = discard (PurgeRepository ctx now repo)"
| "purge_run (DoPurgeOrganization ctx now) = discard (PurgeOrganization ctx now)"

definition work_exec :: "work_cmd \<times> bool list \<Rightarrow> workdb \<Rightarrow> workdb" where
  "work_exec c d = fst (snd (work_run (fst c) (d, snd c)))"

definition purge_exec :: "purge_cmd \<times> bool list \<Rightarrow> workdb \<Rightarrow> workdb" where
  "purge_exec c d = fst (snd (purge_run (fst c) (d, snd c)))"

section \<open>Every operation takes steps\<close>

interpretation step_frame: db_frame "work_step\<^sup>*\<^sup>*"
  by unfold_locales auto

lemmas step_rules = step_frame.frame_rules step_frame.frame_from_context step_frame.frame_require_org

lemma steps_Edit: "update_items now P f d = Inr (n, d') \<Longrightarrow> edits P f \<Longrightarrow> work_step\<^sup>*\<^sup>* d d'"
  by (blast intro: work_step.Edit)

lemma within_discard: "within work_step\<^sup>*\<^sup>* m \<Longrightarrow> within work_step\<^sup>*\<^sup>* (discard m)"
  unfolding discard_def by (intro step_rules)

lemma within_get_item: "within work_step\<^sup>*\<^sup>* (get_item org iid)"
  unfolding get_item_def by (intro step_rules)

lemma within_GetByKey: "within work_step\<^sup>*\<^sup>* (GetByKey ctx org key)"
  unfolding GetByKey_def by (intro step_rules)

lemma within_parse:
  "within work_step\<^sup>*\<^sup>* (parseUUID raw)" "within work_step\<^sup>*\<^sup>* (callerOrg ctx)"
  "within work_step\<^sup>*\<^sup>* (humanEditor ctx)" "within work_step\<^sup>*\<^sup>* (executionOwner ctx)"
  "within work_step\<^sup>*\<^sup>* (purgeOrg ctx)" "within work_step\<^sup>*\<^sup>* (decider ctx)"
  "within work_step\<^sup>*\<^sup>* (executionID raw)" "within work_step\<^sup>*\<^sup>* (release_state req)"
  by (auto simp: parseUUID_def callerOrg_def humanEditor_def executionOwner_def purgeOrg_def decider_def
      executionID_def release_state_def intro!: step_rules split: option.split sum.split)

lemma within_GetItem: "within work_step\<^sup>*\<^sup>* (GetItem ctx req)"
  unfolding GetItem_def to_status_def AwaitingApproval_def isMaintenanceProposal_def
  by (intro step_rules within_parse within_get_item within_GetByKey)

lemma within_Create: "within work_step\<^sup>*\<^sup>* (Create new_id now it)"
  unfolding Create_def Let_def by (intro step_rules) (blast intro: work_step.Insert)

lemma within_edits:
  "within work_step\<^sup>*\<^sup>* (Assign ctx now iid who kind)"
  "within work_step\<^sup>*\<^sup>* (SetParent ctx now iid p)"
  "within work_step\<^sup>*\<^sup>* (SetState ctx now iid s)"
  "within work_step\<^sup>*\<^sup>* (TransitionState ctx now iid s t)"
  "within work_step\<^sup>*\<^sup>* (ClaimOpen ctx now iid)"
  unfolding Assign_def SetParent_def SetState_def TransitionState_def ClaimOpen_def
  by (intro step_rules; erule steps_Edit; simp add: edits_def)+

lemma within_AddComment: "within work_step\<^sup>*\<^sup>* (AddComment ctx new_id now iid body)"
  unfolding AddComment_def Let_def by (intro step_rules within_get_item) (blast intro: work_step.Comment)

lemma get_item_Inr [run_simps]:
  "get_item org iid w = (Inr it, w') \<longleftrightarrow> \<not> faulty w \<and> w' = (fst w, tl (snd w)) \<and>
     (\<exists>r. List.find (\<lambda>r. w_OrgID r = org \<and> w_ID r = iid) (items (fst w)) = Some r \<and> it = scan_item r)"
  by (auto simp: get_item_def run_simps split: option.splits)

lemma within_AddDependency: "within work_step\<^sup>*\<^sup>* (AddDependency ctx a b)"
proof (rule withinI)
  fix w
  obtain r w' where run: "AddDependency ctx a b w = (r, w')" by (cases "AddDependency ctx a b w")
  have check: "within work_step\<^sup>*\<^sup>* (check_dependency ctx a b)"
    unfolding check_dependency_def by (intro step_rules within_get_item)
  have "work_step\<^sup>*\<^sup>* (fst w) (fst w')"
  proof (cases r)
    case (Inl e)
    then show ?thesis
      using run by (auto simp: AddDependency_def add_edge_def run_simps dest!: within_run[OF check])
  next
    case (Inr u)
    obtain w1 where c: "check_dependency ctx a b w = (Inr (), w1)"
      and i: "insert_dep a b (fst w1) = Inr ((), fst w')"
      using run Inr by (auto simp: AddDependency_def add_edge_def run_simps)
    have "fst w1 = fst w \<and> a \<notin> set (ancestors (deps (fst w)) b)"
      using c by (auto simp: check_dependency_def run_simps split: if_splits)
    with i show ?thesis by (auto intro: work_step.Depend)
  qed
  with run show "work_step\<^sup>*\<^sup>* (fst w) (fst (snd (AddDependency ctx a b w)))" by simp
qed


lemma within_CreateChild: "within work_step\<^sup>*\<^sup>* (CreateChild ctx new_id now epic key role it)"
  unfolding CreateChild_def Let_def
  by (intro step_rules within_get_item) (blast intro: work_step.Insert work_step.Subtask)+

lemma lock_item_Inr [run_simps]:
  "lock_item org repo iid w = (Inr r, w') \<longleftrightarrow> \<not> faulty w \<and> w' = (fst w, tl (snd w)) \<and>
     List.find (\<lambda>r. w_OrgID r = org \<and> w_RepoID r = repo \<and> w_ID r = iid) (items (fst w)) = Some r"
  by (auto simp: lock_item_def run_simps split: option.splits)

lemma find_item_Some:
  "List.find (\<lambda>r. w_OrgID r = org \<and> w_RepoID r = repo \<and> w_ID r = iid) rs = Some r \<Longrightarrow>
     r \<in> set rs \<and> same_item org iid r \<and> w_RepoID r = repo"
  by (auto simp: same_item_def dest: find_Some_in)

lemma find_claim_Some: "find_claim org run d = Some x \<Longrightarrow> x \<in> set (claims d) \<and> x_OrgID x = org \<and> x_RunID x = run"
  by (auto simp: find_claim_def dest: find_Some_in)

lemma claim_body_commit:
  assumes "claim_body mar unm now org iid repo run agent sponsor w = (Inr (Commit frozen), w')"
  obtains r intent d1 n where "List.find (\<lambda>r. w_OrgID r = org \<and> w_RepoID r = repo \<and> w_ID r = iid) (items (fst w)) = Some r"
    and "find_claim org run (fst w) = None" and "w_State r = ''open''" and "w_Active r = None"
    and "\<not> unapproved org iid (fst w)" and "\<not> blocked org iid (fst w)"
    and "frozen = frozen_intent (is_proposal org iid (fst w)) r"
    and "mar (frozen_intent (is_proposal org iid (fst w)) r) = Some intent"
    and "insert_claim \<lparr>x_OrgID = org, x_RunID = run, x_Item = iid, x_RepoID = repo, x_AgentID = agent,
           x_SponsorID = Some sponsor, x_Intent = Some intent, x_Outcome = None, x_ReleasedAt = None\<rparr> (fst w) = Inr ((), d1)"
    and "update_items now (same_item org iid)
      (\<lambda>r. r\<lparr>w_State := ''in_progress'', w_ExecutionClaimed := True, w_Active := Some run\<rparr>) d1 = Inr (n, fst w')"
proof -
  have none: "find_claim org run (fst w) = None"
    using assms by (cases "find_claim org run (fst w)")
      (auto simp: claim_body_def run_simps split: if_split_asm option.split_asm)
  obtain r where r: "List.find (\<lambda>r. w_OrgID r = org \<and> w_RepoID r = repo \<and> w_ID r = iid) (items (fst w)) = Some r"
    using assms by (auto simp: claim_body_def run_simps)
  let ?frozen = "frozen_intent (is_proposal org iid (fst w)) r"
  obtain intent where i: "mar ?frozen = Some intent"
    using assms by (cases "mar ?frozen")
      (auto simp: claim_body_def run_simps Let_def r none split: if_split_asm)
  show thesis
    using assms that[OF r none]
    by (auto simp: claim_body_def run_simps Let_def r none i same_item_def[abs_def] split: if_split_asm)
qed

lemma within_ClaimExecution: "within work_step\<^sup>*\<^sup>* (ClaimExecution mar unm ctx now req)"
  unfolding ClaimExecution_def
proof (intro step_frame.frame_bnd within_parse step_frame.frame_tx_commit)
  fix scope iid repo run agent sponsor w a w1
  assume "claim_body mar unm now (s_OrgID scope) iid repo run agent sponsor w = (Inr (Commit a), w1)"
  then show "work_step\<^sup>*\<^sup>* (fst w) (fst w1)"
    by (rule claim_body_commit) (rule r_into_rtranclp, rule work_step.Claim, auto dest: find_item_Some)
qed

lemma release_body_commit:
  assumes "release_body now org iid repo run agent result state w = (Inr (Commit u), w')"
  obtains r where "List.find (\<lambda>r. w_OrgID r = org \<and> w_RepoID r = repo \<and> w_ID r = iid) (items (fst w)) = Some r"
    and "find_claim org run (fst w) = None" and "result = ''admission_failed''"
    and "insert_claim \<lparr>x_OrgID = org, x_RunID = run, x_Item = iid, x_RepoID = repo, x_AgentID = agent,
           x_SponsorID = None, x_Intent = None, x_Outcome = Some ''admission_failed'', x_ReleasedAt = Some now\<rparr> (fst w)
         = Inr ((), fst w')"
  | r x d1 n where "List.find (\<lambda>r. w_OrgID r = org \<and> w_RepoID r = repo \<and> w_ID r = iid) (items (fst w)) = Some r"
    and "find_claim org run (fst w) = Some x" and "x_Item x = iid" and "x_RepoID x = repo" and "x_AgentID x = agent"
    and "x_Outcome x = None" and "w_Active r = Some run"
    and "update_claims (same_claim org run) (\<lambda>y. y\<lparr>x_Outcome := Some result, x_ReleasedAt := Some now\<rparr>) (fst w)
      = Inr ((), d1)"
    and "update_items now (same_item org iid) (\<lambda>r. r\<lparr>w_State := state, w_Active := None\<rparr>) d1 = Inr (n, fst w')"
proof -
  obtain r where r: "List.find (\<lambda>r. w_OrgID r = org \<and> w_RepoID r = repo \<and> w_ID r = iid) (items (fst w)) = Some r"
    using assms by (auto simp: release_body_def run_simps)
  show thesis
  proof (cases "find_claim org run (fst w)")
    case None
    show thesis
      using assms that(1)[OF r None] by (auto simp: release_body_def run_simps r None split: if_split_asm)
  next
    case (Some x)
    show thesis
      using assms that(2)[OF r Some]
      by (auto simp: release_body_def run_simps r Some same_item_def[abs_def] same_claim_def[abs_def] split: if_split_asm)
  qed
qed

lemma within_ReleaseExecution: "within work_step\<^sup>*\<^sup>* (ReleaseExecution ctx now req)"
  unfolding ReleaseExecution_def
proof (intro step_frame.frame_bnd within_parse step_frame.frame_tx_commit)
  fix scope iid repo run agent state w u w1
  assume "release_body now (s_OrgID scope) iid repo run agent (z_Outcome req) state w = (Inr (Commit u), w1)"
  then show "work_step\<^sup>*\<^sup>* (fst w) (fst w1)"
  proof (cases rule: release_body_commit)
    case 1
    show ?thesis by (rule r_into_rtranclp, rule work_step.Fence[OF 1(4)]) simp
  next
    case (2 r x d1 n)
    have "work_step (fst w) (fst w1)"
      by (rule work_step.Release[where r = r and x = x and ?d1.0 = d1])
        (use 2 find_item_Some[OF 2(1)] find_claim_Some[OF 2(2)] in auto)
    then show ?thesis by blast
  qed
qed


lemma insert_item_row:
  assumes "insert_item now it parent d = Inr (r, d')"
  shows "d' = d\<lparr>items := items d @ [r]\<rparr> \<and> w_ID r = w_ID it \<and> w_OrgID r = w_OrgID it
    \<and> w_Active r = None \<and> w_Parent r = parent \<and> row_checks r \<and> w_ID r \<notin> w_ID ` set (items d)
    \<and> (\<forall>q \<in> set (items d). w_OrgID q = w_OrgID r \<longrightarrow> w_Key q \<noteq> w_Key r \<and> w_Seq q \<noteq> w_Seq r)
    \<and> (case parent of None \<Rightarrow> True | Some p \<Rightarrow> p \<in> insert (w_ID r) (w_ID ` set (items d)))"
  using assms
  by (auto simp: insert_item_def new_row_def Let_def done_at_def item.defs item_row.defs split: if_splits option.splits)

lemma insert_item_new: "insert_item now it parent d = Inr (r, d') \<Longrightarrow> r = new_row now it parent d"
  by (auto simp: insert_item_def Let_def split: if_splits)

lemma propose_commit:
  assumes "insert_item now it None d = Inr (r, d1)" and "insert_proposal m d1 = Inr (u, d')"
    and "m_Item m = w_ID it" and "m_Decision m = None"
  shows "work_step\<^sup>*\<^sup>* d d'"
proof -
  have "work_step d d1" using assms(1) by (rule work_step.Insert)
  moreover have "work_step d1 d'"
  proof (rule work_step.Propose[OF assms(2,4)])
    fix q assume "q \<in> set (items d1)" "w_ID q = m_Item m"
    then show "w_Active q = None"
      using insert_item_row[OF assms(1)] assms(3) by (auto simp: image_iff)
  qed
  ultimately show ?thesis by auto
qed

lemma within_ProposeFinding: "within work_step\<^sup>*\<^sup>* (ProposeFinding ctx new_id now org repo fp it)"
  unfolding ProposeFinding_def Let_def
  apply (intro step_frame.frame_bnd step_frame.frame_require_org step_frame.frame_if step_frame.frame_fail
      step_frame.frame_tx_commit)
  subgoal for _ w a w1
    by (cases "List.find (same_finding org repo fp) (proposals (fst w))")
      (auto simp: run_simps intro!: propose_commit)
  done

lemma within_ResolveProposal: "within work_step\<^sup>*\<^sup>* (ResolveProposal ctx now org repo fp note)"
  unfolding ResolveProposal_def
  apply (intro step_frame.frame_bnd step_frame.frame_require_org step_frame.frame_tx_commit)
  subgoal for _ w a w1
    by (cases "List.find (\<lambda>m. same_finding org repo fp m \<and> open_proposal m) (proposals (fst w))")
      (auto simp: run_simps intro!: r_into_rtranclp work_step.Resolve split: if_split_asm)
  done

lemma first_row_run:
  "(case rows of [] \<Rightarrow> fail e | mw # _ \<Rightarrow> ret (Commit (f mw))) w = (Inr t, w')
     \<longleftrightarrow> rows \<noteq> [] \<and> t = Commit (f (hd rows)) \<and> w' = w"
  by (cases rows) (auto simp: run_simps)

lemma decide_commit:
  assumes "decide scope repo fp apply_fn w = (Inr p, w')"
  obtains m w1 where "List.find (same_finding (s_OrgID scope) repo fp) (proposals (fst w)) = Some m"
    and "m_Decision m = None" and "m_ResolvedAt m = None" and "apply_fn (m_Item m) (fst w, tl (tl (snd w))) = (Inr (), w1)"
    and "fst w' = fst w1" and "proposal_join (same_finding (s_OrgID scope) repo fp) (fst w1) \<noteq> []"
    and "p = scanProposal (fst (hd (proposal_join (same_finding (s_OrgID scope) repo fp) (fst w1))))
                       (snd (hd (proposal_join (same_finding (s_OrgID scope) repo fp) (fst w1))))"
proof -
  obtain m where m: "List.find (same_finding (s_OrgID scope) repo fp) (proposals (fst w)) = Some m"
    using assms by (cases "List.find (same_finding (s_OrgID scope) repo fp) (proposals (fst w))")
      (auto simp: decide_def run_simps)
  show thesis
    using assms that[OF m] by (auto simp: decide_def run_simps first_row_run m split: if_split_asm)
qed

lemma within_decide:
  assumes "\<And>m w w'. List.find (same_finding (s_OrgID scope) repo fp) (proposals (fst w)) = Some m \<Longrightarrow>
    m_Decision m = None \<Longrightarrow> m_ResolvedAt m = None \<Longrightarrow> apply_fn (m_Item m) w = (Inr (), w') \<Longrightarrow>
    work_step\<^sup>*\<^sup>* (fst w) (fst w')"
  shows "within work_step\<^sup>*\<^sup>* (decide scope repo fp apply_fn)"
proof (rule withinI)
  fix w
  obtain r w' where run: "decide scope repo fp apply_fn w = (r, w')" by (cases "decide scope repo fp apply_fn w")
  have "work_step\<^sup>*\<^sup>* (fst w) (fst w')"
  proof (cases r)
    case (Inl e)
    with run have "fst w' = fst w" unfolding decide_def by (auto dest: tx_Inl_db)
    then show ?thesis by simp
  next
    case (Inr p)
    obtain m w1 where "List.find (same_finding (s_OrgID scope) repo fp) (proposals (fst w)) = Some m"
      and "m_Decision m = None" "m_ResolvedAt m = None" "apply_fn (m_Item m) (fst w, tl (tl (snd w))) = (Inr (), w1)"
      and "fst w' = fst w1"
      using run unfolding Inr by (rule decide_commit) (rule that)
    then show ?thesis using assms[of "(fst w, tl (tl (snd w)))" m w1] by simp
  qed
  with run show "work_step\<^sup>*\<^sup>* (fst w) (fst (snd (decide scope repo fp apply_fn w)))" by simp
qed

lemma steps_Decide:
  assumes "List.find (same_finding orgID repoID fp) (proposals d) = Some m"
    and "m_Decision m = None" and "m_ResolvedAt m = None" and "decision_of g"
    and "update_items now (\<lambda>r. w_OrgID r = orgID \<and> w_ID r = m_Item m) f (update_proposals (same_finding orgID repoID fp) g d)
           = Inr (n, d')"
    and "f = (\<lambda>r. r\<lparr>w_AssigneeID := who, w_AssigneeKind := kind\<rparr>) \<or> f = (\<lambda>r. r\<lparr>w_State := ''done''\<rparr>)"
  shows "work_step d d'"
  by (rule work_step.Decide[OF assms(1-4) _ assms(6)]) (use assms(5) in \<open>simp add: same_item_def[abs_def]\<close>)

lemma within_ApproveProposal: "within work_step\<^sup>*\<^sup>* (ApproveProposal ctx now repo fp who kind)"
  unfolding ApproveProposal_def Let_def
  apply (intro step_frame.frame_bnd within_parse step_frame.frame_if step_frame.frame_fail within_decide)
  subgoal for scope m w w'
    by (auto simp: run_simps intro!: r_into_rtranclp elim!: steps_Decide) (auto simp: decision_of_def)
  done

lemma within_DismissProposal: "within work_step\<^sup>*\<^sup>* (DismissProposal ctx new_id now repo fp reason)"
  unfolding DismissProposal_def Let_def
  apply (intro step_frame.frame_bnd within_parse step_frame.frame_if step_frame.frame_fail within_decide)
  subgoal for scope m w w'
    apply (auto simp: run_simps)
    subgoal for n d' by (rule rtranclp.rtrancl_into_rtrancl[of _ _ d'])
        (auto intro!: r_into_rtranclp elim!: steps_Decide work_step.Comment simp: decision_of_def)
    done
  done

lemma within_PatchItem: "within work_step\<^sup>*\<^sup>* (PatchItem ctx now req)"
  unfolding PatchItem_def
  by (cases "k_Values req"; cases "k_Expected req")
    (auto intro!: step_rules within_parse within_GetItem elim!: steps_Edit simp: edits_def apply_patch_def)

lemma within_TransitionItem: "within work_step\<^sup>*\<^sup>* (TransitionItem ctx now req)"
  unfolding TransitionItem_def
  by (auto intro!: step_rules within_parse within_GetItem elim!: steps_Edit simp: edits_def)

lemma work_run_steps: "within work_step\<^sup>*\<^sup>* (work_run c)"
  by (cases c) (simp_all add: within_discard within_Create within_edits within_AddComment within_AddDependency
      within_CreateChild within_ClaimExecution within_ReleaseExecution within_ProposeFinding within_ResolveProposal
      within_ApproveProposal within_DismissProposal within_PatchItem within_TransitionItem)

interpretation purge_frame: db_frame "purge_step\<^sup>*\<^sup>*"
  by unfold_locales auto

lemma work_step_purge: "work_step\<^sup>*\<^sup>* d d' \<Longrightarrow> purge_step\<^sup>*\<^sup>* d d'"
  by (induction rule: rtranclp_induct) (auto intro: purge_step.Work rtranclp.rtrancl_into_rtrancl)

lemma purge_step_rules:
  "update_items now P f d = Inr (n, d') \<Longrightarrow> edits P f \<Longrightarrow> purge_step\<^sup>*\<^sup>* d d'"
  "purge_step\<^sup>*\<^sup>* d (d\<lparr>proposals := filter Q (proposals d)\<rparr>)"
  "delete_items P d = Inr (n, d') \<Longrightarrow> purge_step\<^sup>*\<^sup>* d d'"
  by (blast intro: purge_step.intros work_step.Edit)+

lemma within_purge: "within purge_step\<^sup>*\<^sup>* (purge now org repo)"
  unfolding purge_def
  by (auto intro!: purge_frame.frame_rules purge_step_rules(2) elim!: purge_step_rules(1,3) simp: edits_def)

lemma purge_run_steps: "within purge_step\<^sup>*\<^sup>* (purge_run c)"
proof (cases c)
  case (Do c)
  then show ?thesis using within_mono[OF work_run_steps work_step_purge] by simp
qed (auto simp: PurgeRepository_def PurgeOrganization_def discard_def
    intro!: purge_frame.frame_rules within_mono[OF within_parse(5) work_step_purge] within_purge)

lemma work_exec_steps: "work_step\<^sup>*\<^sup>* d (work_exec c d)"
  using withinD[OF work_run_steps, of "(d, snd c)" "fst c"] by (simp add: work_exec_def)

lemma purge_exec_steps: "purge_step\<^sup>*\<^sup>* d (purge_exec c d)"
  using withinD[OF purge_run_steps, of "(d, snd c)" "fst c"] by (simp add: purge_exec_def)

lemma history_steps: "purge_step\<^sup>*\<^sup>* d (fold purge_exec cs d)"
  by (induction cs arbitrary: d) (auto intro: rtranclp_trans purge_exec_steps)

end
