(* ===== verification/NF_WorkLaws.thy ===== *)
theory NF_WorkLaws
  imports NF_WorkSteps
begin

text \<open>
  The invariants of the work tables, each kept by every step and so by every history of
  operations: the rows and their keys, the dependency graph, the proposals, and the pairing of
  an executing item with its unfinished claim.
\<close>

section \<open>Invariants\<close>

definition row_ok :: "uuid set \<Rightarrow> item_row \<Rightarrow> bool" where
  "row_ok ids r \<longleftrightarrow> row_checks r \<and> w_Key r = item_key (w_Seq r)
     \<and> (w_DoneAt r \<noteq> None) = (w_State r = ''done'')
     \<and> (case w_Parent r of None \<Rightarrow> True | Some p \<Rightarrow> p \<in> ids)"

definition rows_ok :: "workdb \<Rightarrow> bool" where
  "rows_ok d \<longleftrightarrow> distinct (map w_ID (items d)) \<and> distinct (map (\<lambda>r. (w_OrgID r, w_Seq r)) (items d))
     \<and> (\<forall>r \<in> set (items d). row_ok (w_ID ` set (items d)) r)"

definition deps_ok :: "workdb \<Rightarrow> bool" where
  "deps_ok d \<longleftrightarrow> acyclic (set (deps d)) \<and> (\<forall>e \<in> set (deps d). fst e \<in> w_ID ` set (items d) \<and> snd e \<in> w_ID ` set (items d))"

definition proposals_ok :: "workdb \<Rightarrow> bool" where
  "proposals_ok d \<longleftrightarrow> distinct (map (\<lambda>m. (m_OrgID m, m_RepoID m, m_Fingerprint m)) (proposals d))"

text \<open>A run that is active on an item holds the item's one unfinished claim, and conversely.\<close>

definition active_ok :: "workdb \<Rightarrow> item_row \<Rightarrow> bool" where
  "active_ok d r \<longleftrightarrow> (\<forall>run. w_Active r = Some run \<longrightarrow> w_State r = ''in_progress'' \<and> w_ExecutionClaimed r
     \<and> \<not> unapproved (w_OrgID r) (w_ID r) d
     \<and> (\<exists>x \<in> set (claims d). x_OrgID x = w_OrgID r \<and> x_RunID x = run \<and> x_Item x = w_ID r \<and> x_Outcome x = None))"

definition live_ok :: "workdb \<Rightarrow> claim_row \<Rightarrow> bool" where
  "live_ok d x \<longleftrightarrow> (x_Outcome x = None \<longrightarrow>
     (\<exists>r \<in> set (items d). same_item (x_OrgID x) (x_Item x) r \<and> w_Active r = Some (x_RunID x)))"

definition exec_ok :: "workdb \<Rightarrow> bool" where
  "exec_ok d \<longleftrightarrow> (\<forall>r \<in> set (items d). active_ok d r) \<and> (\<forall>x \<in> set (claims d). live_ok d x)
     \<and> distinct (map (\<lambda>x. (x_OrgID x, x_RunID x)) (claims d))"

definition work_ok :: "workdb \<Rightarrow> bool" where
  "work_ok d \<longleftrightarrow> rows_ok d \<and> deps_ok d \<and> proposals_ok d \<and> exec_ok d"

subsection \<open>What an update keeps\<close>

definition keeps_identity :: "(item_row \<Rightarrow> bool) \<Rightarrow> (item_row \<Rightarrow> item_row) \<Rightarrow> bool" where
  "keeps_identity P f \<longleftrightarrow> (\<forall>r. P r \<longrightarrow> w_ID (f r) = w_ID r \<and> w_OrgID (f r) = w_OrgID r \<and> w_Key (f r) = w_Key r
     \<and> w_Seq (f r) = w_Seq r \<and> w_DoneAt (f r) = w_DoneAt r)"

lemma edits_identity: "edits P f \<Longrightarrow> keeps_identity P f"
  by (simp add: edits_def keeps_identity_def)

lemma done_at_fields [simp]:
  "w_ID (done_at now old r) = w_ID r" "w_OrgID (done_at now old r) = w_OrgID r" "w_Key (done_at now old r) = w_Key r"
  "w_Seq (done_at now old r) = w_Seq r" "w_State (done_at now old r) = w_State r" "w_Active (done_at now old r) = w_Active r"
  "w_ExecutionClaimed (done_at now old r) = w_ExecutionClaimed r" "w_Parent (done_at now old r) = w_Parent r"
  "row_checks (done_at now old r) = row_checks r"
  by (auto simp: done_at_def row_checks_def)

lemma update_items_Inr:
  "update_items now P f d = Inr (n, d') \<longleftrightarrow>
     (\<forall>r \<in> set (items d). P r \<longrightarrow> row_checks (f r)
        \<and> (case w_Parent (f r) of None \<Rightarrow> True | Some p \<Rightarrow> p \<in> w_ID ` set (items d)))
     \<and> n = affected P (items d)
     \<and> d' = d\<lparr>items := update_rows P (\<lambda>r. done_at now (Some r) (f r)) (items d)\<rparr>"
  by (auto simp: update_items_def split: option.splits)

lemma update_items_rest:
  assumes "update_items now P f d = Inr (n, d')"
  shows "deps d' = deps d" "claims d' = claims d" "proposals d' = proposals d" "subtasks d' = subtasks d" "comments d' = comments d"
  using assms by (auto simp: update_items_Inr)

lemma update_items_set:
  "update_items now P f d = Inr (n, d') \<Longrightarrow>
     set (items d') = (\<lambda>r. if P r then done_at now (Some r) (f r) else r) ` set (items d)"
  by (auto simp: update_items_Inr set_update_rows)

lemma update_items_ids:
  assumes "update_items now P f d = Inr (n, d')" and "keeps_identity P f"
  shows "map w_ID (items d') = map w_ID (items d)"
    and "map (\<lambda>r. (w_OrgID r, w_Seq r)) (items d') = map (\<lambda>r. (w_OrgID r, w_Seq r)) (items d)"
    and "w_ID ` set (items d') = w_ID ` set (items d)"
proof -
  show m: "map w_ID (items d') = map w_ID (items d)"
    using assms by (auto simp: update_items_Inr keeps_identity_def intro!: map_update_rows)
  show "map (\<lambda>r. (w_OrgID r, w_Seq r)) (items d') = map (\<lambda>r. (w_OrgID r, w_Seq r)) (items d)"
    using assms by (auto simp: update_items_Inr keeps_identity_def intro!: map_update_rows)
  show "w_ID ` set (items d') = w_ID ` set (items d)"
    using arg_cong[OF m, of set] by simp
qed

lemma rows_ok_update:
  assumes "rows_ok d" and "update_items now P f d = Inr (n, d')" and "keeps_identity P f"
  shows "rows_ok d'"
proof -
  have row: "row_ok (w_ID ` set (items d)) r" if r': "r \<in> set (items d')" for r
  proof -
    obtain q where q: "q \<in> set (items d)" and r: "r = (if P q then done_at now (Some q) (f q) else q)"
      using r' unfolding update_items_set[OF assms(2)] by blast
    show ?thesis
    proof (cases "P q")
      case True
      then show ?thesis
        using assms q by (auto simp: r rows_ok_def row_ok_def update_items_Inr keeps_identity_def done_at_def row_checks_def
            split: option.splits)
    next
      case False
      then show ?thesis using assms(1) q by (simp add: r rows_ok_def)
    qed
  qed
  then show ?thesis
    using assms(1) by (simp add: rows_ok_def update_items_ids[OF assms(2,3)])
qed

lemma next_seq_new: "r \<in> set (items d) \<Longrightarrow> w_OrgID r = org \<Longrightarrow> w_Seq r < next_seq org d"
  by (auto simp: next_seq_def less_Suc_eq_le intro!: Max_ge)

lemma rows_ok_insert:
  assumes "rows_ok d" and "insert_item now it parent d = Inr (r, d')"
  shows "rows_ok d'"
proof -
  note i = insert_item_row[OF assms(2)]
  have "row_ok (w_ID ` set (items d')) r"
    using i insert_item_new[OF assms(2)]
    by (auto simp: row_ok_def new_row_def Let_def done_at_def item.defs item_row.defs split: option.splits)
  moreover have "row_ok (w_ID ` set (items d')) q" if "q \<in> set (items d)" for q
    using assms(1) that i by (auto simp: row_ok_def rows_ok_def split: option.splits)
  moreover have "(w_OrgID r, w_Seq r) \<notin> (\<lambda>r. (w_OrgID r, w_Seq r)) ` set (items d)"
    using i by (auto simp: image_iff)
  ultimately show ?thesis
    using i assms(1) by (auto simp: rows_ok_def)
qed

lemma delete_items_Inr:
  assumes "delete_items P d = Inr (n, d')"
  shows "items d' = filter (\<lambda>r. \<not> P r) (items d)"
    and "\<And>r. r \<in> set (items d) \<Longrightarrow> \<not> P r \<Longrightarrow> w_Parent r = Some p \<Longrightarrow> p \<notin> w_ID ` set (filter P (items d))"
    and "deps d' = filter (\<lambda>e. fst e \<notin> w_ID ` set (filter P (items d)) \<and> snd e \<notin> w_ID ` set (filter P (items d))) (deps d)"
    and "proposals d' = filter (\<lambda>m. m_Item m \<notin> w_ID ` set (filter P (items d))) (proposals d)"
    and "claims d' = filter (\<lambda>x. x_Item x \<notin> w_ID ` set (filter P (items d))) (claims d)"
  using assms by (force simp: delete_items_def Let_def split: if_splits)+

lemma kept_ids:
  "x \<in> w_ID ` set (items d) \<Longrightarrow> x \<notin> w_ID ` set (filter P (items d)) \<Longrightarrow> x \<in> w_ID ` set (filter (\<lambda>r. \<not> P r) (items d))"
  by auto

lemma rows_ok_delete:
  assumes "rows_ok d" and "delete_items P d = Inr (n, d')"
  shows "rows_ok d'"
proof -
  note del = delete_items_Inr[OF assms(2)]
  have "row_ok (w_ID ` set (items d')) r" if "r \<in> set (items d')" for r
  proof (cases "w_Parent r")
    case None
    with that assms(1) show ?thesis by (auto simp: del(1) rows_ok_def row_ok_def)
  next
    case (Some p)
    with that assms(1) have "p \<in> w_ID ` set (items d)" by (auto simp: del(1) rows_ok_def row_ok_def)
    with Some that del(2)[of r p] have "p \<in> w_ID ` set (items d')"
      unfolding del(1) by (intro kept_ids) auto
    with Some that assms(1) show ?thesis by (auto simp: del(1) rows_ok_def row_ok_def)
  qed
  with assms(1) show ?thesis by (simp add: rows_ok_def del(1) distinct_map_filter)
qed

lemma claim_identity: "keeps_identity (same_item org iid)
    (\<lambda>r. r\<lparr>w_State := s, w_ExecutionClaimed := True, w_Active := a\<rparr>)"
  "keeps_identity (same_item org iid) (\<lambda>r. r\<lparr>w_State := s, w_Active := None\<rparr>)"
  by (simp_all add: keeps_identity_def)

lemma decide_identity: "f = (\<lambda>r. r\<lparr>w_AssigneeID := who, w_AssigneeKind := kind\<rparr>) \<or> f = (\<lambda>r. r\<lparr>w_State := ''done''\<rparr>)
    \<Longrightarrow> keeps_identity P f"
  by (auto simp: keeps_identity_def)

lemma resolve_identity: "keeps_identity P (\<lambda>r. r\<lparr>w_State := s, w_Goal := g r\<rparr>)"
  by (simp add: keeps_identity_def)

lemma insert_claim_Inr:
  "insert_claim x d = Inr (u, d') \<longleftrightarrow> claim_checks x \<and>
     (\<forall>y \<in> set (claims d). x_OrgID y = x_OrgID x \<longrightarrow> x_RunID y \<noteq> x_RunID x
        \<and> (x_Item y = x_Item x \<longrightarrow> x_Outcome y = None \<longrightarrow> x_Outcome x \<noteq> None))
     \<and> x_Item x \<in> w_ID ` set (items d) \<and> d' = d\<lparr>claims := claims d @ [x]\<rparr>"
  by (auto simp: insert_claim_def)

lemma update_claims_Inr:
  "update_claims P f d = Inr (u, d') \<longleftrightarrow>
     (\<forall>x \<in> set (claims d). P x \<longrightarrow> claim_checks (f x)) \<and> d' = d\<lparr>claims := update_rows P f (claims d)\<rparr>"
  by (auto simp: update_claims_def)

lemma rows_ok_rest [simp]:
  "rows_ok (d\<lparr>comments := cs\<rparr>) = rows_ok d" "rows_ok (d\<lparr>deps := es\<rparr>) = rows_ok d"
  "rows_ok (d\<lparr>subtasks := ss\<rparr>) = rows_ok d" "rows_ok (d\<lparr>proposals := ps\<rparr>) = rows_ok d"
  "rows_ok (d\<lparr>claims := xs\<rparr>) = rows_ok d" "rows_ok (update_proposals P g d) = rows_ok d"
  by (simp_all add: rows_ok_def update_proposals_def)

lemma rows_ok_step: "work_step d d' \<Longrightarrow> rows_ok d \<Longrightarrow> rows_ok d'"
proof (induction rule: work_step.induct)
  case (Decide orgID repoID fp d m g now f n d' who kind)
  then show ?case
    using rows_ok_update[OF _ Decide(5) decide_identity[OF Decide(6)]] by simp
next
  case (Resolve orgID repoID fp d m now why d')
  then show ?case
    using rows_ok_update[OF _ Resolve(2) resolve_identity] by simp
next
  case (Claim r d x u d1 now n d')
  then show ?case
    using rows_ok_update[OF _ Claim(9) claim_identity(1)] by (simp add: insert_claim_Inr)
next
  case (Release r d x result now u d1 state n d')
  then show ?case
    using rows_ok_update[OF _ Release(7) claim_identity(2)] by (simp add: update_claims_Inr)
qed (auto intro: rows_ok_insert rows_ok_update edits_identity
    simp: insert_comment_def insert_subtask_def insert_dep_def insert_proposal_def insert_claim_Inr rows_ok_rest
    split: if_splits)

subsection \<open>The dependency graph\<close>

lemma deps_ok_same_ids:
  "deps d' = deps d \<Longrightarrow> w_ID ` set (items d) \<subseteq> w_ID ` set (items d') \<Longrightarrow> deps_ok d \<Longrightarrow> deps_ok d'"
  unfolding deps_ok_def by auto

lemma deps_ok_update:
  assumes "deps_ok d" and "update_items now P f d = Inr (n, d')" and "keeps_identity P f"
  shows "deps_ok d'"
  by (rule deps_ok_same_ids[OF _ _ assms(1)])
    (simp_all add: update_items_rest[OF assms(2)] update_items_ids[OF assms(2,3)])

lemma deps_ok_rest [simp]:
  "deps_ok (d\<lparr>comments := cs\<rparr>) = deps_ok d" "deps_ok (d\<lparr>subtasks := ss\<rparr>) = deps_ok d"
  "deps_ok (d\<lparr>proposals := ps\<rparr>) = deps_ok d" "deps_ok (d\<lparr>claims := xs\<rparr>) = deps_ok d"
  "deps_ok (update_proposals P g d) = deps_ok d"
  by (simp_all add: deps_ok_def update_proposals_def)

lemma deps_ok_delete:
  assumes "deps_ok d" and "delete_items P d = Inr (n, d')"
  shows "deps_ok d'"
proof -
  note del = delete_items_Inr[OF assms(2)]
  have "set (deps d') \<subseteq> set (deps d)" by (auto simp: del(3))
  with assms(1) have "acyclic (set (deps d'))" by (auto simp: deps_ok_def intro: acyclic_subset)
  moreover have "fst e \<in> w_ID ` set (items d') \<and> snd e \<in> w_ID ` set (items d')" if "e \<in> set (deps d')" for e
    using that assms(1) unfolding del(1) by (intro conjI kept_ids) (auto simp: del(3) deps_ok_def)
  ultimately show ?thesis by (simp add: deps_ok_def)
qed

lemma insert_dep_Inr:
  "insert_dep a b d = Inr (u, d') \<Longrightarrow> a \<noteq> b \<and> (d' = d \<or>
     a \<in> w_ID ` set (items d) \<and> b \<in> w_ID ` set (items d) \<and> d' = d\<lparr>deps := deps d @ [(a, b)]\<rparr>)"
  by (auto simp: insert_dep_def split: if_splits)

lemma deps_ok_depend:
  assumes "deps_ok d" and "insert_dep a b d = Inr (u, d')" and "a \<notin> set (ancestors (deps d) b)"
  shows "deps_ok d'"
proof -
  from insert_dep_Inr[OF assms(2)] consider "d' = d"
    | "a \<noteq> b" "a \<in> w_ID ` set (items d)" "b \<in> w_ID ` set (items d)" "d' = d\<lparr>deps := deps d @ [(a, b)]\<rparr>" by blast
  then show ?thesis
  proof cases
    case 1
    with assms(1) show ?thesis by simp
  next
    case 2
    then show ?thesis
      using assms(1,3) acyclic_insert_dep[of "deps d" a b] unfolding deps_ok_def by simp
  qed
qed

lemma deps_ok_step: "work_step d d' \<Longrightarrow> deps_ok d \<Longrightarrow> deps_ok d'"
proof (induction rule: work_step.induct)
  case (Insert now it parent d r d')
  from insert_item_row[OF Insert(1)] Insert.prems show ?case
    by (intro deps_ok_same_ids[of d' d]) auto
next
  case (Decide orgID repoID fp d m g now f n d' who kind)
  then show ?case
    using deps_ok_update[OF _ Decide(5) decide_identity[OF Decide(6)]] by simp
next
  case (Resolve orgID repoID fp d m now why d')
  then show ?case
    using deps_ok_update[OF _ Resolve(2) resolve_identity] by simp
next
  case (Claim r d x u d1 now n d')
  then show ?case
    using deps_ok_update[OF _ Claim(9) claim_identity(1)] by (simp add: insert_claim_Inr)
next
  case (Release r d x result now u d1 state n d')
  then show ?case
    using deps_ok_update[OF _ Release(7) claim_identity(2)] by (simp add: update_claims_Inr)
qed (auto intro: deps_ok_update deps_ok_depend edits_identity
    simp: insert_comment_def insert_subtask_def insert_proposal_def insert_claim_Inr split: if_splits)

subsection \<open>Proposals\<close>

lemma proposals_ok_eq: "proposals d' = proposals d \<Longrightarrow> proposals_ok d \<Longrightarrow> proposals_ok d'"
  by (simp add: proposals_ok_def)

lemma proposals_ok_update:
  assumes "\<And>m. m_OrgID (g m) = m_OrgID m \<and> m_RepoID (g m) = m_RepoID m \<and> m_Fingerprint (g m) = m_Fingerprint m"
  shows "proposals_ok (update_proposals P g d) = proposals_ok d"
  using assms by (simp add: proposals_ok_def update_proposals_def map_update_rows)

lemma proposals_ok_step: "work_step d d' \<Longrightarrow> proposals_ok d \<Longrightarrow> proposals_ok d'"
proof (induction rule: work_step.induct)
  case (Insert now it parent d r d')
  from insert_item_row[OF Insert(1)] Insert.prems show ?case by (auto simp: proposals_ok_def)
next
  case (Propose m d u d')
  then have "(m_OrgID m, m_RepoID m, m_Fingerprint m) \<notin> (\<lambda>m. (m_OrgID m, m_RepoID m, m_Fingerprint m)) ` set (proposals d)"
    and "d' = d\<lparr>proposals := proposals d @ [m]\<rparr>"
    by (auto simp: insert_proposal_def same_finding_def image_iff split: if_splits)
  with Propose.prems show ?case by (simp add: proposals_ok_def)
next
  case (Decide orgID repoID fp d m g now f n d' who kind)
  then have "proposals_ok (update_proposals (same_finding orgID repoID fp) g d)"
    by (simp add: proposals_ok_update decision_of_def)
  with update_items_rest(3)[OF Decide(5)] show ?case by (rule proposals_ok_eq)
next
  case (Resolve orgID repoID fp d m now why d')
  then have "proposals_ok (update_proposals (same_finding orgID repoID fp) (\<lambda>p. p\<lparr>m_ResolvedAt := Some now\<rparr>) d)"
    by (simp add: proposals_ok_update)
  with update_items_rest(3)[OF Resolve(2)] show ?case by (rule proposals_ok_eq)
qed (auto simp: update_items_rest proposals_ok_def insert_comment_def insert_subtask_def insert_claim_Inr update_claims_Inr
    insert_dep_def distinct_map_filter dest!: update_items_rest(3) split: if_splits)

subsection \<open>Executions\<close>

lemma active_okI:
  assumes "active_ok d r" and "w_ID r' = w_ID r" and "w_OrgID r' = w_OrgID r" and "w_Active r' = w_Active r"
    and "w_Active r \<noteq> None \<Longrightarrow> w_State r' = w_State r \<and> w_ExecutionClaimed r' = w_ExecutionClaimed r"
    and "w_Active r \<noteq> None \<Longrightarrow> unapproved (w_OrgID r) (w_ID r) d' \<Longrightarrow> unapproved (w_OrgID r) (w_ID r) d"
    and "\<And>x. x \<in> set (claims d) \<Longrightarrow> x_Outcome x = None \<Longrightarrow> x_Item x = w_ID r \<Longrightarrow> x \<in> set (claims d')"
  shows "active_ok d' r'"
  unfolding active_ok_def
proof (intro allI impI)
  fix run assume "w_Active r' = Some run"
  then have run: "w_Active r = Some run" by (simp add: assms(4))
  with assms(1) obtain x where x: "w_State r = ''in_progress''" "w_ExecutionClaimed r" "\<not> unapproved (w_OrgID r) (w_ID r) d"
    "x \<in> set (claims d)" "x_OrgID x = w_OrgID r" "x_RunID x = run" "x_Item x = w_ID r" "x_Outcome x = None"
    unfolding active_ok_def by blast
  with assms run show "w_State r' = ''in_progress'' \<and> w_ExecutionClaimed r' \<and> \<not> unapproved (w_OrgID r') (w_ID r') d'
     \<and> (\<exists>x \<in> set (claims d'). x_OrgID x = w_OrgID r' \<and> x_RunID x = run \<and> x_Item x = w_ID r' \<and> x_Outcome x = None)"
    by (metis option.distinct(1))
qed

lemma live_okI:
  assumes "live_ok d x"
    and "\<And>r. r \<in> set (items d) \<Longrightarrow> w_ID r = x_Item x \<Longrightarrow> w_Active r \<noteq> None \<Longrightarrow>
      \<exists>r' \<in> set (items d'). w_ID r' = w_ID r \<and> w_OrgID r' = w_OrgID r \<and> w_Active r' = w_Active r"
  shows "live_ok d' x"
  unfolding live_ok_def
proof
  assume "x_Outcome x = None"
  with assms(1) obtain r where r: "r \<in> set (items d)" "same_item (x_OrgID x) (x_Item x) r" "w_Active r = Some (x_RunID x)"
    unfolding live_ok_def by blast
  with assms(2)[of r] obtain r' where "r' \<in> set (items d')" "w_ID r' = w_ID r" "w_OrgID r' = w_OrgID r" "w_Active r' = w_Active r"
    by (auto simp: same_item_def)
  with r show "\<exists>r \<in> set (items d'). same_item (x_OrgID x) (x_Item x) r \<and> w_Active r = Some (x_RunID x)"
    by (auto simp: same_item_def)
qed

text \<open>Steps that change neither an item's claim nor a claim.\<close>

lemma exec_ok_quiet:
  assumes "exec_ok d" and "claims d' = claims d"
    and "\<And>r'. r' \<in> set (items d') \<Longrightarrow> w_Active r' = None \<or> (\<exists>r \<in> set (items d). w_ID r' = w_ID r \<and> w_OrgID r' = w_OrgID r
        \<and> w_Active r' = w_Active r \<and> w_State r' = w_State r \<and> w_ExecutionClaimed r' = w_ExecutionClaimed r)"
    and "\<And>r. r \<in> set (items d) \<Longrightarrow> w_Active r \<noteq> None \<Longrightarrow>
        \<exists>r' \<in> set (items d'). w_ID r' = w_ID r \<and> w_OrgID r' = w_OrgID r \<and> w_Active r' = w_Active r"
    and "\<And>r. r \<in> set (items d) \<Longrightarrow> w_Active r \<noteq> None \<Longrightarrow> unapproved (w_OrgID r) (w_ID r) d' \<Longrightarrow> unapproved (w_OrgID r) (w_ID r) d"
  shows "exec_ok d'"
proof -
  have "active_ok d' r'" if "r' \<in> set (items d')" for r'
  proof (cases "w_Active r' = None")
    case True
    then show ?thesis by (simp add: active_ok_def)
  next
    case False
    with assms(3)[OF that] obtain r where r: "r \<in> set (items d)" "w_ID r' = w_ID r" "w_OrgID r' = w_OrgID r"
      "w_Active r' = w_Active r" "w_State r' = w_State r" "w_ExecutionClaimed r' = w_ExecutionClaimed r" by auto
    have "active_ok d r" using assms(1) r(1) by (simp add: exec_ok_def)
    then show ?thesis
      by (rule active_okI) (use r assms(2,5) in auto)
  qed
  moreover have "live_ok d' x" if "x \<in> set (claims d')" for x
  proof -
    have "live_ok d x" using assms(1,2) that by (simp add: exec_ok_def)
    then show ?thesis by (rule live_okI) (rule assms(4))
  qed
  ultimately show ?thesis using assms(1,2) by (simp add: exec_ok_def)
qed


lemma exec_ok_rest [simp]:
  "exec_ok (d\<lparr>comments := cs\<rparr>) = exec_ok d" "exec_ok (d\<lparr>deps := es\<rparr>) = exec_ok d"
  "exec_ok (d\<lparr>subtasks := ss\<rparr>) = exec_ok d"
  by (simp_all add: exec_ok_def active_ok_def live_ok_def unapproved_def)

lemma exec_ok_edit:
  assumes "exec_ok d" and "update_items now P f d = Inr (n, d')" and "edits P f"
  shows "exec_ok d'"
proof (rule exec_ok_quiet[OF assms(1)])
  note s = update_items_set[OF assms(2)] and e = assms(3)[unfolded edits_def, rule_format]
  show "claims d' = claims d" by (rule update_items_rest(2)[OF assms(2)])
  show "w_Active r' = None \<or> (\<exists>r \<in> set (items d). w_ID r' = w_ID r \<and> w_OrgID r' = w_OrgID r
        \<and> w_Active r' = w_Active r \<and> w_State r' = w_State r \<and> w_ExecutionClaimed r' = w_ExecutionClaimed r)"
    if r': "r' \<in> set (items d')" for r'
  proof -
    obtain r where r: "r \<in> set (items d)" "r' = (if P r then done_at now (Some r) (f r) else r)"
      using r' unfolding s by blast
    show ?thesis
    proof (cases "P r \<and> w_Active r \<noteq> None")
      case True
      then have "w_ExecutionClaimed r" using assms(1) r(1) by (auto simp: exec_ok_def active_ok_def)
      with True r e[of r] show ?thesis by auto
    next
      case False
      with r e[of r] show ?thesis by auto
    qed
  qed
  show "\<exists>r' \<in> set (items d'). w_ID r' = w_ID r \<and> w_OrgID r' = w_OrgID r \<and> w_Active r' = w_Active r"
    if "r \<in> set (items d)" for r
  proof (cases "P r")
    case True
    with that e[of r] show ?thesis unfolding s by (intro bexI[of _ "done_at now (Some r) (f r)"]) auto
  next
    case False
    with that show ?thesis unfolding s by (intro bexI[of _ r]) auto
  qed
  show "unapproved (w_OrgID r) (w_ID r) d" if "unapproved (w_OrgID r) (w_ID r) d'" for r
    using that by (simp add: unapproved_def update_items_rest(3)[OF assms(2)])
qed

lemma exec_ok_decide:
  assumes "exec_ok d" and "proposals_ok d"
    and m: "List.find (same_finding orgID repoID fp) (proposals d) = Some m" "m_Decision m = None" "decision_of g"
    and u: "update_items now (same_item orgID (m_Item m)) f (update_proposals (same_finding orgID repoID fp) g d) = Inr (n, d')"
    and f: "f = (\<lambda>r. r\<lparr>w_AssigneeID := who, w_AssigneeKind := kind\<rparr>) \<or> f = (\<lambda>r. r\<lparr>w_State := ''done''\<rparr>)"
  shows "exec_ok d'"
proof -
  let ?P = "same_item orgID (m_Item m)"
  have m_in: "m \<in> set (proposals d)" "same_finding orgID repoID fp m" using find_Some_in[OF m(1)] by auto
  have idle: "w_Active r = None" if "r \<in> set (items d)" "?P r" for r
  proof (rule ccontr)
    assume "w_Active r \<noteq> None"
    with that(1) assms(1) have "\<not> unapproved (w_OrgID r) (w_ID r) d" by (auto simp: exec_ok_def active_ok_def)
    moreover have "unapproved (w_OrgID r) (w_ID r) d"
      unfolding unapproved_def using m_in m(2) that(2) by (intro bexI[of _ m]) (auto simp: same_item_def same_finding_def)
    ultimately show False by blast
  qed
  have other: "p = m" if "p \<in> set (proposals d)" "same_finding orgID repoID fp p" for p
    using that m_in assms(2) by (auto simp: proposals_ok_def distinct_map inj_on_def same_finding_def)
  note s = update_items_set[OF u] and e = update_items_rest[OF u]
  have fields: "w_ID (f r) = w_ID r \<and> w_OrgID (f r) = w_OrgID r \<and> w_Active (f r) = w_Active r" for r
    using f by auto
  show ?thesis
  proof (rule exec_ok_quiet[OF assms(1)])
    show "claims d' = claims d" by (simp add: e update_proposals_def)
    fix r' assume "r' \<in> set (items d')"
    then obtain r where "r \<in> set (items d)" "r' = (if ?P r then done_at now (Some r) (f r) else r)"
      unfolding s by (auto simp: update_proposals_def)
    then show "w_Active r' = None \<or> (\<exists>r \<in> set (items d). w_ID r' = w_ID r \<and> w_OrgID r' = w_OrgID r
        \<and> w_Active r' = w_Active r \<and> w_State r' = w_State r \<and> w_ExecutionClaimed r' = w_ExecutionClaimed r)"
      using idle fields by auto
  next
    fix r assume r: "r \<in> set (items d)" "w_Active r \<noteq> None"
    then have "\<not> ?P r" using idle by auto
    with r show "\<exists>r' \<in> set (items d'). w_ID r' = w_ID r \<and> w_OrgID r' = w_OrgID r \<and> w_Active r' = w_Active r"
      unfolding s by (force simp: update_proposals_def)
    assume "unapproved (w_OrgID r) (w_ID r) d'"
    then obtain q where q: "q \<in> set (proposals d)"
      "m_OrgID (if same_finding orgID repoID fp q then g q else q) = w_OrgID r"
      "m_Item (if same_finding orgID repoID fp q then g q else q) = w_ID r"
      "m_Decision (if same_finding orgID repoID fp q then g q else q) \<noteq> Some ''approved''
       \<or> m_ResolvedAt (if same_finding orgID repoID fp q then g q else q) \<noteq> None"
      by (auto simp: unapproved_def e update_proposals_def set_update_rows)
    show "unapproved (w_OrgID r) (w_ID r) d"
    proof (cases "same_finding orgID repoID fp q")
      case True
      with other[OF q(1)] q(2,3) m(3) m_in \<open>\<not> ?P r\<close> show ?thesis
        by (auto simp: decision_of_def same_item_def same_finding_def)
    next
      case False
      with q show ?thesis by (auto simp: unapproved_def)
    qed
  qed
qed

lemma exec_ok_resolve:
  assumes "exec_ok d" and "rows_ok d"
    and m: "List.find (\<lambda>m. same_finding orgID repoID fp m \<and> open_proposal m) (proposals d) = Some m" and "proposals_ok d"
    and u: "update_items now (\<lambda>r. w_ID r = m_Item m \<and> w_OrgID r = orgID \<and> w_Active r = None)
      (\<lambda>r. r\<lparr>w_State := ''done'', w_Goal := w_Goal r @ why\<rparr>)
      (update_proposals (same_finding orgID repoID fp) (\<lambda>p. p\<lparr>m_ResolvedAt := Some now\<rparr>) d) = Inr (1, d')"
  shows "exec_ok d'"
proof -
  let ?P = "\<lambda>r. w_ID r = m_Item m \<and> w_OrgID r = orgID \<and> w_Active r = None"
  let ?f = "\<lambda>r. r\<lparr>w_State := ''done'', w_Goal := w_Goal r @ why\<rparr>"
  note s = update_items_set[OF u] and e = update_items_rest[OF u]
  have m_in: "m \<in> set (proposals d)" "same_finding orgID repoID fp m" using find_Some_in[OF m] by auto
  have other: "p = m" if "p \<in> set (proposals d)" "same_finding orgID repoID fp p" for p
    using that m_in assms(4) by (auto simp: proposals_ok_def distinct_map inj_on_def same_finding_def)
  have "affected ?P (items d) = 1" using u by (simp add: update_items_Inr update_proposals_def)
  then obtain q where q: "q \<in> set (items d)" "?P q" using affected_pos[of ?P "items d"] by auto
  have idle: "w_Active r = None" if "r \<in> set (items d)" "w_ID r = m_Item m" for r
    using that q assms(2) by (auto simp: rows_ok_def distinct_map inj_on_def)
  show ?thesis
  proof (rule exec_ok_quiet[OF assms(1)])
    show "claims d' = claims d" by (simp add: e update_proposals_def)
    fix r' assume "r' \<in> set (items d')"
    then obtain r where "r \<in> set (items d)" "r' = (if ?P r then done_at now (Some r) (?f r) else r)"
      unfolding s by (auto simp: update_proposals_def)
    then show "w_Active r' = None \<or> (\<exists>r \<in> set (items d). w_ID r' = w_ID r \<and> w_OrgID r' = w_OrgID r
        \<and> w_Active r' = w_Active r \<and> w_State r' = w_State r \<and> w_ExecutionClaimed r' = w_ExecutionClaimed r)"
      by auto
  next
    fix r assume r: "r \<in> set (items d)" "w_Active r \<noteq> None"
    then have "r \<in> set (items d')" unfolding s by (auto simp: update_proposals_def image_iff)
    then show "\<exists>r' \<in> set (items d'). w_ID r' = w_ID r \<and> w_OrgID r' = w_OrgID r \<and> w_Active r' = w_Active r" by auto
    assume "unapproved (w_OrgID r) (w_ID r) d'"
    then obtain p where p: "p \<in> set (proposals d)" "m_OrgID p = w_OrgID r" "m_Item p = w_ID r"
      "m_Decision p \<noteq> Some ''approved'' \<or> m_ResolvedAt p \<noteq> None \<or> same_finding orgID repoID fp p"
      by (auto simp: unapproved_def e update_proposals_def set_update_rows split: if_splits)
    moreover have "\<not> same_finding orgID repoID fp p" using other[OF p(1)] p(3) idle[OF r(1)] r(2) by auto
    ultimately show "unapproved (w_OrgID r) (w_ID r) d" by (auto simp: unapproved_def)
  qed
qed

lemma exec_ok_insert:
  assumes "exec_ok d" and "insert_item now it parent d = Inr (r, d')"
  shows "exec_ok d'"
  by (rule exec_ok_quiet[OF assms(1)]) (use insert_item_row[OF assms(2)] in \<open>auto simp: unapproved_def\<close>)

lemma exec_ok_propose:
  assumes "exec_ok d" and "insert_proposal m d = Inr (u, d')"
    and "\<And>r. r \<in> set (items d) \<Longrightarrow> w_ID r = m_Item m \<Longrightarrow> w_Active r = None"
  shows "exec_ok d'"
proof -
  from assms(2) have d': "d' = d\<lparr>proposals := proposals d @ [m]\<rparr>" by (auto simp: insert_proposal_def split: if_splits)
  show ?thesis
  proof (rule exec_ok_quiet[OF assms(1)])
    fix r assume "r \<in> set (items d)" "w_Active r \<noteq> None"
    with assms(3) have "w_ID r \<noteq> m_Item m" by auto
    then show "unapproved (w_OrgID r) (w_ID r) d' \<Longrightarrow> unapproved (w_OrgID r) (w_ID r) d"
      by (auto simp: unapproved_def d')
  qed (auto simp: d')
qed

lemma exec_ok_forget:
  assumes "exec_ok d"
  shows "exec_ok (d\<lparr>proposals := filter Q (proposals d)\<rparr>)"
  by (rule exec_ok_quiet[OF assms]) (auto simp: unapproved_def)

lemma exec_ok_delete:
  assumes "exec_ok d" and "rows_ok d" and "delete_items P d = Inr (n, d')"
  shows "exec_ok d'"
proof -
  note del = delete_items_Inr[OF assms(3)]
  let ?gone = "w_ID ` set (filter P (items d))"
  have stays: "w_ID r \<notin> ?gone" if "r \<in> set (items d')" for r
    using that assms(2) by (auto simp: del(1) rows_ok_def distinct_map inj_on_def)
  have "active_ok d' r" if "r \<in> set (items d')" for r
  proof -
    have "active_ok d r" using that assms(1) by (simp add: del(1) exec_ok_def)
    then show ?thesis
      by (rule active_okI) (use stays[OF that] in \<open>auto simp: unapproved_def del(4,5)\<close>)
  qed
  moreover have "live_ok d' x" if "x \<in> set (claims d')" for x
  proof -
    have "live_ok d x" using that assms(1) by (simp add: del(5) exec_ok_def)
    then show ?thesis
    proof (rule live_okI)
      fix r assume "r \<in> set (items d)" "w_ID r = x_Item x"
      moreover from this that have "\<not> P r" by (force simp: del(5))
      ultimately show "\<exists>r' \<in> set (items d'). w_ID r' = w_ID r \<and> w_OrgID r' = w_OrgID r \<and> w_Active r' = w_Active r"
        by (auto simp: del(1))
    qed
  qed
  ultimately show ?thesis using assms(1) by (simp add: exec_ok_def del(5) distinct_map_filter)
qed

lemma exec_ok_fence:
  assumes "exec_ok d" and "insert_claim x d = Inr (u, d')" and "x_Outcome x \<noteq> None"
  shows "exec_ok d'"
proof -
  from assms(2) have d': "d' = d\<lparr>claims := claims d @ [x]\<rparr>"
    and new: "(x_OrgID x, x_RunID x) \<notin> (\<lambda>x. (x_OrgID x, x_RunID x)) ` set (claims d)"
    by (auto simp: insert_claim_Inr image_iff)
  have "active_ok d' r" if "r \<in> set (items d')" for r
  proof -
    have "active_ok d r" using that assms(1) by (simp add: d' exec_ok_def)
    then show ?thesis by (rule active_okI) (auto simp: d' unapproved_def)
  qed
  moreover have "live_ok d' y" if "y \<in> set (claims d')" for y
    using that assms(1,3) by (auto simp: d' exec_ok_def live_ok_def)
  ultimately show ?thesis using assms(1) new by (simp add: exec_ok_def d')
qed

lemma exec_ok_claim:
  assumes "exec_ok d" and "rows_ok d" and r: "r \<in> set (items d)" "same_item (x_OrgID x) (x_Item x) r" "w_Active r = None"
    and "\<not> unapproved (x_OrgID x) (x_Item x) d" and "x_Outcome x = None" and ins: "insert_claim x d = Inr (u, d1)"
    and u: "update_items now (same_item (x_OrgID x) (x_Item x))
      (\<lambda>r. r\<lparr>w_State := ''in_progress'', w_ExecutionClaimed := True, w_Active := Some (x_RunID x)\<rparr>) d1 = Inr (n, d')"
  shows "exec_ok d'"
proof -
  let ?P = "same_item (x_OrgID x) (x_Item x)"
  let ?f = "\<lambda>r. r\<lparr>w_State := ''in_progress'', w_ExecutionClaimed := True, w_Active := Some (x_RunID x)\<rparr>"
  note e = update_items_rest[OF u]
  from ins have d1: "d1 = d\<lparr>claims := claims d @ [x]\<rparr>"
    and new: "(x_OrgID x, x_RunID x) \<notin> (\<lambda>x. (x_OrgID x, x_RunID x)) ` set (claims d)"
    by (auto simp: insert_claim_Inr image_iff)
  have s: "set (items d') = (\<lambda>r. if ?P r then done_at now (Some r) (?f r) else r) ` set (items d)"
    using update_items_set[OF u] by (simp add: d1)
  have cl: "claims d' = claims d @ [x]" and pr: "proposals d' = proposals d" by (simp_all add: e d1)
  have un: "unapproved a b d' = unapproved a b d" for a b by (simp add: unapproved_def pr)
  have only: "q = r" if "q \<in> set (items d)" "w_ID q = x_Item x" for q
    using that r assms(2) by (auto simp: rows_ok_def distinct_map inj_on_def same_item_def)
  have "active_ok d' q'" if q': "q' \<in> set (items d')" for q'
  proof -
    obtain q where q: "q \<in> set (items d)" "q' = (if ?P q then done_at now (Some q) (?f q) else q)"
      using q' unfolding s by blast
    show ?thesis
    proof (cases "?P q")
      case True
      with q assms(6,7) show ?thesis by (auto simp: active_ok_def un cl same_item_def)
    next
      case False
      have "active_ok d q" using q(1) assms(1) by (simp add: exec_ok_def)
      then show ?thesis by (rule active_okI) (use False q in \<open>auto simp: un cl\<close>)
    qed
  qed
  moreover have "live_ok d' y" if "y \<in> set (claims d')" for y
  proof (cases "y = x")
    case True
    have "done_at now (Some r) (?f r) \<in> set (items d')" unfolding s using r by force
    with True r(2) show ?thesis by (auto simp: live_ok_def same_item_def intro!: bexI[of _ "done_at now (Some r) (?f r)"])
  next
    case False
    with that assms(1) have "live_ok d y" by (simp add: cl exec_ok_def)
    then show ?thesis
    proof (rule live_okI)
      fix q assume q: "q \<in> set (items d)" "w_Active q \<noteq> None"
      then have "\<not> ?P q" using only[of q] r(3) by (auto simp: same_item_def)
      with q(1) have "q \<in> set (items d')" unfolding s by (auto simp: image_iff)
      then show "\<exists>r' \<in> set (items d'). w_ID r' = w_ID q \<and> w_OrgID r' = w_OrgID q \<and> w_Active r' = w_Active q" by auto
    qed
  qed
  ultimately show ?thesis using assms(1) new by (simp add: exec_ok_def cl)
qed

lemma exec_ok_release:
  assumes "exec_ok d" and "rows_ok d" and r: "r \<in> set (items d)" "same_item (x_OrgID x) (x_Item x) r" "w_Active r = Some (x_RunID x)"
    and x: "x \<in> set (claims d)" "x_Outcome x = None"
    and c: "update_claims (same_claim (x_OrgID x) (x_RunID x)) (\<lambda>y. y\<lparr>x_Outcome := Some result, x_ReleasedAt := Some now\<rparr>) d = Inr (u, d1)"
    and u: "update_items now (same_item (x_OrgID x) (x_Item x)) (\<lambda>r. r\<lparr>w_State := state, w_Active := None\<rparr>) d1 = Inr (n, d')"
  shows "exec_ok d'"
proof -
  let ?P = "same_item (x_OrgID x) (x_Item x)" and ?C = "same_claim (x_OrgID x) (x_RunID x)"
  let ?f = "\<lambda>r. r\<lparr>w_State := state, w_Active := None\<rparr>" and ?g = "\<lambda>y. y\<lparr>x_Outcome := Some result, x_ReleasedAt := Some now\<rparr>"
  note e = update_items_rest[OF u]
  from c have d1: "d1 = d\<lparr>claims := update_rows ?C ?g (claims d)\<rparr>" by (simp add: update_claims_Inr)
  have s: "set (items d') = (\<lambda>r. if ?P r then done_at now (Some r) (?f r) else r) ` set (items d)"
    using update_items_set[OF u] by (simp add: d1)
  have cl: "claims d' = update_rows ?C ?g (claims d)" and pr: "proposals d' = proposals d" by (simp_all add: e d1)
  have un: "unapproved a b d' = unapproved a b d" for a b by (simp add: unapproved_def pr)
  have only: "q = r" if "q \<in> set (items d)" "w_ID q = x_Item x" for q
    using that r assms(2) by (auto simp: rows_ok_def distinct_map inj_on_def same_item_def)
  have mine: "y = x" if "y \<in> set (claims d)" "?C y" for y
    using that x(1) assms(1) by (auto simp: exec_ok_def distinct_map inj_on_def same_claim_def)
  have "active_ok d' q'" if q': "q' \<in> set (items d')" for q'
  proof -
    obtain q where q: "q \<in> set (items d)" "q' = (if ?P q then done_at now (Some q) (?f q) else q)"
      using q' unfolding s by blast
    show ?thesis
    proof (cases "?P q")
      case True
      with q show ?thesis by (simp add: active_ok_def)
    next
      case False
      with q r(2) have "q' = q" "q \<noteq> r" "w_ID q \<noteq> x_Item x" using only[of q] by auto
      moreover have "active_ok d q" using q(1) assms(1) by (simp add: exec_ok_def)
      moreover have "y \<in> set (claims d')" if "y \<in> set (claims d)" "x_Item y = w_ID q" for y
      proof -
        have "\<not> ?C y" using mine[OF that(1)] that(2) \<open>w_ID q \<noteq> x_Item x\<close> by auto
        with that(1) show ?thesis unfolding cl set_update_rows by (auto simp: image_iff)
      qed
      ultimately show ?thesis by (auto intro: active_okI[of d q] simp: un)
    qed
  qed
  moreover have "live_ok d' y'" if y': "y' \<in> set (claims d')" for y'
  proof -
    obtain y where y: "y \<in> set (claims d)" "y' = (if ?C y then ?g y else y)"
      using y' unfolding cl set_update_rows by blast
    show ?thesis
    proof (cases "?C y")
      case True
      with y show ?thesis by (simp add: live_ok_def)
    next
      case False
      have "live_ok d y" using y(1) assms(1) by (simp add: exec_ok_def)
      show ?thesis
        unfolding live_ok_def
      proof
        assume "x_Outcome y' = None"
        with False y \<open>live_ok d y\<close> obtain q where q: "q \<in> set (items d)" "same_item (x_OrgID y) (x_Item y) q" "w_Active q = Some (x_RunID y)"
          unfolding live_ok_def by auto
        have "\<not> ?P q"
        proof
          assume "?P q"
          with q(1) only[of q] have "q = r" by (simp add: same_item_def)
          with q r False show False by (auto simp: same_item_def same_claim_def)
        qed
        with q(1) have "q \<in> set (items d')" unfolding s by (auto simp: image_iff)
        with q False y show "\<exists>r \<in> set (items d'). same_item (x_OrgID y') (x_Item y') r \<and> w_Active r = Some (x_RunID y')" by auto
      qed
    qed
  qed
  moreover have "distinct (map (\<lambda>x. (x_OrgID x, x_RunID x)) (claims d'))"
    unfolding cl using assms(1) by (subst map_update_rows) (auto simp: exec_ok_def)
  ultimately show ?thesis by (simp add: exec_ok_def)
qed

lemma work_ok_step: "work_step d d' \<Longrightarrow> work_ok d \<Longrightarrow> work_ok d'"
proof -
  assume step: "work_step d d'" and ok: "work_ok d"
  then have ok': "rows_ok d'" "deps_ok d'" "proposals_ok d'" and inv: "rows_ok d" "proposals_ok d" "exec_ok d"
    using rows_ok_step deps_ok_step proposals_ok_step by (simp_all add: work_ok_def)
  from step inv have "exec_ok d'"
  proof (cases rule: work_step.cases)
    case (Insert now it parent r)
    show ?thesis by (rule exec_ok_insert[OF inv(3) Insert])
  next
    case (Edit now P f n)
    show ?thesis by (rule exec_ok_edit[OF inv(3) Edit])
  next
    case (Propose m u)
    show ?thesis by (rule exec_ok_propose[OF inv(3) Propose(1)]) (rule Propose(3))
  next
    case (Decide orgID repoID fp m g now f n who kind)
    show ?thesis by (rule exec_ok_decide[OF inv(3,2) Decide(1,2,4-6)])
  next
    case (Resolve orgID repoID fp m now why)
    show ?thesis by (rule exec_ok_resolve[OF inv(3,1) Resolve(1) inv(2) Resolve(2)])
  next
    case (Claim r x u d1 now n)
    show ?thesis by (rule exec_ok_claim[OF inv(3,1) Claim(1,2,4,5,7-9)])
  next
    case (Fence x u)
    show ?thesis by (rule exec_ok_fence[OF inv(3) Fence])
  next
    case (Release r x result now u d1 state n)
    have "x \<in> set (claims d)" using find_claim_Some[OF Release(4)] by simp
    then show ?thesis by (rule exec_ok_release[OF inv(3,1) Release(1-3) _ Release(5-7)])
    qed (auto simp: insert_comment_def insert_subtask_def insert_dep_def split: if_splits)
  with ok' show ?thesis by (simp add: work_ok_def)
qed

lemma work_ok_steps: "work_step\<^sup>*\<^sup>* d d' \<Longrightarrow> work_ok d \<Longrightarrow> work_ok d'"
  by (induction rule: rtranclp_induct) (auto intro: work_ok_step)

lemma work_ok_delete:
  assumes "work_ok d" and "delete_items P d = Inr (n, d')"
  shows "work_ok d'"
proof -
  have "proposals_ok d'"
    using assms(1) delete_items_Inr(4)[OF assms(2)] by (simp add: work_ok_def proposals_ok_def distinct_map_filter)
  with assms show ?thesis
    using rows_ok_delete deps_ok_delete exec_ok_delete unfolding work_ok_def by blast
qed

lemma work_ok_purge_step: "purge_step d d' \<Longrightarrow> work_ok d \<Longrightarrow> work_ok d'"
proof (induction rule: purge_step.induct)
  case (Forget d' Q d)
  then show ?case
    using exec_ok_forget[of d Q] by (simp add: work_ok_def proposals_ok_def distinct_map_filter)
qed (auto intro: work_ok_step work_ok_delete)

lemma work_ok_history: "work_ok d \<Longrightarrow> work_ok (fold purge_exec cs d)"
  using history_steps[of d cs] by (induction rule: rtranclp_induct) (auto intro: work_ok_purge_step)

end
