(* ===== verification/NF_WorkProps.thy ===== *)
theory NF_WorkProps
  imports NF_WorkLaws NF_Capability
begin

text \<open>
  Properties of the board: what every operation keeps, the dependency graph with its check and
  its race, keys, and the children of an epic.
\<close>

section \<open>Sample tables\<close>

definition sample_row :: "nat \<Rightarrow> item_row" where
  "sample_row n = \<lparr>w_ID = 50 + n, w_OrgID = 7, w_RepoID = 40, w_Key = item_key n, w_Type = ''feature'',
     w_Goal = ''g'', w_Acceptance = [], w_Constraints = [], w_RequiredGates = [], w_AssigneeID = 0,
     w_AssigneeKind = '''', w_State = ''open'', w_CreatedAt = 1, w_ExecutionClaimed = False,
     w_Seq = n, w_Parent = None, w_Active = None, w_DoneAt = None\<rparr>"

definition sample_workdb :: workdb where
  "sample_workdb = \<lparr>items = [sample_row 1, sample_row 2], comments = [], deps = [], subtasks = [],
     proposals = [], claims = []\<rparr>"

lemma sample_work_ok: "work_ok sample_workdb"
  by (simp add: work_ok_def rows_ok_def row_ok_def row_checks_def deps_ok_def proposals_ok_def exec_ok_def
      active_ok_def live_ok_def sample_workdb_def sample_row_def IsValidType_def validTypes_def item_states_def acyclic_def)

section \<open>Every operation refines the contract\<close>


section \<open>The dependency graph\<close>

text \<open>
  C37. The dependency graph has no cycle and names existing items only, after any history of
  operations that run one after another, deletions included.
\<close>

theorem dependencies_stay_acyclic:
  assumes "work_ok d"
  shows "acyclic (set (deps (fold purge_exec history d)))
    \<and> (\<forall>(a, b) \<in> set (deps (fold purge_exec history d)).
          a \<in> w_ID ` set (items (fold purge_exec history d)) \<and> b \<in> w_ID ` set (items (fold purge_exec history d)))"
  using work_ok_history[OF assms, of history] by (auto simp: work_ok_def deps_ok_def)

lemma sample_dependency:
  "fst (AddDependency (Some sample_member) 51 52 (sample_workdb, [])) = Inr ()"
  by (simp add: AddDependency_def check_dependency_def add_edge_def op_defs get_item_def sample_member_def sample_workdb_def
      sample_row_def ancestors_def step_ids_def recursive_union.simps insert_dep_def)

theorem dependencies_stay_acyclic_witness:
  "acyclic (set (deps (fold purge_exec
     [(Do (DoDepend (Some sample_member) 51 52), []), (Do (DoDepend (Some sample_member) 52 51), [])] sample_workdb)))"
  using dependencies_stay_acyclic[OF sample_work_ok,
    of "[(Do (DoDepend (Some sample_member) 51 52), []), (Do (DoDepend (Some sample_member) 52 51), [])]"] by blast

lemma get_item_found:
  assumes "distinct (map w_ID (items d))" and "r \<in> set (items d)"
  shows "get_item (w_OrgID r) (w_ID r) (d, []) = (Inr (scan_item r), (d, []))"
proof -
  have "List.find (\<lambda>q. w_OrgID q = w_OrgID r \<and> w_ID q = w_ID r) (items d) = Some r"
    by (rule find_key_unique[OF assms]) auto
  then show ?thesis by (simp add: get_item_def op_defs)
qed

text \<open>
  Between two different items of the caller's organization a dependency is recorded exactly
  when it closes no cycle: it is refused as a cycle if the blocker already depends, through any
  number of steps, on the item to be blocked, and otherwise it succeeds and the edge is in the
  table, once, beside what was there.
\<close>

theorem dependency_refused_exactly_on_cycle:
  assumes "work_ok d" and "a \<in> set (items d)" and "b \<in> set (items d)" and "w_ID a \<noteq> w_ID b"
    and "w_OrgID a = s_OrgID s" and "w_OrgID b = s_OrgID s"
  shows "AddDependency (Some s) (w_ID a) (w_ID b) (d, []) =
    (if (w_ID b, w_ID a) \<in> (set (deps d))\<^sup>+ then (Inl (App (DependencyCycle (w_ID a) (w_ID b))), (d, []))
     else (Inr (), (d\<lparr>deps := (if (w_ID a, w_ID b) \<in> set (deps d) then deps d else deps d @ [(w_ID a, w_ID b)])\<rparr>, [])))"
proof -
  have "distinct (map w_ID (items d))" using assms(1) by (simp add: work_ok_def rows_ok_def)
  note g = get_item_found[OF this assms(2), unfolded assms(5)] get_item_found[OF this assms(3), unfolded assms(6)]
  show ?thesis
    using assms(2-4)
    by (simp add: AddDependency_def check_dependency_def add_edge_def op_defs set_ancestors insert_dep_def g[unfolded op_defs])
qed

theorem dependency_refused_exactly_on_cycle_witness:
  "fst (AddDependency (Some sample_member) 51 52 (sample_workdb, [])) = Inr ()"
  using dependency_refused_exactly_on_cycle[OF sample_work_ok, of "sample_row 1" "sample_row 2" sample_member]
  by (simp add: sample_workdb_def sample_row_def sample_member_def)

text \<open>
  The cycle check and the insert of one call are separate statements: when two calls for
  the two directions between the same items interleave, both check before either inserts, both
  succeed, and the table holds a cycle.
\<close>

theorem interleaved_dependencies_cycle:
  assumes "work_ok d" and "a \<in> set (items d)" and "b \<in> set (items d)" and "w_ID a \<noteq> w_ID b"
    and "w_OrgID a = s_OrgID s" and "w_OrgID b = s_OrgID s" and "deps d = []"
  shows "\<exists>w1 w2 w3 w4. check_dependency (Some s) (w_ID a) (w_ID b) (d, []) = (Inr (), w1)
    \<and> check_dependency (Some s) (w_ID b) (w_ID a) w1 = (Inr (), w2)
    \<and> add_edge (w_ID a) (w_ID b) w2 = (Inr (), w3) \<and> add_edge (w_ID b) (w_ID a) w3 = (Inr (), w4)
    \<and> \<not> acyclic (set (deps (fst w4)))"
proof -
  have "distinct (map w_ID (items d))" using assms(1) by (simp add: work_ok_def rows_ok_def)
  note g = get_item_found[OF this assms(2), unfolded assms(5)] get_item_found[OF this assms(3), unfolded assms(6)]
  let ?d1 = "d\<lparr>deps := [(w_ID a, w_ID b)]\<rparr>" and ?d2 = "d\<lparr>deps := [(w_ID a, w_ID b), (w_ID b, w_ID a)]\<rparr>"
  have "check_dependency (Some s) (w_ID a) (w_ID b) (d, []) = (Inr (), (d, []))"
    "check_dependency (Some s) (w_ID b) (w_ID a) (d, []) = (Inr (), (d, []))"
    using assms(4) by (simp_all add: check_dependency_def op_defs set_ancestors assms(7) g[unfolded op_defs])
  moreover have "add_edge (w_ID a) (w_ID b) (d, []) = (Inr (), (?d1, []))" "add_edge (w_ID b) (w_ID a) (?d1, []) = (Inr (), (?d2, []))"
    using assms(2-4) by (simp_all add: add_edge_def op_defs insert_dep_def assms(7))
  moreover have "\<not> acyclic (set (deps ?d2))"
    by (auto simp: acyclic_def intro!: exI[of _ "w_ID a"] trancl_into_trancl2[of "w_ID a" "w_ID b"])
  ultimately show ?thesis by (metis fst_conv)
qed

theorem interleaved_dependencies_cycle_witness:
  "\<exists>w1 w2 w3 w4. check_dependency (Some sample_member) 51 52 (sample_workdb, []) = (Inr (), w1)
    \<and> check_dependency (Some sample_member) 52 51 w1 = (Inr (), w2)
    \<and> add_edge 51 52 w2 = (Inr (), w3) \<and> add_edge 52 51 w3 = (Inr (), w4) \<and> \<not> acyclic (set (deps (fst w4)))"
  using interleaved_dependencies_cycle[OF sample_work_ok, of "sample_row 1" "sample_row 2" sample_member]
  by (simp add: sample_workdb_def sample_row_def sample_member_def)

section \<open>Keys and subtasks\<close>


text \<open>
  Creating a valid item always succeeds: with a fresh identifier, no key or sequence number
  of the organization can be in the way, whatever was created, moved or deleted before. The new
  key is one no item of the organization has, keys decode to their sequence numbers, and the
  tables keep all their invariants.
\<close>

theorem create_never_collides:
  assumes "work_ok d" and "IsValidType (w_Type it)" and "w_State it \<in> insert '''' (set item_states)"
    and "w_AssigneeKind it \<in> {'''', ''user'', ''agent''}" and "new_id \<notin> w_ID ` set (items d)"
  shows "\<exists>got d'. Create new_id now it (d, []) = (Inr got, (d', [])) \<and> work_ok d'
    \<and> w_ID got = new_id \<and> w_OrgID got = w_OrgID it \<and> w_Key got \<notin> w_Key ` {r \<in> set (items d). w_OrgID r = w_OrgID it}
    \<and> (\<exists>r. items d' = items d @ [r] \<and> w_ID r = new_id \<and> w_Key r = w_Key got
          \<and> (\<forall>q \<in> set (items d). w_OrgID q = w_OrgID it \<longrightarrow> w_Seq q < w_Seq r)
          \<and> undec (TrimPrefix (w_Key r) ''NF-'') = w_Seq r)"
proof -
  let ?it = "if w_State it = '''' then it\<lparr>w_ID := new_id, w_State := ''open''\<rparr> else it\<lparr>w_ID := new_id\<rparr>"
  let ?r = "new_row now ?it None d" and ?n = "next_seq (w_OrgID it) d"
  let ?d' = "d\<lparr>items := items d @ [?r]\<rparr>"
  have r: "w_ID ?r = new_id" "w_OrgID ?r = w_OrgID it" "w_Seq ?r = ?n" "w_Key ?r = item_key ?n" "row_checks ?r"
    using assms(2-4) by (auto simp: new_row_def Let_def done_at_def item.defs item_row.defs row_checks_def item_states_def)
  have less: "w_Seq q < ?n" if "q \<in> set (items d)" "w_OrgID q = w_OrgID it" for q
    using that by (rule next_seq_new)
  have key: "w_Key q \<noteq> item_key ?n" if "q \<in> set (items d)" "w_OrgID q = w_OrgID it" for q
    using that less[OF that] assms(1) by (auto simp: work_ok_def rows_ok_def row_ok_def item_key_def)
  have seq: "w_Seq q \<noteq> ?n" if "q \<in> set (items d)" "w_OrgID q = w_OrgID it" for q
    using less[OF that] by simp
  have ins: "insert_item now ?it None d = Inr (?r, ?d')"
    using r seq key assms(5) unfolding insert_item_def Let_def by (auto simp: image_iff)
  let ?got = "?it\<lparr>w_Key := w_Key ?r, w_CreatedAt := w_CreatedAt ?r\<rparr>"
  have "Create new_id now it (d, []) = (Inr ?got, (?d', []))"
    using ins assms(2) by (auto simp: Create_def Let_def op_defs split: if_split_asm)
  moreover have "work_ok ?d'" using assms(1) work_step.Insert[OF ins] by (blast intro: work_ok_step)
  moreover have "undec (TrimPrefix (w_Key ?r) ''NF-'') = w_Seq ?r"
    using TrimPrefix_append[of "''NF-''" "dec ?n"] by (simp add: r item_key_def undec_dec)
  moreover have "item_key ?n \<notin> w_Key ` {r \<in> set (items d). w_OrgID r = w_OrgID it}"
    by (metis (mono_tags, lifting) imageE key mem_Collect_eq)
  ultimately show ?thesis
    using less by (intro exI[of _ ?got] exI[of _ ?d'] conjI exI[of _ ?r]) (simp_all add: r)
qed

theorem create_never_collides_witness:
  "\<exists>got d'. Create 99 5 (scan_item (sample_row 1)) (sample_workdb, []) = (Inr got, (d', [])) \<and> w_Key got = item_key 3"
proof -
  have "\<exists>got d'. Create 99 5 (scan_item (sample_row 1)) (sample_workdb, []) = (Inr got, (d', []))
     \<and> work_ok d' \<and> w_ID got = 99"
    using create_never_collides[OF sample_work_ok, of "scan_item (sample_row 1)" 99 5]
    by (fastforce simp: sample_workdb_def sample_row_def scan_item_def item.defs IsValidType_def validTypes_def item_states_def)
  moreover have "fst (Create 99 5 (scan_item (sample_row 1)) (sample_workdb, [])) =
     Inr ((scan_item (sample_row 1))\<lparr>w_ID := 99, w_Key := item_key 3, w_CreatedAt := 5\<rparr>)"
    by (simp add: Create_def op_defs sample_workdb_def sample_row_def scan_item_def item.defs item_row.defs IsValidType_def
        validTypes_def item_states_def insert_item_def new_row_def done_at_def next_seq_def row_checks_def Let_def)
  ultimately show ?thesis by force
qed

lemma find_subtask_new:
  "List.find (\<lambda>e. e_Parent e = epic \<and> e_Key e = key) es = None \<Longrightarrow>
   List.find (\<lambda>e. e_Parent e = epic \<and> e_Key e = key) (es @ [\<lparr>e_Parent = epic, e_Key = key, e_Item = i, e_Role = ro\<rparr>])
     = Some \<lparr>e_Parent = epic, e_Key = key, e_Item = i, e_Role = ro\<rparr>"
  by (induction es) (auto split: if_splits)

lemma insert_subtask_Inr: "insert_subtask e d = Inr (u, d') \<Longrightarrow> d' = d\<lparr>subtasks := subtasks d @ [e]\<rparr>"
  by (auto simp: insert_subtask_def split: if_splits)

lemma CreateChild_Inr:
  assumes "CreateChild ctx new_id now epic key role it0 w = (Inr got, w')"
  obtains s e where "ctx = Some s" and "List.find (\<lambda>e. e_Parent e = epic \<and> e_Key e = key) (subtasks (fst w)) = Some e"
    and "fst w' = fst w" and "get_item (s_OrgID s) (e_Item e) (fst w, []) = (Inr got, (fst w, []))"
  | s it r d1 where "ctx = Some s" and "IsValidType (w_Type it0)"
    and "List.find (\<lambda>e. e_Parent e = epic \<and> e_Key e = key) (subtasks (fst w)) = None"
    and "it = (if w_State it0 = '''' then it0\<lparr>w_ID := new_id, w_OrgID := s_OrgID s, w_State := ''open''\<rparr>
               else it0\<lparr>w_ID := new_id, w_OrgID := s_OrgID s\<rparr>)"
    and "insert_item now it (Some epic) (fst w) = Inr (r, d1)"
    and "insert_subtask \<lparr>e_Parent = epic, e_Key = key, e_Item = new_id, e_Role = role\<rparr> d1 = Inr ((), fst w')"
    and "got = it\<lparr>w_Key := w_Key r, w_CreatedAt := w_CreatedAt r\<rparr>"
proof -
  obtain s where s: "ctx = Some s" using assms by (auto simp: CreateChild_def run_simps)
  show thesis
  proof (cases "List.find (\<lambda>e. e_Parent e = epic \<and> e_Key e = key) (subtasks (fst w))")
    case (Some e)
    show thesis
      using assms that(1)[OF s Some] by (auto simp: CreateChild_def run_simps s Some split: if_split_asm)
  next
    case None
    show thesis
      using assms that(2)[OF s _ None] by (auto simp: CreateChild_def Let_def run_simps s None split: if_split_asm)
  qed
qed

lemma CreateChild_again:
  assumes "IsValidType (w_Type it0)" and "List.find (\<lambda>e. e_Parent e = epic \<and> e_Key e = key) (subtasks d) = Some e"
    and "get_item (s_OrgID s) (e_Item e) (d, []) = (Inr got, (d, []))"
  shows "CreateChild (Some s) new_id now epic key role it0 (d, []) = (Inr got, (d, []))"
  using assms by (simp add: CreateChild_def op_defs)

lemma CreateChild_found:
  assumes "work_ok (fst w)" and "CreateChild (Some s) new_id now epic key role it w = (Inr got, w')"
    and "\<not> w_ExecutionClaimed it"
  obtains e r where "List.find (\<lambda>e. e_Parent e = epic \<and> e_Key e = key) (subtasks (fst w')) = Some e"
    and "r \<in> set (items (fst w'))" and "w_OrgID r = s_OrgID s" and "w_ID r = e_Item e" and "got = scan_item r"
  using assms(2)
proof (cases rule: CreateChild_Inr)
  case (1 s' e)
  then obtain r where "List.find (\<lambda>r. w_OrgID r = s_OrgID s \<and> w_ID r = e_Item e) (items (fst w')) = Some r"
    and "got = scan_item r"
    by (simp add: get_item_Inr) blast
  moreover from this(1) have "r \<in> set (items (fst w')) \<and> w_OrgID r = s_OrgID s \<and> w_ID r = e_Item e"
    using find_Some_in by fastforce
  ultimately show thesis using 1(2,3) that[of e r] by simp
next
  case (2 s' x r d1)
  have st: "subtasks (fst w') = subtasks d1 @ [\<lparr>e_Parent = epic, e_Key = key, e_Item = new_id, e_Role = role\<rparr>]"
    and it': "items (fst w') = items d1"
    by (simp_all add: insert_subtask_Inr[OF 2(6)])
  note i = insert_item_row[OF 2(5)] and n = insert_item_new[OF 2(5)]
  have "got = scan_item r"
    using assms(3) by (simp add: n 2(4,7) new_row_def Let_def done_at_def scan_item_def item.defs item_row.defs)
  moreover have "List.find (\<lambda>e. e_Parent e = epic \<and> e_Key e = key) (subtasks (fst w'))
      = Some \<lparr>e_Parent = epic, e_Key = key, e_Item = new_id, e_Role = role\<rparr>"
    using i 2(3) find_subtask_new unfolding st by simp
  ultimately show thesis using i 2(1) that[of _ r] by (simp add: it' 2(4))
qed

text \<open>
  Creating the child of a key twice yields one item: once a child has been created, or
  found, for an epic and a key, asking again, with any identifier, at any time, for any role
  and any valid contents, returns the item created first and changes nothing.
\<close>

theorem child_created_once:
  assumes "work_ok (fst w)" and "CreateChild (Some s) new_id now epic key role it w = (Inr got, w')"
    and "\<not> w_ExecutionClaimed it" and "IsValidType (w_Type it2)"
  shows "CreateChild (Some s) new_id2 now2 epic key role2 it2 (fst w', []) = (Inr got, (fst w', []))
    \<and> card {r \<in> set (items (fst w')). w_ID r = w_ID got} = 1"
proof -
  have "work_ok (fst w')"
    using work_ok_steps[OF within_run[OF within_CreateChild assms(2)] assms(1)] .
  then have uniq: "distinct (map w_ID (items (fst w')))" by (simp add: work_ok_def rows_ok_def)
  obtain e r where e: "List.find (\<lambda>e. e_Parent e = epic \<and> e_Key e = key) (subtasks (fst w')) = Some e"
    and r: "r \<in> set (items (fst w'))" "w_OrgID r = s_OrgID s" "w_ID r = e_Item e" "got = scan_item r"
    by (rule CreateChild_found[OF assms(1-3)])
  have got: "get_item (s_OrgID s) (e_Item e) (fst w', []) = (Inr got, (fst w', []))"
    using get_item_found[OF uniq r(1)] r by simp
  have "w_ID got = w_ID r" by (simp add: r(4) scan_item_def item.defs)
  then have "{q \<in> set (items (fst w')). w_ID q = w_ID got} = {r}"
    using uniq r(1) by (auto simp: distinct_map inj_on_def)
  with CreateChild_again[OF assms(4) e got] show ?thesis by simp
qed

definition sample_child_db :: workdb where
  "sample_child_db = sample_workdb\<lparr>items := items sample_workdb @ [(sample_row 3)\<lparr>w_Parent := Some 51, w_CreatedAt := 9\<rparr>],
     subtasks := [\<lparr>e_Parent = 51, e_Key = ''schema'', e_Item = 53, e_Role = ''architect''\<rparr>]\<rparr>"

lemma sample_child_run:
  "CreateChild (Some sample_member) 53 9 51 ''schema'' ''architect'' (scan_item (sample_row 1)) (sample_workdb, [])
    = (Inr ((scan_item (sample_row 3))\<lparr>w_CreatedAt := 9\<rparr>), (sample_child_db, []))"
  by (simp add: CreateChild_def op_defs sample_workdb_def sample_child_db_def sample_row_def scan_item_def item.defs item_row.defs
      IsValidType_def validTypes_def item_states_def insert_item_def new_row_def done_at_def next_seq_def Let_def
      row_checks_def insert_subtask_def sample_member_def)

theorem child_created_once_witness:
  "CreateChild (Some sample_member) 60 30 51 ''schema'' ''reviewer'' (scan_item (sample_row 2)) (sample_child_db, [])
    = (Inr ((scan_item (sample_row 3))\<lparr>w_CreatedAt := 9\<rparr>), (sample_child_db, []))"
proof -
  have "\<not> w_ExecutionClaimed (scan_item (sample_row 1))" "IsValidType (w_Type (scan_item (sample_row 2)))"
    by (simp_all add: sample_row_def scan_item_def item.defs IsValidType_def validTypes_def)
  from child_created_once[OF _ sample_child_run this, of 60 30 "''reviewer''"] sample_work_ok show ?thesis by simp
qed

end
