(* ===== verification/NF_WorkRuns.thy ===== *)
theory NF_WorkRuns
  imports NF_WorkProps
begin

text \<open>
  Properties of executions, proposals and edits: one execution per item, what admits a run, its
  retries, outcomes and decisions that are written once, and what a person may edit.
\<close>

section \<open>Executions\<close>

text \<open>
  C2. Whatever history of operations the tables have been through, an item that a run is active
  on is in progress, is marked as executed, and every maintenance proposal behind it is approved
  and unresolved; the run holds a claim without outcome for exactly this item; and no second
  claim without outcome exists for it, while every claim without outcome has its item.
\<close>

theorem one_execution_per_item:
  assumes "work_ok d" and "d' = fold purge_exec history d"
  shows "(\<forall>r \<in> set (items d'). \<forall>run. w_Active r = Some run \<longrightarrow>
        w_State r = ''in_progress'' \<and> w_ExecutionClaimed r
        \<and> (\<forall>m \<in> set (proposals d'). m_OrgID m = w_OrgID r \<and> m_Item m = w_ID r \<longrightarrow>
              m_Decision m = Some ''approved'' \<and> m_ResolvedAt m = None)
        \<and> (\<exists>x. filter (\<lambda>x. x_OrgID x = w_OrgID r \<and> x_Item x = w_ID r \<and> x_Outcome x = None) (claims d') = [x] \<and> x_RunID x = run))
    \<and> (\<forall>x \<in> set (claims d'). x_Outcome x = None \<longrightarrow>
        (\<exists>r \<in> set (items d'). w_ID r = x_Item x \<and> w_OrgID r = x_OrgID x \<and> w_Active r = Some (x_RunID x)))"
proof -
  have ok: "rows_ok d'" "exec_ok d'" using work_ok_history[OF assms(1), of history] by (simp_all add: work_ok_def assms(2))
  have one: "\<exists>x. filter (\<lambda>x. x_OrgID x = w_OrgID r \<and> x_Item x = w_ID r \<and> x_Outcome x = None) (claims d') = [x] \<and> x_RunID x = run"
    if r: "r \<in> set (items d')" "w_Active r = Some run" for r run
  proof -
    let ?P = "\<lambda>x. x_OrgID x = w_OrgID r \<and> x_Item x = w_ID r \<and> x_Outcome x = None"
    obtain x where x: "x \<in> set (claims d')" "?P x" "x_RunID x = run"
      using ok(2) r unfolding exec_ok_def active_ok_def by blast
    have "x_RunID y = run" if y: "y \<in> set (claims d')" "?P y" for y
    proof -
      obtain q where q: "q \<in> set (items d')" "same_item (x_OrgID y) (x_Item y) q" "w_Active q = Some (x_RunID y)"
        using ok(2) y unfolding exec_ok_def live_ok_def by blast
      have "q = r" using q y r ok(1) by (auto simp: rows_ok_def distinct_map inj_on_def same_item_def)
      with q r show ?thesis by simp
    qed
    then have "filter ?P (claims d') = filter (\<lambda>y. (x_OrgID y, x_RunID y) = (x_OrgID x, x_RunID x)) (claims d')"
    proof (intro filter_cong refl iffI)
      fix y assume y: "y \<in> set (claims d')" "(x_OrgID y, x_RunID y) = (x_OrgID x, x_RunID x)"
      then have "y = x" using x(1) ok(2) by (auto simp: exec_ok_def distinct_map inj_on_def)
      with x show "?P y" by simp
    qed (use x in auto)
    also have "\<dots> = [x]" using ok(2) x(1) by (intro filter_key_unique) (simp_all add: exec_ok_def)
    finally show ?thesis using x(3) by blast
  qed
  moreover have "m_Decision m = Some ''approved'' \<and> m_ResolvedAt m = None"
    if "r \<in> set (items d')" "w_Active r = Some run" "m \<in> set (proposals d')" "m_OrgID m = w_OrgID r" "m_Item m = w_ID r" for r run m
  proof -
    have "\<not> unapproved (w_OrgID r) (w_ID r) d'" using ok(2) that(1,2) by (auto simp: exec_ok_def active_ok_def)
    then show ?thesis using that(3-5) by (auto simp: unapproved_def)
  qed
  moreover have "w_State r = ''in_progress'' \<and> w_ExecutionClaimed r" if "r \<in> set (items d')" "w_Active r = Some run" for r run
    using ok(2) that unfolding exec_ok_def active_ok_def by blast
  moreover have "\<exists>r \<in> set (items d'). w_ID r = x_Item x \<and> w_OrgID r = x_OrgID x \<and> w_Active r = Some (x_RunID x)"
    if "x \<in> set (claims d')" "x_Outcome x = None" for x
    using ok(2) that unfolding exec_ok_def live_ok_def same_item_def by blast
  ultimately show ?thesis by blast
qed

definition sample_runtime :: scope where
  "sample_runtime = \<lparr>s_OrgID = 7, s_ActorID = 0, s_ActorKind = ''service'', s_ServiceName = ''agent-runtime'',
     s_Role = '''', s_PlatformWorker = '''', s_RepoLimited = False, s_Repos = Map.empty\<rparr>"

definition sample_claim :: claim_request where
  "sample_claim = \<lparr>q_WorkItemId = Some 51, q_RepoId = Some 40, q_RunId = Some 90, q_AgentId = Some 5, q_SponsorId = Some 3\<rparr>"

text \<open>A wire form for the sample's one message.\<close>

definition sample_marshal :: "proto_item \<Rightarrow> string option" where
  "sample_marshal m = (if m = frozen_intent False (sample_row 1) then Some ''frozen'' else None)"

definition sample_unmarshal :: "string \<Rightarrow> proto_item option" where
  "sample_unmarshal b = (if b = ''frozen'' then Some (frozen_intent False (sample_row 1)) else None)"

definition sample_claimed :: workdb where
  "sample_claimed = sample_workdb\<lparr>
     items := [(sample_row 1)\<lparr>w_State := ''in_progress'', w_ExecutionClaimed := True, w_Active := Some 90\<rparr>, sample_row 2],
     claims := [\<lparr>x_OrgID = 7, x_RunID = 90, x_Item = 51, x_RepoID = 40, x_AgentID = 5, x_SponsorID = Some 3,
       x_Intent = Some ''frozen'', x_Outcome = None, x_ReleasedAt = None\<rparr>]\<rparr>"

lemma sample_claim_run:
  "ClaimExecution sample_marshal sample_unmarshal (Some sample_runtime) 6 sample_claim (sample_workdb, [])
     = (Inr (frozen_intent False (sample_row 1)), (sample_claimed, []))"
  by (simp add: ClaimExecution_def executionOwner_def executionID_def parseUUID_def claim_body_def lock_item_def op_defs Let_def
      sample_claim_def sample_runtime_def sample_workdb_def sample_claimed_def sample_row_def find_claim_def is_proposal_def
      unapproved_def blocked_def sample_marshal_def insert_claim_def claim_checks_def update_items_def row_checks_def done_at_def
      IsValidType_def validTypes_def item_states_def)

theorem one_execution_per_item_witness:
  "\<exists>r \<in> set (items (purge_exec (Do (DoClaim sample_marshal sample_unmarshal (Some sample_runtime) 6 sample_claim), []) sample_workdb)).
     w_Active r = Some 90 \<and> w_State r = ''in_progress''"
proof -
  let ?c = "(Do (DoClaim sample_marshal sample_unmarshal (Some sample_runtime) 6 sample_claim), [] :: bool list)"
  have e: "purge_exec ?c sample_workdb = sample_claimed"
    using sample_claim_run by (simp add: purge_exec_def discard_def bnd_def ret_def)
  have "fold purge_exec [?c] sample_workdb = sample_claimed" by (simp add: e)
  from one_execution_per_item[OF sample_work_ok this[symmetric]]
  show ?thesis unfolding e by (fastforce simp: sample_claimed_def)
qed

lemma executionOwner_run [run_simps]:
  "executionOwner ctx w = (Inr s, w') \<longleftrightarrow> ctx = Some s \<and> w' = w \<and> s_OrgID s \<noteq> uuid_Nil
     \<and> s_ActorKind s = ''service'' \<and> s_ServiceName s = ''agent-runtime'' \<and> s_PlatformWorker s = ''''"
  by (cases ctx) (auto simp: executionOwner_def run_simps split: if_splits)

lemma executionID_run [run_simps]: "executionID raw w = (Inr u, w') \<longleftrightarrow> raw = Some u \<and> u \<noteq> uuid_Nil \<and> w' = w"
  by (cases raw) (auto simp: executionID_def parseUUID_def run_simps split: if_splits)

lemma ClaimExecution_Inr:
  assumes "ClaimExecution mar unm ctx now req w = (Inr frozen, w')"
  obtains s iid repo run agent sponsor where "executionOwner ctx w = (Inr s, w)"
    and "q_WorkItemId req = Some iid" and "q_RepoId req = Some repo" and "q_RunId req = Some run"
    and "q_AgentId req = Some agent" and "q_SponsorId req = Some sponsor"
    and "iid \<noteq> uuid_Nil" and "repo \<noteq> uuid_Nil" and "run \<noteq> uuid_Nil" and "agent \<noteq> uuid_Nil" and "sponsor \<noteq> uuid_Nil"
    and "tx internal (claim_body mar unm now (s_OrgID s) iid repo run agent sponsor) w = (Inr frozen, w')"
  using assms by (auto simp: ClaimExecution_def run_simps)

lemma claim_body_abort:
  assumes "claim_body mar unm now org iid repo run agent sponsor w = (Inr (Abort frozen), w')"
  obtains r x where "List.find (\<lambda>r. w_OrgID r = org \<and> w_RepoID r = repo \<and> w_ID r = iid) (items (fst w)) = Some r"
    and "find_claim org run (fst w) = Some x" and "x_Item x = iid" and "x_RepoID x = repo" and "x_AgentID x = agent"
    and "x_SponsorID x = Some sponsor" and "x_Outcome x = None" and "w_Active r = Some run"
    and "unm (case x_Intent x of None \<Rightarrow> '''' | Some b \<Rightarrow> b) = Some frozen"
proof -
  obtain r where r: "List.find (\<lambda>r. w_OrgID r = org \<and> w_RepoID r = repo \<and> w_ID r = iid) (items (fst w)) = Some r"
    using assms by (auto simp: claim_body_def run_simps)
  obtain x where x: "find_claim org run (fst w) = Some x"
    using assms by (cases "find_claim org run (fst w)")
      (auto simp: claim_body_def Let_def run_simps split: if_split_asm option.split_asm)
  show thesis
    using assms that[OF r x]
    by (cases "unm (case x_Intent x of None \<Rightarrow> '''' | Some b \<Rightarrow> b)")
      (auto simp: claim_body_def run_simps r x split: if_split_asm)
qed

text \<open>
  C4. A run is admitted only to work that may start: a claim that records a new execution was
  made by the organization's own runtime service, for an open item of that organization and
  repository that nobody executes, none of whose blockers in the organization is unfinished and
  none of whose proposals is undecided, dismissed or resolved. It returns the item's intent,
  frozen as in progress; the item is then in progress under that run, and nothing else of any
  item changes.
\<close>

theorem admission_requires_startable_work:
  assumes "work_ok (fst w)" and "ClaimExecution mar unm ctx now req w = (Inr frozen, w')" and "fst w' \<noteq> fst w"
  shows "\<exists>s r run. ctx = Some s \<and> s_ServiceName s = ''agent-runtime'' \<and> s_ActorKind s = ''service''
    \<and> q_RunId req = Some run \<and> r \<in> set (items (fst w)) \<and> w_OrgID r = s_OrgID s
    \<and> q_WorkItemId req = Some (w_ID r) \<and> q_RepoId req = Some (w_RepoID r)
    \<and> w_State r = ''open'' \<and> w_Active r = None
    \<and> (\<forall>(a, b) \<in> set (deps (fst w)). a = w_ID r \<longrightarrow>
          (\<forall>q \<in> set (items (fst w)). w_ID q = b \<and> w_OrgID q = s_OrgID s \<longrightarrow> w_State q = ''done''))
    \<and> (\<forall>m \<in> set (proposals (fst w)). m_OrgID m = s_OrgID s \<and> m_Item m = w_ID r \<longrightarrow>
          m_Decision m = Some ''approved'' \<and> m_ResolvedAt m = None)
    \<and> frozen = frozen_intent (is_proposal (s_OrgID s) (w_ID r) (fst w)) r
    \<and> items (fst w') = map (\<lambda>q. if w_ID q = w_ID r
          then q\<lparr>w_State := ''in_progress'', w_ExecutionClaimed := True, w_Active := Some run, w_DoneAt := None\<rparr> else q) (items (fst w))"
  using assms(2)
proof (rule ClaimExecution_Inr)
  fix s iid repo run agent sponsor
  assume owner: "executionOwner ctx w = (Inr s, w)" and ids: "q_WorkItemId req = Some iid" "q_RepoId req = Some repo" "q_RunId req = Some run"
    and t: "tx internal (claim_body mar unm now (s_OrgID s) iid repo run agent sponsor) w = (Inr frozen, w')"
  from t obtain w1 where c: "claim_body mar unm now (s_OrgID s) iid repo run agent sponsor (fst w, tl (snd w)) = (Inr (Commit frozen), w1)"
    and w1: "fst w' = fst w1" by (rule tx_cases) (use that assms(3) in auto)
  from c obtain r intent d1 n where r: "List.find (\<lambda>r. w_OrgID r = s_OrgID s \<and> w_RepoID r = repo \<and> w_ID r = iid) (items (fst w)) = Some r"
    and st: "w_State r = ''open''" "w_Active r = None" and pol: "\<not> unapproved (s_OrgID s) iid (fst w)" "\<not> blocked (s_OrgID s) iid (fst w)"
    and fr: "frozen = frozen_intent (is_proposal (s_OrgID s) iid (fst w)) r"
    and ins: "insert_claim \<lparr>x_OrgID = s_OrgID s, x_RunID = run, x_Item = iid, x_RepoID = repo, x_AgentID = agent,
           x_SponsorID = Some sponsor, x_Intent = Some intent, x_Outcome = None, x_ReleasedAt = None\<rparr> (fst w) = Inr ((), d1)"
    and upd: "update_items now (same_item (s_OrgID s) iid)
      (\<lambda>r. r\<lparr>w_State := ''in_progress'', w_ExecutionClaimed := True, w_Active := Some run\<rparr>) d1 = Inr (n, fst w1)"
    by (rule claim_body_commit) (use that w1 in auto)
  have r': "r \<in> set (items (fst w))" "w_OrgID r = s_OrgID s" "w_ID r = iid" "w_RepoID r = repo"
    using find_item_Some[OF r] by (auto simp: same_item_def)
  have uniq: "q = r" if "q \<in> set (items (fst w))" "w_ID q = iid" for q
    using that r' assms(1) by (auto simp: work_ok_def rows_ok_def distinct_map inj_on_def)
  have d1: "items d1 = items (fst w)" using ins by (simp add: insert_claim_Inr)
  have "items (fst w') = map (\<lambda>q. if w_ID q = w_ID r
          then q\<lparr>w_State := ''in_progress'', w_ExecutionClaimed := True, w_Active := Some run, w_DoneAt := None\<rparr> else q) (items (fst w))"
  proof -
    have "items (fst w') = update_rows (same_item (s_OrgID s) iid) (\<lambda>q. done_at now (Some q)
        (q\<lparr>w_State := ''in_progress'', w_ExecutionClaimed := True, w_Active := Some run\<rparr>)) (items (fst w))"
      using upd by (simp add: w1 update_items_Inr d1)
    moreover have "same_item (s_OrgID s) iid q = (w_ID q = w_ID r)" if "q \<in> set (items (fst w))" for q
      using uniq[OF that] r' by (auto simp: same_item_def)
    ultimately show ?thesis by (auto simp: update_rows_def done_at_def intro!: map_cong)
  qed
  moreover have "w_State q = ''done''" if "(iid, b) \<in> set (deps (fst w))" "q \<in> set (items (fst w))" "w_ID q = b" "w_OrgID q = s_OrgID s" for q b
    using pol(2) that unfolding blocked_def by (metis fst_conv snd_conv)
  moreover have "m_Decision m = Some ''approved'' \<and> m_ResolvedAt m = None" if "m \<in> set (proposals (fst w))" "m_OrgID m = s_OrgID s" "m_Item m = iid" for m
    using pol(1) that by (auto simp: unapproved_def)
  ultimately show ?thesis
    using owner ids st r' fr by (intro exI[of _ s] exI[of _ r] exI[of _ run]) (auto simp: executionOwner_run)
qed

theorem admission_requires_startable_work_witness:
  "\<exists>r \<in> set (items sample_workdb). w_State r = ''open'' \<and> w_ID r = 51
     \<and> fst (ClaimExecution sample_marshal sample_unmarshal (Some sample_runtime) 6 sample_claim (sample_workdb, []))
         = Inr (frozen_intent False r)"
proof -
  have "fst (sample_claimed, []) \<noteq> fst (sample_workdb, [])" by (simp add: sample_claimed_def sample_workdb_def)
  note t = admission_requires_startable_work[OF _ sample_claim_run this]
  have "\<exists>r run. r \<in> set (items sample_workdb) \<and> w_State r = ''open'' \<and> w_ID r = 51
      \<and> frozen_intent False (sample_row 1) = frozen_intent False r"
    using t sample_work_ok by (auto simp: sample_claim_def is_proposal_def sample_workdb_def)
  then show ?thesis using sample_claim_run by auto
qed

text \<open>
  A claim can be retried after a lost reply: repeated with the same identities after it
  succeeded, it returns the same frozen intent, whatever the item's text, and changes nothing,
  provided the wire form of a message decodes to that message.
\<close>

theorem claim_retry_identical:
  assumes "\<And>m b. mar m = Some b \<Longrightarrow> unm b = Some m"
    and "work_ok (fst w)" and "ClaimExecution mar unm ctx now req w = (Inr frozen, w')" and "fst w' \<noteq> fst w"
  shows "ClaimExecution mar unm ctx later req (fst w', []) = (Inr frozen, (fst w', []))"
  using assms(3)
proof (rule ClaimExecution_Inr)
  fix s iid repo run agent sponsor
  assume owner: "executionOwner ctx w = (Inr s, w)" and ids: "q_WorkItemId req = Some iid" "q_RepoId req = Some repo" "q_RunId req = Some run"
    "q_AgentId req = Some agent" "q_SponsorId req = Some sponsor"
    and nz: "iid \<noteq> uuid_Nil" "repo \<noteq> uuid_Nil" "run \<noteq> uuid_Nil" "agent \<noteq> uuid_Nil" "sponsor \<noteq> uuid_Nil"
    and t: "tx internal (claim_body mar unm now (s_OrgID s) iid repo run agent sponsor) w = (Inr frozen, w')"
  from t obtain w1 where c: "claim_body mar unm now (s_OrgID s) iid repo run agent sponsor (fst w, tl (snd w)) = (Inr (Commit frozen), w1)"
    and w1: "fst w' = fst w1" by (rule tx_cases) (use that assms(4) in auto)
  from c obtain r intent d1 n where r: "List.find (\<lambda>r. w_OrgID r = s_OrgID s \<and> w_RepoID r = repo \<and> w_ID r = iid) (items (fst w)) = Some r"
    and none: "find_claim (s_OrgID s) run (fst w) = None" and mar: "mar frozen = Some intent"
    and ins: "insert_claim \<lparr>x_OrgID = s_OrgID s, x_RunID = run, x_Item = iid, x_RepoID = repo, x_AgentID = agent,
           x_SponsorID = Some sponsor, x_Intent = Some intent, x_Outcome = None, x_ReleasedAt = None\<rparr> (fst w) = Inr ((), d1)"
    and upd: "update_items now (same_item (s_OrgID s) iid)
      (\<lambda>r. r\<lparr>w_State := ''in_progress'', w_ExecutionClaimed := True, w_Active := Some run\<rparr>) d1 = Inr (n, fst w1)"
    by (rule claim_body_commit) (use that w1 in auto)
  let ?x = "\<lparr>x_OrgID = s_OrgID s, x_RunID = run, x_Item = iid, x_RepoID = repo, x_AgentID = agent,
           x_SponsorID = Some sponsor, x_Intent = Some intent, x_Outcome = None, x_ReleasedAt = None\<rparr>"
  let ?f = "\<lambda>r. r\<lparr>w_State := ''in_progress'', w_ExecutionClaimed := True, w_Active := Some run\<rparr>"
  have r': "r \<in> set (items (fst w))" "same_item (s_OrgID s) iid r" "w_RepoID r = repo" using find_item_Some[OF r] by auto
  have d1: "d1 = (fst w)\<lparr>claims := claims (fst w) @ [?x]\<rparr>" using ins by (simp add: insert_claim_Inr)
  have ok': "work_ok (fst w')" using work_ok_steps[OF within_run[OF within_ClaimExecution assms(3)] assms(2)] .
  have "done_at now (Some r) (?f r) \<in> set (items (fst w'))"
    unfolding w1 update_items_set[OF upd] using r' by (force simp: d1)
  with ok' have row: "List.find (\<lambda>r. w_OrgID r = s_OrgID s \<and> w_RepoID r = repo \<and> w_ID r = iid) (items (fst w')) = Some (done_at now (Some r) (?f r))"
    using r' by (intro find_key_unique[where k = w_ID]) (auto simp: work_ok_def rows_ok_def same_item_def done_at_def)
  have "claims (fst w') = claims (fst w) @ [?x]" by (simp add: w1 update_items_rest[OF upd] d1)
  with none have claim: "find_claim (s_OrgID s) run (fst w') = Some ?x"
    by (auto simp: find_claim_def find_conv_filter find_None_iff' filter_empty_conv split: list.splits)
  have "executionOwner ctx v = (Inr s, v)" for v :: "workdb world"
    using owner by (auto simp: executionOwner_run)
  then show ?thesis
    using ids nz row claim assms(1)[OF mar]
    by (simp add: ClaimExecution_def executionID_def parseUUID_def op_defs claim_body_def lock_item_def)
qed

theorem claim_retry_identical_witness:
  "ClaimExecution sample_marshal sample_unmarshal (Some sample_runtime) 60 sample_claim (sample_claimed, [])
     = (Inr (frozen_intent False (sample_row 1)), (sample_claimed, []))"
proof -
  have "fst (sample_claimed, []) \<noteq> fst (sample_workdb, [])" by (simp add: sample_claimed_def sample_workdb_def)
  moreover have "sample_marshal m = Some b \<Longrightarrow> sample_unmarshal b = Some m" for m b
    by (auto simp: sample_marshal_def sample_unmarshal_def split: if_splits)
  ultimately show ?thesis
    using claim_retry_identical[OF _ _ sample_claim_run, of 60] sample_work_ok by simp
qed

section \<open>Outcomes and decisions are written once\<close>

definition outcome_of :: "workdb \<Rightarrow> uuid \<times> uuid \<Rightarrow> string option" where
  "outcome_of d k = (case find_claim (fst k) (snd k) d of None \<Rightarrow> None | Some x \<Rightarrow> x_Outcome x)"

lemma outcome_of_claims: "claims d' = claims d \<Longrightarrow> outcome_of d' k = outcome_of d k"
  by (simp add: outcome_of_def find_claim_def)

lemma outcome_of_insert: "insert_claim x d = Inr (u, d') \<Longrightarrow> outcome_of d k = Some v \<Longrightarrow> outcome_of d' k = Some v"
  by (auto simp: outcome_of_def find_claim_def insert_claim_Inr find_append split: option.splits)

lemma outcome_of_update:
  assumes "update_claims (same_claim org run) g d = Inr (u, d')" and "outcome_of d (org, run) = None"
    and "\<And>x. x_OrgID (g x) = x_OrgID x \<and> x_RunID (g x) = x_RunID x"
    and "outcome_of d k = Some v"
  shows "outcome_of d' k = Some v"
proof -
  have "claims d' = update_rows (same_claim org run) g (claims d)" using assms(1) by (auto simp: update_claims_Inr)
  moreover obtain x where x: "find_claim (fst k) (snd k) d = Some x" "x_Outcome x = Some v"
    using assms(4) by (auto simp: outcome_of_def split: option.splits)
  moreover have "k \<noteq> (org, run)" using assms(2,4) by auto
  then have "\<not> same_claim org run x" using find_claim_Some[OF x(1)] by (cases k) (auto simp: same_claim_def)
  ultimately show ?thesis
    using assms(3) by (simp add: outcome_of_def find_claim_def find_update_rows_same)
qed

lemma outcome_of_step: "work_step d d' \<Longrightarrow> outcome_of d k = Some v \<Longrightarrow> outcome_of d' k = Some v"
proof (induction rule: work_step.induct)
  case (Claim r d x u d1 now n d')
  then show ?case using outcome_of_insert[OF Claim(8)] outcome_of_claims[OF update_items_rest(2)[OF Claim(9)]] by simp
next
  case (Fence x d u d')
  then show ?case using outcome_of_insert by blast
next
  case (Release r d x result now u d1 state n d')
  have "outcome_of d (x_OrgID x, x_RunID x) = None" using Release(4,5) by (simp add: outcome_of_def)
  with Release show ?case
    using outcome_of_update[OF Release(6)] outcome_of_claims[OF update_items_rest(2)[OF Release(7)]] by simp
next
  case (Insert now it parent d r d')
  then show ?case using insert_item_row[OF Insert(1)] outcome_of_claims[of d' d] by simp
next
  case (Edit now P f d n d')
  then show ?case using outcome_of_claims[OF update_items_rest(2)[OF Edit(1)]] by simp
next
  case (Decide orgID repoID fp d m g now f n d' who kind)
  then show ?case using outcome_of_claims[OF update_items_rest(2)[OF Decide(5)]] outcome_of_claims[of "update_proposals _ g d" d]
    by (simp add: update_proposals_def)
next
  case (Resolve orgID repoID fp d m now why d')
  then show ?case using outcome_of_claims[OF update_items_rest(2)[OF Resolve(2)]] outcome_of_claims[of "update_proposals _ _ d" d]
    by (simp add: update_proposals_def)
qed (auto simp: insert_comment_def insert_subtask_def insert_dep_def insert_proposal_def outcome_of_def find_claim_def
    split: if_splits)

definition decision_on :: "workdb \<Rightarrow> uuid \<times> uuid \<times> string \<Rightarrow> (string \<times> uuid \<times> time option \<times> string) option" where
  "decision_on d k = (case List.find (same_finding (fst k) (fst (snd k)) (snd (snd k))) (proposals d) of
     None \<Rightarrow> None
   | Some m \<Rightarrow> map_option (\<lambda>x. (x, m_DecidedBy m, m_DecidedAt m, m_Reason m)) (m_Decision m))"

lemma decision_on_proposals: "proposals d' = proposals d \<Longrightarrow> decision_on d' k = decision_on d k"
  by (simp add: decision_on_def)

lemma decision_on_update:
  assumes "\<And>m. m_OrgID (g m) = m_OrgID m \<and> m_RepoID (g m) = m_RepoID m \<and> m_Fingerprint (g m) = m_Fingerprint m"
    and "decision_on d (org, repo, fp) = None \<or> (\<forall>m. m_Decision (g m) = m_Decision m \<and> m_DecidedBy (g m) = m_DecidedBy m
        \<and> m_DecidedAt (g m) = m_DecidedAt m \<and> m_Reason (g m) = m_Reason m)"
    and "decision_on d k = Some v"
  shows "decision_on (update_proposals (same_finding org repo fp) g d) k = Some v"
proof -
  obtain m where m: "List.find (same_finding (fst k) (fst (snd k)) (snd (snd k))) (proposals d) = Some m"
    using assms(3) by (auto simp: decision_on_def split: option.splits)
  have "k = (org, repo, fp)" if "same_finding org repo fp m"
    using that find_Some_in[OF m] by (cases k) (auto simp: same_finding_def)
  with assms m show ?thesis
    by (auto simp: decision_on_def update_proposals_def find_update_rows_same same_finding_def[abs_def])
qed

lemma decision_on_step: "work_step d d' \<Longrightarrow> decision_on d k = Some v \<Longrightarrow> decision_on d' k = Some v"
proof (induction rule: work_step.induct)
  case (Insert now it parent d r d')
  then show ?case using insert_item_row[OF Insert(1)] decision_on_proposals[of d' d] by simp
next
  case (Edit now P f d n d')
  then show ?case using decision_on_proposals[OF update_items_rest(3)[OF Edit(1)]] by simp
next
  case (Propose m d u d')
  then have "proposals d' = proposals d @ [m]" by (auto simp: insert_proposal_def split: if_splits)
  with Propose.prems show ?case by (auto simp: decision_on_def find_append split: option.splits)
next
  case (Decide orgID repoID fp d m g now f n d' who kind)
  have "decision_on d (orgID, repoID, fp) = None" using Decide(1,2) by (simp add: decision_on_def)
  then have "decision_on (update_proposals (same_finding orgID repoID fp) g d) k = Some v"
    using Decide(4) Decide.prems by (intro decision_on_update) (auto simp: decision_of_def)
  then show ?case by (simp add: decision_on_proposals[OF update_items_rest(3)[OF Decide(5)]])
next
  case (Resolve orgID repoID fp d m now why d')
  have "decision_on (update_proposals (same_finding orgID repoID fp) (\<lambda>p. p\<lparr>m_ResolvedAt := Some now\<rparr>) d) k = Some v"
    using Resolve.prems by (intro decision_on_update) auto
  then show ?case by (simp add: decision_on_proposals[OF update_items_rest(3)[OF Resolve(2)]])
next
  case (Claim r d x u d1 now n d')
  then show ?case
    using decision_on_proposals[OF update_items_rest(3)[OF Claim(9)]] decision_on_proposals[of d1 d] by (simp add: insert_claim_Inr)
next
  case (Release r d x result now u d1 state n d')
  then show ?case
    using decision_on_proposals[OF update_items_rest(3)[OF Release(7)]] decision_on_proposals[of d1 d] by (simp add: update_claims_Inr)
qed (auto simp: insert_comment_def insert_subtask_def insert_dep_def insert_claim_Inr decision_on_def split: if_splits)

text \<open>Both are providers of the contract of values written once.\<close>

interpretation run_outcomes: write_once work_exec outcome_of
proof
  fix d k v c assume "outcome_of d k = Some v"
  with work_exec_steps[of d c] show "outcome_of (work_exec c d) k = Some v"
    by (induction rule: rtranclp_induct) (auto intro: outcome_of_step)
qed

interpretation proposal_decisions: write_once work_exec decision_on
proof
  fix d k v c assume "decision_on d k = Some v"
  with work_exec_steps[of d c] show "decision_on (work_exec c d) k = Some v"
    by (induction rule: rtranclp_induct) (auto intro: decision_on_step)
qed

lemma release_state_run:
  "release_state req w = (Inr st, w') \<longleftrightarrow> w' = w \<and>
     (z_Outcome req = ''succeeded'' \<and> \<not> z_NoExecutionStarted req \<and> st = ''review''
      \<or> z_Outcome req \<in> {''failed'', ''cancelled'', ''over_budget''} \<and> \<not> z_NoExecutionStarted req \<and> st = ''blocked''
      \<or> z_Outcome req = ''admission_failed'' \<and> z_NoExecutionStarted req \<and> st = ''open'')"
  by (cases w) (auto simp: release_state_def run_simps split: if_split_asm)

lemma ReleaseExecution_Inr:
  assumes "ReleaseExecution ctx now req w = (Inr (), w')"
  obtains s run where "ctx = Some s" and "z_RunId req = Some run" and "outcome_of (fst w') (s_OrgID s, run) = Some (z_Outcome req)"
proof -
  obtain s iid repo run agent state where s: "ctx = Some s" and run: "z_RunId req = Some run"
    and t: "tx internal (release_body now (s_OrgID s) iid repo run agent (z_Outcome req) state) w = (Inr (), w')"
    using assms by (auto simp: ReleaseExecution_def bnd_Inr executionOwner_run executionID_run release_state_run)
  have "outcome_of (fst w') (s_OrgID s, run) = Some (z_Outcome req)"
    using t
  proof (cases rule: tx_cases)
    case (1 w1)
    from 1(1) show ?thesis
    proof (cases rule: release_body_commit)
      case (1 r)
      then show ?thesis
        by (simp add: \<open>fst w' = fst w1\<close> outcome_of_def find_claim_def insert_claim_Inr find_append)
    next
      case (2 r x d1 n)
      have "claims (fst w') = update_rows (same_claim (s_OrgID s) run)
          (\<lambda>y. y\<lparr>x_Outcome := Some (z_Outcome req), x_ReleasedAt := Some now\<rparr>) (claims (fst w))"
        using 2(8) update_items_rest(2)[OF 2(9)] by (simp add: update_claims_Inr \<open>fst w' = fst w1\<close>)
      with 2(2) find_claim_Some[OF 2(2)] show ?thesis
        by (simp add: outcome_of_def find_claim_def find_update_rows_same same_claim_def)
    qed
  next
    case (2 w1)
    obtain x where "find_claim (s_OrgID s) run (fst w) = Some x"
      using 2(1) by (cases "find_claim (s_OrgID s) run (fst w)") (auto simp: release_body_def run_simps split: if_split_asm)
    with 2 show ?thesis
      by (auto simp: release_body_def run_simps outcome_of_def split: if_split_asm)
  qed
  with s run show thesis by (rule that)
qed


definition sample_fence :: release_request where
  "sample_fence = \<lparr>z_WorkItemId = Some 51, z_RepoId = Some 40, z_RunId = Some 90, z_AgentId = Some 5,
     z_Outcome = ''admission_failed'', z_NoExecutionStarted = True\<rparr>"


section \<open>Readiness and admission agree\<close>

lemma select_items_in: "it \<in> set (select_items P d) \<longleftrightarrow> (\<exists>r \<in> set (items d). P r \<and> it = scan_item r)"
  by (auto simp: select_items_def)

text \<open>
  What the board calls ready can be started: an item listed as ready, whose proposals (if
  any) are approved and unresolved, that no run is active on, is admitted to the first claim
  with valid identities and a run identifier the organization has not used, when no statement
  fails and the intent can be written to the wire.
\<close>

theorem ready_items_are_admitted:
  assumes "work_ok d" and "fst (Ready ctx0 (s_OrgID s) epic (d, fs)) = Inr ready" and "it \<in> set ready"
    and "\<not> unapproved (s_OrgID s) (w_ID it) d"
    and "\<And>r. r \<in> set (items d) \<Longrightarrow> w_ID r = w_ID it \<Longrightarrow> w_Active r = None"
    and "executionOwner (Some s) (d, []) = (Inr s, (d, []))"
    and "q_WorkItemId req = Some (w_ID it)" and "q_RepoId req = Some (w_RepoID it)" and "q_RunId req = Some run"
    and "q_AgentId req = Some agent" and "q_SponsorId req = Some sponsor"
    and "uuid_Nil \<notin> {w_ID it, w_RepoID it, run, agent, sponsor}"
    and "find_claim (s_OrgID s) run d = None" and "\<And>m. mar m \<noteq> None"
  shows "\<exists>frozen w'. ClaimExecution mar unm (Some s) now req (d, []) = (Inr frozen, w') \<and> t_Id frozen = w_ID it
    \<and> (\<exists>r \<in> set (items (fst w')). w_ID r = w_ID it \<and> w_Active r = Some run)"
proof -
  obtain r where r: "r \<in> set (items d)" "it = scan_item r" "w_OrgID r = s_OrgID s" "w_State r = ''open''" "\<not> waiting d (w_ID r)"
    using assms(2,3) by (auto simp: Ready_def op_defs require_org_def lift_def RequireOrg_def select_items_in
        split: if_splits sum.splits prod.splits option.splits)
  have sc: "w_ID it = w_ID r" "w_RepoID it = w_RepoID r" by (simp_all add: r(2) scan_item_def item.defs)
  have idle: "w_Active r = None" using assms(5) r(1) sc by simp
  have inv: "distinct (map w_ID (items d))" "rows_ok d" "exec_ok d" using assms(1) by (simp_all add: work_ok_def rows_ok_def)
  have lock: "List.find (\<lambda>q. w_OrgID q = s_OrgID s \<and> w_RepoID q = w_RepoID r \<and> w_ID q = w_ID r) (items d) = Some r"
    using r by (intro find_key_unique[OF inv(1)]) auto
  have unblocked: "\<not> blocked (s_OrgID s) (w_ID r) d" using r(5) by (auto simp: blocked_def waiting_def)
  let ?frozen = "frozen_intent (is_proposal (s_OrgID s) (w_ID r) d) r"
  obtain intent where intent: "mar ?frozen = Some intent" using assms(14) by auto
  let ?x = "\<lparr>x_OrgID = s_OrgID s, x_RunID = run, x_Item = w_ID r, x_RepoID = w_RepoID r, x_AgentID = agent,
      x_SponsorID = Some sponsor, x_Intent = Some intent, x_Outcome = None, x_ReleasedAt = None\<rparr>"
  let ?f = "\<lambda>r. r\<lparr>w_State := ''in_progress'', w_ExecutionClaimed := True, w_Active := Some run\<rparr>"
  let ?d1 = "d\<lparr>claims := claims d @ [?x]\<rparr>"
  have "x_Outcome y \<noteq> None" if y: "y \<in> set (claims d)" "x_OrgID y = s_OrgID s" "x_Item y = w_ID r" for y
  proof
    assume "x_Outcome y = None"
    with y inv(3) obtain q where q: "q \<in> set (items d)" "same_item (x_OrgID y) (x_Item y) q" "w_Active q \<noteq> None"
      unfolding exec_ok_def live_ok_def by blast
    then have "q = r" using y r(1) inv(1) by (auto simp: distinct_map inj_on_def same_item_def)
    with q idle show False by simp
  qed
  moreover have "x_RunID y \<noteq> run" if "y \<in> set (claims d)" "x_OrgID y = s_OrgID s" for y
    using assms(13) that by (auto simp: find_claim_def find_None_iff')
  ultimately have ins: "insert_claim ?x d = Inr ((), ?d1)"
    using r(1) by (auto simp: insert_claim_Inr claim_checks_def)
  have rows: "\<forall>q \<in> set (items d). same_item (s_OrgID s) (w_ID r) q \<longrightarrow> row_checks (?f q)
      \<and> (case w_Parent (?f q) of None \<Rightarrow> True | Some p \<Rightarrow> p \<in> w_ID ` set (items d))"
    using inv(2) by (auto simp: rows_ok_def row_ok_def row_checks_def item_states_def)
  let ?d2 = "?d1\<lparr>items := update_rows (same_item (s_OrgID s) (w_ID r)) (\<lambda>r. done_at now (Some r) (?f r)) (items d)\<rparr>"
  have upd: "update_items now (same_item (s_OrgID s) (w_ID r)) ?f ?d1 = Inr (affected (same_item (s_OrgID s) (w_ID r)) (items d), ?d2)"
    using rows by (auto simp: update_items_Inr split: option.splits)
  have "ClaimExecution mar unm (Some s) now req (d, []) = (Inr ?frozen, (?d2, []))"
    using assms(4,6-13) lock unblocked intent ins upd r(4) idle
    by (simp add: ClaimExecution_def executionID_def parseUUID_def claim_body_def lock_item_def op_defs sc Let_def
        same_item_def[abs_def])
  moreover have "done_at now (Some r) (?f r) \<in> set (items ?d2)"
    using r by (force simp: set_update_rows same_item_def)
  moreover have "t_Id ?frozen = w_ID it"
    by (simp add: frozen_intent_def toProtoItem_def scan_item_def item.defs r(2))
  ultimately show ?thesis using sc by (intro exI conjI bexI[of _ "done_at now (Some r) (?f r)"]) auto
qed

definition sample_epic_db :: workdb where
  "sample_epic_db = sample_workdb\<lparr>items := [(sample_row 1)\<lparr>w_Parent := Some 52\<rparr>, sample_row 2]\<rparr>"

theorem ready_items_are_admitted_witness:
  "\<exists>frozen w'. ClaimExecution (\<lambda>m. Some (t_Goal m)) (\<lambda>_. None) (Some sample_runtime) 6 sample_claim (sample_epic_db, []) = (Inr frozen, w')
     \<and> t_Id frozen = 51"
proof -
  have ok: "work_ok sample_epic_db"
    by (simp add: work_ok_def rows_ok_def row_ok_def row_checks_def deps_ok_def proposals_ok_def exec_ok_def active_ok_def
        live_ok_def sample_epic_db_def sample_workdb_def sample_row_def IsValidType_def validTypes_def item_states_def acyclic_def)
  have rd: "fst (Ready (Some sample_runtime) (s_OrgID sample_runtime) 52 (sample_epic_db, [])) = Inr [scan_item (sample_row 1)]"
    by (simp add: Ready_def op_defs require_org_member sample_runtime_def select_items_def waiting_def sample_epic_db_def
        sample_workdb_def sample_row_def scan_item_def item.defs)
  have "\<exists>frozen w'. ClaimExecution (\<lambda>m. Some (t_Goal m)) (\<lambda>_. None) (Some sample_runtime) 6 sample_claim (sample_epic_db, []) = (Inr frozen, w')
     \<and> t_Id frozen = w_ID (scan_item (sample_row 1)) \<and> (\<exists>r \<in> set (items (fst w')). w_ID r = w_ID (scan_item (sample_row 1)) \<and> w_Active r = Some 90)"
    by (rule ready_items_are_admitted[OF ok rd, where agent = 5 and sponsor = 3])
      (auto simp: unapproved_def sample_epic_db_def sample_workdb_def sample_row_def executionOwner_def ret_def sample_runtime_def
        sample_claim_def scan_item_def item.defs find_claim_def)
  then show ?thesis by (auto simp: scan_item_def item.defs sample_row_def)
qed

section \<open>Proposals and edits\<close>

lemma decider_run [run_simps]:
  "decider ctx w = (Inr s, w') \<longleftrightarrow> ctx = Some s \<and> s_ActorKind s = ''user'' \<and> s_ActorID s \<noteq> uuid_Nil \<and> w' = w"
  by (cases ctx) (auto simp: decider_def run_simps split: if_splits)

lemma decided_now:
  assumes "List.find (same_finding org repo fp) (proposals d) = Some m"
    and "\<And>m. m_OrgID (g m) = m_OrgID m \<and> m_RepoID (g m) = m_RepoID m \<and> m_Fingerprint (g m) = m_Fingerprint m"
    and "m_Decision (g m) = Some v"
  shows "decision_on (update_proposals (same_finding org repo fp) g d) (org, repo, fp)
    = Some (v, m_DecidedBy (g m), m_DecidedAt (g m), m_Reason (g m))"
proof -
  have "same_finding org repo fp m" using find_Some_in[OF assms(1)] by simp
  with assms show ?thesis
    by (simp add: decision_on_def update_proposals_def find_update_rows_same same_finding_def[abs_def])
qed

lemma insert_comment_proposals: "insert_comment c d = Inr (u, d') \<Longrightarrow> proposals d' = proposals d"
  by (auto simp: insert_comment_def split: if_splits)

lemma approve_records:
  assumes "ApproveProposal ctx now repo fp who kind w = (Inr p, w')"
  shows "\<exists>s why. ctx = Some s \<and> s_ActorKind s = ''user'' \<and> s_ActorID s \<noteq> uuid_Nil
    \<and> decision_on (fst w) (s_OrgID s, repo, fp) = None
    \<and> decision_on (fst w') (s_OrgID s, repo, fp) = Some (''approved'', s_ActorID s, Some now, why)"
proof -
  obtain s f where s: "ctx = Some s" "s_ActorKind s = ''user''" "s_ActorID s \<noteq> uuid_Nil"
    and dc: "decide s repo fp f w = (Inr p, w')"
    and f: "f = (\<lambda>workItemID. bnd (update Sql (\<lambda>d. ((), update_proposals (same_finding (s_OrgID s) repo fp)
            (\<lambda>p. p\<lparr>m_Decision := Some ''approved'', m_DecidedBy := s_ActorID s, m_DecidedAt := Some now\<rparr>) d))) (\<lambda>_.
         bnd (stmt Sql (update_items now (\<lambda>r. w_OrgID r = s_OrgID s \<and> w_ID r = workItemID)
            (\<lambda>r. r\<lparr>w_AssigneeID := if who = uuid_Nil then s_ActorID s else who,
                   w_AssigneeKind := if who = uuid_Nil then ''user'' else kind\<rparr>))) (\<lambda>_. ret ())))"
    using assms by (auto simp: ApproveProposal_def Let_def run_simps split: if_split_asm)
  from dc obtain m w1 where m: "List.find (same_finding (s_OrgID s) repo fp) (proposals (fst w)) = Some m"
    "m_Decision m = None" and fw: "f (m_Item m) (fst w, tl (tl (snd w))) = (Inr (), w1)" "fst w' = fst w1"
    by (rule decide_commit) (rule that)
  obtain n where u: "update_items now (\<lambda>r. w_OrgID r = s_OrgID s \<and> w_ID r = m_Item m)
      (\<lambda>r. r\<lparr>w_AssigneeID := if who = uuid_Nil then s_ActorID s else who, w_AssigneeKind := if who = uuid_Nil then ''user'' else kind\<rparr>)
      (update_proposals (same_finding (s_OrgID s) repo fp)
        (\<lambda>p. p\<lparr>m_Decision := Some ''approved'', m_DecidedBy := s_ActorID s, m_DecidedAt := Some now\<rparr>) (fst w)) = Inr (n, fst w1)"
    using fw(1) by (auto simp: f run_simps)
  show ?thesis
    using s m decision_on_proposals[OF update_items_rest(3)[OF u]] decided_now[OF m(1),
        of "\<lambda>p. p\<lparr>m_Decision := Some ''approved'', m_DecidedBy := s_ActorID s, m_DecidedAt := Some now\<rparr>"]
    by (simp add: fw(2) decision_on_def[of "fst w"])
qed

lemma dismiss_records:
  assumes "DismissProposal ctx new_id now repo fp reason w = (Inr p, w')"
  shows "\<exists>s why. ctx = Some s \<and> s_ActorKind s = ''user'' \<and> s_ActorID s \<noteq> uuid_Nil
    \<and> decision_on (fst w) (s_OrgID s, repo, fp) = None
    \<and> decision_on (fst w') (s_OrgID s, repo, fp) = Some (''dismissed'', s_ActorID s, Some now, why)"
proof -
  let ?g = "\<lambda>s p. p\<lparr>m_Decision := Some ''dismissed'', m_DecidedBy := s_ActorID s, m_DecidedAt := Some now,
                     m_Reason := TrimSpace reason\<rparr>"
  obtain s f where s: "ctx = Some s" "s_ActorKind s = ''user''" "s_ActorID s \<noteq> uuid_Nil"
    and dc: "decide s repo fp f w = (Inr p, w')"
    and f: "f = (\<lambda>workItemID. bnd (update Sql (\<lambda>d. ((), update_proposals (same_finding (s_OrgID s) repo fp) (?g s) d))) (\<lambda>_.
         bnd (stmt Sql (update_items now (\<lambda>r. w_OrgID r = s_OrgID s \<and> w_ID r = workItemID) (\<lambda>r. r\<lparr>w_State := ''done''\<rparr>))) (\<lambda>_.
         stmt Sql (insert_comment \<lparr>c_ID = new_id, c_OrgID = s_OrgID s, c_WorkItemID = workItemID, c_AuthorID = s_ActorID s,
            c_AuthorKind = ''user'', c_Body = ''Maintenance proposal dismissed: '' @ TrimSpace reason, c_CreatedAt = now\<rparr>))))"
    using assms by (auto simp: DismissProposal_def Let_def run_simps split: if_split_asm)
  from dc obtain m w1 where m: "List.find (same_finding (s_OrgID s) repo fp) (proposals (fst w)) = Some m"
    "m_Decision m = None" and fw: "f (m_Item m) (fst w, tl (tl (snd w))) = (Inr (), w1)" "fst w' = fst w1"
    by (rule decide_commit) (rule that)
  obtain n d2 where u: "update_items now (\<lambda>r. w_OrgID r = s_OrgID s \<and> w_ID r = m_Item m) (\<lambda>r. r\<lparr>w_State := ''done''\<rparr>)
      (update_proposals (same_finding (s_OrgID s) repo fp) (?g s) (fst w)) = Inr (n, d2)" and d2: "proposals (fst w1) = proposals d2"
    using fw(1) by (auto simp: f run_simps dest!: insert_comment_proposals)
  show ?thesis
    using s m decision_on_proposals[OF update_items_rest(3)[OF u]] decision_on_proposals[OF d2] decided_now[OF m(1), of "?g s"]
    by (simp add: fw(2) decision_on_def[of "fst w"])
qed

text \<open>
  A maintenance proposal is decided by a person, once: an approval or a dismissal that
  succeeds was made by a user with an identity of their own, records that user and the time,
  and no later history of operations, by anyone, changes the decision, the decider, the time or
  the reason.
\<close>

theorem proposal_decided_once_by_a_person:
  assumes "ApproveProposal ctx now repo fp who kind w = (Inr p, w') \<and> verdict = ''approved''
      \<or> DismissProposal ctx new_id now repo fp reason w = (Inr p, w') \<and> verdict = ''dismissed''"
  shows "\<exists>s why. ctx = Some s \<and> s_ActorKind s = ''user'' \<and> s_ActorID s \<noteq> uuid_Nil
    \<and> decision_on (fst w) (s_OrgID s, repo, fp) = None
    \<and> decision_on (fold work_exec history (fst w')) (s_OrgID s, repo, fp) = Some (verdict, s_ActorID s, Some now, why)"
  using assms proposal_decisions.history_keeps
  by (blast dest: approve_records dismiss_records)

definition sample_proposed :: workdb where
  "sample_proposed = sample_workdb\<lparr>proposals := [\<lparr>m_OrgID = 7, m_RepoID = 40, m_Fingerprint = ''f'', m_Item = 51,
     m_ResolvedAt = None, m_Decision = None, m_DecidedBy = 0, m_DecidedAt = None, m_Reason = ''''\<rparr>]\<rparr>"

theorem proposal_decided_once_by_a_person_witness:
  "\<exists>why. decision_on (work_exec (DoDismiss (Some sample_member) 70 9 40 ''f'' ''no'', [])
      (fst (snd (ApproveProposal (Some sample_member) 8 40 ''f'' 0 '''' (sample_proposed, []))))) (7, 40, ''f'')
    = Some (''approved'', 3, Some 8, why)"
proof -
  obtain p w' where a: "ApproveProposal (Some sample_member) 8 40 ''f'' 0 '''' (sample_proposed, []) = (Inr p, w')"
    by (simp add: ApproveProposal_def decider_def op_defs decide_def sample_member_def sample_proposed_def sample_workdb_def
        sample_row_def same_finding_def update_proposals_def update_items_def row_checks_def done_at_def proposal_join_def
        IsValidType_def validTypes_def item_states_def)
  show ?thesis
    using proposal_decided_once_by_a_person[of "Some sample_member" 8 40 "''f''" 0 "''''" "(sample_proposed, [])" p w' "''approved''"
        0 "''''" "[(DoDismiss (Some sample_member) 70 9 40 ''f'' ''no'', [])]"] a
    by (auto simp: sample_member_def)
qed

lemma humanEditor_run [run_simps]:
  "humanEditor ctx w = (Inr s, w') \<longleftrightarrow> ctx = Some s \<and> w' = w \<and> s_OrgID s \<noteq> uuid_Nil \<and> s_ActorID s \<noteq> uuid_Nil
     \<and> s_ActorKind s = ''user''"
  by (cases ctx) (auto simp: humanEditor_def run_simps split: if_splits)

lemma parseUUID_run [run_simps]: "parseUUID raw w = (Inr u, w') \<longleftrightarrow> raw = Some u \<and> w' = w"
  by (cases raw) (auto simp: parseUUID_def run_simps)

lemma GetItem_db: "GetItem ctx req w = (r, w') \<Longrightarrow> fst w' = fst w"
proof -
  assume run: "GetItem ctx req w = (r, w')"
  have "within (same (\<lambda>d. d)) (GetItem ctx req)"
    unfolding GetItem_def to_status_def AwaitingApproval_def isMaintenanceProposal_def get_item_def GetByKey_def callerOrg_def parseUUID_def
    by (auto intro!: same_frame.frame_rules same_frame.frame_from_context same_frame.frame_require_org split: sum.split option.split)
  from within_run[OF this run] show ?thesis by (simp add: same_def)
qed

lemma affected_one:
  assumes "affected P rs = 1" and "distinct (map k rs)"
  obtains r where "r \<in> set rs" and "P r" and "\<And>q. q \<in> set rs \<Longrightarrow> P q \<longleftrightarrow> k q = k r"
proof -
  obtain r where r: "filter P rs = [r]" using assms(1) by (auto simp: affected_def length_Suc_conv)
  then have "r \<in> set (filter P rs)" by simp
  then have "r \<in> set rs \<and> P r" by simp
  moreover have "P q \<longleftrightarrow> k q = k r" if "q \<in> set rs" for q
  proof
    assume "P q"
    with that have "q \<in> set (filter P rs)" by simp
    then show "k q = k r" unfolding r by simp
  next
    assume "k q = k r"
    with that calculation assms(2) have "q = r" by (auto simp: distinct_map inj_on_def)
    with calculation show "P q" by simp
  qed
  ultimately show thesis using that by blast
qed

text \<open>
  People edit unstarted intent only, and only what they have seen: an edit that succeeds
  was made by a person for one open item of their own organization and of the repository they
  named, that no run has ever claimed and no maintenance proposal stands behind, whose values
  were the ones the caller expected; it changes the fields in the mask of that item, and no
  other field and no other item; a new type is a legal one and a new goal is not blank.
\<close>

theorem edits_touch_only_expected_unstarted_work:
  assumes "work_ok (fst w)" and "PatchItem ctx now req w = (Inr got, w')"
  shows "\<exists>s r v. ctx = Some s \<and> s_ActorKind s = ''user'' \<and> r \<in> set (items (fst w)) \<and> w_OrgID r = s_OrgID s
    \<and> k_Id req = Some (w_ID r) \<and> k_RepoId req = Some (w_RepoID r) \<and> k_Expected req = Some (values_of r)
    \<and> w_State r = ''open'' \<and> \<not> w_ExecutionClaimed r \<and> \<not> is_proposal (s_OrgID s) (w_ID r) (fst w)
    \<and> k_Values req = Some v \<and> set (k_UpdateMask req) \<subseteq> set editable_fields
    \<and> (''type'' \<in> set (k_UpdateMask req) \<longrightarrow> IsValidType (v_Type v))
    \<and> (''goal'' \<in> set (k_UpdateMask req) \<longrightarrow> TrimSpace (v_Goal v) \<noteq> '''')
    \<and> items (fst w') = map (\<lambda>q. if w_ID q = w_ID r then apply_patch (k_UpdateMask req) v q else q) (items (fst w))"
proof -
  obtain v old where v: "k_Values req = Some v" "k_Expected req = Some old"
    using assms(2) by (cases "k_Values req"; cases "k_Expected req") (auto simp: PatchItem_def run_simps)
  let ?P = "\<lambda>s iid repo r. w_OrgID r = s_OrgID s \<and> w_RepoID r = repo \<and> w_ID r = iid
      \<and> w_State r = ''open'' \<and> \<not> w_ExecutionClaimed r \<and> \<not> is_proposal (w_OrgID r) (w_ID r) (fst w) \<and> values_of r = old"
  let ?f = "apply_patch (k_UpdateMask req) v"
  obtain s iid repo where s: "ctx = Some s" "s_ActorKind s = ''user''" "k_Id req = Some iid" "k_RepoId req = Some repo"
    and chk: "set (k_UpdateMask req) \<subseteq> set editable_fields" "''type'' \<in> set (k_UpdateMask req) \<longrightarrow> IsValidType (v_Type v)"
      "''goal'' \<in> set (k_UpdateMask req) \<longrightarrow> TrimSpace (v_Goal v) \<noteq> ''''"
    and u: "\<exists>d'. update_items now (?P s iid repo) ?f (fst w) = Inr (1, d') \<and> fst w' = d'"
    using assms(2) by (auto simp: PatchItem_def v run_simps dest!: GetItem_db split: if_split_asm)
  from u have a1: "affected (?P s iid repo) (items (fst w)) = 1"
    and it': "items (fst w') = update_rows (?P s iid repo) (\<lambda>r. done_at now (Some r) (?f r)) (items (fst w))"
    by (auto simp: update_items_Inr)
  have ok: "distinct (map w_ID (items (fst w)))" "rows_ok (fst w)" using assms(1) by (simp_all add: work_ok_def rows_ok_def)
  obtain r where r: "r \<in> set (items (fst w))" "?P s iid repo r" and only: "\<And>q. q \<in> set (items (fst w)) \<Longrightarrow> ?P s iid repo q \<longleftrightarrow> w_ID q = w_ID r"
    using affected_one[OF a1 ok(1)] by blast
  have "done_at now (Some q) (?f q) = ?f q" if "q \<in> set (items (fst w))" "w_State q = ''open''" for q
    using ok(2) that by (auto simp: done_at_def apply_patch_def rows_ok_def row_ok_def)
  then have "items (fst w') = map (\<lambda>q. if w_ID q = w_ID r then ?f q else q) (items (fst w))"
    unfolding it' update_rows_def using only by (intro map_cong) auto
  with s chk r v show ?thesis by (intro exI[of _ s] exI[of _ r] exI[of _ v]) auto
qed

definition sample_patch :: patch_request where
  "sample_patch = \<lparr>k_Id = Some 51, k_RepoId = Some 40,
     k_Values = Some \<lparr>v_Type = ''bug'', v_Goal = ''new'', v_Acceptance = [], v_Constraints = [], v_RequiredGates = []\<rparr>,
     k_Expected = Some (values_of (sample_row 1)), k_UpdateMask = [''goal'']\<rparr>"

theorem edits_touch_only_expected_unstarted_work_witness:
  "\<exists>got w'. PatchItem (Some sample_member) 8 sample_patch (sample_workdb, []) = (Inr got, w')
     \<and> items (fst w') = [(sample_row 1)\<lparr>w_Goal := ''new''\<rparr>, sample_row 2]"
proof -
  obtain got w' where p: "PatchItem (Some sample_member) 8 sample_patch (sample_workdb, []) = (Inr got, w')"
    by (simp add: PatchItem_def humanEditor_def parseUUID_def op_defs sample_patch_def sample_member_def sample_workdb_def
        sample_row_def values_of_def editable_fields_def TrimSpace_def is_space_def update_items_def row_checks_def apply_patch_def
        done_at_def GetItem_def callerOrg_def to_status_def get_item_def AwaitingApproval_def isMaintenanceProposal_def
        is_proposal_def IsValidType_def validTypes_def item_states_def scan_item_def item.defs)
  from edits_touch_only_expected_unstarted_work[OF _ p] sample_work_ok
  have "items (fst w') = [(sample_row 1)\<lparr>w_Goal := ''new''\<rparr>, sample_row 2]"
    by (auto simp: sample_workdb_def sample_patch_def sample_row_def apply_patch_def)
  with p show ?thesis by blast
qed

end
