(* ===== verification/NF_SwarmPlan.thy ===== *)
theory NF_SwarmPlan
  imports NF_WorkRuns
begin

text \<open>
  The swarm planner (\<open>internal/swarm/planner.go\<close>): it asks a model for a decomposition of an
  epic, refuses one that names an unknown role or type or whose dependencies are not a directed
  acyclic graph, and writes it as child items with dependency edges. The model call with the
  decoding of its answer is an argument. The colouring search takes fuel; with one unit more
  than there are subtasks it never runs out (\<open>checkAcyclic_returns\<close>).
\<close>

section \<open>Subtasks\<close>

record subtask =
  u_Key :: string
  u_Title :: string
  u_Goal :: string
  u_Type :: string
  u_AgentRole :: string
  u_DependsOn :: "string list"

datatype planerr =
    NoModel
  | ModelFailed string
  | NoSubtasks
  | RetryFailed planerr string
  | Refused planerr
  | SearchUnfinished
  | UnknownRole string string
  | UnknownType string string
  | NoKey string
  | DuplicateKey string
  | UnknownDependency string string
  | CycleDetected string

section \<open>The acyclicity check\<close>

text \<open>The map \<open>byKey\<close>, with the checks of the loop that fills it.\<close>

fun index_keys :: "subtask list \<Rightarrow> (string \<rightharpoonup> subtask) \<Rightarrow> planerr + (string \<rightharpoonup> subtask)" where
  "index_keys [] byKey = Inr byKey"
| "index_keys (s # subs) byKey =
     (if u_Key s = '''' then Inl (NoKey (u_Title s))
      else if byKey (u_Key s) \<noteq> None then Inl (DuplicateKey (u_Key s))
      else index_keys subs (byKey(u_Key s \<mapsto> s)))"

fun check_deps :: "(string \<rightharpoonup> subtask) \<Rightarrow> string \<Rightarrow> string list \<Rightarrow> planerr + unit" where
  "check_deps byKey key [] = Inr ()"
| "check_deps byKey key (dp # rest) =
     (if byKey dp = None then Inl (UnknownDependency key dp) else check_deps byKey key rest)"

fun check_known :: "(string \<rightharpoonup> subtask) \<Rightarrow> subtask list \<Rightarrow> planerr + unit" where
  "check_known byKey [] = Inr ()"
| "check_known byKey (s # subs) =
     (case check_deps byKey (u_Key s) (u_DependsOn s) of Inl e \<Rightarrow> Inl e | Inr _ \<Rightarrow> check_known byKey subs)"

datatype color = White | Gray | Black

text \<open>A missing key of \<open>byKey\<close> reads as the zero \<open>Subtask\<close>, which depends on nothing.\<close>

definition depends_on :: "(string \<rightharpoonup> subtask) \<Rightarrow> string \<Rightarrow> string list" where
  "depends_on byKey key = (case byKey key of None \<Rightarrow> [] | Some s \<Rightarrow> u_DependsOn s)"

function (sequential) visit :: "nat \<Rightarrow> (string \<rightharpoonup> subtask) \<Rightarrow> string \<Rightarrow> (string \<Rightarrow> color) \<Rightarrow> (planerr + (string \<Rightarrow> color)) option"
  and visit_all :: "nat \<Rightarrow> (string \<rightharpoonup> subtask) \<Rightarrow> string list \<Rightarrow> (string \<Rightarrow> color) \<Rightarrow> (planerr + (string \<Rightarrow> color)) option" where
  "visit 0 byKey key col = None"
| "visit (Suc n) byKey key col =
     (case col key of
        Gray \<Rightarrow> Some (Inl (CycleDetected key))
      | Black \<Rightarrow> Some (Inr col)
      | White \<Rightarrow>
          (case visit_all n byKey (depends_on byKey key) (col(key := Gray)) of
             Some (Inr col') \<Rightarrow> Some (Inr (col'(key := Black)))
           | r \<Rightarrow> r))"
| "visit_all n byKey [] col = Some (Inr col)"
| "visit_all n byKey (dp # rest) col =
     (case visit n byKey dp col of
        Some (Inr col') \<Rightarrow> visit_all n byKey rest col'
      | r \<Rightarrow> r)"
  by pat_completeness auto

termination
  by (relation "measures [\<lambda>x. case x of Inl (n, _) \<Rightarrow> n | Inr (n, _) \<Rightarrow> n,
      \<lambda>x. case x of Inl _ \<Rightarrow> 0 | Inr (_, _, ds, _) \<Rightarrow> Suc (length ds)]") auto

definition checkAcyclic :: "subtask list \<Rightarrow> (planerr + unit) option" where
  "checkAcyclic subs =
     (case index_keys subs Map.empty of
        Inl e \<Rightarrow> Some (Inl e)
      | Inr byKey \<Rightarrow>
          (case check_known byKey subs of
             Inl e \<Rightarrow> Some (Inl e)
           | Inr _ \<Rightarrow>
               map_option (map_sum id (\<lambda>_. ()))
                 (visit_all (Suc (length subs)) byKey (map u_Key subs) (\<lambda>_. White))))"

section \<open>The search\<close>

definition edges :: "(string \<rightharpoonup> subtask) \<Rightarrow> (string \<times> string) set" where
  "edges byKey = {(k, dp). dp \<in> set (depends_on byKey k)}"

definition grays :: "(string \<Rightarrow> color) \<Rightarrow> string set" where
  "grays col = {k. col k = Gray}"

definition blacks :: "(string \<Rightarrow> color) \<Rightarrow> string set" where
  "blacks col = {k. col k = Black}"

lemma color_update_simps [simp]:
  "grays (col(k := Black)) = grays col - {k}" "blacks (col(k := Black)) = insert k (blacks col)"
  "grays (col(k := Gray)) = insert k (grays col)" "blacks (col(k := Gray)) = blacks col - {k}"
  by (auto simp: grays_def blacks_def)

lemma white_outside: "col k = White \<Longrightarrow> k \<notin> grays col \<and> k \<notin> blacks col"
  by (simp add: grays_def blacks_def)

text \<open>What is finished depends on finished keys only, and without a cycle.\<close>

definition settled :: "(string \<rightharpoonup> subtask) \<Rightarrow> (string \<Rightarrow> color) \<Rightarrow> bool" where
  "settled byKey col \<longleftrightarrow> (\<forall>k \<in> blacks col. set (depends_on byKey k) \<subseteq> blacks col)
     \<and> acyclic (edges byKey \<inter> blacks col \<times> blacks col)"

lemma acyclic_source:
  assumes "acyclic R" and "k \<notin> Range R" and "k \<notin> Y"
  shows "acyclic (R \<union> {k} \<times> Y)"
proof -
  let ?S = "R \<union> {k} \<times> Y"
  have path: "(x, y) \<in> ?S\<^sup>+ \<Longrightarrow> y \<noteq> k \<and> (x \<noteq> k \<longrightarrow> (x, y) \<in> R\<^sup>+)" for x y
  proof (induction rule: trancl_induct)
    case (base y)
    with assms show ?case by auto
  next
    case (step y z)
    with assms show ?case by (auto intro: trancl_into_trancl)
  qed
  show ?thesis
    unfolding acyclic_def using path assms(1) by (metis acyclic_def)
qed

lemma settled_finish:
  assumes "settled byKey col" and "col k = Gray" and "set (depends_on byKey k) \<subseteq> blacks col"
  shows "settled byKey (col(k := Black))"
proof -
  have b: "blacks (col(k := Black)) = insert k (blacks col)" by simp
  let ?R = "edges byKey \<inter> blacks col \<times> blacks col"
  have k: "k \<notin> blacks col" using assms(2) by (simp add: blacks_def)
  have "edges byKey \<inter> insert k (blacks col) \<times> insert k (blacks col) \<subseteq> ?R \<union> {k} \<times> set (depends_on byKey k)"
    using assms(1,3) k by (auto simp: edges_def settled_def)
  moreover have "acyclic (?R \<union> {k} \<times> set (depends_on byKey k))"
    using assms(1,3) k by (intro acyclic_source) (auto simp: settled_def)
  ultimately have "acyclic (edges byKey \<inter> insert k (blacks col) \<times> insert k (blacks col))"
    by (rule acyclic_subset[rotated])
  with assms(1,3) show ?thesis by (auto simp: settled_def b)
qed

lemma visit_sound:
  "visit n byKey key col = Some (Inr col') \<Longrightarrow> settled byKey col \<Longrightarrow>
     settled byKey col' \<and> grays col' = grays col \<and> blacks col \<subseteq> blacks col' \<and> key \<in> blacks col'"
  "visit_all n byKey ds col = Some (Inr col') \<Longrightarrow> settled byKey col \<Longrightarrow>
     settled byKey col' \<and> grays col' = grays col \<and> blacks col \<subseteq> blacks col' \<and> set ds \<subseteq> blacks col'"
proof (induction n byKey key col and n byKey ds col arbitrary: col' and col' rule: visit_visit_all.induct)
  case (2 n byKey key col)
  show ?case
  proof (cases "col key")
    case White
    then obtain c where c: "visit_all n byKey (depends_on byKey key) (col(key := Gray)) = Some (Inr c)"
      and col': "col' = c(key := Black)"
      using 2(2) by (auto split: option.splits sum.splits)
    have bl: "blacks (col(key := Gray)) = blacks col" using white_outside[of col key, OF White] by simp
    have st: "settled byKey (col(key := Gray))" using 2(3) unfolding settled_def bl .
    note i = 2(1)[OF White c st]
    have ih1: "settled byKey c" by (rule i[THEN conjunct1])
    have ih2: "grays c = insert key (grays col)"
      using i[THEN conjunct2, THEN conjunct1] unfolding color_update_simps .
    have ih3: "blacks col \<subseteq> blacks c"
      using i[THEN conjunct2, THEN conjunct2, THEN conjunct1] unfolding bl .
    have ih4: "set (depends_on byKey key) \<subseteq> blacks c"
      by (rule i[THEN conjunct2, THEN conjunct2, THEN conjunct2])
    note ih = ih1 ih2 ih3 ih4
    have g: "c key = Gray" using ih(2) by (metis (mono_tags) grays_def insertI1 mem_Collect_eq)
    have "settled byKey col'" unfolding col' by (rule settled_finish[OF ih(1) g ih(4)])
    moreover have "grays col' = grays col" unfolding col' color_update_simps ih(2) using white_outside[of col key, OF White] by blast
    moreover have "blacks col \<subseteq> blacks col'" unfolding col' color_update_simps using ih(3) by blast
    moreover have "key \<in> blacks col'" unfolding col' color_update_simps by blast
    ultimately show ?thesis by blast
  next
    case Black
    with 2 show ?thesis by (auto simp: blacks_def)
  qed (use 2 in auto)
next
  case (4 n byKey dp rest col)
  then obtain c where c: "visit n byKey dp col = Some (Inr c)" and r: "visit_all n byKey rest c = Some (Inr col')"
    by (auto split: option.splits sum.splits)
  from 4(1)[OF c 4(4)] 4(2)[OF c refl r] show ?case by auto
qed auto

lemma visit_cycle:
  "visit n byKey key col = Some (Inl e) \<Longrightarrow> settled byKey col \<Longrightarrow> (\<And>g. g \<in> grays col \<Longrightarrow> (g, key) \<in> (edges byKey)\<^sup>+) \<Longrightarrow>
     \<not> acyclic (edges byKey)"
  "visit_all n byKey ds col = Some (Inl e) \<Longrightarrow> settled byKey col \<Longrightarrow>
     (\<And>g dp. g \<in> grays col \<Longrightarrow> dp \<in> set ds \<Longrightarrow> (g, dp) \<in> (edges byKey)\<^sup>+) \<Longrightarrow> \<not> acyclic (edges byKey)"
proof (induction n byKey key col and n byKey ds col rule: visit_visit_all.induct)
  case (2 n byKey key col)
  show ?case
  proof (cases "col key")
    case White
    then have c: "visit_all n byKey (depends_on byKey key) (col(key := Gray)) = Some (Inl e)"
      using 2(2) by (auto split: option.splits sum.splits)
    have bl: "blacks (col(key := Gray)) = blacks col" using white_outside[of col key, OF White] by simp
    have "settled byKey (col(key := Gray))" using 2(3) unfolding settled_def bl .
    moreover have "(g, dp) \<in> (edges byKey)\<^sup>+" if "g \<in> grays (col(key := Gray))" "dp \<in> set (depends_on byKey key)" for g dp
    proof -
      have e: "(key, dp) \<in> edges byKey" using that(2) by (simp add: edges_def)
      show ?thesis
      proof (cases "g = key")
        case True
        with e show ?thesis by auto
      next
        case False
        with that(1) have "(g, key) \<in> (edges byKey)\<^sup>+" using 2(4)[of g] by simp
        with e show ?thesis by (rule trancl_into_trancl[rotated])
      qed
    qed
    ultimately show ?thesis by (rule 2(1)[OF White c])
  next
    case Gray
    then have "(key, key) \<in> (edges byKey)\<^sup>+" using 2(4)[of key] by (simp add: grays_def)
    then show ?thesis by (auto simp: acyclic_def)
  qed (use 2 in auto)
next
  case (4 n byKey dp rest col)
  show ?case
  proof (cases "\<exists>c. visit n byKey dp col = Some (Inr c)")
    case True
    then obtain c where c: "visit n byKey dp col = Some (Inr c)" by blast
    then have r: "visit_all n byKey rest c = Some (Inl e)" using 4(3) by simp
    from visit_sound(1)[OF c 4(4)] show ?thesis using 4(2)[OF c refl r] 4(5) by auto
  next
    case False
    then have "visit n byKey dp col = Some (Inl e)" using 4(3) by (auto split: option.splits sum.splits)
    then show ?thesis using 4(1) 4(4,5) by auto
  qed
qed auto


text \<open>A search never whitens a key, so the white keys still to be searched bound its depth.\<close>

lemma visit_whites:
  "visit n byKey key col = Some (Inr c) \<Longrightarrow> c k = White \<Longrightarrow> col k = White"
  "visit_all n byKey ds col = Some (Inr c) \<Longrightarrow> c k = White \<Longrightarrow> col k = White"
proof (induction n byKey key col and n byKey ds col arbitrary: c and c rule: visit_visit_all.induct)
  case (2 n byKey key col)
  show ?case
  proof (cases "col key")
    case White
    then obtain c' where c': "visit_all n byKey (depends_on byKey key) (col(key := Gray)) = Some (Inr c')"
      and c: "c = c'(key := Black)"
      using 2(2) by (auto split: option.splits sum.splits)
    have "k \<noteq> key" using 2(3) c by auto
    then have "c' k = White" using 2(3) c by simp
    then have "(col(key := Gray)) k = White" by (rule 2(1)[OF White c'])
    with \<open>k \<noteq> key\<close> show ?thesis by simp
  qed (use 2 in auto)
next
  case (4 n byKey dp rest col)
  then obtain c' where c': "visit n byKey dp col = Some (Inr c')" and r: "visit_all n byKey rest c' = Some (Inr c)"
    by (auto split: option.splits sum.splits)
  show ?case by (rule 4(1)[OF c' 4(2)[OF c' refl r 4(4)]])
qed auto

lemma visit_returns:
  assumes "finite U" and "\<And>k. k \<in> U \<Longrightarrow> set (depends_on byKey k) \<subseteq> U"
  shows "key \<in> U \<Longrightarrow> card {k \<in> U. col k = White} < n \<Longrightarrow> visit n byKey key col \<noteq> None"
    and "set ds \<subseteq> U \<Longrightarrow> card {k \<in> U. col k = White} < n \<Longrightarrow> visit_all n byKey ds col \<noteq> None"
  using assms
proof (induction n byKey key col and n byKey ds col rule: visit_visit_all.induct)
  case (2 n byKey key col)
  show ?case
  proof (cases "col key")
    case White
    have "{k \<in> U. (col(key := Gray)) k = White} \<subset> {k \<in> U. col k = White}"
      using White 2(2) by auto
    then have "card {k \<in> U. (col(key := Gray)) k = White} < card {k \<in> U. col k = White}"
      using 2(4) by (intro psubset_card_mono) auto
    then have "card {k \<in> U. (col(key := Gray)) k = White} < n" using 2(3) by linarith
    moreover have "set (depends_on byKey key) \<subseteq> U" using 2(2,5) by blast
    ultimately have "visit_all n byKey (depends_on byKey key) (col(key := Gray)) \<noteq> None"
      using 2(1)[OF White] 2(4,5) by blast
    then show ?thesis using White by (auto split: option.splits sum.splits)
  qed simp_all
next
  case (4 n byKey dp rest col)
  have v: "visit n byKey dp col \<noteq> None" using 4(1) 4(3-6) by simp
  show ?case
  proof (cases "\<exists>c. visit n byKey dp col = Some (Inr c)")
    case True
    then obtain c where c: "visit n byKey dp col = Some (Inr c)" by blast
    have "{k \<in> U. c k = White} \<subseteq> {k \<in> U. col k = White}"
      using visit_whites(1)[OF c] by auto
    then have "card {k \<in> U. c k = White} \<le> card {k \<in> U. col k = White}"
      using 4(5) by (intro card_mono) auto
    then have "card {k \<in> U. c k = White} < n" using 4(4) by linarith
    moreover have "set rest \<subseteq> U" using 4(3) by simp
    ultimately have "visit_all n byKey rest c \<noteq> None" using 4(2)[OF c refl] 4(5,6) by blast
    with c show ?thesis by simp
  next
    case False
    with v show ?thesis by (auto split: option.splits sum.splits)
  qed
qed auto

section \<open>What the check decides\<close>

definition sub_entry :: "subtask \<Rightarrow> string \<times> subtask" where
  "sub_entry s = (u_Key s, s)"

lemma sub_entry_fst [simp]: "map (fst \<circ> sub_entry) subs = map u_Key subs" "fst (sub_entry s) = u_Key s"
  by (simp_all add: sub_entry_def)

lemma index_keys_Inr:
  "index_keys subs m = Inr m' \<longleftrightarrow>
     (\<forall>s \<in> set subs. u_Key s \<noteq> '''') \<and> distinct (map u_Key subs) \<and> (\<forall>s \<in> set subs. m (u_Key s) = None)
     \<and> m' = m ++ map_of (map sub_entry subs)"
proof (induction subs arbitrary: m)
  case (Cons s subs)
  define m1 where "m1 = m(u_Key s \<mapsto> s)"
  have m1: "m1 ++ map_of (map sub_entry subs) = m ++ map_of (map sub_entry (s # subs))"
    if "u_Key s \<notin> u_Key ` set subs"
    unfolding m1_def using that
    by (subst map_add_upd_left) (auto simp: dom_map_of_conv_image_fst sub_entry_def image_image)
  have n1: "m1 k = None \<longleftrightarrow> u_Key s \<noteq> k \<and> m k = None" for k by (simp add: m1_def)
  have "index_keys (s # subs) m = Inr m' \<longleftrightarrow>
      u_Key s \<noteq> [] \<and> m (u_Key s) = None \<and> index_keys subs m1 = Inr m'"
    by (simp add: m1_def)
  moreover obtain t t1 where t: "t = map_of (map sub_entry subs)" "t1 = map_of (map sub_entry (s # subs))"
    by blast
  ultimately show ?case
    unfolding Cons.IH n1 t[symmetric] using m1[folded t] by (auto simp: image_iff)
qed auto

lemma check_deps_Inr: "check_deps byKey key ds = Inr () \<longleftrightarrow> set ds \<subseteq> dom byKey"
  by (induction ds) auto

lemma check_known_Inr: "check_known byKey subs = Inr () \<longleftrightarrow> (\<forall>s \<in> set subs. set (u_DependsOn s) \<subseteq> dom byKey)"
proof (induction subs)
  case (Cons s subs)
  show ?case
    using check_deps_Inr[of byKey "u_Key s" "u_DependsOn s"] Cons
    by (cases "check_deps byKey (u_Key s) (u_DependsOn s)") auto
qed simp

text \<open>The graph of a decomposition: a subtask points to what it depends on.\<close>

definition sub_graph :: "subtask list \<Rightarrow> (string \<times> string) set" where
  "sub_graph subs = {(u_Key s, dp) | s dp. s \<in> set subs \<and> dp \<in> set (u_DependsOn s)}"

definition well_keyed :: "subtask list \<Rightarrow> bool" where
  "well_keyed subs \<longleftrightarrow> '''' \<notin> u_Key ` set subs \<and> distinct (map u_Key subs)
     \<and> (\<forall>s \<in> set subs. set (u_DependsOn s) \<subseteq> u_Key ` set subs)"

lemma table_edges:
  assumes "distinct (map u_Key subs)"
  shows "edges (map_of (map sub_entry subs)) = sub_graph subs"
proof -
  have d: "distinct (map fst (map sub_entry subs))" using assms by simp
  have "map_of (map sub_entry subs) k = Some s \<longleftrightarrow> s \<in> set subs \<and> u_Key s = k" for k s
    using map_of_eq_Some_iff[OF d, of k s] by (auto simp: sub_entry_def)
  then show ?thesis
    by (auto simp: edges_def sub_graph_def depends_on_def split: option.splits)
       (metis option.distinct(1) option.inject)+
qed

lemma table_dom: "dom (map_of (map sub_entry subs)) = u_Key ` set subs"
  by (auto simp: dom_map_of_conv_image_fst image_image)

text \<open>The search over a table with every dependency in it: it ends, and says whether there is a cycle.\<close>

lemma search_exact:
  assumes "well_keyed subs"
  defines "r \<equiv> visit_all (Suc (length subs)) (map_of (map sub_entry subs)) (map u_Key subs) (\<lambda>_. White)"
  shows "r \<noteq> None" and "(\<exists>c. r = Some (Inr c)) \<longleftrightarrow> acyclic (sub_graph subs)"
proof -
  let ?B = "map_of (map sub_entry subs)"
  let ?U = "u_Key ` set subs"
  have d: "distinct (map u_Key subs)" using assms(1) by (simp add: well_keyed_def)
  note e = table_edges[OF d]
  have closed: "set (depends_on ?B k) \<subseteq> ?U" for k
  proof -
    have "edges ?B \<subseteq> UNIV \<times> ?U" using assms(1) unfolding e by (fastforce simp: sub_graph_def well_keyed_def)
    then show ?thesis by (auto simp: edges_def)
  qed
  have "card {k \<in> ?U. (\<lambda>_. White) k = White} < Suc (length subs)"
    using card_image_le[of "set subs" u_Key] card_length[of subs] by simp
  then show ret: "r \<noteq> None"
    unfolding r_def using closed by (intro visit_returns(2)[of ?U]) auto
  have st: "settled ?B (\<lambda>_. White)" by (simp add: settled_def blacks_def acyclic_def)
  show "(\<exists>c. r = Some (Inr c)) \<longleftrightarrow> acyclic (sub_graph subs)"
  proof
    assume "\<exists>c. r = Some (Inr c)"
    then obtain c where c: "r = Some (Inr c)" by blast
    have v: "settled ?B c" "?U \<subseteq> blacks c"
      using visit_sound(2)[OF c[unfolded r_def] st] by auto
    have "edges ?B \<subseteq> ?U \<times> ?U"
      using assms(1) unfolding e by (fastforce simp: sub_graph_def well_keyed_def)
    then have "edges ?B \<inter> blacks c \<times> blacks c = edges ?B" using v(2) by auto
    then show "acyclic (sub_graph subs)" using v(1) by (simp add: settled_def e)
  next
    assume a: "acyclic (sub_graph subs)"
    show "\<exists>c. r = Some (Inr c)"
    proof (rule ccontr)
      assume "\<nexists>c. r = Some (Inr c)"
      with ret obtain x where "r = Some (Inl x)" by (metis not_None_eq sumE)
      then have "\<not> acyclic (edges ?B)"
        unfolding r_def by (rule visit_cycle(2)[OF _ st]) (simp add: grays_def)
      with a show False by (simp add: e)
    qed
  qed
qed


section \<open>Decomposing an epic\<close>

abbreviation nl :: string where
  "nl \<equiv> [CHR 0x0A]"

text \<open>\<open>strings.Join\<close>.\<close>

fun join :: "string \<Rightarrow> string list \<Rightarrow> string" where
  "join sep [] = []"
| "join sep [x] = x"
| "join sep (x # y # ys) = x @ sep @ join sep (y # ys)"

text \<open>
  A planner: its model, if one is configured, and the keys of \<open>KnownRoles\<close>, which \<open>NewPlanner\<close>
  all maps to true. The model answers the \<open>n\<close>-th call, given the system prompt and the prompt,
  with an error or with the decoded subtasks.
\<close>

type_synonym model_call = "nat \<Rightarrow> string \<Rightarrow> string \<Rightarrow> string + subtask list"

record planner =
  pl_Model :: "model_call option"
  pl_KnownRoles :: "string list"

definition NewPlanner :: "model_call option \<Rightarrow> string list \<Rightarrow> planner" where
  "NewPlanner model knownRoles = \<lparr>pl_Model = model, pl_KnownRoles = remdups knownRoles\<rparr>"

definition DefaultAgentRoles :: "string list" where
  "DefaultAgentRoles = [''architect'', ''implementer'', ''reviewer'', ''security'', ''test'', ''documentation'']"

definition decomposeSystemPrompt :: string where
  \<open>decomposeSystemPrompt =
     ''You are the NovaForge swarm planner. Decompose the given epic Work Item '' @
     ''into a small set of dependency-ordered subtasks, each assigned to a specialized agent role. '' @
     ''Each subtask needs a short stable "key" (lowercase, hyphenated, unique within this decomposition), '' @
     ''a "title", a "goal" describing what must be true when it is done, a work item "type" '' @
     ''(one of feature, bug, refactor, security, tech_debt, research, architecture, upgrade, incident, documentation), '' @
     ''an "agentRole" naming who should do it, and "dependsOn", the keys of subtasks that must complete first. '' @
     ''"type" and "agentRole" are different fields drawn from different lists: never put a role name in "type". '' @
     ''Order subtasks so that database and schema work precedes the backend work built on it, '' @
     ''backend work precedes admin configuration and frontend work that calls it, '' @
     ''and documentation and integration tests come last, depending on everything they exercise.''\<close>

definition allowedRoles :: "planner \<Rightarrow> string" where
  "allowedRoles p = join '', '' (sort (pl_KnownRoles p))"

definition systemPrompt :: "planner \<Rightarrow> string" where
  \<open>systemPrompt p = decomposeSystemPrompt
     @ nl @ ''The "type" of every subtask must be exactly one of: '' @ join '', '' SortedTypes @ ''.''
     @ nl @ ''The "agentRole" of every subtask must be exactly one of: '' @ allowedRoles p @ ''.''\<close>

definition buildDecomposePrompt :: "item \<Rightarrow> string list \<Rightarrow> string" where
  "buildDecomposePrompt epic documents =
     ''Epic '' @ w_Key epic @ '': '' @ w_Type epic @ nl @ nl @ ''Goal: '' @ w_Goal epic @ nl
     @ (if w_Acceptance epic = [] then [] else nl @ ''Acceptance criteria:'' @ nl
          @ concat (map (\<lambda>a. ''- '' @ a @ nl) (w_Acceptance epic)))
     @ (if documents = [] then [] else nl @ ''Relevant context:'' @ nl
          @ concat (map (\<lambda>t. ''---'' @ nl @ t @ nl) documents))"

text \<open>
  The text of a violation that \<open>validate\<close> reports, quoted back to the model; \<open>quoted\<close> is the
  verb \<open>%q\<close>. No other error is quoted back.
\<close>

fun violation_text :: "(string \<Rightarrow> string) \<Rightarrow> planerr \<Rightarrow> string" where
  "violation_text quoted (UnknownRole role key) =
     ''swarm: unknown agent role '' @ quoted role @ '' in subtask '' @ quoted key"
| "violation_text quoted (UnknownType key ty) =
     ''swarm: subtask '' @ quoted key @ '' has type '' @ quoted ty @ '', which is not one of: '' @ join '', '' SortedTypes"
| "violation_text quoted _ = []"

definition validateRoles :: "planner \<Rightarrow> subtask list \<Rightarrow> planerr + unit" where
  "validateRoles p subs =
     (case List.find (\<lambda>s. u_AgentRole s \<notin> set (pl_KnownRoles p)) subs of
        Some s \<Rightarrow> Inl (UnknownRole (u_AgentRole s) (u_Key s))
      | None \<Rightarrow> Inr ())"

definition validate :: "planner \<Rightarrow> subtask list \<Rightarrow> planerr + unit" where
  "validate p subs =
     (case validateRoles p subs of
        Inl e \<Rightarrow> Inl e
      | Inr _ \<Rightarrow>
          (case List.find (\<lambda>s. \<not> IsValidType (u_Type s)) subs of
             Some s \<Rightarrow> Inl (UnknownType (u_Key s) (u_Type s))
           | None \<Rightarrow> Inr ()))"

definition retryDecompose :: "(string \<Rightarrow> string) \<Rightarrow> planner \<Rightarrow> model_call \<Rightarrow> string \<Rightarrow> planerr \<Rightarrow> planerr + subtask list" where
  "retryDecompose quoted p model prompt cause =
     (case model 1 (systemPrompt p @ nl @ ''Your previous answer was rejected: '' @ violation_text quoted cause
                    @ nl @ ''Return the same decomposition with that corrected.'') prompt of
        Inl e \<Rightarrow> Inl (RetryFailed cause e)
      | Inr subs \<Rightarrow> (case validate p subs of Inl e \<Rightarrow> Inl e | Inr _ \<Rightarrow> Inr subs))"

text \<open>The check as \<open>Decompose\<close> and \<open>Materialise\<close> use it, its error wrapped.\<close>

definition refuse_cycle :: "subtask list \<Rightarrow> planerr + unit" where
  "refuse_cycle subs =
     (case checkAcyclic subs of
        None \<Rightarrow> Inl SearchUnfinished
      | Some (Inl e) \<Rightarrow> Inl (Refused e)
      | Some (Inr _) \<Rightarrow> Inr ())"

definition Decompose :: "(string \<Rightarrow> string) \<Rightarrow> planner \<Rightarrow> item \<Rightarrow> string list \<Rightarrow> planerr + subtask list" where
  "Decompose quoted p epic documents =
     (case pl_Model p of
        None \<Rightarrow> Inl NoModel
      | Some model \<Rightarrow>
          let prompt = buildDecomposePrompt epic documents in
          (case model 0 (systemPrompt p) prompt of
             Inl e \<Rightarrow> Inl (ModelFailed e)
           | Inr first \<Rightarrow>
               if first = [] then Inl NoSubtasks
               else
                 (case (case validate p first of Inl e \<Rightarrow> retryDecompose quoted p model prompt e | Inr _ \<Rightarrow> Inr first) of
                    Inl e \<Rightarrow> Inl e
                  | Inr subs \<Rightarrow> (case refuse_cycle subs of Inl e \<Rightarrow> Inl e | Inr _ \<Rightarrow> Inr subs))))"

section \<open>Writing the children\<close>

datatype swarmerr =
    Plan planerr
  | ChildFailed string "workerr fault"
  | LinkFailed string string "workerr fault"

type_synonym 'a swarm_op = "(workdb, swarmerr, 'a) op"

definition subtaskGoal :: "subtask \<Rightarrow> string" where
  "subtaskGoal s =
     (if u_Title s = '''' then u_Goal s
      else if u_Goal s = '''' then u_Title s
      else u_Title s @ '': '' @ u_Goal s)"

text \<open>The item \<open>Materialise\<close> passes: the fields it sets, and Go's zero values.\<close>

definition child_item :: "item \<Rightarrow> subtask \<Rightarrow> item" where
  "child_item epic s =
     \<lparr>w_ID = uuid_Nil, w_OrgID = uuid_Nil, w_RepoID = w_RepoID epic, w_Key = '''', w_Type = u_Type s,
      w_Goal = subtaskGoal s, w_Acceptance = [], w_Constraints = [], w_RequiredGates = [],
      w_AssigneeID = uuid_Nil, w_AssigneeKind = '''', w_State = '''', w_CreatedAt = epoch,
      w_ExecutionClaimed = False\<rparr>"

fun write_children :: "ctx \<Rightarrow> (string \<Rightarrow> uuid) \<Rightarrow> time \<Rightarrow> item \<Rightarrow> subtask list \<Rightarrow> item list swarm_op" where
  "write_children ctx new_id now epic [] = ret []"
| "write_children ctx new_id now epic (s # subs) =
     bnd (wrap (ChildFailed (u_Key s))
            (CreateChild ctx (new_id (u_Key s)) now (w_ID epic) (u_Key s) (u_AgentRole s) (child_item epic s))) (\<lambda>it.
     bnd (write_children ctx new_id now epic subs) (\<lambda>its. ret (it # its)))"

fun write_links :: "ctx \<Rightarrow> (string \<Rightarrow> uuid) \<Rightarrow> (string \<times> string) list \<Rightarrow> unit swarm_op" where
  "write_links ctx idByKey [] = ret ()"
| "write_links ctx idByKey ((key, dp) # rest) =
     bnd (wrap (LinkFailed key dp) (AddDependency ctx (idByKey key) (idByKey dp))) (\<lambda>_.
     write_links ctx idByKey rest)"

definition sub_links :: "subtask list \<Rightarrow> (string \<times> string) list" where
  "sub_links subs = concat (map (\<lambda>s. map (\<lambda>dp. (u_Key s, dp)) (u_DependsOn s)) subs)"

text \<open>A missing key of \<open>idByKey\<close> reads as the zero \<open>Item\<close>.\<close>

definition ids_by_key :: "subtask list \<Rightarrow> item list \<Rightarrow> string \<Rightarrow> uuid" where
  "ids_by_key subs its key =
     (case map_of (zip (map u_Key subs) (map w_ID its)) key of None \<Rightarrow> uuid_Nil | Some i \<Rightarrow> i)"

definition Materialise :: "ctx \<Rightarrow> (string \<Rightarrow> uuid) \<Rightarrow> time \<Rightarrow> item \<Rightarrow> subtask list \<Rightarrow> item list swarm_op" where
  "Materialise ctx new_id now epic subs =
     (if subs = [] then fail (Plan NoSubtasks)
      else bnd (lift (map_sum Plan id (refuse_cycle subs))) (\<lambda>_.
        bnd (write_children ctx new_id now epic subs) (\<lambda>its.
        bnd (write_links ctx (ids_by_key subs its) (sub_links subs)) (\<lambda>_.
        ret its))))"

section \<open>The plan is checked\<close>

lemma checkAcyclic_decides:
  "checkAcyclic subs \<noteq> None
    \<and> (checkAcyclic subs = Some (Inr ()) \<longleftrightarrow> well_keyed subs \<and> acyclic (sub_graph subs))"
proof (cases "index_keys subs Map.empty")
  case (Inl e)
  then have "\<not> ('''' \<notin> u_Key ` set subs \<and> distinct (map u_Key subs))"
    using index_keys_Inr[of subs Map.empty "Map.empty ++ map_of (map sub_entry subs)"] by (auto intro: rev_image_eqI)
  then show ?thesis using Inl by (auto simp: checkAcyclic_def well_keyed_def)
next
  case (Inr byKey)
  then have keys: "'''' \<notin> u_Key ` set subs" "distinct (map u_Key subs)"
    and b: "byKey = map_of (map sub_entry subs)"
    by (auto simp: index_keys_Inr)
  note known = check_known_Inr[of byKey subs, unfolded b table_dom]
  show ?thesis
  proof (cases "check_known byKey subs")
    case (Inl e)
    then have "\<not> well_keyed subs" using known by (auto simp: b well_keyed_def)
    with Inl Inr show ?thesis by (simp add: checkAcyclic_def)
  next
    case known': (Inr u)
    then have wk: "well_keyed subs" using keys known by (simp add: b well_keyed_def)
    note s = search_exact[OF wk]
    have "checkAcyclic subs = map_option (map_sum id (\<lambda>_. ()))
        (visit_all (Suc (length subs)) (map_of (map sub_entry subs)) (map u_Key subs) (\<lambda>_. White))"
      using Inr known' by (simp add: checkAcyclic_def b)
    with s wk show ?thesis by auto
  qed
qed

text \<open>
  C38. The acyclicity check always ends, and accepts a decomposition exactly when every subtask
  has a key of its own, every dependency names a subtask, and the dependencies form no cycle.
\<close>

theorem checkAcyclic_exact:
  "checkAcyclic subs \<noteq> None
    \<and> (checkAcyclic subs = Some (Inr ()) \<longleftrightarrow> well_keyed subs \<and> acyclic (sub_graph subs))"
  by (rule checkAcyclic_decides)

lemma refuse_cycle_Inr: "refuse_cycle subs = Inr u \<longleftrightarrow> well_keyed subs \<and> acyclic (sub_graph subs)"
  using checkAcyclic_decides[of subs] by (auto simp: refuse_cycle_def split: option.splits sum.splits)

lemma validate_Inr:
  "validate p subs = Inr u \<longleftrightarrow> (\<forall>s \<in> set subs. u_AgentRole s \<in> set (pl_KnownRoles p) \<and> IsValidType (u_Type s))"
  by (auto simp: validate_def validateRoles_def find_None_iff' split: option.splits dest: find_Some_in)

lemma retryDecompose_Inr: "retryDecompose quoted p model prompt e = Inr subs \<Longrightarrow> validate p subs = Inr ()"
  by (auto simp: retryDecompose_def split: sum.splits)

text \<open>
  What decomposing an epic returns can be scheduled: every subtask names a configured role
  and a work item type, has a key of its own, depends on subtasks of the same answer only, and
  without a cycle, whatever the model answered. It is empty only when the model's first answer
  was refused and its second one empty.
\<close>

theorem decomposition_is_schedulable:
  assumes "Decompose quoted (NewPlanner (Some model) roles) epic documents = Inr subs"
  shows "(\<forall>s \<in> set subs. u_AgentRole s \<in> set roles \<and> IsValidType (u_Type s))
    \<and> well_keyed subs \<and> acyclic (sub_graph subs)
    \<and> (subs = [] \<longrightarrow> (\<exists>first e. model 0 (systemPrompt (NewPlanner (Some model) roles)) (buildDecomposePrompt epic documents) = Inr first
          \<and> first \<noteq> [] \<and> validate (NewPlanner (Some model) roles) first = Inl e))"
proof -
  let ?p = "NewPlanner (Some model) roles"
  have m: "pl_Model ?p = Some model" "set (pl_KnownRoles ?p) = set roles" by (simp_all add: NewPlanner_def)
  obtain first where first: "model 0 (systemPrompt ?p) (buildDecomposePrompt epic documents) = Inr first" "first \<noteq> []"
    and subs: "(case validate ?p first of
        Inl e \<Rightarrow> retryDecompose quoted ?p model (buildDecomposePrompt epic documents) e | Inr _ \<Rightarrow> Inr first) = Inr subs"
    and c: "refuse_cycle subs = Inr ()"
    using assms by (auto simp: Decompose_def m Let_def split: sum.splits if_splits)
  have "validate ?p subs = Inr ()"
    using subs by (auto split: sum.splits dest: retryDecompose_Inr)
  then show ?thesis
    using subs first c by (auto simp: validate_Inr m refuse_cycle_Inr split: sum.splits)
qed

lemma retried_decomposition_may_be_empty:
  assumes "pl_Model p = Some model" and "model 0 (systemPrompt p) (buildDecomposePrompt epic documents) = Inr first"
    and "first \<noteq> []" and "validate p first = Inl e" and "\<And>sys prompt. model 1 sys prompt = Inr []"
  shows "Decompose quoted p epic documents = Inr []"
    and "Materialise ctx new_id now epic2 [] w = (Inl (Plan NoSubtasks), w)"
  using assms
  by (simp_all add: Decompose_def Let_def retryDecompose_def refuse_cycle_def checkAcyclic_def validate_def
      validateRoles_def Materialise_def fail_def)

text \<open>
  A decomposition is refused before anything is written, the database untouched, unless it
  is not empty, its keys and dependencies are in order and it has no cycle; a decomposition
  that is in order never fails that way.
\<close>

theorem refused_plan_writes_nothing:
  "(\<exists>e. Materialise ctx new_id now epic subs w = (Inl (Plan e), w)) \<longleftrightarrow>
     \<not> (subs \<noteq> [] \<and> well_keyed subs \<and> acyclic (sub_graph subs))"
proof -
  have c: "write_children ctx new_id now epic subs' v \<noteq> (Inl (Plan e), v')" for subs' v v' e
    by (induction subs' arbitrary: v v') (auto simp: run_simps)
  have l: "write_links ctx f L v \<noteq> (Inl (Plan e), v')" for f L v v' e
    by (induction L arbitrary: v v') (auto simp: run_simps)
  show ?thesis
  proof (cases "refuse_cycle subs")
    case (Inl e)
    then show ?thesis using refuse_cycle_Inr[of subs "()"] by (auto simp: Materialise_def fail_def)
  next
    case (Inr u)
    then show ?thesis
      using refuse_cycle_Inr[of subs u] c l by (auto simp: Materialise_def run_simps)
  qed
qed

section \<open>Writing twice\<close>

text \<open>Writing a plan only appends to the tables.\<close>

definition grows :: "workdb \<Rightarrow> workdb \<Rightarrow> bool" where
  "grows d d' \<longleftrightarrow> (\<exists>xs. items d' = items d @ xs) \<and> (\<exists>ys. subtasks d' = subtasks d @ ys) \<and> (\<exists>zs. deps d' = deps d @ zs)"

interpretation grow_frame: db_frame grows
  by unfold_locales (auto simp: grows_def)

lemmas grow_rules = grow_frame.frame_rules grow_frame.frame_from_context grow_frame.frame_require_org

lemma grows_CreateChild: "within grows (CreateChild ctx new_id now epic key role it)"
  unfolding CreateChild_def Let_def get_item_def
  by (intro grow_rules) (auto simp: grows_def insert_item_def insert_subtask_def Let_def split: if_splits)

lemma grows_AddDependency: "within grows (AddDependency ctx a b)"
  unfolding AddDependency_def check_dependency_def add_edge_def get_item_def
  by (intro grow_rules) (auto simp: grows_def insert_dep_def split: if_splits)

definition in_org :: "workdb \<Rightarrow> uuid \<Rightarrow> uuid \<Rightarrow> bool" where
  "in_org d org iid \<longleftrightarrow> (\<exists>r \<in> set (items d). w_OrgID r = org \<and> w_ID r = iid)"

definition child_written :: "workdb \<Rightarrow> uuid \<Rightarrow> uuid \<Rightarrow> string \<Rightarrow> item \<Rightarrow> bool" where
  "child_written d org epic key it \<longleftrightarrow>
     (\<exists>e r. List.find (\<lambda>e. e_Parent e = epic \<and> e_Key e = key) (subtasks d) = Some e \<and> r \<in> set (items d)
        \<and> w_OrgID r = org \<and> w_ID r = e_Item e \<and> it = scan_item r)"

definition linked :: "workdb \<Rightarrow> uuid \<Rightarrow> uuid \<Rightarrow> uuid \<Rightarrow> bool" where
  "linked d org a b \<longleftrightarrow> (a, b) \<in> set (deps d) \<and> in_org d org a \<and> in_org d org b"

lemma grows_keeps:
  assumes "grows d d'"
  shows "child_written d org epic key it \<Longrightarrow> child_written d' org epic key it"
    and "linked d org a b \<Longrightarrow> linked d' org a b"
proof -
  obtain xs ys zs where g: "items d' = items d @ xs" "subtasks d' = subtasks d @ ys" "deps d' = deps d @ zs"
    using assms by (auto simp: grows_def)
  show "child_written d org epic key it \<Longrightarrow> child_written d' org epic key it"
    unfolding child_written_def g find_append by fastforce
  show "linked d org a b \<Longrightarrow> linked d' org a b"
    unfolding linked_def in_org_def g by auto
qed

lemma child_again:
  assumes "work_ok d" and "child_written d (s_OrgID s) epic key got" and "IsValidType (w_Type it)"
  shows "CreateChild (Some s) new_id now epic key role it (d, []) = (Inr got, (d, []))"
proof -
  obtain e r where e: "List.find (\<lambda>e. e_Parent e = epic \<and> e_Key e = key) (subtasks d) = Some e"
    and r: "r \<in> set (items d)" "w_OrgID r = s_OrgID s" "w_ID r = e_Item e" "got = scan_item r"
    using assms(2) by (auto simp: child_written_def)
  have "distinct (map w_ID (items d))" using assms(1) by (simp add: work_ok_def rows_ok_def)
  from get_item_found[OF this r(1)] r(2-4)
  have "get_item (s_OrgID s) (e_Item e) (d, []) = (Inr got, (d, []))" by simp
  then show ?thesis by (rule CreateChild_again[OF assms(3) e])
qed

lemma link_again:
  assumes "work_ok d" and "linked d (s_OrgID s) a b"
  shows "AddDependency (Some s) a b (d, []) = (Inr (), (d, []))"
proof -
  obtain x y where x: "x \<in> set (items d)" "w_OrgID x = s_OrgID s" "w_ID x = a"
    and y: "y \<in> set (items d)" "w_OrgID y = s_OrgID s" "w_ID y = b" and e: "(a, b) \<in> set (deps d)"
    using assms(2) by (auto simp: linked_def in_org_def)
  have u: "distinct (map w_ID (items d))" and ac: "acyclic (set (deps d))"
    using assms(1) by (simp_all add: work_ok_def rows_ok_def deps_ok_def)
  have g: "get_item (s_OrgID s) a (d, []) = (Inr (scan_item x), (d, []))"
    "get_item (s_OrgID s) b (d, []) = (Inr (scan_item y), (d, []))"
    using get_item_found[OF u x(1)] get_item_found[OF u y(1)] x y by simp_all
  have "a \<noteq> b" "(b, a) \<notin> (set (deps d))\<^sup>+"
    using ac e unfolding acyclic_def by (auto intro: trancl_into_trancl2)
  then show ?thesis
    using e by (simp add: AddDependency_def check_dependency_def add_edge_def op_defs set_ancestors insert_dep_def
        g[unfolded op_defs])
qed

lemma AddDependency_linked:
  assumes "AddDependency (Some s) a b w = (Inr u, w')"
  shows "linked (fst w') (s_OrgID s) a b"
proof -
  have "in_org (fst w) (s_OrgID s) a" "in_org (fst w) (s_OrgID s) b" "insert_dep a b (fst w) = Inr ((), fst w')"
    using assms by (auto simp: AddDependency_def check_dependency_def add_edge_def run_simps in_org_def
        split: if_splits dest!: find_Some_in)
  moreover from this(3) have "(a, b) \<in> set (deps (fst w')) \<and> items (fst w') = items (fst w)"
    by (cases w') (auto simp: insert_dep_def split: if_split_asm)
  ultimately show ?thesis by (simp add: linked_def in_org_def)
qed

lemma CreateChild_type: "CreateChild ctx new_id now epic key role it w = (Inr got, w') \<Longrightarrow> IsValidType (w_Type it)"
  by (auto simp: CreateChild_def run_simps split: if_splits)

lemma grows_children: "within grows (write_children ctx new_id now epic subs)"
  by (induction subs) (auto intro!: grow_rules grows_CreateChild)

lemma grows_links: "within grows (write_links ctx f L)"
  by (induction ctx f L rule: write_links.induct) (auto intro!: grow_rules grows_AddDependency)

lemma ok_links: "within work_step\<^sup>*\<^sup>* (write_links ctx f L)"
  by (induction ctx f L rule: write_links.induct) (auto intro!: step_rules within_AddDependency)

lemma write_children_written:
  "write_children (Some s) new_id now epic subs w = (Inr its, w') \<Longrightarrow> work_ok (fst w) \<Longrightarrow>
     work_ok (fst w') \<and> list_all2 (\<lambda>u it. IsValidType (u_Type u) \<and> child_written (fst w') (s_OrgID s) (w_ID epic) (u_Key u) it) subs its"
proof (induction subs arbitrary: w its)
  case (Cons u subs)
  obtain it w1 its' where c: "CreateChild (Some s) (new_id (u_Key u)) now (w_ID epic) (u_Key u) (u_AgentRole u) (child_item epic u) w = (Inr it, w1)"
    and r: "write_children (Some s) new_id now epic subs w1 = (Inr its', w')" and its: "its = it # its'"
    using Cons.prems(1) by (auto simp: run_simps)
  have ok1: "work_ok (fst w1)" by (rule work_ok_steps[OF within_run[OF within_CreateChild c] Cons.prems(2)])
  have "child_written (fst w1) (s_OrgID s) (w_ID epic) (u_Key u) it"
    by (rule CreateChild_found[OF Cons.prems(2) c]) (auto simp: child_item_def child_written_def)
  then have "child_written (fst w') (s_OrgID s) (w_ID epic) (u_Key u) it"
    by (rule grows_keeps(1)[OF within_run[OF grows_children r]])
  moreover have "IsValidType (u_Type u)" using CreateChild_type[OF c] by (simp add: child_item_def)
  ultimately show ?case using Cons.IH[OF r ok1] by (simp add: its)
qed (auto simp: run_simps)

lemma write_links_written:
  "write_links (Some s) f L w = (Inr u, w') \<Longrightarrow> \<forall>(k, dp) \<in> set L. linked (fst w') (s_OrgID s) (f k) (f dp)"
proof (induction "Some s" f L arbitrary: w rule: write_links.induct)
  case (2 f key dp rest)
  then obtain w1 where a: "AddDependency (Some s) (f key) (f dp) w = (Inr (), w1)"
    and r: "write_links (Some s) f rest w1 = (Inr u, w')"
    by (auto simp: run_simps)
  from grows_keeps(2)[OF within_run[OF grows_links r] AddDependency_linked[OF a]] 2(1)[OF r] show ?case by auto
qed simp

lemma write_children_again:
  "list_all2 (\<lambda>u it. IsValidType (u_Type u) \<and> child_written d (s_OrgID s) (w_ID epic) (u_Key u) it) subs its \<Longrightarrow>
     work_ok d \<Longrightarrow> write_children (Some s) new_id now epic subs (d, []) = (Inr its, (d, []))"
proof (induction subs its rule: list_all2_induct)
  case (Cons u subs it its)
  then have "CreateChild (Some s) (new_id (u_Key u)) now (w_ID epic) (u_Key u) (u_AgentRole u) (child_item epic u) (d, [])
      = (Inr it, (d, []))"
    by (intro child_again) (simp_all add: child_item_def)
  with Cons show ?case by (simp add: bnd_def wrap_def ret_def)
qed (simp add: ret_def)

lemma write_links_again:
  "\<forall>(k, dp) \<in> set L. linked d (s_OrgID s) (f k) (f dp) \<Longrightarrow> work_ok d \<Longrightarrow>
     write_links (Some s) f L (d, []) = (Inr (), (d, []))"
  by (induction "Some s" f L rule: write_links.induct) (auto simp: bnd_def wrap_def ret_def link_again)

lemma Materialise_Inr:
  assumes "Materialise ctx new_id now epic subs w = (Inr its, w')"
  obtains w1 where "subs \<noteq> []" and "refuse_cycle subs = Inr ()" and "write_children ctx new_id now epic subs w = (Inr its, w1)"
    and "write_links ctx (ids_by_key subs its) (sub_links subs) w1 = (Inr (), w')"
  using assms by (auto simp: Materialise_def run_simps split: if_splits)

text \<open>
  A plan once written stays as written: each subtask has its child, recorded under the
  epic and the subtask's key, with the contents returned; each dependency of the plan is an edge
  between the two children; the dependency graph has no cycle. Writing the same plan again,
  with whatever identifiers and at whatever time, returns the same children and changes nothing.
\<close>

theorem materialise_converges:
  assumes "work_ok (fst w)" and "Materialise (Some s) new_id now epic subs w = (Inr its, w')"
  shows "Materialise (Some s) new_id2 now2 epic subs (fst w', []) = (Inr its, (fst w', []))
    \<and> list_all2 (\<lambda>u it. child_written (fst w') (s_OrgID s) (w_ID epic) (u_Key u) it) subs its
    \<and> (\<forall>u \<in> set subs. \<forall>dp \<in> set (u_DependsOn u).
          linked (fst w') (s_OrgID s) (ids_by_key subs its (u_Key u)) (ids_by_key subs its dp))
    \<and> acyclic (set (deps (fst w')))"
proof -
  let ?f = "ids_by_key subs its"
  let ?P = "\<lambda>d u it. IsValidType (u_Type u) \<and> child_written d (s_OrgID s) (w_ID epic) (u_Key u) it"
  obtain w1 where subs: "subs \<noteq> []" "refuse_cycle subs = Inr ()"
    and c: "write_children (Some s) new_id now epic subs w = (Inr its, w1)"
    and l: "write_links (Some s) ?f (sub_links subs) w1 = (Inr (), w')"
    using assms(2) by (rule Materialise_Inr)
  have c1: "work_ok (fst w1)" "list_all2 (?P (fst w1)) subs its"
    using write_children_written[OF c assms(1)] by auto
  have ok: "work_ok (fst w')" by (rule work_ok_steps[OF within_run[OF ok_links l] c1(1)])
  have kids: "list_all2 (?P (fst w')) subs its"
    using c1(2) grows_keeps(1)[OF within_run[OF grows_links l]] by (auto elim: list_all2_mono)
  have links: "\<forall>(k, dp) \<in> set (sub_links subs). linked (fst w') (s_OrgID s) (?f k) (?f dp)"
    by (rule write_links_written[OF l])
  have "Materialise (Some s) new_id2 now2 epic subs (fst w', []) = (Inr its, (fst w', []))"
    using subs write_children_again[OF kids ok] write_links_again[OF links ok]
    by (simp add: Materialise_def bnd_def ret_def lift_def)
  moreover have "list_all2 (\<lambda>u it. child_written (fst w') (s_OrgID s) (w_ID epic) (u_Key u) it) subs its"
    using kids by (auto elim: list_all2_mono)
  moreover have "acyclic (set (deps (fst w')))" using ok by (simp add: work_ok_def deps_ok_def)
  ultimately show ?thesis using links by (auto simp: sub_links_def)
qed

definition sample_plan :: "subtask list" where
  "sample_plan =
     [\<lparr>u_Key = ''api'', u_Title = ''API'', u_Goal = '''', u_Type = ''feature'', u_AgentRole = ''implementer'', u_DependsOn = [''db'']\<rparr>,
      \<lparr>u_Key = ''db'', u_Title = '''', u_Goal = ''schema'', u_Type = ''feature'', u_AgentRole = ''architect'', u_DependsOn = []\<rparr>]"

definition sample_answers :: model_call where
  "sample_answers n sys prompt = Inr (if n = 0 then map (\<lambda>u. u\<lparr>u_Type := ''architect''\<rparr>) sample_plan else sample_plan)"

theorem decomposition_is_schedulable_witness:
  "Decompose id (NewPlanner (Some sample_answers) DefaultAgentRoles) (scan_item (sample_row 1)) [] = Inr sample_plan
    \<and> acyclic (sub_graph sample_plan)"
proof -
  have "Decompose id (NewPlanner (Some sample_answers) DefaultAgentRoles) (scan_item (sample_row 1)) [] = Inr sample_plan"
    by (simp add: Decompose_def Let_def NewPlanner_def sample_answers_def sample_plan_def validate_def validateRoles_def
        DefaultAgentRoles_def IsValidType_def validTypes_def retryDecompose_def refuse_cycle_def checkAcyclic_def depends_on_def)
  with decomposition_is_schedulable[OF this] show ?thesis by blast
qed

definition sample_plan_ids :: "string \<Rightarrow> uuid" where
  "sample_plan_ids key = (if key = ''db'' then 54 else 53)"

lemma sample_materialised:
  "\<exists>its d. Materialise (Some sample_member) sample_plan_ids 9 (scan_item (sample_row 1)) sample_plan (sample_workdb, [])
     = (Inr its, (d, [])) \<and> map w_ID its = [53, 54] \<and> deps d = [(53, 54)]"
proof -
  have c: "refuse_cycle sample_plan = Inr ()"
    by (simp add: refuse_cycle_def checkAcyclic_def depends_on_def sample_plan_def)
  show ?thesis
    unfolding Materialise_def c
    by (simp add: CreateChild_def op_defs sample_workdb_def sample_row_def scan_item_def item.defs item_row.defs
        IsValidType_def validTypes_def item_states_def insert_item_def new_row_def done_at_def next_seq_def Let_def
        row_checks_def insert_subtask_def sample_member_def sample_plan_def sample_plan_ids_def child_item_def subtaskGoal_def
        AddDependency_def check_dependency_def add_edge_def get_item_def ancestors_def step_ids_def recursive_union.simps
        insert_dep_def sub_links_def ids_by_key_def)
qed

theorem materialise_converges_witness:
  "\<exists>its d. Materialise (Some sample_member) sample_plan_ids 9 (scan_item (sample_row 1)) sample_plan (sample_workdb, []) = (Inr its, (d, []))
    \<and> Materialise (Some sample_member) (\<lambda>_. 99) 70 (scan_item (sample_row 1)) sample_plan (d, []) = (Inr its, (d, []))
    \<and> deps d = [(53, 54)]"
proof -
  obtain its d where run: "Materialise (Some sample_member) sample_plan_ids 9 (scan_item (sample_row 1)) sample_plan (sample_workdb, [])
      = (Inr its, (d, []))" and dp: "deps d = [(53, 54)]"
    using sample_materialised by blast
  have ok: "work_ok (fst (sample_workdb, []))" using sample_work_ok by simp
  from materialise_converges[OF ok run, of "\<lambda>_. 99" 70] run dp show ?thesis by auto
qed

end
