(* ===== verification/NF_SwarmSched.thy ===== *)
theory NF_SwarmSched
  imports NF_WorkRuns
begin

text \<open>
  The swarm scheduler (\<open>internal/swarm/scheduler.go\<close>) with the way the deployment starts its
  runs (\<open>cmd/work-reviews/swarm.go\<close>, \<open>internal/agents/grpc.go\<close> \<open>StartRun\<close>): one tick of an
  epic settles its children by the outcome of their runs and starts runs for the ready ones.
  The errors a tick collects and goes on with are a list beside its count. What agent-runtime
  answers about a run is a function of the scheduler; it does not touch the work tables.
\<close>

section \<open>The scheduler\<close>

datatype tickerr =
    TickFailed "workerr fault"
  | MarkBlocked "workerr fault"
  | BlockSubtask string "workerr fault"
  | FinishSubtask string "workerr fault"
  | ReadOutcome string string
  | RoleUnknown string "workerr fault"
  | ClaimSubtask string "workerr fault"
  | NoStartRun string
  | StartFailed string "workerr fault"
  | RevertFailed "workerr fault"

type_synonym 'a tick_op = "(workdb, tickerr, 'a) op"

text \<open>The agent a role maps to is its identifier, the field a start uses.\<close>

record scheduler =
  sch_MaxConcurrentRuns :: int
  sch_RoleAgent :: "string \<rightharpoonup> uuid"
  sch_StartRun :: "(item \<Rightarrow> uuid \<Rightarrow> unit work_op) option"
  sch_RunOutcome :: "(item \<Rightarrow> string + string) option"

definition defaultMaxConcurrentRuns :: int where
  "defaultMaxConcurrentRuns = 5"

definition concurrencyCap :: "scheduler \<Rightarrow> int" where
  "concurrencyCap sch =
     (if sch_MaxConcurrentRuns sch > 0 then sch_MaxConcurrentRuns sch else defaultMaxConcurrentRuns)"

definition failedRunStates :: "string list" where
  "failedRunStates = [''failed'', ''over_budget'', ''cancelled'']"

definition runOutcome :: "scheduler \<Rightarrow> item \<Rightarrow> string \<times> tickerr list" where
  "runOutcome sch c =
     (case sch_RunOutcome sch of
        None \<Rightarrow> ('''', [])
      | Some f \<Rightarrow> (case f c of Inl e \<Rightarrow> ('''', [ReadOutcome (w_Key c) e]) | Inr state \<Rightarrow> (state, [])))"

text \<open>One child of the first loop: its state afterwards, and the errors met.\<close>

definition settle_child :: "scheduler \<Rightarrow> ctx \<Rightarrow> time \<Rightarrow> item \<Rightarrow> (string \<times> tickerr list) tick_op" where
  "settle_child sch ctx now c =
     (if w_State c \<noteq> ''in_progress'' then ret (w_State c, [])
      else case runOutcome sch c of (outcome, errs) \<Rightarrow>
        if outcome \<in> set failedRunStates then
          bnd (attempt (TransitionState ctx now (w_ID c) ''in_progress'' ''blocked'')) (\<lambda>r.
          ret (case r of
                 Inl e \<Rightarrow> (w_State c, errs @ [BlockSubtask (w_Key c) e])
               | Inr moved \<Rightarrow> (if moved then ''blocked'' else w_State c, errs)))
        else if outcome = ''succeeded'' then
          bnd (attempt (TransitionState ctx now (w_ID c) ''in_progress'' ''done'')) (\<lambda>r.
          ret (case r of
                 Inl e \<Rightarrow> (w_State c, errs @ [FinishSubtask (w_Key c) e])
               | Inr moved \<Rightarrow> (if moved then ''done'' else w_State c, errs)))
        else ret (w_State c, errs))"

text \<open>The first loop: how many children are in progress, whether one is blocked, the errors.\<close>

fun scan_children :: "scheduler \<Rightarrow> ctx \<Rightarrow> time \<Rightarrow> item list \<Rightarrow> (int \<times> bool \<times> tickerr list) tick_op" where
  "scan_children sch ctx now [] = ret (0, False, [])"
| "scan_children sch ctx now (c # cs) =
     bnd (settle_child sch ctx now c) (\<lambda>(state, errs).
     bnd (scan_children sch ctx now cs) (\<lambda>(inProgress, anyBlocked, errs').
     ret (if state = ''in_progress'' then inProgress + 1 else inProgress, state = ''blocked'' \<or> anyBlocked, errs @ errs')))"

text \<open>A claim that could not be followed by a run is undone.\<close>

definition revert_claim :: "ctx \<Rightarrow> time \<Rightarrow> uuid \<Rightarrow> tickerr list tick_op" where
  "revert_claim ctx now iid =
     bnd (attempt (SetState ctx now iid ''open'')) (\<lambda>r.
     ret (case r of Inl e \<Rightarrow> [RevertFailed e] | Inr _ \<Rightarrow> []))"

text \<open>One ready subtask of the second loop: whether a run was started, and the errors met.\<close>

definition start_one :: "scheduler \<Rightarrow> ctx \<Rightarrow> time \<Rightarrow> item \<Rightarrow> (bool \<times> tickerr list) tick_op" where
  "start_one sch ctx now it =
     bnd (attempt (SubtaskRole ctx (w_ID it))) (\<lambda>role.
     case role of
       Inl e \<Rightarrow> ret (False, [RoleUnknown (w_Key it) e])
     | Inr ro \<Rightarrow>
         (case sch_RoleAgent sch ro of
            None \<Rightarrow> ret (False, [])
          | Some agent \<Rightarrow>
              bnd (attempt (ClaimOpen ctx now (w_ID it))) (\<lambda>claimed.
              case claimed of
                Inl e \<Rightarrow> ret (False, [ClaimSubtask (w_Key it) e])
              | Inr won \<Rightarrow>
                  if \<not> won then ret (False, [])
                  else
                    (case sch_StartRun sch of
                       None \<Rightarrow> bnd (revert_claim ctx now (w_ID it)) (\<lambda>errs. ret (False, NoStartRun (w_Key it) # errs))
                     | Some start \<Rightarrow>
                         bnd (attempt (start it agent)) (\<lambda>r.
                         case r of
                           Inl e \<Rightarrow> bnd (revert_claim ctx now (w_ID it)) (\<lambda>errs. ret (False, StartFailed (w_Key it) e # errs))
                         | Inr _ \<Rightarrow> ret (True, []))))))"

fun start_ready :: "scheduler \<Rightarrow> ctx \<Rightarrow> time \<Rightarrow> int \<Rightarrow> item list \<Rightarrow> int \<Rightarrow> tickerr list \<Rightarrow> (int \<times> tickerr list) tick_op" where
  "start_ready sch ctx now inProgress [] started errs = ret (started, errs)"
| "start_ready sch ctx now inProgress (it # rest) started errs =
     (if inProgress + started \<ge> concurrencyCap sch then ret (started, errs)
      else bnd (start_one sch ctx now it) (\<lambda>(won, errs').
        start_ready sch ctx now inProgress rest (if won then started + 1 else started) (errs @ errs')))"

definition Tick :: "scheduler \<Rightarrow> ctx \<Rightarrow> time \<Rightarrow> uuid \<Rightarrow> (int \<times> tickerr list) tick_op" where
  "Tick sch ctx now epicID =
     bnd (wrap TickFailed (from_context ctx)) (\<lambda>scope.
     bnd (wrap TickFailed (Children ctx (s_OrgID scope) epicID)) (\<lambda>children.
     bnd (scan_children sch ctx now children) (\<lambda>(inProgress, anyBlocked, errs).
     bnd (if anyBlocked then wrap MarkBlocked (SetState ctx now epicID ''blocked'') else ret ()) (\<lambda>_.
     bnd (wrap TickFailed (Ready ctx (s_OrgID scope) epicID)) (\<lambda>ready.
     start_ready sch ctx now inProgress ready 0 errs)))))"

section \<open>How the deployment starts a run\<close>

text \<open>
  What starting a run does to the work service: the runtime claims the item for the run it has
  created, twice if the first attempt fails; \<open>later\<close> says whether the steps that follow on the
  runtime's and the identity service's own tables succeed. A failed admission releases the run
  with the outcome \<open>admission_failed\<close> and reports a failed precondition.
\<close>

definition run_claim :: "uuid \<Rightarrow> uuid \<Rightarrow> item \<Rightarrow> uuid \<Rightarrow> claim_request" where
  "run_claim runID sponsor subtask agent =
     \<lparr>q_WorkItemId = Some (w_ID subtask), q_RepoId = Some (w_RepoID subtask), q_RunId = Some runID,
      q_AgentId = Some agent, q_SponsorId = Some sponsor\<rparr>"

definition run_release :: "uuid \<Rightarrow> item \<Rightarrow> uuid \<Rightarrow> release_request" where
  "run_release runID subtask agent =
     \<lparr>z_WorkItemId = Some (w_ID subtask), z_RepoId = Some (w_RepoID subtask), z_RunId = Some runID,
      z_AgentId = Some agent, z_Outcome = ''admission_failed'', z_NoExecutionStarted = True\<rparr>"

definition claim_twice :: "(proto_item \<Rightarrow> string option) \<Rightarrow> (string \<Rightarrow> proto_item option) \<Rightarrow> ctx \<Rightarrow> time \<Rightarrow>
    claim_request \<Rightarrow> proto_item work_op" where
  "claim_twice mar unm rctx now req =
     bnd (attempt (ClaimExecution mar unm rctx now req)) (\<lambda>r.
     case r of Inr it \<Rightarrow> ret it | Inl _ \<Rightarrow> ClaimExecution mar unm rctx now req)"

definition start_admitted :: "(proto_item \<Rightarrow> string option) \<Rightarrow> (string \<Rightarrow> proto_item option) \<Rightarrow> ctx \<Rightarrow> time \<Rightarrow>
    (uuid \<Rightarrow> uuid) \<Rightarrow> uuid \<Rightarrow> (proto_item \<Rightarrow> bool) \<Rightarrow> item \<Rightarrow> uuid \<Rightarrow> unit work_op" where
  "start_admitted mar unm rctx now new_run sponsor later subtask agent =
     (let runID = new_run (w_ID subtask) in
      bnd (attempt (claim_twice mar unm rctx now (run_claim runID sponsor subtask agent))) (\<lambda>r.
      if (case r of Inr it \<Rightarrow> later it | Inl _ \<Rightarrow> False) then ret ()
      else
        bnd (attempt (ReleaseExecution rctx now (run_release runID subtask agent))) (\<lambda>_.
        fail (App (Status FailedPrecondition)))))"
section \<open>A tick takes the service's steps\<close>

lemma steps_settle: "within work_step\<^sup>*\<^sup>* (settle_child sch ctx now c)"
  unfolding settle_child_def by (auto intro!: step_rules within_edits split: prod.split)

lemma steps_scan: "within work_step\<^sup>*\<^sup>* (scan_children sch ctx now cs)"
  by (induction cs) (auto intro!: step_rules steps_settle split: prod.split)

lemma steps_revert: "within work_step\<^sup>*\<^sup>* (revert_claim ctx now iid)"
  unfolding revert_claim_def by (intro step_rules within_edits)

lemma steps_start_one:
  assumes "\<And>start it agent. sch_StartRun sch = Some start \<Longrightarrow> within work_step\<^sup>*\<^sup>* (start it agent)"
  shows "within work_step\<^sup>*\<^sup>* (start_one sch ctx now it)"
  unfolding start_one_def SubtaskRole_def
  by (auto intro!: step_rules within_edits steps_revert assms split: sum.split option.split)

lemma steps_claim_twice: "within work_step\<^sup>*\<^sup>* (claim_twice mar unm rctx now req)"
  unfolding claim_twice_def by (auto intro!: step_rules within_ClaimExecution split: sum.split)

lemma steps_start_admitted:
  "within work_step\<^sup>*\<^sup>* (start_admitted mar unm rctx now new_run sponsor later subtask agent)"
  unfolding start_admitted_def Let_def
  by (intro step_rules steps_claim_twice within_ReleaseExecution)

lemma start_ready_cap:
  "start_ready sch ctx now inProgress ready started errs w = (Inr (n, errs'), w') \<Longrightarrow>
     n = started \<or> inProgress + n \<le> concurrencyCap sch"
proof (induction ready arbitrary: started errs w)
  case (Cons it rest)
  show ?case
  proof (cases "inProgress + started \<ge> concurrencyCap sch")
    case False
    with Cons.prems obtain won e w1 where
      "start_ready sch ctx now inProgress rest (if won then started + 1 else started) (errs @ e) w1 = (Inr (n, errs'), w')"
      by (auto simp: run_simps)
    from Cons.IH[OF this] False show ?thesis by (auto split: if_splits)
  qed (use Cons.prems in \<open>auto simp: run_simps\<close>)
qed (auto simp: run_simps)

lemma Tick_Inr:
  assumes "Tick sch ctx now epic w = (Inr (n, errs), w')"
  obtains s kids w1 inProgress anyBlocked errs0 w2 w3 ready w4 where "ctx = Some s"
    and "Children ctx (s_OrgID s) epic w = (Inr kids, w1)"
    and "scan_children sch ctx now kids w1 = (Inr (inProgress, anyBlocked, errs0), w2)"
    and "(if anyBlocked then wrap MarkBlocked (SetState ctx now epic ''blocked'') else ret ()) w2 = (Inr (), w3)"
    and "Ready ctx (s_OrgID s) epic w3 = (Inr ready, w4)"
    and "start_ready sch ctx now inProgress ready 0 errs0 w4 = (Inr (n, errs), w')"
  using assms by (auto simp: Tick_def bnd_Inr wrap_Inr from_context_run split: prod.splits)

text \<open>
  A tick never starts more runs than the cap leaves room for beside the children it found
  in progress: with the children read and settled first, the runs started are none, or fit
  together with those in progress under the cap.
\<close>

theorem tick_respects_cap:
  assumes "Tick sch (Some s) now epic w = (Inr (n, errs), w')"
  shows "\<exists>kids w1 inProgress anyBlocked errs0 w2.
    Children (Some s) (s_OrgID s) epic w = (Inr kids, w1)
    \<and> scan_children sch (Some s) now kids w1 = (Inr (inProgress, anyBlocked, errs0), w2)
    \<and> (n = 0 \<or> inProgress + n \<le> concurrencyCap sch)"
  using assms by (elim Tick_Inr) (metis start_ready_cap option.inject)

section \<open>A claimed subtask\<close>

definition taken :: "workdb \<Rightarrow> uuid \<Rightarrow> bool" where
  "taken d iid \<longleftrightarrow> (\<forall>r \<in> set (items d). w_ID r = iid \<longrightarrow> w_State r = ''in_progress'' \<and> w_Active r = None)"

lemma ClaimOpen_taken:
  assumes "ClaimOpen ctx now iid w = (Inr True, w')" and "work_ok (fst w)"
  shows "taken (fst w') iid"
proof -
  let ?P = "\<lambda>s r. w_ID r = iid \<and> w_OrgID r = s_OrgID s \<and> w_State r = ''open'' \<and> w_Active r = None"
  obtain s :: scope where ctx: "ctx = Some s" using assms(1) by (auto simp: ClaimOpen_def bnd_Inr from_context_run)
  obtain n where st: "stmt (Sql :: sqlerr \<Rightarrow> workerr fault) (update_items now (?P s) (\<lambda>r. r\<lparr>w_State := ''in_progress''\<rparr>)) w = (Inr n, w')" and n: "n \<noteq> 0"
    using assms(1) by (auto simp: ctx ClaimOpen_def bnd_Inr ret_run simp del: split_paired_Ex)
  then have u: "update_items now (?P s) (\<lambda>r. r\<lparr>w_State := ''in_progress''\<rparr>) (fst w) = Inr (n, fst w')"
    by (simp add: stmt_Inr)
  obtain r where r: "r \<in> set (items (fst w))" "?P s r"
    using u n affected_0[of "?P s" "items (fst w)"] by (auto simp: update_items_Inr)
  have uniq: "q = r" if "q \<in> set (items (fst w))" "w_ID q = iid" for q
    using that r assms(2) by (auto simp: work_ok_def rows_ok_def distinct_map inj_on_def)
  show ?thesis
    unfolding taken_def update_items_set[OF u]
  proof (intro ballI impI, elim imageE)
    fix q r0 assume q: "q = (if ?P s r0 then done_at now (Some r0) (r0\<lparr>w_State := ''in_progress''\<rparr>) else r0)"
      and r0: "r0 \<in> set (items (fst w))" and "w_ID q = iid"
    then have "w_ID r0 = iid" by (simp split: if_splits)
    with uniq[OF r0] r(2) q show "w_State q = ''in_progress'' \<and> w_Active q = None" by simp
  qed
qed

lemma update_items_none:
  assumes "\<And>r. r \<in> set (items d) \<Longrightarrow> \<not> P r"
  shows "update_items now P f d = Inr (0, d)"
proof -
  have "affected P (items d) = 0" unfolding affected_0 using assms by blast
  moreover have "update_rows P g (items d) = items d" for g
    unfolding update_rows_def using assms by (simp add: map_idI)
  ultimately show ?thesis unfolding update_items_Inr using assms by simp
qed

lemma taken_items: "items d' = items d \<Longrightarrow> taken d' iid = taken d iid"
  by (simp add: taken_def)

text \<open>
  The claim of a tick is exclusive: once a tick has claimed a subtask, a second claim of it,
  by any tick at any time, wins nothing and changes nothing, and no list of ready subtasks
  contains it.
\<close>

theorem claim_open_exclusive:
  assumes "work_ok (fst w)" and "ClaimOpen ctx now iid w = (Inr True, w')"
  shows "ClaimOpen (Some s) now2 iid (fst w', []) = (Inr False, (fst w', []))
    \<and> (\<forall>ctx2 org epic its w2. Ready ctx2 org epic (fst w', []) = (Inr its, w2) \<longrightarrow> iid \<notin> w_ID ` set its)"
proof -
  have t: "taken (fst w') iid" by (rule ClaimOpen_taken[OF assms(2,1)])
  let ?P = "\<lambda>r. w_ID r = iid \<and> w_OrgID r = s_OrgID s \<and> w_State r = ''open'' \<and> w_Active r = None"
  have "update_items now2 ?P (\<lambda>r. r\<lparr>w_State := ''in_progress''\<rparr>) (fst w') = Inr (0, fst w')"
    by (rule update_items_none) (use t in \<open>auto simp: taken_def\<close>)
  then have "ClaimOpen (Some s) now2 iid (fst w', []) = (Inr False, (fst w', []))"
    by (simp add: ClaimOpen_def op_defs)
  moreover have "iid \<notin> w_ID ` set its" if "Ready ctx2 org epic (fst w', []) = (Inr its, w2)" for ctx2 org epic its w2
    using that t by (auto simp: Ready_def run_simps select_items_in taken_def scan_item_def item.defs)
  ultimately show ?thesis by blast
qed

section \<open>Starting through the execution claim\<close>

lemma find_row_id:
  "List.find (\<lambda>r. w_OrgID r = org \<and> w_RepoID r = repo \<and> w_ID r = iid) rs = Some r \<Longrightarrow> r \<in> set rs \<and> w_ID r = iid"
  by (auto dest: find_Some_in)

lemma claim_refused:
  assumes "taken (fst w) iid" and "q_WorkItemId req = Some iid"
  shows "ClaimExecution mar unm rctx now req w \<noteq> (Inr it, w')"
proof
  assume c: "ClaimExecution mar unm rctx now req w = (Inr it, w')"
  obtain s :: scope and iid' repo run agent sponsor where q: "q_WorkItemId req = Some iid'"
    and t': "tx internal (claim_body mar unm now (s_OrgID s) iid' repo run agent sponsor) w = (Inr it, w')"
    by (rule ClaimExecution_Inr[OF c]) (rule that, assumption+)
  note t = t'[unfolded q[unfolded assms(2) option.inject, symmetric]]
  from t show False
  proof (cases rule: tx_cases)
    case (1 w1)
    from 1(1) show False
    proof (cases rule: claim_body_commit)
      case (1 r)
      then show False using assms(1) find_row_id[OF 1(1)] by (auto simp: taken_def)
    qed
  next
    case (2 w1)
    from 2(1) show False
    proof (cases rule: claim_body_abort)
      case (1 r x)
      then show False using assms(1) find_row_id[OF 1(1)] by (auto simp: taken_def)
    qed
  qed
qed

lemma claim_refused_items: "ClaimExecution mar unm rctx now req w = (Inl e, w') \<Longrightarrow> fst w' = fst w"
  by (auto simp: ClaimExecution_def executionOwner_def executionID_def parseUUID_def run_simps
      split: sum.splits if_splits option.splits dest: tx_Inl_db)

lemma claim_twice_refused:
  assumes "taken (fst w) iid" and "q_WorkItemId req = Some iid"
  shows "claim_twice mar unm rctx now req w \<noteq> (Inr it, w')"
proof
  assume c: "claim_twice mar unm rctx now req w = (Inr it, w')"
  obtain r w1 where 1: "ClaimExecution mar unm rctx now req w = (r, w1)" by (cases "ClaimExecution mar unm rctx now req w")
  then obtain e where r: "r = Inl e" using claim_refused[OF assms] by (cases r) auto
  then have "ClaimExecution mar unm rctx now req w1 = (Inr it, w')"
    using c 1 by (simp add: claim_twice_def bnd_def attempt_def)
  moreover have "taken (fst w1) iid" using claim_refused_items[OF 1[unfolded r]] assms(1) by simp
  ultimately show False using claim_refused[OF _ assms(2)] by blast
qed

lemma start_admitted_fails:
  assumes "taken (fst w) (w_ID subtask)"
  shows "start_admitted mar unm rctx now new_run sponsor later subtask agent w \<noteq> (Inr u, w')"
  using claim_twice_refused[OF assms] unfolding start_admitted_def Let_def
  by (auto simp: run_simps run_claim_def split: sum.splits if_split_asm)

lemma start_one_never:
  assumes "start_one sch ctx now it w = (Inr (won, errs), w')" and "work_ok (fst w)"
    and "sch_StartRun sch = Some (start_admitted mar unm rctx now new_run sponsor later)"
  shows "\<not> won"
proof
  assume won
  obtain rr w1 where role: "SubtaskRole ctx (w_ID it) w = (rr, w1)" by (cases "SubtaskRole ctx (w_ID it) w")
  then obtain ro where ro: "rr = Inr ro"
    using assms(1) \<open>won\<close> by (cases rr) (auto simp: start_one_def bnd_def attempt_def ret_def)
  obtain agent where agent: "sch_RoleAgent sch ro = Some agent"
    using assms(1) \<open>won\<close> role ro by (cases "sch_RoleAgent sch ro") (auto simp: start_one_def bnd_def attempt_def ret_def)
  obtain cr w2 where cl: "ClaimOpen ctx now (w_ID it) w1 = (cr, w2)" by (cases "ClaimOpen ctx now (w_ID it) w1")
  then have "cr = Inr True"
    using assms(1) \<open>won\<close> role ro agent
    by (cases cr) (auto simp: start_one_def bnd_def attempt_def ret_def split: if_split_asm)
  with cl have c: "ClaimOpen ctx now (w_ID it) w1 = (Inr True, w2)" by simp
  obtain sr w3 where s: "start_admitted mar unm rctx now new_run sponsor later it agent w2 = (sr, w3)"
    by (cases "start_admitted mar unm rctx now new_run sponsor later it agent w2")
  have s': "sr = Inr ()"
    using assms(1,3) \<open>won\<close> role ro agent c s
    by (cases sr) (auto simp: start_one_def bnd_def attempt_def ret_def split: prod.splits sum.splits)
  have "fst w1 = fst w" using role by (auto simp: ro SubtaskRole_def run_simps split: option.splits)
  then have "taken (fst w2) (w_ID it)" using ClaimOpen_taken[OF c] assms(2) by simp
  with start_admitted_fails s s' show False by blast
qed

lemma start_ready_never:
  assumes "sch_StartRun sch = Some (start_admitted mar unm rctx now new_run sponsor later)"
  shows "start_ready sch ctx now inProgress ready started errs w = (Inr (n, errs'), w') \<Longrightarrow> work_ok (fst w) \<Longrightarrow> n = started"
proof (induction ready arbitrary: started errs w)
  case (Cons it rest)
  show ?case
  proof (cases "inProgress + started \<ge> concurrencyCap sch")
    case False
    with Cons.prems(1) obtain won e w1 where one: "start_one sch ctx now it w = (Inr (won, e), w1)"
      and r: "start_ready sch ctx now inProgress rest (if won then started + 1 else started) (errs @ e) w1 = (Inr (n, errs'), w')"
      by (auto simp: run_simps)
    have "within work_step\<^sup>*\<^sup>* (start_one sch ctx now it)"
      using assms by (intro steps_start_one) (auto intro: steps_start_admitted)
    from work_ok_steps[OF within_run[OF this one] Cons.prems(2)] have ok: "work_ok (fst w1)" .
    have "\<not> won" by (rule start_one_never[OF one Cons.prems(2) assms])
    with Cons.IH[OF r ok] show ?thesis by simp
  qed (use Cons.prems in \<open>auto simp: run_simps\<close>)
qed (auto simp: run_simps)

text \<open>
  As deployed the scheduler starts nothing: its claim moves the subtask out of the open
  state, and the runtime's execution claim, which every start goes through, admits open items
  only. Whatever the epic, its children, the runs' outcomes and the pattern of failures, a tick
  that returns has started no run.
\<close>

theorem deployed_tick_starts_nothing:
  assumes "work_ok (fst w)" and "sch_StartRun sch = Some (start_admitted mar unm rctx now new_run sponsor later)"
    and "Tick sch ctx now epic w = (Inr (n, errs), w')"
  shows "n = 0"
proof -
  obtain s kids w1 inProgress anyBlocked errs0 w2 w3 ready w4 where
    "ctx = Some s" and k: "Children ctx (s_OrgID s) epic w = (Inr kids, w1)"
    and sc: "scan_children sch ctx now kids w1 = (Inr (inProgress, anyBlocked, errs0), w2)"
    and b: "(if anyBlocked then wrap MarkBlocked (SetState ctx now epic ''blocked'') else ret ()) w2 = (Inr (), w3)"
    and r: "Ready ctx (s_OrgID s) epic w3 = (Inr ready, w4)"
    and st: "start_ready sch ctx now inProgress ready 0 errs0 w4 = (Inr (n, errs), w')"
    using assms(3) by (rule Tick_Inr)
  have "fst w1 = fst w" using k by (auto simp: Children_def run_simps)
  then have ok2: "work_ok (fst w2)" using work_ok_steps[OF within_run[OF steps_scan sc]] assms(1) by simp
  have "within work_step\<^sup>*\<^sup>* (if anyBlocked then wrap MarkBlocked (SetState ctx now epic ''blocked'') else ret ())"
    by (intro step_rules within_edits)
  from work_ok_steps[OF within_run[OF this b] ok2] have "work_ok (fst w3)" .
  moreover have "fst w4 = fst w3" using r by (auto simp: Ready_def run_simps)
  ultimately show ?thesis using start_ready_never[OF assms(2) st] by simp
qed

section \<open>Samples\<close>

definition sample_scheduler :: "(item \<Rightarrow> uuid \<Rightarrow> unit work_op) \<Rightarrow> scheduler" where
  "sample_scheduler start =
     \<lparr>sch_MaxConcurrentRuns = 0, sch_RoleAgent = Map.empty(''architect'' \<mapsto> 5), sch_StartRun = Some start,
      sch_RunOutcome = None\<rparr>"

lemmas sample_tick_defs = sample_scheduler_def Tick_def op_defs Children_def Ready_def require_org_member select_items_def
  sample_child_db_def sample_workdb_def sample_row_def scan_item_def item.defs item_row.defs settle_child_def SubtaskRole_def
  ClaimOpen_def update_items_def row_checks_def done_at_def IsValidType_def validTypes_def item_states_def
  waiting_def concurrencyCap_def defaultMaxConcurrentRuns_def start_one_def sample_member_def revert_claim_def SetState_def

lemma sample_tick:
  "fst (Tick (sample_scheduler (\<lambda>_ _. ret ())) (Some sample_member) 9 51 (sample_child_db, [])) = Inr (1, [])"
  by (simp add: sample_tick_defs)

theorem tick_respects_cap_witness:
  "\<exists>w'. Tick (sample_scheduler (\<lambda>_ _. ret ())) (Some sample_member) 9 51 (sample_child_db, []) = (Inr (1, []), w')
    \<and> (\<exists>p :: int. p + 1 \<le> 5)"
proof -
  obtain w' where t: "Tick (sample_scheduler (\<lambda>_ _. ret ())) (Some sample_member) 9 51 (sample_child_db, []) = (Inr (1, []), w')"
    using sample_tick by (metis prod.collapse)
  from tick_respects_cap[OF t] have "\<exists>p. p + 1 \<le> concurrencyCap (sample_scheduler (\<lambda>_ _. ret ()))" by auto
  with t show ?thesis by (auto simp: concurrencyCap_def sample_scheduler_def defaultMaxConcurrentRuns_def)
qed

lemma sample_child_ok: "work_ok sample_child_db"
  using work_ok_steps[OF within_run[OF within_CreateChild sample_child_run]] sample_work_ok by simp

lemma sample_claim_open:
  "\<exists>w'. ClaimOpen (Some sample_member) 9 53 (sample_child_db, []) = (Inr True, w')"
  by (simp add: sample_tick_defs)

theorem claim_open_exclusive_witness:
  "\<exists>w'. ClaimOpen (Some sample_member) 9 53 (sample_child_db, []) = (Inr True, w')
    \<and> fst (ClaimOpen (Some sample_member) 10 53 (fst w', [])) = Inr False"
proof -
  obtain w' where c: "ClaimOpen (Some sample_member) 9 53 (sample_child_db, []) = (Inr True, w')"
    using sample_claim_open by blast
  have "work_ok (fst (sample_child_db, []))" using sample_child_ok by simp
  from claim_open_exclusive[OF this c] c show ?thesis by (metis fst_conv)
qed

lemma sample_deployed_tick:
  "\<exists>n errs. fst (Tick (sample_scheduler (start_admitted sample_marshal sample_unmarshal (Some sample_runtime) 9 (\<lambda>i. 100 + i) 3 (\<lambda>_. True)))
     (Some sample_member) 9 51 (sample_child_db, [])) = Inr (n, errs) \<and> errs \<noteq> []"
  by (simp add: sample_tick_defs start_admitted_def claim_twice_def run_claim_def run_release_def ClaimExecution_def
      executionOwner_def executionID_def parseUUID_def sample_runtime_def claim_body_def lock_item_def find_claim_def
      ReleaseExecution_def release_state_def release_body_def insert_claim_def claim_checks_def outcomes_def)

theorem deployed_tick_starts_nothing_witness:
  "\<exists>errs w'. Tick (sample_scheduler (start_admitted sample_marshal sample_unmarshal (Some sample_runtime) 9 (\<lambda>i. 100 + i) 3 (\<lambda>_. True)))
     (Some sample_member) 9 51 (sample_child_db, []) = (Inr (0, errs), w') \<and> errs \<noteq> []"
proof -
  let ?sch = "sample_scheduler (start_admitted sample_marshal sample_unmarshal (Some sample_runtime) 9 (\<lambda>i. 100 + i) 3 (\<lambda>_. True))"
  obtain n errs w' where t: "Tick ?sch (Some sample_member) 9 51 (sample_child_db, []) = (Inr (n, errs), w')" and e: "errs \<noteq> []"
    using sample_deployed_tick by (metis prod.collapse)
  have "work_ok (fst (sample_child_db, []))" "sch_StartRun ?sch
      = Some (start_admitted sample_marshal sample_unmarshal (Some sample_runtime) 9 (\<lambda>i. 100 + i) 3 (\<lambda>_. True))"
    using sample_child_ok by (simp_all add: sample_scheduler_def)
  from deployed_tick_starts_nothing[OF this t] t e show ?thesis by auto
qed

section \<open>After a successful run\<close>

text \<open>
  A run that succeeds does not finish its subtask: the release leaves the item in review,
  a tick leaves an item in review as it is whatever it hears of the runs, and as long as it is
  not done no list of ready subtasks contains one that depends on it.
\<close>

theorem succeeded_run_leaves_dependents_waiting:
  assumes "work_ok (fst w)" and "ReleaseExecution (Some s) now req w = (Inr (), w')"
    and "z_Outcome req = ''succeeded''" and "z_RunId req = Some run" and "z_WorkItemId req = Some iid"
    and "outcome_of (fst w) (s_OrgID s, run) = None" and "(b, iid) \<in> set (deps (fst w))"
  shows "(\<exists>r \<in> set (items (fst w')). w_ID r = iid \<and> w_State r = ''review''
      \<and> (\<forall>sch ctx t v. settle_child sch ctx t (scan_item r) v = (Inr (''review'', []), v)))
    \<and> (\<forall>ctx org epic its v. Ready ctx org epic (fst w', []) = (Inr its, v) \<longrightarrow> b \<notin> w_ID ` set its)"
proof -
  obtain repo agent state where st: "state = ''review''"
    and t: "tx internal (release_body now (s_OrgID s) iid repo run agent ''succeeded'' state) w = (Inr (), w')"
    using assms(2-5) by (auto simp: ReleaseExecution_def bnd_Inr executionOwner_run executionID_run release_state_run)
  have step: "\<exists>r \<in> set (items (fst w')). w_ID r = iid \<and> w_State r = ''review''" and dp: "deps (fst w') = deps (fst w)"
    using t
  proof (atomize(full), cases rule: tx_cases)
    case (1 w1)
    from 1(1) show "(\<exists>r \<in> set (items (fst w')). w_ID r = iid \<and> w_State r = ''review'') \<and> deps (fst w') = deps (fst w)"
    proof (cases rule: release_body_commit)
      case (2 r x d1 n)
      note d1 = 2(8)[unfolded update_claims_Inr]
      note set = update_items_set[OF 2(9)]
      have r: "r \<in> set (items (fst w))" "same_item (s_OrgID s) iid r"
        using find_item_Some[OF 2(1)] by simp_all
      let ?r = "done_at now (Some r) (r\<lparr>w_State := state, w_Active := None\<rparr>)"
      have "?r \<in> set (items (fst w1))"
        unfolding set using r d1 by (intro image_eqI[of _ _ r]) auto
      moreover have "w_ID ?r = iid" "w_State ?r = ''review''" using r(2) st by (simp_all add: same_item_def)
      moreover have "deps (fst w1) = deps (fst w)" using update_items_rest(1)[OF 2(9)] d1 by simp
      ultimately show ?thesis using \<open>fst w' = fst w1\<close> by metis
    qed simp
  next
    case (2 w1)
    then show "(\<exists>r \<in> set (items (fst w')). w_ID r = iid \<and> w_State r = ''review'') \<and> deps (fst w') = deps (fst w)"
      using assms(6) by (cases "find_claim (s_OrgID s) run (fst w)")
        (auto simp: release_body_def run_simps outcome_of_def split: if_split_asm)
  qed
  have wait: "waiting (fst w') b" using step dp assms(7) unfolding waiting_def by force
  have "b \<notin> w_ID ` set its" if "Ready ctx org epic (fst w', []) = (Inr its, v)" for ctx org epic its v
    using that wait by (auto simp: Ready_def run_simps select_items_in scan_item_def item.defs)
  moreover have "settle_child sch ctx t (scan_item r) v = (Inr (''review'', []), v)" if "w_State r = ''review''" for sch ctx t v r
    using that by (simp add: settle_child_def scan_item_def item.defs ret_def)
  ultimately show ?thesis using step by blast
qed

definition sample_waiting :: workdb where
  "sample_waiting = sample_claimed\<lparr>deps := [(52, 51)]\<rparr>"

lemma sample_waiting_ok: "work_ok sample_waiting"
proof -
  have "AddDependency (Some sample_member) 52 51 (sample_claimed, []) = (Inr (), (sample_waiting, []))"
    by (simp add: AddDependency_def check_dependency_def add_edge_def op_defs get_item_def sample_member_def sample_workdb_def
        sample_row_def sample_claimed_def sample_waiting_def ancestors_def step_ids_def recursive_union.simps insert_dep_def)
  from within_run[OF within_AddDependency this] within_run[OF within_ClaimExecution sample_claim_run] sample_work_ok
  show ?thesis using work_ok_steps by simp
qed

definition sample_done :: release_request where
  "sample_done = \<lparr>z_WorkItemId = Some 51, z_RepoId = Some 40, z_RunId = Some 90, z_AgentId = Some 5,
     z_Outcome = ''succeeded'', z_NoExecutionStarted = False\<rparr>"

lemma sample_release_run: "\<exists>w'. ReleaseExecution (Some sample_runtime) 8 sample_done (sample_waiting, []) = (Inr (), w')"
  by (simp add: ReleaseExecution_def executionOwner_def executionID_def parseUUID_def release_state_def release_body_def lock_item_def
      find_claim_def op_defs sample_runtime_def sample_done_def sample_waiting_def sample_claimed_def sample_workdb_def sample_row_def
      update_claims_def claim_checks_def outcomes_def update_items_def row_checks_def done_at_def IsValidType_def validTypes_def item_states_def)

theorem succeeded_run_leaves_dependents_waiting_witness:
  "\<exists>w'. ReleaseExecution (Some sample_runtime) 8 sample_done (sample_waiting, []) = (Inr (), w')
    \<and> (\<exists>r \<in> set (items (fst w')). w_ID r = 51 \<and> w_State r = ''review'')"
proof -
  obtain w' where r: "ReleaseExecution (Some sample_runtime) 8 sample_done (sample_waiting, []) = (Inr (), w')"
    using sample_release_run by blast
  have "outcome_of sample_waiting (7, 90) = None"
    by (simp add: outcome_of_def find_claim_def sample_waiting_def sample_claimed_def)
  with succeeded_run_leaves_dependents_waiting[OF _ r, of 90 51 52] r sample_waiting_ok show ?thesis
    by (auto simp: sample_done_def sample_runtime_def sample_waiting_def)
qed

end
