(* ===== verification/NF_AgentStore.thy ===== *)
theory NF_AgentStore
  imports NF_WorkExec NF_Capability
begin

text \<open>
  The tables of the agent service and the operations of its store
  (\<open>internal/agents/store.go\<close>, \<open>admission.go\<close>, \<open>lock.go\<close>, \<open>execution_claim.go\<close>): agents, their
  runs with the run state machine, the branch lock that is a run's being \<open>running\<close>, and the
  frozen Work item of a run. A run's \<open>jsonb\<close> columns hold the values they encode; the
  serialized Work item is bytes. A timestamp column that is \<open>'-infinity'\<close> by default is \<^const>\<open>None\<close>.
\<close>

section \<open>State\<close>

record agent =
  ag_ID :: uuid
  ag_OrgID :: uuid
  ag_Name :: string
  ag_Role :: string
  ag_ModelRef :: string
  ag_Enabled :: bool

record provenance =
  pv_AgentName :: string
  pv_ModelName :: string
  pv_WorkItemKey :: string
  pv_RunRef :: string
  pv_SponsorName :: string

text \<open>\<open>workspace.Identity\<close>.\<close>

record identity =
  wk_OrgID :: uuid
  wk_RunID :: uuid
  wk_NamespaceUID :: string
  wk_PodUID :: string
  wk_NodeName :: string
  wk_TerminationObserved :: bool

record spend =
  sp_TokensAvailable :: bool
  sp_CostAvailable :: bool
  sp_Tokens :: int
  sp_CostMicros :: int
  sp_Reason :: string

record completion =
  cm_State :: string
  cm_Spend :: spend
  cm_Summary :: string

text \<open>
  The columns a Go \<open>Run\<close> and its row share; a zero \<open>time.Time\<close> and a nil pointer are \<^const>\<open>None\<close>,
  and a NULL work item is \<^const>\<open>uuid_Nil\<close>, which is how it is written and read.
\<close>

record run_cols =
  rn_ID :: uuid
  rn_OrgID :: uuid
  rn_RepoID :: uuid
  rn_AgentID :: uuid
  rn_WorkItemID :: uuid
  rn_SponsorID :: uuid
  rn_GrantID :: uuid
  rn_Branch :: string
  rn_State :: string
  rn_StartedAt :: "time option"
  rn_EndedAt :: "time option"
  rn_TokenLimit :: int
  rn_CostLimitMicros :: int
  rn_TokensUsed :: int
  rn_CostUsedMicros :: int
  rn_EndReason :: string
  rn_GrantIntent :: "issuance_intent option"
  rn_GrantCleanupPending :: bool
  rn_GrantCleanupError :: string
  rn_TokensAvailable :: bool
  rn_CostAvailable :: bool
  rn_WorkClaimRequired :: bool
  rn_WorkItemSnapshot :: "string option"
  rn_WorkReleasePending :: bool
  rn_WorkReleaseError :: string
  rn_ExecutionFinished :: bool
  rn_WorkspaceIdentity :: "identity option"
  rn_WorkspaceCleanupPending :: bool
  rn_WorkspaceCleanupError :: string

record run = run_cols +
  rn_WallclockLimit :: time
  rn_Provenance :: "provenance option"

record run_row = run_cols +
  rw_WallclockSeconds :: int
  rw_Completion :: "completion option"
  rw_AdmissionLease :: "time option"
  rw_CleanupNextAt :: "time option"
  rw_CleanupLease :: "time option"
  rw_CleanupClaim :: "uuid option"
  rw_CleanupAttempts :: nat

text \<open>
  The arguments of a tool call as they are stored: the given JSON as \<open>jsonb\<close> normalises it, the
  reduction to a byte count and a validity flag, or the evidence of a completion.
\<close>

datatype args_json = Json string | Reduced nat bool | Evidence string string bool bool

record tool_call =
  tc_ID :: uuid
  tc_RunID :: uuid
  tc_OrgID :: uuid
  tc_Tool :: string
  tc_Args :: args_json
  tc_Outcome :: string
  tc_Error :: string
  tc_StartedAt :: time
  tc_EndedAt :: "time option"

record tool_event =
  te_Sequence :: nat
  te_OrgID :: uuid
  te_RunID :: uuid
  te_CallID :: uuid
  te_Tool :: string
  te_Outcome :: string
  te_At :: time
  te_Published :: bool

text \<open>\<open>last_sequence\<close> is the sequence behind the \<open>bigserial\<close> key of \<open>tool_events\<close>.\<close>

record agentdb =
  agents :: "agent list"
  runs :: "run_row list"
  provenances :: "uuid \<rightharpoonup> provenance"
  tool_calls :: "tool_call list"
  tool_events :: "tool_event list"
  last_sequence :: nat
  deleted_scopes :: "(uuid \<times> uuid) list"

datatype agenterr =
    AgentExists string uuid
  | AgentNotFound uuid
  | AgentRunNotFound uuid
  | ScopeDeleted
  | IntentMismatch
  | InvalidTransition string string
  | StatsOverflow
  | BranchLockedBy string uuid
  | BranchLocked string
  | RunNotQueued uuid
  | LockedByRun string uuid string
  | ClaimMismatch
  | AdmissionLost
  | MarshalFailed
  | NoFrozenIntent
  | FrozenMismatch
  | InvalidCompletion
  | EvidenceUnresolved
  | WorkspaceUnconfirmed
  | CompletionConflict
  | CompletionStale
  | WorkspaceUnavailable
  | WorkspaceConflict
  | CleanerUnavailable
  | OwnerFailed
  | TerminationUnavailable
  | WorkspaceAdmissionLost
  | AdoptionLost
  | CleanupNotClaimable
  | CleanupClaimExpired
  | CleanupClaimLost uuid
  | CleanupPending uuid
  | NotTerminal uuid string
  | AuditParent
  | AuditConflict
  | InvalidOutcome
  | ReceiptConflict
  | AgentNoRows
  | ErrToolEventCursor
  | AgentPurgeScope
  | PurgePending
  | PurgeRaced
  | WallclockOutOfRange
  | AgentStatus grpc_code

type_synonym 'a agent_op = "(agentdb, agenterr fault, 'a) op"

section \<open>States of a run\<close>

definition terminalStates :: "string list" where
  "terminalStates = [''succeeded'', ''failed'', ''cancelled'', ''over_budget'']"

definition validTransitions :: "string \<Rightarrow> string list" where
  "validTransitions s =
     (if s = ''queued'' then [''running'', ''cancelled'', ''failed'']
      else if s = ''running'' then [''succeeded'', ''failed'', ''cancelled'', ''over_budget'']
      else [])"

definition run_states :: "string list" where
  "run_states = [''queued'', ''running'', ''succeeded'', ''failed'', ''cancelled'', ''over_budget'']"

abbreviation terminal :: "'a run_cols_scheme \<Rightarrow> bool" where
  "terminal r \<equiv> rn_State r \<in> set terminalStates"

section \<open>Statements on the tables\<close>

text \<open>The partial unique index \<open>agent_branch_lock\<close>: one running run per organization, repository and branch.\<close>

definition branch_index :: "run_row list \<Rightarrow> bool" where
  "branch_index rs \<longleftrightarrow> distinct (map (\<lambda>r. (rn_OrgID r, rn_RepoID r, rn_Branch r))
     (filter (\<lambda>r. rn_State r = ''running'') rs))"

text \<open>\<open>UPDATE agents.agent_runs SET f WHERE P\<close>; the result is the number of rows affected.\<close>

definition update_runs :: "(run_row \<Rightarrow> bool) \<Rightarrow> (run_row \<Rightarrow> run_row) \<Rightarrow> agentdb \<Rightarrow> sqlerr + (nat \<times> agentdb)" where
  "update_runs P f d =
     (let rs = update_rows P f (runs d) in
      if \<exists>r \<in> set rs. rn_State r \<notin> set run_states then Inl CheckViolation
      else if \<not> branch_index rs then Inl UniqueViolation
      else Inr (affected P (runs d), d\<lparr>runs := rs\<rparr>))"

definition insert_agent :: "agent \<Rightarrow> agentdb \<Rightarrow> sqlerr + (unit \<times> agentdb)" where
  "insert_agent a d =
     (if \<exists>b \<in> set (agents d). ag_ID b = ag_ID a \<or> ag_OrgID b = ag_OrgID a \<and> ag_Name b = ag_Name a
      then Inl UniqueViolation
      else Inr ((), d\<lparr>agents := agents d @ [a]\<rparr>))"

text \<open>A value outside the \<open>int\<close> column of the wall-clock limit is refused like a failed check.\<close>

definition int4_max :: int where
  "int4_max = 2147483647"

definition insert_run :: "run_row \<Rightarrow> agentdb \<Rightarrow> sqlerr + (unit \<times> agentdb)" where
  "insert_run r d =
     (if int4_max < rw_WallclockSeconds r \<or> rn_State r \<notin> set run_states then Inl CheckViolation
      else if rn_ID r \<in> rn_ID ` set (runs d) \<or> \<not> branch_index (runs d @ [r]) then Inl UniqueViolation
      else if rn_AgentID r \<notin> ag_ID ` set (agents d) then Inl ForeignKeyViolation
      else Inr ((), d\<lparr>runs := runs d @ [r]\<rparr>))"

abbreviation of_run :: "uuid \<Rightarrow> uuid \<Rightarrow> 'a run_cols_scheme \<Rightarrow> bool" where
  "of_run rid org r \<equiv> rn_ID r = rid \<and> rn_OrgID r = org"

definition find_run :: "uuid \<Rightarrow> uuid \<Rightarrow> agentdb \<Rightarrow> run_row option" where
  "find_run rid org d = List.find (of_run rid org) (runs d)"

section \<open>The admission fence\<close>

text \<open>The transaction's advisory lock; its effect is the atomicity of the transaction.\<close>

definition lockAdmission :: "unit agent_op" where
  "lockAdmission = query Sql (\<lambda>_. ())"

definition fenced :: "uuid \<Rightarrow> uuid \<Rightarrow> agentdb \<Rightarrow> bool" where
  "fenced org repo d \<longleftrightarrow> (org, repo) \<in> set (deleted_scopes d) \<or> (org, uuid_Nil) \<in> set (deleted_scopes d)"

definition allowAdmission :: "uuid \<Rightarrow> uuid \<Rightarrow> unit agent_op" where
  "allowAdmission org repo =
     bnd lockAdmission (\<lambda>_.
     bnd (query Sql (fenced org repo)) (\<lambda>deleted.
     if deleted then fail (App ScopeDeleted) else ret ()))"

section \<open>Agents\<close>

definition CreateAgent :: "ctx \<Rightarrow> uuid \<Rightarrow> agent \<Rightarrow> agent agent_op" where
  "CreateAgent ctx new_id a0 =
     bnd (require_org ctx (ag_OrgID a0)) (\<lambda>_.
     tx Sql (
       bnd (allowAdmission (ag_OrgID a0) uuid_Nil) (\<lambda>_.
       let a = a0\<lparr>ag_ID := new_id\<rparr> in
       bnd (stmt (\<lambda>e. if e = UniqueViolation then App (AgentExists (ag_Name a) (ag_OrgID a)) else Sql e)
              (insert_agent a)) (\<lambda>_.
       ret (Commit a)))))"

definition GetAgent :: "ctx \<Rightarrow> uuid \<Rightarrow> agent agent_op" where
  "GetAgent ctx aid =
     bnd (from_context ctx) (\<lambda>scope.
     bnd (query Sql (\<lambda>d. List.find (\<lambda>a. ag_ID a = aid \<and> ag_OrgID a = s_OrgID scope) (agents d))) (\<lambda>row.
     case row of None \<Rightarrow> fail (App (AgentNotFound aid)) | Some a \<Rightarrow> ret a))"

text \<open>\<open>ORDER BY name\<close>, with the collation's order as an argument.\<close>

definition ListAgents :: "(string \<Rightarrow> nat) \<Rightarrow> ctx \<Rightarrow> agent list agent_op" where
  "ListAgents collation ctx =
     bnd (from_context ctx) (\<lambda>scope.
     query Sql (\<lambda>d. sort_key (collation \<circ> ag_Name) (filter (\<lambda>a. ag_OrgID a = s_OrgID scope) (agents d))))"

section \<open>Runs\<close>

definition intent_agrees :: "'a run_cols_scheme \<Rightarrow> issuance_intent \<Rightarrow> bool" where
  "intent_agrees r i \<longleftrightarrow> g_OrgID (i_Grant i) = rn_OrgID r \<and> g_ID (i_Grant i) = rn_GrantID r
     \<and> g_SubjectID (i_Grant i) = rn_AgentID r"

text \<open>The row \<open>CreateRun\<close> inserts; every column it does not name has its default.\<close>

definition queued_row :: "time \<Rightarrow> int \<Rightarrow> run \<Rightarrow> run_row" where
  "queued_row now secs r =
     (run_cols.extend (run_cols.truncate r)
        (run_row.fields secs None (if rn_GrantIntent r = None then None else Some (now + 60 * second))
           None None None 0))
     \<lparr>rn_State := ''queued'', rn_StartedAt := None, rn_EndedAt := None, rn_TokensUsed := 0, rn_CostUsedMicros := 0,
      rn_EndReason := '''', rn_GrantCleanupPending := False, rn_GrantCleanupError := '''',
      rn_TokensAvailable := False, rn_CostAvailable := False, rn_WorkItemSnapshot := None,
      rn_WorkReleasePending := rn_WorkClaimRequired r, rn_WorkReleaseError := '''', rn_ExecutionFinished := False,
      rn_WorkspaceIdentity := None, rn_WorkspaceCleanupPending := False, rn_WorkspaceCleanupError := ''''\<rparr>"

definition wallclock_seconds :: "time \<Rightarrow> int" where
  "wallclock_seconds limit = (if limit div second \<le> 0 then 3600 else limit div second)"

definition CreateRun :: "ctx \<Rightarrow> uuid \<Rightarrow> time \<Rightarrow> run \<Rightarrow> run agent_op" where
  "CreateRun ctx new_id now r0 =
     bnd (require_org ctx (rn_OrgID r0)) (\<lambda>_.
     tx Sql (
       bnd (allowAdmission (rn_OrgID r0) (rn_RepoID r0)) (\<lambda>_.
       let intent = map_option (\<lambda>i. i\<lparr>i_RunID := new_id\<rparr>) (rn_GrantIntent r0);
           r1 = r0\<lparr>rn_ID := new_id, rn_GrantIntent := intent, rn_State := ''queued''\<rparr>;
           secs = wallclock_seconds (rn_WallclockLimit r0);
           tokens = (if rn_TokenLimit r0 \<le> 0 then 1000000 else rn_TokenLimit r0);
           cost = (if rn_CostLimitMicros r0 < 0 then 0 else rn_CostLimitMicros r0);
           r = r1\<lparr>rn_WallclockLimit := secs * second, rn_TokenLimit := tokens, rn_CostLimitMicros := cost\<rparr> in
       if (case intent of None \<Rightarrow> False | Some i \<Rightarrow> \<not> intent_agrees r1 i) then fail (App IntentMismatch)
       else bnd (stmt Sql (insert_run (queued_row now secs r))) (\<lambda>_. ret (Commit r)))))"

definition scan_run :: "run_row \<Rightarrow> provenance option \<Rightarrow> run" where
  "scan_run r p = run_cols.extend (run_cols.truncate r) (run.fields (rw_WallclockSeconds r * second) p)"

definition GetRun :: "ctx \<Rightarrow> uuid \<Rightarrow> run agent_op" where
  "GetRun ctx rid =
     bnd (from_context ctx) (\<lambda>scope.
     bnd (query Sql (find_run rid (s_OrgID scope))) (\<lambda>row.
     case row of
       None \<Rightarrow> fail (App (AgentRunNotFound rid))
     | Some r \<Rightarrow>
         bnd (query Sql (\<lambda>d. provenances d rid)) (\<lambda>p.
         ret (scan_run r p))))"

definition start_state :: "time \<Rightarrow> run_row \<Rightarrow> run_row" where
  "start_state now r = r\<lparr>rn_State := ''running'', rn_StartedAt := Some now\<rparr>"

definition end_state :: "time \<Rightarrow> string \<Rightarrow> run_row \<Rightarrow> run_row" where
  "end_state now s r = r\<lparr>rn_State := s, rn_EndedAt := Some now,
     rn_GrantCleanupPending := (rn_GrantID r \<noteq> uuid_Nil), rn_GrantCleanupError := ''''\<rparr>"

definition SetRunState :: "ctx \<Rightarrow> time \<Rightarrow> uuid \<Rightarrow> string \<Rightarrow> unit agent_op" where
  "SetRunState ctx now rid newState =
     bnd (from_context ctx) (\<lambda>scope.
     tx Sql (
       bnd (query Sql (find_run rid (s_OrgID scope))) (\<lambda>row.
       case row of
         None \<Rightarrow> fail (App (AgentRunNotFound rid))
       | Some cur \<Rightarrow>
           if newState \<notin> set (validTransitions (rn_State cur)) then fail (App (InvalidTransition (rn_State cur) newState))
           else
             bnd (stmt Sql (update_runs (\<lambda>r. rn_ID r = rid)
                    (if newState = ''running'' then start_state now
                     else if newState \<in> set terminalStates then end_state now newState
                     else rn_State_update (\<lambda>_. newState)))) (\<lambda>_.
             ret (Commit ())))))"

text \<open>The foreign key of \<open>run_provenance\<close> refuses an unknown run.\<close>

definition upsert_provenance :: "uuid \<Rightarrow> provenance \<Rightarrow> agentdb \<Rightarrow> sqlerr + (unit \<times> agentdb)" where
  "upsert_provenance rid p d =
     (if rid \<notin> rn_ID ` set (runs d) then Inl ForeignKeyViolation
      else Inr ((), d\<lparr>provenances := (provenances d)(rid \<mapsto> p)\<rparr>))"

definition RecordProvenance :: "ctx \<Rightarrow> uuid \<Rightarrow> provenance \<Rightarrow> unit agent_op" where
  "RecordProvenance ctx rid p =
     bnd (from_context ctx) (\<lambda>_. stmt Sql (upsert_provenance rid p))"

record run_stats =
  st_AgentID :: uuid
  st_Runs :: nat
  st_Succeeded :: nat
  st_Failed :: nat
  st_OverBudget :: nat
  st_Running :: nat
  st_TokensUsed :: int
  st_TokenLimit :: int

definition agent_stats :: "run_row list \<Rightarrow> uuid \<Rightarrow> run_stats" where
  "agent_stats rs aid =
     (let mine = filter (\<lambda>r. rn_AgentID r = aid) rs in
      \<lparr>st_AgentID = aid, st_Runs = length mine,
       st_Succeeded = affected (\<lambda>r. rn_State r = ''succeeded'') mine,
       st_Failed = affected (\<lambda>r. rn_State r = ''failed'') mine,
       st_OverBudget = affected (\<lambda>r. rn_State r = ''over_budget'') mine,
       st_Running = affected (\<lambda>r. rn_State r = ''queued'' \<or> rn_State r = ''running'') mine,
       st_TokensUsed = sum_list (map rn_TokensUsed mine),
       st_TokenLimit = sum_list (map rn_TokenLimit mine)\<rparr>)"

definition int64_max :: int where
  "int64_max = 9223372036854775807"

text \<open>A sum over \<open>bigint\<close> is unbounded in SQL and fails to scan into an \<open>int64\<close> it does not fit.\<close>

definition ListStats :: "ctx \<Rightarrow> run_stats list agent_op" where
  "ListStats ctx =
     bnd (from_context ctx) (\<lambda>scope.
     bnd (query Sql (\<lambda>d. let mine = filter (\<lambda>r. rn_OrgID r = s_OrgID scope) (runs d) in
            map (agent_stats mine) (remdups (map rn_AgentID mine)))) (\<lambda>out.
     if \<exists>st \<in> set out. int64_max < st_TokensUsed st \<or> int64_max < st_TokenLimit st then fail (App StatsOverflow)
     else ret out))"

text \<open>\<open>ORDER BY key\<close> with the NULL keys last, and with the \<open>'-infinity'\<close> keys first.\<close>

definition nulls_last :: "('r \<Rightarrow> int option) \<Rightarrow> 'r list \<Rightarrow> 'r list" where
  "nulls_last key rs = sort_key (\<lambda>r. the (key r)) (filter (\<lambda>r. key r \<noteq> None) rs) @ filter (\<lambda>r. key r = None) rs"

definition nulls_first :: "('r \<Rightarrow> int option) \<Rightarrow> 'r list \<Rightarrow> 'r list" where
  "nulls_first key rs = filter (\<lambda>r. key r = None) rs @ sort_key (\<lambda>r. the (key r)) (filter (\<lambda>r. key r \<noteq> None) rs)"

definition RunsForWorkItem :: "ctx \<Rightarrow> uuid \<Rightarrow> uuid list agent_op" where
  "RunsForWorkItem ctx workItemID =
     bnd (from_context ctx) (\<lambda>scope.
     query Sql (\<lambda>d. map rn_ID (nulls_last (\<lambda>r. map_option uminus (rn_StartedAt r))
       (filter (\<lambda>r. rn_OrgID r = s_OrgID scope \<and> rn_WorkItemID r = workItemID \<and> workItemID \<noteq> uuid_Nil) (runs d)))))"

definition RecordSpend :: "ctx \<Rightarrow> uuid \<Rightarrow> spend \<Rightarrow> unit agent_op" where
  "RecordSpend ctx rid sp =
     bnd (from_context ctx) (\<lambda>scope.
     bnd (stmt Sql (update_runs
            (\<lambda>r. of_run rid (s_OrgID scope) r \<and> rw_Completion r = None
               \<and> (rn_State r = ''queued'' \<or> rn_State r = ''running''))
            (\<lambda>r. r\<lparr>rn_TokensUsed := max (rn_TokensUsed r) (sp_Tokens sp),
                    rn_CostUsedMicros := max (rn_CostUsedMicros r) (sp_CostMicros sp), rn_EndReason := sp_Reason sp\<rparr>))) (\<lambda>_.
     ret ()))"

section \<open>The branch lock\<close>

definition Holder :: "ctx \<Rightarrow> uuid \<Rightarrow> uuid \<Rightarrow> string \<Rightarrow> uuid option agent_op" where
  "Holder ctx orgID repoID branch =
     bnd (require_org ctx orgID) (\<lambda>_.
     query Sql (\<lambda>d. map_option rn_ID (List.find (\<lambda>r. rn_OrgID r = orgID \<and> rn_RepoID r = repoID
       \<and> rn_Branch r = branch \<and> rn_State r = ''running'') (runs d))))"

definition Acquire :: "ctx \<Rightarrow> time \<Rightarrow> uuid \<Rightarrow> uuid \<Rightarrow> string \<Rightarrow> uuid \<Rightarrow> unit agent_op" where
  "Acquire ctx now orgID repoID branch runID =
     bnd (require_org ctx orgID) (\<lambda>_.
     bnd (attempt (stmt (\<lambda>e. e) (update_runs (\<lambda>r. of_run runID orgID r \<and> rn_State r = ''queued'')
            (\<lambda>r. (start_state now r)\<lparr>rn_RepoID := repoID, rn_Branch := branch\<rparr>)))) (\<lambda>tag.
     case tag of
       Inl e \<Rightarrow>
         if e = UniqueViolation then
           bnd (attempt (Holder ctx orgID repoID branch)) (\<lambda>h.
           case h of Inr (Some holder) \<Rightarrow> fail (App (BranchLockedBy branch holder)) | _ \<Rightarrow> fail (App (BranchLocked branch)))
         else fail (Sql e)
     | Inr n \<Rightarrow> if n = 0 then fail (App (RunNotQueued runID)) else ret ()))"

definition BranchNamespace :: string where
  "BranchNamespace = ''agents/''"

definition runBranchLeaf :: string where
  "runBranchLeaf = ''work''"

definition RunBranch :: "string \<Rightarrow> string" where
  "RunBranch writeBranch =
     (if writeBranch = '''' then ''''
      else if suffix ''/'' writeBranch then writeBranch @ runBranchLeaf
      else writeBranch)"

definition LockPrefix :: "string \<Rightarrow> string" where
  "LockPrefix branch =
     (if suffix (''/'' @ runBranchLeaf) branch then TrimSuffix branch runBranchLeaf else branch @ ''/'')"

record holding =
  h_RunID :: uuid
  h_AgentID :: uuid
  h_Prefix :: string

definition covers :: "string \<Rightarrow> run_row \<Rightarrow> bool" where
  "covers branch r \<longleftrightarrow> rn_Branch r \<noteq> '''' \<and> (branch = rn_Branch r \<or> prefix (LockPrefix (rn_Branch r)) branch)"

definition Check :: "ctx \<Rightarrow> uuid \<Rightarrow> string \<Rightarrow> holding option agent_op" where
  "Check ctx repoID ref =
     bnd (from_context ctx) (\<lambda>scope.
     query Sql (\<lambda>d. map_option (\<lambda>r. \<lparr>h_RunID = rn_ID r, h_AgentID = rn_AgentID r, h_Prefix = LockPrefix (rn_Branch r)\<rparr>)
       (List.find (covers (TrimPrefix ref ''refs/heads/''))
         (filter (\<lambda>r. rn_OrgID r = s_OrgID scope \<and> rn_RepoID r = repoID \<and> rn_State r = ''running'') (runs d)))))"

definition Release :: "ctx \<Rightarrow> time \<Rightarrow> uuid \<Rightarrow> uuid \<Rightarrow> string \<Rightarrow> unit agent_op" where
  "Release ctx now orgID repoID branch =
     bnd (require_org ctx orgID) (\<lambda>_.
     bnd (stmt Sql (update_runs (\<lambda>r. rn_OrgID r = orgID \<and> rn_RepoID r = repoID \<and> rn_Branch r = branch \<and> rn_State r = ''running'')
            (\<lambda>r. r\<lparr>rn_State := ''succeeded'', rn_EndedAt := Some now\<rparr>))) (\<lambda>_.
     ret ()))"

definition RefuseWrite :: "scope \<Rightarrow> string \<Rightarrow> holding \<Rightarrow> agenterr + unit" where
  "RefuseWrite actor ref h =
     (if s_ActorKind actor = ''agent'' \<and> s_ActorID actor = h_AgentID h then Inr ()
      else Inl (LockedByRun (TrimPrefix ref ''refs/heads/'') (h_RunID h) (h_Prefix h)))"

primrec check_refs :: "ctx \<Rightarrow> uuid \<Rightarrow> scope \<Rightarrow> string list \<Rightarrow> unit agent_op" where
  "check_refs ctx repoID s [] = ret ()"
| "check_refs ctx repoID s (ref # refs) =
     bnd (Check ctx repoID ref) (\<lambda>h.
     case h of
       None \<Rightarrow> check_refs ctx repoID s refs
     | Some held \<Rightarrow>
         (case RefuseWrite s ref held of
            Inl e \<Rightarrow> fail (App e)
          | Inr _ \<Rightarrow> check_refs ctx repoID s refs))"

text \<open>The wrapped check is an argument; nil is \<^const>\<open>None\<close>.\<close>

definition CapFunc :: "uuid \<Rightarrow> (ctx \<Rightarrow> scope \<Rightarrow> uuid \<Rightarrow> string \<Rightarrow> string list \<Rightarrow> unit agent_op) option \<Rightarrow>
    ctx \<Rightarrow> scope \<Rightarrow> uuid \<Rightarrow> string \<Rightarrow> string list \<Rightarrow> unit agent_op" where
  "CapFunc repoID next_fn ctx s orgID repo refs =
     bnd (require_org ctx orgID) (\<lambda>_.
     bnd (check_refs ctx repoID s refs) (\<lambda>_.
     case next_fn of None \<Rightarrow> ret () | Some g \<Rightarrow> g ctx s orgID repo refs))"

section \<open>The frozen Work item\<close>

record execution_claim =
  cl_WorkItemID :: uuid
  cl_RepoID :: uuid
  cl_RunID :: uuid
  cl_AgentID :: uuid
  cl_SponsorID :: uuid

record execution_release =
  rl_Claim :: execution_claim
  rl_Outcome :: string
  rl_NoExecutionStarted :: bool

definition ExecutionClaim :: "'a run_cols_scheme \<Rightarrow> execution_claim" where
  "ExecutionClaim r = \<lparr>cl_WorkItemID = rn_WorkItemID r, cl_RepoID = rn_RepoID r, cl_RunID = rn_ID r,
     cl_AgentID = rn_AgentID r, cl_SponsorID = rn_SponsorID r\<rparr>"

text \<open>\<open>proto.Marshal\<close> and \<open>proto.Unmarshal\<close> are arguments; a nil item is \<^const>\<open>None\<close>.\<close>

definition FreezeWorkItem :: "(proto_item \<Rightarrow> string option) \<Rightarrow> ctx \<Rightarrow> run \<Rightarrow> proto_item option \<Rightarrow> unit agent_op" where
  "FreezeWorkItem mar ctx r item =
     (case item of
        None \<Rightarrow> fail (App ClaimMismatch)
      | Some it \<Rightarrow>
          if t_Id it \<noteq> rn_WorkItemID r \<or> t_RepoId it \<noteq> rn_RepoID r then fail (App ClaimMismatch)
          else
            bnd (require_org ctx (rn_OrgID r)) (\<lambda>_.
            case mar it of
              None \<Rightarrow> fail (App MarshalFailed)
            | Some body \<Rightarrow>
                bnd (stmt Sql (update_runs
                       (\<lambda>q. of_run (rn_ID r) (rn_OrgID r) q \<and> rn_State q = ''queued''
                          \<and> (rn_WorkItemSnapshot q = None \<or> rn_WorkItemSnapshot q = Some body))
                       (\<lambda>q. q\<lparr>rn_WorkItemSnapshot := Some body\<rparr>))) (\<lambda>n.
                if n \<noteq> 1 then fail (App AdmissionLost) else ret ())))"

definition FrozenWorkItem :: "(string \<Rightarrow> proto_item option) \<Rightarrow> run \<Rightarrow> agenterr + proto_item" where
  "FrozenWorkItem unm r =
     (case rn_WorkItemSnapshot r of
        None \<Rightarrow> Inl NoFrozenIntent
      | Some body \<Rightarrow>
          if body = '''' then Inl NoFrozenIntent
          else (case unm body of
                  None \<Rightarrow> Inl MarshalFailed
                | Some it \<Rightarrow>
                    if t_Id it \<noteq> rn_WorkItemID r \<or> t_RepoId it \<noteq> rn_RepoID r then Inl FrozenMismatch
                    else Inr it))"

end
