(* ===== verification/NF_AgentOps.thy ===== *)
theory NF_AgentOps
  imports NF_AgentStore
begin

text \<open>
  How a run ends (\<open>internal/agents/completion.go\<close>, \<open>settle.go\<close>, \<open>recover.go\<close>), and what it owes
  when it has: the revocation of its grant, the teardown of its workspace and the release of its
  Work item (\<open>grant_cleanup.go\<close>, \<open>workspace_cleanup.go\<close>), up to the deletion of a scope
  (\<open>purge.go\<close>). The owners of those resources are other services: their calls are arguments,
  collected in \<open>owners\<close>, and answer differently at every call of an operation. The event
  stream of state changes is best-effort and not part of the state.
\<close>

section \<open>Owners\<close>

text \<open>
  A nil function of the \<open>Store\<close> is \<^const>\<open>None\<close>; \<^const>\<open>True\<close> is a nil error. A workspace
  cleaner hands termination receipts to \<open>RecordWorkspaceCleanup\<close> on its way: it is the list of
  receipts and whether the teardown was confirmed. \<open>ClaimExecution\<close> may answer differently at
  the second attempt.
\<close>

record owners =
  ow_GrantRevoker :: "(uuid \<Rightarrow> bool) option"
  ow_GrantIssuanceCanceller :: "(issuance_intent \<Rightarrow> bool) option"
  ow_WorkClaims :: "((nat \<Rightarrow> execution_claim \<Rightarrow> proto_item option option) \<times> (execution_release \<Rightarrow> bool)) option"
  ow_WorkspaceCleaner :: "(identity \<Rightarrow> identity list \<times> bool) option"
  ow_WorkspaceRecoverer :: "(uuid \<Rightarrow> identity option) option"

text \<open>A context that acts as an agent inside an organization.\<close>

definition agent_scope :: "uuid \<Rightarrow> uuid \<Rightarrow> scope" where
  "agent_scope org actor = \<lparr>s_OrgID = org, s_ActorID = actor, s_ActorKind = ''agent'', s_ServiceName = '''',
     s_Role = '''', s_PlatformWorker = '''', s_RepoLimited = False, s_Repos = Map.empty\<rparr>"

section \<open>Completion\<close>

definition insert_call :: "tool_call \<Rightarrow> agentdb \<Rightarrow> sqlerr + (unit \<times> agentdb)" where
  "insert_call c d =
     (if tc_ID c \<in> tc_ID ` set (tool_calls d) then Inl UniqueViolation
      else if tc_RunID c \<notin> rn_ID ` set (runs d) then Inl ForeignKeyViolation
      else Inr ((), d\<lparr>tool_calls := tool_calls d @ [c]\<rparr>))"

definition complete_row :: "time \<Rightarrow> string \<Rightarrow> completion \<Rightarrow> run_row \<Rightarrow> run_row" where
  "complete_row now state c r =
     (let sp = cm_Spend c in
      r\<lparr>rn_ExecutionFinished := True, rn_State := state,
        rn_EndedAt := (case rn_EndedAt r of None \<Rightarrow> Some now | Some t \<Rightarrow> Some t),
        rn_TokensUsed := max (rn_TokensUsed r) (sp_Tokens sp),
        rn_CostUsedMicros := max (rn_CostUsedMicros r) (sp_CostMicros sp),
        rn_TokensAvailable := sp_TokensAvailable sp, rn_CostAvailable := sp_CostAvailable sp,
        rn_EndReason := (if rn_State r = ''cancelled'' \<or> rn_State r = ''failed'' then rn_EndReason r else sp_Reason sp),
        rn_GrantCleanupPending := (rn_GrantCleanupPending r \<or> rn_EndedAt r = None \<and> rn_GrantID r \<noteq> uuid_Nil),
        rw_Completion := Some c\<rparr>)"

definition unresolved_calls :: "uuid \<Rightarrow> uuid \<Rightarrow> agentdb \<Rightarrow> bool" where
  "unresolved_calls org rid d \<longleftrightarrow> (\<exists>c \<in> set (tool_calls d). tc_OrgID c = org \<and> tc_RunID c = rid
     \<and> (tc_Outcome c = ''pending'' \<or> tc_Outcome c = ''unavailable''))"

definition summary_call :: "uuid \<Rightarrow> uuid \<Rightarrow> uuid \<Rightarrow> time \<Rightarrow> string \<Rightarrow> completion \<Rightarrow> tool_call" where
  "summary_call new_id rid org now state c =
     \<lparr>tc_ID = new_id, tc_RunID = rid, tc_OrgID = org, tc_Tool = ''run.summary'',
      tc_Args = Evidence state (cm_Summary c) (sp_TokensAvailable (cm_Spend c)) (sp_CostAvailable (cm_Spend c)),
      tc_Outcome = ''ok'', tc_Error = '''', tc_StartedAt = now, tc_EndedAt = Some now\<rparr>"

definition write_completion :: "uuid \<Rightarrow> time \<Rightarrow> uuid \<Rightarrow> uuid \<Rightarrow> string \<Rightarrow> completion \<Rightarrow> string txres agent_op" where
  "write_completion new_id now rid org state c =
     bnd (stmt Sql (update_runs (of_run rid org) (complete_row now state c))) (\<lambda>_.
     bnd (stmt Sql (insert_call (summary_call new_id rid org now state c))) (\<lambda>_.
     ret (Commit state)))"

definition CompleteRun :: "ctx \<Rightarrow> uuid \<Rightarrow> time \<Rightarrow> uuid \<Rightarrow> completion \<Rightarrow> string agent_op" where
  "CompleteRun ctx new_id now rid c =
     bnd (from_context ctx) (\<lambda>scope.
     if cm_State c \<notin> set terminalStates \<or> sp_Tokens (cm_Spend c) < 0 \<or> sp_CostMicros (cm_Spend c) < 0
     then fail (App InvalidCompletion)
     else tx Sql (
       bnd (query Sql (find_run rid (s_OrgID scope))) (\<lambda>row.
       case row of
         None \<Rightarrow> fail (App AgentNoRows)
       | Some r \<Rightarrow>
           bnd (query Sql (unresolved_calls (s_OrgID scope) rid)) (\<lambda>unresolved.
           if cm_State c = ''succeeded'' \<and> unresolved then fail (App EvidenceUnresolved)
           else if cm_State c = ''succeeded'' \<and> rn_WorkspaceCleanupPending r then fail (App WorkspaceUnconfirmed)
           else (case rw_Completion r of
               Some c' \<Rightarrow> if c' \<noteq> c then fail (App CompletionConflict) else ret (Commit (rn_State r))
             | None \<Rightarrow>
                 if terminal r \<and> rn_State r \<noteq> ''cancelled'' \<and> rn_State r \<noteq> ''failed'' then fail (App CompletionStale)
                 else write_completion new_id now rid (s_OrgID scope)
                        (if terminal r then rn_State r else cm_State c) c)))))"

section \<open>The workspace's obligation\<close>

text \<open>Identities that agree but for the observed termination.\<close>

definition same_workspace :: "identity \<Rightarrow> identity \<Rightarrow> bool" where
  "same_workspace a b \<longleftrightarrow> a\<lparr>wk_TerminationObserved := False\<rparr> = b\<lparr>wk_TerminationObserved := False\<rparr>"

definition observed :: "run_row \<Rightarrow> bool" where
  "observed r \<longleftrightarrow> (case rn_WorkspaceIdentity r of None \<Rightarrow> False | Some i \<Rightarrow> wk_TerminationObserved i)"

definition RecordWorkspaceCleanup :: "ctx \<Rightarrow> identity \<Rightarrow> unit agent_op" where
  "RecordWorkspaceCleanup ctx i =
     bnd (require_org ctx (wk_OrgID i)) (\<lambda>_.
     if wk_RunID i = uuid_Nil \<or> wk_NamespaceUID i = '''' \<or> wk_PodUID i = '''' then fail (App WorkspaceUnavailable)
     else
       bnd (stmt Sql (update_runs
              (\<lambda>r. of_run (wk_RunID i) (wk_OrgID i) r
                 \<and> (case rn_WorkspaceIdentity r of None \<Rightarrow> True | Some j \<Rightarrow> same_workspace j i)
                 \<and> (\<not> wk_TerminationObserved i \<and> (rn_State r = ''queued'' \<or> rn_State r = ''running'')
                      \<and> \<not> rn_ExecutionFinished r
                    \<or> wk_TerminationObserved i \<and> rn_WorkspaceIdentity r \<noteq> None))
              (\<lambda>r. r\<lparr>rn_WorkspaceIdentity := (if observed r then rn_WorkspaceIdentity r else Some i),
                      rn_WorkspaceCleanupPending := True\<rparr>))) (\<lambda>n.
       if n \<noteq> 1 then fail (App WorkspaceConflict) else ret ()))"

primrec record_receipts :: "ctx \<Rightarrow> identity list \<Rightarrow> unit agent_op" where
  "record_receipts ctx [] = ret ()"
| "record_receipts ctx (i # is) = bnd (RecordWorkspaceCleanup ctx i) (\<lambda>_. record_receipts ctx is)"

definition ConfirmWorkspaceCleanup :: "owners \<Rightarrow> ctx \<Rightarrow> uuid \<Rightarrow> unit agent_op" where
  "ConfirmWorkspaceCleanup ow ctx rid =
     bnd (from_context ctx) (\<lambda>scope.
     bnd (GetRun ctx rid) (\<lambda>r.
     if \<not> rn_WorkspaceCleanupPending r then ret ()
     else (case (ow_WorkspaceCleaner ow, rn_WorkspaceIdentity r) of
         (Some clean, Some i) \<Rightarrow>
           bnd (record_receipts ctx (fst (clean i))) (\<lambda>_.
           if \<not> snd (clean i) then fail (App OwnerFailed)
           else
             bnd (stmt Sql (update_runs
                    (\<lambda>q. of_run rid (s_OrgID scope) q \<and> observed q
                       \<and> (case rn_WorkspaceIdentity q of None \<Rightarrow> False | Some j \<Rightarrow> same_workspace j i))
                    (\<lambda>q. q\<lparr>rn_WorkspaceCleanupPending := False, rn_WorkspaceCleanupError := ''''\<rparr>))) (\<lambda>n.
             if n \<noteq> 1 then fail (App TerminationUnavailable) else ret ()))
       | _ \<Rightarrow> fail (App CleanerUnavailable))))"

definition BeginWorkspace :: "ctx \<Rightarrow> uuid \<Rightarrow> unit agent_op" where
  "BeginWorkspace ctx rid =
     bnd (from_context ctx) (\<lambda>scope.
     bnd (stmt Sql (update_runs (\<lambda>r. of_run rid (s_OrgID scope) r \<and> rn_State r = ''running'' \<and> \<not> rn_ExecutionFinished r)
            (\<lambda>r. r\<lparr>rn_WorkspaceCleanupPending := True\<rparr>))) (\<lambda>n.
     if n \<noteq> 1 then fail (App WorkspaceAdmissionLost) else ret ()))"

definition AdoptWorkspaceCleanup :: "ctx \<Rightarrow> identity \<Rightarrow> unit agent_op" where
  "AdoptWorkspaceCleanup ctx i =
     bnd (require_org ctx (wk_OrgID i)) (\<lambda>_.
     if wk_NamespaceUID i = '''' \<or> wk_PodUID i = '''' then fail (App WorkspaceUnavailable)
     else
       bnd (stmt Sql (update_runs
              (\<lambda>r. of_run (wk_RunID i) (wk_OrgID i) r \<and> rn_WorkspaceCleanupPending r
                 \<and> rn_WorkspaceIdentity r = None \<and> terminal r)
              (\<lambda>r. r\<lparr>rn_WorkspaceIdentity := Some i\<rparr>))) (\<lambda>n.
       if n \<noteq> 1 then fail (App AdoptionLost) else ret ()))"

section \<open>The cleanup of a run\<close>

definition owes :: "'a run_cols_scheme \<Rightarrow> bool" where
  "owes r \<longleftrightarrow> rn_GrantCleanupPending r \<or> rn_WorkReleasePending r \<or> rn_WorkspaceCleanupPending r"

text \<open>\<open>t <= now\<close> for a column that may be \<open>'-infinity'\<close>.\<close>

definition due :: "time option \<Rightarrow> time \<Rightarrow> bool" where
  "due t now \<longleftrightarrow> (case t of None \<Rightarrow> True | Some x \<Rightarrow> x \<le> now)"

definition lease_row :: "uuid \<Rightarrow> time \<Rightarrow> run_row \<Rightarrow> run_row" where
  "lease_row claim now r = r\<lparr>rw_CleanupClaim := Some claim, rw_CleanupLease := Some (now + 120 * second),
     rw_CleanupAttempts := rw_CleanupAttempts r + 1\<rparr>"

text \<open>\<^const>\<open>None\<close> when there is nothing left to clean up.\<close>

definition claim_cleanup :: "ctx \<Rightarrow> scope \<Rightarrow> uuid \<Rightarrow> time \<Rightarrow> uuid \<Rightarrow> uuid option agent_op" where
  "claim_cleanup ctx scope claim now rid =
     bnd (stmt Sql (update_runs
            (\<lambda>r. of_run rid (s_OrgID scope) r \<and> terminal r \<and> owes r \<and> due (rw_CleanupLease r) now)
            (lease_row claim now))) (\<lambda>n.
     if n \<noteq> 0 then ret (Some claim)
     else
       bnd (GetRun ctx rid) (\<lambda>cur.
       if terminal cur \<and> \<not> owes cur then ret None else fail (App CleanupNotClaimable)))"

text \<open>The owner's answer about the run's grant: whether it confirmed that the grant is dead.\<close>

definition grant_confirmed :: "owners \<Rightarrow> 'a run_cols_scheme \<Rightarrow> bool" where
  "grant_confirmed ow r \<longleftrightarrow>
     (case rn_GrantIntent r of
        Some i \<Rightarrow> (case ow_GrantIssuanceCanceller ow of None \<Rightarrow> False | Some f \<Rightarrow> f i)
      | None \<Rightarrow> (case ow_GrantRevoker ow of None \<Rightarrow> False | Some f \<Rightarrow> f (rn_GrantID r)))"

text \<open>Each of the three parts returns whether it failed.\<close>

definition cleanup_workspace :: "owners \<Rightarrow> ctx \<Rightarrow> run \<Rightarrow> bool agent_op" where
  "cleanup_workspace ow ctx r =
     (if \<not> rn_WorkspaceCleanupPending r then ret False
      else
        bnd (case (rn_WorkspaceIdentity r, ow_WorkspaceRecoverer ow) of
               (None, Some f) \<Rightarrow>
                 (case f (rn_ID r) of
                    None \<Rightarrow> ret None
                  | Some i \<Rightarrow> bnd (attempt (AdoptWorkspaceCleanup ctx i)) (\<lambda>e.
                      ret (case e of Inl _ \<Rightarrow> None | Inr _ \<Rightarrow> Some i)))
             | (i, _) \<Rightarrow> ret i) (\<lambda>ident.
        if ow_WorkspaceCleaner ow = None \<or> ident = None then ret True
        else bnd (attempt (ConfirmWorkspaceCleanup ow ctx (rn_ID r))) (\<lambda>e. ret (case e of Inl _ \<Rightarrow> True | Inr _ \<Rightarrow> False))))"

definition pending_calls :: "uuid \<Rightarrow> uuid \<Rightarrow> agentdb \<Rightarrow> bool" where
  "pending_calls org rid d \<longleftrightarrow> (\<exists>c \<in> set (tool_calls d). tc_OrgID c = org \<and> tc_RunID c = rid \<and> tc_Outcome c = ''pending'')"

definition release_request :: "run \<Rightarrow> execution_release" where
  "release_request r = \<lparr>rl_Claim = ExecutionClaim r,
     rl_Outcome = (if rn_StartedAt r = None then ''admission_failed'' else rn_State r),
     rl_NoExecutionStarted = (rn_StartedAt r = None)\<rparr>"

definition cleanup_release :: "owners \<Rightarrow> uuid \<Rightarrow> bool \<Rightarrow> bool \<Rightarrow> run \<Rightarrow> bool agent_op" where
  "cleanup_release ow org revokeErr workspaceErr r =
     (if \<not> rn_WorkReleasePending r then ret False
      else
        bnd (attempt (query Sql (pending_calls org (rn_ID r)))) (\<lambda>audit.
        ret ((case audit of Inl (_ :: agenterr fault) \<Rightarrow> True | Inr pending \<Rightarrow> pending)
             \<or> workspaceErr \<or> revokeErr
             \<or> rn_StartedAt r \<noteq> None \<and> \<not> rn_ExecutionFinished r
             \<or> (case ow_WorkClaims ow of None \<Rightarrow> True | Some f \<Rightarrow> \<not> snd f (release_request r)))))"

definition ack_row :: "bool \<Rightarrow> bool \<Rightarrow> bool \<Rightarrow> time \<Rightarrow> run_row \<Rightarrow> run_row" where
  "ack_row revokeErr releaseErr workspaceErr now r =
     r\<lparr>rn_GrantCleanupPending := revokeErr,
       rn_GrantCleanupError := (if revokeErr then ''grant revocation not confirmed; cleanup will retry'' else ''''),
       rn_WorkReleasePending := releaseErr,
       rn_WorkReleaseError := (if releaseErr then ''Work execution release unconfirmed; cleanup will retry'' else ''''),
       rn_WorkspaceCleanupPending := workspaceErr,
       rn_WorkspaceCleanupError := (if workspaceErr then ''workspace termination unconfirmed; cleanup will retry'' else ''''),
       rw_CleanupNextAt := Some (now + second), rw_CleanupLease := None, rw_CleanupClaim := None\<rparr>"

definition ack_cleanup :: "ctx \<Rightarrow> time \<Rightarrow> uuid \<Rightarrow> run \<Rightarrow> bool \<Rightarrow> bool \<Rightarrow> bool \<Rightarrow> unit agent_op" where
  "ack_cleanup ctx now claim r revokeErr releaseErr workspaceErr =
     bnd (stmt Sql (update_runs
            (\<lambda>q. of_run (rn_ID r) (rn_OrgID r) q \<and> rn_GrantID q = rn_GrantID r \<and> owes q \<and> rw_CleanupClaim q = Some claim)
            (ack_row revokeErr releaseErr workspaceErr now))) (\<lambda>n.
     if n = 0 then
       bnd (GetRun ctx (rn_ID r)) (\<lambda>cur.
       if owes cur then fail (App (CleanupClaimLost (rn_ID r))) else ret ())
     else if revokeErr \<or> releaseErr \<or> workspaceErr then fail (App (CleanupPending (rn_ID r)))
     else ret ())"

definition cleanup_owned :: "owners \<Rightarrow> (nat \<Rightarrow> time) \<Rightarrow> ctx \<Rightarrow> scope \<Rightarrow> uuid \<Rightarrow> run \<Rightarrow> unit agent_op" where
  "cleanup_owned ow ts ctx scope claim r =
     (let revokeErr = rn_GrantCleanupPending r \<and> \<not> grant_confirmed ow r in
      bnd (cleanup_workspace ow ctx r) (\<lambda>workspaceErr.
      bnd (cleanup_release ow (s_OrgID scope) revokeErr workspaceErr r) (\<lambda>releaseErr.
      ack_cleanup ctx (ts 2) claim r revokeErr releaseErr workspaceErr)))"

text \<open>
  A claim that is NULL in the row fails to be read as a boolean; it is an error like a claim
  that is another's. \<open>ts\<close> are the readings of \<open>clock_timestamp()\<close>.
\<close>

definition cleanup_claimed :: "owners \<Rightarrow> (nat \<Rightarrow> time) \<Rightarrow> ctx \<Rightarrow> scope \<Rightarrow> uuid \<Rightarrow> uuid \<Rightarrow> unit agent_op" where
  "cleanup_claimed ow ts ctx scope claim rid =
     bnd (GetRun ctx rid) (\<lambda>r.
     bnd (query Sql (find_run rid (s_OrgID scope))) (\<lambda>row.
     case row of
       None \<Rightarrow> fail (App AgentNoRows)
     | Some q \<Rightarrow>
         if rw_CleanupClaim q \<noteq> Some claim \<or> due (rw_CleanupLease q) (ts 1) then fail (App CleanupClaimExpired)
         else cleanup_owned ow ts ctx scope claim r))"

definition cleanupRunGrant :: "owners \<Rightarrow> (nat \<Rightarrow> time) \<Rightarrow> uuid \<Rightarrow> ctx \<Rightarrow> uuid \<Rightarrow> uuid \<Rightarrow> unit agent_op" where
  "cleanupRunGrant ow ts new_claim ctx rid claim =
     bnd (from_context ctx) (\<lambda>scope.
     bnd (if claim = uuid_Nil then claim_cleanup ctx scope new_claim (ts 0) rid else ret (Some claim)) (\<lambda>c.
     case c of None \<Rightarrow> ret () | Some held \<Rightarrow> cleanup_claimed ow ts ctx scope held rid))"

definition CleanupRunGrant :: "owners \<Rightarrow> (nat \<Rightarrow> time) \<Rightarrow> uuid \<Rightarrow> ctx \<Rightarrow> uuid \<Rightarrow> unit agent_op" where
  "CleanupRunGrant ow ts new_claim ctx rid = cleanupRunGrant ow ts new_claim ctx rid uuid_Nil"

text \<open>\<open>orphan\<close>: the organization, the run and the agent.\<close>

type_synonym orphan = "uuid \<times> uuid \<times> uuid"

definition orphan_of :: "run_row \<Rightarrow> orphan" where
  "orphan_of r = (rn_OrgID r, rn_ID r, rn_AgentID r)"

definition due_cleanups :: "time \<Rightarrow> agentdb \<Rightarrow> run_row list" where
  "due_cleanups now d = take 100 (nulls_first rw_CleanupNextAt (nulls_last rn_EndedAt (sort_key rn_ID
     (filter (\<lambda>r. owes r \<and> terminal r \<and> due (rw_CleanupNextAt r) now \<and> due (rw_CleanupLease r) now) (runs d)))))"

definition claim_due :: "uuid \<Rightarrow> time \<Rightarrow> agentdb \<Rightarrow> sqlerr + (orphan list \<times> agentdb)" where
  "claim_due claim now d =
     (let batch = due_cleanups now d in
      case update_runs (\<lambda>r. rn_ID r \<in> rn_ID ` set batch) (lease_row claim now) d of
        Inl e \<Rightarrow> Inl e
      | Inr (_, d') \<Rightarrow> Inr (map orphan_of batch, d'))"

text \<open>The workers of a sweep take the claimed runs in some order; each cleanup's errors are collected.\<close>

primrec cleanup_batch :: "owners \<Rightarrow> (uuid \<Rightarrow> nat \<Rightarrow> time) \<Rightarrow> uuid \<Rightarrow> orphan list \<Rightarrow> agenterr fault list agent_op" where
  "cleanup_batch ow ts claim [] = ret []"
| "cleanup_batch ow ts claim (o' # os) =
     bnd (attempt (cleanupRunGrant ow (ts (fst (snd o'))) claim
            (Some (agent_scope (fst o') (snd (snd o')))) (fst (snd o')) claim)) (\<lambda>e.
     bnd (cleanup_batch ow ts claim os) (\<lambda>errs.
     ret (case e of Inl x \<Rightarrow> x # errs | Inr _ \<Rightarrow> errs)))"

definition ReconcileGrantCleanup :: "owners \<Rightarrow> (uuid \<Rightarrow> nat \<Rightarrow> time) \<Rightarrow> uuid \<Rightarrow> time \<Rightarrow> agenterr fault list agent_op" where
  "ReconcileGrantCleanup ow ts claim now =
     bnd (stmt Sql (claim_due claim now)) (\<lambda>pending. cleanup_batch ow ts claim pending)"

section \<open>Settling and recovery\<close>

definition SettleRun :: "owners \<Rightarrow> (nat \<Rightarrow> time) \<Rightarrow> uuid \<Rightarrow> time \<Rightarrow> run \<Rightarrow> string \<Rightarrow> unit agent_op" where
  "SettleRun ow ts new_claim now r state =
     (if state \<notin> set terminalStates then fail (App (NotTerminal (rn_ID r) state))
      else
        let scoped = Some (agent_scope (rn_OrgID r) (rn_AgentID r)) in
        bnd (GetRun scoped (rn_ID r)) (\<lambda>current.
        if rn_State current = state \<or> rn_State current = ''cancelled''
        then CleanupRunGrant ow ts new_claim scoped (rn_ID r)
        else
          bnd (SetRunState scoped now (rn_ID r) state) (\<lambda>_.
          CleanupRunGrant ow ts new_claim scoped (rn_ID r))))"

definition OrphanGrace :: time where
  "OrphanGrace = 15 * 60 * second"

definition overdue :: "time \<Rightarrow> time \<Rightarrow> run_row \<Rightarrow> bool" where
  "overdue grace now r \<longleftrightarrow>
     (case rn_StartedAt r of None \<Rightarrow> False | Some t \<Rightarrow> t + rw_WallclockSeconds r * second + grace < now)"

definition staleRunning :: "time \<Rightarrow> time \<Rightarrow> orphan list agent_op" where
  "staleRunning grace now =
     query Sql (\<lambda>d. map orphan_of (filter (\<lambda>r. rn_State r = ''running'' \<and> overdue grace now r) (runs d)))"

text \<open>An admission whose lease ran out.\<close>

definition lease_expired :: "time \<Rightarrow> run_row \<Rightarrow> bool" where
  "lease_expired now r \<longleftrightarrow> rn_State r = ''queued'' \<and> rn_GrantIntent r \<noteq> None
     \<and> (case rw_AdmissionLease r of None \<Rightarrow> True | Some t \<Rightarrow> t < now)"

definition fail_row :: "time \<Rightarrow> string \<Rightarrow> run_row \<Rightarrow> run_row" where
  "fail_row now reason r = r\<lparr>rn_State := ''failed'', rn_EndedAt := Some now, rn_EndReason := reason,
     rn_GrantCleanupPending := (rn_GrantID r \<noteq> uuid_Nil)\<rparr>"

primrec fail_expired :: "time \<Rightarrow> orphan list \<Rightarrow> unit agent_op" where
  "fail_expired now [] = ret ()"
| "fail_expired now (o' # os) =
     bnd (stmt Sql (update_runs (\<lambda>r. of_run (fst (snd o')) (fst o') r \<and> lease_expired now r)
            (fail_row now ''admission replica lost before execution''))) (\<lambda>_.
     fail_expired now os)"

primrec fail_stale :: "time \<Rightarrow> time \<Rightarrow> string \<Rightarrow> orphan list \<Rightarrow> (nat \<times> agenterr fault list) agent_op" where
  "fail_stale grace now reason [] = ret (0, [])"
| "fail_stale grace now reason (o' # os) =
     bnd (attempt (stmt Sql (update_runs
            (\<lambda>r. of_run (fst (snd o')) (fst o') r \<and> rn_State r = ''running'' \<and> rw_Completion r = None \<and> overdue grace now r)
            (fail_row now reason)))) (\<lambda>e.
     bnd (fail_stale grace now reason os) (\<lambda>(n, errs).
     ret (case e of Inl x \<Rightarrow> (n, x # errs) | Inr k \<Rightarrow> (if k = 0 then n else n + 1, errs))))"

text \<open>The number of runs it settled, and the errors it joined. The reason names the grace, \<open>reason grace\<close>.\<close>

definition RecoverOrphanedRuns :: "owners \<Rightarrow> (uuid \<Rightarrow> nat \<Rightarrow> time) \<Rightarrow> uuid \<Rightarrow> (time \<Rightarrow> string) \<Rightarrow> time \<Rightarrow> time \<Rightarrow>
    (nat \<times> agenterr fault list) agent_op" where
  "RecoverOrphanedRuns ow ts claim reason grace now =
     bnd (query Sql (\<lambda>d. map orphan_of (take 100 (nulls_first rw_AdmissionLease (sort_key rn_ID
            (filter (lease_expired now) (runs d))))))) (\<lambda>expired.
     bnd (fail_expired now expired) (\<lambda>_.
     bnd (staleRunning grace now) (\<lambda>stale.
     bnd (fail_stale grace now (reason grace) stale) (\<lambda>(settled, errs).
     bnd (attempt (ReconcileGrantCleanup ow ts claim now)) (\<lambda>more.
     ret (settled, errs @ (case more of Inl x \<Rightarrow> [x] | Inr xs \<Rightarrow> xs)))))))"

section \<open>Deletion of a scope\<close>

definition agents_purgeOrg :: "ctx \<Rightarrow> uuid agent_op" where
  "agents_purgeOrg ctx =
     (case FromContext ctx of
        Inl _ \<Rightarrow> fail (App AgentPurgeScope)
      | Inr scope \<Rightarrow> if s_OrgID scope = uuid_Nil then fail (App AgentPurgeScope) else ret (s_OrgID scope))"

definition in_purge :: "uuid \<Rightarrow> uuid option \<Rightarrow> run_row \<Rightarrow> bool" where
  "in_purge org repo r \<longleftrightarrow> rn_OrgID r = org \<and> (case repo of None \<Rightarrow> True | Some u \<Rightarrow> rn_RepoID r = u)"

definition RunIDsToPurge :: "ctx \<Rightarrow> uuid option \<Rightarrow> uuid list agent_op" where
  "RunIDsToPurge ctx repo =
     bnd (agents_purgeOrg ctx) (\<lambda>org. query Sql (\<lambda>d. map rn_ID (filter (in_purge org repo) (runs d))))"

definition fence_scope :: "uuid \<Rightarrow> uuid option \<Rightarrow> agentdb \<Rightarrow> agentdb" where
  "fence_scope org repo d =
     (let key = (org, case repo of None \<Rightarrow> uuid_Nil | Some u \<Rightarrow> u) in
      if key \<in> set (deleted_scopes d) then d else d\<lparr>deleted_scopes := deleted_scopes d @ [key]\<rparr>)"

definition cancel_row :: "time \<Rightarrow> run_row \<Rightarrow> run_row" where
  "cancel_row now r = r\<lparr>rn_State := ''cancelled'', rn_EndedAt := Some now,
     rn_GrantCleanupPending := (rn_GrantID r \<noteq> uuid_Nil)\<rparr>"

primrec cleanup_each :: "owners \<Rightarrow> (uuid \<Rightarrow> nat \<Rightarrow> time) \<Rightarrow> (uuid \<Rightarrow> uuid) \<Rightarrow> ctx \<Rightarrow> uuid list \<Rightarrow> unit agent_op" where
  "cleanup_each ow ts new_claims ctx [] = ret ()"
| "cleanup_each ow ts new_claims ctx (i # is) =
     bnd (CleanupRunGrant ow (ts i) (new_claims i) ctx i) (\<lambda>_. cleanup_each ow ts new_claims ctx is)"

text \<open>The deletes, with their \<open>ON DELETE CASCADE\<close>.\<close>

definition delete_calls :: "(tool_call \<Rightarrow> bool) \<Rightarrow> agentdb \<Rightarrow> agentdb" where
  "delete_calls P d =
     (let gone = tc_ID ` set (filter P (tool_calls d)) in
      d\<lparr>tool_calls := filter (\<lambda>c. \<not> P c) (tool_calls d),
        tool_events := filter (\<lambda>e. te_CallID e \<notin> gone) (tool_events d)\<rparr>)"

definition delete_runs :: "(run_row \<Rightarrow> bool) \<Rightarrow> agentdb \<Rightarrow> nat \<times> agentdb" where
  "delete_runs P d =
     (let gone = rn_ID ` set (filter P (runs d));
          d1 = delete_calls (\<lambda>c. tc_RunID c \<in> gone) d in
      (affected P (runs d),
       d1\<lparr>runs := filter (\<lambda>r. \<not> P r) (runs d),
          provenances := (provenances d) |` (- gone),
          tool_events := filter (\<lambda>e. te_RunID e \<notin> gone) (tool_events d1)\<rparr>))"

definition delete_agents :: "uuid \<Rightarrow> agentdb \<Rightarrow> sqlerr + (unit \<times> agentdb)" where
  "delete_agents org d =
     (if \<exists>r \<in> set (runs d). rn_AgentID r \<in> ag_ID ` set (filter (\<lambda>a. ag_OrgID a = org) (agents d)) then Inl ForeignKeyViolation
      else Inr ((), d\<lparr>agents := filter (\<lambda>a. ag_OrgID a \<noteq> org) (agents d)\<rparr>))"

definition purge_rows :: "uuid \<Rightarrow> uuid option \<Rightarrow> nat txres agent_op" where
  "purge_rows org repo =
     bnd (query Sql (\<lambda>d. filter (in_purge org repo) (runs d))) (\<lambda>rows.
     if \<exists>r \<in> set rows. \<not> terminal r \<or> owes r then fail (App PurgePending)
     else
       let confirmed = map rn_ID rows in
       bnd (update Sql (\<lambda>d. ((), delete_calls (\<lambda>c. tc_OrgID c = org \<and> tc_RunID c \<in> set confirmed) d))) (\<lambda>_.
       bnd (update Sql (delete_runs (\<lambda>r. rn_OrgID r = org \<and> rn_ID r \<in> set confirmed))) (\<lambda>n.
       bnd (query Sql (\<lambda>d. \<exists>r \<in> set (runs d). in_purge org repo r)) (\<lambda>remaining.
       if remaining then fail (App PurgeRaced)
       else
         bnd (if repo = None then stmt Sql (delete_agents org) else ret ()) (\<lambda>_.
         ret (Commit n))))))"

definition PurgeRuns :: "owners \<Rightarrow> (uuid \<Rightarrow> nat \<Rightarrow> time) \<Rightarrow> (uuid \<Rightarrow> uuid) \<Rightarrow> ctx \<Rightarrow> time \<Rightarrow> uuid option \<Rightarrow> nat agent_op" where
  "PurgeRuns ow ts new_claims ctx now repo =
     bnd (agents_purgeOrg ctx) (\<lambda>org.
     bnd (tx Sql (bnd lockAdmission (\<lambda>_. bnd (update Sql (\<lambda>d. ((), fence_scope org repo d))) (\<lambda>_. ret (Commit ()))))) (\<lambda>_.
     bnd (stmt Sql (update_runs (\<lambda>r. in_purge org repo r \<and> (rn_State r = ''queued'' \<or> rn_State r = ''running''))
            (cancel_row now))) (\<lambda>_.
     bnd (RunIDsToPurge ctx repo) (\<lambda>ids.
     bnd (cleanup_each ow ts new_claims ctx ids) (\<lambda>_.
     tx Sql (purge_rows org repo))))))"

end
