(* ===== verification/NF_AgentBudget.thy ===== *)
theory NF_AgentBudget
  imports NF_AgentOps "HOL-Library.Word"
begin

text \<open>
  The limits of a run (\<open>internal/agents/lifetime.go\<close>, \<open>budget.go\<close>, \<open>pricing.go\<close>). Counters are
  \<open>int64\<close>, words of 64 bits read as signed; durations are nanoseconds in an \<open>int64\<close>. The
  concurrent calls of a budget take effect one after another, as the compare-and-swap of
  \<open>add\<close> makes them. Prices are multiplied in unbounded integers, as \<open>math/big\<close> does.
\<close>

type_synonym int64 = "64 word"

definition MaxInt64 :: int64 where
  "MaxInt64 = 9223372036854775807"

section \<open>The wall-clock limit\<close>

definition defaultGrantTTL :: time where
  "defaultGrantTTL = 24 * 60 * 60 * second"

definition RunWallclockLimit :: "int \<Rightarrow> agenterr + time" where
  "RunWallclockLimit secs =
     (if secs < 0 \<or> (defaultGrantTTL - OrphanGrace) div second < secs then Inl WallclockOutOfRange
      else if secs = 0 then Inr (60 * 60 * second)
      else Inr (secs * second))"

section \<open>The budget\<close>

record budget =
  bg_started :: time
  bg_wallclock :: time
  bg_tokenLimit :: int64
  bg_costLimit :: int64
  bg_tokensUsed :: int64
  bg_costUsed :: int64
  bg_overflow :: bool

definition NewBudget :: "time \<Rightarrow> time \<Rightarrow> int64 \<Rightarrow> int64 \<Rightarrow> budget" where
  "NewBudget now wallclock tokens costMicros =
     \<lparr>bg_started = now, bg_wallclock = wallclock, bg_tokenLimit = tokens, bg_costLimit = costMicros,
      bg_tokensUsed = 0, bg_costUsed = 0, bg_overflow = False\<rparr>"

text \<open>One counter and the flag after \<open>add\<close>: the comparison with \<open>math.MaxInt64-old\<close> is signed.\<close>

definition add_counter :: "int64 \<times> bool \<Rightarrow> int64 \<Rightarrow> int64 \<times> bool" where
  "add_counter c n =
     (if n <s 0 then (fst c, True)
      else if (MaxInt64 - fst c) <s n then (MaxInt64, True)
      else (fst c + n, snd c))"

definition AddTokens :: "int64 \<Rightarrow> budget \<Rightarrow> budget" where
  "AddTokens n b =
     (let c = add_counter (bg_tokensUsed b, bg_overflow b) n in b\<lparr>bg_tokensUsed := fst c, bg_overflow := snd c\<rparr>)"

definition AddCostMicros :: "int64 \<Rightarrow> budget \<Rightarrow> budget" where
  "AddCostMicros n b =
     (let c = add_counter (bg_costUsed b, bg_overflow b) n in b\<lparr>bg_costUsed := fst c, bg_overflow := snd c\<rparr>)"

definition MarkOverflow :: "budget \<Rightarrow> budget" where
  "MarkOverflow b = b\<lparr>bg_overflow := True\<rparr>"

definition Deadline :: "budget \<Rightarrow> time" where
  "Deadline b = bg_started b + bg_wallclock b"

datatype over = UsageOverflow | WallclockExceeded | TokensExceeded int64 int64 | CostExceeded int64 int64

definition Check_budget :: "time \<Rightarrow> budget \<Rightarrow> over + unit" where
  "Check_budget now b =
     (if bg_overflow b then Inl UsageOverflow
      else if bg_wallclock b < now - bg_started b then Inl WallclockExceeded
      else if bg_tokenLimit b <s bg_tokensUsed b then Inl (TokensExceeded (bg_tokensUsed b) (bg_tokenLimit b))
      else if 0 <s bg_costLimit b \<and> bg_costLimit b <s bg_costUsed b then Inl (CostExceeded (bg_costUsed b) (bg_costLimit b))
      else Inr ())"

text \<open>What a run charges: usage of tokens, of cost, or an overflow seen before the delta.\<close>

datatype charge = Tokens int64 | Cost int64 | Overflowed

fun charge_budget :: "charge \<Rightarrow> budget \<Rightarrow> budget" where
  "charge_budget (Tokens n) b = AddTokens n b"
| "charge_budget (Cost n) b = AddCostMicros n b"
| "charge_budget Overflowed b = MarkOverflow b"

section \<open>Prices\<close>

record token_price =
  pr_Input :: int64
  pr_Output :: int64

text \<open>\<open>Quo\<close> truncates, which is \<^term>\<open>(div)\<close> on the positive total.\<close>

definition CostMicrosChecked :: "token_price \<Rightarrow> int64 \<Rightarrow> int64 \<Rightarrow> int64 \<times> bool" where
  "CostMicrosChecked p inputTokens outputTokens =
     (if inputTokens <s 0 \<or> outputTokens <s 0 \<or> pr_Input p <s 0 \<or> pr_Output p <s 0 then (MaxInt64, True)
      else
        let total = sint inputTokens * sint (pr_Input p) + sint outputTokens * sint (pr_Output p) in
        if total \<le> 0 then (0, False)
        else
          let micros = (total + 999999) div 1000000 in
          if 9223372036854775807 < micros then (MaxInt64, True) else (word_of_int micros, False))"

definition CostMicros :: "token_price \<Rightarrow> int64 \<Rightarrow> int64 \<Rightarrow> int64" where
  "CostMicros p inputTokens outputTokens = fst (CostMicrosChecked p inputTokens outputTokens)"

datatype priceerr = NotOnePriceObject | NegativePrice string | ZeroPrice string

text \<open>
  The table of \<open>AI_MODEL_PRICES\<close>. \<open>decode\<close> stands for the JSON decoding of exactly one object.
  The entries are visited in some order, as a Go map is.
\<close>

primrec check_prices :: "(string \<times> token_price) list \<Rightarrow> priceerr + unit" where
  "check_prices [] = Inr ()"
| "check_prices (mp # mps) =
     (if pr_Input (snd mp) <s 0 \<or> pr_Output (snd mp) <s 0 then Inl (NegativePrice (fst mp))
      else if pr_Input (snd mp) = 0 \<and> pr_Output (snd mp) = 0 then Inl (ZeroPrice (fst mp))
      else check_prices mps)"

definition ParseModelPrices :: "(string \<Rightarrow> (string \<times> token_price) list option) \<Rightarrow> string \<Rightarrow>
    priceerr + (string \<times> token_price) list" where
  "ParseModelPrices decode raw =
     (if TrimSpace raw = '''' then Inr []
      else (case decode raw of
              None \<Rightarrow> Inl NotOnePriceObject
            | Some out \<Rightarrow> (case check_prices out of Inl e \<Rightarrow> Inl e | Inr _ \<Rightarrow> Inr out)))"

section \<open>Exact counting\<close>

lemma sint_MaxInt64: "sint MaxInt64 = 9223372036854775807"
  by (simp add: MaxInt64_def)

lemma sint_range64: "- 9223372036854775808 \<le> sint (n :: int64)" "sint (n :: int64) \<le> 9223372036854775807"
  using sint_range_size[of n] by (simp_all add: word_size)

lemma sint_plus_exact:
  fixes a b :: int64
  assumes "- 9223372036854775808 \<le> sint a + sint b" and "sint a + sint b \<le> 9223372036854775807"
  shows "sint (a + b) = sint a + sint b"
  using assms by (simp add: sint_word_ariths signed_take_bit_int_eq_self)

lemma sint_minus_exact:
  fixes a b :: int64
  assumes "- 9223372036854775808 \<le> sint a - sint b" and "sint a - sint b \<le> 9223372036854775807"
  shows "sint (a - b) = sint a - sint b"
  using assms by (simp add: sint_word_ariths signed_take_bit_int_eq_self)

text \<open>A counter that has never been negative.\<close>

lemma add_counter_exact:
  assumes "0 \<le> sint c"
  shows "sint (fst (add_counter (c, ov) n)) =
      (if sint n < 0 then sint c else min 9223372036854775807 (sint c + sint n))"
    and "snd (add_counter (c, ov) n) \<longleftrightarrow> ov \<or> sint n < 0 \<or> 9223372036854775807 < sint c + sint n"
proof -
  have d: "sint (MaxInt64 - c) = 9223372036854775807 - sint c"
    using assms sint_range64[of c] by (subst sint_minus_exact) (simp_all add: sint_MaxInt64)
  have s: "sint (c + n) = sint c + sint n" if "0 \<le> sint n" "sint c + sint n \<le> 9223372036854775807"
    using that assms by (intro sint_plus_exact) auto
  show "sint (fst (add_counter (c, ov) n)) =
      (if sint n < 0 then sint c else min 9223372036854775807 (sint c + sint n))"
    using d s by (auto simp: add_counter_def word_sless_alt sint_MaxInt64)
  show "snd (add_counter (c, ov) n) \<longleftrightarrow> ov \<or> sint n < 0 \<or> 9223372036854775807 < sint c + sint n"
    using d sint_range64[of c] assms by (auto simp: add_counter_def word_sless_alt)
qed


text \<open>What a sequence of charges comes to in unbounded integers; a negative delta adds nothing.\<close>

definition tokens_of :: "charge \<Rightarrow> int" where
  "tokens_of c = (case c of Tokens n \<Rightarrow> max 0 (sint n) | _ \<Rightarrow> 0)"

definition cost_of :: "charge \<Rightarrow> int" where
  "cost_of c = (case c of Cost n \<Rightarrow> max 0 (sint n) | _ \<Rightarrow> 0)"

definition malformed :: "charge \<Rightarrow> bool" where
  "malformed c \<longleftrightarrow> (case c of Tokens n \<Rightarrow> sint n < 0 | Cost n \<Rightarrow> sint n < 0 | Overflowed \<Rightarrow> True)"

definition total :: "(charge \<Rightarrow> int) \<Rightarrow> charge list \<Rightarrow> int" where
  "total f cs = sum_list (map f cs)"

lemma total_snoc: "total f (cs @ [c]) = total f cs + f c"
  by (simp add: total_def)

lemma charges_nonneg: "0 \<le> tokens_of c" "0 \<le> cost_of c"
  by (simp_all add: tokens_of_def cost_of_def split: charge.split)

lemma totals_nonneg: "0 \<le> total tokens_of cs" "0 \<le> total cost_of cs"
  unfolding total_def by (auto intro!: sum_list_nonneg simp: charges_nonneg)

definition spent :: "budget \<Rightarrow> charge list \<Rightarrow> budget" where
  "spent b cs = fold charge_budget cs b"

lemma spent_snoc: "spent b (cs @ [c]) = charge_budget c (spent b cs)"
  by (simp add: spent_def)

lemma charge_keeps:
  "bg_started (charge_budget c b) = bg_started b" "bg_wallclock (charge_budget c b) = bg_wallclock b"
  "bg_tokenLimit (charge_budget c b) = bg_tokenLimit b" "bg_costLimit (charge_budget c b) = bg_costLimit b"
  by (cases c; simp add: AddTokens_def AddCostMicros_def MarkOverflow_def Let_def)+

lemma spent_keeps:
  "bg_started (spent b cs) = bg_started b" "bg_wallclock (spent b cs) = bg_wallclock b"
  "bg_tokenLimit (spent b cs) = bg_tokenLimit b" "bg_costLimit (spent b cs) = bg_costLimit b"
proof -
  have "bg_started (spent b cs) = bg_started b \<and> bg_wallclock (spent b cs) = bg_wallclock b
    \<and> bg_tokenLimit (spent b cs) = bg_tokenLimit b \<and> bg_costLimit (spent b cs) = bg_costLimit b"
  proof (induction cs rule: rev_induct)
    case Nil
    show ?case by (simp add: spent_def)
  next
    case (snoc c cs)
    then show ?case by (simp add: spent_snoc charge_keeps)
  qed
  then show "bg_started (spent b cs) = bg_started b" "bg_wallclock (spent b cs) = bg_wallclock b"
    "bg_tokenLimit (spent b cs) = bg_tokenLimit b" "bg_costLimit (spent b cs) = bg_costLimit b" by blast+
qed

lemma spent_new:
  "sint (bg_tokensUsed (spent (NewBudget t w tlim clim) cs)) = min 9223372036854775807 (total tokens_of cs)
   \<and> sint (bg_costUsed (spent (NewBudget t w tlim clim) cs)) = min 9223372036854775807 (total cost_of cs)
   \<and> (bg_overflow (spent (NewBudget t w tlim clim) cs) \<longleftrightarrow> (\<exists>c \<in> set cs. malformed c)
        \<or> 9223372036854775807 < total tokens_of cs \<or> 9223372036854775807 < total cost_of cs)"
proof (induction cs rule: rev_induct)
  case Nil
  then show ?case by (simp add: spent_def NewBudget_def total_def)
next
  case (snoc c cs)
  let ?b = "spent (NewBudget t w tlim clim) cs"
  have pos: "0 \<le> sint (bg_tokensUsed ?b)" "0 \<le> sint (bg_costUsed ?b)"
    using snoc totals_nonneg[of cs] by auto
  note nn = totals_nonneg[of cs]
  show ?case
  proof (cases c)
    case (Tokens n)
    then show ?thesis
      using snoc nn add_counter_exact[OF pos(1), of "bg_overflow ?b" n]
      by (auto simp: spent_snoc total_snoc AddTokens_def Let_def tokens_of_def cost_of_def malformed_def)
  next
    case (Cost n)
    then show ?thesis
      using snoc nn add_counter_exact[OF pos(2), of "bg_overflow ?b" n]
      by (auto simp: spent_snoc total_snoc AddCostMicros_def Let_def tokens_of_def cost_of_def malformed_def)
  next
    case Overflowed
    then show ?thesis
      using snoc by (auto simp: spent_snoc total_snoc MarkOverflow_def tokens_of_def cost_of_def malformed_def)
  qed
qed

text \<open>
  C39. The counters of a budget are the unbounded sums of what was charged, cut off at the largest
  \<open>int64\<close>, and the check accepts exactly the sequences of well-formed charges whose unbounded sums
  are within the limits (a cost limit of zero or less being none): no sequence of charges wraps
  around to a lower spend, and no negative usage refunds an earlier one.
\<close>

theorem budget_counts_exactly:
  "sint (bg_tokensUsed (spent (NewBudget t w tlim clim) cs)) = min 9223372036854775807 (total tokens_of cs)
   \<and> sint (bg_costUsed (spent (NewBudget t w tlim clim) cs)) = min 9223372036854775807 (total cost_of cs)
   \<and> (Check_budget now (spent (NewBudget t w tlim clim) cs) = Inr () \<longleftrightarrow>
        \<not> (\<exists>c \<in> set cs. malformed c) \<and> now \<le> t + w \<and> total tokens_of cs \<le> sint tlim
        \<and> total cost_of cs \<le> (if 0 < sint clim then sint clim else 9223372036854775807))"
proof -
  let ?b = "spent (NewBudget t w tlim clim) cs"
  have k: "bg_started ?b = t" "bg_wallclock ?b = w" "bg_tokenLimit ?b = tlim" "bg_costLimit ?b = clim"
    by (simp_all add: spent_keeps) (simp_all add: NewBudget_def)
  note s = spent_new[of t w tlim clim cs]
  show ?thesis
    using s sint_range64[of tlim] sint_range64[of clim]
    by (auto simp: Check_budget_def k word_sless_alt min_def split: if_splits)
qed

text \<open>
  A wall-clock limit that is accepted is a whole, positive number of seconds that fits the
  \<open>int\<close> column and comes back from it unchanged, and the grant that outlives it by the settlement
  allowance is within the 24 hours an issuance admits at every instant until it expires.
\<close>

theorem accepted_wallclock_fits:
  assumes "RunWallclockLimit secs = Inr w"
  shows "0 < w \<and> wallclock_seconds w * second = w \<and> wallclock_seconds w \<le> int4_max
    \<and> (secs \<noteq> 0 \<longrightarrow> wallclock_seconds w = secs)
    \<and> (\<forall>started now. started \<le> now \<longrightarrow> started + (w + OrphanGrace) \<le> now + day)"
  using assms
  by (auto simp: RunWallclockLimit_def wallclock_seconds_def int4_max_def defaultGrantTTL_def OrphanGrace_def
      day_def split: if_splits)

theorem accepted_wallclock_fits_witness:
  "RunWallclockLimit 85500 = Inr (85500 * second) \<and> wallclock_seconds (85500 * second) = 85500
    \<and> RunWallclockLimit 85501 = Inl WallclockOutOfRange"
proof -
  have h: "RunWallclockLimit 85500 = Inr (85500 * second)"
    by (simp add: RunWallclockLimit_def defaultGrantTTL_def OrphanGrace_def)
  show ?thesis
    using h accepted_wallclock_fits[OF h] by (simp add: RunWallclockLimit_def defaultGrantTTL_def OrphanGrace_def)
qed

text \<open>
  The price of a response is the exact cost in micro-units rounded up, computed without
  overflow; when the counts or prices are negative or the cost exceeds an \<open>int64\<close>, the largest
  value is returned and the overflow is reported. So a response that uses a priced token is
  never free.
\<close>

theorem cost_is_exact_ceiling:
  assumes "CostMicrosChecked p i o' = (c, ov)"
    and "exact = sint i * sint (pr_Input p) + sint o' * sint (pr_Output p)"
  shows "(ov \<longleftrightarrow> sint i < 0 \<or> sint o' < 0 \<or> sint (pr_Input p) < 0 \<or> sint (pr_Output p) < 0
        \<or> 9223372036854775807 * 1000000 < exact)
    \<and> (ov \<longrightarrow> c = MaxInt64)
    \<and> (\<not> ov \<longrightarrow> exact \<le> sint c * 1000000 \<and> sint c * 1000000 < exact + 1000000)"
proof (cases "i <s 0 \<or> o' <s 0 \<or> pr_Input p <s 0 \<or> pr_Output p <s 0")
  case True
  with assms(1) show ?thesis by (auto simp: CostMicrosChecked_def word_sless_alt)
next
  case False
  then have nn: "0 \<le> sint i" "0 \<le> sint o'" "0 \<le> sint (pr_Input p)" "0 \<le> sint (pr_Output p)"
    by (auto simp: word_sless_alt)
  then have e: "0 \<le> exact" by (simp add: assms(2))
  define micros where "micros = (exact + 999999) div 1000000"
  have m: "exact \<le> micros * 1000000" "micros * 1000000 < exact + 1000000" "0 \<le> micros"
    using e unfolding micros_def by auto
  have "CostMicrosChecked p i o' = (if exact \<le> 0 then (0, False) else if 9223372036854775807 < micros then (MaxInt64, True)
      else (word_of_int micros, False))"
    using False unfolding CostMicrosChecked_def Let_def micros_def assms(2) by simp
  then have r: "(c, ov) = (if exact \<le> 0 then (0, False) else if 9223372036854775807 < micros then (MaxInt64, True)
      else (word_of_int micros, False))"
    unfolding assms(1) .
  have w: "sint (word_of_int micros :: int64) = micros" if "micros \<le> 9223372036854775807"
    using that m(3) by (simp add: sint_sbintrunc' signed_take_bit_int_eq_self)
  show ?thesis
    using r w m e nn by (auto split: if_splits)
qed

definition sample_price :: token_price where
  "sample_price = \<lparr>pr_Input = 3000000, pr_Output = 9223372036854775807\<rparr>"

theorem cost_is_exact_ceiling_witness:
  "CostMicrosChecked sample_price 1 0 = (3, False) \<and> CostMicrosChecked sample_price 0 2 = (18446744073710, False)
    \<and> sint (3 :: int64) * 1000000 < (sint (1 :: int64) * sint (pr_Input sample_price)
        + sint (0 :: int64) * sint (pr_Output sample_price)) + 1000000"
proof -
  have h: "CostMicrosChecked sample_price 1 0 = (3, False)" "CostMicrosChecked sample_price 0 2 = (18446744073710, False)"
    by (simp_all add: CostMicrosChecked_def sample_price_def Let_def word_sless_alt)
  show ?thesis using h cost_is_exact_ceiling[OF h(1) refl] by blast
qed

end
