(* ===== verification/NF_AgentAudit.thy ===== *)
theory NF_AgentAudit
  imports NF_AgentOps
begin

text \<open>
  The audit log of tool calls and its event history (\<open>internal/agents/audit.go\<close>,
  \<open>audit_events.go\<close>). A call is recorded before it runs and completed once; each phase leaves an
  event with the next number of a sequence, and readers page through a run's events by a cursor
  that names the last event they have seen. \<open>json.Valid\<close>, the normal form \<open>jsonb\<close> gives a text
  (\<^const>\<open>None\<close> for a text that is not JSON) and the text of an identifier are arguments.
  The numbers a rolled back transaction takes from the sequence are not modelled.
\<close>

section \<open>Recording and completing a call\<close>

record entry =
  en_ID :: uuid
  en_RunID :: uuid
  en_Tool :: string
  en_ArgsJSON :: string
  en_ArgsAudited :: bool

definition reduced_args :: "(string \<Rightarrow> bool) \<Rightarrow> (string \<Rightarrow> string option) \<Rightarrow> entry \<Rightarrow> args_json option" where
  "reduced_args valid_json jsonb e =
     (if en_Tool e \<noteq> ''run.summary'' \<and> en_Tool e \<noteq> ''run.verification'' \<and> \<not> en_ArgsAudited e
      then Some (Reduced (length (en_ArgsJSON e)) (valid_json (en_ArgsJSON e)))
      else map_option Json (jsonb (en_ArgsJSON e)))"

definition pending_call :: "uuid \<Rightarrow> uuid \<Rightarrow> time \<Rightarrow> args_json \<Rightarrow> entry \<Rightarrow> tool_call" where
  "pending_call cid org now args e =
     \<lparr>tc_ID = cid, tc_RunID = en_RunID e, tc_OrgID = org, tc_Tool = en_Tool e, tc_Args = args,
      tc_Outcome = ''pending'', tc_Error = '''', tc_StartedAt = now, tc_EndedAt = None\<rparr>"

text \<open>The insert, with \<open>ON CONFLICT (id) DO UPDATE\<close> of an identical call; the number of rows affected.\<close>

definition upsert_call :: "args_json option \<Rightarrow> (args_json \<Rightarrow> tool_call) \<Rightarrow> agentdb \<Rightarrow> sqlerr + (nat \<times> agentdb)" where
  "upsert_call args mk d =
     (case args of
        None \<Rightarrow> Inl CheckViolation
      | Some a \<Rightarrow>
          (let c = mk a in
           case List.find (\<lambda>q. tc_ID q = tc_ID c) (tool_calls d) of
             Some q \<Rightarrow> Inr (if tc_RunID q = tc_RunID c \<and> tc_OrgID q = tc_OrgID c \<and> tc_Tool q = tc_Tool c
                             \<and> tc_Args q = tc_Args c then 1 else 0, d)
           | None \<Rightarrow> map_sum id (\<lambda>(_, d'). (1, d')) (insert_call c d)))"

text \<open>\<open>ON CONFLICT DO NOTHING\<close>; the sequence moves on all the same.\<close>

definition insert_event :: "uuid \<Rightarrow> uuid \<Rightarrow> uuid \<Rightarrow> string \<Rightarrow> string \<Rightarrow> time \<Rightarrow> agentdb \<Rightarrow> sqlerr + (unit \<times> agentdb)" where
  "insert_event org rid cid tool outcome now d =
     (let n = last_sequence d + 1 in
      if \<exists>e \<in> set (tool_events d). te_CallID e = cid \<and> te_Outcome e = outcome
      then Inr ((), d\<lparr>last_sequence := n\<rparr>)
      else if rid \<notin> rn_ID ` set (runs d) \<or> cid \<notin> tc_ID ` set (tool_calls d) then Inl ForeignKeyViolation
      else Inr ((), d\<lparr>last_sequence := n, tool_events := tool_events d @
        [\<lparr>te_Sequence = n, te_OrgID = org, te_RunID = rid, te_CallID = cid, te_Tool = tool,
          te_Outcome = outcome, te_At = now, te_Published = False\<rparr>]\<rparr>))"

definition Record :: "(string \<Rightarrow> bool) \<Rightarrow> (string \<Rightarrow> string option) \<Rightarrow> ctx \<Rightarrow> uuid \<Rightarrow> time \<Rightarrow> entry \<Rightarrow> uuid agent_op" where
  "Record valid_json jsonb ctx new_id now e =
     bnd (from_context ctx) (\<lambda>scope.
     let cid = (if en_ID e = uuid_Nil then new_id else en_ID e) in
     tx Sql (
       bnd (query Sql (find_run (en_RunID e) (s_OrgID scope))) (\<lambda>parent.
       if parent = None then fail (App AuditParent)
       else
         bnd (stmt Sql (upsert_call (reduced_args valid_json jsonb e) (\<lambda>a. pending_call cid (s_OrgID scope) now a e))) (\<lambda>n.
         if n \<noteq> 1 then fail (App AuditConflict)
         else
           bnd (stmt Sql (insert_event (s_OrgID scope) (en_RunID e) cid (en_Tool e) ''pending'' now)) (\<lambda>_.
           ret (Commit cid))))))"

definition terminal_outcomes :: "string list" where
  "terminal_outcomes = [''ok'', ''error'', ''denied'', ''refused'', ''cancelled'', ''unavailable'']"

definition error_text :: "string \<Rightarrow> string" where
  "error_text outcome = (if outcome \<noteq> ''ok'' then ''tool '' @ outcome else '''')"

definition completable :: "uuid \<Rightarrow> uuid \<Rightarrow> string \<Rightarrow> tool_call \<Rightarrow> bool" where
  "completable cid org outcome c \<longleftrightarrow> tc_ID c = cid \<and> tc_OrgID c = org
     \<and> (tc_Outcome c = ''pending'' \<and> tc_EndedAt c = None
        \<or> tc_Outcome c = outcome \<and> tc_Error c = error_text outcome \<and> tc_EndedAt c \<noteq> None)"

definition complete_call :: "string \<Rightarrow> time \<Rightarrow> tool_call \<Rightarrow> tool_call" where
  "complete_call outcome now c = c\<lparr>tc_Outcome := outcome, tc_Error := error_text outcome,
     tc_EndedAt := (case tc_EndedAt c of None \<Rightarrow> Some now | Some t \<Rightarrow> Some t)\<rparr>"

text \<open>\<open>UPDATE ... RETURNING tool\<close>.\<close>

definition finish_call :: "uuid \<Rightarrow> uuid \<Rightarrow> string \<Rightarrow> time \<Rightarrow> agentdb \<Rightarrow> string option \<times> agentdb" where
  "finish_call cid org outcome now d =
     (map_option tc_Tool (List.find (completable cid org outcome) (tool_calls d)),
      d\<lparr>tool_calls := update_rows (completable cid org outcome) (complete_call outcome now) (tool_calls d)\<rparr>)"

definition Complete :: "ctx \<Rightarrow> time \<Rightarrow> uuid \<Rightarrow> string \<Rightarrow> unit agent_op" where
  "Complete ctx now cid outcome =
     bnd (from_context ctx) (\<lambda>scope.
     if outcome \<notin> set terminal_outcomes then fail (App InvalidOutcome)
     else tx Sql (
       bnd (query Sql (\<lambda>d. List.find (\<lambda>r. rn_OrgID r = s_OrgID scope
              \<and> (\<exists>c \<in> set (tool_calls d). tc_ID c = cid \<and> tc_RunID c = rn_ID r \<and> tc_OrgID c = rn_OrgID r)) (runs d))) (\<lambda>row.
       case row of
         None \<Rightarrow> fail (App AgentNoRows)
       | Some r \<Rightarrow>
           bnd (update Sql (finish_call cid (s_OrgID scope) outcome now)) (\<lambda>tool.
           case tool of
             None \<Rightarrow> fail (App ReceiptConflict)
           | Some t \<Rightarrow>
               bnd (stmt Sql (insert_event (s_OrgID scope) (rn_ID r) cid t outcome now)) (\<lambda>_.
               ret (Commit ()))))))"

definition List_calls :: "ctx \<Rightarrow> uuid \<Rightarrow> tool_call list agent_op" where
  "List_calls ctx runID =
     bnd (from_context ctx) (\<lambda>scope.
     query Sql (\<lambda>d. sort_key tc_StartedAt (filter (\<lambda>c. tc_RunID c = runID \<and> tc_OrgID c = s_OrgID scope) (tool_calls d))))"

section \<open>Cursors\<close>

text \<open>\<open>strings.Split\<close> at a one-character separator.\<close>

fun split_at :: "char \<Rightarrow> string \<Rightarrow> string list" where
  "split_at c [] = [[]]"
| "split_at c (x # xs) = (if x = c then [] # split_at c xs
     else (case split_at c xs of [] \<Rightarrow> [[x]] | p # ps \<Rightarrow> (x # p) # ps))"

definition is_digit :: "char \<Rightarrow> bool" where
  "is_digit c \<longleftrightarrow> 48 \<le> (of_char c :: nat) \<and> (of_char c :: nat) \<le> 57"

text \<open>
  \<open>strconv.ParseInt\<close> in base 10 for an unsigned text; a text with a sign is refused here as it is
  by the comparison with the formatted number that follows the call.
\<close>

definition ParseInt :: "string \<Rightarrow> nat option" where
  "ParseInt s = (if s \<noteq> '''' \<and> list_all is_digit s \<and> int (undec s) \<le> int64_max then Some (undec s) else None)"

definition cursor_text :: "(uuid \<Rightarrow> string) \<Rightarrow> uuid \<Rightarrow> nat \<Rightarrow> string" where
  "cursor_text text run n = text run @ '':'' @ dec n"

definition parse_cursor :: "(uuid \<Rightarrow> string) \<Rightarrow> uuid \<Rightarrow> string \<Rightarrow> nat option" where
  "parse_cursor text run cursor =
     (if 64 < length cursor then None
      else (case split_at (CHR '':'') cursor of
              [p, q] \<Rightarrow>
                if p \<noteq> text run then None
                else (case ParseInt q of
                        None \<Rightarrow> None
                      | Some n \<Rightarrow> if n = 0 \<or> dec n \<noteq> q then None else Some n)
            | _ \<Rightarrow> None))"

section \<open>The event history\<close>

record event_view =
  ev_Sequence :: nat
  ev_RunID :: uuid
  ev_CallID :: uuid
  ev_Cursor :: string
  ev_Tool :: string
  ev_Outcome :: string
  ev_At :: time

definition view_event :: "(uuid \<Rightarrow> string) \<Rightarrow> uuid \<Rightarrow> tool_event \<Rightarrow> event_view" where
  "view_event text run e = \<lparr>ev_Sequence = te_Sequence e, ev_RunID = run, ev_CallID = te_CallID e,
     ev_Cursor = cursor_text text run (te_Sequence e), ev_Tool = te_Tool e, ev_Outcome = te_Outcome e, ev_At = te_At e\<rparr>"

definition run_events :: "uuid \<Rightarrow> uuid \<Rightarrow> agentdb \<Rightarrow> tool_event list" where
  "run_events org run d = sort_key te_Sequence (filter (\<lambda>e. te_OrgID e = org \<and> te_RunID e = run) (tool_events d))"

definition events_after :: "uuid \<Rightarrow> uuid \<Rightarrow> nat \<Rightarrow> agentdb \<Rightarrow> tool_event list" where
  "events_after org run n d = take 100 (filter (\<lambda>e. n < te_Sequence e) (run_events org run d))"

definition ToolEvents :: "(uuid \<Rightarrow> string) \<Rightarrow> ctx \<Rightarrow> uuid \<Rightarrow> string \<Rightarrow> event_view list agent_op" where
  "ToolEvents text ctx run cursor =
     bnd (from_context ctx) (\<lambda>scope.
     bnd (if cursor = '''' then ret 0
          else (case parse_cursor text run cursor of
                  None \<Rightarrow> fail (App ErrToolEventCursor)
                | Some n \<Rightarrow>
                    bnd (query Sql (\<lambda>d. \<exists>e \<in> set (run_events (s_OrgID scope) run d). te_Sequence e = n)) (\<lambda>exists.
                    if \<not> exists then fail (App ErrToolEventCursor) else ret n))) (\<lambda>after.
     query Sql (\<lambda>d. map (view_event text run) (events_after (s_OrgID scope) run after d))))"

text \<open>
  The replay of \<open>StreamRunEvents\<close>: a full batch is followed by another from the cursor of its
  last event; a shorter one ends the replay. The fuel bounds the number of batches.
\<close>

primrec replay :: "nat \<Rightarrow> (uuid \<Rightarrow> string) \<Rightarrow> ctx \<Rightarrow> uuid \<Rightarrow> string \<Rightarrow> event_view list option agent_op" where
  "replay 0 text ctx run cursor = ret None"
| "replay (Suc n) text ctx run cursor =
     bnd (ToolEvents text ctx run cursor) (\<lambda>batch.
     if length batch = 100
     then bnd (replay n text ctx run (ev_Cursor (last batch))) (\<lambda>rest. ret (map_option ((@) batch) rest))
     else ret (Some batch))"

section \<open>Maintenance\<close>

text \<open>The pending calls of runs that have durably finished.\<close>

definition stale_call :: "agentdb \<Rightarrow> tool_call \<Rightarrow> bool" where
  "stale_call d c \<longleftrightarrow> tc_Outcome c = ''pending''
     \<and> (\<exists>r \<in> set (runs d). rn_ID r = tc_RunID c \<and> rn_OrgID r = tc_OrgID c \<and> rn_ExecutionFinished r)"

primrec complete_all :: "ctx \<Rightarrow> time \<Rightarrow> uuid list \<Rightarrow> unit agent_op" where
  "complete_all ctx now [] = ret ()"
| "complete_all ctx now (c # cs) = bnd (Complete ctx now c ''unavailable'') (\<lambda>_. complete_all ctx now cs)"

definition ReconcileRun :: "ctx \<Rightarrow> time \<Rightarrow> uuid \<Rightarrow> unit agent_op" where
  "ReconcileRun ctx now run =
     bnd (from_context ctx) (\<lambda>scope.
     bnd (query Sql (\<lambda>d. map tc_ID (take 100 (sort_key tc_StartedAt (sort_key tc_ID
            (filter (\<lambda>c. tc_OrgID c = s_OrgID scope \<and> tc_RunID c = run \<and> stale_call d c) (tool_calls d))))))) (\<lambda>ids.
     complete_all ctx now ids))"

definition service_scope :: "uuid \<Rightarrow> scope" where
  "service_scope org = \<lparr>s_OrgID = org, s_ActorID = uuid_Nil, s_ActorKind = ''service'', s_ServiceName = ''agent-runtime'',
     s_Role = '''', s_PlatformWorker = '''', s_RepoLimited = False, s_Repos = Map.empty\<rparr>"

primrec reconcile_all :: "time \<Rightarrow> (uuid \<times> uuid) list \<Rightarrow> unit agent_op" where
  "reconcile_all now [] = ret ()"
| "reconcile_all now (p # ps) =
     bnd (ReconcileRun (Some (service_scope (fst p))) now (snd p)) (\<lambda>_. reconcile_all now ps)"

definition mark_published :: "uuid \<Rightarrow> uuid \<Rightarrow> nat \<Rightarrow> agentdb \<Rightarrow> agentdb" where
  "mark_published org run n d = d\<lparr>tool_events := update_rows
     (\<lambda>e. te_OrgID e = org \<and> te_RunID e = run \<and> te_Sequence e = n) (\<lambda>e. e\<lparr>te_Published := True\<rparr>) (tool_events d)\<rparr>"

text \<open>Each event is handed to the stream, \<open>pub\<close>, and then marked; a failed hand-over stops the batch.\<close>

primrec publish_batch :: "(tool_event \<Rightarrow> bool) \<Rightarrow> uuid \<Rightarrow> uuid \<Rightarrow> tool_event list \<Rightarrow> unit agent_op" where
  "publish_batch pub org run [] = ret ()"
| "publish_batch pub org run (e # es) =
     (if \<not> pub e then fail (App OwnerFailed)
      else bnd (update Sql (\<lambda>d. ((), mark_published org run (te_Sequence e) d))) (\<lambda>_. publish_batch pub org run es))"

text \<open>\<open>free\<close> is the answer of \<open>pg_try_advisory_lock\<close>.\<close>

definition publishRun :: "(tool_event \<Rightarrow> bool) \<Rightarrow> bool \<Rightarrow> uuid \<Rightarrow> uuid \<Rightarrow> unit agent_op" where
  "publishRun pub free org run =
     bnd (query Sql (\<lambda>_. free)) (\<lambda>locked.
     if \<not> locked then ret ()
     else
       bnd (query Sql (\<lambda>d. take 100 (filter (\<lambda>e. \<not> te_Published e) (run_events org run d)))) (\<lambda>batch.
       publish_batch pub org run batch))"

primrec publish_all :: "(tool_event \<Rightarrow> bool) \<Rightarrow> (uuid \<Rightarrow> bool) \<Rightarrow> (uuid \<times> uuid) list \<Rightarrow> unit agent_op" where
  "publish_all pub free [] = ret ()"
| "publish_all pub free (p # ps) = bnd (publishRun pub (free (snd p)) (fst p) (snd p)) (\<lambda>_. publish_all pub free ps)"

text \<open>Without a Redis client (\<open>pub\<close> is \<^const>\<open>None\<close>) nothing is published.\<close>

definition MaintainAudit :: "(tool_event \<Rightarrow> bool) option \<Rightarrow> (uuid \<Rightarrow> bool) \<Rightarrow> time \<Rightarrow> unit agent_op" where
  "MaintainAudit pub free now =
     bnd (query Sql (\<lambda>d. take 100 (remdups (map (\<lambda>c. (tc_OrgID c, tc_RunID c)) (filter (stale_call d) (tool_calls d)))))) (\<lambda>ps.
     bnd (reconcile_all now ps) (\<lambda>_.
     case pub of
       None \<Rightarrow> ret ()
     | Some f \<Rightarrow>
         bnd (query Sql (\<lambda>d. take 100 (rev (remdups (rev (map (\<lambda>e. (te_OrgID e, te_RunID e))
                (sort_key te_Sequence (filter (\<lambda>e. \<not> te_Published e) (tool_events d)))))))))
           (publish_all f free)))"

end
