(* ===== verification/NF_AgentServer.thy ===== *)
theory NF_AgentServer
  imports NF_AgentBudget NF_AgentAudit
begin

text \<open>
  The agent service's requests (\<open>internal/agents/grpc.go\<close>, \<open>grpc_lock.go\<close>, \<open>grpc_intent.go\<close>,
  \<open>activity.go\<close>): admission of a run with its durable compensation, the background step that
  takes the branch lock, cancellation, and the questions other services ask. \<open>uuid.Parse\<close> and
  the text of an identifier are arguments, as are the answers of the work service and of the
  grant owner. A status keeps its code. What runs in memory only (the map of cancel functions)
  and the event stream are not modelled; \<open>Execute\<close> takes over after \<open>driveToRunning\<close>.
\<close>

abbreviation status :: "grpc_code \<Rightarrow> agenterr fault" where
  "status c \<equiv> App (AgentStatus c)"

definition with_status :: "grpc_code \<Rightarrow> 'a agent_op \<Rightarrow> 'a agent_op" where
  "with_status c m = wrap (\<lambda>_. status c) m"

definition agents_callerOrg :: "ctx \<Rightarrow> uuid agent_op" where
  "agents_callerOrg ctx = (case FromContext ctx of Inl _ \<Rightarrow> fail (status PermissionDenied) | Inr s \<Rightarrow> ret (s_OrgID s))"

definition agents_parseUUID :: "(string \<Rightarrow> uuid option) \<Rightarrow> string \<Rightarrow> uuid agent_op" where
  "agents_parseUUID parse raw = (case parse raw of None \<Rightarrow> fail (status InvalidArgument) | Some u \<Rightarrow> ret u)"

section \<open>Admission\<close>

record start_request =
  sr_AgentId :: string
  sr_SponsorId :: string
  sr_RepoId :: string
  sr_WorkItemKey :: string
  sr_WallclockLimitSeconds :: int
  sr_TokenLimit :: int
  sr_CostLimitMicros :: int

text \<open>
  What \<open>StartRun\<close> is configured with: the work service's answer to \<open>GetItem\<close> by key, the grant
  owner's answer to \<open>IssueIntent\<close> (\<^const>\<open>None\<close> when the configured authority has no such
  operation), whether there is an executor, whether a token price is set.
\<close>

record server =
  sv_Owners :: owners
  sv_GrantsConfigured :: bool
  sv_IssueIntent :: "(issuance_intent \<Rightarrow> grant option) option"
  sv_GetItem :: "(string \<Rightarrow> proto_item option) option"
  sv_ExecuteConfigured :: bool
  sv_Priced :: bool

definition may_sponsor :: "scope \<Rightarrow> uuid \<Rightarrow> bool" where
  "may_sponsor s sponsor \<longleftrightarrow>
     (if s_ActorKind s = ''service'' then s_ServiceName s = ''swarm-scheduler'' \<or> s_ServiceName s = ''ci-agent-jobs''
      else s_ActorKind s = ''user'' \<and> s_ActorID s = sponsor)"

definition run_grant :: "uuid \<Rightarrow> uuid \<Rightarrow> uuid \<Rightarrow> string \<Rightarrow> time \<Rightarrow> grant" where
  "run_grant gid org agentID key expires =
     \<lparr>g_ID = gid, g_OrgID = org, g_SubjectID = agentID, g_SubjectKind = ''agent'', g_RepoRead = True,
      g_WriteBranch = BranchNamespace @ key @ ''/'', g_SecretsProd = False, g_DeployStaging = False,
      g_DeployProd = False, g_ExpiresAt = expires\<rparr>"

definition same_issuance :: "grant \<Rightarrow> grant \<Rightarrow> bool" where
  "same_issuance issued g \<longleftrightarrow> g_ID issued = g_ID g \<and> g_OrgID issued = g_OrgID g \<and> g_SubjectID issued = g_SubjectID g
     \<and> g_WriteBranch issued = g_WriteBranch g \<and> g_ExpiresAt issued = g_ExpiresAt g \<and> g_RepoRead issued = g_RepoRead g
     \<and> g_SubjectKind issued = g_SubjectKind g \<and> \<not> g_SecretsProd issued \<and> \<not> g_DeployProd issued \<and> \<not> g_DeployStaging issued"

text \<open>Two attempts at the claim, the freeze, the issuance.\<close>

definition claim_item :: "owners \<Rightarrow> execution_claim \<Rightarrow> proto_item option agent_op" where
  "claim_item ow cl =
     (case ow_WorkClaims ow of
        None \<Rightarrow> fail (App OwnerFailed)
      | Some f \<Rightarrow>
          (case fst f 0 cl of
             Some it \<Rightarrow> ret it
           | None \<Rightarrow> (case fst f 1 cl of Some it \<Rightarrow> ret it | None \<Rightarrow> fail (App OwnerFailed))))"

definition admit :: "server \<Rightarrow> (proto_item \<Rightarrow> string option) \<Rightarrow> ctx \<Rightarrow> run \<Rightarrow> grant \<Rightarrow> issuance_intent \<Rightarrow> unit agent_op" where
  "admit sv mar ctx r g intent =
     bnd (claim_item (sv_Owners sv) (ExecutionClaim r)) (\<lambda>item.
     bnd (FreezeWorkItem mar ctx r item) (\<lambda>_.
     case sv_IssueIntent sv of
       None \<Rightarrow> fail (App OwnerFailed)
     | Some issue \<Rightarrow>
         (case issue intent of
            None \<Rightarrow> fail (App OwnerFailed)
          | Some issued \<Rightarrow> if \<not> same_issuance issued g then fail (App OwnerFailed) else ret ())))"

text \<open>The run \<open>StartRun\<close> asks the store for.\<close>

definition requested_run :: "uuid \<Rightarrow> uuid \<Rightarrow> uuid \<Rightarrow> uuid \<Rightarrow> uuid \<Rightarrow> grant \<Rightarrow> issuance_intent \<Rightarrow> time \<Rightarrow> start_request \<Rightarrow> run" where
  "requested_run org repoID agentID workItemID sponsorID g intent wallclock req =
     \<lparr>rn_ID = uuid_Nil, rn_OrgID = org, rn_RepoID = repoID, rn_AgentID = agentID, rn_WorkItemID = workItemID,
      rn_SponsorID = sponsorID, rn_GrantID = g_ID g, rn_Branch = RunBranch (g_WriteBranch g), rn_State = '''',
      rn_StartedAt = None, rn_EndedAt = None, rn_TokenLimit = sr_TokenLimit req,
      rn_CostLimitMicros = sr_CostLimitMicros req, rn_TokensUsed = 0, rn_CostUsedMicros = 0, rn_EndReason = '''',
      rn_GrantIntent = Some intent, rn_GrantCleanupPending = False, rn_GrantCleanupError = '''',
      rn_TokensAvailable = False, rn_CostAvailable = False, rn_WorkClaimRequired = True, rn_WorkItemSnapshot = None,
      rn_WorkReleasePending = False, rn_WorkReleaseError = '''', rn_ExecutionFinished = False,
      rn_WorkspaceIdentity = None, rn_WorkspaceCleanupPending = False, rn_WorkspaceCleanupError = '''',
      rn_WallclockLimit = wallclock, rn_Provenance = None\<rparr>"

text \<open>The admission of a created run, and its compensation when it does not complete.\<close>

definition start_created :: "server \<Rightarrow> (proto_item \<Rightarrow> string option) \<Rightarrow> (nat \<Rightarrow> time) \<Rightarrow> uuid \<Rightarrow> ctx \<Rightarrow> time \<Rightarrow>
    grant \<Rightarrow> run \<Rightarrow> run agent_op" where
  "start_created sv mar ts new_claim ctx now g r =
     bnd (attempt (case rn_GrantIntent r of None \<Rightarrow> fail (App OwnerFailed) | Some i \<Rightarrow> admit sv mar ctx r g i)) (\<lambda>e.
     case e of
       Inr _ \<Rightarrow> ret r
     | Inl (_ :: agenterr fault) \<Rightarrow>
         bnd (attempt (SetRunState ctx now (rn_ID r) ''failed'')) (\<lambda>(_ :: agenterr fault + unit).
         bnd (attempt (CleanupRunGrant (sv_Owners sv) ts new_claim ctx (rn_ID r))) (\<lambda>(_ :: agenterr fault + unit).
         fail (status FailedPrecondition))))"

definition StartRun :: "(string \<Rightarrow> uuid option) \<Rightarrow> (uuid \<Rightarrow> string) \<Rightarrow> server \<Rightarrow> (proto_item \<Rightarrow> string option) \<Rightarrow>
    (nat \<Rightarrow> time) \<Rightarrow> uuid \<Rightarrow> uuid \<Rightarrow> uuid \<Rightarrow> ctx \<Rightarrow> time \<Rightarrow> start_request \<Rightarrow> run agent_op" where
  "StartRun parse text sv mar ts new_grant new_run new_claim ctx now req =
     bnd (agents_callerOrg ctx) (\<lambda>orgID.
     if \<not> sv_GrantsConfigured sv \<or> ow_GrantRevoker (sv_Owners sv) = None then fail (status Unavailable)
     else if sr_SponsorId req = '''' then fail (status PermissionDenied)
     else
       bnd (agents_parseUUID parse (sr_SponsorId req)) (\<lambda>sponsorID.
       bnd (agents_parseUUID parse (sr_AgentId req)) (\<lambda>agentID.
       bnd (with_status NotFound (GetAgent ctx agentID)) (\<lambda>_.
       bnd (from_context ctx) (\<lambda>scope.
       if \<not> may_sponsor scope sponsorID then fail (status PermissionDenied)
       else
         bnd (agents_parseUUID parse (sr_RepoId req)) (\<lambda>repoID.
         if sr_WorkItemKey req = '''' then fail (status InvalidArgument)
         else (case sv_GetItem sv of
             None \<Rightarrow> fail (status Internal)
           | Some get \<Rightarrow>
               (case get (sr_WorkItemKey req) of
                  None \<Rightarrow> fail (status NotFound)
                | Some item \<Rightarrow>
                    if text (t_RepoId item) \<noteq> sr_RepoId req then fail (status InvalidArgument)
                    else if sr_CostLimitMicros req < 0 \<or> sr_TokenLimit req < 0 \<or> sr_WallclockLimitSeconds req < 0
                    then fail (status InvalidArgument)
                    else if 0 < sr_CostLimitMicros req \<and> \<not> sv_Priced sv then fail (status InvalidArgument)
                    else if t_AwaitingApproval item then fail (status FailedPrecondition)
                    else (case RunWallclockLimit (sr_WallclockLimitSeconds req) of
                        Inl _ \<Rightarrow> fail (status InvalidArgument)
                      | Inr wallclock \<Rightarrow>
                          if \<not> sv_ExecuteConfigured sv \<or> sv_IssueIntent sv = None
                             \<or> ow_GrantIssuanceCanceller (sv_Owners sv) = None \<or> ow_WorkClaims (sv_Owners sv) = None
                          then fail (status FailedPrecondition)
                          else
                            let g = run_grant new_grant orgID agentID (sr_WorkItemKey req) (now + (wallclock + OrphanGrace));
                                intent = \<lparr>i_IssuerID = sponsorID, i_IssuerKind = ''user'', i_RunID = uuid_Nil, i_Grant = g\<rparr> in
                            bnd (with_status Internal (CreateRun ctx new_run now
                                   (requested_run orgID repoID agentID (t_Id item) sponsorID g intent wallclock req))) (\<lambda>r.
                            start_created sv mar ts new_claim ctx now g r))))))))))"

section \<open>Taking the branch\<close>

text \<open>The text of a start failure is an argument; the run that was started, or \<^const>\<open>None\<close>.\<close>

definition driveToRunning :: "owners \<Rightarrow> (nat \<Rightarrow> time) \<Rightarrow> uuid \<Rightarrow> time \<Rightarrow> (agenterr fault \<Rightarrow> string) \<Rightarrow> run \<Rightarrow> run option agent_op" where
  "driveToRunning ow ts new_claim now show_err r =
     (let ctx = Some (agent_scope (rn_OrgID r) (rn_AgentID r)) in
      bnd (attempt (Acquire ctx now (rn_OrgID r) (rn_RepoID r) (rn_Branch r) (rn_ID r))) (\<lambda>e.
      case e of
        Inl err \<Rightarrow>
          bnd (attempt (GetRun ctx (rn_ID r))) (\<lambda>cur.
          case cur of
            Inl (_ :: agenterr fault) \<Rightarrow> ret None
          | Inr current \<Rightarrow>
              if rn_State current \<noteq> ''queued'' then ret None
              else
                bnd (attempt (RecordSpend ctx (rn_ID r) \<lparr>sp_TokensAvailable = False, sp_CostAvailable = False, sp_Tokens = 0,
                       sp_CostMicros = 0, sp_Reason = ''could not start: '' @ show_err err\<rparr>)) (\<lambda>(_ :: agenterr fault + unit).
                bnd (attempt (SetRunState ctx now (rn_ID r) ''failed'')) (\<lambda>(s :: agenterr fault + unit).
                case s of
                  Inl _ \<Rightarrow> ret None
                | Inr _ \<Rightarrow>
                    bnd (attempt (CleanupRunGrant ow ts new_claim ctx (rn_ID r))) (\<lambda>(_ :: agenterr fault + unit).
                    ret None))))
      | Inr _ \<Rightarrow>
          bnd (attempt (GetRun ctx (rn_ID r))) (\<lambda>cur.
          ret (case cur of Inl (_ :: agenterr fault) \<Rightarrow> None | Inr current \<Rightarrow> Some current))))"

section \<open>Cancellation\<close>

definition CancelRun :: "(string \<Rightarrow> uuid option) \<Rightarrow> owners \<Rightarrow> (nat \<Rightarrow> time) \<Rightarrow> uuid \<Rightarrow> ctx \<Rightarrow> time \<Rightarrow> string \<Rightarrow> unit agent_op" where
  "CancelRun parse ow ts new_claim ctx now raw =
     bnd (agents_callerOrg ctx) (\<lambda>_.
     bnd (agents_parseUUID parse raw) (\<lambda>rid.
     bnd (with_status NotFound (GetRun ctx rid)) (\<lambda>r.
     if rn_State r = ''cancelled'' then with_status Unavailable (CleanupRunGrant ow ts new_claim ctx rid)
     else
       bnd (with_status FailedPrecondition (SetRunState ctx now rid ''cancelled'')) (\<lambda>_.
       with_status Unavailable (CleanupRunGrant ow ts new_claim ctx rid)))))"

section \<open>Questions of other services\<close>

definition CheckBranchLock :: "(string \<Rightarrow> uuid option) \<Rightarrow> ctx \<Rightarrow> string \<Rightarrow> string \<Rightarrow> holding option agent_op" where
  "CheckBranchLock parse ctx rawRepo ref =
     bnd (agents_callerOrg ctx) (\<lambda>_.
     bnd (agents_parseUUID parse rawRepo) (\<lambda>repoID.
     if ref = '''' then fail (status InvalidArgument)
     else with_status Internal (Check ctx repoID ref)))"

definition identityOwner :: "ctx \<Rightarrow> scope agent_op" where
  "identityOwner ctx =
     (case FromContext ctx of
        Inl _ \<Rightarrow> fail (status PermissionDenied)
      | Inr s \<Rightarrow> if s_OrgID s = uuid_Nil \<or> s_ActorKind s \<noteq> ''service'' \<or> s_ServiceName s \<noteq> ''identity''
          then fail (status PermissionDenied) else ret s)"

definition GetGrantIntent :: "(string \<Rightarrow> uuid option) \<Rightarrow> ctx \<Rightarrow> string \<Rightarrow> issuance_intent agent_op" where
  "GetGrantIntent parse ctx raw =
     bnd (identityOwner ctx) (\<lambda>scope.
     bnd (agents_parseUUID parse raw) (\<lambda>rid.
     bnd (with_status NotFound (GetRun ctx rid)) (\<lambda>r.
     case rn_GrantIntent r of
       None \<Rightarrow> fail (status FailedPrecondition)
     | Some i \<Rightarrow>
         if g_OrgID (i_Grant i) \<noteq> s_OrgID scope \<or> g_SubjectID (i_Grant i) \<noteq> rn_AgentID r
            \<or> i_IssuerID i \<noteq> rn_SponsorID r \<or> i_RunID i \<noteq> rn_ID r
         then fail (status FailedPrecondition)
         else bnd (with_status FailedPrecondition (GetAgent ctx (rn_AgentID r))) (\<lambda>_. ret i))))"

definition GetLegacyGrantBinding :: "(string \<Rightarrow> uuid option) \<Rightarrow> ctx \<Rightarrow> string \<Rightarrow> legacy_binding agent_op" where
  "GetLegacyGrantBinding parse ctx raw =
     bnd (identityOwner ctx) (\<lambda>scope.
     bnd (agents_parseUUID parse raw) (\<lambda>gid.
     bnd (query (\<lambda>_. status Unavailable) (\<lambda>d. take 2 (filter (\<lambda>r. rn_OrgID r = s_OrgID scope \<and> rn_GrantID r = gid) (runs d)))) (\<lambda>rows.
     case rows of
       [r] \<Rightarrow>
         if rn_GrantIntent r \<noteq> None \<or> rn_AgentID r = uuid_Nil \<or> rn_Branch r = '''' then fail (status FailedPrecondition)
         else ret \<lparr>l_GrantID = gid, l_OrgID = s_OrgID scope, l_RunID = rn_ID r, l_AgentID = rn_AgentID r, l_Branch = rn_Branch r\<rparr>
     | _ \<Rightarrow> fail (status FailedPrecondition))))"

section \<open>Activity\<close>

record activity =
  av_AgentID :: uuid
  av_Name :: string
  av_Role :: string
  av_Enabled :: bool
  av_RunID :: uuid
  av_WorkItemKey :: string
  av_Since :: "time option"

text \<open>The run an agent executes: the earliest started one that is running.\<close>

definition current_run :: "agent \<Rightarrow> agentdb \<Rightarrow> run_row option" where
  "current_run a d =
     (case nulls_last rn_StartedAt (sort_key rn_ID (filter (\<lambda>r. rn_OrgID r = ag_OrgID a \<and> rn_AgentID r = ag_ID a
             \<and> rn_State r = ''running'') (runs d))) of
        [] \<Rightarrow> None
      | r # _ \<Rightarrow> Some r)"

definition activity_of :: "(string \<Rightarrow> proto_item option) \<Rightarrow> agent \<Rightarrow> run_row option \<Rightarrow> activity" where
  "activity_of unm a row =
     \<lparr>av_AgentID = ag_ID a, av_Name = ag_Name a, av_Role = ag_Role a, av_Enabled = ag_Enabled a,
      av_RunID = (case row of None \<Rightarrow> uuid_Nil | Some r \<Rightarrow> rn_ID r),
      av_WorkItemKey = (case row of None \<Rightarrow> '''' | Some r \<Rightarrow>
         (case rn_WorkItemSnapshot r of None \<Rightarrow> '''' | Some body \<Rightarrow>
            if body = '''' then '''' else (case unm body of None \<Rightarrow> '''' | Some it \<Rightarrow> t_Key it))),
      av_Since = (case row of None \<Rightarrow> None | Some r \<Rightarrow> rn_StartedAt r)\<rparr>"

definition ListAgentActivity :: "(string \<Rightarrow> nat) \<Rightarrow> (string \<Rightarrow> proto_item option) \<Rightarrow> ctx \<Rightarrow> activity list agent_op" where
  "ListAgentActivity collation unm ctx =
     bnd (from_context ctx) (\<lambda>scope.
     query Sql (\<lambda>d. map (\<lambda>a. activity_of unm a (current_run a d))
       (sort_key (collation \<circ> ag_Name) (filter (\<lambda>a. ag_OrgID a = s_OrgID scope) (agents d)))))"

end
