(* ===== verification/NF_AgentLaws.thy ===== *)
theory NF_AgentLaws
  imports NF_AgentServer
begin

text \<open>
  What every operation on runs respects, however its statements fail. \<open>run_evolves\<close> is the
  contract of one run: who it is never changes, an ended run stays as it ended, a recorded
  receipt, a frozen Work item and a workspace's identity stay, counters only grow, and the
  obligation to revoke its grant ends only by the owner's confirmation. \<open>evolve\<close> lifts it to the
  tables; the identifiers an operation may create runs under, and the grants whose owners
  confirmed, are its parameters.
\<close>

section \<open>The contract of a run\<close>

definition grant_key :: "'a run_cols_scheme \<Rightarrow> issuance_intent option \<times> uuid" where
  "grant_key r = (rn_GrantIntent r, rn_GrantID r)"

text \<open>The grants the owners would confirm as dead.\<close>

definition confirmed :: "owners \<Rightarrow> (issuance_intent option \<times> uuid) set" where
  "confirmed ow = {(i, g). case i of
       Some intent \<Rightarrow> (case ow_GrantIssuanceCanceller ow of None \<Rightarrow> False | Some f \<Rightarrow> f intent)
     | None \<Rightarrow> (case ow_GrantRevoker ow of None \<Rightarrow> False | Some f \<Rightarrow> f g)}"

lemma grant_confirmed_iff: "grant_confirmed ow r \<longleftrightarrow> grant_key r \<in> confirmed ow"
  by (simp add: grant_confirmed_def confirmed_def grant_key_def)

definition wf_row :: "run_row \<Rightarrow> bool" where
  "wf_row r \<longleftrightarrow> rn_State r \<in> set run_states
     \<and> (terminal r \<longleftrightarrow> rn_EndedAt r \<noteq> None)
     \<and> (rw_CleanupClaim r \<noteq> None \<longrightarrow> terminal r)
     \<and> (rw_Completion r \<noteq> None \<longrightarrow> terminal r \<and> rn_ExecutionFinished r)
     \<and> (rn_State r = ''running'' \<longrightarrow> rn_StartedAt r \<noteq> None)
     \<and> (rn_State r = ''queued'' \<longrightarrow> rn_StartedAt r = None)
     \<and> (rn_GrantCleanupPending r \<longrightarrow> terminal r \<and> rn_GrantID r \<noteq> uuid_Nil)"

text \<open>A run as \<open>CreateRun\<close> leaves it.\<close>

definition fresh_row :: "run_row \<Rightarrow> bool" where
  "fresh_row r \<longleftrightarrow> rn_State r = ''queued'' \<and> \<not> rn_GrantCleanupPending r \<and> rw_Completion r = None
     \<and> rn_WorkItemSnapshot r = None \<and> rn_WorkspaceIdentity r = None"

definition workspace_evolves :: "identity option \<Rightarrow> identity option \<Rightarrow> bool" where
  "workspace_evolves i j \<longleftrightarrow> (case i of None \<Rightarrow> True | Some a \<Rightarrow>
     (case j of None \<Rightarrow> False | Some b \<Rightarrow> same_workspace a b \<and> (wk_TerminationObserved a \<longrightarrow> b = a)))"

definition run_evolves :: "(issuance_intent option \<times> uuid) set \<Rightarrow> run_row \<Rightarrow> run_row \<Rightarrow> bool" where
  "run_evolves K r r' \<longleftrightarrow>
     rn_ID r' = rn_ID r \<and> rn_OrgID r' = rn_OrgID r \<and> rn_AgentID r' = rn_AgentID r
     \<and> rn_WorkItemID r' = rn_WorkItemID r \<and> rn_SponsorID r' = rn_SponsorID r \<and> grant_key r' = grant_key r
     \<and> rw_WallclockSeconds r' = rw_WallclockSeconds r
     \<and> (rn_State r \<noteq> ''queued'' \<longrightarrow> rn_State r' \<noteq> ''queued'' \<and> rn_RepoID r' = rn_RepoID r \<and> rn_Branch r' = rn_Branch r
          \<and> rn_StartedAt r' = rn_StartedAt r)
     \<and> (terminal r \<longrightarrow> rn_State r' = rn_State r \<and> rn_EndedAt r' = rn_EndedAt r)
     \<and> (rw_Completion r \<noteq> None \<longrightarrow> rw_Completion r' = rw_Completion r)
     \<and> (rn_WorkItemSnapshot r \<noteq> None \<longrightarrow> rn_WorkItemSnapshot r' = rn_WorkItemSnapshot r)
     \<and> workspace_evolves (rn_WorkspaceIdentity r) (rn_WorkspaceIdentity r')
     \<and> rn_TokensUsed r \<le> rn_TokensUsed r' \<and> rn_CostUsedMicros r \<le> rn_CostUsedMicros r'
     \<and> (rn_ExecutionFinished r \<longrightarrow> rn_ExecutionFinished r')
     \<and> (terminal r \<and> rn_GrantCleanupPending r' \<longrightarrow> rn_GrantCleanupPending r)
     \<and> (terminal r' \<and> rn_GrantID r' \<noteq> uuid_Nil \<and> \<not> rn_GrantCleanupPending r' \<longrightarrow>
          terminal r \<and> \<not> rn_GrantCleanupPending r \<or> grant_key r \<in> K)"

lemma states_distinct [simp]:
  "''queued'' \<notin> set terminalStates" "''running'' \<notin> set terminalStates"
  "''succeeded'' \<in> set terminalStates" "''failed'' \<in> set terminalStates" "''cancelled'' \<in> set terminalStates"
  by (simp_all add: terminalStates_def)

lemma terminal_states: "set terminalStates \<subseteq> set run_states"
  by (auto simp: terminalStates_def run_states_def)

lemma run_states_cases: "s \<in> set run_states \<longleftrightarrow> s = ''queued'' \<or> s = ''running'' \<or> s \<in> set terminalStates"
  by (auto simp: run_states_def terminalStates_def)

lemma workspace_refl: "workspace_evolves i i"
  by (simp add: workspace_evolves_def same_workspace_def split: option.split)

lemma workspace_trans: "workspace_evolves i j \<Longrightarrow> workspace_evolves j k \<Longrightarrow> workspace_evolves i k"
  by (auto simp: workspace_evolves_def same_workspace_def split: option.splits)

lemma evolves_refl: "run_evolves K r r"
  by (auto simp: run_evolves_def workspace_refl)

lemma run_evolvesD:
  assumes "run_evolves K r r'"
  shows "rn_ID r' = rn_ID r" "rn_OrgID r' = rn_OrgID r" "rn_AgentID r' = rn_AgentID r"
    "rn_WorkItemID r' = rn_WorkItemID r" "rn_SponsorID r' = rn_SponsorID r" "grant_key r' = grant_key r"
    "rw_WallclockSeconds r' = rw_WallclockSeconds r"
    "rn_State r \<noteq> ''queued'' \<Longrightarrow> rn_State r' \<noteq> ''queued''"
    "rn_State r \<noteq> ''queued'' \<Longrightarrow> rn_RepoID r' = rn_RepoID r"
    "rn_State r \<noteq> ''queued'' \<Longrightarrow> rn_Branch r' = rn_Branch r"
    "rn_State r \<noteq> ''queued'' \<Longrightarrow> rn_StartedAt r' = rn_StartedAt r"
    "terminal r \<Longrightarrow> rn_State r' = rn_State r" "terminal r \<Longrightarrow> rn_EndedAt r' = rn_EndedAt r"
    "rw_Completion r \<noteq> None \<Longrightarrow> rw_Completion r' = rw_Completion r"
    "rn_WorkItemSnapshot r \<noteq> None \<Longrightarrow> rn_WorkItemSnapshot r' = rn_WorkItemSnapshot r"
    "workspace_evolves (rn_WorkspaceIdentity r) (rn_WorkspaceIdentity r')"
    "rn_TokensUsed r \<le> rn_TokensUsed r'" "rn_CostUsedMicros r \<le> rn_CostUsedMicros r'"
    "rn_ExecutionFinished r \<Longrightarrow> rn_ExecutionFinished r'"
    "terminal r \<Longrightarrow> rn_GrantCleanupPending r' \<Longrightarrow> rn_GrantCleanupPending r"
    "terminal r' \<Longrightarrow> rn_GrantID r' \<noteq> uuid_Nil \<Longrightarrow> \<not> rn_GrantCleanupPending r' \<Longrightarrow>
       terminal r \<and> \<not> rn_GrantCleanupPending r \<or> grant_key r \<in> K"
  using assms unfolding run_evolves_def by simp_all

lemma evolves_trans:
  assumes "run_evolves K a b" and "run_evolves K b c"
  shows "run_evolves K a c"
proof -
  note A = run_evolvesD[OF assms(1)] and B = run_evolvesD[OF assms(2)]
  have g: "rn_GrantID b = rn_GrantID c" using B(6) by (simp add: grant_key_def)
  show ?thesis
    unfolding run_evolves_def
  proof (intro conjI impI)
    show "workspace_evolves (rn_WorkspaceIdentity a) (rn_WorkspaceIdentity c)"
      using A(16) B(16) by (rule workspace_trans)
    show "rn_TokensUsed a \<le> rn_TokensUsed c" using A(17) B(17) by (rule order_trans)
    show "rn_CostUsedMicros a \<le> rn_CostUsedMicros c" using A(18) B(18) by (rule order_trans)
    show "rn_GrantCleanupPending a" if "terminal a \<and> rn_GrantCleanupPending c"
      using that A(12,20) B(20) by simp
    show "terminal a \<and> \<not> rn_GrantCleanupPending a \<or> grant_key a \<in> K"
      if "terminal c \<and> rn_GrantID c \<noteq> uuid_Nil \<and> \<not> rn_GrantCleanupPending c"
      using that A(6,21) B(21) g by auto
  qed (use A(1-15,19) B(1-15,19) in simp_all)
qed

lemma evolves_mono: "run_evolves K r r' \<Longrightarrow> K \<subseteq> L \<Longrightarrow> run_evolves L r r'"
  unfolding run_evolves_def by auto

section \<open>The tables\<close>

definition ordered_events :: "agentdb \<Rightarrow> bool" where
  "ordered_events d \<longleftrightarrow> sorted_wrt (<) (map te_Sequence (tool_events d))
     \<and> (\<forall>e \<in> set (tool_events d). 0 < te_Sequence e \<and> te_Sequence e \<le> last_sequence d)"

definition agents_wf :: "agentdb \<Rightarrow> bool" where
  "agents_wf d \<longleftrightarrow> distinct (map rn_ID (runs d)) \<and> (\<forall>r \<in> set (runs d). wf_row r) \<and> branch_index (runs d) \<and> ordered_events d"

text \<open>A run that may be created: under a new identifier, and in a scope that is not being deleted.\<close>

definition creatable :: "uuid set \<Rightarrow> agentdb \<Rightarrow> run_row \<Rightarrow> bool" where
  "creatable X d r \<longleftrightarrow> rn_ID r \<in> X \<and> fresh_row r \<and> \<not> fenced (rn_OrgID r) (rn_RepoID r) d"

definition evolve :: "(issuance_intent option \<times> uuid) set \<Rightarrow> uuid set \<Rightarrow> agentdb \<Rightarrow> agentdb \<Rightarrow> bool" where
  "evolve K X d d' \<longleftrightarrow> set (deleted_scopes d) \<subseteq> set (deleted_scopes d') \<and>
     (agents_wf d \<longrightarrow> agents_wf d' \<and> (\<forall>r' \<in> set (runs d'). \<exists>r. (r \<in> set (runs d) \<or> creatable X d r) \<and> run_evolves K r r'))"

interpretation run_frame: db_frame "evolve K X" for K X
proof unfold_locales
  fix d show "evolve K X d d" unfolding evolve_def using evolves_refl by blast
next
  fix a b c assume ab: "evolve K X a b" and bc: "evolve K X b c"
  have fences: "set (deleted_scopes a) \<subseteq> set (deleted_scopes b)" using ab by (simp add: evolve_def)
  have "\<exists>r. (r \<in> set (runs a) \<or> creatable X a r) \<and> run_evolves K r r''"
    if "agents_wf a" and r'': "r'' \<in> set (runs c)" for r''
  proof -
    have wb: "agents_wf b" using ab \<open>agents_wf a\<close> by (simp add: evolve_def)
    then obtain r' where r': "r' \<in> set (runs b) \<or> creatable X b r'" "run_evolves K r' r''"
      using bc r'' unfolding evolve_def by blast
    show ?thesis
    proof (cases "r' \<in> set (runs b)")
      case True
      then obtain r where "r \<in> set (runs a) \<or> creatable X a r" "run_evolves K r r'"
        using ab \<open>agents_wf a\<close> unfolding evolve_def by blast
      with r'(2) show ?thesis using evolves_trans by blast
    next
      case False
      with r'(1) fences have "creatable X a r'" by (auto simp: creatable_def fenced_def)
      with r'(2) show ?thesis by blast
    qed
  qed
  with ab bc show "evolve K X a c" unfolding evolve_def by (meson subset_trans)
qed

lemma evolve_mono: "evolve K X d d' \<Longrightarrow> K \<subseteq> L \<Longrightarrow> X \<subseteq> Y \<Longrightarrow> evolve L Y d d'"
  unfolding evolve_def creatable_def using evolves_mono by blast

lemmas run_rules = run_frame.frame_rules run_frame.frame_from_context run_frame.frame_require_org

section \<open>The statements\<close>

lemma update_runs_Inr:
  assumes "update_runs P f d = Inr (n, d')"
  shows "d' = d\<lparr>runs := update_rows P f (runs d)\<rparr>" and "n = affected P (runs d)"
    and "branch_index (update_rows P f (runs d))"
  using assms by (auto simp: update_runs_def Let_def split: if_splits)

lemma evolve_update:
  assumes "update_runs P f d = Inr (n, d')"
    and "\<And>r. r \<in> set (runs d) \<Longrightarrow> P r \<Longrightarrow> wf_row r \<Longrightarrow> wf_row (f r) \<and> run_evolves K r (f r)"
  shows "evolve K X d d'"
proof -
  note u = update_runs_Inr[OF assms(1)]
  have "\<exists>r. (r \<in> set (runs d) \<or> creatable X d r) \<and> run_evolves K r r'"
    if "agents_wf d" and r': "r' \<in> set (update_rows P f (runs d))" for r'
  proof -
    obtain r where r: "r \<in> set (runs d)" "r' = (if P r then f r else r)"
      using r' by (auto simp: set_update_rows)
    moreover have "wf_row r" using \<open>agents_wf d\<close> r(1) by (simp add: agents_wf_def)
    ultimately have "run_evolves K r r'" using assms(2)[OF r(1)] evolves_refl by simp
    with r show ?thesis by blast
  qed
  moreover have "agents_wf d'" if w: "agents_wf d"
  proof -
    have "map rn_ID (update_rows P f (runs d)) = map rn_ID (runs d)"
      unfolding update_rows_def map_map o_def
      by (rule map_cong[OF refl]) (use w assms(2) in \<open>auto simp: agents_wf_def run_evolves_def\<close>)
    moreover have "wf_row r'" if "r' \<in> set (update_rows P f (runs d))" for r'
      using that w assms(2) by (auto simp: agents_wf_def set_update_rows)
    ultimately show ?thesis using w u by (auto simp: agents_wf_def ordered_events_def)
  qed
  ultimately show ?thesis by (simp add: evolve_def u(1))
qed

lemma within_update:
  assumes "\<And>r. P r \<Longrightarrow> wf_row r \<Longrightarrow> wf_row (f r) \<and> run_evolves K r (f r)"
  shows "within (evolve K X) (stmt h (update_runs P f))"
proof (rule run_frame.frame_stmt)
  fix d a d' assume "update_runs P f d = Inr (a, d')"
  then show "evolve K X d d'" by (rule evolve_update) (rule assms)
qed

text \<open>Changes of the tables that leave the runs and the events' order alone.\<close>

lemma evolve_other:
  assumes "runs d' = runs d" and "set (deleted_scopes d) \<subseteq> set (deleted_scopes d')"
    and "ordered_events d \<Longrightarrow> ordered_events d'"
  shows "evolve K X d d'"
  unfolding evolve_def
proof (intro conjI impI ballI)
  fix r' assume "r' \<in> set (runs d')"
  then show "\<exists>r. (r \<in> set (runs d) \<or> creatable X d r) \<and> run_evolves K r r'"
    using assms(1) evolves_refl by auto
qed (use assms in \<open>simp_all add: agents_wf_def\<close>)

lemma evolve_insert_run:
  assumes "insert_run r d = Inr (u, d')" and "creatable X d r" and "wf_row r"
  shows "evolve K X d d'"
proof -
  have d': "d' = d\<lparr>runs := runs d @ [r]\<rparr>" "rn_ID r \<notin> rn_ID ` set (runs d)" "branch_index (runs d @ [r])"
    using assms(1) by (auto simp: insert_run_def split: if_splits)
  show ?thesis
    unfolding evolve_def
  proof (intro conjI impI ballI)
    fix r' assume "r' \<in> set (runs d')"
    then have "r' \<in> set (runs d) \<or> creatable X d r'" using assms(2) d'(1) by auto
    then show "\<exists>r. (r \<in> set (runs d) \<or> creatable X d r) \<and> run_evolves K r r'"
      using evolves_refl by blast
  next
    assume "agents_wf d"
    then show "agents_wf d'" using d' assms(3) by (simp add: agents_wf_def ordered_events_def)
  qed (simp add: d'(1))
qed

lemma branch_index_filter: "branch_index rs \<Longrightarrow> branch_index (filter Q rs)"
proof -
  have "filter R (filter Q rs) = filter Q (filter R rs)" for R by (induction rs) auto
  then show "branch_index rs \<Longrightarrow> branch_index (filter Q rs)"
    unfolding branch_index_def by (simp only: distinct_map_filter)
qed

lemma ordered_filter:
  assumes "ordered_events d" and "tool_events d' = filter Q (tool_events d)" and "last_sequence d' = last_sequence d"
  shows "ordered_events d'"
proof -
  have "sorted_wrt (<) (map te_Sequence (filter Q es))" if "sorted_wrt (<) (map te_Sequence es)" for es
    using that by (induction es) auto
  with assms show ?thesis by (simp add: ordered_events_def)
qed

lemma evolve_delete_calls: "evolve K X d (delete_calls P d)"
  by (rule evolve_other) (auto simp: delete_calls_def Let_def intro: ordered_filter)

lemma evolve_delete_runs: "evolve K X d (snd (delete_runs P d))"
proof -
  let ?d' = "snd (delete_runs P d)"
  have r: "runs ?d' = filter (\<lambda>r. \<not> P r) (runs d)" "deleted_scopes ?d' = deleted_scopes d"
    by (simp_all add: delete_runs_def delete_calls_def Let_def)
  have "ordered_events ?d'" if "ordered_events d"
  proof (rule ordered_filter)
    show "tool_events ?d' = filter (\<lambda>e. te_CallID e \<notin> tc_ID ` set (filter (\<lambda>c. tc_RunID c \<in> rn_ID ` set (filter P (runs d))) (tool_calls d))
        \<and> te_RunID e \<notin> rn_ID ` set (filter P (runs d))) (tool_events d)"
      by (simp add: delete_runs_def delete_calls_def Let_def conj_commute)
  qed (use that in \<open>simp_all add: delete_runs_def delete_calls_def Let_def\<close>)
  then have w: "agents_wf d \<Longrightarrow> agents_wf ?d'"
    unfolding agents_wf_def r by (simp add: branch_index_filter distinct_map_filter)
  show ?thesis
    unfolding evolve_def
  proof (intro conjI impI ballI)
    fix r' assume "r' \<in> set (runs ?d')"
    then have "r' \<in> set (runs d)" by (simp add: r)
    then show "\<exists>r. (r \<in> set (runs d) \<or> creatable X d r) \<and> run_evolves K r r'"
      using evolves_refl by blast
  qed (simp_all add: r w)
qed

lemma evolve_fence: "evolve K X d (fence_scope org repo d)"
  by (rule evolve_other) (auto simp: fence_scope_def Let_def ordered_events_def)

lemma evolve_insert_call: "insert_call c d = Inr (u, d') \<Longrightarrow> evolve K X d d'"
  by (rule evolve_other) (auto simp: insert_call_def ordered_events_def split: if_splits)

lemma evolve_insert_agent: "insert_agent a d = Inr (u, d') \<Longrightarrow> evolve K X d d'"
  by (rule evolve_other) (auto simp: insert_agent_def ordered_events_def split: if_splits)

lemma evolve_delete_agents: "delete_agents org d = Inr (u, d') \<Longrightarrow> evolve K X d d'"
  by (rule evolve_other) (auto simp: delete_agents_def ordered_events_def split: if_splits)

lemma evolve_provenance: "upsert_provenance rid p d = Inr (u, d') \<Longrightarrow> evolve K X d d'"
  by (rule evolve_other) (auto simp: upsert_provenance_def ordered_events_def split: if_splits)

lemma evolve_upsert_call: "upsert_call a mk d = Inr (n, d') \<Longrightarrow> evolve K X d d'"
  by (auto simp: upsert_call_def Let_def split: option.splits
      intro: evolve_insert_call run_frame.frame_refl)

lemma evolve_insert_event: "insert_event org rid cid tool outcome now d = Inr (u, d') \<Longrightarrow> evolve K X d d'"
  by (rule evolve_other)
    (auto simp: insert_event_def Let_def ordered_events_def sorted_wrt_append le_Suc_eq less_Suc_eq_le split: if_splits)

lemma evolve_finish_call: "evolve K X d (snd (finish_call cid org outcome now d))"
  by (rule evolve_other) (auto simp: finish_call_def ordered_events_def)

lemma evolve_mark_published: "evolve K X d (mark_published org run n d)"
proof (rule evolve_other)
  show "ordered_events d \<Longrightarrow> ordered_events (mark_published org run n d)"
    unfolding ordered_events_def mark_published_def by (simp add: map_update_rows set_update_rows) auto
qed (simp_all add: mark_published_def)

section \<open>Reading first\<close>

text \<open>An operation from one database on: what it reads first is what that database holds.\<close>

definition from_db :: "('d \<Rightarrow> 'd \<Rightarrow> bool) \<Rightarrow> 'd \<Rightarrow> ('d, 'e, 'a) op \<Rightarrow> bool" where
  "from_db R d m \<longleftrightarrow> (\<forall>fs. R d (fst (snd (m (d, fs)))))"

lemma within_fromI: "(\<And>d. from_db R d m) \<Longrightarrow> within R m"
  by (simp add: within_def from_db_def)

lemma from_withinI: "within R m \<Longrightarrow> from_db R d m"
  unfolding from_db_def using withinD[of R m "(d, fs)" for fs] by simp

lemma from_dbD: "from_db R d m \<Longrightarrow> m (d, fs) = (r, w') \<Longrightarrow> R d (fst w')"
  unfolding from_db_def by (metis fst_conv snd_conv)

context db_frame
begin

lemma from_query_bnd: "from_db R d (k (f d)) \<Longrightarrow> from_db R d (bnd (query h f) k)"
  by (auto simp: from_db_def bnd_def query_def stmt_def frame_refl)

lemma from_stmt: "(\<And>a d'. f d = Inr (a, d') \<Longrightarrow> R d d') \<Longrightarrow> from_db R d (stmt h f)"
  by (auto simp: from_db_def stmt_def frame_refl split: sum.splits prod.splits)

lemma from_bnd:
  assumes "from_db R d m" and "\<And>a. within R (k a)"
  shows "from_db R d (bnd m k)"
  unfolding from_db_def
proof
  fix fs
  obtain r w1 where m: "m (d, fs) = (r, w1)" by (cases "m (d, fs)")
  have s: "R d (fst w1)" using from_dbD[OF assms(1) m] .
  show "R d (fst (snd (bnd m k (d, fs))))"
  proof (cases r)
    case (Inl e)
    with m s show ?thesis by (simp add: bnd_def)
  next
    case (Inr a)
    have "R (fst w1) (fst (snd (k a w1)))" using assms(2) by (rule withinD)
    with m s Inr show ?thesis by (simp add: bnd_def) (rule frame_trans)
  qed
qed

lemma from_tx: "from_db R d m \<Longrightarrow> from_db R d (tx h m)"
  unfolding from_db_def tx_def by (auto simp: frame_refl split: sum.splits txres.splits prod.splits) (metis fst_conv snd_conv)

lemma from_fail: "from_db R d (fail e)"
  by (simp add: from_db_def fail_def frame_refl)

lemma from_ret: "from_db R d (ret a)"
  by (simp add: from_db_def ret_def frame_refl)

lemma from_if: "(b \<Longrightarrow> from_db R d m) \<Longrightarrow> (\<not> b \<Longrightarrow> from_db R d n) \<Longrightarrow> from_db R d (if b then m else n)"
  by simp

end

section \<open>The rows the operations write\<close>

lemmas row_defs = wf_row_def run_evolves_def grant_key_def workspace_refl run_states_cases

lemma row_start:
  "rn_State r = ''queued'' \<Longrightarrow> wf_row r \<Longrightarrow>
     wf_row ((start_state now r)\<lparr>rn_RepoID := repo, rn_Branch := branch\<rparr>)
     \<and> run_evolves K r ((start_state now r)\<lparr>rn_RepoID := repo, rn_Branch := branch\<rparr>)"
  by (simp add: row_defs start_state_def)

lemma row_start': "rn_State r = ''queued'' \<Longrightarrow> wf_row r \<Longrightarrow> wf_row (start_state now r) \<and> run_evolves K r (start_state now r)"
  by (simp add: row_defs start_state_def)

lemma not_terminal: "rn_State r = ''queued'' \<or> rn_State r = ''running'' \<Longrightarrow> \<not> terminal r"
  by auto

lemma row_end:
  "\<not> terminal r \<Longrightarrow> s \<in> set terminalStates \<Longrightarrow> wf_row r \<Longrightarrow> wf_row (end_state now s r) \<and> run_evolves K r (end_state now s r)"
  by (auto simp: row_defs end_state_def)

lemma row_fail:
  "\<not> terminal r \<Longrightarrow> wf_row r \<Longrightarrow> wf_row (fail_row now reason r) \<and> run_evolves K r (fail_row now reason r)"
  by (auto simp: row_defs fail_row_def)

lemma row_cancel: "\<not> terminal r \<Longrightarrow> wf_row r \<Longrightarrow> wf_row (cancel_row now r) \<and> run_evolves K r (cancel_row now r)"
  by (auto simp: row_defs cancel_row_def)

lemma row_complete:
  assumes "rw_Completion r = None" and "s \<in> set terminalStates" and "terminal r \<Longrightarrow> s = rn_State r" and "wf_row r"
  shows "wf_row (complete_row now s c r) \<and> run_evolves K r (complete_row now s c r)"
  using assms by (auto simp: row_defs complete_row_def Let_def split: option.splits)

lemma row_release:
  "rn_State r = ''running'' \<Longrightarrow> wf_row r \<Longrightarrow> wf_row (r\<lparr>rn_State := ''succeeded'', rn_EndedAt := Some now\<rparr>)
     \<and> run_evolves UNIV r (r\<lparr>rn_State := ''succeeded'', rn_EndedAt := Some now\<rparr>)"
  by (auto simp: row_defs)

lemma row_lease: "terminal r \<Longrightarrow> wf_row r \<Longrightarrow> wf_row (lease_row claim now r) \<and> run_evolves K r (lease_row claim now r)"
  by (auto simp: row_defs lease_row_def)

lemma wf_queued_row: "wf_row (queued_row now secs r)" "fresh_row (queued_row now secs r)" "rn_ID (queued_row now secs r) = rn_ID r"
  by (simp_all add: wf_row_def fresh_row_def queued_row_def run_cols.defs run_row.defs run_states_def)

lemma queued_row_scope: "rn_OrgID (queued_row now secs r) = rn_OrgID r" "rn_RepoID (queued_row now secs r) = rn_RepoID r"
  by (simp_all add: queued_row_def run_cols.defs run_row.defs)

section \<open>The operations\<close>

lemma within_allow: "within (evolve K X) (allowAdmission org repo)"
  unfolding allowAdmission_def lockAdmission_def by (intro run_rules)

lemma within_CreateAgent: "within (evolve K X) (CreateAgent ctx new_id a)"
  unfolding CreateAgent_def Let_def by (intro run_rules within_allow) (rule evolve_insert_agent)

text \<open>What follows an admission check runs in a database that does not fence the scope.\<close>

lemma from_allow_bnd:
  assumes "\<not> fenced org repo d \<Longrightarrow> from_db (evolve K X) d (k ())"
  shows "from_db (evolve K X) d (bnd (allowAdmission org repo) k)"
proof -
  have "from_db (evolve K X) d (bnd lockAdmission (\<lambda>_. bnd (query Sql (fenced org repo)) (\<lambda>deleted.
      bnd (if deleted then fail (App ScopeDeleted) else ret ()) k)))"
    unfolding lockAdmission_def
    by (intro run_frame.from_query_bnd) (use assms in \<open>simp add: run_frame.from_fail\<close>)
  moreover have "bnd (allowAdmission org repo) k = bnd lockAdmission (\<lambda>_. bnd (query Sql (fenced org repo)) (\<lambda>deleted.
      bnd (if deleted then fail (App ScopeDeleted) else ret ()) k))"
    unfolding allowAdmission_def by (rule ext) (auto simp: bnd_def split: prod.splits sum.splits)
  ultimately show ?thesis by simp
qed

lemma within_CreateRun: "new_id \<in> X \<Longrightarrow> within (evolve K X) (CreateRun ctx new_id now r)"
  unfolding CreateRun_def Let_def
proof (intro run_frame.frame_bnd run_frame.frame_require_org within_fromI run_frame.from_tx from_allow_bnd, goal_cases)
  case (1 u d)
  let ?row = "queued_row now (wallclock_seconds (rn_WallclockLimit r))
     (r\<lparr>rn_ID := new_id, rn_GrantIntent := map_option (i_RunID_update (\<lambda>_. new_id)) (rn_GrantIntent r), rn_State := ''queued'',
        rn_WallclockLimit := wallclock_seconds (rn_WallclockLimit r) * second,
        rn_TokenLimit := if rn_TokenLimit r \<le> 0 then 1000000 else rn_TokenLimit r,
        rn_CostLimitMicros := if rn_CostLimitMicros r < 0 then 0 else rn_CostLimitMicros r\<rparr>)"
  have "creatable X d ?row"
    using 1 by (simp add: creatable_def wf_queued_row queued_row_scope)
  then show ?case
    by (intro run_frame.from_if run_frame.from_fail run_frame.from_bnd run_frame.from_stmt run_frame.frame_ret)
      (erule evolve_insert_run; simp add: wf_queued_row)
qed

lemma within_GetRun: "within (evolve K X) (GetRun ctx rid)"
  unfolding GetRun_def by (intro run_rules)

lemma within_GetAgent: "within (evolve K X) (GetAgent ctx aid)"
  unfolding GetAgent_def by (intro run_rules)

lemma find_runD: "find_run rid org d = Some r \<Longrightarrow> r \<in> set (runs d) \<and> rn_ID r = rid \<and> rn_OrgID r = org"
  unfolding find_run_def by (drule find_Some_in) simp

lemma same_run:
  "agents_wf d \<Longrightarrow> r \<in> set (runs d) \<Longrightarrow> q \<in> set (runs d) \<Longrightarrow> rn_ID q = rn_ID r \<Longrightarrow> q = r"
  unfolding agents_wf_def distinct_map inj_on_def by blast

lemma from_update_read:
  assumes "r \<in> set (runs d)" and "\<And>q. P q \<Longrightarrow> rn_ID q = rn_ID r"
    and "wf_row r \<Longrightarrow> P r \<Longrightarrow> wf_row (f r) \<and> run_evolves K r (f r)"
  shows "from_db (evolve K X) d (stmt h (update_runs P f))"
proof (rule run_frame.from_stmt)
  fix n d' assume u: "update_runs P f d = Inr (n, d')"
  show "evolve K X d d'"
  proof (cases "agents_wf d")
    case True
    show ?thesis
    proof (rule evolve_update[OF u])
      fix q assume "q \<in> set (runs d)" "P q" "wf_row q"
      moreover have "q = r" using same_run[OF True assms(1)] assms(2) calculation by blast
      ultimately show "wf_row (f q) \<and> run_evolves K q (f q)" using assms(3) by simp
    qed
  next
    case False
    then show ?thesis using update_runs_Inr(1)[OF u] by (simp add: evolve_def)
  qed
qed

lemma within_SetRunState: "within (evolve K X) (SetRunState ctx now rid s)"
  unfolding SetRunState_def
proof (intro run_frame.frame_bnd run_frame.frame_from_context within_fromI run_frame.from_tx run_frame.from_query_bnd, goal_cases)
  case (1 scope d)
  show ?case
  proof (cases "find_run rid (s_OrgID scope) d")
    case (Some r)
    note r = find_runD[OF Some]
    have step: "wf_row (f r) \<and> run_evolves K r (f r)"
      if "s \<in> set (validTransitions (rn_State r))" "wf_row r"
        "f = (if s = ''running'' then start_state now else if s \<in> set terminalStates then end_state now s
              else rn_State_update (\<lambda>_. s))" for f
    proof (cases "s = ''running''")
      case True
      then have "rn_State r = ''queued''" using that(1) by (auto simp: validTransitions_def split: if_splits)
      then show ?thesis using True that row_start' by simp
    next
      case False
      then have "s \<in> set terminalStates" "\<not> terminal r"
        using that(1) by (auto simp: validTransitions_def terminalStates_def split: if_splits)
      then show ?thesis using False that row_end by simp
    qed
    show ?thesis
      unfolding Some option.case
      by (intro run_frame.from_if run_frame.from_fail run_frame.from_bnd run_frame.frame_ret from_update_read)
        (use r step in auto)
  qed (simp add: run_frame.from_fail)
qed

lemma within_RecordProvenance: "within (evolve K X) (RecordProvenance ctx rid p)"
  unfolding RecordProvenance_def by (intro run_rules) (rule evolve_provenance)

lemma within_RecordSpend: "within (evolve K X) (RecordSpend ctx rid sp)"
  unfolding RecordSpend_def
  by (intro run_rules run_frame.frame_from_context run_frame.frame_bnd within_update) (auto simp: row_defs)


lemma within_Holder: "within (evolve K X) (Holder ctx org repo branch)"
  unfolding Holder_def by (intro run_rules)

lemma within_Acquire: "within (evolve K X) (Acquire ctx now org repo branch rid)"
  unfolding Acquire_def
  by (intro run_frame.frame_require_org run_frame.frame_bnd run_frame.frame_attempt within_update)
    (auto intro!: run_rules within_Holder simp: row_start split: sum.split option.split)

lemma within_Release: "within (evolve UNIV X) (Release ctx now org repo branch)"
  unfolding Release_def
  by (intro run_frame.frame_require_org run_frame.frame_bnd run_frame.frame_ret within_update) (simp_all add: row_release)

lemma within_Freeze: "within (evolve K X) (FreezeWorkItem mar ctx r item)"
  unfolding FreezeWorkItem_def
  by (auto intro!: run_frame.frame_require_org run_frame.frame_bnd run_frame.frame_ret run_frame.frame_fail within_update
      split: option.split simp: row_defs)

lemma within_Record: "within (evolve K X) (RecordWorkspaceCleanup ctx i)"
  unfolding RecordWorkspaceCleanup_def
  by (intro run_frame.frame_require_org run_frame.frame_bnd run_frame.frame_ret run_frame.frame_fail run_frame.frame_if within_update)
    (auto simp: row_defs workspace_evolves_def observed_def same_workspace_def split: option.splits)

lemma within_receipts: "within (evolve K X) (record_receipts ctx is)"
  by (induction "is") (simp_all add: run_frame.frame_ret run_frame.frame_bnd within_Record)

lemma within_Confirm: "within (evolve K X) (ConfirmWorkspaceCleanup ow ctx rid)"
  unfolding ConfirmWorkspaceCleanup_def
  by (auto intro!: run_frame.frame_from_context run_frame.frame_bnd run_frame.frame_ret run_frame.frame_fail within_update
      within_GetRun within_receipts split: option.split simp: row_defs)

lemma within_Begin: "within (evolve K X) (BeginWorkspace ctx rid)"
  unfolding BeginWorkspace_def
  by (intro run_frame.frame_from_context run_frame.frame_bnd run_frame.frame_ret run_frame.frame_fail run_frame.frame_if within_update)
    (auto simp: row_defs)

lemma within_Adopt: "within (evolve K X) (AdoptWorkspaceCleanup ctx i)"
  unfolding AdoptWorkspaceCleanup_def
  by (intro run_frame.frame_require_org run_frame.frame_bnd run_frame.frame_ret run_frame.frame_fail run_frame.frame_if within_update)
    (auto simp: row_defs workspace_evolves_def)

lemma within_write_completion:
  assumes "r \<in> set (runs d)" and "of_run rid org r" and "rw_Completion r = None" and "s \<in> set terminalStates"
    and "terminal r \<Longrightarrow> s = rn_State r"
  shows "from_db (evolve K X) d (write_completion new_id now rid org s c)"
  unfolding write_completion_def
  by (intro run_frame.from_bnd from_update_read run_frame.frame_bnd run_frame.frame_ret run_frame.frame_stmt)
    (use assms row_complete evolve_insert_call in auto)

lemma within_if: "(b \<Longrightarrow> within R m) \<Longrightarrow> (\<not> b \<Longrightarrow> within R n) \<Longrightarrow> within R (if b then m else n)"
  by simp

lemma within_CompleteRun: "within (evolve K X) (CompleteRun ctx new_id now rid c)"
  unfolding CompleteRun_def
proof (intro run_frame.frame_bnd run_frame.frame_from_context within_if run_frame.frame_fail within_fromI
    run_frame.from_tx run_frame.from_query_bnd, goal_cases)
  case (1 scope d)
  then have valid: "cm_State c \<in> set terminalStates" by blast
  show ?case
  proof (cases "find_run rid (s_OrgID scope) d")
    case (Some r)
    note r = find_runD[OF Some]
    have w: "from_db (evolve K X) d (write_completion new_id now rid (s_OrgID scope) s c)"
      if "rw_Completion r = None" "s \<in> set terminalStates" "terminal r \<Longrightarrow> s = rn_State r" for s
      using within_write_completion[of r d rid "s_OrgID scope" s] that r by blast
    show ?thesis
      unfolding Some option.case
      by (auto intro!: run_frame.from_query_bnd run_frame.from_fail run_frame.from_ret w simp: valid split: option.split)
  qed (simp add: run_frame.from_fail)
qed

section \<open>The cleanup\<close>

text \<open>
  What the operations of a cleanup before its acknowledgement may have done to the run it read:
  the run is still ended, and its grant's obligation is as it was.
\<close>

lemma evolve_keeps_obligation:
  assumes "evolve {} {} d d'" and "agents_wf d" and "q \<in> set (runs d)" and "rw_CleanupClaim q = Some c"
    and "q' \<in> set (runs d')" and "rn_ID q' = rn_ID q"
  shows "terminal q" and "terminal q'" and "rn_GrantCleanupPending q' = rn_GrantCleanupPending q"
    and "grant_key q' = grant_key q" and "rn_GrantCleanupPending q \<Longrightarrow> rn_GrantID q \<noteq> uuid_Nil"
proof -
  have q: "wf_row q" using assms(2,3) by (simp add: agents_wf_def)
  then show t: "terminal q" and p: "rn_GrantCleanupPending q \<Longrightarrow> rn_GrantID q \<noteq> uuid_Nil"
    using assms(4) unfolding wf_row_def by auto
  have "\<exists>b. (b \<in> set (runs d) \<or> creatable {} d b) \<and> run_evolves {} b q'"
    using assms(1,2,5) by (simp add: evolve_def)
  then obtain b where b: "b \<in> set (runs d)" "run_evolves {} b q'"
    by (auto simp: creatable_def)
  have "b = q"
    using same_run[OF assms(2) assms(3) b(1)] run_evolvesD(1)[OF b(2)] assms(6) by simp
  then have e: "run_evolves {} q q'" using b(2) by simp
  note D = run_evolvesD[OF e]
  show t': "terminal q'" using D(12) t by simp
  show k: "grant_key q' = grant_key q" by (rule D(6))
  show "rn_GrantCleanupPending q' = rn_GrantCleanupPending q"
  proof
    show "rn_GrantCleanupPending q" if "rn_GrantCleanupPending q'" using D(20)[OF t that] .
    show "rn_GrantCleanupPending q'" if "rn_GrantCleanupPending q"
      using D(21) t' p that k by (auto simp: grant_key_def)
  qed
qed

lemma within_workspace: "within (evolve K X) (cleanup_workspace ow ctx r)"
  unfolding cleanup_workspace_def
  by (auto intro!: run_frame.frame_bnd run_frame.frame_ret run_frame.frame_attempt within_Adopt within_Confirm
      split: option.split)

lemma within_release_part: "within (evolve K X) (cleanup_release ow org e1 e2 r)"
  unfolding cleanup_release_def by (auto intro!: run_rules)

lemma from_ack:
  assumes "evolve {} {} d0 d" and "agents_wf d0" and "q \<in> set (runs d0)" and "rw_CleanupClaim q = Some claim"
    and "rn_ID r = rn_ID q" and "revokeErr = (rn_GrantCleanupPending q \<and> grant_key q \<notin> K)"
  shows "from_db (evolve K X) d (ack_cleanup ctx now claim r revokeErr releaseErr workspaceErr)"
  unfolding ack_cleanup_def
proof (intro run_frame.from_bnd run_frame.frame_if run_frame.frame_bnd run_frame.frame_fail run_frame.frame_ret within_GetRun)
  show "from_db (evolve K X) d (stmt Sql (update_runs
    (\<lambda>q. of_run (rn_ID r) (rn_OrgID r) q \<and> rn_GrantID q = rn_GrantID r \<and> owes q \<and> rw_CleanupClaim q = Some claim)
    (ack_row revokeErr releaseErr workspaceErr now)))"
  proof (rule run_frame.from_stmt)
    fix n d' assume u: "update_runs (\<lambda>q. of_run (rn_ID r) (rn_OrgID r) q \<and> rn_GrantID q = rn_GrantID r \<and> owes q
        \<and> rw_CleanupClaim q = Some claim) (ack_row revokeErr releaseErr workspaceErr now) d = Inr (n, d')"
    show "evolve K X d d'"
    proof (rule evolve_update[OF u])
      fix q' assume q': "q' \<in> set (runs d)" "wf_row q'"
        and P: "of_run (rn_ID r) (rn_OrgID r) q' \<and> rn_GrantID q' = rn_GrantID r \<and> owes q' \<and> rw_CleanupClaim q' = Some claim"
      note k = evolve_keeps_obligation[OF assms(1-4) q'(1)]
      have "rn_ID q' = rn_ID q" using P assms(5) by simp
      note k = k[OF this]
      have "grant_key q \<in> K" if "rn_GrantCleanupPending q'" "\<not> revokeErr"
        using that assms(6) k(3) by blast
      moreover have "rn_GrantCleanupPending q'" if revokeErr using that assms(6) k(3) by blast
      ultimately show "wf_row (ack_row revokeErr releaseErr workspaceErr now q')
          \<and> run_evolves K q' (ack_row revokeErr releaseErr workspaceErr now q')"
        using q'(2) k(2,4) by (auto simp: row_defs ack_row_def)
    qed
  qed
qed

lemma ack_keeps_scopes: "within (same deleted_scopes) (ack_cleanup ctx now claim r e1 e2 e3)"
proof -
  have u: "same deleted_scopes d d'" if "update_runs P f d = Inr (n, d')" for P f d n d'
    using update_runs_Inr(1)[OF that] by (simp add: same_def)
  show ?thesis
    unfolding ack_cleanup_def GetRun_def
    by (auto intro!: same_frame.frame_rules same_frame.frame_from_context split: option.split elim: u)
qed

lemma cleanup_owned_evolves:
  assumes "q \<in> set (runs d)" and "rw_CleanupClaim q = Some claim" and "r = scan_run q p"
  shows "from_db (evolve (confirmed ow) X) d (cleanup_owned ow ts ctx scope claim r)"
  unfolding from_db_def
proof
  fix fs
  have r: "rn_ID r = rn_ID q" "rn_GrantCleanupPending r = rn_GrantCleanupPending q" "grant_key r = grant_key q"
    by (simp_all add: assms(3) scan_run_def run_cols.defs run.defs grant_key_def)
  define err where "err = (rn_GrantCleanupPending r \<and> \<not> grant_confirmed ow r)"
  have err: "err = (rn_GrantCleanupPending q \<and> grant_key q \<notin> confirmed ow)"
    by (simp add: err_def grant_confirmed_iff r)
  let ?op = "cleanup_owned ow ts ctx scope claim r"
  obtain x1 w1 where m1: "cleanup_workspace ow ctx r (d, fs) = (x1, w1)" by (cases "cleanup_workspace ow ctx r (d, fs)")
  have s1: "evolve K Y d (fst w1)" for K Y
    using within_run[OF within_workspace m1] by simp
  show "evolve (confirmed ow) X d (fst (snd (?op (d, fs))))"
  proof (cases x1)
    case (Inl e)
    then show ?thesis using s1 m1 by (simp add: cleanup_owned_def Let_def bnd_def)
  next
    case (Inr we)
    obtain x2 w2 where m2: "cleanup_release ow (s_OrgID scope) err we r w1 = (x2, w2)"
      by (cases "cleanup_release ow (s_OrgID scope) err we r w1")
    have s2: "evolve K Y d (fst w2)" for K Y
      using run_frame.frame_trans[OF s1 within_run[OF within_release_part m2]] .
    show ?thesis
    proof (cases x2)
      case (Inl e)
      then show ?thesis using s2 m1 m2 Inr by (simp add: cleanup_owned_def Let_def bnd_def flip: err_def)
    next
      case rel: (Inr re)
      have op: "?op (d, fs) = ack_cleanup ctx (ts 2) claim r err re we w2"
        using m1 m2 Inr rel by (simp add: cleanup_owned_def Let_def bnd_def flip: err_def)
      show ?thesis
      proof (cases "agents_wf d")
        case True
        obtain x3 w3 where m3: "ack_cleanup ctx (ts 2) claim r err re we w2 = (x3, w3)"
          by (cases "ack_cleanup ctx (ts 2) claim r err re we w2")
        have "evolve (confirmed ow) X (fst w2) (fst w3)"
          using from_dbD[OF from_ack[OF s2 True assms(1,2) r(1) err]] m3 by (metis prod.collapse)
        then show ?thesis
          using run_frame.frame_trans[OF s2] by (simp add: op m3)
      next
        case False
        have "set (deleted_scopes d) \<subseteq> set (deleted_scopes (fst w2))" using s2 by (simp add: evolve_def)
        then show ?thesis
          using False sameD[OF ack_keeps_scopes, where w = w2] by (simp add: op evolve_def)
      qed
    qed
  qed
qed


lemma from_GetRun_bnd:
  assumes "\<And>q p. q \<in> set (runs d) \<Longrightarrow> rn_ID q = rid \<Longrightarrow> find_run rid (s_OrgID scope) d = Some q \<Longrightarrow>
      from_db (evolve K X) d (k (scan_run q p))"
  shows "from_db (evolve K X) d (bnd (GetRun (Some scope) rid) k)"
  unfolding from_db_def
proof
  fix fs
  show "evolve K X d (fst (snd (bnd (GetRun (Some scope) rid) k (d, fs))))"
  proof -
    obtain x w1 where Pair: "GetRun (Some scope) rid (d, fs) = (x, w1)" by (cases "GetRun (Some scope) rid (d, fs)")
    show ?thesis
    proof (cases x)
      case (Inl e)
      then show ?thesis
        using within_run[OF within_GetRun Pair] Pair by (simp add: bnd_def)
    next
      case (Inr r)
      then obtain q p where q: "find_run rid (s_OrgID scope) d = Some q" "r = scan_run q p" "fst w1 = d"
        using Pair unfolding GetRun_def
        by (auto simp: run_simps from_context_def split: option.splits)
      then have "from_db (evolve K X) d (k r)"
        using assms find_runD by blast
      then show ?thesis
        using Pair Inr q(3) unfolding from_db_def by (simp add: bnd_def) (metis prod.collapse)
    qed
  qed
qed

lemma within_claimed: "within (evolve (confirmed ow) X) (cleanup_claimed ow ts (Some scope) scope claim rid)"
  unfolding cleanup_claimed_def
proof (intro within_fromI from_GetRun_bnd run_frame.from_query_bnd, goal_cases)
  case (1 d q p)
  then show ?case
    by (auto intro!: run_frame.from_fail cleanup_owned_evolves)
qed

lemma within_claim: "within (evolve K X) (claim_cleanup ctx scope claim now rid)"
  unfolding claim_cleanup_def
  by (intro run_frame.frame_bnd run_frame.frame_if run_frame.frame_ret run_frame.frame_fail within_GetRun within_update)
    (simp add: row_lease)

lemma within_cleanupRunGrant: "within (evolve (confirmed ow) X) (cleanupRunGrant ow ts new_claim ctx rid claim)"
proof (cases ctx)
  case None
  then show ?thesis by (simp add: cleanupRunGrant_def run_frame.frame_fail)
next
  case (Some scope)
  show ?thesis
    unfolding cleanupRunGrant_def Some
    by (auto intro!: run_frame.frame_bnd run_frame.frame_ret within_claimed within_claim split: option.split)
qed

lemma within_CleanupRunGrant: "within (evolve (confirmed ow) X) (CleanupRunGrant ow ts new_claim ctx rid)"
  unfolding CleanupRunGrant_def by (rule within_cleanupRunGrant)

end
