(* ===== verification/NF_AgentHistory.thy ===== *)
theory NF_AgentHistory
  imports NF_AgentLaws
begin

text \<open>
  Histories of the agent service: a command is an operation with its arguments, its owners'
  answers and the statements that fail; a history is a list of commands. What a run's
  contract (\<open>NF_AgentLaws\<close>) gives for every history: an ended run stays as it ended, receipts
  are written once, the revocation of a grant is owed until its owner confirms it, a deleted
  scope admits nothing.
\<close>

section \<open>The remaining operations\<close>

lemma within_batch: "within (evolve (confirmed ow) X) (cleanup_batch ow ts claim os)"
  by (induction os) (auto intro!: run_rules within_cleanupRunGrant)

lemma evolve_claim_due: "claim_due claim now d = Inr (os, d') \<Longrightarrow> evolve K X d d'"
proof -
  assume c: "claim_due claim now d = Inr (os, d')"
  let ?B = "due_cleanups now d"
  have t: "terminal r \<and> r \<in> set (runs d)" if "r \<in> set ?B" for r
    using that by (auto simp: due_cleanups_def nulls_first_def nulls_last_def dest!: in_set_takeD)
  obtain n where u: "update_runs (\<lambda>r. rn_ID r \<in> rn_ID ` set ?B) (lease_row claim now) d = Inr (n, d')"
    using c by (auto simp: claim_due_def Let_def split: sum.splits prod.splits)
  show ?thesis
  proof (cases "agents_wf d")
    case True
    show ?thesis
    proof (rule evolve_update[OF u])
      fix r assume r: "r \<in> set (runs d)" "rn_ID r \<in> rn_ID ` set ?B" "wf_row r"
      then obtain b where "b \<in> set ?B" "rn_ID b = rn_ID r" by auto
      then have "b = r" using same_run[OF True r(1)] t by blast
      then have "terminal r" using t \<open>b \<in> set ?B\<close> by blast
      then show "wf_row (lease_row claim now r) \<and> run_evolves K r (lease_row claim now r)"
        using r(3) row_lease by blast
    qed
  next
    case False
    then show ?thesis
      using update_runs_Inr(1)[OF u] by (simp add: evolve_def)
  qed
qed

lemma within_Reconcile: "within (evolve (confirmed ow) X) (ReconcileGrantCleanup ow ts claim now)"
  unfolding ReconcileGrantCleanup_def
  by (intro run_frame.frame_bnd run_frame.frame_stmt within_batch) (rule evolve_claim_due)

lemma within_SettleRun: "within (evolve (confirmed ow) X) (SettleRun ow ts new_claim now r state)"
  unfolding SettleRun_def Let_def by (intro run_rules within_GetRun within_SetRunState within_CleanupRunGrant)

lemma within_fail_expired: "within (evolve K X) (fail_expired now os)"
proof (induction os)
  case (Cons o' os)
  have "within (evolve K X) (stmt Sql (update_runs (\<lambda>r. of_run (fst (snd o')) (fst o') r \<and> lease_expired now r)
      (fail_row now ''admission replica lost before execution'')))"
    by (rule within_update) (auto simp: row_fail lease_expired_def)
  then show ?case unfolding fail_expired.simps using Cons by (rule run_frame.frame_bnd)
qed (simp add: run_frame.frame_ret)

lemma within_fail_stale: "within (evolve K X) (fail_stale grace now reason os)"
proof (induction os)
  case (Cons o' os)
  have "within (evolve K X) (attempt (stmt Sql (update_runs (\<lambda>r. of_run (fst (snd o')) (fst o') r \<and> rn_State r = ''running''
      \<and> rw_Completion r = None \<and> overdue grace now r) (fail_row now reason))))"
    by (intro run_frame.frame_attempt within_update) (auto simp: row_fail)
  with Cons show ?case by (auto intro!: run_frame.frame_bnd run_frame.frame_ret split: prod.split)
qed (simp add: run_frame.frame_ret)

lemma within_Recover: "within (evolve (confirmed ow) X) (RecoverOrphanedRuns ow ts claim reason grace now)"
  unfolding RecoverOrphanedRuns_def staleRunning_def
  by (auto intro!: run_rules within_fail_expired within_fail_stale within_Reconcile split: prod.split)

lemma within_cleanup_each: "within (evolve (confirmed ow) X) (cleanup_each ow ts cls ctx is)"
  by (induction "is") (simp_all add: run_frame.frame_ret run_frame.frame_bnd within_CleanupRunGrant)

lemma within_purgeOrg: "within (evolve K X) (agents_purgeOrg ctx)"
  unfolding agents_purgeOrg_def by (auto intro!: run_rules split: sum.split)

lemma within_fence_tx:
  "within (evolve K X) (tx Sql (bnd lockAdmission (\<lambda>_. bnd (update Sql (\<lambda>d. ((), fence_scope org repo d))) (\<lambda>_. ret (Commit ())))))"
  unfolding lockAdmission_def by (intro run_rules) (simp add: evolve_fence)

lemma within_purge_rows: "within (evolve K X) (purge_rows org repo)"
  unfolding purge_rows_def Let_def
  by (auto intro!: run_rules evolve_delete_calls evolve_delete_runs elim: evolve_delete_agents)

lemma within_PurgeRuns: "within (evolve (confirmed ow) X) (PurgeRuns ow ts cls ctx now repo)"
  unfolding PurgeRuns_def RunIDsToPurge_def
  by (intro run_frame.frame_bnd within_purgeOrg within_fence_tx within_update run_frame.frame_query within_cleanup_each
      run_frame.frame_tx within_purge_rows)
    (auto simp: row_cancel)

lemma within_Audit_Record: "within (evolve K X) (Record valid_json jsonb ctx new_id now e)"
  unfolding Record_def Let_def
  by (intro run_rules) (auto elim: evolve_upsert_call evolve_insert_event)

lemma within_Complete: "within (evolve K X) (Complete ctx now cid outcome)"
  unfolding Complete_def
  by (auto intro!: run_rules evolve_finish_call elim: evolve_insert_event)

lemma within_complete_all: "within (evolve K X) (complete_all ctx now cs)"
  by (induction cs) (simp_all add: run_frame.frame_ret run_frame.frame_bnd within_Complete)

lemma within_ReconcileRun: "within (evolve K X) (ReconcileRun ctx now run)"
  unfolding ReconcileRun_def by (intro run_rules within_complete_all)

lemma within_reconcile_all: "within (evolve K X) (reconcile_all now ps)"
  by (induction ps) (simp_all add: run_frame.frame_ret run_frame.frame_bnd within_ReconcileRun)

lemma within_publish_batch: "within (evolve K X) (publish_batch pub org run es)"
  by (induction es) (auto intro!: run_rules evolve_mark_published)

lemma within_publish_all: "within (evolve K X) (publish_all pub free ps)"
  by (induction ps) (auto intro!: run_rules within_publish_batch simp: publishRun_def)

lemma within_MaintainAudit: "within (evolve K X) (MaintainAudit pub free now)"
  unfolding MaintainAudit_def
  by (intro run_frame.frame_bnd run_frame.frame_query run_frame.frame_case_option run_frame.frame_ret
      within_reconcile_all within_publish_all)

lemma within_status: "within (evolve K X) m \<Longrightarrow> within (evolve K X) (with_status c m)"
  unfolding with_status_def by (rule run_frame.frame_wrap)

lemma within_parsed: "within (evolve K X) (agents_parseUUID parse raw)" "within (evolve K X) (agents_callerOrg ctx)"
  unfolding agents_parseUUID_def agents_callerOrg_def by (auto intro!: run_rules split: sum.split)

lemma within_admit: "within (evolve K X) (admit sv mar ctx r g i)"
  unfolding admit_def claim_item_def
  by (auto intro!: run_rules within_Freeze split: option.split)

lemma within_start_created:
  "within (evolve (confirmed (sv_Owners sv)) X) (start_created sv mar ts new_claim ctx now g r)"
  unfolding start_created_def
  by (auto intro!: run_rules within_admit within_SetRunState within_CleanupRunGrant split: option.split sum.split)

lemma within_StartRun:
  "new_run \<in> X \<Longrightarrow> within (evolve (confirmed (sv_Owners sv)) X)
     (StartRun parse text sv mar ts new_grant new_run new_claim ctx now req)"
  unfolding StartRun_def Let_def
  by (auto intro!: run_frame.frame_bnd run_frame.frame_fail run_frame.frame_from_context within_parsed within_status
      within_GetAgent within_CreateRun within_start_created split: option.split sum.split)

lemma within_drive: "within (evolve (confirmed ow) X) (driveToRunning ow ts new_claim now show_err r)"
  unfolding driveToRunning_def Let_def
  by (auto intro!: run_frame.frame_bnd run_frame.frame_ret run_frame.frame_attempt within_Acquire within_GetRun
      within_RecordSpend within_SetRunState within_CleanupRunGrant split: sum.split)

lemma within_CancelRun: "within (evolve (confirmed ow) X) (CancelRun parse ow ts new_claim ctx now raw)"
  unfolding CancelRun_def
  by (auto intro!: run_frame.frame_bnd within_parsed within_status within_GetRun within_SetRunState within_CleanupRunGrant)

section \<open>Commands\<close>

text \<open>Every operation that writes, except \<open>BranchLock.Release\<close>, which nothing in the program calls.\<close>

datatype agent_cmd =
    DoCreateAgent ctx uuid agent
  | DoStartRun "string \<Rightarrow> uuid option" "uuid \<Rightarrow> string" server "proto_item \<Rightarrow> string option" "nat \<Rightarrow> time" uuid uuid uuid ctx time start_request
  | DoCreateRun ctx uuid time run
  | DoDrive owners "nat \<Rightarrow> time" uuid time "agenterr fault \<Rightarrow> string" run
  | DoSetRunState ctx time uuid string
  | DoProvenance ctx uuid provenance
  | DoSpend ctx uuid spend
  | DoComplete ctx uuid time uuid completion
  | DoBeginWorkspace ctx uuid
  | DoRecordWorkspace ctx identity
  | DoConfirmWorkspace owners ctx uuid
  | DoCleanup owners "nat \<Rightarrow> time" uuid ctx uuid
  | DoReconcile owners "uuid \<Rightarrow> nat \<Rightarrow> time" uuid time
  | DoSettle owners "nat \<Rightarrow> time" uuid time run string
  | DoRecover owners "uuid \<Rightarrow> nat \<Rightarrow> time" uuid "time \<Rightarrow> string" time time
  | DoCancel "string \<Rightarrow> uuid option" owners "nat \<Rightarrow> time" uuid ctx time string
  | DoPurge owners "uuid \<Rightarrow> nat \<Rightarrow> time" "uuid \<Rightarrow> uuid" ctx time "uuid option"
  | DoRecord "string \<Rightarrow> bool" "string \<Rightarrow> string option" ctx uuid time entry
  | DoCompleteCall ctx time uuid string
  | DoMaintain "(tool_event \<Rightarrow> bool) option" "uuid \<Rightarrow> bool" time

abbreviation ignore :: "'a agent_op \<Rightarrow> unit agent_op" where
  "ignore m \<equiv> bnd m (\<lambda>_. ret ())"

fun agent_run :: "agent_cmd \<Rightarrow> unit agent_op" where
  "agent_run (DoCreateAgent ctx i a) = ignore (CreateAgent ctx i a)"
| "agent_run (DoStartRun parse text sv mar ts g n c ctx now req) = ignore (StartRun parse text sv mar ts g n c ctx now req)"
| "agent_run (DoCreateRun ctx n now r) = ignore (CreateRun ctx n now r)"
| "agent_run (DoDrive ow ts c now sh r) = ignore (driveToRunning ow ts c now sh r)"
| "agent_run (DoSetRunState ctx now rid s) = SetRunState ctx now rid s"
| "agent_run (DoProvenance ctx rid p) = RecordProvenance ctx rid p"
| "agent_run (DoSpend ctx rid sp) = RecordSpend ctx rid sp"
| "agent_run (DoComplete ctx i now rid c) = ignore (CompleteRun ctx i now rid c)"
| "agent_run (DoBeginWorkspace ctx rid) = BeginWorkspace ctx rid"
| "agent_run (DoRecordWorkspace ctx i) = RecordWorkspaceCleanup ctx i"
| "agent_run (DoConfirmWorkspace ow ctx rid) = ConfirmWorkspaceCleanup ow ctx rid"
| "agent_run (DoCleanup ow ts c ctx rid) = CleanupRunGrant ow ts c ctx rid"
| "agent_run (DoReconcile ow ts c now) = ignore (ReconcileGrantCleanup ow ts c now)"
| "agent_run (DoSettle ow ts c now r s) = SettleRun ow ts c now r s"
| "agent_run (DoRecover ow ts c reason grace now) = ignore (RecoverOrphanedRuns ow ts c reason grace now)"
| "agent_run (DoCancel parse ow ts c ctx now raw) = CancelRun parse ow ts c ctx now raw"
| "agent_run (DoPurge ow ts cls ctx now repo) = ignore (PurgeRuns ow ts cls ctx now repo)"
| "agent_run (DoRecord v j ctx i now e) = ignore (Record v j ctx i now e)"
| "agent_run (DoCompleteCall ctx now cid oc) = Complete ctx now cid oc"
| "agent_run (DoMaintain pub free now) = MaintainAudit pub free now"

text \<open>The owners a command may ask, and the identifiers it may create a run under.\<close>

fun cmd_confirms :: "agent_cmd \<Rightarrow> (issuance_intent option \<times> uuid) set" where
  "cmd_confirms (DoStartRun parse text sv mar ts g n c ctx now req) = confirmed (sv_Owners sv)"
| "cmd_confirms (DoDrive ow ts c now sh r) = confirmed ow"
| "cmd_confirms (DoCleanup ow ts c ctx rid) = confirmed ow"
| "cmd_confirms (DoReconcile ow ts c now) = confirmed ow"
| "cmd_confirms (DoSettle ow ts c now r s) = confirmed ow"
| "cmd_confirms (DoRecover ow ts c reason grace now) = confirmed ow"
| "cmd_confirms (DoCancel parse ow ts c ctx now raw) = confirmed ow"
| "cmd_confirms (DoPurge ow ts cls ctx now repo) = confirmed ow"
| "cmd_confirms _ = {}"

fun cmd_creates :: "agent_cmd \<Rightarrow> uuid set" where
  "cmd_creates (DoStartRun parse text sv mar ts g n c ctx now req) = {n}"
| "cmd_creates (DoCreateRun ctx n now r) = {n}"
| "cmd_creates _ = {}"

definition agent_exec :: "agent_cmd \<times> bool list \<Rightarrow> agentdb \<Rightarrow> agentdb" where
  "agent_exec c d = fst (snd (agent_run (fst c) (d, snd c)))"

lemma within_agent_run: "within (evolve (cmd_confirms c) (cmd_creates c)) (agent_run c)"
  by (cases c) (auto intro!: run_frame.frame_bnd run_frame.frame_ret within_CreateAgent within_StartRun within_CreateRun
      within_drive within_SetRunState within_RecordProvenance within_RecordSpend within_CompleteRun within_Begin within_Record
      within_Confirm within_CleanupRunGrant within_Reconcile within_SettleRun within_Recover within_CancelRun within_PurgeRuns
      within_Audit_Record within_Complete within_MaintainAudit)

lemma agent_exec_evolves: "evolve (cmd_confirms (fst c)) (cmd_creates (fst c)) d (agent_exec c d)"
  unfolding agent_exec_def using withinD[OF within_agent_run, of "fst c" "(d, snd c)"] by simp

lemma history_evolves:
  "evolve (\<Union>c \<in> set cs. cmd_confirms (fst c)) (\<Union>c \<in> set cs. cmd_creates (fst c)) d (fold agent_exec cs d)"
proof (induction cs arbitrary: d)
  case Nil
  then show ?case by (simp add: run_frame.frame_refl)
next
  case (Cons c cs)
  show ?case
    unfolding fold.simps o_apply
    by (rule run_frame.frame_trans[OF evolve_mono[OF agent_exec_evolves] evolve_mono[OF Cons]]) auto
qed

end
