(* ===== verification/NF_AgentProps.thy ===== *)
theory NF_AgentProps
  imports NF_AgentHistory
begin

text \<open>
  The properties of agent runs: over every history, how a run ends, its receipt and what it
  owes; the deletion of a scope; who may write the branch a run holds; the paging of a run's
  events.
\<close>

section \<open>One run through a history\<close>

definition runs_created :: "(agent_cmd \<times> bool list) list \<Rightarrow> uuid set" where
  "runs_created cs = (\<Union>c \<in> set cs. cmd_creates (fst c))"

lemma history_base:
  assumes "agents_wf d" and "r' \<in> set (runs (fold agent_exec cs d))"
  obtains r where "r \<in> set (runs d) \<or> creatable (runs_created cs) d r"
    and "run_evolves (\<Union>c \<in> set cs. cmd_confirms (fst c)) r r'"
  using history_evolves[of cs d] assms unfolding evolve_def runs_created_def by blast

lemma history_run:
  assumes "agents_wf d" and "r \<in> set (runs d)" and "rn_ID r \<notin> runs_created cs"
    and "r' \<in> set (runs (fold agent_exec cs d))" and "rn_ID r' = rn_ID r"
  shows "run_evolves (\<Union>c \<in> set cs. cmd_confirms (fst c)) r r'"
proof -
  obtain b where b: "b \<in> set (runs d) \<or> creatable (runs_created cs) d b"
      "run_evolves (\<Union>c \<in> set cs. cmd_confirms (fst c)) b r'"
    using history_base[OF assms(1,4)] .
  have "rn_ID b = rn_ID r" using run_evolvesD(1)[OF b(2)] assms(5) by simp
  with b(1) assms(3) have "b \<in> set (runs d)" by (auto simp: creatable_def)
  with same_run[OF assms(1,2)] \<open>rn_ID b = rn_ID r\<close> have "b = r" by blast
  with b(2) show ?thesis by simp
qed

lemma history_wf: "agents_wf d \<Longrightarrow> agents_wf (fold agent_exec cs d)"
  using history_evolves[of cs d] by (simp add: evolve_def)

text \<open>
  C15. A run that has ended stays as it ended through any further history: its state and the time of
  its end, its agent, repository and branch, its completion receipt and its frozen Work item
  never change, and its measured spend never shrinks. The history must not draw the run's
  identifier for a new run, as fresh identifiers do not.
\<close>

theorem ended_run_stays_as_it_ended:
  assumes "agents_wf d" and "r \<in> set (runs d)" and "terminal r" and "rn_ID r \<notin> runs_created cs"
    and "r' \<in> set (runs (fold agent_exec cs d))" and "rn_ID r' = rn_ID r"
  shows "rn_State r' = rn_State r \<and> rn_EndedAt r' = rn_EndedAt r \<and> rn_AgentID r' = rn_AgentID r
    \<and> rn_RepoID r' = rn_RepoID r \<and> rn_Branch r' = rn_Branch r
    \<and> (rw_Completion r \<noteq> None \<longrightarrow> rw_Completion r' = rw_Completion r)
    \<and> (rn_WorkItemSnapshot r \<noteq> None \<longrightarrow> rn_WorkItemSnapshot r' = rn_WorkItemSnapshot r)
    \<and> rn_TokensUsed r \<le> rn_TokensUsed r' \<and> rn_CostUsedMicros r \<le> rn_CostUsedMicros r'"
proof -
  have "rn_State r \<noteq> ''queued''" using assms(3) by auto
  then show ?thesis
    using run_evolvesD[OF history_run[OF assms(1,2,4,5,6)]] assms(3) by blast
qed

text \<open>
  C13. Once a run has ended, its grant's revocation is owed until the owner of the grant confirms it:
  when a history leaves an ended run that carries a grant and owes no revocation, then either the
  run was so before, or a command of the history asked the grant's owner about this very grant (by
  its issuance, or by its identifier when there is none) and the owner confirmed. No failure of a
  statement, lost claim or retry clears the obligation without that answer.
\<close>

theorem revocation_is_owed_until_confirmed:
  assumes "agents_wf d" and "r' \<in> set (runs (fold agent_exec cs d))" and "terminal r'"
    and "rn_GrantID r' \<noteq> uuid_Nil" and "\<not> rn_GrantCleanupPending r'"
  shows "(\<exists>r \<in> set (runs d). rn_ID r = rn_ID r' \<and> terminal r \<and> \<not> rn_GrantCleanupPending r)
    \<or> (\<exists>c \<in> set cs. grant_key r' \<in> cmd_confirms (fst c))"
proof -
  obtain r where r: "r \<in> set (runs d) \<or> creatable (runs_created cs) d r"
      "run_evolves (\<Union>c \<in> set cs. cmd_confirms (fst c)) r r'"
    using history_base[OF assms(1,2)] .
  note D = run_evolvesD[OF r(2)]
  from D(21)[OF assms(3,4,5)] show ?thesis
  proof
    assume t: "terminal r \<and> \<not> rn_GrantCleanupPending r"
    with r(1) have "r \<in> set (runs d)" by (auto simp: creatable_def fresh_row_def)
    with t D(1) show ?thesis by metis
  qed (use D(6) in auto)
qed

section \<open>Completion\<close>

lemma CompleteRun_Inr:
  assumes "CompleteRun (Some s) i now rid c w = (Inr st, w')"
  obtains r where "find_run rid (s_OrgID s) (fst w) = Some r" and "cm_State c \<in> set terminalStates"
    and "cm_State c = ''succeeded'' \<longrightarrow> \<not> unresolved_calls (s_OrgID s) rid (fst w) \<and> \<not> rn_WorkspaceCleanupPending r"
    and "rw_Completion r = Some c \<and> st = rn_State r \<and> fst w' = fst w
      \<or> rw_Completion r = None \<and> st = (if terminal r then rn_State r else cm_State c)
        \<and> fst w' = (fst w)\<lparr>runs := update_rows (of_run rid (s_OrgID s)) (complete_row now st c) (runs (fst w)),
             tool_calls := tool_calls (fst w) @ [summary_call i rid (s_OrgID s) now st c]\<rparr>"
  using assms unfolding CompleteRun_def write_completion_def
  by (auto simp: run_simps insert_call_def update_runs_Inr(1) split: if_splits option.splits
      elim!: tx_cases dest!: update_runs_Inr(1))

lemma complete_row_facts:
  "rw_Completion (complete_row now st c r) = Some c" "rn_State (complete_row now st c r) = st"
  "rn_ExecutionFinished (complete_row now st c r)" "rn_ID (complete_row now st c r) = rn_ID r"
  "rn_OrgID (complete_row now st c r) = rn_OrgID r"
  "rn_WorkspaceCleanupPending (complete_row now st c r) = rn_WorkspaceCleanupPending r"
  by (simp_all add: complete_row_def Let_def)

text \<open>The row a completion leaves, and that the run's evidence is what it was.\<close>

lemma CompleteRun_row:
  assumes "agents_wf (fst w)" and "CompleteRun (Some s) i now rid c w = (Inr st, w')"
  obtains r where "find_run rid (s_OrgID s) (fst w') = Some r" and "rw_Completion r = Some c" and "rn_State r = st"
    and "cm_State c \<in> set terminalStates"
    and "cm_State c = ''succeeded'' \<longrightarrow> \<not> unresolved_calls (s_OrgID s) rid (fst w') \<and> \<not> rn_WorkspaceCleanupPending r"
proof -
  obtain r where r: "find_run rid (s_OrgID s) (fst w) = Some r" "cm_State c \<in> set terminalStates"
    "cm_State c = ''succeeded'' \<longrightarrow> \<not> unresolved_calls (s_OrgID s) rid (fst w) \<and> \<not> rn_WorkspaceCleanupPending r"
    "rw_Completion r = Some c \<and> st = rn_State r \<and> fst w' = fst w
      \<or> rw_Completion r = None \<and> st = (if terminal r then rn_State r else cm_State c)
        \<and> fst w' = (fst w)\<lparr>runs := update_rows (of_run rid (s_OrgID s)) (complete_row now st c) (runs (fst w)),
             tool_calls := tool_calls (fst w) @ [summary_call i rid (s_OrgID s) now st c]\<rparr>"
    using CompleteRun_Inr[OF assms(2)] .
  from r(4) show thesis
  proof
    assume "rw_Completion r = Some c \<and> st = rn_State r \<and> fst w' = fst w"
    with r that[of r] show thesis by simp
  next
    assume new: "rw_Completion r = None \<and> st = (if terminal r then rn_State r else cm_State c)
        \<and> fst w' = (fst w)\<lparr>runs := update_rows (of_run rid (s_OrgID s)) (complete_row now st c) (runs (fst w)),
             tool_calls := tool_calls (fst w) @ [summary_call i rid (s_OrgID s) now st c]\<rparr>"
    then have w': "fst w' = (fst w)\<lparr>runs := update_rows (of_run rid (s_OrgID s)) (complete_row now st c) (runs (fst w)),
             tool_calls := tool_calls (fst w) @ [summary_call i rid (s_OrgID s) now st c]\<rparr>" by blast
    have f: "find_run rid (s_OrgID s) (fst w') = Some (complete_row now st c r)"
    proof -
      have "runs (fst w') = update_rows (of_run rid (s_OrgID s)) (complete_row now st c) (runs (fst w))"
        by (simp add: w')
      then have "find_run rid (s_OrgID s) (fst w') = map_option (\<lambda>q. if of_run rid (s_OrgID s) q then complete_row now st c q else q)
          (find_run rid (s_OrgID s) (fst w))"
        unfolding find_run_def by (simp add: find_update_rows_same complete_row_facts)
      then show ?thesis using r(1) find_runD[OF r(1)] by simp
    qed
    have u: "unresolved_calls (s_OrgID s) rid (fst w') = unresolved_calls (s_OrgID s) rid (fst w)"
      by (auto simp: unresolved_calls_def w' summary_call_def)
    show thesis
      by (rule that[OF f]) (use r u in \<open>simp_all add: complete_row_facts\<close>)
  qed
qed

text \<open>
  C16. A completion that is acknowledged is recorded: the run has ended in the returned state, its
  receipt is the given one and its execution is marked finished. A success is acknowledged only
  when no tool call of the run is pending or unavailable and no workspace awaits teardown. Retrying
  the very same completion acknowledges it again and changes nothing, a different one is refused,
  and through any further history the receipt and the state stay.
\<close>

theorem completion_is_evidenced_and_final:
  assumes "agents_wf (fst w)" and "CompleteRun (Some s) i now rid c w = (Inr st, w')"
  shows "\<exists>r \<in> set (runs (fst w')). rn_ID r = rid \<and> rn_OrgID r = s_OrgID s
      \<and> rw_Completion r = Some c \<and> rn_State r = st \<and> terminal r \<and> rn_ExecutionFinished r
      \<and> (cm_State c = ''succeeded'' \<longrightarrow> \<not> unresolved_calls (s_OrgID s) rid (fst w') \<and> \<not> rn_WorkspaceCleanupPending r)
      \<and> (\<forall>i2 now2. CompleteRun (Some s) i2 now2 rid c (fst w', []) = (Inr st, (fst w', [])))
      \<and> (\<forall>c2 i2 now2 fs. c2 \<noteq> c \<longrightarrow> (\<exists>e. fst (CompleteRun (Some s) i2 now2 rid c2 (fst w', fs)) = Inl e))
      \<and> (\<forall>cs. \<forall>r' \<in> set (runs (fold agent_exec cs (fst w'))). rid \<notin> runs_created cs \<and> rn_ID r' = rid \<longrightarrow>
           rw_Completion r' = Some c \<and> rn_State r' = st)"
proof -
  obtain r where r: "find_run rid (s_OrgID s) (fst w') = Some r" "rw_Completion r = Some c" "rn_State r = st"
    "cm_State c \<in> set terminalStates"
    "cm_State c = ''succeeded'' \<longrightarrow> \<not> unresolved_calls (s_OrgID s) rid (fst w') \<and> \<not> rn_WorkspaceCleanupPending r"
    using CompleteRun_row[OF assms] .
  note f = find_runD[OF r(1)]
  have wf': "agents_wf (fst w')"
    using within_run[OF within_CompleteRun assms(2)] assms(1) by (simp add: evolve_def)
  then have t: "terminal r" "rn_ExecutionFinished r"
    using f r(2) by (auto simp: agents_wf_def wf_row_def)
  have retry: "CompleteRun (Some s) i2 now2 rid c (fst w', []) = (Inr st, (fst w', []))" for i2 now2
  proof -
    have v: "0 \<le> sp_Tokens (cm_Spend c)" "0 \<le> sp_CostMicros (cm_Spend c)"
      using assms(2) by (auto simp: CompleteRun_def run_simps split: if_splits)
    show ?thesis
      using r f v by (simp add: CompleteRun_def op_defs)
  qed
  have other: "\<exists>e. fst (CompleteRun (Some s) i2 now2 rid c2 (fst w', fs)) = Inl e" if "c2 \<noteq> c" for c2 i2 now2 fs
  proof (rule ccontr)
    assume n: "\<not> ?thesis"
    obtain x v where xv: "CompleteRun (Some s) i2 now2 rid c2 (fst w', fs) = (x, v)"
      by (cases "CompleteRun (Some s) i2 now2 rid c2 (fst w', fs)")
    with n obtain st2 where "x = Inr st2" by (cases x) auto
    with xv have "CompleteRun (Some s) i2 now2 rid c2 (fst w', fs) = (Inr st2, v)" by simp
    from CompleteRun_Inr[OF this] obtain q where "find_run rid (s_OrgID s) (fst w') = Some q"
      "rw_Completion q = Some c2 \<or> rw_Completion q = None" by auto
    with r that show False by simp
  qed
  have final: "rw_Completion r' = Some c \<and> rn_State r' = st"
    if "r' \<in> set (runs (fold agent_exec cs (fst w')))" "rid \<notin> runs_created cs" "rn_ID r' = rid" for cs r'
    using run_evolvesD(12,14)[OF history_run[OF wf', of r cs r']] f t r that by auto
  show ?thesis
    using f r t retry other final by (intro bexI[of _ r]) blast+
qed

section \<open>Deletion\<close>

lemma fence_stays: "fenced org repo d \<Longrightarrow> fenced org repo (fold agent_exec cs d)"
  using history_evolves[of cs d] by (auto simp: evolve_def fenced_def)

lemma CreateRun_fenced:
  assumes "fenced (rn_OrgID r0) (rn_RepoID r0) d"
  shows "\<exists>e. fst (CreateRun ctx new_id now r0 (d, fs)) = Inl e"
    and "fst (snd (CreateRun ctx new_id now r0 (d, fs))) = d"
proof -
  let ?x = "CreateRun ctx new_id now r0 (d, fs)"
  have n: "\<not> ?x = (Inr r, w)" for r w
    using assms by (auto simp: CreateRun_def allowAdmission_def lockAdmission_def run_simps elim!: tx_cases)
  then obtain e where e: "?x = (Inl e, snd ?x)" by (cases ?x; cases "fst ?x") auto
  then show "\<exists>e. fst ?x = Inl e" by (metis fst_conv)
  show "fst (snd ?x) = d"
    using e by (auto simp: CreateRun_def run_simps require_org_def split: sum.splits dest!: tx_Inl_db)
qed

lemma purge_rows_Inr:
  assumes "purge_rows org repo w = (Inr (Commit n), w')"
  shows "\<not> (\<exists>r \<in> set (runs (fst w')). in_purge org repo r)"
    and "repo = None \<Longrightarrow> \<not> (\<exists>a \<in> set (agents (fst w')). ag_OrgID a = org)"
  using assms
  by (auto simp: purge_rows_def run_simps Let_def delete_agents_def split: if_splits)

lemma PurgeRuns_Inr:
  assumes "PurgeRuns ow ts cls (Some s) now repo w = (Inr n, w')"
  shows "fenced (s_OrgID s) (case repo of None \<Rightarrow> uuid_Nil | Some u \<Rightarrow> u) (fst w')"
    and "\<not> (\<exists>r \<in> set (runs (fst w')). in_purge (s_OrgID s) repo r)"
    and "repo = None \<Longrightarrow> \<not> (\<exists>a \<in> set (agents (fst w')). ag_OrgID a = s_OrgID s)"
proof -
  let ?org = "s_OrgID s"
  let ?rest = "bnd (stmt Sql (update_runs (\<lambda>r. in_purge ?org repo r \<and> (rn_State r = ''queued'' \<or> rn_State r = ''running''))
            (cancel_row now))) (\<lambda>_.
     bnd (RunIDsToPurge (Some s) repo) (\<lambda>ids.
     bnd (cleanup_each ow ts cls (Some s) ids) (\<lambda>_.
     tx Sql (purge_rows ?org repo))))"
  obtain w1 where f: "tx Sql (bnd lockAdmission (\<lambda>_. bnd (update Sql (\<lambda>d. ((), fence_scope ?org repo d))) (\<lambda>_. ret (Commit ())))) w = (Inr (), w1)"
    and rest: "?rest w1 = (Inr n, w')"
    using assms unfolding PurgeRuns_def by (auto simp: agents_purgeOrg_def run_simps split: if_splits)
  have "fenced ?org (case repo of None \<Rightarrow> uuid_Nil | Some u \<Rightarrow> u) (fst w1)"
    using f by (auto simp: run_simps lockAdmission_def fence_scope_def fenced_def Let_def split: option.splits if_splits)
  moreover have W: "within (evolve (confirmed ow) {}) ?rest"
    unfolding RunIDsToPurge_def
    by (intro run_frame.frame_bnd within_purgeOrg within_update run_frame.frame_query within_cleanup_each
      run_frame.frame_tx within_purge_rows) (auto simp: row_cancel)
  ultimately show "fenced ?org (case repo of None \<Rightarrow> uuid_Nil | Some u \<Rightarrow> u) (fst w')"
    using withinD[OF W, where w = w1] rest by (auto simp: evolve_def fenced_def)
  obtain w2 where t: "tx Sql (purge_rows ?org repo) w2 = (Inr n, w')"
    using rest unfolding bnd_Inr by blast
  have "\<not> (m = (Inr (Abort n), v))" if "m = purge_rows ?org repo x" for m v x
    using that by (auto simp: purge_rows_def run_simps Let_def split: if_splits)
  with t obtain v where "purge_rows ?org repo (fst w2, tl (snd w2)) = (Inr (Commit n), v)" "fst w' = fst v"
    by (elim tx_cases) auto
  then show "\<not> (\<exists>r \<in> set (runs (fst w')). in_purge ?org repo r)"
    and "repo = None \<Longrightarrow> \<not> (\<exists>a \<in> set (agents (fst w')). ag_OrgID a = ?org)"
    using purge_rows_Inr[of ?org repo "(fst w2, tl (snd w2))" n v] by simp_all
qed

text \<open>
  C17. A deletion is for good. When the purge of an organization's or of a repository's runs has
  succeeded, its runs are gone, and after any further history every creation of a run in that
  scope fails and changes nothing; when the whole organization was purged, no run of it ever
  exists again, a late start included.
\<close>

theorem deleted_scope_admits_nothing:
  assumes "PurgeRuns ow ts cls (Some s) now repo w = (Inr n, w')" and "agents_wf (fst w)"
    and "d = fold agent_exec cs (fst w')"
  shows "\<not> (\<exists>r \<in> set (runs (fst w')). in_purge (s_OrgID s) repo r)
    \<and> (\<forall>ctx i t r0 fs. rn_OrgID r0 = s_OrgID s \<and> (repo = None \<or> repo = Some (rn_RepoID r0)) \<longrightarrow>
         (\<exists>e. fst (CreateRun ctx i t r0 (d, fs)) = Inl e) \<and> fst (snd (CreateRun ctx i t r0 (d, fs))) = d)
    \<and> (repo = None \<longrightarrow> \<not> (\<exists>r \<in> set (runs d). rn_OrgID r = s_OrgID s))"
proof (intro conjI allI impI)
  note p = PurgeRuns_Inr[OF assms(1)]
  have f: "fenced (s_OrgID s) (case repo of None \<Rightarrow> uuid_Nil | Some u \<Rightarrow> u) d"
    unfolding assms(3) by (rule fence_stays[OF p(1)])
  show "\<not> (\<exists>r \<in> set (runs (fst w')). in_purge (s_OrgID s) repo r)" by (rule p(2))
  fix ctx i t fs and r0 :: run
  assume r0: "rn_OrgID r0 = s_OrgID s \<and> (repo = None \<or> repo = Some (rn_RepoID r0))"
  then have "fenced (rn_OrgID r0) (rn_RepoID r0) d" using f by (auto simp: fenced_def)
  from CreateRun_fenced[OF this]
  show "\<exists>e. fst (CreateRun ctx i t r0 (d, fs)) = Inl e" and "fst (snd (CreateRun ctx i t r0 (d, fs))) = d" .
next
  note p = PurgeRuns_Inr[OF assms(1)]
  assume none: "repo = None"
  have wf: "agents_wf (fst w')"
    using within_run[OF within_PurgeRuns assms(1)] assms(2) by (simp add: evolve_def)
  show "\<not> (\<exists>r \<in> set (runs d). rn_OrgID r = s_OrgID s)"
  proof
    assume "\<exists>r \<in> set (runs d). rn_OrgID r = s_OrgID s"
    then obtain r' where r': "r' \<in> set (runs (fold agent_exec cs (fst w')))" "rn_OrgID r' = s_OrgID s"
      using assms(3) by blast
    obtain r where r: "r \<in> set (runs (fst w')) \<or> creatable (runs_created cs) (fst w') r"
      "run_evolves (\<Union>c \<in> set cs. cmd_confirms (fst c)) r r'"
      using history_base[OF wf r'(1)] .
    have "rn_OrgID r = s_OrgID s" using run_evolvesD(2)[OF r(2)] r'(2) by simp
    with r(1) p none show False by (auto simp: creatable_def in_purge_def fenced_def)
  qed
qed

section \<open>Who may write a held branch\<close>

lemma digits_dec: "list_all is_digit (dec n)"
proof (induction n rule: dec.induct)
  case (1 n)
  have d: "is_digit (char_of (48 + k))" if "k < 10" for k :: nat
    using that of_char_digit[of k] by (simp add: is_digit_def)
  show ?case
  proof (cases "n < 10")
    case True
    with d show ?thesis by (simp add: dec.simps[of n])
  next
    case False
    with 1 d[of "n mod 10"] show ?thesis by (simp add: dec.simps[of n])
  qed
qed

lemma no_digit: "\<not> is_digit c \<Longrightarrow> c \<notin> set (dec n)"
  using digits_dec[of n] by (auto simp: list_all_iff)

lemma key_no_slash: "CHR ''/'' \<notin> set (item_key n)"
  using no_digit[of "CHR ''/''" n] by (simp add: item_key_def is_digit_def)

lemma LockPrefix_RunBranch: "LockPrefix (RunBranch (p @ ''/'')) = p @ ''/''"
proof -
  have "RunBranch (p @ ''/'') = (p @ ''/'') @ runBranchLeaf" by (simp add: RunBranch_def)
  moreover have "suffix (''/'' @ runBranchLeaf) ((p @ ''/'') @ runBranchLeaf)" by (simp add: suffix_def)
  ultimately show ?thesis by (simp only: LockPrefix_def if_True TrimSuffix_append)
qed

text \<open>Two keys without a slash, each followed by one, at the start of the same text.\<close>

lemma slash_prefix_eq:
  "prefix (x @ c # u) s \<Longrightarrow> prefix (y @ c # v) s \<Longrightarrow> c \<notin> set x \<Longrightarrow> c \<notin> set y \<Longrightarrow> x = y"
proof (induction x arbitrary: y s)
  case Nil
  then show ?case by (cases y) (auto simp: prefix_def)
next
  case (Cons a x)
  then show ?case by (cases y; cases s) auto
qed

definition key_prefix :: "nat \<Rightarrow> string" where
  "key_prefix n = BranchNamespace @ item_key n @ ''/''"

lemma LockPrefix_key: "LockPrefix (RunBranch (key_prefix n)) = key_prefix n"
  using LockPrefix_RunBranch[of "BranchNamespace @ item_key n"] by (simp add: key_prefix_def)

lemma RunBranch_key: "RunBranch (key_prefix n) = key_prefix n @ runBranchLeaf"
  by (simp add: key_prefix_def RunBranch_def suffix_def)

lemma covers_key: "rn_Branch q = RunBranch (key_prefix n) \<Longrightarrow> covers b q \<longleftrightarrow> prefix (key_prefix n) b"
proof -
  assume b: "rn_Branch q = RunBranch (key_prefix n)"
  have "RunBranch (key_prefix n) \<noteq> ''''" "prefix (key_prefix n) (RunBranch (key_prefix n))"
    unfolding RunBranch_key by (simp_all add: runBranchLeaf_def)
  then show ?thesis by (auto simp: covers_def b LockPrefix_key)
qed

lemma key_prefix_separate: "prefix (key_prefix m) b \<Longrightarrow> prefix (key_prefix n) b \<Longrightarrow> m = n"
proof -
  assume "prefix (key_prefix m) b" "prefix (key_prefix n) b"
  then obtain s where "prefix (item_key m @ ''/'') s" "prefix (item_key n @ ''/'') s"
    by (auto simp: key_prefix_def prefix_def)
  then have "item_key m = item_key n"
    using slash_prefix_eq[of "item_key m" "CHR ''/''" "[]" s "item_key n" "[]"] key_no_slash by simp
  then show "m = n" by simp
qed

text \<open>The branches of the running runs of a repository are those of the work service's keys.\<close>

definition keyed_branches :: "uuid \<Rightarrow> uuid \<Rightarrow> agentdb \<Rightarrow> bool" where
  "keyed_branches org repo d \<longleftrightarrow> (\<forall>q \<in> set (runs d). rn_State q = ''running'' \<and> rn_OrgID q = org \<and> rn_RepoID q = repo
     \<longrightarrow> (\<exists>n. rn_Branch q = RunBranch (key_prefix n)))"

lemma running_unique:
  assumes "branch_index rs" and "q \<in> set rs" and "r \<in> set rs" and "rn_State q = ''running''" and "rn_State r = ''running''"
    and "rn_OrgID q = rn_OrgID r" and "rn_RepoID q = rn_RepoID r" and "rn_Branch q = rn_Branch r"
  shows "q = r"
  using assms unfolding branch_index_def distinct_map inj_on_def by auto

lemma check_finds:
  assumes "agents_wf d" and "keyed_branches (s_OrgID s) repo d"
    and "r \<in> set (runs d)" and "rn_State r = ''running''" and "rn_OrgID r = s_OrgID s" and "rn_RepoID r = repo"
    and "rn_Branch r = RunBranch (key_prefix m)" and "prefix (key_prefix m) b"
  shows "List.find (covers b) (filter (\<lambda>q. rn_OrgID q = s_OrgID s \<and> rn_RepoID q = repo \<and> rn_State q = ''running'') (runs d)) = Some r"
    (is "List.find _ ?rs = _")
proof -
  have r: "r \<in> set ?rs" "covers b r" using assms covers_key[OF assms(7)] by auto
  then obtain q where q: "List.find (covers b) ?rs = Some q" using find_None_iff'[of "covers b" ?rs] by (cases "List.find (covers b) ?rs") auto
  then have q': "q \<in> set (runs d)" "rn_OrgID q = s_OrgID s" "rn_RepoID q = repo" "rn_State q = ''running''" "covers b q"
    using find_Some_in[OF q] by auto
  then obtain n where n: "rn_Branch q = RunBranch (key_prefix n)" using assms(2) unfolding keyed_branches_def by blast
  then have "n = m" using covers_key[OF n] q'(5) key_prefix_separate assms(8) by blast
  then have "q = r"
    using running_unique[of "runs d" q r] assms q' n by (simp add: agents_wf_def)
  with q show ?thesis by simp
qed

text \<open>
  C14. The lock of a running run covers everything its grant lets its agent write, and nobody else:
  where the branches of the repository's running runs are those \<open>StartRun\<close> gives to the keys
  of the work service, a ref which the run's grant admits is reported as held by this run
  under the grant's prefix, and of all actors exactly the run's own agent passes the check.
\<close>

theorem lock_admits_only_the_holder:
  assumes "agents_wf d" and "keyed_branches (s_OrgID s) repo d"
    and "r \<in> set (runs d)" and "rn_State r = ''running''" and "rn_OrgID r = s_OrgID s" and "rn_RepoID r = repo"
    and "g_WriteBranch g = key_prefix m" and "rn_Branch r = RunBranch (g_WriteBranch g)"
    and "CanWriteRef g ref = Inr ()"
  shows "\<exists>h. Check (Some s) repo ref (d, []) = (Inr (Some h), (d, []))
    \<and> h_RunID h = rn_ID r \<and> h_Prefix h = g_WriteBranch g
    \<and> (\<forall>actor. RefuseWrite actor ref h = Inr () \<longleftrightarrow> s_ActorKind actor = ''agent'' \<and> s_ActorID actor = rn_AgentID r)"
proof -
  have "prefix (key_prefix m) (TrimPrefix ref ''refs/heads/'')"
    using assms(7,9) by (auto simp: CanWriteRef_def Let_def refHeadsPrefix_def split: if_splits)
  from check_finds[OF assms(1-6) _ this] assms(7,8)
  have f: "List.find (covers (TrimPrefix ref ''refs/heads/''))
      (filter (\<lambda>q. rn_OrgID q = s_OrgID s \<and> rn_RepoID q = repo \<and> rn_State q = ''running'') (runs d)) = Some r" by simp
  let ?h = "\<lparr>h_RunID = rn_ID r, h_AgentID = rn_AgentID r, h_Prefix = LockPrefix (rn_Branch r)\<rparr>"
  have "Check (Some s) repo ref (d, []) = (Inr (Some ?h), (d, []))"
    unfolding Check_def from_context_Some bnd_lift_simps by (simp add: query_def stmt_def f)
  moreover have "LockPrefix (rn_Branch r) = g_WriteBranch g" using assms(7,8) LockPrefix_key by simp
  ultimately show ?thesis by (intro exI[of _ ?h]) (simp add: RefuseWrite_def)
qed

section \<open>Paging through the events of a run\<close>

lemma length_dec: "n < 10 ^ k \<Longrightarrow> 0 < k \<Longrightarrow> length (dec n) \<le> k"
proof (induction k arbitrary: n)
  case (Suc k)
  show ?case
  proof (cases "n < 10")
    case True
    then show ?thesis by (simp add: dec.simps[of n])
  next
    case False
    have "0 < k" using False Suc.prems(1) by (cases k) auto
    moreover have "n div 10 < 10 ^ k" using Suc.prems(1) by (simp add: less_mult_imp_div_less mult.commute)
    ultimately have "length (dec (n div 10)) \<le> k" using Suc.IH by blast
    then show ?thesis using False by (simp add: dec.simps[of n])
  qed
qed simp

lemma dec_nonempty: "dec n \<noteq> ''''"
  by (simp add: dec.simps[of n])

lemma split_none: "c \<notin> set q \<Longrightarrow> split_at c q = [q]"
  by (induction q) auto

lemma split_one: "c \<notin> set p \<Longrightarrow> c \<notin> set q \<Longrightarrow> split_at c (p @ c # q) = [p, q]"
  by (induction p) (auto simp: split_none)

lemma parse_cursor_text:
  assumes "length (text run) = 36" and "CHR '':'' \<notin> set (text run)" and "0 < n" and "int n \<le> int64_max"
  shows "parse_cursor text run (cursor_text text run n) = Some n"
proof -
  have "length (dec n) \<le> 19" by (rule length_dec) (use assms(4) in \<open>simp_all add: int64_max_def\<close>)
  moreover have "split_at (CHR '':'') (text run @ CHR '':'' # dec n) = [text run, dec n]"
    using assms(2) no_digit by (intro split_one) (auto simp: is_digit_def)
  ultimately show ?thesis
    using assms digits_dec[of n] dec_nonempty[of n]
    by (simp add: parse_cursor_def cursor_text_def ParseInt_def undec_dec)
qed


lemma drop_after:
  "sorted_wrt (<) (map k es) \<Longrightarrow> j < length es \<Longrightarrow> filter (\<lambda>e. k (es ! j) < k e) es = drop (Suc j) es"
  for k :: "'e \<Rightarrow> nat"
proof (induction es arbitrary: j)
  case (Cons a es)
  show ?case
  proof (cases j)
    case 0
    have "filter (\<lambda>e. k a < k e) es = es" using Cons.prems(1) by (simp add: filter_id_conv)
    with 0 show ?thesis by simp
  next
    case (Suc i)
    with Cons.prems have "k a < k (es ! i)" by simp
    then have "\<not> k (es ! i) < k a" by simp
    with Suc Cons show ?thesis by simp
  qed
qed simp

lemma run_events_ordered:
  assumes "agents_wf d"
  shows "sorted_wrt (<) (map te_Sequence (run_events org run d))"
    and "\<forall>e \<in> set (run_events org run d). 0 < te_Sequence e \<and> te_Sequence e \<le> last_sequence d"
proof -
  let ?es = "filter (\<lambda>e. te_OrgID e = org \<and> te_RunID e = run) (tool_events d)"
  have o': "ordered_events d" using assms by (simp add: agents_wf_def)
  then have "ordered_events (d\<lparr>tool_events := ?es\<rparr>)" by (rule ordered_filter) simp_all
  then have s: "sorted_wrt (<) (map te_Sequence ?es)" by (simp add: ordered_events_def)
  then have "sorted (map te_Sequence ?es)" by (rule strict_sorted_imp_sorted)
  then have "run_events org run d = ?es" unfolding run_events_def by (simp add: sorted_sort_id sort_key_id_if_sorted)
  then show "sorted_wrt (<) (map te_Sequence (run_events org run d))"
    and "\<forall>e \<in> set (run_events org run d). 0 < te_Sequence e \<and> te_Sequence e \<le> last_sequence d"
    using s o' by (auto simp: ordered_events_def)
qed

text \<open>A cursor stands for the sequence number after which reading goes on.\<close>

definition stands_for :: "(uuid \<Rightarrow> string) \<Rightarrow> uuid \<Rightarrow> uuid \<Rightarrow> agentdb \<Rightarrow> string \<Rightarrow> nat \<Rightarrow> bool" where
  "stands_for text org run d cursor n \<longleftrightarrow> cursor = '''' \<and> n = 0
     \<or> cursor = cursor_text text run n \<and> (\<exists>e \<in> set (run_events org run d). te_Sequence e = n)"

lemma ToolEvents_batch:
  assumes "agents_wf d" and "length (text run) = 36" and "CHR '':'' \<notin> set (text run)" and "int (last_sequence d) \<le> int64_max"
    and "stands_for text (s_OrgID s) run d cursor n"
  shows "ToolEvents text (Some s) run cursor (d, []) =
    (Inr (map (view_event text run) (events_after (s_OrgID s) run n d)), (d, []))"
proof (cases "cursor = ''''")
  case True
  then have "n = 0" using assms(2,5) by (auto simp: stands_for_def cursor_text_def)
  with True show ?thesis unfolding ToolEvents_def from_context_Some bnd_lift_simps by (simp add: op_defs)
next
  case False
  then obtain e where e: "cursor = cursor_text text run n" "e \<in> set (run_events (s_OrgID s) run d)" "te_Sequence e = n"
    using assms(5) by (auto simp: stands_for_def)
  then have "0 < n" "int n \<le> int64_max"
    using run_events_ordered(2)[OF assms(1)] assms(4) by fastforce+
  then have "parse_cursor text run cursor = Some n"
    using parse_cursor_text[of "text" run n] assms(2,3) e(1) by simp
  with False e show ?thesis unfolding ToolEvents_def from_context_Some bnd_lift_simps by (auto simp: op_defs)
qed

text \<open>
  C40. Following the cursors delivers every event of a run exactly once and in the order of its
  sequence: from the empty cursor the replay sends all of them, and from the cursor of any event
  all that come after it, however many batches it takes. (One batch per hundred events, and one
  more, is enough.)
\<close>

theorem replay_delivers_each_event_once:
  assumes "agents_wf d" and "length (text run) = 36" and "CHR '':'' \<notin> set (text run)" and "int (last_sequence d) \<le> int64_max"
    and "stands_for text (s_OrgID s) run d cursor n"
    and "length (filter (\<lambda>e. n < te_Sequence e) (run_events (s_OrgID s) run d)) < 100 * fuel"
  shows "replay fuel text (Some s) run cursor (d, []) =
    (Inr (Some (map (view_event text run) (filter (\<lambda>e. n < te_Sequence e) (run_events (s_OrgID s) run d)))), (d, []))"
  using assms(5,6)
proof (induction fuel arbitrary: cursor n)
  case (Suc fuel)
  let ?es = "run_events (s_OrgID s) run d"
  let ?F = "filter (\<lambda>e. n < te_Sequence e) ?es"
  let ?v = "view_event text run"
  have b: "ToolEvents text (Some s) run cursor (d, []) = (Inr (map ?v (take 100 ?F)), (d, []))"
    using ToolEvents_batch[OF assms(1-4) Suc.prems(1)] by (simp add: events_after_def)
  show ?case
  proof (cases "100 \<le> length ?F")
    case True
    let ?m = "te_Sequence (?F ! 99)"
    have in_F: "?F ! 99 \<in> set ?F" using True by (intro nth_mem) simp
    have last: "last (map ?v (take 100 ?F)) = ?v (?F ! 99)"
    proof -
      have l: "length (take 100 ?F) = 100" using True by simp
      then have "take 100 ?F \<noteq> []" by fastforce
      then show ?thesis using l by (simp add: last_map last_conv_nth)
    qed
    have sF: "sorted_wrt (<) (map te_Sequence ?F)"
      using run_events_ordered(1)[OF assms(1)] by (simp add: sorted_wrt_filter sorted_wrt_map)
    have "filter (\<lambda>e. ?m < te_Sequence e) ?es = filter (\<lambda>e. ?m < te_Sequence e) ?F"
      using in_F by (auto intro!: filter_cong)
    also have "\<dots> = drop 100 ?F" using drop_after[OF sF, of 99] True by simp
    finally have rest: "filter (\<lambda>e. ?m < te_Sequence e) ?es = drop 100 ?F" .
    have "stands_for text (s_OrgID s) run d (ev_Cursor (?v (?F ! 99))) ?m"
      using in_F by (auto simp: stands_for_def view_event_def)
    from Suc.IH[OF this] rest Suc.prems(2) True
    have ih: "replay fuel text (Some s) run (ev_Cursor (?v (?F ! 99))) (d, []) = (Inr (Some (map ?v (drop 100 ?F))), (d, []))"
      by simp
    have "map ?v (take 100 ?F) @ map ?v (drop 100 ?F) = map ?v ?F"
      by (simp flip: map_append)
    then show ?thesis
      using b ih last True by (simp add: bnd_def ret_def)
  next
    case False
    with b show ?thesis by (simp add: bnd_def ret_def)
  qed
qed simp

section \<open>Witnesses\<close>

definition sample_agent :: agent where
  "sample_agent = \<lparr>ag_ID = 3, ag_OrgID = 7, ag_Name = ''coder'', ag_Role = ''engineer'', ag_ModelRef = ''m'', ag_Enabled = True\<rparr>"

text \<open>A running run, and the same run cancelled with its grant's revocation owed.\<close>

definition sample_running :: run_row where
  "sample_running = \<lparr>rn_ID = 5, rn_OrgID = 7, rn_RepoID = 4, rn_AgentID = 3, rn_WorkItemID = 9, rn_SponsorID = 2,
     rn_GrantID = 6, rn_Branch = ''agents/NF-12/work'', rn_State = ''running'', rn_StartedAt = Some 10, rn_EndedAt = None,
     rn_TokenLimit = 100, rn_CostLimitMicros = 0, rn_TokensUsed = 8, rn_CostUsedMicros = 0, rn_EndReason = '''',
     rn_GrantIntent = None, rn_GrantCleanupPending = False, rn_GrantCleanupError = '''', rn_TokensAvailable = False,
     rn_CostAvailable = False, rn_WorkClaimRequired = True, rn_WorkItemSnapshot = Some ''item'', rn_WorkReleasePending = False,
     rn_WorkReleaseError = '''', rn_ExecutionFinished = False, rn_WorkspaceIdentity = None, rn_WorkspaceCleanupPending = False,
     rn_WorkspaceCleanupError = '''', rw_WallclockSeconds = 3600, rw_Completion = None, rw_AdmissionLease = None,
     rw_CleanupNextAt = None, rw_CleanupLease = None, rw_CleanupClaim = None, rw_CleanupAttempts = 0\<rparr>"

definition sample_cancelled :: run_row where
  "sample_cancelled = cancel_row 20 sample_running"

definition sample_agentdb :: "run_row list \<Rightarrow> agentdb" where
  "sample_agentdb rs = \<lparr>agents = [sample_agent], runs = rs, provenances = Map.empty, tool_calls = [], tool_events = [],
     last_sequence = 0, deleted_scopes = []\<rparr>"

definition sample_owners :: owners where
  "sample_owners = \<lparr>ow_GrantRevoker = Some (\<lambda>g. g = 6), ow_GrantIssuanceCanceller = None, ow_WorkClaims = None,
     ow_WorkspaceCleaner = None, ow_WorkspaceRecoverer = None\<rparr>"

definition sample_completion :: completion where
  "sample_completion = \<lparr>cm_State = ''succeeded'', cm_Spend = \<lparr>sp_TokensAvailable = True, sp_CostAvailable = True,
     sp_Tokens = 12, sp_CostMicros = 3, sp_Reason = ''''\<rparr>, cm_Summary = ''done''\<rparr>"

abbreviation agent_ctx :: ctx where
  "agent_ctx \<equiv> Some (agent_scope 7 3)"

lemma sample_wf: "agents_wf (sample_agentdb [sample_running])" "agents_wf (sample_agentdb [sample_cancelled])"
  by (simp_all add: agents_wf_def sample_agentdb_def sample_running_def sample_cancelled_def cancel_row_def wf_row_def
      run_states_def terminalStates_def branch_index_def ordered_events_def)

lemma sample_complete:
  "fst (CompleteRun agent_ctx 1 30 5 sample_completion (sample_agentdb [sample_running], [])) = Inr ''succeeded''"
  by code_simp

definition sample_history :: "(agent_cmd \<times> bool list) list" where
  "sample_history = [(DoCleanup sample_owners (\<lambda>n. 100 + int n) 77 agent_ctx 5, []),
     (DoSetRunState agent_ctx 200 5 ''succeeded'', []), (DoSpend agent_ctx 5
        \<lparr>sp_TokensAvailable = True, sp_CostAvailable = True, sp_Tokens = 90, sp_CostMicros = 3, sp_Reason = ''late''\<rparr>, [])]"

lemma sample_history_result:
  "map (\<lambda>r. (rn_ID r, terminal r, rn_GrantCleanupPending r, rn_GrantID r)) (runs (fold agent_exec sample_history (sample_agentdb [sample_cancelled])))
     = [(5, True, False, 6)]"
  "runs_created sample_history = {}"
  by code_simp (simp add: runs_created_def sample_history_def)

lemma sample_history_row:
  obtains r' where "r' \<in> set (runs (fold agent_exec sample_history (sample_agentdb [sample_cancelled])))"
    and "rn_ID r' = 5" and "terminal r'" and "\<not> rn_GrantCleanupPending r'" and "rn_GrantID r' = 6"
  using sample_history_result(1) by (auto simp: map_eq_Cons_conv)

theorem ended_run_stays_as_it_ended_witness:
  "terminal sample_cancelled \<and> (\<exists>r' \<in> set (runs (fold agent_exec sample_history (sample_agentdb [sample_cancelled]))).
     rn_State r' = ''cancelled'' \<and> rn_EndedAt r' = Some 20 \<and> rn_WorkItemSnapshot r' = Some ''item'')"
proof -
  have c: "sample_cancelled \<in> set (runs (sample_agentdb [sample_cancelled]))" "terminal sample_cancelled" "rn_ID sample_cancelled = 5"
    "rn_State sample_cancelled = ''cancelled''" "rn_EndedAt sample_cancelled = Some 20"
    "rn_WorkItemSnapshot sample_cancelled = Some ''item''"
    by (simp_all add: sample_agentdb_def sample_cancelled_def cancel_row_def sample_running_def)
  obtain r' where r': "r' \<in> set (runs (fold agent_exec sample_history (sample_agentdb [sample_cancelled])))" "rn_ID r' = 5"
    using sample_history_row .
  show ?thesis
    using ended_run_stays_as_it_ended[OF sample_wf(2) c(1,2), of sample_history r'] r' c sample_history_result(2) by auto
qed

theorem revocation_is_owed_until_confirmed_witness:
  "rn_GrantCleanupPending sample_cancelled
    \<and> (\<exists>r' \<in> set (runs (fold agent_exec sample_history (sample_agentdb [sample_cancelled]))). \<not> rn_GrantCleanupPending r'
         \<and> (\<exists>c \<in> set sample_history. grant_key r' \<in> cmd_confirms (fst c)))"
proof -
  obtain r' where r': "r' \<in> set (runs (fold agent_exec sample_history (sample_agentdb [sample_cancelled])))" "terminal r'"
    "\<not> rn_GrantCleanupPending r'" "rn_GrantID r' = 6"
    using sample_history_row .
  have p: "rn_GrantCleanupPending sample_cancelled" "runs (sample_agentdb [sample_cancelled]) = [sample_cancelled]"
    by (simp_all add: sample_agentdb_def sample_cancelled_def cancel_row_def sample_running_def)
  show ?thesis
    using revocation_is_owed_until_confirmed[OF sample_wf(2) r'(1,2) _ r'(3)] r' p by auto
qed

theorem completion_is_evidenced_and_final_witness:
  "\<exists>w'. CompleteRun agent_ctx 1 30 5 sample_completion (sample_agentdb [sample_running], []) = (Inr ''succeeded'', w')
    \<and> CompleteRun agent_ctx 2 40 5 sample_completion (fst w', []) = (Inr ''succeeded'', (fst w', []))"
proof -
  obtain w' where w': "CompleteRun agent_ctx 1 30 5 sample_completion (sample_agentdb [sample_running], []) = (Inr ''succeeded'', w')"
    using sample_complete by (metis prod.collapse)
  have wf: "agents_wf (fst (sample_agentdb [sample_running], []))" using sample_wf by simp
  show ?thesis using completion_is_evidenced_and_final[OF wf w'] w' by blast
qed

definition sample_settled :: run_row where
  "sample_settled = sample_cancelled\<lparr>rn_GrantCleanupPending := False\<rparr>"

lemma sample_purge:
  "fst (PurgeRuns sample_owners (\<lambda>_ n. 100 + int n) (\<lambda>_. 77) agent_ctx 90 None (sample_agentdb [sample_settled], [])) = Inr 1"
  by code_simp

theorem deleted_scope_admits_nothing_witness:
  "\<exists>w'. PurgeRuns sample_owners (\<lambda>_ n. 100 + int n) (\<lambda>_. 77) agent_ctx 90 None (sample_agentdb [sample_settled], []) = (Inr 1, w')
    \<and> \<not> (\<exists>r \<in> set (runs (fold agent_exec sample_history (fst w'))). rn_OrgID r = 7)"
proof -
  obtain w' where w': "PurgeRuns sample_owners (\<lambda>_ n. 100 + int n) (\<lambda>_. 77) agent_ctx 90 None
      (sample_agentdb [sample_settled], []) = (Inr 1, w')"
    using sample_purge by (metis prod.collapse)
  have wf: "agents_wf (fst (sample_agentdb [sample_settled], []))"
    by (simp add: agents_wf_def sample_agentdb_def sample_running_def sample_cancelled_def sample_settled_def cancel_row_def
        wf_row_def run_states_def terminalStates_def branch_index_def ordered_events_def)
  show ?thesis
    using deleted_scope_admits_nothing[OF w' wf refl, of sample_history] w' by (auto simp: agent_scope_def)
qed

definition sample_run_grant :: grant where
  "sample_run_grant = \<lparr>g_ID = 6, g_OrgID = 7, g_SubjectID = 3, g_SubjectKind = ''agent'', g_RepoRead = True,
     g_WriteBranch = ''agents/NF-12/'', g_SecretsProd = False, g_DeployStaging = False, g_DeployProd = False, g_ExpiresAt = 99\<rparr>"

lemma sample_key: "key_prefix 12 = ''agents/NF-12/''"
  by code_simp

theorem lock_admits_only_the_holder_witness:
  "CanWriteRef sample_run_grant ''refs/heads/agents/NF-12/other'' = Inr ()
    \<and> (\<exists>h. Check agent_ctx 4 ''refs/heads/agents/NF-12/other'' (sample_agentdb [sample_running], [])
          = (Inr (Some h), (sample_agentdb [sample_running], [])) \<and> h_Prefix h = ''agents/NF-12/''
        \<and> RefuseWrite (agent_scope 7 8) ''refs/heads/agents/NF-12/other'' h \<noteq> Inr ())"
proof -
  have w: "CanWriteRef sample_run_grant ''refs/heads/agents/NF-12/other'' = Inr ()"
    by code_simp
  have b: "RunBranch ''agents/NF-12/'' = ''agents/NF-12/work''" by code_simp
  have r: "sample_running \<in> set (runs (sample_agentdb [sample_running]))" "rn_State sample_running = ''running''"
    "rn_OrgID sample_running = s_OrgID (agent_scope 7 3)" "rn_RepoID sample_running = 4" "rn_AgentID sample_running = 3"
    "g_WriteBranch sample_run_grant = key_prefix 12" "rn_Branch sample_running = RunBranch (g_WriteBranch sample_run_grant)"
    by (simp_all add: sample_agentdb_def sample_running_def agent_scope_def sample_run_grant_def sample_key b)
  have k: "keyed_branches (s_OrgID (agent_scope 7 3)) 4 (sample_agentdb [sample_running])"
    using r by (auto simp: keyed_branches_def sample_agentdb_def)
  show ?thesis
    using lock_admits_only_the_holder[OF sample_wf(1) k r(1-4,6,7) w] w r by (auto simp: agent_scope_def sample_key)
qed

definition sample_event :: "nat \<Rightarrow> string \<Rightarrow> tool_event" where
  "sample_event n outcome = \<lparr>te_Sequence = n, te_OrgID = 7, te_RunID = 5, te_CallID = 11, te_Tool = ''repo.read'',
     te_Outcome = outcome, te_At = 40, te_Published = False\<rparr>"

definition sample_eventdb :: agentdb where
  "sample_eventdb = (sample_agentdb [sample_running])\<lparr>tool_events := [sample_event 2 ''pending'', sample_event 5 ''ok''],
     last_sequence := 6\<rparr>"

theorem replay_delivers_each_event_once_witness:
  "replay 1 (\<lambda>_. replicate 36 (CHR ''a'')) agent_ctx 5 (cursor_text (\<lambda>_. replicate 36 (CHR ''a'')) 5 2) (sample_eventdb, [])
     = (Inr (Some [view_event (\<lambda>_. replicate 36 (CHR ''a'')) 5 (sample_event 5 ''ok'')]), (sample_eventdb, []))"
proof -
  let ?text = "\<lambda>_ :: uuid. replicate 36 (CHR ''a'')"
  have wf: "agents_wf sample_eventdb"
    using sample_wf(1) by (simp add: agents_wf_def sample_eventdb_def sample_agentdb_def sample_event_def ordered_events_def)
  have es: "run_events 7 5 sample_eventdb = [sample_event 2 ''pending'', sample_event 5 ''ok'']"
    by (simp add: run_events_def sample_eventdb_def sample_event_def sample_agentdb_def)
  have s: "stands_for ?text (s_OrgID (agent_scope 7 3)) 5 sample_eventdb (cursor_text ?text 5 2) 2"
    by (simp add: stands_for_def agent_scope_def es sample_event_def)
  have f: "filter (\<lambda>e. 2 < te_Sequence e) (run_events (s_OrgID (agent_scope 7 3)) 5 sample_eventdb) = [sample_event 5 ''ok'']"
    by (simp add: agent_scope_def es) (simp add: sample_event_def)
  then have l: "length (filter (\<lambda>e. 2 < te_Sequence e) (run_events (s_OrgID (agent_scope 7 3)) 5 sample_eventdb)) < 100 * 1"
    by simp
  have c: "length (?text 5) = 36" "CHR '':'' \<notin> set (?text 5)" "int (last_sequence sample_eventdb) \<le> int64_max"
    by (simp_all add: sample_eventdb_def int64_max_def)
  show ?thesis
    using replay_delivers_each_event_once[OF wf c s l] unfolding f list.map .
qed

section \<open>The grant of a started run\<close>

lemma no_dots: "CHR ''.'' \<notin> set s \<Longrightarrow> \<not> sublist ''..'' s"
  by (auto simp: sublist_def)

lemma key_no_dot: "CHR ''.'' \<notin> set (item_key n)"
  using no_digit[of "CHR ''.''" n] by (simp add: item_key_def is_digit_def)

text \<open>
  C40. What \<open>StartRun\<close> asks the grant owner for is what the owner issues to the agent service: for a
  key of the work service and a wall-clock limit it accepts, the intent passes the owner's
  admission, its expiry passes the owner's test of at most 24 hours until it has expired, and the
  run's branch is a branch the grant lets the agent write.
\<close>

theorem requested_grant_is_issuable:
  assumes "RunWallclockLimit secs = Inr wallclock"
    and "g = run_grant gid org agentID (item_key n) (started + (wallclock + OrphanGrace))"
    and "i = \<lparr>i_IssuerID = sponsor, i_IssuerKind = ''user'', i_RunID = rid, i_Grant = g\<rparr>"
    and "0 \<notin> {gid, org, agentID, sponsor, rid}"
  shows "issuance_admitted (Some (service_scope org)) i True
    \<and> (\<forall>now. started \<le> now \<and> now < g_ExpiresAt g \<longrightarrow> g_ExpiresAt g \<le> now + day)
    \<and> started < g_ExpiresAt g
    \<and> CanWriteRef g (''refs/heads/'' @ RunBranch (g_WriteBranch g)) = Inr ()
    \<and> \<not> suffix ''/'' (RunBranch (g_WriteBranch g))"
proof -
  have b: "g_WriteBranch g = key_prefix n" by (simp add: assms(2) run_grant_def key_prefix_def)
  have dots: "CHR ''.'' \<notin> set (key_prefix n)"
    using key_no_dot by (simp add: key_prefix_def BranchNamespace_def)
  have shape: "prefix ''agents/'' (key_prefix n)" "suffix ''/'' (key_prefix n)" "key_prefix n \<noteq> ''''"
    by (simp_all add: key_prefix_def BranchNamespace_def suffix_def)
  have adm: "issuance_admitted (Some (service_scope org)) i True"
    using assms(4) no_dots[OF dots] shape b
    by (simp add: issuance_admitted_def service_scope_def assms(3) Let_def) (simp add: assms(2) run_grant_def)
  have t: "0 < wallclock" "\<forall>now. started \<le> now \<longrightarrow> started + (wallclock + OrphanGrace) \<le> now + day"
    using assms(1) by (auto simp: RunWallclockLimit_def defaultGrantTTL_def OrphanGrace_def day_def split: if_splits)
  have e: "g_ExpiresAt g = started + (wallclock + OrphanGrace)" by (simp add: assms(2) run_grant_def)
  have w: "CanWriteRef g (''refs/heads/'' @ RunBranch (g_WriteBranch g)) = Inr ()"
  proof -
    have "CHR ''.'' \<notin> set (''refs/heads/'' @ RunBranch (key_prefix n))"
      using dots unfolding RunBranch_key by (simp add: runBranchLeaf_def)
    moreover have "prefix (key_prefix n) (RunBranch (key_prefix n))" unfolding RunBranch_key by simp
    moreover have "TrimPrefix (''refs/heads/'' @ RunBranch (key_prefix n)) refHeadsPrefix = RunBranch (key_prefix n)"
      unfolding refHeadsPrefix_def by (rule TrimPrefix_append)
    ultimately show ?thesis
      using no_dots shape(3) unfolding CanWriteRef_def b Let_def by metis
  qed
  have "\<not> suffix ''/'' (RunBranch (key_prefix n))"
    unfolding RunBranch_key by (simp add: runBranchLeaf_def suffix_def)
  then show ?thesis
    using adm t w e b by (auto simp: OrphanGrace_def)
qed

theorem requested_grant_is_issuable_witness:
  "issuance_admitted (Some (service_scope 7)) \<lparr>i_IssuerID = 2, i_IssuerKind = ''user'', i_RunID = 5,
      i_Grant = run_grant 6 7 3 (item_key 12) (0 + (60 * 60 * second + OrphanGrace))\<rparr> True"
proof -
  have w: "RunWallclockLimit 0 = Inr (60 * 60 * second)"
    by (simp add: RunWallclockLimit_def defaultGrantTTL_def OrphanGrace_def)
  show ?thesis
    using requested_grant_is_issuable[OF w refl refl, of 6 7 3 2 5 12 0] by simp
qed

section \<open>Two paths around the state machine\<close>

text \<open>
  \<open>BranchLock.Release\<close> ends the run that holds a branch without recording that its grant is to be
  revoked, which every other ending does. Nothing in the program calls it.
\<close>

lemma released_branch_owes_no_revocation:
  assumes "agents_wf (fst w)" and "Release (Some s) now org repo branch w = (Inr (), w')"
    and "r \<in> set (runs (fst w))" and "rn_State r = ''running''" and "rn_OrgID r = org" and "rn_RepoID r = repo"
    and "rn_Branch r = branch"
  shows "\<exists>r' \<in> set (runs (fst w')). rn_ID r' = rn_ID r \<and> rn_State r' = ''succeeded'' \<and> \<not> rn_GrantCleanupPending r'
    \<and> grant_key r' = grant_key r"
proof -
  have "wf_row r" using assms(1,3) by (simp add: agents_wf_def)
  then have "\<not> rn_GrantCleanupPending r" using assms(4) by (auto simp: wf_row_def)
  moreover have "r\<lparr>rn_State := ''succeeded'', rn_EndedAt := Some now\<rparr> \<in> set (runs (fst w'))"
    using assms(2-7) unfolding Release_def
    by (auto simp: run_simps set_update_rows image_iff dest!: update_runs_Inr(1) intro!: bexI[of _ r])
  ultimately show ?thesis
    by (intro bexI[of _ "r\<lparr>rn_State := ''succeeded'', rn_EndedAt := Some now\<rparr>"]) (simp_all add: grant_key_def)
qed

text \<open>\<open>CompleteRun\<close> takes a queued run to a state the run state machine reserves for running ones.\<close>

lemma queued_run_completes_as_succeeded:
  "fst (CompleteRun agent_ctx 1 30 5 sample_completion
     (sample_agentdb [sample_running\<lparr>rn_State := ''queued'', rn_StartedAt := None\<rparr>], [])) = Inr ''succeeded''
   \<and> ''succeeded'' \<notin> set (validTransitions ''queued'')"
  by code_simp

end
