(* ===== verification/NF_Reviews.thy ===== *)
theory NF_Reviews
  imports NF_WorkExec NF_Inbox "HOL-Library.List_Lexorder"
begin

text \<open>
  The reviews service (\<open>internal/reviews\<close>): Engineering Runs, which are changes proposed for
  merging with the plan, the proof and the reviews they carry. A run's source ref may live in a
  fork of the repository it targets.

  A NULL \<open>source_repo_id\<close>, work item or name is the zero value, as the reads make it. The event
  outbox holds what the trigger \<open>repository_event\<close> writes. \<open>now\<close> and \<open>new_id\<close> are the
  clock of the database and the identifier an operation draws.
\<close>

section \<open>State\<close>

record erun =
  er_ID :: uuid
  er_OrgID :: uuid
  er_RepoID :: uuid
  er_SourceRepoID :: uuid
  er_WorkItemID :: uuid
  er_Number :: nat
  er_Title :: string
  er_SourceRef :: string
  er_TargetRef :: string
  er_State :: string
  er_AuthorID :: uuid
  er_AuthorKind :: string
  er_AgentName :: string
  er_ModelName :: string
  er_CreatedAt :: time

record plan_step =
  pl_RunID :: uuid
  pl_Ordinal :: int
  pl_Text :: string
  pl_State :: string

record proof_record =
  pf_RunID :: uuid
  pf_Gate :: string
  pf_Status :: string
  pf_Detail :: string
  pf_RecordedAt :: time
  pf_Producer :: string
  pf_ActorID :: uuid

record run_comment =
  rc_ID :: uuid
  rc_RunID :: uuid
  rc_AuthorID :: uuid
  rc_AuthorKind :: string
  rc_Body :: string
  rc_CreatedAt :: time

record review =
  rv_SourceSHA :: string
  rv_Summary :: string
  rv_RunID :: uuid
  rv_ReviewerID :: uuid
  rv_ReviewerKind :: string
  rv_Verdict :: string
  rv_CreatedAt :: time

record attempt_record =
  at_Id :: uuid
  at_AgentId :: uuid
  at_Role :: string
  at_Model :: string
  at_State :: string
  at_Verdict :: string
  at_Summary :: string
  at_Error :: string
  at_TokensUsed :: int
  at_TokensAvailable :: bool
  at_CostUsedMicros :: int
  at_CostAvailable :: bool

record review_request =
  rq_ID :: uuid
  rq_OrgID :: uuid
  rq_RunID :: uuid
  rq_RequestedBy :: uuid
  rq_SourceSHA :: string
  rq_TargetSHA :: string
  rq_State :: string
  rq_Detail :: string
  rq_Attempts :: "attempt_record list"
  rq_LeaseID :: uuid
  rq_LeaseUntil :: time
  rq_CreatedAt :: time

record review_execution =
  ex_AttemptID :: uuid
  ex_OrgID :: uuid
  ex_RequestID :: uuid
  ex_LeaseID :: uuid
  ex_TerminatedAt :: "time option"
  ex_Evidence :: string
  ex_CreatedAt :: time
  ex_Owner :: "string option"
  ex_Digest :: "string option"
  ex_LastChecked :: "time option"
  ex_ReceiptVersion :: "int option"
  ex_UpstreamStatus :: "int option"
  ex_CompletedAt :: "time option"

text \<open>What the trigger announces: the run, its new state and the state it had (empty for a new run).\<close>

record run_event =
  ev_RunID :: uuid
  ev_State :: string
  ev_Previous :: string

record reviewsdb =
  runs :: "erun list"
  plan_steps :: "plan_step list"
  proofs :: "proof_record list"
  proof_audit :: "proof_record list"
  comments :: "run_comment list"
  reviews :: "review list"
  requests :: "review_request list"
  executions :: "review_execution list"
  outbox :: "run_event list"

datatype reviewerr =
    RunNotFound
  | RunNumberNotFound
  | PlanStepNotFound
  | AuthorCannotApprove
  | InvalidVerdict string
  | RunNotOpen
  | ErrProofAuthority
  | RunStateNeedsOrg
  | RunNotInOrg
  | PurgeNeedsOrg
  | PlatformWorkerRequired
  | OrgScopeRequired
  | ErrNoRows
  | LeaseNotCurrent
  | ReviewRefused
  | NonNilExecutionRequired
  | BindingRefused
  | ReceiptNotProof
  | ReceiptMismatched
  | HeldByOtherOwner
  | OwnerUnavailable
  | Answer grpc_code

type_synonym 'a reviews_op = "(reviewsdb, reviewerr fault, 'a) op"

section \<open>Runs\<close>

definition run_states :: "string list" where
  "run_states = [''open'', ''merged'', ''closed'']"

definition author_kinds :: "string list" where
  "author_kinds = [''user'', ''agent'']"

definition next_number :: "uuid \<Rightarrow> reviewsdb \<Rightarrow> nat" where
  "next_number repo d = fold max (map er_Number (filter (\<lambda>r. er_RepoID r = repo) (runs d))) 0 + 1"

text \<open>The insert with the constraints of the table, and the trigger.\<close>

definition insert_run :: "erun \<Rightarrow> reviewsdb \<Rightarrow> sqlerr + (erun \<times> reviewsdb)" where
  "insert_run r0 d =
     (let r = r0\<lparr>er_Number := next_number (er_RepoID r0) d\<rparr> in
      if er_State r \<notin> set run_states \<or> er_AuthorKind r \<notin> set author_kinds then Inl CheckViolation
      else if er_ID r \<in> er_ID ` set (runs d) then Inl UniqueViolation
      else Inr (r, d\<lparr>runs := runs d @ [r],
                 outbox := outbox d @ [\<lparr>ev_RunID = er_ID r, ev_State = er_State r, ev_Previous = ''''\<rparr>]\<rparr>))"

definition CreateRun :: "uuid \<Rightarrow> time \<Rightarrow> erun \<Rightarrow> erun reviews_op" where
  "CreateRun new_id now run0 =
     (let run1 = run0\<lparr>er_ID := new_id\<rparr>;
          run2 = (if er_State run1 = '''' then run1\<lparr>er_State := ''open''\<rparr> else run1);
          run = (if er_SourceRepoID run2 = uuid_Nil then run2\<lparr>er_SourceRepoID := er_RepoID run2\<rparr> else run2) in
      stmt Sql (insert_run (run\<lparr>er_CreatedAt := now\<rparr>)))"

text \<open>\<open>COALESCE(source_repo_id, repo_id)\<close>.\<close>

definition read_run :: "erun \<Rightarrow> erun" where
  "read_run r = (if er_SourceRepoID r = uuid_Nil then r\<lparr>er_SourceRepoID := er_RepoID r\<rparr> else r)"

definition find_run :: "uuid \<Rightarrow> uuid \<Rightarrow> reviewsdb \<Rightarrow> erun option" where
  "find_run org rid d = map_option read_run (List.find (\<lambda>r. er_OrgID r = org \<and> er_ID r = rid) (runs d))"

definition GetRun :: "ctx \<Rightarrow> uuid \<Rightarrow> erun reviews_op" where
  "GetRun ctx rid =
     bnd (from_context ctx) (\<lambda>scope.
     bnd (query Sql (find_run (s_OrgID scope) rid)) (\<lambda>row.
     case row of None \<Rightarrow> fail (App RunNotFound) | Some r \<Rightarrow> ret r))"

definition GetRunByNumber :: "ctx \<Rightarrow> uuid \<Rightarrow> nat \<Rightarrow> erun reviews_op" where
  "GetRunByNumber ctx repoID number =
     bnd (from_context ctx) (\<lambda>scope.
     bnd (query Sql (\<lambda>d. List.find (\<lambda>r. er_OrgID r = s_OrgID scope \<and> er_RepoID r = repoID \<and> er_Number r = number) (runs d))) (\<lambda>row.
     case row of None \<Rightarrow> fail (App RunNumberNotFound) | Some r \<Rightarrow> GetRun ctx (er_ID r)))"

definition ListRuns :: "ctx \<Rightarrow> uuid \<Rightarrow> uuid \<Rightarrow> string \<Rightarrow> erun list reviews_op" where
  "ListRuns ctx orgID repoID state =
     bnd (require_org ctx orgID) (\<lambda>_.
     query Sql (\<lambda>d. map read_run (sort_key er_Number
       (filter (\<lambda>r. er_OrgID r = orgID \<and> er_RepoID r = repoID \<and> (state = '''' \<or> er_State r = state)) (runs d)))))"

text \<open>The trigger fires on an update that changes the state.\<close>

definition state_events :: "(erun \<Rightarrow> bool) \<Rightarrow> string \<Rightarrow> erun list \<Rightarrow> run_event list" where
  "state_events P s rs = map (\<lambda>r. \<lparr>ev_RunID = er_ID r, ev_State = s, ev_Previous = er_State r\<rparr>)
     (filter (\<lambda>r. P r \<and> er_State r \<noteq> s) rs)"

definition update_state :: "uuid \<Rightarrow> uuid \<Rightarrow> string \<Rightarrow> reviewsdb \<Rightarrow> sqlerr + (nat \<times> reviewsdb)" where
  "update_state rid org state d =
     (let P = (\<lambda>r. er_ID r = rid \<and> er_OrgID r = org) in
      if affected P (runs d) > 0 \<and> state \<notin> set run_states then Inl CheckViolation
      else Inr (affected P (runs d),
        d\<lparr>runs := update_rows P (\<lambda>r. r\<lparr>er_State := state\<rparr>) (runs d),
          outbox := outbox d @ state_events P state (runs d)\<rparr>))"

definition setRunState :: "ctx \<Rightarrow> uuid \<Rightarrow> string \<Rightarrow> unit reviews_op" where
  "setRunState ctx rid state =
     (case FromContext ctx of
        Inl _ \<Rightarrow> fail (App RunStateNeedsOrg)
      | Inr scope \<Rightarrow>
          if s_OrgID scope = uuid_Nil then fail (App RunStateNeedsOrg)
          else bnd (stmt Sql (update_state rid (s_OrgID scope) state)) (\<lambda>n.
               if n \<noteq> 1 then fail (App RunNotInOrg) else ret ()))"

definition sourceRepo :: "erun \<Rightarrow> uuid" where
  "sourceRepo r = (if er_SourceRepoID r = uuid_Nil then er_RepoID r else er_SourceRepoID r)"

section \<open>Plans and comments\<close>

definition insert_plan_step :: "plan_step \<Rightarrow> reviewsdb \<Rightarrow> sqlerr + (unit \<times> reviewsdb)" where
  "insert_plan_step s d =
     (if pl_RunID s \<notin> er_ID ` set (runs d) then Inl ForeignKeyViolation
      else if \<exists>q \<in> set (plan_steps d). pl_RunID q = pl_RunID s \<and> pl_Ordinal q = pl_Ordinal s then Inl UniqueViolation
      else Inr ((), d\<lparr>plan_steps := plan_steps d @ [s]\<rparr>))"

definition AddPlanStep :: "uuid \<Rightarrow> int \<Rightarrow> string \<Rightarrow> string \<Rightarrow> unit reviews_op" where
  "AddPlanStep rid ordinal txt state =
     stmt Sql (insert_plan_step \<lparr>pl_RunID = rid, pl_Ordinal = ordinal, pl_Text = txt,
       pl_State = (if state = '''' then ''pending'' else state)\<rparr>)"

definition SetPlanStepState :: "uuid \<Rightarrow> int \<Rightarrow> string \<Rightarrow> unit reviews_op" where
  "SetPlanStepState rid ordinal state =
     (let P = (\<lambda>s. pl_RunID s = rid \<and> pl_Ordinal s = ordinal) in
      bnd (update Sql (\<lambda>d. (affected P (plan_steps d), d\<lparr>plan_steps := update_rows P (\<lambda>s. s\<lparr>pl_State := state\<rparr>) (plan_steps d)\<rparr>))) (\<lambda>n.
      if n = 0 then fail (App PlanStepNotFound) else ret ()))"

definition ListPlanSteps :: "uuid \<Rightarrow> plan_step list reviews_op" where
  "ListPlanSteps rid = query Sql (\<lambda>d. sort_key pl_Ordinal (filter (\<lambda>s. pl_RunID s = rid) (plan_steps d)))"

definition insert_comment :: "run_comment \<Rightarrow> reviewsdb \<Rightarrow> sqlerr + (unit \<times> reviewsdb)" where
  "insert_comment c d =
     (if rc_RunID c \<notin> er_ID ` set (runs d) then Inl ForeignKeyViolation
      else if rc_AuthorKind c \<notin> set author_kinds then Inl CheckViolation
      else if rc_ID c \<in> rc_ID ` set (comments d) then Inl UniqueViolation
      else Inr ((), d\<lparr>comments := comments d @ [c]\<rparr>))"

definition AddComment :: "uuid \<Rightarrow> time \<Rightarrow> uuid \<Rightarrow> uuid \<Rightarrow> string \<Rightarrow> string \<Rightarrow> run_comment reviews_op" where
  "AddComment new_id now rid authorID authorKind body =
     (let c = \<lparr>rc_ID = new_id, rc_RunID = rid, rc_AuthorID = authorID, rc_AuthorKind = authorKind, rc_Body = body,
               rc_CreatedAt = now\<rparr> in
      bnd (stmt Sql (insert_comment c)) (\<lambda>_. ret c))"

section \<open>Proof\<close>

definition DefaultReviewRoles :: "string list" where
  "DefaultReviewRoles = [''reviewer'', ''security'', ''test'', ''architecture'']"

definition gates_proofs :: "string list" where
  "gates_proofs = [''approval/read_source'', ''approval/modify_workspace'', ''approval/add_dependency'',
     ''approval/change_db_schema'', ''approval/access_secret'', ''approval/deploy_staging'',
     ''approval/deploy_production'', ''approval/change_gate_config'', ''architecture-decision'']"

text \<open>Blanks, as \<open>strings.TrimSpace\<close> drops them from text in ASCII.\<close>

definition is_space :: "char \<Rightarrow> bool" where
  "is_space c \<longleftrightarrow> c \<in> {CHR '' '', CHR 0x09, CHR 0x0A, CHR 0x0B, CHR 0x0C, CHR 0x0D}"

definition TrimSpace :: "string \<Rightarrow> string" where
  "TrimSpace s = rev (dropWhile is_space (rev (dropWhile is_space s)))"

definition CutPrefix :: "string \<Rightarrow> string \<Rightarrow> string option" where
  "CutPrefix s p = (if prefix p s then Some (drop (length p) s) else None)"

definition assertion_label :: "string \<Rightarrow> bool" where
  "assertion_label label \<longleftrightarrow> 0 < length label \<and> length label \<le> 128
     \<and> \<not> (\<exists>c \<in> set label. c \<in> {CHR ''/'', CHR 0x5C, CHR 0x0D, CHR 0x0A, CHR 0x09}) \<and> TrimSpace label = label"

text \<open>
  Who may speak for a gate name: the producer and the actor that are recorded. \<open>utext\<close> writes
  an identifier, as \<open>uuid.UUID.String\<close> does.
\<close>

definition proofProducer :: "(uuid \<Rightarrow> string) \<Rightarrow> ctx \<Rightarrow> string \<Rightarrow> reviewerr + (string \<times> uuid)" where
  "proofProducer utext ctx gate =
     (case FromContext ctx of
        Inl _ \<Rightarrow> Inl ErrProofAuthority
      | Inr scope \<Rightarrow>
          if s_OrgID scope = uuid_Nil then Inl ErrProofAuthority
          else if s_ActorKind scope = ''user'' \<and> s_ActorID scope \<noteq> uuid_Nil
            \<and> (case CutPrefix gate (''assertion/'' @ utext (s_ActorID scope) @ ''/'') of
                 None \<Rightarrow> False | Some label \<Rightarrow> assertion_label label)
          then Inr (''human'', s_ActorID scope)
          else if s_ActorKind scope = ''service'' then
            (if s_ServiceName scope = ''gates'' \<and> (gate \<in> set known_gates \<or> gate \<in> set gates_proofs) then Inr (''gates'', uuid_Nil)
             else if s_ServiceName scope = ''work-reviews'' \<and> gate \<in> set (map (\<lambda>role. ''review:'' @ role) DefaultReviewRoles)
               then Inr (''work-reviews'', uuid_Nil)
             else if s_ServiceName scope = ''agent-runtime'' \<and> gate = ''agent-blocked'' then Inr (''agent-runtime'', uuid_Nil)
             else Inl ErrProofAuthority)
          else Inl ErrProofAuthority)"

text \<open>
  The upsert: it replaces a row without a producer, or one of the same producer and actor, and
  otherwise writes nothing.
\<close>

definition replaceable :: "proof_record \<Rightarrow> proof_record \<Rightarrow> bool" where
  "replaceable p q \<longleftrightarrow> pf_RunID q = pf_RunID p \<and> pf_Gate q = pf_Gate p
     \<and> (pf_Producer q = '''' \<or> pf_Producer q = pf_Producer p \<and> pf_ActorID q = pf_ActorID p)"

definition upsert_proof :: "uuid \<Rightarrow> proof_record \<Rightarrow> reviewsdb \<Rightarrow> nat \<times> reviewsdb" where
  "upsert_proof org p d =
     (if \<not> (\<exists>r \<in> set (runs d). er_ID r = pf_RunID p \<and> er_OrgID r = org) then (0, d)
      else if \<exists>q \<in> set (proofs d). pf_RunID q = pf_RunID p \<and> pf_Gate q = pf_Gate p
        then (affected (replaceable p) (proofs d), d\<lparr>proofs := update_rows (replaceable p) (\<lambda>q. p) (proofs d)\<rparr>)
      else (1, d\<lparr>proofs := proofs d @ [p]\<rparr>))"

definition append_audit :: "uuid \<Rightarrow> uuid \<Rightarrow> string \<Rightarrow> reviewsdb \<Rightarrow> unit \<times> reviewsdb" where
  "append_audit org rid gate d =
     ((), d\<lparr>proof_audit := proof_audit d @ filter (\<lambda>p. pf_RunID p = rid \<and> pf_Gate p = gate
        \<and> (\<exists>r \<in> set (runs d). er_ID r = rid \<and> er_OrgID r = org)) (proofs d)\<rparr>)"

definition RecordProof :: "(uuid \<Rightarrow> string) \<Rightarrow> ctx \<Rightarrow> time \<Rightarrow> uuid \<Rightarrow> string \<Rightarrow> string \<Rightarrow> string \<Rightarrow> unit reviews_op" where
  "RecordProof utext ctx now rid gate state detail =
     (case proofProducer utext ctx gate of
        Inl e \<Rightarrow> fail (App e)
      | Inr (producer, actor) \<Rightarrow>
          bnd (from_context ctx) (\<lambda>scope.
          tx Sql (
            bnd (update Sql (upsert_proof (s_OrgID scope)
                  \<lparr>pf_RunID = rid, pf_Gate = gate, pf_Status = state, pf_Detail = detail, pf_RecordedAt = now,
                   pf_Producer = producer, pf_ActorID = actor\<rparr>)) (\<lambda>n.
            if n \<noteq> 1 then fail (App ErrProofAuthority)
            else bnd (update Sql (append_audit (s_OrgID scope) rid gate)) (\<lambda>_. ret (Commit ()))))))"

text \<open>Ordered by gate in the collation of bytes.\<close>

definition ListProof :: "ctx \<Rightarrow> uuid \<Rightarrow> proof_record list reviews_op" where
  "ListProof ctx rid =
     bnd (GetRun ctx rid) (\<lambda>run.
     query Sql (\<lambda>d. sort_key (\<lambda>p. map of_char (pf_Gate p) :: nat list)
       (filter (\<lambda>p. pf_RunID p = rid \<and> (\<exists>r \<in> set (runs d). er_ID r = rid \<and> er_OrgID r = er_OrgID run)) (proofs d))))"

section \<open>Reviews\<close>

definition verdicts :: "string list" where
  "verdicts = [''approve'', ''request_changes'', ''comment'']"

text \<open>
  \<open>INSERT ... SELECT FROM runs ... ON CONFLICT (run_id, reviewer_id) DO UPDATE\<close>: one review per
  reviewer and run, only for a run the condition selects. The number of rows written is returned.
\<close>

definition upsert_review :: "(erun \<Rightarrow> bool) \<Rightarrow> review \<Rightarrow> reviewsdb \<Rightarrow> sqlerr + (nat \<times> reviewsdb)" where
  "upsert_review P v d =
     (let same = (\<lambda>q. rv_RunID q = rv_RunID v \<and> rv_ReviewerID q = rv_ReviewerID v) in
      if \<not> (\<exists>r \<in> set (runs d). er_ID r = rv_RunID v \<and> P r) then Inr (0, d)
      else if rv_ReviewerKind v \<notin> set author_kinds then Inl CheckViolation
      else if \<exists>q \<in> set (reviews d). same q then Inr (1, d\<lparr>reviews := update_rows same (\<lambda>q. v) (reviews d)\<rparr>)
      else Inr (1, d\<lparr>reviews := reviews d @ [v]\<rparr>))"

definition SubmitReviewAt :: "ctx \<Rightarrow> time \<Rightarrow> uuid \<Rightarrow> uuid \<Rightarrow> string \<Rightarrow> string \<Rightarrow> string \<Rightarrow> string \<Rightarrow> unit reviews_op" where
  "SubmitReviewAt ctx now rid reviewerID reviewerKind verdict sourceSHA summary =
     bnd (GetRun ctx rid) (\<lambda>run.
     if reviewerID = er_AuthorID run then fail (App AuthorCannotApprove)
     else if verdict \<notin> set verdicts then fail (App (InvalidVerdict verdict))
     else
       bnd (stmt Sql (upsert_review (\<lambda>r. er_OrgID r = er_OrgID run \<and> er_State r = ''open'')
              \<lparr>rv_SourceSHA = sourceSHA, rv_Summary = summary, rv_RunID = rid, rv_ReviewerID = reviewerID,
               rv_ReviewerKind = reviewerKind, rv_Verdict = verdict, rv_CreatedAt = now\<rparr>)) (\<lambda>n.
       if n \<noteq> 1 then fail (App RunNotOpen) else ret ()))"

definition SubmitReview :: "ctx \<Rightarrow> time \<Rightarrow> uuid \<Rightarrow> uuid \<Rightarrow> string \<Rightarrow> string \<Rightarrow> unit reviews_op" where
  "SubmitReview ctx now rid reviewerID reviewerKind verdict =
     SubmitReviewAt ctx now rid reviewerID reviewerKind verdict '''' ''''"

text \<open>Ordered by time, then reviewer.\<close>

definition ListReviews :: "ctx \<Rightarrow> uuid \<Rightarrow> review list reviews_op" where
  "ListReviews ctx rid =
     bnd (from_context ctx) (\<lambda>scope.
     query Sql (\<lambda>d. sort_key rv_CreatedAt (sort_key rv_ReviewerID
       (filter (\<lambda>v. rv_RunID v = rid \<and> (\<exists>r \<in> set (runs d). er_ID r = rid \<and> er_OrgID r = s_OrgID scope)) (reviews d)))))"

definition independent_approval :: "uuid \<Rightarrow> uuid \<Rightarrow> uuid \<Rightarrow> string \<Rightarrow> reviewsdb \<Rightarrow> review \<Rightarrow> bool" where
  "independent_approval org rid authorID head d v \<longleftrightarrow>
     rv_RunID v = rid \<and> rv_ReviewerID v \<noteq> authorID \<and> rv_Verdict v = ''approve'' \<and> rv_SourceSHA v = head
     \<and> rv_SourceSHA v \<noteq> '''' \<and> (\<exists>r \<in> set (runs d). er_ID r = rid \<and> er_OrgID r = org)"

definition hasIndependentApproval :: "ctx \<Rightarrow> uuid \<Rightarrow> uuid \<Rightarrow> string \<Rightarrow> bool reviews_op" where
  "hasIndependentApproval ctx rid authorID head =
     bnd (GetRun ctx rid) (\<lambda>run.
     bnd (query Sql (\<lambda>d. affected (independent_approval (er_OrgID run) rid authorID head d) (reviews d))) (\<lambda>count.
     ret (0 < count)))"

section \<open>Deletion\<close>

text \<open>The foreign keys cascade to everything but the executions.\<close>

definition delete_runs :: "(erun \<Rightarrow> bool) \<Rightarrow> reviewsdb \<Rightarrow> nat \<times> reviewsdb" where
  "delete_runs P d =
     (let gone = er_ID ` set (filter P (runs d)) in
      (affected P (runs d),
       d\<lparr>runs := filter (\<lambda>r. \<not> P r) (runs d),
         plan_steps := filter (\<lambda>s. pl_RunID s \<notin> gone) (plan_steps d),
         proofs := filter (\<lambda>p. pf_RunID p \<notin> gone) (proofs d),
         proof_audit := filter (\<lambda>p. pf_RunID p \<notin> gone) (proof_audit d),
         comments := filter (\<lambda>c. rc_RunID c \<notin> gone) (comments d),
         reviews := filter (\<lambda>v. rv_RunID v \<notin> gone) (reviews d),
         requests := filter (\<lambda>q. rq_RunID q \<notin> gone) (requests d)\<rparr>))"

definition purgeOrg :: "ctx \<Rightarrow> uuid reviews_op" where
  "purgeOrg ctx =
     (case FromContext ctx of
        Inl _ \<Rightarrow> fail (App PurgeNeedsOrg)
      | Inr scope \<Rightarrow> if s_OrgID scope = uuid_Nil then fail (App PurgeNeedsOrg) else ret (s_OrgID scope))"

definition runIDs :: "uuid \<Rightarrow> uuid option \<Rightarrow> uuid list reviews_op" where
  "runIDs org repo = query Sql (\<lambda>d. map er_ID (filter (\<lambda>r. er_OrgID r = org \<and> (repo = None \<or> repo = Some (er_RepoID r))) (runs d)))"

definition RunIDsForRepository :: "ctx \<Rightarrow> uuid \<Rightarrow> uuid list reviews_op" where
  "RunIDsForRepository ctx repoID = bnd (purgeOrg ctx) (\<lambda>org. runIDs org (Some repoID))"

definition RunIDsForOrganization :: "ctx \<Rightarrow> uuid list reviews_op" where
  "RunIDsForOrganization ctx = bnd (purgeOrg ctx) (\<lambda>org. runIDs org None)"

definition PurgeRepository :: "ctx \<Rightarrow> uuid \<Rightarrow> nat reviews_op" where
  "PurgeRepository ctx repoID =
     bnd (purgeOrg ctx) (\<lambda>org. update Sql (delete_runs (\<lambda>r. er_OrgID r = org \<and> er_RepoID r = repoID)))"

definition PurgeOrganization :: "ctx \<Rightarrow> nat reviews_op" where
  "PurgeOrganization ctx = bnd (purgeOrg ctx) (\<lambda>org. update Sql (delete_runs (\<lambda>r. er_OrgID r = org)))"

section \<open>Requests for agent review\<close>

text \<open>
  A request names the revisions it reviews; a request for the same run and revisions is the
  same request, whatever became of it.
\<close>

definition same_revisions :: "review_request \<Rightarrow> review_request \<Rightarrow> bool" where
  "same_revisions q r \<longleftrightarrow> rq_RunID r = rq_RunID q \<and> rq_SourceSHA r = rq_SourceSHA q \<and> rq_TargetSHA r = rq_TargetSHA q"

text \<open>No row comes back when the run is not an open one of the organization.\<close>

definition insert_request :: "review_request \<Rightarrow> reviewsdb \<Rightarrow> sqlerr + (review_request option \<times> reviewsdb)" where
  "insert_request q d =
     (if \<not> (\<exists>r \<in> set (runs d). er_ID r = rq_RunID q \<and> er_OrgID r = rq_OrgID q \<and> er_State r = ''open'') then Inr (None, d)
      else (case List.find (same_revisions q) (requests d) of
              Some old \<Rightarrow> Inr (Some old, d)
            | None \<Rightarrow>
                if rq_ID q \<in> rq_ID ` set (requests d) then Inl UniqueViolation
                else Inr (Some q, d\<lparr>requests := requests d @ [q]\<rparr>)))"

definition expired_detail :: string where
  "expired_detail = ''execution lease expired; model outcome may be unknown; not replayed''"

definition lease_lost :: "uuid \<Rightarrow> time \<Rightarrow> review_request \<Rightarrow> bool" where
  "lease_lost org now q \<longleftrightarrow> rq_OrgID q = org \<and> rq_State q = ''running'' \<and> rq_LeaseUntil q \<le> now"

text \<open>What counts against the limit: running requests, and requests with an execution that has not terminated.\<close>

definition outstanding :: "uuid \<Rightarrow> reviewsdb \<Rightarrow> uuid set" where
  "outstanding org d = rq_ID ` {q \<in> set (requests d). rq_OrgID q = org \<and> rq_State q = ''running''}
     \<union> ex_RequestID ` {e \<in> set (executions d). ex_OrgID e = org \<and> ex_TerminatedAt e = None}"

record review_config =
  cf_Wallclock :: int
  cf_MaxInput :: int
  cf_MaxOutput :: int
  cf_MaxConcurrent :: int
  cf_MaxRoles :: int

definition Validate :: "review_config \<Rightarrow> bool" where
  "Validate c \<longleftrightarrow> \<not> (cf_Wallclock c < 1 \<or> cf_Wallclock c > 600 \<or> cf_MaxInput c < 1 \<or> cf_MaxInput c > 1048576
     \<or> cf_MaxOutput c < 1 \<or> cf_MaxOutput c > 16384 \<or> cf_MaxConcurrent c < 1 \<or> cf_MaxConcurrent c > 16
     \<or> cf_MaxRoles c < 1 \<or> cf_MaxRoles c > 4)"

definition queued_of :: "uuid \<Rightarrow> reviewsdb \<Rightarrow> review_request option" where
  "queued_of org d = (case sort_key rq_CreatedAt (filter (\<lambda>q. rq_OrgID q = org \<and> rq_State q = ''queued'') (requests d)) of
     [] \<Rightarrow> None | q # _ \<Rightarrow> Some q)"

definition lease_queued :: "uuid \<Rightarrow> uuid \<Rightarrow> time \<Rightarrow> reviewsdb \<Rightarrow> review_request option \<times> reviewsdb" where
  "lease_queued org lease until d =
     (case queued_of org d of
        None \<Rightarrow> (None, d)
      | Some q \<Rightarrow>
          let f = (\<lambda>r. r\<lparr>rq_State := ''running'', rq_LeaseID := lease, rq_LeaseUntil := until\<rparr>) in
          (Some (f q), d\<lparr>requests := update_rows (\<lambda>r. rq_ID r = rq_ID q \<and> rq_OrgID r = org) f (requests d)\<rparr>))"

text \<open>The advisory lock is a statement; its hold is the sequence of operations.\<close>

definition claimReview :: "ctx \<Rightarrow> uuid \<Rightarrow> time \<Rightarrow> review_config \<Rightarrow> review_request reviews_op" where
  "claimReview ctx lease now c =
     (case FromContext ctx of
        Inl _ \<Rightarrow> fail (App OrgScopeRequired)
      | Inr scope \<Rightarrow>
          if s_OrgID scope = uuid_Nil then fail (App OrgScopeRequired)
          else
            bnd (tx Sql (
              bnd (query Sql (\<lambda>d. ())) (\<lambda>_.
              bnd (update Sql (\<lambda>d. ((), d\<lparr>requests := update_rows (lease_lost (s_OrgID scope) now)
                     (\<lambda>q. q\<lparr>rq_State := ''uncertain'', rq_Detail := expired_detail\<rparr>) (requests d)\<rparr>))) (\<lambda>_.
              bnd (query Sql (\<lambda>d. card (outstanding (s_OrgID scope) d))) (\<lambda>count.
              if cf_MaxConcurrent c \<le> int count then ret (Commit None)
              else
                bnd (update Sql (lease_queued (s_OrgID scope) lease (now + (cf_Wallclock c + 30) * second))) (\<lambda>row.
                ret (Commit row))))))) (\<lambda>row.
            case row of None \<Rightarrow> fail (App ErrNoRows) | Some q \<Rightarrow> ret q))"

text \<open>The lease still held: the predicate of the statements of a running review.\<close>

definition leased :: "review_request \<Rightarrow> time \<Rightarrow> review_request \<Rightarrow> bool" where
  "leased r now q \<longleftrightarrow> rq_ID q = rq_ID r \<and> rq_OrgID q = rq_OrgID r \<and> rq_LeaseID q = rq_LeaseID r
     \<and> rq_State q = ''running'' \<and> now < rq_LeaseUntil q"

definition request_states :: "string list" where
  "request_states = [''queued'', ''running'', ''succeeded'', ''failed'', ''uncertain'']"

definition save_request :: "review_request \<Rightarrow> time \<Rightarrow> reviewsdb \<Rightarrow> sqlerr + (nat \<times> reviewsdb)" where
  "save_request r now d =
     (if 0 < affected (leased r now) (requests d) \<and> rq_State r \<notin> set request_states then Inl CheckViolation
      else Inr (affected (leased r now) (requests d),
        d\<lparr>requests := update_rows (leased r now)
          (\<lambda>q. q\<lparr>rq_Attempts := rq_Attempts r, rq_State := rq_State r, rq_Detail := rq_Detail r\<rparr>) (requests d)\<rparr>))"

definition saveReview :: "ctx \<Rightarrow> time \<Rightarrow> review_request \<Rightarrow> attempt_record option \<Rightarrow> unit reviews_op" where
  "saveReview ctx now r att =
     bnd (require_org ctx (rq_OrgID r)) (\<lambda>_.
     tx Sql (
       bnd (stmt Sql (save_request r now)) (\<lambda>n.
       if n \<noteq> 1 then fail (App LeaseNotCurrent)
       else (case att of
          None \<Rightarrow> ret (Commit ())
        | Some a \<Rightarrow>
            if at_State a \<noteq> ''succeeded'' then ret (Commit ())
            else
              bnd (stmt Sql (upsert_review (\<lambda>q. er_OrgID q = rq_OrgID r \<and> er_State q = ''open'' \<and> er_AuthorID q \<noteq> at_AgentId a)
                     \<lparr>rv_SourceSHA = rq_SourceSHA r, rv_Summary = at_Summary a, rv_RunID = rq_RunID r,
                      rv_ReviewerID = at_AgentId a, rv_ReviewerKind = ''agent'', rv_Verdict = at_Verdict a, rv_CreatedAt = now\<rparr>)) (\<lambda>m.
              if m \<noteq> 1 then fail (App ReviewRefused) else ret (Commit ()))))))"

section \<open>Executions\<close>

text \<open>
  What the table refuses: a binding or receipt that is not well formed, and, by the trigger
  \<open>protect_execution_binding\<close>, a change of identity, a second binding, and any change of a
  terminated row.
\<close>

definition hex_digest :: "string \<Rightarrow> bool" where
  "hex_digest s \<longleftrightarrow> length s = 64 \<and> set s \<subseteq> set ''0123456789abcdef''"

definition execution_checks :: "review_execution \<Rightarrow> bool" where
  "execution_checks e \<longleftrightarrow>
     (case (ex_Owner e, ex_Digest e) of (None, None) \<Rightarrow> True | (Some _, Some dg) \<Rightarrow> hex_digest dg | _ \<Rightarrow> False)
     \<and> (ex_Evidence e \<noteq> ''gateway_receipt'' \<or>
          ex_TerminatedAt e \<noteq> None \<and> ex_Owner e \<noteq> None \<and> ex_Digest e \<noteq> None
          \<and> ex_ReceiptVersion e = Some 1 \<and> ex_UpstreamStatus e = Some 200 \<and> ex_CompletedAt e \<noteq> None)"

definition execution_protected :: "review_execution \<Rightarrow> review_execution \<Rightarrow> bool" where
  "execution_protected old new \<longleftrightarrow>
     ex_AttemptID new = ex_AttemptID old \<and> ex_OrgID new = ex_OrgID old \<and> ex_RequestID new = ex_RequestID old
     \<and> ex_LeaseID new = ex_LeaseID old
     \<and> (ex_Owner old \<noteq> None \<longrightarrow> ex_Owner new = ex_Owner old \<and> ex_Digest new = ex_Digest old)
     \<and> (ex_TerminatedAt old \<noteq> None \<longrightarrow> new = old)"

definition update_executions :: "(review_execution \<Rightarrow> bool) \<Rightarrow> (review_execution \<Rightarrow> review_execution) \<Rightarrow> reviewsdb
    \<Rightarrow> sqlerr + (nat \<times> reviewsdb)" where
  "update_executions P f d =
     (if \<forall>e \<in> set (executions d). P e \<longrightarrow> execution_checks (f e) \<and> execution_protected e (f e)
      then Inr (affected P (executions d), d\<lparr>executions := update_rows P f (executions d)\<rparr>)
      else Inl CheckViolation)"

definition insert_execution :: "review_execution \<Rightarrow> reviewsdb \<Rightarrow> sqlerr + (unit \<times> reviewsdb)" where
  "insert_execution e d =
     (if ex_AttemptID e \<in> ex_AttemptID ` set (executions d) then Inl UniqueViolation
      else if \<not> execution_checks e then Inl CheckViolation
      else Inr ((), d\<lparr>executions := executions d @ [e]\<rparr>))"

text \<open>\<open>SELECT ... FOR UPDATE\<close> of the request under its lease.\<close>

definition lock_leased :: "review_request \<Rightarrow> time \<Rightarrow> unit reviews_op" where
  "lock_leased r now =
     bnd (query Sql (\<lambda>d. \<exists>q \<in> set (requests d). leased r now q)) (\<lambda>held.
     if held then ret () else fail (App ErrNoRows))"

definition beginReviewExecution :: "ctx \<Rightarrow> time \<Rightarrow> review_request \<Rightarrow> uuid \<Rightarrow> unit reviews_op" where
  "beginReviewExecution ctx now r att =
     bnd (require_org ctx (rq_OrgID r)) (\<lambda>_.
     if att = uuid_Nil then fail (App NonNilExecutionRequired)
     else tx Sql (
       bnd (query Sql (\<lambda>d. ())) (\<lambda>_.
       bnd (lock_leased r now) (\<lambda>_.
       bnd (stmt Sql (insert_execution \<lparr>ex_AttemptID = att, ex_OrgID = rq_OrgID r, ex_RequestID = rq_ID r,
              ex_LeaseID = rq_LeaseID r, ex_TerminatedAt = None, ex_Evidence = '''', ex_CreatedAt = now, ex_Owner = None,
              ex_Digest = None, ex_LastChecked = None, ex_ReceiptVersion = None, ex_UpstreamStatus = None,
              ex_CompletedAt = None\<rparr>)) (\<lambda>_.
       ret (Commit ()))))))"

definition unbound :: "review_request \<Rightarrow> uuid \<Rightarrow> review_execution \<Rightarrow> bool" where
  "unbound r att e \<longleftrightarrow> ex_AttemptID e = att \<and> ex_OrgID e = rq_OrgID r \<and> ex_RequestID e = rq_ID r
     \<and> ex_LeaseID e = rq_LeaseID r \<and> ex_Owner e = None \<and> ex_TerminatedAt e = None"

definition bindReviewExecution :: "ctx \<Rightarrow> time \<Rightarrow> review_request \<Rightarrow> uuid \<Rightarrow> string \<Rightarrow> string \<Rightarrow> unit reviews_op" where
  "bindReviewExecution ctx now r att owner digest =
     bnd (require_org ctx (rq_OrgID r)) (\<lambda>_.
     tx Sql (
       bnd (query Sql (\<lambda>d. ())) (\<lambda>_.
       bnd (lock_leased r now) (\<lambda>_.
       bnd (stmt Sql (update_executions (unbound r att) (\<lambda>e. e\<lparr>ex_Owner := Some owner, ex_Digest := Some digest\<rparr>))) (\<lambda>n.
       if n \<noteq> 1 then fail (App BindingRefused) else ret (Commit ()))))))"

record outstanding_execution =
  ox_AttemptID :: uuid
  ox_Owner :: string
  ox_Digest :: string

definition org_scope :: "ctx \<Rightarrow> uuid reviews_op" where
  "org_scope ctx =
     (case FromContext ctx of
        Inl _ \<Rightarrow> fail (App OrgScopeRequired)
      | Inr scope \<Rightarrow> if s_OrgID scope = uuid_Nil then fail (App OrgScopeRequired) else ret (s_OrgID scope))"

text \<open>The four that were checked longest ago, those never checked first.\<close>

definition due_executions :: "uuid \<Rightarrow> reviewsdb \<Rightarrow> review_execution list" where
  "due_executions org d = take 4 (sort_key (\<lambda>e. case ex_LastChecked e of None \<Rightarrow> [] | Some t \<Rightarrow> [t])
     (sort_key ex_CreatedAt (sort_key ex_AttemptID
       (filter (\<lambda>e. ex_OrgID e = org \<and> ex_TerminatedAt e = None \<and> ex_Owner e \<noteq> None) (executions d)))))"

definition takeReviewExecutions :: "ctx \<Rightarrow> time \<Rightarrow> outstanding_execution list reviews_op" where
  "takeReviewExecutions ctx now =
     bnd (org_scope ctx) (\<lambda>org.
     update Sql (\<lambda>d. let due = due_executions org d in
       (map (\<lambda>e. \<lparr>ox_AttemptID = ex_AttemptID e, ox_Owner = the (ex_Owner e), ox_Digest = the (ex_Digest e)\<rparr>) due,
        d\<lparr>executions := update_rows (\<lambda>e. ex_AttemptID e \<in> ex_AttemptID ` set due \<and> ex_OrgID e = org)
          (\<lambda>e. e\<lparr>ex_LastChecked := Some now\<rparr>) (executions d)\<rparr>)))"

record receipt =
  rp_Version :: int
  rp_ExecutionID :: string
  rp_Digest :: string
  rp_Phase :: string
  rp_Terminal :: bool
  rp_UpstreamStatus :: int
  rp_CreatedAt :: time
  rp_CompletedAt :: "time option"

text \<open>The zero instant is \<^const>\<open>epoch\<close>.\<close>

definition receipt_validate :: "(uuid \<Rightarrow> string) \<Rightarrow> receipt \<Rightarrow> outstanding_execution \<Rightarrow> bool" where
  "receipt_validate utext r e \<longleftrightarrow> \<not> (rp_Version r \<noteq> 1 \<or> ox_AttemptID e = uuid_Nil \<or> rp_ExecutionID r \<noteq> utext (ox_AttemptID e)
     \<or> length (ox_Digest e) \<noteq> 64 \<or> rp_Digest r \<noteq> ox_Digest e \<or> rp_Phase r \<noteq> ''completed'' \<or> \<not> rp_Terminal r
     \<or> rp_UpstreamStatus r \<noteq> 200 \<or> rp_CreatedAt r = epoch
     \<or> (case rp_CompletedAt r of None \<Rightarrow> True | Some t \<Rightarrow> t = epoch \<or> t < rp_CreatedAt r))"

definition bound_to :: "uuid \<Rightarrow> outstanding_execution \<Rightarrow> review_execution \<Rightarrow> bool" where
  "bound_to org e x \<longleftrightarrow> ex_AttemptID x = ox_AttemptID e \<and> ex_OrgID x = org
     \<and> ex_Owner x = Some (ox_Owner e) \<and> ex_Digest x = Some (ox_Digest e)"

definition confirmReviewReceipt :: "(uuid \<Rightarrow> string) \<Rightarrow> ctx \<Rightarrow> time \<Rightarrow> outstanding_execution \<Rightarrow> receipt \<Rightarrow> unit reviews_op" where
  "confirmReviewReceipt utext ctx now e rcpt =
     bnd (org_scope ctx) (\<lambda>org.
     if \<not> receipt_validate utext rcpt e then fail (App ReceiptNotProof)
     else tx Sql (
       bnd (query Sql (\<lambda>d. ())) (\<lambda>_.
       bnd (stmt Sql (update_executions (\<lambda>x. bound_to org e x \<and> ex_TerminatedAt x = None)
              (\<lambda>x. x\<lparr>ex_TerminatedAt := Some now, ex_Evidence := ''gateway_receipt'', ex_ReceiptVersion := Some (rp_Version rcpt),
                     ex_UpstreamStatus := Some (rp_UpstreamStatus rcpt), ex_CompletedAt := rp_CompletedAt rcpt\<rparr>))) (\<lambda>n.
       if n = 1 then ret (Commit ())
       else
         bnd (query Sql (\<lambda>d. \<exists>x \<in> set (executions d). bound_to org e x \<and> ex_Evidence x = ''gateway_receipt''
                \<and> ex_CompletedAt x = rp_CompletedAt rcpt)) (\<lambda>confirmed.
         if \<not> confirmed then fail (App ReceiptMismatched) else ret (Commit ()))))))"

text \<open>\<open>status\<close> is what the configured owner answers about an attempt, if it can be read as a receipt.\<close>

definition reconcileOne :: "(uuid \<Rightarrow> string) \<Rightarrow> string \<Rightarrow> (uuid \<Rightarrow> receipt option) \<Rightarrow> ctx \<Rightarrow> time \<Rightarrow> outstanding_execution \<Rightarrow> unit reviews_op" where
  "reconcileOne utext owner status ctx now e =
     (if ox_Owner e \<noteq> owner then fail (App HeldByOtherOwner)
      else (case status (ox_AttemptID e) of
              None \<Rightarrow> fail (App OwnerUnavailable)
            | Some rcpt \<Rightarrow> confirmReviewReceipt utext ctx now e rcpt))"

fun reconcile_each :: "(uuid \<Rightarrow> string) \<Rightarrow> string \<Rightarrow> (uuid \<Rightarrow> receipt option) \<Rightarrow> ctx \<Rightarrow> time \<Rightarrow> outstanding_execution list \<Rightarrow> unit reviews_op" where
  "reconcile_each utext owner status ctx now [] = ret ()"
| "reconcile_each utext owner status ctx now (e # es) =
     bnd (attempt (reconcileOne utext owner status ctx now e) :: (_, reviewerr fault, _) op)
       (\<lambda>_. reconcile_each utext owner status ctx now es)"

definition reconcileReviewExecutions :: "(uuid \<Rightarrow> string) \<Rightarrow> string \<Rightarrow> (uuid \<Rightarrow> receipt option) \<Rightarrow> ctx \<Rightarrow> time \<Rightarrow> unit reviews_op" where
  "reconcileReviewExecutions utext owner status ctx now =
     bnd (takeReviewExecutions ctx now) (reconcile_each utext owner status ctx now)"

end
