(* ===== verification/NF_ReviewHistory.thy ===== *)
theory NF_ReviewHistory
  imports NF_Reviews
begin

text \<open>
  What every operation of the reviews store respects. A history is any sequence of its operations, each
  with the statements that fail in it; the locale \<open>review_frame\<close> states the contract of its statements,
  and what meets the contract holds of every history.
\<close>

section \<open>Histories\<close>

text \<open>
  \<open>CmdRequest\<close> is the statement of \<open>RequestAgentReview\<close>, which files a request as queued; the commands of
  the worker run under its one configuration.
\<close>

datatype review_cmd =
    CmdCreate uuid time erun
  | CmdState ctx uuid string
  | CmdStep uuid int string string
  | CmdStepState uuid int string
  | CmdComment uuid time uuid uuid string string
  | CmdProof ctx time uuid string string string
  | CmdReview ctx time uuid uuid string string string string
  | CmdPurgeRepository ctx uuid
  | CmdPurgeOrganization ctx
  | CmdRequest review_request
  | CmdClaim ctx uuid time
  | CmdSave ctx time review_request "attempt_record option"
  | CmdBegin ctx time review_request uuid
  | CmdBind ctx time review_request uuid string string
  | CmdTake ctx time
  | CmdConfirm ctx time outstanding_execution receipt

definition quiet :: "'a reviews_op \<Rightarrow> unit reviews_op" where
  "quiet m = bnd m (\<lambda>_. ret ())"

fun review_run :: "(uuid \<Rightarrow> string) \<Rightarrow> review_config \<Rightarrow> review_cmd \<Rightarrow> unit reviews_op" where
  "review_run utext conf (CmdCreate new_id now run) = quiet (CreateRun new_id now run)"
| "review_run utext conf (CmdState ctx rid st) = setRunState ctx rid st"
| "review_run utext conf (CmdStep rid i t st) = AddPlanStep rid i t st"
| "review_run utext conf (CmdStepState rid i st) = SetPlanStepState rid i st"
| "review_run utext conf (CmdComment new_id now rid who kind body) = quiet (AddComment new_id now rid who kind body)"
| "review_run utext conf (CmdProof ctx now rid gate st detail) = RecordProof utext ctx now rid gate st detail"
| "review_run utext conf (CmdReview ctx now rid who kind verdict sha summary) = SubmitReviewAt ctx now rid who kind verdict sha summary"
| "review_run utext conf (CmdPurgeRepository ctx repo) = quiet (PurgeRepository ctx repo)"
| "review_run utext conf (CmdPurgeOrganization ctx) = quiet (PurgeOrganization ctx)"
| "review_run utext conf (CmdRequest q) = quiet (stmt Sql (insert_request (q\<lparr>rq_State := ''queued''\<rparr>)))"
| "review_run utext conf (CmdClaim ctx lease now) = quiet (claimReview ctx lease now conf)"
| "review_run utext conf (CmdSave ctx now r att) = saveReview ctx now r att"
| "review_run utext conf (CmdBegin ctx now r att) = beginReviewExecution ctx now r att"
| "review_run utext conf (CmdBind ctx now r att owner digest) = bindReviewExecution ctx now r att owner digest"
| "review_run utext conf (CmdTake ctx now) = quiet (takeReviewExecutions ctx now)"
| "review_run utext conf (CmdConfirm ctx now e rcpt) = confirmReviewReceipt utext ctx now e rcpt"

definition review_exec :: "(uuid \<Rightarrow> string) \<Rightarrow> review_config \<Rightarrow> review_cmd \<times> bool list \<Rightarrow> reviewsdb \<Rightarrow> reviewsdb" where
  "review_exec utext conf c d = fst (snd (review_run utext conf (fst c) (d, snd c)))"

definition no_reviews :: reviewsdb where
  "no_reviews = \<lparr>runs = [], plan_steps = [], proofs = [], proof_audit = [], comments = [], reviews = [], requests = [],
     executions = [], outbox = []\<rparr>"

fun is_purge :: "review_cmd \<Rightarrow> bool" where
  "is_purge (CmdPurgeRepository ctx repo) = True"
| "is_purge (CmdPurgeOrganization ctx) = True"
| "is_purge _ = False"

section \<open>What the statements write\<close>

lemma insert_run_row:
  assumes "insert_run r d = Inr (a, d')"
  shows "d' = d\<lparr>runs := runs d @ [r\<lparr>er_Number := next_number (er_RepoID r) d\<rparr>],
      outbox := outbox d @ [\<lparr>ev_RunID = er_ID r, ev_State = er_State r, ev_Previous = ''''\<rparr>]\<rparr>
    \<and> er_ID r \<notin> er_ID ` set (runs d) \<and> er_State r \<in> set run_states \<and> er_AuthorKind r \<in> set author_kinds"
  using assms unfolding insert_run_def Let_def by (simp split: if_split_asm) (elim conjE, hypsubst, simp)

lemma update_state_rows:
  assumes "update_state rid org st d = Inr (n, d')"
  shows "d' = d\<lparr>runs := update_rows (\<lambda>r. er_ID r = rid \<and> er_OrgID r = org) (\<lambda>r. r\<lparr>er_State := st\<rparr>) (runs d),
      outbox := outbox d @ state_events (\<lambda>r. er_ID r = rid \<and> er_OrgID r = org) st (runs d)\<rparr>
    \<and> (\<forall>r \<in> set (runs d). er_ID r = rid \<and> er_OrgID r = org \<longrightarrow> st \<in> set run_states)"
  using assms unfolding update_state_def Let_def affected_pos by (simp split: if_split_asm) blast

lemma upsert_proof_cases:
  obtains (kept) "snd (upsert_proof org p d) = d"
  | (replaced) "pf_RunID p \<in> er_ID ` set (runs d)" "snd (upsert_proof org p d) = d\<lparr>proofs := update_rows (replaceable p) (\<lambda>q. p) (proofs d)\<rparr>"
  | (added) "pf_RunID p \<in> er_ID ` set (runs d)" "(pf_RunID p, pf_Gate p) \<notin> (\<lambda>p. (pf_RunID p, pf_Gate p)) ` set (proofs d)"
        "snd (upsert_proof org p d) = d\<lparr>proofs := proofs d @ [p]\<rparr>"
proof (cases "\<exists>r \<in> set (runs d). er_ID r = pf_RunID p \<and> er_OrgID r = org")
  case run: True
  then have r: "pf_RunID p \<in> er_ID ` set (runs d)" by force
  show ?thesis
  proof (cases "\<exists>q \<in> set (proofs d). pf_RunID q = pf_RunID p \<and> pf_Gate q = pf_Gate p")
    case True
    with run show ?thesis by (intro replaced[OF r]) (simp only: upsert_proof_def not_True_eq_False if_False if_True snd_conv)
  next
    case False
    then have "(pf_RunID p, pf_Gate p) \<notin> (\<lambda>p. (pf_RunID p, pf_Gate p)) ` set (proofs d)" by force
    with False run show ?thesis by (intro added[OF r]) (simp_all only: upsert_proof_def not_True_eq_False not_False_eq_True if_False if_True snd_conv)
  qed
qed (rule kept, simp only: upsert_proof_def not_False_eq_True if_True snd_conv)

lemma upsert_review_cases:
  assumes "upsert_review P v d = Inr (m, d')"
  obtains (kept) "d' = d"
  | (replaced) r where "r \<in> set (runs d)" "er_ID r = rv_RunID v" "P r"
      "d' = d\<lparr>reviews := update_rows (\<lambda>q. rv_RunID q = rv_RunID v \<and> rv_ReviewerID q = rv_ReviewerID v) (\<lambda>q. v) (reviews d)\<rparr>"
  | (added) r where "r \<in> set (runs d)" "er_ID r = rv_RunID v" "P r" "(rv_RunID v, rv_ReviewerID v) \<notin> (\<lambda>v. (rv_RunID v, rv_ReviewerID v)) ` set (reviews d)"
      "d' = d\<lparr>reviews := reviews d @ [v]\<rparr>"
proof (cases "\<exists>r \<in> set (runs d). er_ID r = rv_RunID v \<and> P r")
  case run: True
  then obtain r where r: "r \<in> set (runs d)" "er_ID r = rv_RunID v" "P r" by blast
  show ?thesis
  proof (cases "\<exists>q \<in> set (reviews d). rv_RunID q = rv_RunID v \<and> rv_ReviewerID q = rv_ReviewerID v")
    case True
    with run assms show ?thesis
      by (intro replaced[OF r]) (simp add: upsert_review_def Let_def split: if_split_asm; blast)
  next
    case False
    then have "(rv_RunID v, rv_ReviewerID v) \<notin> (\<lambda>v. (rv_RunID v, rv_ReviewerID v)) ` set (reviews d)" by force
    moreover have "d' = d\<lparr>reviews := reviews d @ [v]\<rparr>"
      using assms run unfolding upsert_review_def Let_def if_not_P[OF False]
      by (simp only: not_True_eq_False if_False split: if_split_asm) (simp_all only: sum.simps prod.inject)
    ultimately show ?thesis by (rule added[OF r])
  qed
next
  case False
  with assms show ?thesis by (intro kept) (simp add: upsert_review_def Let_def split: if_split_asm)
qed

section \<open>The contract of the statements\<close>

text \<open>The tables whose rows the other rows are about.\<close>

definition evidence :: "reviewsdb \<Rightarrow> erun list \<times> proof_record list \<times> review list \<times> review_request list
    \<times> review_execution list \<times> run_event list" where
  "evidence d = (runs d, proofs d, reviews d, requests d, executions d, outbox d)"

definition not_own :: "(erun \<Rightarrow> bool) \<Rightarrow> review \<Rightarrow> reviewsdb \<Rightarrow> bool" where
  "not_own P v d \<longleftrightarrow> (distinct (map er_ID (runs d)) \<longrightarrow>
     (\<forall>r \<in> set (runs d). er_ID r = rv_RunID v \<and> P r \<longrightarrow> er_AuthorID r \<noteq> rv_ReviewerID v))"

definition lose :: "uuid \<Rightarrow> time \<Rightarrow> reviewsdb \<Rightarrow> reviewsdb" where
  "lose org now d = d\<lparr>requests := update_rows (lease_lost org now)
     (\<lambda>q. q\<lparr>rq_State := ''uncertain'', rq_Detail := expired_detail\<rparr>) (requests d)\<rparr>"

definition checked :: "uuid \<Rightarrow> time \<Rightarrow> reviewsdb \<Rightarrow> reviewsdb" where
  "checked org now d = d\<lparr>executions := update_rows
     (\<lambda>e. ex_AttemptID e \<in> ex_AttemptID ` set (due_executions org d) \<and> ex_OrgID e = org)
     (\<lambda>e. e\<lparr>ex_LastChecked := Some now\<rparr>) (executions d)\<rparr>"

locale review_frame = db_frame R for R :: "reviewsdb \<Rightarrow> reviewsdb \<Rightarrow> bool" +
  fixes utext :: "uuid \<Rightarrow> string" and conf :: review_config
  assumes law_other: "evidence d' = evidence d \<Longrightarrow> R d d'"
    and law_run: "insert_run r d = Inr (a, d') \<Longrightarrow> R d d'"
    and law_state: "update_state rid org st d = Inr (n, d') \<Longrightarrow> R d d'"
    and law_proof: "proofProducer utext ctx (pf_Gate p) = Inr (pf_Producer p, pf_ActorID p) \<Longrightarrow> R d (snd (upsert_proof org p d))"
    and law_review: "not_own P v d \<Longrightarrow> upsert_review P v d = Inr (m, d') \<Longrightarrow> R d d'"
    and law_request: "rq_State q = ''queued'' \<Longrightarrow> insert_request q d = Inr (b, d') \<Longrightarrow> R d d'"
    and law_lost: "R d (lose org now d)"
    and law_lease: "int (card (outstanding org d)) < cf_MaxConcurrent conf \<Longrightarrow> R d (snd (lease_queued org lease until d))"
    and law_save: "save_request q now d = Inr (n, d') \<Longrightarrow> R d d'"
    and law_begin: "ex_TerminatedAt e = None \<Longrightarrow> ex_Evidence e = '''' \<Longrightarrow>
       \<exists>q \<in> set (requests d). rq_ID q = ex_RequestID e \<and> rq_OrgID q = ex_OrgID e \<and> rq_State q = ''running'' \<Longrightarrow>
       insert_execution e d = Inr (u, d') \<Longrightarrow> R d d'"
    and law_executions: "update_executions Q f d = Inr (n, d') \<Longrightarrow>
       (\<And>e. ex_TerminatedAt (f e) \<noteq> None \<Longrightarrow> ex_TerminatedAt e = None \<Longrightarrow> ex_Evidence (f e) = ''gateway_receipt'') \<Longrightarrow> R d d'"
    and law_checked: "R d (checked org now d)"
begin

lemma law_step: "insert_plan_step s d = Inr (u, d') \<Longrightarrow> R d d'"
  by (rule law_other) (auto simp: insert_plan_step_def evidence_def split: if_splits)

lemma law_comment: "insert_comment s d = Inr (u, d') \<Longrightarrow> R d d'"
  by (rule law_other) (auto simp: insert_comment_def evidence_def split: if_splits)

lemma law_audit: "R d (snd (append_audit org rid gate d))"
  by (rule law_other) (simp add: append_audit_def evidence_def)

lemma law_step_state: "R d (d\<lparr>plan_steps := ps\<rparr>)"
  by (rule law_other) (simp add: evidence_def)

lemma reviews_GetRun: "within R (GetRun ctx rid)"
  unfolding GetRun_def by (intro frame_rules frame_from_context)

lemma within_org_scope: "within R (org_scope ctx)"
  by (cases ctx) (simp_all add: org_scope_def frame_fail frame_ret)

lemma reviews_purgeOrg: "within R (purgeOrg ctx)"
  by (cases ctx) (simp_all add: purgeOrg_def frame_fail frame_ret)

lemma within_quiet: "within R m \<Longrightarrow> within R (quiet m)"
  unfolding quiet_def by (intro frame_rules)

lemma within_setRunState: "within R (setRunState ctx rid st)"
proof (cases ctx)
  case (Some s)
  then show ?thesis unfolding setRunState_def
    by simp (intro conjI impI frame_rules, erule law_state)
qed (simp add: setRunState_def frame_fail)

lemma within_RecordProof: "within R (RecordProof utext ctx now rid gate st detail)"
proof (cases "proofProducer utext ctx gate")
  case (Inr pa)
  obtain pr act where pa: "pa = (pr, act)" by (cases pa)
  show ?thesis unfolding RecordProof_def Inr pa sum.case prod.case
    by (intro frame_rules frame_from_context law_audit law_proof[where ctx = ctx]) (simp add: Inr pa)
qed (simp add: RecordProof_def frame_fail)

lemma find_run_author:
  assumes "find_run org rid d = Some run" "distinct (map er_ID (runs d))" "r \<in> set (runs d)" "er_ID r = rid"
  shows "er_AuthorID r = er_AuthorID run"
proof -
  obtain r0 where r0: "List.find (\<lambda>r. er_OrgID r = org \<and> er_ID r = rid) (runs d) = Some r0" "run = read_run r0"
    using assms(1) by (auto simp: find_run_def)
  then have "r0 \<in> set (runs d)" "er_ID r0 = rid" using find_Some_in by fastforce+
  with assms(2-4) have "r0 = r" by (metis distinct_map inj_on_def)
  with r0 show ?thesis by (simp add: read_run_def)
qed

lemma within_SubmitReviewAt: "within R (SubmitReviewAt ctx now rid who kind verdict sha summary)"
  unfolding SubmitReviewAt_def
proof (rule frame_bnd_read[OF reviews_GetRun])
  fix w w1 run assume get: "GetRun ctx rid w = (Inr run, w1)"
  let ?v = "\<lparr>rv_SourceSHA = sha, rv_Summary = summary, rv_RunID = rid, rv_ReviewerID = who, rv_ReviewerKind = kind,
    rv_Verdict = verdict, rv_CreatedAt = now\<rparr>"
  let ?P = "\<lambda>r. er_OrgID r = er_OrgID run \<and> er_State r = ''open''"
  obtain org where found: "find_run org rid (fst w1) = Some run"
    using get by (auto simp: GetRun_def from_context_def run_simps split: option.splits)
  show "R (fst w1) (fst (snd ((if who = er_AuthorID run then fail (App AuthorCannotApprove)
    else if verdict \<notin> set verdicts then fail (App (InvalidVerdict verdict))
    else bnd (stmt Sql (upsert_review ?P ?v)) (\<lambda>n. if n \<noteq> 1 then fail (App RunNotOpen) else ret ())) w1)))"
  proof (cases "who = er_AuthorID run \<or> verdict \<notin> set verdicts")
    case False
    then have "not_own ?P ?v (fst w1)"
      using find_run_author[OF found] by (auto simp: not_own_def)
    then have "R (fst w1) (fst (snd (bnd (stmt Sql (upsert_review ?P ?v)) (\<lambda>n. if n \<noteq> 1 then fail (App RunNotOpen) else ret ()) w1)))"
      by (intro frame_bnd_at frame_stmt_at frame_if frame_fail frame_ret) (rule law_review)
    with False show ?thesis by simp
  qed (auto simp: fail_def frame_refl)
qed

lemma reviews_claim: "within R (claimReview ctx lease now conf)"
proof (cases ctx)
  case (Some s)
  have "within R (bnd (query Sql (\<lambda>d. card (outstanding (s_OrgID s) d))) (\<lambda>count.
      if cf_MaxConcurrent conf \<le> int count then ret (Commit None)
      else bnd (update Sql (lease_queued (s_OrgID s) lease (now + (cf_Wallclock conf + 30) * second))) (\<lambda>row.
        ret (Commit row))))"
  proof (rule frame_bnd_read[OF frame_query])
    fix w w1 count assume q: "query Sql (\<lambda>d. card (outstanding (s_OrgID s) d)) w = (Inr count, w1)"
    show "R (fst w1) (fst (snd ((if cf_MaxConcurrent conf \<le> int count then ret (Commit None)
      else bnd (update Sql (lease_queued (s_OrgID s) lease (now + (cf_Wallclock conf + 30) * second))) (\<lambda>row.
        ret (Commit row))) w1)))"
    proof (cases "cf_MaxConcurrent conf \<le> int count")
      case False
      with q have "int (card (outstanding (s_OrgID s) (fst w1))) < cf_MaxConcurrent conf" by (simp add: query_Inr)
      then have "R (fst w1) (fst (snd (bnd (update Sql (lease_queued (s_OrgID s) lease (now + (cf_Wallclock conf + 30) * second)))
        (\<lambda>row. ret (Commit row)) w1)))"
        by (intro frame_bnd_at frame_update_at frame_ret law_lease)
      with False show ?thesis by simp
    qed (simp add: ret_def frame_refl)
  qed
  note claim = this
  show ?thesis unfolding claimReview_def Some FromContext_def option.case sum.case
    by (intro frame_rules claim) (simp add: law_lost[unfolded lose_def])
qed (simp add: claimReview_def FromContext_def frame_fail)

lemma within_saveReview: "within R (saveReview ctx now r att)"
  unfolding saveReview_def
  by (intro frame_rules frame_require_org; (erule law_save)?; (erule law_review[rotated])?) (auto simp: not_own_def)

lemma within_begin: "within R (beginReviewExecution ctx now r att)"
proof -
  let ?e = "\<lparr>ex_AttemptID = att, ex_OrgID = rq_OrgID r, ex_RequestID = rq_ID r,
              ex_LeaseID = rq_LeaseID r, ex_TerminatedAt = None, ex_Evidence = '''', ex_CreatedAt = now, ex_Owner = None,
              ex_Digest = None, ex_LastChecked = None, ex_ReceiptVersion = None, ex_UpstreamStatus = None,
              ex_CompletedAt = None\<rparr>"
  have lock: "within R (lock_leased r now)" unfolding lock_leased_def by (intro frame_rules)
  have "within R (bnd (lock_leased r now) (\<lambda>_. bnd (stmt Sql (insert_execution ?e)) (\<lambda>_. ret (Commit ()))))"
  proof (rule frame_bnd_read[OF lock])
    fix w w1 u assume "lock_leased r now w = (Inr u, w1)"
    then have held: "\<exists>q \<in> set (requests (fst w1)). rq_ID q = ex_RequestID ?e \<and> rq_OrgID q = ex_OrgID ?e \<and> rq_State q = ''running''"
      by (auto simp: lock_leased_def run_simps leased_def split: if_splits)
    show "R (fst w1) (fst (snd (bnd (stmt Sql (insert_execution ?e)) (\<lambda>_. ret (Commit ())) w1)))"
      by (intro frame_bnd_at frame_stmt_at frame_ret) (rule law_begin[OF _ _ held], simp_all)
  qed
  note locked = this
  show ?thesis unfolding beginReviewExecution_def
    by (intro frame_bnd[OF frame_require_org] frame_if frame_fail frame_tx frame_bnd[OF frame_query] locked)
qed

lemma within_bind: "within R (bindReviewExecution ctx now r att owner digest)"
  unfolding bindReviewExecution_def lock_leased_def
  by (intro frame_rules frame_require_org; (erule law_executions)?) auto

lemma within_take: "within R (takeReviewExecutions ctx now)"
  unfolding takeReviewExecutions_def Let_def
  by (intro frame_bnd[OF within_org_scope] frame_update) (simp add: law_checked[unfolded checked_def])

lemma within_confirm: "within R (confirmReviewReceipt utext ctx now e rcpt)"
  unfolding confirmReviewReceipt_def
  by (intro frame_rules within_org_scope; (erule law_executions)?) auto

lemma within_review_run:
  assumes "\<not> is_purge c"
  shows "within R (review_run utext conf c)"
proof (cases c)
  case (CmdCreate new_id now run)
  show ?thesis unfolding CmdCreate review_run.simps CreateRun_def Let_def
    by (intro within_quiet frame_stmt) (erule law_run)
next
  case (CmdStep rid i t st)
  show ?thesis unfolding CmdStep review_run.simps AddPlanStep_def by (intro frame_stmt) (erule law_step)
next
  case (CmdStepState rid i st)
  show ?thesis unfolding CmdStepState review_run.simps SetPlanStepState_def Let_def
    by (intro frame_rules) (simp add: law_step_state)
next
  case (CmdComment new_id now rid who kind body)
  show ?thesis unfolding CmdComment review_run.simps AddComment_def Let_def
    by (intro within_quiet frame_rules) (erule law_comment)
next
  case (CmdRequest q)
  show ?thesis unfolding CmdRequest review_run.simps
    by (intro within_quiet frame_stmt) (erule law_request[rotated], simp)
qed (use assms in \<open>simp_all add: within_quiet within_setRunState within_RecordProof within_SubmitReviewAt reviews_claim
    within_saveReview within_begin within_bind within_take within_confirm\<close>)

lemma exec_R: "\<not> is_purge (fst c) \<Longrightarrow> R d (review_exec utext conf c d)"
  using withinD[OF within_review_run, of "fst c" "(d, snd c)"] by (simp add: review_exec_def)

lemma history_R: "\<forall>c \<in> set cs. \<not> is_purge (fst c) \<Longrightarrow> R d (fold (review_exec utext conf) cs d)"
  by (induction cs arbitrary: d) (auto intro: frame_refl frame_trans exec_R)

end

text \<open>A contract that deletion meets as well holds of every history.\<close>

locale review_purge_frame = review_frame +
  assumes law_delete: "R d (snd (delete_runs P d))"
begin

lemma reviews_purge: "is_purge c \<Longrightarrow> within R (review_run utext conf c)"
  by (cases c rule: is_purge.cases)
    (simp_all add: within_quiet frame_bnd[OF reviews_purgeOrg] frame_update law_delete PurgeRepository_def PurgeOrganization_def)

lemma any_exec_R: "R d (review_exec utext conf c d)"
proof (cases "is_purge (fst c)")
  case True
  then show ?thesis using withinD[OF reviews_purge, of "fst c" "(d, snd c)"] by (simp add: review_exec_def)
qed (rule exec_R)

lemma any_history_R: "R d (fold (review_exec utext conf) cs d)"
  by (induction cs arbitrary: d) (auto intro: frame_refl frame_trans any_exec_R)

end

end
