(* ===== verification/NF_ReviewProps.thy ===== *)
theory NF_ReviewProps
  imports NF_ReviewHistory
begin

text \<open>What holds of the reviews store after any history of its operations (\<open>internal/reviews\<close>).\<close>

lemmas review_statements = insert_run_def update_state_def upsert_proof_def upsert_review_def insert_request_def lose_def
  lease_queued_def save_request_def insert_execution_def update_executions_def checked_def delete_runs_def evidence_def Let_def

section \<open>Whose each row is\<close>

text \<open>Who may speak for a gate name, written out.\<close>

definition entitled :: "(uuid \<Rightarrow> string) \<Rightarrow> proof_record \<Rightarrow> bool" where
  "entitled utext p \<longleftrightarrow>
     pf_Producer p = ''human'' \<and> pf_ActorID p \<noteq> uuid_Nil
       \<and> (\<exists>label. pf_Gate p = ''assertion/'' @ utext (pf_ActorID p) @ ''/'' @ label \<and> assertion_label label)
     \<or> pf_Producer p = ''gates'' \<and> pf_ActorID p = uuid_Nil \<and> pf_Gate p \<in> set known_gates \<union> set gates_proofs
     \<or> pf_Producer p = ''work-reviews'' \<and> pf_ActorID p = uuid_Nil \<and> (\<exists>role \<in> set DefaultReviewRoles. pf_Gate p = ''review:'' @ role)
     \<or> pf_Producer p = ''agent-runtime'' \<and> pf_ActorID p = uuid_Nil \<and> pf_Gate p = ''agent-blocked''"

lemma proofProducer_entitled:
  assumes "proofProducer utext ctx (pf_Gate p) = Inr (pf_Producer p, pf_ActorID p)"
  shows "entitled utext p"
proof -
  obtain s where ctx: "ctx = Some s" using assms by (cases ctx) (auto simp: proofProducer_def FromContext_def)
  show ?thesis
    using assms unfolding proofProducer_def ctx FromContext_def entitled_def CutPrefix_def
    by (auto simp: prefix_def split: if_splits option.splits)
qed

definition attributed :: "(uuid \<Rightarrow> string) \<Rightarrow> reviewsdb \<Rightarrow> bool" where
  "attributed utext d \<longleftrightarrow>
     distinct (map er_ID (runs d))
     \<and> (\<forall>r \<in> set (runs d). er_State r \<in> set run_states \<and> er_AuthorKind r \<in> set author_kinds)
     \<and> distinct (map (\<lambda>r. (er_RepoID r, er_Number r)) (runs d))
     \<and> distinct (map (\<lambda>p. (pf_RunID p, pf_Gate p)) (proofs d))
     \<and> (\<forall>p \<in> set (proofs d). pf_RunID p \<in> er_ID ` set (runs d) \<and> entitled utext p)
     \<and> distinct (map (\<lambda>v. (rv_RunID v, rv_ReviewerID v)) (reviews d))
     \<and> (\<forall>v \<in> set (reviews d). \<exists>r \<in> set (runs d). er_ID r = rv_RunID v \<and> er_AuthorID r \<noteq> rv_ReviewerID v)"

lemma next_number_fresh: "r \<in> set (runs d) \<Longrightarrow> er_RepoID r = repo \<Longrightarrow> er_Number r < next_number repo d"
proof -
  have "x \<in> set xs \<Longrightarrow> x \<le> fold max xs b" for x :: nat and xs b
    by (induction xs arbitrary: b) (auto, metis List.finite_set Max.set_eq_fold Max_ge fold_simps(2) list.set_intros(1) max.commute max.left_commute)
  then show "r \<in> set (runs d) \<Longrightarrow> er_RepoID r = repo \<Longrightarrow> er_Number r < next_number repo d"
    unfolding next_number_def by (simp add: less_Suc_eq_le)
qed

lemma attributed_cong: "runs d' = runs d \<Longrightarrow> proofs d' = proofs d \<Longrightarrow> reviews d' = reviews d \<Longrightarrow> attributed utext d' = attributed utext d"
  by (simp add: attributed_def)

lemma keeps_attributed: "runs d' = runs d \<Longrightarrow> proofs d' = proofs d \<Longrightarrow> reviews d' = reviews d \<Longrightarrow> keeps (attributed utext) d d'"
  unfolding keeps_def using attributed_cong by blast

lemma attributed_run:
  assumes "insert_run r d = Inr (a, d')"
  shows "keeps (attributed utext) d d'"
proof (rule keepsI)
  assume ok: "attributed utext d"
  let ?r = "r\<lparr>er_Number := next_number (er_RepoID r) d\<rparr>"
  have d': "runs d' = runs d @ [?r]" "proofs d' = proofs d" "reviews d' = reviews d"
    and fresh: "er_ID r \<notin> er_ID ` set (runs d)" "er_State r \<in> set run_states" "er_AuthorKind r \<in> set author_kinds"
    using insert_run_row[OF assms] by simp_all
  have "(er_RepoID r, next_number (er_RepoID r) d) \<notin> (\<lambda>r. (er_RepoID r, er_Number r)) ` set (runs d)"
    using next_number_fresh[of _ d "er_RepoID r"] by force
  with ok fresh show "attributed utext d'" unfolding attributed_def d' by auto
qed

lemma attributed_state:
  assumes "update_state rid org st d = Inr (n, d')"
  shows "keeps (attributed utext) d d'"
proof (rule keepsI)
  assume ok: "attributed utext d"
  let ?P = "\<lambda>r. er_ID r = rid \<and> er_OrgID r = org"
  let ?f = "\<lambda>r. if ?P r then r\<lparr>er_State := st\<rparr> else r"
  have d': "runs d' = map ?f (runs d)" "proofs d' = proofs d" "reviews d' = reviews d"
    and st: "\<And>r. r \<in> set (runs d) \<Longrightarrow> ?P r \<Longrightarrow> st \<in> set run_states"
    using update_state_rows[OF assms] by (simp_all add: update_rows_def) blast
  have ids: "map er_ID (map ?f (runs d)) = map er_ID (runs d)"
    "map (\<lambda>r. (er_RepoID r, er_Number r)) (map ?f (runs d)) = map (\<lambda>r. (er_RepoID r, er_Number r)) (runs d)" by simp_all
  have idset: "er_ID ` set (map ?f (runs d)) = er_ID ` set (runs d)"
    by (metis ids(1) list.set_map)
  have "er_State r \<in> set run_states \<and> er_AuthorKind r \<in> set author_kinds" if "r \<in> set (map ?f (runs d))" for r
    using that ok st by (auto simp: attributed_def)
  moreover have "\<exists>r \<in> set (map ?f (runs d)). er_ID r = rv_RunID v \<and> er_AuthorID r \<noteq> rv_ReviewerID v" if "v \<in> set (reviews d)" for v
  proof -
    have "\<forall>v \<in> set (reviews d). \<exists>r \<in> set (runs d). er_ID r = rv_RunID v \<and> er_AuthorID r \<noteq> rv_ReviewerID v"
      using ok unfolding attributed_def by (elim conjE)
    with that obtain r where "r \<in> set (runs d)" "er_ID r = rv_RunID v" "er_AuthorID r \<noteq> rv_ReviewerID v" by blast
    then show ?thesis by (intro bexI[of _ "?f r"]) auto
  qed
  ultimately show "attributed utext d'"
    using ok unfolding attributed_def d' ids idset by blast
qed

lemma attributed_proof:
  assumes "proofProducer utext ctx (pf_Gate p) = Inr (pf_Producer p, pf_ActorID p)"
  shows "keeps (attributed utext) d (snd (upsert_proof org p d))"
proof (rule keepsI)
  assume ok: "attributed utext d"
  note e = proofProducer_entitled[OF assms]
  have keys: "map (\<lambda>p. (pf_RunID p, pf_Gate p)) (update_rows (replaceable p) (\<lambda>q. p) (proofs d)) = map (\<lambda>p. (pf_RunID p, pf_Gate p)) (proofs d)"
    by (rule map_update_rows) (auto simp: replaceable_def)
  show "attributed utext (snd (upsert_proof org p d))"
  proof (cases rule: upsert_proof_cases[of org p d])
    case replaced
    then show ?thesis using ok e unfolding attributed_def by (simp add: keys set_update_rows) auto
  qed (use ok e in \<open>auto simp: attributed_def\<close>)
qed

lemma attributed_review:
  assumes own: "not_own P v d" and "upsert_review P v d = Inr (m, d')"
  shows "keeps (attributed utext) d d'"
proof (rule keepsI)
  assume ok: "attributed utext d"
  let ?same = "\<lambda>q. rv_RunID q = rv_RunID v \<and> rv_ReviewerID q = rv_ReviewerID v"
  have keys: "map (\<lambda>v. (rv_RunID v, rv_ReviewerID v)) (update_rows ?same (\<lambda>q. v) (reviews d)) = map (\<lambda>v. (rv_RunID v, rv_ReviewerID v)) (reviews d)"
    by (rule map_update_rows) auto
  have by_other: "\<exists>r \<in> set (runs d). er_ID r = rv_RunID v \<and> er_AuthorID r \<noteq> rv_ReviewerID v"
    if "r \<in> set (runs d)" "er_ID r = rv_RunID v" "P r" for r
    using own ok that by (auto simp: not_own_def attributed_def)
  show "attributed utext d'"
    using assms(2)
  proof (cases rule: upsert_review_cases)
    case (replaced r)
    then show ?thesis using ok by_other[OF replaced(1-3)] unfolding attributed_def by (simp add: keys set_update_rows) auto
  next
    case (added r)
    then show ?thesis using ok by_other[OF added(1-3)] unfolding attributed_def by auto
  qed (use ok in simp)
qed

lemma attributed_delete: "keeps (attributed utext) d (snd (delete_runs P d))"
proof (rule keepsI)
  assume ok: "attributed utext d"
  let ?gone = "er_ID ` set (filter P (runs d))"
  have d': "runs (snd (delete_runs P d)) = filter (\<lambda>r. \<not> P r) (runs d)"
    "proofs (snd (delete_runs P d)) = filter (\<lambda>p. pf_RunID p \<notin> ?gone) (proofs d)"
    "reviews (snd (delete_runs P d)) = filter (\<lambda>v. rv_RunID v \<notin> ?gone) (reviews d)"
    by (simp_all add: delete_runs_def Let_def)
  have left: "x \<in> er_ID ` set (filter (\<lambda>r. \<not> P r) (runs d))" if "x \<in> er_ID ` set (runs d)" "x \<notin> ?gone" for x
    using that by auto
  have by_other: "\<exists>r \<in> set (filter (\<lambda>r. \<not> P r) (runs d)). er_ID r = rv_RunID v \<and> er_AuthorID r \<noteq> rv_ReviewerID v"
    if "v \<in> set (reviews d)" "rv_RunID v \<notin> ?gone" for v
  proof -
    have "\<forall>v \<in> set (reviews d). \<exists>r \<in> set (runs d). er_ID r = rv_RunID v \<and> er_AuthorID r \<noteq> rv_ReviewerID v"
      using ok unfolding attributed_def by (elim conjE)
    with that obtain r where r: "r \<in> set (runs d)" "er_ID r = rv_RunID v" "er_AuthorID r \<noteq> rv_ReviewerID v" by blast
    then have "\<not> P r" using that(2) by force
    with r show ?thesis by auto
  qed
  show "attributed utext (snd (delete_runs P d))"
    using ok left by_other unfolding attributed_def d' by (simp add: distinct_map_filter)
qed

lemma same_evidence:
  assumes "evidence d' = evidence d"
  shows "runs d' = runs d" "proofs d' = proofs d" "reviews d' = reviews d" "requests d' = requests d"
    "executions d' = executions d" "outbox d' = outbox d"
  using assms by (simp_all add: evidence_def)

text \<open>The statements on requests and executions write nothing else.\<close>

lemma writes_requests:
  "insert_request q d = Inr (b, d') \<Longrightarrow> \<exists>qs. d' = d\<lparr>requests := qs\<rparr>"
  "\<exists>qs. lose org now d = d\<lparr>requests := qs\<rparr>"
  "\<exists>qs. snd (lease_queued org lease until d) = d\<lparr>requests := qs\<rparr>"
  "save_request q now d = Inr (n, d') \<Longrightarrow> \<exists>qs. d' = d\<lparr>requests := qs\<rparr>"
proof -
  have refl: "\<exists>qs. d = d\<lparr>requests := qs\<rparr>" by (rule exI[of _ "requests d"]) simp
  show "insert_request q d = Inr (b, d') \<Longrightarrow> \<exists>qs. d' = d\<lparr>requests := qs\<rparr>"
    using refl unfolding insert_request_def by (simp split: if_split_asm option.split_asm) blast+
  show "\<exists>qs. lose org now d = d\<lparr>requests := qs\<rparr>" unfolding lose_def by blast
  show "\<exists>qs. snd (lease_queued org lease until d) = d\<lparr>requests := qs\<rparr>"
    using refl unfolding lease_queued_def Let_def by (cases "queued_of org d") (simp, simp, blast)
  show "save_request q now d = Inr (n, d') \<Longrightarrow> \<exists>qs. d' = d\<lparr>requests := qs\<rparr>"
    unfolding save_request_def by (simp split: if_split_asm) blast
qed

lemma writes_executions:
  "insert_execution e d = Inr (u, d') \<Longrightarrow> \<exists>es. d' = d\<lparr>executions := es\<rparr>"
  "update_executions Q f d = Inr (n, d') \<Longrightarrow> \<exists>es. d' = d\<lparr>executions := es\<rparr>"
  "\<exists>es. checked org now d = d\<lparr>executions := es\<rparr>"
  unfolding insert_execution_def update_executions_def checked_def
  by (simp_all split: if_split_asm) blast+

lemma keeps_elsewhere:
  "\<exists>qs. d' = d\<lparr>requests := qs\<rparr> \<Longrightarrow> keeps (attributed utext) d d'" "\<exists>es. d' = d\<lparr>executions := es\<rparr> \<Longrightarrow> keeps (attributed utext) d d'"
  by (auto intro: keeps_attributed)

interpretation attributed_frame: review_purge_frame "keeps (attributed utext)" utext conf for utext conf
  by unfold_locales (fast intro: keeps_attributed same_evidence attributed_run attributed_state attributed_proof
    attributed_review attributed_delete keeps_elsewhere writes_requests writes_executions)+

section \<open>Nobody takes over a proof\<close>

definition same_producer :: "proof_record \<Rightarrow> proof_record \<Rightarrow> bool" where
  "same_producer p p' \<longleftrightarrow> pf_RunID p' = pf_RunID p \<and> pf_Gate p' = pf_Gate p \<and> pf_Producer p' = pf_Producer p \<and> pf_ActorID p' = pf_ActorID p"

definition producers_kept :: "reviewsdb \<Rightarrow> reviewsdb \<Rightarrow> bool" where
  "producers_kept d d' \<longleftrightarrow> (\<forall>p \<in> set (proofs d). pf_Producer p \<noteq> '''' \<longrightarrow> (\<exists>p' \<in> set (proofs d'). same_producer p p'))"

lemma producers_same: "proofs d' = proofs d \<Longrightarrow> producers_kept d d'"
  by (auto simp: producers_kept_def same_producer_def)

lemma producers_upsert: "producers_kept d (snd (upsert_proof org p d))"
proof (cases rule: upsert_proof_cases[of org p d])
  case replaced
  have "\<exists>p' \<in> set (proofs (snd (upsert_proof org p d))). same_producer q p'" if q: "q \<in> set (proofs d)" "pf_Producer q \<noteq> ''''" for q
  proof (cases "replaceable p q")
    case True
    with q(2) have "same_producer q p" by (auto simp: replaceable_def same_producer_def)
    with q(1) True show ?thesis unfolding replaced by (auto simp: set_update_rows)
  next
    case False
    with q(1) show ?thesis unfolding replaced by (auto simp: set_update_rows same_producer_def)
  qed
  then show ?thesis by (simp add: producers_kept_def)
next
  case added
  then show ?thesis unfolding producers_kept_def added by (auto simp: same_producer_def)
qed (simp add: producers_same)

lemma producers_kept_trans: "producers_kept a b \<Longrightarrow> producers_kept b c \<Longrightarrow> producers_kept a c"
  unfolding producers_kept_def same_producer_def by metis

lemma producers_elsewhere:
  "\<exists>qs. d' = d\<lparr>requests := qs\<rparr> \<Longrightarrow> producers_kept d d'" "\<exists>es. d' = d\<lparr>executions := es\<rparr> \<Longrightarrow> producers_kept d d'"
  by (auto intro: producers_same)

lemma proofs_untouched:
  "insert_run r d = Inr (a, d') \<Longrightarrow> proofs d' = proofs d"
  "update_state rid org st d = Inr (n, d') \<Longrightarrow> proofs d' = proofs d"
  "upsert_review P v d = Inr (m, d') \<Longrightarrow> proofs d' = proofs d"
proof -
  show "insert_run r d = Inr (a, d') \<Longrightarrow> proofs d' = proofs d" by (drule insert_run_row) simp
  show "update_state rid org st d = Inr (n, d') \<Longrightarrow> proofs d' = proofs d" by (drule update_state_rows) simp
  show "upsert_review P v d = Inr (m, d') \<Longrightarrow> proofs d' = proofs d" by (erule upsert_review_cases) simp_all
qed

interpretation producers_frame: review_frame producers_kept utext conf for utext conf
  by unfold_locales (auto simp: producers_kept_def same_producer_def; fail | erule producers_kept_trans, assumption
    | fast intro: producers_same same_evidence proofs_untouched producers_upsert producers_elsewhere writes_requests writes_executions)+

section \<open>The limit on reviews under way\<close>

definition within_limit :: "review_config \<Rightarrow> reviewsdb \<Rightarrow> bool" where
  "within_limit conf d \<longleftrightarrow> (\<forall>org. int (card (outstanding org d)) \<le> cf_MaxConcurrent conf)"

lemma finite_outstanding: "finite (outstanding org d)"
  by (simp add: outstanding_def)

lemma limit_fewer:
  assumes "\<And>org. outstanding org d' \<subseteq> outstanding org d"
  shows "keeps (within_limit conf) d d'"
  using card_mono[OF finite_outstanding assms] unfolding keeps_def within_limit_def by (meson order_trans zle_int)

lemma limit_same: "requests d' = requests d \<Longrightarrow> executions d' = executions d \<Longrightarrow> keeps (within_limit conf) d d'"
  by (rule limit_fewer) (simp add: outstanding_def)

lemma limit_requests:
  assumes "executions d' = executions d"
    and "\<And>q. q \<in> set (requests d') \<Longrightarrow> rq_State q = ''running'' \<Longrightarrow>
      \<exists>q0 \<in> set (requests d). rq_State q0 = ''running'' \<and> rq_ID q0 = rq_ID q \<and> rq_OrgID q0 = rq_OrgID q"
  shows "keeps (within_limit conf) d d'"
  by (rule limit_fewer) (use assms(2) in \<open>fastforce simp: outstanding_def assms(1) image_iff\<close>)

lemma limit_save:
  assumes "save_request r now d = Inr (n, d')"
  shows "keeps (within_limit conf) d d'"
proof (rule limit_requests)
  have d': "d' = d\<lparr>requests := update_rows (leased r now)
      (\<lambda>q. q\<lparr>rq_Attempts := rq_Attempts r, rq_State := rq_State r, rq_Detail := rq_Detail r\<rparr>) (requests d)\<rparr>"
    using assms unfolding save_request_def by (simp split: if_split_asm)
  show "executions d' = executions d" by (simp add: d')
  fix q assume q: "q \<in> set (requests d')" "rq_State q = ''running''"
  then obtain q0 where "q0 \<in> set (requests d)" "q = (if leased r now q0
      then q0\<lparr>rq_Attempts := rq_Attempts r, rq_State := rq_State r, rq_Detail := rq_Detail r\<rparr> else q0)"
    by (auto simp: d' set_update_rows)
  with q(2) show "\<exists>q0 \<in> set (requests d). rq_State q0 = ''running'' \<and> rq_ID q0 = rq_ID q \<and> rq_OrgID q0 = rq_OrgID q"
    by (intro bexI[of _ q0]) (auto simp: leased_def split: if_splits)
qed

lemma limit_lease:
  assumes "int (card (outstanding org d)) < cf_MaxConcurrent conf"
  shows "keeps (within_limit conf) d (snd (lease_queued org lease until d))"
proof (cases "queued_of org d")
  case (Some q)
  let ?d = "snd (lease_queued org lease until d)"
  let ?f = "\<lambda>r. if rq_ID r = rq_ID q \<and> rq_OrgID r = org then r\<lparr>rq_State := ''running'', rq_LeaseID := lease, rq_LeaseUntil := until\<rparr> else r"
  have d': "requests ?d = map ?f (requests d)" "executions ?d = executions d"
    by (simp_all add: lease_queued_def Some Let_def update_rows_def)
  have running: "r = ?f r0 \<Longrightarrow> rq_State r = ''running'' \<Longrightarrow>
      rq_ID r = rq_ID r0 \<and> rq_OrgID r = rq_OrgID r0 \<and> (rq_ID r0 = rq_ID q \<and> rq_OrgID r0 = org \<or> rq_State r0 = ''running'')" for r r0
    by (cases "rq_ID r0 = rq_ID q \<and> rq_OrgID r0 = org") auto
  have sub: "outstanding org' ?d \<subseteq> (if org' = org then insert (rq_ID q) (outstanding org d) else outstanding org' d)" for org'
  proof
    fix x assume "x \<in> outstanding org' ?d"
    then consider r where "r \<in> set (map ?f (requests d))" "rq_OrgID r = org'" "rq_State r = ''running''" "x = rq_ID r"
      | "x \<in> ex_RequestID ` {e \<in> set (executions d). ex_OrgID e = org' \<and> ex_TerminatedAt e = None}"
      unfolding outstanding_def d' by blast
    then show "x \<in> (if org' = org then insert (rq_ID q) (outstanding org d) else outstanding org' d)"
    proof cases
      case (1 r)
      then obtain r0 where r0: "r0 \<in> set (requests d)" "r = ?f r0" unfolding set_map by (elim imageE)
      from running[OF r0(2) 1(3)] r0(1) 1(2,4) show ?thesis unfolding outstanding_def by auto
    qed (auto simp: outstanding_def)
  qed
  have one: "outstanding org ?d \<subseteq> insert (rq_ID q) (outstanding org d)" using sub[of org] by simp
  have other: "outstanding org' ?d \<subseteq> outstanding org' d" if "org' \<noteq> org" for org' using sub[of org'] that by simp
  have "card (outstanding org ?d) \<le> Suc (card (outstanding org d))"
    using card_mono[OF _ one] finite_outstanding[of org d] card_insert_le_m1 by (metis card_insert_if finite_insert le_SucI order_refl order_trans)
  then have "int (card (outstanding org ?d)) \<le> cf_MaxConcurrent conf" using assms by linarith
  then show ?thesis
    using card_mono[OF finite_outstanding other] unfolding keeps_def within_limit_def by (metis order_trans zle_int)
qed (simp add: lease_queued_def keeps_def)

lemma limit_executions:
  assumes "update_executions Q f d = Inr (n, d')"
  shows "keeps (within_limit conf) d d'"
proof (rule limit_fewer)
  fix org
  have ok: "\<forall>e \<in> set (executions d). Q e \<longrightarrow> execution_checks (f e) \<and> execution_protected e (f e)"
    and d': "d' = d\<lparr>executions := update_rows Q f (executions d)\<rparr>"
    using assms unfolding update_executions_def by (simp_all split: if_split_asm)
  have "\<exists>e0 \<in> set (executions d). ex_RequestID e0 = ex_RequestID e \<and> ex_OrgID e0 = ex_OrgID e \<and> ex_TerminatedAt e0 = None"
    if "e \<in> set (executions d')" "ex_TerminatedAt e = None" for e
    using that ok by (fastforce simp: d' set_update_rows execution_protected_def split: if_splits)
  then show "outstanding org d' \<subseteq> outstanding org d" by (fastforce simp: outstanding_def d' image_iff)
qed

lemma limit_begin:
  assumes "\<exists>q \<in> set (requests d). rq_ID q = ex_RequestID e \<and> rq_OrgID q = ex_OrgID e \<and> rq_State q = ''running''"
    and "insert_execution e d = Inr (u, d')"
  shows "keeps (within_limit conf) d d'"
proof (rule limit_fewer)
  fix org
  have "d' = d\<lparr>executions := executions d @ [e]\<rparr>"
    using assms(2) unfolding insert_execution_def by (simp split: if_split_asm)
  with assms(1) show "outstanding org d' \<subseteq> outstanding org d" by (force simp: outstanding_def)
qed

lemma limit_checked: "keeps (within_limit conf) d (checked org now d)"
proof (rule limit_fewer)
  fix org'
  let ?f = "\<lambda>e. if ex_AttemptID e \<in> ex_AttemptID ` set (due_executions org d) \<and> ex_OrgID e = org then e\<lparr>ex_LastChecked := Some now\<rparr> else e"
  have "executions (checked org now d) = map ?f (executions d)" "requests (checked org now d) = requests d"
    by (simp_all add: checked_def update_rows_def)
  moreover have "ex_RequestID (?f e) = ex_RequestID e" "ex_OrgID (?f e) = ex_OrgID e" "ex_TerminatedAt (?f e) = ex_TerminatedAt e" for e
    by simp_all
  ultimately show "outstanding org' (checked org now d) \<subseteq> outstanding org' d"
    unfolding outstanding_def by (auto simp del: if_image_distrib)
qed

lemma limit_delete: "keeps (within_limit conf) d (snd (delete_runs P d))"
  by (rule limit_fewer) (auto simp: outstanding_def delete_runs_def Let_def)

lemma limit_untouched:
  "insert_run r d = Inr (a, d') \<Longrightarrow> keeps (within_limit conf) d d'"
  "update_state rid org st d = Inr (n, d') \<Longrightarrow> keeps (within_limit conf) d d'"
  "keeps (within_limit conf) d (snd (upsert_proof org p d))"
  "upsert_review P v d = Inr (m, d') \<Longrightarrow> keeps (within_limit conf) d d'"
proof -
  show "insert_run r d = Inr (a, d') \<Longrightarrow> keeps (within_limit conf) d d'" by (drule insert_run_row) (simp add: limit_same)
  show "update_state rid org st d = Inr (n, d') \<Longrightarrow> keeps (within_limit conf) d d'" by (drule update_state_rows) (simp add: limit_same)
  show "keeps (within_limit conf) d (snd (upsert_proof org p d))" by (rule upsert_proof_cases[of org p d]) (simp_all add: limit_same)
  show "upsert_review P v d = Inr (m, d') \<Longrightarrow> keeps (within_limit conf) d d'" by (erule upsert_review_cases) (simp_all add: limit_same)
qed

lemma limit_request:
  assumes "rq_State q = ''queued''" and "insert_request q d = Inr (b, d')"
  shows "keeps (within_limit conf) d d'"
proof -
  have "d' = d \<or> d' = d\<lparr>requests := requests d @ [q]\<rparr>"
    using assms(2) unfolding insert_request_def by (simp split: if_split_asm option.split_asm)
  then show ?thesis
    by (rule disjE) (simp_all add: limit_same, rule limit_requests, simp, use assms(1) in auto)
qed

lemma limit_lost: "keeps (within_limit conf) d (lose org now d)"
  by (rule limit_requests) (auto simp: lose_def set_update_rows split: if_splits)

interpretation limit_frame: review_purge_frame "keeps (within_limit conf)" utext conf for utext conf
  by unfold_locales (fast intro: limit_same same_evidence limit_untouched limit_request limit_lost limit_lease limit_save
    limit_begin limit_executions limit_checked limit_delete)+

section \<open>A call is bound once and ends with its receipt\<close>

definition receipted :: "review_execution \<Rightarrow> bool" where
  "receipted e \<longleftrightarrow> ex_Owner e \<noteq> None \<and> (\<exists>dg. ex_Digest e = Some dg \<and> hex_digest dg) \<and> ex_ReceiptVersion e = Some 1
     \<and> ex_UpstreamStatus e = Some 200 \<and> ex_CompletedAt e \<noteq> None"

definition executions_ok :: "reviewsdb \<Rightarrow> bool" where
  "executions_ok d \<longleftrightarrow> distinct (map ex_AttemptID (executions d))
     \<and> (\<forall>e \<in> set (executions d). execution_checks e \<and> (ex_TerminatedAt e \<noteq> None \<longrightarrow> ex_Evidence e = ''gateway_receipt''))"

definition executions_kept :: "reviewsdb \<Rightarrow> reviewsdb \<Rightarrow> bool" where
  "executions_kept d d' \<longleftrightarrow> (executions_ok d \<longrightarrow> executions_ok d'
     \<and> (\<forall>e \<in> set (executions d). \<exists>e' \<in> set (executions d'). execution_protected e e'))"

lemma protected_refl: "execution_protected e e"
  by (simp add: execution_protected_def)

lemma protected_trans: "execution_protected a b \<Longrightarrow> execution_protected b c \<Longrightarrow> execution_protected a c"
  by (auto simp: execution_protected_def)

lemma executions_same: "executions d' = executions d \<Longrightarrow> executions_kept d d'"
  unfolding executions_kept_def executions_ok_def using protected_refl by auto

lemma executions_map:
  assumes "executions d' = map f (executions d)"
    and "\<And>e. executions_ok d \<Longrightarrow> e \<in> set (executions d) \<Longrightarrow> execution_protected e (f e) \<and> execution_checks (f e)
      \<and> (ex_TerminatedAt (f e) \<noteq> None \<longrightarrow> ex_Evidence (f e) = ''gateway_receipt'')"
  shows "executions_kept d d'"
proof -
  have "map ex_AttemptID (executions d') = map ex_AttemptID (executions d)" if "executions_ok d"
    unfolding assms(1) map_map using assms(2)[OF that] by (intro map_cong) (auto simp: execution_protected_def)
  moreover have "\<forall>e \<in> set (executions d'). execution_checks e \<and> (ex_TerminatedAt e \<noteq> None \<longrightarrow> ex_Evidence e = ''gateway_receipt'')"
    if "executions_ok d"
    unfolding assms(1) set_map using assms(2)[OF that] by blast
  ultimately have "executions_ok d'" if "executions_ok d" using that by (metis executions_ok_def)
  then show ?thesis unfolding executions_kept_def using assms(2) by (auto simp: assms(1))
qed

lemma executions_update:
  assumes "update_executions Q f d = Inr (n, d')"
    and f: "\<And>e. ex_TerminatedAt (f e) \<noteq> None \<Longrightarrow> ex_TerminatedAt e = None \<Longrightarrow> ex_Evidence (f e) = ''gateway_receipt''"
  shows "executions_kept d d'"
proof (rule executions_map[where f = "\<lambda>e. if Q e then f e else e"])
  have ok: "\<forall>e \<in> set (executions d). Q e \<longrightarrow> execution_checks (f e) \<and> execution_protected e (f e)"
    and d': "d' = d\<lparr>executions := update_rows Q f (executions d)\<rparr>"
    using assms(1) unfolding update_executions_def by (simp_all split: if_split_asm)
  show "executions d' = map (\<lambda>e. if Q e then f e else e) (executions d)" by (simp add: d' update_rows_def)
  fix e assume e: "executions_ok d" "e \<in> set (executions d)"
  have "ex_TerminatedAt (f e) \<noteq> None \<longrightarrow> ex_Evidence (f e) = ''gateway_receipt''" if "Q e"
  proof (cases "ex_TerminatedAt e")
    case (Some t)
    then have "f e = e" using ok e(2) that by (auto simp: execution_protected_def)
    then show ?thesis using e by (auto simp: executions_ok_def)
  qed (use f[of e] in simp)
  with e ok show "execution_protected e (if Q e then f e else e) \<and> execution_checks (if Q e then f e else e)
      \<and> (ex_TerminatedAt (if Q e then f e else e) \<noteq> None \<longrightarrow> ex_Evidence (if Q e then f e else e) = ''gateway_receipt'')"
    by (auto simp: protected_refl executions_ok_def)
qed

lemma executions_begin:
  assumes "ex_TerminatedAt e = None" and "insert_execution e d = Inr (u, d')"
  shows "executions_kept d d'"
proof -
  have d': "executions d' = executions d @ [e]" and e: "ex_AttemptID e \<notin> ex_AttemptID ` set (executions d)" "execution_checks e"
    using assms(2) unfolding insert_execution_def by (auto split: if_split_asm)
  have "executions_ok d'" if "executions_ok d" using that e assms(1) by (auto simp: executions_ok_def d')
  then show ?thesis unfolding executions_kept_def d' using protected_refl by auto
qed

lemma executions_checked: "executions_kept d (checked org now d)"
proof (rule executions_map[where f = "\<lambda>e. if ex_AttemptID e \<in> ex_AttemptID ` set (due_executions org d) \<and> ex_OrgID e = org
    then e\<lparr>ex_LastChecked := Some now\<rparr> else e"])
  fix e assume ok: "executions_ok d" "e \<in> set (executions d)"
  have running: "ex_TerminatedAt e = None" if due: "ex_AttemptID e \<in> ex_AttemptID ` set (due_executions org d)"
  proof -
    obtain x where x: "x \<in> set (due_executions org d)" "ex_AttemptID x = ex_AttemptID e" using due by force
    from x(1) have "x \<in> set (executions d)" "ex_TerminatedAt x = None"
      unfolding due_executions_def by (auto dest!: in_set_takeD)
    moreover from this ok x(2) have "x = e" by (auto simp: executions_ok_def distinct_map inj_on_def)
    ultimately show ?thesis by simp
  qed
  have "execution_checks e" "ex_TerminatedAt e \<noteq> None \<longrightarrow> ex_Evidence e = ''gateway_receipt''"
    using ok by (auto simp: executions_ok_def)
  with running show "execution_protected e (if ex_AttemptID e \<in> ex_AttemptID ` set (due_executions org d) \<and> ex_OrgID e = org
        then e\<lparr>ex_LastChecked := Some now\<rparr> else e)
      \<and> execution_checks (if ex_AttemptID e \<in> ex_AttemptID ` set (due_executions org d) \<and> ex_OrgID e = org
        then e\<lparr>ex_LastChecked := Some now\<rparr> else e)
      \<and> (ex_TerminatedAt (if ex_AttemptID e \<in> ex_AttemptID ` set (due_executions org d) \<and> ex_OrgID e = org
        then e\<lparr>ex_LastChecked := Some now\<rparr> else e) \<noteq> None \<longrightarrow>
        ex_Evidence (if ex_AttemptID e \<in> ex_AttemptID ` set (due_executions org d) \<and> ex_OrgID e = org
          then e\<lparr>ex_LastChecked := Some now\<rparr> else e) = ''gateway_receipt'')"
    by (cases "ex_AttemptID e \<in> ex_AttemptID ` set (due_executions org d) \<and> ex_OrgID e = org")
      (simp_all only: if_True if_False, simp_all add: execution_protected_def execution_checks_def)
qed (simp add: checked_def update_rows_def)

lemma executions_untouched:
  "insert_run r d = Inr (a, d') \<Longrightarrow> executions_kept d d'"
  "update_state rid org st d = Inr (n, d') \<Longrightarrow> executions_kept d d'"
  "executions_kept d (snd (upsert_proof org p d))"
  "upsert_review P v d = Inr (m, d') \<Longrightarrow> executions_kept d d'"
  "\<exists>qs. d' = d\<lparr>requests := qs\<rparr> \<Longrightarrow> executions_kept d d'"
  "executions_kept d (snd (delete_runs Q d))"
proof -
  show "insert_run r d = Inr (a, d') \<Longrightarrow> executions_kept d d'" by (drule insert_run_row) (simp add: executions_same)
  show "update_state rid org st d = Inr (n, d') \<Longrightarrow> executions_kept d d'" by (drule update_state_rows) (simp add: executions_same)
  show "executions_kept d (snd (upsert_proof org p d))" by (rule upsert_proof_cases[of org p d]) (simp_all add: executions_same)
  show "upsert_review P v d = Inr (m, d') \<Longrightarrow> executions_kept d d'" by (erule upsert_review_cases) (simp_all add: executions_same)
  show "\<exists>qs. d' = d\<lparr>requests := qs\<rparr> \<Longrightarrow> executions_kept d d'" by (auto simp: executions_same)
  show "executions_kept d (snd (delete_runs Q d))" by (simp add: delete_runs_def Let_def executions_same)
qed

lemma executions_kept_trans: "executions_kept a b \<Longrightarrow> executions_kept b c \<Longrightarrow> executions_kept a c"
  unfolding executions_kept_def using protected_trans by meson

interpretation executions_frame: review_purge_frame executions_kept utext conf for utext conf
  by unfold_locales (erule executions_kept_trans, assumption | erule executions_update, simp | fast intro: executions_same same_evidence executions_untouched writes_requests
    executions_begin executions_update executions_checked)+

section \<open>The events tell the states\<close>

text \<open>The state a reader of the events knows of a run: that of the last event about it.\<close>

definition replayed :: "run_event list \<Rightarrow> uuid \<Rightarrow> string option" where
  "replayed evs rid = map_option ev_State (List.find (\<lambda>e. ev_RunID e = rid) (rev evs))"

definition events_ok :: "reviewsdb \<Rightarrow> bool" where
  "events_ok d \<longleftrightarrow> distinct (map er_ID (runs d)) \<and> (\<forall>r \<in> set (runs d). replayed (outbox d) (er_ID r) = Some (er_State r))"

lemma replayed_append: "replayed (evs @ new) rid = (case replayed new rid of None \<Rightarrow> replayed evs rid | Some s \<Rightarrow> Some s)"
  by (simp add: replayed_def find_append split: option.splits)

lemma events_same: "runs d' = runs d \<Longrightarrow> outbox d' = outbox d \<Longrightarrow> keeps events_ok d d'"
  by (simp add: keeps_def events_ok_def)

lemma events_run:
  assumes "insert_run r d = Inr (a, d')"
  shows "keeps events_ok d d'"
proof (rule keepsI)
  assume ok: "events_ok d"
  have d': "runs d' = runs d @ [r\<lparr>er_Number := next_number (er_RepoID r) d\<rparr>]"
    "outbox d' = outbox d @ [\<lparr>ev_RunID = er_ID r, ev_State = er_State r, ev_Previous = ''''\<rparr>]" "er_ID r \<notin> er_ID ` set (runs d)"
    using insert_run_row[OF assms] by simp_all
  then show "events_ok d'"
    using ok by (auto simp: events_ok_def replayed_append replayed_def)
qed

lemma replayed_state_events:
  assumes "distinct (map er_ID rs)" and "r \<in> set rs"
  shows "replayed (state_events P st rs) (er_ID r) = (if P r \<and> er_State r \<noteq> st then Some st else None)"
proof -
  have *: "List.find (\<lambda>e. ev_RunID e = er_ID r) (rev (state_events P st rs)) =
      (if P r \<and> er_State r \<noteq> st then Some \<lparr>ev_RunID = er_ID r, ev_State = st, ev_Previous = er_State r\<rparr> else None)"
  proof (cases "P r \<and> er_State r \<noteq> st")
    case True
    have only: "e = \<lparr>ev_RunID = er_ID r, ev_State = st, ev_Previous = er_State r\<rparr>"
      if e: "e \<in> set (state_events P st rs)" "ev_RunID e = er_ID r" for e
    proof -
      obtain q where q: "q \<in> set rs" "e = \<lparr>ev_RunID = er_ID q, ev_State = st, ev_Previous = er_State q\<rparr>"
        using e(1) by (auto simp: state_events_def)
      with e(2) assms have "q = r" by (auto simp: distinct_map inj_on_def)
      with q show ?thesis by simp
    qed
    moreover have "\<lparr>ev_RunID = er_ID r, ev_State = st, ev_Previous = er_State r\<rparr> \<in> set (state_events P st rs)"
      using True assms(2) by (auto simp: state_events_def)
    ultimately show ?thesis
    proof (cases "List.find (\<lambda>e. ev_RunID e = er_ID r) (rev (state_events P st rs))")
      case None
      with \<open>\<lparr>ev_RunID = er_ID r, ev_State = st, ev_Previous = er_State r\<rparr> \<in> set (state_events P st rs)\<close> show ?thesis
        unfolding find_None_iff' by force
    next
      case (Some e)
      then have "e \<in> set (state_events P st rs)" "ev_RunID e = er_ID r" using find_Some_in[OF Some] by simp_all
      then show ?thesis unfolding Some using only True by simp
    qed
  next
    case False
    have "ev_RunID e \<noteq> er_ID r" if mem: "e \<in> set (state_events P st rs)" for e
    proof
      assume e: "ev_RunID e = er_ID r"
      obtain q where q: "q \<in> set rs" "P q" "er_State q \<noteq> st" "ev_RunID e = er_ID q" using mem by (auto simp: state_events_def)
      with e assms have "q = r" by (auto simp: distinct_map inj_on_def)
      with q False show False by simp
    qed
    then show ?thesis unfolding if_not_P[OF False] by (simp add: find_None_iff')
  qed
  show ?thesis unfolding replayed_def * by simp
qed

lemma events_state:
  assumes "update_state rid org st d = Inr (n, d')"
  shows "keeps events_ok d d'"
proof (rule keepsI)
  assume ok: "events_ok d"
  let ?P = "\<lambda>r. er_ID r = rid \<and> er_OrgID r = org"
  let ?f = "\<lambda>r. if ?P r then r\<lparr>er_State := st\<rparr> else r"
  have d': "runs d' = map ?f (runs d)" "outbox d' = outbox d @ state_events ?P st (runs d)"
    using update_state_rows[OF assms] by (simp_all add: update_rows_def)
  have "replayed (outbox d') (er_ID (?f r)) = Some (er_State (?f r))" if r: "r \<in> set (runs d)" for r
    using ok replayed_state_events[of "runs d" r ?P st] r unfolding d'(2) replayed_append by (cases "?P r") (auto simp: events_ok_def)
  then have "\<forall>r \<in> set (runs d'). replayed (outbox d') (er_ID r) = Some (er_State r)" unfolding d'(1) set_map by blast
  moreover have "map er_ID (runs d') = map er_ID (runs d)" unfolding d'(1) by simp
  ultimately show "events_ok d'" using ok unfolding events_ok_def by metis
qed

lemma events_untouched:
  "keeps events_ok d (snd (upsert_proof org p d))"
  "upsert_review P v d = Inr (m, d') \<Longrightarrow> keeps events_ok d d'"
  "\<exists>qs. d' = d\<lparr>requests := qs\<rparr> \<Longrightarrow> keeps events_ok d d'"
  "\<exists>es. d' = d\<lparr>executions := es\<rparr> \<Longrightarrow> keeps events_ok d d'"
proof -
  show "keeps events_ok d (snd (upsert_proof org p d))" by (rule upsert_proof_cases[of org p d]) (simp_all add: events_same)
  show "upsert_review P v d = Inr (m, d') \<Longrightarrow> keeps events_ok d d'" by (erule upsert_review_cases) (simp_all add: events_same)
qed (auto simp: events_same)

lemma events_delete: "keeps events_ok d (snd (delete_runs Q d))"
  by (rule keepsI) (auto simp: events_ok_def delete_runs_def Let_def distinct_map_filter)

interpretation events_frame: review_purge_frame "keeps events_ok" utext conf for utext conf
  by unfold_locales (fast intro: events_same same_evidence events_run events_state events_untouched events_delete
    writes_requests writes_executions)+

section \<open>Properties\<close>

text \<open>
  C6. After any history of the reviews store, whatever statements failed in it: runs have distinct
  identifiers, distinct numbers within their repository, and a state and author kind of the
  enumerated ones; every proof is about an existing run, one per gate, and its producer is one
  entitled to that gate name (a person only to assertions under their own identifier, gates only to
  gates, the review worker only to its roles, the agent runtime only to the agent's blocking); and a
  run has one review per reviewer, never by its author.
\<close>

theorem reviews_are_attributed:
  "attributed utext (fold (review_exec utext conf) cs no_reviews)"
  using attributed_frame.any_history_R[of utext no_reviews conf cs]
  by (simp add: keeps_def attributed_def no_reviews_def)

text \<open>
  C7. A proof is never taken over: once a producer has recorded a proof under a gate name of a run, then
  after any further history that deletes nothing the run still has a proof under that name by that
  same producer and actor.
\<close>

theorem proof_is_never_taken_over:
  assumes "p \<in> set (proofs (fold (review_exec utext conf) cs no_reviews))"
    and "\<forall>c \<in> set later. \<not> is_purge (fst c)"
  shows "\<exists>p' \<in> set (proofs (fold (review_exec utext conf) (cs @ later) no_reviews)). same_producer p p'"
proof -
  have "attributed utext (fold (review_exec utext conf) cs no_reviews)"
    using attributed_frame.any_history_R[of utext no_reviews conf cs] by (simp add: keeps_def attributed_def no_reviews_def)
  with assms(1) have "pf_Producer p \<noteq> ''''" by (auto simp: attributed_def entitled_def)
  with producers_frame.history_R[OF assms(2), of "fold (review_exec utext conf) cs no_reviews" utext conf] assms(1)
  show ?thesis by (simp add: producers_kept_def)
qed

definition rex_user :: scope where
  "rex_user = \<lparr>s_OrgID = 1, s_ActorID = 7, s_ActorKind = ''user'', s_ServiceName = '''', s_Role = ''member'', s_PlatformWorker = '''',
     s_RepoLimited = False, s_Repos = Map.empty\<rparr>"

definition rex_run :: erun where
  "rex_run = \<lparr>er_ID = 0, er_OrgID = 1, er_RepoID = 10, er_SourceRepoID = 10, er_WorkItemID = 0, er_Number = 0,
     er_Title = ''t'', er_SourceRef = ''topic'', er_TargetRef = ''main'', er_State = '''', er_AuthorID = 7,
     er_AuthorKind = ''user'', er_AgentName = '''', er_ModelName = '''', er_CreatedAt = 0\<rparr>"

definition rex_conf :: review_config where
  "rex_conf = \<lparr>cf_Wallclock = 60, cf_MaxInput = 1000, cf_MaxOutput = 1000, cf_MaxConcurrent = 1, cf_MaxRoles = 1\<rparr>"

definition rex_proof :: proof_record where
  "rex_proof = \<lparr>pf_RunID = 100, pf_Gate = ''assertion/u/ok'', pf_Status = ''pass'', pf_Detail = '''', pf_RecordedAt = 2,
     pf_Producer = ''human'', pf_ActorID = 7\<rparr>"

definition rex_history :: "(review_cmd \<times> bool list) list" where
  "rex_history = [(CmdCreate 100 1 rex_run, []), (CmdProof (Some rex_user) 2 100 ''assertion/u/ok'' ''pass'' '''', [])]"

lemma rex_recorded: "proofs (fold (review_exec (\<lambda>_. ''u'') rex_conf) rex_history no_reviews) = [rex_proof]"
  by code_simp

theorem proof_is_never_taken_over_witness:
  "\<exists>p' \<in> set (proofs (fold (review_exec (\<lambda>_. ''u'') rex_conf) (rex_history
      @ [(CmdProof (Some (rex_user\<lparr>s_ActorID := 8\<rparr>)) 3 100 ''assertion/u/ok'' ''fail'' '''', [])]) no_reviews)).
    same_producer rex_proof p'"
  by (rule proof_is_never_taken_over) (simp_all add: rex_recorded)

text \<open>
  C8. The limit on reviews under way holds after every history: in no organization do the requests that
  run, together with those that have a model call not known to have ended, exceed the configured
  number, however requests, workers, expiring leases, purges and failures interleave. A request whose
  lease has expired still counts while its call may be running.
\<close>

theorem reviews_under_way_are_bounded:
  assumes "Validate conf"
  shows "int (card (outstanding org (fold (review_exec utext conf) cs no_reviews))) \<le> cf_MaxConcurrent conf"
proof -
  have "within_limit conf no_reviews" using assms by (simp add: within_limit_def outstanding_def no_reviews_def Validate_def)
  then show ?thesis using limit_frame.any_history_R[of conf no_reviews utext cs] by (simp add: keeps_def within_limit_def)
qed

theorem reviews_under_way_are_bounded_witness:
  "int (card (outstanding 1 (fold (review_exec (\<lambda>_. ''u'') rex_conf) rex_history no_reviews))) \<le> cf_MaxConcurrent rex_conf"
  by (rule reviews_under_way_are_bounded) (simp add: Validate_def rex_conf_def)

text \<open>
  C9. A model call is bound to one gateway and one request body, and ends only with that gateway's
  receipt. Whatever follows, an execution keeps its identity, its owner and digest once it has them,
  and does not change again once it is terminated; and one that is terminated has an owner, a well-formed
  digest, and a receipt of version 1 with status 200 and a completion time.
\<close>

theorem execution_is_bound_once_and_ends_with_receipt:
  "\<forall>e \<in> set (executions (fold (review_exec utext conf) cs no_reviews)).
     (ex_TerminatedAt e \<noteq> None \<longrightarrow> receipted e)
     \<and> (\<exists>e' \<in> set (executions (fold (review_exec utext conf) (cs @ later) no_reviews)). execution_protected e e')"
proof
  let ?d = "fold (review_exec utext conf) cs no_reviews"
  fix e assume e: "e \<in> set (executions ?d)"
  have "executions_ok no_reviews" by (simp add: executions_ok_def no_reviews_def)
  then have ok: "executions_ok ?d" using executions_frame.any_history_R[of no_reviews utext conf cs] by (simp add: executions_kept_def)
  then have "execution_checks e" "ex_TerminatedAt e \<noteq> None \<longrightarrow> ex_Evidence e = ''gateway_receipt''"
    using e unfolding executions_ok_def by blast+
  then have "ex_TerminatedAt e \<noteq> None \<longrightarrow> receipted e"
    by (cases "ex_Owner e"; cases "ex_Digest e") (simp_all add: execution_checks_def receipted_def)
  moreover have "\<exists>e' \<in> set (executions (fold (review_exec utext conf) (cs @ later) no_reviews)). execution_protected e e'"
    using executions_frame.any_history_R[of ?d utext conf later] ok e by (simp add: executions_kept_def)
  ultimately show "(ex_TerminatedAt e \<noteq> None \<longrightarrow> receipted e)
    \<and> (\<exists>e' \<in> set (executions (fold (review_exec utext conf) (cs @ later) no_reviews)). execution_protected e e')" by blast
qed

definition rex_request :: review_request where
  "rex_request = \<lparr>rq_ID = 200, rq_OrgID = 1, rq_RunID = 100, rq_RequestedBy = 7, rq_SourceSHA = ''a'', rq_TargetSHA = ''b'',
     rq_State = ''queued'', rq_Detail = '''', rq_Attempts = [], rq_LeaseID = 5, rq_LeaseUntil = 0, rq_CreatedAt = 2\<rparr>"

definition rex_calls :: "(review_cmd \<times> bool list) list" where
  "rex_calls = [(CmdCreate 100 1 rex_run, []), (CmdRequest rex_request, []), (CmdClaim (Some rex_user) 5 3, []),
     (CmdBegin (Some rex_user) 4 rex_request 300, [])]"

lemma rex_called: "map ex_AttemptID (executions (fold (review_exec (\<lambda>_. ''u'') rex_conf) rex_calls no_reviews)) = [300]"
  by code_simp

theorem execution_is_bound_once_and_ends_with_receipt_witness:
  "\<exists>e \<in> set (executions (fold (review_exec (\<lambda>_. ''u'') rex_conf) rex_calls no_reviews)). ex_AttemptID e = 300
    \<and> (\<exists>e' \<in> set (executions (fold (review_exec (\<lambda>_. ''u'') rex_conf) (rex_calls
         @ [(CmdBind (Some rex_user) 5 rex_request 300 ''gw'' (replicate 64 (CHR ''a'')), [])]) no_reviews)). execution_protected e e')"
proof -
  let ?es = "executions (fold (review_exec (\<lambda>_. ''u'') rex_conf) rex_calls no_reviews)"
  have "300 \<in> ex_AttemptID ` set ?es" unfolding set_map[symmetric] rex_called by simp
  then obtain e where e: "e \<in> set ?es" "ex_AttemptID e = 300" by auto
  show ?thesis
    by (intro bexI[of _ e] conjI e bspec[OF execution_is_bound_once_and_ends_with_receipt e(1), THEN conjunct2])
qed

text \<open>
  C10. The events tell the states. The trigger's events are all another service sees; replaying them
  gives, after any history, exactly the state of every run there is.
\<close>

theorem events_replay_the_states:
  "\<forall>r \<in> set (runs (fold (review_exec utext conf) cs no_reviews)).
     replayed (outbox (fold (review_exec utext conf) cs no_reviews)) (er_ID r) = Some (er_State r)"
  using events_frame.any_history_R[of no_reviews utext conf cs] by (simp add: keeps_def events_ok_def no_reviews_def)

theorem events_replay_the_states_witness:
  "\<exists>r \<in> set (runs (fold (review_exec (\<lambda>_. ''u'') rex_conf) (rex_history @ [(CmdState (Some rex_user) 100 ''closed'', [])]) no_reviews)).
     er_State r = ''closed''
     \<and> replayed (outbox (fold (review_exec (\<lambda>_. ''u'') rex_conf) (rex_history @ [(CmdState (Some rex_user) 100 ''closed'', [])]) no_reviews))
         (er_ID r) = Some ''closed''"
proof -
  let ?d = "fold (review_exec (\<lambda>_. ''u'') rex_conf) (rex_history @ [(CmdState (Some rex_user) 100 ''closed'', [])]) no_reviews"
  have m: "map er_State (runs ?d) = [''closed'']" by code_simp
  have "''closed'' \<in> er_State ` set (runs ?d)" unfolding set_map[symmetric] m by simp
  then obtain r where r: "r \<in> set (runs ?d)" "er_State r = ''closed''" by auto
  show ?thesis using bspec[OF events_replay_the_states r(1)] r by (intro bexI[of _ r]) simp_all
qed

end
