(* ===== verification/NF_Changes.thy ===== *)
theory NF_Changes
  imports NF_Approvals "HOL-Library.List_Lexorder"
begin

text \<open>
  What a change does (\<open>internal/gates/changes.go\<close>): the paths a unified diff touches, which of
  them are gate definitions, database schema or dependency manifests, and what dependencies a
  manifest declares. Text is a string of bytes; blanks and letter case are those of ASCII.
  A Go map used as a set is a list, sorted where the code sorts it.
\<close>

section \<open>Text\<close>

definition lower :: "string \<Rightarrow> string" where
  "lower = map (\<lambda>c. if of_char c \<ge> (65 :: nat) \<and> of_char c \<le> (90 :: nat) then char_of (of_char c + (32 :: nat)) else c)"

definition blank :: "char \<Rightarrow> bool" where
  "blank c \<longleftrightarrow> c \<in> {CHR '' '', CHR 0x09, CHR 0x0A, CHR 0x0B, CHR 0x0C, CHR 0x0D}"

definition trim_by :: "(char \<Rightarrow> bool) \<Rightarrow> string \<Rightarrow> string" where
  "trim_by P s = rev (dropWhile P (rev (dropWhile P s)))"

definition trim_space :: "string \<Rightarrow> string" where
  "trim_space = trim_by blank"

text \<open>\<open>strings.Index\<close>, \<open>LastIndex\<close> of a byte, \<open>Fields\<close> and \<open>Split\<close> at one byte.\<close>

fun index_of :: "string \<Rightarrow> string \<Rightarrow> nat option" where
  "index_of [] p = (if p = [] then Some 0 else None)"
| "index_of (c # s) p = (if prefix p (c # s) then Some 0 else map_option Suc (index_of s p))"

fun split_at :: "char \<Rightarrow> string \<Rightarrow> string list" where
  "split_at x [] = [[]]"
| "split_at x (c # s) = (if c = x then [] # split_at x s
     else (case split_at x s of w # ws \<Rightarrow> (c # w) # ws | [] \<Rightarrow> [[c]]))"

definition fields :: "string \<Rightarrow> string list" where
  "fields s = filter (\<lambda>w. w \<noteq> []) (split_at (CHR '' '') (map (\<lambda>c. if blank c then CHR '' '' else c) s))"

definition before_any :: "string \<Rightarrow> string \<Rightarrow> string" where
  "before_any cs s = takeWhile (\<lambda>c. c \<notin> set cs) s"

text \<open>
  A \<open>bufio.Scanner\<close> over lines: the lines up to the first whose length reaches the limit of the
  buffer, and whether it stopped there. A trailing carriage return is dropped, and the text after
  the last newline is a line when it is not empty.
\<close>

definition drop_cr :: "string \<Rightarrow> string" where
  "drop_cr s = (if s \<noteq> [] \<and> last s = CHR 0x0D then butlast s else s)"

fun cut_lines :: "nat \<Rightarrow> string list \<Rightarrow> string list \<times> bool" where
  "cut_lines limit [] = ([], True)"
| "cut_lines limit (l # ls) =
     (if limit \<le> length l then ([], False)
      else if ls = [] \<and> l = [] then ([], True)
      else (case cut_lines limit ls of (rest, ok) \<Rightarrow> (drop_cr l # rest, ok)))"

definition scan_lines :: "nat \<Rightarrow> string \<Rightarrow> string list \<times> bool" where
  "scan_lines limit s = cut_lines limit (split_at (CHR 0x0A) s)"

section \<open>Paths\<close>

text \<open>\<open>path.Base\<close>, and \<open>path.Dir\<close> with the cleaning it ends with.\<close>

definition last_component :: "string \<Rightarrow> string" where
  "last_component p = rev (takeWhile (\<lambda>c. c \<noteq> CHR ''/'') (rev p))"

definition path_Base :: "string \<Rightarrow> string" where
  "path_Base p =
     (if p = [] then ''.''
      else let q = rev (dropWhile (\<lambda>c. c = CHR ''/'') (rev p)) in
        if last_component q = [] then ''/'' else last_component q)"

fun clean_parts :: "bool \<Rightarrow> string list \<Rightarrow> string list \<Rightarrow> string list" where
  "clean_parts rooted acc [] = rev acc"
| "clean_parts rooted acc (c # cs) =
     (if c = [] \<or> c = ''.'' then clean_parts rooted acc cs
      else if c = ''..'' then
        (case acc of
           [] \<Rightarrow> if rooted then clean_parts rooted [] cs else clean_parts rooted [c] cs
         | a # as \<Rightarrow> if a = ''..'' then clean_parts rooted (c # acc) cs else clean_parts rooted as cs)
      else clean_parts rooted (c # acc) cs)"

fun join_slash :: "string list \<Rightarrow> string" where
  "join_slash [] = []"
| "join_slash [c] = c"
| "join_slash (c # cs) = c @ ''/'' @ join_slash cs"

definition path_Clean :: "string \<Rightarrow> string" where
  "path_Clean p =
     (if p = [] then ''.''
      else let rooted = (hd p = CHR ''/'');
               body = join_slash (clean_parts rooted [] (split_at (CHR ''/'') p)) in
        if rooted then ''/'' @ body else if body = [] then ''.'' else body)"

definition path_Dir :: "string \<Rightarrow> string" where
  "path_Dir p = path_Clean (take (length p - length (last_component p)) p)"

definition gatesDir :: string where
  "gatesDir = ''.novaforge/gates''"

definition isGateConfigPath :: "string \<Rightarrow> bool" where
  "isGateConfigPath p \<longleftrightarrow> p = gatesDir \<or> prefix (gatesDir @ ''/'') p"

definition schemaDirs :: "string list" where
  "schemaDirs = [''migrations'', ''migration'', ''migrate'']"

definition schemaFileNames :: "string list" where
  "schemaFileNames = [''schema.prisma'', ''schema.rb'', ''structure.sql'']"

definition isSchemaPath :: "string \<Rightarrow> bool" where
  "isSchemaPath p \<longleftrightarrow>
     suffix ''.sql'' (lower p) \<or> path_Base p \<in> set schemaFileNames
     \<or> (\<exists>c \<in> set (split_at (CHR ''/'') (path_Dir p)). lower c \<in> set schemaDirs)
     \<or> sublist ''alembic/versions/'' p"

section \<open>Quoted names\<close>

text \<open>\<open>strconv.Unquote\<close> of a string in double quotes.\<close>

definition octal :: "char \<Rightarrow> nat option" where
  "octal c = (let n = of_char c in if 48 \<le> n \<and> n \<le> (55 :: nat) then Some (n - 48) else None)"

definition hexval :: "char \<Rightarrow> nat option" where
  "hexval c = (let n = of_char c in
     if 48 \<le> n \<and> n \<le> (57 :: nat) then Some (n - 48)
     else if 97 \<le> n \<and> n \<le> 102 then Some (n - 87)
     else if 65 \<le> n \<and> n \<le> 70 then Some (n - 55) else None)"

fun hex_number :: "nat \<Rightarrow> string \<Rightarrow> nat option" where
  "hex_number v [] = Some v"
| "hex_number v (c # s) = (case hexval c of None \<Rightarrow> None | Some x \<Rightarrow> hex_number (16 * v + x) s)"

definition valid_rune :: "nat \<Rightarrow> bool" where
  "valid_rune v \<longleftrightarrow> v < 0xD800 \<or> 0xDFFF < v \<and> v \<le> 0x10FFFF"

definition utf8 :: "nat \<Rightarrow> string" where
  "utf8 v = map char_of
     (if v < 0x80 then [v]
      else if v < 0x800 then [0xC0 + v div 64, 0x80 + v mod 64]
      else if v < 0x10000 then [0xE0 + v div 4096, 0x80 + v div 64 mod 64, 0x80 + v mod 64]
      else [0xF0 + v div 262144, 0x80 + v div 4096 mod 64, 0x80 + v div 64 mod 64, 0x80 + v mod 64])"

definition simple_escape :: "char \<Rightarrow> char option" where
  "simple_escape c = map_of [(CHR ''a'', CHR 0x07), (CHR ''b'', CHR 0x08), (CHR ''f'', CHR 0x0C), (CHR ''n'', CHR 0x0A),
     (CHR ''r'', CHR 0x0D), (CHR ''t'', CHR 0x09), (CHR ''v'', CHR 0x0B), (CHR 0x5C, CHR 0x5C), (CHR 0x22, CHR 0x22)] c"

text \<open>What an escape stands for, and how many characters follow the backslash and its letter.\<close>

definition escape :: "char \<Rightarrow> string \<Rightarrow> (string \<times> nat) option" where
  "escape c s =
     (if c \<in> {CHR ''x'', CHR ''u'', CHR ''U''} then
        (let n = (if c = CHR ''x'' then 2 else if c = CHR ''u'' then 4 else 8) in
         if length s < n then None
         else (case hex_number 0 (take n s) of
                 None \<Rightarrow> None
               | Some v \<Rightarrow> if c = CHR ''x'' then Some ([char_of v], n)
                   else if valid_rune v then Some (utf8 v, n) else None))
      else (case octal c of
          Some a \<Rightarrow>
            (case s of
               c1 # c2 # _ \<Rightarrow>
                 (case (octal c1, octal c2) of
                    (Some x, Some y) \<Rightarrow> if 64 * a + 8 * x + y \<le> 255 then Some ([char_of (64 * a + 8 * x + y)], 2) else None
                  | _ \<Rightarrow> None)
             | _ \<Rightarrow> None)
        | None \<Rightarrow> (case simple_escape c of None \<Rightarrow> None | Some e \<Rightarrow> Some ([e], 0))))"

function unquote_body :: "string \<Rightarrow> string option" where
  "unquote_body [] = None"
| "unquote_body (c # s) =
     (if c = CHR 0x22 then (if s = [] then Some [] else None)
      else if c = CHR 0x0A then None
      else if c = CHR 0x5C then
        (case s of
           [] \<Rightarrow> None
         | e # s' \<Rightarrow>
             (case escape e s' of
                None \<Rightarrow> None
              | Some (t, n) \<Rightarrow> map_option (\<lambda>r. t @ r) (unquote_body (drop n s'))))
      else map_option (\<lambda>r. c # r) (unquote_body s))"
  by pat_completeness auto
termination by (relation "measure length") auto

definition Unquote :: "string \<Rightarrow> string option" where
  "Unquote s = (if length s < 2 then None else unquote_body (tl s))"

definition unquote :: "string \<Rightarrow> string" where
  "unquote s0 =
     (let s = trim_space s0 in
      if prefix [CHR 0x22] s then (case Unquote s of Some u \<Rightarrow> u | None \<Rightarrow> s) else s)"

section \<open>The paths of a diff\<close>

text \<open>\<open>closingQuote\<close>: a backslash skips the byte after it.\<close>

fun quote_end :: "nat \<Rightarrow> string \<Rightarrow> nat option" where
  "quote_end i [] = None"
| "quote_end i [c] = (if c = CHR 0x22 then Some i else None)"
| "quote_end i (c # e # s) =
     (if c = CHR 0x5C then quote_end (i + 2) s
      else if c = CHR 0x22 then Some i
      else quote_end (Suc i) (e # s))"

definition closingQuote :: "string \<Rightarrow> nat option" where
  "closingQuote s = quote_end 1 (drop 1 s)"

definition splitGitHeader :: "string \<Rightarrow> string \<times> string" where
  "splitGitHeader rest =
     (case (if prefix [CHR 0x22] rest then closingQuote rest else None) of
        Some e \<Rightarrow> (TrimPrefix (unquote (take (Suc e) rest)) ''a/'', TrimPrefix (unquote (trim_space (drop (Suc e) rest))) ''b/'')
      | None \<Rightarrow>
          (case index_of rest '' b/'' of
             Some i \<Rightarrow> (TrimPrefix (take i rest) ''a/'', TrimPrefix (unquote (drop (Suc i) rest)) ''b/'')
           | None \<Rightarrow> ([], [])))"

text \<open>The paths one line adds, given whether it lies in a file's header, and whether the next does.\<close>

definition line_paths :: "bool \<Rightarrow> string \<Rightarrow> string list \<times> bool" where
  "line_paths inHeader line =
     (if prefix ''diff --git '' line then
        (case splitGitHeader (TrimPrefix line ''diff --git '') of (a, b) \<Rightarrow> ([a, b], True))
      else if prefix ''@@'' line then ([], False)
      else if \<not> inHeader then ([], inHeader)
      else if prefix ''--- '' line then ([TrimPrefix (unquote (TrimPrefix line ''--- '')) ''a/''], inHeader)
      else if prefix ''+++ '' line then ([TrimPrefix (unquote (TrimPrefix line ''+++ '')) ''b/''], inHeader)
      else if prefix ''rename from '' line then ([unquote (TrimPrefix line ''rename from '')], inHeader)
      else if prefix ''rename to '' line then ([unquote (TrimPrefix line ''rename to '')], inHeader)
      else ([], inHeader))"

fun header_paths :: "bool \<Rightarrow> string list \<Rightarrow> string list" where
  "header_paths inHeader [] = []"
| "header_paths inHeader (l # ls) =
     (case line_paths inHeader l of (ps, h) \<Rightarrow> filter (\<lambda>p. p \<noteq> [] \<and> p \<noteq> ''/dev/null'') ps @ header_paths h ls)"

text \<open>Sorted by bytes, without repetitions.\<close>

definition sort_strings :: "string list \<Rightarrow> string list" where
  "sort_strings ss = sort_key (\<lambda>s. map of_char s :: nat list) (remdups ss)"

definition diff_limit :: nat where
  "diff_limit = 16 * 1024 * 1024"

definition ChangedPaths :: "string \<Rightarrow> string list" where
  "ChangedPaths unified = sort_strings (header_paths False (fst (scan_lines diff_limit unified)))"

section \<open>Dependency manifests\<close>

text \<open>A parser gives the names a manifest declares, or fails. The limit is that of a new \<open>bufio.Scanner\<close>.\<close>

definition scan_limit :: nat where
  "scan_limit = 64 * 1024"

definition cut_comment :: "string \<Rightarrow> string \<Rightarrow> string" where
  "cut_comment mark line = (case index_of line mark of None \<Rightarrow> line | Some i \<Rightarrow> take i line)"

fun go_mod_lines :: "bool \<Rightarrow> string list \<Rightarrow> string list" where
  "go_mod_lines inBlock [] = []"
| "go_mod_lines inBlock (l # ls) =
     (let fs = fields (cut_comment ''//'' l) in
      if fs = [] then go_mod_lines inBlock ls
      else if inBlock \<and> fs ! 0 = '')'' then go_mod_lines False ls
      else if inBlock then fs ! 0 # go_mod_lines inBlock ls
      else if fs ! 0 = ''require'' \<and> 2 \<le> length fs \<and> fs ! 1 = ''('' then go_mod_lines True ls
      else if fs ! 0 = ''require'' \<and> 3 \<le> length fs then fs ! 1 # go_mod_lines inBlock ls
      else go_mod_lines inBlock ls)"

definition scanned :: "(string list \<Rightarrow> string list) \<Rightarrow> string \<Rightarrow> string list option" where
  "scanned f content = (case scan_lines scan_limit content of (ls, ok) \<Rightarrow> if ok then Some (f ls) else None)"

definition parseGoMod :: "string \<Rightarrow> string list option" where
  "parseGoMod = scanned (go_mod_lines False)"

definition requirement_name :: "string \<Rightarrow> string list" where
  "requirement_name l0 =
     (let l1 = trim_space l0;
          l = (case index_of l1 ''#'' of None \<Rightarrow> l1 | Some i \<Rightarrow> trim_space (take i l1)) in
      if l = [] \<or> prefix ''-'' l then []
      else let name = map (\<lambda>c. if c = CHR ''_'' then CHR ''-'' else c) (lower (before_any ''=<>!~[;@ '' l)) in
        if name = [] then [] else [name])"

definition parseRequirements :: "string \<Rightarrow> string list option" where
  "parseRequirements = scanned (\<lambda>ls. concat (map requirement_name ls))"

definition cargo_kinds :: "string list" where
  "cargo_kinds = [''dependencies'', ''dev-dependencies'', ''build-dependencies'']"

definition isCargoDepSection :: "string \<Rightarrow> bool" where
  "isCargoDepSection section \<longleftrightarrow> (\<exists>kind \<in> set cargo_kinds. section = kind \<or> suffix (''.'' @ kind) section)"

definition table_names :: "string \<Rightarrow> string list" where
  "table_names section = concat (map (\<lambda>kind. case index_of section (kind @ ''.'') of
     None \<Rightarrow> [] | Some i \<Rightarrow> [drop (i + length (kind @ ''.'')) section]) cargo_kinds)"

fun cargo_lines :: "string \<Rightarrow> string list \<Rightarrow> string list" where
  "cargo_lines section [] = []"
| "cargo_lines section (l0 # ls) =
     (let l1 = trim_space l0;
          l = (case index_of l1 ''#'' of None \<Rightarrow> l1 | Some i \<Rightarrow> trim_space (take i l1)) in
      if l = [] then cargo_lines section ls
      else if prefix ''['' l then
        (let s = trim_by (\<lambda>c. c \<in> {CHR ''['', CHR '']'', CHR '' ''}) l in table_names s @ cargo_lines s ls)
      else if \<not> isCargoDepSection section then cargo_lines section ls
      else (case index_of l ''='' of
              Some (Suc i) \<Rightarrow> trim_by (\<lambda>c. c = CHR 0x22) (trim_space (take (Suc i) l)) # cargo_lines section ls
            | _ \<Rightarrow> cargo_lines section ls))"

definition parseCargoToml :: "string \<Rightarrow> string list option" where
  "parseCargoToml = scanned (cargo_lines [])"

text \<open>\<open>json\<close> decodes an object into its fields, undecoded, as \<open>json.Unmarshal\<close> into a map of raw messages.\<close>

type_synonym json_decoder = "string \<Rightarrow> (string \<times> string) list option"

definition package_sections :: "string list" where
  "package_sections = [''dependencies'', ''devDependencies'', ''peerDependencies'', ''optionalDependencies'']"

fun package_names :: "json_decoder \<Rightarrow> (string \<times> string) list \<Rightarrow> string list \<Rightarrow> string list option" where
  "package_names json pkg [] = Some []"
| "package_names json pkg (sec # secs) =
     (case map_of pkg sec of
        None \<Rightarrow> package_names json pkg secs
      | Some raw \<Rightarrow>
          (case json raw of
             None \<Rightarrow> None
           | Some m \<Rightarrow> map_option (\<lambda>ds. map fst m @ ds) (package_names json pkg secs)))"

definition parsePackageJSON :: "json_decoder \<Rightarrow> string \<Rightarrow> string list option" where
  "parsePackageJSON json content =
     (case json content of None \<Rightarrow> None | Some pkg \<Rightarrow> package_names json pkg package_sections)"

definition manifestParser :: "json_decoder \<Rightarrow> string \<Rightarrow> (string \<Rightarrow> string list option) option" where
  "manifestParser json p =
     (let base = path_Base p in
      if base = ''go.mod'' then Some parseGoMod
      else if base = ''package.json'' then Some (parsePackageJSON json)
      else if base = ''Cargo.toml'' then Some parseCargoToml
      else if prefix ''requirements'' base \<and> suffix ''.txt'' base then Some parseRequirements
      else None)"

end
