(* ===== verification/NF_Gates.thy ===== *)
theory NF_Gates
  imports NF_Changes NF_WorkExec
begin

text \<open>
  Quality gates (\<open>internal/gates\<close>): what git-platform answers, the governed actions of a change
  (\<open>changes.go\<close>), the definitions that apply to it, which are read at the target only
  (\<open>resolve.go\<close> with \<open>gateconfig\<close> and \<open>repoconfig\<close>), and the store of evaluations (\<open>store.go\<close>).

  The answers of git-platform are a record of functions, an error being its gRPC code. The YAML
  library is an argument: it decodes one complete document of known fields, or fails.
\<close>

section \<open>Answers of git-platform\<close>

record tree_entry =
  tr_Name :: string
  tr_Kind :: string

record git_diff =
  df_Unified :: string
  df_Paths :: "string list"
  df_Complete :: bool

record merge_request =
  mr_Repo :: uuid
  mr_SourceRepo :: uuid
  mr_SourceRef :: string
  mr_SourceSha :: string
  mr_TargetSha :: string
  mr_TargetRef :: string
  mr_Method :: string

text \<open>Trees, blobs, diffs and commits are asked for by the repository's identifier, branches by its name.\<close>

record git_service =
  git_repos :: "grpc_code + (uuid \<times> string) list"
  git_branches :: "string \<Rightarrow> grpc_code + (string \<times> string) list"
  git_commits :: "uuid \<Rightarrow> string \<Rightarrow> grpc_code + string list"
  git_tree :: "uuid \<Rightarrow> string \<Rightarrow> string \<Rightarrow> grpc_code + tree_entry list"
  git_blob :: "uuid \<Rightarrow> string \<Rightarrow> string \<Rightarrow> grpc_code + string"
  git_diff_of :: "uuid \<Rightarrow> uuid \<Rightarrow> string \<Rightarrow> string \<Rightarrow> grpc_code + git_diff"
  git_merge :: "merge_request \<Rightarrow> grpc_code + string"

section \<open>Parameters of a gate\<close>

text \<open>A finite \<open>float64\<close> is an integer over a power of two: \<open>NFloat n k\<close> is \<open>n / 2\<^sup>k\<close>.\<close>

datatype go_number = NInt int | NFloat int nat | NNaN | NInf

datatype param_value =
    PNumber go_number
  | PStrings "string list"
  | PList "string option list"
  | POther

type_synonym params = "(string \<times> param_value) list"

text \<open>
  The nearest \<open>float64\<close> of an integer that is not negative, ties to even: 53 significant bits. An
  integer that is negative keeps its sign, which is all that is asked of it.
\<close>

fun excess :: "nat \<Rightarrow> nat \<Rightarrow> nat" where
  "excess 0 n = 0"
| "excess (Suc k) n = (if n < 2 ^ 53 then 0 else Suc (excess k (n div 2)))"

definition round53 :: "nat \<Rightarrow> nat" where
  "round53 n =
     (let e = excess 64 n; q = n div 2 ^ e; r = n mod 2 ^ e in
      (if 2 ^ e < 2 * r \<or> 2 * r = 2 ^ e \<and> odd q \<and> 0 < e then q + 1 else q) * 2 ^ e)"

text \<open>The number as a finite \<open>float64\<close>, numerator and exponent.\<close>

definition number :: "param_value \<Rightarrow> (int \<times> nat) option" where
  "number v = (case v of
       PNumber (NInt n) \<Rightarrow> Some (if n < 0 then n else int (round53 (nat n)), 0)
     | PNumber (NFloat n k) \<Rightarrow> Some (n, k)
     | _ \<Rightarrow> None)"

fun split_arrow :: "string \<Rightarrow> string list" where
  "split_arrow [] = [[]]"
| "split_arrow [c] = [[c]]"
| "split_arrow (c # e # s) =
     (if c = CHR ''-'' \<and> e = CHR ''>'' then [] # split_arrow s
      else (case split_arrow (e # s) of w # ws \<Rightarrow> (c # w) # ws | [] \<Rightarrow> [[c]]))"

definition dependency_rule :: "string \<Rightarrow> bool" where
  "dependency_rule rule = (case split_arrow rule of
     [a, b] \<Rightarrow> trim_space a \<noteq> [] \<and> trim_space b \<noteq> [] | _ \<Rightarrow> False)"

definition valid_parameter :: "string \<Rightarrow> string \<times> param_value \<Rightarrow> bool" where
  "valid_parameter gate kv =
     (case kv of (key, v) \<Rightarrow>
        if gate = ''tests'' \<and> key = ''minimum_coverage'' then
          (case number v of None \<Rightarrow> False | Some (n, k) \<Rightarrow> \<not> (n < 0 \<or> 100 * 2 ^ k < n))
        else if gate = ''documentation'' \<and> key = ''max_undocumented'' then
          (case number v of None \<Rightarrow> False | Some (n, k) \<Rightarrow> \<not> (n < 0 \<or> n mod 2 ^ k \<noteq> 0 \<or> 2 ^ 63 * 2 ^ k \<le> n))
        else if gate = ''architecture'' \<and> key = ''forbidden_dependencies'' then
          (case v of
             PStrings rules \<Rightarrow> list_all dependency_rule rules
           | PList xs \<Rightarrow> list_all (\<lambda>i. case i of None \<Rightarrow> False | Some rule \<Rightarrow> dependency_rule rule) xs
           | _ \<Rightarrow> False)
        else False)"

definition ValidateParameters :: "string \<Rightarrow> params \<Rightarrow> bool" where
  "ValidateParameters gate ps \<longleftrightarrow> list_all (valid_parameter gate) ps"

section \<open>Definitions that apply to a target\<close>

record gate_wire =
  gw_Name :: string
  gw_Required :: "bool option"
  gw_Params :: params

record project =
  pj_Name :: string
  pj_Description :: string
  pj_DefaultAgent :: string
  pj_Gates :: "string list"

record decoders =
  dc_json :: json_decoder
  dc_gate :: "string \<Rightarrow> gate_wire option"
  dc_project :: "string \<Rightarrow> project option"

record gate_def =
  gd_Name :: string
  gd_Params :: params
  gd_Required :: bool

datatype gateerr =
    GitAnswered grpc_code
  | ManifestUnreadable string
  | MalformedGate string
  | UnknownGate string
  | DuplicateGate string
  | MalformedProject
  | ProjectGate string
  | InvalidCoverage
  | EvaluationOfAnotherScope
  | NoRunner string
  | InputNotBuilt string
  | RunnerFailed string
  | RunNotResolved
  | BothRevisionsRequired

definition decodeGateFile :: "decoders \<Rightarrow> string \<Rightarrow> gate_def option" where
  "decodeGateFile dc content =
     (case dc_gate dc content of
        None \<Rightarrow> None
      | Some w \<Rightarrow>
          (case gw_Required w of
             None \<Rightarrow> None
           | Some req \<Rightarrow>
               if ValidateParameters (gw_Name w) (gw_Params w)
               then Some \<lparr>gd_Name = gw_Name w, gd_Params = gw_Params w, gd_Required = req\<rparr> else None))"

fun duplicate_of :: "string list \<Rightarrow> string list \<Rightarrow> string option" where
  "duplicate_of seen [] = None"
| "duplicate_of seen (g # gs) = (if \<not> Known g \<or> g \<in> set seen then Some g else duplicate_of (g # seen) gs)"

definition no_project :: project where
  "no_project = \<lparr>pj_Name = '''', pj_Description = '''', pj_DefaultAgent = '''', pj_Gates = []\<rparr>"

definition LoadProject :: "git_service \<Rightarrow> decoders \<Rightarrow> uuid \<Rightarrow> string \<Rightarrow> gateerr + project" where
  "LoadProject git dc repo ref =
     (case git_blob git repo ref ''.novaforge/project.yaml'' of
        Inl NotFound \<Rightarrow> Inr no_project
      | Inl c \<Rightarrow> Inl (GitAnswered c)
      | Inr content \<Rightarrow>
          (case dc_project dc content of
             None \<Rightarrow> Inl MalformedProject
           | Some pj \<Rightarrow> (case duplicate_of [] (pj_Gates pj) of Some g \<Rightarrow> Inl (ProjectGate g) | None \<Rightarrow> Inr pj)))"

definition gate_file_name :: "tree_entry \<Rightarrow> bool" where
  "gate_file_name e \<longleftrightarrow> tr_Kind e = ''blob'' \<and> (suffix ''.yaml'' (tr_Name e) \<or> suffix ''.yml'' (tr_Name e))"

fun read_gate_files :: "git_service \<Rightarrow> decoders \<Rightarrow> uuid \<Rightarrow> string \<Rightarrow> tree_entry list \<Rightarrow> gate_def list \<Rightarrow> gateerr + gate_def list" where
  "read_gate_files git dc repo ref [] defs = Inr defs"
| "read_gate_files git dc repo ref (e # es) defs =
     (if \<not> gate_file_name e then read_gate_files git dc repo ref es defs
      else
        let path = gatesDir @ ''/'' @ tr_Name e in
        (case git_blob git repo ref path of
           Inl c \<Rightarrow> Inl (GitAnswered c)
         | Inr content \<Rightarrow>
             (case decodeGateFile dc content of
                None \<Rightarrow> Inl (MalformedGate path)
              | Some gd \<Rightarrow>
                  if gd_Name gd = '''' then Inl (MalformedGate path)
                  else if \<not> Known (gd_Name gd) then Inl (UnknownGate (gd_Name gd))
                  else if gd_Name gd \<in> gd_Name ` set defs then Inl (DuplicateGate (gd_Name gd))
                  else read_gate_files git dc repo ref es (defs @ [gd]))))"

definition require_def :: "string \<Rightarrow> gate_def list \<Rightarrow> gate_def list" where
  "require_def name defs =
     (if name \<in> gd_Name ` set defs then update_rows (\<lambda>gd. gd_Name gd = name) (\<lambda>gd. gd\<lparr>gd_Required := True\<rparr>) defs
      else defs @ [\<lparr>gd_Name = name, gd_Params = [], gd_Required = True\<rparr>])"

fun require_all :: "string list \<Rightarrow> gate_def list \<Rightarrow> gateerr + gate_def list" where
  "require_all [] defs = Inr defs"
| "require_all (name # names) defs =
     (if \<not> Known name then Inl (UnknownGate name) else require_all names (require_def name defs))"

text \<open>A target without the directory declares no gates, if its root can be read.\<close>

definition gate_entries :: "git_service \<Rightarrow> uuid \<Rightarrow> string \<Rightarrow> gateerr + tree_entry list" where
  "gate_entries git repo ref =
     (case git_tree git repo ref gatesDir of
        Inr es \<Rightarrow> Inr es
      | Inl NotFound \<Rightarrow> (case git_tree git repo ref '''' of Inl c \<Rightarrow> Inl (GitAnswered c) | Inr _ \<Rightarrow> Inr [])
      | Inl c \<Rightarrow> Inl (GitAnswered c))"

definition Resolve_gates :: "git_service \<Rightarrow> decoders \<Rightarrow> uuid \<Rightarrow> string \<Rightarrow> string list \<Rightarrow> gateerr + gate_def list" where
  "Resolve_gates git dc repo ref workItemGates =
     (case gate_entries git repo ref of
        Inl e \<Rightarrow> Inl e
      | Inr es \<Rightarrow>
          (case read_gate_files git dc repo ref es [] of
             Inl e \<Rightarrow> Inl e
           | Inr defs \<Rightarrow>
               (case LoadProject git dc repo ref of
                  Inl e \<Rightarrow> Inl e
                | Inr pj \<Rightarrow>
                    (case require_all (workItemGates @ pj_Gates pj) defs of
                       Inl e \<Rightarrow> Inl e
                     | Inr out \<Rightarrow> Inr (sort_key (\<lambda>gd. map of_char (gd_Name gd) :: nat list) out)))))"

section \<open>Governed actions of a change\<close>

record requirement =
  rm_Action :: string
  rm_Reason :: string
  rm_Paths :: "string list"

text \<open>A manifest that is not there declares nothing; one that cannot be read fails the classification.\<close>

definition manifestDeps :: "git_service \<Rightarrow> decoders \<Rightarrow> uuid \<Rightarrow> string \<Rightarrow> string \<Rightarrow> gateerr + string list" where
  "manifestDeps git dc repo ref p =
     (case git_blob git repo ref p of
        Inl NotFound \<Rightarrow> Inr []
      | Inl c \<Rightarrow> Inl (GitAnswered c)
      | Inr content \<Rightarrow>
          (case manifestParser (dc_json dc) p of
             None \<Rightarrow> Inl (ManifestUnreadable p)
           | Some parse \<Rightarrow> (case parse content of None \<Rightarrow> Inl (ManifestUnreadable p) | Some ds \<Rightarrow> Inr ds)))"

text \<open>The names a change adds, and the manifests it adds them in.\<close>

fun added_deps :: "git_service \<Rightarrow> decoders \<Rightarrow> uuid \<Rightarrow> uuid \<Rightarrow> string \<Rightarrow> string \<Rightarrow> string list
    \<Rightarrow> gateerr + (string list \<times> string list)" where
  "added_deps git dc repo src target source [] = Inr ([], [])"
| "added_deps git dc repo src target source (m # ms) =
     (case manifestDeps git dc repo target m of
        Inl e \<Rightarrow> Inl e
      | Inr before \<Rightarrow>
          (case manifestDeps git dc src source m of
             Inl e \<Rightarrow> Inl e
           | Inr after \<Rightarrow>
               (let fresh = sort_strings (filter (\<lambda>name. name \<notin> set before) after) in
                (case added_deps git dc repo src target source ms of
                   Inl e \<Rightarrow> Inl e
                 | Inr (added, ins) \<Rightarrow> if fresh = [] then Inr (added, ins) else Inr (fresh @ added, m # ins)))))"

fun join_comma :: "string list \<Rightarrow> string" where
  "join_comma [] = []"
| "join_comma [s] = s"
| "join_comma (s # ss) = s @ '', '' @ join_comma ss"

definition changed_paths :: "git_diff \<Rightarrow> string list" where
  "changed_paths df = (if df_Complete df then df_Paths df else ChangedPaths (df_Unified df))"

definition path_requirements :: "string list \<Rightarrow> requirement list" where
  "path_requirements changed =
     (let gateFiles = filter isGateConfigPath changed;
          schemaFiles = filter (\<lambda>p. \<not> isGateConfigPath p \<and> isSchemaPath p) changed in
      (if gateFiles = [] then []
       else [\<lparr>rm_Action = ActionChangeGateConfig, rm_Reason = ''edits gate definitions under '' @ gatesDir, rm_Paths = gateFiles\<rparr>])
      @ (if schemaFiles = [] then []
         else [\<lparr>rm_Action = ActionChangeDBSchema, rm_Reason = ''changes the database schema'', rm_Paths = schemaFiles\<rparr>]))"

text \<open>A source repository that is nil is the repository itself.\<close>

definition ClassifyChange :: "git_service \<Rightarrow> decoders \<Rightarrow> uuid \<Rightarrow> string \<Rightarrow> string \<Rightarrow> uuid \<Rightarrow> gateerr + requirement list" where
  "ClassifyChange git dc repo target source sourceRepo =
     (let src = (if sourceRepo = uuid_Nil then repo else sourceRepo) in
      case git_diff_of git repo src target source of
        Inl c \<Rightarrow> Inl (GitAnswered c)
      | Inr df \<Rightarrow>
          (let changed = changed_paths df in
           case added_deps git dc repo src target source (filter (\<lambda>p. manifestParser (dc_json dc) p \<noteq> None) changed) of
             Inl e \<Rightarrow> Inl e
           | Inr (added, ins) \<Rightarrow>
               Inr (path_requirements changed
                 @ (if added = [] then []
                    else [\<lparr>rm_Action = ActionAddDependency, rm_Reason = ''adds dependencies: '' @ join_comma added, rm_Paths = ins\<rparr>]))))"

definition dependenciesGate :: string where
  "dependenciesGate = ''dependencies''"

definition requireDependencyGate :: "gate_def list \<Rightarrow> requirement list \<Rightarrow> gate_def list" where
  "requireDependencyGate defs reqs =
     (if \<exists>r \<in> set reqs. rm_Action r = ActionAddDependency then require_def dependenciesGate defs else defs)"

section \<open>Evaluations\<close>

record evaluation =
  gv_ID :: uuid
  gv_OrgID :: uuid
  gv_RunID :: uuid
  gv_Gate :: string
  gv_Status :: string
  gv_Detail :: string
  gv_EvaluatedAt :: time
  gv_TargetSHA :: string
  gv_PolicySHA :: string
  gv_RepoID :: uuid
  gv_Coverage :: "go_number option"

type_synonym 'a gates_op = "(evaluation list, gateerr fault, 'a) op"

definition coverage_ok :: "evaluation \<Rightarrow> bool" where
  "coverage_ok e = (case gv_Coverage e of
     None \<Rightarrow> True
   | Some p \<Rightarrow> gv_RepoID e \<noteq> uuid_Nil \<and> gv_Gate e = ''tests'' \<and> (gv_Status e = ''pass'' \<or> gv_Status e = ''fail'')
       \<and> (case p of NFloat n k \<Rightarrow> 0 \<le> n \<and> n \<le> 100 * 2 ^ k | NInt n \<Rightarrow> 0 \<le> n \<and> n \<le> 100 | _ \<Rightarrow> False))"

definition gate_statuses :: "string list" where
  "gate_statuses = [''pass'', ''fail'', ''error'', ''skipped'']"

text \<open>The unique constraint: one evaluation per run, gate, source and policy revision.\<close>

definition same_evaluation :: "evaluation \<Rightarrow> evaluation \<Rightarrow> bool" where
  "same_evaluation e q \<longleftrightarrow> gv_RunID q = gv_RunID e \<and> gv_Gate q = gv_Gate e \<and> gv_TargetSHA q = gv_TargetSHA e
     \<and> gv_PolicySHA q = gv_PolicySHA e"

definition same_owner :: "evaluation \<Rightarrow> evaluation \<Rightarrow> bool" where
  "same_owner e q \<longleftrightarrow> same_evaluation e q \<and> gv_OrgID q = gv_OrgID e \<and> (gv_RepoID q = gv_RepoID e \<or> gv_RepoID q = uuid_Nil)"

definition upsert_evaluation :: "evaluation \<Rightarrow> evaluation list \<Rightarrow> sqlerr + (nat \<times> evaluation list)" where
  "upsert_evaluation e d =
     (if gv_Status e \<notin> set gate_statuses then Inl CheckViolation
      else if \<exists>q \<in> set d. same_evaluation e q
        then Inr (affected (same_owner e) d,
          update_rows (same_owner e) (\<lambda>q. q\<lparr>gv_Status := gv_Status e, gv_Detail := gv_Detail e, gv_RepoID := gv_RepoID e,
             gv_Coverage := gv_Coverage e, gv_EvaluatedAt := gv_EvaluatedAt e\<rparr>) d)
      else if gv_ID e \<in> gv_ID ` set d then Inl UniqueViolation
      else Inr (1, d @ [e]))"

definition RecordEvaluation :: "ctx \<Rightarrow> uuid \<Rightarrow> time \<Rightarrow> evaluation \<Rightarrow> unit gates_op" where
  "RecordEvaluation ctx new_id now e0 =
     bnd (require_org ctx (gv_OrgID e0)) (\<lambda>_.
     if \<not> coverage_ok e0 then fail (App InvalidCoverage)
     else
       let e = (if gv_ID e0 = uuid_Nil then e0\<lparr>gv_ID := new_id\<rparr> else e0) in
       bnd (stmt Sql (upsert_evaluation (e\<lparr>gv_EvaluatedAt := now\<rparr>))) (\<lambda>n.
       if n \<noteq> 1 then fail (App EvaluationOfAnotherScope) else ret ()))"

definition ListEvaluations :: "ctx \<Rightarrow> uuid \<Rightarrow> evaluation list gates_op" where
  "ListEvaluations ctx rid =
     bnd (from_context ctx) (\<lambda>scope.
     query Sql (\<lambda>d. sort_key (\<lambda>e. - gv_EvaluatedAt e) (filter (\<lambda>e. gv_RunID e = rid \<and> gv_OrgID e = s_OrgID scope) d)))"

definition at_revision :: "uuid \<Rightarrow> uuid \<Rightarrow> string \<Rightarrow> string \<Rightarrow> evaluation \<Rightarrow> bool" where
  "at_revision org rid sha policy e \<longleftrightarrow> gv_RunID e = rid \<and> gv_OrgID e = org \<and> gv_TargetSHA e = sha \<and> gv_PolicySHA e = policy"

text \<open>The rows are put into a map by gate, a later one over an earlier.\<close>

definition by_gate :: "evaluation list \<Rightarrow> string \<rightharpoonup> evaluation" where
  "by_gate es = map_of (rev (map (\<lambda>e. (gv_Gate e, e)) es))"

definition LatestForSHA :: "ctx \<Rightarrow> uuid \<Rightarrow> string \<Rightarrow> string \<Rightarrow> (string \<rightharpoonup> evaluation) gates_op" where
  "LatestForSHA ctx rid sha policy =
     bnd (from_context ctx) (\<lambda>scope.
     query Sql (\<lambda>d. by_gate (filter (at_revision (s_OrgID scope) rid sha policy) d)))"

end
