(* ===== verification/NF_Forge.thy ===== *)
theory NF_Forge
  imports NF_Reviews NF_Gates
begin

text \<open>
  The services a merge passes through, together: the tables of reviews, gates, approvals and the
  inbox side by side. An operation of one service is lifted to all of them by \<open>zoom\<close>; the
  locale \<open>part\<close> states what a part of the whole is. Here too is how reviews records the proof
  another service sends it (\<open>internal/reviews/grpc.go\<close>, \<open>inbox.go\<close>).
\<close>

section \<open>The tables together\<close>

record forge =
  fg_reviews :: reviewsdb
  fg_gates :: "evaluation list"
  fg_approvals :: "approval list"
  fg_inbox :: "notification list"

datatype blocked =
    GatesNotEvaluated
  | NotOpen
  | SourceUnresolved
  | TargetUnresolved
  | ControllerUnavailable
  | ControllerUnreachable
  | Reasons "string list"
  | NotIndependentlyApproved

datatype forgeerr =
    ReviewsFault "reviewerr fault"
  | GatesFault "gateerr fault"
  | ApprovalsFault "approvalerr fault"
  | InboxFault "inboxerr fault"
  | ErrMergeBlocked blocked
  | GitRefused grpc_code
  | Rpc grpc_code

type_synonym 'a forge_op = "(forge, forgeerr, 'a) op"

definition zoom :: "('D \<Rightarrow> 'd) \<Rightarrow> ('d \<Rightarrow> 'D \<Rightarrow> 'D) \<Rightarrow> ('e \<Rightarrow> 'f) \<Rightarrow> ('d, 'e, 'a) op \<Rightarrow> ('D, 'f, 'a) op" where
  "zoom get put h m = (\<lambda>w. case m (get (fst w), snd w) of
     (r, (d, fs)) \<Rightarrow> (map_sum h id r, (put d (fst w), fs)))"

definition on_reviews :: "'a reviews_op \<Rightarrow> 'a forge_op" where
  "on_reviews = zoom fg_reviews (\<lambda>d f. f\<lparr>fg_reviews := d\<rparr>) ReviewsFault"

definition on_gates :: "'a gates_op \<Rightarrow> 'a forge_op" where
  "on_gates = zoom fg_gates (\<lambda>d f. f\<lparr>fg_gates := d\<rparr>) GatesFault"

definition on_approvals :: "'a appr_op \<Rightarrow> 'a forge_op" where
  "on_approvals = zoom fg_approvals (\<lambda>d f. f\<lparr>fg_approvals := d\<rparr>) ApprovalsFault"

definition on_inbox :: "'a inbox_op \<Rightarrow> 'a forge_op" where
  "on_inbox = zoom fg_inbox (\<lambda>d f. f\<lparr>fg_inbox := d\<rparr>) InboxFault"

locale part =
  fixes get :: "'D \<Rightarrow> 'd" and put :: "'d \<Rightarrow> 'D \<Rightarrow> 'D"
  assumes get_put: "get (put d D) = d"
    and put_get: "put (get D) D = D"
    and put_put: "put d (put d' D) = put d D"
begin

lemma zoom_Inr:
  "zoom get put h m w = (Inr a, w') \<longleftrightarrow>
     (\<exists>d fs. m (get (fst w), snd w) = (Inr a, (d, fs)) \<and> w' = (put d (fst w), fs))"
  by (auto simp: zoom_def split: prod.splits)

lemma zoom_Inl:
  "zoom get put h m w = (Inl e, w') \<longleftrightarrow>
     (\<exists>x d fs. m (get (fst w), snd w) = (Inl x, (d, fs)) \<and> e = h x \<and> w' = (put d (fst w), fs))"
  by (auto simp: zoom_def split: prod.splits)

text \<open>What an operation may do to its part it may do to the whole, and to nothing else.\<close>

lemma zoom_within: "within R m \<Longrightarrow> within (\<lambda>D D'. R (get D) (get D')) (zoom get put h m)"
  by (rule withinI) (use withinD[of R m] in \<open>auto simp: zoom_def get_put split: prod.splits\<close>, metis fst_conv snd_conv)

lemma zoom_elsewhere: "(\<And>d D. f (put d D) = f D) \<Longrightarrow> within (same f) (zoom get put h m)"
  by (rule withinI) (auto simp: zoom_def same_def split: prod.splits)

end

interpretation reviews_part: part fg_reviews "\<lambda>d f. f\<lparr>fg_reviews := d\<rparr>"
  by unfold_locales simp_all

interpretation gates_part: part fg_gates "\<lambda>d f. f\<lparr>fg_gates := d\<rparr>"
  by unfold_locales simp_all

interpretation approvals_part: part fg_approvals "\<lambda>d f. f\<lparr>fg_approvals := d\<rparr>"
  by unfold_locales simp_all

interpretation inbox_part: part fg_inbox "\<lambda>d f. f\<lparr>fg_inbox := d\<rparr>"
  by unfold_locales simp_all

section \<open>What an operation is given\<close>

text \<open>
  The clock, the identifiers drawn (by what they are drawn for), how an identifier is written, the
  first eight bytes of a SHA-256 in hexadecimal, the answers of git-platform and of the work
  service, the decoders, and what the workspace and the tools of a gate report.
\<close>

record env =
  en_now :: time
  en_approval_id :: "string \<Rightarrow> uuid"
  en_eval_id :: "string \<Rightarrow> uuid"
  en_note_id :: "string \<Rightarrow> nat \<Rightarrow> uuid"
  en_text :: "uuid \<Rightarrow> string"
  en_sha :: "string \<Rightarrow> string"
  en_git :: git_service
  en_item_gates :: "uuid \<Rightarrow> grpc_code + string list"
  en_decoders :: decoders
  en_run_gate :: "string \<Rightarrow> string \<Rightarrow> gate_def \<Rightarrow> gateerr + (string \<times> string \<times> go_number option)"

section \<open>Recording proof\<close>

definition mail :: "uuid \<Rightarrow> string \<Rightarrow> string \<Rightarrow> string \<Rightarrow> string \<Rightarrow> uuid \<Rightarrow> string \<Rightarrow> string \<Rightarrow> notification" where
  "mail repo reason ref title body actorID actorKind dedupe =
     \<lparr>b_ID = uuid_Nil, b_OrgID = uuid_Nil, b_RecipientID = uuid_Nil, b_RepoID = repo, b_Reason = reason, b_Ref = ref,
      b_Title = title, b_Body = body, b_ActorID = actorID, b_ActorKind = actorKind, b_ActorName = '''',
      b_DedupeKey = dedupe, b_State = '''', b_SnoozedUntil = None, b_CreatedAt = epoch\<rparr>"

text \<open>A failed publication is logged and dropped.\<close>

definition dropped :: "'a forge_op \<Rightarrow> unit forge_op" where
  "dropped m = bnd (attempt m :: (forge, forgeerr, forgeerr + 'a) op) (\<lambda>_. ret ())"

definition notifyRunAuthor :: "env \<Rightarrow> ctx \<Rightarrow> erun \<Rightarrow> notification \<Rightarrow> unit forge_op" where
  "notifyRunAuthor en ctx run n =
     (if er_AuthorKind run \<noteq> ''user'' \<or> er_AuthorID run = uuid_Nil then ret ()
      else dropped (on_inbox (PublishInbox ctx (en_note_id en (b_DedupeKey n)) (en_now en) (er_OrgID run)
        (n\<lparr>b_RepoID := er_RepoID run\<rparr>) [er_AuthorID run])))"

definition gateFailureDedupe :: "env \<Rightarrow> uuid \<Rightarrow> string \<Rightarrow> string \<Rightarrow> string" where
  "gateFailureDedupe en rid gate detail =
     ''gate:'' @ en_text en rid @ '':'' @ gate @ '':'' @ en_sha en (gate @ [CHR 0x00] @ detail)"

definition firstLine :: "string \<Rightarrow> string" where
  "firstLine s = takeWhile (\<lambda>c. c \<noteq> CHR 0x0A) s"

definition run_ref :: "erun \<Rightarrow> string" where
  "run_ref run = ''run #'' @ dec (er_Number run)"

text \<open>Every gRPC handler answers an error of the store with a code.\<close>

definition answer :: "grpc_code \<Rightarrow> 'a forge_op \<Rightarrow> 'a forge_op" where
  "answer c m = wrap (\<lambda>_. Rpc c) m"

definition callerOrg_rpc :: "ctx \<Rightarrow> uuid forge_op" where
  "callerOrg_rpc ctx = (case FromContext ctx of Inl _ \<Rightarrow> fail (Rpc PermissionDenied) | Inr scope \<Rightarrow> ret (s_OrgID scope))"

definition requireRunInOrg :: "ctx \<Rightarrow> uuid \<Rightarrow> unit forge_op" where
  "requireRunInOrg ctx rid =
     bnd (callerOrg_rpc ctx) (\<lambda>org.
     bnd (answer NotFound (on_reviews (GetRun ctx rid))) (\<lambda>run.
     if er_OrgID run \<noteq> org then fail (Rpc PermissionDenied) else ret ()))"

definition proof_code :: "forgeerr \<Rightarrow> forgeerr" where
  "proof_code e = (case e of
     ReviewsFault (App ErrProofAuthority) \<Rightarrow> Rpc PermissionDenied | _ \<Rightarrow> Rpc InvalidArgument)"

definition RecordProof_rpc :: "env \<Rightarrow> ctx \<Rightarrow> uuid \<Rightarrow> string \<Rightarrow> string \<Rightarrow> string \<Rightarrow> unit forge_op" where
  "RecordProof_rpc en ctx rid gate stat detail =
     bnd (requireRunInOrg ctx rid) (\<lambda>_.
     bnd (wrap proof_code (on_reviews (RecordProof (en_text en) ctx (en_now en) rid gate stat detail))) (\<lambda>_.
     if stat = ''fail'' \<and> \<not> prefix ''approval/'' gate then
       bnd (attempt (on_reviews (GetRun ctx rid)) :: (_, forgeerr, _) op) (\<lambda>got.
       case got of
         Inl _ \<Rightarrow> ret ()
       | Inr run \<Rightarrow> notifyRunAuthor en ctx run
           (mail uuid_Nil ''gate_failure'' (run_ref run) (gate @ '': '' @ firstLine detail) detail uuid_Nil ''service''
              (gateFailureDedupe en rid gate detail)))
     else ret ()))"

end
