(* ===== verification/NF_Controller.thy ===== *)
theory NF_Controller
  imports NF_Forge
begin

text \<open>
  The gate controller (\<open>internal/gates/controller.go, approvals.go, wiring.go, grpc.go,
  grpc_approvals.go\<close>), which alone says whether a run may merge. \<open>quoted\<close> is \<open>%q\<close> of a name, which
  holds nothing that has to be escaped.
\<close>

definition quoted :: "string \<Rightarrow> string" where
  "quoted s = [CHR 0x22] @ s @ [CHR 0x22]"

section \<open>The run and its heads\<close>

record run_head =
  rh_OrgID :: uuid
  rh_RepoID :: uuid
  rh_SourceRepoID :: uuid
  rh_TargetRef :: string
  rh_TargetSHA :: string
  rh_HeadSHA :: string
  rh_WorkItemGates :: "string list"
  rh_SourceRef :: string
  rh_AuthorID :: uuid
  rh_AuthorKind :: string

definition head_sourceRepo :: "run_head \<Rightarrow> uuid" where
  "head_sourceRepo h = (if rh_SourceRepoID h = uuid_Nil then rh_RepoID h else rh_SourceRepoID h)"

definition resolveRepoName :: "git_service \<Rightarrow> uuid \<Rightarrow> gateerr + string" where
  "resolveRepoName git repo =
     (case git_repos git of
        Inl c \<Rightarrow> Inl (GitAnswered c)
      | Inr rs \<Rightarrow> (case map_of rs repo of None \<Rightarrow> Inl RunNotResolved | Some name \<Rightarrow> Inr name))"

text \<open>The heads of a repository's branches, in a map: the last entry of a name counts.\<close>

definition branch_heads :: "git_service \<Rightarrow> uuid \<Rightarrow> gateerr + (string \<rightharpoonup> string)" where
  "branch_heads git repo =
     (case resolveRepoName git repo of
        Inl e \<Rightarrow> Inl e
      | Inr name \<Rightarrow> (case git_branches git name of Inl c \<Rightarrow> Inl (GitAnswered c) | Inr bs \<Rightarrow> Inr (map_of (rev bs))))"

definition head_of :: "(string \<rightharpoonup> string) \<Rightarrow> string \<Rightarrow> string" where
  "head_of heads branch = (case heads branch of None \<Rightarrow> '''' | Some sha \<Rightarrow> sha)"

definition run_head_of :: "env \<Rightarrow> erun \<Rightarrow> gateerr + run_head" where
  "run_head_of en run =
     (case (if er_WorkItemID run = uuid_Nil then Inr [] else en_item_gates en (er_WorkItemID run)) of
        Inl c \<Rightarrow> Inl (GitAnswered c)
      | Inr itemGates \<Rightarrow>
          (case branch_heads (en_git en) (er_RepoID run) of
             Inl e \<Rightarrow> Inl e
           | Inr heads \<Rightarrow>
               (let target = head_of heads (TrimPrefix (er_TargetRef run) ''refs/heads/'') in
                if target = '''' then Inl RunNotResolved
                else
                  (case (if sourceRepo run = er_RepoID run then Inr heads else branch_heads (en_git en) (sourceRepo run)) of
                     Inl e \<Rightarrow> Inl e
                   | Inr sourceHeads \<Rightarrow>
                       (let head = head_of sourceHeads (TrimPrefix (er_SourceRef run) ''refs/heads/'') in
                        if head = '''' then Inl RunNotResolved
                        else Inr \<lparr>rh_OrgID = er_OrgID run, rh_RepoID = er_RepoID run, rh_SourceRepoID = sourceRepo run,
                          rh_TargetRef = er_TargetRef run, rh_TargetSHA = target, rh_HeadSHA = head,
                          rh_WorkItemGates = itemGates, rh_SourceRef = er_SourceRef run,
                          rh_AuthorID = er_AuthorID run, rh_AuthorKind = er_AuthorKind run\<rparr>)))))"

definition gates_fault :: "gateerr + 'a \<Rightarrow> 'a forge_op" where
  "gates_fault r = lift (map_sum (\<lambda>e. GatesFault (App e)) id r)"

text \<open>\<open>NewServiceRunLookup\<close>: the run is read through reviews, in the caller's organization.\<close>

definition RunLookup :: "env \<Rightarrow> ctx \<Rightarrow> uuid \<Rightarrow> run_head forge_op" where
  "RunLookup en ctx rid = bnd (on_reviews (GetRun ctx rid)) (\<lambda>run. gates_fault (run_head_of en run))"

section \<open>What applies to a run\<close>

record resolved =
  rs_Head :: run_head
  rs_Defs :: "gate_def list"
  rs_Latest :: "string \<rightharpoonup> evaluation"
  rs_Reqs :: "requirement list"

definition changeRequirements :: "env \<Rightarrow> run_head \<Rightarrow> gateerr + requirement list" where
  "changeRequirements en h =
     (if rh_SourceRef h = '''' then Inr []
      else ClassifyChange (en_git en) (en_decoders en) (rh_RepoID h)
        (if rh_TargetSHA h = '''' then rh_TargetRef h else rh_TargetSHA h)
        (if rh_TargetSHA h = '''' then rh_SourceRef h else rh_HeadSHA h) (head_sourceRepo h))"

definition resolveHead :: "env \<Rightarrow> ctx \<Rightarrow> uuid \<Rightarrow> run_head \<Rightarrow> resolved forge_op" where
  "resolveHead en ctx rid h =
     bnd (gates_fault (Resolve_gates (en_git en) (en_decoders en) (rh_RepoID h)
            (if rh_TargetSHA h = '''' then rh_TargetRef h else rh_TargetSHA h) (rh_WorkItemGates h))) (\<lambda>defs.
     bnd (gates_fault (changeRequirements en h)) (\<lambda>reqs.
     bnd (on_gates (LatestForSHA ctx rid (rh_HeadSHA h) (rh_TargetSHA h))) (\<lambda>latest.
     ret \<lparr>rs_Head = h, rs_Defs = requireDependencyGate defs reqs, rs_Latest = latest, rs_Reqs = reqs\<rparr>)))"

definition resolveForRun :: "env \<Rightarrow> ctx \<Rightarrow> uuid \<Rightarrow> resolved forge_op" where
  "resolveForRun en ctx rid = bnd (RunLookup en ctx rid) (resolveHead en ctx rid)"

section \<open>Approvals a change needs\<close>

text \<open>Proof is recorded under the gates service's own identity, in the caller's organization.\<close>

definition gates_scope :: "uuid \<Rightarrow> scope" where
  "gates_scope org = \<lparr>s_OrgID = org, s_ActorID = uuid_Nil, s_ActorKind = ''service'', s_ServiceName = ''gates'',
     s_Role = '''', s_PlatformWorker = '''', s_RepoLimited = False, s_Repos = Map.empty\<rparr>"

definition Proof :: "env \<Rightarrow> ctx \<Rightarrow> uuid \<Rightarrow> string \<Rightarrow> string \<Rightarrow> string \<Rightarrow> unit forge_op" where
  "Proof en ctx rid gate stat detail =
     (case FromContext ctx of
        Inl e \<Rightarrow> fail (GatesFault (NoAuth e))
      | Inr scope \<Rightarrow>
          if s_OrgID scope = uuid_Nil then fail (GatesFault (NoAuth ErrNoScope))
          else RecordProof_rpc en (Some (gates_scope (s_OrgID scope))) rid gate stat detail)"

definition paths_text :: "string list \<Rightarrow> string" where
  "paths_text ps = '' ('' @ join_comma ps @ '')''"

definition recordApprovalProof :: "env \<Rightarrow> ctx \<Rightarrow> approval \<Rightarrow> unit forge_op" where
  "recordApprovalProof en ctx req =
     (let about = a_Reason req @ paths_text (a_Paths req);
          sd = (if a_Decision req = StateApproved then
                  (''pass'', about @ ''; approved by '' @ en_text en (a_DecidedBy req) @ '' for head '' @ a_HeadSHA req)
                else if a_Decision req = StateDenied then
                  (''fail'', about @ ''; denied by '' @ en_text en (a_DecidedBy req) @ '' for head '' @ a_HeadSHA req)
                else (''pending'', about @ ''; awaiting an owner or admin for head '' @ a_HeadSHA req)) in
      Proof en ctx (a_RunID req) (''approval/'' @ a_Action req) (fst sd)
        (if a_Comment req = '''' then snd sd else snd sd @ '': '' @ a_Comment req))"

definition runRef :: "env \<Rightarrow> ctx \<Rightarrow> uuid \<Rightarrow> run_head \<Rightarrow> string forge_op" where
  "runRef en ctx rid h =
     bnd (attempt (on_reviews (GetRun ctx rid)) :: (_, forgeerr, _) op) (\<lambda>got.
     ret (case got of
            Inr run \<Rightarrow>
              if 0 < er_Number run then run_ref run
              else if 8 \<le> length (rh_HeadSHA h) then ''run '' @ take 8 (rh_HeadSHA h) else ''run''
          | Inl _ \<Rightarrow> if 8 \<le> length (rh_HeadSHA h) then ''run '' @ take 8 (rh_HeadSHA h) else ''run''))"

definition notifyInbox :: "env \<Rightarrow> ctx \<Rightarrow> run_head \<Rightarrow> uuid \<Rightarrow> approval \<Rightarrow> requirement \<Rightarrow> unit forge_op" where
  "notifyInbox en ctx h rid req r =
     (if rh_AuthorKind h \<noteq> ''user'' \<or> rh_AuthorID h = uuid_Nil then ret ()
      else
        bnd (runRef en ctx rid h) (\<lambda>ref.
        let dedupe = ''approval:'' @ en_text en (a_ID req) in
        dropped (on_inbox (PublishInbox ctx (en_note_id en dedupe) (en_now en) (rh_OrgID h)
          (mail (rh_RepoID h) ''approval'' ref (rm_Action r @ '': awaiting an owner or admin'')
             (rm_Reason r @ paths_text (rm_Paths r)) (rh_AuthorID h) (rh_AuthorKind h) dedupe) [rh_AuthorID h]))))"

definition author_grant :: "run_head \<Rightarrow> grant" where
  "author_grant h = \<lparr>g_ID = uuid_Nil, g_OrgID = rh_OrgID h, g_SubjectID = rh_AuthorID h, g_SubjectKind = rh_AuthorKind h,
     g_RepoRead = False, g_WriteBranch = '''', g_SecretsProd = False, g_DeployStaging = False, g_DeployProd = False,
     g_ExpiresAt = epoch\<rparr>"

definition raise_request :: "run_head \<Rightarrow> uuid \<Rightarrow> requirement \<Rightarrow> approval" where
  "raise_request h rid r = \<lparr>a_ID = uuid_Nil, a_OrgID = rh_OrgID h, a_RunID = rid, a_Action = rm_Action r, a_Detail = [],
     a_Decision = '''', a_DecidedBy = uuid_Nil, a_DecidedAt = epoch, a_CreatedAt = epoch, a_HeadSHA = rh_HeadSHA h,
     a_Reason = rm_Reason r, a_Paths = rm_Paths r, a_Comment = '''', a_AuthorID = rh_AuthorID h, a_AuthorKind = rh_AuthorKind h\<rparr>"

text \<open>Why one requirement holds the merge back: no reason, or one.\<close>

definition requirement_reasons :: "env \<Rightarrow> ctx \<Rightarrow> uuid \<Rightarrow> run_head \<Rightarrow> bool \<Rightarrow> requirement \<Rightarrow> string list forge_op" where
  "requirement_reasons en ctx rid h rec r =
     (case Decide (rm_Action r) (author_grant h) of
        DecisionAutomatic \<Rightarrow> ret []
      | DecisionPolicy \<Rightarrow>
          bnd (if rec then Proof en ctx rid (''approval/'' @ rm_Action r) ''pass''
                 (rm_Reason r @ paths_text (rm_Paths r) @ ''; allowed by policy, provided the '' @ dependenciesGate @ '' gate passes'')
               else ret ()) (\<lambda>_. ret [])
      | DecisionHuman \<Rightarrow>
          bnd (on_approvals (Raise ctx (en_approval_id en (rm_Action r)) (en_now en) (raise_request h rid r))) (\<lambda>req.
          bnd (if a_Decision req = StateApproved \<and> a_DecidedBy req \<noteq> rh_AuthorID h then ret []
               else if a_Decision req = StateDenied then ret [''approval '' @ quoted (rm_Action r) @ '' denied for head '' @ rh_HeadSHA h @ '': '' @ a_Comment req]
               else bnd (notifyInbox en ctx h rid req r) (\<lambda>_. ret [''approval '' @ quoted (rm_Action r)
                 @ '' awaiting an owner or admin for head '' @ rh_HeadSHA h @ '': '' @ rm_Reason r])) (\<lambda>reasons.
          bnd (if rec then recordApprovalProof en ctx req else ret ()) (\<lambda>_. ret reasons)))
      | DecisionForbidden \<Rightarrow>
          bnd (if rec then Proof en ctx rid (''approval/'' @ rm_Action r) ''fail'' (''forbidden by policy: '' @ rm_Reason r)
               else ret ()) (\<lambda>_. ret [''action '' @ quoted (rm_Action r) @ '' is forbidden by policy: '' @ rm_Reason r]))"

fun approvalReasons :: "env \<Rightarrow> ctx \<Rightarrow> uuid \<Rightarrow> run_head \<Rightarrow> bool \<Rightarrow> requirement list \<Rightarrow> string list forge_op" where
  "approvalReasons en ctx rid h rec [] = ret []"
| "approvalReasons en ctx rid h rec (r # rs) =
     bnd (requirement_reasons en ctx rid h rec r) (\<lambda>xs.
     bnd (approvalReasons en ctx rid h rec rs) (\<lambda>ys. ret (xs @ ys)))"

section \<open>Evaluation\<close>

text \<open>
  One gate: the evaluation already made at these revisions, or the report of its runner
  (\<open>en_run_gate\<close> of the source and policy revision, with the workspace it needs), recorded.
\<close>

definition evaluate_gate :: "env \<Rightarrow> ctx \<Rightarrow> uuid \<Rightarrow> run_head \<Rightarrow> (string \<rightharpoonup> evaluation) \<Rightarrow> gate_def \<Rightarrow> evaluation forge_op" where
  "evaluate_gate en ctx rid h latest gd =
     (case latest (gd_Name gd) of
        Some ev \<Rightarrow> bnd (Proof en ctx rid (gv_Gate ev) (gv_Status ev) (gv_Detail ev)) (\<lambda>_. ret ev)
      | None \<Rightarrow>
          if \<not> Known (gd_Name gd) then fail (GatesFault (App (NoRunner (gd_Name gd))))
          else
            bnd (gates_fault (en_run_gate en (rh_HeadSHA h) (rh_TargetSHA h) gd)) (\<lambda>(stat, detail, coverage).
            let ev = \<lparr>gv_ID = uuid_Nil, gv_OrgID = rh_OrgID h, gv_RunID = rid, gv_Gate = gd_Name gd, gv_Status = stat,
                      gv_Detail = detail, gv_EvaluatedAt = epoch, gv_TargetSHA = rh_HeadSHA h,
                      gv_PolicySHA = rh_TargetSHA h, gv_RepoID = rh_RepoID h, gv_Coverage = coverage\<rparr> in
            bnd (on_gates (RecordEvaluation ctx (en_eval_id en (gd_Name gd)) (en_now en) ev)) (\<lambda>_.
            bnd (Proof en ctx rid (gv_Gate ev) (gv_Status ev) (gv_Detail ev)) (\<lambda>_. ret ev))))"

fun evaluate_gates :: "env \<Rightarrow> ctx \<Rightarrow> uuid \<Rightarrow> run_head \<Rightarrow> (string \<rightharpoonup> evaluation) \<Rightarrow> gate_def list \<Rightarrow> evaluation list forge_op" where
  "evaluate_gates en ctx rid h latest [] = ret []"
| "evaluate_gates en ctx rid h latest (gd # gds) =
     bnd (evaluate_gate en ctx rid h latest gd) (\<lambda>ev.
     bnd (evaluate_gates en ctx rid h latest gds) (\<lambda>evs. ret (ev # evs)))"

definition Evaluate :: "env \<Rightarrow> ctx \<Rightarrow> uuid \<Rightarrow> evaluation list forge_op" where
  "Evaluate en ctx rid =
     bnd (resolveForRun en ctx rid) (\<lambda>r.
     bnd (approvalReasons en ctx rid (rs_Head r) True (rs_Reqs r)) (\<lambda>_.
     evaluate_gates en ctx rid (rs_Head r) (rs_Latest r) (rs_Defs r)))"

section \<open>May it merge\<close>

definition gate_reasons :: "string \<Rightarrow> (string \<rightharpoonup> evaluation) \<Rightarrow> gate_def \<Rightarrow> string list" where
  "gate_reasons head latest gd =
     (if \<not> gd_Required gd then []
      else (case latest (gd_Name gd) of
              None \<Rightarrow> [''gate '' @ quoted (gd_Name gd) @ '' not evaluated at head '' @ head]
            | Some ev \<Rightarrow> if gv_Status ev = ''pass'' then [] else [''gate '' @ quoted (gd_Name gd) @ '' status '' @ quoted (gv_Status ev)]))"

definition mayMergeResolved :: "env \<Rightarrow> ctx \<Rightarrow> uuid \<Rightarrow> resolved \<Rightarrow> (bool \<times> string list) forge_op" where
  "mayMergeResolved en ctx rid r =
     bnd (approvalReasons en ctx rid (rs_Head r) False (rs_Reqs r)) (\<lambda>reasons.
     let all = reasons @ concat (map (gate_reasons (rh_HeadSHA (rs_Head r)) (rs_Latest r)) (rs_Defs r)) in
     ret (all = [], all))"

definition MayMerge :: "env \<Rightarrow> ctx \<Rightarrow> uuid \<Rightarrow> (bool \<times> string list) forge_op" where
  "MayMerge en ctx rid = bnd (resolveForRun en ctx rid) (mayMergeResolved en ctx rid)"

definition MayMergePinned :: "env \<Rightarrow> ctx \<Rightarrow> uuid \<Rightarrow> string \<Rightarrow> string \<Rightarrow> (bool \<times> string list \<times> run_head) forge_op" where
  "MayMergePinned en ctx rid source target =
     (if source = '''' \<or> target = '''' then fail (GatesFault (App BothRevisionsRequired))
      else
        bnd (RunLookup en ctx rid) (\<lambda>h.
        if rh_HeadSHA h \<noteq> source \<or> rh_TargetSHA h \<noteq> target then ret (False, [''run revisions changed; reevaluate before merge''], h)
        else
          bnd (resolveHead en ctx rid h) (\<lambda>r.
          bnd (mayMergeResolved en ctx rid r) (\<lambda>(allowed, reasons). ret (allowed, reasons, h)))))"

section \<open>Over gRPC\<close>

text \<open>A status of another service is passed on, any other failure is internal; here it is one answer.\<close>

definition Evaluate_rpc :: "env \<Rightarrow> ctx \<Rightarrow> uuid \<Rightarrow> evaluation list forge_op" where
  "Evaluate_rpc en ctx rid = bnd (callerOrg_rpc ctx) (\<lambda>_. answer Internal (Evaluate en ctx rid))"

definition MayMerge_rpc :: "env \<Rightarrow> ctx \<Rightarrow> uuid \<Rightarrow> string \<Rightarrow> string \<Rightarrow> (bool \<times> string list \<times> string \<times> string) forge_op" where
  "MayMerge_rpc en ctx rid source target =
     bnd (callerOrg_rpc ctx) (\<lambda>_.
     if source = '''' \<or> target = '''' then fail (Rpc InvalidArgument)
     else bnd (answer Internal (MayMergePinned en ctx rid source target))
       (\<lambda>(allowed, reasons, h). ret (allowed, reasons, rh_HeadSHA h, rh_TargetSHA h)))"

definition RequestApproval_rpc :: "env \<Rightarrow> ctx \<Rightarrow> uuid \<Rightarrow> string \<Rightarrow> string \<Rightarrow> approval forge_op" where
  "RequestApproval_rpc en ctx rid action detail =
     bnd (callerOrg_rpc ctx) (\<lambda>org.
     answer InvalidArgument (on_approvals (Request ctx (en_approval_id en action) (en_now en)
       \<lparr>a_ID = uuid_Nil, a_OrgID = org, a_RunID = rid, a_Action = action, a_Detail = [(''raw'', detail)], a_Decision = '''',
        a_DecidedBy = uuid_Nil, a_DecidedAt = epoch, a_CreatedAt = epoch, a_HeadSHA = '''', a_Reason = '''', a_Paths = [],
        a_Comment = '''', a_AuthorID = uuid_Nil, a_AuthorKind = ''''\<rparr>)))"

definition resolve_code :: "forgeerr \<Rightarrow> forgeerr" where
  "resolve_code e = (case e of ApprovalsFault (App ErrNotPending) \<Rightarrow> Rpc NotFound | _ \<Rightarrow> Rpc Internal)"

definition ResolveApproval_rpc :: "env \<Rightarrow> ctx \<Rightarrow> uuid \<Rightarrow> string \<Rightarrow> string \<Rightarrow> approval forge_op" where
  "ResolveApproval_rpc en ctx aid decision comment =
     (case FromContext ctx of
        Inl _ \<Rightarrow> fail (Rpc PermissionDenied)
      | Inr scope \<Rightarrow>
          if decision \<noteq> StateApproved \<and> decision \<noteq> StateDenied then fail (Rpc InvalidArgument)
          else if s_ActorKind scope \<noteq> ''user'' \<or> s_ActorID scope = uuid_Nil then fail (Rpc PermissionDenied)
          else if \<not> IsOrgAdmin scope then fail (Rpc PermissionDenied)
          else
            bnd (answer NotFound (on_approvals (Get_request ctx aid))) (\<lambda>current.
            if a_AuthorID current \<noteq> uuid_Nil \<and> a_AuthorID current = s_ActorID scope then fail (Rpc PermissionDenied)
            else
              bnd (wrap resolve_code (on_approvals (Resolve_request ctx (en_now en) aid (s_ActorID scope) decision comment))) (\<lambda>decided.
              bnd (if a_HeadSHA decided = '''' then ret () else dropped (recordApprovalProof en ctx decided)) (\<lambda>_.
              ret decided))))"

end
