(* ===== verification/NF_Merge.thy ===== *)
theory NF_Merge
  imports NF_Controller
begin

text \<open>
  Merging (\<open>internal/reviews/merge.go, gatesclient.go, automerge.go, impact.go\<close>): the one path a
  change takes into its target, whether a person or the policy asks for it. Git and the other
  services change while it runs, so each of its calls is given answers of its own (\<open>ens\<close>).
\<close>

section \<open>The size of a change\<close>

record impact =
  im_FilesChanged :: nat
  im_Insertions :: nat
  im_Deletions :: nat
  im_Paths :: "string list"

definition extractBPath :: "string \<Rightarrow> string option" where
  "extractBPath line = map_option (\<lambda>i. drop (i + 3) line) (index_of line '' b/'')"

definition impact_line :: "string \<Rightarrow> impact \<Rightarrow> impact" where
  "impact_line line im =
     (if prefix ''diff --git '' line then
        im\<lparr>im_FilesChanged := im_FilesChanged im + 1,
           im_Paths := im_Paths im @ (case extractBPath line of None \<Rightarrow> [] | Some p \<Rightarrow> [p])\<rparr>
      else if prefix ''+++'' line \<or> prefix ''---'' line then im
      else if prefix ''+'' line then im\<lparr>im_Insertions := im_Insertions im + 1\<rparr>
      else if prefix ''-'' line then im\<lparr>im_Deletions := im_Deletions im + 1\<rparr>
      else im)"

definition impact_of :: "string \<Rightarrow> impact" where
  "impact_of unified = fold impact_line (split_at (CHR 0x0A) unified)
     \<lparr>im_FilesChanged = 0, im_Insertions = 0, im_Deletions = 0, im_Paths = []\<rparr>"

definition ComputeImpact :: "git_service \<Rightarrow> uuid \<Rightarrow> string \<Rightarrow> string \<Rightarrow> uuid \<Rightarrow> grpc_code + impact" where
  "ComputeImpact git repo from to srcRepo =
     map_sum id (\<lambda>df. impact_of (df_Unified df)) (git_diff_of git repo (if srcRepo = uuid_Nil then repo else srcRepo) from to)"

definition sensitivePrefixes :: "string list" where
  "sensitivePrefixes = [''.novaforge/'', ''deploy/'', ''migrations/'', ''proto/'']"

definition sensitiveNames :: "string list" where
  "sensitiveNames = [''go.mod'', ''go.sum'', ''package.json'', ''package-lock.json'', ''Dockerfile'']"

definition isSensitive :: "string \<Rightarrow> bool" where
  "isSensitive path \<longleftrightarrow>
     (\<exists>pre \<in> set sensitivePrefixes. prefix pre path \<or> sublist (''/'' @ pre) path)
     \<or> last_component path \<in> set sensitiveNames"

text \<open>The level and which rule gave it.\<close>

datatype risk_reason = Touches "string list" | ManyFiles nat | ManyLines nat | SomeFiles nat | SomeLines nat | SmallChange nat nat

definition AssessRisk :: "impact \<Rightarrow> string \<times> risk_reason" where
  "AssessRisk im =
     (let lines = im_Insertions im + im_Deletions im;
          sensitive = filter isSensitive (im_Paths im) in
      if sensitive \<noteq> [] then (''high'', Touches sensitive)
      else if 20 < im_FilesChanged im then (''high'', ManyFiles (im_FilesChanged im))
      else if 1000 < lines then (''high'', ManyLines lines)
      else if 5 < im_FilesChanged im then (''medium'', SomeFiles (im_FilesChanged im))
      else if 200 < lines then (''medium'', SomeLines lines)
      else (''low'', SmallChange (im_FilesChanged im) lines))"

section \<open>The merge\<close>

definition refHead :: "git_service \<Rightarrow> uuid \<Rightarrow> string \<Rightarrow> string option" where
  "refHead git repo ref =
     (case git_commits git repo ref of
        Inr [sha] \<Rightarrow> if sha = '''' then None else Some sha
      | _ \<Rightarrow> None)"

definition sourceHead :: "git_service \<Rightarrow> erun \<Rightarrow> string option" where
  "sourceHead git run = refHead git (sourceRepo run) (er_SourceRef run)"

text \<open>\<open>GatesClient.MayMergePinned\<close>: an answer for other revisions is an error.\<close>

definition client_MayMergePinned :: "env \<Rightarrow> ctx \<Rightarrow> uuid \<Rightarrow> string \<Rightarrow> string \<Rightarrow> (bool \<times> string list) forge_op" where
  "client_MayMergePinned en ctx rid source target =
     (if source = '''' \<or> target = '''' then fail (GatesFault (App BothRevisionsRequired))
      else
        bnd (MayMerge_rpc en ctx rid source target) (\<lambda>(allowed, reasons, evalSource, evalTarget).
        if evalSource \<noteq> source \<or> evalTarget \<noteq> target then fail (Rpc Internal) else ret (allowed, reasons)))"

definition merge_request_of :: "erun \<Rightarrow> string \<Rightarrow> string \<Rightarrow> string \<Rightarrow> merge_request" where
  "merge_request_of run head target how =
     \<lparr>mr_Repo = er_RepoID run, mr_SourceRepo = sourceRepo run, mr_SourceRef = er_SourceRef run, mr_SourceSha = head,
      mr_TargetSha = target, mr_TargetRef = er_TargetRef run, mr_Method = how\<rparr>"

definition Merge :: "(nat \<Rightarrow> env) \<Rightarrow> ctx \<Rightarrow> uuid \<Rightarrow> string \<Rightarrow> string forge_op" where
  "Merge ens ctx rid how =
     bnd (wrap (\<lambda>_. ErrMergeBlocked GatesNotEvaluated) (Evaluate_rpc (ens 0) ctx rid)) (\<lambda>_.
     bnd (on_reviews (GetRun ctx rid)) (\<lambda>run.
     if er_State run \<noteq> ''open'' then fail (ErrMergeBlocked NotOpen)
     else (case sourceHead (en_git (ens 1)) run of
        None \<Rightarrow> fail (ErrMergeBlocked SourceUnresolved)
      | Some head \<Rightarrow>
          (case refHead (en_git (ens 2)) (er_RepoID run) (er_TargetRef run) of
             None \<Rightarrow> fail (ErrMergeBlocked TargetUnresolved)
           | Some target \<Rightarrow>
               bnd (wrap (\<lambda>_. ErrMergeBlocked ControllerUnreachable) (client_MayMergePinned (ens 3) ctx rid head target))
                 (\<lambda>(allowed, reasons).
               if \<not> allowed then fail (ErrMergeBlocked (Reasons reasons))
               else
                 bnd (on_reviews (hasIndependentApproval ctx rid (er_AuthorID run) head)) (\<lambda>approved.
                 if \<not> approved then fail (ErrMergeBlocked NotIndependentlyApproved)
                 else (case git_merge (en_git (ens 4)) (merge_request_of run head target how) of
                         Inl c \<Rightarrow> fail (GitRefused c)
                       | Inr sha \<Rightarrow> bnd (on_reviews (setRunState ctx rid ''merged'')) (\<lambda>_. ret sha))))))))"

section \<open>Merging by policy\<close>

record automerge_policy =
  ap_Enabled :: bool
  ap_MaxFilesChanged :: nat
  ap_AllowedTypes :: "string list"
  ap_ForbiddenPaths :: "string list"

definition firstForbiddenPath :: "string list \<Rightarrow> string list \<Rightarrow> (string \<times> string) option" where
  "firstForbiddenPath rules paths = List.find (\<lambda>(r, p). prefix r p) (List.product rules paths)"

datatype refusal =
    PolicyDisabled
  | TooManyFiles nat
  | TouchesForbidden string string
  | TypeNotAllowed string
  | MergeRefused forgeerr

text \<open>
  \<open>Consider\<close>: merged with the commit, or refused with the reason. The resolvers of the change's impact
  and of the work item's type are those of the deployment; the type is asked for only when the
  policy restricts it.
\<close>

definition Consider :: "automerge_policy \<Rightarrow> (erun \<Rightarrow> grpc_code + impact) \<Rightarrow> (erun \<Rightarrow> grpc_code + string) \<Rightarrow> string
    \<Rightarrow> (nat \<Rightarrow> env) \<Rightarrow> ctx \<Rightarrow> uuid \<Rightarrow> (refusal + string) forge_op" where
  "Consider policy impactOf typeOf how ens ctx rid =
     (if \<not> ap_Enabled policy then ret (Inl PolicyDisabled)
      else
        bnd (on_reviews (GetRun ctx rid)) (\<lambda>run.
        case impactOf run of
          Inl c \<Rightarrow> fail (GitRefused c)
        | Inr im \<Rightarrow>
            if 0 < ap_MaxFilesChanged policy \<and> ap_MaxFilesChanged policy < im_FilesChanged im
            then ret (Inl (TooManyFiles (im_FilesChanged im)))
            else (case firstForbiddenPath (ap_ForbiddenPaths policy) (im_Paths im) of
                Some (r, p) \<Rightarrow> ret (Inl (TouchesForbidden r p))
              | None \<Rightarrow>
                  bnd (if ap_AllowedTypes policy = [] then ret None
                       else (case typeOf run of
                               Inl c \<Rightarrow> fail (Rpc c)
                             | Inr typ \<Rightarrow> ret (if typ \<in> set (ap_AllowedTypes policy) then None else Some typ))) (\<lambda>bad.
                  case bad of
                    Some typ \<Rightarrow> ret (Inl (TypeNotAllowed typ))
                  | None \<Rightarrow>
                      bnd (attempt (Merge ens ctx rid (if how = '''' then ''merge'' else how)) :: (_, forgeerr, _) op) (\<lambda>res.
                      case res of Inl e \<Rightarrow> ret (Inl (MergeRefused e)) | Inr sha \<Rightarrow> ret (Inr sha)))))) "

section \<open>Handlers\<close>

text \<open>A run is addressed by its identifier or by repository and number.\<close>

datatype run_address = ById uuid | ByNumber uuid nat | NoAddress

definition resolveRun :: "ctx \<Rightarrow> run_address \<Rightarrow> erun forge_op" where
  "resolveRun ctx addr =
     bnd (callerOrg_rpc ctx) (\<lambda>org.
     bnd (case addr of
            ById rid \<Rightarrow> answer NotFound (on_reviews (GetRun ctx rid))
          | ByNumber repo n \<Rightarrow> if 0 < n then answer NotFound (on_reviews (GetRunByNumber ctx repo n)) else fail (Rpc InvalidArgument)
          | NoAddress \<Rightarrow> fail (Rpc InvalidArgument)) (\<lambda>run.
     if er_OrgID run \<noteq> org then fail (Rpc PermissionDenied) else ret run))"

definition merge_code :: "forgeerr \<Rightarrow> forgeerr" where
  "merge_code e = (case e of ErrMergeBlocked _ \<Rightarrow> Rpc FailedPrecondition | _ \<Rightarrow> Rpc Internal)"

definition MergeRun :: "(nat \<Rightarrow> env) \<Rightarrow> ctx \<Rightarrow> run_address \<Rightarrow> string \<Rightarrow> string forge_op" where
  "MergeRun ens ctx addr how =
     bnd (resolveRun ctx addr) (\<lambda>run. wrap merge_code (Merge ens ctx (er_ID run) how))"

definition GetRunImpact :: "env \<Rightarrow> ctx \<Rightarrow> run_address \<Rightarrow> (impact \<times> string \<times> risk_reason) forge_op" where
  "GetRunImpact en ctx addr =
     bnd (resolveRun ctx addr) (\<lambda>run.
     case ComputeImpact (en_git en) (er_RepoID run) (er_TargetRef run) (er_SourceRef run) (sourceRepo run) of
       Inl c \<Rightarrow> fail (Rpc (if c = NotFound then NotFound else Internal))
     | Inr im \<Rightarrow> ret (im, AssessRisk im))"

text \<open>\<open>strings.TrimSpace(s) == ""\<close>; a branch and its full ref are the same branch.\<close>

definition validateRunRefs :: "string \<Rightarrow> string \<Rightarrow> string \<Rightarrow> bool \<Rightarrow> bool" where
  "validateRunRefs title source target crossFork \<longleftrightarrow>
     trim_space title \<noteq> [] \<and> trim_space source \<noteq> [] \<and> trim_space target \<noteq> []
     \<and> (crossFork \<or> TrimPrefix source ''refs/heads/'' \<noteq> TrimPrefix target ''refs/heads/'')"

record create_request =
  cr_RepoId :: uuid
  cr_WorkItemId :: uuid
  cr_SourceRepoId :: uuid
  cr_Title :: string
  cr_SourceRef :: string
  cr_TargetRef :: string
  cr_AuthorId :: uuid
  cr_AuthorKind :: string
  cr_AgentName :: string
  cr_ModelName :: string

definition attributed_run :: "scope \<Rightarrow> create_request \<Rightarrow> erun" where
  "attributed_run scope req =
     (let person = (s_ActorKind scope = ''user'') in
      \<lparr>er_ID = uuid_Nil, er_OrgID = s_OrgID scope, er_RepoID = cr_RepoId req, er_SourceRepoID = cr_SourceRepoId req,
       er_WorkItemID = cr_WorkItemId req, er_Number = 0, er_Title = trim_space (cr_Title req),
       er_SourceRef = cr_SourceRef req, er_TargetRef = cr_TargetRef req, er_State = '''',
       er_AuthorID = (if person then s_ActorID scope else cr_AuthorId req),
       er_AuthorKind = (if person then ''user'' else cr_AuthorKind req),
       er_AgentName = (if person then '''' else cr_AgentName req),
       er_ModelName = (if person then '''' else cr_ModelName req), er_CreatedAt = epoch\<rparr>)"

definition CreateRun_rpc :: "uuid \<Rightarrow> time \<Rightarrow> ctx \<Rightarrow> create_request \<Rightarrow> erun forge_op" where
  "CreateRun_rpc new_id now ctx req =
     (case FromContext ctx of
        Inl _ \<Rightarrow> fail (Rpc PermissionDenied)
      | Inr scope \<Rightarrow>
          if \<not> validateRunRefs (cr_Title req) (cr_SourceRef req) (cr_TargetRef req)
               (cr_SourceRepoId req \<noteq> uuid_Nil \<and> cr_SourceRepoId req \<noteq> cr_RepoId req)
          then fail (Rpc InvalidArgument)
          else answer InvalidArgument (on_reviews (CreateRun new_id now (attributed_run scope req))))"

definition AddPlanStep_rpc :: "ctx \<Rightarrow> uuid \<Rightarrow> int \<Rightarrow> string \<Rightarrow> string \<Rightarrow> unit forge_op" where
  "AddPlanStep_rpc ctx rid ordinal txt state =
     bnd (requireRunInOrg ctx rid) (\<lambda>_. answer InvalidArgument (on_reviews (AddPlanStep rid ordinal txt state)))"

text \<open>A review or comment is a person's own; an empty claimed author is nobody (\<open>uuid_Nil\<close>).\<close>

definition as_person :: "ctx \<Rightarrow> uuid \<Rightarrow> uuid forge_op" where
  "as_person ctx claimed =
     (case FromContext ctx of
        Inl _ \<Rightarrow> fail (Rpc PermissionDenied)
      | Inr scope \<Rightarrow>
          if s_ActorKind scope \<noteq> ''user'' \<or> s_ActorID scope = uuid_Nil then fail (Rpc PermissionDenied)
          else if claimed \<noteq> uuid_Nil \<and> claimed \<noteq> s_ActorID scope then fail (Rpc PermissionDenied)
          else ret (s_ActorID scope))"

definition AddComment_rpc :: "uuid \<Rightarrow> time \<Rightarrow> ctx \<Rightarrow> uuid \<Rightarrow> uuid \<Rightarrow> string \<Rightarrow> run_comment forge_op" where
  "AddComment_rpc new_id now ctx rid claimed body =
     bnd (requireRunInOrg ctx rid) (\<lambda>_.
     bnd (as_person ctx claimed) (\<lambda>who.
     answer InvalidArgument (on_reviews (AddComment new_id now rid who ''user'' body))))"

text \<open>The outcome of the policy is logged, never returned.\<close>

definition considerAutoMerge :: "(refusal + string) forge_op option \<Rightarrow> unit forge_op" where
  "considerAutoMerge auto = (case auto of None \<Rightarrow> ret () | Some m \<Rightarrow> dropped m)"

definition SubmitReview_rpc :: "env \<Rightarrow> (uuid \<Rightarrow> (refusal + string) forge_op) option \<Rightarrow> ctx \<Rightarrow> uuid \<Rightarrow> uuid \<Rightarrow> string \<Rightarrow> string
    \<Rightarrow> string \<Rightarrow> unit forge_op" where
  "SubmitReview_rpc en auto ctx rid claimed verdict expectedSha summary =
     bnd (requireRunInOrg ctx rid) (\<lambda>_.
     bnd (as_person ctx claimed) (\<lambda>who.
     bnd (answer NotFound (on_reviews (GetRun ctx rid))) (\<lambda>run.
     case sourceHead (en_git en) run of
       None \<Rightarrow> fail (Rpc Unavailable)
     | Some head \<Rightarrow>
         if expectedSha = '''' \<or> expectedSha \<noteq> head then fail (Rpc Aborted)
         else
           bnd (answer InvalidArgument (on_reviews (SubmitReviewAt ctx (en_now en) rid who ''user'' verdict head summary))) (\<lambda>_.
           considerAutoMerge (map_option (\<lambda>m. m rid) auto)))))"

end
