(* ===== verification/NF_Exceptions.thy ===== *)
theory NF_Exceptions
  imports NF_Merge
begin

text \<open>
  The exception dashboard (\<open>internal/reviews/exceptions.go\<close>) and the auto-merger as it is deployed
  (\<open>cmd/work-reviews/automerge.go\<close>).
\<close>

section \<open>Classification\<close>

datatype category =
    GateFailure
  | ArchitectureDecision
  | NeedHumanReview
  | AgentBlocked
  | AgentRunning
  | Healthy

abbreviation architectureDecisionGate :: string where "architectureDecisionGate \<equiv> ''architecture-decision''"
abbreviation agentBlockedGate :: string where "agentBlockedGate \<equiv> ''agent-blocked''"

definition verified :: "proof_record \<Rightarrow> bool" where
  "verified p \<longleftrightarrow> pf_Producer p \<noteq> '''' \<and> pf_Producer p \<noteq> ''human''"

text \<open>A review verdict, an architecture decision and a blocked agent are not gates.\<close>

definition synthetic :: "proof_record \<Rightarrow> bool" where
  "synthetic p \<longleftrightarrow> prefix ''review:'' (pf_Gate p) \<or> pf_Gate p = architectureDecisionGate \<or> pf_Gate p = agentBlockedGate"

definition failed_gate :: "proof_record \<Rightarrow> bool" where
  "failed_gate p \<longleftrightarrow> \<not> synthetic p \<and> (pf_Status p = ''fail'' \<or> pf_Status p = ''error'')"

definition current :: "string \<Rightarrow> review \<Rightarrow> bool" where
  "current head v \<longleftrightarrow> head \<noteq> '''' \<and> rv_SourceSHA v = head"

definition classify :: "erun \<Rightarrow> proof_record list \<Rightarrow> review list \<Rightarrow> string \<Rightarrow> category \<times> string" where
  "classify run proofs0 revs head =
     (let ps = filter verified proofs0;
          agent = (er_AuthorKind run = ''agent'') in
      case List.find failed_gate ps of
        Some p \<Rightarrow> (GateFailure, ''gate '' @ quoted (pf_Gate p) @ '' '' @ pf_Status p @ '': '' @ pf_Detail p)
      | None \<Rightarrow>
          (case List.find (\<lambda>p. pf_Gate p = architectureDecisionGate \<and> pf_Status p \<noteq> ''pass'') ps of
             Some p \<Rightarrow> (ArchitectureDecision, ''architecture decision required: '' @ pf_Detail p)
           | None \<Rightarrow>
               if \<exists>v \<in> set revs. current head v \<and> rv_Verdict v = ''request_changes''
               then (NeedHumanReview, ''a reviewer requested changes'')
               else (case (if agent then List.find (\<lambda>p. pf_Gate p = agentBlockedGate \<and> pf_Status p = ''fail'') ps else None) of
                   Some p \<Rightarrow> (AgentBlocked, ''agent run blocked: '' @ pf_Detail p)
                 | None \<Rightarrow>
                     if agent \<and> ps = [] then (AgentRunning, ''agent run still in progress'')
                     else if (\<exists>v \<in> set revs. current head v \<and> rv_Verdict v = ''approve'' \<and> rv_ReviewerID v \<noteq> er_AuthorID run)
                       \<and> ps \<noteq> [] \<and> (\<forall>p \<in> set ps. \<not> synthetic p \<longrightarrow> pf_Status p = ''pass'')
                     then (Healthy, '''')
                     else if head = '''' then (NeedHumanReview, ''current source unavailable; review currency unknown'')
                     else (NeedHumanReview, ''awaiting independent review of current source''))))"

record summary =
  su_AgentsRunning :: nat
  su_ReadyToAutoMerge :: nat
  su_NeedHumanReview :: nat
  su_ArchitectureDecisions :: nat
  su_GateFailures :: nat
  su_AgentsBlocked :: nat

record exception_item =
  xi_Key :: string
  xi_Title :: string
  xi_State :: string
  xi_Reason :: string

definition count_category :: "category \<Rightarrow> summary \<Rightarrow> summary" where
  "count_category c su = (case c of
       GateFailure \<Rightarrow> su\<lparr>su_GateFailures := su_GateFailures su + 1\<rparr>
     | ArchitectureDecision \<Rightarrow> su\<lparr>su_ArchitectureDecisions := su_ArchitectureDecisions su + 1\<rparr>
     | NeedHumanReview \<Rightarrow> su\<lparr>su_NeedHumanReview := su_NeedHumanReview su + 1\<rparr>
     | AgentBlocked \<Rightarrow> su\<lparr>su_AgentsBlocked := su_AgentsBlocked su + 1\<rparr>
     | AgentRunning \<Rightarrow> su\<lparr>su_AgentsRunning := su_AgentsRunning su + 1\<rparr>
     | Healthy \<Rightarrow> su\<lparr>su_ReadyToAutoMerge := su_ReadyToAutoMerge su + 1\<rparr>)"

definition no_exceptions :: summary where
  "no_exceptions = \<lparr>su_AgentsRunning = 0, su_ReadyToAutoMerge = 0, su_NeedHumanReview = 0,
     su_ArchitectureDecisions = 0, su_GateFailures = 0, su_AgentsBlocked = 0\<rparr>"

text \<open>The open runs of the organization; the source repository is not read.\<close>

definition openRuns :: "uuid \<Rightarrow> erun list reviews_op" where
  "openRuns org = query Sql (\<lambda>d. map (\<lambda>r. r\<lparr>er_SourceRepoID := uuid_Nil\<rparr>)
     (sort_key er_RepoID (sort_key er_Number (filter (\<lambda>r. er_OrgID r = org \<and> er_State r = ''open'') (runs d)))))"

definition currentSource :: "git_service \<Rightarrow> erun \<Rightarrow> string" where
  "currentSource git run = (case sourceHead git run of None \<Rightarrow> '''' | Some head \<Rightarrow> head)"

fun exceptions_of :: "git_service \<Rightarrow> ctx \<Rightarrow> erun list \<Rightarrow> summary \<Rightarrow> exception_item list \<Rightarrow> (summary \<times> exception_item list) reviews_op" where
  "exceptions_of git ctx [] su xs = ret (su, xs)"
| "exceptions_of git ctx (r # rs) su xs =
     bnd (ListProof ctx (er_ID r)) (\<lambda>ps.
     bnd (ListReviews ctx (er_ID r)) (\<lambda>vs.
     case classify r ps vs (currentSource git r) of
       (c, reason) \<Rightarrow>
         exceptions_of git ctx rs (count_category c su)
           (if c = Healthy then xs
            else xs @ [\<lparr>xi_Key = ''run-'' @ dec (er_Number r), xi_Title = er_Title r, xi_State = er_State r, xi_Reason = reason\<rparr>])))"

definition Exceptions :: "git_service \<Rightarrow> ctx \<Rightarrow> uuid \<Rightarrow> (summary \<times> exception_item list) reviews_op" where
  "Exceptions git ctx org =
     bnd (require_org ctx org) (\<lambda>_.
     bnd (openRuns org) (\<lambda>rs. exceptions_of git ctx rs no_exceptions []))"

section \<open>The deployed auto-merger\<close>

text \<open>The impact is measured with no source repository named; \<open>itemType\<close> reads the work schema.\<close>

definition deployed_impact :: "git_service \<Rightarrow> erun \<Rightarrow> grpc_code + impact" where
  "deployed_impact git run = ComputeImpact git (er_RepoID run) (er_TargetRef run) (er_SourceRef run) uuid_Nil"

definition deployed_type :: "(uuid \<Rightarrow> grpc_code + string) \<Rightarrow> erun \<Rightarrow> grpc_code + string" where
  "deployed_type itemType run = (if er_WorkItemID run = uuid_Nil then Inl Internal else itemType (er_WorkItemID run))"

definition newAutoMerger :: "automerge_policy \<Rightarrow> git_service \<Rightarrow> (uuid \<Rightarrow> grpc_code + string) \<Rightarrow> (nat \<Rightarrow> env) \<Rightarrow> ctx
    \<Rightarrow> (uuid \<Rightarrow> (refusal + string) forge_op) option" where
  "newAutoMerger policy git itemType ens ctx =
     (if \<not> ap_Enabled policy then None
      else Some (Consider policy (deployed_impact git) (deployed_type itemType) '''' ens ctx))"

end
