(* ===== verification/NF_MergeProps.thy ===== *)
theory NF_MergeProps
  imports NF_Exceptions NF_ReviewHistory
begin

text \<open>What a merge is worth: the judgement of the gate controller, and the one path that rests on it.\<close>

section \<open>Runs of the parts\<close>

lemmas on_defs = on_reviews_def on_gates_def on_approvals_def on_inbox_def

lemma on_reviews_Inr [run_simps]:
  "on_reviews m w = (Inr a, w') \<longleftrightarrow>
     (\<exists>d fs. m (fg_reviews (fst w), snd w) = (Inr a, (d, fs)) \<and> w' = ((fst w)\<lparr>fg_reviews := d\<rparr>, fs))"
  unfolding on_reviews_def by (rule reviews_part.zoom_Inr)

lemma on_gates_Inr [run_simps]:
  "on_gates m w = (Inr a, w') \<longleftrightarrow>
     (\<exists>d fs. m (fg_gates (fst w), snd w) = (Inr a, (d, fs)) \<and> w' = ((fst w)\<lparr>fg_gates := d\<rparr>, fs))"
  unfolding on_gates_def by (rule gates_part.zoom_Inr)

lemma on_approvals_Inr [run_simps]:
  "on_approvals m w = (Inr a, w') \<longleftrightarrow>
     (\<exists>d fs. m (fg_approvals (fst w), snd w) = (Inr a, (d, fs)) \<and> w' = ((fst w)\<lparr>fg_approvals := d\<rparr>, fs))"
  unfolding on_approvals_def by (rule approvals_part.zoom_Inr)

lemma gates_fault_Inr [run_simps]: "gates_fault r w = (Inr a, w') \<longleftrightarrow> r = Inr a \<and> w' = w"
  by (auto simp: gates_fault_def run_simps)

lemma answer_Inr [run_simps]: "answer c m w = (Inr a, w') \<longleftrightarrow> m w = (Inr a, w')"
  by (simp add: answer_def run_simps)

lemma callerOrg_rpc_Inr [run_simps]:
  "callerOrg_rpc ctx w = (Inr org, w') \<longleftrightarrow> (\<exists>s. ctx = Some s \<and> org = s_OrgID s) \<and> w' = w"
  by (cases ctx) (auto simp: callerOrg_rpc_def run_simps)

lemma GetRun_Inr [run_simps]:
  "GetRun ctx rid w = (Inr r, w') \<longleftrightarrow>
     \<not> faulty w \<and> (\<exists>s. ctx = Some s \<and> find_run (s_OrgID s) rid (fst w) = Some r) \<and> w' = (fst w, tl (snd w))"
  by (auto simp: GetRun_def run_simps split: option.splits)

section \<open>What an operation leaves alone\<close>

text \<open>A judgement may raise requests and write notifications; nothing else, and no decision is lost.\<close>

definition judged :: "forge \<Rightarrow> forge \<Rightarrow> bool" where
  "judged D D' \<longleftrightarrow> fg_reviews D' = fg_reviews D \<and> fg_gates D' = fg_gates D
     \<and> decided_kept (fg_approvals D) (fg_approvals D')"

interpretation judged_frame: db_frame judged
  by unfold_locales (auto simp: judged_def decided_kept_def)

text \<open>An evaluation leaves the runs and their reviews alone.\<close>

definition run_evidence :: "forge \<Rightarrow> erun list \<times> review list" where
  "run_evidence D = (runs (fg_reviews D), reviews (fg_reviews D))"

lemma within_gates_fault: "within (same f) (gates_fault r)" "within judged (gates_fault r)"
  by (simp_all add: gates_fault_def same_frame.frame_lift judged_frame.frame_lift)

lemma within_callerOrg_rpc: "within (same f) (callerOrg_rpc ctx)" "within judged (callerOrg_rpc ctx)"
  by (cases ctx; simp add: callerOrg_rpc_def same_frame.frame_ret same_frame.frame_fail
      judged_frame.frame_ret judged_frame.frame_fail)+

context part
begin

lemma zoom_readonly: "within (same id) m \<Longrightarrow> within (same id) (zoom get put h m)"
  by (rule withinI) (use withinD[of "same id" m] in \<open>auto simp: zoom_def same_def put_get split: prod.splits\<close>,
    metis fst_conv snd_conv put_get)

lemma zoom_same: "within (same f) m \<Longrightarrow> within (same (\<lambda>D. f (get D))) (zoom get put h m)"
  using zoom_within[of "same f" m h] by (simp add: same_def[abs_def])

end

lemma within_reviews:
  assumes "within (same (\<lambda>d. (runs d, reviews d))) m"
  shows "within (same run_evidence) (on_reviews m)"
  using reviews_part.zoom_same[OF assms, of ReviewsFault] by (simp add: on_reviews_def run_evidence_def[abs_def])

lemma judged_readonly: "within (same id) m \<Longrightarrow> within judged (on_reviews m)"
  unfolding on_reviews_def
  by (rule within_mono[OF reviews_part.zoom_readonly]) (auto simp: judged_def same_def decided_kept_def)

lemma judged_gates: "within (same id) m \<Longrightarrow> within judged (on_gates m)"
  unfolding on_gates_def
  by (rule within_mono[OF gates_part.zoom_readonly]) (auto simp: judged_def same_def decided_kept_def)

lemma judged_Raise: "within judged (on_approvals (Raise ctx i t req))"
proof (rule withinI)
  fix w :: "forge world"
  let ?z = "on_approvals (Raise ctx i t req)"
  have "within decided_kept (Raise ctx i t req)"
    using decided_kept_run[of "DoRaise ctx i t req"] by simp
  from withinD[OF approvals_part.zoom_within[OF this], of w]
  have "decided_kept (fg_approvals (fst w)) (fg_approvals (fst (snd (?z w))))" by (simp add: on_approvals_def)
  moreover have s: "within (same fg_reviews) ?z" "within (same fg_gates) ?z"
    unfolding on_approvals_def by (rule approvals_part.zoom_elsewhere; simp)+
  ultimately show "judged (fst w) (fst (snd (?z w)))"
    by (simp add: judged_def sameD[OF s(1)] sameD[OF s(2)])
qed

lemma inbox_elsewhere: "within (same (\<lambda>D. (fg_reviews D, fg_gates D, fg_approvals D))) (on_inbox m)"
  unfolding on_inbox_def by (rule inbox_part.zoom_elsewhere) simp

lemma judged_inbox: "within judged (on_inbox m)"
  by (rule within_mono[OF inbox_elsewhere]) (auto simp: judged_def same_def decided_kept_def)

lemma within_dropped: "within judged m \<Longrightarrow> within judged (dropped m)" "within (same f) m \<Longrightarrow> within (same f) (dropped m)"
  unfolding dropped_def
  by (intro judged_frame.frame_bnd judged_frame.frame_attempt judged_frame.frame_ret
      same_frame.frame_bnd same_frame.frame_attempt same_frame.frame_ret; assumption)+

lemma GetRun_readonly: "within (same f) (GetRun ctx rid)"
  unfolding GetRun_def by (intro same_frame.frame_rules same_frame.frame_from_context)

lemma Latest_readonly: "within (same f) (LatestForSHA ctx rid sha policy)"
  unfolding LatestForSHA_def by (intro same_frame.frame_rules same_frame.frame_from_context)

lemmas judged_rules = judged_frame.frame_ret judged_frame.frame_fail judged_frame.frame_bnd judged_frame.frame_if
  judged_frame.frame_wrap judged_frame.frame_attempt within_gates_fault(2) within_callerOrg_rpc(2)
  judged_readonly[OF GetRun_readonly] judged_gates[OF Latest_readonly] judged_Raise judged_inbox within_dropped(1)

lemma judged_notifyInbox: "within judged (notifyInbox en ctx h rid req r)"
  unfolding notifyInbox_def runRef_def Let_def by (intro judged_rules)

lemma judged_requirement: "within judged (requirement_reasons en ctx rid h False r)"
proof (cases "Decide (rm_Action r) (author_grant h)")
  case DecisionHuman
  then show ?thesis
    unfolding requirement_reasons_def by (simp, intro judged_rules judged_notifyInbox)
qed (unfold requirement_reasons_def, simp_all, (intro judged_rules)+)

lemma judged_reasons: "within judged (approvalReasons en ctx rid h False rs)"
  by (induction rs) (simp_all, (intro judged_rules judged_requirement | assumption)+)

section \<open>The judgement\<close>

text \<open>
  A governed action is settled: no person is asked for it, or a person other than the author has
  approved it for this run and this very head.
\<close>

definition settled :: "uuid \<Rightarrow> run_head \<Rightarrow> approval list \<Rightarrow> string \<Rightarrow> bool" where
  "settled rid h aps act \<longleftrightarrow>
     Decide act (author_grant h) \<in> {DecisionAutomatic, DecisionPolicy}
     \<or> (\<exists>a \<in> set aps. a_OrgID a = rh_OrgID h \<and> a_RunID a = rid \<and> a_Action a = act \<and> a_HeadSHA a = rh_HeadSHA h
          \<and> a_Decision a = StateApproved \<and> a_DecidedBy a \<noteq> rh_AuthorID h)"

lemma settled_kept: "settled rid h aps act \<Longrightarrow> decided_kept aps aps' \<Longrightarrow> settled rid h aps' act"
  by (force simp: settled_def decided_kept_def)

lemma notifyInbox_judged: "notifyInbox en ctx h rid req r w = (res, w') \<Longrightarrow> judged (fst w) (fst w')"
  by (rule within_run[OF judged_notifyInbox])

lemma requirement_settled:
  assumes "requirement_reasons en ctx rid h False r w = (Inr [], w')"
  shows "settled rid h (fg_approvals (fst w')) (rm_Action r)"
proof (cases "Decide (rm_Action r) (author_grant h)")
  case DecisionHuman
  with assms obtain req w1 where raise: "on_approvals (Raise ctx (en_approval_id en (rm_Action r)) (en_now en) (raise_request h rid r)) w = (Inr req, w1)"
    and ok: "a_Decision req = StateApproved" "a_DecidedBy req \<noteq> rh_AuthorID h" "w' = w1"
    by (auto simp: requirement_reasons_def run_simps split: if_splits)
  then obtain d fs where d: "Raise ctx (en_approval_id en (rm_Action r)) (en_now en) (raise_request h rid r)
      (fg_approvals (fst w), snd w) = (Inr req, (d, fs))" and w1: "w1 = ((fst w)\<lparr>fg_approvals := d\<rparr>, fs)"
    by (auto simp: on_approvals_Inr)
  obtain d1 where f: "find_raised (raise_request h rid r) (supersede (raise_request h rid r) d1) = Some req"
    and d': "d = supersede (raise_request h rid r) d1"
    using d by (rule Raise_Inr) (auto intro: that)
  show ?thesis
    using find_raised_Some[OF f] ok unfolding settled_def ok(3) w1 d' by (auto simp: raise_request_def)
qed (use assms in \<open>auto simp: requirement_reasons_def settled_def run_simps\<close>)

lemma reasons_settled:
  assumes "approvalReasons en ctx rid h False rs w = (Inr [], w')"
  shows "\<forall>r \<in> set rs. settled rid h (fg_approvals (fst w')) (rm_Action r)"
  using assms
proof (induction rs arbitrary: w)
  case (Cons r rs)
  then obtain w1 where first: "requirement_reasons en ctx rid h False r w = (Inr [], w1)"
    and rest: "approvalReasons en ctx rid h False rs w1 = (Inr [], w')"
    by (auto simp: run_simps)
  have "judged (fst w1) (fst w')" by (rule within_run[OF judged_reasons rest])
  then show ?case
    using Cons.IH[OF rest] settled_kept[OF requirement_settled[OF first]] by (auto simp: judged_def)
qed simp

text \<open>A required gate has passed at these revisions, in the organization.\<close>

definition passed :: "uuid \<Rightarrow> uuid \<Rightarrow> string \<Rightarrow> string \<Rightarrow> evaluation list \<Rightarrow> string \<Rightarrow> bool" where
  "passed org rid source target evs gate \<longleftrightarrow>
     (\<exists>ev \<in> set evs. at_revision org rid source target ev \<and> gv_Gate ev = gate \<and> gv_Status ev = ''pass'')"

lemma by_gate_Some: "by_gate es g = Some ev \<Longrightarrow> ev \<in> set es \<and> gv_Gate ev = g"
  by (auto simp: by_gate_def dest!: map_of_SomeD)

lemma gate_reasons_nil:
  "gate_reasons head latest gd = [] \<Longrightarrow> gd_Required gd \<Longrightarrow> \<exists>ev. latest (gd_Name gd) = Some ev \<and> gv_Status ev = ''pass''"
  by (auto simp: gate_reasons_def split: option.splits if_splits)

text \<open>What applies to a run whose heads are known, as git-platform and the work service say.\<close>

definition applies :: "env \<Rightarrow> run_head \<Rightarrow> gate_def list \<Rightarrow> requirement list \<Rightarrow> bool" where
  "applies en h defs reqs \<longleftrightarrow> Resolve_gates (en_git en) (en_decoders en) (rh_RepoID h) (rh_TargetSHA h) (rh_WorkItemGates h) = Inr defs
     \<and> ClassifyChange (en_git en) (en_decoders en) (rh_RepoID h) (rh_TargetSHA h) (rh_HeadSHA h) (head_sourceRepo h) = Inr reqs"

lemma mayMerge_allowed:
  assumes "MayMergePinned en (Some s) rid source target w = (Inr (True, reasons, h), w')" and "rh_SourceRef h \<noteq> ''''"
  shows "rh_HeadSHA h = source \<and> rh_TargetSHA h = target \<and> judged (fst w) (fst w')
    \<and> (\<exists>run. find_run (s_OrgID s) rid (fg_reviews (fst w)) = Some run \<and> run_head_of en run = Inr h)
    \<and> (\<exists>defs reqs. applies en h defs reqs
        \<and> (\<forall>gd \<in> set (requireDependencyGate defs reqs). gd_Required gd \<longrightarrow>
             passed (s_OrgID s) rid source target (fg_gates (fst w')) (gd_Name gd))
        \<and> (\<forall>r \<in> set reqs. settled rid h (fg_approvals (fst w')) (rm_Action r)))"
proof -
  have t: "source \<noteq> ''''" "target \<noteq> ''''" using assms(1) by (auto simp: MayMergePinned_def run_simps split: if_splits)
  from assms(1) t obtain w1 r w2 where look: "RunLookup en (Some s) rid w = (Inr h, w1)"
    and eq: "rh_HeadSHA h = source" "rh_TargetSHA h = target"
    and res: "resolveHead en (Some s) rid h w1 = (Inr r, w2)"
    and may: "mayMergeResolved en (Some s) rid r w2 = (Inr (True, reasons), w')"
    by (auto simp: MayMergePinned_def run_simps split: if_splits prod.splits)
  obtain run where run: "find_run (s_OrgID s) rid (fg_reviews (fst w)) = Some run" "run_head_of en run = Inr h"
    and w1: "fst w1 = fst w"
    using look by (auto simp: RunLookup_def run_simps)
  obtain defs reqs where ap: "applies en h defs reqs"
    and r: "r = \<lparr>rs_Head = h, rs_Defs = requireDependencyGate defs reqs,
       rs_Latest = by_gate (filter (at_revision (s_OrgID s) rid source target) (fg_gates (fst w1))), rs_Reqs = reqs\<rparr>"
    and w2: "fst w2 = fst w1"
    using res assms(2) eq t
    by (auto simp: resolveHead_def changeRequirements_def applies_def LatestForSHA_def run_simps)
  from may obtain w3 where reasons: "approvalReasons en (Some s) rid h False reqs w2 = (Inr [], w3)" and w': "w' = w3"
    and nil: "\<forall>gd \<in> set (requireDependencyGate defs reqs). gate_reasons (rh_HeadSHA h) (rs_Latest r) gd = []"
    by (auto simp: mayMergeResolved_def run_simps Let_def r)
  have j: "judged (fst w) (fst w')"
    using within_run[OF judged_reasons reasons] by (simp add: w' w2 w1)
  have "passed (s_OrgID s) rid source target (fg_gates (fst w')) (gd_Name gd)"
    if "gd \<in> set (requireDependencyGate defs reqs)" "gd_Required gd" for gd
    using gate_reasons_nil[OF nil[rule_format, OF that(1)] that(2)] j
    by (auto simp: r passed_def judged_def w1 dest!: by_gate_Some)
  then show ?thesis
    using eq j run ap reasons_settled[OF reasons] by (auto simp: w')
qed

section \<open>An evaluation changes no run and no review\<close>

lemma upsert_proof_evidence: "runs (snd (upsert_proof org p d)) = runs d" "reviews (snd (upsert_proof org p d)) = reviews d"
  by (simp_all add: upsert_proof_def)

lemma RecordProof_evidence: "within (same (\<lambda>d. (runs d, reviews d))) (RecordProof utext ctx now rid gate st detail)"
  unfolding RecordProof_def
  by (auto intro!: same_frame.frame_fail same_frame.frame_bnd same_frame.frame_from_context same_frame.frame_tx
      same_frame.frame_update same_frame.frame_if same_frame.frame_ret split: sum.splits
      simp: same_def upsert_proof_evidence append_audit_def)

lemma evidence_elsewhere:
  "within (same run_evidence) (on_inbox m1)" "within (same run_evidence) (on_approvals m2)" "within (same run_evidence) (on_gates m3)"
  unfolding on_defs run_evidence_def
  by (rule inbox_part.zoom_elsewhere approvals_part.zoom_elsewhere gates_part.zoom_elsewhere; simp)+

lemmas evidence_rules = same_frame.frame_ret same_frame.frame_fail same_frame.frame_bnd same_frame.frame_if
  same_frame.frame_wrap same_frame.frame_attempt within_gates_fault(1) within_callerOrg_rpc(1) evidence_elsewhere
  within_dropped(2) within_reviews[OF GetRun_readonly] within_reviews[OF RecordProof_evidence]

lemma evidence_answer: "within (same f) m \<Longrightarrow> within (same f) (answer c m)"
  unfolding answer_def by (rule same_frame.frame_wrap)

lemma evidence_notifyRunAuthor: "within (same run_evidence) (notifyRunAuthor en ctx run n)"
  unfolding notifyRunAuthor_def by (intro evidence_rules)

lemma evidence_requireRunInOrg: "within (same run_evidence) (requireRunInOrg ctx rid)"
  unfolding requireRunInOrg_def by (intro evidence_rules evidence_answer)

lemma evidence_RecordProof_rpc: "within (same run_evidence) (RecordProof_rpc en ctx rid gate st detail)"
  unfolding RecordProof_rpc_def
  by (intro evidence_rules evidence_requireRunInOrg)
    (auto split: sum.splits intro!: evidence_rules evidence_notifyRunAuthor)

lemma evidence_Proof: "within (same run_evidence) (Proof en ctx rid gate st detail)"
  unfolding Proof_def
  by (cases ctx) (auto intro!: evidence_rules evidence_RecordProof_rpc)

lemma evidence_notifyInbox: "within (same run_evidence) (notifyInbox en ctx h rid req r)"
  unfolding notifyInbox_def runRef_def Let_def by (intro evidence_rules)

lemma evidence_requirement: "within (same run_evidence) (requirement_reasons en ctx rid h rec r)"
  unfolding requirement_reasons_def recordApprovalProof_def Let_def
  by (cases "Decide (rm_Action r) (author_grant h)")
    (auto intro!: evidence_rules evidence_Proof evidence_notifyInbox)

lemma evidence_reasons: "within (same run_evidence) (approvalReasons en ctx rid h rec rs)"
  by (induction rs) (auto intro!: evidence_rules evidence_requirement)

lemma evidence_gate: "within (same run_evidence) (evaluate_gate en ctx rid h latest gd)"
  unfolding evaluate_gate_def Let_def
  by (auto split: option.splits prod.splits intro!: evidence_rules evidence_Proof)

lemma evidence_gates: "within (same run_evidence) (evaluate_gates en ctx rid h latest gds)"
  by (induction gds) (auto intro!: evidence_rules evidence_gate)

lemma evidence_Evaluate: "within (same run_evidence) (Evaluate_rpc en ctx rid)"
  unfolding Evaluate_rpc_def Evaluate_def resolveForRun_def RunLookup_def resolveHead_def
  by (intro evidence_rules evidence_answer evidence_reasons evidence_gates)

section \<open>The merge\<close>

lemma find_run_cong: "runs d' = runs d \<Longrightarrow> find_run org rid d' = find_run org rid d"
  by (simp add: find_run_def)

lemma update_state_Inr:
  assumes "update_state rid org st d = Inr (n, d')"
  shows "reviews d' = reviews d \<and> (\<forall>r \<in> set (runs d'). er_ID r = rid \<and> er_OrgID r = org \<longrightarrow> er_State r = st)"
proof -
  have d': "reviews d' = reviews d" "runs d' = update_rows (\<lambda>r. er_ID r = rid \<and> er_OrgID r = org) (\<lambda>r. r\<lparr>er_State := st\<rparr>) (runs d)"
    using update_state_rows[OF assms] by simp_all
  have "er_State r = st" if r: "r \<in> set (runs d')" "er_ID r = rid" "er_OrgID r = org" for r
  proof -
    obtain q where "r = (if er_ID q = rid \<and> er_OrgID q = org then q\<lparr>er_State := st\<rparr> else q)"
      using r(1) unfolding d' set_update_rows by (elim imageE)
    then show ?thesis using r(2,3) by (cases "er_ID q = rid \<and> er_OrgID q = org") (simp, force)
  qed
  then show ?thesis using d'(1) by blast
qed

lemma setRunState_Inr:
  assumes "setRunState (Some s) rid st w = (Inr u, w')"
  shows "reviews (fst w') = reviews (fst w)
    \<and> (\<forall>r \<in> set (runs (fst w')). er_ID r = rid \<and> er_OrgID r = s_OrgID s \<longrightarrow> er_State r = st)"
  using assms by (auto simp: setRunState_def run_simps split: if_splits dest!: update_state_Inr)

lemma approval_counted:
  assumes "hasIndependentApproval (Some s) rid author head w = (Inr True, w')"
  shows "fst w' = fst w \<and> (\<exists>v \<in> set (reviews (fst w)). rv_RunID v = rid \<and> rv_ReviewerID v \<noteq> author
    \<and> rv_Verdict v = ''approve'' \<and> rv_SourceSHA v = head)"
  using assms by (auto simp: hasIndependentApproval_def run_simps affected_pos independent_approval_def)

lemma Merge_Inr:
  assumes "Merge ens (Some s) rid how w = (Inr sha, w')"
  obtains evs w1 run head target w2 reasons w3 w4 where
    "Evaluate_rpc (ens 0) (Some s) rid w = (Inr evs, w1)"
    "find_run (s_OrgID s) rid (fg_reviews (fst w1)) = Some run" "er_State run = ''open''"
    "sourceHead (en_git (ens 1)) run = Some head"
    "refHead (en_git (ens 2)) (er_RepoID run) (er_TargetRef run) = Some target"
    "fst w2 = fst w1"
    "client_MayMergePinned (ens 3) (Some s) rid head target w2 = (Inr (True, reasons), w3)"
    "on_reviews (hasIndependentApproval (Some s) rid (er_AuthorID run) head) w3 = (Inr True, w4)"
    "git_merge (en_git (ens 4)) (merge_request_of run head target how) = Inr sha"
    "on_reviews (setRunState (Some s) rid ''merged'') w4 = (Inr (), w')"
proof -
  obtain evs w1 where ev: "Evaluate_rpc (ens 0) (Some s) rid w = (Inr evs, w1)"
    using assms unfolding Merge_def bnd_Inr wrap_Inr by blast
  obtain run w2 where run: "on_reviews (GetRun (Some s) rid) w1 = (Inr run, w2)"
    and rest: "(if er_State run \<noteq> ''open'' then fail (ErrMergeBlocked NotOpen)
     else (case sourceHead (en_git (ens 1)) run of
        None \<Rightarrow> fail (ErrMergeBlocked SourceUnresolved)
      | Some head \<Rightarrow>
          (case refHead (en_git (ens 2)) (er_RepoID run) (er_TargetRef run) of
             None \<Rightarrow> fail (ErrMergeBlocked TargetUnresolved)
           | Some target \<Rightarrow>
               bnd (wrap (\<lambda>_. ErrMergeBlocked ControllerUnreachable) (client_MayMergePinned (ens 3) (Some s) rid head target))
                 (\<lambda>(allowed, reasons).
               if \<not> allowed then fail (ErrMergeBlocked (Reasons reasons))
               else
                 bnd (on_reviews (hasIndependentApproval (Some s) rid (er_AuthorID run) head)) (\<lambda>approved.
                 if \<not> approved then fail (ErrMergeBlocked NotIndependentlyApproved)
                 else (case git_merge (en_git (ens 4)) (merge_request_of run head target how) of
                         Inl c \<Rightarrow> fail (GitRefused c)
                       | Inr sha \<Rightarrow> bnd (on_reviews (setRunState (Some s) rid ''merged'')) (\<lambda>_. ret sha))))))) w2 = (Inr sha, w')"
    using assms ev unfolding Merge_def bnd_Inr wrap_Inr by auto
  have found: "find_run (s_OrgID s) rid (fg_reviews (fst w1)) = Some run" "fst w2 = fst w1"
    using run by (auto simp: on_reviews_Inr GetRun_Inr)
  from rest obtain head target where h: "er_State run = ''open''" "sourceHead (en_git (ens 1)) run = Some head"
      "refHead (en_git (ens 2)) (er_RepoID run) (er_TargetRef run) = Some target"
    by (auto simp: fail_run split: if_splits option.splits)
  from rest h obtain allowed reasons w3 where may: "client_MayMergePinned (ens 3) (Some s) rid head target w2 = (Inr (allowed, reasons), w3)"
    and rest2: "(if \<not> allowed then fail (ErrMergeBlocked (Reasons reasons))
               else
                 bnd (on_reviews (hasIndependentApproval (Some s) rid (er_AuthorID run) head)) (\<lambda>approved.
                 if \<not> approved then fail (ErrMergeBlocked NotIndependentlyApproved)
                 else (case git_merge (en_git (ens 4)) (merge_request_of run head target how) of
                         Inl c \<Rightarrow> fail (GitRefused c)
                       | Inr sha \<Rightarrow> bnd (on_reviews (setRunState (Some s) rid ''merged'')) (\<lambda>_. ret sha)))) w3 = (Inr sha, w')"
    by (auto simp: bnd_Inr wrap_Inr)
  have allowed using rest2 by (auto simp: fail_run split: if_splits)
  with rest2 obtain ok w4 where ok: "on_reviews (hasIndependentApproval (Some s) rid (er_AuthorID run) head) w3 = (Inr ok, w4)"
    and rest3: "(if \<not> ok then fail (ErrMergeBlocked NotIndependentlyApproved)
                 else (case git_merge (en_git (ens 4)) (merge_request_of run head target how) of
                         Inl c \<Rightarrow> fail (GitRefused c)
                       | Inr sha \<Rightarrow> bnd (on_reviews (setRunState (Some s) rid ''merged'')) (\<lambda>_. ret sha))) w4 = (Inr sha, w')"
    by (auto simp: bnd_Inr)
  have last: ok "git_merge (en_git (ens 4)) (merge_request_of run head target how) = Inr sha"
    "on_reviews (setRunState (Some s) rid ''merged'') w4 = (Inr (), w')"
    using rest3 by (auto simp: fail_run bnd_Inr ret_run split: if_splits sum.splits)
  show ?thesis
    by (rule that[OF ev found(1) h found(2)]) (use may ok last \<open>allowed\<close> in auto)
qed

lemma client_allowed:
  assumes "client_MayMergePinned en (Some s) rid source target w = (Inr (True, reasons), w')"
  obtains h where "MayMergePinned en (Some s) rid source target w = (Inr (True, reasons, h), w')"
  using assms by (auto simp: client_MayMergePinned_def MayMerge_rpc_def run_simps split: if_splits prod.splits)

lemma run_head_of_run:
  assumes "run_head_of en run = Inr h"
  shows "rh_SourceRef h = er_SourceRef run \<and> rh_AuthorID h = er_AuthorID run \<and> rh_RepoID h = er_RepoID run
    \<and> rh_OrgID h = er_OrgID run \<and> rh_SourceRepoID h = sourceRepo run"
  using assms by (auto simp: run_head_of_def Let_def split: sum.splits if_splits)

section \<open>A merge of the model\<close>

text \<open>
  Run 100 of organization 1 changes the schema of repository 10. The project requires the tests; person 7 wrote
  the change, person 8 has approved it and the change of the schema at the commit \<open>aa\<close>.
\<close>

definition mex_git :: git_service where
  "mex_git = \<lparr>git_repos = Inr [(10, ''r'')], git_branches = (\<lambda>_. Inr [(''main'', ''bb''), (''topic'', ''aa'')]),
     git_commits = (\<lambda>_ ref. Inr [if ref = ''main'' then ''bb'' else ''aa'']),
     git_tree = (\<lambda>_ _ path. if path = '''' then Inr [] else Inl NotFound),
     git_blob = (\<lambda>_ _ path. if path = ''.novaforge/project.yaml'' then Inr ''gates: [tests]'' else Inl NotFound),
     git_diff_of = (\<lambda>_ _ _ _. Inr \<lparr>df_Unified = '''', df_Paths = [''a.sql''], df_Complete = True\<rparr>),
     git_merge = (\<lambda>req. if mr_SourceSha req = ''aa'' \<and> mr_TargetSha req = ''bb'' then Inr ''cc'' else Inl FailedPrecondition)\<rparr>"

definition mex_env :: env where
  "mex_env = \<lparr>en_now = 5, en_approval_id = (\<lambda>_. 51), en_eval_id = (\<lambda>_. 52), en_note_id = (\<lambda>_ i. 60 + i),
     en_text = (\<lambda>_. ''u''), en_sha = id, en_git = mex_git, en_item_gates = (\<lambda>_. Inl NotFound),
     en_decoders = \<lparr>dc_json = (\<lambda>_. None), dc_gate = (\<lambda>_. None),
       dc_project = (\<lambda>_. Some \<lparr>pj_Name = '''', pj_Description = '''', pj_DefaultAgent = '''', pj_Gates = [''tests'']\<rparr>)\<rparr>,
     en_run_gate = (\<lambda>_ _ _. Inr (''pass'', '''', None))\<rparr>"

definition mex_run :: erun where
  "mex_run = \<lparr>er_ID = 100, er_OrgID = 1, er_RepoID = 10, er_SourceRepoID = 10, er_WorkItemID = 0, er_Number = 1,
     er_Title = ''t'', er_SourceRef = ''topic'', er_TargetRef = ''main'', er_State = ''open'', er_AuthorID = 7,
     er_AuthorKind = ''user'', er_AgentName = '''', er_ModelName = '''', er_CreatedAt = 0\<rparr>"

definition mex_approval :: approval where
  "mex_approval = \<lparr>a_ID = 50, a_OrgID = 1, a_RunID = 100, a_Action = ActionChangeDBSchema, a_Detail = [], a_Decision = StateApproved,
     a_DecidedBy = 8, a_DecidedAt = 3, a_CreatedAt = 2, a_HeadSHA = ''aa'', a_Reason = ''s'', a_Paths = [''a.sql''],
     a_Comment = '''', a_AuthorID = 7, a_AuthorKind = ''user''\<rparr>"

definition mex_review :: review where
  "mex_review = \<lparr>rv_SourceSHA = ''aa'', rv_Summary = '''', rv_RunID = 100, rv_ReviewerID = 8, rv_ReviewerKind = ''user'',
     rv_Verdict = ''approve'', rv_CreatedAt = 4\<rparr>"

definition mex_forge :: forge where
  "mex_forge = \<lparr>fg_reviews = \<lparr>runs = [mex_run], plan_steps = [], proofs = [], proof_audit = [], comments = [],
       reviews = [mex_review], requests = [], executions = [], outbox = []\<rparr>,
     fg_gates = [], fg_approvals = [mex_approval], fg_inbox = []\<rparr>"

definition mex_scope :: scope where
  "mex_scope = \<lparr>s_OrgID = 1, s_ActorID = 8, s_ActorKind = ''user'', s_ServiceName = '''', s_Role = ''owner'', s_PlatformWorker = '''',
     s_RepoLimited = False, s_Repos = Map.empty\<rparr>"

lemma mex_merges: "fst (Merge (\<lambda>_. mex_env) (Some mex_scope) 100 ''merge'' (mex_forge, [])) = Inr ''cc''"
  by code_simp

text \<open>
  C5. What reaches the target has been judged at the very commits that are merged. When a merge
  succeeds, the run was open, and git-platform was asked to merge exactly the source and the
  target commit for which: every gate the target's own policy, the project and the work item
  require (and the dependencies gate, if the change adds a dependency) has a passing evaluation;
  every governed action the change performs is settled, a person other than the author having
  approved it for this head where the policy asks for a person; and someone other than the author
  has approved the run at this head. Then the run is merged. This holds whatever fails on the way
  and however git and the services change between the calls.
\<close>

theorem merge_is_authorised:
  assumes "Merge ens (Some s) rid how w = (Inr sha, w')"
    and "\<forall>r \<in> set (runs (fg_reviews (fst w))). er_SourceRef r \<noteq> ''''"
  shows "\<exists>run h head target defs reqs.
    find_run (s_OrgID s) rid (fg_reviews (fst w)) = Some run \<and> er_State run = ''open''
    \<and> git_merge (en_git (ens 4)) (merge_request_of run head target how) = Inr sha
    \<and> run_head_of (ens 3) run = Inr h \<and> rh_HeadSHA h = head \<and> rh_TargetSHA h = target
    \<and> applies (ens 3) h defs reqs
    \<and> (\<forall>gd \<in> set (requireDependencyGate defs reqs). gd_Required gd \<longrightarrow>
         passed (s_OrgID s) rid head target (fg_gates (fst w')) (gd_Name gd))
    \<and> (\<forall>r \<in> set reqs. settled rid h (fg_approvals (fst w')) (rm_Action r))
    \<and> (\<exists>v \<in> set (reviews (fg_reviews (fst w'))). rv_RunID v = rid \<and> rv_ReviewerID v \<noteq> er_AuthorID run
         \<and> rv_Verdict v = ''approve'' \<and> rv_SourceSHA v = head)
    \<and> (\<forall>r \<in> set (runs (fg_reviews (fst w'))). er_ID r = rid \<and> er_OrgID r = s_OrgID s \<longrightarrow> er_State r = ''merged'')"
proof -
  from Merge_Inr[OF assms(1)] obtain evs w1 run head target w2 reasons w3 w4 where
    ev: "Evaluate_rpc (ens 0) (Some s) rid w = (Inr evs, w1)"
    and run: "find_run (s_OrgID s) rid (fg_reviews (fst w1)) = Some run" "er_State run = ''open''"
    and w2: "fst w2 = fst w1"
    and may: "client_MayMergePinned (ens 3) (Some s) rid head target w2 = (Inr (True, reasons), w3)"
    and ok: "on_reviews (hasIndependentApproval (Some s) rid (er_AuthorID run) head) w3 = (Inr True, w4)"
    and git: "git_merge (en_git (ens 4)) (merge_request_of run head target how) = Inr sha"
    and set: "on_reviews (setRunState (Some s) rid ''merged'') w4 = (Inr (), w')"
    by metis
  have "run_evidence (fst w1) = run_evidence (fst w)"
    using within_run[OF evidence_Evaluate ev] by (simp add: same_def)
  then have run0: "find_run (s_OrgID s) rid (fg_reviews (fst w)) = Some run"
    using run(1) by (simp add: run_evidence_def find_run_def)
  then have ref: "er_SourceRef run \<noteq> ''''"
    using assms(2) by (auto simp: find_run_def read_run_def dest!: find_Some_in split: if_splits)
  obtain h where pinned: "MayMergePinned (ens 3) (Some s) rid head target w2 = (Inr (True, reasons, h), w3)"
    using client_allowed[OF may] .
  have h: "run_head_of (ens 3) run = Inr h"
    using pinned run(1) w2 by (auto simp: MayMergePinned_def RunLookup_def run_simps split: if_splits prod.splits)
  note j = mayMerge_allowed[OF pinned] 
  have srcref: "rh_SourceRef h \<noteq> ''''" using run_head_of_run[OF h] ref by simp
  obtain d fs where d: "hasIndependentApproval (Some s) rid (er_AuthorID run) head (fg_reviews (fst w3), snd w3) = (Inr True, (d, fs))"
    and w4: "w4 = ((fst w3)\<lparr>fg_reviews := d\<rparr>, fs)"
    using ok by (auto simp: on_reviews_Inr)
  obtain d2 fs2 where d2: "setRunState (Some s) rid ''merged'' (d, fs) = (Inr (), (d2, fs2))"
    and w': "w' = ((fst w3)\<lparr>fg_reviews := d2\<rparr>, fs2)"
    using set by (auto simp: on_reviews_Inr w4)
  have g: "fg_gates (fst w') = fg_gates (fst w3)" "fg_approvals (fst w') = fg_approvals (fst w3)" by (simp_all add: w')
  note a = approval_counted[OF d] and m = setRunState_Inr[OF d2]
  from j[OF srcref] obtain defs reqs where
    "applies (ens 3) h defs reqs"
    "\<forall>gd \<in> set (requireDependencyGate defs reqs). gd_Required gd \<longrightarrow> passed (s_OrgID s) rid head target (fg_gates (fst w3)) (gd_Name gd)"
    "\<forall>r \<in> set reqs. settled rid h (fg_approvals (fst w3)) (rm_Action r)"
    "rh_HeadSHA h = head" "rh_TargetSHA h = target" by blast
  with run0 run(2) git h a m show ?thesis
    unfolding g by (intro exI[of _ run] exI[of _ h] exI[of _ head] exI[of _ target] exI[of _ defs] exI[of _ reqs]) (auto simp: w')
qed

theorem merge_is_authorised_witness:
  "\<exists>run h head target defs reqs. git_merge mex_git (merge_request_of run head target ''merge'') = Inr ''cc''
    \<and> run_head_of mex_env run = Inr h \<and> rh_HeadSHA h = head \<and> applies mex_env h defs reqs
    \<and> (\<exists>v \<in> set (reviews (fg_reviews (fst (snd (Merge (\<lambda>_. mex_env) (Some mex_scope) 100 ''merge'' (mex_forge, [])))))).
         rv_SourceSHA v = head \<and> rv_ReviewerID v \<noteq> er_AuthorID run)"
proof -
  let ?r = "Merge (\<lambda>_. mex_env) (Some mex_scope) 100 ''merge'' (mex_forge, [])"
  have m: "?r = (Inr ''cc'', snd ?r)" by (subst mex_merges[symmetric]) (rule prod.collapse[symmetric])
  have "\<forall>r \<in> set (runs (fg_reviews (fst (mex_forge, [] :: bool list)))). er_SourceRef r \<noteq> ''''"
    by (simp add: mex_forge_def mex_run_def)
  from merge_is_authorised[OF m this] obtain run h head target defs reqs where
    w: "git_merge (en_git mex_env) (merge_request_of run head target ''merge'') = Inr ''cc''"
    "run_head_of mex_env run = Inr h" "rh_HeadSHA h = head" "applies mex_env h defs reqs"
    "\<exists>v \<in> set (reviews (fg_reviews (fst (snd ?r)))). rv_RunID v = 100 \<and> rv_ReviewerID v \<noteq> er_AuthorID run
      \<and> rv_Verdict v = ''approve'' \<and> rv_SourceSHA v = head" by blast
  have "en_git mex_env = mex_git" by (simp add: mex_env_def)
  with w show ?thesis by (intro exI[of _ run] exI[of _ h] exI[of _ head] exI[of _ target] exI[of _ defs] exI[of _ reqs]) auto
qed

end
