(* ===== verification/NF_ReviewWorker.thy ===== *)
theory NF_ReviewWorker
  imports NF_Merge
begin

text \<open>
  Independent review by agents (\<open>internal/reviews/review_requests.go, review_worker.go,
  execution_gateway.go\<close>): a person requests it for the revisions they see, and a worker runs one
  model call per role through a managed gateway, which answers with a receipt that the call has
  ended. A call that may still be running keeps its place in the limit of its organization.
\<close>

section \<open>Requests\<close>

record worker_config =
  wc_Configured :: bool
  wc_Config :: review_config

definition RequestAgentReview :: "worker_config \<Rightarrow> env \<Rightarrow> uuid \<Rightarrow> ctx \<Rightarrow> uuid \<Rightarrow> string \<Rightarrow> review_request forge_op" where
  "RequestAgentReview wc en new_id ctx rid expectedSha =
     (case FromContext ctx of
        Inl _ \<Rightarrow> fail (Rpc PermissionDenied)
      | Inr scope \<Rightarrow>
          if s_OrgID scope = uuid_Nil \<or> s_ActorKind scope \<noteq> ''user'' \<or> s_ActorID scope = uuid_Nil then fail (Rpc PermissionDenied)
          else if \<not> wc_Configured wc \<or> \<not> Validate (wc_Config wc) then fail (Rpc Unavailable)
          else
            bnd (resolveRun ctx (ById rid)) (\<lambda>run.
            if er_State run \<noteq> ''open'' then fail (Rpc FailedPrecondition)
            else (case sourceHead (en_git en) run of
               None \<Rightarrow> fail (Rpc Unavailable)
             | Some head \<Rightarrow>
                 if expectedSha = '''' \<or> expectedSha \<noteq> head then fail (Rpc Aborted)
                 else (case refHead (en_git en) (er_RepoID run) (er_TargetRef run) of
                    None \<Rightarrow> fail (Rpc Unavailable)
                  | Some target \<Rightarrow>
                      bnd (answer Internal (on_reviews (stmt Sql (insert_request
                             \<lparr>rq_ID = new_id, rq_OrgID = s_OrgID scope, rq_RunID = er_ID run, rq_RequestedBy = s_ActorID scope,
                              rq_SourceSHA = head, rq_TargetSHA = target, rq_State = ''queued'', rq_Detail = '''', rq_Attempts = [],
                              rq_LeaseID = uuid_Nil, rq_LeaseUntil = en_now en, rq_CreatedAt = en_now en\<rparr>)))) (\<lambda>row.
                      case row of
                        None \<Rightarrow> fail (Rpc Internal)
                      | Some q \<Rightarrow>
                          bnd (notifyRunAuthor en ctx run (mail uuid_Nil ''review_requested'' (run_ref run) (er_Title run)
                                 (''Independent review requested at '' @ head @ ''.'') (s_ActorID scope) ''user''
                                 (''agent-review:'' @ en_text en (rq_ID q)))) (\<lambda>_.
                          ret q))))))"

definition ListAgentReviewRequests :: "ctx \<Rightarrow> uuid \<Rightarrow> review_request list forge_op" where
  "ListAgentReviewRequests ctx rid =
     bnd (resolveRun ctx (ById rid)) (\<lambda>run.
     answer Internal (on_reviews (query Sql (\<lambda>d. sort_key (\<lambda>q. - rq_CreatedAt q)
       (filter (\<lambda>q. rq_OrgID q = er_OrgID run \<and> rq_RunID q = er_ID run) (requests d))))))"

text \<open>Organizations with work, those after the cursor first.\<close>

definition organizations_due :: "uuid \<Rightarrow> reviewsdb \<Rightarrow> uuid list" where
  "organizations_due after d =
     take 8 (sort_key (\<lambda>o'. (if o' \<le> after then 1 else 0 :: nat)) (sort (remdups
       (map rq_OrgID (filter (\<lambda>q. rq_State q \<in> {''queued'', ''running''}) (requests d))
        @ map ex_OrgID (filter (\<lambda>e. ex_TerminatedAt e = None) (executions d))))))"

definition reviewOrganizations :: "ctx \<Rightarrow> uuid \<Rightarrow> uuid list reviews_op" where
  "reviewOrganizations ctx after =
     (case FromContext ctx of
        Inl _ \<Rightarrow> fail (App PlatformWorkerRequired)
      | Inr scope \<Rightarrow> if \<not> IsPlatformWorker scope then fail (App PlatformWorkerRequired) else query Sql (organizations_due after))"

section \<open>The managed call\<close>

record usage =
  us_Total :: int
  us_Input :: int
  us_Output :: int

text \<open>
  What a call meets outside: whether the request fits the gateway's bound, the SHA-256 of its body,
  whether the live response carries the proof of completion, and what the model's answer decodes to.
\<close>

record model_call =
  mc_Fits :: bool
  mc_Digest :: string
  mc_Proved :: bool
  mc_Parsed :: bool
  mc_Usage :: usage
  mc_Output :: "(string \<times> string) option"

text \<open>
  The worker's surroundings: the clock by attempt and statement, the owner of the gateway and
  its receipts, the registry of agents (first, and again after each attempt), the calls, whether
  the time is up before an attempt, the price of a call, and the identifiers drawn for a role.
\<close>

record agent_entry =
  ae_Id :: uuid
  ae_OrgId :: uuid
  ae_Role :: string
  ae_Enabled :: bool

record worker =
  wk_Now :: "nat \<Rightarrow> nat \<Rightarrow> time"
  wk_Owner :: string
  wk_Status :: "uuid \<Rightarrow> receipt option"
  wk_Text :: "uuid \<Rightarrow> string"
  wk_Git :: git_service
  wk_Registry :: "nat \<Rightarrow> agent_entry list option"
  wk_Call :: "uuid \<Rightarrow> model_call"
  wk_Late :: "nat \<Rightarrow> bool"
  wk_Price :: "(int \<Rightarrow> int \<Rightarrow> int \<times> bool) option"
  wk_NewId :: "string \<Rightarrow> uuid"
  wk_Model :: string
  wk_PromptSize :: "erun \<Rightarrow> git_diff \<Rightarrow> int"
  wk_Config :: review_config

definition RoundTrip :: "worker \<Rightarrow> ctx \<Rightarrow> time \<Rightarrow> review_request \<Rightarrow> uuid \<Rightarrow> unit reviews_op" where
  "RoundTrip W ctx now r att =
     (let mc = wk_Call W att in
      if att = uuid_Nil \<or> \<not> mc_Fits mc then fail (App OwnerUnavailable)
      else
        bnd (bindReviewExecution ctx now r att (wk_Owner W) (mc_Digest mc)) (\<lambda>_.
        if \<not> mc_Proved mc then fail (App OwnerUnavailable)
        else reconcileOne (wk_Text W) (wk_Owner W) (wk_Status W) ctx now
               \<lparr>ox_AttemptID = att, ox_Owner = wk_Owner W, ox_Digest = mc_Digest mc\<rparr>))"

definition good_output :: "string \<times> string \<Rightarrow> bool" where
  "good_output out \<longleftrightarrow> fst out \<in> set verdicts \<and> length (snd out) \<le> 64 * 1024"

text \<open>The verdict if there is one, what was used, and whether the model answered at all.\<close>

definition reviewBounded :: "worker \<Rightarrow> ctx \<Rightarrow> time \<Rightarrow> review_request \<Rightarrow> uuid \<Rightarrow> ((string \<times> string) option \<times> usage \<times> bool) reviews_op" where
  "reviewBounded W ctx now r att =
     bnd (attempt (RoundTrip W ctx now r att) :: (reviewsdb, reviewerr fault, _) op) (\<lambda>sent.
     let mc = wk_Call W att; none = \<lparr>us_Total = 0, us_Input = 0, us_Output = 0\<rparr> in
     ret (case sent of
            Inl _ \<Rightarrow> (None, none, False)
          | Inr _ \<Rightarrow>
              if \<not> mc_Parsed mc then (None, none, False)
              else ((case mc_Output mc of None \<Rightarrow> None | Some out \<Rightarrow> if good_output out then Some out else None), mc_Usage mc, True)))"

definition accountReview :: "attempt_record \<Rightarrow> usage \<Rightarrow> (int \<Rightarrow> int \<Rightarrow> int \<times> bool) option \<Rightarrow> attempt_record" where
  "accountReview a u price =
     (if us_Total u < 0 \<or> us_Input u < 0 \<or> us_Output u < 0 \<or> us_Input u > 9223372036854775807 - us_Output u then a
      else
        let total = (if us_Total u = 0 then us_Input u + us_Output u else us_Total u) in
        if total = 0 \<or> total < us_Input u + us_Output u then a
        else
          let a1 = a\<lparr>at_TokensUsed := total, at_TokensAvailable := True\<rparr> in
          (case price of
             None \<Rightarrow> a1
           | Some cost \<Rightarrow>
               if us_Input u + us_Output u = total
               then a1\<lparr>at_CostUsedMicros := fst (cost (us_Input u) (us_Output u)),
                       at_CostAvailable := \<not> snd (cost (us_Input u) (us_Output u))\<rparr>
               else a1))"

section \<open>Executing a request\<close>

definition finish :: "worker \<Rightarrow> ctx \<Rightarrow> nat \<Rightarrow> review_request \<Rightarrow> string \<Rightarrow> string \<Rightarrow> unit reviews_op" where
  "finish W ctx i r state detail = saveReview ctx (wk_Now W i 4) (r\<lparr>rq_State := state, rq_Detail := detail\<rparr>) None"

text \<open>The first enabled agent of each role that is not the author and has no role yet.\<close>

definition eligible :: "uuid \<Rightarrow> uuid \<Rightarrow> uuid list \<Rightarrow> string \<Rightarrow> agent_entry \<Rightarrow> bool" where
  "eligible org author selected role a \<longleftrightarrow> ae_Enabled a \<and> ae_Role a = role \<and> ae_OrgId a = org \<and> ae_Id a \<noteq> author
     \<and> ae_Id a \<notin> set selected"

fun select_roles :: "worker \<Rightarrow> uuid \<Rightarrow> uuid \<Rightarrow> agent_entry list \<Rightarrow> attempt_record list \<Rightarrow> uuid list \<Rightarrow> string list \<Rightarrow> attempt_record list" where
  "select_roles W org author agents atts selected [] = atts"
| "select_roles W org author agents atts selected (role # roles) =
     (if cf_MaxRoles (wk_Config W) \<le> int (length atts) then atts
      else (case List.find (eligible org author selected role) agents of
              None \<Rightarrow> select_roles W org author agents atts selected roles
            | Some a \<Rightarrow>
                select_roles W org author agents
                  (atts @ [\<lparr>at_Id = wk_NewId W role, at_AgentId = ae_Id a, at_Role = role, at_Model = wk_Model W,
                           at_State = ''pending'', at_Verdict = '''', at_Summary = '''', at_Error = '''', at_TokensUsed = 0,
                           at_TokensAvailable = False, at_CostUsedMicros = 0, at_CostAvailable = False\<rparr>])
                  (ae_Id a # selected) roles))"

definition still_enabled :: "agent_entry list option \<Rightarrow> uuid \<Rightarrow> attempt_record \<Rightarrow> bool" where
  "still_enabled reg org a = (case reg of
     None \<Rightarrow> False
   | Some es \<Rightarrow> \<exists>c \<in> set es. ae_Id c = at_AgentId a \<and> ae_OrgId c = org \<and> ae_Role c = at_Role a \<and> ae_Enabled c)"

definition attempt_outcome :: "worker \<Rightarrow> uuid \<Rightarrow> nat \<Rightarrow> (string \<times> string) option \<Rightarrow> attempt_record \<Rightarrow> attempt_record" where
  "attempt_outcome W org i out a =
     (case out of
        None \<Rightarrow> a\<lparr>at_State := ''failed'', at_Error := ''model call or structured verdict failed''\<rparr>
      | Some (verdict, summary) \<Rightarrow>
          let a1 = a\<lparr>at_Verdict := verdict, at_Summary := summary, at_State := ''succeeded''\<rparr> in
          if still_enabled (wk_Registry W (Suc i)) org a1 then a1
          else a1\<lparr>at_State := ''failed'', at_Error := ''reviewer no longer enabled in the assigned role''\<rparr>)"

definition set_attempt :: "nat \<Rightarrow> attempt_record \<Rightarrow> review_request \<Rightarrow> review_request" where
  "set_attempt i a r = r\<lparr>rq_Attempts := (rq_Attempts r)[i := a]\<rparr>"

fun run_attempts :: "worker \<Rightarrow> ctx \<Rightarrow> review_request \<Rightarrow> nat \<Rightarrow> attempt_record list \<Rightarrow> unit reviews_op" where
  "run_attempts W ctx r i [] = finish W ctx i r ''succeeded'' ''independent review completed for the recorded revisions''"
| "run_attempts W ctx r i (a # as) =
     (if wk_Late W i then finish W ctx i r ''failed'' ''review wallclock limit reached''
      else
        let a1 = a\<lparr>at_State := ''running''\<rparr>; r1 = set_attempt i a1 r in
        bnd (saveReview ctx (wk_Now W i 0) r1 None) (\<lambda>_.
        bnd (beginReviewExecution ctx (wk_Now W i 1) r1 (at_Id a)) (\<lambda>_.
        bnd (reviewBounded W ctx (wk_Now W i 2) r1 (at_Id a)) (\<lambda>(out, used, completed).
        let a2 = attempt_outcome W (rq_OrgID r) i out (accountReview a1 used (wk_Price W)); r2 = set_attempt i a2 r1 in
        bnd (saveReview ctx (wk_Now W i 3) r2 (Some a2)) (\<lambda>_.
        if at_State a2 = ''succeeded'' then run_attempts W ctx r2 (Suc i) as
        else if \<not> completed then finish W ctx i r2 ''uncertain'' ''model termination unconfirmed; admission held, no automatic replay''
        else finish W ctx i r2 ''failed'' ''a review role failed; partial evidence is retained'')))))"

text \<open>\<open>sort.Slice\<close> orders the registry by the text of the identifiers.\<close>

definition execute :: "worker \<Rightarrow> ctx \<Rightarrow> review_request \<Rightarrow> unit reviews_op" where
  "execute W ctx r =
     bnd (attempt (GetRun ctx (rq_RunID r)) :: (_, reviewerr fault, _) op) (\<lambda>got.
     case got of
       Inl _ \<Rightarrow> finish W ctx 0 r ''failed'' ''run unavailable''
     | Inr run \<Rightarrow>
         if sourceHead (wk_Git W) run \<noteq> Some (rq_SourceSHA r)
         then finish W ctx 0 r ''failed'' ''source changed or is unavailable; no model invoked''
         else if refHead (wk_Git W) (er_RepoID run) (er_TargetRef run) \<noteq> Some (rq_TargetSHA r)
         then finish W ctx 0 r ''failed'' ''target changed or is unavailable; no model invoked''
         else (case git_diff_of (wk_Git W) (er_RepoID run) (sourceRepo run) (rq_TargetSHA r) (rq_SourceSHA r) of
            Inl _ \<Rightarrow> finish W ctx 0 r ''failed'' ''diff unavailable''
          | Inr df \<Rightarrow>
              if cf_MaxInput (wk_Config W) < wk_PromptSize W run df
              then finish W ctx 0 r ''failed'' ''review input exceeds configured byte limit; no partial review performed''
              else (case wk_Registry W 0 of
                 None \<Rightarrow> finish W ctx 0 r ''failed'' ''agent registry unavailable''
               | Some es \<Rightarrow>
                   let agents = sort_key (\<lambda>e. map of_char (wk_Text W (ae_Id e)) :: nat list) es;
                       r1 = r\<lparr>rq_Attempts := select_roles W (rq_OrgID r) (er_AuthorID run) agents (rq_Attempts r) [] DefaultReviewRoles\<rparr> in
                   if rq_Attempts r1 = [] then finish W ctx 0 r1 ''failed'' ''no enabled independent review roles are configured''
                   else run_attempts W ctx r1 0 (rq_Attempts r1))))"

section \<open>The worker\<close>

definition worker_scope :: "uuid \<Rightarrow> scope" where
  "worker_scope org = \<lparr>s_OrgID = org, s_ActorID = uuid_Nil, s_ActorKind = ''service'', s_ServiceName = ''work-reviews'',
     s_Role = '''', s_PlatformWorker = '''', s_RepoLimited = False, s_Repos = Map.empty\<rparr>"

definition platform_scope :: scope where
  "platform_scope = \<lparr>s_OrgID = uuid_Nil, s_ActorID = uuid_Nil, s_ActorKind = ''service'', s_ServiceName = '''',
     s_Role = '''', s_PlatformWorker = ''work-reviews'', s_RepoLimited = False, s_Repos = Map.empty\<rparr>"

text \<open>One organization: its receipts, then one request; a failure is kept and the next organization is served.\<close>

definition serve :: "worker \<Rightarrow> uuid \<Rightarrow> time \<Rightarrow> uuid \<Rightarrow> unit reviews_op" where
  "serve W lease now org =
     (let ctx = Some (worker_scope org) in
      bnd (reconcileReviewExecutions (wk_Text W) (wk_Owner W) (wk_Status W) ctx now) (\<lambda>_.
      bnd (attempt (claimReview ctx lease now (wk_Config W)) :: (_, reviewerr fault, _) op) (\<lambda>claimed.
      case claimed of
        Inl e \<Rightarrow> if e = App ErrNoRows then ret () else fail e
      | Inr r \<Rightarrow> execute W ctx r)))"

fun serve_all :: "(uuid \<Rightarrow> worker \<times> uuid \<times> time) \<Rightarrow> uuid list \<Rightarrow> reviewerr fault list \<Rightarrow> reviewerr fault list reviews_op" where
  "serve_all at [] errs = ret errs"
| "serve_all at (org # orgs) errs =
     (case at org of (W, lease, now) \<Rightarrow>
        bnd (attempt (serve W lease now org) :: (_, reviewerr fault, _) op) (\<lambda>res.
        serve_all at orgs (case res of Inr _ \<Rightarrow> errs | Inl e \<Rightarrow> errs @ [e])))"

definition Tick_reviews :: "review_config \<Rightarrow> (uuid \<Rightarrow> worker \<times> uuid \<times> time) \<Rightarrow> uuid \<Rightarrow> reviewerr fault list reviews_op" where
  "Tick_reviews c at cursor =
     (if \<not> Validate c then fail (App (Answer Unavailable))
      else bnd (reviewOrganizations (Some platform_scope) cursor) (\<lambda>orgs. serve_all at orgs []))"

end
