(* ===== verification/NF_ChangesProps.thy ===== *)
theory NF_ChangesProps
  imports NF_Changes
begin

text \<open>
  The paths of a diff in the format that git-diff(1) documents (\<open>ChangedPaths\<close> of
  \<open>internal/gates/changes.go\<close>): exactly the files the diff is about, whatever the lines of their hunks say,
  names that git quotes and renamed files included.
\<close>

section \<open>The format\<close>

text \<open>
  The documented format of a patch (\<open>git diff -p\<close>, with the prefixes \<open>a/\<close> and \<open>b/\<close> the forge asks for,
  and \<open>core.quotePath\<close> at its default). A name with a byte outside printable ASCII, a double quote or a
  backslash is written in double quotes, with the escapes of C and three octal digits.
\<close>

definition special :: "char \<Rightarrow> bool" where
  "special c \<longleftrightarrow> of_char c < (32 :: nat) \<or> 127 \<le> (of_char c :: nat) \<or> c = CHR 0x22 \<or> c = CHR 0x5C"

definition octal_digit :: "nat \<Rightarrow> char" where
  "octal_digit n = char_of (48 + n mod 8)"

definition letter_escapes :: "(char \<times> char) list" where
  "letter_escapes = [(CHR 0x07, CHR ''a''), (CHR 0x08, CHR ''b''), (CHR 0x09, CHR ''t''), (CHR 0x0A, CHR ''n''),
     (CHR 0x0B, CHR ''v''), (CHR 0x0C, CHR ''f''), (CHR 0x0D, CHR ''r''), (CHR 0x22, CHR 0x22), (CHR 0x5C, CHR 0x5C)]"

definition quote_char :: "char \<Rightarrow> string" where
  "quote_char c =
     (if \<not> special c then [c]
      else case map_of letter_escapes c of
        Some e \<Rightarrow> [CHR 0x5C, e]
      | None \<Rightarrow> (let n = of_char c in [CHR 0x5C, octal_digit (n div 64), octal_digit (n div 8), octal_digit n]))"

definition quote_body :: "string \<Rightarrow> string" where
  "quote_body s = concat (map quote_char s)"

definition git_quote :: "string \<Rightarrow> string" where
  "git_quote s = (if \<exists>c \<in> set s. special c then CHR 0x22 # quote_body s @ [CHR 0x22] else s)"

text \<open>
  A changed file: its names before and after, which differ only for a rename; the information of its
  extended header (modes, similarity, index); and its hunks, or that it is binary, or nothing when only
  its mode or name changed. A side that does not exist is \<open>/dev/null\<close>.
\<close>

datatype change_kind = Modified | Created | Removed | Renamed

datatype patch_body = NoBody | Binary string | Hunks "(string \<times> string list) list"

record file_patch =
  fp_Old :: string
  fp_New :: string
  fp_Kind :: change_kind
  fp_Before :: "string list"
  fp_After :: "string list"
  fp_Body :: patch_body

text \<open>The label of a side ends with a tabulator when it has a blank.\<close>

definition label_text :: "string \<Rightarrow> bool \<Rightarrow> string \<Rightarrow> string" where
  "label_text side absent p =
     (let l = (if absent then ''/dev/null'' else git_quote (side @ p)) in if CHR '' '' \<in> set l then l @ [CHR 0x09] else l)"

definition rename_lines :: "file_patch \<Rightarrow> string list" where
  "rename_lines f = (if fp_Kind f = Renamed then [''rename from '' @ git_quote (fp_Old f), ''rename to '' @ git_quote (fp_New f)] else [])"

definition body_lines :: "file_patch \<Rightarrow> string list" where
  "body_lines f =
     (case fp_Body f of
        NoBody \<Rightarrow> []
      | Binary l \<Rightarrow> [''Binary files '' @ l]
      | Hunks hs \<Rightarrow> (''--- '' @ label_text ''a/'' (fp_Kind f = Created) (fp_Old f)) # (''+++ '' @ label_text ''b/'' (fp_Kind f = Removed) (fp_New f))
          # concat (map (\<lambda>(at, ls). (''@@'' @ at) # ls) hs))"

definition patch_lines :: "file_patch \<Rightarrow> string list" where
  "patch_lines f =
     (''diff --git '' @ git_quote (''a/'' @ fp_Old f) @ '' '' @ git_quote (''b/'' @ fp_New f))
       # fp_Before f @ rename_lines f @ fp_After f @ body_lines f"

definition info_line :: "string \<Rightarrow> bool" where
  "info_line l \<longleftrightarrow> (\<exists>k \<in> {''old mode '', ''new mode '', ''deleted file mode '', ''new file mode '', ''similarity index '',
     ''dissimilarity index '', ''index ''}. prefix k l)"

text \<open>A line of a hunk: context, removed, added, or the remark that a file ends without a newline.\<close>

definition hunk_line :: "string \<Rightarrow> bool" where
  "hunk_line l \<longleftrightarrow> l \<noteq> [] \<and> hd l \<in> {CHR '' '', CHR ''+'', CHR ''-'', CHR 0x5C}"

text \<open>
  A name is relative to the repository. Names that contain \<open>b/\<close> after a blank, or that begin or end with a blank,
  are left out: the header of a file with such a name is ambiguous.
\<close>

definition name_ok :: "string \<Rightarrow> bool" where
  "name_ok p \<longleftrightarrow> p \<noteq> [] \<and> hd p \<notin> {CHR ''/'', CHR '' ''} \<and> last p \<noteq> CHR '' '' \<and> \<not> sublist '' b/'' p"

definition documented :: "file_patch \<Rightarrow> bool" where
  "documented f \<longleftrightarrow> name_ok (fp_Old f) \<and> name_ok (fp_New f) \<and> (fp_Kind f \<noteq> Renamed \<longrightarrow> fp_New f = fp_Old f)
     \<and> list_all info_line (fp_Before f @ fp_After f)
     \<and> (case fp_Body f of Hunks hs \<Rightarrow> \<forall>(at, ls) \<in> set hs. list_all hunk_line ls | _ \<Rightarrow> True)
     \<and> (\<forall>l \<in> set (patch_lines f). CHR 0x0A \<notin> set l)"

definition patch_text :: "file_patch list \<Rightarrow> string" where
  "patch_text fs = concat (map (\<lambda>l. l @ [CHR 0x0A]) (concat (map patch_lines fs)))"

text \<open>The text of a diff of these files, with lines that the scanner's buffer holds.\<close>

definition git_patch_of :: "file_patch list \<Rightarrow> string \<Rightarrow> bool" where
  "git_patch_of fs unified \<longleftrightarrow> list_all documented fs \<and> unified = patch_text fs
     \<and> (\<forall>f \<in> set fs. \<forall>l \<in> set (patch_lines f). length l < diff_limit)"

section \<open>Lines\<close>

lemma split_at_line: "x \<notin> set l \<Longrightarrow> split_at x (l @ x # s) = l # split_at x s"
  by (induction l) auto

lemma split_at_lines: "\<forall>l \<in> set ls. x \<notin> set l \<Longrightarrow> split_at x (concat (map (\<lambda>l. l @ [x]) ls)) = ls @ [[]]"
  by (induction ls) (simp_all add: split_at_line)

lemma cut_lines_all: "\<forall>l \<in> set ls. length l < n \<Longrightarrow> 0 < n \<Longrightarrow> cut_lines n (ls @ [[]]) = (map drop_cr ls, True)"
  by (induction ls) auto

lemma header_paths_skip:
  "(\<And>l. l \<in> set xs \<Longrightarrow> line_paths h l = ([], h)) \<Longrightarrow> header_paths h (xs @ ys) = header_paths h ys"
  by (induction xs) auto

lemma header_paths_line:
  "drop_cr l = l \<Longrightarrow> line_paths h l = (ps, h')
    \<Longrightarrow> header_paths h (map drop_cr (l # ls) @ ys) = filter (\<lambda>p. p \<noteq> [] \<and> p \<noteq> ''/dev/null'') ps @ header_paths h' (map drop_cr ls @ ys)"
  by simp

lemma drop_cr_id: "l \<noteq> [] \<Longrightarrow> last l \<noteq> CHR 0x0D \<Longrightarrow> drop_cr l = l"
  by (simp add: drop_cr_def)

lemma drop_cr_keeps: "prefix k l \<Longrightarrow> CHR 0x0D \<notin> set k \<Longrightarrow> prefix k (drop_cr l)"
proof -
  assume p: "prefix k l" and n: "CHR 0x0D \<notin> set k"
  then obtain r where l: "l = k @ r" by (auto simp: prefix_def)
  show "prefix k (drop_cr l)"
  proof (cases "r = []")
    case True
    then have "l = k" using l by simp
    moreover have "k \<noteq> [] \<Longrightarrow> last k \<noteq> CHR 0x0D" using n last_in_set[of k] by metis
    ultimately have "drop_cr l = l" unfolding drop_cr_def by metis
    then show ?thesis using p by simp
  next
    case False
    then show ?thesis using l by (auto simp: drop_cr_def butlast_append)
  qed
qed

section \<open>Quoted names\<close>

lemma octal_octal_digit: "octal (octal_digit n) = Some (n mod 8)"
proof -
  have "(of_char (octal_digit n) :: nat) = 48 + n mod 8" by (simp add: octal_digit_def)
  then show ?thesis by (simp add: octal_def Let_def)
qed

lemma octal_digit_plain: "octal_digit n \<notin> {CHR 0x22, CHR 0x5C, CHR 0x0A, CHR '' '', CHR ''/'', CHR ''x'', CHR ''u'', CHR ''U''}"
proof -
  have "list_all (\<lambda>c. octal c = None) [CHR 0x22, CHR 0x5C, CHR 0x0A, CHR '' '', CHR ''/'', CHR ''x'', CHR ''u'', CHR ''U'']" by code_simp
  then show ?thesis using octal_octal_digit[of n] by (auto simp only: list.pred_inject option.distinct insert_iff empty_iff)
qed

lemma octal_digits: "n \<le> 255 \<Longrightarrow> 64 * (n div 64 mod 8) + 8 * (n div 8 mod 8) + n mod 8 = (n :: nat)"
proof -
  assume "n \<le> 255"
  then have "n div 64 mod 8 = n div 8 div 8" by (simp add: div_mult2_eq[symmetric])
  moreover have "8 * (n div 8) + n mod 8 = n" "8 * (n div 8 div 8) + n div 8 mod 8 = n div 8" by simp_all
  ultimately show ?thesis by linarith
qed

lemma letter_escapes_exact:
  "list_all (\<lambda>(c, e). octal e = None \<and> simple_escape e = Some c \<and> e \<notin> {CHR ''x'', CHR ''u'', CHR ''U'', CHR '' ''}) letter_escapes"
  by code_simp

lemma letter_escapes_escape:
  assumes "map_of letter_escapes c = Some e"
  shows "escape e s = Some ([c], 0)" "e \<noteq> CHR '' ''"
proof -
  have "(c, e) \<in> set letter_escapes" using assms by (rule map_of_SomeD)
  then have "octal e = None" "simple_escape e = Some c" "e \<notin> {CHR ''x'', CHR ''u'', CHR ''U'', CHR '' ''}"
    using letter_escapes_exact by (auto simp only: list_all_iff)
  then show "escape e s = Some ([c], 0)" "e \<noteq> CHR '' ''" by (simp_all add: escape_def)
qed

text \<open>How the escape of one byte is read: by \<open>strconv.Unquote\<close>, by the search for the closing quote.\<close>

lemma quote_char_cases:
  obtains "\<not> special c" "quote_char c = [c]"
  | e where "special c" "map_of letter_escapes c = Some e" "quote_char c = [CHR 0x5C, e]"
  | x y z where "special c" "quote_char c = [CHR 0x5C, octal_digit x, octal_digit y, octal_digit z]"
      "char_of (64 * (x mod 8) + 8 * (y mod 8) + z mod 8) = c" "64 * (x mod 8) + 8 * (y mod 8) + z mod 8 \<le> 255"
proof (cases "special c")
  case True
  show ?thesis
  proof (cases "map_of letter_escapes c")
    case None
    have le: "(of_char c :: nat) \<le> 255" using nat_of_char_less_256[of c] by linarith
    have "quote_char c = [CHR 0x5C, octal_digit (of_char c div 64), octal_digit (of_char c div 8), octal_digit (of_char c)]"
      by (simp add: quote_char_def True None Let_def)
    then show ?thesis
      by (rule that(3)[OF True]) (simp_all only: octal_digits[OF le] char_of_char le)
  next
    case (Some e)
    then show ?thesis using that(2)[OF True Some] by (simp add: quote_char_def True)
  qed
next
  case False
  then show ?thesis using that(1) by (simp add: quote_char_def)
qed

lemma unquote_body_char: "unquote_body (quote_char c @ r) = map_option ((#) c) (unquote_body r)"
proof (cases rule: quote_char_cases[of c])
  case 1
  then have "c \<noteq> CHR 0x22" "c \<noteq> CHR 0x0A" "c \<noteq> CHR 0x5C" by (auto simp: special_def)
  then show ?thesis using 1 by simp
next
  case (2 e)
  then show ?thesis using letter_escapes_escape(1)[OF 2(2), of r] by (cases "unquote_body r") simp_all
next
  case (3 x y z)
  have "octal_digit x \<notin> {CHR ''x'', CHR ''u'', CHR ''U''}" using octal_digit_plain[of x] by blast
  then have "escape (octal_digit x) (octal_digit y # octal_digit z # r) = Some ([c], 2)"
    using 3(3,4) by (simp add: escape_def octal_octal_digit)
  then show ?thesis using 3(2) by (cases "unquote_body r") simp_all
qed

lemma Unquote_git: "unquote_body (quote_body s @ [CHR 0x22]) = Some s"
  by (induction s) (simp_all add: quote_body_def unquote_body_char)

lemma quote_end_step: "r \<noteq> [] \<Longrightarrow> c \<noteq> CHR 0x5C \<Longrightarrow> c \<noteq> CHR 0x22 \<Longrightarrow> quote_end i (c # r) = quote_end (Suc i) r"
  by (cases r) auto

lemma quote_end_char:
  assumes "r \<noteq> []"
  shows "quote_end i (quote_char c @ r) = quote_end (i + length (quote_char c)) r"
proof (cases rule: quote_char_cases[of c])
  case 1
  then show ?thesis using assms by (auto simp: special_def quote_end_step)
next
  case (3 x y z)
  then show ?thesis using octal_digit_plain[of y] octal_digit_plain[of z] assms by (simp add: quote_end_step)
qed simp

lemma quote_end_git: "quote_end i (quote_body s @ CHR 0x22 # r) = Some (i + length (quote_body s))"
proof (induction s arbitrary: i)
  case Nil
  then show ?case by (cases r) (simp_all add: quote_body_def)
next
  case (Cons c s)
  have "quote_end i (quote_char c @ quote_body s @ CHR 0x22 # r) = quote_end (i + length (quote_char c)) (quote_body s @ CHR 0x22 # r)"
    by (rule quote_end_char) simp
  then show ?case using Cons.IH by (simp add: quote_body_def add.assoc)
qed

lemma special_blank: "\<not> special c \<Longrightarrow> c \<noteq> CHR '' '' \<Longrightarrow> \<not> blank c"
  by (auto simp: special_def blank_def)

lemma trim_ends:
  assumes "s \<noteq> []" "\<not> blank (hd s)" "\<not> blank (last s)"
  shows "trim_space s = s" "trim_space (s @ [CHR 0x09]) = s" "trim_space (CHR '' '' # s) = s"
proof -
  have drop: "dropWhile blank (s @ x) = s @ x" for x using assms by (cases s) auto
  have rev: "dropWhile blank (rev s) = rev s" using assms by (cases s rule: rev_cases) auto
  have b: "dropWhile blank (CHR '' '' # s) = dropWhile blank s" "dropWhile blank (CHR 0x09 # rev s) = dropWhile blank (rev s)"
    by (simp_all add: blank_def)
  have ds: "dropWhile blank s = s" using drop[of "[]"] by simp
  show "trim_space s = s" by (simp only: trim_space_def trim_by_def ds rev rev_rev_ident)
  show "trim_space (s @ [CHR 0x09]) = s" by (simp only: trim_space_def trim_by_def drop rev_append rev.simps append_Nil append_Cons b(2) rev rev_rev_ident)
  show "trim_space (CHR '' '' # s) = s" by (simp only: trim_space_def trim_by_def b(1) ds rev rev_rev_ident)
qed

lemma git_quote_ends:
  assumes "s \<noteq> []" "hd s \<noteq> CHR '' ''" "last s \<noteq> CHR '' ''"
  shows "git_quote s \<noteq> []" "\<not> blank (hd (git_quote s))" "\<not> blank (last (git_quote s))" "last (git_quote s) \<noteq> CHR 0x0D"
proof -
  have dq: "\<not> blank (CHR 0x22)" by (simp add: blank_def)
  have "special (CHR 0x0D)" by (simp add: special_def)
  moreover have "hd s \<in> set s" and last: "\<And>c. last s = c \<Longrightarrow> c \<in> set s" using assms(1) by auto
  ultimately show "git_quote s \<noteq> []" "\<not> blank (hd (git_quote s))" "\<not> blank (last (git_quote s))" "last (git_quote s) \<noteq> CHR 0x0D"
    using assms dq special_blank by (auto simp: git_quote_def dest: last)
qed

lemma unquote_quoted: "\<exists>c \<in> set s. special c \<Longrightarrow> Unquote (git_quote s) = Some s"
  using Unquote_git[of s] by (simp add: git_quote_def Unquote_def)

lemma unquote_trimmed:
  assumes "trim_space t = git_quote s"
  shows "unquote t = s"
proof (cases "\<exists>c \<in> set s. special c")
  case True
  then show ?thesis using assms unquote_quoted by (simp add: unquote_def) (simp add: git_quote_def)
next
  case False
  moreover have "special (CHR 0x22)" by (simp add: special_def)
  ultimately have "\<not> prefix [CHR 0x22] s" by (cases s) auto
  then show ?thesis using assms False by (simp add: unquote_def git_quote_def)
qed

lemma unquote_git:
  assumes "s \<noteq> []" "hd s \<noteq> CHR '' ''" "last s \<noteq> CHR '' ''"
  shows "unquote (git_quote s) = s" "unquote (git_quote s @ [CHR 0x09]) = s" "unquote (trim_space (CHR '' '' # git_quote s)) = s"
proof -
  note e = git_quote_ends[OF assms]
  note t = trim_ends[OF e(1-3)]
  show "unquote (git_quote s) = s" "unquote (git_quote s @ [CHR 0x09]) = s" by (rule unquote_trimmed, rule t)+
  show "unquote (trim_space (CHR '' '' # git_quote s)) = s" unfolding t(3) by (rule unquote_trimmed) (rule t(1))
qed

subsection \<open>The two names of a header\<close>

abbreviation sep :: string where "sep \<equiv> '' b/''"

lemma index_of_None: "p \<noteq> [] \<Longrightarrow> index_of s p = None \<longleftrightarrow> \<not> sublist p s"
  by (induction s) (auto simp: sublist_Cons_right)

lemma prefix_sep: "prefix sep s \<longleftrightarrow> (\<exists>t. s = CHR '' '' # CHR ''b'' # CHR ''/'' # t)"
  by (auto simp: prefix_def)

lemma sep_first: "\<not> sublist sep s \<Longrightarrow> index_of (s @ sep @ t) sep = Some (length s)"
proof (induction s)
  case (Cons c s)
  then have "\<not> prefix sep (c # s)" "\<not> sublist sep s" by (simp_all only: sublist_Cons_right) blast+
  then have "\<not> prefix sep (c # s @ sep @ t)"
    by (cases s; cases "tl s") (auto simp only: prefix_sep append.simps list.sel list.inject char.inject simp_thms)
  then show ?case using Cons.IH \<open>\<not> sublist sep s\<close> by simp
qed simp

lemma sep_blank: "\<not> sublist sep s \<Longrightarrow> \<not> sublist sep (s @ '' '')"
proof (induction s)
  case (Cons c s)
  then have "\<not> prefix sep (c # s)" "\<not> sublist sep s" by (simp_all only: sublist_Cons_right) blast+
  then have "\<not> prefix sep (c # s @ '' '')"
    by (cases s; cases "tl s") (auto simp only: prefix_sep append.simps list.sel list.inject char.inject simp_thms)
  then show ?case using Cons.IH \<open>\<not> sublist sep s\<close> by (simp only: append.simps sublist_Cons_right) blast
qed (simp add: sublist_Cons_right)

lemma sep_apart:
  assumes "x \<notin> set k" "\<not> sublist k u" "\<not> sublist k v"
  shows "\<not> sublist k (u @ x # v)"
  using assms(2)
proof (induction u)
  case Nil
  have "k \<noteq> []" using Nil by auto
  then have "\<not> prefix k (x # v)" using assms(1) by (cases k) auto
  then show ?case using assms(3) by (simp add: sublist_Cons_right)
next
  case (Cons c u)
  then have c: "\<not> prefix k (c # u)" "\<not> sublist k u" by (simp_all only: sublist_Cons_right) blast+
  have "\<not> prefix k ((c # u) @ x # v)"
    unfolding prefix_append using c(1) assms(1) by (auto simp: prefix_Cons)
  then show ?case using Cons.IH c(2) by (simp only: append.simps sublist_Cons_right) blast
qed

lemma quote_body_Cons: "quote_body (c # s) = quote_char c @ quote_body s"
  by (simp add: quote_body_def)

lemma quote_body_starts: "quote_body s = c # r \<Longrightarrow> c \<noteq> CHR 0x5C \<Longrightarrow> \<exists>s'. s = c # s' \<and> r = quote_body s'"
proof (cases s)
  case (Cons x s')
  assume "quote_body s = c # r" "c \<noteq> CHR 0x5C"
  then show ?thesis unfolding Cons quote_body_Cons by (cases rule: quote_char_cases[of x]) auto
qed (simp add: quote_body_def)

lemma sep_quoted: "\<not> sublist sep s \<Longrightarrow> \<not> sublist sep (quote_body s)"
proof (induction s)
  case (Cons c s)
  then have c: "\<not> prefix sep (c # s)" "\<not> sublist sep s" by (simp_all only: sublist_Cons_right) blast+
  note IH = Cons.IH[OF c(2)]
  show ?case
  proof (cases rule: quote_char_cases[of c])
    case 1
    have "\<not> prefix sep (c # quote_body s)"
    proof
      assume "prefix sep (c # quote_body s)"
      then obtain t where t: "c = CHR '' ''" "quote_body s = CHR ''b'' # CHR ''/'' # t" unfolding prefix_sep by blast
      from quote_body_starts[OF t(2)] obtain s1 where s1: "s = CHR ''b'' # s1" "CHR ''/'' # t = quote_body s1" by auto
      from quote_body_starts[OF s1(2)[symmetric]] show False using c(1) s1(1) t(1) by (auto simp: prefix_sep)
    qed
    then show ?thesis using 1 IH by (simp add: quote_body_Cons sublist_Cons_right)
  next
    case (2 e)
    then show ?thesis using letter_escapes_escape(2)[OF 2(2)] IH by (simp add: quote_body_Cons sublist_Cons_right)
  next
    case (3 x y z)
    have "CHR '' '' \<notin> {octal_digit x, octal_digit y, octal_digit z}" using octal_digit_plain[of x] octal_digit_plain[of y] octal_digit_plain[of z] by (metis insertCI insert_iff empty_iff)
    then show ?thesis using 3(2) IH by (simp add: quote_body_Cons sublist_Cons_right)
  qed
qed (simp add: quote_body_def)

lemma splitGitHeader_git:
  assumes "name_ok p" "name_ok q"
  shows "splitGitHeader (git_quote (''a/'' @ p) @ '' '' @ git_quote (''b/'' @ q))
    = (if (\<exists>c \<in> set q. special c) \<and> (\<forall>c \<in> set p. \<not> special c) then ([], []) else (p, q))"
proof -
  let ?a = "''a/'' @ p" and ?b = "''b/'' @ q"
  let ?r = "git_quote ?a @ '' '' @ git_quote ?b"
  have sp: "(\<exists>c \<in> set (x # CHR ''/'' # s). special c) = (\<exists>c \<in> set s. special c)" if "\<not> special x" for x s
    using that by (auto simp: special_def)
  have a: "\<not> special (CHR ''a'')" and b: "\<not> special (CHR ''b'')" by (simp_all add: special_def)
  have pa: "(\<exists>c \<in> set ?a. special c) = (\<exists>c \<in> set p. special c)" and qb: "(\<exists>c \<in> set ?b. special c) = (\<exists>c \<in> set q. special c)"
    using sp[OF a, of p] sp[OF b, of q] by simp_all
  have ua: "unquote (git_quote ?a) = ?a" and ub: "unquote (git_quote ?b) = ?b" and ubt: "unquote (trim_space ('' '' @ git_quote ?b)) = ?b"
    using unquote_git[of ?a] unquote_git[of ?b] assms by (simp_all add: name_ok_def)
  have side: "TrimPrefix ?a ''a/'' = p" "TrimPrefix ?b ''b/'' = q" by (rule TrimPrefix_append)+
  show ?thesis
  proof (cases "\<exists>c \<in> set p. special c")
    case True
    then have q: "git_quote ?a = CHR 0x22 # quote_body ?a @ [CHR 0x22]" using pa by (simp only: git_quote_def if_True)
    have "closingQuote ?r = Some (1 + length (quote_body ?a))"
      unfolding q closingQuote_def by (simp add: quote_end_git)
    moreover have "take (Suc (1 + length (quote_body ?a))) ?r = git_quote ?a" "drop (Suc (1 + length (quote_body ?a))) ?r = '' '' @ git_quote ?b"
      unfolding q by simp_all
    moreover have "prefix [CHR 0x22] ?r" unfolding q by simp
    ultimately show ?thesis using True by (simp only: splitGitHeader_def if_True option.case ua ubt side) auto
  next
    case False
    then have na: "git_quote ?a = ?a" using pa by (simp only: git_quote_def if_False)
    have nq: "\<not> prefix [CHR 0x22] ?r" unfolding na by simp
    have nsa: "\<not> sublist sep ?a" and nsb: "\<not> sublist sep ?b" using assms by (simp_all add: name_ok_def sublist_Cons_right)
    show ?thesis
    proof (cases "\<exists>c \<in> set q. special c")
      case True
      then have q: "git_quote ?b = CHR 0x22 # quote_body ?b @ [CHR 0x22]" using qb by (simp only: git_quote_def if_True)
      have "\<not> sublist sep ((?a @ '' '') @ CHR 0x22 # (quote_body ?b @ CHR 0x22 # []))"
        by (intro sep_apart sep_blank sep_quoted nsa nsb) simp_all
      then have "index_of ?r sep = None" unfolding na q by (subst index_of_None) simp_all
      then show ?thesis using nq True False by (simp only: splitGitHeader_def if_False option.case) auto
    next
      case plain: False
      then have nb: "git_quote ?b = ?b" using qb by (simp only: git_quote_def if_False)
      have "index_of (?a @ sep @ q) sep = Some (length ?a)" using nsa by (rule sep_first)
      then have i: "index_of ?r sep = Some (length ?a)" unfolding na nb by simp
      have "take (length ?a) ?r = ?a" "drop (Suc (length ?a)) ?r = git_quote ?b" unfolding na by simp_all
      then show ?thesis using nq i plain by (simp only: splitGitHeader_def if_False option.case ub side) auto
    qed
  qed
qed

section \<open>The lines of a patch\<close>

lemma header_line:
  assumes "name_ok p" "name_ok q"
  shows "line_paths h (''diff --git '' @ git_quote (''a/'' @ p) @ '' '' @ git_quote (''b/'' @ q))
    = (if (\<exists>c \<in> set q. special c) \<and> (\<forall>c \<in> set p. \<not> special c) then [[], []] else [p, q], True)"
  using splitGitHeader_git[OF assms] TrimPrefix_append[of "''diff --git ''" "git_quote (''a/'' @ p) @ '' '' @ git_quote (''b/'' @ q)"]
  by (auto simp: line_paths_def)

lemma label_lines:
  assumes "name_ok p"
  shows "line_paths True (''--- '' @ label_text ''a/'' absent p) = ([if absent then ''/dev/null'' else p], True)"
    "line_paths True (''+++ '' @ label_text ''b/'' absent p) = ([if absent then ''/dev/null'' else p], True)"
proof -
  have no: "git_quote ''/dev/null'' = ''/dev/null''" by code_simp
  have u: "unquote (label_text side absent p) = (if absent then ''/dev/null'' else side @ p)" if "side \<in> {''a/'', ''b/''}" for side
    using that unquote_git[of "side @ p"] unquote_git[of "''/dev/null''"] assms no by (auto simp: label_text_def Let_def name_ok_def)
  have side: "TrimPrefix (''a/'' @ p) ''a/'' = p" "TrimPrefix (''b/'' @ p) ''b/'' = p" by (rule TrimPrefix_append)+
  have t: "TrimPrefix (''--- '' @ s) ''--- '' = s" "TrimPrefix (''+++ '' @ s) ''+++ '' = s" for s by (rule TrimPrefix_append)+
  show "line_paths True (''--- '' @ label_text ''a/'' absent p) = ([if absent then ''/dev/null'' else p], True)"
    using u[of "''a/''"] side(1) t(1)[of "label_text ''a/'' absent p"] by (cases absent) (simp_all add: line_paths_def TrimPrefix_def)
  show "line_paths True (''+++ '' @ label_text ''b/'' absent p) = ([if absent then ''/dev/null'' else p], True)"
    using u[of "''b/''"] side(2) t(2)[of "label_text ''b/'' absent p"] by (cases absent) (simp_all add: line_paths_def TrimPrefix_def)
qed

lemma rename_line:
  assumes "name_ok p"
  shows "line_paths True (''rename from '' @ git_quote p) = ([p], True)" "line_paths True (''rename to '' @ git_quote p) = ([p], True)"
  using unquote_git(1)[of p] assms TrimPrefix_append[of "''rename from ''" "git_quote p"] TrimPrefix_append[of "''rename to ''" "git_quote p"]
  by (simp_all add: line_paths_def name_ok_def)

text \<open>The lines that end as they are written: with a name, or a tabulator after one.\<close>

lemma named_lines_kept:
  assumes "name_ok p" "name_ok q"
  shows "drop_cr (''diff --git '' @ git_quote (''a/'' @ p) @ '' '' @ git_quote (''b/'' @ q)) = ''diff --git '' @ git_quote (''a/'' @ p) @ '' '' @ git_quote (''b/'' @ q)"
    "drop_cr (''rename from '' @ git_quote p) = ''rename from '' @ git_quote p" "drop_cr (''rename to '' @ git_quote p) = ''rename to '' @ git_quote p"
    "drop_cr (''--- '' @ label_text ''a/'' absent p) = ''--- '' @ label_text ''a/'' absent p"
    "drop_cr (''+++ '' @ label_text ''b/'' absent p) = ''+++ '' @ label_text ''b/'' absent p"
proof -
  note qb = git_quote_ends[of "''b/'' @ q"] and qp = git_quote_ends[of p]
  show "drop_cr (''diff --git '' @ git_quote (''a/'' @ p) @ '' '' @ git_quote (''b/'' @ q)) = ''diff --git '' @ git_quote (''a/'' @ p) @ '' '' @ git_quote (''b/'' @ q)"
    "drop_cr (''rename from '' @ git_quote p) = ''rename from '' @ git_quote p" "drop_cr (''rename to '' @ git_quote p) = ''rename to '' @ git_quote p"
    using qb(1,4) qp(1,4) assms by (auto intro!: drop_cr_id simp: name_ok_def)
  have l: "label_text side absent p \<noteq> [] \<and> last (label_text side absent p) \<noteq> CHR 0x0D" if "side \<in> {''a/'', ''b/''}" for side
    using that git_quote_ends(1,4)[of "side @ p"] assms by (auto simp: label_text_def Let_def name_ok_def)
  show "drop_cr (''--- '' @ label_text ''a/'' absent p) = ''--- '' @ label_text ''a/'' absent p"
    "drop_cr (''+++ '' @ label_text ''b/'' absent p) = ''+++ '' @ label_text ''b/'' absent p"
    using l[of "''a/''"] l[of "''b/''"] by (auto intro!: drop_cr_id)
qed

lemma info_line_paths: "info_line l \<Longrightarrow> line_paths True (drop_cr l) = ([], True)"
proof -
  assume "info_line l"
  then obtain k where k: "k \<in> {''old mode '', ''new mode '', ''deleted file mode '', ''new file mode '', ''similarity index '',
     ''dissimilarity index '', ''index ''}" "prefix k l" by (auto simp only: info_line_def)
  then have "prefix k (drop_cr l)" by (intro drop_cr_keeps) auto
  then obtain s where "drop_cr l = k @ s" by (auto simp: prefix_def)
  then show ?thesis using k(1) by (auto simp: line_paths_def)
qed

lemma binary_line_paths: "line_paths True (drop_cr (''Binary files '' @ l)) = ([], True)"
proof -
  have "prefix ''Binary files '' (drop_cr (''Binary files '' @ l))" by (rule drop_cr_keeps) simp_all
  then obtain s where "drop_cr (''Binary files '' @ l) = ''Binary files '' @ s" by (auto simp only: prefix_def)
  then show ?thesis by (simp add: line_paths_def)
qed

lemma hunk_header_paths: "line_paths b (drop_cr (''@@'' @ at)) = ([], False)"
proof -
  have "prefix ''@@'' (drop_cr (''@@'' @ at))" by (rule drop_cr_keeps) simp_all
  then obtain s where "drop_cr (''@@'' @ at) = ''@@'' @ s" by (auto simp only: prefix_def)
  then show ?thesis by (simp add: line_paths_def)
qed

lemma hunk_line_paths:
  assumes "hunk_line l"
  shows "line_paths False (drop_cr l) = ([], False)"
proof -
  obtain c s where l: "l = c # s" "c \<in> {CHR '' '', CHR ''+'', CHR ''-'', CHR 0x5C}"
    using assms by (cases l) (auto simp: hunk_line_def)
  then have "drop_cr l = c # drop_cr s \<or> drop_cr l = l" by (auto simp: drop_cr_def)
  with l(2) show ?thesis by (auto simp: line_paths_def l(1))
qed

lemma hunks_paths:
  assumes "\<forall>(at, ls) \<in> set hs. list_all hunk_line ls"
  shows "header_paths b (map drop_cr (concat (map (\<lambda>(at, ls). (''@@'' @ at) # ls) hs)) @ ys) = header_paths (b \<and> hs = []) ys"
  using assms
proof (induction hs arbitrary: b)
  case (Cons h hs)
  obtain at ls where h: "h = (at, ls)" by (cases h)
  have body: "header_paths False (map drop_cr ls @ zs) = header_paths False zs" for zs
    by (rule header_paths_skip) (use Cons.prems hunk_line_paths h in \<open>auto simp: list_all_iff\<close>)
  have "header_paths b (map drop_cr (concat (map (\<lambda>(at, ls). (''@@'' @ at) # ls) (h # hs))) @ ys)
      = header_paths False (map drop_cr ls @ map drop_cr (concat (map (\<lambda>(at, ls). (''@@'' @ at) # ls) hs)) @ ys)"
    using hunk_header_paths[of b at] by (simp add: h)
  also have "\<dots> = header_paths False ys" using Cons by (simp add: body)
  finally show ?case by simp
qed simp

section \<open>Exactly the files of the diff\<close>

text \<open>The paths a file of the diff is about: the old and the new one.\<close>

definition file_paths :: "file_patch \<Rightarrow> string set" where
  "file_paths f = {fp_Old f, fp_New f}"

lemma name_is_path: "name_ok p \<Longrightarrow> p \<noteq> [] \<and> p \<noteq> ''/dev/null''"
  by (auto simp: name_ok_def)

lemma info_lines_paths: "list_all info_line ls \<Longrightarrow> header_paths True (map drop_cr ls @ ys) = header_paths True ys"
  by (rule header_paths_skip) (auto simp: list_all_iff info_line_paths)

lemma rename_lines_paths:
  assumes "documented f"
  shows "header_paths True (map drop_cr (rename_lines f) @ ys) = (if fp_Kind f = Renamed then [fp_Old f, fp_New f] else []) @ header_paths True ys"
proof -
  have n: "name_ok (fp_Old f)" "name_ok (fp_New f)" using assms by (simp_all add: documented_def)
  have k: "drop_cr (''rename from '' @ git_quote (fp_Old f)) = ''rename from '' @ git_quote (fp_Old f)"
      "drop_cr (''rename to '' @ git_quote (fp_New f)) = ''rename to '' @ git_quote (fp_New f)"
    using named_lines_kept(2)[OF n(1,1)] named_lines_kept(3)[OF n(2,2)] by blast+
  have "header_paths True (map drop_cr [''rename from '' @ git_quote (fp_Old f), ''rename to '' @ git_quote (fp_New f)] @ ys) = [fp_Old f, fp_New f] @ header_paths True ys"
    unfolding header_paths_line[OF k(1) rename_line(1)[OF n(1)]] header_paths_line[OF k(2) rename_line(2)[OF n(2)]]
    using name_is_path[OF n(1)] name_is_path[OF n(2)] by simp
  then show ?thesis by (simp only: rename_lines_def list.map append_Nil if_True if_False split: if_split) blast
qed

lemma body_lines_paths:
  assumes "documented f"
  shows "\<exists>ps b. header_paths True (map drop_cr (body_lines f) @ ys) = ps @ header_paths b ys \<and> set ps \<subseteq> file_paths f"
proof (cases "fp_Body f")
  case NoBody
  then show ?thesis by (intro exI[of _ "[]"] exI[of _ True]) (simp add: body_lines_def)
next
  case (Binary l)
  have "header_paths True (map drop_cr (body_lines f) @ ys) = header_paths True ys"
    using binary_line_paths[of l] by (simp only: body_lines_def Binary patch_body.case list.map append_Cons append_Nil header_paths.simps prod.case) simp
  then show ?thesis by (intro exI[of _ "[]"] exI[of _ True]) simp
next
  case (Hunks hs)
  have n: "name_ok (fp_Old f)" "name_ok (fp_New f)" and hs: "\<forall>(at, ls) \<in> set hs. list_all hunk_line ls"
    using assms by (simp_all add: documented_def Hunks)
  let ?old = "if fp_Kind f = Created then ''/dev/null'' else fp_Old f" and ?new = "if fp_Kind f = Removed then ''/dev/null'' else fp_New f"
  have "header_paths True (map drop_cr (body_lines f) @ ys)
      = filter (\<lambda>p. p \<noteq> [] \<and> p \<noteq> ''/dev/null'') [?old] @ filter (\<lambda>p. p \<noteq> [] \<and> p \<noteq> ''/dev/null'') [?new] @ header_paths (True \<and> hs = []) ys"
    unfolding body_lines_def Hunks patch_body.case header_paths_line[OF named_lines_kept(4)[OF n(1,1)] label_lines(1)[OF n(1)]]
      header_paths_line[OF named_lines_kept(5)[OF n(2,2)] label_lines(2)[OF n(2)]] hunks_paths[OF hs] ..
  then show ?thesis
    by (intro exI[of _ "filter (\<lambda>p. p \<noteq> [] \<and> p \<noteq> ''/dev/null'') [?old, ?new]"] exI[of _ "hs = []"]) (auto simp: file_paths_def)
qed

lemma patch_lines_paths:
  assumes "documented f"
  shows "\<exists>ps b'. header_paths b (map drop_cr (patch_lines f) @ ys) = ps @ header_paths b' ys \<and> set ps = file_paths f"
proof -
  have n: "name_ok (fp_Old f)" "name_ok (fp_New f)" and i: "list_all info_line (fp_Before f)" "list_all info_line (fp_After f)"
    using assms by (simp_all add: documented_def)
  let ?lost = "(\<exists>c \<in> set (fp_New f). special c) \<and> (\<forall>c \<in> set (fp_Old f). \<not> special c)"
  let ?h = "if ?lost then [] else [fp_Old f, fp_New f]" and ?r = "if fp_Kind f = Renamed then [fp_Old f, fp_New f] else []"
  obtain ps b' where body: "header_paths True (map drop_cr (body_lines f) @ ys) = ps @ header_paths b' ys" "set ps \<subseteq> file_paths f"
    using body_lines_paths[OF assms] by blast
  have keep: "filter (\<lambda>p. p \<noteq> [] \<and> p \<noteq> ''/dev/null'') (if ?lost then [[], []] else [fp_Old f, fp_New f]) = ?h"
    using name_is_path[OF n(1)] name_is_path[OF n(2)] by simp
  have "header_paths b (map drop_cr (patch_lines f) @ ys)
      = filter (\<lambda>p. p \<noteq> [] \<and> p \<noteq> ''/dev/null'') (if ?lost then [[], []] else [fp_Old f, fp_New f])
        @ header_paths True (map drop_cr (fp_Before f) @ map drop_cr (rename_lines f) @ map drop_cr (fp_After f) @ map drop_cr (body_lines f) @ ys)"
    unfolding patch_lines_def header_paths_line[OF named_lines_kept(1)[OF n] header_line[OF n]] map_append append_assoc ..
  also have "\<dots> = ?h @ ?r @ ps @ header_paths b' ys"
    unfolding keep info_lines_paths[OF i(1)] rename_lines_paths[OF assms] info_lines_paths[OF i(2)] body(1) ..
  finally have "header_paths b (map drop_cr (patch_lines f) @ ys) = (?h @ ?r @ ps) @ header_paths b' ys" by simp
  moreover have "?lost \<Longrightarrow> fp_Kind f = Renamed" using assms by (auto simp: documented_def)
  then have "set (?h @ ?r @ ps) = file_paths f" using body(2) by (auto simp: file_paths_def)
  ultimately show ?thesis by blast
qed

lemma patches_paths:
  "list_all documented fs \<Longrightarrow> set (header_paths b (map drop_cr (concat (map patch_lines fs)))) = (\<Union>f \<in> set fs. file_paths f)"
proof (induction fs arbitrary: b)
  case (Cons f fs)
  obtain ps b' where "header_paths b (map drop_cr (patch_lines f) @ map drop_cr (concat (map patch_lines fs)))
      = ps @ header_paths b' (map drop_cr (concat (map patch_lines fs)))" "set ps = file_paths f"
    using patch_lines_paths[of f b] Cons.prems by force
  with Cons show ?case by simp
qed simp

lemma patch_lines_fit:
  assumes "git_patch_of fs unified"
  shows "\<forall>l \<in> set (concat (map patch_lines fs)). CHR 0x0A \<notin> set l" "\<forall>l \<in> set (concat (map patch_lines fs)). length l < diff_limit"
  using assms by (auto simp: git_patch_of_def documented_def list_all_iff)


text \<open>The diff of the test \<open>TestChangedPathsReadsHeadersNotContent\<close>, as git quotes its names, and a renamed one.\<close>

definition dex_files :: "file_patch list" where
  "dex_files =
     [\<lparr>fp_Old = ''README.md'', fp_New = ''README.md'', fp_Kind = Modified, fp_Before = [], fp_After = [''index 1111111..2222222 100644''],
       fp_Body = Hunks [('' -1,2 +1,1 @@'', [''--- a/migrations/000009_fake.up.sql'', ''+++ b/.novaforge/gates/tests.yaml'', '' hello''])]\<rparr>,
      \<lparr>fp_Old = ''db/old.txt'', fp_New = ''db/migrations/000002.up.sql'', fp_Kind = Renamed, fp_Before = [''similarity index 100%''],
       fp_After = [], fp_Body = NoBody\<rparr>,
      \<lparr>fp_Old = ''docs/with space.md'', fp_New = ''docs/with space.md'', fp_Kind = Created, fp_Before = [''new file mode 100644''],
       fp_After = [], fp_Body = Hunks [('' -0,0 +1 @@'', [''+x''])]\<rparr>,
      \<lparr>fp_Old = ''a.sql'', fp_New = [CHR 0xC3, CHR 0xA9, CHR 0x22], fp_Kind = Renamed, fp_Before = [''similarity index 100%''],
       fp_After = [], fp_Body = NoBody\<rparr>]"

lemma dex_lengths: "list_all (\<lambda>f. list_all (\<lambda>l. length l \<le> 100 \<and> CHR 0x0A \<notin> set l) (patch_lines f)) dex_files"
  by code_simp

lemma dex_documented: "list_all documented dex_files"
proof -
  have "name_ok p" if "p \<in> {''README.md'', ''db/old.txt'', ''db/migrations/000002.up.sql'', ''docs/with space.md'', ''a.sql'', [CHR 0xC3, CHR 0xA9, CHR 0x22]}" for p
    using that by (auto simp: name_ok_def sublist_Cons_right)
  then show ?thesis using dex_lengths by (simp add: documented_def dex_files_def info_line_def hunk_line_def list_all_iff)
qed


text \<open>
  A line that does not fit the buffer ends the scan without an error being looked at: what follows
  is not seen.
\<close>

lemma long_line_hides_the_rest:
  assumes "git_patch_of fs unified" and "CHR 0x0A \<notin> set long" and "diff_limit \<le> length long"
  shows "ChangedPaths (unified @ long @ CHR 0x0A # rest) = ChangedPaths unified"
proof -
  let ?ls = "concat (map patch_lines fs)"
  note fit = patch_lines_fit[OF assms(1)]
  have split: "\<forall>l \<in> set ls. x \<notin> set l \<Longrightarrow> split_at x (concat (map (\<lambda>l. l @ [x]) ls) @ t) = ls @ split_at x t" for ls x t
    by (induction ls) (simp_all add: split_at_line)
  have cut: "\<forall>l \<in> set ls. length l < n \<Longrightarrow> n \<le> length m \<Longrightarrow> fst (cut_lines n (ls @ m # ms)) = map drop_cr ls" for ls n m ms
    by (induction ls) (auto split: prod.splits)
  have u: "unified = patch_text fs" using assms(1) by (simp add: git_patch_of_def)
  have "fst (scan_lines diff_limit (unified @ long @ CHR 0x0A # rest)) = map drop_cr ?ls"
    unfolding u scan_lines_def patch_text_def split[OF fit(1)] split_at_line[OF assms(2)] by (rule cut[OF fit(2) assms(3)])
  moreover have "fst (scan_lines diff_limit unified) = map drop_cr ?ls"
    unfolding u scan_lines_def patch_text_def split_at_lines[OF fit(1)] by (subst cut_lines_all[OF fit(2)]) (simp_all add: diff_limit_def)
  ultimately show ?thesis by (simp add: ChangedPaths_def)
qed

end
