(* ===== verification/NF_ExceptionProps.thy ===== *)
theory NF_ExceptionProps
  imports NF_Exceptions
begin

text \<open>What the exception dashboard says of the open runs (\<open>internal/reviews/exceptions.go\<close>).\<close>

lemma arch_synthetic: "pf_Gate p = architectureDecisionGate \<Longrightarrow> synthetic p"
  by (simp add: synthetic_def)

lemma find_none_verified:
  "List.find P (filter verified ps) = None \<longleftrightarrow> (\<forall>p \<in> set ps. verified p \<longrightarrow> \<not> P p)"
  unfolding find_None_iff' by auto

lemma find_some_verified:
  assumes "List.find P (filter verified ps) = Some p"
  shows "p \<in> set ps \<and> verified p \<and> P p"
  using find_Some_in[OF assms] by auto

definition proof_ok :: "erun \<Rightarrow> proof_record \<Rightarrow> bool" where
  "proof_ok run p \<longleftrightarrow> (\<not> synthetic p \<or> pf_Gate p = architectureDecisionGate \<longrightarrow> pf_Status p = ''pass'')
     \<and> (er_AuthorKind run = ''agent'' \<longrightarrow> pf_Gate p = agentBlockedGate \<longrightarrow> pf_Status p \<noteq> ''fail'')"

lemma failed_not_ok: "failed_gate p \<Longrightarrow> \<not> proof_ok run p"
  by (auto simp: failed_gate_def proof_ok_def)

lemma ok_if_nothing_failed:
  assumes "\<not> (pf_Gate p = architectureDecisionGate \<and> pf_Status p \<noteq> ''pass'')"
    and "er_AuthorKind run = ''agent'' \<Longrightarrow> \<not> (pf_Gate p = agentBlockedGate \<and> pf_Status p = ''fail'')"
  shows "proof_ok run p \<longleftrightarrow> (\<not> synthetic p \<longrightarrow> pf_Status p = ''pass'')"
  using assms unfolding proof_ok_def by blast

text \<open>The classification is Healthy exactly when every reason against it is absent.\<close>

lemma classify_healthy:
  "fst (classify run ps vs head) = Healthy \<longleftrightarrow>
     (\<exists>v \<in> set vs. current head v \<and> rv_Verdict v = ''approve'' \<and> rv_ReviewerID v \<noteq> er_AuthorID run)
     \<and> \<not> (\<exists>v \<in> set vs. current head v \<and> rv_Verdict v = ''request_changes'')
     \<and> filter verified ps \<noteq> [] \<and> (\<forall>p \<in> set (filter verified ps). proof_ok run p)"
    (is "?H \<longleftrightarrow> ?A \<and> \<not> ?R \<and> ?N \<and> ?P")
proof (cases "List.find failed_gate (filter verified ps)")
  case (Some p)
  then have "\<not> ?P" using find_some_verified[OF Some] failed_not_ok[of p run] by auto
  moreover have "\<not> ?H" by (simp add: classify_def Let_def Some)
  ultimately show ?thesis by blast
next
  case gate: None
  show ?thesis
  proof (cases "List.find (\<lambda>p. pf_Gate p = architectureDecisionGate \<and> pf_Status p \<noteq> ''pass'') (filter verified ps)")
    case (Some p)
    then have "\<not> ?P" using find_some_verified[OF Some] by (auto simp: proof_ok_def)
    moreover have "\<not> ?H" by (simp add: classify_def Let_def gate Some)
    ultimately show ?thesis by blast
  next
    case arch: None
    let ?blocked = "if er_AuthorKind run = ''agent''
      then List.find (\<lambda>p. pf_Gate p = agentBlockedGate \<and> pf_Status p = ''fail'') (filter verified ps) else None"
    show ?thesis
    proof (cases ?R)
      case True
      then have "\<not> ?H" by (simp add: classify_def Let_def gate arch)
      then show ?thesis using True by blast
    next
      case noreq: False
      show ?thesis
      proof (cases ?blocked)
        case (Some p)
        then have agent: "er_AuthorKind run = ''agent''" by (simp split: if_splits)
        have "\<not> ?P" using Some find_some_verified[of _ ps p] unfolding agent if_True proof_ok_def by force
        moreover have "\<not> ?H" using noreq Some by (simp add: classify_def Let_def gate arch)
        ultimately show ?thesis by blast
      next
        case None
        have ok: "proof_ok run p \<longleftrightarrow> (\<not> synthetic p \<longrightarrow> pf_Status p = ''pass'')" if "p \<in> set (filter verified ps)" for p
          by (rule ok_if_nothing_failed) (use arch None that in \<open>auto simp: find_none_verified\<close>)
        have "?H \<longleftrightarrow> ?N \<and> ?A \<and> (\<forall>p \<in> set (filter verified ps). \<not> synthetic p \<longrightarrow> pf_Status p = ''pass'')"
          unfolding classify_def Let_def gate arch option.case if_not_P[OF noreq] None by auto
        also have "\<dots> \<longleftrightarrow> ?A \<and> ?N \<and> ?P" using ok by blast
        finally show ?thesis using noreq by blast
      qed
    qed
  qed
qed

section \<open>The dashboard\<close>

text \<open>The open runs of an organization as they are stored, by repository and number.\<close>

definition open_runs :: "uuid \<Rightarrow> reviewsdb \<Rightarrow> erun list" where
  "open_runs org d = sort_key er_RepoID (sort_key er_Number (filter (\<lambda>r. er_OrgID r = org \<and> er_State r = ''open'') (runs d)))"

text \<open>What \<open>openRuns\<close> reads of one: not the repository its source is in.\<close>

definition as_read :: "erun \<Rightarrow> erun" where
  "as_read r = r\<lparr>er_SourceRepoID := uuid_Nil\<rparr>"

text \<open>The source of a run is in the repository of its target: the run is not from a fork.\<close>

definition own_source :: "erun \<Rightarrow> bool" where
  "own_source r \<longleftrightarrow> sourceRepo r = er_RepoID r"

text \<open>
  A run is ready: the head of its source, in the repository the source is in, is known and approved by someone other than its author, nobody
  asks for changes of it, and there is machine-made evidence, all of which is in order.
\<close>

definition ready :: "git_service \<Rightarrow> reviewsdb \<Rightarrow> erun \<Rightarrow> bool" where
  "ready git d r \<longleftrightarrow>
     (let head = currentSource git r;
          ps = {p \<in> set (proofs d). pf_RunID p = er_ID r \<and> verified p};
          vs = {v \<in> set (reviews d). rv_RunID v = er_ID r \<and> rv_SourceSHA v = head} in
      head \<noteq> '''' \<and> (\<exists>v \<in> vs. rv_Verdict v = ''approve'' \<and> rv_ReviewerID v \<noteq> er_AuthorID r)
      \<and> (\<forall>v \<in> vs. rv_Verdict v \<noteq> ''request_changes'') \<and> ps \<noteq> {} \<and> (\<forall>p \<in> ps. proof_ok r p))"

definition total :: "summary \<Rightarrow> nat" where
  "total su = su_AgentsRunning su + su_ReadyToAutoMerge su + su_NeedHumanReview su
     + su_ArchitectureDecisions su + su_GateFailures su + su_AgentsBlocked su"

lemma count_category_total [simp]: "total (count_category c su) = Suc (total su)"
  by (cases c) (simp_all add: count_category_def total_def)

lemma count_category_ready [simp]:
  "su_ReadyToAutoMerge (count_category c su) = (if c = Healthy then 1 else 0) + su_ReadyToAutoMerge su"
  by (cases c) (simp_all add: count_category_def)

lemma as_read_source: "own_source r \<Longrightarrow> currentSource git (as_read r) = currentSource git r"
  by (simp add: own_source_def as_read_def currentSource_def sourceHead_def sourceRepo_def)

lemma as_read_ready: "own_source r \<Longrightarrow> ready git d (as_read r) = ready git d r"
  unfolding ready_def as_read_source by (simp add: as_read_def proof_ok_def)

text \<open>The evidence that is read for an open run of the caller's organization.\<close>

definition known_run :: "uuid \<Rightarrow> reviewsdb \<Rightarrow> erun \<Rightarrow> bool" where
  "known_run org d r \<longleftrightarrow> (\<exists>r0 \<in> set (runs d). er_ID r0 = er_ID r \<and> er_OrgID r0 = org)"

lemma open_run_known: "r \<in> set (open_runs org d) \<Longrightarrow> known_run org d (as_read r)"
  by (auto simp: open_runs_def known_run_def as_read_def)

lemma ListReviews_known:
  assumes "known_run (s_OrgID s) (fst w) r" and "ListReviews (Some s) (er_ID r) w = (Inr vs, w')"
  shows "set vs = {v \<in> set (reviews (fst w)). rv_RunID v = er_ID r} \<and> fst w' = fst w"
proof -
  have "(\<exists>r0 \<in> set (runs (fst w)). er_ID r0 = er_ID r \<and> er_OrgID r0 = s_OrgID s) = True"
    using assms(1) by (simp add: known_run_def)
  then show ?thesis using assms(2) by (auto simp: ListReviews_def from_context_def run_simps)
qed

lemma GetRun_caller:
  assumes "GetRun (Some s) rid w = (Inr run, w')"
  shows "fst w' = fst w \<and> er_OrgID run = s_OrgID s"
proof (cases "find_run (s_OrgID s) rid (fst w)")
  case None
  then show ?thesis using assms by (auto simp: GetRun_def from_context_def run_simps)
next
  case (Some r)
  then have "er_OrgID r = s_OrgID s"
    unfolding find_run_def map_option_eq_Some read_run_def by (elim exE conjE) (drule find_Some_in, auto)
  then show ?thesis using assms Some by (auto simp: GetRun_def from_context_def run_simps)
qed

lemma ListProof_known:
  assumes "known_run (s_OrgID s) (fst w) r" and "ListProof (Some s) (er_ID r) w = (Inr ps, w')"
  shows "set ps = {p \<in> set (proofs (fst w)). pf_RunID p = er_ID r} \<and> fst w' = fst w"
proof -
  obtain run w1 where get: "GetRun (Some s) (er_ID r) w = (Inr run, w1)"
    and ps: "ps = sort_key (\<lambda>p. map of_char (pf_Gate p) :: nat list) (filter (\<lambda>p. pf_RunID p = er_ID r
        \<and> (\<exists>r0 \<in> set (runs (fst w1)). er_ID r0 = er_ID r \<and> er_OrgID r0 = er_OrgID run)) (proofs (fst w1)))"
    and w': "fst w' = fst w1"
    using assms(2) by (auto simp: ListProof_def run_simps)
  have "fst w1 = fst w \<and> er_OrgID run = s_OrgID s"
    using GetRun_caller[OF get] by simp
  moreover have "(\<exists>r0 \<in> set (runs (fst w)). er_ID r0 = er_ID r \<and> er_OrgID r0 = s_OrgID s) = True"
    using assms(1) by (simp add: known_run_def)
  ultimately show ?thesis using ps w' by auto
qed

lemma classify_ready:
  assumes "set ps = {p \<in> set (proofs d). pf_RunID p = er_ID r}"
    and "set vs = {v \<in> set (reviews d). rv_RunID v = er_ID r}"
  shows "fst (classify r ps vs (currentSource git r)) = Healthy \<longleftrightarrow> ready git d r"
proof -
  have "set (filter verified ps) = {p \<in> set (proofs d). pf_RunID p = er_ID r \<and> verified p}"
    using assms(1) by auto
  moreover have "filter verified ps \<noteq> [] \<longleftrightarrow> set (filter verified ps) \<noteq> {}" by (metis set_empty)
  ultimately show ?thesis
    unfolding classify_healthy ready_def Let_def current_def by (simp only: assms(2)) blast
qed

definition listed :: "erun \<Rightarrow> string" where
  "listed r = ''run-'' @ dec (er_Number r)"

lemma exceptions_of_runs:
  assumes "exceptions_of git (Some s) rs su xs w = (Inr (su', xs'), w')"
    and "\<forall>r \<in> set rs. known_run (s_OrgID s) (fst w) r"
  shows "fst w' = fst w \<and> total su' = total su + length rs
    \<and> su_ReadyToAutoMerge su' = su_ReadyToAutoMerge su + length (filter (ready git (fst w)) rs)
    \<and> map xi_Key xs' = map xi_Key xs @ map listed (filter (\<lambda>r. \<not> ready git (fst w) r) rs)"
  using assms
proof (induction rs arbitrary: su xs w)
  case Nil
  then show ?case by (auto simp: run_simps)
next
  case (Cons r rs)
  from Cons.prems(2) have r: "known_run (s_OrgID s) (fst w) r" by simp
  from Cons.prems(1) obtain ps w1 vs w2 where ps: "ListProof (Some s) (er_ID r) w = (Inr ps, w1)"
    and vs: "ListReviews (Some s) (er_ID r) w1 = (Inr vs, w2)"
    and rest: "(case classify r ps vs (currentSource git r) of (c, reason) \<Rightarrow>
         exceptions_of git (Some s) rs (count_category c su) (if c = Healthy then xs
            else xs @ [\<lparr>xi_Key = ''run-'' @ dec (er_Number r), xi_Title = er_Title r, xi_State = er_State r, xi_Reason = reason\<rparr>])) w2
       = (Inr (su', xs'), w')"
    by (auto simp: run_simps)
  obtain c reason where c: "classify r ps vs (currentSource git r) = (c, reason)" by fastforce
  note p = ListProof_known[OF r ps]
  have v: "set vs = {v \<in> set (reviews (fst w)). rv_RunID v = er_ID r} \<and> fst w2 = fst w"
    using ListReviews_known[where r = r and s = s and w = w1, OF _ vs] r vs p by simp
  have cat: "c = Healthy \<longleftrightarrow> ready git (fst w) r"
    using classify_ready[of ps "fst w" r vs git] p v c by simp
  show ?case
    using Cons.IH[OF rest[unfolded c prod.case]] Cons.prems(2) v cat by (simp add: listed_def split: if_splits)
qed

text \<open>
  C11. When no open run of the caller's organization is from a fork, the exception dashboard counts every
  open run once, in one of its six counters. The runs counted as ready are exactly those whose current source is known, is
  approved by someone other than the author with no request for changes, and carries machine-made
  evidence that is all in order; every other open run is listed, once and in order, and the
  dashboard changes nothing. A run from a fork is judged by the branch of that name in the target
  repository instead (\<open>fork_is_judged_by_the_target\<close>): \<open>openRuns\<close> does not read where its source is.
\<close>

theorem dashboard_is_exact:
  assumes "Exceptions git (Some s) org w = (Inr (su, xs), w')" and "\<forall>r \<in> set (open_runs org (fst w)). own_source r"
  defines "rs \<equiv> open_runs org (fst w)"
  shows "org = s_OrgID s \<and> fst w' = fst w \<and> total su = length rs
    \<and> su_ReadyToAutoMerge su = length (filter (ready git (fst w)) rs)
    \<and> map xi_Key xs = map listed (filter (\<lambda>r. \<not> ready git (fst w) r) rs)"
proof -
  from assms(1) have org: "org = s_OrgID s"
    by (auto simp: Exceptions_def run_simps require_org_def RequireOrg_def map_sum_def split: if_splits)
  from assms(1) obtain w1 where x: "exceptions_of git (Some s) (map as_read rs) no_exceptions [] w1 = (Inr (su, xs), w')" and w1: "fst w1 = fst w"
    unfolding rs_def by (auto simp: Exceptions_def openRuns_def open_runs_def as_read_def[abs_def] run_simps require_org_def)
  have "ready git (fst w) (as_read r) = ready git (fst w) r" if "r \<in> set rs" for r
    using that assms(2) as_read_ready unfolding rs_def by blast
  then have f: "filter (ready git (fst w) \<circ> as_read) rs = filter (ready git (fst w)) rs"
      "filter ((\<lambda>r. \<not> ready git (fst w) r) \<circ> as_read) rs = filter (\<lambda>r. \<not> ready git (fst w) r) rs"
    by (auto intro: filter_cong)
  have "\<forall>r \<in> set (map as_read rs). known_run (s_OrgID s) (fst w1) r" using open_run_known org w1 by (auto simp: rs_def)
  from exceptions_of_runs[OF x this] show ?thesis using org w1 f
    by (simp add: filter_map comp_def listed_def as_read_def total_def no_exceptions_def)
qed

section \<open>An example\<close>

definition xex_git :: git_service where
  "xex_git = \<lparr>git_repos = Inr [(10, ''r'')], git_branches = (\<lambda>_. Inr [(''main'', ''bb''), (''topic'', ''aa'')]),
     git_commits = (\<lambda>_ ref. Inr [if ref = ''main'' then ''bb'' else ''aa'']),
     git_tree = (\<lambda>_ _ _. Inr []), git_blob = (\<lambda>_ _ _. Inl NotFound),
     git_diff_of = (\<lambda>_ _ _ _. Inr \<lparr>df_Unified = '''', df_Paths = [], df_Complete = True\<rparr>), git_merge = (\<lambda>_. Inl Internal)\<rparr>"

definition xex_run :: "uuid \<Rightarrow> erun" where
  "xex_run i = \<lparr>er_ID = i, er_OrgID = 1, er_RepoID = 10, er_SourceRepoID = 10, er_WorkItemID = 0, er_Number = i,
     er_Title = ''t'', er_SourceRef = ''topic'', er_TargetRef = ''main'', er_State = ''open'', er_AuthorID = 7,
     er_AuthorKind = ''user'', er_AgentName = '''', er_ModelName = '''', er_CreatedAt = 0\<rparr>"

definition xex_db :: reviewsdb where
  "xex_db = \<lparr>runs = [xex_run 1, xex_run 2], plan_steps = [],
     proofs = [\<lparr>pf_RunID = 1, pf_Gate = ''tests'', pf_Status = ''pass'', pf_Detail = '''', pf_RecordedAt = 2,
       pf_Producer = ''ci'', pf_ActorID = 9\<rparr>],
     proof_audit = [], comments = [],
     reviews = [\<lparr>rv_SourceSHA = ''aa'', rv_Summary = '''', rv_RunID = 1, rv_ReviewerID = 8, rv_ReviewerKind = ''user'',
       rv_Verdict = ''approve'', rv_CreatedAt = 4\<rparr>],
     requests = [], executions = [], outbox = []\<rparr>"

definition xex_scope :: scope where
  "xex_scope = \<lparr>s_OrgID = 1, s_ActorID = 8, s_ActorKind = ''user'', s_ServiceName = '''', s_Role = ''owner'', s_PlatformWorker = '''',
     s_RepoLimited = False, s_Repos = Map.empty\<rparr>"

definition xex_summary :: summary where
  "xex_summary = no_exceptions\<lparr>su_ReadyToAutoMerge := 1, su_NeedHumanReview := 1\<rparr>"

lemma xex_dashboard:
  "Exceptions xex_git (Some xex_scope) 1 (xex_db, []) =
     (Inr (xex_summary, [\<lparr>xi_Key = ''run-2'', xi_Title = ''t'', xi_State = ''open'',
        xi_Reason = ''awaiting independent review of current source''\<rparr>]), (xex_db, []))"
  by code_simp

theorem dashboard_is_exact_witness:
  "map listed (filter (\<lambda>r. \<not> ready xex_git xex_db r) (open_runs 1 xex_db)) = [''run-2'']"
proof -
  have "\<forall>r \<in> set (open_runs 1 (fst (xex_db, []))). own_source r" by code_simp
  from dashboard_is_exact[OF xex_dashboard this] show ?thesis by simp
qed

text \<open>
  A run from a fork whose current source is approved and in order is not counted as ready: its approval is
  compared with the head of the target repository's own branch of that name.
\<close>

definition xex_fork_git :: git_service where
  "xex_fork_git = xex_git\<lparr>git_commits := (\<lambda>repo ref. Inr [if ref = ''main'' then ''bb'' else if repo = 11 then ''aa'' else ''cc''])\<rparr>"

definition xex_fork_db :: reviewsdb where
  "xex_fork_db = xex_db\<lparr>runs := [(xex_run 1)\<lparr>er_SourceRepoID := 11\<rparr>]\<rparr>"

lemma fork_is_judged_by_the_target:
  "list_all (ready xex_fork_git xex_fork_db) (open_runs 1 xex_fork_db)
    \<and> map_sum id (\<lambda>(su, xs). (su_ReadyToAutoMerge su, map xi_Key xs)) (fst (Exceptions xex_fork_git (Some xex_scope) 1 (xex_fork_db, [])))
       = Inr (0, [''run-1''])"
  by code_simp

end
