(* ===== verification/NF_CI.thy ===== *)
theory NF_CI
  imports NF_WorkStore
begin

text \<open>
  The store of continuous integration (\<open>internal/ci\<close>: store, reservation, connections, runner
  journal, credential outbox, artifacts, retention of logs). Its tables with the constraints and
  triggers of its migrations, the object store its logs and artifacts are kept in, and every operation
  on them. An identifier that is drawn and the instant of a call are arguments; a null text column
  reads as the empty string.
\<close>

section \<open>Tables\<close>

record ci_run =
  cr_ID :: uuid
  cr_OrgID :: uuid
  cr_RepoID :: uuid
  cr_RepoName :: string
  cr_CommitSHA :: string
  cr_Ref :: string
  cr_Status :: string
  cr_CreatedAt :: time
  cr_TriggeredBy :: uuid

record wf_job =
  cj_ID :: uuid
  cj_RunID :: uuid
  cj_Name :: string
  cj_Needs :: "string list"
  cj_RunCmd :: string
  cj_AgentRole :: string
  cj_Image :: string
  cj_Status :: string
  cj_ArtifactPaths :: "string list"
  cj_RunnerID :: "uuid option"
  cj_Detail :: string
  cj_StartedAt :: "time option"
  cj_FinishedAt :: "time option"
  cj_AgentRunID :: "uuid option"
  cj_WorkItemKey :: string
  cj_Secrets :: "string list"
  cj_Environment :: string
  cj_NotBefore :: "time option"
  cj_ConnectionID :: "uuid option"
  cj_Journal :: bool
  cj_LogSequence :: int
  cj_Receipt :: "string option"
  cj_SealPending :: bool
  cj_Retired :: bool
  cj_SealAttempted :: "time option"

record runner =
  ru_ID :: uuid
  ru_OrgID :: uuid
  ru_Name :: string
  ru_Labels :: "string list"
  ru_TokenHash :: string
  ru_LastSeen :: time
  ru_ConnectionID :: "uuid option"

text \<open>The outbox of credentials to revoke: \<open>preparing\<close>, \<open>dispatched\<close>, then \<open>cleanup\<close>.\<close>

record credential =
  cc_OrgID :: uuid
  cc_JobID :: uuid
  cc_AttemptID :: uuid
  cc_Phase :: string
  cc_ReadyAt :: time
  cc_Leases :: "uuid list"

record log_line =
  ll_JobID :: uuid
  ll_Sequence :: int
  ll_Line :: string
  ll_Digest :: string

record artifact =
  af_ID :: uuid
  af_OrgID :: uuid
  af_JobID :: uuid
  af_Name :: string
  af_Size :: int
  af_ObjectKey :: string
  af_CreatedAt :: time
  af_Digest :: string

record ci_event =
  ce_RunID :: uuid
  ce_OrgID :: uuid
  ce_State :: string
  ce_Previous :: string

record policy =
  rp_OrgID :: uuid
  rp_LogDays :: int
  rp_EvidenceDays :: int

text \<open>
  \<open>ci_blobs\<close> is the object store, by key; \<open>ci_live\<close> are the entries of the live log streams in Redis, each
  with its identifier, its job and its line.
\<close>

record cidb =
  ci_runs :: "ci_run list"
  ci_jobs :: "wf_job list"
  ci_runners :: "runner list"
  ci_credentials :: "credential list"
  ci_lines :: "log_line list"
  ci_artifacts :: "artifact list"
  ci_events :: "ci_event list"
  ci_policies :: "policy list"
  ci_blobs :: "(string \<times> string) list"
  ci_live :: "(nat \<times> uuid \<times> string) list"

datatype cierr =
    CINoRows
  | NoClaimableJob
  | InvalidJobStatus string
  | JobNotFound
  | NoDispatchClaim
  | NotDispatchable
  | ConnectionRequired
  | ConnectionSuperseded
  | InvalidLogFrame
  | ReplayConflicts
  | AdmissionClosed
  | InvalidReceipt
  | ReceiptConflicts
  | LogBarrier
  | LogNotClosed
  | LogRetired
  | BlobFailed
  | RedisFailed
  | CleanupIntentMissing
  | WorkerRequired
  | CredentialsUnavailable
  | CredentialsDenied
  | CleanupPending
  | CleanupRPC
  | Cancelled
  | ArtifactSuperseded
  | ArtifactConflicts
  | ArtifactExists
  | RetentionAuthority
  | GenerationMismatch
  | RetentionIntentMissing
  | PurgeScope
  | NoWorkflow
  | InvalidWorkflow
  | Peer grpc_code
  | Reply grpc_code

type_synonym 'a ci_op = "(cidb, cierr fault, 'a) op"

section \<open>Constraints and triggers\<close>

definition ci_run_states :: "string list" where
  "ci_run_states = [''queued'', ''running'', ''success'', ''failure'', ''cancelled'']"

definition validJobStatuses :: "string list" where
  "validJobStatuses = [''pending'', ''running'', ''success'', ''failure'', ''cancelled'']"

definition terminalJobStatus :: "string \<Rightarrow> bool" where
  "terminalJobStatus s \<longleftrightarrow> s = ''success'' \<or> s = ''failure'' \<or> s = ''cancelled''"

text \<open>\<open>repository_event\<close>: a run that is inserted in, or changes to, a final state is announced.\<close>

definition run_event :: "string \<Rightarrow> ci_run \<Rightarrow> ci_event list" where
  "run_event previous r =
     (if terminalJobStatus (cr_Status r) \<and> cr_Status r \<noteq> previous
      then [\<lparr>ce_RunID = cr_ID r, ce_OrgID = cr_OrgID r, ce_State = cr_Status r, ce_Previous = previous\<rparr>] else [])"

definition update_ci_runs :: "(ci_run \<Rightarrow> bool) \<Rightarrow> string \<Rightarrow> cidb \<Rightarrow> sqlerr + (nat \<times> cidb)" where
  "update_ci_runs P st d =
     (if affected P (ci_runs d) > 0 \<and> st \<notin> set ci_run_states then Inl CheckViolation
      else Inr (affected P (ci_runs d), d\<lparr>ci_runs := update_rows P (\<lambda>r. r\<lparr>cr_Status := st\<rparr>) (ci_runs d),
        ci_events := ci_events d @ concat (map (\<lambda>r. run_event (cr_Status r) (r\<lparr>cr_Status := st\<rparr>)) (filter P (ci_runs d)))\<rparr>))"

text \<open>The insert with \<open>ON CONFLICT (repo_id, commit_sha, ref) DO NOTHING\<close>.\<close>

definition insert_ci_run :: "ci_run \<Rightarrow> cidb \<Rightarrow> sqlerr + (ci_run option \<times> cidb)" where
  "insert_ci_run r d =
     (if cr_Status r \<notin> set ci_run_states then Inl CheckViolation
      else if \<exists>q \<in> set (ci_runs d). cr_RepoID q = cr_RepoID r \<and> cr_CommitSHA q = cr_CommitSHA r \<and> cr_Ref q = cr_Ref r
        then Inr (None, d)
      else if cr_ID r \<in> cr_ID ` set (ci_runs d) then Inl UniqueViolation
      else Inr (Some r, d\<lparr>ci_runs := ci_runs d @ [r], ci_events := ci_events d @ run_event '''' r\<rparr>))"

definition insert_job :: "wf_job \<Rightarrow> cidb \<Rightarrow> sqlerr + (unit \<times> cidb)" where
  "insert_job j d =
     (if cj_Status j \<notin> set validJobStatuses then Inl CheckViolation
      else if cj_ID j \<in> cj_ID ` set (ci_jobs d) then Inl UniqueViolation
      else if \<exists>k \<in> set (ci_jobs d). cj_RunID k = cj_RunID j \<and> cj_Name k = cj_Name j then Inl UniqueViolation
      else if cj_RunID j \<notin> cr_ID ` set (ci_runs d) then Inl ForeignKeyViolation
      else Inr ((), d\<lparr>ci_jobs := ci_jobs d @ [j]\<rparr>))"

text \<open>\<open>fence_job_credentials\<close> for one job of an organization: every attempt, and the job itself, is to be cleaned up.\<close>

definition same_cleanup :: "uuid \<Rightarrow> uuid \<Rightarrow> uuid \<Rightarrow> credential \<Rightarrow> bool" where
  "same_cleanup org job att c \<longleftrightarrow> cc_OrgID c = org \<and> cc_JobID c = job \<and> cc_AttemptID c = att"

definition fence_job :: "time \<Rightarrow> uuid \<Rightarrow> uuid \<Rightarrow> credential list \<Rightarrow> credential list" where
  "fence_job now org job cs =
     update_rows (\<lambda>c. cc_OrgID c = org \<and> cc_JobID c = job) (\<lambda>c. c\<lparr>cc_Phase := ''cleanup'', cc_ReadyAt := now\<rparr>)
       (if \<exists>c \<in> set cs. same_cleanup org job uuid_Nil c then cs
        else cs @ [\<lparr>cc_OrgID = org, cc_JobID = job, cc_AttemptID = uuid_Nil, cc_Phase = ''cleanup'', cc_ReadyAt = now,
                   cc_Leases = []\<rparr>])"

definition run_of :: "cidb \<Rightarrow> wf_job \<Rightarrow> ci_run option" where
  "run_of d j = List.find (\<lambda>r. cr_ID r = cj_RunID j) (ci_runs d)"

definition fence_row :: "time \<Rightarrow> cidb \<Rightarrow> wf_job \<Rightarrow> credential list \<Rightarrow> credential list" where
  "fence_row now d j cs =
     (if cj_Secrets j = [] then cs
      else case run_of d j of None \<Rightarrow> cs | Some r \<Rightarrow> fence_job now (cr_OrgID r) (cj_ID j) cs)"

text \<open>
  An update that names the status column: a final job cannot resume, and a job that is given a final
  state has its credentials fenced in the same statement.
\<close>

definition update_jobs :: "(wf_job \<Rightarrow> bool) \<Rightarrow> (wf_job \<Rightarrow> wf_job) \<Rightarrow> time \<Rightarrow> cidb \<Rightarrow> sqlerr + (nat \<times> cidb)" where
  "update_jobs P f now d =
     (if \<exists>j \<in> set (ci_jobs d). P j \<and> (cj_Status (f j) \<notin> set validJobStatuses
          \<or> terminalJobStatus (cj_Status j) \<and> \<not> terminalJobStatus (cj_Status (f j))) then Inl CheckViolation
      else Inr (affected P (ci_jobs d), d\<lparr>ci_jobs := update_rows P f (ci_jobs d),
        ci_credentials := fold (fence_row now d) (filter (\<lambda>j. P j \<and> terminalJobStatus (cj_Status (f j))) (ci_jobs d)) (ci_credentials d)\<rparr>))"

text \<open>An update of other columns.\<close>

definition change_jobs :: "(wf_job \<Rightarrow> bool) \<Rightarrow> (wf_job \<Rightarrow> wf_job) \<Rightarrow> cidb \<Rightarrow> nat \<times> cidb" where
  "change_jobs P f d = (affected P (ci_jobs d), d\<lparr>ci_jobs := update_rows P f (ci_jobs d)\<rparr>)"

text \<open>Deleting runs takes their jobs, lines and artifacts with them, and fences the credentials first.\<close>

definition delete_ci_runs :: "(ci_run \<Rightarrow> bool) \<Rightarrow> time \<Rightarrow> cidb \<Rightarrow> nat \<times> cidb" where
  "delete_ci_runs P now d =
     (let doomed = (\<lambda>j. \<exists>r \<in> set (ci_runs d). P r \<and> cr_ID r = cj_RunID j);
          gone = cj_ID ` set (filter doomed (ci_jobs d)) in
      (affected P (ci_runs d),
       d\<lparr>ci_runs := filter (\<lambda>r. \<not> P r) (ci_runs d),
         ci_jobs := filter (\<lambda>j. \<not> doomed j) (ci_jobs d),
         ci_credentials := fold (fence_row now d) (filter doomed (ci_jobs d)) (ci_credentials d),
         ci_lines := filter (\<lambda>l. ll_JobID l \<notin> gone) (ci_lines d),
         ci_artifacts := filter (\<lambda>a. af_JobID a \<notin> gone) (ci_artifacts d)\<rparr>))"

definition find_job :: "uuid \<Rightarrow> cidb \<Rightarrow> wf_job option" where
  "find_job jid d = List.find (\<lambda>j. cj_ID j = jid) (ci_jobs d)"

section \<open>Runs and jobs\<close>

text \<open>The run is \<open>None\<close> where the source reports that none was created.\<close>

definition CreateRun :: "uuid \<Rightarrow> time \<Rightarrow> ci_run \<Rightarrow> ci_run option ci_op" where
  "CreateRun new_id now run0 =
     (let run1 = (if cr_ID run0 = uuid_Nil then run0\<lparr>cr_ID := new_id\<rparr> else run0);
          run = (if cr_Status run1 = '''' then run1\<lparr>cr_Status := ''queued''\<rparr> else run1) in
      stmt Sql (insert_ci_run (run\<lparr>cr_CreatedAt := now\<rparr>)))"

definition DeleteRun :: "time \<Rightarrow> uuid \<Rightarrow> unit ci_op" where
  "DeleteRun now rid = bnd (update Sql (delete_ci_runs (\<lambda>r. cr_ID r = rid) now)) (\<lambda>_. ret ())"

text \<open>The columns the readers select.\<close>

definition read_run :: "ci_run \<Rightarrow> ci_run" where
  "read_run r = r\<lparr>cr_RepoName := '''', cr_TriggeredBy := uuid_Nil\<rparr>"

definition read_job :: "wf_job \<Rightarrow> wf_job" where
  "read_job j = j\<lparr>cj_ArtifactPaths := [], cj_NotBefore := None, cj_ConnectionID := None, cj_Journal := False,
     cj_LogSequence := 0, cj_Receipt := None, cj_SealPending := False, cj_Retired := False, cj_SealAttempted := None\<rparr>"

definition GetRun :: "ctx \<Rightarrow> uuid \<Rightarrow> ci_run ci_op" where
  "GetRun ctx rid =
     bnd (from_context ctx) (\<lambda>scope.
     bnd (query Sql (\<lambda>d. List.find (\<lambda>r. cr_OrgID r = s_OrgID scope \<and> cr_ID r = rid) (ci_runs d))) (\<lambda>row.
     case row of None \<Rightarrow> fail (App CINoRows) | Some r \<Rightarrow> ret (read_run r)))"

definition GetRunForCommit :: "ctx \<Rightarrow> uuid \<Rightarrow> string \<Rightarrow> string \<Rightarrow> ci_run ci_op" where
  "GetRunForCommit ctx repoID sha ref =
     bnd (from_context ctx) (\<lambda>scope.
     bnd (query Sql (\<lambda>d. List.find (\<lambda>r. cr_OrgID r = s_OrgID scope \<and> cr_RepoID r = repoID \<and> cr_CommitSHA r = sha
       \<and> cr_Ref r = ref) (ci_runs d))) (\<lambda>row.
     case row of None \<Rightarrow> fail (App CINoRows) | Some r \<Rightarrow> ret (read_run r)))"

definition ListRuns :: "ctx \<Rightarrow> uuid \<Rightarrow> uuid \<Rightarrow> ci_run list ci_op" where
  "ListRuns ctx orgID repoID =
     bnd (require_org ctx orgID) (\<lambda>_.
     query Sql (\<lambda>d. map read_run (sort_key (\<lambda>r. - cr_CreatedAt r)
       (filter (\<lambda>r. cr_OrgID r = orgID \<and> cr_RepoID r = repoID) (ci_runs d)))))"

definition CreateJob :: "uuid \<Rightarrow> wf_job \<Rightarrow> wf_job ci_op" where
  "CreateJob new_id job0 =
     (let j1 = (if cj_ID job0 = uuid_Nil then job0\<lparr>cj_ID := new_id\<rparr> else job0);
          j2 = (if cj_Status j1 = '''' then j1\<lparr>cj_Status := ''pending''\<rparr> else j1);
          j3 = (if cj_Environment j2 = '''' then j2\<lparr>cj_Environment := ''staging''\<rparr> else j2);
          row = j3\<lparr>cj_RunnerID := None, cj_Detail := '''', cj_StartedAt := None, cj_FinishedAt := None, cj_AgentRunID := None,
            cj_WorkItemKey := '''', cj_NotBefore := None, cj_ConnectionID := None, cj_Journal := False, cj_LogSequence := 0,
            cj_Receipt := None, cj_SealPending := False, cj_Retired := False, cj_SealAttempted := None\<rparr> in
      bnd (stmt Sql (insert_job row)) (\<lambda>_. ret j3))"

definition needs_met :: "cidb \<Rightarrow> wf_job \<Rightarrow> bool" where
  "needs_met d j \<longleftrightarrow> (\<forall>need \<in> set (cj_Needs j).
     \<exists>k \<in> set (ci_jobs d). cj_RunID k = cj_RunID j \<and> cj_Name k = need \<and> cj_Status k = ''success'')"

definition lowest :: "('r \<Rightarrow> uuid) \<Rightarrow> 'r list \<Rightarrow> 'r option" where
  "lowest key rs = (case sort_key key rs of [] \<Rightarrow> None | r # _ \<Rightarrow> Some r)"

definition ClaimJob :: "time \<Rightarrow> uuid \<Rightarrow> string list \<Rightarrow> wf_job ci_op" where
  "ClaimJob now runnerID labels =
     tx Sql (
       bnd (query Sql (\<lambda>d. lowest cj_ID (filter (\<lambda>j. cj_Status j = ''pending'' \<and> cj_RunnerID j = None
         \<and> cj_AgentRole j = '''' \<and> needs_met d j) (ci_jobs d)))) (\<lambda>row.
       case row of
         None \<Rightarrow> fail (App NoClaimableJob)
       | Some j \<Rightarrow>
           bnd (stmt Sql (update_jobs (\<lambda>k. cj_ID k = cj_ID j)
                 (\<lambda>k. k\<lparr>cj_Status := ''running'', cj_RunnerID := Some runnerID, cj_StartedAt := Some now\<rparr>) now)) (\<lambda>_.
           ret (Commit ((read_job j)\<lparr>cj_Status := ''running'', cj_RunnerID := Some runnerID, cj_Detail := '''',
             cj_StartedAt := None, cj_FinishedAt := None, cj_AgentRunID := None, cj_WorkItemKey := '''', cj_Secrets := [],
             cj_Environment := ''''\<rparr>)))))"

text \<open>
  The run a job belongs to is settled once none of its jobs is pending or running; the transaction
  commits only when the job has a run.
\<close>

definition unfinished_run :: "cidb \<Rightarrow> uuid \<Rightarrow> bool" where
  "unfinished_run d rid \<longleftrightarrow> (\<exists>k \<in> set (ci_jobs d). cj_RunID k = rid \<and> (cj_Status k = ''pending'' \<or> cj_Status k = ''running''))"

definition bad_run :: "cidb \<Rightarrow> uuid \<Rightarrow> bool" where
  "bad_run d rid \<longleftrightarrow> (\<exists>k \<in> set (ci_jobs d). cj_RunID k = rid \<and> (cj_Status k = ''failure'' \<or> cj_Status k = ''cancelled''))"

definition settle :: "uuid \<Rightarrow> cidb \<Rightarrow> sqlerr + (nat \<times> cidb)" where
  "settle rid d = update_ci_runs (\<lambda>r. cr_ID r = rid \<and> \<not> unfinished_run d rid \<and> \<not> terminalJobStatus (cr_Status r))
     (if bad_run d rid then ''failure'' else ''success'') d"

definition rollUpRunStatus :: "uuid \<Rightarrow> unit ci_op" where
  "rollUpRunStatus jid =
     tx Sql (
       bnd (query Sql (\<lambda>d. case find_job jid d of None \<Rightarrow> None | Some j \<Rightarrow> map_option cr_ID (run_of d j))) (\<lambda>row.
       case row of
         None \<Rightarrow> ret (Abort ())
       | Some rid \<Rightarrow> bnd (stmt Sql (settle rid)) (\<lambda>_. ret (Commit ()))))"

definition SetJobStatus :: "time \<Rightarrow> uuid \<Rightarrow> string \<Rightarrow> string \<Rightarrow> unit ci_op" where
  "SetJobStatus now jid st detail =
     (if st \<notin> set validJobStatuses then fail (App (InvalidJobStatus st))
      else bnd (stmt Sql (update_jobs (\<lambda>j. cj_ID j = jid)
             (\<lambda>j. j\<lparr>cj_Status := st,
                    cj_FinishedAt := (if terminalJobStatus st then Some now else cj_FinishedAt j),
                    cj_Detail := (if detail \<noteq> '''' then detail else cj_Detail j)\<rparr>) now)) (\<lambda>n.
           if n = 0 then fail (App JobNotFound)
           else if terminalJobStatus st then rollUpRunStatus jid else ret ()))"

definition GetJob :: "uuid \<Rightarrow> wf_job ci_op" where
  "GetJob jid = bnd (query Sql (find_job jid)) (\<lambda>row. case row of None \<Rightarrow> fail (App CINoRows) | Some j \<Rightarrow> ret (read_job j))"

definition ListJobsForRun :: "uuid \<Rightarrow> wf_job list ci_op" where
  "ListJobsForRun rid = query Sql (\<lambda>d. map read_job (sort_key (\<lambda>j. map of_char (cj_Name j) :: nat list)
     (filter (\<lambda>j. cj_RunID j = rid) (ci_jobs d))))"

definition ActiveJobsForRunner :: "uuid \<Rightarrow> uuid list ci_op" where
  "ActiveJobsForRunner runnerID = query Sql (\<lambda>d. map cj_ID (filter (\<lambda>j. cj_RunnerID j = Some runnerID
     \<and> (cj_Status j = ''pending'' \<or> cj_Status j = ''running'')) (ci_jobs d)))"

section \<open>Runners and dispatch\<close>

definition insert_runner :: "runner \<Rightarrow> cidb \<Rightarrow> sqlerr + (unit \<times> cidb)" where
  "insert_runner n d =
     (if ru_ID n \<in> ru_ID ` set (ci_runners d) \<or> ru_TokenHash n \<in> ru_TokenHash ` set (ci_runners d) then Inl UniqueViolation
      else Inr ((), d\<lparr>ci_runners := ci_runners d @ [n]\<rparr>))"

definition RegisterRunner :: "uuid \<Rightarrow> time \<Rightarrow> uuid \<Rightarrow> string \<Rightarrow> string list \<Rightarrow> string \<Rightarrow> uuid ci_op" where
  "RegisterRunner new_id now orgID name labels tokenHash =
     bnd (stmt Sql (insert_runner \<lparr>ru_ID = new_id, ru_OrgID = orgID, ru_Name = name, ru_Labels = labels,
       ru_TokenHash = tokenHash, ru_LastSeen = now, ru_ConnectionID = None\<rparr>)) (\<lambda>_. ret new_id)"

definition find_runner :: "uuid \<Rightarrow> cidb \<Rightarrow> runner option" where
  "find_runner nid d = List.find (\<lambda>n. ru_ID n = nid) (ci_runners d)"

definition RunnerTokenHash :: "uuid \<Rightarrow> (uuid \<times> string) ci_op" where
  "RunnerTokenHash runnerID = bnd (query Sql (find_runner runnerID)) (\<lambda>row.
     case row of None \<Rightarrow> fail (App CINoRows) | Some n \<Rightarrow> ret (ru_OrgID n, ru_TokenHash n))"

definition RunnerLabels :: "uuid \<Rightarrow> string list ci_op" where
  "RunnerLabels runnerID = bnd (query Sql (find_runner runnerID)) (\<lambda>row.
     case row of None \<Rightarrow> fail (App CINoRows) | Some n \<Rightarrow> ret (ru_Labels n))"

definition change_runners :: "(runner \<Rightarrow> bool) \<Rightarrow> (runner \<Rightarrow> runner) \<Rightarrow> cidb \<Rightarrow> nat \<times> cidb" where
  "change_runners P f d = (affected P (ci_runners d), d\<lparr>ci_runners := update_rows P f (ci_runners d)\<rparr>)"

definition TouchRunner :: "time \<Rightarrow> uuid \<Rightarrow> unit ci_op" where
  "TouchRunner now runnerID =
     bnd (update Sql (change_runners (\<lambda>n. ru_ID n = runnerID) (\<lambda>n. n\<lparr>ru_LastSeen := now\<rparr>))) (\<lambda>_. ret ())"

record dispatch_job =
  dj_ConnectionID :: uuid
  dj_JobID :: uuid
  dj_RunID :: uuid
  dj_RepoCloneURL :: string
  dj_CommitSHA :: string
  dj_RunCmd :: string
  dj_AgentRole :: string
  dj_Image :: string
  dj_ArtifactPaths :: "string list"
  dj_Secrets :: "string list"
  dj_Environment :: string
  dj_RepoID :: uuid
  dj_Ref :: string
  dj_SecretEnv :: "(string \<times> string) list"

text \<open>A job a runner may be given: one of its own organization, never an agent's.\<close>

definition dispatchable :: "time \<Rightarrow> runner \<Rightarrow> cidb \<Rightarrow> wf_job \<Rightarrow> bool" where
  "dispatchable now n d j \<longleftrightarrow>
     (\<exists>r \<in> set (ci_runs d). cr_ID r = cj_RunID j \<and> cr_OrgID r = ru_OrgID n)
     \<and> cj_Status j = ''pending'' \<and> cj_RunnerID j = None \<and> (case cj_NotBefore j of None \<Rightarrow> True | Some t \<Rightarrow> t \<le> now)
     \<and> cj_AgentRole j = '''' \<and> needs_met d j"

definition dispatch_of :: "wf_job \<Rightarrow> ci_run \<Rightarrow> uuid option \<Rightarrow> dispatch_job" where
  "dispatch_of j r connection = \<lparr>dj_ConnectionID = (case connection of None \<Rightarrow> uuid_Nil | Some c \<Rightarrow> c), dj_JobID = cj_ID j,
     dj_RunID = cj_RunID j, dj_RepoCloneURL = cr_RepoName r, dj_CommitSHA = cr_CommitSHA r, dj_RunCmd = cj_RunCmd j,
     dj_AgentRole = cj_AgentRole j, dj_Image = cj_Image j, dj_ArtifactPaths = cj_ArtifactPaths j, dj_Secrets = cj_Secrets j,
     dj_Environment = cj_Environment j, dj_RepoID = cr_RepoID r, dj_Ref = cr_Ref r, dj_SecretEnv = []\<rparr>"

definition ClaimForDispatch :: "time \<Rightarrow> uuid \<Rightarrow> string list \<Rightarrow> uuid list \<Rightarrow> (dispatch_job \<times> uuid) ci_op" where
  "ClaimForDispatch now runnerID labels connections =
     tx Sql (
       bnd (query Sql (find_runner runnerID)) (\<lambda>row.
       case row of
         None \<Rightarrow> fail (App CINoRows)
       | Some n \<Rightarrow>
           if connections \<noteq> [] \<and> hd connections \<noteq> uuid_Nil \<and> ru_ConnectionID n \<noteq> Some (hd connections) then fail (App NoClaimableJob)
           else bnd (query Sql (\<lambda>d. case lowest cj_ID (filter (dispatchable now n d) (ci_jobs d)) of
                  None \<Rightarrow> None | Some j \<Rightarrow> map_option (Pair j) (run_of d j))) (\<lambda>claimed.
                case claimed of
                  None \<Rightarrow> fail (App NoClaimableJob)
                | Some (j, r) \<Rightarrow>
                    bnd (update Sql (change_jobs (\<lambda>k. cj_ID k = cj_ID j)
                      (\<lambda>k. k\<lparr>cj_RunnerID := Some runnerID, cj_ConnectionID := ru_ConnectionID n,
                             cj_Journal := (ru_ConnectionID n \<noteq> None)\<rparr>))) (\<lambda>_.
                    ret (Commit (dispatch_of j r (ru_ConnectionID n), cr_OrgID r))))))"

definition BlockJob :: "time \<Rightarrow> uuid \<Rightarrow> string \<Rightarrow> time \<Rightarrow> unit ci_op" where
  "BlockJob now jid detail until =
     bnd (stmt Sql (update_jobs (\<lambda>j. cj_ID j = jid \<and> (cj_Status j = ''pending'' \<or> cj_Status j = ''running'') \<and> cj_RunnerID j \<noteq> None)
       (\<lambda>j. j\<lparr>cj_Status := ''pending'', cj_RunnerID := None, cj_StartedAt := None, cj_Detail := detail, cj_NotBefore := Some until\<rparr>)
       now)) (\<lambda>n.
     if n = 0 then fail (App NoDispatchClaim) else ret ())"

text \<open>The update returns the run of the job, or no row.\<close>

definition start_job :: "uuid \<Rightarrow> uuid \<Rightarrow> time \<Rightarrow> cidb \<Rightarrow> sqlerr + (uuid option \<times> cidb)" where
  "start_job jid runnerID now d =
     (let P = (\<lambda>j. cj_ID j = jid \<and> cj_RunnerID j = Some runnerID \<and> cj_Status j = ''pending'') in
      map_sum id (apfst (\<lambda>_. map_option cj_RunID (List.find P (ci_jobs d))))
        (update_jobs P (\<lambda>j. j\<lparr>cj_Status := ''running'', cj_StartedAt := Some now, cj_Detail := '''', cj_NotBefore := None\<rparr>) now d))"

definition change_credentials :: "(credential \<Rightarrow> bool) \<Rightarrow> (credential \<Rightarrow> credential) \<Rightarrow> cidb \<Rightarrow> nat \<times> cidb" where
  "change_credentials P f d = (affected P (ci_credentials d), d\<lparr>ci_credentials := update_rows P f (ci_credentials d)\<rparr>)"

definition start_run :: "uuid \<Rightarrow> cidb \<Rightarrow> sqlerr + (nat \<times> cidb)" where
  "start_run rid = update_ci_runs (\<lambda>r. cr_ID r = rid \<and> cr_Status r = ''queued'') ''running''"

definition StartClaimedJob :: "time \<Rightarrow> uuid \<Rightarrow> uuid \<Rightarrow> uuid list \<Rightarrow> unit ci_op" where
  "StartClaimedJob now jid runnerID attempts =
     tx Sql (
       bnd (stmt Sql (start_job jid runnerID now)) (\<lambda>row.
       case row of
         None \<Rightarrow> fail (App CINoRows)
       | Some rid \<Rightarrow>
           bnd (if attempts \<noteq> [] \<and> hd attempts \<noteq> uuid_Nil
                then bnd (update Sql (\<lambda>d. change_credentials (\<lambda>c. cc_JobID c = jid \<and> cc_AttemptID c = hd attempts
                       \<and> cc_Phase c = ''preparing'' \<and> now < cc_ReadyAt c
                       \<and> (\<exists>r \<in> set (ci_runs d). cr_ID r = rid \<and> cr_OrgID r = cc_OrgID c))
                       (\<lambda>c. c\<lparr>cc_Phase := ''dispatched''\<rparr>) d)) (\<lambda>n. if n \<noteq> 1 then fail (App NotDispatchable) else ret ())
                else ret ()) (\<lambda>_.
           bnd (stmt Sql (start_run rid)) (\<lambda>_.
           ret (Commit ())))))"

section \<open>Agent jobs\<close>

record agent_job =
  aj_JobID :: uuid
  aj_RunID :: uuid
  aj_Name :: string
  aj_Role :: string
  aj_OrgID :: uuid
  aj_RepoID :: uuid
  aj_RepoName :: string
  aj_CommitSHA :: string
  aj_Ref :: string
  aj_TriggeredBy :: uuid

record in_flight_job =
  ij_JobID :: uuid
  ij_OrgID :: uuid
  ij_AgentRunID :: uuid
  ij_StartedAt :: time

definition ClaimAgentJob :: "time \<Rightarrow> agent_job ci_op" where
  "ClaimAgentJob now =
     tx Sql (
       bnd (query Sql (\<lambda>d. case lowest cj_ID (filter (\<lambda>j. cj_Status j = ''pending'' \<and> cj_AgentRole j \<noteq> '''' \<and> needs_met d j) (ci_jobs d)) of
              None \<Rightarrow> None | Some j \<Rightarrow> map_option (Pair j) (run_of d j))) (\<lambda>row.
       case row of
         None \<Rightarrow> fail (App NoClaimableJob)
       | Some (j, r) \<Rightarrow>
           bnd (stmt Sql (update_jobs (\<lambda>k. cj_ID k = cj_ID j) (\<lambda>k. k\<lparr>cj_Status := ''running'', cj_StartedAt := Some now\<rparr>) now)) (\<lambda>_.
           bnd (stmt Sql (start_run (cr_ID r))) (\<lambda>_.
           ret (Commit \<lparr>aj_JobID = cj_ID j, aj_RunID = cj_RunID j, aj_Name = cj_Name j, aj_Role = cj_AgentRole j, aj_OrgID = cr_OrgID r,
             aj_RepoID = cr_RepoID r, aj_RepoName = cr_RepoName r, aj_CommitSHA = cr_CommitSHA r, aj_Ref = cr_Ref r,
             aj_TriggeredBy = cr_TriggeredBy r\<rparr>)))))"

definition SetJobAgentRun :: "uuid \<Rightarrow> uuid \<Rightarrow> string \<Rightarrow> unit ci_op" where
  "SetJobAgentRun jid agentRunID key =
     bnd (update Sql (change_jobs (\<lambda>j. cj_ID j = jid) (\<lambda>j. j\<lparr>cj_AgentRunID := Some agentRunID, cj_WorkItemKey := key\<rparr>))) (\<lambda>n.
     if n = 0 then fail (App JobNotFound) else ret ())"

definition InFlightAgentJobs :: "time \<Rightarrow> in_flight_job list ci_op" where
  "InFlightAgentJobs now = query Sql (\<lambda>d. concat (map (\<lambda>j. case run_of d j of None \<Rightarrow> []
       | Some r \<Rightarrow> [\<lparr>ij_JobID = cj_ID j, ij_OrgID = cr_OrgID r,
           ij_AgentRunID = (case cj_AgentRunID j of None \<Rightarrow> uuid_Nil | Some a \<Rightarrow> a),
           ij_StartedAt = (case cj_StartedAt j of None \<Rightarrow> now | Some t \<Rightarrow> t)\<rparr>])
     (filter (\<lambda>j. cj_Status j = ''running'' \<and> cj_AgentRole j \<noteq> '''') (ci_jobs d))))"

section \<open>Runner connections\<close>

definition of_org :: "cidb \<Rightarrow> uuid \<Rightarrow> wf_job \<Rightarrow> bool" where
  "of_org d org j \<longleftrightarrow> (\<exists>r \<in> set (ci_runs d). cr_ID r = cj_RunID j \<and> cr_OrgID r = org)"

definition interrupted :: "cidb \<Rightarrow> uuid \<Rightarrow> uuid \<Rightarrow> uuid option \<Rightarrow> wf_job \<Rightarrow> bool" where
  "interrupted d org runner connection j \<longleftrightarrow>
     of_org d org j \<and> cj_RunnerID j = Some runner \<and> (connection = None \<or> cj_ConnectionID j = connection)
     \<and> (cj_Status j = ''pending'' \<or> cj_Status j = ''running'')"

definition interrupt_jobs :: "uuid \<Rightarrow> uuid \<Rightarrow> uuid option \<Rightarrow> string \<Rightarrow> time \<Rightarrow> cidb \<Rightarrow> sqlerr + (uuid list \<times> cidb)" where
  "interrupt_jobs org runner connection detail now d =
     map_sum id (apfst (\<lambda>_. map cj_RunID (filter (interrupted d org runner connection) (ci_jobs d))))
       (update_jobs (interrupted d org runner connection)
         (\<lambda>j. j\<lparr>cj_Status := ''failure'', cj_FinishedAt := Some now, cj_SealPending := True, cj_Detail := detail\<rparr>) now d)"

text \<open>The \<open>CASE\<close> of the statement gives a state run by run: the runs with a failed or cancelled job, then the others.\<close>

definition settle_runs :: "uuid \<Rightarrow> uuid list \<Rightarrow> cidb \<Rightarrow> sqlerr + (nat \<times> cidb)" where
  "settle_runs org ids d =
     (let P = (\<lambda>r. cr_OrgID r = org \<and> cr_ID r \<in> set ids \<and> \<not> terminalJobStatus (cr_Status r) \<and> \<not> unfinished_run d (cr_ID r)) in
      case update_ci_runs (\<lambda>r. P r \<and> bad_run d (cr_ID r)) ''failure'' d of
        Inl e \<Rightarrow> Inl e
      | Inr (n, d1) \<Rightarrow> map_sum id (apfst ((+) n)) (update_ci_runs (\<lambda>r. P r \<and> \<not> bad_run d (cr_ID r)) ''success'' d1))"

definition interruptRunnerJobs :: "uuid \<Rightarrow> uuid \<Rightarrow> uuid option \<Rightarrow> string \<Rightarrow> time \<Rightarrow> unit ci_op" where
  "interruptRunnerJobs org runner connection detail now =
     bnd (stmt Sql (interrupt_jobs org runner connection detail now)) (\<lambda>ids.
     if ids = [] then ret ()
     else bnd (query Sql (\<lambda>d. ())) (\<lambda>_.
          bnd (stmt Sql (settle_runs org ids)) (\<lambda>_. ret ())))"

definition replaced_detail :: string where
  "replaced_detail = ''runner connection replaced; execution interrupted, termination unconfirmed''"

definition disconnected_detail :: string where
  "disconnected_detail = ''runner disconnected; execution interrupted, termination unconfirmed''"

definition BeginRunnerConnection :: "uuid \<Rightarrow> time \<Rightarrow> uuid \<Rightarrow> uuid ci_op" where
  "BeginRunnerConnection new_id now runner =
     tx Sql (
       bnd (query Sql (find_runner runner)) (\<lambda>row.
       case row of
         None \<Rightarrow> fail (App CINoRows)
       | Some n \<Rightarrow>
           bnd (interruptRunnerJobs (ru_OrgID n) runner None replaced_detail now) (\<lambda>_.
           bnd (update Sql (change_runners (\<lambda>m. ru_OrgID m = ru_OrgID n \<and> ru_ID m = runner)
             (\<lambda>m. m\<lparr>ru_ConnectionID := Some new_id, ru_LastSeen := now\<rparr>))) (\<lambda>_.
           ret (Commit new_id)))))"

definition end_connection :: "uuid \<Rightarrow> uuid \<Rightarrow> cidb \<Rightarrow> uuid option \<times> cidb" where
  "end_connection runner connection d =
     (let P = (\<lambda>n. ru_ID n = runner \<and> ru_ConnectionID n = Some connection) in
      (map_option ru_OrgID (List.find P (ci_runners d)), snd (change_runners P (\<lambda>n. n\<lparr>ru_ConnectionID := None\<rparr>) d)))"

definition EndRunnerConnection :: "time \<Rightarrow> uuid \<Rightarrow> uuid \<Rightarrow> unit ci_op" where
  "EndRunnerConnection now runner connection =
     tx Sql (
       bnd (update Sql (end_connection runner connection)) (\<lambda>row.
       case row of
         None \<Rightarrow> fail (App CINoRows)
       | Some org \<Rightarrow>
           bnd (interruptRunnerJobs org runner (Some connection) disconnected_detail now) (\<lambda>_.
           ret (Commit ()))))"

definition runnerConnection :: "time \<Rightarrow> uuid \<Rightarrow> uuid \<Rightarrow> unit ci_op" where
  "runnerConnection now runner connection =
     (if connection = uuid_Nil then fail (App ConnectionRequired)
      else bnd (update Sql (change_runners (\<lambda>n. ru_ID n = runner \<and> ru_ConnectionID n = Some connection)
             (\<lambda>n. n\<lparr>ru_LastSeen := now\<rparr>))) (\<lambda>n.
           if n \<noteq> 1 then fail (App ConnectionSuperseded) else ret ()))"

definition job_connected :: "uuid \<Rightarrow> uuid \<Rightarrow> uuid \<Rightarrow> cidb \<Rightarrow> bool" where
  "job_connected job runner connection d \<longleftrightarrow>
     (\<exists>j \<in> set (ci_jobs d). \<exists>n \<in> set (ci_runners d). cj_ID j = job \<and> ru_ID n = runner \<and> cj_RunnerID j = Some runner
        \<and> of_org d (ru_OrgID n) j \<and> cj_ConnectionID j = Some connection \<and> ru_ConnectionID n = Some connection)"

definition jobConnection :: "uuid \<Rightarrow> uuid \<Rightarrow> uuid \<Rightarrow> unit ci_op" where
  "jobConnection job runner connection =
     (if connection = uuid_Nil then fail (App ConnectionRequired)
      else bnd (query Sql (job_connected job runner connection)) (\<lambda>ok.
           if \<not> ok then fail (App ConnectionSuperseded) else ret ()))"

definition RunnerConnected :: "uuid \<Rightarrow> bool ci_op" where
  "RunnerConnected orgID = query Sql (\<lambda>d. \<exists>n \<in> set (ci_runners d). ru_OrgID n = orgID \<and> ru_ConnectionID n \<noteq> None)"

section \<open>The journal of a runner\<close>

text \<open>
  What a runner may write to is a job of its organization that was dispatched to it on the connection
  it holds; the job's status, last line and receipt are read under that lock.
\<close>

definition journal_job :: "uuid \<Rightarrow> uuid \<Rightarrow> uuid \<Rightarrow> uuid \<Rightarrow> cidb \<Rightarrow> wf_job option" where
  "journal_job org runner connection job d = List.find (\<lambda>j. cj_ID j = job \<and> of_org d org j \<and> cj_RunnerID j = Some runner
     \<and> cj_ConnectionID j = Some connection \<and> cj_Journal j) (ci_jobs d)"

definition lockRunnerJob :: "uuid \<Rightarrow> uuid \<Rightarrow> uuid \<Rightarrow> (string \<times> int \<times> string option) ci_op" where
  "lockRunnerJob runner connection job =
     (if connection = uuid_Nil then fail (App ConnectionRequired)
      else bnd (query Sql (\<lambda>d. List.find (\<lambda>n. ru_ID n = runner \<and> ru_ConnectionID n = Some connection) (ci_runners d))) (\<lambda>row.
           case row of
             None \<Rightarrow> fail (App CINoRows)
           | Some n \<Rightarrow>
               bnd (query Sql (journal_job (ru_OrgID n) runner connection job)) (\<lambda>row.
               case row of None \<Rightarrow> fail (App CINoRows) | Some j \<Rightarrow> ret (cj_Status j, cj_LogSequence j, cj_Receipt j))))"

definition insert_line :: "log_line \<Rightarrow> cidb \<Rightarrow> sqlerr + (unit \<times> cidb)" where
  "insert_line l d =
     (if ll_Sequence l \<le> 0 then Inl CheckViolation
      else if \<exists>k \<in> set (ci_lines d). ll_JobID k = ll_JobID l \<and> ll_Sequence k = ll_Sequence l then Inl UniqueViolation
      else if ll_JobID l \<notin> cj_ID ` set (ci_jobs d) then Inl ForeignKeyViolation
      else Inr ((), d\<lparr>ci_lines := ci_lines d @ [l]\<rparr>))"

definition max_line :: int where
  "max_line = 1048576"

text \<open>\<open>digest\<close> is the hash of the line as the runner sent it; \<open>line\<close> is what is kept of it.\<close>

definition appendRunnerLog :: "uuid \<Rightarrow> uuid \<Rightarrow> uuid \<Rightarrow> int \<Rightarrow> string \<Rightarrow> string \<Rightarrow> unit ci_op" where
  "appendRunnerLog runner connection job sequence line digest =
     (if sequence \<le> 0 \<or> max_line < int (length line) then fail (App InvalidLogFrame)
      else tx Sql (
        bnd (lockRunnerJob runner connection job) (\<lambda>(state, last, _).
        if sequence \<le> last then
          bnd (query Sql (\<lambda>d. List.find (\<lambda>l. ll_JobID l = job \<and> ll_Sequence l = sequence) (ci_lines d))) (\<lambda>row.
          case row of
            None \<Rightarrow> fail (App CINoRows)
          | Some l \<Rightarrow> if ll_Digest l \<noteq> digest then fail (App ReplayConflicts) else ret (Abort ()))
        else if terminalJobStatus state \<or> sequence \<noteq> last + 1 then fail (App AdmissionClosed)
        else
          bnd (stmt Sql (insert_line \<lparr>ll_JobID = job, ll_Sequence = sequence, ll_Line = line, ll_Digest = digest\<rparr>)) (\<lambda>_.
          bnd (update Sql (change_jobs (\<lambda>j. cj_ID j = job) (\<lambda>j. j\<lparr>cj_LogSequence := sequence\<rparr>))) (\<lambda>_.
          ret (Commit ()))))))"

text \<open>A status report; its token is not part of what the receipt is a hash of.\<close>

record report =
  rq_JobID :: uuid
  rq_RunnerID :: uuid
  rq_ConnectionID :: uuid
  rq_Token :: string
  rq_Status :: string
  rq_Detail :: string
  rq_LastLog :: "int option"

definition report_last :: "report \<Rightarrow> int" where
  "report_last r = (case rq_LastLog r of None \<Rightarrow> 0 | Some n \<Rightarrow> n)"

text \<open>The transaction answers whether the run has to be settled afterwards.\<close>

definition recordRunnerReceipt :: "(report \<Rightarrow> string) \<Rightarrow> time \<Rightarrow> uuid \<Rightarrow> uuid \<Rightarrow> uuid \<Rightarrow> report \<Rightarrow> string \<Rightarrow> unit ci_op" where
  "recordRunnerReceipt hash now runner connection job req detail =
     (let final = terminalJobStatus (rq_Status req);
          digest = hash (req\<lparr>rq_Token := ''''\<rparr>) in
      if rq_Status req \<notin> set validJobStatuses \<or> report_last req < 0 \<or> final \<and> rq_LastLog req = None then fail (App InvalidReceipt)
      else
        bnd (tx Sql (
          bnd (lockRunnerJob runner connection job) (\<lambda>(state, last, prior).
          if terminalJobStatus state then
            (if prior = Some digest then ret (Abort True) else fail (App ReceiptConflicts))
          else if final \<and> last \<noteq> report_last req then fail (App LogBarrier)
          else
            bnd (stmt Sql (update_jobs (\<lambda>j. cj_ID j = job)
              (\<lambda>j. j\<lparr>cj_Status := rq_Status req, cj_Detail := detail,
                     cj_FinishedAt := (if final then Some now else cj_FinishedAt j),
                     cj_Receipt := (if final then Some digest else None), cj_SealPending := final\<rparr>) now)) (\<lambda>_.
            ret (Commit final))))) (\<lambda>settles.
        if settles then rollUpRunStatus job else ret ()))"

text \<open>The lines and whether they are authoritative: a job whose log was retired has none.\<close>

definition journalSnapshot :: "uuid \<Rightarrow> (string list \<times> bool) ci_op" where
  "journalSnapshot job =
     bnd (query Sql (find_job job)) (\<lambda>row.
     case row of
       None \<Rightarrow> ret ([], False)
     | Some j \<Rightarrow>
         if cj_Retired j then ret ([], True)
         else if \<not> cj_Journal j then ret ([], False)
         else bnd (query Sql (\<lambda>d. map ll_Line (sort_key ll_Sequence (filter (\<lambda>l. ll_JobID l = job) (ci_lines d))))) (\<lambda>lines.
              ret (lines, True)))"

section \<open>Sealed logs\<close>

definition blob_put :: "string \<Rightarrow> string \<Rightarrow> unit ci_op" where
  "blob_put key content = update (\<lambda>_. App BlobFailed) (\<lambda>d. ((), d\<lparr>ci_blobs := (key, content) # filter (\<lambda>b. fst b \<noteq> key) (ci_blobs d)\<rparr>))"

definition blob_get :: "string \<Rightarrow> string option ci_op" where
  "blob_get key = query (\<lambda>_. App BlobFailed) (\<lambda>d. map_of (ci_blobs d) key)"

definition blob_delete :: "string \<Rightarrow> unit ci_op" where
  "blob_delete key = update (\<lambda>_. App BlobFailed) (\<lambda>d. ((), d\<lparr>ci_blobs := filter (\<lambda>b. fst b \<noteq> key) (ci_blobs d)\<rparr>))"

definition sealedObjectKey :: "(uuid \<Rightarrow> string) \<Rightarrow> uuid \<Rightarrow> string" where
  "sealedObjectKey utext job = ''logs/'' @ utext job @ ''.txt''"

definition log_content :: "string list \<Rightarrow> string" where
  "log_content lines = concat (map (\<lambda>l. l @ [CHR 0x0A]) lines)"

definition acknowledgeSeal :: "uuid \<Rightarrow> string \<Rightarrow> string ci_op" where
  "acknowledgeSeal job key =
     bnd (update Sql (change_jobs (\<lambda>j. cj_ID j = job \<and> \<not> cj_Retired j \<and> terminalJobStatus (cj_Status j))
       (\<lambda>j. j\<lparr>cj_SealPending := False\<rparr>))) (\<lambda>n.
     if n \<noteq> 1 then bnd (blob_delete key) (\<lambda>_. fail (App LogRetired)) else ret key)"

definition sealJournal :: "(uuid \<Rightarrow> string) \<Rightarrow> uuid \<Rightarrow> string ci_op" where
  "sealJournal utext job =
     bnd (query Sql (\<lambda>d. map_option (\<lambda>j. terminalJobStatus (cj_Status j) \<and> \<not> cj_Retired j) (find_job job d))) (\<lambda>closed.
     case closed of
       None \<Rightarrow> fail (App CINoRows)
     | Some closed \<Rightarrow>
         if \<not> closed then fail (App LogNotClosed)
         else bnd (journalSnapshot job) (\<lambda>(lines, _).
              bnd (blob_put (sealedObjectKey utext job) (log_content lines)) (\<lambda>_.
              acknowledgeSeal job (sealedObjectKey utext job))))"

definition live_of :: "uuid \<Rightarrow> cidb \<Rightarrow> (nat \<times> string) list" where
  "live_of job d = map (\<lambda>(i, _, l). (i, l)) (filter (\<lambda>(i, j, l). j = job) (ci_live d))"

text \<open>\<open>Append\<close>; \<open>evicted\<close> are the entries the approximate trim of the stream drops.\<close>

definition Append_log :: "nat \<Rightarrow> nat set \<Rightarrow> uuid \<Rightarrow> string \<Rightarrow> unit ci_op" where
  "Append_log entry evicted job line =
     update (\<lambda>_. App RedisFailed) (\<lambda>d. ((), d\<lparr>ci_live := filter (\<lambda>(i, j, l). \<not> (j = job \<and> i \<in> evicted)) (ci_live d) @ [(entry, job, line)]\<rparr>))"

text \<open>A job without a journal is sealed from its live stream; only the entries that were read are removed from it.\<close>

definition Seal :: "(uuid \<Rightarrow> string) \<Rightarrow> uuid \<Rightarrow> string ci_op" where
  "Seal utext job =
     bnd (journalSnapshot job) (\<lambda>(_, journal).
     if journal then sealJournal utext job
     else
       bnd (query (\<lambda>_. App RedisFailed) (live_of job)) (\<lambda>entries.
       bnd (blob_get (sealedObjectKey utext job)) (\<lambda>prior.
       bnd (blob_put (sealedObjectKey utext job)
             ((case prior of None \<Rightarrow> '''' | Some s \<Rightarrow> s) @ log_content (map snd entries))) (\<lambda>_.
       bnd (if entries = [] then ret ()
            else update (\<lambda>_. App RedisFailed) (\<lambda>d. ((), d\<lparr>ci_live := filter (\<lambda>(i, j, l). \<not> (j = job \<and> i \<in> fst ` set entries)) (ci_live d)\<rparr>))) (\<lambda>_.
       acknowledgeSeal job (sealedObjectKey utext job))))))"

definition Snapshot :: "uuid \<Rightarrow> string list ci_op" where
  "Snapshot job =
     bnd (journalSnapshot job) (\<lambda>(lines, journal).
     if journal then ret lines
     else query (\<lambda>_. App RedisFailed) (\<lambda>d. map snd (live_of job d)))"

definition Delete_log :: "(uuid \<Rightarrow> string) \<Rightarrow> uuid \<Rightarrow> unit ci_op" where
  "Delete_log utext job =
     bnd (update (\<lambda>_. App RedisFailed) (\<lambda>d. ((), d\<lparr>ci_live := filter (\<lambda>(i, j, l). j \<noteq> job) (ci_live d)\<rparr>))) (\<lambda>_.
     blob_delete (sealedObjectKey utext job))"

text \<open>One round of \<open>reconcileRunnerLogs\<close>: a hundred due obligations are claimed, and each is tried.\<close>

definition seal_due :: "time \<Rightarrow> wf_job \<Rightarrow> bool" where
  "seal_due now j \<longleftrightarrow> cj_SealPending j \<and> \<not> cj_Retired j \<and> (case cj_SealAttempted j of None \<Rightarrow> True | Some t \<Rightarrow> t < now - 30 * second)"

text \<open>\<open>NULLS FIRST\<close> for the attempt, nulls last for the end of the job.\<close>

definition nulls_first :: "time option \<Rightarrow> nat \<times> time" where
  "nulls_first t = (case t of None \<Rightarrow> (0, 0) | Some t \<Rightarrow> (1, t))"

definition nulls_last :: "time option \<Rightarrow> nat \<times> time" where
  "nulls_last t = (case t of None \<Rightarrow> (1, 0) | Some t \<Rightarrow> (0, t))"

definition claim_seals :: "time \<Rightarrow> cidb \<Rightarrow> uuid list \<times> cidb" where
  "claim_seals now d =
     (let by_id = sort_key cj_ID (filter (seal_due now) (ci_jobs d));
          by_end = sort_key (fst \<circ> nulls_last \<circ> cj_FinishedAt) (sort_key (snd \<circ> nulls_last \<circ> cj_FinishedAt) by_id);
          due = map cj_ID (take 100 (sort_key (fst \<circ> nulls_first \<circ> cj_SealAttempted)
                  (sort_key (snd \<circ> nulls_first \<circ> cj_SealAttempted) by_end))) in
      (due, snd (change_jobs (\<lambda>j. cj_ID j \<in> set due) (\<lambda>j. j\<lparr>cj_SealAttempted := Some now\<rparr>) d)))"

fun seal_all :: "(uuid \<Rightarrow> string) \<Rightarrow> uuid list \<Rightarrow> unit ci_op" where
  "seal_all utext [] = ret ()"
| "seal_all utext (j # js) = bnd (attempt (Seal utext j)) (\<lambda>_. seal_all utext js)"

definition reconcileRunnerLogs :: "(uuid \<Rightarrow> string) \<Rightarrow> time \<Rightarrow> unit ci_op" where
  "reconcileRunnerLogs utext now = bnd (update Sql (claim_seals now)) (seal_all utext)"

section \<open>Credentials to revoke\<close>

definition insert_credential :: "credential \<Rightarrow> cidb \<Rightarrow> sqlerr + (unit \<times> cidb)" where
  "insert_credential c d =
     (if cc_Phase c \<notin> {''preparing'', ''dispatched'', ''cleanup''} then Inl CheckViolation
      else if \<exists>b \<in> set (ci_credentials d). same_cleanup (cc_OrgID c) (cc_JobID c) (cc_AttemptID c) b then Inl UniqueViolation
      else Inr ((), d\<lparr>ci_credentials := ci_credentials d @ [c]\<rparr>))"

definition credentialPreparationLimit :: time where
  "credentialPreparationLimit = 120 * second"

definition prepareCredentials :: "time \<Rightarrow> uuid \<Rightarrow> uuid \<Rightarrow> uuid \<Rightarrow> uuid \<Rightarrow> unit ci_op" where
  "prepareCredentials now org job runner att =
     tx Sql (
       bnd (query Sql (\<lambda>d. \<exists>j \<in> set (ci_jobs d). cj_ID j = job \<and> of_org d org j \<and> cj_RunnerID j = Some runner
             \<and> cj_Status j = ''pending'')) (\<lambda>held.
       if \<not> held then fail (App CINoRows)
       else bnd (stmt Sql (insert_credential \<lparr>cc_OrgID = org, cc_JobID = job, cc_AttemptID = att, cc_Phase = ''preparing'',
              cc_ReadyAt = now + credentialPreparationLimit, cc_Leases = []\<rparr>)) (\<lambda>_.
            ret (Commit ()))))"

definition abandonCredentials :: "time \<Rightarrow> uuid \<Rightarrow> uuid \<Rightarrow> uuid \<Rightarrow> uuid list \<Rightarrow> unit ci_op" where
  "abandonCredentials now org job att leases =
     bnd (update Sql (change_credentials (same_cleanup org job att)
       (\<lambda>c. c\<lparr>cc_Phase := ''cleanup'', cc_ReadyAt := now, cc_Leases := leases\<rparr>))) (\<lambda>n.
     if n \<noteq> 1 then fail (App CleanupIntentMissing) else ret ())"

definition credentials_worker :: "ctx \<Rightarrow> bool" where
  "credentials_worker ctx \<longleftrightarrow> (case ctx of None \<Rightarrow> False
     | Some s \<Rightarrow> IsPlatformWorker s \<and> s_PlatformWorker s = ''ci-credentials'')"

definition credentials_scope :: "uuid \<Rightarrow> scope" where
  "credentials_scope org = \<lparr>s_OrgID = org, s_ActorID = uuid_Nil, s_ActorKind = ''service'', s_ServiceName = ''ci-credentials'',
     s_Role = '''', s_PlatformWorker = '''', s_RepoLimited = False, s_Repos = Map.empty\<rparr>"

definition due_credentials :: "string \<Rightarrow> time \<Rightarrow> cidb \<Rightarrow> (uuid \<times> uuid \<times> uuid) list" where
  "due_credentials phase now d = map (\<lambda>c. (cc_OrgID c, cc_JobID c, cc_AttemptID c)) (take 100 (sort_key cc_ReadyAt (sort_key cc_OrgID
     (sort_key cc_JobID (sort_key cc_AttemptID (filter (\<lambda>c. cc_Phase c = phase \<and> cc_ReadyAt c \<le> now) (ci_credentials d)))))))"

definition recoverCredentialPreparation :: "ctx \<Rightarrow> time \<Rightarrow> uuid \<Rightarrow> uuid \<Rightarrow> unit ci_op" where
  "recoverCredentialPreparation ctx now org job =
     bnd (require_org ctx org) (\<lambda>_.
     bnd (stmt Sql (\<lambda>d. update_jobs (\<lambda>j. cj_ID j = job \<and> cj_Status j = ''pending'' \<and> of_org d org j
         \<and> (\<exists>c \<in> set (ci_credentials d). cc_OrgID c = org \<and> cc_JobID c = cj_ID j \<and> cc_Phase c = ''preparing'' \<and> cc_ReadyAt c \<le> now))
       (\<lambda>j. j\<lparr>cj_Status := ''failure'', cj_Detail := ''credential preparation expired; cleanup pending'', cj_FinishedAt := Some now\<rparr>)
       now d)) (\<lambda>n.
     if n > 0 then rollUpRunStatus job else ret ()))"

fun recover_all :: "time \<Rightarrow> (uuid \<times> uuid \<times> uuid) list \<Rightarrow> unit ci_op" where
  "recover_all now [] = ret ()"
| "recover_all now ((org, job, _) # ids) =
     bnd (recoverCredentialPreparation (Some (credentials_scope org)) now org job) (\<lambda>_. recover_all now ids)"

definition RecoverCredentialPreparations :: "ctx \<Rightarrow> time \<Rightarrow> unit ci_op" where
  "RecoverCredentialPreparations ctx now =
     (if \<not> credentials_worker ctx then fail (App WorkerRequired)
      else bnd (query Sql (due_credentials ''preparing'' now)) (recover_all now))"

text \<open>
  The broker's answer to a revocation: an error, or whether the attempt is fenced and how many leases
  still have to be revoked. The row goes only when the broker has confirmed both.
\<close>

definition retryCredentialCleanup :: "(uuid \<times> uuid \<times> uuid \<Rightarrow> unit + (bool \<times> int)) \<Rightarrow> ctx \<Rightarrow> time \<Rightarrow> uuid \<times> uuid \<times> uuid \<Rightarrow> unit ci_op" where
  "retryCredentialCleanup broker ctx now i = (case i of (org, job, att) \<Rightarrow>
     bnd (require_org ctx org) (\<lambda>_.
     bnd (update Sql (change_credentials (\<lambda>c. same_cleanup org job att c \<and> cc_Phase c = ''cleanup'' \<and> cc_ReadyAt c \<le> now)
       (\<lambda>c. c\<lparr>cc_ReadyAt := now + 30 * second\<rparr>))) (\<lambda>n.
     if n = 0 then ret ()
     else (case broker i of
         Inl _ \<Rightarrow> fail (App CleanupRPC)
       | Inr (fenced, pending) \<Rightarrow>
           if \<not> fenced \<or> pending \<noteq> 0 then fail (App CleanupPending)
           else update Sql (\<lambda>d. ((), d\<lparr>ci_credentials := filter (\<lambda>c. \<not> (same_cleanup org job att c \<and> cc_Phase c = ''cleanup''))
                  (ci_credentials d)\<rparr>))))))"

fun retry_all :: "(uuid \<times> uuid \<times> uuid \<Rightarrow> unit + (bool \<times> int)) \<Rightarrow> time \<Rightarrow> (uuid \<times> uuid \<times> uuid) list \<Rightarrow> cierr fault list ci_op" where
  "retry_all broker now [] = ret []"
| "retry_all broker now (i # ids) =
     bnd (attempt (retryCredentialCleanup broker (Some (credentials_scope (fst i))) now i)) (\<lambda>r.
     bnd (retry_all broker now ids) (\<lambda>es. ret (case r of Inl e \<Rightarrow> e # es | Inr _ \<Rightarrow> es)))"

text \<open>The failures are collected; \<open>live\<close> is how many obligations are tried before the context ends.\<close>

definition RetryCredentialCleanup :: "(uuid \<times> uuid \<times> uuid \<Rightarrow> unit + (bool \<times> int)) option \<Rightarrow> ctx \<Rightarrow> time \<Rightarrow> nat \<Rightarrow> cierr fault list ci_op" where
  "RetryCredentialCleanup broker ctx now live =
     (if \<not> credentials_worker ctx then fail (App WorkerRequired)
      else case broker of
          None \<Rightarrow> fail (App CredentialsUnavailable)
        | Some b \<Rightarrow>
            bnd (RecoverCredentialPreparations ctx now) (\<lambda>_.
            bnd (query Sql (due_credentials ''cleanup'' now)) (\<lambda>ids.
            bnd (retry_all b now (take live ids)) (\<lambda>es.
            ret (if live < length ids then es @ [App Cancelled] else es)))))"

section \<open>Artifacts\<close>

definition insert_artifact :: "artifact \<Rightarrow> cidb \<Rightarrow> sqlerr + (unit \<times> cidb)" where
  "insert_artifact a d =
     (if af_ID a \<in> af_ID ` set (ci_artifacts d) then Inl UniqueViolation
      else if \<exists>b \<in> set (ci_artifacts d). af_JobID b = af_JobID a \<and> af_Name b = af_Name a then Inl UniqueViolation
      else if af_JobID a \<notin> cj_ID ` set (ci_jobs d) then Inl ForeignKeyViolation
      else Inr ((), d\<lparr>ci_artifacts := ci_artifacts d @ [a]\<rparr>))"

definition find_artifact :: "uuid \<Rightarrow> uuid \<Rightarrow> string \<Rightarrow> cidb \<Rightarrow> artifact option" where
  "find_artifact org job name d = List.find (\<lambda>a. af_OrgID a = org \<and> af_JobID a = job \<and> af_Name a = name) (ci_artifacts d)"

definition artifact_key :: "(uuid \<Rightarrow> string) \<Rightarrow> uuid \<Rightarrow> uuid \<Rightarrow> uuid \<Rightarrow> string \<Rightarrow> string" where
  "artifact_key utext org job aid name = ''artifacts/'' @ utext org @ ''/'' @ utext job @ ''/'' @ utext aid @ ''/'' @ name"

text \<open>A transaction whose beginning and commit fail in ways the caller tells apart.\<close>

definition tx_split :: "(sqlerr \<Rightarrow> 'e) \<Rightarrow> (sqlerr \<Rightarrow> 'e) \<Rightarrow> ('d, 'e, 'a txres) op \<Rightarrow> ('d, 'e, 'a) op" where
  "tx_split hb hc m = (\<lambda>w. if faulty w then (Inl (hb ConnFailure), (fst w, tl (snd w))) else tx hc m w)"

text \<open>
  The transaction of an upload. An error says whether the object just written is deleted again: it
  is not when the status cannot be read, and when the outcome of the commit is not known. An exact
  replay of a recorded artifact answers that artifact.
\<close>

type_synonym 'a upload_op = "(cidb, bool \<times> cierr fault, 'a) op"

definition admit_upload :: "uuid \<Rightarrow> uuid \<Rightarrow> uuid \<Rightarrow> artifact \<Rightarrow> artifact option upload_op" where
  "admit_upload org job connection a =
     bnd (query (\<lambda>_. (True, App ArtifactSuperseded)) (\<lambda>d. case find_job job d of None \<Rightarrow> None
         | Some j \<Rightarrow> map_option (\<lambda>n. ru_ConnectionID n = Some connection \<and> cj_ConnectionID j = Some connection)
             (List.find (\<lambda>n. cj_RunnerID j = Some (ru_ID n) \<and> ru_OrgID n = org) (ci_runners d)))) (\<lambda>admitted.
     if admitted \<noteq> Some True \<or> connection = uuid_Nil then fail (True, App ArtifactSuperseded)
     else
       bnd (query (\<lambda>x. (False, Sql x)) (\<lambda>d. case find_job job d of None \<Rightarrow> None
           | Some j \<Rightarrow> if of_org d org j then Some (cj_Status j) else None)) (\<lambda>state.
       case state of
         None \<Rightarrow> fail (False, App CINoRows)
       | Some st \<Rightarrow>
           bnd (query (\<lambda>_. (True, App ArtifactConflicts)) (find_artifact org job (af_Name a))) (\<lambda>prior.
           case prior of
             Some p \<Rightarrow> if af_Digest p = af_Digest a \<and> af_Size p = af_Size a then ret (Some p) else fail (True, App ArtifactConflicts)
           | None \<Rightarrow> if terminalJobStatus st then fail (True, App ArtifactConflicts) else ret None)))"

definition upload_tx :: "uuid \<Rightarrow> uuid \<Rightarrow> uuid option \<Rightarrow> artifact \<Rightarrow> (bool \<times> artifact) upload_op" where
  "upload_tx org job connection a =
     tx_split (\<lambda>x. (True, Sql x)) (\<lambda>x. (False, Sql x)) (
       bnd (case connection of None \<Rightarrow> ret None | Some c \<Rightarrow> admit_upload org job c a) (\<lambda>prior.
       case prior of
         Some p \<Rightarrow> ret (Abort (True, p))
       | None \<Rightarrow>
           bnd (stmt (\<lambda>x. (True, if x = UniqueViolation then App ArtifactExists else Sql x)) (insert_artifact a)) (\<lambda>_.
           ret (Commit (False, a)))))"

definition Upload :: "(uuid \<Rightarrow> string) \<Rightarrow> (string \<Rightarrow> string) \<Rightarrow> uuid \<Rightarrow> time \<Rightarrow> uuid \<Rightarrow> string \<Rightarrow> string \<Rightarrow> uuid option \<Rightarrow> artifact ci_op" where
  "Upload utext sha new_id now job name content connection =
     bnd (query Sql (\<lambda>d. case find_job job d of None \<Rightarrow> None | Some j \<Rightarrow> run_of d j)) (\<lambda>row.
     case row of
       None \<Rightarrow> fail (App CINoRows)
     | Some r \<Rightarrow>
         (let key = artifact_key utext (cr_OrgID r) job new_id name;
              a = \<lparr>af_ID = new_id, af_OrgID = cr_OrgID r, af_JobID = job, af_Name = name, af_Size = int (length content),
                   af_ObjectKey = key, af_CreatedAt = now, af_Digest = sha content\<rparr> in
          bnd (blob_put key content) (\<lambda>_.
          bnd (attempt (upload_tx (cr_OrgID r) job connection a)) (\<lambda>res.
          case res of
            Inl (delete, e) \<Rightarrow> bnd (if delete then attempt (blob_delete key) else ret (Inr ())) (\<lambda>_. fail e)
          | Inr (replayed, b) \<Rightarrow> bnd (if replayed then attempt (blob_delete key) else ret (Inr ())) (\<lambda>_. ret b)))))"

text \<open>The readers, oldest first; an artifact of another organization reads as absent.\<close>

definition List_artifacts :: "uuid \<Rightarrow> artifact list ci_op" where
  "List_artifacts rid = query Sql (\<lambda>d. sort_key af_CreatedAt
     (filter (\<lambda>a. \<exists>j \<in> set (ci_jobs d). cj_ID j = af_JobID a \<and> cj_RunID j = rid) (ci_artifacts d)))"

definition ListForJob :: "uuid \<Rightarrow> artifact list ci_op" where
  "ListForJob job = query Sql (\<lambda>d. sort_key af_CreatedAt (filter (\<lambda>a. af_JobID a = job) (ci_artifacts d)))"

definition open_blob :: "artifact option \<Rightarrow> (artifact \<times> string) ci_op" where
  "open_blob row = (case row of
       None \<Rightarrow> fail (App CINoRows)
     | Some a \<Rightarrow> bnd (blob_get (af_ObjectKey a)) (\<lambda>content.
         case content of None \<Rightarrow> fail (App CINoRows) | Some c \<Rightarrow> ret (a, c)))"

definition Open :: "uuid \<Rightarrow> (artifact \<times> string) ci_op" where
  "Open aid = bnd (query Sql (\<lambda>d. List.find (\<lambda>a. af_ID a = aid) (ci_artifacts d))) open_blob"

definition OpenInOrg :: "uuid \<Rightarrow> uuid \<Rightarrow> (artifact \<times> string) ci_op" where
  "OpenInOrg org aid = bnd (query Sql (\<lambda>d. List.find (\<lambda>a. af_ID a = aid \<and> af_OrgID a = org) (ci_artifacts d))) open_blob"

section \<open>Retention and deletion\<close>

definition retention_scope :: "uuid \<Rightarrow> scope" where
  "retention_scope org = \<lparr>s_OrgID = org, s_ActorID = uuid_Nil, s_ActorKind = ''service'', s_ServiceName = ''ci-retention'',
     s_Role = '''', s_PlatformWorker = '''', s_RepoLimited = False, s_Repos = Map.empty\<rparr>"

record log_identity =
  li_OrgID :: uuid
  li_JobID :: uuid
  li_ConnectionID :: "uuid option"

definition retentionScope :: "ctx \<Rightarrow> log_identity \<Rightarrow> unit ci_op" where
  "retentionScope ctx i = (case ctx of None \<Rightarrow> fail (App RetentionAuthority)
     | Some s \<Rightarrow> if s_OrgID s \<noteq> li_OrgID i \<or> s_ActorKind s \<noteq> ''service'' \<or> s_ServiceName s \<noteq> ''ci-retention''
         then fail (App RetentionAuthority) else ret ())"

definition identified :: "log_identity \<Rightarrow> cidb \<Rightarrow> wf_job \<Rightarrow> bool" where
  "identified i d j \<longleftrightarrow> cj_ID j = li_JobID i \<and> of_org d (li_OrgID i) j \<and> cj_ConnectionID j = li_ConnectionID i"

definition retireRunnerLog :: "ctx \<Rightarrow> log_identity \<Rightarrow> unit ci_op" where
  "retireRunnerLog ctx i =
     bnd (retentionScope ctx i) (\<lambda>_.
     bnd (update Sql (\<lambda>d. change_jobs (\<lambda>j. identified i d j \<and> terminalJobStatus (cj_Status j))
       (\<lambda>j. j\<lparr>cj_Retired := True, cj_SealPending := False\<rparr>) d)) (\<lambda>n.
     if n \<noteq> 1 then fail (App GenerationMismatch) else ret ()))"

definition deleteRetiredRunnerLog :: "ctx \<Rightarrow> log_identity \<Rightarrow> unit ci_op" where
  "deleteRetiredRunnerLog ctx i =
     bnd (retentionScope ctx i) (\<lambda>_.
     tx Sql (
       bnd (query Sql (\<lambda>d. List.find (identified i d) (ci_jobs d))) (\<lambda>row.
       case row of
         None \<Rightarrow> fail (App CINoRows)
       | Some j \<Rightarrow>
           if \<not> cj_Retired j then fail (App RetentionIntentMissing)
           else bnd (update Sql (\<lambda>d. ((), d\<lparr>ci_lines := filter (\<lambda>l. ll_JobID l \<noteq> li_JobID i) (ci_lines d)\<rparr>))) (\<lambda>_.
                ret (Commit ())))))"

definition defaultLogDays :: int where
  "defaultLogDays = 90"

definition default_policy :: "uuid \<Rightarrow> policy" where
  "default_policy org = \<lparr>rp_OrgID = org, rp_LogDays = defaultLogDays, rp_EvidenceDays = 0\<rparr>"

definition find_policy :: "uuid \<Rightarrow> cidb \<Rightarrow> policy option" where
  "find_policy org d = List.find (\<lambda>p. rp_OrgID p = org) (ci_policies d)"

definition Get_policy :: "uuid \<Rightarrow> policy ci_op" where
  "Get_policy org = query Sql (\<lambda>d. case find_policy org d of None \<Rightarrow> default_policy org | Some p \<Rightarrow> p)"

definition Set_policy :: "policy \<Rightarrow> unit ci_op" where
  "Set_policy p = update Sql (\<lambda>d. ((), d\<lparr>ci_policies := (if \<exists>q \<in> set (ci_policies d). rp_OrgID q = rp_OrgID p
     then update_rows (\<lambda>q. rp_OrgID q = rp_OrgID p) (\<lambda>_. p) (ci_policies d) else ci_policies d @ [p])\<rparr>))"

text \<open>A day is 24 hours. Zero days keep everything; otherwise what ended before the cutoff is due.\<close>

definition expired_at :: "time \<Rightarrow> int \<Rightarrow> time \<Rightarrow> bool" where
  "expired_at now days t \<longleftrightarrow> days \<noteq> 0 \<and> t < now - days * (86400 * second)"

definition log_days :: "cidb \<Rightarrow> uuid \<Rightarrow> int" where
  "log_days d org = (case find_policy org d of None \<Rightarrow> defaultLogDays | Some p \<Rightarrow> rp_LogDays p)"

definition log_candidates :: "time \<Rightarrow> cidb \<Rightarrow> log_identity list" where
  "log_candidates now d = concat (map (\<lambda>j. case run_of d j of
       None \<Rightarrow> []
     | Some r \<Rightarrow> (case cj_FinishedAt j of
           None \<Rightarrow> []
         | Some t \<Rightarrow> if expired_at now (log_days d (cr_OrgID r)) t
             then [\<lparr>li_OrgID = cr_OrgID r, li_JobID = cj_ID j, li_ConnectionID = cj_ConnectionID j\<rparr>] else [])) (ci_jobs d))"

fun sweep_logs :: "(uuid \<Rightarrow> string) \<Rightarrow> log_identity list \<Rightarrow> nat ci_op" where
  "sweep_logs utext [] = ret 0"
| "sweep_logs utext (i # is) =
     bnd (retireRunnerLog (Some (retention_scope (li_OrgID i))) i) (\<lambda>_.
     bnd (blob_delete (sealedObjectKey utext (li_JobID i))) (\<lambda>_.
     bnd (deleteRetiredRunnerLog (Some (retention_scope (li_OrgID i))) i) (\<lambda>_.
     bnd (sweep_logs utext is) (\<lambda>n. ret (n + 1)))))"

fun sweep_artifacts :: "artifact list \<Rightarrow> nat ci_op" where
  "sweep_artifacts [] = ret 0"
| "sweep_artifacts (a # as) =
     bnd (blob_delete (af_ObjectKey a)) (\<lambda>_.
     bnd (update Sql (\<lambda>d. ((), d\<lparr>ci_artifacts := filter (\<lambda>b. af_ID b \<noteq> af_ID a) (ci_artifacts d)\<rparr>))) (\<lambda>_.
     bnd (sweep_artifacts as) (\<lambda>n. ret (n + 1))))"

definition Sweep :: "(uuid \<Rightarrow> string) \<Rightarrow> time \<Rightarrow> nat ci_op" where
  "Sweep utext now =
     bnd (query Sql (log_candidates now)) (\<lambda>ids.
     bnd (sweep_logs utext ids) (\<lambda>n.
     bnd (query Sql (\<lambda>d. filter (\<lambda>a. expired_at now (log_days d (af_OrgID a)) (af_CreatedAt a)) (ci_artifacts d))) (\<lambda>as.
     bnd (sweep_artifacts as) (\<lambda>m. ret (n + m)))))"

definition purgeOrg :: "ctx \<Rightarrow> uuid ci_op" where
  "purgeOrg ctx = (case ctx of None \<Rightarrow> fail (App PurgeScope)
     | Some s \<Rightarrow> if s_OrgID s = uuid_Nil then fail (App PurgeScope) else ret (s_OrgID s))"

definition in_purge :: "uuid \<Rightarrow> uuid option \<Rightarrow> ci_run \<Rightarrow> bool" where
  "in_purge org repo r \<longleftrightarrow> cr_OrgID r = org \<and> (repo = None \<or> repo = Some (cr_RepoID r))"

fun delete_objects :: "string list \<Rightarrow> unit ci_op" where
  "delete_objects [] = ret ()"
| "delete_objects (k # ks) = bnd (blob_delete k) (\<lambda>_. delete_objects ks)"

fun delete_logs :: "(uuid \<Rightarrow> string) \<Rightarrow> uuid list \<Rightarrow> unit ci_op" where
  "delete_logs utext [] = ret ()"
| "delete_logs utext (j # js) = bnd (Delete_log utext j) (\<lambda>_. delete_logs utext js)"

definition purge_ci :: "(uuid \<Rightarrow> string) \<Rightarrow> time \<Rightarrow> uuid \<Rightarrow> uuid option \<Rightarrow> unit ci_op" where
  "purge_ci utext now org repo =
     bnd (query Sql (\<lambda>d. map cj_ID (filter (\<lambda>j. \<exists>r \<in> set (ci_runs d). cr_ID r = cj_RunID j \<and> in_purge org repo r) (ci_jobs d)))) (\<lambda>jobs.
     bnd (if jobs = [] then ret []
          else query Sql (\<lambda>d. map af_ObjectKey (filter (\<lambda>a. af_OrgID a = org \<and> af_JobID a \<in> set jobs) (ci_artifacts d)))) (\<lambda>keys.
     bnd (delete_objects keys) (\<lambda>_.
     bnd (delete_logs utext jobs) (\<lambda>_.
     bnd (update Sql (delete_ci_runs (in_purge org repo) now)) (\<lambda>_. ret ())))))"

definition PurgeRepository :: "(uuid \<Rightarrow> string) \<Rightarrow> ctx \<Rightarrow> time \<Rightarrow> uuid \<Rightarrow> unit ci_op" where
  "PurgeRepository utext ctx now repo = bnd (purgeOrg ctx) (\<lambda>org. purge_ci utext now org (Some repo))"

definition PurgeOrganization :: "(uuid \<Rightarrow> string) \<Rightarrow> ctx \<Rightarrow> time \<Rightarrow> unit ci_op" where
  "PurgeOrganization utext ctx now =
     bnd (purgeOrg ctx) (\<lambda>org.
     bnd (purge_ci utext now org None) (\<lambda>_.
     bnd (update Sql (\<lambda>d. ((), d\<lparr>ci_runners := filter (\<lambda>n. ru_OrgID n \<noteq> org) (ci_runners d)\<rparr>))) (\<lambda>_.
     update Sql (\<lambda>d. ((), d\<lparr>ci_policies := filter (\<lambda>p. rp_OrgID p \<noteq> org) (ci_policies d)\<rparr>)))))"

end
