(* ===== verification/NF_Redact.thy ===== *)
theory NF_Redact
  imports NF_Prelude
begin

text \<open>
  Masking of credential values in text (\<open>internal/redact\<close>). The decoders of JSON and YAML are arguments;
  the values they find are walked here as the source walks them.
\<close>

section \<open>What is masked\<close>

datatype json_value = JString string | JNumber string | JBool bool | JNull | JArray "json_value list" | JObject "(string \<times> json_value) list"

datatype yaml_node = YMapping "yaml_node list" | YSequence "yaml_node list" | YScalar string | YAlias

abbreviation Mask :: string where "Mask \<equiv> ''***''"

definition minLength :: nat where
  "minLength = 4"

definition newline_char :: "char \<Rightarrow> bool" where
  "newline_char c \<longleftrightarrow> c = CHR 0x0D \<or> c = CHR 0x0A"

text \<open>The nonempty pieces between line ends.\<close>

fun line_fields :: "string \<Rightarrow> string list" where
  "line_fields [] = [[]]"
| "line_fields (c # cs) = (if newline_char c then [] # line_fields cs
     else case line_fields cs of [] \<Rightarrow> [[c]] | l # ls \<Rightarrow> (c # l) # ls)"

definition add_value :: "string \<Rightarrow> bool \<Rightarrow> string list" where
  "add_value v structured =
     (if v \<noteq> '''' \<and> (structured \<or> minLength \<le> length v) then [v] else [])
     @ (if \<exists>c \<in> set v. newline_char c then filter (\<lambda>l. l \<noteq> '''') (line_fields v) else [])"

text \<open>Object keys are not values.\<close>

fun json_scalars :: "json_value \<Rightarrow> string list" where
  "json_scalars (JString s) = add_value s True"
| "json_scalars (JNumber s) = add_value s True"
| "json_scalars (JBool b) = add_value (if b then ''true'' else ''false'') True"
| "json_scalars JNull = add_value ''null'' True"
| "json_scalars (JArray vs) = concat (map json_scalars vs)"
| "json_scalars (JObject fs) = concat (map (\<lambda>f. json_scalars (snd f)) fs)"

text \<open>The content of a mapping alternates keys and values; aliases are not followed.\<close>

fun every_second :: "'a list \<Rightarrow> 'a list" where
  "every_second (k # v # rest) = v # every_second rest"
| "every_second _ = []"

lemma every_second_subset: "set (every_second xs) \<subseteq> set xs"
  by (induction xs rule: every_second.induct) auto

function yaml_scalars :: "yaml_node \<Rightarrow> string list" where
  "yaml_scalars (YMapping ns) = concat (map yaml_scalars (every_second ns))"
| "yaml_scalars (YSequence ns) = concat (map yaml_scalars ns)"
| "yaml_scalars (YScalar s) = add_value s True"
| "yaml_scalars YAlias = []"
  by pat_completeness auto

lemma size_list_bound: "n \<in> set ns \<Longrightarrow> size n < Suc (size_list size ns)"
  by (induction ns) auto

termination yaml_scalars
  by (relation "measure size") (auto intro!: size_list_bound dest: every_second_subset[THEN subsetD])

text \<open>
  The values of one credential: itself, and the scalars of the document it is. \<open>json\<close> decodes what is
  valid JSON; \<open>yaml\<close> answers the root of a document.
\<close>

definition value_parts :: "(string \<Rightarrow> json_value option) \<Rightarrow> (string \<Rightarrow> yaml_node option) \<Rightarrow> string \<Rightarrow> string list" where
  "value_parts json yaml v =
     add_value v False @
     (case json v of
        Some (JArray vs) \<Rightarrow> json_scalars (JArray vs)
      | Some (JObject fs) \<Rightarrow> json_scalars (JObject fs)
      | Some _ \<Rightarrow> []
      | None \<Rightarrow> (case yaml v of
            Some (YMapping ns) \<Rightarrow> yaml_scalars (YMapping ns)
          | Some (YSequence ns) \<Rightarrow> yaml_scalars (YSequence ns)
          | _ \<Rightarrow> []))"

text \<open>\<open>New\<close>: longer values first. Values of one length come in no particular order; here as they were met.\<close>

definition New_redactor :: "(string \<Rightarrow> json_value option) \<Rightarrow> (string \<Rightarrow> yaml_node option) \<Rightarrow> string list \<Rightarrow> string list" where
  "New_redactor json yaml vs = sort_key (\<lambda>v. - int (length v)) (remdups (concat (map (value_parts json yaml) vs)))"

section \<open>Masking a line\<close>

function ReplaceAll :: "string \<Rightarrow> string \<Rightarrow> string \<Rightarrow> string" where
  "ReplaceAll [] old new = []"
| "ReplaceAll (c # cs) old new =
     (if prefix old (c # cs) then new @ ReplaceAll (drop (length old - 1) cs) old new else c # ReplaceAll cs old new)"
  by pat_completeness auto

termination
  by (relation "measure (\<lambda>(s, _, _). length s)") auto

definition Line :: "string list \<Rightarrow> string \<Rightarrow> string" where
  "Line values s = fold (\<lambda>v s. if sublist v s then ReplaceAll s v Mask else s) values s"

section \<open>Nothing that is registered is left\<close>

text \<open>
  A text is cut by the masks into pieces. What a value without a star could occur in is a piece, and
  masking only cuts pieces further.
\<close>

definition star_free :: "string \<Rightarrow> bool" where
  "star_free v \<longleftrightarrow> CHR ''*'' \<notin> set v"

lemma prefix_app_star:
  assumes "prefix v (p @ CHR ''*'' # t)" and "star_free v"
  shows "prefix v p"
proof -
  from assms(1) obtain z where z: "v @ z = p @ CHR ''*'' # t" by (auto elim: prefixE)
  then obtain us where "v = p @ us \<and> us @ z = CHR ''*'' # t \<or> v @ us = p \<and> z = us @ CHR ''*'' # t"
    using append_eq_append_conv2[of v z p "CHR ''*'' # t"] by auto
  then show ?thesis
    using assms(2) by (cases us) (auto simp: star_free_def)
qed

lemma sublist_app_star:
  assumes "sublist v (p @ CHR ''*'' # t)" and "star_free v" and "v \<noteq> []"
  shows "sublist v p \<or> sublist v t"
  using assms
proof (induction p)
  case Nil
  then show ?case using prefix_app_star[of v "[]" t] by (auto simp: sublist_Cons_right)
next
  case (Cons c p)
  then show ?case using prefix_app_star[of v "c # p" t] by (auto simp: sublist_Cons_right)
qed

text \<open>Masking \<open>v\<close> brings no star-free value in.\<close>

lemma prefix_ReplaceAll:
  assumes "prefix w (ReplaceAll s v Mask)" and "star_free w"
  shows "prefix w s"
  using assms
proof (induction s v "Mask" arbitrary: w rule: ReplaceAll.induct)
  case (2 c cs v)
  show ?case
  proof (cases "prefix v (c # cs)")
    case True
    then have "prefix w (Mask @ ReplaceAll (drop (length v - 1) cs) v Mask)" using 2(3) by simp
    then have "prefix w []" using prefix_app_star[of w "[]"] 2(4) by simp
    then show ?thesis by simp
  next
    case False
    then show ?thesis using 2 by (cases w) (auto simp: star_free_def)
  qed
qed simp

lemma sublist_ReplaceAll:
  assumes "sublist w (ReplaceAll s v Mask)" and "star_free w" and "w \<noteq> []"
  shows "sublist w s"
  using assms
proof (induction s v "Mask" rule: ReplaceAll.induct)
  case (2 c cs v)
  show ?case
  proof (cases "prefix v (c # cs)")
    case True
    have "sublist w (Mask @ ReplaceAll (drop (length v - 1) cs) v Mask)" using 2(3) True by simp
    then have "sublist w (ReplaceAll (drop (length v - 1) cs) v Mask)"
      using sublist_app_star[of w "[]"] sublist_app_star[of w "[]"] 2(4,5) by auto
    then have "sublist w (drop (length v - 1) cs)" using 2(1)[OF True] 2(4,5) by simp
    then show ?thesis by (meson sublist_order.order_trans sublist_Cons_right suffix_drop suffix_imp_sublist)
  next
    case False
    then show ?thesis using 2 prefix_ReplaceAll[of w "c # cs" v] by (auto simp: sublist_Cons_right)
  qed
qed simp

lemma ReplaceAll_none:
  assumes "star_free v" and "v \<noteq> []"
  shows "\<not> sublist v (ReplaceAll s v Mask)"
  using assms
proof (induction s v "Mask" rule: ReplaceAll.induct)
  case (2 c cs v)
  show ?case
  proof (cases "prefix v (c # cs)")
    case True
    let ?t = "ReplaceAll (drop (length v - 1) cs) v Mask"
    have "\<not> sublist v ?t" using 2(1)[OF True] 2(3,4) by simp
    then have "\<not> sublist v (CHR ''*'' # ?t)" using sublist_app_star[of v "[]" ?t] 2(3,4) by auto
    then have "\<not> sublist v (CHR ''*'' # CHR ''*'' # ?t)" using sublist_app_star[of v "[]" "CHR ''*'' # ?t"] 2(3,4) by auto
    then have "\<not> sublist v (CHR ''*'' # CHR ''*'' # CHR ''*'' # ?t)"
      using sublist_app_star[of v "[]" "CHR ''*'' # CHR ''*'' # ?t"] 2(3,4) by auto
    then show ?thesis using True by simp
  next
    case False
    then have kept: "ReplaceAll (c # cs) v Mask = c # ReplaceAll cs v Mask" by simp
    then have "\<not> prefix v (c # ReplaceAll cs v Mask)"
      using prefix_ReplaceAll[of v "c # cs" v] 2(3) False by metis
    moreover have "\<not> sublist v (ReplaceAll cs v Mask)" using 2(2)[OF False] 2(3,4) by simp
    ultimately show ?thesis unfolding kept sublist_Cons_right by blast
  qed
qed simp

lemma Line_keeps_out:
  assumes "\<not> sublist w s" and "star_free w" and "w \<noteq> []"
  shows "\<not> sublist w (Line vs s)"
  using assms(1)
proof (induction vs arbitrary: s)
  case (Cons v vs)
  have "\<not> sublist w (if sublist v s then ReplaceAll s v Mask else s)"
    using Cons.prems sublist_ReplaceAll[OF _ assms(2,3)] by auto
  then show ?case using Cons.IH by (simp add: Line_def)
qed (simp add: Line_def)

lemma nothing_registered_is_left:
  assumes "v \<in> set vs" and "star_free v" and "v \<noteq> []"
  shows "\<not> sublist v (Line vs s)"
  using assms(1)
proof (induction vs arbitrary: s)
  case (Cons u vs)
  let ?s = "if sublist u s then ReplaceAll s u Mask else s"
  show ?case
  proof (cases "v = u")
    case True
    then have "\<not> sublist v ?s" using ReplaceAll_none[OF assms(2,3)] by simp
    then show ?thesis using Line_keeps_out[OF _ assms(2,3), of ?s vs] by (simp add: Line_def)
  next
    case False
    then show ?thesis using Cons.IH[of ?s] Cons.prems by (simp add: Line_def)
  qed
qed simp

lemma add_value_nonempty: "p \<in> set (add_value v st) \<Longrightarrow> p \<noteq> []"
  by (auto simp: add_value_def split: if_splits)

lemma json_scalars_nonempty: "p \<in> set (json_scalars j) \<Longrightarrow> p \<noteq> []"
  by (induction j rule: json_scalars.induct) (auto dest: add_value_nonempty split: if_splits)

lemma yaml_scalars_nonempty: "p \<in> set (yaml_scalars n) \<Longrightarrow> p \<noteq> []"
  by (induction n rule: yaml_scalars.induct) (auto dest: add_value_nonempty)

lemma value_parts_cases:
  assumes "p \<in> set (value_parts json yaml v)"
  obtains "p \<in> set (add_value v False)" | j where "p \<in> set (json_scalars j)" | n where "p \<in> set (yaml_scalars n)"
proof (cases "json v")
  case None
  show ?thesis
  proof (cases "yaml v")
    case None': (Some n)
    show ?thesis using assms that None None' by (cases n) (auto simp: value_parts_def simp del: yaml_scalars.simps)
  qed (use assms that None in \<open>auto simp: value_parts_def\<close>)
next
  case (Some j)
  show ?thesis using assms that Some by (cases j) (auto simp: value_parts_def simp del: json_scalars.simps)
qed

lemma value_parts_nonempty: "p \<in> set (value_parts json yaml v) \<Longrightarrow> p \<noteq> []"
  by (erule value_parts_cases) (auto dest: add_value_nonempty json_scalars_nonempty yaml_scalars_nonempty)

lemma Line_id: "(\<And>v. v \<in> set vs \<Longrightarrow> \<not> sublist v s) \<Longrightarrow> Line vs s = s"
  by (induction vs) (auto simp: Line_def)

text \<open>
  C26. Masking is exact. Whatever credentials a job was given, no value of them that is registered (an
  opaque value of four characters or more, each line of a value of several lines, each scalar of a
  JSON or YAML document, whatever its length) is left anywhere in a masked line, provided it contains
  no star; and a line in which none of them occurs is left as it is.
\<close>

theorem masking_is_exact:
  assumes "v \<in> set vs" and "p \<in> set (value_parts json yaml v)" and "star_free p"
  shows "\<not> sublist p (Line (New_redactor json yaml vs) s)
    \<and> ((\<forall>u \<in> set vs. \<forall>q \<in> set (value_parts json yaml u). \<not> sublist q t) \<longrightarrow> Line (New_redactor json yaml vs) t = t)"
proof (intro conjI impI)
  have "p \<in> set (New_redactor json yaml vs)" using assms(1,2) by (auto simp: New_redactor_def)
  then show "\<not> sublist p (Line (New_redactor json yaml vs) s)"
    using assms(3) value_parts_nonempty[OF assms(2)] by (rule nothing_registered_is_left)
qed (rule Line_id, auto simp: New_redactor_def)

lemma opaque_value_is_registered: "minLength \<le> length v \<Longrightarrow> v \<in> set (value_parts json yaml v)"
  by (auto simp: value_parts_def add_value_def minLength_def)

text \<open>A value of one line of a private key, and the short password of a document.\<close>

definition rdx_json :: "string \<Rightarrow> json_value option" where
  "rdx_json v = (if v = ''{\"p\":\"pw\"}'' then Some (JObject [(''p'', JString ''pw'')]) else None)"

theorem masking_is_exact_witness:
  "\<not> sublist ''pw'' (Line (New_redactor rdx_json (\<lambda>_. None) [''{\"p\":\"pw\"}'', ''secret'']) ''login pw secret'')"
proof -
  let ?v = "''{\"p\":\"pw\"}''"
  have "''pw'' \<in> set (value_parts rdx_json (\<lambda>_. None) ?v)" by (simp add: value_parts_def rdx_json_def add_value_def)
  moreover have "star_free ''pw''" by (simp add: star_free_def)
  ultimately show ?thesis using masking_is_exact[of ?v "[?v, ''secret'']" "''pw''"] by simp
qed

end
