(* ===== verification/NF_CIWork.thy ===== *)
theory NF_CIWork
  imports NF_CI NF_Redact NF_WorkExec
begin

text \<open>
  How continuous integration works on its store: the workflow document, the scheduler, the dispatcher and
  the pump, agent jobs, and the two gRPC services (\<open>internal/ci\<close>: workflow, scheduler, trigger, dispatch,
  credentials, pump, agent jobs, redactions, runnerauth, grpc, query). Decoded documents, tokens and the
  answers of other services are arguments.
\<close>

section \<open>The workflow document\<close>

record workflow_job =
  wj_Run :: string
  wj_Agent :: string
  wj_Needs :: "string list"
  wj_Image :: string
  wj_Secrets :: "string list"
  wj_Environment :: string
  wj_Artifacts :: "string list"

text \<open>The jobs of a workflow by name, in the order in which the map is walked.\<close>

type_synonym workflow = "(string \<times> workflow_job) list"

definition upper_char :: "char \<Rightarrow> bool" where
  "upper_char c \<longleftrightarrow> CHR ''A'' \<le> c \<and> c \<le> CHR ''Z'' \<or> c = CHR ''_''"

definition digit_char :: "char \<Rightarrow> bool" where
  "digit_char c \<longleftrightarrow> CHR ''0'' \<le> c \<and> c \<le> CHR ''9''"

text \<open>\<open>^[A-Z_][A-Z0-9_]{0,127}$\<close>\<close>

definition secret_name :: "string \<Rightarrow> bool" where
  "secret_name s = (case s of [] \<Rightarrow> False | c # cs \<Rightarrow> upper_char c \<and> length cs \<le> 127 \<and> (\<forall>d \<in> set cs. upper_char d \<or> digit_char d))"

definition job_permitted :: "workflow_job \<Rightarrow> bool" where
  "job_permitted j \<longleftrightarrow> wj_Environment j \<in> {'''', ''staging'', ''production''} \<and> (\<forall>s \<in> set (wj_Secrets j). secret_name s)
     \<and> \<not> (wj_Secrets j \<noteq> [] \<and> wj_Agent j \<noteq> '''')"

text \<open>The three passes over the decoded document; \<open>None\<close> is an error.\<close>

definition ParseWorkflow :: "workflow option \<Rightarrow> workflow option" where
  "ParseWorkflow doc = (case doc of
       None \<Rightarrow> None
     | Some w \<Rightarrow>
         if \<exists>(_, j) \<in> set w. (wj_Run j \<noteq> '''') = (wj_Agent j \<noteq> '''') then None
         else if \<exists>(_, j) \<in> set w. \<not> job_permitted j then None
         else if \<exists>(_, j) \<in> set w. \<exists>need \<in> set (wj_Needs j). need \<notin> fst ` set w then None
         else Some w)"

text \<open>
  Kahn's algorithm. The degrees and the dependents are association lists; an entry of the queue goes
  out, and what it was the last need of goes in.
\<close>

definition degrees :: "workflow \<Rightarrow> (string \<times> int) list" where
  "degrees w = map (\<lambda>(n, j). (n, int (length (wj_Needs j)))) w"

definition dependents :: "workflow \<Rightarrow> string \<Rightarrow> string list" where
  "dependents w need = concat (map (\<lambda>(n, j). replicate (count_list (wj_Needs j) need) n) w)"

definition sort_names :: "string list \<Rightarrow> string list" where
  "sort_names = sort_key (\<lambda>s. map of_char s :: nat list)"

fun lower :: "string list \<Rightarrow> (string \<times> int) list \<Rightarrow> string list \<Rightarrow> (string \<times> int) list \<times> string list" where
  "lower [] deg queue = (deg, queue)"
| "lower (n # ns) deg queue =
     (let deg' = map (\<lambda>(m, k). if m = n then (m, k - 1) else (m, k)) deg in
      lower ns deg' (if map_of deg' n = Some 0 then queue @ [n] else queue))"

text \<open>Each step takes one name out of the queue; a name enters it when its degree falls from one to zero.\<close>

definition waiting :: "(string \<times> int) list \<Rightarrow> nat" where
  "waiting deg = card {n. \<exists>k. map_of deg n = Some k \<and> 0 < k}"

lemma finite_waiting: "finite {n. \<exists>k. map_of deg n = Some k \<and> 0 < k}"
  by (rule finite_subset[of _ "fst ` set deg"]) (auto dest: map_of_SomeD intro: finite_imageI rev_image_eqI)

lemma map_of_lower1: "map_of (map (\<lambda>(m, k). if m = n then (m, k - 1) else (m, k)) deg) x =
    (if x = n then map_option (\<lambda>k. k - 1) (map_of deg x) else map_of deg x)"
  for deg :: "(string \<times> int) list"
  by (induction deg) auto

lemma lower_bound: "lower ns deg queue = (deg', queue') \<Longrightarrow> length queue' + waiting deg' \<le> length queue + waiting deg"
proof (induction ns arbitrary: deg queue)
  case (Cons n ns)
  let ?deg = "map (\<lambda>(m, k). if m = n then (m, k - 1) else (m, k)) deg"
  let ?W = "\<lambda>deg :: (string \<times> int) list. {n. \<exists>k. map_of deg n = Some k \<and> 0 < k}"
  have sub: "?W ?deg \<subseteq> ?W deg" by (auto simp: map_of_lower1 split: if_splits)
  have "length (if map_of ?deg n = Some 0 then queue @ [n] else queue) + waiting ?deg \<le> length queue + waiting deg"
  proof (cases "map_of ?deg n = Some 0")
    case True
    then have "n \<in> ?W deg" "n \<notin> ?W ?deg" by (auto simp: map_of_lower1)
    then have "?W ?deg \<subset> ?W deg" using sub by blast
    then have "waiting ?deg < waiting deg" unfolding waiting_def by (intro psubset_card_mono finite_waiting)
    then show ?thesis using True by simp
  next
    case False
    then show ?thesis using card_mono[OF finite_waiting sub] by (simp add: waiting_def)
  qed
  then show ?case using Cons.IH[of ?deg] Cons.prems by (fastforce simp: Let_def)
qed simp

lemma length_sort_names [simp]: "length (sort_names q) = length q"
  by (simp add: sort_names_def)

function kahn :: "workflow \<Rightarrow> (string \<times> int) list \<Rightarrow> string list \<Rightarrow> string list" where
  "kahn w deg queue = (case sort_names queue of
       [] \<Rightarrow> []
     | n # rest \<Rightarrow> (case lower (dependents w n) deg rest of (deg', queue') \<Rightarrow> n # kahn w deg' queue'))"
  by pat_completeness auto

lemma kahn_decreases:
  assumes "sort_names queue = n # rest" and "lower (dependents w n) deg rest = (deg', queue')"
  shows "length queue' + waiting deg' < length queue + waiting deg"
proof -
  have "length queue = Suc (length rest)" using assms(1) by (metis length_sort_names length_Cons)
  then show ?thesis using lower_bound[OF assms(2)] by simp
qed

termination kahn
  by (relation "measure (\<lambda>(_, deg, queue). length queue + waiting deg)") (auto intro: kahn_decreases split: prod.splits)

declare kahn.simps [simp del]

definition TopoSort :: "workflow \<Rightarrow> string list option" where
  "TopoSort w =
     (let order = kahn w (degrees w) (map fst (filter (\<lambda>(_, k). k = 0) (degrees w))) in
      if length order \<noteq> length w then None else Some order)"

section \<open>The scheduler\<close>

record push_event =
  pe_OrgID :: uuid
  pe_RepoID :: uuid
  pe_RepoName :: string
  pe_Ref :: string
  pe_NewSHA :: string
  pe_PusherID :: uuid
  pe_PusherKind :: string

definition job_of :: "uuid \<Rightarrow> string \<times> workflow_job \<Rightarrow> wf_job" where
  "job_of rid nj = (case nj of (name, j) \<Rightarrow> \<lparr>cj_ID = uuid_Nil, cj_RunID = rid, cj_Name = name, cj_Needs = wj_Needs j,
     cj_RunCmd = wj_Run j, cj_AgentRole = wj_Agent j, cj_Image = wj_Image j, cj_Status = '''', cj_ArtifactPaths = wj_Artifacts j,
     cj_RunnerID = None, cj_Detail = '''', cj_StartedAt = None, cj_FinishedAt = None, cj_AgentRunID = None, cj_WorkItemKey = '''',
     cj_Secrets = wj_Secrets j, cj_Environment = wj_Environment j, cj_NotBefore = None, cj_ConnectionID = None, cj_Journal = False,
     cj_LogSequence = 0, cj_Receipt = None, cj_SealPending = False, cj_Retired = False, cj_SealAttempted = None\<rparr>)"

text \<open>Each job is inserted by a statement of its own; \<open>ids\<close> are the identifiers that are drawn.\<close>

fun create_jobs :: "(nat \<Rightarrow> uuid) \<Rightarrow> uuid \<Rightarrow> workflow \<Rightarrow> unit ci_op" where
  "create_jobs ids rid [] = ret ()"
| "create_jobs ids rid (nj # w) = bnd (CreateJob (ids (length w)) (job_of rid nj)) (\<lambda>_. create_jobs ids rid w)"

text \<open>\<open>blob\<close> answers the workflow file at the commit, decoded, or an error of the git service.\<close>

definition ScheduleRun :: "grpc_code + workflow option \<Rightarrow> uuid \<Rightarrow> (nat \<Rightarrow> uuid) \<Rightarrow> time \<Rightarrow> ctx \<Rightarrow> uuid \<Rightarrow> uuid \<Rightarrow> string
    \<Rightarrow> string \<Rightarrow> string \<Rightarrow> uuid \<Rightarrow> ci_run ci_op" where
  "ScheduleRun blob new_id ids now ctx orgID repoID repoName ref sha triggeredBy =
     (case blob of
        Inl c \<Rightarrow> if c = NotFound then fail (App NoWorkflow) else fail (App (Peer c))
      | Inr doc \<Rightarrow> (case ParseWorkflow doc of
            None \<Rightarrow> fail (App InvalidWorkflow)
          | Some w \<Rightarrow>
              if w = [] then fail (App NoWorkflow)
              else bnd (CreateRun new_id now \<lparr>cr_ID = uuid_Nil, cr_OrgID = orgID, cr_RepoID = repoID, cr_RepoName = repoName,
                     cr_CommitSHA = sha, cr_Ref = ref, cr_Status = '''', cr_CreatedAt = 0, cr_TriggeredBy = triggeredBy\<rparr>) (\<lambda>created.
                   case created of
                     None \<Rightarrow> GetRunForCommit ctx repoID sha ref
                   | Some run \<Rightarrow> bnd (create_jobs ids (cr_ID run) w) (\<lambda>_. ret run))))"

text \<open>
  The handler of a push. The scheduler adds its token to the outgoing calls; what the store reads is
  the scope of \<open>ctx\<close>, and the loop that calls the handler carries none.
\<close>

definition handlePush :: "grpc_code + workflow option \<Rightarrow> uuid \<Rightarrow> (nat \<Rightarrow> uuid) \<Rightarrow> time \<Rightarrow> ctx \<Rightarrow> push_event \<Rightarrow> unit ci_op" where
  "handlePush blob new_id ids now ctx evt =
     bnd (attempt (ScheduleRun blob new_id ids now ctx (pe_OrgID evt) (pe_RepoID evt) (pe_RepoName evt) (pe_Ref evt) (pe_NewSHA evt)
       (if pe_PusherKind evt = ''user'' then pe_PusherID evt else uuid_Nil))) (\<lambda>r.
     case r of
       Inr _ \<Rightarrow> ret ()
     | Inl e \<Rightarrow> if e = App NoWorkflow \<or> e = App InvalidWorkflow then ret () else fail e)"

text \<open>A message is acknowledged when its handler returns no error.\<close>

definition acknowledged :: "('e + unit) \<Rightarrow> bool" where
  "acknowledged r \<longleftrightarrow> (case r of Inl _ \<Rightarrow> False | Inr _ \<Rightarrow> True)"

text \<open>\<open>resolveRefSHA\<close> and \<open>TriggerRun\<close>: a run on demand; \<open>commits\<close> and \<open>repo\<close> are the answers of the git service.\<close>

definition resolveRefSHA :: "grpc_code + string list \<Rightarrow> cierr + string" where
  "resolveRefSHA commits = (case commits of
       Inl _ \<Rightarrow> Inl (Reply NotFound)
     | Inr [] \<Rightarrow> Inl (Reply NotFound)
     | Inr (sha # _) \<Rightarrow> if TrimSpace sha = '''' then Inl (Reply Internal) else Inr (TrimSpace sha))"

definition ci_scope :: "ctx \<Rightarrow> scope ci_op" where
  "ci_scope ctx = (case ctx of None \<Rightarrow> fail (App (Reply Unauthenticated))
     | Some s \<Rightarrow> if s_OrgID s = uuid_Nil then fail (App (Reply Unauthenticated)) else ret s)"

record repo_info =
  ri_Name :: string
  ri_DefaultBranch :: string

definition TriggerRun :: "(uuid \<Rightarrow> grpc_code + repo_info) \<Rightarrow> (uuid \<Rightarrow> string \<Rightarrow> grpc_code + string list)
    \<Rightarrow> (uuid \<Rightarrow> string \<Rightarrow> grpc_code + workflow option) \<Rightarrow> uuid \<Rightarrow> (nat \<Rightarrow> uuid) \<Rightarrow> time \<Rightarrow> ctx \<Rightarrow> uuid option \<Rightarrow> string \<Rightarrow> ci_run ci_op" where
  "TriggerRun repos commits blobs new_id ids now ctx repo ref0 =
     bnd (ci_scope ctx) (\<lambda>sc.
     case repo of
       None \<Rightarrow> fail (App (Reply InvalidArgument))
     | Some repoID \<Rightarrow>
         (case repos repoID of
            Inl _ \<Rightarrow> fail (App (Reply NotFound))
          | Inr info \<Rightarrow>
              (let ref = (if ref0 = '''' then ri_DefaultBranch info else ref0) in
               bnd (lift (map_sum App id (resolveRefSHA (commits repoID ref)))) (\<lambda>sha.
               wrap (\<lambda>e. if e = App NoWorkflow \<or> e = App InvalidWorkflow then App (Reply FailedPrecondition) else App (Reply Internal))
                 (ScheduleRun (blobs repoID sha) new_id ids now ctx (s_OrgID sc) repoID (ri_Name info) ref sha
                   (if s_ActorKind sc = ''user'' then s_ActorID sc else uuid_Nil))))))"

section \<open>The dispatcher\<close>

record registered_runner =
  rg_ConnectionID :: uuid
  rg_Labels :: "string list"
  rg_LastDispatch :: time

text \<open>The runners that hold a stream to this replica, in the order in which the map is walked.\<close>

type_synonym dispatcher = "(uuid \<times> registered_runner) list"

definition put_runner :: "uuid \<Rightarrow> registered_runner \<Rightarrow> dispatcher \<Rightarrow> dispatcher" where
  "put_runner rid r d = (rid, r) # filter (\<lambda>p. fst p \<noteq> rid) d"

definition Register :: "uuid \<Rightarrow> string list \<Rightarrow> uuid list \<Rightarrow> dispatcher \<Rightarrow> dispatcher" where
  "Register rid labels connections d = put_runner rid \<lparr>rg_ConnectionID = (case connections of [] \<Rightarrow> uuid_Nil | c # _ \<Rightarrow> c),
     rg_Labels = labels, rg_LastDispatch = epoch\<rparr> d"

fun fail_jobs :: "time \<Rightarrow> uuid list \<Rightarrow> unit ci_op" where
  "fail_jobs now [] = ret ()"
| "fail_jobs now (j # js) = bnd (attempt (SetJobStatus now j ''failure'' ''runner disconnected'')) (\<lambda>_. fail_jobs now js)"

definition Unregister :: "time \<Rightarrow> uuid \<Rightarrow> dispatcher \<Rightarrow> dispatcher ci_op" where
  "Unregister now rid d =
     (let d' = filter (\<lambda>p. fst p \<noteq> rid) d in
      if map_of d rid = None then ret d'
      else bnd (attempt (ActiveJobsForRunner rid)) (\<lambda>r.
           case r of Inl _ \<Rightarrow> ret d' | Inr jobs \<Rightarrow> bnd (fail_jobs now jobs) (\<lambda>_. ret d')))"

definition hasAllLabels :: "string list \<Rightarrow> string list \<Rightarrow> bool" where
  "hasAllLabels have want \<longleftrightarrow> set want \<subseteq> set have"

fun least_recent :: "string list \<Rightarrow> dispatcher \<Rightarrow> (uuid \<times> registered_runner) option \<Rightarrow> (uuid \<times> registered_runner) option" where
  "least_recent want [] best = best"
| "least_recent want (p # d) best =
     least_recent want d
       (if \<not> hasAllLabels (rg_Labels (snd p)) want then best
        else case best of
            None \<Rightarrow> Some p
          | Some b \<Rightarrow> if rg_LastDispatch (snd p) < rg_LastDispatch (snd b) then Some p else best)"

text \<open>The result is the runner that was chosen and whether its channel took the job; \<open>accepts\<close> says which do in time.\<close>

definition Dispatch :: "(uuid \<Rightarrow> bool) \<Rightarrow> time \<Rightarrow> string list \<Rightarrow> dispatcher \<Rightarrow> (uuid \<times> bool) option \<times> dispatcher" where
  "Dispatch accepts now want d = (case least_recent want d None of
       None \<Rightarrow> (None, d)
     | Some (rid, _) \<Rightarrow> (Some (rid, accepts rid),
         map (\<lambda>(i, r). if i = rid then (i, r\<lparr>rg_LastDispatch := now\<rparr>) else (i, r)) d))"

definition DispatchTo :: "(uuid \<Rightarrow> bool) \<Rightarrow> uuid \<Rightarrow> dispatch_job \<Rightarrow> dispatcher \<Rightarrow> bool" where
  "DispatchTo accepts rid job d = (case map_of d rid of
       None \<Rightarrow> False
     | Some r \<Rightarrow> rg_ConnectionID r = dj_ConnectionID job \<and> accepts rid)"

definition UnregisterConnection :: "time \<Rightarrow> uuid \<Rightarrow> uuid \<Rightarrow> dispatcher \<Rightarrow> dispatcher ci_op" where
  "UnregisterConnection now rid connection d =
     bnd (attempt (EndRunnerConnection now rid connection)) (\<lambda>_.
     ret (filter (\<lambda>p. \<not> (fst p = rid \<and> rg_ConnectionID (snd p) = connection)) d))"

text \<open>The connection is known to the caller even where the activation fails after it was recorded.\<close>

definition activateConnection :: "bool \<Rightarrow> uuid \<Rightarrow> time \<Rightarrow> uuid \<Rightarrow> dispatcher \<Rightarrow> (uuid \<times> bool \<times> dispatcher) ci_op" where
  "activateConnection accepted new_id now rid d =
     bnd (attempt (BeginRunnerConnection new_id now rid)) (\<lambda>r.
     case r of
       Inl _ \<Rightarrow> ret (uuid_Nil, False, d)
     | Inr connection \<Rightarrow>
         bnd (attempt (RunnerLabels rid)) (\<lambda>l.
         case l of
           Inl _ \<Rightarrow> ret (connection, False, d)
         | Inr labels \<Rightarrow>
             if \<not> accepted then ret (connection, False, d)
             else ret (connection, True, put_runner rid \<lparr>rg_ConnectionID = connection, rg_Labels = labels, rg_LastDispatch = epoch\<rparr> d)))"

section \<open>Credentials of a job\<close>

record lease_request =
  lr_AttemptID :: uuid
  lr_OrgID :: uuid
  lr_JobID :: uuid
  lr_RepoID :: uuid
  lr_Ref :: string
  lr_Environment :: string
  lr_Name :: string

record broker =
  bk_issue :: "lease_request \<Rightarrow> grpc_code + (uuid \<times> string)"
  bk_redeem :: "uuid \<Rightarrow> uuid \<Rightarrow> string \<Rightarrow> grpc_code + string"
  bk_revoke :: "uuid \<times> uuid \<times> uuid \<Rightarrow> unit + (bool \<times> int)"

datatype credential_error = CredUnavailable | CredDenied

definition classifyBrokerError :: "grpc_code \<Rightarrow> credential_error" where
  "classifyBrokerError c = (if c \<in> {PermissionDenied, NotFound, InvalidArgument, FailedPrecondition, Unauthenticated}
     then CredDenied else CredUnavailable)"

definition StateAfterCredentialResolution :: "credential_error option \<Rightarrow> string" where
  "StateAfterCredentialResolution e = (case e of None \<Rightarrow> '''' | Some CredUnavailable \<Rightarrow> ''pending'' | Some CredDenied \<Rightarrow> ''failure'')"

definition put_env :: "string \<Rightarrow> string \<Rightarrow> (string \<times> string) list \<Rightarrow> (string \<times> string) list" where
  "put_env name v env = (name, v) # filter (\<lambda>p. fst p \<noteq> name) env"

fun resolve_secrets :: "broker \<Rightarrow> uuid \<Rightarrow> uuid \<Rightarrow> dispatch_job \<Rightarrow> string list \<Rightarrow> (string \<times> string) list
    \<Rightarrow> uuid list \<times> (credential_error + (string \<times> string) list)" where
  "resolve_secrets b org att job [] env = ([], Inr env)"
| "resolve_secrets b org att job (name # names) env =
     (case bk_issue b \<lparr>lr_AttemptID = att, lr_OrgID = org, lr_JobID = dj_JobID job, lr_RepoID = dj_RepoID job, lr_Ref = dj_Ref job,
             lr_Environment = dj_Environment job, lr_Name = name\<rparr> of
        Inl c \<Rightarrow> ([], Inl (classifyBrokerError c))
      | Inr (lease, token) \<Rightarrow>
          (case bk_redeem b org (dj_JobID job) token of
             Inl c \<Rightarrow> ([lease], Inl (classifyBrokerError c))
           | Inr v \<Rightarrow> (case resolve_secrets b org att job names (put_env name v env) of (leases, r) \<Rightarrow> (lease # leases, r))))"

text \<open>
  All of a job's secrets, or none. After a failure the attempt is revoked; leases whose revocation is
  not confirmed come back with the error.
\<close>

definition ResolveJobCredentials :: "broker option \<Rightarrow> uuid \<Rightarrow> uuid \<Rightarrow> dispatch_job \<Rightarrow> (credential_error \<times> uuid list) + (string \<times> string) list" where
  "ResolveJobCredentials b org att job =
     (if dj_Secrets job = [] then Inr []
      else case b of
          None \<Rightarrow> Inl (CredDenied, [])
        | Some b \<Rightarrow>
            (case resolve_secrets b org att job (dj_Secrets job) [] of
               (leases, Inr env) \<Rightarrow> Inr env
             | (leases, Inl e) \<Rightarrow> (case bk_revoke b (org, dj_JobID job, att) of
                   Inl _ \<Rightarrow> Inl (e, leases)
                 | Inr (fenced, pending) \<Rightarrow> Inl (e, if \<not> fenced \<or> 0 < pending then leases else []))))"

section \<open>Masks\<close>

text \<open>The values to mask, by job, in the memory of the replica that dispatched it.\<close>

type_synonym masks = "(uuid \<times> string list) list"

definition register_masks :: "uuid \<Rightarrow> string list \<Rightarrow> string list \<Rightarrow> masks \<Rightarrow> masks" where
  "register_masks job values redactor ms = (if values = [] then ms else (job, redactor) # filter (\<lambda>p. fst p \<noteq> job) ms)"

definition forget_masks :: "uuid \<Rightarrow> masks \<Rightarrow> masks" where
  "forget_masks job ms = filter (\<lambda>p. fst p \<noteq> job) ms"

definition SuppressedCredentialOutput :: string where
  "SuppressedCredentialOutput = ''[output suppressed: credential masking context unavailable]''"

definition mask :: "masks \<Rightarrow> uuid \<Rightarrow> string \<Rightarrow> bool \<Rightarrow> string" where
  "mask ms job line sensitive = (case map_of ms job of
       None \<Rightarrow> if sensitive then SuppressedCredentialOutput else line
     | Some values \<Rightarrow> Line values line)"

definition maskRunnerOutput :: "masks \<Rightarrow> uuid \<Rightarrow> string \<Rightarrow> string ci_op" where
  "maskRunnerOutput ms job line =
     bnd (attempt (GetJob job)) (\<lambda>r.
     case r of Inl _ \<Rightarrow> ret SuppressedCredentialOutput | Inr j \<Rightarrow> ret (mask ms job line (cj_Secrets j \<noteq> [])))"

section \<open>The pump\<close>

text \<open>
  \<open>mint\<close> signs a service token for an organization; \<open>parse\<close> parses the clone base and writes it back with a
  password and a path.
\<close>

definition cloneURL :: "string \<Rightarrow> (uuid \<Rightarrow> unit + string) \<Rightarrow> (string \<Rightarrow> (string \<Rightarrow> string \<Rightarrow> string) option) \<Rightarrow> (uuid \<Rightarrow> string)
    \<Rightarrow> uuid \<Rightarrow> string \<Rightarrow> unit + string" where
  "cloneURL base mint parse utext org repoName =
     (if base = '''' then Inr ''''
      else case mint org of
          Inl e \<Rightarrow> Inl e
        | Inr tok \<Rightarrow> (case parse base of
              None \<Rightarrow> Inl ()
            | Some url \<Rightarrow> if repoName = '''' then Inl () else Inr (url tok (''/'' @ utext org @ ''/'' @ repoName @ ''.git''))))"

text \<open>What the pump is deployed with.\<close>

record pump =
  pp_broker :: "broker option"
  pp_redactor :: "string list \<Rightarrow> string list"
  pp_clone :: "uuid \<Rightarrow> string \<Rightarrow> unit + string"
  pp_accepts :: "uuid \<Rightarrow> bool"

definition maxClaimsPerRunner :: nat where
  "maxClaimsPerRunner = 8"

definition credentialRetryAfter :: time where
  "credentialRetryAfter = 15 * second"

definition releaseClaim :: "time \<Rightarrow> uuid \<Rightarrow> string \<Rightarrow> time \<Rightarrow> unit ci_op" where
  "releaseClaim now job detail until = bnd (attempt (BlockJob now job detail until)) (\<lambda>_. ret ())"

text \<open>Whether the reservation may be let go: an attempt that was prepared has first to be handed to the clean-up.\<close>

definition abandon :: "time \<Rightarrow> uuid \<Rightarrow> uuid \<Rightarrow> uuid \<Rightarrow> uuid list \<Rightarrow> bool ci_op" where
  "abandon now org job att leases =
     (if att = uuid_Nil then ret True
      else bnd (attempt (abandonCredentials now org job att leases)) (\<lambda>r. ret (case r of Inl _ \<Rightarrow> False | Inr _ \<Rightarrow> True)))"

definition send_job :: "pump \<Rightarrow> time \<Rightarrow> uuid \<Rightarrow> uuid \<Rightarrow> uuid \<Rightarrow> dispatch_job \<Rightarrow> dispatcher \<Rightarrow> masks \<Rightarrow> (bool \<times> masks) ci_op" where
  "send_job p now rid org att job d ms =
     (let undo = bnd (abandon now org (dj_JobID job) att []) (\<lambda>released.
           bnd (if released then releaseClaim now (dj_JobID job) '''' now else ret ()) (\<lambda>_.
           ret (True, forget_masks (dj_JobID job) ms))) in
      bnd (attempt (StartClaimedJob now (dj_JobID job) rid [att])) (\<lambda>r.
      case r of
        Inl _ \<Rightarrow> undo
      | Inr _ \<Rightarrow> if DispatchTo (pp_accepts p) rid job d then ret (True, ms) else undo))"

definition offer :: "pump \<Rightarrow> time \<Rightarrow> uuid \<Rightarrow> uuid \<times> registered_runner \<Rightarrow> dispatcher \<Rightarrow> masks \<Rightarrow> (bool \<times> masks) ci_op" where
  "offer p now att rn d ms = (case rn of (rid, r) \<Rightarrow>
     bnd (attempt (ClaimForDispatch now rid (rg_Labels r) [rg_ConnectionID r])) (\<lambda>claimed.
     case claimed of
       Inl _ \<Rightarrow> ret (True, ms)
     | Inr (job0, org) \<Rightarrow>
         (case pp_clone p org (dj_RepoCloneURL job0) of
            Inl _ \<Rightarrow> bnd (attempt (SetJobStatus now (dj_JobID job0) ''failure'' ''clone url'')) (\<lambda>_. ret (False, ms))
          | Inr url \<Rightarrow>
              (let job = job0\<lparr>dj_RepoCloneURL := url\<rparr> in
               if dj_Secrets job = [] then send_job p now rid org uuid_Nil job d ms
               else
                 bnd (attempt (prepareCredentials now org (dj_JobID job) rid att)) (\<lambda>prepared.
                 case prepared of
                   Inl _ \<Rightarrow> bnd (releaseClaim now (dj_JobID job) ''credential preparation unavailable'' (now + credentialRetryAfter))
                       (\<lambda>_. ret (False, ms))
                 | Inr _ \<Rightarrow>
                     (case ResolveJobCredentials (pp_broker p) org att job of
                        Inl (e, leases) \<Rightarrow>
                          bnd (abandon now org (dj_JobID job) att leases) (\<lambda>released.
                          if \<not> released then ret (True, ms)
                          else bnd (if StateAfterCredentialResolution (Some e) = ''pending''
                                    then releaseClaim now (dj_JobID job) ''blocked'' (now + credentialRetryAfter)
                                    else bnd (attempt (SetJobStatus now (dj_JobID job) ''failure'' ''credentials denied'')) (\<lambda>_. ret ()))
                               (\<lambda>_. ret (False, ms)))
                      | Inr env \<Rightarrow>
                          send_job p now rid org att (job\<lparr>dj_SecretEnv := env\<rparr>) d
                            (register_masks (dj_JobID job) (map snd env) (pp_redactor p (map snd env)) ms)))))))"

text \<open>
  One runner in one tick: at most eight claims, until one ends the tick for it. The texts of the details
  are shortened to what they begin with; \<open>atts\<close> are the attempts that are drawn.
\<close>

fun offers :: "nat \<Rightarrow> pump \<Rightarrow> time \<Rightarrow> (nat \<Rightarrow> uuid) \<Rightarrow> uuid \<times> registered_runner \<Rightarrow> dispatcher \<Rightarrow> masks \<Rightarrow> masks ci_op" where
  "offers 0 p now atts rn d ms = ret ms"
| "offers (Suc n) p now atts rn d ms =
     bnd (offer p now (atts n) rn d ms) (\<lambda>(done, ms'). if done then ret ms' else offers n p now atts rn d ms')"

fun tick_runners :: "pump \<Rightarrow> time \<Rightarrow> (uuid \<Rightarrow> nat \<Rightarrow> uuid) \<Rightarrow> dispatcher \<Rightarrow> dispatcher \<Rightarrow> masks \<Rightarrow> masks ci_op" where
  "tick_runners p now atts [] d ms = ret ms"
| "tick_runners p now atts (rn # rns) d ms =
     bnd (offers maxClaimsPerRunner p now (atts (fst rn)) rn d ms) (tick_runners p now atts rns d)"

definition tick :: "pump \<Rightarrow> time \<Rightarrow> (uuid \<Rightarrow> nat \<Rightarrow> uuid) \<Rightarrow> dispatcher \<Rightarrow> masks \<Rightarrow> masks ci_op" where
  "tick p now atts d ms = tick_runners p now atts d d ms"

section \<open>Agent jobs\<close>

record agent_info =
  ag_ID :: uuid
  ag_Enabled :: bool
  ag_Role :: string

text \<open>The peers of the worker, asked on behalf of one organization: the agents, Work, and the runs. A started run whose identifier cannot be read is \<open>None\<close>.\<close>

record job_peers =
  jp_agents :: "uuid \<Rightarrow> grpc_code + agent_info list"
  jp_item :: "uuid \<Rightarrow> agent_job \<Rightarrow> grpc_code + string"
  jp_start :: "uuid \<Rightarrow> uuid \<Rightarrow> uuid \<Rightarrow> string \<Rightarrow> uuid \<Rightarrow> grpc_code + uuid option"
  jp_state :: "uuid \<Rightarrow> uuid \<Rightarrow> grpc_code + string"

definition agentForRole :: "agent_info list \<Rightarrow> string \<Rightarrow> agent_info option" where
  "agentForRole ags role = List.find (\<lambda>a. ag_Enabled a \<and> ag_Role a = role) ags"

definition jobStatusForRun :: "string \<Rightarrow> string option" where
  "jobStatusForRun st =
     (if st = ''succeeded'' then Some ''success''
      else if st = ''failed'' \<or> st = ''over_budget'' then Some ''failure''
      else if st = ''cancelled'' then Some ''cancelled''
      else None)"

text \<open>An agent job needs a person who answers for it, and an enabled agent of its role.\<close>

definition start_agent :: "job_peers \<Rightarrow> agent_job \<Rightarrow> unit ci_op" where
  "start_agent ps job =
     (if aj_TriggeredBy job = uuid_Nil then fail (App (Peer FailedPrecondition))
      else case jp_agents ps (aj_OrgID job) of
          Inl c \<Rightarrow> fail (App (Peer c))
        | Inr ags \<Rightarrow> (case agentForRole ags (aj_Role job) of
              None \<Rightarrow> fail (App (Peer NotFound))
            | Some ag \<Rightarrow> (case jp_item ps (aj_OrgID job) job of
                  Inl c \<Rightarrow> fail (App (Peer c))
                | Inr key \<Rightarrow> (case jp_start ps (aj_OrgID job) (ag_ID ag) (aj_RepoID job) key (aj_TriggeredBy job) of
                      Inl c \<Rightarrow> fail (App (Peer c))
                    | Inr None \<Rightarrow> fail (App (Peer UnknownCode))
                    | Inr (Some rid) \<Rightarrow> SetJobAgentRun (aj_JobID job) rid key))))"

definition startTimeout :: time where
  "startTimeout = 600 * second"

fun follow_jobs :: "job_peers \<Rightarrow> time \<Rightarrow> in_flight_job list \<Rightarrow> unit ci_op" where
  "follow_jobs ps now [] = ret ()"
| "follow_jobs ps now (j # js) =
     (if ij_AgentRunID j = uuid_Nil then
        bnd (if startTimeout < now - ij_StartedAt j
             then bnd (attempt (SetJobStatus now (ij_JobID j) ''failure'' ''the agent run for this job was never started'')) (\<lambda>_. ret ())
             else ret ()) (\<lambda>_. follow_jobs ps now js)
      else case jp_state ps (ij_OrgID j) (ij_AgentRunID j) of
          Inl _ \<Rightarrow> follow_jobs ps now js
        | Inr st \<Rightarrow> (case jobStatusForRun st of
              None \<Rightarrow> follow_jobs ps now js
            | Some status \<Rightarrow> bnd (SetJobStatus now (ij_JobID j) status (''agent run '' @ st)) (\<lambda>_. follow_jobs ps now js)))"

definition follow :: "job_peers \<Rightarrow> time \<Rightarrow> unit ci_op" where
  "follow ps now = bnd (InFlightAgentJobs now) (follow_jobs ps now)"

text \<open>
  One tick claims until nothing is claimable. Every claim takes a job out of \<open>pending\<close>, so one unit of
  fuel for each pending job, and one more, is enough (\<open>agent_tick_ends\<close>); \<open>None\<close> is the fuel run out.
\<close>

fun start_all :: "nat \<Rightarrow> job_peers \<Rightarrow> time \<Rightarrow> unit option ci_op" where
  "start_all 0 ps now = ret None"
| "start_all (Suc n) ps now =
     bnd (attempt (ClaimAgentJob now)) (\<lambda>r.
     case r of
       Inl e \<Rightarrow> if e = App NoClaimableJob then ret (Some ()) else fail e
     | Inr job \<Rightarrow>
         bnd (attempt (start_agent ps job)) (\<lambda>s.
         bnd (case s of Inr _ \<Rightarrow> ret () | Inl _ \<Rightarrow> SetJobStatus now (aj_JobID job) ''failure'' ''agent job not started'') (\<lambda>_.
         start_all n ps now)))"

definition Tick_agents :: "nat \<Rightarrow> job_peers \<Rightarrow> time \<Rightarrow> unit option ci_op" where
  "Tick_agents fuel ps now =
     bnd (start_all fuel ps now) (\<lambda>r. case r of None \<Rightarrow> ret None | Some _ \<Rightarrow> bnd (follow ps now) (\<lambda>_. ret (Some ())))"

section \<open>The service of runners\<close>

text \<open>\<open>unhex\<close> decodes hexadecimal text and \<open>sha\<close> hashes bytes.\<close>

definition authenticateRunner :: "(string \<Rightarrow> string option) \<Rightarrow> (string \<Rightarrow> string) \<Rightarrow> uuid \<Rightarrow> string \<Rightarrow> unit ci_op" where
  "authenticateRunner unhex sha rid token =
     (case unhex token of
        None \<Rightarrow> fail (App (Reply PermissionDenied))
      | Some raw \<Rightarrow>
          if raw = '''' then fail (App (Reply PermissionDenied))
          else bnd (wrap (\<lambda>_. App (Reply PermissionDenied)) (RunnerTokenHash rid)) (\<lambda>(_, want).
               if sha raw \<noteq> want then fail (App (Reply PermissionDenied)) else ret ()))"

definition registrationScope :: "ctx \<Rightarrow> scope ci_op" where
  "registrationScope ctx = (case ctx of
       None \<Rightarrow> fail (App (Reply PermissionDenied))
     | Some s \<Rightarrow>
         if s_OrgID s = uuid_Nil then fail (App (Reply PermissionDenied))
         else if s_ActorKind s = ''user'' \<and> (s_Role s = ''owner'' \<or> s_Role s = ''admin'') \<or> s_ActorKind s = ''service'' then ret s
         else fail (App (Reply PermissionDenied)))"

text \<open>\<open>named\<close> is the organization the request names, if any; \<open>raw\<close> are the random bytes of the token.\<close>

definition Register_rpc :: "(string \<Rightarrow> string) \<Rightarrow> uuid \<Rightarrow> time \<Rightarrow> string \<Rightarrow> ctx \<Rightarrow> uuid option \<Rightarrow> string \<Rightarrow> string list \<Rightarrow> uuid ci_op" where
  "Register_rpc sha new_id now raw ctx named name labels =
     bnd (registrationScope ctx) (\<lambda>scope.
     if named \<noteq> None \<and> named \<noteq> Some (s_OrgID scope) then fail (App (Reply PermissionDenied))
     else if name = '''' then fail (App (Reply InvalidArgument))
     else RegisterRunner new_id now (s_OrgID scope) name labels (sha raw))"

text \<open>
  A frame of a runner's stream: the identifiers are \<open>None\<close> where their text is not one. The stream is the
  runner, its token and its connection once the first frame has proved them.
\<close>

datatype frame_payload = Heartbeat | LogChunk "uuid option" int string | NoPayload

record frame =
  fr_RunnerID :: "uuid option"
  fr_Token :: string
  fr_ConnectionID :: string
  fr_Payload :: frame_payload

datatype stream_state = Unproved | Proved uuid string uuid

text \<open>One frame: the state and the dispatcher after it, and the code the stream ends with, if it does.\<close>

definition Connect_frame :: "(string \<Rightarrow> string option) \<Rightarrow> (string \<Rightarrow> string) \<Rightarrow> (uuid \<Rightarrow> string) \<Rightarrow> bool \<Rightarrow> uuid \<Rightarrow> time \<Rightarrow> masks
    \<Rightarrow> frame \<Rightarrow> stream_state \<Rightarrow> dispatcher \<Rightarrow> (stream_state \<times> dispatcher \<times> grpc_code option) ci_op" where
  "Connect_frame unhex sha utext accepted new_id now ms f st d =
     (case fr_RunnerID f of
        None \<Rightarrow> ret (st, d, None)
      | Some rid \<Rightarrow> (case st of
          Unproved \<Rightarrow>
            bnd (attempt (authenticateRunner unhex sha rid (fr_Token f))) (\<lambda>r.
            case r of
              Inl _ \<Rightarrow> ret (st, d, Some PermissionDenied)
            | Inr _ \<Rightarrow>
                if fr_Payload f \<noteq> Heartbeat \<or> fr_ConnectionID f \<noteq> '''' then ret (st, d, Some InvalidArgument)
                else bnd (activateConnection accepted new_id now rid d) (\<lambda>(connection, ok, d').
                     ret (Proved rid (fr_Token f) connection, d', if ok then None else Some UnknownCode)))
        | Proved owner token connection \<Rightarrow>
            if rid \<noteq> owner \<or> fr_Token f \<noteq> token \<or> fr_ConnectionID f \<noteq> utext connection then
              bnd (UnregisterConnection now owner connection d) (\<lambda>d'. ret (st, d', Some PermissionDenied))
            else
              bnd (attempt (runnerConnection now owner connection)) (\<lambda>r.
              case r of
                Inl _ \<Rightarrow> ret (st, d, Some PermissionDenied)
              | Inr _ \<Rightarrow> (case fr_Payload f of
                    LogChunk (Some job) sequence line \<Rightarrow>
                      bnd (maskRunnerOutput ms job line) (\<lambda>kept.
                      bnd (attempt (appendRunnerLog owner connection job sequence kept (sha line))) (\<lambda>r.
                      ret (st, d, case r of Inl _ \<Rightarrow> Some FailedPrecondition | Inr _ \<Rightarrow> None)))
                  | _ \<Rightarrow> ret (st, d, None)))))"

text \<open>
  The stream: frames are handled until one ends it or the runner closes it; either way the connection
  is ended.
\<close>

definition end_stream :: "time \<Rightarrow> stream_state \<Rightarrow> dispatcher \<Rightarrow> dispatcher ci_op" where
  "end_stream now st d = (case st of
       Unproved \<Rightarrow> ret d
     | Proved rid token connection \<Rightarrow> if connection = uuid_Nil then ret d else UnregisterConnection now rid connection d)"

fun Connect :: "(string \<Rightarrow> string option) \<Rightarrow> (string \<Rightarrow> string) \<Rightarrow> (uuid \<Rightarrow> string) \<Rightarrow> bool \<Rightarrow> uuid \<Rightarrow> time \<Rightarrow> masks
    \<Rightarrow> frame list \<Rightarrow> stream_state \<Rightarrow> dispatcher \<Rightarrow> (grpc_code option \<times> dispatcher) ci_op" where
  "Connect unhex sha utext accepted new_id now ms [] st d = bnd (end_stream now st d) (\<lambda>d'. ret (None, d'))"
| "Connect unhex sha utext accepted new_id now ms (f # fs) st d =
     bnd (Connect_frame unhex sha utext accepted new_id now ms f st d) (\<lambda>(st', d', r).
     case r of
       Some c \<Rightarrow> bnd (end_stream now st' d') (\<lambda>d''. ret (Some c, d''))
     | None \<Rightarrow> Connect unhex sha utext accepted new_id now ms fs st' d')"

text \<open>The receipt is tried again while lines are missing: \<open>polls\<close> times before the deadline.\<close>

fun receipt_polls :: "nat \<Rightarrow> (report \<Rightarrow> string) \<Rightarrow> time \<Rightarrow> report \<Rightarrow> string \<Rightarrow> unit ci_op" where
  "receipt_polls 0 hash now req detail = fail (App (Reply FailedPrecondition))"
| "receipt_polls (Suc n) hash now req detail =
     bnd (attempt (recordRunnerReceipt hash now (rq_RunnerID req) (rq_ConnectionID req) (rq_JobID req) req detail)) (\<lambda>r.
     case r of
       Inr _ \<Rightarrow> ret ()
     | Inl e \<Rightarrow> if e = App LogBarrier then receipt_polls n hash now req detail else fail (App (Reply FailedPrecondition)))"

definition ReportStatus :: "(string \<Rightarrow> string option) \<Rightarrow> (string \<Rightarrow> string) \<Rightarrow> (uuid \<Rightarrow> string) \<Rightarrow> nat \<Rightarrow> (report \<Rightarrow> string) \<Rightarrow> time
    \<Rightarrow> masks \<Rightarrow> report \<Rightarrow> masks ci_op" where
  "ReportStatus unhex sha utext polls hash now ms req =
     bnd (authenticateRunner unhex sha (rq_RunnerID req) (rq_Token req)) (\<lambda>_.
     bnd (wrap (\<lambda>_. App (Reply PermissionDenied)) (jobConnection (rq_JobID req) (rq_RunnerID req) (rq_ConnectionID req))) (\<lambda>_.
     bnd (maskRunnerOutput ms (rq_JobID req) (rq_Detail req)) (\<lambda>detail.
     bnd (receipt_polls polls hash now req detail) (\<lambda>_.
     bnd (if terminalJobStatus (rq_Status req) then bnd (attempt (Seal utext (rq_JobID req))) (\<lambda>_. ret ()) else ret ()) (\<lambda>_.
     ret (if terminalJobStatus (rq_Status req) then forget_masks (rq_JobID req) ms else ms))))))"

definition maxArtifactBytes :: int where
  "maxArtifactBytes = 67108864"

definition UploadArtifact :: "(string \<Rightarrow> string option) \<Rightarrow> (string \<Rightarrow> string) \<Rightarrow> (uuid \<Rightarrow> string) \<Rightarrow> uuid \<Rightarrow> time \<Rightarrow> uuid option \<Rightarrow> uuid option
    \<Rightarrow> string \<Rightarrow> uuid option \<Rightarrow> string \<Rightarrow> string \<Rightarrow> artifact ci_op" where
  "UploadArtifact unhex sha utext new_id now job runner token connection name content = (case job of
       None \<Rightarrow> fail (App (Reply InvalidArgument))
     | Some jid \<Rightarrow>
         if name = '''' \<or> maxArtifactBytes < int (length content) then fail (App (Reply InvalidArgument))
         else bnd (wrap (\<lambda>_. App (Reply NotFound)) (GetJob jid)) (\<lambda>j. (case runner of
                None \<Rightarrow> fail (App (Reply PermissionDenied))
              | Some rid \<Rightarrow>
                  if cj_RunnerID j \<noteq> Some rid then fail (App (Reply PermissionDenied))
                  else bnd (authenticateRunner unhex sha rid token) (\<lambda>_. (case connection of
                         None \<Rightarrow> fail (App (Reply PermissionDenied))
                       | Some c \<Rightarrow>
                           bnd (wrap (\<lambda>_. App (Reply PermissionDenied)) (jobConnection jid rid c)) (\<lambda>_.
                           wrap (\<lambda>_. App (Reply Internal)) (Upload utext sha new_id now jid name content (Some c))))))))"

section \<open>The service of people\<close>

definition ListRuns_rpc :: "ctx \<Rightarrow> uuid option \<Rightarrow> ci_run list ci_op" where
  "ListRuns_rpc ctx repo =
     bnd (ci_scope ctx) (\<lambda>sc. (case repo of
       None \<Rightarrow> fail (App (Reply InvalidArgument))
     | Some rid \<Rightarrow> wrap (\<lambda>_. App (Reply Internal)) (ListRuns ctx (s_OrgID sc) rid)))"

definition noRunnerDetail :: string where
  "noRunnerDetail = ''Waiting: no CI runner is connected for this organization, so this job cannot start until one connects.''"

definition waits_for_runner :: "wf_job \<Rightarrow> bool" where
  "waits_for_runner j \<longleftrightarrow> cj_Status j = ''pending'' \<and> cj_AgentRole j = '''' \<and> cj_Detail j = ''''"

definition GetRun_rpc :: "ctx \<Rightarrow> uuid option \<Rightarrow> (ci_run \<times> wf_job list) ci_op" where
  "GetRun_rpc ctx rid =
     bnd (ci_scope ctx) (\<lambda>sc. (case rid of
       None \<Rightarrow> fail (App (Reply InvalidArgument))
     | Some rid \<Rightarrow>
         bnd (wrap (\<lambda>_. App (Reply NotFound)) (GetRun ctx rid)) (\<lambda>run.
         if cr_OrgID run \<noteq> s_OrgID sc then fail (App (Reply NotFound))
         else bnd (wrap (\<lambda>_. App (Reply Internal)) (ListJobsForRun rid)) (\<lambda>jobs.
              bnd (if list_ex waits_for_runner jobs
                   then bnd (wrap (\<lambda>_. App (Reply Internal)) (RunnerConnected (s_OrgID sc))) (\<lambda>c. ret (\<not> c))
                   else ret False) (\<lambda>waiting.
              ret (run, map (\<lambda>j. if waiting \<and> waits_for_runner j then j\<lparr>cj_Detail := noRunnerDetail\<rparr> else j) jobs))))))"

definition resolveRun :: "ctx \<Rightarrow> scope \<Rightarrow> uuid option \<Rightarrow> uuid ci_op" where
  "resolveRun ctx sc rid = (case rid of
       None \<Rightarrow> fail (App (Reply InvalidArgument))
     | Some rid \<Rightarrow>
         bnd (wrap (\<lambda>_. App (Reply NotFound)) (GetRun ctx rid)) (\<lambda>run.
         if cr_OrgID run \<noteq> s_OrgID sc then fail (App (Reply NotFound)) else ret rid))"

text \<open>\<open>job\<close> is \<open>None\<close> where the request names no job, and \<open>Some None\<close> where its text is not an identifier.\<close>

definition resolveJob :: "ctx \<Rightarrow> scope \<Rightarrow> uuid option option \<Rightarrow> uuid option \<Rightarrow> uuid ci_op" where
  "resolveJob ctx sc job rid = (case job of
       Some None \<Rightarrow> fail (App (Reply InvalidArgument))
     | Some (Some jid) \<Rightarrow>
         bnd (wrap (\<lambda>_. App (Reply NotFound)) (GetJob jid)) (\<lambda>j.
         bnd (wrap (\<lambda>_. App (Reply NotFound)) (GetRun ctx (cj_RunID j))) (\<lambda>run.
         if cr_OrgID run \<noteq> s_OrgID sc then fail (App (Reply NotFound)) else ret jid))
     | None \<Rightarrow>
         bnd (resolveRun ctx sc rid) (\<lambda>rid.
         bnd (wrap (\<lambda>_. App (Reply NotFound)) (ListJobsForRun rid)) (\<lambda>jobs.
         case jobs of [] \<Rightarrow> fail (App (Reply NotFound)) | j # _ \<Rightarrow> ret (cj_ID j))))"

text \<open>The lines of a text, the last one with or without its line end.\<close>

fun splitLines :: "string \<Rightarrow> string list" where
  "splitLines [] = []"
| "splitLines (c # cs) =
     (if c = CHR 0x0A then [] # splitLines cs
      else case cs of
          [] \<Rightarrow> [[c]]
        | e # es \<Rightarrow> if e = CHR 0x0A then [c] # splitLines es
            else case splitLines cs of [] \<Rightarrow> [[c]] | l # ls \<Rightarrow> (c # l) # ls)"

definition GetJobLogs :: "(uuid \<Rightarrow> string) \<Rightarrow> ctx \<Rightarrow> uuid option option \<Rightarrow> uuid option \<Rightarrow> string list ci_op" where
  "GetJobLogs utext ctx job rid =
     bnd (ci_scope ctx) (\<lambda>sc.
     bnd (resolveJob ctx sc job rid) (\<lambda>jid.
     bnd (wrap (\<lambda>_. App (Reply Internal)) (journalSnapshot jid)) (\<lambda>(lines, journal).
     if journal then ret lines
     else
       bnd (wrap (\<lambda>_. App (Reply Internal)) (blob_get (sealedObjectKey utext jid))) (\<lambda>sealed.
       bnd (wrap (\<lambda>_. App (Reply Internal)) (Snapshot jid)) (\<lambda>live.
       ret ((case sealed of None \<Rightarrow> [] | Some s \<Rightarrow> splitLines s) @ live))))))"

definition ListArtifacts :: "ctx \<Rightarrow> uuid option option \<Rightarrow> uuid option \<Rightarrow> artifact list ci_op" where
  "ListArtifacts ctx job rid =
     bnd (ci_scope ctx) (\<lambda>sc.
     if job \<noteq> None
     then bnd (resolveJob ctx sc job None) (\<lambda>jid. wrap (\<lambda>_. App (Reply Internal)) (ListForJob jid))
     else bnd (resolveRun ctx sc rid) (\<lambda>rid. wrap (\<lambda>_. App (Reply Internal)) (List_artifacts rid)))"

text \<open>The messages of a download: chunks of 256 KiB, and at least one.\<close>

definition downloadChunk :: nat where
  "downloadChunk = 262144"

function chunks :: "string \<Rightarrow> string list" where
  "chunks s = (if s = '''' then [] else take downloadChunk s # chunks (drop downloadChunk s))"
  by pat_completeness auto

termination
  by (relation "measure length") (auto simp: downloadChunk_def)

declare chunks.simps [simp del]

definition DownloadArtifact :: "ctx \<Rightarrow> uuid option \<Rightarrow> (artifact \<times> string list) ci_op" where
  "DownloadArtifact ctx aid =
     bnd (ci_scope ctx) (\<lambda>sc. (case aid of
       None \<Rightarrow> fail (App (Reply InvalidArgument))
     | Some i \<Rightarrow>
         bnd (wrap (\<lambda>e. if e = App CINoRows then App (Reply NotFound) else App (Reply Internal)) (OpenInOrg (s_OrgID sc) i)) (\<lambda>(a, content).
         ret (a, if content = '''' then [''''] else chunks content))))"

end
