(* ===== verification/NF_CIHistory.thy ===== *)
theory NF_CIHistory
  imports NF_CIWork
begin

text \<open>
  What every operation of continuous integration respects. A history is any sequence of what drives it: the
  scheduler, the frames and reports of runners, the ticks of the pump, of the agent jobs and of the clean-up,
  the retention sweep and the deletions, each with the statements that fail in it. The locale \<open>ci_frame\<close>
  states the contract of its statements, and what meets the contract holds of every history.
\<close>

section \<open>What the statements write\<close>

lemma update_jobs_rows:
  assumes "update_jobs P f now d = Inr (n, d')"
  shows "d' = d\<lparr>ci_jobs := update_rows P f (ci_jobs d),
        ci_credentials := fold (fence_row now d) (filter (\<lambda>j. P j \<and> terminalJobStatus (cj_Status (f j))) (ci_jobs d)) (ci_credentials d)\<rparr>
    \<and> n = affected P (ci_jobs d)
    \<and> (\<forall>j \<in> set (ci_jobs d). P j \<longrightarrow> cj_Status (f j) \<in> set validJobStatuses
         \<and> (terminalJobStatus (cj_Status j) \<longrightarrow> terminalJobStatus (cj_Status (f j))))"
  using assms unfolding update_jobs_def by (simp split: if_split_asm)

lemma update_jobs_table: "update_jobs P f now d = Inr (n, d') \<Longrightarrow> ci_jobs d' = update_rows P f (ci_jobs d)"
  by (drule update_jobs_rows) simp

lemma update_jobs_member:
  assumes "update_jobs P f now d = Inr (n, d')" and "j \<in> set (ci_jobs d)" and "P j"
  shows "f j \<in> set (ci_jobs d')"
  unfolding update_jobs_table[OF assms(1)] set_update_rows using assms(2,3) by (intro image_eqI[of _ _ j]) simp_all

lemma update_ci_runs_rows:
  assumes "update_ci_runs P st d = Inr (n, d')"
  shows "d' = d\<lparr>ci_runs := update_rows P (\<lambda>r. r\<lparr>cr_Status := st\<rparr>) (ci_runs d),
        ci_events := ci_events d @ concat (map (\<lambda>r. run_event (cr_Status r) (r\<lparr>cr_Status := st\<rparr>)) (filter P (ci_runs d)))\<rparr>
    \<and> (\<forall>r \<in> set (ci_runs d). P r \<longrightarrow> st \<in> set ci_run_states)"
  using assms unfolding update_ci_runs_def affected_pos by (simp split: if_split_asm) blast

lemma insert_ci_run_cases:
  assumes "insert_ci_run r d = Inr (a, d')"
  obtains (kept) "d' = d" "a = None"
  | (added) "a = Some r" "cr_Status r \<in> set ci_run_states" "cr_ID r \<notin> cr_ID ` set (ci_runs d)"
      "d' = d\<lparr>ci_runs := ci_runs d @ [r], ci_events := ci_events d @ run_event '''' r\<rparr>"
proof -
  let ?dup = "\<exists>q \<in> set (ci_runs d). cr_RepoID q = cr_RepoID r \<and> cr_CommitSHA q = cr_CommitSHA r \<and> cr_Ref q = cr_Ref r"
  show ?thesis
  proof (cases ?dup)
    case True
    then have "d' = d \<and> a = None" using assms unfolding insert_ci_run_def if_P[OF True] by (simp split: if_split_asm)
    then show ?thesis using kept by blast
  next
    case False
    then have "a = Some r \<and> cr_Status r \<in> set ci_run_states \<and> cr_ID r \<notin> cr_ID ` set (ci_runs d)
        \<and> d' = d\<lparr>ci_runs := ci_runs d @ [r], ci_events := ci_events d @ run_event '''' r\<rparr>"
      using assms unfolding insert_ci_run_def if_not_P[OF False] by (simp split: if_split_asm)
    then show ?thesis using added by blast
  qed
qed

lemma insert_job_row:
  assumes "insert_job j d = Inr (u, d')"
  shows "d' = d\<lparr>ci_jobs := ci_jobs d @ [j]\<rparr> \<and> cj_Status j \<in> set validJobStatuses \<and> cj_ID j \<notin> cj_ID ` set (ci_jobs d)
    \<and> cj_RunID j \<in> cr_ID ` set (ci_runs d) \<and> (\<forall>k \<in> set (ci_jobs d). cj_RunID k = cj_RunID j \<longrightarrow> cj_Name k \<noteq> cj_Name j)"
  using assms unfolding insert_job_def by (simp split: if_split_asm)

section \<open>The contract of the statements\<close>

text \<open>The tables the others are about.\<close>

definition core :: "cidb \<Rightarrow> ci_run list \<times> wf_job list \<times> runner list \<times> credential list \<times> log_line list \<times> ci_event list" where
  "core d = (ci_runs d, ci_jobs d, ci_runners d, ci_credentials d, ci_lines d, ci_events d)"

text \<open>What no update of a job changes, and how it may change who holds it.\<close>

definition static :: "(wf_job \<Rightarrow> wf_job) \<Rightarrow> bool" where
  "static f \<longleftrightarrow> (\<forall>j. cj_ID (f j) = cj_ID j \<and> cj_RunID (f j) = cj_RunID j \<and> cj_Name (f j) = cj_Name j \<and> cj_Needs (f j) = cj_Needs j
     \<and> cj_AgentRole (f j) = cj_AgentRole j \<and> cj_Secrets (f j) = cj_Secrets j \<and> cj_ConnectionID (f j) = cj_ConnectionID j
     \<and> cj_Journal (f j) = cj_Journal j \<and> cj_LogSequence (f j) = cj_LogSequence j \<and> cj_Retired (f j) = cj_Retired j
     \<and> (cj_RunnerID (f j) = cj_RunnerID j \<or> cj_RunnerID (f j) = None))"

text \<open>A job somebody has taken up: it is reserved for a runner, under way, or its credentials are being prepared.\<close>

definition engaged :: "cidb \<Rightarrow> wf_job \<Rightarrow> bool" where
  "engaged d j \<longleftrightarrow> \<not> terminalJobStatus (cj_Status j) \<and> (cj_RunnerID j \<noteq> None \<or> cj_Status j = ''running''
     \<or> (\<exists>c \<in> set (ci_credentials d). cc_JobID c = cj_ID j \<and> cc_Phase c = ''preparing''))"

lemma terminal_simps [simp]: "\<not> terminalJobStatus ''pending''" "\<not> terminalJobStatus ''running''" "\<not> terminalJobStatus ''queued''"
  "terminalJobStatus ''success''" "terminalJobStatus ''failure''" "terminalJobStatus ''cancelled''"
  by (simp_all add: terminalJobStatus_def)

definition new_job :: "wf_job \<Rightarrow> bool" where
  "new_job j \<longleftrightarrow> cj_Status j = ''pending'' \<and> cj_RunnerID j = None \<and> cj_LogSequence j = 0 \<and> \<not> cj_Retired j"

definition agent_claimable :: "cidb \<Rightarrow> wf_job \<Rightarrow> bool" where
  "agent_claimable d j \<longleftrightarrow> cj_Status j = ''pending'' \<and> cj_AgentRole j \<noteq> '''' \<and> needs_met d j"

definition reserve :: "uuid \<Rightarrow> runner \<Rightarrow> wf_job \<Rightarrow> cidb \<Rightarrow> cidb" where
  "reserve rid n j d = snd (change_jobs (\<lambda>k. cj_ID k = cj_ID j)
     (\<lambda>k. k\<lparr>cj_RunnerID := Some rid, cj_ConnectionID := ru_ConnectionID n, cj_Journal := (ru_ConnectionID n \<noteq> None)\<rparr>) d)"

definition put_credentials :: "credential list \<Rightarrow> cidb \<Rightarrow> cidb" where
  "put_credentials cs d = d\<lparr>ci_credentials := cs\<rparr>"

text \<open>
  \<open>I\<close> is what may be assumed of a database, \<open>ok\<close> the jobs whose claim it admits, and \<open>confirmed\<close> the
  attempts the broker has confirmed as revoked.
\<close>

locale ci_frame = db_frame R for R :: "cidb \<Rightarrow> cidb \<Rightarrow> bool" +
  fixes I :: "cidb \<Rightarrow> bool" and ok :: "uuid \<Rightarrow> bool" and confirmed :: "uuid \<times> uuid \<times> uuid \<Rightarrow> bool"
  assumes law_vacuous: "\<not> I d \<Longrightarrow> R d d'"
    and law_other: "core d' = core d \<Longrightarrow> R d d'"
    and law_run: "insert_ci_run r d = Inr (a, d') \<Longrightarrow> cr_Status r = ''queued'' \<Longrightarrow> R d d'"
    and law_job: "insert_job j d = Inr (u, d') \<Longrightarrow> new_job j \<Longrightarrow> R d d'"
    and law_settle: "update_ci_runs Pr st d = Inr (n, d') \<Longrightarrow>
       (\<And>r. Pr r \<Longrightarrow> \<not> terminalJobStatus (cr_Status r) \<and> \<not> unfinished_run d (cr_ID r)) \<Longrightarrow> R d d'"
    and law_start: "start_run rid d = Inr (n, d') \<Longrightarrow> R d d'"
    and law_jobs: "update_jobs Pj fj now d = Inr (n, d') \<Longrightarrow> static fj \<Longrightarrow>
       (\<And>j. I d \<Longrightarrow> j \<in> set (ci_jobs d) \<Longrightarrow> Pj j \<Longrightarrow> ok (cj_ID j)) \<Longrightarrow> R d d'"
    and law_change: "static fj \<Longrightarrow> (\<And>j. cj_Status (fj j) = cj_Status j \<and> cj_RunnerID (fj j) = cj_RunnerID j) \<Longrightarrow> R d (snd (change_jobs Pj fj d))"
    and law_retire: "(\<And>j. Pj j \<Longrightarrow> terminalJobStatus (cj_Status j)) \<Longrightarrow>
       R d (snd (change_jobs Pj (\<lambda>j. j\<lparr>cj_Retired := True, cj_SealPending := False\<rparr>) d))"
    and law_reserve: "j \<in> set (ci_jobs d) \<Longrightarrow> find_runner rid d = Some nn \<Longrightarrow> dispatchable now nn d j \<Longrightarrow> R d (reserve rid nn j d)"
    and law_dispatchable: "I d \<Longrightarrow> j \<in> set (ci_jobs d) \<Longrightarrow> dispatchable now nn d j \<Longrightarrow> ok (cj_ID j)"
    and law_claimable: "I d \<Longrightarrow> j \<in> set (ci_jobs d) \<Longrightarrow> agent_claimable d j \<Longrightarrow> ok (cj_ID j)"
    and law_engaged: "I d \<Longrightarrow> j \<in> set (ci_jobs d) \<Longrightarrow> engaged d j \<Longrightarrow> ok (cj_ID j)"
    and law_line: "journal_job org runner connection job d = Some j \<Longrightarrow> \<not> terminalJobStatus (cj_Status j) \<Longrightarrow>
       insert_line l d = Inr (u, d1) \<Longrightarrow> ll_JobID l = job \<Longrightarrow> ll_Sequence l = cj_LogSequence j + 1 \<Longrightarrow>
       R d (snd (change_jobs (\<lambda>j. cj_ID j = job) (\<lambda>j. j\<lparr>cj_LogSequence := ll_Sequence l\<rparr>) d1))"
    and law_drop_lines: "(\<exists>j \<in> set (ci_jobs d). cj_ID j = job \<and> cj_Retired j) \<Longrightarrow>
       R d (d\<lparr>ci_lines := filter (\<lambda>l. ll_JobID l \<noteq> job) (ci_lines d)\<rparr>)"
    and law_runners: "(\<And>nn. ru_ID (fn nn) = ru_ID nn \<and> ru_OrgID (fn nn) = ru_OrgID nn) \<Longrightarrow> R d (snd (change_runners Pn fn d))"
    and law_register: "insert_runner nn d = Inr (u, d') \<Longrightarrow> R d d'"
    and law_prepare: "insert_credential c d = Inr (u, d') \<Longrightarrow> cc_Phase c = ''preparing'' \<Longrightarrow>
       (\<exists>j \<in> set (ci_jobs d). cj_ID j = cc_JobID c \<and> of_org d (cc_OrgID c) j \<and> cj_RunnerID j \<noteq> None \<and> cj_Status j = ''pending'') \<Longrightarrow> R d d'"
    and law_dispatched: "(\<And>c. Pc c \<Longrightarrow> cc_Phase c = ''preparing'' \<and> (\<exists>j \<in> set (ci_jobs d). cj_ID j = cc_JobID c \<and> cj_Status j = ''running'')) \<Longrightarrow>
       R d (snd (change_credentials Pc (\<lambda>c. c\<lparr>cc_Phase := ''dispatched''\<rparr>) d))"
    and law_cleanup: "(\<And>c. cc_OrgID (fc c) = cc_OrgID c \<and> cc_JobID (fc c) = cc_JobID c \<and> cc_AttemptID (fc c) = cc_AttemptID c) \<Longrightarrow>
       (\<And>c. Pc c \<Longrightarrow> cc_Phase (fc c) = ''cleanup'') \<Longrightarrow> R d (snd (change_credentials Pc fc d))"
    and law_confirmed: "confirmed (org, job, att) \<Longrightarrow>
       R d (put_credentials (filter (\<lambda>c. \<not> (same_cleanup org job att c \<and> cc_Phase c = ''cleanup'')) (ci_credentials d)) d)"

section \<open>What follows from the contract\<close>

context ci_frame
begin

lemma frame_bnd_fact:
  assumes "within R m" and "\<And>w a w1. m w = (Inr a, w1) \<Longrightarrow> I (fst w) \<Longrightarrow> Q a" and "\<And>a. Q a \<Longrightarrow> within R (k a)"
  shows "within R (bnd m k)"
proof (rule withinI)
  fix w
  show "R (fst w) (fst (snd (bnd m k w)))"
  proof (cases "I (fst w)")
    case True
    obtain r w1 where m: "m w = (r, w1)" by (cases "m w")
    have step: "R (fst w) (fst w1)" using within_run[OF assms(1) m] .
    show ?thesis
    proof (cases r)
      case (Inr a)
      have "R (fst w1) (fst (snd (k a w1)))" using assms(2)[of w a w1] assms(3) m Inr True withinD by blast
      then show ?thesis using m Inr step by (auto simp: bnd_def intro: frame_trans)
    qed (use m step in \<open>simp add: bnd_def\<close>)
  qed (rule law_vacuous)
qed

lemma at_query:
  assumes "R (fst w) (fst (snd (k (f (fst w)) (fst w, tl (snd w)))))"
  shows "R (fst w) (fst (snd (bnd (query h f) k w)))"
  using assms by (simp add: bnd_def query_def stmt_def frame_refl)

lemma within_blob [intro]: "within R (blob_put key content)" "within R (blob_get key)" "within R (blob_delete key)"
  unfolding blob_put_def blob_get_def blob_delete_def by (intro frame_rules law_other; simp add: core_def)+

lemma within_CreateRun_ci [intro]: "within R (CreateRun new_id now run)" if "cr_Status run = '''' \<or> cr_Status run = ''queued''"
  unfolding CreateRun_def Let_def by (intro frame_stmt law_run) (use that in auto)

lemma within_CreateJob [intro]:
  assumes "cj_Status job = ''''"
  shows "within R (CreateJob new_id job)"
  unfolding CreateJob_def Let_def by (intro frame_rules, erule law_job) (use assms in \<open>auto simp: new_job_def\<close>)

lemma within_create_jobs [intro]: "within R (create_jobs ids rid w)"
  by (induction w) (auto intro!: frame_rules simp: job_of_def)

lemma within_GetRunForCommit [intro]: "within R (GetRunForCommit ctx repo sha ref)"
  unfolding GetRunForCommit_def by (intro frame_rules frame_from_context)

lemma within_ScheduleRun [intro]: "within R (ScheduleRun blob new_id ids now ctx org repo name ref sha by_whom)"
proof (cases blob)
  case (Inr doc)
  show ?thesis unfolding ScheduleRun_def Inr sum.case
    by (intro frame_rules within_GetRunForCommit within_create_jobs within_CreateRun_ci) simp
qed (simp add: ScheduleRun_def frame_fail)

lemma within_handlePush [intro]: "within R (handlePush blob new_id ids now ctx evt)"
  unfolding handlePush_def by (rule frame_bnd, intro frame_attempt within_ScheduleRun) (auto intro: frame_rules split: sum.splits)

lemma within_rollUp [intro]: "within R (rollUpRunStatus jid)"
  unfolding rollUpRunStatus_def settle_def by (intro frame_rules, erule law_settle) simp

lemma static_status: "static (\<lambda>j. j\<lparr>cj_Status := st, cj_FinishedAt := F j, cj_Detail := D j\<rparr>)"
  by (simp add: static_def)

lemma within_SetJobStatus:
  assumes "ok jid"
  shows "within R (SetJobStatus now jid st detail)"
  unfolding SetJobStatus_def
  by (intro frame_rules within_rollUp, erule law_jobs) (use assms in \<open>auto simp: static_def\<close>)

lemma lowest_in: "lowest key rs = Some r \<Longrightarrow> r \<in> set rs"
  unfolding lowest_def by (auto split: list.splits) (metis list.set_intros(1) set_sort)

definition claimed_of :: "time \<Rightarrow> runner \<Rightarrow> cidb \<Rightarrow> (wf_job \<times> ci_run) option" where
  "claimed_of now n d = (case lowest cj_ID (filter (dispatchable now n d) (ci_jobs d)) of
     None \<Rightarrow> None | Some j \<Rightarrow> map_option (Pair j) (run_of d j))"

lemma claimed_of_Some: "claimed_of now n d = Some (j, r) \<Longrightarrow> j \<in> set (ci_jobs d) \<and> dispatchable now n d j"
  unfolding claimed_of_def by (auto split: option.splits dest: lowest_in)

lemma at_reserve:
  assumes "find_runner rid (fst w) = Some n" and "claimed_of now n (fst w) = Some (j, r)"
  shows "R (fst w) (fst (snd (bnd (update Sql (change_jobs (\<lambda>k. cj_ID k = cj_ID j)
      (\<lambda>k. k\<lparr>cj_RunnerID := Some rid, cj_ConnectionID := ru_ConnectionID n, cj_Journal := (ru_ConnectionID n \<noteq> None)\<rparr>))) (\<lambda>_. ret a) w)))"
proof -
  have "R (fst w) (reserve rid n j (fst w))"
    using claimed_of_Some[OF assms(2)] assms(1) by (intro law_reserve) auto
  then show ?thesis by (intro frame_bnd_at frame_update_at frame_ret) (simp add: reserve_def)
qed

lemma within_ClaimForDispatch [intro]: "within R (ClaimForDispatch now rid labels connections)"
  unfolding ClaimForDispatch_def claimed_of_def[symmetric]
proof (intro frame_tx withinI at_query)
  fix w :: "cidb world"
  let ?w = "(fst w, tl (snd w))"
  show "R (fst w) (fst (snd ((case find_runner rid (fst w) of None \<Rightarrow> fail (App CINoRows)
       | Some n \<Rightarrow>
           if connections \<noteq> [] \<and> hd connections \<noteq> uuid_Nil \<and> ru_ConnectionID n \<noteq> Some (hd connections) then fail (App NoClaimableJob)
           else bnd (query Sql (claimed_of now n)) (\<lambda>claimed.
                case claimed of
                  None \<Rightarrow> fail (App NoClaimableJob)
                | Some (j, r) \<Rightarrow>
                    bnd (update Sql (change_jobs (\<lambda>k. cj_ID k = cj_ID j)
                      (\<lambda>k. k\<lparr>cj_RunnerID := Some rid, cj_ConnectionID := ru_ConnectionID n,
                             cj_Journal := (ru_ConnectionID n \<noteq> None)\<rparr>))) (\<lambda>_.
                    ret (Commit (dispatch_of j r (ru_ConnectionID n), cr_OrgID r))))) ?w)))"
  proof (cases "find_runner rid (fst w)")
    case (Some n)
    have "R (fst ?w) (fst (snd (bnd (query Sql (claimed_of now n)) (\<lambda>claimed.
                case claimed of
                  None \<Rightarrow> fail (App NoClaimableJob)
                | Some (j, r) \<Rightarrow>
                    bnd (update Sql (change_jobs (\<lambda>k. cj_ID k = cj_ID j)
                      (\<lambda>k. k\<lparr>cj_RunnerID := Some rid, cj_ConnectionID := ru_ConnectionID n,
                             cj_Journal := (ru_ConnectionID n \<noteq> None)\<rparr>))) (\<lambda>_.
                    ret (Commit (dispatch_of j r (ru_ConnectionID n), cr_OrgID r)))) ?w)))"
    proof (rule at_query)
      let ?w2 = "(fst ?w, tl (snd ?w))"
      show "R (fst ?w) (fst (snd ((case claimed_of now n (fst ?w) of
                  None \<Rightarrow> fail (App NoClaimableJob)
                | Some (j, r) \<Rightarrow>
                    bnd (update Sql (change_jobs (\<lambda>k. cj_ID k = cj_ID j)
                      (\<lambda>k. k\<lparr>cj_RunnerID := Some rid, cj_ConnectionID := ru_ConnectionID n,
                             cj_Journal := (ru_ConnectionID n \<noteq> None)\<rparr>))) (\<lambda>_.
                    ret (Commit (dispatch_of j r (ru_ConnectionID n), cr_OrgID r)))) ?w2)))"
      proof (cases "claimed_of now n (fst w)")
        case claimed: (Some jr)
        obtain j r where jr: "jr = (j, r)" by (cases jr)
        have "R (fst ?w2) (fst (snd (bnd (update Sql (change_jobs (\<lambda>k. cj_ID k = cj_ID j)
            (\<lambda>k. k\<lparr>cj_RunnerID := Some rid, cj_ConnectionID := ru_ConnectionID n, cj_Journal := (ru_ConnectionID n \<noteq> None)\<rparr>)))
            (\<lambda>_. ret (Commit (dispatch_of j r (ru_ConnectionID n), cr_OrgID r))) ?w2)))"
          by (rule at_reserve[where now = now and r = r]) (simp_all add: Some claimed jr)
        then show ?thesis by (simp only: fst_conv claimed jr option.case prod.case)
      qed (simp add: fail_def frame_refl)
    qed
    note admitted = this
    show ?thesis
    proof (cases "connections \<noteq> [] \<and> hd connections \<noteq> uuid_Nil \<and> ru_ConnectionID n \<noteq> Some (hd connections)")
      case True
      then show ?thesis by (simp add: Some fail_def frame_refl)
    next
      case False
      then show ?thesis using admitted by (simp only: Some option.case if_not_P[OF False] if_False fst_conv)
    qed
  qed (simp add: fail_def frame_refl)
qed

text \<open>Claimed jobs are of those the contract admits.\<close>

lemma ClaimForDispatch_ok:
  assumes "ClaimForDispatch now rid labels connections w = (Inr (job, org), w')" and "I (fst w)"
  shows "ok (dj_JobID job)"
proof -
  from assms(1) obtain n j r where "claimed_of now n (fst w) = Some (j, r)" "dj_JobID job = cj_ID j"
    unfolding ClaimForDispatch_def claimed_of_def[symmetric]
    by (auto simp: run_simps dispatch_of_def split: option.splits if_splits)
  then show ?thesis using claimed_of_Some law_dispatchable[OF assms(2)] by metis
qed

lemma static_simps: "static (\<lambda>j. j\<lparr>cj_Status := st, cj_FinishedAt := F j, cj_Detail := D j\<rparr>)"
  "static (\<lambda>j. j\<lparr>cj_Status := st, cj_RunnerID := None, cj_StartedAt := F j, cj_Detail := D j, cj_NotBefore := N j\<rparr>)"
  "static (\<lambda>j. j\<lparr>cj_Status := st, cj_StartedAt := F j, cj_Detail := D j, cj_NotBefore := N j\<rparr>)"
  "static (\<lambda>j. j\<lparr>cj_Status := st, cj_StartedAt := F j\<rparr>)"
  "static (\<lambda>j. j\<lparr>cj_Status := st, cj_FinishedAt := F j, cj_SealPending := S j, cj_Detail := D j\<rparr>)"
  "static (\<lambda>j. j\<lparr>cj_Status := st, cj_Detail := D j, cj_FinishedAt := F j\<rparr>)"
  "static (\<lambda>j. j\<lparr>cj_Status := st, cj_Detail := D j, cj_FinishedAt := F j, cj_Receipt := C j, cj_SealPending := S j\<rparr>)"
  "static (\<lambda>j. j\<lparr>cj_SealPending := S j\<rparr>)" "static (\<lambda>j. j\<lparr>cj_SealAttempted := A j\<rparr>)"
  "static (\<lambda>j. j\<lparr>cj_AgentRunID := B j, cj_WorkItemKey := K j\<rparr>)"
  by (simp_all add: static_def)

lemma within_BlockJob [intro]: "within R (BlockJob now jid detail until)"
  unfolding BlockJob_def by (intro frame_rules, erule law_jobs) (auto simp: static_simps engaged_def intro: law_engaged)

lemma within_releaseClaim [intro]: "within R (releaseClaim now jid detail until)"
  unfolding releaseClaim_def by (intro frame_rules within_BlockJob)

lemma start_job_rows:
  assumes "start_job jid rid now d = Inr (row, d')"
  shows "\<exists>n. update_jobs (\<lambda>j. cj_ID j = jid \<and> cj_RunnerID j = Some rid \<and> cj_Status j = ''pending'')
      (\<lambda>j. j\<lparr>cj_Status := ''running'', cj_StartedAt := Some now, cj_Detail := '''', cj_NotBefore := None\<rparr>) now d = Inr (n, d')"
    and "row = map_option cj_RunID (List.find (\<lambda>j. cj_ID j = jid \<and> cj_RunnerID j = Some rid \<and> cj_Status j = ''pending'') (ci_jobs d))"
  using assms by (auto simp: start_job_def Let_def)

lemma law_start_job: "start_job jid rid now d = Inr (row, d') \<Longrightarrow> R d d'"
  by (drule start_job_rows(1), elim exE, erule law_jobs) (auto simp: static_simps engaged_def intro: law_engaged)

lemma started_job_runs:
  assumes "start_job jid rid now d = Inr (Some run, d')"
  shows "\<exists>j \<in> set (ci_jobs d'). cj_ID j = jid \<and> cj_Status j = ''running''"
proof -
  let ?P = "\<lambda>j. cj_ID j = jid \<and> cj_RunnerID j = Some rid \<and> cj_Status j = ''pending''"
  from start_job_rows(2)[OF assms] obtain j where "List.find ?P (ci_jobs d) = Some j"
    by (auto simp: eq_commute[of "Some run"])
  then have "j \<in> set (ci_jobs d)" "?P j" using find_Some_in[of ?P "ci_jobs d" j] by blast+
  note j = this
  from start_job_rows(1)[OF assms] obtain n where "update_jobs ?P
    (\<lambda>j. j\<lparr>cj_Status := ''running'', cj_StartedAt := Some now, cj_Detail := '''', cj_NotBefore := None\<rparr>) now d = Inr (n, d')" by blast
  from update_jobs_member[OF this j] show ?thesis by (rule bexI[rotated]) (use j(2) in simp)
qed

lemma within_StartClaimedJob [intro]: "within R (StartClaimedJob now jid rid atts)"
  unfolding StartClaimedJob_def
proof (rule frame_tx, rule frame_bnd_read[OF frame_stmt], erule law_start_job)
  fix w row and w1 :: "cidb world"
  assume s: "stmt Sql (start_job jid rid now) w = (Inr row, w1)"
  let ?mark = "if atts \<noteq> [] \<and> hd atts \<noteq> uuid_Nil
                then bnd (update Sql (\<lambda>d. change_credentials (\<lambda>c. cc_JobID c = jid \<and> cc_AttemptID c = hd atts
                       \<and> cc_Phase c = ''preparing'' \<and> now < cc_ReadyAt c
                       \<and> (\<exists>r \<in> set (ci_runs d). cr_ID r = the row \<and> cr_OrgID r = cc_OrgID c))
                       (\<lambda>c. c\<lparr>cc_Phase := ''dispatched''\<rparr>) d)) (\<lambda>n. if n \<noteq> 1 then fail (App NotDispatchable) else ret ())
                else ret ()"
  have "R (fst w1) (fst (snd (bnd ?mark (\<lambda>_. bnd (stmt Sql (start_run (the row))) (\<lambda>_. ret (Commit ()))) w1)))"
    if "row \<noteq> None"
  proof -
    from s that obtain run where "start_job jid rid now (fst w) = Inr (Some run, fst w1)" by (auto simp: stmt_Inr)
    note running = started_job_runs[OF this]
    have mark: "R (fst w1) (fst (snd (?mark w1)))"
    proof (cases "atts \<noteq> [] \<and> hd atts \<noteq> uuid_Nil")
      case True
      have "R (fst w1) (snd (change_credentials (\<lambda>c. cc_JobID c = jid \<and> cc_AttemptID c = hd atts
                       \<and> cc_Phase c = ''preparing'' \<and> now < cc_ReadyAt c
                       \<and> (\<exists>r \<in> set (ci_runs (fst w1)). cr_ID r = the row \<and> cr_OrgID r = cc_OrgID c))
                       (\<lambda>c. c\<lparr>cc_Phase := ''dispatched''\<rparr>) (fst w1)))"
        by (rule law_dispatched) (use running in auto)
      then show ?thesis unfolding if_P[OF True] by (intro frame_bnd_at frame_update_at frame_if frame_fail frame_ret)
    next
      case False
      show ?thesis unfolding if_not_P[OF False] by (simp add: ret_def frame_refl)
    qed
    then show ?thesis by (rule frame_bnd_at) (intro frame_rules law_start)
  qed
  note started = this
  show "R (fst w1) (fst (snd ((case row of
         None \<Rightarrow> fail (App CINoRows)
       | Some rid \<Rightarrow>
           bnd (if atts \<noteq> [] \<and> hd atts \<noteq> uuid_Nil
                then bnd (update Sql (\<lambda>d. change_credentials (\<lambda>c. cc_JobID c = jid \<and> cc_AttemptID c = hd atts
                       \<and> cc_Phase c = ''preparing'' \<and> now < cc_ReadyAt c
                       \<and> (\<exists>r \<in> set (ci_runs d). cr_ID r = rid \<and> cr_OrgID r = cc_OrgID c))
                       (\<lambda>c. c\<lparr>cc_Phase := ''dispatched''\<rparr>) d)) (\<lambda>n. if n \<noteq> 1 then fail (App NotDispatchable) else ret ())
                else ret ()) (\<lambda>_.
           bnd (stmt Sql (start_run rid)) (\<lambda>_.
           ret (Commit ())))) w1)))"
  proof (cases row)
    case (Some run)
    then show ?thesis using started[OF option.distinct(2)[of run, folded Some]] by (simp only: Some option.case option.sel)
  qed (simp add: fail_def frame_refl)
qed

definition agent_claim_of :: "cidb \<Rightarrow> (wf_job \<times> ci_run) option" where
  "agent_claim_of d = (case lowest cj_ID (filter (\<lambda>j. cj_Status j = ''pending'' \<and> cj_AgentRole j \<noteq> '''' \<and> needs_met d j) (ci_jobs d)) of
     None \<Rightarrow> None | Some j \<Rightarrow> map_option (Pair j) (run_of d j))"

lemma agent_claim_of_Some: "agent_claim_of d = Some (j, r) \<Longrightarrow> j \<in> set (ci_jobs d) \<and> agent_claimable d j"
  unfolding agent_claim_of_def by (auto split: option.splits dest!: lowest_in simp: agent_claimable_def)

lemma within_ClaimAgentJob [intro]: "within R (ClaimAgentJob now)"
  unfolding ClaimAgentJob_def agent_claim_of_def[symmetric]
proof (intro frame_tx frame_bnd_fact[where Q = "\<lambda>c. \<forall>j r. c = Some (j, r) \<longrightarrow> ok (cj_ID j)"] frame_query)
  fix w w1 and c :: "(wf_job \<times> ci_run) option"
  assume "query Sql agent_claim_of w = (Inr c, w1)" "I (fst w)"
  then show "\<forall>j r. c = Some (j, r) \<longrightarrow> ok (cj_ID j)"
    using agent_claim_of_Some law_claimable by (auto simp: query_Inr)
next
  fix c :: "(wf_job \<times> ci_run) option"
  assume Q: "\<forall>j r. c = Some (j, r) \<longrightarrow> ok (cj_ID j)"
  show "within R (case c of
         None \<Rightarrow> fail (App NoClaimableJob)
       | Some (j, r) \<Rightarrow>
           bnd (stmt Sql (update_jobs (\<lambda>k. cj_ID k = cj_ID j) (\<lambda>k. k\<lparr>cj_Status := ''running'', cj_StartedAt := Some now\<rparr>) now)) (\<lambda>_.
           bnd (stmt Sql (start_run (cr_ID r))) (\<lambda>_.
           ret (Commit \<lparr>aj_JobID = cj_ID j, aj_RunID = cj_RunID j, aj_Name = cj_Name j, aj_Role = cj_AgentRole j, aj_OrgID = cr_OrgID r,
             aj_RepoID = cr_RepoID r, aj_RepoName = cr_RepoName r, aj_CommitSHA = cr_CommitSHA r, aj_Ref = cr_Ref r,
             aj_TriggeredBy = cr_TriggeredBy r\<rparr>))))"
  proof (cases c)
    case (Some jr)
    obtain j r where jr: "jr = (j, r)" by (cases jr)
    have k: "ok (cj_ID j)" using Q Some jr by blast
    show ?thesis unfolding Some jr option.case prod.case
      by (intro frame_rules; (erule law_start)?; (erule law_jobs)?) (auto simp: static_simps k)
  qed (simp add: frame_fail)
qed

lemma ClaimAgentJob_ok:
  assumes "ClaimAgentJob now w = (Inr job, w')" and "I (fst w)"
  shows "ok (aj_JobID job)"
proof -
  from assms(1) obtain j r where "agent_claim_of (fst w) = Some (j, r)" "aj_JobID job = cj_ID j"
    unfolding ClaimAgentJob_def agent_claim_of_def[symmetric] by (auto simp: run_simps split: option.splits)
  then show ?thesis using agent_claim_of_Some law_claimable[OF assms(2)] by metis
qed

lemma within_SetJobAgentRun [intro]: "within R (SetJobAgentRun jid run key)"
  unfolding SetJobAgentRun_def by (intro frame_rules law_change) (simp_all add: static_simps)

lemma law_interrupt: "interrupt_jobs org rid c detail now d = Inr (ids, d') \<Longrightarrow> R d d'"
  unfolding interrupt_jobs_def
  by (auto, erule law_jobs) (auto simp: static_simps engaged_def interrupted_def intro: law_engaged)

lemma law_settle_runs: "settle_runs org ids d = Inr (n, d') \<Longrightarrow> R d d'"
proof -
  let ?P = "\<lambda>r. cr_OrgID r = org \<and> cr_ID r \<in> set ids \<and> \<not> terminalJobStatus (cr_Status r) \<and> \<not> unfinished_run d (cr_ID r)"
  assume "settle_runs org ids d = Inr (n, d')"
  then obtain m d1 k where bad: "update_ci_runs (\<lambda>r. ?P r \<and> bad_run d (cr_ID r)) ''failure'' d = Inr (m, d1)"
    and good: "update_ci_runs (\<lambda>r. ?P r \<and> \<not> bad_run d (cr_ID r)) ''success'' d1 = Inr (k, d')"
    unfolding settle_runs_def Let_def by (auto split: sum.splits prod.splits)
  have "R d d1" using bad by (rule law_settle) blast
  moreover have "unfinished_run d1 = unfinished_run d"
    using update_ci_runs_rows[OF bad] by (intro ext) (simp add: unfinished_run_def)
  then have "R d1 d'" using good by (elim law_settle) simp
  ultimately show ?thesis by (rule frame_trans)
qed

lemma within_interrupt [intro]: "within R (interruptRunnerJobs org rid c detail now)"
  unfolding interruptRunnerJobs_def by (intro frame_rules; (erule law_settle_runs)?; (erule law_interrupt)?)

lemma within_BeginConnection [intro]: "within R (BeginRunnerConnection new_id now rid)"
  unfolding BeginRunnerConnection_def by (intro frame_rules within_interrupt law_runners) simp_all

lemma within_End [intro]: "within R (EndRunnerConnection now rid c)"
  unfolding EndRunnerConnection_def end_connection_def Let_def
  by (intro frame_rules within_interrupt) (simp, intro law_runners, simp)

lemma within_runnerConnection [intro]: "within R (runnerConnection now rid c)"
  unfolding runnerConnection_def by (intro frame_rules law_runners) simp_all

lemma within_jobConnection [intro]: "within R (jobConnection job rid c)"
  unfolding jobConnection_def by (intro frame_rules)

lemma within_RegisterRunner [intro]: "within R (RegisterRunner new_id now org name labels hash)"
  unfolding RegisterRunner_def by (intro frame_rules, erule law_register)

lemma within_readers [intro]: "within R (RunnerTokenHash rid)" "within R (RunnerLabels rid)" "within R (GetJob jid)"
  "within R (RunnerConnected org)" "within R (ListJobsForRun run)" "within R (InFlightAgentJobs now)"
  "within R (journalSnapshot jid)" "within R (lockRunnerJob rid c jid)"
  unfolding RunnerTokenHash_def RunnerLabels_def GetJob_def RunnerConnected_def ListJobsForRun_def InFlightAgentJobs_def
    journalSnapshot_def lockRunnerJob_def
  by (intro frame_rules)+

lemma lockRunnerJob_Inr:
  assumes "lockRunnerJob rid c jid w = (Inr (st, lst, prior), w')"
  obtains org j where "journal_job org rid c jid (fst w) = Some j" "st = cj_Status j" "lst = cj_LogSequence j" "prior = cj_Receipt j"
    "fst w' = fst w"
  using assms by (auto simp: lockRunnerJob_def run_simps split: if_splits option.splits)

lemma journal_job_Some:
  "journal_job org rid c jid d = Some j \<Longrightarrow> j \<in> set (ci_jobs d) \<and> cj_ID j = jid \<and> cj_RunnerID j = Some rid \<and> cj_ConnectionID j = Some c"
  unfolding journal_job_def by (drule find_Some_in) simp

lemma within_appendRunnerLog [intro]: "within R (appendRunnerLog rid c job seq line digest)"
proof -
  let ?l = "\<lparr>ll_JobID = job, ll_Sequence = seq, ll_Line = line, ll_Digest = digest\<rparr>"
  show ?thesis unfolding appendRunnerLog_def
  proof (intro frame_if frame_fail frame_tx_commit)
    fix w and a :: unit and w1 assume "bnd (lockRunnerJob rid c job) (\<lambda>(state, lst, _).
        if seq \<le> lst then
          bnd (query Sql (\<lambda>d. List.find (\<lambda>l. ll_JobID l = job \<and> ll_Sequence l = seq) (ci_lines d))) (\<lambda>row.
          case row of
            None \<Rightarrow> fail (App CINoRows)
          | Some l \<Rightarrow> if ll_Digest l \<noteq> digest then fail (App ReplayConflicts) else ret (Abort ()))
        else if terminalJobStatus state \<or> seq \<noteq> lst + 1 then fail (App AdmissionClosed)
        else
          bnd (stmt Sql (insert_line ?l)) (\<lambda>_.
          bnd (update Sql (change_jobs (\<lambda>j. cj_ID j = job) (\<lambda>j. j\<lparr>cj_LogSequence := seq\<rparr>))) (\<lambda>_.
          ret (Commit ())))) w = (Inr (Commit a), w1)"
    then obtain st lst prior wl wi where lock: "lockRunnerJob rid c job w = (Inr (st, lst, prior), wl)"
      and open': "\<not> terminalJobStatus st" "seq = lst + 1"
      and ins: "insert_line ?l (fst wl) = Inr ((), fst wi)"
      and chg: "fst w1 = snd (change_jobs (\<lambda>j. cj_ID j = job) (\<lambda>j. j\<lparr>cj_LogSequence := seq\<rparr>) (fst wi))"
      by (auto simp: run_simps split: if_splits option.splits)
    obtain org j where j: "journal_job org rid c job (fst w) = Some j" "st = cj_Status j" "lst = cj_LogSequence j" "fst wl = fst w"
      using lock by (rule lockRunnerJob_Inr)
    have "R (fst w) (snd (change_jobs (\<lambda>j. cj_ID j = job) (\<lambda>j. j\<lparr>cj_LogSequence := ll_Sequence ?l\<rparr>) (fst wi)))"
      by (rule law_line[OF j(1)]) (use open' ins j in simp_all)
    then show "R (fst w) (fst w1)" using chg by simp
  qed
qed

lemma within_receipt [intro]: "within R (recordRunnerReceipt hash now rid c job req detail)"
proof -
  let ?final = "terminalJobStatus (rq_Status req)" and ?digest = "hash (req\<lparr>rq_Token := ''''\<rparr>)"
  let ?up = "update_jobs (\<lambda>j. cj_ID j = job)
              (\<lambda>j. j\<lparr>cj_Status := rq_Status req, cj_Detail := detail,
                     cj_FinishedAt := (if ?final then Some now else cj_FinishedAt j),
                     cj_Receipt := (if ?final then Some ?digest else None), cj_SealPending := ?final\<rparr>) now"
  let ?k = "\<lambda>(state, lst, prior).
          if terminalJobStatus state then
            (if prior = Some ?digest then ret (Abort True) else fail (App ReceiptConflicts))
          else if ?final \<and> lst \<noteq> report_last req then fail (App LogBarrier)
          else bnd (stmt Sql ?up) (\<lambda>_. ret (Commit ?final))"
  have "within R (bnd (lockRunnerJob rid c job) ?k)"
  proof (rule frame_bnd_fact[OF within_readers(8), where Q = "\<lambda>r. \<not> terminalJobStatus (fst r) \<longrightarrow> ok job"])
    fix w w1 and r assume lock: "lockRunnerJob rid c job w = (Inr r, w1)" and i: "I (fst w)"
    obtain st lst prior where r: "r = (st, lst, prior)" by (cases r)
    obtain org j where "journal_job org rid c job (fst w) = Some j" "st = cj_Status j"
      using lock[unfolded r] by (rule lockRunnerJob_Inr)
    then show "\<not> terminalJobStatus (fst r) \<longrightarrow> ok job"
      using law_engaged[OF i, of j] journal_job_Some[of org rid c job "fst w" j] r by (auto simp: engaged_def)
  next
    fix r :: "string \<times> int \<times> string option" assume held: "\<not> terminalJobStatus (fst r) \<longrightarrow> ok job"
    obtain st lst prior where r: "r = (st, lst, prior)" by (cases r)
    have up: "within R (bnd (stmt Sql ?up) (\<lambda>_. ret (Commit ?final)) :: (cidb, cierr fault, bool txres) op)" if "ok job"
      by (intro frame_bnd frame_ret frame_stmt, elim law_jobs) (use that in \<open>auto simp: static_simps\<close>)
    show "within R (?k r)"
    proof (cases "terminalJobStatus st")
      case False
      with held r have "ok job" by simp
      then show ?thesis unfolding r prod.case if_not_P[OF False] by (intro frame_if frame_fail up)
    qed (simp add: r frame_if frame_ret frame_fail)
  qed
  note held = this
  show ?thesis unfolding recordRunnerReceipt_def Let_def
    by (intro frame_if frame_fail frame_bnd[OF frame_tx[OF held] frame_if[OF within_rollUp frame_ret]])
qed

lemma within_acknowledge [intro]: "within R (acknowledgeSeal job key)"
  unfolding acknowledgeSeal_def by (intro frame_rules law_change within_blob) (simp_all add: static_simps)

lemma within_sealJournal [intro]: "within R (sealJournal utext job)"
  unfolding sealJournal_def by (auto intro!: frame_rules split: option.splits)

lemma within_Seal [intro]: "within R (Seal utext job)"
  unfolding Seal_def by (auto intro!: frame_rules law_other simp: core_def)

lemma within_seal_all [intro]: "within R (seal_all utext js)"
  by (induction js) (auto intro!: frame_rules)

lemma within_reconcile [intro]: "within R (reconcileRunnerLogs utext now)"
  unfolding reconcileRunnerLogs_def claim_seals_def Let_def
  by (intro frame_rules within_seal_all) (simp, intro law_change; simp add: static_simps)

lemma within_prepare [intro]: "within R (prepareCredentials now org job rid att)"
proof -
  let ?c = "\<lparr>cc_OrgID = org, cc_JobID = job, cc_AttemptID = att, cc_Phase = ''preparing'',
              cc_ReadyAt = now + credentialPreparationLimit, cc_Leases = []\<rparr>"
  let ?held = "\<lambda>d. \<exists>j \<in> set (ci_jobs d). cj_ID j = job \<and> of_org d org j \<and> cj_RunnerID j = Some rid \<and> cj_Status j = ''pending''"
  have "within R (bnd (query Sql ?held) (\<lambda>held. if \<not> held then fail (App CINoRows)
       else bnd (stmt Sql (insert_credential ?c)) (\<lambda>_. ret (Commit ()))))"
  proof (rule frame_bnd_read[OF frame_query])
    fix w w1 held assume q: "query Sql ?held w = (Inr held, w1)"
    show "R (fst w1) (fst (snd ((if \<not> held then fail (App CINoRows)
       else bnd (stmt Sql (insert_credential ?c)) (\<lambda>_. ret (Commit ()))) w1)))"
    proof (cases held)
      case True
      with q have "?held (fst w1)" by (auto simp: query_Inr)
      then have "R (fst w1) (fst (snd (bnd (stmt Sql (insert_credential ?c)) (\<lambda>_. ret (Commit ())) w1)))"
        by (intro frame_bnd_at frame_stmt_at frame_ret) (erule law_prepare, auto)
      with True show ?thesis by simp
    qed (simp add: fail_def frame_refl)
  qed
  then show ?thesis unfolding prepareCredentials_def by (rule frame_tx)
qed

lemma within_abandonCredentials [intro]: "within R (abandonCredentials now org job att leases)"
  unfolding abandonCredentials_def by (intro frame_rules law_cleanup) simp_all

lemma engaged_prepared:
  "\<not> terminalJobStatus (cj_Status j) \<Longrightarrow> c \<in> set (ci_credentials d) \<Longrightarrow> cc_JobID c = cj_ID j \<Longrightarrow> cc_Phase c = ''preparing'' \<Longrightarrow> engaged d j"
  by (auto simp: engaged_def)

lemma within_recover [intro]: "within R (recoverCredentialPreparation ctx now org job)"
  unfolding recoverCredentialPreparation_def
  by (intro frame_rules frame_require_org within_rollUp, erule law_jobs)
     (auto simp: static_simps intro!: law_engaged engaged_prepared)

lemma within_recover_all [intro]: "within R (recover_all now ids)"
  by (induction now ids rule: recover_all.induct) (auto intro!: frame_rules)

lemma within_RecoverPreparations [intro]: "within R (RecoverCredentialPreparations ctx now)"
  unfolding RecoverCredentialPreparations_def by (intro frame_rules within_recover_all)

lemma within_retry:
  assumes "\<And>i. broker i = Inr (True, 0) \<Longrightarrow> confirmed i"
  shows "within R (retryCredentialCleanup broker ctx now i)"
proof -
  obtain org job att where i: "i = (org, job, att)" by (cases i)
  have drop: "within R (update Sql (\<lambda>d. ((), d\<lparr>ci_credentials := filter (\<lambda>c. \<not> (same_cleanup org job att c \<and> cc_Phase c = ''cleanup''))
                  (ci_credentials d)\<rparr>)))" if "broker i = Inr (fenced, pending)" "\<not> (\<not> fenced \<or> pending \<noteq> 0)" for fenced pending
    by (rule frame_update) (use assms[of i] that law_confirmed i in \<open>auto simp: put_credentials_def\<close>)
  show ?thesis unfolding retryCredentialCleanup_def i prod.case
  proof (intro frame_bnd frame_require_org frame_update frame_if frame_ret)
    show "R d (snd (change_credentials (\<lambda>c. same_cleanup org job att c \<and> cc_Phase c = ''cleanup'' \<and> cc_ReadyAt c \<le> now)
       (\<lambda>c. c\<lparr>cc_ReadyAt := now + 30 * second\<rparr>) d))" for d
      by (rule law_cleanup) simp_all
    show "within R (case broker (org, job, att) of Inl _ \<Rightarrow> fail (App CleanupRPC)
       | Inr (fenced, pending) \<Rightarrow>
           if \<not> fenced \<or> pending \<noteq> 0 then fail (App CleanupPending)
           else update Sql (\<lambda>d. ((), d\<lparr>ci_credentials := filter (\<lambda>c. \<not> (same_cleanup org job att c \<and> cc_Phase c = ''cleanup''))
                  (ci_credentials d)\<rparr>)))"
      using drop unfolding i by (auto intro: frame_fail split: sum.splits)
  qed
qed

lemma within_retry_all:
  assumes "\<And>i. broker i = Inr (True, 0) \<Longrightarrow> confirmed i"
  shows "within R (retry_all broker now ids)"
  by (induction ids) (auto intro!: frame_rules within_retry assms)

lemma within_Retry:
  assumes "\<And>b i. broker = Some b \<Longrightarrow> b i = Inr (True, 0) \<Longrightarrow> confirmed i"
  shows "within R (RetryCredentialCleanup broker ctx now live)"
  unfolding RetryCredentialCleanup_def
  by (cases broker) (auto intro!: frame_rules within_retry_all assms)

lemma within_tx_split: "within R m \<Longrightarrow> within R (tx_split hb hc m)"
  using frame_tx[of m hc] by (auto simp: tx_split_def within_def frame_refl)

lemma within_upload_tx [intro]: "within R (upload_tx org job connection a)"
  unfolding upload_tx_def admit_upload_def
  by (intro within_tx_split frame_bnd frame_case_option frame_ret frame_query frame_if frame_fail frame_stmt;
      (rule law_other)?) (auto simp: insert_artifact_def core_def split: if_splits)

lemma within_Upload [intro]: "within R (Upload utext sha new_id now job name content connection)"
  unfolding Upload_def Let_def by (auto intro!: frame_rules split: sum.splits)

lemma within_retentionScope [intro]: "within R (retentionScope ctx i)"
  by (cases ctx) (simp_all add: retentionScope_def frame_fail frame_ret)

lemma within_retireLog [intro]: "within R (retireRunnerLog ctx i)"
  unfolding retireRunnerLog_def by (intro frame_rules within_retentionScope law_retire) simp

lemma within_deleteRetired [intro]: "within R (deleteRetiredRunnerLog ctx i)"
proof -
  have "within R (bnd (query Sql (\<lambda>d. List.find (identified i d) (ci_jobs d))) (\<lambda>row.
       case row of
         None \<Rightarrow> fail (App CINoRows)
       | Some j \<Rightarrow>
           if \<not> cj_Retired j then fail (App RetentionIntentMissing)
           else bnd (update Sql (\<lambda>d. ((), d\<lparr>ci_lines := filter (\<lambda>l. ll_JobID l \<noteq> li_JobID i) (ci_lines d)\<rparr>))) (\<lambda>_.
                ret (Commit ()))))" (is "within R (bnd _ ?k)")
  proof (rule frame_bnd_read[OF frame_query])
    fix w w1 row assume q: "query Sql (\<lambda>d. List.find (identified i d) (ci_jobs d)) w = (Inr row, w1)"
    show "R (fst w1) (fst (snd (?k row w1)))"
    proof (cases row)
      case (Some j)
      show ?thesis
      proof (cases "cj_Retired j")
        case True
        have "j \<in> set (ci_jobs (fst w1)) \<and> cj_ID j = li_JobID i"
          using q Some by (auto simp: query_Inr identified_def eq_commute[of "Some j"] dest: find_Some_in)
        then have "R (fst w1) ((fst w1)\<lparr>ci_lines := filter (\<lambda>l. ll_JobID l \<noteq> li_JobID i) (ci_lines (fst w1))\<rparr>)"
          using True by (intro law_drop_lines) blast
        then have "R (fst w1) (fst (snd (bnd (update Sql (\<lambda>d. ((), d\<lparr>ci_lines := filter (\<lambda>l. ll_JobID l \<noteq> li_JobID i) (ci_lines d)\<rparr>)))
            (\<lambda>_. ret (Commit ()) :: (cidb, cierr fault, unit txres) op) w1)))"
          by (intro frame_bnd_at frame_update_at frame_ret) simp
        then show ?thesis by (simp only: Some option.case if_not_P not_not True if_False simp_thms)
      qed (simp add: Some fail_def frame_refl)
    qed (simp add: fail_def frame_refl)
  qed
  note body = frame_tx[OF this]
  show ?thesis unfolding deleteRetiredRunnerLog_def by (intro frame_bnd[OF within_retentionScope] body)
qed

lemma within_sweep_logs [intro]: "within R (sweep_logs utext is)"
  by (induction utext "is" rule: sweep_logs.induct) (auto intro!: frame_rules)

lemma within_sweep_artifacts [intro]: "within R (sweep_artifacts as)"
  by (induction "as") (auto intro!: frame_rules law_other simp: core_def)

lemma within_Sweep [intro]: "within R (Sweep utext now)"
  unfolding Sweep_def by (auto intro!: frame_rules)

lemma within_Set_policy [intro]: "within R (Set_policy p)"
  unfolding Set_policy_def by (auto intro!: frame_rules law_other simp: core_def)

text \<open>The pump.\<close>

lemma within_abandon [intro]: "within R (abandon now org job att leases)"
  unfolding abandon_def by (auto intro!: frame_rules)

lemma within_send_job [intro]: "within R (send_job p now rid org att job d ms)"
  unfolding send_job_def Let_def by (auto intro!: frame_rules split: sum.splits)

lemma within_offer [intro]: "within R (offer p now att rn d ms)"
proof -
  obtain rid r where rn: "rn = (rid, r)" by (cases rn)
  show ?thesis unfolding offer_def rn prod.case
  proof (rule frame_bnd_fact[where Q = "\<lambda>c. \<forall>job org. c = Inr (job, org) \<longrightarrow> ok (dj_JobID job)"])
    show "within R (attempt (ClaimForDispatch now rid (rg_Labels r) [rg_ConnectionID r]))" by (intro frame_attempt within_ClaimForDispatch)
    fix w w1 and c :: "cierr fault + (dispatch_job \<times> uuid)"
    assume "attempt (ClaimForDispatch now rid (rg_Labels r) [rg_ConnectionID r]) w = (Inr c, w1)" "I (fst w)"
    then show "\<forall>job org. c = Inr (job, org) \<longrightarrow> ok (dj_JobID job)"
      by (auto simp: attempt_run intro: ClaimForDispatch_ok)
  next
    fix c :: "cierr fault + (dispatch_job \<times> uuid)"
    assume Q: "\<forall>job org. c = Inr (job, org) \<longrightarrow> ok (dj_JobID job)"
    have set: "within R (SetJobStatus now (dj_JobID job) st detail)" if "c = Inr (job, org)" for job org st detail
      using Q that by (intro within_SetJobStatus) blast
    have set': "c = Inr (job, org) \<Longrightarrow> within R (attempt (SetJobStatus now (dj_JobID job) st detail))" for job org st detail
      using set by (intro frame_attempt)
    show "within R (case c of
       Inl _ \<Rightarrow> ret (True, ms)
     | Inr (job0, org) \<Rightarrow>
         (case pp_clone p org (dj_RepoCloneURL job0) of
            Inl _ \<Rightarrow> bnd (attempt (SetJobStatus now (dj_JobID job0) ''failure'' ''clone url'')) (\<lambda>_. ret (False, ms))
          | Inr url \<Rightarrow>
              (let job = job0\<lparr>dj_RepoCloneURL := url\<rparr> in
               if dj_Secrets job = [] then send_job p now rid org uuid_Nil job d ms
               else
                 bnd (attempt (prepareCredentials now org (dj_JobID job) rid att)) (\<lambda>prepared.
                 case prepared of
                   Inl _ \<Rightarrow> bnd (releaseClaim now (dj_JobID job) ''credential preparation unavailable'' (now + credentialRetryAfter))
                       (\<lambda>_. ret (False, ms))
                 | Inr _ \<Rightarrow>
                     (case ResolveJobCredentials (pp_broker p) org att job of
                        Inl (e, leases) \<Rightarrow>
                          bnd (abandon now org (dj_JobID job) att leases) (\<lambda>released.
                          if \<not> released then ret (True, ms)
                          else bnd (if StateAfterCredentialResolution (Some e) = ''pending''
                                    then releaseClaim now (dj_JobID job) ''blocked'' (now + credentialRetryAfter)
                                    else bnd (attempt (SetJobStatus now (dj_JobID job) ''failure'' ''credentials denied'')) (\<lambda>_. ret ()))
                               (\<lambda>_. ret (False, ms)))
                      | Inr env \<Rightarrow>
                          send_job p now rid org att (job\<lparr>dj_SecretEnv := env\<rparr>) d
                            (register_masks (dj_JobID job) (map snd env) (pp_redactor p (map snd env)) ms))))))"
    proof (cases c)
      case (Inr jo)
      obtain job0 org where jo: "jo = (job0, org)" by (cases jo)
      note set0 = set'[OF Inr[unfolded jo]]
      show ?thesis unfolding Inr jo sum.case prod.case
        by (auto simp: Let_def intro!: frame_bnd frame_ret frame_if set0 frame_attempt[OF within_prepare] within_send_job within_abandon
              within_releaseClaim split: sum.splits)
    qed (simp add: frame_ret)
  qed
qed

lemma within_offers [intro]: "within R (offers n p now atts rn d ms)"
  by (induction n arbitrary: ms) (auto intro!: frame_rules split: prod.splits)

lemma within_tick_runners [intro]: "within R (tick_runners p now atts rns d ms)"
  by (induction rns arbitrary: ms) (auto intro!: frame_rules)

lemma within_tick [intro]: "within R (tick p now atts d ms)"
  unfolding tick_def by (rule within_tick_runners)

text \<open>Agent jobs.\<close>

lemma within_start_agent [intro]: "within R (start_agent ps job)"
  unfolding start_agent_def by (auto intro!: frame_rules split: sum.splits option.splits)

lemma within_follow_jobs:
  assumes "\<forall>j \<in> set js. ok (ij_JobID j)"
  shows "within R (follow_jobs ps now js)"
  using assms by (induction ps now js rule: follow_jobs.induct)
    (auto intro!: frame_rules within_SetJobStatus split: sum.splits option.splits)

lemma within_follow [intro]: "within R (follow ps now)"
  unfolding follow_def
proof (rule frame_bnd_fact[where Q = "\<lambda>js. \<forall>j \<in> set js. ok (ij_JobID j)"])
  fix w w1 js assume "InFlightAgentJobs now w = (Inr js, w1)" "I (fst w)"
  then show "\<forall>j \<in> set js. ok (ij_JobID j)"
    by (auto simp: InFlightAgentJobs_def query_Inr engaged_def intro!: law_engaged split: option.splits)
qed (auto intro: within_follow_jobs)

lemma within_start_all [intro]: "within R (start_all n ps now)"
proof (induction n)
  case (Suc n)
  show ?case unfolding start_all.simps
  proof (rule frame_bnd_fact[where Q = "\<lambda>c. \<forall>job. c = Inr job \<longrightarrow> ok (aj_JobID job)"])
    fix w w1 and c :: "cierr fault + agent_job" assume "attempt (ClaimAgentJob now) w = (Inr c, w1)" "I (fst w)"
    then show "\<forall>job. c = Inr job \<longrightarrow> ok (aj_JobID job)" by (auto simp: attempt_run intro: ClaimAgentJob_ok)
  qed (auto intro!: frame_rules within_SetJobStatus Suc.IH split: sum.splits)
qed (auto intro: frame_rules)

lemma within_Tick_agents [intro]: "within R (Tick_agents fuel ps now)"
  unfolding Tick_agents_def by (auto intro!: frame_rules split: option.splits)

text \<open>The service of runners.\<close>

lemma within_authenticate [intro]: "within R (authenticateRunner unhex sha rid token)"
  unfolding authenticateRunner_def by (auto intro!: frame_rules split: option.splits)

lemma within_Register_rpc [intro]: "within R (Register_rpc sha new_id now raw ctx named name labels)"
  unfolding Register_rpc_def registrationScope_def by (cases ctx) (auto intro!: frame_rules)

lemma within_mask [intro]: "within R (maskRunnerOutput ms job line)"
  unfolding maskRunnerOutput_def by (auto intro!: frame_rules split: sum.splits)

lemma within_activate [intro]: "within R (activateConnection accepted new_id now rid d)"
  unfolding activateConnection_def by (auto intro!: frame_rules split: sum.splits)

lemma within_Unregister [intro]: "within R (UnregisterConnection now rid c d)"
  unfolding UnregisterConnection_def by (auto intro!: frame_rules)

lemma within_Connect_frame [intro]: "within R (Connect_frame unhex sha utext accepted new_id now ms f st d)"
  unfolding Connect_frame_def
  by (cases "fr_RunnerID f"; cases st; cases "fr_Payload f")
     (auto intro!: frame_rules split: sum.splits option.splits prod.splits)

lemma within_polls [intro]: "within R (receipt_polls n hash now req detail)"
  by (induction n) (auto intro!: frame_rules split: sum.splits)

lemma within_ReportStatus [intro]: "within R (ReportStatus unhex sha utext polls hash now ms req)"
  unfolding ReportStatus_def by (auto intro!: frame_rules)

lemma within_UploadArtifact [intro]: "within R (UploadArtifact unhex sha utext new_id now job runner token c name content)"
  unfolding UploadArtifact_def by (auto intro!: frame_rules split: option.splits)

lemma within_end_stream [intro]: "within R (end_stream now st d)"
  unfolding end_stream_def by (auto intro!: frame_rules split: stream_state.splits)

lemma within_ci_scope [intro]: "within R (ci_scope ctx)"
  unfolding ci_scope_def by (auto intro!: frame_rules split: option.splits)

lemma within_TriggerRun [intro]: "within R (TriggerRun repos commits blobs new_id ids now ctx repo ref)"
  unfolding TriggerRun_def Let_def by (auto intro!: frame_rules split: option.splits sum.splits)

end

section \<open>Histories\<close>

text \<open>
  What the service is deployed with: the decoding and hashing of tokens, the text of an identifier, the
  digest of a report, the pump and the peers of the agent jobs.
\<close>

record ci_env =
  en_unhex :: "string \<Rightarrow> string option"
  en_sha :: "string \<Rightarrow> string"
  en_utext :: "uuid \<Rightarrow> string"
  en_hash :: "report \<Rightarrow> string"
  en_pump :: pump
  en_peers :: job_peers

text \<open>
  What drives the service. A frame and a tick may come with any state of a stream, any dispatcher and any
  masks, so a history is also one of several replicas.
\<close>

datatype ci_cmd =
    CmdPush "grpc_code + workflow option" uuid "nat \<Rightarrow> uuid" time ctx push_event
  | CmdTrigger "uuid \<Rightarrow> grpc_code + repo_info" "uuid \<Rightarrow> string \<Rightarrow> grpc_code + string list"
      "uuid \<Rightarrow> string \<Rightarrow> grpc_code + workflow option" uuid "nat \<Rightarrow> uuid" time ctx "uuid option" string
  | CmdRegister uuid time string ctx "uuid option" string "string list"
  | CmdFrame bool uuid time masks frame stream_state dispatcher
  | CmdClose time stream_state dispatcher
  | CmdReport nat time masks report
  | CmdUpload uuid time "uuid option" "uuid option" string "uuid option" string string
  | CmdTick time "uuid \<Rightarrow> nat \<Rightarrow> uuid" dispatcher masks
  | CmdAgents nat time
  | CmdRetry "(uuid \<times> uuid \<times> uuid \<Rightarrow> unit + (bool \<times> int)) option" ctx time nat
  | CmdReconcile time
  | CmdSweep time
  | CmdPolicy policy
  | CmdPurgeRepository ctx time uuid
  | CmdPurgeOrganization ctx time

definition silent :: "'a ci_op \<Rightarrow> unit ci_op" where
  "silent m = bnd m (\<lambda>_. ret ())"

fun ci_perform :: "ci_env \<Rightarrow> ci_cmd \<Rightarrow> unit ci_op" where
  "ci_perform e (CmdPush blob new_id ids now ctx evt) = handlePush blob new_id ids now ctx evt"
| "ci_perform e (CmdTrigger repos commits blobs new_id ids now ctx repo ref) =
     silent (TriggerRun repos commits blobs new_id ids now ctx repo ref)"
| "ci_perform e (CmdRegister new_id now raw ctx named name labels) = silent (Register_rpc (en_sha e) new_id now raw ctx named name labels)"
| "ci_perform e (CmdFrame accepted new_id now ms f st d) =
     silent (Connect_frame (en_unhex e) (en_sha e) (en_utext e) accepted new_id now ms f st d)"
| "ci_perform e (CmdClose now st d) = silent (end_stream now st d)"
| "ci_perform e (CmdReport polls now ms req) = silent (ReportStatus (en_unhex e) (en_sha e) (en_utext e) polls (en_hash e) now ms req)"
| "ci_perform e (CmdUpload new_id now job runner token c name content) =
     silent (UploadArtifact (en_unhex e) (en_sha e) (en_utext e) new_id now job runner token c name content)"
| "ci_perform e (CmdTick now atts d ms) = silent (tick (en_pump e) now atts d ms)"
| "ci_perform e (CmdAgents fuel now) = silent (Tick_agents fuel (en_peers e) now)"
| "ci_perform e (CmdRetry broker ctx now live) = silent (RetryCredentialCleanup broker ctx now live)"
| "ci_perform e (CmdReconcile now) = reconcileRunnerLogs (en_utext e) now"
| "ci_perform e (CmdSweep now) = silent (Sweep (en_utext e) now)"
| "ci_perform e (CmdPolicy p) = Set_policy p"
| "ci_perform e (CmdPurgeRepository ctx now repo) = NF_CI.PurgeRepository (en_utext e) ctx now repo"
| "ci_perform e (CmdPurgeOrganization ctx now) = NF_CI.PurgeOrganization (en_utext e) ctx now"

definition ci_exec :: "ci_env \<Rightarrow> ci_cmd \<times> bool list \<Rightarrow> cidb \<Rightarrow> cidb" where
  "ci_exec e c d = fst (snd (ci_perform e (fst c) (d, snd c)))"

definition no_ci :: cidb where
  "no_ci = \<lparr>ci_runs = [], ci_jobs = [], ci_runners = [], ci_credentials = [], ci_lines = [], ci_artifacts = [], ci_events = [],
     ci_policies = [], ci_blobs = [], ci_live = []\<rparr>"

fun ci_purge :: "ci_cmd \<Rightarrow> bool" where
  "ci_purge (CmdPurgeRepository ctx now repo) = True"
| "ci_purge (CmdPurgeOrganization ctx now) = True"
| "ci_purge _ = False"

text \<open>The attempts a command confirms as revoked, by the answers of the broker it asks.\<close>

fun confirms :: "ci_cmd \<Rightarrow> uuid \<times> uuid \<times> uuid \<Rightarrow> bool" where
  "confirms (CmdRetry (Some b) ctx now live) i \<longleftrightarrow> b i = Inr (True, 0)"
| "confirms _ i \<longleftrightarrow> False"

context ci_frame
begin

lemma within_silent [intro]: "within R m \<Longrightarrow> within R (silent m)"
  unfolding silent_def by (intro frame_bnd frame_ret)

lemma step_within:
  assumes "\<not> ci_purge c" and "\<And>i. confirms c i \<Longrightarrow> confirmed i"
  shows "within R (ci_perform e c)"
proof (cases c)
  case (CmdRetry broker ctx now live)
  have "within R (RetryCredentialCleanup broker ctx now live)"
    by (rule within_Retry) (use assms(2) CmdRetry in simp)
  then show ?thesis unfolding CmdRetry ci_perform.simps by (rule within_silent)
qed (use assms(1) in auto)

lemma history:
  assumes "\<forall>c \<in> set cs. \<not> ci_purge (fst c)" and "\<forall>c \<in> set cs. \<forall>i. confirms (fst c) i \<longrightarrow> confirmed i"
  shows "R d (fold (ci_exec e) cs d)"
  using assms
proof (induction cs arbitrary: d)
  case (Cons c cs)
  have "R d (ci_exec e c d)"
    using withinD[OF step_within[of "fst c" e], of "(d, snd c)"] Cons.prems by (auto simp: ci_exec_def)
  then show ?case using Cons.IH[of "ci_exec e c d"] Cons.prems by (auto intro: frame_trans)
qed (simp add: frame_refl)

end

text \<open>What also holds of deletions.\<close>

locale ci_purge_frame = ci_frame +
  assumes law_delete: "R d (snd (delete_ci_runs Pr now d))"
    and law_drop_runners: "(\<forall>j \<in> set (ci_jobs d). \<not> of_org d org j) \<Longrightarrow> R d (d\<lparr>ci_runners := filter (\<lambda>n. ru_OrgID n \<noteq> org) (ci_runners d)\<rparr>)"
begin

lemma within_delete_objects [intro]: "within R (delete_objects ks)"
  by (induction ks) (auto intro!: frame_rules)

lemma within_Delete_log [intro]: "within R (Delete_log utext job)"
  unfolding Delete_log_def by (intro frame_rules law_other within_blob) (simp add: core_def)

lemma within_delete_logs [intro]: "within R (delete_logs utext js)"
  by (induction utext js rule: delete_logs.induct) (auto intro!: frame_rules)

lemma within_purgeOrg_ci [intro]: "within R (NF_CI.purgeOrg ctx)"
  unfolding NF_CI.purgeOrg_def by (auto intro!: frame_rules split: option.splits)

lemma within_purge_ci [intro]: "within R (purge_ci utext now org repo)"
  unfolding purge_ci_def by (auto intro!: frame_rules law_delete)

lemma purge_ci_empties:
  assumes "purge_ci utext now org None w = (Inr u, w')" and "j \<in> set (ci_jobs (fst w'))"
  shows "\<not> of_org (fst w') org j"
  using assms unfolding purge_ci_def of_org_def by (auto simp: run_simps delete_ci_runs_def Let_def in_purge_def)

lemma within_PurgeRepository [intro]: "within R (NF_CI.PurgeRepository utext ctx now repo)"
  unfolding NF_CI.PurgeRepository_def by (auto intro!: frame_rules)

lemma within_PurgeOrganization [intro]: "within R (NF_CI.PurgeOrganization utext ctx now)"
proof -
  let ?runners = "\<lambda>org d. ((), d\<lparr>ci_runners := filter (\<lambda>n. ru_OrgID n \<noteq> org) (ci_runners d)\<rparr>)"
  have "within R (bnd (purge_ci utext now org None) (\<lambda>_. bnd (update Sql (?runners org)) (\<lambda>_.
     update Sql (\<lambda>d. ((), d\<lparr>ci_policies := filter (\<lambda>p. rp_OrgID p \<noteq> org) (ci_policies d)\<rparr>)))))" for org
  proof (rule frame_bnd_read[OF within_purge_ci])
    fix w w1 and u :: unit assume "purge_ci utext now org None w = (Inr u, w1)"
    from purge_ci_empties[OF this] have "R (fst w1) (snd (?runners org (fst w1)))"
      by (simp, intro law_drop_runners) blast
    then show "R (fst w1) (fst (snd (bnd (update Sql (?runners org)) (\<lambda>_.
     update Sql (\<lambda>d. ((), d\<lparr>ci_policies := filter (\<lambda>p. rp_OrgID p \<noteq> org) (ci_policies d)\<rparr>))) w1)))"
      by (rule frame_bnd_at[OF frame_update_at]) (intro frame_update law_other, simp add: core_def)
  qed
  note body = this
  show ?thesis unfolding NF_CI.PurgeOrganization_def by (rule frame_bnd[OF within_purgeOrg_ci body])
qed

lemma history_purged:
  assumes "\<forall>c \<in> set cs. \<forall>i. confirms (fst c) i \<longrightarrow> confirmed i"
  shows "R d (fold (ci_exec e) cs d)"
  using assms
proof (induction cs arbitrary: d)
  case (Cons c cs)
  have "within R (ci_perform e (fst c))"
  proof (cases "ci_purge (fst c)")
    case True
    then show ?thesis by (cases "fst c") auto
  qed (use Cons.prems step_within in auto)
  then have "R d (ci_exec e c d)" using withinD[of R _ "(d, snd c)"] by (simp add: ci_exec_def)
  then show ?case using Cons.IH[of "ci_exec e c d"] Cons.prems by (auto intro: frame_trans)
qed (simp add: frame_refl)

end

end
