(* ===== verification/NF_CILaws.thy ===== *)
theory NF_CILaws
  imports NF_CIHistory
begin

text \<open>
  The invariants of continuous integration, each shown of the statements by an interpretation of the
  contract of \<open>NF_CIHistory\<close>: the keys, types and journals of the tables; the one announcement of a run; what a job
  keeps; the credentials a finished job owes; the jobs that can never start.
\<close>

section \<open>Keys, types, journals, holders\<close>

definition job_lines :: "cidb \<Rightarrow> uuid \<Rightarrow> log_line list" where
  "job_lines d jid = filter (\<lambda>l. ll_JobID l = jid) (ci_lines d)"

definition keyed :: "cidb \<Rightarrow> bool" where
  "keyed d \<longleftrightarrow> distinct (map cr_ID (ci_runs d)) \<and> distinct (map cj_ID (ci_jobs d)) \<and> distinct (map ru_ID (ci_runners d))
     \<and> cj_RunID ` set (ci_jobs d) \<subseteq> cr_ID ` set (ci_runs d) \<and> ll_JobID ` set (ci_lines d) \<subseteq> cj_ID ` set (ci_jobs d)"

text \<open>The lines of a job are numbered from one without a gap, until they are retired.\<close>

definition job_typed :: "cidb \<Rightarrow> wf_job \<Rightarrow> bool" where
  "job_typed d j \<longleftrightarrow> cj_Status j \<in> set validJobStatuses \<and> (cj_Retired j \<longrightarrow> terminalJobStatus (cj_Status j)) \<and> 0 \<le> cj_LogSequence j
     \<and> (map ll_Sequence (job_lines d (cj_ID j)) = [1..cj_LogSequence j] \<or> cj_Retired j \<and> job_lines d (cj_ID j) = [])"

definition well_held :: "cidb \<Rightarrow> uuid option \<Rightarrow> wf_job \<Rightarrow> bool" where
  "well_held d holder j \<longleftrightarrow> (\<forall>rid. holder = Some rid \<longrightarrow> (\<exists>n \<in> set (ci_runners d). ru_ID n = rid \<and> of_org d (ru_OrgID n) j))"

definition ci_ok :: "cidb \<Rightarrow> bool" where
  "ci_ok d \<longleftrightarrow> keyed d \<and> (\<forall>r \<in> set (ci_runs d). cr_Status r \<in> set ci_run_states)
     \<and> (\<forall>j \<in> set (ci_jobs d). job_typed d j \<and> well_held d (cj_RunnerID j) j)"

lemma ok_other:
  assumes "ci_ok d" and "ci_runs d' = ci_runs d" "ci_jobs d' = ci_jobs d" "ci_runners d' = ci_runners d" "ci_lines d' = ci_lines d"
  shows "ci_ok d'"
  using assms by (simp add: ci_ok_def keyed_def job_typed_def job_lines_def well_held_def of_org_def)

lemma ok_runs:
  assumes "ci_ok d" and "ci_jobs d' = ci_jobs d" "ci_runners d' = ci_runners d" "ci_lines d' = ci_lines d"
    and "distinct (map cr_ID (ci_runs d'))" and "\<forall>r \<in> set (ci_runs d'). cr_Status r \<in> set ci_run_states"
    and "\<And>r. r \<in> set (ci_runs d) \<Longrightarrow> \<exists>r' \<in> set (ci_runs d'). cr_ID r' = cr_ID r \<and> cr_OrgID r' = cr_OrgID r"
  shows "ci_ok d'"
proof -
  have org: "of_org d org j \<Longrightarrow> of_org d' org j" for org j using assms(7) unfolding of_org_def by metis
  have ids: "cr_ID ` set (ci_runs d) \<subseteq> cr_ID ` set (ci_runs d')" using assms(7) by (auto simp: image_iff) metis
  have held: "well_held d' h j" if "well_held d h j" for h j using that org assms(3) unfolding well_held_def by metis
  have "keyed d'" using assms(1-5) ids by (simp add: ci_ok_def keyed_def) (blast intro: subset_trans)
  moreover have "job_typed d' = job_typed d" by (intro ext) (simp add: job_typed_def job_lines_def assms(4))
  ultimately show ?thesis using assms(1,2,6) held by (simp add: ci_ok_def)
qed

lemma ok_jobs:
  assumes ok: "ci_ok d" and same: "ci_runs d' = ci_runs d" "ci_runners d' = ci_runners d" "ci_lines d' = ci_lines d"
    and rows: "ci_jobs d' = update_rows P f (ci_jobs d)"
    and f: "\<And>j. j \<in> set (ci_jobs d) \<Longrightarrow> P j \<Longrightarrow> cj_ID (f j) = cj_ID j \<and> cj_RunID (f j) = cj_RunID j \<and> cj_LogSequence (f j) = cj_LogSequence j"
    and status: "\<And>j. j \<in> set (ci_jobs d) \<Longrightarrow> P j \<Longrightarrow> cj_Status (f j) \<in> set validJobStatuses \<and> (cj_Retired j \<longrightarrow> cj_Retired (f j))
       \<and> (cj_Retired (f j) \<longrightarrow> terminalJobStatus (cj_Status (f j)))"
    and held: "\<And>j. j \<in> set (ci_jobs d) \<Longrightarrow> P j \<Longrightarrow> cj_RunnerID (f j) = cj_RunnerID j \<or> well_held d (cj_RunnerID (f j)) j"
  shows "ci_ok d'"
proof -
  have ids: "map cj_ID (ci_jobs d') = map cj_ID (ci_jobs d)" "map cj_RunID (ci_jobs d') = map cj_RunID (ci_jobs d)"
    unfolding rows using f by (auto simp: update_rows_def)
  have org: "of_org d' org j = of_org d org j" for org j using same by (simp add: of_org_def)
  have "job_typed d' j' \<and> well_held d' (cj_RunnerID j') j'" if "j' \<in> set (ci_jobs d')" for j'
  proof -
    from that obtain j where j: "j \<in> set (ci_jobs d)" "j' = (if P j then f j else j)" unfolding rows set_update_rows by blast
    have old: "job_typed d j" "well_held d (cj_RunnerID j) j" using ok j(1) by (auto simp: ci_ok_def)
    show ?thesis
    proof (cases "P j")
      case True
      then have j': "j' = f j" using j by simp
      have "job_typed d' j'"
        using old(1) f[OF j(1) True] status[OF j(1) True] same by (auto simp: j' job_typed_def job_lines_def)
      moreover have "of_org d' org j' = of_org d org j" for org using f[OF j(1) True] by (simp add: j' org) (simp add: of_org_def)
      then have "well_held d' (cj_RunnerID j') j'" using old(2) held[OF j(1) True] same by (auto simp: j' well_held_def)
      ultimately show ?thesis ..
    next
      case False
      then show ?thesis using old j same org by (simp add: job_typed_def job_lines_def well_held_def)
    qed
  qed
  moreover have "keyed d'" using ok ids same by (simp add: ci_ok_def keyed_def flip: set_map)
  ultimately show ?thesis using ok same by (simp add: ci_ok_def)
qed

lemma ok_runners:
  assumes "ci_ok d" and "ci_runs d' = ci_runs d" "ci_jobs d' = ci_jobs d" "ci_lines d' = ci_lines d"
    and "distinct (map ru_ID (ci_runners d'))"
    and "\<And>n. n \<in> set (ci_runners d) \<Longrightarrow> \<forall>j \<in> set (ci_jobs d). of_org d (ru_OrgID n) j
       \<longrightarrow> (\<exists>n' \<in> set (ci_runners d'). ru_ID n' = ru_ID n \<and> ru_OrgID n' = ru_OrgID n)"
  shows "ci_ok d'"
proof -
  have "well_held d' (cj_RunnerID j) j" if "j \<in> set (ci_jobs d)" "well_held d (cj_RunnerID j) j" for j
    unfolding well_held_def
  proof (intro allI impI)
    fix rid assume "cj_RunnerID j = Some rid"
    with that(2) obtain n where "n \<in> set (ci_runners d)" "ru_ID n = rid" "of_org d (ru_OrgID n) j" by (auto simp: well_held_def)
    then show "\<exists>n \<in> set (ci_runners d'). ru_ID n = rid \<and> of_org d' (ru_OrgID n) j"
      using assms(6)[of n] that(1) assms(2) by (fastforce simp: of_org_def)
  qed
  then show ?thesis using assms by (auto simp: ci_ok_def keyed_def job_typed_def job_lines_def)
qed

lemma update_jobs_other: "update_jobs P f now d = Inr (n, d') \<Longrightarrow> ci_runs d' = ci_runs d \<and> ci_runners d' = ci_runners d \<and> ci_lines d' = ci_lines d
    \<and> ci_events d' = ci_events d"
  by (drule update_jobs_rows) simp

lemma staticD: "static f \<Longrightarrow> cj_ID (f j) = cj_ID j \<and> cj_RunID (f j) = cj_RunID j \<and> cj_Name (f j) = cj_Name j \<and> cj_Needs (f j) = cj_Needs j
    \<and> cj_AgentRole (f j) = cj_AgentRole j \<and> cj_Secrets (f j) = cj_Secrets j \<and> cj_LogSequence (f j) = cj_LogSequence j
    \<and> cj_Retired (f j) = cj_Retired j \<and> (cj_RunnerID (f j) = cj_RunnerID j \<or> cj_RunnerID (f j) = None)"
  by (simp add: static_def)

lemma ok_job: "ci_ok d \<Longrightarrow> j \<in> set (ci_jobs d) \<Longrightarrow> job_typed d j \<and> well_held d (cj_RunnerID j) j"
  by (simp add: ci_ok_def)

lemma well_held_None [simp]: "well_held d None j"
  by (simp add: well_held_def)

lemma ok_static:
  assumes ok: "ci_ok d" and same: "ci_runs d' = ci_runs d" "ci_runners d' = ci_runners d" "ci_lines d' = ci_lines d"
    and rows: "ci_jobs d' = update_rows P f (ci_jobs d)" and f: "static f"
    and status: "\<And>j. j \<in> set (ci_jobs d) \<Longrightarrow> P j \<Longrightarrow> cj_Status (f j) \<in> set validJobStatuses
       \<and> (terminalJobStatus (cj_Status j) \<longrightarrow> terminalJobStatus (cj_Status (f j)))"
  shows "ci_ok d'"
proof (rule ok_jobs[OF ok same rows])
  fix j assume j: "j \<in> set (ci_jobs d)" "P j"
  note sf = staticD[OF f, of j]
  show "cj_ID (f j) = cj_ID j \<and> cj_RunID (f j) = cj_RunID j \<and> cj_LogSequence (f j) = cj_LogSequence j" using sf by blast
  show "cj_RunnerID (f j) = cj_RunnerID j \<or> well_held d (cj_RunnerID (f j)) j" using sf by fastforce
  show "cj_Status (f j) \<in> set validJobStatuses \<and> (cj_Retired j \<longrightarrow> cj_Retired (f j))
      \<and> (cj_Retired (f j) \<longrightarrow> terminalJobStatus (cj_Status (f j)))"
    using sf status[OF j] ok_job[OF ok j(1)] unfolding job_typed_def by metis
qed

lemma ok_update_jobs:
  assumes "update_jobs P f now d = Inr (n, d')" and "static f" and "ci_ok d"
  shows "ci_ok d'"
  by (rule ok_static[where P = P and f = f, OF assms(3) _ _ _ update_jobs_table[OF assms(1)] assms(2)])
     (use update_jobs_rows[OF assms(1)] in simp_all)

lemma ok_change_jobs:
  assumes "static f" and "\<And>j. cj_Status (f j) = cj_Status j" and "ci_ok d"
  shows "ci_ok (snd (change_jobs P f d))"
  by (rule ok_static[where P = P and f = f, OF assms(3) _ _ _ _ assms(1)])
     (use assms(2,3) in \<open>auto simp: change_jobs_def job_typed_def dest: ok_job\<close>)

lemma ok_update_runs:
  assumes "update_ci_runs P st d = Inr (n, d')" and "ci_ok d"
  shows "ci_ok d'"
proof (rule ok_runs[OF assms(2)])
  note rows = update_ci_runs_rows[OF assms(1)]
  show "distinct (map cr_ID (ci_runs d'))" using rows assms(2) by (simp add: map_update_rows ci_ok_def keyed_def)
  show "\<forall>r \<in> set (ci_runs d'). cr_Status r \<in> set ci_run_states" using rows assms(2) by (auto simp: set_update_rows ci_ok_def)
  show "\<exists>r' \<in> set (ci_runs d'). cr_ID r' = cr_ID r \<and> cr_OrgID r' = cr_OrgID r" if "r \<in> set (ci_runs d)" for r
  proof (rule bexI)
    show "(if P r then r\<lparr>cr_Status := st\<rparr> else r) \<in> set (ci_runs d')" using rows that by (simp add: set_update_rows)
  qed simp
qed (use update_ci_runs_rows[OF assms(1)] in simp_all)

lemma ok_insert_run: "insert_ci_run r d = Inr (a, d') \<Longrightarrow> ci_ok d \<Longrightarrow> ci_ok d'"
  by (erule insert_ci_run_cases, simp, rule ok_runs[of d]) (auto simp: ci_ok_def keyed_def)

lemma ok_insert_job:
  assumes "insert_job j d = Inr (u, d')" and "new_job j" and ok: "ci_ok d"
  shows "ci_ok d'"
proof -
  note row = insert_job_row[OF assms(1)]
  have "ll_JobID l \<noteq> cj_ID j" if "l \<in> set (ci_lines d)" for l
  proof -
    have "ll_JobID l \<in> cj_ID ` set (ci_jobs d)" using that ok by (auto simp: ci_ok_def keyed_def)
    then show ?thesis using row by metis
  qed
  then have "job_lines d (cj_ID j) = []" by (auto simp: job_lines_def filter_empty_conv)
  then have new: "job_typed d j" "well_held d (cj_RunnerID j) j" using assms(2) by (auto simp: job_typed_def new_job_def validJobStatuses_def)
  have same: "job_typed d' = job_typed d" "well_held d' = well_held d"
    using row by (auto intro!: ext simp: job_typed_def job_lines_def well_held_def of_org_def)
  have "keyed d'" using row ok by (auto simp: ci_ok_def keyed_def)
  then show ?thesis using row ok new unfolding ci_ok_def same by auto
qed

lemma ok_reserve:
  assumes "j \<in> set (ci_jobs d)" and "find_runner rid d = Some n" and "dispatchable now n d j" and ok: "ci_ok d"
  shows "ci_ok (reserve rid n j d)"
proof (rule ok_jobs[OF ok])
  show "ci_jobs (reserve rid n j d) = update_rows (\<lambda>k. cj_ID k = cj_ID j)
     (\<lambda>k. k\<lparr>cj_RunnerID := Some rid, cj_ConnectionID := ru_ConnectionID n, cj_Journal := (ru_ConnectionID n \<noteq> None)\<rparr>) (ci_jobs d)"
    by (simp add: reserve_def change_jobs_def)
  have n: "n \<in> set (ci_runners d)" "ru_ID n = rid" using assms(2) find_Some_in unfolding find_runner_def by fastforce+
  show "cj_RunnerID (k\<lparr>cj_RunnerID := Some rid, cj_ConnectionID := ru_ConnectionID n, cj_Journal := (ru_ConnectionID n \<noteq> None)\<rparr>) = cj_RunnerID k
     \<or> well_held d (cj_RunnerID (k\<lparr>cj_RunnerID := Some rid, cj_ConnectionID := ru_ConnectionID n, cj_Journal := (ru_ConnectionID n \<noteq> None)\<rparr>)) k"
    if "k \<in> set (ci_jobs d)" "cj_ID k = cj_ID j" for k
  proof -
    have "k = j" using that assms(1) ok by (auto simp: ci_ok_def keyed_def distinct_map inj_on_def)
    then show ?thesis using assms(3) n by (auto simp: well_held_def dispatchable_def of_org_def)
  qed
qed (use ok in \<open>auto simp: reserve_def change_jobs_def dest: ok_job simp: job_typed_def\<close>)

lemma journal_job_found:
  "journal_job org rid c jid d = Some j \<Longrightarrow> j \<in> set (ci_jobs d) \<and> cj_ID j = jid \<and> of_org d org j \<and> cj_RunnerID j = Some rid"
  unfolding journal_job_def by (drule find_Some_in) simp

lemma insert_line_row:
  "insert_line l d = Inr (u, d') \<Longrightarrow> d' = d\<lparr>ci_lines := ci_lines d @ [l]\<rparr> \<and> ll_JobID l \<in> cj_ID ` set (ci_jobs d)"
  unfolding insert_line_def by (simp split: if_split_asm)

lemma ok_line:
  assumes jj: "journal_job org rid c job d = Some j" and live: "\<not> terminalJobStatus (cj_Status j)"
    and ins: "insert_line l d = Inr (u, d1)" and l: "ll_JobID l = job" "ll_Sequence l = cj_LogSequence j + 1" and ok: "ci_ok d"
  shows "ci_ok (snd (change_jobs (\<lambda>j. cj_ID j = job) (\<lambda>j. j\<lparr>cj_LogSequence := ll_Sequence l\<rparr>) d1))" (is "ci_ok ?d'")
proof -
  note row = insert_line_row[OF ins]
  have j: "j \<in> set (ci_jobs d)" "cj_ID j = job" using journal_job_found[OF jj] by blast+
  have one: "k = j" if "k \<in> set (ci_jobs d)" "cj_ID k = job" for k
    using that j ok by (auto simp: ci_ok_def keyed_def distinct_map inj_on_def)
  have lines: "job_lines ?d' jid = job_lines d jid @ (if jid = job then [l] else [])" for jid
    using row l by (simp add: job_lines_def change_jobs_def)
  have open': "map ll_Sequence (job_lines d job) = [1..cj_LogSequence j]" "0 \<le> cj_LogSequence j"
    using ok_job[OF ok j(1)] live j(2) by (auto simp: job_typed_def)
  have numbers: "map ll_Sequence (job_lines ?d' job) = [1..ll_Sequence l]"
    unfolding lines using open' l by (simp add: upto_rec2)
  have "job_typed ?d' k' \<and> well_held ?d' (cj_RunnerID k') k'" if "k' \<in> set (ci_jobs ?d')" for k'
  proof -
    from that obtain k where k: "k \<in> set (ci_jobs d)" "k' = (if cj_ID k = job then k\<lparr>cj_LogSequence := ll_Sequence l\<rparr> else k)"
      using row by (auto simp: change_jobs_def set_update_rows)
    have "well_held ?d' (cj_RunnerID k') k'" using ok_job[OF ok k(1)] k row by (auto simp: well_held_def of_org_def change_jobs_def)
    moreover have "job_typed ?d' k'"
    proof (cases "cj_ID k = job")
      case True
      then have "k = j" using one k by blast
      then have "k' = j\<lparr>cj_LogSequence := ll_Sequence l\<rparr>" using k j by simp
      moreover have "job_typed d j" using ok_job[OF ok j(1)] by blast
      ultimately show ?thesis using numbers j(2) l(2) open'(2) live by (simp add: job_typed_def)
    next
      case False
      then show ?thesis using k ok_job[OF ok k(1)] by (simp add: job_typed_def lines)
    qed
    ultimately show ?thesis by blast
  qed
  moreover have "map cj_ID (ci_jobs ?d') = map cj_ID (ci_jobs d)" "map cj_RunID (ci_jobs ?d') = map cj_RunID (ci_jobs d)"
    using row by (simp_all add: change_jobs_def map_update_rows)
  then have "keyed ?d'" using ok row by (auto simp: ci_ok_def keyed_def change_jobs_def simp flip: set_map)
  ultimately show ?thesis using ok row by (simp add: ci_ok_def change_jobs_def)
qed


lemma ok_drop_lines:
  assumes "\<exists>j \<in> set (ci_jobs d). cj_ID j = job \<and> cj_Retired j" and ok: "ci_ok d"
  shows "ci_ok (d\<lparr>ci_lines := filter (\<lambda>l. ll_JobID l \<noteq> job) (ci_lines d)\<rparr>)" (is "ci_ok ?d'")
proof -
  have lines: "job_lines ?d' jid = (if jid = job then [] else job_lines d jid)" for jid
    by (auto simp: job_lines_def intro!: filter_cong)
  have "job_typed ?d' j" if "j \<in> set (ci_jobs d)" for j
  proof (cases "cj_ID j = job")
    case True
    with assms(1) that ok have "cj_Retired j" by (auto simp: ci_ok_def keyed_def distinct_map inj_on_def)
    then show ?thesis using ok_job[OF ok that] True by (simp add: job_typed_def lines)
  qed (use ok_job[OF ok that] in \<open>simp add: job_typed_def lines\<close>)
  moreover have "well_held ?d' = well_held d" by (intro ext) (simp add: well_held_def of_org_def)
  ultimately show ?thesis using ok by (auto simp: ci_ok_def keyed_def)
qed

lemma ok_change_runners:
  assumes "\<And>n. ru_ID (f n) = ru_ID n \<and> ru_OrgID (f n) = ru_OrgID n" and "ci_ok d"
  shows "ci_ok (snd (change_runners P f d))"
proof (rule ok_runners[OF assms(2)])
  show "distinct (map ru_ID (ci_runners (snd (change_runners P f d))))"
    using assms by (simp add: change_runners_def map_update_rows ci_ok_def keyed_def)
  show "\<forall>j \<in> set (ci_jobs d). of_org d (ru_OrgID n) j \<longrightarrow>
      (\<exists>n' \<in> set (ci_runners (snd (change_runners P f d))). ru_ID n' = ru_ID n \<and> ru_OrgID n' = ru_OrgID n)"
    if "n \<in> set (ci_runners d)" for n
  proof (intro ballI impI bexI)
    show "(if P n then f n else n) \<in> set (ci_runners (snd (change_runners P f d)))"
      using that by (simp add: change_runners_def set_update_rows)
  qed (use assms(1) in simp)
qed (simp_all add: change_runners_def)

lemma not_in_filtered: "(\<And>k. k \<in> set xs \<Longrightarrow> P k \<Longrightarrow> f k \<noteq> x) \<Longrightarrow> x \<notin> f ` set (filter P xs)"
  by auto

lemma filter_other_keys: "x \<notin> G \<Longrightarrow> filter (\<lambda>l. g l = x) (filter (\<lambda>l. g l \<notin> G) ls) = filter (\<lambda>l. g l = x) ls"
  by (induction ls) auto

lemma ok_delete:
  assumes ok: "ci_ok d"
  shows "ci_ok (snd (delete_ci_runs Pr now d))" (is "ci_ok ?d'")
proof -
  let ?doomed = "\<lambda>j. \<exists>r \<in> set (ci_runs d). Pr r \<and> cr_ID r = cj_RunID j"
  have jobs: "set (ci_jobs ?d') = {j \<in> set (ci_jobs d). \<not> ?doomed j}" by (auto simp: delete_ci_runs_def Let_def)
  have inj: "j = k" if "j \<in> set (ci_jobs d)" "k \<in> set (ci_jobs d)" "cj_ID j = cj_ID k" for j k
    using that ok by (auto simp: ci_ok_def keyed_def distinct_map inj_on_def)
  have "job_typed ?d' j \<and> well_held ?d' (cj_RunnerID j) j" if "j \<in> set (ci_jobs ?d')" for j
  proof -
    from that have j: "j \<in> set (ci_jobs d)" "\<not> ?doomed j" unfolding jobs by auto
    have "cj_ID k \<noteq> cj_ID j" if "k \<in> set (ci_jobs d)" and "?doomed k" for k using inj[OF j(1) that(1)] j(2) that(2) by metis
    then have "cj_ID j \<notin> cj_ID ` set (filter ?doomed (ci_jobs d))" by (intro not_in_filtered)
    then have "job_lines ?d' (cj_ID j) = job_lines d (cj_ID j)"
      unfolding job_lines_def delete_ci_runs_def Let_def snd_conv by (simp add: filter_other_keys del: set_filter filter_filter)
    then have "job_typed ?d' j" using ok_job[OF ok j(1)] by (simp add: job_typed_def)
    moreover have org: "of_org ?d' org j" if "of_org d org j" for org
      using that j(2) by (auto simp: of_org_def delete_ci_runs_def Let_def)
    have "ci_runners ?d' = ci_runners d" by (simp add: delete_ci_runs_def Let_def)
    then have "well_held ?d' (cj_RunnerID j) j" using ok_job[OF ok j(1)] org unfolding well_held_def by metis
    ultimately show ?thesis ..
  qed
  moreover have "keyed ?d'"
  proof -
    have "cj_RunID ` set (ci_jobs ?d') \<subseteq> cr_ID ` set (ci_runs ?d')"
    proof
      fix x assume "x \<in> cj_RunID ` set (ci_jobs ?d')"
      then obtain j where j: "j \<in> set (ci_jobs d)" "\<not> ?doomed j" "x = cj_RunID j" unfolding jobs by auto
      then obtain r where "r \<in> set (ci_runs d)" "cr_ID r = x" using ok by (force simp: ci_ok_def keyed_def)
      then have "r \<in> set (ci_runs ?d')" using j by (auto simp: delete_ci_runs_def Let_def)
      with \<open>cr_ID r = x\<close> show "x \<in> cr_ID ` set (ci_runs ?d')" by blast
    qed
    moreover have "ll_JobID ` set (ci_lines ?d') \<subseteq> cj_ID ` set (ci_jobs ?d')"
    proof
      fix x assume "x \<in> ll_JobID ` set (ci_lines ?d')"
      then obtain l where l: "l \<in> set (ci_lines d)" "x = ll_JobID l" "x \<notin> cj_ID ` set (filter ?doomed (ci_jobs d))"
        by (auto simp: delete_ci_runs_def Let_def)
      then obtain j where j: "j \<in> set (ci_jobs d)" "cj_ID j = x" using ok by (force simp: ci_ok_def keyed_def)
      with l(3) have "\<not> ?doomed j" by auto
      with j show "x \<in> cj_ID ` set (ci_jobs ?d')" unfolding jobs by auto
    qed
    ultimately show ?thesis using ok
      by (auto simp: keyed_def ci_ok_def delete_ci_runs_def Let_def distinct_map_filter)
  qed
  ultimately show ?thesis using ok by (auto simp: ci_ok_def delete_ci_runs_def Let_def)
qed

lemma ok_core: "core d' = core d \<Longrightarrow> ci_ok d \<Longrightarrow> ci_ok d'"
  by (rule ok_other[of d d']) (simp_all add: core_def)

lemma ok_credentials [simp]: "ci_ok (d\<lparr>ci_credentials := cs\<rparr>) = ci_ok d"
  using ok_other[of d "d\<lparr>ci_credentials := cs\<rparr>"] ok_other[of "d\<lparr>ci_credentials := cs\<rparr>" d] by auto

interpretation ci_keys: ci_purge_frame "keeps ci_ok" "\<lambda>_. True" "\<lambda>_. True" "\<lambda>_. True"
proof unfold_locales
  fix d d' :: cidb and j :: wf_job and u :: unit assume "insert_job j d = Inr (u, d')" "new_job j"
  then show "keeps ci_ok d d'" by (auto intro: keepsI ok_insert_job)
next
  fix d d' :: cidb and n :: nat and rid assume "start_run rid d = Inr (n, d')"
  then show "keeps ci_ok d d'" unfolding start_run_def by (blast intro: keepsI ok_update_runs)
next
  fix d :: cidb and Pj
  show "keeps ci_ok d (snd (change_jobs Pj (\<lambda>j. j\<lparr>cj_Retired := True, cj_SealPending := False\<rparr>) d))"
    if "\<And>j. Pj j \<Longrightarrow> terminalJobStatus (cj_Status j)"
    by (rule keepsI, rule ok_jobs[where P = Pj and f = "\<lambda>j. j\<lparr>cj_Retired := True, cj_SealPending := False\<rparr>"]) (use that in \<open>auto simp: change_jobs_def job_typed_def dest: ok_job\<close>)
next
  fix d d' :: cidb and nn :: runner and u :: unit assume "insert_runner nn d = Inr (u, d')"
  then show "keeps ci_ok d d'"
    by (intro keepsI) (frule ok_runners[of d d'], auto simp: insert_runner_def ci_ok_def keyed_def split: if_split_asm)
next
  fix org runner connection job d j and l :: log_line and u :: unit and d1
  assume l: "journal_job org runner connection job d = Some j" "\<not> terminalJobStatus (cj_Status j)" "insert_line l d = Inr (u, d1)"
    "ll_JobID l = job" "ll_Sequence l = cj_LogSequence j + 1"
  show "keeps ci_ok d (snd (change_jobs (\<lambda>j. cj_ID j = job) (\<lambda>j. j\<lparr>cj_LogSequence := ll_Sequence l\<rparr>) d1))"
    by (rule keepsI, rule ok_line[OF l])
next
  fix d d' :: cidb and c :: credential and u :: unit assume "insert_credential c d = Inr (u, d')"
  then show "keeps ci_ok d d'" by (intro keepsI) (erule ok_other, auto simp: insert_credential_def split: if_split_asm)
next
  fix d :: cidb and org
  show "keeps ci_ok d (d\<lparr>ci_runners := filter (\<lambda>n. ru_OrgID n \<noteq> org) (ci_runners d)\<rparr>)"
    if "\<forall>j \<in> set (ci_jobs d). \<not> of_org d org j"
  proof (rule keepsI)
    assume ok: "ci_ok d"
    show "ci_ok (d\<lparr>ci_runners := filter (\<lambda>n. ru_OrgID n \<noteq> org) (ci_runners d)\<rparr>)"
      by (rule ok_runners[OF ok]) (use ok that in \<open>auto simp: ci_ok_def keyed_def distinct_map_filter\<close>)
  qed
qed (auto intro!: keepsI intro: ok_insert_run ok_update_runs ok_update_jobs ok_change_jobs ok_reserve ok_line ok_drop_lines ok_change_runners ok_delete ok_core
  simp: change_credentials_def put_credentials_def)

section \<open>A run settles once and is announced once\<close>

text \<open>The trigger announced each run that is in a final state once, and no other.\<close>

definition announced :: "cidb \<Rightarrow> bool" where
  "announced d \<longleftrightarrow> distinct (map cr_ID (ci_runs d)) \<and> (\<forall>e \<in> set (ci_events d). ce_RunID e \<in> cr_ID ` set (ci_runs d))
     \<and> (\<forall>r \<in> set (ci_runs d). map ce_State (filter (\<lambda>e. ce_RunID e = cr_ID r) (ci_events d))
          = (if terminalJobStatus (cr_Status r) then [cr_Status r] else []))"

definition runs_kept :: "cidb \<Rightarrow> cidb \<Rightarrow> bool" where
  "runs_kept d d' \<longleftrightarrow> prefix (ci_events d) (ci_events d')
     \<and> (\<forall>r \<in> set (ci_runs d). \<exists>r' \<in> set (ci_runs d'). r' = r\<lparr>cr_Status := cr_Status r'\<rparr> \<and> (terminalJobStatus (cr_Status r) \<longrightarrow> r' = r))"

definition run_law :: "cidb \<Rightarrow> cidb \<Rightarrow> bool" where
  "run_law d d' \<longleftrightarrow> keeps announced d d' \<and> runs_kept d d'"

lemma run_event_run: "e \<in> set (run_event previous r) \<Longrightarrow> ce_RunID e = cr_ID r"
  by (auto simp: run_event_def split: if_splits)

lemma events_of_one:
  assumes "distinct (map cr_ID rs)" and "r \<in> set rs" and "\<And>q e. e \<in> set (ev q) \<Longrightarrow> ce_RunID e = cr_ID q"
  shows "filter (\<lambda>e. ce_RunID e = cr_ID r) (concat (map ev (filter P rs))) = (if P r then ev r else [])"
  using assms(1,2)
proof (induction rs)
  case (Cons q rs)
  have own: "filter (\<lambda>e. ce_RunID e = cr_ID r) (ev q) = (if cr_ID q = cr_ID r then ev q else [])" for q
    using assms(3)[of _ q] by (auto simp: filter_empty_conv filter_id_conv)
  show ?case
  proof (cases "q = r")
    case True
    then have "cr_ID k \<noteq> cr_ID r" if "k \<in> set rs" for k using Cons.prems(1) that unfolding True by (simp add: image_iff) metis
    then have "filter (\<lambda>e. ce_RunID e = cr_ID r) (concat (map ev (filter P rs))) = []"
      using assms(3) by (auto simp: filter_empty_conv)
    then show ?thesis using True own by simp
  next
    case False
    then have "r \<in> set rs" "cr_ID q \<noteq> cr_ID r" using Cons.prems by auto
    then show ?thesis using Cons own by simp
  qed
qed simp

lemma run_law_update:
  assumes "update_ci_runs P st d = Inr (n, d')" and P: "\<And>r. r \<in> set (ci_runs d) \<Longrightarrow> P r \<Longrightarrow> \<not> terminalJobStatus (cr_Status r)"
  shows "run_law d d'"
proof -
  note rows = update_ci_runs_rows[OF assms(1)]
  let ?ev = "\<lambda>r. run_event (cr_Status r) (r\<lparr>cr_Status := st\<rparr>)"
  have ids: "map cr_ID (ci_runs d') = map cr_ID (ci_runs d)" using rows by (simp add: map_update_rows)
  have "announced d'" if a: "announced d"
    unfolding announced_def
  proof (intro conjI ballI)
    show "distinct (map cr_ID (ci_runs d'))" using a ids by (simp add: announced_def)
    fix e assume "e \<in> set (ci_events d')"
    then have "e \<in> set (ci_events d) \<or> (\<exists>r \<in> set (ci_runs d). e \<in> set (?ev r))" using rows by auto
    then have "ce_RunID e \<in> cr_ID ` set (ci_runs d)"
    proof
      assume "\<exists>r \<in> set (ci_runs d). e \<in> set (?ev r)"
      then obtain r where r: "r \<in> set (ci_runs d)" "e \<in> set (?ev r)" by blast
      from run_event_run[OF r(2)] have "ce_RunID e = cr_ID r" by simp
      with r(1) show ?thesis by simp
    qed (use a in \<open>simp add: announced_def\<close>)
    then show "ce_RunID e \<in> cr_ID ` set (ci_runs d')" using ids by (metis set_map)
  next
    fix r' assume "r' \<in> set (ci_runs d')"
    then obtain r where r: "r \<in> set (ci_runs d)" "r' = (if P r then r\<lparr>cr_Status := st\<rparr> else r)" using rows by (auto simp: set_update_rows)
    then have id: "cr_ID r' = cr_ID r" by simp
    have new: "filter (\<lambda>e. ce_RunID e = cr_ID r) (concat (map ?ev (filter P (ci_runs d)))) = (if P r then ?ev r else [])"
    proof (rule events_of_one)
      show "ce_RunID e = cr_ID q" if "e \<in> set (?ev q)" for q e using run_event_run[OF that] by simp
    qed (use a r(1) in \<open>simp_all add: announced_def\<close>)
    have old: "map ce_State (filter (\<lambda>e. ce_RunID e = cr_ID r) (ci_events d)) = (if terminalJobStatus (cr_Status r) then [cr_Status r] else [])"
      using a r(1) by (simp add: announced_def)
    have events: "filter (\<lambda>e. ce_RunID e = cr_ID r') (ci_events d')
        = filter (\<lambda>e. ce_RunID e = cr_ID r) (ci_events d) @ (if P r then ?ev r else [])"
      using rows by (simp add: id new)
    show "map ce_State (filter (\<lambda>e. ce_RunID e = cr_ID r') (ci_events d')) = (if terminalJobStatus (cr_Status r') then [cr_Status r'] else [])"
    proof (cases "P r")
      case True
      then have "cr_Status r \<noteq> st \<or> \<not> terminalJobStatus st" using P[OF r(1)] by auto
      then show ?thesis unfolding events using True P[OF r(1) True] old r(2) by (auto simp: run_event_def)
    next
      case False
      then show ?thesis unfolding events using r(2) old by simp
    qed
  qed
  moreover have "runs_kept d d'"
    unfolding runs_kept_def
  proof (intro conjI ballI)
    show "prefix (ci_events d) (ci_events d')" using rows by simp
    fix r assume r: "r \<in> set (ci_runs d)"
    then have "(if P r then r\<lparr>cr_Status := st\<rparr> else r) \<in> set (ci_runs d')" using rows by (simp add: set_update_rows)
    then show "\<exists>r' \<in> set (ci_runs d'). r' = r\<lparr>cr_Status := cr_Status r'\<rparr> \<and> (terminalJobStatus (cr_Status r) \<longrightarrow> r' = r)"
      by (rule bexI[rotated]) (use P[OF r] in auto)
  qed
  ultimately show ?thesis by (simp add: run_law_def keeps_def)
qed

lemma kept_row: "r \<in> set rs \<Longrightarrow> \<exists>r' \<in> set rs. r' = r\<lparr>cr_Status := cr_Status r'\<rparr> \<and> (terminalJobStatus (cr_Status r) \<longrightarrow> r' = r)"
  by (rule bexI[of _ r]) simp_all

lemma run_law_insert:
  assumes "insert_ci_run r d = Inr (a, d')" and queued: "cr_Status r = ''queued''"
  shows "run_law d d'"
  using assms(1)
proof (cases rule: insert_ci_run_cases)
  case added
  have silent: "run_event '''' r = []" using queued by (simp add: run_event_def)
  have "announced d'" if a: "announced d"
  proof -
    have "filter (\<lambda>e. ce_RunID e = cr_ID r) (ci_events d) = []"
      using a added(3) unfolding announced_def filter_empty_conv by metis
    then show ?thesis using a added(3,4) silent queued by (auto simp: announced_def)
  qed
  moreover have "runs_kept d d'"
    unfolding runs_kept_def added(4) by (auto simp: kept_row)
  ultimately show ?thesis by (simp add: run_law_def keeps_def)
qed (auto simp: run_law_def runs_kept_def keeps_def kept_row)

lemma run_law_same: "ci_runs d' = ci_runs d \<Longrightarrow> ci_events d' = ci_events d \<Longrightarrow> run_law d d'"
  unfolding run_law_def runs_kept_def keeps_def announced_def by (simp add: kept_row)

lemma runs_kept_trans:
  assumes "runs_kept a b" and "runs_kept b c"
  shows "runs_kept a c"
  unfolding runs_kept_def
proof (intro conjI ballI)
  show "prefix (ci_events a) (ci_events c)" using assms by (auto simp: runs_kept_def intro: prefix_order.trans)
  fix r assume "r \<in> set (ci_runs a)"
  with assms(1) obtain r' where r': "r' \<in> set (ci_runs b)" "r' = r\<lparr>cr_Status := cr_Status r'\<rparr>" "terminalJobStatus (cr_Status r) \<longrightarrow> r' = r"
    unfolding runs_kept_def by blast
  with assms(2) obtain r'' where r'': "r'' \<in> set (ci_runs c)" "r'' = r'\<lparr>cr_Status := cr_Status r''\<rparr>" "terminalJobStatus (cr_Status r') \<longrightarrow> r'' = r'"
    unfolding runs_kept_def by blast
  have "r'' = r\<lparr>cr_Status := cr_Status r''\<rparr>" by (subst r''(2), subst r'(2)) simp
  then show "\<exists>r' \<in> set (ci_runs c). r' = r\<lparr>cr_Status := cr_Status r'\<rparr> \<and> (terminalJobStatus (cr_Status r) \<longrightarrow> r' = r)"
    using r' r'' by metis
qed

interpretation ci_announcements: ci_frame run_law "\<lambda>_. True" "\<lambda>_. True" "\<lambda>_. True"
proof unfold_locales
  fix a b c assume "run_law a b" "run_law b c"
  then show "run_law a c" by (auto simp: run_law_def keeps_def intro: runs_kept_trans)
next
  fix Pr st d n d' assume "update_ci_runs Pr st d = Inr (n, d')" "\<And>r. Pr r \<Longrightarrow> \<not> terminalJobStatus (cr_Status r) \<and> \<not> unfinished_run d (cr_ID r)"
  then show "run_law d d'" by (auto intro: run_law_update)
next
  fix rid d n d' assume "start_run rid d = Inr (n, d')"
  then show "run_law d d'" unfolding start_run_def by (rule run_law_update) auto
next
  fix r d a d' assume "insert_ci_run r d = Inr (a, d')" "cr_Status r = ''queued''"
  then show "run_law d d'" by (rule run_law_insert)
qed (auto intro!: run_law_same simp: core_def change_jobs_def reserve_def change_runners_def change_credentials_def put_credentials_def
  dest: insert_job_row update_jobs_other insert_line_row simp: insert_runner_def insert_credential_def split: if_split_asm)

section \<open>What a job keeps\<close>

definition kept_job :: "wf_job \<Rightarrow> wf_job \<Rightarrow> bool" where
  "kept_job j j' \<longleftrightarrow> cj_ID j' = cj_ID j \<and> cj_RunID j' = cj_RunID j \<and> cj_Name j' = cj_Name j \<and> cj_Needs j' = cj_Needs j
     \<and> cj_AgentRole j' = cj_AgentRole j \<and> cj_Secrets j' = cj_Secrets j
     \<and> (terminalJobStatus (cj_Status j) \<longrightarrow> terminalJobStatus (cj_Status j') \<and> cj_LogSequence j' = cj_LogSequence j)
     \<and> (cj_Retired j \<longrightarrow> cj_Retired j')"

definition jobs_kept :: "cidb \<Rightarrow> cidb \<Rightarrow> bool" where
  "jobs_kept d d' \<longleftrightarrow> (\<forall>j \<in> set (ci_jobs d). \<exists>j' \<in> set (ci_jobs d'). kept_job j j'
     \<and> (cj_Retired j' \<or> prefix (job_lines d (cj_ID j)) (job_lines d' (cj_ID j))))"

definition job_law :: "cidb \<Rightarrow> cidb \<Rightarrow> bool" where
  "job_law d d' \<longleftrightarrow> keeps ci_ok d d' \<and> (ci_ok d \<longrightarrow> jobs_kept d d')"

lemma kept_job_refl [simp]: "kept_job j j"
  by (simp add: kept_job_def)

lemma kept_job_in: "j \<in> set js \<Longrightarrow> \<exists>j' \<in> set js. kept_job j j'"
  by (rule bexI[of _ j]) simp_all

lemma jobs_kept_trans:
  assumes "jobs_kept a b" and "jobs_kept b c"
  shows "jobs_kept a c"
  unfolding jobs_kept_def
proof
  fix j assume "j \<in> set (ci_jobs a)"
  with assms(1) obtain j' where j': "j' \<in> set (ci_jobs b)" "kept_job j j'"
    "cj_Retired j' \<or> prefix (job_lines a (cj_ID j)) (job_lines b (cj_ID j))" unfolding jobs_kept_def by blast
  with assms(2) obtain j'' where j'': "j'' \<in> set (ci_jobs c)" "kept_job j' j''"
    "cj_Retired j'' \<or> prefix (job_lines b (cj_ID j')) (job_lines c (cj_ID j'))" unfolding jobs_kept_def by blast
  have "kept_job j j''" using j'(2) j''(2) by (auto simp: kept_job_def)
  moreover have "cj_Retired j'' \<or> prefix (job_lines a (cj_ID j)) (job_lines c (cj_ID j))"
    using j' j'' by (auto simp: kept_job_def dest: prefix_order.trans)
  ultimately show "\<exists>j' \<in> set (ci_jobs c). kept_job j j' \<and> (cj_Retired j' \<or> prefix (job_lines a (cj_ID j)) (job_lines c (cj_ID j)))"
    using j''(1) by blast
qed

lemma job_law_same: "ci_ok d' \<or> \<not> ci_ok d \<Longrightarrow> ci_jobs d' = ci_jobs d \<Longrightarrow> ci_lines d' = ci_lines d \<Longrightarrow> job_law d d'"
  unfolding job_law_def jobs_kept_def keeps_def job_lines_def by (auto intro: bexI[rotated])

lemma job_law_rows:
  assumes "keeps ci_ok d d'" and rows: "ci_jobs d' = update_rows P f (ci_jobs d)" and lines: "ci_lines d' = ci_lines d"
    and kept: "\<And>j. ci_ok d \<Longrightarrow> j \<in> set (ci_jobs d) \<Longrightarrow> P j \<Longrightarrow> kept_job j (f j)"
  shows "job_law d d'"
proof -
  have "jobs_kept d d'" if "ci_ok d"
    unfolding jobs_kept_def
  proof
    fix j assume j: "j \<in> set (ci_jobs d)"
    show "\<exists>j' \<in> set (ci_jobs d'). kept_job j j' \<and> (cj_Retired j' \<or> prefix (job_lines d (cj_ID j)) (job_lines d' (cj_ID j)))"
    proof (rule bexI)
      show "(if P j then f j else j) \<in> set (ci_jobs d')" using j by (simp add: rows set_update_rows)
    qed (use kept[OF that j] lines in \<open>simp add: job_lines_def\<close>)
  qed
  then show ?thesis using assms(1) by (simp add: job_law_def)
qed

lemma kept_static: "static f \<Longrightarrow> (terminalJobStatus (cj_Status j) \<longrightarrow> terminalJobStatus (cj_Status (f j))) \<Longrightarrow> kept_job j (f j)"
  by (drule staticD[of f j]) (simp add: kept_job_def)

lemma job_law_line:
  assumes jj: "journal_job org rid c job d = Some j" and live: "\<not> terminalJobStatus (cj_Status j)"
    and ins: "insert_line l d = Inr (u, d1)" and l: "ll_JobID l = job" "ll_Sequence l = cj_LogSequence j + 1"
  shows "job_law d (snd (change_jobs (\<lambda>j. cj_ID j = job) (\<lambda>j. j\<lparr>cj_LogSequence := ll_Sequence l\<rparr>) d1))" (is "job_law d ?d'")
proof -
  note row = insert_line_row[OF ins]
  have j: "j \<in> set (ci_jobs d)" "cj_ID j = job" using journal_job_found[OF jj] by blast+
  have "jobs_kept d ?d'" if ok: "ci_ok d"
    unfolding jobs_kept_def
  proof
    fix k assume k: "k \<in> set (ci_jobs d)"
    then have one: "k = j" if "cj_ID k = job" using that j ok by (auto simp: ci_ok_def keyed_def distinct_map inj_on_def)
    have "prefix (job_lines d (cj_ID k)) (job_lines ?d' (cj_ID k))" using row by (simp add: job_lines_def change_jobs_def)
    moreover have "kept_job k (if cj_ID k = job then k\<lparr>cj_LogSequence := ll_Sequence l\<rparr> else k)"
      using one live by (auto simp: kept_job_def)
    moreover have "(if cj_ID k = job then k\<lparr>cj_LogSequence := ll_Sequence l\<rparr> else k) \<in> set (ci_jobs ?d')"
      using k row by (simp add: change_jobs_def set_update_rows)
    ultimately show "\<exists>j' \<in> set (ci_jobs ?d'). kept_job k j' \<and> (cj_Retired j' \<or> prefix (job_lines d (cj_ID k)) (job_lines ?d' (cj_ID k)))"
      by blast
  qed
  then show ?thesis using ok_line[OF jj live ins l] by (simp add: job_law_def keeps_def)
qed

lemma job_law_drop_lines:
  assumes "\<exists>j \<in> set (ci_jobs d). cj_ID j = job \<and> cj_Retired j"
  shows "job_law d (d\<lparr>ci_lines := filter (\<lambda>l. ll_JobID l \<noteq> job) (ci_lines d)\<rparr>)" (is "job_law d ?d'")
proof -
  have "jobs_kept d ?d'" if ok: "ci_ok d"
    unfolding jobs_kept_def
  proof
    fix k assume k: "k \<in> set (ci_jobs d)"
    have "cj_Retired k" if "cj_ID k = job" using assms k that ok by (auto simp: ci_ok_def keyed_def distinct_map inj_on_def)
    moreover have "job_lines ?d' (cj_ID k) = job_lines d (cj_ID k)" if "cj_ID k \<noteq> job"
      using that by (auto simp: job_lines_def intro!: filter_cong)
    ultimately show "\<exists>j' \<in> set (ci_jobs ?d'). kept_job k j' \<and> (cj_Retired j' \<or> prefix (job_lines d (cj_ID k)) (job_lines ?d' (cj_ID k)))"
      using k by (intro bexI[of _ k]) (cases "cj_ID k = job"; simp)+
  qed
  then show ?thesis using ok_drop_lines[OF assms] by (simp add: job_law_def keeps_def)
qed

interpretation ci_jobs_kept: ci_frame job_law "\<lambda>_. True" "\<lambda>_. True" "\<lambda>_. True"
proof unfold_locales
  fix a b c assume "job_law a b" "job_law b c"
  then show "job_law a c" by (auto simp: job_law_def keeps_def intro: jobs_kept_trans)
next
  fix d d' :: cidb and j u assume i: "insert_job j d = Inr (u, d')" "new_job j"
  have d': "d' = d\<lparr>ci_jobs := ci_jobs d @ [j]\<rparr>" using insert_job_row[OF i(1)] by blast
  have "jobs_kept d d'"
    unfolding jobs_kept_def
  proof
    fix k assume k: "k \<in> set (ci_jobs d)"
    show "\<exists>j' \<in> set (ci_jobs d'). kept_job k j' \<and> (cj_Retired j' \<or> prefix (job_lines d (cj_ID k)) (job_lines d' (cj_ID k)))"
      by (rule bexI[of _ k]) (use k in \<open>simp_all add: d' job_lines_def\<close>)
  qed
  then show "job_law d d'" using ci_keys.law_job[OF i] by (simp add: job_law_def)
next
  fix Pj fj now d n d' assume up: "update_jobs Pj fj now d = Inr (n, d')" "static fj"
  show "job_law d d'"
    by (rule job_law_rows[OF ci_keys.law_jobs[OF up] update_jobs_table[OF up(1)]])
      (use update_jobs_rows[OF up(1)] in \<open>auto intro!: kept_static up(2)\<close>)
next
  fix fj :: "wf_job \<Rightarrow> wf_job" and Pj d assume f: "static fj" "\<And>j. cj_Status (fj j) = cj_Status j \<and> cj_RunnerID (fj j) = cj_RunnerID j"
  show "job_law d (snd (change_jobs Pj fj d))"
    by (rule job_law_rows[where P = Pj and f = fj, OF ci_keys.law_change[OF f]]) (auto simp: change_jobs_def f intro!: kept_static)
next
  fix Pj :: "wf_job \<Rightarrow> bool" and d assume P: "\<And>j. Pj j \<Longrightarrow> terminalJobStatus (cj_Status j)"
  show "job_law d (snd (change_jobs Pj (\<lambda>j. j\<lparr>cj_Retired := True, cj_SealPending := False\<rparr>) d))"
    by (rule job_law_rows[where P = Pj and f = "\<lambda>j. j\<lparr>cj_Retired := True, cj_SealPending := False\<rparr>", OF ci_keys.law_retire])
      (auto simp: change_jobs_def kept_job_def P)
next
  fix j rid now and d :: cidb and nn assume r: "j \<in> set (ci_jobs d)" "find_runner rid d = Some nn" "dispatchable now nn d j"
  show "job_law d (reserve rid nn j d)"
    by (rule job_law_rows[where P = "\<lambda>k. cj_ID k = cj_ID j" and
        f = "\<lambda>k. k\<lparr>cj_RunnerID := Some rid, cj_ConnectionID := ru_ConnectionID nn, cj_Journal := (ru_ConnectionID nn \<noteq> None)\<rparr>",
        OF ci_keys.law_reserve[OF r]]) (auto simp: reserve_def change_jobs_def kept_job_def)
next
  fix org runner connection job d j and l :: log_line and u :: unit and d1
  assume l: "journal_job org runner connection job d = Some j" "\<not> terminalJobStatus (cj_Status j)" "insert_line l d = Inr (u, d1)"
    "ll_JobID l = job" "ll_Sequence l = cj_LogSequence j + 1"
  show "job_law d (snd (change_jobs (\<lambda>j. cj_ID j = job) (\<lambda>j. j\<lparr>cj_LogSequence := ll_Sequence l\<rparr>) d1))" by (rule job_law_line[OF l])
next
  fix d d' :: cidb and r a assume i: "insert_ci_run r d = Inr (a, d')" "cr_Status r = ''queued''"
  show "job_law d d'"
    by (rule job_law_same) (use i ci_keys.law_run[OF i] in \<open>auto simp: keeps_def elim!: insert_ci_run_cases\<close>)
next
  fix Pr st d n d' assume up: "update_ci_runs Pr st d = Inr (n, d')"
  show "job_law d d'" by (rule job_law_same) (use update_ci_runs_rows[OF up] ok_update_runs[OF up] in auto)
next
  fix rid d n d' assume up: "start_run rid d = Inr (n, d')"
  show "job_law d d'"
    by (rule job_law_same) (use update_ci_runs_rows[OF up[unfolded start_run_def]] ok_update_runs[OF up[unfolded start_run_def]] in auto)
next
  fix d d' :: cidb assume "core d' = core d"
  then show "job_law d d'" by (intro job_law_same) (auto simp: core_def intro: ok_core[unfolded core_def])
next
  fix fn :: "runner \<Rightarrow> runner" and Pn d assume f: "\<And>nn. ru_ID (fn nn) = ru_ID nn \<and> ru_OrgID (fn nn) = ru_OrgID nn"
  show "job_law d (snd (change_runners Pn fn d))"
    by (rule job_law_same) (use ok_change_runners[OF f] in \<open>auto simp: change_runners_def\<close>)
next
  fix d d' :: cidb and nn u assume i: "insert_runner nn d = Inr (u, d')"
  show "job_law d d'"
    by (rule job_law_same) (use i ci_keys.law_register[OF i] in \<open>auto simp: keeps_def insert_runner_def split: if_split_asm\<close>)
next
  fix d d' :: cidb and c u assume i: "insert_credential c d = Inr (u, d')"
  then show "job_law d d'" by (intro job_law_same) (auto simp: insert_credential_def split: if_split_asm)
qed (auto intro!: job_law_same job_law_drop_lines simp: change_credentials_def put_credentials_def)

section \<open>What a finished job owes\<close>

text \<open>
  Every attempt at the credentials of a job is to be cleaned up, the empty attempt among them: it stands
  for the job itself.
\<close>

definition fenced :: "uuid \<Rightarrow> uuid \<Rightarrow> credential list \<Rightarrow> bool" where
  "fenced org job cs \<longleftrightarrow> (\<exists>c \<in> set cs. same_cleanup org job uuid_Nil c)
     \<and> (\<forall>c \<in> set cs. cc_OrgID c = org \<and> cc_JobID c = job \<longrightarrow> cc_Phase c = ''cleanup'')"

definition owes :: "uuid \<Rightarrow> uuid \<Rightarrow> cidb \<Rightarrow> bool" where
  "owes org job d \<longleftrightarrow> (\<forall>j \<in> set (ci_jobs d). cj_ID j = job \<and> terminalJobStatus (cj_Status j) \<and> cj_Secrets j \<noteq> [] \<and> of_org d org j
     \<longrightarrow> fenced org job (ci_credentials d))"

lemma owesI: "(\<And>j. j \<in> set (ci_jobs d) \<Longrightarrow> cj_ID j = job \<Longrightarrow> terminalJobStatus (cj_Status j) \<Longrightarrow> cj_Secrets j \<noteq> [] \<Longrightarrow> of_org d org j
    \<Longrightarrow> fenced org job (ci_credentials d)) \<Longrightarrow> owes org job d"
  by (simp add: owes_def)

lemma owesD: "owes org job d \<Longrightarrow> j \<in> set (ci_jobs d) \<Longrightarrow> cj_ID j = job \<Longrightarrow> terminalJobStatus (cj_Status j) \<Longrightarrow> cj_Secrets j \<noteq> []
    \<Longrightarrow> of_org d org j \<Longrightarrow> fenced org job (ci_credentials d)"
  unfolding owes_def by blast

definition owe_law :: "uuid \<Rightarrow> uuid \<Rightarrow> cidb \<Rightarrow> cidb \<Rightarrow> bool" where
  "owe_law org job d d' \<longleftrightarrow> keeps ci_ok d d' \<and> (ci_ok d \<longrightarrow> owes org job d \<longrightarrow> owes org job d')"

lemma fenced_rows:
  assumes row: "\<exists>c \<in> set cs. same_cleanup org job uuid_Nil c"
    and ids: "\<And>c. cc_OrgID (f c) = cc_OrgID c \<and> cc_JobID (f c) = cc_JobID c \<and> cc_AttemptID (f c) = cc_AttemptID c"
    and phase: "\<And>c. c \<in> set cs \<Longrightarrow> cc_OrgID c = org \<Longrightarrow> cc_JobID c = job \<Longrightarrow> cc_Phase (if P c then f c else c) = ''cleanup''"
  shows "fenced org job (update_rows P f cs)"
  unfolding fenced_def
proof (intro conjI ballI impI)
  from row obtain c where c: "c \<in> set cs" "same_cleanup org job uuid_Nil c" by blast
  show "\<exists>c \<in> set (update_rows P f cs). same_cleanup org job uuid_Nil c"
  proof (rule bexI)
    show "(if P c then f c else c) \<in> set (update_rows P f cs)" using c(1) by (simp add: set_update_rows)
  qed (use c(2) ids[of c] in \<open>simp add: same_cleanup_def\<close>)
next
  fix c' assume "c' \<in> set (update_rows P f cs)" "cc_OrgID c' = org \<and> cc_JobID c' = job"
  then obtain c where c: "c \<in> set cs" "c' = (if P c then f c else c)" unfolding set_update_rows by blast
  moreover have "cc_OrgID c = org" "cc_JobID c = job" using \<open>cc_OrgID c' = org \<and> cc_JobID c' = job\<close> c(2) ids[of c] by (cases "P c"; simp)+
  ultimately show "cc_Phase c' = ''cleanup''" using phase[of c] by simp
qed

lemma fence_job_keeps: "fenced org job cs \<Longrightarrow> fenced org job (fence_job now org2 k cs)"
  unfolding fence_job_def by (rule fenced_rows) (auto simp: fenced_def split: if_splits)

lemma fence_job_fences: "fenced org job (fence_job now org job cs)"
  unfolding fence_job_def
proof (rule fenced_rows)
  show "\<exists>c \<in> set (if \<exists>c \<in> set cs. same_cleanup org job uuid_Nil c then cs
        else cs @ [\<lparr>cc_OrgID = org, cc_JobID = job, cc_AttemptID = uuid_Nil, cc_Phase = ''cleanup'', cc_ReadyAt = now, cc_Leases = []\<rparr>]).
      same_cleanup org job uuid_Nil c"
  proof (cases "\<exists>c \<in> set cs. same_cleanup org job uuid_Nil c")
    case True
    then show ?thesis unfolding if_P[OF True] .
  next
    case False
    show ?thesis unfolding if_not_P[OF False] by (simp add: same_cleanup_def)
  qed
qed simp_all

lemma fence_row_keeps: "fenced org job cs \<Longrightarrow> fenced org job (fence_row now d j cs)"
  by (auto simp: fence_row_def fence_job_keeps split: option.splits)

lemma fence_rows_keep: "fenced org job cs \<Longrightarrow> fenced org job (fold (fence_row now d) js cs)"
  by (induction js arbitrary: cs) (simp_all add: fence_row_keeps)

lemma fence_rows_fence:
  assumes "j \<in> set js" and "cj_ID j = job" "cj_Secrets j \<noteq> []" "run_of d j = Some r" "cr_OrgID r = org"
  shows "fenced org job (fold (fence_row now d) js cs)"
  using assms(1)
proof (induction js arbitrary: cs)
  case (Cons k js)
  show ?case
  proof (cases "k = j")
    case True
    then have "fenced org job (fence_row now d k cs)" using assms(2-) fence_job_fences by (simp add: fence_row_def)
    then show ?thesis by (simp add: fence_rows_keep)
  qed (use Cons in simp)
qed simp

lemma run_of_org:
  assumes ok: "ci_ok d" and "of_org d org j"
  obtains r where "run_of d j = Some r" "cr_OrgID r = org"
proof -
  from assms(2) obtain r where r: "r \<in> set (ci_runs d)" "cr_ID r = cj_RunID j" "cr_OrgID r = org" by (auto simp: of_org_def)
  have "run_of d j = Some r"
    unfolding run_of_def by (rule find_key_unique[where k = cr_ID]) (use ok r in \<open>auto simp: ci_ok_def keyed_def\<close>)
  with r(3) show ?thesis using that by blast
qed

lemma owe_law_same:
  assumes "keeps ci_ok d d'" and "ci_jobs d' = ci_jobs d" "ci_runs d' = ci_runs d"
    and "fenced org job (ci_credentials d) \<Longrightarrow> fenced org job (ci_credentials d')"
  shows "owe_law org job d d'"
  using assms by (auto simp: owe_law_def owes_def of_org_def)

lemma owe_law_rows:
  assumes ok: "keeps ci_ok d d'" and rows: "ci_jobs d' = update_rows P f (ci_jobs d)" and same: "ci_runs d' = ci_runs d"
    "ci_credentials d' = ci_credentials d"
    and f: "\<And>j. P j \<Longrightarrow> cj_ID (f j) = cj_ID j \<and> cj_RunID (f j) = cj_RunID j \<and> cj_Secrets (f j) = cj_Secrets j \<and> cj_Status (f j) = cj_Status j"
  shows "owe_law org job d d'"
proof -
  have "owes org job d'" if "owes org job d"
    unfolding owes_def
  proof (intro ballI impI)
    fix j' assume j': "j' \<in> set (ci_jobs d')" "cj_ID j' = job \<and> terminalJobStatus (cj_Status j') \<and> cj_Secrets j' \<noteq> [] \<and> of_org d' org j'"
    from j'(1) obtain j where j: "j \<in> set (ci_jobs d)" "j' = (if P j then f j else j)" unfolding rows set_update_rows by blast
    have "cj_ID j = job \<and> terminalJobStatus (cj_Status j) \<and> cj_Secrets j \<noteq> [] \<and> of_org d org j"
      using j'(2) f[of j] j(2) same(1) by (cases "P j") (simp_all add: of_org_def)
    then show "fenced org job (ci_credentials d')" using owesD[OF that j(1)] same(2) by simp
  qed
  then show ?thesis using ok by (simp add: owe_law_def)
qed

lemma owe_law_update:
  assumes up: "update_jobs P f now d = Inr (n, d')" and f: "static f"
  shows "owe_law org job d d'"
proof -
  note rows = update_jobs_rows[OF up]
  have "owes org job d'" if ok: "ci_ok d" and old: "owes org job d"
    unfolding owes_def
  proof (intro ballI impI)
    fix j' assume j': "j' \<in> set (ci_jobs d')" "cj_ID j' = job \<and> terminalJobStatus (cj_Status j') \<and> cj_Secrets j' \<noteq> [] \<and> of_org d' org j'"
    from j'(1) obtain j where j: "j \<in> set (ci_jobs d)" "j' = (if P j then f j else j)"
      unfolding update_jobs_table[OF up] set_update_rows by blast
    have s: "cj_ID j = job" "cj_Secrets j \<noteq> []" "of_org d org j"
      using j'(2) j(2) staticD[OF f, of j] rows by (auto simp: of_org_def split: if_splits)
    show "fenced org job (ci_credentials d')"
    proof (cases "P j")
      case True
      obtain r where r: "run_of d j = Some r" "cr_OrgID r = org" using run_of_org[OF ok s(3)] .
      have "j \<in> set (filter (\<lambda>j. P j \<and> terminalJobStatus (cj_Status (f j))) (ci_jobs d))" using True j j'(2) by simp
      from fence_rows_fence[OF this s(1,2) r] show ?thesis using rows by simp
    next
      case False
      then have "terminalJobStatus (cj_Status j)" using j(2) j'(2) by simp
      then have "fenced org job (ci_credentials d)" using old s j(1) unfolding owes_def by blast
      then show ?thesis using rows by (simp add: fence_rows_keep)
    qed
  qed
  then show ?thesis using ci_keys.law_jobs[OF up f] by (simp add: owe_law_def)
qed

lemma owe_law_runs:
  assumes ok: "keeps ci_ok d d'" and "ci_jobs d' = ci_jobs d" "ci_credentials d' = ci_credentials d"
    and "\<And>j. ci_ok d \<Longrightarrow> j \<in> set (ci_jobs d) \<Longrightarrow> of_org d' org j \<Longrightarrow> of_org d org j"
  shows "owe_law org job d d'"
proof -
  have "owes org job d'" if "ci_ok d" "owes org job d"
    by (rule owesI) (use that assms(2-4) in \<open>auto intro: owesD\<close>)
  then show ?thesis using ok by (simp add: owe_law_def)
qed

lemma of_org_update:
  assumes "update_ci_runs P st d = Inr (n, d')"
  shows "of_org d' org j = of_org d org j"
proof -
  have key: "of_org d org j \<longleftrightarrow> (cj_RunID j, org) \<in> set (map (\<lambda>r. (cr_ID r, cr_OrgID r)) (ci_runs d))" for d
    by (simp add: of_org_def image_iff) metis
  show ?thesis unfolding key using update_ci_runs_rows[OF assms] by (simp add: map_update_rows del: set_map)
qed

lemma owe_law_update_runs: "update_ci_runs P st d = Inr (n, d') \<Longrightarrow> owe_law org job d d'"
  by (rule owe_law_runs) (auto simp: of_org_update keeps_def dest: update_ci_runs_rows ok_update_runs)

lemma owe_law_insert_run:
  assumes "insert_ci_run r d = Inr (a, d')"
  shows "owe_law org job d d'"
  using assms
proof (cases rule: insert_ci_run_cases)
  case added
  show ?thesis
  proof (rule owe_law_runs)
    show "keeps ci_ok d d'" using ok_insert_run[OF assms] by (rule keepsI)
    show "of_org d org j" if "ci_ok d" "j \<in> set (ci_jobs d)" "of_org d' org j" for j
    proof -
      have "cj_RunID j \<in> cr_ID ` set (ci_runs d)" using that(1,2) by (auto simp: ci_ok_def keyed_def)
      then have "cr_ID r \<noteq> cj_RunID j" using added(3) by metis
      then show ?thesis using that(3) added(4) by (auto simp: of_org_def)
    qed
  qed (use added(4) in simp_all)
qed (auto simp: owe_law_def keeps_def)

lemma owe_law_insert_job: "insert_job j d = Inr (u, d') \<Longrightarrow> new_job j \<Longrightarrow> owe_law org job d d'"
  using ci_keys.law_job[of j d u d'] insert_job_row[of j d u d'] by (auto simp: owe_law_def owes_def of_org_def new_job_def)

text \<open>A row that is prepared is of a pending job, so it is no row of a finished one.\<close>

lemma owe_law_prepare:
  assumes ins: "insert_credential c d = Inr (u, d')" and "cc_Phase c = ''preparing''"
    and held: "\<exists>j \<in> set (ci_jobs d). cj_ID j = cc_JobID c \<and> of_org d (cc_OrgID c) j \<and> cj_RunnerID j \<noteq> None \<and> cj_Status j = ''pending''"
  shows "owe_law org job d d'"
proof -
  have d': "d' = d\<lparr>ci_credentials := ci_credentials d @ [c]\<rparr>" using ins by (simp add: insert_credential_def split: if_split_asm)
  have "owes org job d'" if ok: "ci_ok d" and old: "owes org job d"
    unfolding owes_def
  proof (intro ballI impI)
    fix j assume j: "j \<in> set (ci_jobs d')" "cj_ID j = job \<and> terminalJobStatus (cj_Status j) \<and> cj_Secrets j \<noteq> [] \<and> of_org d' org j"
    then have "fenced org job (ci_credentials d)" using owesD[OF old, of j] unfolding d' by (simp add: of_org_def)
    moreover have "cc_JobID c \<noteq> job"
    proof
      assume "cc_JobID c = job"
      with held obtain k where "k \<in> set (ci_jobs d)" "cj_ID k = job" "cj_Status k = ''pending''" by blast
      then have "k = j" using j ok d' by (auto simp: ci_ok_def keyed_def distinct_map inj_on_def)
      with \<open>cj_Status k = ''pending''\<close> j(2) show False by simp
    qed
    ultimately show "fenced org job (ci_credentials d')" unfolding d' by (auto simp: fenced_def)
  qed
  then show ?thesis using d' by (simp add: owe_law_def keeps_def)
qed

lemma owe_law_dispatched:
  assumes P: "\<And>c. P c \<Longrightarrow> cc_Phase c = ''preparing'' \<and> (\<exists>j \<in> set (ci_jobs d). cj_ID j = cc_JobID c \<and> cj_Status j = ''running'')"
  shows "owe_law org job d (snd (change_credentials P (\<lambda>c. c\<lparr>cc_Phase := ''dispatched''\<rparr>) d))"
proof (rule owe_law_same)
  assume f: "fenced org job (ci_credentials d)"
  have "fenced org job (update_rows P (\<lambda>c. c\<lparr>cc_Phase := ''dispatched''\<rparr>) (ci_credentials d))"
  proof (rule fenced_rows)
    fix c assume "c \<in> set (ci_credentials d)" "cc_OrgID c = org" "cc_JobID c = job"
    then have "cc_Phase c = ''cleanup''" using f by (simp add: fenced_def)
    then show "cc_Phase (if P c then c\<lparr>cc_Phase := ''dispatched''\<rparr> else c) = ''cleanup''" using P[of c] by auto
  qed (use f in \<open>simp_all add: fenced_def\<close>)
  then show "fenced org job (ci_credentials (snd (change_credentials P (\<lambda>c. c\<lparr>cc_Phase := ''dispatched''\<rparr>) d)))"
    by (simp add: change_credentials_def)
qed (simp_all add: change_credentials_def keeps_def)

lemma owe_law_cleanup:
  assumes ids: "\<And>c. cc_OrgID (fc c) = cc_OrgID c \<and> cc_JobID (fc c) = cc_JobID c \<and> cc_AttemptID (fc c) = cc_AttemptID c"
    and phase: "\<And>c. Pc c \<Longrightarrow> cc_Phase (fc c) = ''cleanup''"
  shows "owe_law org job d (snd (change_credentials Pc fc d))"
proof (rule owe_law_same)
  assume f: "fenced org job (ci_credentials d)"
  have "fenced org job (update_rows Pc fc (ci_credentials d))"
    by (rule fenced_rows) (use f ids phase in \<open>simp_all add: fenced_def\<close>)
  then show "fenced org job (ci_credentials (snd (change_credentials Pc fc d)))" by (simp add: change_credentials_def)
qed (simp_all add: change_credentials_def keeps_def)

lemma owe_law_confirmed:
  assumes "(o', k, att) \<noteq> (org, job, uuid_Nil)"
  shows "owe_law org job d (put_credentials (filter (\<lambda>c. \<not> (same_cleanup o' k att c \<and> cc_Phase c = ''cleanup'')) (ci_credentials d)) d)"
  by (rule owe_law_same) (use assms in \<open>auto simp: put_credentials_def keeps_def fenced_def same_cleanup_def\<close>)

lemma owe_law_delete: "owe_law org job d (snd (delete_ci_runs Pr now d))"
proof -
  have "owes org job (snd (delete_ci_runs Pr now d))" if "owes org job d"
  proof (rule owesI)
    fix j assume j: "j \<in> set (ci_jobs (snd (delete_ci_runs Pr now d)))" "cj_ID j = job" "terminalJobStatus (cj_Status j)" "cj_Secrets j \<noteq> []"
      "of_org (snd (delete_ci_runs Pr now d)) org j"
    then have "j \<in> set (ci_jobs d)" "of_org d org j" by (auto simp: delete_ci_runs_def Let_def of_org_def)
    from fence_rows_keep[OF owesD[OF that this(1) j(2-4) this(2)]] show "fenced org job (ci_credentials (snd (delete_ci_runs Pr now d)))"
      by (simp add: delete_ci_runs_def Let_def)
  qed
  then show ?thesis using ci_keys.law_delete[of d Pr now] by (simp add: owe_law_def)
qed

interpretation ci_owed: ci_purge_frame "owe_law org job" "\<lambda>_. True" "\<lambda>_. True" "\<lambda>i. i \<noteq> (org, job, uuid_Nil)" for org job
proof unfold_locales
  fix d :: cidb show "owe_law org job d d" by (simp add: owe_law_def keeps_def)
next
  fix a b c assume "owe_law org job a b" "owe_law org job b c"
  then show "owe_law org job a c" by (simp add: owe_law_def keeps_def)
next
  fix d d' :: cidb assume c: "core d' = core d"
  then show "owe_law org job d d'" by (intro owe_law_same ci_keys.law_other) (simp_all add: core_def)
next
  fix fj :: "wf_job \<Rightarrow> wf_job" and Pj d assume f: "static fj" "\<And>j. cj_Status (fj j) = cj_Status j \<and> cj_RunnerID (fj j) = cj_RunnerID j"
  show "owe_law org job d (snd (change_jobs Pj fj d))"
    by (rule owe_law_rows[where P = Pj and f = fj, OF ci_keys.law_change[OF f]]) (use f staticD[OF f(1)] in \<open>simp_all add: change_jobs_def\<close>)
next
  fix Pj :: "wf_job \<Rightarrow> bool" and d assume P: "\<And>j. Pj j \<Longrightarrow> terminalJobStatus (cj_Status j)"
  show "owe_law org job d (snd (change_jobs Pj (\<lambda>j. j\<lparr>cj_Retired := True, cj_SealPending := False\<rparr>) d))"
    by (rule owe_law_rows[where P = Pj and f = "\<lambda>j. j\<lparr>cj_Retired := True, cj_SealPending := False\<rparr>", OF ci_keys.law_retire[OF P]])
      (simp_all add: change_jobs_def)
next
  fix j rid now and d :: cidb and nn assume r: "j \<in> set (ci_jobs d)" "find_runner rid d = Some nn" "dispatchable now nn d j"
  show "owe_law org job d (reserve rid nn j d)"
    by (rule owe_law_rows[where P = "\<lambda>k. cj_ID k = cj_ID j" and
        f = "\<lambda>k. k\<lparr>cj_RunnerID := Some rid, cj_ConnectionID := ru_ConnectionID nn, cj_Journal := (ru_ConnectionID nn \<noteq> None)\<rparr>",
        OF ci_keys.law_reserve[OF r]]) (simp_all add: reserve_def change_jobs_def)
next
  fix o' runner connection k d j and l :: log_line and u :: unit and d1
  assume l: "journal_job o' runner connection k d = Some j" "\<not> terminalJobStatus (cj_Status j)" "insert_line l d = Inr (u, d1)"
    "ll_JobID l = k" "ll_Sequence l = cj_LogSequence j + 1"
  show "owe_law org job d (snd (change_jobs (\<lambda>j. cj_ID j = k) (\<lambda>j. j\<lparr>cj_LogSequence := ll_Sequence l\<rparr>) d1))"
    by (rule owe_law_rows[where P = "\<lambda>j. cj_ID j = k" and f = "\<lambda>j. j\<lparr>cj_LogSequence := ll_Sequence l\<rparr>", OF ci_keys.law_line[OF l]])
      (use insert_line_row[OF l(3)] in \<open>simp_all add: change_jobs_def\<close>)
next
  fix d :: cidb and k assume r: "\<exists>j \<in> set (ci_jobs d). cj_ID j = k \<and> cj_Retired j"
  show "owe_law org job d (d\<lparr>ci_lines := filter (\<lambda>l. ll_JobID l \<noteq> k) (ci_lines d)\<rparr>)"
    by (rule owe_law_same[OF ci_keys.law_drop_lines[OF r]]) simp_all
next
  fix fn :: "runner \<Rightarrow> runner" and Pn d assume f: "\<And>nn. ru_ID (fn nn) = ru_ID nn \<and> ru_OrgID (fn nn) = ru_OrgID nn"
  show "owe_law org job d (snd (change_runners Pn fn d))"
    by (rule owe_law_same[OF ci_keys.law_runners[OF f]]) (simp_all add: change_runners_def)
next
  fix d d' :: cidb and nn u assume i: "insert_runner nn d = Inr (u, d')"
  show "owe_law org job d d'"
    by (rule owe_law_same[OF ci_keys.law_register[OF i]]) (use i in \<open>auto simp: insert_runner_def split: if_split_asm\<close>)
next
  fix d :: cidb and o' assume r: "\<forall>j \<in> set (ci_jobs d). \<not> of_org d o' j"
  show "owe_law org job d (d\<lparr>ci_runners := filter (\<lambda>n. ru_OrgID n \<noteq> o') (ci_runners d)\<rparr>)"
    by (rule owe_law_same[OF ci_keys.law_drop_runners[OF r]]) simp_all
next
  fix o' k att d assume "(o', k, att) \<noteq> (org, job, uuid_Nil)"
  then show "owe_law org job d (put_credentials (filter (\<lambda>c. \<not> (same_cleanup o' k att c \<and> cc_Phase c = ''cleanup'')) (ci_credentials d)) d)"
    by (rule owe_law_confirmed)
qed (auto simp: start_run_def intro: owe_law_insert_run owe_law_insert_job owe_law_update_runs owe_law_update owe_law_prepare owe_law_dispatched
  owe_law_cleanup owe_law_delete)

section \<open>Jobs that can never start\<close>

text \<open>
  The jobs \<open>S\<close> of a run wait, each for one of \<open>S\<close> or for a job of \<open>F\<close>, and those of \<open>F\<close> have failed or were
  cancelled. Nobody has taken up any of \<open>S\<close>, and the run is not settled.
\<close>

definition waits_in :: "uuid set \<Rightarrow> cidb \<Rightarrow> uuid \<Rightarrow> string \<Rightarrow> bool" where
  "waits_in A d rid need \<longleftrightarrow> (\<exists>k \<in> set (ci_jobs d). cj_RunID k = rid \<and> cj_Name k = need)
     \<and> (\<forall>k \<in> set (ci_jobs d). cj_RunID k = rid \<and> cj_Name k = need \<longrightarrow> cj_ID k \<in> A)"

definition stranded :: "uuid set \<Rightarrow> uuid set \<Rightarrow> uuid \<Rightarrow> cidb \<Rightarrow> bool" where
  "stranded S F rid d \<longleftrightarrow> S \<noteq> {} \<and> S \<union> F \<subseteq> cj_ID ` set (ci_jobs d)
     \<and> (\<forall>j \<in> set (ci_jobs d). cj_ID j \<in> S \<longrightarrow> cj_RunID j = rid \<and> cj_Status j = ''pending'' \<and> cj_RunnerID j = None
          \<and> (\<exists>need \<in> set (cj_Needs j). waits_in (S \<union> F) d rid need))
     \<and> (\<forall>c \<in> set (ci_credentials d). cc_JobID c \<in> S \<longrightarrow> cc_Phase c \<noteq> ''preparing'')
     \<and> (\<forall>j \<in> set (ci_jobs d). cj_ID j \<in> F \<longrightarrow> cj_Status j = ''failure'' \<or> cj_Status j = ''cancelled'')
     \<and> (\<forall>r \<in> set (ci_runs d). cr_ID r = rid \<longrightarrow> \<not> terminalJobStatus (cr_Status r))"

lemma strandedD:
  assumes "stranded S F rid d" and "j \<in> set (ci_jobs d)"
  shows "cj_ID j \<in> S \<Longrightarrow> cj_RunID j = rid \<and> cj_Status j = ''pending'' \<and> cj_RunnerID j = None \<and> \<not> needs_met d j \<and> \<not> engaged d j"
    and "cj_ID j \<in> F \<Longrightarrow> terminalJobStatus (cj_Status j)"
proof -
  assume S: "cj_ID j \<in> S"
  then obtain need where n: "need \<in> set (cj_Needs j)" "waits_in (S \<union> F) d rid need" and run: "cj_RunID j = rid"
    using assms unfolding stranded_def by blast
  have "cj_Status k \<noteq> ''success''" if "k \<in> set (ci_jobs d)" "cj_RunID k = rid" "cj_Name k = need" for k
  proof -
    have "cj_ID k \<in> S \<union> F" using n(2) that unfolding waits_in_def by blast
    then show ?thesis using assms(1) that(1) unfolding stranded_def by auto
  qed
  then have "\<not> needs_met d j" using n(1) run unfolding needs_met_def by blast
  then show "cj_RunID j = rid \<and> cj_Status j = ''pending'' \<and> cj_RunnerID j = None \<and> \<not> needs_met d j \<and> \<not> engaged d j"
    using assms S unfolding stranded_def engaged_def by auto
qed (use assms in \<open>auto simp: stranded_def\<close>)

lemma stranded_unfinished: "stranded S F rid d \<Longrightarrow> unfinished_run d rid"
  unfolding stranded_def unfinished_run_def by (auto simp: image_iff subset_iff)

lemma stranded_jobs:
  assumes s: "stranded S F rid d" and rows: "ci_jobs d' = update_rows P f (ci_jobs d)"
    and f: "\<And>j. cj_ID (f j) = cj_ID j \<and> cj_RunID (f j) = cj_RunID j \<and> cj_Name (f j) = cj_Name j \<and> cj_Needs (f j) = cj_Needs j"
    and other: "\<And>j. j \<in> set (ci_jobs d) \<Longrightarrow> P j \<Longrightarrow> cj_ID j \<in> S \<union> F \<Longrightarrow> cj_Status (f j) = cj_Status j \<and> cj_RunnerID (f j) = cj_RunnerID j"
    and cs: "\<And>c. c \<in> set (ci_credentials d') \<Longrightarrow> cc_Phase c = ''preparing'' \<Longrightarrow> c \<in> set (ci_credentials d)"
    and runs: "ci_runs d' = ci_runs d"
  shows "stranded S F rid d'"
proof -
  have row: "\<exists>j \<in> set (ci_jobs d). j' = (if P j then f j else j)" if "j' \<in> set (ci_jobs d')" for j'
    using that unfolding rows set_update_rows by blast
  have image: "\<exists>j' \<in> set (ci_jobs d'). cj_ID j' = cj_ID j \<and> cj_RunID j' = cj_RunID j \<and> cj_Name j' = cj_Name j" if "j \<in> set (ci_jobs d)" for j
  proof (rule bexI)
    show "(if P j then f j else j) \<in> set (ci_jobs d')" using that unfolding rows set_update_rows by blast
  qed (use f in simp)
  have ids: "\<exists>k \<in> set (ci_jobs d). cj_ID k = cj_ID j' \<and> cj_RunID k = cj_RunID j' \<and> cj_Name k = cj_Name j' \<and> cj_Needs k = cj_Needs j'
      \<and> (cj_ID j' \<in> S \<union> F \<longrightarrow> cj_Status j' = cj_Status k \<and> cj_RunnerID j' = cj_RunnerID k)" if "j' \<in> set (ci_jobs d')" for j'
  proof -
    obtain j where "j \<in> set (ci_jobs d)" "j' = (if P j then f j else j)" using row[OF \<open>j' \<in> set (ci_jobs d')\<close>] by blast
    then show ?thesis using f[of j] other[of j] by (intro bexI[of _ j]) auto
  qed
  have waits: "waits_in (S \<union> F) d' rid need" if "waits_in (S \<union> F) d rid need" for need
    using that image ids unfolding waits_in_def by metis
  show ?thesis
    unfolding stranded_def
  proof (intro conjI ballI impI)
    show "S \<noteq> {}" using s by (simp add: stranded_def)
    show "S \<union> F \<subseteq> cj_ID ` set (ci_jobs d')"
    proof
      fix i assume "i \<in> S \<union> F"
      with s have "i \<in> cj_ID ` set (ci_jobs d)" unfolding stranded_def by blast
      then obtain j where j: "j \<in> set (ci_jobs d)" "i = cj_ID j" by blast
      obtain j' where "j' \<in> set (ci_jobs d')" "cj_ID j' = cj_ID j" using image[OF j(1)] by blast
      then show "i \<in> cj_ID ` set (ci_jobs d')" using j(2) by (metis imageI)
    qed
    fix j' assume j': "j' \<in> set (ci_jobs d')"
    from ids[OF j'] obtain j where k: "j \<in> set (ci_jobs d)" "cj_ID j = cj_ID j'" "cj_RunID j = cj_RunID j'" "cj_Needs j = cj_Needs j'"
      "cj_ID j' \<in> S \<union> F \<longrightarrow> cj_Status j' = cj_Status j \<and> cj_RunnerID j' = cj_RunnerID j" by metis
    {
      assume "cj_ID j' \<in> S"
      then have old: "cj_RunID j = rid \<and> cj_Status j = ''pending'' \<and> cj_RunnerID j = None \<and> (\<exists>need \<in> set (cj_Needs j). waits_in (S \<union> F) d rid need)"
        using s k(1,2) unfolding stranded_def by metis
      then show "cj_RunID j' = rid" "cj_Status j' = ''pending''" "cj_RunnerID j' = None" "\<exists>need \<in> set (cj_Needs j'). waits_in (S \<union> F) d' rid need"
        using k \<open>cj_ID j' \<in> S\<close> waits by auto
    next
      assume "cj_ID j' \<in> F"
      then show "cj_Status j' = ''failure'' \<or> cj_Status j' = ''cancelled''" using s k unfolding stranded_def by auto
    }
  next
    fix c assume "c \<in> set (ci_credentials d')" "cc_JobID c \<in> S"
    then show "cc_Phase c \<noteq> ''preparing''" using s cs unfolding stranded_def by blast
  qed (use s runs in \<open>auto simp: stranded_def\<close>)
qed

lemma stranded_other:
  assumes "stranded S F rid d" and "ci_jobs d' = ci_jobs d"
    and "\<And>c. c \<in> set (ci_credentials d') \<Longrightarrow> cc_JobID c \<in> S \<Longrightarrow> cc_Phase c = ''preparing'' \<Longrightarrow> \<exists>b \<in> set (ci_credentials d). cc_JobID b \<in> S \<and> cc_Phase b = ''preparing''"
    and "\<And>r. r \<in> set (ci_runs d') \<Longrightarrow> cr_ID r = rid \<Longrightarrow> r \<in> set (ci_runs d) \<or> \<not> terminalJobStatus (cr_Status r)"
  shows "stranded S F rid d'"
proof -
  have waits: "waits_in A d' = waits_in A d" for A by (intro ext) (simp add: waits_in_def assms(2))
  have "cc_Phase c \<noteq> ''preparing''" if "c \<in> set (ci_credentials d')" "cc_JobID c \<in> S" for c
    using assms(1) assms(3)[OF that] unfolding stranded_def by blast
  then show ?thesis using assms(1,4) unfolding stranded_def waits assms(2) by blast
qed


lemma fence_rows_phase:
  "c \<in> set (fold (fence_row now d) js cs) \<Longrightarrow> cc_Phase c = ''preparing'' \<Longrightarrow> c \<in> set cs"
proof (induction js arbitrary: cs)
  case (Cons j js)
  then have "c \<in> set (fence_row now d j cs)" by simp
  with Cons.prems(2) show ?case
    by (auto simp: fence_row_def fence_job_def set_update_rows split: if_splits option.splits)
qed simp

lemma stranded_update:
  assumes up: "update_jobs P f now d = Inr (n, d')" and f: "static f" and s: "stranded S F rid d"
    and free: "\<And>j. j \<in> set (ci_jobs d) \<Longrightarrow> P j \<Longrightarrow> cj_ID j \<notin> S \<union> F"
  shows "stranded S F rid d'"
proof (rule stranded_jobs[OF s update_jobs_table[OF up]])
  note rows = update_jobs_rows[OF up]
  show "c \<in> set (ci_credentials d)" if "c \<in> set (ci_credentials d')" "cc_Phase c = ''preparing''" for c
    using that rows fence_rows_phase by (metis (no_types, lifting) cidb.select_convs(4) cidb.surjective cidb.update_convs(2,4))
  show "ci_runs d' = ci_runs d" using rows by simp
qed (use staticD[OF f] free in blast)+

lemma stranded_change:
  assumes "\<And>j. cj_ID (f j) = cj_ID j \<and> cj_RunID (f j) = cj_RunID j \<and> cj_Name (f j) = cj_Name j \<and> cj_Needs (f j) = cj_Needs j"
    and "\<And>j. j \<in> set (ci_jobs d) \<Longrightarrow> P j \<Longrightarrow> cj_ID j \<in> S \<union> F \<Longrightarrow> cj_Status (f j) = cj_Status j \<and> cj_RunnerID (f j) = cj_RunnerID j"
    and "stranded S F rid d"
  shows "stranded S F rid (snd (change_jobs P f d))"
  by (rule stranded_jobs[OF assms(3) _ assms(1,2)]) (simp_all add: change_jobs_def)

lemma stranded_runs:
  assumes s: "stranded S F rid d" and up: "update_ci_runs P st d = Inr (n, d')"
    and st: "\<And>r. P r \<Longrightarrow> cr_ID r = rid \<Longrightarrow> \<not> terminalJobStatus st"
  shows "stranded S F rid d'"
proof (rule stranded_other[OF s])
  note rows = update_ci_runs_rows[OF up]
  show "r' \<in> set (ci_runs d) \<or> \<not> terminalJobStatus (cr_Status r')" if r': "r' \<in> set (ci_runs d')" "cr_ID r' = rid" for r'
  proof -
    from r'(1) rows obtain r where r: "r \<in> set (ci_runs d)" "r' = (if P r then r\<lparr>cr_Status := st\<rparr> else r)" by (auto simp: set_update_rows)
    then have "\<not> terminalJobStatus (cr_Status r)" using s r'(2) unfolding stranded_def by (auto split: if_splits)
    then show ?thesis using r r'(2) st[of r] by (auto split: if_splits)
  qed
qed (use update_ci_runs_rows[OF up] in auto)

lemma stranded_insert_job:
  assumes s: "stranded S F rid d" and ins: "insert_job j d = Inr (u, d')" and new: "new_job j"
  shows "stranded S F rid d'"
proof -
  note row = insert_job_row[OF ins]
  have id: "cj_ID j \<notin> S \<union> F" using s row unfolding stranded_def by blast
  have waits: "waits_in (S \<union> F) d' rid need" if "waits_in (S \<union> F) d rid need" for need
    using that row unfolding waits_in_def by fastforce
  have "\<exists>need \<in> set (cj_Needs k). waits_in (S \<union> F) d' rid need" if "k \<in> set (ci_jobs d)" "cj_ID k \<in> S" for k
    using s that waits unfolding stranded_def by blast
  then show ?thesis using s row id unfolding stranded_def by auto
qed

interpretation ci_stranded: ci_frame "keeps (stranded S F rid)" "stranded S F rid" "\<lambda>i. i \<notin> S \<union> F" "\<lambda>_. True" for S F rid
proof unfold_locales
  fix d d' :: cidb assume c: "core d' = core d"
  then show "keeps (stranded S F rid) d d'" by (intro keepsI) (erule stranded_other, auto simp: core_def stranded_def)
next
  fix d d' :: cidb and r a assume i: "insert_ci_run r d = Inr (a, d')" "cr_Status r = ''queued''"
  then show "keeps (stranded S F rid) d d'"
    by (intro keepsI) (erule stranded_other, auto simp: stranded_def elim!: insert_ci_run_cases)
next
  fix Pr st d n d' assume up: "update_ci_runs Pr st d = Inr (n, d')"
    and P: "\<And>r. Pr r \<Longrightarrow> \<not> terminalJobStatus (cr_Status r) \<and> \<not> unfinished_run d (cr_ID r)"
  show "keeps (stranded S F rid) d d'"
  proof (rule keepsI)
    assume s: "stranded S F rid d"
    show "stranded S F rid d'" by (rule stranded_runs[OF s up]) (use P stranded_unfinished[OF s] in blast)
  qed
next
  fix i d n d' assume up: "start_run i d = Inr (n, d')"
  show "keeps (stranded S F rid) d d'"
    by (rule keepsI, erule stranded_runs[OF _ up[unfolded start_run_def]]) simp
next
  fix Pj fj now d n d' assume up: "update_jobs Pj fj now d = Inr (n, d')" "static fj"
    and free: "\<And>j. stranded S F rid d \<Longrightarrow> j \<in> set (ci_jobs d) \<Longrightarrow> Pj j \<Longrightarrow> cj_ID j \<notin> S \<union> F"
  show "keeps (stranded S F rid) d d'" by (rule keepsI, rule stranded_update[OF up]) (use free in auto)
next
  fix fj :: "wf_job \<Rightarrow> wf_job" and Pj d assume f: "static fj" "\<And>j. cj_Status (fj j) = cj_Status j \<and> cj_RunnerID (fj j) = cj_RunnerID j"
  show "keeps (stranded S F rid) d (snd (change_jobs Pj fj d))"
    by (rule keepsI, rule stranded_change) (use f(2) staticD[OF f(1)] in auto)
next
  fix Pj :: "wf_job \<Rightarrow> bool" and d
  show "keeps (stranded S F rid) d (snd (change_jobs Pj (\<lambda>j. j\<lparr>cj_Retired := True, cj_SealPending := False\<rparr>) d))"
    by (rule keepsI, rule stranded_change) auto
next
  fix j i now and d :: cidb and nn assume r: "j \<in> set (ci_jobs d)" "dispatchable now nn d j"
  show "keeps (stranded S F rid) d (reserve i nn j d)"
  proof (rule keepsI)
    assume s: "stranded S F rid d"
    have "cj_ID j \<notin> S \<union> F" using strandedD[OF s r(1)] r(2) by (auto simp: dispatchable_def)
    then show "stranded S F rid (reserve i nn j d)" unfolding reserve_def by (intro stranded_change s) auto
  qed
next
  fix j nn now and d :: cidb assume s: "stranded S F rid d" and j: "j \<in> set (ci_jobs d)" "dispatchable now nn d j"
  then show "cj_ID j \<notin> S \<union> F" using strandedD[OF s j(1)] by (auto simp: dispatchable_def)
next
  fix j and d :: cidb assume s: "stranded S F rid d" and j: "j \<in> set (ci_jobs d)" "agent_claimable d j"
  then show "cj_ID j \<notin> S \<union> F" using strandedD[OF s j(1)] by (auto simp: agent_claimable_def)
next
  fix j and d :: cidb assume s: "stranded S F rid d" and j: "j \<in> set (ci_jobs d)" "engaged d j"
  then show "cj_ID j \<notin> S \<union> F" using strandedD[OF s j(1)] by (auto simp: engaged_def)
next
  fix org runner connection k d j and l :: log_line and u :: unit and d1
  assume ins: "insert_line l d = Inr (u, d1)"
  show "keeps (stranded S F rid) d (snd (change_jobs (\<lambda>j. cj_ID j = k) (\<lambda>j. j\<lparr>cj_LogSequence := ll_Sequence l\<rparr>) d1))"
  proof (rule keepsI, rule stranded_change)
    assume "stranded S F rid d"
    then show "stranded S F rid d1" by (rule stranded_other) (use insert_line_row[OF ins] \<open>stranded S F rid d\<close> in \<open>auto simp: stranded_def\<close>)
  qed simp_all
next
  fix d d' :: cidb and c u assume ins: "insert_credential c d = Inr (u, d')" "cc_Phase c = ''preparing''"
    and held: "\<exists>j \<in> set (ci_jobs d). cj_ID j = cc_JobID c \<and> of_org d (cc_OrgID c) j \<and> cj_RunnerID j \<noteq> None \<and> cj_Status j = ''pending''"
  have d': "d' = d\<lparr>ci_credentials := ci_credentials d @ [c]\<rparr>" using ins by (simp add: insert_credential_def split: if_split_asm)
  show "keeps (stranded S F rid) d d'"
  proof (rule keepsI)
    assume s: "stranded S F rid d"
    have "cc_JobID c \<notin> S" using held strandedD(1)[OF s] by auto
    then show "stranded S F rid d'" using s unfolding d' by (intro stranded_other[OF s]) (auto simp: stranded_def)
  qed
next
  fix Pc :: "credential \<Rightarrow> bool" and d
  show "keeps (stranded S F rid) d (snd (change_credentials Pc (\<lambda>c. c\<lparr>cc_Phase := ''dispatched''\<rparr>) d))"
    by (rule keepsI, erule stranded_other) (auto simp: change_credentials_def set_update_rows stranded_def)
next
  fix Pc and fc :: "credential \<Rightarrow> credential" and d :: cidb assume "\<And>c. Pc c \<Longrightarrow> cc_Phase (fc c) = ''cleanup''"
  then show "keeps (stranded S F rid) d (snd (change_credentials Pc fc d))"
    by (intro keepsI) (erule stranded_other, auto simp: change_credentials_def set_update_rows stranded_def)
next
  fix Pn and fn :: "runner \<Rightarrow> runner" and d
  show "keeps (stranded S F rid) d (snd (change_runners Pn fn d))"
    by (rule keepsI, erule stranded_other) (auto simp: change_runners_def stranded_def)
next
  fix d d' :: cidb and nn u assume "insert_runner nn d = Inr (u, d')"
  then show "keeps (stranded S F rid) d d'"
    by (intro keepsI) (erule stranded_other, auto simp: insert_runner_def stranded_def split: if_split_asm)
next
  fix d :: cidb and k
  show "keeps (stranded S F rid) d (d\<lparr>ci_lines := filter (\<lambda>l. ll_JobID l \<noteq> k) (ci_lines d)\<rparr>)"
    by (rule keepsI, erule stranded_other) auto
next
  fix o' k att and d :: cidb
  show "keeps (stranded S F rid) d (put_credentials (filter (\<lambda>c. \<not> (same_cleanup o' k att c \<and> cc_Phase c = ''cleanup'')) (ci_credentials d)) d)"
    by (rule keepsI, erule stranded_other) (auto simp: put_credentials_def)
qed (auto intro: stranded_insert_job simp: keeps_def)

end
