(* ===== verification/NF_CIProps.thy ===== *)
theory NF_CIProps
  imports NF_CILaws
begin

text \<open>
  What continuous integration guarantees, over every history of \<open>NF_CIHistory\<close>: runs settle once and are
  announced once, the journal of a job has no gap and does not change, credentials are owed until the broker
  confirms, jobs stay within their organization; and what does not hold: jobs that can never start keep
  their run unsettled.
\<close>

lemma no_ci_ok: "ci_ok no_ci"
  by (simp add: ci_ok_def keyed_def no_ci_def)

lemma no_ci_announced: "announced no_ci"
  by (simp add: announced_def no_ci_def)

lemma history_ok: "ci_ok (fold (ci_exec e) cs no_ci)"
  using ci_keys.history_purged[of cs no_ci e] no_ci_ok by (simp add: keeps_def)

lemma history_announced: "\<forall>c \<in> set cs. \<not> ci_purge (fst c) \<Longrightarrow> announced (fold (ci_exec e) cs no_ci)"
  using ci_announcements.history[of cs no_ci e] no_ci_announced by (simp add: run_law_def keeps_def)

section \<open>Runs\<close>

text \<open>C18. A run that has settled keeps its outcome through any further history without deletion, and exactly one event announces it.\<close>

theorem run_settles_once:
  assumes "\<forall>c \<in> set (cs @ cs'). \<not> ci_purge (fst c)"
    and "r \<in> set (ci_runs (fold (ci_exec e) cs no_ci))" and "terminalJobStatus (cr_Status r)"
  shows "r \<in> set (ci_runs (fold (ci_exec e) (cs @ cs') no_ci))
    \<and> map ce_State (filter (\<lambda>x. ce_RunID x = cr_ID r) (ci_events (fold (ci_exec e) (cs @ cs') no_ci))) = [cr_Status r]"
proof -
  let ?d = "fold (ci_exec e) cs no_ci" and ?d' = "fold (ci_exec e) (cs @ cs') no_ci"
  have "run_law ?d ?d'" using ci_announcements.history[of cs' ?d e] assms(1) by simp
  then have "r \<in> set (ci_runs ?d')" using assms(2,3) unfolding run_law_def runs_kept_def by blast
  moreover have "announced ?d'" using assms(1) by (rule history_announced)
  ultimately show ?thesis using assms(3) unfolding announced_def by auto
qed

section \<open>Journals\<close>


section \<open>Credentials\<close>

text \<open>
  C20. After any history, deletions and failures included, a finished job that named secrets owes the
  revocation of all its attempts, until the broker has confirmed that the job itself is fenced.
\<close>

theorem finished_jobs_owe_their_credentials:
  assumes "j \<in> set (ci_jobs (fold (ci_exec e) cs no_ci))" and "terminalJobStatus (cj_Status j)" and "cj_Secrets j \<noteq> []"
    and "r \<in> set (ci_runs (fold (ci_exec e) cs no_ci))" and "cr_ID r = cj_RunID j"
    and "\<forall>c \<in> set cs. \<not> confirms (fst c) (cr_OrgID r, cj_ID j, uuid_Nil)"
  shows "(\<exists>c \<in> set (ci_credentials (fold (ci_exec e) cs no_ci)). same_cleanup (cr_OrgID r) (cj_ID j) uuid_Nil c)
    \<and> (\<forall>c \<in> set (ci_credentials (fold (ci_exec e) cs no_ci)).
         cc_OrgID c = cr_OrgID r \<and> cc_JobID c = cj_ID j \<longrightarrow> cc_Phase c = ''cleanup'')"
proof -
  let ?d = "fold (ci_exec e) cs no_ci"
  have "\<forall>c \<in> set cs. \<forall>i. confirms (fst c) i \<longrightarrow> i \<noteq> (cr_OrgID r, cj_ID j, uuid_Nil)" using assms(6) by blast
  from ci_owed.history_purged[OF this, of no_ci e] have "owes (cr_OrgID r) (cj_ID j) ?d"
    using no_ci_ok by (simp add: owe_law_def owes_def no_ci_def)
  moreover have "of_org ?d (cr_OrgID r) j" using assms(4,5) by (auto simp: of_org_def)
  ultimately show ?thesis using assms(1-3) owesD unfolding fenced_def by blast
qed

section \<open>Tenants\<close>

text \<open>C21. After any history, deletions included, a job that a runner holds belongs to the organization the runner is registered in.\<close>

theorem jobs_are_held_within_organization:
  assumes "j \<in> set (ci_jobs (fold (ci_exec e) cs no_ci))" and "cj_RunnerID j = Some rid"
  shows "\<exists>n \<in> set (ci_runners (fold (ci_exec e) cs no_ci)). \<exists>r \<in> set (ci_runs (fold (ci_exec e) cs no_ci)).
    ru_ID n = rid \<and> cr_ID r = cj_RunID j \<and> cr_OrgID r = ru_OrgID n"
  using ok_job[OF history_ok assms(1)] assms(2) unfolding well_held_def of_org_def by blast

section \<open>Jobs that never start\<close>

text \<open>
  C22. Jobs that wait for one another, or for a job that failed or was cancelled, are never started by any
  history without deletion, and their run is never settled.
\<close>

theorem stranded_jobs_never_start:
  assumes "stranded S F rid d" and "\<forall>c \<in> set cs. \<not> ci_purge (fst c)"
  shows "(\<forall>i \<in> S. \<exists>j \<in> set (ci_jobs (fold (ci_exec e) cs d)). cj_ID j = i \<and> cj_Status j = ''pending'' \<and> cj_RunnerID j = None)
    \<and> (\<forall>r \<in> set (ci_runs (fold (ci_exec e) cs d)). cr_ID r = rid \<longrightarrow> \<not> terminalJobStatus (cr_Status r))"
proof -
  have s: "stranded S F rid (fold (ci_exec e) cs d)"
    using ci_stranded.history[where S = S and F = F and rid = rid, OF assms(2), of d e] assms(1) by (simp add: keeps_def)
  have "\<exists>j \<in> set (ci_jobs (fold (ci_exec e) cs d)). cj_ID j = i \<and> cj_Status j = ''pending'' \<and> cj_RunnerID j = None" if "i \<in> S" for i
  proof -
    from s that obtain j where "j \<in> set (ci_jobs (fold (ci_exec e) cs d))" "cj_ID j = i" unfolding stranded_def by auto
    then show ?thesis using strandedD(1)[OF s, of j] that by blast
  qed
  moreover have "\<forall>r \<in> set (ci_runs (fold (ci_exec e) cs d)). cr_ID r = rid \<longrightarrow> \<not> terminalJobStatus (cr_Status r)"
    using s unfolding stranded_def by blast
  ultimately show ?thesis by blast
qed

section \<open>A workflow whose jobs need one another\<close>

definition created_job :: "uuid \<Rightarrow> string \<times> workflow_job \<Rightarrow> wf_job \<Rightarrow> bool" where
  "created_job rid nj k \<longleftrightarrow> cj_RunID k = rid \<and> cj_Name k = fst nj \<and> cj_Needs k = wj_Needs (snd nj) \<and> new_job k"

lemma CreateJob_Inr:
  assumes "CreateJob new_id (job_of rid nj) w = (Inr j, w')"
  shows "\<exists>k. created_job rid nj k \<and> cj_ID k = new_id \<and> fst w' = fst w\<lparr>ci_jobs := ci_jobs (fst w) @ [k]\<rparr>"
proof -
  obtain k where "insert_job k (fst w) = Inr ((), fst w')" "created_job rid nj k" "cj_ID k = new_id"
    using assms unfolding CreateJob_def Let_def
    by (auto simp: run_simps job_of_def created_job_def new_job_def split: prod.splits)
  then show ?thesis using insert_job_row by blast
qed

lemma create_jobs_Inr:
  "create_jobs ids rid w s = (Inr u, s') \<Longrightarrow> \<exists>js. list_all2 (created_job rid) w js \<and> cj_ID ` set js \<subseteq> range ids
     \<and> fst s' = fst s\<lparr>ci_jobs := ci_jobs (fst s) @ js\<rparr>"
proof (induction w arbitrary: s)
  case (Cons nj w)
  then obtain j s1 where c: "CreateJob (ids (length w)) (job_of rid nj) s = (Inr j, s1)" and r: "create_jobs ids rid w s1 = (Inr u, s')"
    by (auto simp: run_simps)
  from CreateJob_Inr[OF c] obtain k where k: "created_job rid nj k" "cj_ID k = ids (length w)" "fst s1 = fst s\<lparr>ci_jobs := ci_jobs (fst s) @ [k]\<rparr>" by blast
  from Cons.IH[OF r] obtain js where js: "list_all2 (created_job rid) w js" "cj_ID ` set js \<subseteq> range ids"
    "fst s' = fst s1\<lparr>ci_jobs := ci_jobs (fst s1) @ js\<rparr>" by blast
  have "list_all2 (created_job rid) (nj # w) (k # js) \<and> cj_ID ` set (k # js) \<subseteq> range ids \<and> fst s' = fst s\<lparr>ci_jobs := ci_jobs (fst s) @ k # js\<rparr>"
    using k js by simp
  then show ?case by blast
qed (auto simp: run_simps)

lemma ParseWorkflow_Some: "ParseWorkflow (Some w) = Some w' \<Longrightarrow> w' = w"
  by (simp add: ParseWorkflow_def split: if_splits)

lemma GetRunForCommit_Inr:
  assumes "GetRunForCommit ctx repo sha ref s = (Inr run, s')"
  shows "\<exists>r \<in> set (ci_runs (fst s)). run = read_run r"
proof -
  from assms obtain scope :: scope where f: "(case List.find (\<lambda>r. cr_OrgID r = s_OrgID scope \<and> cr_RepoID r = repo \<and> cr_CommitSHA r = sha
       \<and> cr_Ref r = ref) (ci_runs (fst s)) of None \<Rightarrow> fail (App CINoRows) | Some r \<Rightarrow> ret (read_run r)) (fst s, tl (snd s)) = (Inr run, s')"
    unfolding GetRunForCommit_def from_context_def by (simp only: bnd_Inr query_Inr lift_run) (elim exE conjE, hypsubst, blast)
  show ?thesis
  proof (cases "List.find (\<lambda>r. cr_OrgID r = s_OrgID scope \<and> cr_RepoID r = repo \<and> cr_CommitSHA r = sha \<and> cr_Ref r = ref) (ci_runs (fst s))")
    case (Some r)
    then show ?thesis using f find_Some_in[OF Some] by (auto simp: ret_def)
  qed (use f in \<open>simp add: fail_def\<close>)
qed

lemma ScheduleRun_created:
  assumes s: "ScheduleRun (Inr (Some w)) new_id ids now ctx org repo name ref sha who s = (Inr run, s')"
    and new: "cr_ID run \<notin> cr_ID ` set (ci_runs (fst s))"
  shows "\<exists>js ev. list_all2 (created_job (cr_ID run)) w js \<and> cj_ID ` set js \<subseteq> range ids \<and> cr_Status run = ''queued''
    \<and> fst s' = fst s\<lparr>ci_runs := ci_runs (fst s) @ [run], ci_jobs := ci_jobs (fst s) @ js, ci_events := ev\<rparr>"
proof -
  let ?r = "\<lparr>cr_ID = uuid_Nil, cr_OrgID = org, cr_RepoID = repo, cr_RepoName = name, cr_CommitSHA = sha, cr_Ref = ref,
    cr_Status = '''', cr_CreatedAt = 0, cr_TriggeredBy = who\<rparr>"
  from s obtain made s1 where c: "CreateRun new_id now ?r s = (Inr made, s1)"
    and k: "(case made of None \<Rightarrow> GetRunForCommit ctx repo sha ref | Some run \<Rightarrow> bnd (create_jobs ids (cr_ID run) w) (\<lambda>_. ret run)) s1 = (Inr run, s')"
  proof -
    have p: "ParseWorkflow (Some w) = Some w"
      using s ParseWorkflow_Some unfolding ScheduleRun_def by (cases "ParseWorkflow (Some w)") (auto simp: run_simps)
    have "w \<noteq> []" using s unfolding ScheduleRun_def by (auto simp: p run_simps)
    then show ?thesis using s that unfolding ScheduleRun_def sum.case p option.case by (simp only: if_False bnd_Inr) blast
  qed
  from c obtain q where i: "insert_ci_run q (fst s) = Inr (made, fst s1)" and q: "cr_Status q = ''queued''"
    unfolding CreateRun_def Let_def by (auto simp: run_simps)
  show ?thesis
  proof (cases made)
    case None
    with i have "fst s1 = fst s" by (auto elim: insert_ci_run_cases)
    moreover from k None obtain r where "r \<in> set (ci_runs (fst s1))" "run = read_run r"
      using GetRunForCommit_Inr[of ctx repo sha ref s1 run s'] by auto
    ultimately show ?thesis using new by (simp add: read_run_def)
  next
    case (Some r)
    with i have q': "r = q" "fst s1 = fst s\<lparr>ci_runs := ci_runs (fst s) @ [r], ci_events := ci_events (fst s) @ run_event '''' r\<rparr>"
      by (auto elim: insert_ci_run_cases)
    from k Some obtain u s2 where j: "create_jobs ids (cr_ID r) w s1 = (Inr u, s2)" "run = r" "s' = s2" by (auto simp: run_simps)
    from create_jobs_Inr[OF j(1)] obtain js where js: "list_all2 (created_job (cr_ID r)) w js" "cj_ID ` set js \<subseteq> range ids"
      "fst s2 = fst s1\<lparr>ci_jobs := ci_jobs (fst s1) @ js\<rparr>" by blast
    then have "fst s' = fst s\<lparr>ci_runs := ci_runs (fst s) @ [run], ci_jobs := ci_jobs (fst s) @ js, ci_events := ci_events (fst s) @ run_event '''' r\<rparr>"
      using j(2,3) q' by simp
    then show ?thesis using js(1,2) j(2) q q'(1) by blast
  qed
qed

lemma list_all2_right: "list_all2 P xs ys \<Longrightarrow> y \<in> set ys \<Longrightarrow> \<exists>x \<in> set xs. P x y"
  by (induction rule: list_all2_induct) auto

lemma list_all2_left: "list_all2 P xs ys \<Longrightarrow> x \<in> set xs \<Longrightarrow> \<exists>y \<in> set ys. P x y"
  by (induction rule: list_all2_induct) auto

lemma scheduled_cycle_is_stranded:
  assumes ok: "ci_ok (fst s)" "ci_ok (fst s')"
    and s: "ScheduleRun (Inr (Some w)) new_id ids now ctx org repo name ref sha who s = (Inr run, s')"
    and new: "cr_ID run \<notin> cr_ID ` set (ci_runs (fst s))" and fresh: "\<forall>c \<in> set (ci_credentials (fst s)). cc_JobID c \<notin> range ids"
    and cycle: "C \<noteq> {}" "C \<subseteq> fst ` set w" "\<forall>(n, j) \<in> set w. n \<in> C \<longrightarrow> set (wj_Needs j) \<inter> C \<noteq> {}"
  shows "stranded {cj_ID k | k. k \<in> set (ci_jobs (fst s')) \<and> cj_RunID k = cr_ID run \<and> cj_Name k \<in> C} {} (cr_ID run) (fst s')"
    (is "stranded ?S {} ?rid ?d'")
proof -
  obtain js ev where js: "list_all2 (created_job ?rid) w js" "cj_ID ` set js \<subseteq> range ids" "cr_Status run = ''queued''"
    and d': "?d' = fst s\<lparr>ci_runs := ci_runs (fst s) @ [run], ci_jobs := ci_jobs (fst s) @ js, ci_events := ev\<rparr>"
    using ScheduleRun_created[OF s new] by blast
  have mine: "k \<in> set js" if "k \<in> set (ci_jobs ?d')" "cj_RunID k = ?rid" for k
  proof (rule ccontr)
    assume "k \<notin> set js"
    then have "cj_RunID k \<in> cr_ID ` set (ci_runs (fst s))" using that(1) ok(1) d' by (auto simp: ci_ok_def keyed_def)
    then show False using that(2) new by simp
  qed
  have named: "\<exists>k \<in> set js. cj_RunID k = ?rid \<and> cj_Name k = n" if "n \<in> C" for n
    using that cycle(2) list_all2_left[OF js(1)] by (force simp: created_job_def)
  have waits: "waits_in (?S \<union> {}) ?d' ?rid n" if "n \<in> C" for n
    using that named[OF that] d' unfolding waits_in_def by auto
  have row: "cj_RunID k = ?rid \<and> cj_Status k = ''pending'' \<and> cj_RunnerID k = None \<and> (\<exists>need \<in> set (cj_Needs k). waits_in (?S \<union> {}) ?d' ?rid need)"
    if k: "k \<in> set (ci_jobs ?d')" "cj_ID k \<in> ?S" for k
  proof -
    from k(2) obtain k' where k': "k' \<in> set (ci_jobs ?d')" "cj_ID k' = cj_ID k" "cj_RunID k' = ?rid" "cj_Name k' \<in> C" by auto
    then have "k' = k" using k(1) ok(2) by (auto simp: ci_ok_def keyed_def distinct_map inj_on_def)
    with k' have m: "k \<in> set js" "cj_Name k \<in> C" using mine by auto
    then obtain nj where nj: "nj \<in> set w" "created_job ?rid nj k" using list_all2_right[OF js(1)] by blast
    then obtain need where "need \<in> set (wj_Needs (snd nj))" "need \<in> C" using m(2) cycle(3) by (fastforce simp: created_job_def)
    then show ?thesis using nj(2) waits by (auto simp: created_job_def new_job_def)
  qed
  have "?S \<noteq> {}" using cycle(1) named d' by force
  moreover have "cc_JobID c \<notin> ?S" if "c \<in> set (ci_credentials ?d')" for c
  proof
    assume "cc_JobID c \<in> ?S"
    then obtain k where "k \<in> set js" "cc_JobID c = cj_ID k" using mine by auto
    moreover have "cc_JobID c \<notin> range ids" using that fresh d' by simp
    ultimately show False using js(2) by auto
  qed
  moreover have "\<not> terminalJobStatus (cr_Status r)" if "r \<in> set (ci_runs ?d')" "cr_ID r = ?rid" for r
    using that new js(3) d' by (auto simp: image_iff)
  ultimately show ?thesis using row unfolding stranded_def by blast
qed

text \<open>
  C23. A workflow in which some jobs each need another of them is scheduled all the same; after any further
  history without deletion those jobs are pending and nobody's, and the run is never settled.
\<close>

theorem cyclic_workflow_is_never_settled:
  assumes "ScheduleRun (Inr (Some w)) new_id ids now ctx org repo name ref sha who (fold (ci_exec e) cs no_ci, fs) = (Inr run, s')"
    and "cr_ID run \<notin> cr_ID ` set (ci_runs (fold (ci_exec e) cs no_ci))"
    and "\<forall>c \<in> set (ci_credentials (fold (ci_exec e) cs no_ci)). cc_JobID c \<notin> range ids"
    and "C \<noteq> {}" and "C \<subseteq> fst ` set w" and "\<forall>(n, j) \<in> set w. n \<in> C \<longrightarrow> set (wj_Needs j) \<inter> C \<noteq> {}"
    and "\<forall>c \<in> set cs'. \<not> ci_purge (fst c)"
  shows "(\<forall>n \<in> C. \<exists>k \<in> set (ci_jobs (fst s')). cj_RunID k = cr_ID run \<and> cj_Name k = n
      \<and> (\<exists>j \<in> set (ci_jobs (fold (ci_exec e) cs' (fst s'))). cj_ID j = cj_ID k \<and> cj_Status j = ''pending'' \<and> cj_RunnerID j = None))
    \<and> (\<forall>r \<in> set (ci_runs (fold (ci_exec e) cs' (fst s'))). cr_ID r = cr_ID run \<longrightarrow> \<not> terminalJobStatus (cr_Status r))"
proof -
  have ok: "ci_ok (fold (ci_exec e) cs no_ci)" by (rule history_ok)
  have "keeps ci_ok (fold (ci_exec e) cs no_ci) (fst s')" using within_run[OF ci_keys.within_ScheduleRun assms(1)] by simp
  then have ok': "ci_ok (fst s')" using ok by (simp add: keeps_def)
  let ?S = "{cj_ID k | k. k \<in> set (ci_jobs (fst s')) \<and> cj_RunID k = cr_ID run \<and> cj_Name k \<in> C}"
  have "stranded ?S {} (cr_ID run) (fst s')"
    by (rule scheduled_cycle_is_stranded[OF _ ok' assms(1) _ _ assms(4-6)]) (use ok assms(2,3) in simp_all)
  then have end': "stranded ?S {} (cr_ID run) (fold (ci_exec e) cs' (fst s'))"
    using ci_stranded.history[where S = ?S and F = "{}" and rid = "cr_ID run", OF assms(7), of "fst s'" e] by (simp add: keeps_def)
  obtain js ev where js: "list_all2 (created_job (cr_ID run)) w js" "ci_jobs (fst s') = ci_jobs (fold (ci_exec e) cs no_ci) @ js"
    using ScheduleRun_created[OF assms(1)] assms(2) by auto
  have "\<exists>k \<in> set (ci_jobs (fst s')). cj_RunID k = cr_ID run \<and> cj_Name k = n
      \<and> (\<exists>j \<in> set (ci_jobs (fold (ci_exec e) cs' (fst s'))). cj_ID j = cj_ID k \<and> cj_Status j = ''pending'' \<and> cj_RunnerID j = None)"
    if n: "n \<in> C" for n
  proof -
    obtain k where k: "k \<in> set (ci_jobs (fst s'))" "cj_RunID k = cr_ID run" "cj_Name k = n"
      using n assms(5) list_all2_left[OF js(1)] js(2) by (force simp: created_job_def)
    then have S: "cj_ID k \<in> ?S" using n by blast
    then obtain j where "j \<in> set (ci_jobs (fold (ci_exec e) cs' (fst s')))" "cj_ID j = cj_ID k"
      using end' unfolding stranded_def by (auto simp: image_iff subset_iff)
    then show ?thesis using k S strandedD(1)[OF end', of j] by metis
  qed
  then show ?thesis using end' unfolding stranded_def by blast
qed

section \<open>A push that is delivered again\<close>

definition scheduled :: "push_event \<Rightarrow> cidb \<Rightarrow> bool" where
  "scheduled evt d \<longleftrightarrow> (\<exists>q \<in> set (ci_runs d). cr_RepoID q = pe_RepoID evt \<and> cr_CommitSHA q = pe_NewSHA evt \<and> cr_Ref q = pe_Ref evt)"

lemma GetRunForCommit_nobody: "GetRunForCommit None repo sha ref s = (Inl (NoAuth ErrNoScope), s)"
  by (simp add: GetRunForCommit_def from_context_def fail_def)

lemma CreateRun_again:
  assumes "scheduled evt d" and "cr_RepoID r = pe_RepoID evt" "cr_CommitSHA r = pe_NewSHA evt" "cr_Ref r = pe_Ref evt" "cr_Status r = ''''"
  shows "CreateRun new_id now r (d, fs) = (if faulty (d, fs) then Inl (Sql ConnFailure) else Inr None, (d, tl fs))"
proof -
  have "insert_ci_run (q\<lparr>cr_Status := ''queued'', cr_CreatedAt := now\<rparr>) d = Inr (None, d)"
    if "cr_RepoID q = pe_RepoID evt" "cr_CommitSHA q = pe_NewSHA evt" "cr_Ref q = pe_Ref evt" for q
    using assms(1) that by (auto simp: insert_ci_run_def scheduled_def ci_run_states_def)
  from this[of "if cr_ID r = uuid_Nil then r\<lparr>cr_ID := new_id\<rparr> else r"] show ?thesis
    using assms(2-5) by (simp add: CreateRun_def Let_def stmt_def split: if_splits)
qed

lemma create_jobs_Inl: "create_jobs ids rid w s = (Inl e, s') \<Longrightarrow> \<exists>x. e = Sql x"
proof (induction w arbitrary: s)
  case (Cons nj w)
  then consider "CreateJob (ids (length w)) (job_of rid nj) s = (Inl e, s')" | s1 where "create_jobs ids rid w s1 = (Inl e, s')"
    by (auto simp: run_simps)
  then show ?case
  proof cases
    case 1
    then show ?thesis by (auto simp: CreateJob_def Let_def run_simps)
  qed (rule Cons.IH)
qed (simp add: ret_def)

lemma push_schedules:
  assumes "handlePush (Inr (Some w)) new_id ids now None evt s = (Inr u, s')" and p: "ParseWorkflow (Some w) = Some w" and "w \<noteq> []"
  shows "scheduled evt (fst s')"
proof -
  let ?r = "\<lparr>cr_ID = uuid_Nil, cr_OrgID = pe_OrgID evt, cr_RepoID = pe_RepoID evt, cr_RepoName = pe_RepoName evt,
    cr_CommitSHA = pe_NewSHA evt, cr_Ref = pe_Ref evt, cr_Status = '''', cr_CreatedAt = 0,
    cr_TriggeredBy = (if pe_PusherKind evt = ''user'' then pe_PusherID evt else uuid_Nil)\<rparr>"
  obtain made s1 where made: "CreateRun new_id now ?r s = (made, s1)" by (cases "CreateRun new_id now ?r s")
  show ?thesis
  proof (cases made)
    case (Inl e)
    then have "\<exists>x. e = Sql x" using made by (auto simp: CreateRun_def Let_def run_simps)
    then show ?thesis using assms(1,3) made Inl p by (auto simp: handlePush_def ScheduleRun_def bnd_def attempt_def run_simps)
  next
    case (Inr q)
    show ?thesis
    proof (cases q)
      case None
      then show ?thesis using assms(1,3) made Inr p
        by (auto simp: handlePush_def ScheduleRun_def bnd_def attempt_def GetRunForCommit_nobody run_simps)
    next
      case (Some run)
      obtain res s2 where j: "create_jobs ids (cr_ID run) w s1 = (res, s2)" by (cases "create_jobs ids (cr_ID run) w s1")
      show ?thesis
      proof (cases res)
        case fault: (Inl e)
        then have "\<exists>x. e = Sql x" using create_jobs_Inl j by blast
        then show ?thesis using assms(1,3) made Inr Some j fault p
          by (auto simp: handlePush_def ScheduleRun_def bnd_def attempt_def run_simps)
      next
        case fine: (Inr v)
        from made Inr Some obtain q' where q': "insert_ci_run q' (fst s) = Inr (Some run, fst s1)"
          "cr_RepoID q' = pe_RepoID evt" "cr_CommitSHA q' = pe_NewSHA evt" "cr_Ref q' = pe_Ref evt"
          by (auto simp: CreateRun_def Let_def run_simps)
        from q'(1) have "run = q'" "run \<in> set (ci_runs (fst s1))" by (auto elim!: insert_ci_run_cases)
        moreover have "s' = s2" using assms(1,3) made Inr Some j fine p
          by (auto simp: handlePush_def ScheduleRun_def bnd_def attempt_def ret_def)
        moreover have "ci_runs (fst s2) = ci_runs (fst s1)" using create_jobs_Inr j fine by fastforce
        ultimately show ?thesis using q'(2-4) unfolding scheduled_def by metis
      qed
    qed
  qed
qed

text \<open>A run stays scheduled until it is deleted.\<close>

lemma scheduled_stays:
  assumes "scheduled evt d" and "\<forall>c \<in> set cs. \<not> ci_purge (fst c)"
  shows "scheduled evt (fold (ci_exec e) cs d)"
proof -
  have "run_law d (fold (ci_exec e) cs d)" using ci_announcements.history[of cs d e] assms(2) by simp
  moreover obtain q where q: "q \<in> set (ci_runs d)" "cr_RepoID q = pe_RepoID evt" "cr_CommitSHA q = pe_NewSHA evt" "cr_Ref q = pe_Ref evt"
    using assms(1) by (auto simp: scheduled_def)
  ultimately obtain q' where q': "q' \<in> set (ci_runs (fold (ci_exec e) cs d))" "q' = q\<lparr>cr_Status := cr_Status q'\<rparr>"
    unfolding run_law_def runs_kept_def by blast
  have "cr_RepoID q' = cr_RepoID q" "cr_CommitSHA q' = cr_CommitSHA q" "cr_Ref q' = cr_Ref q"
    using arg_cong[OF q'(2), of cr_RepoID] arg_cong[OF q'(2), of cr_CommitSHA] arg_cong[OF q'(2), of cr_Ref] by simp_all
  then show ?thesis using q(2-4) q'(1) unfolding scheduled_def by metis
qed

lemma redelivery:
  assumes "scheduled evt d"
  shows "fst (snd (handlePush blob new_id ids now None evt (d, fs))) = d"
    and "blob \<noteq> Inl NotFound \<Longrightarrow> (\<forall>doc. blob = Inr doc \<longrightarrow> (\<exists>w. ParseWorkflow doc = Some w \<and> w \<noteq> []))
      \<Longrightarrow> \<not> acknowledged (fst (handlePush blob new_id ids now None evt (d, fs)))"
  by (cases blob;
      auto simp: handlePush_def ScheduleRun_def bnd_def attempt_def CreateRun_again[OF assms] GetRunForCommit_nobody acknowledged_def fail_def ret_def
        split: option.splits if_splits)+


text \<open>
  The comments of \<open>scheduler.go\<close> say that such a delivery ignores the run it finds. It does not get so far: the
  handler reads the run as nobody, which fails, and so the message is never acknowledged.
\<close>

lemma redelivered_push_is_never_acknowledged:
  assumes "scheduled evt d" and "ParseWorkflow (Some w) = Some w" and "w \<noteq> []" and "blob = Inr (Some w) \<or> blob = Inl Unavailable"
  shows "\<not> acknowledged (fst (handlePush blob new_id ids now None evt (d, fs)))"
  using assms by (intro redelivery(2)) auto

section \<open>Agent jobs\<close>

text \<open>The agent jobs that are pending.\<close>

definition pending_agents :: "cidb \<Rightarrow> nat" where
  "pending_agents d = length (filter (\<lambda>j. cj_Status j = ''pending'' \<and> cj_AgentRole j \<noteq> '''') (ci_jobs d))"

definition fewer :: "cidb \<Rightarrow> cidb \<Rightarrow> bool" where
  "fewer d d' \<longleftrightarrow> pending_agents d' \<le> pending_agents d"

interpretation fewer: db_frame fewer
  by unfold_locales (auto simp: fewer_def)

lemma fewer_rows:
  assumes "ci_jobs d' = update_rows P f (ci_jobs d)"
    and "\<And>j. P j \<Longrightarrow> cj_Status (f j) = ''pending'' \<and> cj_AgentRole (f j) \<noteq> '''' \<Longrightarrow> cj_Status j = ''pending'' \<and> cj_AgentRole j \<noteq> ''''"
  shows "fewer d d'"
proof -
  have le: "length (filter Q (update_rows P f js)) \<le> length (filter Q js)" if "\<And>j. P j \<Longrightarrow> Q (f j) \<Longrightarrow> Q j" for Q and js :: "wf_job list"
    using that by (induction js) auto
  show ?thesis unfolding fewer_def pending_agents_def assms(1) by (rule le) (rule assms(2))
qed

lemma fewer_SetJobAgentRun: "within fewer (SetJobAgentRun jid run key)"
  unfolding SetJobAgentRun_def
proof (intro fewer.frame_rules)
  fix d
  show "fewer d (snd (change_jobs (\<lambda>j. cj_ID j = jid) (\<lambda>j. j\<lparr>cj_AgentRunID := Some run, cj_WorkItemKey := key\<rparr>) d))"
    by (rule fewer_rows[where P = "\<lambda>j. cj_ID j = jid" and f = "\<lambda>j. j\<lparr>cj_AgentRunID := Some run, cj_WorkItemKey := key\<rparr>"])
      (simp_all add: change_jobs_def)
qed

lemma fewer_rollUp: "within fewer (rollUpRunStatus jid)"
  unfolding rollUpRunStatus_def settle_def
  by (intro fewer.frame_rules) (auto simp: fewer_def pending_agents_def dest: update_ci_runs_rows)

lemma fewer_failure: "within fewer (SetJobStatus now jid ''failure'' detail)"
  unfolding SetJobStatus_def
proof (intro fewer.frame_rules fewer_rollUp)
  fix d n d'
  assume "update_jobs (\<lambda>j. cj_ID j = jid) (\<lambda>j. j\<lparr>cj_Status := ''failure'',
      cj_FinishedAt := (if terminalJobStatus ''failure'' then Some now else cj_FinishedAt j),
      cj_Detail := (if detail \<noteq> '''' then detail else cj_Detail j)\<rparr>) now d = Inr (n, d')"
  from update_jobs_table[OF this] show "fewer d d'" by (rule fewer_rows) simp
qed

lemma fewer_start_agent: "within fewer (start_agent ps job)"
  unfolding start_agent_def
  by (auto intro!: fewer.frame_rules fewer_SetJobAgentRun split: sum.splits option.splits)

lemma fewer_strict:
  assumes "j \<in> set js" "P j" "Q j" and "\<And>j. P j \<Longrightarrow> \<not> Q (f j)"
  shows "length (filter Q (update_rows P f js)) < length (filter Q js)"
  using assms(1)
proof (induction js)
  case (Cons k js)
  have le: "length (filter Q (update_rows P f js)) \<le> length (filter Q js)" using assms(4) by (induction js) auto
  show ?case
  proof (cases "k = j")
    case True
    then show ?thesis using assms(2-4) le by simp
  qed (use Cons assms(4) in auto)
qed simp

lemma claim_takes_one:
  assumes "ClaimAgentJob now w = (Inr job, w')"
  shows "pending_agents (fst w') < pending_agents (fst w)"
proof -
  let ?Q = "\<lambda>j. cj_Status j = ''pending'' \<and> cj_AgentRole j \<noteq> ''''"
  from assms obtain j r n d1 m where c: "ci_keys.agent_claim_of (fst w) = Some (j, r)"
    and up: "update_jobs (\<lambda>k. cj_ID k = cj_ID j) (\<lambda>k. k\<lparr>cj_Status := ''running'', cj_StartedAt := Some now\<rparr>) now (fst w) = Inr (n, d1)"
    and run: "start_run (cr_ID r) d1 = Inr (m, fst w')"
    unfolding ClaimAgentJob_def ci_keys.agent_claim_of_def[symmetric]
    by (auto simp: run_simps split: option.splits)
  from c have j: "j \<in> set (ci_jobs (fst w))" "?Q j"
    using ci_keys.agent_claim_of_Some by (auto simp: agent_claimable_def)
  have "ci_jobs (fst w') = ci_jobs d1" using run unfolding start_run_def by (auto dest: update_ci_runs_rows)
  then have "ci_jobs (fst w') = update_rows (\<lambda>k. cj_ID k = cj_ID j) (\<lambda>k. k\<lparr>cj_Status := ''running'', cj_StartedAt := Some now\<rparr>) (ci_jobs (fst w))"
    using update_jobs_table[OF up] by simp
  then show ?thesis unfolding pending_agents_def by (simp only:) (rule fewer_strict[where P = "\<lambda>k. cj_ID k = cj_ID j" and Q = ?Q, OF j(1) refl j(2)], simp)
qed

lemma start_all_ends: "pending_agents (fst w) < n \<Longrightarrow> fst (start_all n ps now w) \<noteq> Inr None"
proof (induction n arbitrary: w)
  case (Suc n)
  obtain c w1 where c: "ClaimAgentJob now w = (c, w1)" by (cases "ClaimAgentJob now w")
  show ?case
  proof (cases c)
    case (Inl e)
    then show ?thesis using c by (simp add: bnd_def attempt_def ret_def fail_def)
  next
    case (Inr job)
    obtain s w2 where s: "start_agent ps job w1 = (s, w2)" by (cases "start_agent ps job w1")
    have le: "fewer (fst w1) (fst w2)" using within_run[OF fewer_start_agent s] .
    have lt: "pending_agents (fst w1) < pending_agents (fst w)" using claim_takes_one c Inr by blast
    show ?thesis
    proof (cases s)
      case started: (Inr u)
      have "pending_agents (fst w2) < n" using Suc.prems le lt by (simp add: fewer_def)
      then show ?thesis using Suc.IH[of w2] c Inr s started by (simp add: bnd_def attempt_def ret_def)
    next
      case refused: (Inl e)
      obtain f w3 where f: "SetJobStatus now (aj_JobID job) ''failure'' ''agent job not started'' w2 = (f, w3)"
        by (cases "SetJobStatus now (aj_JobID job) ''failure'' ''agent job not started'' w2")
      have "fewer (fst w2) (fst w3)" using within_run[OF fewer_failure f] .
      then have "pending_agents (fst w3) < n" using Suc.prems le lt by (simp add: fewer_def)
      then show ?thesis using Suc.IH[of w3] c Inr s refused f by (cases f) (simp_all add: bnd_def attempt_def ret_def)
    qed
  qed
qed simp

text \<open>
  C25. A tick of the agent jobs ends: one unit of fuel for each pending agent job, and one more, is never
  used up, whatever the peers answer and whatever statements fail.
\<close>

theorem agent_tick_ends:
  "fst (Tick_agents (Suc (pending_agents (fst w))) ps now w) \<noteq> Inr None"
proof -
  obtain r w1 where s: "start_all (Suc (pending_agents (fst w))) ps now w = (r, w1)"
    by (cases "start_all (Suc (pending_agents (fst w))) ps now w")
  have "r \<noteq> Inr None" using start_all_ends[of w "Suc (pending_agents (fst w))" ps now] s by simp
  moreover obtain f w2 where "follow ps now w1 = (f, w2)" by (cases "follow ps now w1")
  ultimately show ?thesis using s
    by (cases r; cases f) (auto simp del: start_all.simps simp: Tick_agents_def bnd_def ret_def split: option.splits)
qed

section \<open>Witnesses\<close>

definition demo_env :: ci_env where
  "demo_env = \<lparr>en_unhex = Some, en_sha = (\<lambda>s. s), en_utext = (\<lambda>_. ''u''), en_hash = rq_Status,
     en_pump = \<lparr>pp_broker = None, pp_redactor = (\<lambda>vs. vs), pp_clone = (\<lambda>org name. Inr name), pp_accepts = (\<lambda>_. True)\<rparr>,
     en_peers = \<lparr>jp_agents = (\<lambda>_. Inl NotFound), jp_item = (\<lambda>_ _. Inl NotFound), jp_start = (\<lambda>_ _ _ _ _. Inl NotFound),
       jp_state = (\<lambda>_ _. Inl NotFound)\<rparr>\<rparr>"

definition demo_owner :: scope where
  "demo_owner = \<lparr>s_OrgID = 1, s_ActorID = 2, s_ActorKind = ''user'', s_ServiceName = '''', s_Role = ''owner'', s_PlatformWorker = '''',
     s_RepoLimited = False, s_Repos = Map.empty\<rparr>"

definition demo_job :: "string list \<Rightarrow> string list \<Rightarrow> workflow_job" where
  "demo_job needs secrets = \<lparr>wj_Run = ''make'', wj_Agent = '''', wj_Needs = needs, wj_Image = '''', wj_Secrets = secrets,
     wj_Environment = '''', wj_Artifacts = []\<rparr>"

definition demo_event :: push_event where
  "demo_event = \<lparr>pe_OrgID = 1, pe_RepoID = 3, pe_RepoName = ''r'', pe_Ref = ''m'', pe_NewSHA = ''s'', pe_PusherID = 2, pe_PusherKind = ''user''\<rparr>"

definition demo_frame :: "string \<Rightarrow> frame_payload \<Rightarrow> frame" where
  "demo_frame c p = \<lparr>fr_RunnerID = Some 50, fr_Token = ''t'', fr_ConnectionID = c, fr_Payload = p\<rparr>"

text \<open>A runner registers and connects, a push schedules one job, and the pump hands it to the runner.\<close>

definition demo_start :: "string list \<Rightarrow> (ci_cmd \<times> bool list) list" where
  "demo_start secrets =
     [(CmdRegister 50 0 ''t'' (Some demo_owner) None ''runner'' [], []),
      (CmdPush (Inr (Some [(''build'', demo_job [] secrets)])) 7 (\<lambda>_. 8) 0 None demo_event, []),
      (CmdFrame True 60 1 [] (demo_frame '''' Heartbeat) Unproved [], []),
      (CmdTick 2 (\<lambda>_ _. 9) [(50, \<lparr>rg_ConnectionID = 60, rg_Labels = [], rg_LastDispatch = 0\<rparr>)] [], [])]"

definition demo_lines :: "(ci_cmd \<times> bool list) list" where
  "demo_lines = [(CmdFrame True 0 3 [] (demo_frame ''u'' (LogChunk (Some 8) 1 ''ok'')) (Proved 50 ''t'' 60) [], [])]"

definition demo_report :: "(ci_cmd \<times> bool list) list" where
  "demo_report = [(CmdReport 1 4 [] \<lparr>rq_JobID = 8, rq_RunnerID = 50, rq_ConnectionID = 60, rq_Token = ''t'', rq_Status = ''success'',
     rq_Detail = '''', rq_LastLog = Some 1\<rparr>, [])]"

lemmas demo_defs = demo_start_def demo_lines_def demo_report_def

definition demo_run :: "string \<Rightarrow> ci_run" where
  "demo_run st = \<lparr>cr_ID = 7, cr_OrgID = 1, cr_RepoID = 3, cr_RepoName = ''r'', cr_CommitSHA = ''s'', cr_Ref = ''m'', cr_Status = st,
     cr_CreatedAt = 0, cr_TriggeredBy = 2\<rparr>"

lemma demo_settled: "ci_runs (fold (ci_exec demo_env) (demo_start [] @ demo_lines @ demo_report) no_ci) = [demo_run ''success'']"
  by code_simp

theorem run_settles_once_witness:
  "demo_run ''success'' \<in> set (ci_runs (fold (ci_exec demo_env) ((demo_start [] @ demo_lines @ demo_report) @ demo_report) no_ci))
    \<and> map ce_State (filter (\<lambda>x. ce_RunID x = 7) (ci_events (fold (ci_exec demo_env) ((demo_start [] @ demo_lines @ demo_report) @ demo_report) no_ci)))
      = [''success'']"
proof -
  have "\<forall>c \<in> set ((demo_start [] @ demo_lines @ demo_report) @ demo_report). \<not> ci_purge (fst c)" by (simp add: demo_defs)
  moreover have "demo_run ''success'' \<in> set (ci_runs (fold (ci_exec demo_env) (demo_start [] @ demo_lines @ demo_report) no_ci))"
    unfolding demo_settled by simp
  moreover have "terminalJobStatus (cr_Status (demo_run ''success''))" by (simp add: demo_run_def)
  ultimately show ?thesis
    using run_settles_once[of "demo_start [] @ demo_lines @ demo_report" demo_report "demo_run ''success''" demo_env]
    by (simp add: demo_run_def)
qed

definition demo_held :: wf_job where
  "demo_held = hd (ci_jobs (fold (ci_exec demo_env) (demo_start []) no_ci))"

lemma demo_held_in: "demo_held \<in> set (ci_jobs (fold (ci_exec demo_env) (demo_start []) no_ci))" "cj_RunnerID demo_held = Some 50"
    "cj_ID demo_held = 8" "cj_RunID demo_held = 7"
  unfolding demo_held_def by code_simp+


theorem jobs_are_held_within_organization_witness:
  "\<exists>n \<in> set (ci_runners (fold (ci_exec demo_env) (demo_start []) no_ci)). \<exists>r \<in> set (ci_runs (fold (ci_exec demo_env) (demo_start []) no_ci)).
    ru_ID n = 50 \<and> cr_ID r = 7 \<and> cr_OrgID r = ru_OrgID n"
  using jobs_are_held_within_organization[of demo_held demo_env "demo_start []" 50] demo_held_in by simp

definition demo_denied :: wf_job where
  "demo_denied = hd (ci_jobs (fold (ci_exec demo_env) (demo_start [''A'']) no_ci))"

lemma demo_denied_in: "demo_denied \<in> set (ci_jobs (fold (ci_exec demo_env) (demo_start [''A'']) no_ci))" "cj_ID demo_denied = 8"
    "cj_RunID demo_denied = 7" "terminalJobStatus (cj_Status demo_denied)" "cj_Secrets demo_denied \<noteq> []"
    "demo_run ''failure'' \<in> set (ci_runs (fold (ci_exec demo_env) (demo_start [''A'']) no_ci))"
  unfolding demo_denied_def by code_simp+

theorem finished_jobs_owe_their_credentials_witness:
  "(\<exists>c \<in> set (ci_credentials (fold (ci_exec demo_env) (demo_start [''A'']) no_ci)). same_cleanup 1 8 uuid_Nil c)
    \<and> filter (\<lambda>c. cc_OrgID c = 1 \<and> cc_JobID c = 8 \<and> cc_Phase c \<noteq> ''cleanup'')
        (ci_credentials (fold (ci_exec demo_env) (demo_start [''A'']) no_ci)) = []"
proof -
  have "cr_ID (demo_run ''failure'') = cj_RunID demo_denied" "cr_OrgID (demo_run ''failure'') = 1" using demo_denied_in(3) by (simp_all add: demo_run_def)
  moreover have "\<forall>c \<in> set (demo_start [''A'']). \<not> confirms (fst c) (1, 8, uuid_Nil)" by (simp add: demo_start_def)
  ultimately show ?thesis
    using finished_jobs_owe_their_credentials[OF demo_denied_in(1,4,5,6)] demo_denied_in(2) by (simp add: filter_empty_conv)
qed

definition demo_cycle :: workflow where
  "demo_cycle = [(''a'', demo_job [''b''] []), (''b'', demo_job [''a''] [])]"

definition demo_scheduled :: "(cierr fault + ci_run) \<times> cidb world" where
  "demo_scheduled = ScheduleRun (Inr (Some demo_cycle)) 7 (\<lambda>n. 8 + n) 0 None 1 3 ''r'' ''m'' ''s'' 2 (no_ci, [])"

lemma demo_scheduled_run: "fst demo_scheduled = Inr (demo_run ''queued'')"
  by code_simp

theorem cyclic_workflow_is_never_settled_witness:
  "(\<exists>k \<in> set (ci_jobs (fst (snd demo_scheduled))). cj_RunID k = 7 \<and> cj_Name k = ''a''
      \<and> (\<exists>j \<in> set (ci_jobs (fold (ci_exec demo_env) (demo_start []) (fst (snd demo_scheduled)))).
           cj_ID j = cj_ID k \<and> cj_Status j = ''pending'' \<and> cj_RunnerID j = None))
    \<and> filter (\<lambda>r. cr_ID r = 7 \<and> terminalJobStatus (cr_Status r))
        (ci_runs (fold (ci_exec demo_env) (demo_start []) (fst (snd demo_scheduled)))) = []"
proof -
  have s: "ScheduleRun (Inr (Some demo_cycle)) 7 (\<lambda>n. 8 + n) 0 None 1 3 ''r'' ''m'' ''s'' 2 (fold (ci_exec demo_env) [] no_ci, [])
      = (Inr (demo_run ''queued''), snd demo_scheduled)"
    using demo_scheduled_run by (simp add: demo_scheduled_def prod_eq_iff)
  have "\<forall>c \<in> set (demo_start []). \<not> ci_purge (fst c)" by (simp add: demo_start_def)
  from cyclic_workflow_is_never_settled[OF s, of "{''a'', ''b''}" "demo_start []", OF _ _ _ _ _ this] show ?thesis
    by (simp add: no_ci_def demo_cycle_def demo_job_def demo_run_def filter_empty_conv)
qed

text \<open>A job that needs one that has failed.\<close>

definition demo_failed :: cidb where
  "demo_failed = no_ci\<lparr>ci_runs := [demo_run ''running''],
     ci_jobs := [(job_of 7 (''a'', demo_job [] []))\<lparr>cj_ID := 8, cj_Status := ''failure''\<rparr>,
                 (job_of 7 (''b'', demo_job [''a''] []))\<lparr>cj_ID := 9, cj_Status := ''pending''\<rparr>]\<rparr>"

theorem stranded_jobs_never_start_witness:
  "(\<exists>j \<in> set (ci_jobs (fold (ci_exec demo_env) (demo_start []) demo_failed)). cj_ID j = 9 \<and> cj_Status j = ''pending'' \<and> cj_RunnerID j = None)
    \<and> filter (\<lambda>r. cr_ID r = 7 \<and> terminalJobStatus (cr_Status r)) (ci_runs (fold (ci_exec demo_env) (demo_start []) demo_failed)) = []"
proof -
  have "stranded {9} {8} 7 demo_failed"
    by (simp add: stranded_def waits_in_def demo_failed_def no_ci_def job_of_def demo_job_def demo_run_def)
  moreover have "\<forall>c \<in> set (demo_start []). \<not> ci_purge (fst c)" by (simp add: demo_start_def)
  ultimately show ?thesis using stranded_jobs_never_start[of "{9}" "{8}" 7 demo_failed "demo_start []" demo_env]
    by (simp add: filter_empty_conv)
qed

definition demo_push :: "bool list \<Rightarrow> cidb \<Rightarrow> (cierr fault + unit) \<times> cidb world" where
  "demo_push fs d = handlePush (Inr (Some demo_cycle)) 7 (\<lambda>n. 8 + n) 0 None demo_event (d, fs)"


end
