(* ===== verification/NF_SvcAuth.thy ===== *)
theory NF_SvcAuth
  imports NF_Authz
begin

text \<open>
  The tokens services present to one another (\<open>internal/svcauth\<close>): claims in JSON, in the URL-safe
  base64 without padding, signed with HMAC-SHA256, and the scope a request gets from the credential
  it carries. Arguments are the keyed hash \<open>mac\<close>, the text of a UUID, the JSON decoder and the
  identity service; the base64 code and the JSON of the claims are written out.
\<close>

section \<open>Base64\<close>

definition b64_alphabet :: string where
  "b64_alphabet = ''ABCDEFGHIJKLMNOPQRSTUVWXYZabcdefghijklmnopqrstuvwxyz0123456789-_''"

text \<open>Bytes to groups of six bits, and back; the spare bits of the last group are not looked at.\<close>

fun sextets :: "nat list \<Rightarrow> nat list" where
  "sextets (a # b # c # r) = (a div 4) # (a mod 4 * 16 + b div 16) # (b mod 16 * 4 + c div 64) # (c mod 64) # sextets r"
| "sextets [a, b] = [a div 4, a mod 4 * 16 + b div 16, b mod 16 * 4]"
| "sextets [a] = [a div 4, a mod 4 * 16]"
| "sextets [] = []"

fun octets :: "nat list \<Rightarrow> nat list option" where
  "octets (w # x # y # z # r) = map_option (\<lambda>bs. (w * 4 + x div 16) # (x mod 16 * 16 + y div 4) # (y mod 4 * 64 + z) # bs) (octets r)"
| "octets [w, x, y] = Some [w * 4 + x div 16, x mod 16 * 16 + y div 4]"
| "octets [w, x] = Some [w * 4 + x div 16]"
| "octets [_] = None"
| "octets [] = Some []"

definition sextet_of :: "char \<Rightarrow> nat option" where
  "sextet_of c = List.find (\<lambda>n. b64_alphabet ! n = c) [0..<64]"

definition EncodeToString :: "string \<Rightarrow> string" where
  "EncodeToString s = map ((!) b64_alphabet) (sextets (map of_char s))"

text \<open>Line ends are skipped; any other character outside the alphabet is corrupt input.\<close>

definition DecodeString :: "string \<Rightarrow> string option" where
  "DecodeString s =
     (let vs = map sextet_of (filter (\<lambda>c. c \<noteq> CHR 0x0A \<and> c \<noteq> CHR 0x0D) s) in
      if None \<in> set vs then None else map_option (map char_of) (octets (map the vs)))"

section \<open>Claims\<close>

record claims =
  cl_Service :: string
  cl_OrgID :: uuid
  cl_Actor :: uuid
  cl_ExpiresAt :: int
  cl_Platform :: bool

text \<open>\<open>encoding/json\<close> on an ASCII character of a string: escapes, and the three characters it keeps out of HTML.\<close>

definition json_char :: "char \<Rightarrow> string" where
  "json_char c =
     (if c = CHR 0x22 \<or> c = CHR 0x5C then [CHR 0x5C, c]
      else if c = CHR 0x08 then [CHR 0x5C, CHR ''b'']
      else if c = CHR 0x0C then [CHR 0x5C, CHR ''f'']
      else if c = CHR 0x0A then [CHR 0x5C, CHR ''n'']
      else if c = CHR 0x0D then [CHR 0x5C, CHR ''r'']
      else if c = CHR 0x09 then [CHR 0x5C, CHR ''t'']
      else if of_char c < (0x20 :: nat) \<or> c \<in> {CHR ''<'', CHR ''>'', CHR ''&''}
        then CHR 0x5C # ''u00'' @ [hex_digit (of_char c div 16), hex_digit (of_char c)]
      else [c])"

text \<open>The bytes of a rune, when UTF-8 has one at the head of the text.\<close>

definition continues :: "nat \<Rightarrow> bool" where
  "continues b \<longleftrightarrow> 0x80 \<le> b \<and> b \<le> 0xBF"

definition within_bytes :: "nat \<Rightarrow> nat \<Rightarrow> nat \<Rightarrow> bool" where
  "within_bytes lo hi b \<longleftrightarrow> lo \<le> b \<and> b \<le> hi"

definition rune_size :: "nat list \<Rightarrow> nat option" where
  "rune_size bs =
     (case bs of
        [a, b] \<Rightarrow> if within_bytes 0xC2 0xDF a \<and> continues b then Some 2 else None
      | a # b # c # r \<Rightarrow>
          if within_bytes 0xC2 0xDF a \<and> continues b then Some 2
          else if within_bytes 0xE0 0xEF a \<and> within_bytes (if a = 0xE0 then 0xA0 else 0x80) (if a = 0xED then 0x9F else 0xBF) b
                  \<and> continues c then Some 3
          else (case r of
                  [] \<Rightarrow> None
                | d # _ \<Rightarrow>
                    if within_bytes 0xF0 0xF4 a \<and> within_bytes (if a = 0xF0 then 0x90 else 0x80) (if a = 0xF4 then 0x8F else 0xBF) b
                       \<and> continues c \<and> continues d then Some 4 else None)
      | _ \<Rightarrow> None)"

definition u_escape :: "string \<Rightarrow> string" where
  "u_escape digits = CHR 0x5C # CHR ''u'' # digits"

text \<open>
  A byte that belongs to no rune becomes U+FFFD; the line and paragraph separators are escaped, and any other
  rune is copied.
\<close>

definition json_rune :: "string \<Rightarrow> string" where
  "json_rune r =
     (if r = [CHR 0xE2, CHR 0x80, CHR 0xA8] then u_escape ''2028''
      else if r = [CHR 0xE2, CHR 0x80, CHR 0xA9] then u_escape ''2029''
      else r)"

fun json_chars :: "string \<Rightarrow> string" where
  "json_chars [] = []"
| "json_chars (c # s) =
     (if of_char c < (0x80 :: nat) then json_char c @ json_chars s
      else (case rune_size (map of_char (c # s)) of
              None \<Rightarrow> u_escape ''fffd'' @ json_chars s
            | Some n \<Rightarrow> json_rune (take n (c # s)) @ json_chars (drop (n - 1) s)))"

definition json_text :: "string \<Rightarrow> string" where
  "json_text s = CHR 0x22 # json_chars s @ [CHR 0x22]"

lemma json_text_samples:
  "json_text (''a'' @ [CHR 0xE2, CHR 0x80, CHR 0xA8, CHR 0xC3, CHR 0xA9, CHR 0xC3])
    = CHR 0x22 # ''a'' @ u_escape ''2028'' @ [CHR 0xC3, CHR 0xA9] @ u_escape ''fffd'' @ [CHR 0x22]"
  "json_text [CHR 0xED, CHR 0xA0, CHR 0x80] = CHR 0x22 # concat (replicate 3 (u_escape ''fffd'')) @ [CHR 0x22]"
  by code_simp+

text \<open>
  \<open>omitempty\<close> leaves out a false \<open>plat\<close>; it does not leave out a nil \<open>act\<close>, which is an array of
  sixteen bytes and so never empty.
\<close>

definition marshal :: "(uuid \<Rightarrow> string) \<Rightarrow> claims \<Rightarrow> string" where
  "marshal utext c =
     ''{'' @ json_text ''svc'' @ '':'' @ json_text (cl_Service c)
     @ '','' @ json_text ''org'' @ '':'' @ json_text (utext (cl_OrgID c))
     @ '','' @ json_text ''act'' @ '':'' @ json_text (utext (cl_Actor c))
     @ '','' @ json_text ''exp'' @ '':'' @ Itoa (cl_ExpiresAt c)
     @ (if cl_Platform c then '','' @ json_text ''plat'' @ '':true'' else []) @ ''}''"

section \<open>Tokens\<close>

datatype svcerr =
    NoHMACSecret
  | NotServiceToken
  | MalformedToken
  | BadSignature
  | MalformedPayload
  | MalformedClaims
  | TokenExpired
  | NoOrganization
  | NotPlatformToken
  | NamesNoService
  | NamesNoAgent

definition Prefix :: string where
  "Prefix = ''nfsvc.''"

definition DefaultTTL :: time where
  "DefaultTTL = 300 * second"

definition AgentRunService :: string where
  "AgentRunService = ''agent-run''"

text \<open>What the tokens are made with.\<close>

record token_codec =
  tk_mac :: "string \<Rightarrow> string \<Rightarrow> string"
  tk_uuid :: "uuid \<Rightarrow> string"
  tk_unmarshal :: "string \<Rightarrow> claims option"

definition sign :: "token_codec \<Rightarrow> string \<Rightarrow> string \<Rightarrow> string" where
  "sign k secret payload = EncodeToString (tk_mac k secret payload)"

definition expiry :: "time \<Rightarrow> time \<Rightarrow> int" where
  "expiry now ttl = (now + (if ttl = 0 then DefaultTTL else ttl)) div second"

definition mint :: "token_codec \<Rightarrow> time \<Rightarrow> string \<Rightarrow> claims \<Rightarrow> time \<Rightarrow> svcerr + string" where
  "mint k now secret c ttl =
     (if secret = '''' then Inl NoHMACSecret
      else let payload = EncodeToString (marshal (tk_uuid k) (c\<lparr>cl_ExpiresAt := expiry now ttl\<rparr>)) in
           Inr (Prefix @ payload @ ''.'' @ sign k secret payload))"

definition MintPlatform :: "token_codec \<Rightarrow> time \<Rightarrow> string \<Rightarrow> string \<Rightarrow> time \<Rightarrow> svcerr + string" where
  "MintPlatform k now secret service ttl =
     mint k now secret \<lparr>cl_Service = service, cl_OrgID = uuid_Nil, cl_Actor = uuid_Nil, cl_ExpiresAt = 0, cl_Platform = True\<rparr> ttl"

definition Mint :: "token_codec \<Rightarrow> time \<Rightarrow> string \<Rightarrow> string \<Rightarrow> uuid \<Rightarrow> time \<Rightarrow> svcerr + string" where
  "Mint k now secret service org ttl =
     mint k now secret \<lparr>cl_Service = service, cl_OrgID = org, cl_Actor = uuid_Nil, cl_ExpiresAt = 0, cl_Platform = False\<rparr> ttl"

definition MintAgentRun :: "token_codec \<Rightarrow> time \<Rightarrow> string \<Rightarrow> uuid \<Rightarrow> uuid \<Rightarrow> time \<Rightarrow> svcerr + string" where
  "MintAgentRun k now secret org agent ttl =
     (if agent = uuid_Nil then Inl NamesNoAgent
      else mint k now secret
             \<lparr>cl_Service = AgentRunService, cl_OrgID = org, cl_Actor = agent, cl_ExpiresAt = 0, cl_Platform = False\<rparr> ttl)"

text \<open>\<open>strings.Cut\<close> at the first occurrence of a character.\<close>

definition cut_at :: "char \<Rightarrow> string \<Rightarrow> (string \<times> string) option" where
  "cut_at c s = (if c \<in> set s then Some (takeWhile (\<lambda>x. x \<noteq> c) s, tl (dropWhile (\<lambda>x. x \<noteq> c) s)) else None)"

definition verifyClaims :: "token_codec \<Rightarrow> time \<Rightarrow> string \<Rightarrow> string \<Rightarrow> svcerr + claims" where
  "verifyClaims k now secret token =
     (if secret = '''' then Inl NoHMACSecret
      else if \<not> prefix Prefix token then Inl NotServiceToken
      else case cut_at (CHR ''.'') (TrimPrefix token Prefix) of
        None \<Rightarrow> Inl MalformedToken
      | Some (payload, sig) \<Rightarrow>
          if sig \<noteq> sign k secret payload then Inl BadSignature
          else case DecodeString payload of
            None \<Rightarrow> Inl MalformedPayload
          | Some raw \<Rightarrow>
              (case tk_unmarshal k raw of
                 None \<Rightarrow> Inl MalformedClaims
               | Some c \<Rightarrow> if cl_ExpiresAt c < now div second then Inl TokenExpired else Inr c))"

definition VerifyPlatform :: "token_codec \<Rightarrow> time \<Rightarrow> string \<Rightarrow> string \<Rightarrow> svcerr + string" where
  "VerifyPlatform k now secret token =
     (case verifyClaims k now secret token of
        Inl e \<Rightarrow> Inl e
      | Inr c \<Rightarrow>
          if \<not> cl_Platform c \<or> cl_OrgID c \<noteq> uuid_Nil then Inl NotPlatformToken
          else if cl_Service c = '''' then Inl NamesNoService
          else Inr (cl_Service c))"

definition Verify :: "token_codec \<Rightarrow> time \<Rightarrow> string \<Rightarrow> string \<Rightarrow> svcerr + (string \<times> uuid)" where
  "Verify k now secret token =
     (case verifyClaims k now secret token of
        Inl e \<Rightarrow> Inl e
      | Inr c \<Rightarrow> if cl_OrgID c = uuid_Nil \<or> cl_Platform c then Inl NoOrganization else Inr (cl_Service c, cl_OrgID c))"

definition actorKindFor :: "string \<Rightarrow> string" where
  "actorKindFor service = (if service = AgentRunService then ''agent'' else ''service'')"

definition zero_scope :: scope where
  "zero_scope = \<lparr>s_OrgID = uuid_Nil, s_ActorID = uuid_Nil, s_ActorKind = '''', s_ServiceName = '''', s_Role = '''',
     s_PlatformWorker = '''', s_RepoLimited = False, s_Repos = Map.empty\<rparr>"

definition ScopeFromToken :: "token_codec \<Rightarrow> time \<Rightarrow> string \<Rightarrow> string \<Rightarrow> svcerr + scope" where
  "ScopeFromToken k now secret token =
     (case verifyClaims k now secret token of
        Inl e \<Rightarrow> Inl e
      | Inr c \<Rightarrow>
          if cl_OrgID c = uuid_Nil \<or> cl_Platform c then Inl NoOrganization
          else let scope = zero_scope\<lparr>s_OrgID := cl_OrgID c, s_ActorKind := actorKindFor (cl_Service c)\<rparr> in
               Inr (if s_ActorKind scope = ''agent'' then scope\<lparr>s_ActorID := cl_Actor c\<rparr>
                    else scope\<lparr>s_ServiceName := cl_Service c\<rparr>))"

section \<open>The scope of a request\<close>

record request_md =
  md_authorization :: "string list"
  md_org :: "string list"

record subject =
  sj_UserID :: string
  sj_OrgID :: string
  sj_ActorKind :: string
  sj_Role :: string

text \<open>The identity service answers a subject or an error; \<open>idp_uuid\<close> is \<open>uuid.Parse\<close>.\<close>

record identity_client =
  idp_token :: "string \<Rightarrow> string \<Rightarrow> unit + subject"
  idp_session :: "string \<Rightarrow> string \<Rightarrow> unit + subject"
  idp_uuid :: "string \<Rightarrow> uuid option"

definition md_first :: "string list \<Rightarrow> string" where
  "md_first vs = (case vs of [] \<Rightarrow> '''' | v # _ \<Rightarrow> v)"

definition resolveUser :: "identity_client \<Rightarrow> string \<Rightarrow> string \<Rightarrow> unit + subject" where
  "resolveUser idp token org =
     (case idp_token idp token org of Inr s \<Rightarrow> Inr s | Inl _ \<Rightarrow> idp_session idp token org)"

definition scope_of_subject :: "identity_client \<Rightarrow> subject \<Rightarrow> scope" where
  "scope_of_subject idp s =
     zero_scope\<lparr>s_ActorKind := sj_ActorKind s, s_Role := sj_Role s,
       s_ActorID := (case idp_uuid idp (sj_UserID s) of None \<Rightarrow> uuid_Nil | Some i \<Rightarrow> i),
       s_OrgID := (case idp_uuid idp (sj_OrgID s) of None \<Rightarrow> uuid_Nil | Some i \<Rightarrow> i)\<rparr>"

text \<open>The context of a request has no scope of its own before the interceptor runs.\<close>

definition withCallerScope :: "token_codec \<Rightarrow> identity_client option \<Rightarrow> time \<Rightarrow> string \<Rightarrow> request_md option \<Rightarrow> ctx" where
  "withCallerScope k identity now secret md =
     (case md of
        None \<Rightarrow> None
      | Some m \<Rightarrow>
          (let token = TrimPrefix (md_first (md_authorization m)) ''Bearer '' in
           if token = '''' then None
           else if prefix Prefix token then
             (case ScopeFromToken k now secret token of
                Inr scope \<Rightarrow> Some scope
              | Inl _ \<Rightarrow>
                  (case VerifyPlatform k now secret token of
                     Inr worker \<Rightarrow> Some (zero_scope\<lparr>s_ActorKind := ''service'', s_PlatformWorker := worker\<rparr>)
                   | Inl _ \<Rightarrow> None))
           else (case identity of
                   None \<Rightarrow> None
                 | Some idp \<Rightarrow>
                     (case resolveUser idp token (md_first (md_org m)) of
                        Inl _ \<Rightarrow> None
                      | Inr s \<Rightarrow> Some (scope_of_subject idp s)))))"

text \<open>What a handler's own calls carry of the request: the two headers of the caller, and nothing else.\<close>

definition forwardIncomingCredential :: "request_md option \<Rightarrow> (string \<times> string) list" where
  "forwardIncomingCredential md =
     (case md of
        None \<Rightarrow> []
      | Some m \<Rightarrow>
          (if md_first (md_authorization m) \<noteq> '''' then [(''authorization'', md_first (md_authorization m))] else [])
          @ (if md_first (md_org m) \<noteq> '''' then [(''x-novaforge-org'', md_first (md_org m))] else []))"

section \<open>The code read back\<close>

lemma sextets_octets: "\<forall>b \<in> set bs. b < 256 \<Longrightarrow> octets (sextets bs) = Some bs"
proof (induction bs rule: sextets.induct)
  case (1 a b c r)
  have ab: "a div 4 * 4 + (a mod 4 * 16 + b div 16) div 16 = a" "b div 16 < 16" using 1(2) by auto
  have "(a mod 4 * 16 + b div 16) mod 16 = b div 16" "c div 64 < 4" using 1(2) by auto
  then have bc: "(a mod 4 * 16 + b div 16) mod 16 * 16 + (b mod 16 * 4 + c div 64) div 4 = b" using 1(2) by auto
  have "(b mod 16 * 4 + c div 64) mod 4 = c div 64" using 1(2) by auto
  then have "(b mod 16 * 4 + c div 64) mod 4 * 64 + c mod 64 = c" by simp
  then show ?case using 1 ab bc by simp
qed auto

lemma sextets_bound: "\<forall>b \<in> set bs. b < 256 \<Longrightarrow> n \<in> set (sextets bs) \<Longrightarrow> n < 64"
  by (induction bs rule: sextets.induct) auto

lemma alphabet_distinct: "distinct b64_alphabet" and alphabet_length: "length b64_alphabet = 64"
  by code_simp+

lemma alphabet_clean: "n < 64 \<Longrightarrow> b64_alphabet ! n \<notin> {CHR ''.'', CHR 0x0A, CHR 0x0D}"
proof -
  assume "n < 64"
  then have "b64_alphabet ! n \<in> set b64_alphabet" by (simp add: alphabet_length)
  moreover have "list_all (\<lambda>c. c \<notin> {CHR ''.'', CHR 0x0A, CHR 0x0D}) b64_alphabet" by code_simp
  ultimately show ?thesis by (auto simp: list_all_iff)
qed

lemma sextet_of_alphabet: "n < 64 \<Longrightarrow> sextet_of (b64_alphabet ! n) = Some n"
  unfolding sextet_of_def find_Some_iff using alphabet_distinct
  by (auto simp: nth_eq_iff_index_eq alphabet_length intro!: exI[of _ n])

lemma bytes_bound: "\<forall>b \<in> set (map of_char s). b < (256 :: nat)"
  by simp

lemma encoded_clean: "c \<in> set (EncodeToString s) \<Longrightarrow> c \<notin> {CHR ''.'', CHR 0x0A, CHR 0x0D}"
  using alphabet_clean sextets_bound[OF bytes_bound] unfolding EncodeToString_def by fastforce

lemma Decode_Encode: "DecodeString (EncodeToString s) = Some s"
proof -
  let ?ns = "sextets (map of_char s)"
  have keep: "filter (\<lambda>c. c \<noteq> CHR 0x0A \<and> c \<noteq> CHR 0x0D) (EncodeToString s) = EncodeToString s"
    using encoded_clean[of _ s] by (auto simp: filter_id_conv)
  have vs: "map sextet_of (EncodeToString s) = map Some ?ns"
    using sextets_bound[OF bytes_bound, of _ s] by (auto simp: EncodeToString_def sextet_of_alphabet)
  have "map_option (map char_of) (octets ?ns) = Some (map (char_of \<circ> (of_char :: char \<Rightarrow> nat)) s)"
    using sextets_octets[OF bytes_bound, of s] by simp
  then show ?thesis unfolding DecodeString_def keep vs by (simp add: Let_def comp_def)
qed

lemma cut_at_encoded: "cut_at (CHR ''.'') (EncodeToString s @ CHR ''.'' # r) = Some (EncodeToString s, r)"
proof -
  have "\<forall>x \<in> set (EncodeToString s). x \<noteq> CHR ''.''" using encoded_clean[of _ s] by auto
  then show ?thesis by (simp add: cut_at_def takeWhile_append dropWhile_append)
qed

lemma cut_at_Some: "cut_at c s = Some (p, q) \<Longrightarrow> s = p @ c # q"
proof -
  assume "cut_at c s = Some (p, q)"
  then have c: "c \<in> set s" and p: "p = takeWhile (\<lambda>x. x \<noteq> c) s" and q: "q = tl (dropWhile (\<lambda>x. x \<noteq> c) s)"
    by (auto simp: cut_at_def split: if_splits)
  from c have ne: "dropWhile (\<lambda>x. x \<noteq> c) s \<noteq> []" by (simp add: dropWhile_eq_Nil_conv)
  with hd_dropWhile[OF ne] have "dropWhile (\<lambda>x. x \<noteq> c) s = c # q" using q by (cases "dropWhile (\<lambda>x. x \<noteq> c) s") auto
  then show ?thesis using p takeWhile_dropWhile_id[of "\<lambda>x. x \<noteq> c" s] by simp
qed

lemma Prefix_prefix: "prefix Prefix token \<Longrightarrow> token = Prefix @ TrimPrefix token Prefix"
  by (auto simp: TrimPrefix_def prefix_def)

section \<open>What a token proves\<close>

text \<open>What verification accepts was signed, with the secret, over claims that have not expired.\<close>

lemma verified_is_signed:
  assumes "verifyClaims k now secret token = Inr c"
  shows "secret \<noteq> ''''" "now div second \<le> cl_ExpiresAt c"
    "\<exists>payload raw. token = Prefix @ payload @ ''.'' @ sign k secret payload \<and> DecodeString payload = Some raw
      \<and> tk_unmarshal k raw = Some c"
proof -
  from assms obtain payload sig raw where *: "secret \<noteq> ''''" "prefix Prefix token"
      "cut_at (CHR ''.'') (TrimPrefix token Prefix) = Some (payload, sig)" "sig = sign k secret payload"
      "DecodeString payload = Some raw" "tk_unmarshal k raw = Some c" "now div second \<le> cl_ExpiresAt c"
    unfolding verifyClaims_def by (auto split: if_splits option.splits)
  then show "secret \<noteq> ''''" "now div second \<le> cl_ExpiresAt c" by auto
  show "\<exists>payload raw. token = Prefix @ payload @ ''.'' @ sign k secret payload \<and> DecodeString payload = Some raw
      \<and> tk_unmarshal k raw = Some c"
    using Prefix_prefix[OF *(2)] cut_at_Some[OF *(3)] *(4-6) by auto
qed

text \<open>
  C27. A token is accepted with exactly the claims it was minted with, up to the second it expires in and no
  longer, by whoever holds the secret. \<open>encoding/json\<close> reads back what it wrote of these claims.
\<close>

theorem token_round_trip:
  assumes "mint k now secret c ttl = Inr token"
    and "tk_unmarshal k (marshal (tk_uuid k) (c\<lparr>cl_ExpiresAt := expiry now ttl\<rparr>)) = Some (c\<lparr>cl_ExpiresAt := expiry now ttl\<rparr>)"
  shows "verifyClaims k later secret token
    = (if expiry now ttl < later div second then Inl TokenExpired else Inr (c\<lparr>cl_ExpiresAt := expiry now ttl\<rparr>))"
proof -
  let ?p = "EncodeToString (marshal (tk_uuid k) (c\<lparr>cl_ExpiresAt := expiry now ttl\<rparr>))"
  have "secret \<noteq> ''''" "token = Prefix @ ?p @ CHR ''.'' # sign k secret ?p"
    using assms(1) by (auto simp: mint_def Let_def split: if_splits)
  then show ?thesis using assms(2) by (simp add: verifyClaims_def cut_at_encoded Decode_Encode)
qed

text \<open>
  C28. A request that presents a service token gets a scope only from a token that was signed with the
  secret and has not expired: the scope of the organization the claims name, as the agent they name
  or as the service, or of a platform worker, which no check of an organization admits. It never is an
  administrator, and never has the limits of a collaborator.
\<close>

theorem service_scope_is_signed:
  assumes "withCallerScope k identity now secret (Some m) = Some scope"
    and "prefix Prefix (TrimPrefix (md_first (md_authorization m)) ''Bearer '')"
  shows "(\<exists>payload raw c. TrimPrefix (md_first (md_authorization m)) ''Bearer '' = Prefix @ payload @ ''.'' @ sign k secret payload
      \<and> DecodeString payload = Some raw \<and> tk_unmarshal k raw = Some c \<and> now div second \<le> cl_ExpiresAt c
      \<and> (if cl_Platform c then cl_OrgID c = uuid_Nil \<and> IsPlatformWorker scope \<and> s_PlatformWorker scope = cl_Service c
           \<and> (\<forall>org. org \<noteq> uuid_Nil \<longrightarrow> RequireOrg (Some scope) org = Inl (CrossOrg uuid_Nil org))
         else cl_OrgID c \<noteq> uuid_Nil \<and> s_OrgID scope = cl_OrgID c \<and> \<not> IsPlatformWorker scope
           \<and> RequireOrg (Some scope) (cl_OrgID c) = Inr ()
           \<and> (if cl_Service c = AgentRunService then s_ActorKind scope = ''agent'' \<and> s_ActorID scope = cl_Actor c
              else s_ActorKind scope = ''service'' \<and> s_ServiceName scope = cl_Service c \<and> s_ActorID scope = uuid_Nil)))
      \<and> \<not> IsOrgAdmin scope \<and> \<not> s_RepoLimited scope"
proof -
  let ?t = "TrimPrefix (md_first (md_authorization m)) ''Bearer ''"
  have "?t \<noteq> ''''" using assms(2) by (auto simp: Prefix_def)
  then have s: "(case ScopeFromToken k now secret ?t of Inr scope \<Rightarrow> Some scope
      | Inl _ \<Rightarrow> (case VerifyPlatform k now secret ?t of
          Inr worker \<Rightarrow> Some (zero_scope\<lparr>s_ActorKind := ''service'', s_PlatformWorker := worker\<rparr>) | Inl _ \<Rightarrow> None)) = Some scope"
    using assms by (simp add: withCallerScope_def Let_def)
  then obtain c where c: "verifyClaims k now secret ?t = Inr c"
    by (cases "verifyClaims k now secret ?t") (auto simp: ScopeFromToken_def VerifyPlatform_def)
  obtain payload raw where r: "?t = Prefix @ payload @ ''.'' @ sign k secret payload" "DecodeString payload = Some raw" "tk_unmarshal k raw = Some c"
    using verified_is_signed(3)[OF c] by blast
  note defs = ScopeFromToken_def VerifyPlatform_def Let_def actorKindFor_def zero_scope_def AgentRunService_def
    IsPlatformWorker_def IsOrgAdmin_def RequireOrg_def FromContext_def
  have "if cl_Platform c then cl_OrgID c = uuid_Nil \<and> IsPlatformWorker scope \<and> s_PlatformWorker scope = cl_Service c
           \<and> (\<forall>org. org \<noteq> uuid_Nil \<longrightarrow> RequireOrg (Some scope) org = Inl (CrossOrg uuid_Nil org))
         else cl_OrgID c \<noteq> uuid_Nil \<and> s_OrgID scope = cl_OrgID c \<and> \<not> IsPlatformWorker scope
           \<and> RequireOrg (Some scope) (cl_OrgID c) = Inr ()
           \<and> (if cl_Service c = AgentRunService then s_ActorKind scope = ''agent'' \<and> s_ActorID scope = cl_Actor c
              else s_ActorKind scope = ''service'' \<and> s_ServiceName scope = cl_Service c \<and> s_ActorID scope = uuid_Nil)"
    using s c by (auto simp: defs split: if_splits)
  moreover have "\<not> IsOrgAdmin scope \<and> \<not> s_RepoLimited scope"
    using s c by (auto simp: defs split: if_splits)
  ultimately show ?thesis using r verified_is_signed(2)[OF c] by blast
qed

section \<open>Witnesses\<close>

definition svc_demo_claims :: claims where
  "svc_demo_claims = \<lparr>cl_Service = AgentRunService, cl_OrgID = 7, cl_Actor = 5, cl_ExpiresAt = 300, cl_Platform = False\<rparr>"

definition svc_demo_codec :: token_codec where
  "svc_demo_codec = \<lparr>tk_mac = (\<lambda>secret m. secret @ take 4 m), tk_uuid = dec,
     tk_unmarshal = (\<lambda>raw. if raw = marshal dec svc_demo_claims then Some svc_demo_claims else None)\<rparr>"

definition svc_demo_token :: string where
  "svc_demo_token = (case MintAgentRun svc_demo_codec 0 ''key'' 7 5 0 of Inr t \<Rightarrow> t | Inl _ \<Rightarrow> [])"

lemma svc_demo_minted: "mint svc_demo_codec 0 ''key'' svc_demo_claims 0 = Inr svc_demo_token"
  unfolding svc_demo_token_def by code_simp

lemma svc_demo_expiry: "svc_demo_claims\<lparr>cl_ExpiresAt := expiry 0 0\<rparr> = svc_demo_claims"
  by (simp add: svc_demo_claims_def expiry_def DefaultTTL_def)

theorem token_round_trip_witness:
  "verifyClaims svc_demo_codec (300 * second) ''key'' svc_demo_token = Inr svc_demo_claims
    \<and> verifyClaims svc_demo_codec (301 * second) ''key'' svc_demo_token = Inl TokenExpired"
proof -
  have "verifyClaims svc_demo_codec later ''key'' svc_demo_token
      = (if expiry 0 0 < later div second then Inl TokenExpired else Inr svc_demo_claims)" for later
    using token_round_trip[OF svc_demo_minted, of later] unfolding svc_demo_expiry by (simp add: svc_demo_codec_def)
  then show ?thesis by (simp add: expiry_def DefaultTTL_def)
qed

definition svc_demo_request :: request_md where
  "svc_demo_request = \<lparr>md_authorization = [''Bearer '' @ svc_demo_token], md_org = []\<rparr>"

definition svc_demo_agent_scope :: scope where
  "svc_demo_agent_scope = zero_scope\<lparr>s_OrgID := 7, s_ActorKind := ''agent'', s_ActorID := 5\<rparr>"

lemma svc_demo_signed: "prefix Prefix svc_demo_token"
proof -
  have "svc_demo_token = Prefix @ tl (tl (tl (tl (tl (tl svc_demo_token)))))" by code_simp
  then show ?thesis by (metis prefixI)
qed

lemma svc_demo_bearer: "TrimPrefix (md_first (md_authorization svc_demo_request)) ''Bearer '' = svc_demo_token"
  unfolding svc_demo_request_def md_first_def using TrimPrefix_append[of "''Bearer ''" svc_demo_token] by simp

lemma svc_demo_scope: "withCallerScope svc_demo_codec None 0 ''key'' (Some svc_demo_request) = Some svc_demo_agent_scope"
proof -
  have "verifyClaims svc_demo_codec 0 ''key'' svc_demo_token = Inr svc_demo_claims" by code_simp
  then have "ScopeFromToken svc_demo_codec 0 ''key'' svc_demo_token = Inr svc_demo_agent_scope"
    by (simp add: ScopeFromToken_def svc_demo_claims_def svc_demo_agent_scope_def actorKindFor_def AgentRunService_def zero_scope_def)
  moreover have "svc_demo_token \<noteq> ''''" using svc_demo_signed by (auto simp: Prefix_def)
  ultimately show ?thesis using svc_demo_signed by (simp add: withCallerScope_def svc_demo_bearer)
qed

theorem service_scope_is_signed_witness:
  "\<not> IsOrgAdmin svc_demo_agent_scope \<and> (\<exists>payload. svc_demo_token = Prefix @ payload @ ''.'' @ sign svc_demo_codec ''key'' payload)"
proof -
  have "prefix Prefix (TrimPrefix (md_first (md_authorization svc_demo_request)) ''Bearer '')" using svc_demo_signed by (simp add: svc_demo_bearer)
  from service_scope_is_signed[OF svc_demo_scope this] show ?thesis by (auto simp: svc_demo_bearer)
qed

end
