(* ===== verification/NF_Egress.thy ===== *)
theory NF_Egress
  imports NF_Changes "HOL-Library.Word"
begin

unbundle bit_operations_syntax

text \<open>
  The destinations the platform may call (\<open>internal/egress\<close>): the operator's rules, and the check that
  resolves a destination to one approved address. Addresses are those of \<open>net/netip\<close> without zones. The
  decoders of JSON, URLs and prefixes and the resolver of names are arguments; case is that of ASCII.
\<close>

section \<open>Addresses\<close>

datatype ip = V4 "32 word" | V6 "128 word"

record ip_prefix =
  pf_Addr :: ip
  pf_Bits :: nat

definition Is4In6 :: "ip \<Rightarrow> bool" where
  "Is4In6 a \<longleftrightarrow> (case a of V4 _ \<Rightarrow> False | V6 w \<Rightarrow> drop_bit 32 w = 0xFFFF)"

definition Unmap :: "ip \<Rightarrow> ip" where
  "Unmap a = (case a of V4 w \<Rightarrow> V4 w | V6 w \<Rightarrow> if drop_bit 32 w = 0xFFFF then V4 (ucast w) else V6 w)"

definition IsLoopback :: "ip \<Rightarrow> bool" where
  "IsLoopback a = (case Unmap a of V4 w \<Rightarrow> drop_bit 24 w = 127 | V6 w \<Rightarrow> w = 1)"

definition IsMulticast :: "ip \<Rightarrow> bool" where
  "IsMulticast a = (case Unmap a of V4 w \<Rightarrow> drop_bit 28 w = 0xE | V6 w \<Rightarrow> drop_bit 120 w = 0xFF)"

definition IsLinkLocalUnicast :: "ip \<Rightarrow> bool" where
  "IsLinkLocalUnicast a = (case Unmap a of V4 w \<Rightarrow> drop_bit 16 w = 0xA9FE | V6 w \<Rightarrow> drop_bit 118 w = 0x3FA)"

definition IsPrivate :: "ip \<Rightarrow> bool" where
  "IsPrivate a = (case Unmap a of
     V4 w \<Rightarrow> drop_bit 24 w = 10 \<or> drop_bit 20 w = 0xAC1 \<or> drop_bit 16 w = 0xC0A8
   | V6 w \<Rightarrow> drop_bit 121 w = 0x7E)"

definition IsUnspecified :: "ip \<Rightarrow> bool" where
  "IsUnspecified a \<longleftrightarrow> a = V4 0 \<or> a = V6 0"

definition IsGlobalUnicast :: "ip \<Rightarrow> bool" where
  "IsGlobalUnicast a = (let b = Unmap a in
     b \<noteq> V4 0 \<and> b \<noteq> V4 (- 1) \<and> b \<noteq> V6 0 \<and> \<not> IsLoopback b \<and> \<not> IsMulticast b \<and> \<not> IsLinkLocalUnicast b)"

definition Contains :: "ip_prefix \<Rightarrow> ip \<Rightarrow> bool" where
  "Contains p a = (case (pf_Addr p, a) of
     (V4 v, V4 w) \<Rightarrow> drop_bit (32 - pf_Bits p) (v XOR w) = 0
   | (V6 v, V6 w) \<Rightarrow> drop_bit (128 - pf_Bits p) (v XOR w) = 0
   | _ \<Rightarrow> False)"

section \<open>Rules\<close>

record egress_rule =
  er_Scheme :: string
  er_Host :: string
  er_Port :: int
  er_CIDRs :: "string list"

record url =
  u_Scheme :: string
  u_Hostname :: string
  u_Port :: string
  u_HasUser :: bool
  u_Fragment :: string

datatype egress_error = BadConfiguration | InvalidRule | InvalidCIDR | Refused | ResolveFailed

text \<open>What the checks ask: the decoder of the rules, \<open>url.Parse\<close>, \<open>netip.ParsePrefix\<close>, the resolver.\<close>

record egress_env =
  eg_rules :: "string \<Rightarrow> egress_rule list option"
  eg_url :: "string \<Rightarrow> url option"
  eg_prefix :: "string \<Rightarrow> ip_prefix option"
  eg_lookup :: "string \<Rightarrow> ip list option"

definition valid_rule :: "egress_rule \<Rightarrow> bool" where
  "valid_rule r \<longleftrightarrow> (er_Scheme r = ''http'' \<or> er_Scheme r = ''https'') \<and> er_Host r \<noteq> ''''
     \<and> set (er_Host r) \<inter> set ''/@* '' = {} \<and> 1 \<le> er_Port r \<and> er_Port r \<le> 65535 \<and> er_CIDRs r \<noteq> []"

fun check_rules :: "egress_env \<Rightarrow> egress_rule list \<Rightarrow> egress_error option" where
  "check_rules env [] = None"
| "check_rules env (r # rs) =
     (if \<not> valid_rule r then Some InvalidRule
      else if \<exists>c \<in> set (er_CIDRs r). eg_prefix env c = None then Some InvalidCIDR
      else check_rules env rs)"

definition Parse_policy :: "egress_env \<Rightarrow> string \<Rightarrow> egress_error + egress_rule list" where
  "Parse_policy env raw =
     (case (if raw = '''' then Some [] else eg_rules env raw) of
        None \<Rightarrow> Inl BadConfiguration
      | Some rules \<Rightarrow> (case check_rules env rules of Some e \<Rightarrow> Inl e | None \<Rightarrow> Inr rules))"

section \<open>Destinations\<close>

definition EqualFold :: "string \<Rightarrow> string \<Rightarrow> bool" where
  "EqualFold s t \<longleftrightarrow> lower s = lower t"

definition port_of :: "url \<Rightarrow> string option" where
  "port_of u = (if u_Port u \<noteq> '''' then Some (u_Port u)
     else if u_Scheme u = ''https'' then Some ''443'' else if u_Scheme u = ''http'' then Some ''80'' else None)"

definition rule_for :: "egress_rule list \<Rightarrow> url \<Rightarrow> string \<Rightarrow> egress_rule option" where
  "rule_for rules u port = List.find (\<lambda>r. EqualFold (er_Host r) (u_Hostname u) \<and> er_Scheme r = u_Scheme u \<and> Itoa (er_Port r) = port) rules"

definition admits :: "egress_env \<Rightarrow> egress_rule \<Rightarrow> ip \<Rightarrow> bool" where
  "admits env r a \<longleftrightarrow> (\<exists>c \<in> set (er_CIDRs r). case eg_prefix env c of
     None \<Rightarrow> False | Some p \<Rightarrow> Contains p a \<and> (\<not> IsPrivate a \<or> IsPrivate (pf_Addr p)))"

definition approved :: "egress_env \<Rightarrow> egress_rule \<Rightarrow> ip \<Rightarrow> bool" where
  "approved env r a \<longleftrightarrow> \<not> (\<not> IsGlobalUnicast a \<or> IsLoopback a \<or> IsLinkLocalUnicast a) \<and> admits env r a"

definition Resolve_destination :: "egress_env \<Rightarrow> egress_rule list \<Rightarrow> string \<Rightarrow> egress_error + (url \<times> ip)" where
  "Resolve_destination env rules raw =
     (case eg_url env raw of
        None \<Rightarrow> Inl Refused
      | Some u \<Rightarrow>
          if u_HasUser u \<or> u_Fragment u \<noteq> '''' then Inl Refused
          else case port_of u of
            None \<Rightarrow> Inl Refused
          | Some port \<Rightarrow>
              (case rule_for rules u port of
                 None \<Rightarrow> Inl Refused
               | Some r \<Rightarrow>
                   (case eg_lookup env (u_Hostname u) of
                      None \<Rightarrow> Inl ResolveFailed
                    | Some as \<Rightarrow>
                        (case List.find (approved env r) (map Unmap as) of
                           None \<Rightarrow> Inl Refused
                         | Some a \<Rightarrow> Inr (u, a)))))"

definition url_port :: "url \<Rightarrow> string" where
  "url_port u = (if u_Port u \<noteq> '''' then u_Port u else if u_Scheme u = ''https'' then ''443'' else ''80'')"

text \<open>\<open>itext\<close> is the text of an address.\<close>

definition GitConfig :: "(ip \<Rightarrow> string) \<Rightarrow> egress_env \<Rightarrow> egress_rule list \<Rightarrow> string \<Rightarrow> egress_error + string list" where
  "GitConfig itext env rules remote =
     (case Resolve_destination env rules remote of
        Inl e \<Rightarrow> Inl e
      | Inr (u, a) \<Rightarrow>
          let ip = (if CHR '':'' \<in> set (itext a) then ''['' @ itext a @ '']'' else itext a) in
          Inr [''-c'', ''http.proxy='', ''-c'', ''http.followRedirects=false'', ''-c'', ''http.curloptResolve='',
               ''-c'', ''http.curloptResolve='' @ u_Hostname u @ '':'' @ url_port u @ '':'' @ ip])"

text \<open>The address a request is dialled at; \<open>RoundTrip\<close> passes it to the transport, which dials nothing else.\<close>

definition RoundTrip_address :: "egress_env \<Rightarrow> egress_rule list \<Rightarrow> string \<Rightarrow> egress_error + (ip \<times> string)" where
  "RoundTrip_address env rules raw =
     (case Resolve_destination env rules raw of Inl e \<Rightarrow> Inl e | Inr (u, a) \<Rightarrow> Inr (a, url_port u))"

section \<open>What may be called\<close>

lemma Unmap_Unmap [simp]: "Unmap (Unmap a) = Unmap a"
  by (auto simp: Unmap_def split: ip.splits)

text \<open>
  C29. The address a request is dialled at is one the name resolved to, of the rule of the operator that
  names the scheme, host and port of the destination, within one of its networks. It is none of the
  platform's own or of the cloud's (loopback, link-local, multicast, broadcast, unspecified, whether
  written as IPv4 or mapped into IPv6), and a private one only within a network whose own address is
  private.
\<close>

theorem dialled_address_is_approved:
  assumes "RoundTrip_address env rules raw = Inr (a, port)"
  shows "\<exists>u r c p as. eg_url env raw = Some u \<and> \<not> u_HasUser u \<and> port = url_port u
    \<and> r \<in> set rules \<and> EqualFold (er_Host r) (u_Hostname u) \<and> er_Scheme r = u_Scheme u \<and> Itoa (er_Port r) = port
    \<and> eg_lookup env (u_Hostname u) = Some as \<and> a \<in> Unmap ` set as
    \<and> c \<in> set (er_CIDRs r) \<and> eg_prefix env c = Some p \<and> Contains p a \<and> (IsPrivate a \<longrightarrow> IsPrivate (pf_Addr p))
    \<and> \<not> IsLoopback a \<and> \<not> IsLinkLocalUnicast a \<and> \<not> IsMulticast a \<and> a \<notin> {V4 0, V4 (- 1), V6 0} \<and> \<not> Is4In6 a"
proof -
  from assms obtain u r port' as where *: "eg_url env raw = Some u" "\<not> u_HasUser u" "port_of u = Some port'"
      "rule_for rules u port' = Some r" "eg_lookup env (u_Hostname u) = Some as"
      "List.find (approved env r) (map Unmap as) = Some a" "port = url_port u"
    unfolding RoundTrip_address_def Resolve_destination_def
    by (auto split: option.splits if_splits sum.splits prod.splits)
  have port: "port' = port" using *(3,7) by (auto simp: port_of_def url_port_def split: if_splits)
  have r: "r \<in> set rules" "EqualFold (er_Host r) (u_Hostname u)" "er_Scheme r = u_Scheme u" "Itoa (er_Port r) = port"
    using *(4) port by (auto simp: rule_for_def find_Some_iff)
  have a: "a \<in> Unmap ` set as" "approved env r a"
    using *(6) by (auto simp: find_Some_iff)
  then have un: "Unmap a = a" by auto
  obtain c p where c: "c \<in> set (er_CIDRs r)" "eg_prefix env c = Some p" "Contains p a" "IsPrivate a \<longrightarrow> IsPrivate (pf_Addr p)"
    using a(2) by (auto simp: approved_def admits_def split: option.splits)
  have "\<not> IsLoopback a" "\<not> IsLinkLocalUnicast a" "\<not> IsMulticast a" "a \<notin> {V4 0, V4 (- 1), V6 0}"
    using a(2) un by (auto simp: approved_def IsGlobalUnicast_def Let_def)
  moreover have "\<not> Is4In6 a" using un by (auto simp: Is4In6_def Unmap_def split: ip.splits if_splits)
  ultimately show ?thesis using *(1,2,5,7) r a(1) c by blast
qed

text \<open>A network of no bits holds every address of its family; written with a private address it admits them all.\<close>

lemma zero_bits_contain_all: "pf_Bits p = 0 \<Longrightarrow> pf_Addr p = V4 v \<Longrightarrow> Contains p (V4 w)"
  by (auto simp: Contains_def intro!: bit_word_eqI simp: bit_simps dest: bit_imp_le_length)

lemma private_zero_network_admits_private:
  "eg_prefix env c = Some \<lparr>pf_Addr = V4 0x0A000000, pf_Bits = 0\<rparr> \<Longrightarrow> c \<in> set (er_CIDRs r) \<Longrightarrow> admits env r (V4 0xC0A80101)"
  unfolding admits_def
  by (rule bexI[where x = c]) (auto intro!: zero_bits_contain_all simp: IsPrivate_def Unmap_def)

section \<open>Witness\<close>

definition eg_demo :: egress_env where
  "eg_demo = \<lparr>eg_rules = (\<lambda>_. None),
     eg_url = (\<lambda>_. Some \<lparr>u_Scheme = ''https'', u_Hostname = ''Hooks.example'', u_Port = '''', u_HasUser = False, u_Fragment = ''''\<rparr>),
     eg_prefix = (\<lambda>c. if c = ''10.0.0.0/8'' then Some \<lparr>pf_Addr = V4 0x0A000000, pf_Bits = 8\<rparr> else None),
     eg_lookup = (\<lambda>_. Some [V4 0x7F000001, V6 0xFFFF0A010203])\<rparr>"

definition eg_demo_rules :: "egress_rule list" where
  "eg_demo_rules = [\<lparr>er_Scheme = ''https'', er_Host = ''hooks.example'', er_Port = 443, er_CIDRs = [''10.0.0.0/8'']\<rparr>]"

theorem dialled_address_is_approved_witness:
  "RoundTrip_address eg_demo eg_demo_rules ''https://Hooks.example/'' = Inr (V4 0x0A010203, ''443'') \<and> \<not> IsLoopback (V4 0x0A010203)"
proof -
  have "RoundTrip_address eg_demo eg_demo_rules ''https://Hooks.example/'' = Inr (V4 0x0A010203, ''443'')" by code_simp
  with dialled_address_is_approved[OF this] show ?thesis by blast
qed

end
