(* ===== verification/NF_Webhooks.thy ===== *)
theory NF_Webhooks
  imports NF_Changes
begin

text \<open>
  Webhooks (\<open>internal/webhooks\<close>): the endpoints of a repository, the record of what they answered, and
  the worker that delivers an event. A request to an endpoint is an entry of \<open>hd_posts\<close>, with the
  status that answered it, 0 when none did: it is sent whatever becomes of the transaction around it. The cipher, the keyed hash, the URL parser and the JSON
  of an event are arguments.
\<close>

section \<open>The tables\<close>

record hook =
  hk_ID :: uuid
  hk_OrgID :: uuid
  hk_RepoID :: uuid
  hk_URL :: string
  hk_Events :: "string list"
  hk_Secret :: "string option"
  hk_Active :: bool
  hk_CreatedAt :: time

record delivery =
  dl_ID :: uuid
  dl_HookID :: uuid
  dl_Event :: string
  dl_StatusCode :: int
  dl_Error :: string
  dl_Attempt :: int
  dl_At :: time

text \<open>A lease until \<open>-infinity\<close> is \<open>None\<close>.\<close>

record dispatch_row =
  dp_HookID :: uuid
  dp_Delivery :: string
  dp_Event :: string
  dp_Attempts :: int
  dp_Done :: bool
  dp_LeaseUntil :: "time option"
  dp_Claim :: "uuid option"

record post =
  po_HookID :: uuid
  po_Delivery :: string
  po_URL :: string
  po_Event :: string
  po_Body :: string
  po_Signature :: "string option"
  po_Code :: int

text \<open>The repositories are those of git-platform, with their organizations.\<close>

record hookdb =
  hd_repos :: "(uuid \<times> uuid) list"
  hd_hooks :: "hook list"
  hd_deliveries :: "delivery list"
  hd_dispatch :: "dispatch_row list"
  hd_posts :: "post list"

datatype hookerr =
    NoOrganizationScope
  | MayNotAdminister string
  | BadURL
  | BadScheme string
  | NoHost
  | NoKEK
  | CiphertextTooShort
  | DecryptFailed
  | TooManyHooks
  | NoRepository uuid
  | NoWebhook uuid
  | ActiveAttempt
  | ClaimLost
  | MalformedEvent
  | EncodeFailed
  | Cancelled

type_synonym 'a hook_op = "(hookdb, hookerr fault, 'a) op"

definition maxHooksPerRepo :: nat where
  "maxHooksPerRepo = 20"

definition Delivered :: "delivery \<Rightarrow> bool" where
  "Delivered d \<longleftrightarrow> 200 \<le> dl_StatusCode d \<and> dl_StatusCode d < 300"

section \<open>Secrets\<close>

text \<open>The block cipher under the key: \<open>ci_seal\<close> and \<open>ci_open\<close> of a nonce; without a key nothing is kept.\<close>

record cipher =
  ci_KEK :: bool
  ci_seal :: "string \<Rightarrow> string \<Rightarrow> string"
  ci_open :: "string \<Rightarrow> string \<Rightarrow> string option"

definition NonceSize :: nat where
  "NonceSize = 12"

definition encrypt :: "cipher \<Rightarrow> string \<Rightarrow> string \<Rightarrow> hookerr + string" where
  "encrypt k nonce plaintext = (if \<not> ci_KEK k then Inl NoKEK else Inr (nonce @ ci_seal k nonce plaintext))"

definition decrypt :: "cipher \<Rightarrow> string \<Rightarrow> hookerr + string" where
  "decrypt k blob =
     (if \<not> ci_KEK k then Inl NoKEK
      else if length blob < NonceSize then Inl CiphertextTooShort
      else case ci_open k (take NonceSize blob) (drop NonceSize blob) of
        None \<Rightarrow> Inl DecryptFailed | Some p \<Rightarrow> Inr p)"

text \<open>The ciphertext of a column: none for an empty secret.\<close>

definition stored_secret :: "cipher \<Rightarrow> string \<Rightarrow> string \<Rightarrow> hookerr + string option" where
  "stored_secret k nonce secret = (if secret = '''' then Inr None else map_sum id Some (encrypt k nonce secret))"

section \<open>Administration\<close>

definition managing :: "ctx \<Rightarrow> uuid hook_op" where
  "managing ctx =
     bnd (from_context ctx) (\<lambda>scope.
     if s_OrgID scope = uuid_Nil then fail (App NoOrganizationScope)
     else bnd (require_org ctx (s_OrgID scope)) (\<lambda>_.
     if s_ActorKind scope \<noteq> ''user'' then fail (App (MayNotAdminister (s_ActorKind scope)))
     else ret (s_OrgID scope)))"

definition reading :: "ctx \<Rightarrow> uuid hook_op" where
  "reading ctx =
     bnd (from_context ctx) (\<lambda>scope.
     if s_OrgID scope = uuid_Nil then fail (App NoOrganizationScope)
     else bnd (require_org ctx (s_OrgID scope)) (\<lambda>_.
     ret (s_OrgID scope)))"

text \<open>\<open>url.Parse\<close> gives scheme and host, or fails.\<close>

definition ValidateURL :: "(string \<Rightarrow> (string \<times> string) option) \<Rightarrow> string \<Rightarrow> hookerr option" where
  "ValidateURL parse raw =
     (case parse raw of
        None \<Rightarrow> Some BadURL
      | Some (scheme, host) \<Rightarrow>
          if scheme \<noteq> ''http'' \<and> scheme \<noteq> ''https'' then Some (BadScheme scheme)
          else if host = '''' then Some NoHost else None)"

definition normalizeEvents :: "string list \<Rightarrow> string list" where
  "normalizeEvents es = filter (\<lambda>e. e \<noteq> '''') (map trim_space es)"

definition hooks_of :: "uuid \<Rightarrow> hookdb \<Rightarrow> hook list" where
  "hooks_of repo d = filter (\<lambda>h. hk_RepoID h = repo) (hd_hooks d)"

definition insert_hook :: "hook \<Rightarrow> hookdb \<Rightarrow> sqlerr + (bool \<times> hookdb)" where
  "insert_hook h d =
     (if (hk_RepoID h, hk_OrgID h) \<in> set (hd_repos d) \<and> length (hooks_of (hk_RepoID h) d) < maxHooksPerRepo
      then (if hk_ID h \<in> hk_ID ` set (hd_hooks d) then Inl UniqueViolation
            else Inr (True, d\<lparr>hd_hooks := hd_hooks d @ [h]\<rparr>))
      else Inr (False, d))"

definition CreateHook :: "(string \<Rightarrow> (string \<times> string) option) \<Rightarrow> cipher \<Rightarrow> string \<Rightarrow> uuid \<Rightarrow> time
    \<Rightarrow> ctx \<Rightarrow> uuid \<Rightarrow> string \<Rightarrow> string list \<Rightarrow> string \<Rightarrow> hook hook_op" where
  "CreateHook parse k nonce new_id now ctx repo endpoint events secret =
     bnd (managing ctx) (\<lambda>org.
     case ValidateURL parse endpoint of Some e \<Rightarrow> fail (App e) | None \<Rightarrow>
     bnd (lift (map_sum App id (stored_secret k nonce secret))) (\<lambda>ciphertext.
     let h = \<lparr>hk_ID = new_id, hk_OrgID = org, hk_RepoID = repo, hk_URL = endpoint, hk_Events = normalizeEvents events,
              hk_Secret = ciphertext, hk_Active = True, hk_CreatedAt = now\<rparr> in
     bnd (stmt Sql (insert_hook h)) (\<lambda>inserted.
     if inserted then ret h
     else bnd (attempt (query Sql (\<lambda>d. if (repo, org) \<in> set (hd_repos d) then length (hooks_of repo d) else 0))) (\<lambda>count.
       case count of
         Inr n \<Rightarrow> if maxHooksPerRepo \<le> n then fail (App TooManyHooks) else fail (App (NoRepository repo))
       | Inl (_ :: hookerr fault) \<Rightarrow> fail (App (NoRepository repo))))))"

definition ListHooks :: "ctx \<Rightarrow> uuid \<Rightarrow> hook list hook_op" where
  "ListHooks ctx repo =
     bnd (reading ctx) (\<lambda>org.
     query Sql (\<lambda>d. sort_key hk_CreatedAt (filter (\<lambda>h. hk_OrgID h = org \<and> hk_RepoID h = repo) (hd_hooks d))))"

definition GetHook :: "ctx \<Rightarrow> uuid \<Rightarrow> hook hook_op" where
  "GetHook ctx hid =
     bnd (reading ctx) (\<lambda>org.
     bnd (query Sql (\<lambda>d. List.find (\<lambda>h. hk_ID h = hid \<and> hk_OrgID h = org) (hd_hooks d))) (\<lambda>row.
     case row of None \<Rightarrow> fail (App (NoWebhook hid)) | Some h \<Rightarrow> ret h))"

definition delete_hooks :: "(hook \<Rightarrow> bool) \<Rightarrow> hookdb \<Rightarrow> nat \<times> hookdb" where
  "delete_hooks P d =
     (let gone = hk_ID ` {h \<in> set (hd_hooks d). P h} in
      (affected P (hd_hooks d),
       d\<lparr>hd_hooks := filter (\<lambda>h. \<not> P h) (hd_hooks d),
         hd_deliveries := filter (\<lambda>r. dl_HookID r \<notin> gone) (hd_deliveries d),
         hd_dispatch := filter (\<lambda>r. dp_HookID r \<notin> gone) (hd_dispatch d)\<rparr>))"

definition change_hooks :: "(hook \<Rightarrow> bool) \<Rightarrow> (hook \<Rightarrow> hook) \<Rightarrow> hookdb \<Rightarrow> nat \<times> hookdb" where
  "change_hooks P f d = (affected P (hd_hooks d), d\<lparr>hd_hooks := update_rows P f (hd_hooks d)\<rparr>)"

definition DeleteHook :: "ctx \<Rightarrow> uuid \<Rightarrow> unit hook_op" where
  "DeleteHook ctx hid =
     bnd (managing ctx) (\<lambda>org.
     bnd (update Sql (delete_hooks (\<lambda>h. hk_ID h = hid \<and> hk_OrgID h = org))) (\<lambda>n.
     if n = 0 then fail (App (NoWebhook hid)) else ret ()))"

definition SetSecret :: "cipher \<Rightarrow> string \<Rightarrow> ctx \<Rightarrow> uuid \<Rightarrow> string \<Rightarrow> unit hook_op" where
  "SetSecret k nonce ctx hid secret =
     bnd (managing ctx) (\<lambda>org.
     bnd (lift (map_sum App id (stored_secret k nonce secret))) (\<lambda>ciphertext.
     bnd (update Sql (change_hooks (\<lambda>h. hk_ID h = hid \<and> hk_OrgID h = org) (\<lambda>h. h\<lparr>hk_Secret := ciphertext\<rparr>))) (\<lambda>n.
     if n = 0 then fail (App (NoWebhook hid)) else ret ())))"

definition SetActive :: "ctx \<Rightarrow> uuid \<Rightarrow> bool \<Rightarrow> unit hook_op" where
  "SetActive ctx hid active =
     bnd (managing ctx) (\<lambda>org.
     bnd (update Sql (change_hooks (\<lambda>h. hk_ID h = hid \<and> hk_OrgID h = org) (\<lambda>h. h\<lparr>hk_Active := active\<rparr>))) (\<lambda>n.
     if n = 0 then fail (App (NoWebhook hid)) else ret ()))"

text \<open>Newest first, and the later attempt first among those of one instant.\<close>

definition newest_first :: "delivery list \<Rightarrow> delivery list" where
  "newest_first = rev \<circ> sort_key dl_At \<circ> sort_key dl_Attempt"

definition ListDeliveries :: "ctx \<Rightarrow> uuid \<Rightarrow> int \<Rightarrow> delivery list hook_op" where
  "ListDeliveries ctx hid limit =
     bnd (reading ctx) (\<lambda>org.
     bnd (GetHook ctx hid) (\<lambda>_.
     query Sql (\<lambda>d. take (nat (if limit \<le> 0 \<or> 200 < limit then 50 else limit))
       (newest_first (filter (\<lambda>r. dl_HookID r = hid \<and> (\<exists>h \<in> set (hd_hooks d). hk_ID h = hid \<and> hk_OrgID h = org)) (hd_deliveries d))))))"

section \<open>Delivery\<close>

definition insert_delivery :: "delivery \<Rightarrow> hookdb \<Rightarrow> sqlerr + (unit \<times> hookdb)" where
  "insert_delivery r d =
     (if dl_ID r \<in> dl_ID ` set (hd_deliveries d) then Inl UniqueViolation
      else if dl_HookID r \<notin> hk_ID ` set (hd_hooks d) then Inl ForeignKeyViolation
      else Inr ((), d\<lparr>hd_deliveries := hd_deliveries d @ [r]\<rparr>))"

definition recordDelivery :: "delivery \<Rightarrow> unit hook_op" where
  "recordDelivery r = stmt Sql (insert_delivery r)"

text \<open>A hook with the secret its deliveries are signed with, empty for none.\<close>

type_synonym target = "hook \<times> string"

definition undecryptable :: string where
  "undecryptable = ''the hook's secret could not be decrypted, so nothing was sent unsigned''"

text \<open>A secret that cannot be decrypted is recorded as a failed delivery, and that as well as it can be.\<close>

fun open_targets :: "cipher \<Rightarrow> (uuid \<Rightarrow> uuid) \<Rightarrow> time \<Rightarrow> string \<Rightarrow> hook list \<Rightarrow> target list hook_op" where
  "open_targets k ids now event [] = ret []"
| "open_targets k ids now event (h # hs) =
     (case hk_Secret h of
        None \<Rightarrow> bnd (open_targets k ids now event hs) (\<lambda>ts. ret ((h, '''') # ts))
      | Some blob \<Rightarrow>
          if blob = '''' then bnd (open_targets k ids now event hs) (\<lambda>ts. ret ((h, '''') # ts))
          else (case decrypt k blob of
             Inl _ \<Rightarrow>
               bnd (attempt (recordDelivery \<lparr>dl_ID = ids (hk_ID h), dl_HookID = hk_ID h, dl_Event = event, dl_StatusCode = 0,
                      dl_Error = undecryptable, dl_Attempt = 1, dl_At = now\<rparr>)) (\<lambda>(_ :: hookerr fault + unit).
               open_targets k ids now event hs)
           | Inr secret \<Rightarrow> bnd (open_targets k ids now event hs) (\<lambda>ts. ret ((h, secret) # ts))))"

definition wants :: "uuid \<Rightarrow> uuid \<Rightarrow> string \<Rightarrow> hook \<Rightarrow> bool" where
  "wants org repo event h \<longleftrightarrow> hk_OrgID h = org \<and> hk_RepoID h = repo \<and> hk_Active h \<and> (hk_Events h = [] \<or> event \<in> set (hk_Events h))"

definition targets :: "cipher \<Rightarrow> (uuid \<Rightarrow> uuid) \<Rightarrow> time \<Rightarrow> ctx \<Rightarrow> uuid \<Rightarrow> string \<Rightarrow> target list hook_op" where
  "targets k ids now ctx repo event =
     bnd (reading ctx) (\<lambda>org.
     bnd (query Sql (\<lambda>d. sort_key hk_CreatedAt (filter (wants org repo event) (hd_hooks d)))) (\<lambda>hs.
     open_targets k ids now event hs))"

subsection \<open>The budget of attempts\<close>

definition own_hook :: "uuid \<Rightarrow> uuid \<Rightarrow> hookdb \<Rightarrow> bool" where
  "own_hook org hid d \<longleftrightarrow> (\<exists>h \<in> set (hd_hooks d). hk_ID h = hid \<and> hk_OrgID h = org)"

definition live_hook :: "uuid \<Rightarrow> uuid \<Rightarrow> hookdb \<Rightarrow> bool" where
  "live_hook org hid d \<longleftrightarrow> (\<exists>h \<in> set (hd_hooks d). hk_ID h = hid \<and> hk_OrgID h = org \<and> hk_Active h)"

definition is_dispatch :: "uuid \<Rightarrow> string \<Rightarrow> dispatch_row \<Rightarrow> bool" where
  "is_dispatch hid delivery r \<longleftrightarrow> dp_HookID r = hid \<and> dp_Delivery r = delivery"

definition insert_dispatch :: "uuid \<Rightarrow> uuid \<Rightarrow> string \<Rightarrow> string \<Rightarrow> hookdb \<Rightarrow> unit \<times> hookdb" where
  "insert_dispatch org hid delivery event d =
     ((), if live_hook org hid d \<and> (\<forall>r \<in> set (hd_dispatch d). \<not> is_dispatch hid delivery r)
          then d\<lparr>hd_dispatch := hd_dispatch d @ [\<lparr>dp_HookID = hid, dp_Delivery = delivery, dp_Event = event, dp_Attempts = 0,
                   dp_Done = False, dp_LeaseUntil = None, dp_Claim = None\<rparr>]\<rparr>
          else d)"

definition lease_over :: "time \<Rightarrow> dispatch_row \<Rightarrow> bool" where
  "lease_over now r \<longleftrightarrow> (case dp_LeaseUntil r of None \<Rightarrow> True | Some t \<Rightarrow> t < now)"

definition leased :: "time \<Rightarrow> dispatch_row \<Rightarrow> bool" where
  "leased now r \<longleftrightarrow> (case dp_LeaseUntil r of None \<Rightarrow> False | Some t \<Rightarrow> now < t)"

definition take_attempt :: "uuid \<Rightarrow> uuid \<Rightarrow> string \<Rightarrow> int \<Rightarrow> uuid \<Rightarrow> time \<Rightarrow> hookdb \<Rightarrow> int option \<times> hookdb" where
  "take_attempt org hid delivery limit claim now d =
     (let P = (\<lambda>r. live_hook org hid d \<and> is_dispatch hid delivery r \<and> \<not> dp_Done r \<and> dp_Attempts r < limit \<and> lease_over now r);
          f = (\<lambda>r. r\<lparr>dp_Attempts := dp_Attempts r + 1, dp_Claim := Some claim, dp_LeaseUntil := Some (now + 30 * second)\<rparr>) in
      (map_option (\<lambda>r. dp_Attempts r + 1) (List.find P (hd_dispatch d)),
       d\<lparr>hd_dispatch := update_rows P f (hd_dispatch d)\<rparr>))"

text \<open>The number of the attempt that is reserved, 0 when none is left to make.\<close>

definition reserveAttempt :: "uuid \<Rightarrow> time \<Rightarrow> ctx \<Rightarrow> uuid \<Rightarrow> string \<Rightarrow> string \<Rightarrow> int \<Rightarrow> int hook_op" where
  "reserveAttempt claim now ctx hid event delivery limit =
     bnd (from_context ctx) (\<lambda>scope.
     bnd (require_org ctx (s_OrgID scope)) (\<lambda>_.
     tx Sql (
       bnd (update Sql (insert_dispatch (s_OrgID scope) hid delivery event)) (\<lambda>_.
       bnd (update Sql (take_attempt (s_OrgID scope) hid delivery limit claim now)) (\<lambda>taken.
       case taken of
         None \<Rightarrow>
           bnd (query Sql (\<lambda>d. if live_hook (s_OrgID scope) hid d then List.find (is_dispatch hid delivery) (hd_dispatch d) else None)) (\<lambda>row.
           case row of
             None \<Rightarrow> ret (Abort 0)
           | Some r \<Rightarrow> if dp_Done r \<or> limit \<le> dp_Attempts r \<and> \<not> leased now r then ret (Abort 0) else fail (App ActiveAttempt))
       | Some n \<Rightarrow>
           bnd (stmt Sql (insert_delivery \<lparr>dl_ID = claim, dl_HookID = hid, dl_Event = event, dl_StatusCode = 0,
                  dl_Error = ''attempt reserved; outcome not yet observed'', dl_Attempt = n, dl_At = now\<rparr>)) (\<lambda>_.
           ret (Commit n)))))))"

definition accepted :: "int \<Rightarrow> bool" where
  "accepted code \<longleftrightarrow> 200 \<le> code \<and> code < 300"

definition settle_attempt :: "uuid \<Rightarrow> uuid \<Rightarrow> string \<Rightarrow> uuid \<Rightarrow> bool \<Rightarrow> hookdb \<Rightarrow> nat \<times> hookdb" where
  "settle_attempt org hid delivery claim finished d =
     (let P = (\<lambda>r. own_hook org hid d \<and> is_dispatch hid delivery r \<and> dp_Claim r = Some claim) in
      (affected P (hd_dispatch d),
       d\<lparr>hd_dispatch := update_rows P (\<lambda>r. r\<lparr>dp_Done := finished, dp_LeaseUntil := None, dp_Claim := None\<rparr>) (hd_dispatch d)\<rparr>))"

definition finishAttempt :: "ctx \<Rightarrow> uuid \<Rightarrow> string \<Rightarrow> uuid \<Rightarrow> int \<Rightarrow> int \<Rightarrow> string \<Rightarrow> int \<Rightarrow> unit hook_op" where
  "finishAttempt ctx hid delivery claim n code detail limit =
     bnd (from_context ctx) (\<lambda>scope.
     tx Sql (
       bnd (update Sql (settle_attempt (s_OrgID scope) hid delivery claim (accepted code \<or> limit \<le> n))) (\<lambda>rows.
       if rows \<noteq> 1 then fail (App ClaimLost)
       else bnd (update Sql (\<lambda>d. ((), d\<lparr>hd_deliveries := update_rows (\<lambda>r. dl_ID r = claim \<and> dl_HookID r = hid)
                   (\<lambda>r. r\<lparr>dl_StatusCode := code, dl_Error := detail\<rparr>) (hd_deliveries d)\<rparr>))) (\<lambda>_.
       ret (Commit ())))))"

subsection \<open>The worker\<close>

text \<open>The signature of a body: its keyed hash in hexadecimal digits.\<close>

definition to_hex :: "string \<Rightarrow> string" where
  "to_hex s = concat (map (\<lambda>c. [hex_digit (of_char c div 16), hex_digit (of_char c)]) s)"

definition Sign :: "(string \<Rightarrow> string \<Rightarrow> string) \<Rightarrow> string \<Rightarrow> string \<Rightarrow> string" where
  "Sign mac body secret = to_hex (mac secret body)"

text \<open>What one round of a delivery meets: the fresh claim, the instant, the answer, and whether the worker is stopped.\<close>

record round =
  ro_Claim :: uuid
  ro_Now :: time
  ro_Code :: int
  ro_Detail :: string
  ro_Cancelled :: bool

definition post_request :: "(string \<Rightarrow> string \<Rightarrow> string) \<Rightarrow> target \<Rightarrow> string \<Rightarrow> string \<Rightarrow> string \<Rightarrow> int \<Rightarrow> unit hook_op" where
  "post_request mac t event delivery body code = (\<lambda>(d, fs). (Inr (), d\<lparr>hd_posts := hd_posts d @
     [\<lparr>po_HookID = hk_ID (fst t), po_Delivery = delivery, po_URL = hk_URL (fst t), po_Event = event, po_Body = body,
       po_Signature = (if snd t \<noteq> '''' then Some (Sign mac body (snd t)) else None), po_Code = code\<rparr>]\<rparr>, fs))"

text \<open>One round after the other; \<open>None\<close> when the rounds given are used up.\<close>

fun deliver :: "(string \<Rightarrow> string \<Rightarrow> string) \<Rightarrow> ctx \<Rightarrow> int \<Rightarrow> target \<Rightarrow> string \<Rightarrow> string \<Rightarrow> string \<Rightarrow> round list \<Rightarrow> unit option hook_op" where
  "deliver mac ctx limit t event delivery body [] = ret None"
| "deliver mac ctx limit t event delivery body (e # es) =
     bnd (reserveAttempt (ro_Claim e) (ro_Now e) ctx (hk_ID (fst t)) event delivery limit) (\<lambda>n.
     if n = 0 then ret (Some ())
     else
       bnd (post_request mac t event delivery body (ro_Code e)) (\<lambda>_.
       bnd (finishAttempt ctx (hk_ID (fst t)) delivery (ro_Claim e) n (ro_Code e) (ro_Detail e) limit) (\<lambda>_.
       if accepted (ro_Code e) \<or> limit \<le> n then ret (Some ())
       else if ro_Cancelled e then fail (App Cancelled)
       else deliver mac ctx limit t event delivery body es)))"

fun deliver_all :: "(string \<Rightarrow> string \<Rightarrow> string) \<Rightarrow> ctx \<Rightarrow> int \<Rightarrow> (uuid \<Rightarrow> round list) \<Rightarrow> string \<Rightarrow> string \<Rightarrow> string \<Rightarrow> target list \<Rightarrow> unit option hook_op" where
  "deliver_all mac ctx limit rounds event delivery body [] = ret (Some ())"
| "deliver_all mac ctx limit rounds event delivery body (t # ts) =
     bnd (deliver mac ctx limit t event delivery body (rounds (hk_ID (fst t)))) (\<lambda>r.
     case r of None \<Rightarrow> ret None | Some _ \<Rightarrow> deliver_all mac ctx limit rounds event delivery body ts)"

text \<open>
  A message carries JSON text: a lifecycle event, when its header names one, or a push. What the decoders
  accept is an argument, together with the text of the payload, encoded with its delivery, when it can be.
\<close>

record lifecycle_event =
  lc_Version :: int
  lc_EventID :: uuid
  lc_Event :: string
  lc_OrgID :: uuid
  lc_RepoID :: uuid
  lc_RunID :: uuid

record push_payload =
  pp_OrgID :: uuid
  pp_RepoID :: uuid

record message_codec =
  mc_header :: "string \<Rightarrow> string option"
  mc_lifecycle :: "string \<Rightarrow> lifecycle_event option"
  mc_push :: "string \<Rightarrow> push_payload option"
  mc_body :: "string \<Rightarrow> string \<Rightarrow> string option"
  mc_uuid :: "uuid \<Rightarrow> string"

record payload =
  py_Event :: string
  py_Delivery :: string
  py_OrgID :: uuid
  py_RepoID :: uuid

definition decode_message :: "message_codec \<Rightarrow> string \<Rightarrow> string option \<Rightarrow> hookerr + payload" where
  "decode_message c msg_id data =
     (case data of
        None \<Rightarrow> Inl MalformedEvent
      | Some raw \<Rightarrow>
          (case mc_header c raw of
             None \<Rightarrow> Inl MalformedEvent
           | Some header \<Rightarrow>
               (let body =
                  (if header \<noteq> '''' then
                     (case mc_lifecycle c raw of
                        None \<Rightarrow> None
                      | Some e \<Rightarrow>
                          if lc_Version e \<noteq> 1 \<or> lc_EventID e = uuid_Nil \<or> lc_RunID e = uuid_Nil
                             \<or> lc_Event e \<noteq> ''engineering_run'' \<and> lc_Event e \<noteq> ''ci_result'' then None
                          else Some \<lparr>py_Event = lc_Event e, py_Delivery = mc_uuid c (lc_EventID e), py_OrgID = lc_OrgID e,
                                     py_RepoID = lc_RepoID e\<rparr>)
                   else map_option (\<lambda>p. \<lparr>py_Event = ''push'', py_Delivery = msg_id, py_OrgID = pp_OrgID p, py_RepoID = pp_RepoID p\<rparr>)
                          (mc_push c raw)) in
                case body of
                  None \<Rightarrow> Inl MalformedEvent
                | Some b \<Rightarrow> if py_OrgID b = uuid_Nil \<or> py_RepoID b = uuid_Nil then Inl MalformedEvent else Inr b)))"

definition service_scope :: "uuid \<Rightarrow> scope" where
  "service_scope org = \<lparr>s_OrgID = org, s_ActorID = uuid_Nil, s_ActorKind = ''service'', s_ServiceName = '''', s_Role = '''',
     s_PlatformWorker = '''', s_RepoLimited = False, s_Repos = Map.empty\<rparr>"

definition handle_message :: "cipher \<Rightarrow> (string \<Rightarrow> string \<Rightarrow> string) \<Rightarrow> message_codec \<Rightarrow> int \<Rightarrow> (uuid \<Rightarrow> uuid) \<Rightarrow> time
    \<Rightarrow> (uuid \<Rightarrow> round list) \<Rightarrow> string \<Rightarrow> string option \<Rightarrow> unit option hook_op" where
  "handle_message k mac c limit ids now rounds msg_id data =
     bnd (lift (map_sum App id (decode_message c msg_id data))) (\<lambda>b.
     let ctx = Some (service_scope (py_OrgID b)) in
     bnd (targets k ids now ctx (py_RepoID b) (py_Event b)) (\<lambda>ts.
     case mc_body c (the data) (py_Delivery b) of
       None \<Rightarrow> fail (App EncodeFailed)
     | Some body \<Rightarrow> deliver_all mac ctx limit rounds (py_Event b) (py_Delivery b) body ts))"

text \<open>Whether \<open>handleAndAck\<close> acknowledges the message.\<close>

definition acks :: "hookerr fault + unit option \<Rightarrow> bool" where
  "acks r = (case r of Inl e \<Rightarrow> e = App MalformedEvent | Inr x \<Rightarrow> x \<noteq> None)"

definition maxAttempts :: "int \<Rightarrow> int" where
  "maxAttempts configured = (if 0 < configured then configured else 5)"

section \<open>The budget is never exceeded\<close>

text \<open>
  A worth is kept for every hook and delivery: the requests sent so far and those still allowed. Nothing
  but the creation of the hook raises it.
\<close>

definition posts_to :: "uuid \<Rightarrow> string \<Rightarrow> hookdb \<Rightarrow> nat" where
  "posts_to h dl d = length (filter (\<lambda>p. po_HookID p = h \<and> po_Delivery p = dl) (hd_posts d))"

definition budget :: "int \<Rightarrow> uuid \<Rightarrow> string \<Rightarrow> hookdb \<Rightarrow> nat" where
  "budget limit h dl d =
     (case List.find (is_dispatch h dl) (hd_dispatch d) of
        None \<Rightarrow> if h \<in> hk_ID ` set (hd_hooks d) then nat limit else 0
      | Some r \<Rightarrow> if dp_Done r then 0 else nat (limit - dp_Attempts r))"

definition worth :: "int \<Rightarrow> uuid \<Rightarrow> string \<Rightarrow> hookdb \<Rightarrow> nat" where
  "worth limit h dl d = posts_to h dl d + budget limit h dl d"

abbreviation dispatch_key :: "dispatch_row \<Rightarrow> uuid \<times> string" where
  "dispatch_key r \<equiv> (dp_HookID r, dp_Delivery r)"

definition hooks_ok :: "int \<Rightarrow> hookdb \<Rightarrow> bool" where
  "hooks_ok limit d \<longleftrightarrow> distinct (map hk_ID (hd_hooks d)) \<and> distinct (map dispatch_key (hd_dispatch d))
     \<and> (\<forall>r \<in> set (hd_dispatch d). 0 \<le> dp_Attempts r \<and> dp_Attempts r \<le> limit \<and> dp_HookID r \<in> hk_ID ` set (hd_hooks d)
          \<and> (dp_Done r \<longrightarrow> dp_Claim r = None))"

definition frugal :: "int \<Rightarrow> hookdb \<Rightarrow> hookdb \<Rightarrow> bool" where
  "frugal limit d d' \<longleftrightarrow> (hooks_ok limit d \<longrightarrow> hooks_ok limit d' \<and> (\<forall>h dl. worth limit h dl d' \<le> worth limit h dl d))"

interpretation frugal: db_frame "frugal limit" for limit
  by unfold_locales (auto simp: frugal_def, meson order_trans)

lemma frugal_unchanged:
  "hd_dispatch d' = hd_dispatch d \<Longrightarrow> hd_posts d' = hd_posts d \<Longrightarrow> map hk_ID (hd_hooks d') = map hk_ID (hd_hooks d)
    \<Longrightarrow> frugal limit d d'"
proof -
  assume *: "hd_dispatch d' = hd_dispatch d" "hd_posts d' = hd_posts d" "map hk_ID (hd_hooks d') = map hk_ID (hd_hooks d)"
  have ids: "hk_ID ` set (hd_hooks d') = hk_ID ` set (hd_hooks d)" using arg_cong[OF *(3), of set] by simp
  have "hooks_ok limit d' = hooks_ok limit d" unfolding hooks_ok_def *(1,3) ids ..
  moreover have "worth limit h dl d' = worth limit h dl d" for h dl
    unfolding worth_def posts_to_def budget_def *(1,2) ids ..
  ultimately show ?thesis by (simp add: frugal_def)
qed

lemma frugal_change: "(\<And>h. hk_ID (f h) = hk_ID h) \<Longrightarrow> frugal limit d (snd (change_hooks P f d))"
proof (rule frugal_unchanged)
  assume "\<And>h. hk_ID (f h) = hk_ID h"
  then have "map hk_ID (update_rows P f (hd_hooks d)) = map hk_ID (hd_hooks d)" by (rule map_update_rows)
  then show "map hk_ID (hd_hooks (snd (change_hooks P f d))) = map hk_ID (hd_hooks d)" by (simp add: change_hooks_def)
qed (simp_all add: change_hooks_def)

lemma frugal_insert_delivery: "insert_delivery r d = Inr (u, d') \<Longrightarrow> frugal limit d d'"
  by (rule frugal_unchanged) (auto simp: insert_delivery_def split: if_splits)

lemma find_filtered: "List.find P (filter Q xs) = Some r \<Longrightarrow> distinct (map k xs) \<Longrightarrow> (\<And>x y. P x \<Longrightarrow> P y \<Longrightarrow> k x = k y) \<Longrightarrow> List.find P xs = Some r"
proof -
  assume f: "List.find P (filter Q xs) = Some r" and k: "distinct (map k xs)" "\<And>x y. P x \<Longrightarrow> P y \<Longrightarrow> k x = k y"
  from find_Some_in[OF f] have r: "r \<in> set xs" "P r" by auto
  show ?thesis by (rule find_key_unique[where P = P and k = k, OF k(1) r]) (use k(2) r in blast)
qed

lemma is_dispatch_key: "is_dispatch h dl r \<longleftrightarrow> dispatch_key r = (h, dl)"
  by (simp add: is_dispatch_def)

lemma frugal_delete: "frugal limit d (snd (delete_hooks P d))"
  unfolding frugal_def
proof (intro impI conjI allI)
  assume ok: "hooks_ok limit d"
  let ?gone = "hk_ID ` {h \<in> set (hd_hooks d). P h}" and ?d = "snd (delete_hooks P d)"
  have rows: "hd_dispatch ?d = filter (\<lambda>r. dp_HookID r \<notin> ?gone) (hd_dispatch d)"
    and hooks: "hd_hooks ?d = filter (\<lambda>h. \<not> P h) (hd_hooks d)" and posts: "hd_posts ?d = hd_posts d"
    by (simp_all add: delete_hooks_def Let_def)
  have "x \<in> hk_ID ` {h \<in> set (hd_hooks d). \<not> P h}" if "x \<in> hk_ID ` set (hd_hooks d)" "x \<notin> ?gone" for x
    using that by auto
  then show "hooks_ok limit ?d"
    using ok unfolding hooks_ok_def rows hooks by (simp add: distinct_map_filter)
  show "worth limit h dl ?d \<le> worth limit h dl d" for h dl
  proof (cases "List.find (is_dispatch h dl) (hd_dispatch ?d)")
    case (Some r)
    then have "List.find (is_dispatch h dl) (hd_dispatch d) = Some r"
      unfolding rows by (rule find_filtered[where k = dispatch_key]) (use ok in \<open>auto simp: hooks_ok_def is_dispatch_def\<close>)
    with Some show ?thesis by (simp add: worth_def budget_def posts_to_def posts)
  next
    case None
    have "budget limit h dl ?d \<le> budget limit h dl d"
    proof (cases "h \<in> hk_ID ` set (hd_hooks ?d)")
      case True
      then obtain x where x: "x \<in> set (hd_hooks d)" "\<not> P x" "hk_ID x = h" unfolding hooks by auto
      then have "h \<notin> ?gone" using ok unfolding hooks_ok_def distinct_map by (auto dest: inj_onD)
      then have "\<forall>r \<in> set (hd_dispatch d). \<not> is_dispatch h dl r"
        using None unfolding find_None_iff' rows by (auto simp: is_dispatch_def)
      then have "List.find (is_dispatch h dl) (hd_dispatch d) = None" by (simp add: find_None_iff')
      with None x show ?thesis by (auto simp: budget_def)
    qed (use None in \<open>simp add: budget_def\<close>)
    then show ?thesis by (simp add: worth_def posts_to_def posts)
  qed
qed

subsection \<open>One attempt\<close>

lemma frugal_insert_dispatch:
  assumes "0 \<le> limit"
  shows "frugal limit d (snd (insert_dispatch org hid dl event d))"
proof (cases "live_hook org hid d \<and> (\<forall>r \<in> set (hd_dispatch d). \<not> is_dispatch hid dl r)")
  case True
  then have hook: "hid \<in> hk_ID ` set (hd_hooks d)" and fresh: "(hid, dl) \<notin> dispatch_key ` set (hd_dispatch d)"
    by (auto simp: live_hook_def is_dispatch_def)
  have "budget limit h dl' (snd (insert_dispatch org hid dl event d)) \<le> budget limit h dl' d" for h dl'
    using True hook by (auto simp: budget_def insert_dispatch_def find_append is_dispatch_def split: option.splits)
  then show ?thesis using True hook fresh assms
    by (auto simp: frugal_def hooks_ok_def worth_def posts_to_def insert_dispatch_def)
next
  case False
  then show ?thesis by (simp only: insert_dispatch_def if_False snd_conv frugal.frame_refl)
qed

lemma take_none: "take_attempt org hid dl limit claim now d = (None, d') \<Longrightarrow> d' = d"
  by (auto simp: take_attempt_def Let_def find_None_iff' update_rows_none)

lemma update_rows_keeps_key:
  "(\<And>r. P r \<Longrightarrow> k (f r) = k r) \<Longrightarrow> distinct (map k (update_rows P f rs)) = distinct (map k rs)"
  by (simp add: map_update_rows)

lemma take_some:
  assumes "take_attempt org hid dl limit claim now d = (Some n, d')" and "hooks_ok limit d"
  shows "hooks_ok limit d'" "1 \<le> n" "n \<le> limit" "hd_posts d' = hd_posts d" "hd_hooks d' = hd_hooks d"
    "Suc (worth limit hid dl d') = worth limit hid dl d"
    "h \<noteq> hid \<or> dl' \<noteq> dl \<Longrightarrow> worth limit h dl' d' = worth limit h dl' d"
    "\<exists>r \<in> set (hd_dispatch d'). is_dispatch hid dl r \<and> dp_Claim r = Some claim \<and> dp_Attempts r = n"
proof -
  let ?P = "\<lambda>r. live_hook org hid d \<and> is_dispatch hid dl r \<and> \<not> dp_Done r \<and> dp_Attempts r < limit \<and> lease_over now r"
  let ?f = "\<lambda>r. r\<lparr>dp_Attempts := dp_Attempts r + 1, dp_Claim := Some claim, dp_LeaseUntil := Some (now + 30 * second)\<rparr>"
  from assms(1) obtain r where r: "List.find ?P (hd_dispatch d) = Some r" "n = dp_Attempts r + 1"
    and d': "d' = d\<lparr>hd_dispatch := update_rows ?P ?f (hd_dispatch d)\<rparr>"
    by (auto simp: take_attempt_def Let_def)
  have rows': "hd_dispatch d' = update_rows ?P ?f (hd_dispatch d)" by (simp add: d')
  have in_r: "r \<in> set (hd_dispatch d)" "?P r" using find_Some_in[OF r(1)] by auto
  have ok: "distinct (map dispatch_key (hd_dispatch d))" "0 \<le> dp_Attempts r" using assms(2) in_r(1) by (auto simp: hooks_ok_def)
  show "1 \<le> n" "n \<le> limit" using r(2) ok(2) in_r(2) by auto
  show "hd_posts d' = hd_posts d" "hd_hooks d' = hd_hooks d" by (simp_all add: d')
  have "distinct (map dispatch_key (update_rows ?P ?f (hd_dispatch d)))"
    using ok(1) by (subst update_rows_keeps_key) auto
  then show "hooks_ok limit d'" using assms(2) by (auto simp: hooks_ok_def d' set_update_rows split: if_splits)
  have found: "List.find (is_dispatch hid dl) (hd_dispatch d) = Some r"
    by (rule find_key_unique[where k = dispatch_key, OF ok(1) in_r(1)]) (use in_r(2) in \<open>auto simp: is_dispatch_def\<close>)
  have upd: "List.find (is_dispatch h dl') (hd_dispatch d') = map_option (\<lambda>r. if ?P r then ?f r else r) (List.find (is_dispatch h dl') (hd_dispatch d))" for h dl'
    unfolding rows' by (rule find_update_rows_same) (simp add: is_dispatch_def)
  have "dp_Attempts r < limit" using in_r(2) by blast
  then have less: "Suc (nat (limit - (dp_Attempts r + 1))) = nat (limit - dp_Attempts r)" by arith
  have "Suc (budget limit hid dl d') = budget limit hid dl d"
    using in_r(2) less unfolding budget_def upd found by simp
  then show "Suc (worth limit hid dl d') = worth limit hid dl d" by (simp add: worth_def posts_to_def d')
  show "\<exists>r \<in> set (hd_dispatch d'). is_dispatch hid dl r \<and> dp_Claim r = Some claim \<and> dp_Attempts r = n"
    using in_r r(2) unfolding d' by (auto simp: set_update_rows is_dispatch_def intro!: image_eqI[where x = r] bexI[where x = "?f r"])
  assume "h \<noteq> hid \<or> dl' \<noteq> dl"
  then have "budget limit h dl' d' = budget limit h dl' d"
    unfolding budget_def upd by (cases "List.find (is_dispatch h dl') (hd_dispatch d)")
      (auto dest!: find_Some_in simp: is_dispatch_def d')
  then show "worth limit h dl' d' = worth limit h dl' d" by (simp add: worth_def posts_to_def d')
qed

lemma frugal_settle: "frugal limit d (snd (settle_attempt org hid dl claim finished d))"
  unfolding frugal_def
proof (intro impI conjI allI)
  assume ok: "hooks_ok limit d"
  let ?d = "snd (settle_attempt org hid dl claim finished d)"
  let ?P = "\<lambda>r. own_hook org hid d \<and> is_dispatch hid dl r \<and> dp_Claim r = Some claim"
  let ?f = "\<lambda>r. r\<lparr>dp_Done := finished, dp_LeaseUntil := None, dp_Claim := None\<rparr>"
  have d: "?d = d\<lparr>hd_dispatch := update_rows ?P ?f (hd_dispatch d)\<rparr>" by (simp add: settle_attempt_def Let_def)
  have "distinct (map dispatch_key (update_rows ?P ?f (hd_dispatch d)))"
    using ok by (subst update_rows_keeps_key) (auto simp: hooks_ok_def)
  then show "hooks_ok limit ?d" using ok unfolding d by (auto simp: hooks_ok_def set_update_rows split: if_splits)
  fix h dl'
  have upd: "List.find (is_dispatch h dl') (hd_dispatch ?d) = map_option (\<lambda>r. if ?P r then ?f r else r) (List.find (is_dispatch h dl') (hd_dispatch d))"
    unfolding d by (simp add: find_update_rows_same is_dispatch_def)
  have "budget limit h dl' ?d \<le> budget limit h dl' d"
  proof (cases "List.find (is_dispatch h dl') (hd_dispatch d)")
    case (Some r)
    then have "dp_Done r \<longrightarrow> dp_Claim r = None" using ok find_Some_in[OF Some] by (auto simp: hooks_ok_def)
    then show ?thesis unfolding budget_def upd Some by auto
  qed (unfold budget_def upd, simp add: d)
  then show "worth limit h dl' ?d \<le> worth limit h dl' d" by (simp add: worth_def posts_to_def d)
qed

text \<open>What a reservation leaves: nothing, or an attempt that is paid for.\<close>

definition paid :: "int \<Rightarrow> uuid \<Rightarrow> string \<Rightarrow> hookdb \<Rightarrow> hookdb \<Rightarrow> bool" where
  "paid limit hid dl d d' \<longleftrightarrow> hooks_ok limit d' \<and> hd_posts d' = hd_posts d \<and> hd_hooks d' = hd_hooks d
     \<and> Suc (worth limit hid dl d') \<le> worth limit hid dl d
     \<and> (\<forall>h dl'. h \<noteq> hid \<or> dl' \<noteq> dl \<longrightarrow> worth limit h dl' d' \<le> worth limit h dl' d)"

lemma insert_delivery_parts:
  "insert_delivery r d = Inr (u, d') \<Longrightarrow> hd_dispatch d' = hd_dispatch d \<and> hd_posts d' = hd_posts d \<and> hd_hooks d' = hd_hooks d"
  by (auto simp: insert_delivery_def split: if_splits)

lemma insert_dispatch_parts:
  "hd_posts (snd (insert_dispatch org hid dl event d)) = hd_posts d" "hd_hooks (snd (insert_dispatch org hid dl event d)) = hd_hooks d"
  by (simp_all add: insert_dispatch_def)

lemma reserve_Inl: "reserveAttempt claim now ctx hid event dl limit w = (Inl e, w') \<Longrightarrow> fst w' = fst w"
  unfolding reserveAttempt_def bnd_Inl from_context_def require_org_def by (auto simp: lift_run dest: tx_Inl_db)

lemma reserve_tx:
  assumes "reserveAttempt claim now ctx hid event dl limit w = (Inr n, w')"
  obtains "n = 0" "fst w' = fst w"
  | org d1 d2 where "ctx = Some org" "snd (insert_dispatch (s_OrgID org) hid dl event (fst w)) = d1"
      "take_attempt (s_OrgID org) hid dl limit claim now d1 = (Some n, d2)"
      "hd_dispatch (fst w') = hd_dispatch d2" "hd_posts (fst w') = hd_posts d2" "hd_hooks (fst w') = hd_hooks d2"
  using assms unfolding reserveAttempt_def
  by (fastforce simp: run_simps insert_dispatch_def split: option.splits if_splits dest!: insert_delivery_parts)

lemma reserve_Inr:
  assumes "reserveAttempt claim now ctx hid event dl limit w = (Inr n, w')" and "hooks_ok limit (fst w)" and "0 \<le> limit"
  shows "n = 0 \<and> fst w' = fst w \<or> paid limit hid dl (fst w) (fst w') \<and> 1 \<le> n \<and> n \<le> limit"
  using assms(1)
proof (cases rule: reserve_tx)
  case (2 org d1 d2)
  have f: "hooks_ok limit d1 \<and> (\<forall>h dl. worth limit h dl d1 \<le> worth limit h dl (fst w))"
    using frugal_insert_dispatch[where org = "s_OrgID org" and hid = hid and dl = dl and event = event and d = "fst w", OF assms(3)] 2(2) assms(2) by (simp add: frugal_def)
  note t = take_some[OF 2(3)]
  have same: "worth limit h dl' (fst w') = worth limit h dl' d2" "hooks_ok limit (fst w') = hooks_ok limit d2" for h dl'
    using 2(4-6) by (simp_all add: worth_def posts_to_def budget_def hooks_ok_def)
  have n: "1 \<le> n" "n \<le> limit" using t(2,3) f by auto
  have "hd_posts d1 = hd_posts (fst w)" "hd_hooks d1 = hd_hooks (fst w)" using 2(2) insert_dispatch_parts by metis+
  moreover have "Suc (worth limit hid dl d2) \<le> worth limit hid dl (fst w)" using t(6) f by metis
  moreover have "worth limit h dl' d2 \<le> worth limit h dl' (fst w)" if "h \<noteq> hid \<or> dl' \<noteq> dl" for h dl'
    using t(7)[OF _ that] f by metis
  ultimately show ?thesis
    using n t(1,4,5) f 2(5,6) unfolding paid_def same by auto
qed simp

lemma frugal_finish: "within (frugal limit) (finishAttempt ctx hid dl claim n code detail limit')"
  unfolding finishAttempt_def from_context_def
  by (intro frugal.frame_rules allI frugal_settle | simp | rule frugal_unchanged; simp)+

lemma post_worth:
  "worth limit h dl' (fst (snd (post_request mac t event dl body code w))) = worth limit h dl' (fst w) + (if h = hk_ID (fst t) \<and> dl' = dl then 1 else 0)"
  "hooks_ok limit (fst (snd (post_request mac t event dl body code w))) = hooks_ok limit (fst w)"
  "fst (post_request mac t event dl body code w) = Inr ()"
  by (cases w; auto simp: post_request_def worth_def posts_to_def budget_def hooks_ok_def)+

lemma frugal_deliver:
  assumes "0 \<le> limit"
  shows "within (frugal limit) (deliver mac ctx limit t event dl body es)"
proof (induction es)
  case (Cons e es)
  show ?case
  proof (rule withinI)
    fix w :: "hookdb world"
    obtain r w1 where r: "reserveAttempt (ro_Claim e) (ro_Now e) ctx (hk_ID (fst t)) event dl limit w = (r, w1)"
      by (cases "reserveAttempt (ro_Claim e) (ro_Now e) ctx (hk_ID (fst t)) event dl limit w")
    let ?rest = "\<lambda>n. bnd (finishAttempt ctx (hk_ID (fst t)) dl (ro_Claim e) n (ro_Code e) (ro_Detail e) limit) (\<lambda>_.
       if accepted (ro_Code e) \<or> limit \<le> n then ret (Some ())
       else if ro_Cancelled e then fail (App Cancelled) else deliver mac ctx limit t event dl body es)"
    have rest: "within (frugal limit) (?rest n)" for n
      using Cons.IH by (intro frugal.frame_rules frugal_finish)
    show "frugal limit (fst w) (fst (snd (deliver mac ctx limit t event dl body (e # es) w)))"
    proof (cases r)
      case (Inl x)
      with r have "fst w1 = fst w" using reserve_Inl by blast
      then show ?thesis using r Inl by (simp add: bnd_def frugal.frame_refl)
    next
      case (Inr n)
      show ?thesis
        unfolding frugal_def
      proof
        assume ok: "hooks_ok limit (fst w)"
        obtain w2 where p: "post_request mac t event dl body (ro_Code e) w1 = (Inr (), w2)"
          using post_worth(3)[of mac t event dl body "ro_Code e" w1] by (cases "post_request mac t event dl body (ro_Code e) w1") auto
        from reserve_Inr[OF r[unfolded Inr] ok assms]
        show "hooks_ok limit (fst (snd (deliver mac ctx limit t event dl body (e # es) w)))
          \<and> (\<forall>h dl'. worth limit h dl' (fst (snd (deliver mac ctx limit t event dl body (e # es) w))) \<le> worth limit h dl' (fst w))"
        proof
          assume "n = 0 \<and> fst w1 = fst w"
          then show ?thesis using r Inr ok by (simp add: bnd_def ret_def)
        next
          assume n: "paid limit (hk_ID (fst t)) dl (fst w) (fst w1) \<and> 1 \<le> n \<and> n \<le> limit"
          then have "hooks_ok limit (fst w2)" "\<forall>h dl'. worth limit h dl' (fst w2) \<le> worth limit h dl' (fst w)"
            using post_worth(1,2)[where mac = mac and t = t and event = event and dl = dl and body = body and code = "ro_Code e" and w = w1 and limit = limit] p
            by (auto simp: paid_def)
          moreover have "frugal limit (fst w2) (fst (snd (?rest n w2)))" using rest by (rule withinD)
          moreover have "deliver mac ctx limit t event dl body (e # es) w = ?rest n w2"
            using r Inr n p by (simp add: bnd_def)
          ultimately show ?thesis unfolding frugal_def by (metis order_trans)
        qed
      qed
    qed
  qed
qed (simp add: frugal.frame_ret)

subsection \<open>Every operation\<close>

lemma frugal_scope: "within (frugal limit) (managing ctx)" "within (frugal limit) (reading ctx)"
  unfolding managing_def reading_def from_context_def require_org_def by (intro frugal.frame_rules)+

lemma frugal_DeleteHook: "within (frugal limit) (DeleteHook ctx hid)"
  unfolding DeleteHook_def by (intro frugal.frame_rules frugal_scope frugal_delete)

lemma frugal_SetSecret: "within (frugal limit) (SetSecret k nonce ctx hid secret)"
  unfolding SetSecret_def by (intro frugal.frame_rules frugal_scope frugal_change) simp

lemma frugal_SetActive: "within (frugal limit) (SetActive ctx hid active)"
  unfolding SetActive_def by (intro frugal.frame_rules frugal_scope frugal_change) simp

lemma frugal_recordDelivery: "within (frugal limit) (recordDelivery r)"
  unfolding recordDelivery_def by (intro frugal.frame_rules frugal_insert_delivery)

lemma frugal_open_targets: "within (frugal limit) (open_targets k ids now event hs)"
  by (induction hs) (auto intro!: frugal.frame_rules frugal_recordDelivery split: option.splits sum.splits)

lemma frugal_targets: "within (frugal limit) (targets k ids now ctx repo event)"
  unfolding targets_def by (intro frugal.frame_rules frugal_scope frugal_open_targets)

lemma frugal_deliver_all: "0 \<le> limit \<Longrightarrow> within (frugal limit) (deliver_all mac ctx limit rounds event dl body ts)"
  by (induction ts) (auto intro!: frugal.frame_rules frugal_deliver)

lemma frugal_handle: "0 \<le> limit \<Longrightarrow> within (frugal limit) (handle_message k mac c limit ids now rounds msg_id data)"
  unfolding handle_message_def Let_def by (intro frugal.frame_rules frugal_targets frugal_deliver_all)

text \<open>The creation of a hook brings its budget, and nothing for any other.\<close>

definition endowed :: "int \<Rightarrow> uuid \<Rightarrow> hookdb \<Rightarrow> hookdb \<Rightarrow> bool" where
  "endowed limit hid d d' \<longleftrightarrow> (hooks_ok limit d \<longrightarrow> hooks_ok limit d'
     \<and> (\<forall>h dl. worth limit h dl d' \<le> worth limit h dl d + (if h = hid then nat limit else 0)))"

lemma endowed_insert: "insert_hook h d = Inr (b, d') \<Longrightarrow> endowed limit (hk_ID h) d d'"
proof -
  assume i: "insert_hook h d = Inr (b, d')"
  show ?thesis
  proof (cases "d' = d")
    case False
    then have d': "d' = d\<lparr>hd_hooks := hd_hooks d @ [h]\<rparr>" "hk_ID h \<notin> hk_ID ` set (hd_hooks d)"
      using i by (auto simp: insert_hook_def split: if_splits)
    have "budget limit x dl d' \<le> budget limit x dl d + (if x = hk_ID h then nat limit else 0)" for x dl
      by (auto simp: budget_def d'(1) split: option.splits)
    then show ?thesis using d'(2) by (auto simp: endowed_def hooks_ok_def worth_def posts_to_def d'(1))
  qed (simp add: endowed_def)
qed

lemma create_statements:
  "CreateHook parse k nonce new_id now ctx repo endpoint events secret w = (r, w') \<Longrightarrow>
     fst w' = fst w \<or> (\<exists>h b. hk_ID h = new_id \<and> insert_hook h (fst w) = Inr (b, fst w'))"
  unfolding CreateHook_def managing_def from_context_def require_org_def
  by (auto simp: op_defs Let_def split: prod.splits sum.splits if_splits option.splits)

lemma endowed_CreateHook: "within (endowed limit new_id) (CreateHook parse k nonce new_id now ctx repo endpoint events secret)"
proof (rule withinI)
  fix w :: "hookdb world"
  obtain r w' where c: "CreateHook parse k nonce new_id now ctx repo endpoint events secret w = (r, w')"
    by (cases "CreateHook parse k nonce new_id now ctx repo endpoint events secret w")
  from create_statements[OF c] show "endowed limit new_id (fst w) (fst (snd (CreateHook parse k nonce new_id now ctx repo endpoint events secret w)))"
  proof
    assume "fst w' = fst w"
    then show ?thesis using c by (simp add: endowed_def)
  next
    assume "\<exists>h b. hk_ID h = new_id \<and> insert_hook h (fst w) = Inr (b, fst w')"
    then show ?thesis using c endowed_insert by fastforce
  qed
qed

section \<open>Histories\<close>

record hook_env =
  he_parse :: "string \<Rightarrow> (string \<times> string) option"
  he_cipher :: cipher
  he_mac :: "string \<Rightarrow> string \<Rightarrow> string"
  he_codec :: message_codec
  he_MaxAttempts :: int

datatype hook_cmd =
    CmdCreateHook uuid string time ctx uuid string "string list" string
  | CmdDeleteHook ctx uuid
  | CmdSetSecret string ctx uuid string
  | CmdSetActive ctx uuid bool
  | CmdRepositories "(uuid \<times> uuid) list"
  | CmdMessage "uuid \<Rightarrow> uuid" time "uuid \<Rightarrow> round list" string "string option"

text \<open>Git-platform creates and deletes repositories; the hooks of a deleted one go with all that is theirs.\<close>

definition repositories_become :: "(uuid \<times> uuid) list \<Rightarrow> hookdb \<Rightarrow> hookdb" where
  "repositories_become repos d = (snd (delete_hooks (\<lambda>h. hk_RepoID h \<notin> fst ` set repos) d))\<lparr>hd_repos := repos\<rparr>"

lemma frugal_repositories: "frugal limit d (repositories_become repos d)"
proof -
  have "frugal limit (snd (delete_hooks P d)) ((snd (delete_hooks P d))\<lparr>hd_repos := repos\<rparr>)" for P
    by (rule frugal_unchanged) simp_all
  then show ?thesis unfolding repositories_become_def by (rule frugal.frame_trans[OF frugal_delete])
qed

lemma frugal_change_of_repositories: "within (frugal limit) (update Sql (\<lambda>d. ((), repositories_become repos d)) :: unit hook_op)"
  by (rule frugal.frame_update) (simp add: frugal_repositories)

definition hook_limit :: "hook_env \<Rightarrow> int" where
  "hook_limit e = maxAttempts (he_MaxAttempts e)"

fun hook_perform :: "hook_env \<Rightarrow> hook_cmd \<Rightarrow> unit hook_op" where
  "hook_perform e (CmdCreateHook new_id nonce now ctx repo endpoint events secret) =
     bnd (CreateHook (he_parse e) (he_cipher e) nonce new_id now ctx repo endpoint events secret) (\<lambda>_. ret ())"
| "hook_perform e (CmdDeleteHook ctx hid) = DeleteHook ctx hid"
| "hook_perform e (CmdSetSecret nonce ctx hid secret) = SetSecret (he_cipher e) nonce ctx hid secret"
| "hook_perform e (CmdSetActive ctx hid active) = SetActive ctx hid active"
| "hook_perform e (CmdRepositories repos) = update Sql (\<lambda>d. ((), repositories_become repos d))"
| "hook_perform e (CmdMessage ids now rounds msg_id data) =
     bnd (handle_message (he_cipher e) (he_mac e) (he_codec e) (hook_limit e) ids now rounds msg_id data) (\<lambda>_. ret ())"

definition hook_exec :: "hook_env \<Rightarrow> hook_cmd \<times> bool list \<Rightarrow> hookdb \<Rightarrow> hookdb" where
  "hook_exec e c d = fst (snd (hook_perform e (fst c) (d, snd c)))"

fun creates_hook :: "uuid \<Rightarrow> hook_cmd \<Rightarrow> bool" where
  "creates_hook h (CmdCreateHook new_id _ _ _ _ _ _ _) = (new_id = h)"
| "creates_hook h _ = False"

definition no_hooks :: "(uuid \<times> uuid) list \<Rightarrow> hookdb" where
  "no_hooks repos = \<lparr>hd_repos = repos, hd_hooks = [], hd_deliveries = [], hd_dispatch = [], hd_posts = []\<rparr>"

lemma hook_limit_pos: "0 < hook_limit e"
  by (simp add: hook_limit_def maxAttempts_def)

lemma answer_dropped: "snd (bnd m (\<lambda>_. ret ()) w) = snd (m w)"
  by (simp add: bnd_def ret_def split: prod.splits sum.splits)

lemma hook_exec_endowed:
  assumes "hooks_ok (hook_limit e) d"
  shows "hooks_ok (hook_limit e) (hook_exec e c d)
    \<and> worth (hook_limit e) h dl (hook_exec e c d) \<le> worth (hook_limit e) h dl d + (if creates_hook h (fst c) then nat (hook_limit e) else 0)"
proof (cases "fst c")
  case (CmdCreateHook new_id nonce now ctx repo endpoint events secret)
  have "within (endowed (hook_limit e) new_id) (CreateHook (he_parse e) (he_cipher e) nonce new_id now ctx repo endpoint events secret)"
    by (rule endowed_CreateHook)
  from withinD[OF this, of "(d, snd c)"] have "endowed (hook_limit e) new_id d (hook_exec e c d)"
    using CmdCreateHook by (simp add: hook_exec_def answer_dropped)
  then have "hooks_ok (hook_limit e) (hook_exec e c d)"
    "worth (hook_limit e) h dl (hook_exec e c d) \<le> worth (hook_limit e) h dl d + (if h = new_id then nat (hook_limit e) else 0)"
    using assms unfolding endowed_def by blast+
  then show ?thesis using CmdCreateHook by (auto split: if_splits)
next
  case (CmdMessage ids now rounds msg_id data)
  have "within (frugal (hook_limit e)) (hook_perform e (fst c))"
    unfolding CmdMessage hook_perform.simps by (intro frugal.frame_rules frugal_handle less_imp_le[OF hook_limit_pos])
  from withinD[OF this, of "(d, snd c)"] show ?thesis using assms CmdMessage by (simp add: hook_exec_def frugal_def)
qed (use assms withinD[where w = "(d, snd c)", OF frugal_DeleteHook] withinD[where w = "(d, snd c)", OF frugal_SetSecret]
       withinD[where w = "(d, snd c)", OF frugal_SetActive]
       withinD[where w = "(d, snd c)", OF frugal_change_of_repositories] in \<open>simp_all add: hook_exec_def frugal_def\<close>)

lemma history_endowed:
  "hooks_ok (hook_limit e) d \<Longrightarrow> hooks_ok (hook_limit e) (fold (hook_exec e) cs d)
    \<and> worth (hook_limit e) h dl (fold (hook_exec e) cs d)
        \<le> worth (hook_limit e) h dl d + nat (hook_limit e) * length (filter (creates_hook h \<circ> fst) cs)"
proof (induction cs arbitrary: d)
  case (Cons c cs)
  from hook_exec_endowed[OF Cons.prems, of c h dl] Cons.IH[of "hook_exec e c d"] show ?case
    by (auto split: if_splits)
qed simp

lemma no_hooks_ok: "hooks_ok limit (no_hooks repos)" "worth limit h dl (no_hooks repos) = 0"
  by (simp_all add: hooks_ok_def no_hooks_def worth_def posts_to_def budget_def)

text \<open>
  C30. Whatever messages are delivered again, however attempts end and whatever statements fail, an endpoint
  gets at most as many requests for one delivery as the limit says, each time the hook is created; and
  once the delivery was accepted or its attempts are used up, no request for it is ever sent again.
\<close>

theorem attempts_are_bounded:
  "posts_to h dl (fold (hook_exec e) cs (no_hooks repos)) \<le> nat (hook_limit e) * length (filter (creates_hook h \<circ> fst) cs)
    \<and> (filter (creates_hook h \<circ> fst) cs' = [] \<longrightarrow>
        posts_to h dl (fold (hook_exec e) (cs @ cs') (no_hooks repos))
          \<le> posts_to h dl (fold (hook_exec e) cs (no_hooks repos)) + budget (hook_limit e) h dl (fold (hook_exec e) cs (no_hooks repos)))"
proof -
  let ?d = "fold (hook_exec e) cs (no_hooks repos)"
  have d: "hooks_ok (hook_limit e) ?d" "worth (hook_limit e) h dl ?d \<le> nat (hook_limit e) * length (filter (creates_hook h \<circ> fst) cs)"
    using history_endowed[where d = "no_hooks repos" and e = e and cs = cs and h = h and dl = dl, OF no_hooks_ok(1)] by (simp_all add: no_hooks_ok(2))
  from history_endowed[where cs = cs' and h = h and dl = dl, OF d(1)] have "worth (hook_limit e) h dl (fold (hook_exec e) cs' ?d)
      \<le> worth (hook_limit e) h dl ?d + nat (hook_limit e) * length (filter (creates_hook h \<circ> fst) cs')" by simp
  then show ?thesis using d(2) by (auto simp: worth_def)
qed

section \<open>What is sent, and to whom\<close>

text \<open>Only requests that satisfy \<open>G\<close> are added.\<close>

definition posting :: "(post \<Rightarrow> bool) \<Rightarrow> hookdb \<Rightarrow> hookdb \<Rightarrow> bool" where
  "posting G d d' \<longleftrightarrow> (\<exists>ps. hd_posts d' = hd_posts d @ ps \<and> list_all G ps) \<and> hd_hooks d' = hd_hooks d"

interpretation posting: db_frame "posting G" for G
proof unfold_locales
  show "posting G d d" for d by (simp add: posting_def)
  show "posting G a b \<Longrightarrow> posting G b c \<Longrightarrow> posting G a c" for a b c by (fastforce simp: posting_def)
qed

lemma posting_parts: "hd_posts d' = hd_posts d \<Longrightarrow> hd_hooks d' = hd_hooks d \<Longrightarrow> posting G d d'"
  by (simp add: posting_def)

lemma posting_reserve: "within (posting G) (reserveAttempt claim now ctx hid event dl limit)"
  unfolding reserveAttempt_def from_context_def require_org_def
  by (intro posting.frame_rules posting_parts; auto simp: insert_dispatch_def take_attempt_def Let_def dest: insert_delivery_parts)

lemma posting_finish: "within (posting G) (finishAttempt ctx hid dl claim n code detail limit)"
  unfolding finishAttempt_def from_context_def
  by (intro posting.frame_rules posting_parts; simp add: settle_attempt_def Let_def)

definition post_of :: "(string \<Rightarrow> string \<Rightarrow> string) \<Rightarrow> target \<Rightarrow> string \<Rightarrow> string \<Rightarrow> string \<Rightarrow> int \<Rightarrow> post" where
  "post_of mac t event dl body code = \<lparr>po_HookID = hk_ID (fst t), po_Delivery = dl, po_URL = hk_URL (fst t), po_Event = event, po_Body = body,
     po_Signature = (if snd t \<noteq> '''' then Some (Sign mac body (snd t)) else None), po_Code = code\<rparr>"

lemma posting_post: "G (post_of mac t event dl body code) \<Longrightarrow> within (posting G) (post_request mac t event dl body code)"
  by (auto simp: within_def post_request_def posting_def post_of_def)

lemma posting_deliver: "(\<And>code. G (post_of mac t event dl body code)) \<Longrightarrow> within (posting G) (deliver mac ctx limit t event dl body es)"
  by (induction es) (auto intro!: posting.frame_rules posting_reserve posting_finish posting_post)

lemma posting_deliver_all:
  "\<forall>t \<in> set ts. \<forall>code. G (post_of mac t event dl body code) \<Longrightarrow> within (posting G) (deliver_all mac ctx limit rounds event dl body ts)"
  by (induction ts) (auto intro!: posting.frame_rules posting_deliver)

lemma posting_record: "within (posting G) (recordDelivery r)"
  unfolding recordDelivery_def by (intro posting.frame_rules posting_parts) (auto dest: insert_delivery_parts)

lemma posting_open_targets: "within (posting G) (open_targets k ids now event hs)"
  by (induction hs) (auto intro!: posting.frame_rules posting_record split: option.splits sum.splits)

text \<open>The targets are the hooks whose secret can be opened, each with it.\<close>

definition opened :: "cipher \<Rightarrow> hook \<Rightarrow> string \<Rightarrow> bool" where
  "opened k h s \<longleftrightarrow> (case hk_Secret h of None \<Rightarrow> s = '''' | Some blob \<Rightarrow> if blob = '''' then s = '''' else decrypt k blob = Inr s)"

lemma open_targets_Cons:
  assumes "open_targets k ids now event (h # hs) w = (Inr ts, w')"
  shows "\<exists>ts' w1. open_targets k ids now event hs w1 = (Inr ts', w') \<and> set ts = {h} \<times> {s. opened k h s} \<union> set ts'"
proof (cases "hk_Secret h = None \<or> hk_Secret h = Some ''''")
  case True
  then have "bnd (open_targets k ids now event hs) (\<lambda>ts. ret ((h, '''') # ts)) w = (Inr ts, w')" using assms by auto
  then obtain ts' where "open_targets k ids now event hs w = (Inr ts', w')" "ts = (h, '''') # ts'" by (auto simp: run_simps)
  then show ?thesis using True by (intro exI[of _ ts'] exI[of _ w]) (auto simp: opened_def)
next
  case False
  then obtain blob where blob: "hk_Secret h = Some blob" "blob \<noteq> ''''" by (cases "hk_Secret h") auto
  show ?thesis
  proof (cases "decrypt k blob")
    case (Inl e)
    then obtain w1 where "open_targets k ids now event hs w1 = (Inr ts, w')" using assms blob by (auto simp: run_simps)
    then show ?thesis using Inl blob by (intro exI[of _ ts] exI[of _ w1]) (simp add: opened_def)
  next
    case (Inr s)
    then have "bnd (open_targets k ids now event hs) (\<lambda>ts. ret ((h, s) # ts)) w = (Inr ts, w')" using assms blob by simp
    then obtain ts' where "open_targets k ids now event hs w = (Inr ts', w')" "ts = (h, s) # ts'" by (auto simp: run_simps)
    then show ?thesis using Inr blob by (intro exI[of _ ts'] exI[of _ w]) (auto simp: opened_def)
  qed
qed

lemma open_targets_exact:
  "open_targets k ids now event hs w = (Inr ts, w') \<Longrightarrow> set ts = {(h, s). h \<in> set hs \<and> opened k h s}"
proof (induction hs arbitrary: ts w w')
  case (Cons h hs)
  from Cons.prems open_targets_Cons obtain ts' w1
    where "open_targets k ids now event hs w1 = (Inr ts', w')" "set ts = {h} \<times> {s. opened k h s} \<union> set ts'" by metis
  with Cons.IH show ?case by auto
qed (simp add: run_simps)

definition sent_to :: "cipher \<Rightarrow> (string \<Rightarrow> string \<Rightarrow> string) \<Rightarrow> string option \<Rightarrow> payload \<Rightarrow> hookdb \<Rightarrow> post \<Rightarrow> bool" where
  "sent_to k mac encoded b d p \<longleftrightarrow> (\<exists>h \<in> set (hd_hooks d). \<exists>s. wants (py_OrgID b) (py_RepoID b) (py_Event b) h \<and> opened k h s
     \<and> (\<exists>body code. encoded = Some body \<and> p = post_of mac (h, s) (py_Event b) (py_Delivery b) body code))"

lemma handle_statements:
  assumes "handle_message k mac c limit ids now rounds msg_id data w = (r, w')" and "decode_message c msg_id data = Inr b"
  obtains e where "r = Inl e" "posting (\<lambda>_. False) (fst w) (fst w')"
  | ts body w1 where "mc_body c (the data) (py_Delivery b) = Some body"
      "set ts = {(h, s). h \<in> set (hd_hooks (fst w)) \<and> wants (py_OrgID b) (py_RepoID b) (py_Event b) h \<and> opened k h s}"
      "targets k ids now (Some (service_scope (py_OrgID b))) (py_RepoID b) (py_Event b) w = (Inr ts, w1)"
      "deliver_all mac (Some (service_scope (py_OrgID b))) limit rounds (py_Event b) (py_Delivery b) body ts w1 = (r, w')"
proof -
  let ?ctx = "Some (service_scope (py_OrgID b))"
  obtain q w1 where t: "targets k ids now ?ctx (py_RepoID b) (py_Event b) w = (q, w1)"
    by (cases "targets k ids now ?ctx (py_RepoID b) (py_Event b) w")
  have h: "handle_message k mac c limit ids now rounds msg_id data w
      = bnd (targets k ids now ?ctx (py_RepoID b) (py_Event b)) (\<lambda>ts. case mc_body c (the data) (py_Delivery b) of
          None \<Rightarrow> fail (App EncodeFailed)
        | Some body \<Rightarrow> deliver_all mac ?ctx limit rounds (py_Event b) (py_Delivery b) body ts) w"
    by (simp add: handle_message_def assms(2) lift_def bnd_def Let_def)
  have "within (posting (\<lambda>_. False)) (targets k ids now ?ctx (py_RepoID b) (py_Event b))"
    unfolding targets_def reading_def from_context_def require_org_def
    by (intro posting.frame_rules posting_open_targets)
  then have q: "posting (\<lambda>_. False) (fst w) (fst w1)" using t by (rule within_run)
  show ?thesis
  proof (cases q)
    case (Inl e)
    then show ?thesis using that(1) q t h assms(1) by (simp add: bnd_def)
  next
    case (Inr ts)
    have "set ts = {(h, s). h \<in> set (hd_hooks (fst w)) \<and> wants (py_OrgID b) (py_RepoID b) (py_Event b) h \<and> opened k h s}"
      using t Inr unfolding targets_def reading_def from_context_def require_org_def
      by (auto simp: run_simps service_scope_def dest!: open_targets_exact split: if_splits)
    then show ?thesis using that q t h assms(1) Inr
      by (cases "mc_body c (the data) (py_Delivery b)") (auto simp: bnd_def fail_def)
  qed
qed

text \<open>
  C31. Handling a message, however it ends, sends requests only to hooks that are active and asked for the event,
  of the repository and organization the event names, at the address registered; each is the event as it
  was encoded, and each is signed with the secret of its hook, when the hook has one.
\<close>

theorem requests_are_signed_for_subscribers:
  assumes "handle_message k mac c limit ids now rounds msg_id data w = (r, w')" and "decode_message c msg_id data = Inr b"
  shows "\<exists>ps. hd_posts (fst w') = hd_posts (fst w) @ ps \<and> list_all (sent_to k mac (mc_body c (the data) (py_Delivery b)) b (fst w)) ps"
  using assms
proof (cases rule: handle_statements)
  case (1 e)
  then show ?thesis by (auto simp: posting_def list_all_iff)
next
  case (2 ts body w1)
  let ?G = "sent_to k mac (mc_body c (the data) (py_Delivery b)) b (fst w)"
  have "within (posting ?G) (targets k ids now (Some (service_scope (py_OrgID b))) (py_RepoID b) (py_Event b))"
    unfolding targets_def reading_def from_context_def require_org_def by (intro posting.frame_rules posting_open_targets)
  then have "posting ?G (fst w) (fst w1)" using 2(3) by (rule within_run)
  moreover have "\<forall>t \<in> set ts. \<forall>code. ?G (post_of mac t (py_Event b) (py_Delivery b) body code)"
    using 2(1,2) by (auto simp: sent_to_def)
  then have "posting ?G (fst w1) (fst w')" using 2(4) by (intro within_run[OF posting_deliver_all])
  ultimately have "posting ?G (fst w) (fst w')" by (rule posting.frame_trans)
  then show ?thesis by (simp add: posting_def)
qed

section \<open>What an acknowledgement means\<close>

text \<open>The row of the delivery admits no further attempt.\<close>

definition closed_delivery :: "int \<Rightarrow> uuid \<Rightarrow> string \<Rightarrow> hookdb \<Rightarrow> bool" where
  "closed_delivery limit hid dl d \<longleftrightarrow> (\<exists>r \<in> set (hd_dispatch d). is_dispatch hid dl r \<and> (dp_Done r \<or> limit \<le> dp_Attempts r))"

lemma spent_is_closed:
  "budget limit hid dl d = 0 \<Longrightarrow> hid \<in> hk_ID ` set (hd_hooks d) \<Longrightarrow> 0 < limit \<Longrightarrow> closed_delivery limit hid dl d"
  by (fastforce simp: budget_def closed_delivery_def split: option.splits if_splits dest!: find_Some_in)

lemma closed_is_spent: "closed_delivery limit hid dl d \<Longrightarrow> hooks_ok limit d \<Longrightarrow> budget limit hid dl d = 0"
proof -
  assume "closed_delivery limit hid dl d" "hooks_ok limit d"
  then obtain r where r: "r \<in> set (hd_dispatch d)" "is_dispatch hid dl r" "dp_Done r \<or> limit \<le> dp_Attempts r"
    and k: "distinct (map dispatch_key (hd_dispatch d))" by (auto simp: closed_delivery_def hooks_ok_def)
  have "List.find (is_dispatch hid dl) (hd_dispatch d) = Some r"
    by (rule find_key_unique[where k = dispatch_key and P = "is_dispatch hid dl", OF k r(1,2)]) (use r(2) in \<open>auto simp: is_dispatch_def\<close>)
  then show ?thesis using r(3) by (auto simp: budget_def)
qed

lemma take_none_blocked:
  "take_attempt org hid dl limit claim now d = (None, d') \<Longrightarrow> live_hook org hid d \<Longrightarrow> r \<in> set (hd_dispatch d) \<Longrightarrow> is_dispatch hid dl r
    \<Longrightarrow> dp_Done r \<or> limit \<le> dp_Attempts r \<or> \<not> lease_over now r"
  by (auto simp: take_attempt_def Let_def find_None_iff')

text \<open>A worker that is told there is nothing left to do is told so of a delivery that is closed.\<close>

lemma reserve_zero:
  assumes "reserveAttempt claim now (Some scope) hid event dl limit w = (Inr 0, w')" and "hooks_ok limit (fst w)"
    and "live_hook (s_OrgID scope) hid (fst w)" and "0 < limit"
  shows "closed_delivery limit hid dl (fst w)"
proof -
  let ?d1 = "snd (insert_dispatch (s_OrgID scope) hid dl event (fst w))"
  have live: "live_hook (s_OrgID scope) hid ?d1" using assms(3) by (simp add: live_hook_def insert_dispatch_parts)
  have "frugal limit (fst w) ?d1" using assms(4) by (intro frugal_insert_dispatch) simp
  then have ok: "hooks_ok limit ?d1" using assms(2) by (simp add: frugal_def)
  define k :: "int option \<Rightarrow> int txres hook_op" where "k = (\<lambda>taken. case taken of
         None \<Rightarrow>
           bnd (query Sql (\<lambda>d. if live_hook (s_OrgID scope) hid d then List.find (is_dispatch hid dl) (hd_dispatch d) else None)) (\<lambda>row.
           case row of
             None \<Rightarrow> ret (Abort 0)
           | Some r \<Rightarrow> if dp_Done r \<or> limit \<le> dp_Attempts r \<and> \<not> leased now r then ret (Abort 0) else fail (App ActiveAttempt))
       | Some n \<Rightarrow>
           bnd (stmt Sql (insert_delivery \<lparr>dl_ID = claim, dl_HookID = hid, dl_Event = event, dl_StatusCode = 0,
                  dl_Error = ''attempt reserved; outcome not yet observed'', dl_Attempt = n, dl_At = now\<rparr>)) (\<lambda>_.
           ret (Commit n)))"
  have "tx Sql (bnd (update Sql (insert_dispatch (s_OrgID scope) hid dl event)) (\<lambda>_.
      bnd (update Sql (take_attempt (s_OrgID scope) hid dl limit claim now)) k)) w = (Inr 0, w')"
    using assms(1) unfolding reserveAttempt_def k_def by (simp add: bnd_Inr from_context_run require_org_run)
  then obtain x w3 where b: "bnd (update Sql (insert_dispatch (s_OrgID scope) hid dl event)) (\<lambda>_.
      bnd (update Sql (take_attempt (s_OrgID scope) hid dl limit claim now)) k) (fst w, tl (snd w)) = (Inr x, w3)"
    and x: "x = Commit 0 \<or> x = Abort 0"
    by (elim tx_cases) blast+
  from b obtain u w1 where w1: "update Sql (insert_dispatch (s_OrgID scope) hid dl event) (fst w, tl (snd w)) = ((Inr u, w1) :: (hookerr fault + unit) \<times> hookdb world)"
    and b1: "bnd (update Sql (take_attempt (s_OrgID scope) hid dl limit claim now)) k w1 = (Inr x, w3)" by (auto simp: bnd_Inr)
  from w1 have "fst w1 = ?d1" by (auto simp: update_Inr)
  moreover from b1 obtain taken w2 where "update Sql (take_attempt (s_OrgID scope) hid dl limit claim now) w1
      = ((Inr taken, w2) :: (hookerr fault + int option) \<times> hookdb world)" "k taken w2 = (Inr x, w3)" by (auto simp: bnd_Inr)
  ultimately obtain taken w2 where s: "take_attempt (s_OrgID scope) hid dl limit claim now ?d1 = (taken, fst w2)" "k taken w2 = (Inr x, w3)"
    by (auto simp: update_Inr)
  have "\<exists>r. List.find (is_dispatch hid dl) (hd_dispatch ?d1) = Some r \<and> (dp_Done r \<or> limit \<le> dp_Attempts r)"
  proof (cases taken)
    case None
    then have "fst w2 = ?d1" using s(1) take_none by blast
    moreover have "\<exists>r \<in> set (hd_dispatch ?d1). is_dispatch hid dl r"
      using assms(3) by (auto simp: insert_dispatch_def is_dispatch_def)
    then have "List.find (is_dispatch hid dl) (hd_dispatch ?d1) \<noteq> None" by (simp add: find_None_iff')
    ultimately show ?thesis using s(2) None live unfolding k_def by (auto simp: run_simps split: option.splits if_splits)
  next
    case (Some n)
    then have "1 \<le> n" using take_some(2) s(1) ok by metis
    moreover have "n = 0" using s(2) x Some unfolding k_def by (auto simp: run_simps)
    ultimately show ?thesis by simp
  qed
  then obtain r where r: "r \<in> set (hd_dispatch ?d1)" "is_dispatch hid dl r" "dp_Done r \<or> limit \<le> dp_Attempts r"
    by (auto dest!: find_Some_in)
  then show ?thesis using assms(4) by (auto simp: closed_delivery_def insert_dispatch_def split: if_splits)
qed

lemma finish_closes:
  assumes "finishAttempt ctx hid dl claim n code detail limit w = (Inr (), w')" and "accepted code \<or> limit \<le> n"
  shows "closed_delivery limit hid dl (fst w')"
proof -
  from assms obtain org d1 where s: "settle_attempt org hid dl claim True (fst w) = (1, d1)" and d: "hd_dispatch (fst w') = hd_dispatch d1"
    unfolding finishAttempt_def by (fastforce simp: run_simps split: if_splits)
  let ?P = "\<lambda>r. own_hook org hid (fst w) \<and> is_dispatch hid dl r \<and> dp_Claim r = Some claim"
  from s have "0 < affected ?P (hd_dispatch (fst w))" by (simp add: settle_attempt_def Let_def)
  then obtain r where r: "r \<in> set (hd_dispatch (fst w))" "?P r" unfolding affected_pos by blast
  have "hd_dispatch d1 = update_rows ?P (\<lambda>r. r\<lparr>dp_Done := True, dp_LeaseUntil := None, dp_Claim := None\<rparr>) (hd_dispatch (fst w))"
    using s by (auto simp: settle_attempt_def Let_def)
  then have "r\<lparr>dp_Done := True, dp_LeaseUntil := None, dp_Claim := None\<rparr> \<in> set (hd_dispatch (fst w'))"
    using r unfolding d by (simp only: set_update_rows) (rule rev_image_eqI, assumption, simp only: if_True simp_thms)
  then show ?thesis using r(2) unfolding closed_delivery_def is_dispatch_def by (intro bexI) auto
qed

lemma posting_hooks: "posting G d d' \<Longrightarrow> hd_hooks d' = hd_hooks d"
  by (simp add: posting_def)

lemma deliver_hooks:
  assumes "deliver mac ctx limit t event dl body es w = (r, w')"
  shows "hd_hooks (fst w') = hd_hooks (fst w)"
  by (rule posting_hooks[OF within_run[OF posting_deliver assms]]) (rule TrueI)

lemma deliver_closes:
  assumes "deliver mac (Some scope) limit t event dl body es w = (Inr (Some ()), w')" and "hooks_ok limit (fst w)"
    and "live_hook (s_OrgID scope) (hk_ID (fst t)) (fst w)" and "0 < limit"
  shows "closed_delivery limit (hk_ID (fst t)) dl (fst w')"
  using assms
proof (induction es arbitrary: w)
  case (Cons e es)
  let ?hid = "hk_ID (fst t)"
  from Cons.prems(1) obtain n w1 where r: "reserveAttempt (ro_Claim e) (ro_Now e) (Some scope) ?hid event dl limit w = (Inr n, w1)"
    and rest: "(if n = 0 then ret (Some ()) else
       bnd (post_request mac t event dl body (ro_Code e)) (\<lambda>_. bnd (finishAttempt (Some scope) ?hid dl (ro_Claim e) n (ro_Code e) (ro_Detail e) limit) (\<lambda>_.
       if accepted (ro_Code e) \<or> limit \<le> n then ret (Some ())
       else if ro_Cancelled e then fail (App Cancelled) else deliver mac (Some scope) limit t event dl body es))) w1 = (Inr (Some ()), w')"
    by (auto simp: bnd_Inr)
  show ?case
  proof (cases "n = 0")
    case True
    then have "closed_delivery limit ?hid dl (fst w)" using reserve_zero r Cons.prems(2-4) by blast
    moreover have "fst w' = fst w" using reserve_Inr[OF r Cons.prems(2)] True rest Cons.prems(4) by (auto simp: run_simps)
    ultimately show ?thesis by simp
  next
    case False
    with rest obtain w2 w3 where p: "post_request mac t event dl body (ro_Code e) w1 = (Inr (), w2)"
      and f: "finishAttempt (Some scope) ?hid dl (ro_Claim e) n (ro_Code e) (ro_Detail e) limit w2 = (Inr (), w3)"
      and l: "(if accepted (ro_Code e) \<or> limit \<le> n then ret (Some ())
        else if ro_Cancelled e then fail (App Cancelled) else deliver mac (Some scope) limit t event dl body es) w3 = (Inr (Some ()), w')"
      by (auto simp: bnd_Inr)
    show ?thesis
    proof (cases "accepted (ro_Code e) \<or> limit \<le> n")
      case True
      then have "closed_delivery limit ?hid dl (fst w3)" using f finish_closes by blast
      then show ?thesis using l True by (auto simp: run_simps)
    next
      case c: False
      have "hooks_ok limit (fst w1)" using reserve_Inr[OF r Cons.prems(2)] Cons.prems(4) False by (auto simp: paid_def)
      then have "hooks_ok limit (fst w2)" using post_worth(2)[of limit mac t event dl body "ro_Code e" w1] p by simp
      then have ok: "hooks_ok limit (fst w3)" using within_run[OF frugal_finish f, of limit] by (simp add: frugal_def)
      have "posting (\<lambda>_. True) (fst w) (fst w1)" using posting_reserve r by (rule within_run)
      moreover have "posting (\<lambda>_. True) (fst w1) (fst w2)" by (rule within_run[OF posting_post p]) simp
      moreover have "posting (\<lambda>_. True) (fst w2) (fst w3)" using posting_finish f by (rule within_run)
      ultimately have "hd_hooks (fst w3) = hd_hooks (fst w)" by (simp add: posting_def)
      then have "live_hook (s_OrgID scope) ?hid (fst w3)" using Cons.prems(3) by (simp add: live_hook_def)
      then show ?thesis using Cons.IH[OF _ ok] l c Cons.prems(4) by (auto simp: run_simps split: if_splits)
    qed
  qed
qed (simp add: run_simps)

lemma posts_grow: "posting G d d' \<Longrightarrow> posts_to h dl d \<le> posts_to h dl d'"
  by (auto simp: posting_def posts_to_def)

lemma closed_stays:
  assumes "frugal limit d d'" and "posting G d d'" and "hooks_ok limit d" and "0 < limit"
    and "closed_delivery limit hid dl d" and "hid \<in> hk_ID ` set (hd_hooks d)"
  shows "closed_delivery limit hid dl d'"
proof -
  have "budget limit hid dl d = 0" using assms(3,5) by (rule closed_is_spent[rotated])
  moreover have "worth limit hid dl d' \<le> worth limit hid dl d" using assms(1,3) by (simp add: frugal_def)
  ultimately have "budget limit hid dl d' = 0" using posts_grow[OF assms(2), of hid dl] by (simp add: worth_def)
  then show ?thesis using assms(2,4,6) by (intro spent_is_closed) (simp_all add: posting_def)
qed

lemma live_hook_id: "live_hook org hid d \<Longrightarrow> hid \<in> hk_ID ` set (hd_hooks d)"
  by (auto simp: live_hook_def)

lemma deliver_all_closes:
  assumes "deliver_all mac (Some scope) limit rounds event dl body ts w = (Inr (Some ()), w')" and "hooks_ok limit (fst w)" and "0 < limit"
    and "\<forall>t \<in> set ts. live_hook (s_OrgID scope) (hk_ID (fst t)) (fst w)" and "t \<in> set ts"
  shows "closed_delivery limit (hk_ID (fst t)) dl (fst w')"
  using assms
proof (induction ts arbitrary: w)
  case (Cons t' ts)
  from Cons.prems(1) obtain w1 where d: "deliver mac (Some scope) limit t' event dl body (rounds (hk_ID (fst t'))) w = (Inr (Some ()), w1)"
    and a: "deliver_all mac (Some scope) limit rounds event dl body ts w1 = (Inr (Some ()), w')"
    by (auto simp: run_simps split: option.splits)
  have pos: "0 \<le> limit" using Cons.prems(3) by simp
  have hooks: "hd_hooks (fst w1) = hd_hooks (fst w)" using deliver_hooks[OF d] .
  then have live: "\<forall>t \<in> set ts. live_hook (s_OrgID scope) (hk_ID (fst t)) (fst w1)" using Cons.prems(4) by (simp add: live_hook_def)
  have ok: "hooks_ok limit (fst w1)" using within_run[OF frugal_deliver[OF pos] d] Cons.prems(2) by (simp add: frugal_def)
  show ?case
  proof (cases "t \<in> set ts")
    case True
    then show ?thesis using Cons.IH[OF a ok Cons.prems(3) live] by blast
  next
    case False
    then have t: "t' = t" using Cons.prems(5) by simp
    have "closed_delivery limit (hk_ID (fst t)) dl (fst w1)"
      using deliver_closes[OF d Cons.prems(2) _ Cons.prems(3)] Cons.prems(4) t by simp
    moreover have "frugal limit (fst w1) (fst w')" using frugal_deliver_all[OF pos] a by (rule within_run)
    moreover have "posting (\<lambda>_. True) (fst w1) (fst w')" by (rule within_run[OF posting_deliver_all a]) simp
    moreover have "hk_ID (fst t) \<in> hk_ID ` set (hd_hooks (fst w1))" unfolding hooks by (rule live_hook_id[of "s_OrgID scope"]) (use Cons.prems(4) t in simp)
    ultimately show ?thesis using closed_stays ok Cons.prems(3) by blast
  qed
qed simp

text \<open>A message that was decoded is never reported as malformed.\<close>

definition honest :: "'a hook_op \<Rightarrow> bool" where
  "honest m \<longleftrightarrow> (\<forall>w. fst (m w) \<noteq> Inl (App MalformedEvent))"

lemma honest_rules:
  "honest (ret x)" "e \<noteq> App MalformedEvent \<Longrightarrow> honest (fail e)" "r \<noteq> Inl (App MalformedEvent) \<Longrightarrow> honest (lift r)"
  "honest (stmt Sql f)" "honest (query Sql g)" "honest (update Sql u)" "honest (attempt n)"
  by (auto simp: honest_def op_defs split: sum.splits prod.splits)

lemma honest_bnd: "honest m \<Longrightarrow> (\<And>a. honest (k a)) \<Longrightarrow> honest (bnd m k)"
  unfolding honest_def bnd_def by (auto split: prod.splits sum.splits) (metis fst_conv)+

lemma honest_tx: "honest m \<Longrightarrow> honest (tx Sql m)"
  unfolding honest_def tx_def by (auto split: prod.splits sum.splits txres.splits) (metis fst_conv)+

lemma honest_scope: "honest (reading ctx)" "honest (from_context ctx)" "honest (require_org ctx org)"
  unfolding reading_def from_context_def require_org_def
  by (auto intro!: honest_bnd honest_rules simp: FromContext_def RequireOrg_def split: option.splits if_splits sum.splits)

lemma honest_reserve: "honest (reserveAttempt claim now ctx hid event dl limit)"
  unfolding reserveAttempt_def by (auto intro!: honest_bnd honest_tx honest_rules honest_scope split: option.splits)

lemma honest_finish: "honest (finishAttempt ctx hid dl claim n code detail limit)"
  unfolding finishAttempt_def by (auto intro!: honest_bnd honest_tx honest_rules honest_scope)

lemma honest_deliver: "honest (deliver mac ctx limit t event dl body es)"
  by (induction es)
    (auto intro!: honest_bnd honest_rules honest_reserve honest_finish simp: post_worth(3) honest_def[of "post_request mac t event dl body code" for code])

lemma honest_deliver_all: "honest (deliver_all mac ctx limit rounds event dl body ts)"
  by (induction ts) (auto intro!: honest_bnd honest_rules honest_deliver split: option.splits)

lemma honest_targets: "honest (targets k ids now ctx repo event)"
proof -
  have "honest (open_targets k ids now event hs)" for hs
    by (induction hs) (auto intro!: honest_bnd honest_rules split: option.splits sum.splits)
  then show ?thesis unfolding targets_def by (intro honest_bnd honest_scope honest_rules)
qed

lemma honest_handle: "decode_message c msg_id data = Inr b \<Longrightarrow> honest (handle_message k mac c limit ids now rounds msg_id data)"
  unfolding handle_message_def Let_def by (auto intro!: honest_bnd honest_rules honest_targets honest_deliver_all split: option.splits)

subsection \<open>What closes a delivery\<close>

text \<open>
  A delivery is settled when its endpoint accepted a request for it, or when all its attempts were reserved.
  A row that is done was closed for one of the two.
\<close>

definition accepted_by :: "uuid \<Rightarrow> string \<Rightarrow> hookdb \<Rightarrow> bool" where
  "accepted_by hid dl d \<longleftrightarrow> (\<exists>p \<in> set (hd_posts d). po_HookID p = hid \<and> po_Delivery p = dl \<and> accepted (po_Code p))"

definition settled :: "int \<Rightarrow> uuid \<Rightarrow> string \<Rightarrow> hookdb \<Rightarrow> bool" where
  "settled limit hid dl d \<longleftrightarrow> accepted_by hid dl d \<or> (\<exists>r \<in> set (hd_dispatch d). is_dispatch hid dl r \<and> limit \<le> dp_Attempts r)"

definition earned :: "int \<Rightarrow> hookdb \<Rightarrow> bool" where
  "earned limit d \<longleftrightarrow> (\<forall>r \<in> set (hd_dispatch d). dp_Done r \<longrightarrow> settled limit (dp_HookID r) (dp_Delivery r) d)"

lemma closed_is_settled: "closed_delivery limit hid dl d \<Longrightarrow> earned limit d \<Longrightarrow> settled limit hid dl d"
  by (auto simp: closed_delivery_def earned_def settled_def is_dispatch_def)

text \<open>Rows that are done stay as they are, or go, and requests are only added.\<close>

lemma earned_if:
  assumes "earned limit d" and "set (hd_posts d) \<subseteq> set (hd_posts d')"
    and "\<And>r. r \<in> set (hd_dispatch d') \<Longrightarrow> dp_Done r \<Longrightarrow>
      \<exists>q \<in> set (hd_dispatch d). dp_Done q \<and> dispatch_key q = dispatch_key r"
    and "\<And>q r. q \<in> set (hd_dispatch d) \<Longrightarrow> r \<in> set (hd_dispatch d') \<Longrightarrow> dispatch_key q = dispatch_key r \<Longrightarrow>
      \<exists>r \<in> set (hd_dispatch d'). dispatch_key r = dispatch_key q \<and> dp_Attempts q \<le> dp_Attempts r"
  shows "earned limit d'"
  unfolding earned_def
proof (intro ballI impI)
  fix r assume r: "r \<in> set (hd_dispatch d')" "dp_Done r"
  then obtain q where q: "q \<in> set (hd_dispatch d)" "dp_Done q" "dispatch_key q = dispatch_key r" using assms(3) by blast
  then have "settled limit (dp_HookID r) (dp_Delivery r) d" using assms(1) unfolding earned_def by (metis prod.inject)
  then show "settled limit (dp_HookID r) (dp_Delivery r) d'"
    unfolding settled_def
  proof (elim disjE bexE conjE)
    fix x assume x: "x \<in> set (hd_dispatch d)" "is_dispatch (dp_HookID r) (dp_Delivery r) x" "limit \<le> dp_Attempts x"
    from assms(4)[OF x(1) r(1)] x(2) obtain y where "y \<in> set (hd_dispatch d')" "dispatch_key y = dispatch_key x" "dp_Attempts x \<le> dp_Attempts y"
      by (auto simp: is_dispatch_def)
    then show "accepted_by (dp_HookID r) (dp_Delivery r) d' \<or> (\<exists>r' \<in> set (hd_dispatch d'). is_dispatch (dp_HookID r) (dp_Delivery r) r' \<and> limit \<le> dp_Attempts r')"
      using x(2,3) by (auto simp: is_dispatch_def intro!: disjI2 bexI[of _ y])
  qed (use assms(2) in \<open>auto simp: accepted_by_def\<close>)
qed

lemma earned_unchanged:
  "hd_dispatch d' = hd_dispatch d \<Longrightarrow> hd_posts d' = hd_posts d \<Longrightarrow> keeps (earned limit) d d'"
  by (simp add: keeps_def earned_def settled_def accepted_by_def)

lemma earned_delete: "keeps (earned limit) d (snd (delete_hooks P d))"
proof (rule keepsI, erule earned_if)
  fix q r assume "q \<in> set (hd_dispatch d)" "r \<in> set (hd_dispatch (snd (delete_hooks P d)))" "dispatch_key q = dispatch_key r"
  then show "\<exists>r \<in> set (hd_dispatch (snd (delete_hooks P d))). dispatch_key r = dispatch_key q \<and> dp_Attempts q \<le> dp_Attempts r"
    by (intro bexI[of _ q]) (auto simp: delete_hooks_def Let_def)
qed (auto simp: delete_hooks_def Let_def)

lemma earned_insert_dispatch: "keeps (earned limit) d (snd (insert_dispatch org hid dl event d))"
  by (rule keepsI, erule earned_if) (auto simp: insert_dispatch_def split: if_splits)

lemma earned_update:
  assumes "\<And>r. P r \<Longrightarrow> dispatch_key (f r) = dispatch_key r \<and> dp_Attempts r \<le> dp_Attempts (f r) \<and> (dp_Done (f r) \<longrightarrow> dp_Done r)"
  shows "keeps (earned limit) d (d\<lparr>hd_dispatch := update_rows P f (hd_dispatch d)\<rparr>)"
proof (rule keepsI, erule earned_if)
  let ?d = "d\<lparr>hd_dispatch := update_rows P f (hd_dispatch d)\<rparr>"
  fix q assume "q \<in> set (hd_dispatch d)"
  then show "\<exists>r \<in> set (hd_dispatch ?d). dispatch_key r = dispatch_key q \<and> dp_Attempts q \<le> dp_Attempts r"
    using assms by (cases "P q") (auto simp: set_update_rows intro!: bexI[of _ "if P q then f q else q"])
next
  let ?d = "d\<lparr>hd_dispatch := update_rows P f (hd_dispatch d)\<rparr>"
  fix r assume "r \<in> set (hd_dispatch ?d)" and d: "dp_Done r"
  then obtain x where "x \<in> set (hd_dispatch d)" "r = (if P x then f x else x)" by (auto simp: set_update_rows)
  then show "\<exists>q \<in> set (hd_dispatch d). dp_Done q \<and> dispatch_key q = dispatch_key r"
    using assms[of x] d by (intro bexI[of _ x]) (auto split: if_splits)
qed simp

lemma earned_take: "keeps (earned limit) d (snd (take_attempt org hid dl limit' claim now d))"
  unfolding take_attempt_def Let_def snd_conv by (rule earned_update) simp

lemma earned_reserve: "within (keeps (earned limit)) (reserveAttempt claim now ctx hid event dl limit')"
  unfolding reserveAttempt_def from_context_def require_org_def
  by (intro inv_frame.frame_rules earned_insert_dispatch earned_take earned_unchanged) (auto dest: insert_delivery_parts)

lemma reserve_claims:
  assumes "reserveAttempt claim now ctx hid event dl limit w = (Inr n, w')" and "n \<noteq> 0" and "hooks_ok limit (fst w)" and "0 \<le> limit"
    and "r \<in> set (hd_dispatch (fst w'))" and "is_dispatch hid dl r"
  shows "dp_Attempts r = n"
  using assms(1)
proof (cases rule: reserve_tx)
  case (2 org d1 d2)
  have "hooks_ok limit d1" using frugal_insert_dispatch[OF assms(4)] 2(2) assms(3) by (auto simp: frugal_def)
  from take_some(1,8)[OF 2(3) this] obtain q where "q \<in> set (hd_dispatch d2)" "is_dispatch hid dl q" "dp_Attempts q = n" "hooks_ok limit d2"
    by auto
  then show ?thesis using assms(5,6) 2(4) by (auto simp: hooks_ok_def distinct_map is_dispatch_def dest: inj_onD)
qed (use assms(2) in simp)

lemma finish_statements:
  assumes "finishAttempt ctx hid dl claim n code detail limit w = (r, w')"
  obtains "fst w' = fst w"
  | org where "hd_dispatch (fst w') = hd_dispatch (snd (settle_attempt org hid dl claim (accepted code \<or> limit \<le> n) (fst w)))"
      "hd_posts (fst w') = hd_posts (fst w)"
proof (cases r)
  case (Inl e)
  with assms have "finishAttempt ctx hid dl claim n code detail limit w = (Inl e, w')" by simp
  then have "fst w' = fst w"
    unfolding finishAttempt_def bnd_Inl from_context_def by (auto simp: lift_run dest: tx_Inl_db)
  then show ?thesis by (rule that(1))
next
  case (Inr u)
  with assms show ?thesis
    using that(2) unfolding finishAttempt_def by (fastforce simp: run_simps settle_attempt_def Let_def split: if_splits)
qed

text \<open>An attempt is closed as accepted only when it was, and as the last one only when it is.\<close>

lemma finish_earned:
  assumes "finishAttempt ctx hid dl claim n code detail limit w = (r, w')" and "earned limit (fst w)"
    and "\<And>r. r \<in> set (hd_dispatch (fst w)) \<Longrightarrow> is_dispatch hid dl r \<Longrightarrow> dp_Attempts r = n"
    and "accepted code \<Longrightarrow> accepted_by hid dl (fst w)"
  shows "earned limit (fst w')"
  using assms(1)
proof (cases rule: finish_statements)
  case (2 org)
  let ?P = "\<lambda>r. own_hook org hid (fst w) \<and> is_dispatch hid dl r \<and> dp_Claim r = Some claim"
  let ?f = "\<lambda>r. r\<lparr>dp_Done := accepted code \<or> limit \<le> n, dp_LeaseUntil := None, dp_Claim := None\<rparr>"
  have rows: "hd_dispatch (fst w') = update_rows ?P ?f (hd_dispatch (fst w))" unfolding 2(1) by (simp add: settle_attempt_def Let_def)
  have acc: "accepted_by h x (fst w') = accepted_by h x (fst w)" for h x by (simp add: accepted_by_def 2(2))
  have kept: "settled limit h x (fst w')" if "settled limit h x (fst w)" for h x
  proof -
    have "\<exists>r' \<in> set (hd_dispatch (fst w')). is_dispatch h x r' \<and> limit \<le> dp_Attempts r'"
      if "r \<in> set (hd_dispatch (fst w))" "is_dispatch h x r" "limit \<le> dp_Attempts r" for r
      using that unfolding rows set_update_rows
      by (intro bexI[of _ "if ?P r then ?f r else r"]) (auto simp: is_dispatch_def intro: imageI)
    then show ?thesis using that unfolding settled_def acc by blast
  qed
  show ?thesis
    unfolding earned_def
  proof (intro ballI impI)
    fix r' assume r': "r' \<in> set (hd_dispatch (fst w'))" "dp_Done r'"
    then obtain r where r: "r \<in> set (hd_dispatch (fst w))" "r' = (if ?P r then ?f r else r)" unfolding rows set_update_rows by auto
    show "settled limit (dp_HookID r') (dp_Delivery r') (fst w')"
    proof (cases "?P r")
      case True
      then have "accepted code \<or> limit \<le> dp_Attempts r'" "is_dispatch hid dl r'"
        using r r'(2) assms(3)[OF r(1)] by (auto simp: is_dispatch_def)
      then show ?thesis using assms(4) r'(1) by (auto simp: settled_def acc is_dispatch_def)
    next
      case False
      then show ?thesis using r r'(2) assms(2) by (auto simp: earned_def intro: kept)
    qed
  qed
qed (use assms(2) in simp)

lemma post_earned:
  assumes "post_request mac t event dl body code w = (r, w')"
  shows "hd_dispatch (fst w') = hd_dispatch (fst w)" "accepted code \<Longrightarrow> accepted_by (hk_ID (fst t)) dl (fst w')"
    "earned limit (fst w) \<Longrightarrow> earned limit (fst w')"
proof -
  show rows: "hd_dispatch (fst w') = hd_dispatch (fst w)" using assms by (cases w) (auto simp: post_request_def)
  show "accepted code \<Longrightarrow> accepted_by (hk_ID (fst t)) dl (fst w')"
    using assms by (cases w) (auto simp: post_request_def accepted_by_def)
  have "set (hd_posts (fst w)) \<subseteq> set (hd_posts (fst w'))" using assms by (cases w) (auto simp: post_request_def)
  then show "earned limit (fst w) \<Longrightarrow> earned limit (fst w')" by (rule earned_if[rotated]) (auto simp: rows)
qed

definition sound :: "int \<Rightarrow> hookdb \<Rightarrow> bool" where
  "sound limit d \<longleftrightarrow> hooks_ok limit d \<and> earned limit d"

lemma sound_if: "within (frugal limit) m \<Longrightarrow> within (keeps (earned limit)) m \<Longrightarrow> within (keeps (sound limit)) m"
  by (auto simp: within_def frugal_def keeps_def sound_def)

lemma sound_deliver:
  assumes "0 \<le> limit"
  shows "within (keeps (sound limit)) (deliver mac ctx limit t event dl body es)"
proof (induction es)
  case (Cons e es)
  let ?hid = "hk_ID (fst t)"
  have reserve: "within (keeps (earned limit)) (reserveAttempt (ro_Claim e) (ro_Now e) ctx ?hid event dl limit)"
    by (rule earned_reserve)
  show ?case
    unfolding deliver.simps
  proof (rule withinI, rule keepsI)
    fix w :: "hookdb world"
    assume s: "sound limit (fst w)"
    then have ok: "hooks_ok limit (fst w)" and er: "earned limit (fst w)" by (simp_all add: sound_def)
    let ?m = "deliver mac ctx limit t event dl body (e # es)"
    have "within (frugal limit) ?m" by (rule frugal_deliver[OF assms])
    from withinD[OF this, of w] have frugal: "hooks_ok limit (fst (snd (?m w)))" using ok by (simp add: frugal_def)
    obtain q w1 where r: "reserveAttempt (ro_Claim e) (ro_Now e) ctx ?hid event dl limit w = (q, w1)"
      by (cases "reserveAttempt (ro_Claim e) (ro_Now e) ctx ?hid event dl limit w")
    have e1: "earned limit (fst w1)" using within_run[OF reserve r] er by (simp add: keeps_def)
    have "earned limit (fst (snd (?m w)))"
    proof (cases "\<exists>n. q = Inr n \<and> n \<noteq> 0")
      case False
      then show ?thesis using r e1 by (cases q) (auto simp: bnd_def ret_def)
    next
      case True
      then obtain n where n: "q = Inr n" "n \<noteq> 0" by blast
      obtain w2 where p: "post_request mac t event dl body (ro_Code e) w1 = (Inr (), w2)"
        using post_worth(3)[of mac t event dl body "ro_Code e" w1] by (cases "post_request mac t event dl body (ro_Code e) w1") auto
      obtain f w3 where f: "finishAttempt ctx ?hid dl (ro_Claim e) n (ro_Code e) (ro_Detail e) limit w2 = (f, w3)"
        by (cases "finishAttempt ctx ?hid dl (ro_Claim e) n (ro_Code e) (ro_Detail e) limit w2")
      have e3: "earned limit (fst w3)"
        using f post_earned(3)[OF p e1] reserve_claims[OF r[unfolded n(1)] n(2) ok assms] post_earned(1,2)[OF p]
        by (intro finish_earned[OF f]) auto
      have "hooks_ok limit (fst w1)" using reserve_Inr[OF r[unfolded n(1)] ok assms] n(2) by (auto simp: paid_def)
      then have "hooks_ok limit (fst w2)" using post_worth(2)[of limit mac t event dl body "ro_Code e" w1] p by simp
      then have "hooks_ok limit (fst w3)" using within_run[OF frugal_finish f, of limit] by (simp add: frugal_def)
      with e3 have "sound limit (fst w3)" by (simp add: sound_def)
      then have "sound limit (fst (snd (deliver mac ctx limit t event dl body es w3)))" using keepsD[OF Cons.IH] by blast
      with e3 show ?thesis using r n p f by (cases f) (auto simp: bnd_def ret_def fail_def sound_def)
    qed
    with frugal show "sound limit (fst (snd (bnd (reserveAttempt (ro_Claim e) (ro_Now e) ctx ?hid event dl limit) (\<lambda>n.
      if n = 0 then ret (Some ())
      else bnd (post_request mac t event dl body (ro_Code e)) (\<lambda>_.
           bnd (finishAttempt ctx ?hid dl (ro_Claim e) n (ro_Code e) (ro_Detail e) limit) (\<lambda>_.
           if accepted (ro_Code e) \<or> limit \<le> n then ret (Some ())
           else if ro_Cancelled e then fail (App Cancelled)
           else deliver mac ctx limit t event dl body es))) w)))" by (simp add: sound_def)
  qed
qed (simp add: inv_frame.frame_ret)

lemma sound_deliver_all: "0 \<le> limit \<Longrightarrow> within (keeps (sound limit)) (deliver_all mac ctx limit rounds event dl body ts)"
  by (induction ts) (auto intro!: inv_frame.frame_rules sound_deliver)

lemma earned_scope: "within (keeps (earned limit)) (managing ctx)" "within (keeps (earned limit)) (reading ctx)"
  unfolding managing_def reading_def from_context_def require_org_def by (intro inv_frame.frame_rules)+

lemma earned_targets: "within (keeps (earned limit)) (targets k ids now ctx repo event)"
proof -
  have "within (keeps (earned limit)) (open_targets k ids now event hs)" for hs
    by (induction hs)
      (auto intro!: inv_frame.frame_rules earned_unchanged simp: recordDelivery_def dest: insert_delivery_parts split: option.splits sum.splits)
  then show ?thesis unfolding targets_def by (intro inv_frame.frame_rules earned_scope)
qed

lemma sound_handle:
  "0 \<le> limit \<Longrightarrow> within (keeps (sound limit)) (handle_message k mac c limit ids now rounds msg_id data)"
  unfolding handle_message_def Let_def
  by (intro inv_frame.frame_rules sound_deliver_all sound_if[OF frugal_targets earned_targets])

lemma earned_admin:
  "within (keeps (earned limit)) (CreateHook parse k nonce new_id now ctx repo endpoint events secret)"
  "within (keeps (earned limit)) (DeleteHook ctx hid)"
  "within (keeps (earned limit)) (SetSecret k nonce ctx hid secret)"
  "within (keeps (earned limit)) (SetActive ctx hid active)"
  "within (keeps (earned limit)) (update Sql (\<lambda>d. ((), repositories_become repos d)))"
proof -
  show "within (keeps (earned limit)) (CreateHook parse k nonce new_id now ctx repo endpoint events secret)"
    unfolding CreateHook_def Let_def
    by (intro inv_frame.frame_rules earned_scope)
      (auto intro!: earned_unchanged inv_frame.frame_fail simp: insert_hook_def split: if_splits sum.splits)
  show "within (keeps (earned limit)) (DeleteHook ctx hid)"
    unfolding DeleteHook_def by (intro inv_frame.frame_rules earned_scope earned_delete)
  show "within (keeps (earned limit)) (SetSecret k nonce ctx hid secret)"
    unfolding SetSecret_def by (intro inv_frame.frame_rules earned_scope earned_unchanged) (simp_all add: change_hooks_def)
  show "within (keeps (earned limit)) (SetActive ctx hid active)"
    unfolding SetActive_def by (intro inv_frame.frame_rules earned_scope earned_unchanged) (simp_all add: change_hooks_def)
  have "keeps (earned limit) d (repositories_become repos d)" for d
    unfolding repositories_become_def by (rule inv_frame.frame_trans[OF earned_delete earned_unchanged]) simp_all
  then show "within (keeps (earned limit)) (update Sql (\<lambda>d. ((), repositories_become repos d)))"
    by (intro inv_frame.frame_update) simp
qed

lemma history_sound: "sound (hook_limit e) d \<Longrightarrow> sound (hook_limit e) (fold (hook_exec e) cs d)"
proof (induction cs arbitrary: d)
  case (Cons c cs)
  have "sound (hook_limit e) (hook_exec e c d)"
  proof (cases "\<exists>ids now rounds msg_id data. fst c = CmdMessage ids now rounds msg_id data")
    case True
    then obtain ids now rounds msg_id data where c: "fst c = CmdMessage ids now rounds msg_id data" by blast
    from keepsD[OF sound_handle[OF less_imp_le[OF hook_limit_pos]], of e "(d, snd c)"] show ?thesis
      using Cons.prems by (simp add: hook_exec_def c answer_dropped)
  next
    case False
    have "within (keeps (earned (hook_limit e))) (hook_perform e (fst c))"
      using False by (cases "fst c") (auto intro!: inv_frame.frame_bnd inv_frame.frame_ret earned_admin)
    from keepsD[OF this, of "(d, snd c)"] have "earned (hook_limit e) (hook_exec e c d)"
      using Cons.prems by (simp add: hook_exec_def sound_def)
    then show ?thesis using hook_exec_endowed Cons.prems unfolding sound_def by blast
  qed
  then show ?case using Cons.IH by simp
qed simp

text \<open>
  C32. After any history, a message is acknowledged only when, for every active hook that asked for its event and
  whose secret can be opened, a request for the delivery was answered with a 2xx status, or all the attempts the limit allows
  have been reserved for it.
\<close>

theorem acknowledged_delivery_is_settled:
  assumes "handle_message (he_cipher e) mac c (hook_limit e) ids now rounds msg_id data (fold (hook_exec e) cs (no_hooks repos), fs) = (r, w')"
    and "acks r" and "decode_message c msg_id data = Inr b"
    and "h \<in> set (hd_hooks (fold (hook_exec e) cs (no_hooks repos)))" and "wants (py_OrgID b) (py_RepoID b) (py_Event b) h" and "opened (he_cipher e) h s"
  shows "settled (hook_limit e) (hk_ID h) (py_Delivery b) (fst w')"
proof -
  let ?d = "fold (hook_exec e) cs (no_hooks repos)" and ?ctx = "Some (service_scope (py_OrgID b))"
  have "honest (handle_message (he_cipher e) mac c (hook_limit e) ids now rounds msg_id data)"
    using assms(3) by (rule honest_handle)
  then have "fst (handle_message (he_cipher e) mac c (hook_limit e) ids now rounds msg_id data (?d, fs)) \<noteq> Inl (App MalformedEvent)"
    unfolding honest_def by blast
  then have r: "r = Inr (Some ())" using assms(1,2) by (cases r) (auto simp: acks_def)
  have "sound (hook_limit e) (no_hooks repos)" using no_hooks_ok(1) by (simp add: sound_def earned_def no_hooks_def)
  then have s: "sound (hook_limit e) ?d" by (rule history_sound)
  then have ok: "hooks_ok (hook_limit e) ?d" by (simp add: sound_def)
  have "earned (hook_limit e) (fst w')"
    using within_run[OF sound_handle[OF less_imp_le[OF hook_limit_pos]] assms(1)] s by (simp add: keeps_def sound_def)
  moreover obtain ts body w1 where
      ts: "set ts = {(h, s). h \<in> set (hd_hooks ?d) \<and> wants (py_OrgID b) (py_RepoID b) (py_Event b) h \<and> opened (he_cipher e) h s}"
    and t: "targets (he_cipher e) ids now ?ctx (py_RepoID b) (py_Event b) (?d, fs) = (Inr ts, w1)"
    and a: "deliver_all mac ?ctx (hook_limit e) rounds (py_Event b) (py_Delivery b) body ts w1 = (Inr (Some ()), w')"
    by (rule handle_statements[OF assms(1,3)]) (use r that in auto)
  have "frugal (hook_limit e) ?d (fst w1)" using within_run[OF frugal_targets t] by simp
  then have ok1: "hooks_ok (hook_limit e) (fst w1)" using ok by (simp add: frugal_def)
  have "within (posting (\<lambda>_. True)) (targets (he_cipher e) ids now ?ctx (py_RepoID b) (py_Event b))"
    unfolding targets_def reading_def from_context_def require_org_def by (intro posting.frame_rules posting_open_targets)
  from within_run[OF this t] have "hd_hooks (fst w1) = hd_hooks ?d" by (simp add: posting_def)
  then have live: "\<forall>t \<in> set ts. live_hook (s_OrgID (service_scope (py_OrgID b))) (hk_ID (fst t)) (fst w1)"
    using ts by (auto simp: live_hook_def wants_def service_scope_def)
  have "(h, s) \<in> set ts" using ts assms(4-6) by simp
  from deliver_all_closes[OF a ok1 hook_limit_pos live this] have "closed_delivery (hook_limit e) (hk_ID h) (py_Delivery b) (fst w')" by simp
  ultimately show ?thesis by (rule closed_is_settled[rotated])
qed

section \<open>A delivery ends\<close>

lemma budget_deliver:
  assumes "0 < limit"
  shows "hooks_ok limit (fst w) \<Longrightarrow> budget limit (hk_ID (fst t)) dl (fst w) < length es \<Longrightarrow> fst (deliver mac ctx limit t event dl body es w) \<noteq> Inr None"
proof (induction es arbitrary: w)
  case (Cons e es)
  let ?hid = "hk_ID (fst t)"
  obtain q w1 where r: "reserveAttempt (ro_Claim e) (ro_Now e) ctx ?hid event dl limit w = (q, w1)"
    by (cases "reserveAttempt (ro_Claim e) (ro_Now e) ctx ?hid event dl limit w")
  show ?case
  proof (cases q)
    case (Inl x)
    then show ?thesis using r by (simp add: bnd_def)
  next
    case (Inr n)
    show ?thesis
    proof (cases "n = 0")
      case True
      then show ?thesis using r Inr by (simp add: bnd_def ret_def)
    next
      case False
      obtain w2 where p: "post_request mac t event dl body (ro_Code e) w1 = (Inr (), w2)"
        using post_worth(3)[of mac t event dl body "ro_Code e" w1] by (cases "post_request mac t event dl body (ro_Code e) w1") auto
      obtain f w3 where f: "finishAttempt ctx ?hid dl (ro_Claim e) n (ro_Code e) (ro_Detail e) limit w2 = (f, w3)"
        by (cases "finishAttempt ctx ?hid dl (ro_Claim e) n (ro_Code e) (ro_Detail e) limit w2")
      have paid: "paid limit ?hid dl (fst w) (fst w1)"
        using reserve_Inr[OF r[unfolded Inr] Cons.prems(1) less_imp_le[OF assms]] False by auto
      then have ok2: "hooks_ok limit (fst w2)" using post_worth(2)[of limit mac t event dl body "ro_Code e" w1] p by (simp add: paid_def)
      have "frugal limit (fst w2) (fst w3)" using frugal_finish f by (rule within_run)
      then have ok3: "hooks_ok limit (fst w3)" and w3: "worth limit ?hid dl (fst w3) \<le> worth limit ?hid dl (fst w2)"
        using ok2 by (simp_all add: frugal_def)
      have "posts_to ?hid dl (fst w2) \<le> posts_to ?hid dl (fst w3)"
        by (rule posts_grow[OF within_run[OF posting_finish f, of "\<lambda>_. True"]])
      then have "budget limit ?hid dl (fst w3) \<le> budget limit ?hid dl (fst w2)" using w3 by (simp add: worth_def)
      also have "budget limit ?hid dl (fst w2) = budget limit ?hid dl (fst w1)" using p by (cases w1) (auto simp: post_request_def budget_def)
      also have "Suc (budget limit ?hid dl (fst w1)) \<le> budget limit ?hid dl (fst w)" using paid by (auto simp: paid_def worth_def posts_to_def)
      finally have "budget limit ?hid dl (fst w3) < length es" using Cons.prems(2) by simp
      then have "fst (deliver mac ctx limit t event dl body es w3) \<noteq> Inr None" by (rule Cons.IH[OF ok3])
      then show ?thesis using r Inr False p f by (cases f) (simp_all add: bnd_def ret_def fail_def)
    qed
  qed
qed simp

lemma budget_bound: "hooks_ok limit d \<Longrightarrow> budget limit h dl d \<le> nat limit"
  by (auto simp: budget_def hooks_ok_def split: option.splits dest!: find_Some_in)

lemma deliver_all_ends:
  assumes "0 < limit" and "\<forall>h. nat limit < length (rounds h)"
  shows "hooks_ok limit (fst w) \<Longrightarrow> fst (deliver_all mac ctx limit rounds event dl body ts w) \<noteq> Inr None"
proof (induction ts arbitrary: w)
  case (Cons t ts)
  obtain q w1 where d: "deliver mac ctx limit t event dl body (rounds (hk_ID (fst t))) w = (q, w1)"
    by (cases "deliver mac ctx limit t event dl body (rounds (hk_ID (fst t))) w")
  have "budget limit (hk_ID (fst t)) dl (fst w) < length (rounds (hk_ID (fst t)))"
    using budget_bound[OF Cons.prems] assms(2) le_less_trans by blast
  then have "q \<noteq> Inr None" using budget_deliver[OF assms(1) Cons.prems] d by (metis fst_conv)
  moreover have "hooks_ok limit (fst w1)"
    using within_run[OF frugal_deliver[OF less_imp_le[OF assms(1)]] d] Cons.prems by (simp add: frugal_def)
  ultimately show ?case using Cons.IH[of w1] d by (cases q) (auto simp: bnd_def split: option.splits)
qed (simp add: ret_def)

text \<open>
  C33. After any history the handling of a message ends: one round more than the limit of attempts for each hook
  is never used up, whatever the endpoints answer and whatever statements fail.
\<close>

theorem deliveries_end:
  assumes "\<forall>h. nat (hook_limit e) < length (rounds h)"
  shows "fst (handle_message k mac c (hook_limit e) ids now rounds msg_id data (fold (hook_exec e) cs (no_hooks repos), fs)) \<noteq> Inr None"
proof (cases "decode_message c msg_id data")
  case (Inl x)
  then show ?thesis by (simp add: handle_message_def lift_def bnd_def fail_def)
next
  case (Inr b)
  let ?d = "fold (hook_exec e) cs (no_hooks repos)"
  have ok: "hooks_ok (hook_limit e) ?d" using history_endowed[OF no_hooks_ok(1)] by blast
  obtain r w' where h: "handle_message k mac c (hook_limit e) ids now rounds msg_id data (?d, fs) = (r, w')"
    by (cases "handle_message k mac c (hook_limit e) ids now rounds msg_id data (?d, fs)")
  from h Inr show ?thesis
  proof (cases rule: handle_statements)
    case (2 ts body w1)
    have "hooks_ok (hook_limit e) (fst w1)" using within_run[OF frugal_targets 2(3)] ok by (simp add: frugal_def)
    from deliver_all_ends[OF hook_limit_pos assms this] 2(4) h show ?thesis by (metis fst_conv)
  qed (use h in simp)
qed

section \<open>Witnesses\<close>

definition wh_env :: hook_env where
  "wh_env = \<lparr>he_parse = (\<lambda>u. Some (''https'', u)), he_cipher = \<lparr>ci_KEK = True, ci_seal = (\<lambda>_ p. p), ci_open = (\<lambda>_ c. Some c)\<rparr>,
     he_mac = (\<lambda>k m. k @ take 1 m),
     he_codec = \<lparr>mc_header = (\<lambda>_. Some ''''), mc_lifecycle = (\<lambda>_. None), mc_push = (\<lambda>_. Some \<lparr>pp_OrgID = 1, pp_RepoID = 3\<rparr>),
       mc_body = (\<lambda>raw delivery. Some (raw @ delivery)), mc_uuid = dec\<rparr>, he_MaxAttempts = 2\<rparr>"

definition wh_admin :: scope where
  "wh_admin = (service_scope 1)\<lparr>s_ActorID := 2, s_ActorKind := ''user''\<rparr>"

definition wh_rounds :: "uuid \<Rightarrow> round list" where
  "wh_rounds h = [\<lparr>ro_Claim = 31, ro_Now = 100, ro_Code = 500, ro_Detail = '''', ro_Cancelled = False\<rparr>,
     \<lparr>ro_Claim = 32, ro_Now = 200, ro_Code = 200, ro_Detail = '''', ro_Cancelled = False\<rparr>,
     \<lparr>ro_Claim = 33, ro_Now = 300, ro_Code = 200, ro_Detail = '''', ro_Cancelled = False\<rparr>]"

definition wh_created :: "(hook_cmd \<times> bool list) list" where
  "wh_created = [(CmdCreateHook 9 ''nonce0nonce1'' 5 (Some wh_admin) 3 ''h'' [] ''s'', [])]"

definition wh_message :: "hook_cmd \<times> bool list" where
  "wh_message = (CmdMessage (\<lambda>h. 40) 100 wh_rounds ''1-1'' (Some ''push''), [])"

lemmas wh_defs = wh_env_def wh_admin_def wh_created_def wh_message_def

definition wh_hook :: hook where
  "wh_hook = \<lparr>hk_ID = 9, hk_OrgID = 1, hk_RepoID = 3, hk_URL = ''h'', hk_Events = [], hk_Secret = Some ''nonce0nonce1s'', hk_Active = True,
     hk_CreatedAt = 5\<rparr>"

lemma wh_created_hook: "hd_hooks (fold (hook_exec wh_env) wh_created (no_hooks [(3, 1)])) = [wh_hook]"
  by code_simp

lemma wh_delivered:
  "posts_to 9 ''1-1'' (fold (hook_exec wh_env) (wh_created @ [wh_message]) (no_hooks [(3, 1)])) = 2"
  "budget (hook_limit wh_env) 9 ''1-1'' (fold (hook_exec wh_env) (wh_created @ [wh_message]) (no_hooks [(3, 1)])) = 0"
  by code_simp+

theorem attempts_are_bounded_witness:
  "posts_to 9 ''1-1'' (fold (hook_exec wh_env) ((wh_created @ [wh_message]) @ [wh_message]) (no_hooks [(3, 1)])) \<le> 2"
  using attempts_are_bounded[of 9 "''1-1''" wh_env "wh_created @ [wh_message]" "[(3, 1)]" "[wh_message]"] wh_delivered
  by (simp add: wh_message_def)

definition wh_payload :: payload where
  "wh_payload = \<lparr>py_Event = ''push'', py_Delivery = ''1-1'', py_OrgID = 1, py_RepoID = 3\<rparr>"

definition wh_handled :: "(hookerr fault + unit option) \<times> hookdb world" where
  "wh_handled = handle_message (he_cipher wh_env) (he_mac wh_env) (he_codec wh_env) (hook_limit wh_env) (\<lambda>h. 40) 100 wh_rounds ''1-1'' (Some ''push'')
     (fold (hook_exec wh_env) wh_created (no_hooks [(3, 1)]), [])"

lemma wh_decoded: "decode_message (he_codec wh_env) ''1-1'' (Some ''push'') = Inr wh_payload"
  by code_simp

lemma wh_acked: "acks (fst wh_handled)"
  by code_simp

lemma wh_opened: "opened (he_cipher wh_env) wh_hook ''s''" "wants (py_OrgID wh_payload) (py_RepoID wh_payload) (py_Event wh_payload) wh_hook"
  by code_simp+

theorem requests_are_signed_for_subscribers_witness:
  "\<exists>ps. hd_posts (fst (snd wh_handled)) = hd_posts (fold (hook_exec wh_env) wh_created (no_hooks [(3, 1)])) @ ps
    \<and> list_all (sent_to (he_cipher wh_env) (he_mac wh_env) (Some ''push1-1'') wh_payload (fold (hook_exec wh_env) wh_created (no_hooks [(3, 1)]))) ps"
proof -
  have "mc_body (he_codec wh_env) (the (Some ''push'')) (py_Delivery wh_payload) = Some ''push1-1''" by (simp add: wh_env_def wh_payload_def)
  then show ?thesis
    using requests_are_signed_for_subscribers[OF _ wh_decoded, of "he_cipher wh_env" "he_mac wh_env" "hook_limit wh_env" "\<lambda>h. 40" 100 wh_rounds
        "(fold (hook_exec wh_env) wh_created (no_hooks [(3, 1)]), [])" "fst wh_handled" "snd wh_handled"]
    by (simp add: wh_handled_def)
qed

theorem acknowledged_delivery_is_settled_witness:
  "settled (hook_limit wh_env) 9 ''1-1'' (fst (snd wh_handled))"
proof -
  have "handle_message (he_cipher wh_env) (he_mac wh_env) (he_codec wh_env) (hook_limit wh_env) (\<lambda>h. 40) 100 wh_rounds ''1-1'' (Some ''push'')
     (fold (hook_exec wh_env) wh_created (no_hooks [(3, 1)]), []) = (fst wh_handled, snd wh_handled)" by (simp add: wh_handled_def)
  from acknowledged_delivery_is_settled[OF this wh_acked wh_decoded, of wh_hook "''s''"] show ?thesis
    using wh_created_hook wh_opened by (simp add: wh_hook_def wh_payload_def)
qed

theorem deliveries_end_witness: "fst wh_handled \<noteq> Inr None"
proof -
  have "\<forall>h. nat (hook_limit wh_env) < length (wh_rounds h)" by (simp add: hook_limit_def maxAttempts_def wh_env_def wh_rounds_def)
  from deliveries_end[OF this] show ?thesis unfolding wh_handled_def .
qed

end
