(* ===== verification/Spec2Isabelle.thy ===== *)
theory Spec2Isabelle
  imports NF_Approvals NF_Inbox NF_SwarmPlan NF_SwarmSched NF_AgentProps NF_ReviewProps NF_MergeProps NF_ReviewWorker
    NF_ChangesProps NF_ExceptionProps NF_CIProps NF_SvcAuth NF_Egress NF_Webhooks
begin

text \<open>
  NovaForge: work items, agent runs, reviews, gates, merging and continuous integration.

  The program is a forge for software written with agents. People and agents file work items
  (\<open>internal/work\<close>); a run of an agent (\<open>internal/agents\<close>) executes an item under a capability
  grant that confines what it may read and write (\<open>internal/capability\<close>); some changes need a
  person's approval (\<open>internal/approvals\<close>); large items are split by a model and their parts are
  started as they become ready (\<open>internal/swarm\<close>). What an agent wrote is reviewed
  (\<open>internal/reviews\<close>), its change is classified and passed through the gates of the repository
  (\<open>internal/gates\<close>), and merged when the gates, the approvals and an independent reviewer agree.
  Pushes start workflows whose jobs run on registered runners (\<open>internal/ci\<close>), with credentials that
  are leased for the job, masked in its output and revoked after it. Each service owns its tables.
  The services meet in a few places, and those are where most of the properties lie: admitting a run
  claims its item at the work service and has a grant issued; ending it releases the item, revokes
  the grant and tears the workspace down, each by an obligation stored with the run until its owner
  confirms; a merge asks the gates, the approvals and the reviews about one and the same commit; a
  job that ends owes the revocation of every credential it was given until the broker confirms.

  How the code is modelled. A service's tables are a record of lists of rows, a row is a record with
  the columns of the code's struct, and a column that may be NULL is an option. An operation is a
  function from a world to a result and a world, \<open>Inl\<close> an error and \<open>Inr\<close> a value; the world is the
  tables and a script that says of every coming statement whether it fails. So each statement of an
  operation may fail, and what was committed before it stays. A transaction (\<open>tx\<close>) restores the
  tables when its body ends in an error or in a rollback. Constraints of the schema that the code
  relies on (unique indexes, checks, foreign keys) are tests of the statements that write. Times are
  integers counting nanoseconds; identifiers are natural numbers, 0 the nil UUID, and fresh ones are
  arguments; a Go \<open>int64\<close> is a 64-bit word where it may overflow. Answers of other services, of the
  model and of Kubernetes are arguments of the operations that ask for them.

  The theories, with the Go sources they translate:
    \<^item> \<open>NF_Prelude\<close>: worlds, operations, statements, transactions, the locale \<open>service\<close> (operations
      that respect a relation on the tables) and its rules, text and lists as Go treats them.
    \<^item> \<open>NF_Authz\<close> (\<open>authz/scope.go\<close>): the scope of a caller and its checks.
    \<^item> \<open>NF_Capability\<close> (\<open>capability/grant.go, issuance.go, legacy.go\<close>): grants, their issuance,
      cancellation and revocation.
    \<^item> \<open>NF_Approvals\<close> (\<open>approvals/policy.go, store.go, deployment.go\<close> and \<open>gates/purge.go\<close>): the policy,
      the requests and their purge with a deleted run or organization.
    \<^item> \<open>NF_WorkStore\<close> (\<open>work/store.go, deps.go, subtasks.go, completed.go\<close>) and \<open>NF_WorkExec\<close>
      (\<open>work/execution.go, proposals.go, edit.go, purge.go\<close>): the items, their dependencies, the
      execution claims, proposals, edits and deletion. \<open>NF_WorkSteps\<close> states the contract of the
      service as a step relation, \<open>NF_WorkLaws\<close> shows that every operation keeps to it, and
      \<open>NF_WorkProps\<close> and \<open>NF_WorkRuns\<close> hold the properties of any history.
    \<^item> \<open>NF_Inbox\<close> (\<open>work/inbox.go\<close>): the notifications.
    \<^item> \<open>NF_SwarmPlan\<close> (\<open>swarm/planner.go\<close>) and \<open>NF_SwarmSched\<close> (\<open>swarm/scheduler.go\<close> with
      \<open>cmd/work-reviews/swarm.go\<close>): splitting an item, and the tick that starts what is ready.
    \<^item> \<open>NF_AgentStore\<close> (\<open>agents/store.go, admission.go, lock.go, execution_claim.go\<close>), \<open>NF_AgentOps\<close>
      (\<open>completion.go, settle.go, recover.go, grant_cleanup.go, workspace_cleanup.go, purge.go\<close>),
      \<open>NF_AgentBudget\<close> (\<open>budget.go, pricing.go, lifetime.go\<close>), \<open>NF_AgentAudit\<close> (\<open>audit.go,
      audit_events.go\<close>) and \<open>NF_AgentServer\<close> (\<open>grpc.go, grpc_lock.go, grpc_intent.go, activity.go\<close>):
      the run service. \<open>NF_AgentLaws\<close> gives what a row may become (\<open>run_evolves\<close>) and what the
      tables always satisfy (\<open>agents_wf\<close>), \<open>NF_AgentHistory\<close> shows that every command keeps to it,
      and \<open>NF_AgentProps\<close> holds the properties.
    \<^item> \<open>NF_Reviews\<close> (\<open>reviews/store.go, proof.go, purge.go, merge.go, review_requests.go,
      review_execution.go, execution_gateway.go, review_config.go, revision.go\<close>): the runs under review,
      the proofs of the gates, the reviews, the requests for agent reviews and their executions.
      \<open>NF_ReviewHistory\<close> gives the laws of its histories and \<open>NF_ReviewProps\<close> the properties.
    \<^item> \<open>NF_ReviewWorker\<close> (\<open>reviews/review_worker.go, agentreview.go\<close>): the worker that serves them.
    \<^item> \<open>NF_Changes\<close> (\<open>gates/changes.go\<close>): the paths of a diff and its classification;
      \<open>NF_ChangesProps\<close> states the patch format as git documents it (\<open>git_patch_of\<close>) and parses it back.
    \<^item> \<open>NF_Gates\<close> (\<open>gates/resolve.go, store.go, wiring.go, gateconfig/parameters.go,
      repoconfig/config.go\<close>) and \<open>NF_Controller\<close> (\<open>gates/controller.go, approvals.go, grpc.go,
      grpc_approvals.go, proof_service.go\<close>): which gates a change needs, their evaluation, and the
      question whether a run may merge.
    \<^item> \<open>NF_Forge\<close> and \<open>NF_Merge\<close> (\<open>reviews/grpc.go, grpc_merge.go, automerge.go, impact.go,
      gatesclient.go, inbox.go\<close>): the three services put together, the merge and the automatic merge;
      \<open>NF_MergeProps\<close> holds the property.
    \<^item> \<open>NF_Exceptions\<close> (\<open>reviews/exceptions.go\<close>, and the deployed auto-merger of
      \<open>cmd/work-reviews/automerge.go\<close>): the dashboard; \<open>NF_ExceptionProps\<close> holds the property.
    \<^item> \<open>NF_Redact\<close> (\<open>redact/redact.go\<close>): what is masked, and that masking leaves nothing of it.
    \<^item> \<open>NF_CI\<close> (\<open>ci/store.go, reservation.go, connections.go, runner_journal.go, credential_outbox.go,
      artifacts.go, logs.go, log_retention.go, purge.go, agentjobs.go, retention/policy.go\<close>): the tables
      of continuous integration with the triggers of their migrations, and the operations on them.
      \<open>NF_CIWork\<close> (\<open>ci/workflow.go, scheduler.go, trigger.go, dispatch.go, credentials.go, redactions.go,
      pump.go, grpc.go, runnerauth.go, query.go\<close> and the worker of \<open>agentjobs.go\<close>): workflows, scheduling,
      the dispatcher, the pump that brokers credentials and sends jobs, the service the runners call,
      the agent jobs and the queries. \<open>NF_CIHistory\<close> has the commands and the locales of their laws,
      \<open>NF_CILaws\<close> the laws and their interpretations, \<open>NF_CIProps\<close> the properties.
    \<^item> \<open>NF_SvcAuth\<close> (\<open>svcauth/token.go, interceptor.go\<close>): the tokens services present to one another
      and the scope a request gets from its credential.
    \<^item> \<open>NF_Egress\<close> (\<open>egress/policy.go\<close>): the destinations the platform may call.
    \<^item> \<open>NF_Webhooks\<close> (\<open>webhooks/store.go, dispatch.go, deliver.go\<close>): the endpoints of a repository,
      the budget of attempts, and the worker that delivers an event to them.

  What the lemmas show. The refinement lemmas (\<open>respects_*\<close> of the work service, \<open>within_*\<close> of the
  run service, the reviews and continuous integration) say of each operation, whichever of its statements fail, that it changes the tables
  only by the steps of the contract. From them the invariants follow for any sequence of commands:
  one execution per item, an acyclic dependency graph, decisions that stay until their run is purged, runs that stay
  as they ended, a revocation that is owed until it is confirmed, scopes that stay deleted, proofs
  that stay their producer's, workflow runs that settle once, journals without a gap. For continuous
  integration the laws of any history are stated in the locales \<open>ci_frame\<close> and \<open>ci_purge_frame\<close>: what
  every store operation respects, every command and every history respects. The
  functional properties say what one operation answers and leaves behind. The properties of the
  planner (the colouring search), of the branch prefixes, of the budgets and of the replay of events
  are about the code's own algorithms.

  Fuel. \<open>checkAcyclic\<close> descends at most one level per subtask, so it runs with one unit per subtask
  and one more, and \<open>checkAcyclic_exact\<close> shows that this suffices for every input. The loop that
  replays the events of a run reads batches of a hundred, and \<open>replay_delivers_each_event_once\<close>
  shows that one unit per batch, and one more, suffices. The tick of the agent jobs claims jobs until
  none is left; \<open>agent_tick_ends\<close> shows that one unit per pending agent job, and one more, suffices.
  The rounds of a webhook delivery are a list, and \<open>deliveries_end\<close> shows that one for each attempt
  allowed, and one more, is enough.
  \<open>ReportStatus\<close> polls for the log barrier a bounded number of times, an argument here. Every other
  loop is structural or has its termination proof.

  Not modelled. Operations run one after another: between the statements of one operation no other
  is interleaved, except where a lemma says so explicitly (\<open>interleaved_dependencies_cycle\<close>). Row
  locks are thus not visible; numbers that a rolled back transaction drew from a sequence are used
  again. The consumer loops over Redis streams, the live tail of a log and failures to send on a
  stream are not modelled; the decoders of YAML and JSON and the tools a gate runs are arguments.
  Protobuf conversions, polling, timers and goroutines of the gRPC services, the wiring of the
  binaries, the broker of stored secrets and the code that only drives another program (git, Kubernetes, object storage, the
  browser client, the command line client) are left out. The remaining packages are listed, with the
  reason, in the manifest.
\<close>

end
